(* ===== verification/Prelude.thy ===== *)
theory Prelude
  imports Main "HOL-Library.Word"
begin

text \<open>
  What every component theory shares: the names of the machine integer types, the C++
  operations on signed integers that HOL does not have under the same meaning, byte
  sequences in the little-endian order that x86 uses, and generic facts about them.

  Unsigned C++ integers are words of their width (arithmetic wraps). Signed C++ integers are
  int; where a computation could leave the range of its C++ type the component states
  the bound it needs and proves it, because leaving the range is undefined behaviour in C++.
\<close>

unbundle bit_operations_syntax

named_theorems model_simps \<open>unfolding facts of the components\<close>
named_theorems val_simps \<open>facts that read a concrete value as a number\<close>

type_synonym byte = "8 word"
type_synonym u16 = "16 word"
type_synonym u32 = "32 word"
type_synonym u64 = "64 word"

section \<open>Signed integers\<close>

definition int64_range :: "int \<Rightarrow> bool" where
  "int64_range x \<longleftrightarrow> - (2 ^ 63) \<le> x \<and> x < 2 ^ 63"

definition int32_range :: "int \<Rightarrow> bool" where
  "int32_range x \<longleftrightarrow> - (2 ^ 31) \<le> x \<and> x < 2 ^ 31"

text \<open>C++ integer division truncates towards zero; the remainder has the dividend's sign.\<close>

definition c_div :: "int \<Rightarrow> int \<Rightarrow> int" where
  "c_div a b = sgn a * sgn b * (\<bar>a\<bar> div \<bar>b\<bar>)"

definition c_mod :: "int \<Rightarrow> int \<Rightarrow> int" where
  "c_mod a b = a - b * c_div a b"

lemma c_div_nonneg: "0 \<le> a \<Longrightarrow> 0 < b \<Longrightarrow> c_div a b = a div b"
  by (cases "a = 0") (simp_all add: c_div_def)

lemma c_div_neg: "a < 0 \<Longrightarrow> 0 < b \<Longrightarrow> c_div a b = - ((- a) div b)"
  by (simp add: c_div_def)

lemma c_div_abs: "0 < b \<Longrightarrow> \<bar>c_div a b\<bar> = \<bar>a\<bar> div b"
  by (cases "0 \<le> a") (simp_all add: c_div_nonneg c_div_neg pos_imp_zdiv_nonneg_iff)

lemma c_mod_nonneg: "0 \<le> a \<Longrightarrow> 0 < b \<Longrightarrow> c_mod a b = a mod b"
  by (simp add: c_mod_def c_div_nonneg minus_mult_div_eq_mod)

lemma c_div_mono:
  assumes "a \<le> a'" and "0 < b"
  shows "c_div a b \<le> c_div a' b"
proof (cases "0 \<le> a")
  case True
  with assms show ?thesis by (simp add: c_div_nonneg zdiv_mono1)
next
  case False
  show ?thesis
  proof (cases "0 \<le> a'")
    case True
    have "0 \<le> (- a) div b" using False assms by (simp add: pos_imp_zdiv_nonneg_iff)
    moreover have "0 \<le> a' div b" using True assms by (simp add: pos_imp_zdiv_nonneg_iff)
    ultimately show ?thesis using False True assms by (simp add: c_div_nonneg c_div_neg)
  next
    case neg: False
    have "(- a') div b \<le> (- a) div b" using assms by (simp add: zdiv_mono1)
    then show ?thesis using False neg assms by (simp add: c_div_neg)
  qed
qed

lemma c_div_abs_le: "\<bar>c_div a b\<bar> \<le> \<bar>a\<bar>"
proof -
  have *: "\<bar>a\<bar> div \<bar>b\<bar> \<le> \<bar>a\<bar>"
    using zdiv_mono2 [of "\<bar>a\<bar>" 1 "\<bar>b\<bar>"] by (cases "b = 0") simp_all
  have "0 \<le> \<bar>a\<bar> div \<bar>b\<bar>"
    by (cases "b = 0") (simp_all add: pos_imp_zdiv_nonneg_iff)
  then have "\<bar>c_div a b\<bar> = \<bar>sgn a\<bar> * \<bar>sgn b\<bar> * (\<bar>a\<bar> div \<bar>b\<bar>)"
    by (simp add: c_div_def abs_mult)
  also have "\<dots> \<le> \<bar>a\<bar> div \<bar>b\<bar>"
    using \<open>0 \<le> \<bar>a\<bar> div \<bar>b\<bar>\<close> by (simp add: abs_sgn_eq)
  finally show ?thesis using * by linarith
qed


section \<open>Words as numbers\<close>

lemma unat_of_nat_less: "n < 2 ^ LENGTH('a) \<Longrightarrow> unat (word_of_nat n :: 'a::len word) = n"
  by (simp only: unat_of_nat mod_less)

lemma unat_add_less: "unat (a :: u64) + unat b < 2 ^ 64 \<Longrightarrow> unat (a + b) = unat a + unat b"
  by (simp add: unat_word_ariths)

lemma unat_mult_less: "unat (a :: u64) * unat b < 2 ^ 64 \<Longrightarrow> unat (a * b) = unat a * unat b"
  by (simp add: unat_word_ariths)

lemma unat_sub_le: "unat (b :: u64) \<le> unat a \<Longrightarrow> unat (a - b) = unat a - unat b"
  by (simp add: unat_sub_if_size)

lemma u64_bounds:
  "unat (n :: u64) < 18446744073709551616" "uint (n :: u64) < 18446744073709551616" "0 \<le> uint n"
  using uint_bounded [of n] unsigned_less [of n, where ?'a = nat] by simp_all

lemma u32_bounds:
  "unat (n :: u32) < 4294967296" "uint (n :: u32) < 4294967296" "0 \<le> uint n"
  using uint_bounded [of n] unsigned_less [of n, where ?'a = nat] by simp_all

lemma u64_of_u32:
  "unat (ucast (w :: u32) :: u64) = unat w" "uint (ucast (w :: u32) :: u64) = uint w"
proof -
  show u: "uint (ucast (w :: u32) :: u64) = uint w"
    using u32_bounds(2) [of w] by (simp add: unsigned_ucast_eq take_bit_int_eq_self)
  show "unat (ucast (w :: u32) :: u64) = unat w" unfolding unat_eq_nat_uint u ..
qed

lemma unat_u32_of_u64: "unat (ucast (w :: u64) :: u32) = unat w mod 4294967296"
  by (simp add: unsigned_ucast_eq take_bit_eq_mod)

lemma unat_drop_bit: "unat (drop_bit n w) = unat w div 2 ^ n"
  by (subst unat_drop_bit_eq) (simp add: drop_bit_eq_div)

lemma unat_take_bit: "unat (take_bit n w) = unat w mod 2 ^ n"
  by (simp only: unsigned_take_bit_eq) (simp only: take_bit_eq_mod)

lemma bit_unat: "bit (w :: 'a::len word) n \<longleftrightarrow> odd (unat w div 2 ^ n)"
proof -
  have "bit w n \<longleftrightarrow> bit (unat w) n"
    by (auto simp: bit_unsigned_iff dest: bit_imp_le_length)
  then show ?thesis by (simp add: bit_iff_odd)
qed

lemma unat_or_disjoint: "a AND b = 0 \<Longrightarrow> unat (a OR b) = unat a + unat (b :: 'a::len word)"
  by (metis disjunctive_add_eq_or unsigned_0 unsigned_and_eq unsigned_or_eq)

lemma unat_push_bit: "unat w * 2 ^ n < 2 ^ LENGTH('a) \<Longrightarrow> unat (push_bit n (w :: 'a::len word)) = unat w * 2 ^ n"
  by (simp only: unsigned_push_bit_eq) (simp add: take_bit_eq_mod push_bit_eq_mult)
 
lemma bit_less_exp: "bit (w :: 'a::len word) i \<Longrightarrow> unat w < 2 ^ n \<Longrightarrow> i < n"
proof (rule ccontr)
  assume b: "bit w i" and w: "unat w < 2 ^ n" and "\<not> i < n"
  then have "(2 :: nat) ^ n \<le> 2 ^ i" by (intro power_increasing) simp_all
  with w have "unat w < 2 ^ i" by linarith
  then have "unat w div 2 ^ i = 0" by simp
  with b show False by (simp add: bit_unat)
qed

lemma and_push_bit_disjoint:
  "unat w < 2 ^ n \<Longrightarrow> w AND push_bit n v = 0" for w v :: "'a::len word"
  by (rule bit_eqI) (auto simp: bit_and_iff bit_push_bit_iff dest: bit_less_exp)

lemma unat_or_push_bit:
  fixes w v :: "'a::len word"
  assumes "unat w < 2 ^ n" and "unat v * 2 ^ n < 2 ^ LENGTH('a)"
  shows "unat (w OR push_bit n v) = unat w + unat v * 2 ^ n"
  using assms by (simp add: unat_or_disjoint and_push_bit_disjoint unat_push_bit)

lemma bit_top_iff: "unat w < 2 ^ Suc n \<Longrightarrow> bit (w :: 'a::len word) n \<longleftrightarrow> 2 ^ n \<le> unat w"
proof -
  assume w: "unat w < 2 ^ Suc n"
  show ?thesis
  proof (cases "2 ^ n \<le> unat w")
    case True
    with w have "unat w div 2 ^ n = 1" by (simp add: div_nat_eqI)
    with True show ?thesis by (simp add: bit_unat)
  qed (simp add: bit_unat)
qed

lemma and_masks:
  "w AND 0xff = take_bit 8 (w :: 'a::len word)"
  "w AND 0x7f = take_bit 7 w"
  "w AND 0xffff = take_bit 16 w"
  "w AND 0x7fffff = take_bit 23 w"
  "w AND 0xffffffff = take_bit 32 w"
  by (simp_all add: take_bit_eq_mask mask_eq_exp_minus_1)

lemma and_bits:
  "w AND 0x80 = 0 \<longleftrightarrow> \<not> bit (w :: 'a::len word) 7"
  "w AND 0x800000 = 0 \<longleftrightarrow> \<not> bit w 23"
  using and_exp_eq_0_iff_not_bit [of w 7] and_exp_eq_0_iff_not_bit [of w 23] by simp_all


section \<open>Little-endian byte sequences\<close>

fun le_val :: "byte list \<Rightarrow> nat" where
  "le_val [] = 0"
| "le_val (b # bs) = unat b + 256 * le_val bs"

fun le_bytes :: "nat \<Rightarrow> byte list" where
  "le_bytes n = (if n = 0 then [] else word_of_nat (n mod 256) # le_bytes (n div 256))"

declare le_bytes.simps [simp del]

text \<open>A fixed number of bytes, least significant first: the memory image of an unsigned integer.\<close>

primrec le_fixed :: "nat \<Rightarrow> nat \<Rightarrow> byte list" where
  "le_fixed 0 n = []"
| "le_fixed (Suc k) n = word_of_nat (n mod 256) # le_fixed k (n div 256)"

lemma unat_byte_of_mod [simp]: "unat (word_of_nat (n mod 256) :: byte) = n mod 256"
  by (simp add: unat_of_nat)

lemma unat_byte_less: "unat (b :: byte) < 256"
  using unsigned_less [of b] by simp

lemma unat_ucast_byte: "unat (ucast (w :: 'a::len word) :: byte) = unat w mod 256"
  by (simp add: unsigned_ucast_eq take_bit_eq_mod)

lemma ucast_and_ff: "8 \<le> LENGTH('a) \<Longrightarrow> (ucast (w AND 0xff) :: byte) = ucast (w :: 'a::len word)"
  by (rule word_unat_eq_iff [THEN iffD2])
    (simp only: unat_ucast_byte and_masks unat_take_bit, simp)

lemma byte_bit7: "bit (b :: byte) 7 \<longleftrightarrow> 128 \<le> unat b"
proof (cases "128 \<le> unat b")
  case True
  then have "unat b div 128 = 1" using unat_byte_less [of b] by (simp add: div_nat_eqI)
  with True show ?thesis by (simp add: bit_unat)
qed (simp add: bit_unat)

lemma byte_and_7f: "unat (b AND 0x7f :: byte) = unat b mod 128"
  by (simp add: and_masks unat_take_bit)

lemma byte_or_80: "unat (b :: byte) < 128 \<Longrightarrow> unat (b OR 0x80) = unat b + 128"
  using byte_bit7 [of b] by (simp add: unat_or_disjoint and_bits)

lemma le_bytes_0 [simp]: "le_bytes 0 = []"
  by (simp add: le_bytes.simps)

lemma le_bytes_pos: "0 < n \<Longrightarrow> le_bytes n = word_of_nat (n mod 256) # le_bytes (n div 256)"
  by (simp add: le_bytes.simps [of n])

lemma le_bytes_eq_Nil [simp]: "le_bytes n = [] \<longleftrightarrow> n = 0"
  by (cases "n = 0") (simp_all add: le_bytes_pos)

lemma le_val_bound: "le_val bs < 256 ^ length bs"
proof (induction bs)
  case (Cons b bs)
  have "unat b < 256" by (rule unat_byte_less)
  with Cons.IH have "unat b + 256 * le_val bs < 256 * 256 ^ length bs" by linarith
  then show ?case by simp
qed simp

lemma le_val_append [simp]: "le_val (xs @ ys) = le_val xs + 256 ^ length xs * le_val ys"
  by (induction xs) (simp_all add: algebra_simps)

lemma le_val_le_bytes [simp]: "le_val (le_bytes n) = n"
proof (induction n rule: le_bytes.induct)
  case (1 n)
  then show ?case by (cases "n = 0") (simp_all add: le_bytes_pos)
qed

lemma length_le_fixed [simp]: "length (le_fixed k n) = k"
  by (induction k arbitrary: n) simp_all

lemma le_val_le_fixed: "le_val (le_fixed k n) = n mod 256 ^ k"
  by (induction k arbitrary: n) (simp_all add: mod_mult2_eq)

lemma le_fixed_le_val [simp]: "length bs = k \<Longrightarrow> le_fixed k (le_val bs) = bs"
proof (induction bs arbitrary: k)
  case (Cons b bs)
  have "unat b < 256" by (rule unat_byte_less)
  then show ?case using Cons by auto
qed simp

lemma last_le_bytes: "0 < n \<Longrightarrow> last (le_bytes n) \<noteq> 0"
proof (induction n rule: le_bytes.induct)
  case (1 n)
  show ?case
  proof (cases "n < 256")
    case True
    then have "unat (word_of_nat n :: byte) \<noteq> 0" using 1 by (simp add: unat_of_nat)
    then have "(word_of_nat n :: byte) \<noteq> 0" by auto
    with True 1 show ?thesis by (simp add: le_bytes_pos)
  next
    case False
    then have "0 < n div 256" by simp
    with 1 show ?thesis by (simp add: le_bytes_pos [of n])
  qed
qed

lemma le_bytes_le_val: "bs \<noteq> [] \<Longrightarrow> last bs \<noteq> 0 \<Longrightarrow> le_bytes (le_val bs) = bs"
proof (induction bs)
  case (Cons b bs)
  have b: "unat b < 256" by (rule unat_byte_less)
  show ?case
  proof (cases "bs = []")
    case True
    with Cons.prems have "0 < unat b" by (simp add: unat_gt_0)
    with True b show ?thesis by (simp add: le_bytes_pos)
  next
    case False
    with Cons have IH: "le_bytes (le_val bs) = bs" by simp
    then have "0 < le_val bs" using False by (cases "le_val bs = 0") auto
    with b IH show ?thesis by (simp add: le_bytes_pos)
  qed
qed simp

lemma length_le_bytes_le_iff: "length (le_bytes n) \<le> k \<longleftrightarrow> n < 256 ^ k"
proof (induction k arbitrary: n)
  case (Suc k)
  have "n div 256 < 256 ^ k \<longleftrightarrow> n < 256 * 256 ^ k" by (simp add: div_less_iff_less_mult mult.commute)
  with Suc show ?case by (cases "n = 0") (simp_all add: le_bytes_pos)
qed simp

lemma le_bytes_lower: "0 < n \<Longrightarrow> 256 ^ (length (le_bytes n) - 1) \<le> n"
  using length_le_bytes_le_iff [of n "length (le_bytes n) - 1"] by (cases "le_bytes n") auto

lemma le_bytes_upper: "n < 256 ^ length (le_bytes n)"
  using length_le_bytes_le_iff [of n "length (le_bytes n)"] by simp

section \<open>Decimal text\<close>

text \<open>The character classes of the C library in its default locale, and decimal numbers.\<close>

definition isdigit :: "char \<Rightarrow> bool" where
  "isdigit c \<longleftrightarrow> (let n = of_char c :: nat in 48 \<le> n \<and> n \<le> 57)"
definition isspace :: "char \<Rightarrow> bool" where
  "isspace c \<longleftrightarrow> (let n = of_char c :: nat in n = 32 \<or> (9 \<le> n \<and> n \<le> 13))"

text \<open>The digit of a number below ten, and the number of a digit: c - '0'.\<close>

definition dec_char :: "nat \<Rightarrow> char" where "dec_char n = char_of (48 + n)"
definition dec_digit :: "char \<Rightarrow> nat" where "dec_digit c = of_char c - 48"

text \<open>The decimal text of a number, and the number a text of digits has.\<close>

fun dec :: "nat \<Rightarrow> string" where
  "dec n = (if n < 10 then [dec_char n] else dec (n div 10) @ [dec_char (n mod 10)])"

declare dec.simps [simp del]

definition dec_val :: "string \<Rightarrow> nat" where
  "dec_val s = foldl (\<lambda>a c. a * 10 + dec_digit c) 0 s"

lemma dec_char [simp]:
  assumes "n < 10"
  shows "isdigit (dec_char n)" and "\<not> isspace (dec_char n)" and "dec_char n \<noteq> CHR ''.''"
    and "dec_digit (dec_char n) = n" and "dec_char n = CHR ''0'' \<longleftrightarrow> n = 0" and "dec_char n \<noteq> CHR ''-''"
proof -
  have c: "of_char (dec_char n) = 48 + n" using assms by (simp add: dec_char_def)
  have e: "dec_char n = d \<longleftrightarrow> of_char (dec_char n) = (of_char d :: nat)" for d by (simp add: of_char_eq_iff)
  show "isdigit (dec_char n)" "\<not> isspace (dec_char n)" "dec_digit (dec_char n) = n"
    using assms by (simp_all add: isdigit_def isspace_def dec_digit_def c)
  show "dec_char n \<noteq> CHR ''.''" "dec_char n = CHR ''0'' \<longleftrightarrow> n = 0" "dec_char n \<noteq> CHR ''-''"
    unfolding e c using assms by simp_all
qed

lemma isdigit_dot [simp]: "\<not> isdigit CHR ''.''" "isdigit CHR ''0''" "dec_digit CHR ''0'' = 0" "\<not> isspace CHR ''.''"
  by (simp_all add: isdigit_def isspace_def dec_digit_def)

lemma dec_val_snoc: "dec_val (s @ [c]) = dec_val s * 10 + dec_digit c"
  by (simp add: dec_val_def)

lemma dec_val_Nil [simp]: "dec_val [] = 0" by (simp add: dec_val_def)

lemma dec_digits: "list_all isdigit (dec n)"
  by (induction n rule: dec.induct) (subst dec.simps, auto)

lemma dec_val_dec [simp]: "dec_val (dec n) = n"
proof (induction n rule: dec.induct)
  case (1 n)
  show ?case
  proof (cases "n < 10")
    case True
    then show ?thesis by (simp add: dec.simps [of n] dec_val_def)
  next
    case False
    with 1 show ?thesis by (simp add: dec.simps [of n] dec_val_snoc)
  qed
qed

lemma dec_not_Nil [simp]: "dec n \<noteq> []" by (simp add: dec.simps)

lemma length_dec_le: "n < 10 ^ k \<Longrightarrow> 0 < k \<Longrightarrow> length (dec n) \<le> k"
proof (induction k arbitrary: n)
  case (Suc k)
  show ?case
  proof (cases "n < 10")
    case False
    then have "0 < k" "n div 10 < 10 ^ k" using Suc.prems by (cases k; simp)+
    with Suc.IH [of "n div 10"] False show ?thesis by (simp add: dec.simps [of n])
  qed (simp add: dec.simps [of n])
qed simp

lemma dec_val_append_zeros: "dec_val (s @ replicate k CHR ''0'') = dec_val s * 10 ^ k"
proof (induction k)
  case (Suc k)
  have "s @ replicate (Suc k) CHR ''0'' = (s @ replicate k CHR ''0'') @ [CHR ''0'']"
    by (simp add: replicate_append_same)
  with Suc show ?case by (simp only: dec_val_snoc) simp
qed simp

lemma dec_val_zeros_append: "dec_val (replicate k CHR ''0'' @ s) = dec_val s"
  by (induction s rule: rev_induct)
    (simp_all add: dec_val_snoc dec_val_append_zeros [of "[]", simplified] flip: append_assoc)

lemma dec_val_bound: "list_all isdigit s \<Longrightarrow> dec_val s < 10 ^ length s"
proof (induction s rule: rev_induct)
  case (snoc c s)
  then have "of_char c \<le> (57 :: nat)" by (simp add: isdigit_def Let_def)
  then have "dec_digit c \<le> 9" unfolding dec_digit_def by linarith
  with snoc show ?case by (simp add: dec_val_snoc)
qed simp

end
