(* ===== verification/Containers.thy ===== *)
theory Containers
  imports Prelude
begin

text \<open>
  The containers of the standard library the program iterates over in key order. A std::map is the
  list of its entries in increasing order of the keys, so that the first entry is the one that
  begin() designates. Lookup is map_of. The interface the clients use (what a lookup returns
  after an insertion or an erasure, and that the order is kept) is the locale std_map; the
  sorted lists provide it.
\<close>

fun sm_put :: "'k::linorder \<Rightarrow> 'v \<Rightarrow> ('k \<times> 'v) list \<Rightarrow> ('k \<times> 'v) list" where
  "sm_put k v [] = [(k, v)]"
| "sm_put k v ((k', v') # m) =
     (if k < k' then (k, v) # (k', v') # m
      else if k = k' then (k, v) # m
      else (k', v') # sm_put k v m)"

definition sm_erase :: "'k \<Rightarrow> ('k \<times> 'v) list \<Rightarrow> ('k \<times> 'v) list" where
  "sm_erase k m = filter (\<lambda>e. fst e \<noteq> k) m"

definition sm_lower_bound :: "'k::linorder \<Rightarrow> ('k \<times> 'v) list \<Rightarrow> ('k \<times> 'v) list" where
  "sm_lower_bound k m = dropWhile (\<lambda>e. fst e < k) m"

definition sm_wf :: "('k::linorder \<times> 'v) list \<Rightarrow> bool" where
  "sm_wf m \<longleftrightarrow> sorted_wrt (<) (map fst m)"

lemma map_of_sm_put [simp]: "map_of (sm_put k v m) = (map_of m)(k \<mapsto> v)"
  by (induction m) (auto simp: fun_eq_iff)

lemma map_of_sm_erase [simp]: "map_of (sm_erase k m) = (map_of m)(k := None)"
  by (induction m) (auto simp: sm_erase_def fun_eq_iff)

lemma fst_set_sm_put [simp]: "fst ` set (sm_put k v m) = insert k (fst ` set m)"
  by (induction k v m rule: sm_put.induct) (simp_all add: insert_commute)

lemma set_sm_put_subset: "set (sm_put k v m) \<subseteq> insert (k, v) (set m)"
  by (induction m) (auto split: if_splits)

lemma sm_wf_Nil [simp]: "sm_wf []"
  by (simp add: sm_wf_def)

lemma sm_wf_Cons: "sm_wf (e # m) \<longleftrightarrow> (\<forall>k \<in> fst ` set m. fst e < k) \<and> sm_wf m"
  by (auto simp: sm_wf_def)

lemma sm_wf_single [simp]: "sm_wf [e]"
  by (simp add: sm_wf_Cons)

lemma sm_wf_put [intro]: "sm_wf m \<Longrightarrow> sm_wf (sm_put k v m)"
proof (induction m)
  case (Cons e m)
  obtain k' v' where e: "e = (k', v')" by (cases e)
  show ?case using Cons by (cases k k' rule: linorder_cases) (auto simp: e sm_wf_Cons dest: less_trans)
qed (simp add: sm_wf_def)

lemma sm_wf_erase [intro]: "sm_wf m \<Longrightarrow> sm_wf (sm_erase k m)"
  by (induction m) (auto simp: sm_erase_def sm_wf_Cons)

lemma sm_wf_distinct: "sm_wf m \<Longrightarrow> distinct (map fst m)"
  by (induction m) (auto simp: sm_wf_Cons)

lemma sm_put_neq_Nil [simp]: "sm_put k v m \<noteq> []"
  by (induction k v m rule: sm_put.induct) simp_all

lemma sm_in_set_iff: "sm_wf m \<Longrightarrow> (k, v) \<in> set m \<longleftrightarrow> map_of m k = Some v"
  using sm_wf_distinct by (metis map_of_eq_Some_iff)

text \<open>The interface: a store with lookup, insertion and removal, and an invariant it keeps.\<close>

locale std_map =
  fixes get :: "'m \<Rightarrow> 'k \<Rightarrow> 'v option"
    and put :: "'k \<Rightarrow> 'v \<Rightarrow> 'm \<Rightarrow> 'm"
    and erase :: "'k \<Rightarrow> 'm \<Rightarrow> 'm"
    and wf :: "'m \<Rightarrow> bool"
  assumes get_put: "get (put k v m) = (get m)(k \<mapsto> v)"
    and get_erase: "get (erase k m) = (get m)(k := None)"
    and wf_put: "wf m \<Longrightarrow> wf (put k v m)"
    and wf_erase: "wf m \<Longrightarrow> wf (erase k m)"
begin

text \<open>Inserting every entry of a list: the last entry of a key is the one found.\<close>

definition put_all :: "('k \<times> 'v) list \<Rightarrow> 'm \<Rightarrow> 'm" where
  "put_all es m = fold (\<lambda>(k, v). put k v) es m"

lemma get_put_all: "get (put_all es m) k = (case map_of (rev es) k of None \<Rightarrow> get m k | Some v \<Rightarrow> Some v)"
proof (induction es arbitrary: m)
  case (Cons e es)
  obtain k' v where e: "e = (k', v)" by (cases e)
  have "put_all (e # es) m = put_all es (put k' v m)" by (simp add: put_all_def e)
  then show ?case using Cons [of "put k' v m"]
    by (auto simp: e get_put map_add_def split: option.split)
qed (simp add: put_all_def)

lemma wf_put_all: "wf m \<Longrightarrow> wf (put_all es m)"
  by (induction es arbitrary: m) (auto simp: put_all_def wf_put)

end

interpretation sm: std_map map_of sm_put sm_erase sm_wf
  by unfold_locales auto

end
