(* ===== verification/Bignum.thy ===== *)
theory Bignum
  imports Prelude
begin

text \<open>
  bignum.h: CBigNum, the signed big integers of the script interpreter and of the difficulty
  code, and the BIGNUM routines of OpenSSL below it.

  OpenSSL is not part of the repository, so its routines are the fields of the record
  bn_lib, an argument of every definition here. The locale bignum_library states
  the behaviour the OpenSSL manual pages document, read through the number val that a
  BIGNUM holds; calls are taken to succeed (they fail on memory exhaustion only). The instance
  int_bn is arbitrary precision arithmetic itself: it shows that the contract can be met
  and is what concrete inputs are evaluated with.
\<close>

section \<open>The OpenSSL interface\<close>

record 'b bn_lib =
  BN_set_word :: "u64 \<Rightarrow> 'b"
  BN_get_word :: "'b \<Rightarrow> u64"
  BN_is_negative :: "'b \<Rightarrow> bool"
  BN_set_negative :: "'b \<Rightarrow> bool \<Rightarrow> 'b"
  BN_is_zero :: "'b \<Rightarrow> bool"
  BN_num_bytes :: "'b \<Rightarrow> nat"
  BN_lshift :: "'b \<Rightarrow> nat \<Rightarrow> 'b"
  BN_rshift :: "'b \<Rightarrow> nat \<Rightarrow> 'b"
  BN_add :: "'b \<Rightarrow> 'b \<Rightarrow> 'b"
  BN_sub :: "'b \<Rightarrow> 'b \<Rightarrow> 'b"
  BN_mul :: "'b \<Rightarrow> 'b \<Rightarrow> 'b"
  BN_div :: "'b \<Rightarrow> 'b \<Rightarrow> 'b"
  BN_mod :: "'b \<Rightarrow> 'b \<Rightarrow> 'b"
  BN_mul_word :: "'b \<Rightarrow> u64 \<Rightarrow> 'b"
  BN_sub_word :: "'b \<Rightarrow> u64 \<Rightarrow> 'b"
  BN_cmp :: "'b \<Rightarrow> 'b \<Rightarrow> int"
  BN_mpi2bn :: "byte list \<Rightarrow> 'b"
  BN_bn2mpi :: "'b \<Rightarrow> byte list"

text \<open>
  The MPI format of the manual page: a four byte big-endian length, then the magnitude in
  big-endian order, its most significant bit being the sign, with a zero byte in front where the
  magnitude would use that bit itself. num_body is that body least significant byte first,
  the order in which scripts store numbers.
\<close>

definition num_body :: "int \<Rightarrow> byte list" where
  "num_body v =
     (let mag = le_bytes (nat \<bar>v\<bar>) in
      if mag = [] then []
      else if bit (last mag) 7 then mag @ [if v < 0 then 0x80 else 0]
      else if v < 0 then butlast mag @ [last mag OR 0x80]
      else mag)"

definition num_value :: "byte list \<Rightarrow> int" where
  "num_value bs =
     (if bs = [] then 0
      else let m = int (le_val (butlast bs @ [last bs AND 0x7f]))
           in if bit (last bs) 7 then - m else m)"

definition be32 :: "u32 \<Rightarrow> byte list" where
  "be32 n = [ucast (drop_bit 24 n AND 0xff), ucast (drop_bit 16 n AND 0xff),
             ucast (drop_bit 8 n AND 0xff), ucast (n AND 0xff)]"

locale bignum_library =
  fixes L :: "'b bn_lib" and val :: "'b \<Rightarrow> int"
  assumes set_word: "val (BN_set_word L w) = uint w"
    and get_word: "\<bar>val b\<bar> < 2 ^ 64 \<Longrightarrow> uint (BN_get_word L b) = \<bar>val b\<bar>"
    and get_word_big: "2 ^ 64 \<le> \<bar>val b\<bar> \<Longrightarrow> BN_get_word L b = -1"
    and is_negative: "BN_is_negative L b \<longleftrightarrow> val b < 0"
    and set_negative: "val (BN_set_negative L b f) = (if f then - \<bar>val b\<bar> else \<bar>val b\<bar>)"
    and is_zero: "BN_is_zero L b \<longleftrightarrow> val b = 0"
    and num_bytes: "BN_num_bytes L b = length (le_bytes (nat \<bar>val b\<bar>))"
    and lshift: "val (BN_lshift L b n) = val b * 2 ^ n"
    and rshift: "val (BN_rshift L b n) = c_div (val b) (2 ^ n)"
    and add: "val (BN_add L a b) = val a + val b"
    and sub: "val (BN_sub L a b) = val a - val b"
    and mul: "val (BN_mul L a b) = val a * val b"
    and divide: "val b \<noteq> 0 \<Longrightarrow> val (BN_div L a b) = c_div (val a) (val b)"
    and modulo: "val b \<noteq> 0 \<Longrightarrow> val (BN_mod L a b) = c_mod (val a) (val b)"
    and mul_word: "val (BN_mul_word L b w) = val b * uint w"
    and sub_word: "val (BN_sub_word L b w) = val b - uint w"
    and cmp_less: "BN_cmp L a b < 0 \<longleftrightarrow> val a < val b"
    and cmp_equal: "BN_cmp L a b = 0 \<longleftrightarrow> val a = val b"
    and mpi2bn: "length bs < 2 ^ 32 \<Longrightarrow>
      val (BN_mpi2bn L (be32 (word_of_nat (length bs)) @ bs)) = num_value (rev bs)"
    and bn2mpi: "length (num_body (val b)) < 2 ^ 32 \<Longrightarrow>
      BN_bn2mpi L b = be32 (word_of_nat (length (num_body (val b)))) @ rev (num_body (val b))"
begin

lemmas bn_simps [simp] =
  set_word is_negative set_negative is_zero num_bytes lshift rshift add sub mul mul_word sub_word
  cmp_less cmp_equal

lemma cmp_le [simp]: "BN_cmp L a b \<le> 0 \<longleftrightarrow> val a \<le> val b"
  using cmp_less [of a b] cmp_equal [of a b] by linarith

lemma cmp_greater [simp]: "0 < BN_cmp L a b \<longleftrightarrow> val b < val a"
  using cmp_le [of a b] by linarith

lemma cmp_ge [simp]: "0 \<le> BN_cmp L a b \<longleftrightarrow> val b \<le> val a"
  using cmp_less [of a b] by linarith

end

text \<open>Arbitrary precision integers as the library.\<close>

definition int_bn :: "int bn_lib" where
  "int_bn = \<lparr>
     BN_set_word = uint,
     BN_get_word = (\<lambda>b. if \<bar>b\<bar> < 2 ^ 64 then word_of_int \<bar>b\<bar> else -1),
     BN_is_negative = (\<lambda>b. b < 0),
     BN_set_negative = (\<lambda>b f. if f then - \<bar>b\<bar> else \<bar>b\<bar>),
     BN_is_zero = (\<lambda>b. b = 0),
     BN_num_bytes = (\<lambda>b. length (le_bytes (nat \<bar>b\<bar>))),
     BN_lshift = (\<lambda>b n. b * 2 ^ n),
     BN_rshift = (\<lambda>b n. c_div b (2 ^ n)),
     BN_add = (\<lambda>a b. a + b),
     BN_sub = (\<lambda>a b. a - b),
     BN_mul = (\<lambda>a b. a * b),
     BN_div = c_div,
     BN_mod = c_mod,
     BN_mul_word = (\<lambda>b w. b * uint w),
     BN_sub_word = (\<lambda>b w. b - uint w),
     BN_cmp = (\<lambda>a b. if a < b then -1 else if a = b then 0 else 1),
     BN_mpi2bn = (\<lambda>bs. num_value (rev (drop 4 bs))),
     BN_bn2mpi = (\<lambda>b. be32 (word_of_nat (length (num_body b))) @ rev (num_body b)) \<rparr>"

lemma length_be32 [simp]: "length (be32 n) = 4"
  by (simp add: be32_def)

interpretation int_bn: bignum_library int_bn id
  by unfold_locales
    (auto simp: int_bn_def unsigned_of_int take_bit_int_eq_self)


section \<open>CBigNum: conversions\<close>

text \<open>
  The conversions from machine integers write the MPI body byte by byte, skipping leading zero
  bytes and setting the sign in the first byte kept. i counts the iterations left,
  p is what has been written so far.
\<close>

fun setint64_loop :: "bool \<Rightarrow> nat \<Rightarrow> u64 \<Rightarrow> bool \<Rightarrow> byte list \<Rightarrow> byte list" where
  "setint64_loop fNegative 0 n fLeadingZeroes p = p"
| "setint64_loop fNegative (Suc i) n fLeadingZeroes p =
     (let c = ucast (drop_bit 56 n AND 0xff) :: byte; n' = push_bit 8 n in
      if fLeadingZeroes then
        (if c = 0 then setint64_loop fNegative i n' True p
         else if c AND 0x80 \<noteq> 0
           then setint64_loop fNegative i n' False (p @ [if fNegative then 0x80 else 0] @ [c])
         else setint64_loop fNegative i n' False (p @ [if fNegative then c OR 0x80 else c]))
      else setint64_loop fNegative i n' False (p @ [c]))"

definition setint64 :: "'b bn_lib \<Rightarrow> int \<Rightarrow> 'b" where
  "setint64 L sn =
     (let (n, fNegative) = (if sn < 0 then (word_of_int (- (sn + 1)) + 1 :: u64, True)
                            else (word_of_int sn, False));
          p = setint64_loop fNegative 8 n True []
      in BN_mpi2bn L (be32 (word_of_nat (length p)) @ p))"

definition setuint64 :: "'b bn_lib \<Rightarrow> u64 \<Rightarrow> 'b" where
  "setuint64 L n =
     (let p = setint64_loop False 8 n True []
      in BN_mpi2bn L (be32 (word_of_nat (length p)) @ p))"

definition setulong :: "'b bn_lib \<Rightarrow> u64 \<Rightarrow> 'b" where
  "setulong L n = BN_set_word L n"

text \<open>The constructors from signed integers of at most 64 bits and from "unsigned long".\<close>

definition CBigNum_int :: "'b bn_lib \<Rightarrow> int \<Rightarrow> 'b" where
  "CBigNum_int L n = (if 0 \<le> n then setulong L (word_of_int n) else setint64 L n)"

definition INT_MAX :: int where "INT_MAX = 2 ^ 31 - 1"
definition INT_MIN :: int where "INT_MIN = - (2 ^ 31)"

definition getuint :: "'b bn_lib \<Rightarrow> 'b \<Rightarrow> u32" where
  "getuint L bn = ucast (BN_get_word L bn)"

definition getint :: "'b bn_lib \<Rightarrow> 'b \<Rightarrow> int" where
  "getint L bn =
     (let n = BN_get_word L bn in
      if \<not> BN_is_negative L bn
      then (if n > word_of_int INT_MAX then INT_MAX else uint n)
      else (if n > word_of_int INT_MAX then INT_MIN else - uint n))"

definition setvch :: "'b bn_lib \<Rightarrow> byte list \<Rightarrow> 'b" where
  "setvch L vch = BN_mpi2bn L (be32 (word_of_nat (length vch)) @ rev vch)"

definition getvch :: "'b bn_lib \<Rightarrow> 'b \<Rightarrow> byte list" where
  "getvch L bn =
     (let mpi = BN_bn2mpi L bn; nSize = length mpi in
      if nSize \<le> 4 then [] else rev (drop 4 mpi))"

section \<open>CBigNum: the compact format\<close>

definition SetCompact :: "'b bn_lib \<Rightarrow> u32 \<Rightarrow> 'b" where
  "SetCompact L nCompact =
     (let nSize = drop_bit 24 nCompact;
          fNegative = (nCompact AND 0x00800000 \<noteq> 0);
          nWord = nCompact AND 0x007fffff;
          bn = (if nSize \<le> 3
                then BN_set_word L (ucast (drop_bit (unat (8 * (3 - nSize))) nWord))
                else BN_lshift L (BN_set_word L (ucast nWord)) (unat (8 * (nSize - 3))))
      in BN_set_negative L bn fNegative)"

definition GetCompact :: "'b bn_lib \<Rightarrow> 'b \<Rightarrow> u32" where
  "GetCompact L bn =
     (let nSize = word_of_nat (BN_num_bytes L bn) :: u32;
          nCompact = (if nSize \<le> 3
                      then ucast (push_bit (unat (8 * (3 - nSize))) (BN_get_word L bn))
                      else ucast (BN_get_word L (BN_rshift L bn (unat (8 * (nSize - 3))))));
          (nCompact, nSize) = (if nCompact AND 0x00800000 \<noteq> 0
                               then (drop_bit 8 nCompact, nSize + 1) else (nCompact, nSize))
      in nCompact OR push_bit 24 nSize OR (if BN_is_negative L bn then 0x00800000 else 0))"

section \<open>CBigNum: arithmetic\<close>

definition bn_uminus :: "'b bn_lib \<Rightarrow> 'b \<Rightarrow> 'b" where
  "bn_uminus L a = BN_set_negative L a (\<not> BN_is_negative L a)"

definition bn_shr_assign :: "'b bn_lib \<Rightarrow> 'b \<Rightarrow> nat \<Rightarrow> 'b" where
  "bn_shr_assign L bn shift =
     (let a = BN_lshift L (CBigNum_int L 1) shift in
      if BN_cmp L a bn > 0 then CBigNum_int L 0 else BN_rshift L bn shift)"

text \<open>
  ToString: repeated division by the base, the digits collected least significant first and
  reversed. fuel bounds the loop; the number of digits is at most the number itself.
\<close>

definition digit_char :: "u64 \<Rightarrow> char" where
  "digit_char c = ''0123456789abcdef'' ! unat c"

fun ToString_loop :: "'b bn_lib \<Rightarrow> 'b \<Rightarrow> nat \<Rightarrow> 'b \<Rightarrow> string \<Rightarrow> string option" where
  "ToString_loop L bnBase 0 bn2 str = None"
| "ToString_loop L bnBase (Suc fuel) bn2 str =
     (if BN_cmp L bn2 (CBigNum_int L 0) > 0
      then ToString_loop L bnBase fuel (BN_div L bn2 bnBase)
             (str @ [digit_char (BN_get_word L (BN_mod L bn2 bnBase))])
      else Some str)"

definition bn_ToString :: "'b bn_lib \<Rightarrow> nat \<Rightarrow> 'b \<Rightarrow> int \<Rightarrow> string option" where
  "bn_ToString L fuel bn nBase =
     (let bnBase = CBigNum_int L nBase; bn2 = BN_set_negative L bn False in
      if BN_cmp L bn2 (CBigNum_int L 0) = 0 then Some ''0''
      else map_option (\<lambda>str. rev (if BN_is_negative L bn then str @ ''-'' else str))
             (ToString_loop L bnBase fuel bn2 []))"

section \<open>Script numbers\<close>

lemma num_value_Nil [simp]: "num_value [] = 0"
  by (simp add: num_value_def)

lemma mod_128: "(u :: nat) < 256 \<Longrightarrow> u mod 128 = (if 128 \<le> u then u - 128 else u)"
  by (cases "128 \<le> u") (simp_all add: le_mod_geq)

lemma num_value_snoc:
  "num_value (bs @ [b]) =
     (if 128 \<le> unat b then - int (le_val bs + 256 ^ length bs * (unat b - 128))
      else int (le_val bs + 256 ^ length bs * unat b))"
proof -
  have mod: "unat (b AND 0x7f) = (if 128 \<le> unat b then unat b - 128 else unat b)"
    by (simp only: byte_and_7f mod_128 [OF unat_byte_less])
  have "num_value (bs @ [b]) =
    (let m = int (le_val (bs @ [b AND 0x7f])) in if bit b 7 then - m else m)"
    by (simp only: num_value_def butlast_snoc last_snoc) simp
  also have "le_val (bs @ [b AND 0x7f]) = le_val bs + 256 ^ length bs * unat (b AND 0x7f)"
    by simp
  finally show ?thesis
    unfolding byte_bit7 mod Let_def by simp
qed

theorem num_value_num_body: "num_value (num_body v) = v"
proof (cases "v = 0")
  case True
  then show ?thesis by (simp add: num_body_def)
next
  case False
  define mag where "mag = le_bytes (nat \<bar>v\<bar>)"
  have ne: "mag \<noteq> []" and val: "int (le_val mag) = \<bar>v\<bar>"
    using False by (simp_all add: mag_def)
  obtain bs b where mag: "mag = bs @ [b]" using ne by (cases mag rule: rev_cases) auto
  show ?thesis
  proof (cases "128 \<le> unat b")
    case True
    then show ?thesis
      using val mag by (auto simp: num_body_def mag_def [symmetric] byte_bit7 Let_def num_value_snoc
        num_value_snoc [of "bs @ [b]", simplified])
  next
    case False
    then have or80: "unat (b OR 0x80) = unat b + 128" by (simp add: byte_or_80)
    with False show ?thesis
      using val mag by (auto simp: num_body_def mag_def [symmetric] byte_bit7 Let_def num_value_snoc
        num_value_snoc [of "bs @ [b]", simplified])
  qed
qed

lemma power_bracket_le_iff:
  fixes x :: nat
  assumes "256 ^ n \<le> x" and "x < 256 ^ Suc n"
  shows "Suc n \<le> k \<longleftrightarrow> x < 256 ^ k"
proof
  assume "Suc n \<le> k"
  then have "(256 :: nat) ^ Suc n \<le> 256 ^ k" by (rule power_increasing) simp
  with assms(2) show "x < 256 ^ k" by linarith
next
  assume "x < 256 ^ k"
  with assms(1) have "(256 :: nat) ^ n < 256 ^ k" by linarith
  then show "Suc n \<le> k" by (simp add: Suc_le_eq)
qed

text \<open>The body is the shortest: one sign bit more than the magnitude needs.\<close>

lemma length_num_body_le_iff:
  assumes "0 < k"
  shows "length (num_body v) \<le> k \<longleftrightarrow> 2 * nat \<bar>v\<bar> < 256 ^ k"
proof (cases "v = 0")
  case True
  then show ?thesis by (simp add: num_body_def)
next
  case False
  define m where "m = nat \<bar>v\<bar>"
  define mag where "mag = le_bytes m"
  have pos: "0 < m" using False by (simp add: m_def)
  then have ne: "mag \<noteq> []" by (simp add: mag_def)
  have val: "le_val mag = m" by (simp add: mag_def)
  obtain bs b where mag: "mag = bs @ [b]" using ne by (cases mag rule: rev_cases) auto
  have b0: "unat b \<noteq> 0" using last_le_bytes [OF pos] mag by (simp add: mag_def unat_eq_0)
  define P where "P = (256 :: nat) ^ length bs"
  define Q where "Q = P * unat b"
  have m: "m = le_val bs + Q" using val mag by (simp add: P_def Q_def)
  have bs: "le_val bs < P" unfolding P_def by (rule le_val_bound)
  have len: "length (num_body v) = (if 128 \<le> unat b then length bs + 2 else length bs + 1)"
    using mag by (auto simp: num_body_def mag_def [symmetric] m_def [symmetric] byte_bit7 Let_def)
  show ?thesis
  proof (cases "128 \<le> unat b")
    case True
    then have "P * 128 \<le> Q" unfolding Q_def by (rule mult_le_mono2)
    then have "256 * P \<le> 2 * m" unfolding m by simp
    then have lo: "256 ^ Suc (length bs) \<le> 2 * m" by (simp add: P_def)
    have "Q \<le> P * 255" unfolding Q_def using unat_byte_less [of b] by (intro mult_le_mono2) linarith
    then have "2 * m < 256 * (256 * P)" using m bs by simp
    then have "2 * m < 256 ^ Suc (Suc (length bs))" by (simp add: P_def)
    from power_bracket_le_iff [OF lo this, of k] show ?thesis using len True by (simp add: m_def)
  next
    case False
    have "P * 1 \<le> Q" unfolding Q_def using b0 by (intro mult_le_mono2) linarith
    then have lo: "256 ^ length bs \<le> 2 * m" using m unfolding P_def [symmetric] by simp
    have "Q \<le> P * 127" unfolding Q_def using False by (intro mult_le_mono2) linarith
    then have "2 * m < 256 * P" using m bs by simp
    then have "2 * m < 256 ^ Suc (length bs)" by (simp add: P_def)
    from power_bracket_le_iff [OF lo this, of k] show ?thesis using len False by (simp add: m_def)
  qed
qed
context bignum_library
begin

lemma val_setvch: "length vch < 2 ^ 32 \<Longrightarrow> val (setvch L vch) = num_value vch"
  using mpi2bn [of "rev vch"] by (simp add: setvch_def)

lemma getvch_eq: "length (num_body (val b)) < 2 ^ 32 \<Longrightarrow> getvch L b = num_body (val b)"
  by (simp add: getvch_def bn2mpi)

lemma val_setvch_getvch:
  "length (num_body (val b)) < 2 ^ 32 \<Longrightarrow> val (setvch L (getvch L b)) = val b"
  by (simp add: getvch_eq val_setvch num_value_num_body)

lemma getint_eq:
  "getint L b = (if val b > INT_MAX then INT_MAX else if val b < - INT_MAX then INT_MIN else val b)"
proof (cases "\<bar>val b\<bar> < 2 ^ 64")
  case True
  have "BN_get_word L b > word_of_int INT_MAX \<longleftrightarrow> INT_MAX < \<bar>val b\<bar>"
    using get_word [OF True] by (simp add: word_less_def INT_MAX_def)
  with get_word [OF True] show ?thesis by (auto simp: getint_def Let_def INT_MAX_def)
next
  case False
  then have "BN_get_word L b = -1" by (simp add: get_word_big)
  moreover have "(-1 :: u64) > word_of_int INT_MAX" by (simp add: INT_MAX_def)
  ultimately show ?thesis using False by (auto simp: getint_def Let_def INT_MAX_def)
qed

end

text \<open>The bytes written by the integer conversions, as an encoding of the number's bytes.\<close>

definition mpi_bytes :: "bool \<Rightarrow> byte list \<Rightarrow> byte list" where
  "mpi_bytes neg ds = (case dropWhile (\<lambda>c. c = 0) ds of [] \<Rightarrow> []
     | c # cs \<Rightarrow> (if c AND 0x80 \<noteq> 0 then [if neg then 0x80 else 0] @ [c]
                 else [if neg then c OR 0x80 else c]) @ cs)"

definition top_bytes :: "byte list \<Rightarrow> u64" where
  "top_bytes ds = word_of_nat (le_val (rev ds) * 256 ^ (8 - length ds))"

lemma top_bytes_step:
  assumes "length (c # ds) \<le> 8"
  shows "ucast (drop_bit 56 (top_bytes (c # ds)) AND 0xff) = c"
    and "push_bit 8 (top_bytes (c # ds)) = top_bytes ds"
proof -
  define k where "k = length ds"
  define R where "R = le_val (rev ds)"
  have k: "k \<le> 7" using assms by (simp add: k_def)
  have R: "R < 256 ^ k" using le_val_bound [of "rev ds"] by (simp add: R_def k_def)
  have p: "256 ^ k * 256 ^ (7 - k) = (256 ^ 7 :: nat)"
    using k by (simp add: power_add [symmetric])
  have top: "top_bytes (c # ds) = word_of_nat (unat c * 256 ^ 7 + R * 256 ^ (7 - k))"
    using p by (simp add: top_bytes_def R_def k_def algebra_simps)
  have low: "R * 256 ^ (7 - k) < 256 ^ 7"
    using R p by (metis mult_less_cancel2 zero_less_power zero_less_numeral)
  from low have "unat c * 72057594037927936 + R * 256 ^ (7 - k) < 18446744073709551616"
    using unat_byte_less [of c] by simp
  then have "unat (top_bytes (c # ds)) = unat c * 256 ^ 7 + R * 256 ^ (7 - k)"
    unfolding top by (intro unat_of_nat_less) simp
  then have d: "unat (drop_bit 56 (top_bytes (c # ds))) = unat c"
    using low by (simp add: unat_drop_bit)
  have "unat (ucast (drop_bit 56 (top_bytes (c # ds)) AND 0xff) :: byte) = unat c"
    using unat_byte_less [of c] d by (simp add: ucast_and_ff unat_ucast_byte)
  then show "ucast (drop_bit 56 (top_bytes (c # ds)) AND 0xff) = c" by (simp add: word_unat_eq_iff)
  have "push_bit 8 (top_bytes (c # ds)) = word_of_nat (unat c * 256 ^ 8 + R * 256 ^ (8 - k))"
    using Suc_diff_le [OF k] by (simp add: top push_bit_eq_mult algebra_simps)
  also have "\<dots> = word_of_nat (unat c) * (18446744073709551616 :: u64) + word_of_nat (R * 256 ^ (8 - k))"
    by simp
  also have "(18446744073709551616 :: u64) = 0" by (simp add: word_eq_iff_unsigned)
  also have "word_of_nat (unat c) * 0 + word_of_nat (R * 256 ^ (8 - k)) = (word_of_nat (R * 256 ^ (8 - k)) :: u64)"
    by simp
  finally show "push_bit 8 (top_bytes (c # ds)) = top_bytes ds"
    by (simp add: top_bytes_def R_def k_def)
qed


lemma setint64_loop_kept:
  "length ds \<le> 8 \<Longrightarrow> setint64_loop neg (length ds) (top_bytes ds) False p = p @ ds"
proof (induction ds arbitrary: p)
  case (Cons d ds)
  with top_bytes_step [of d ds] show ?case by (simp add: Let_def)
qed simp

lemma setint64_loop_eq:
  "length ds \<le> 8 \<Longrightarrow> setint64_loop neg (length ds) (top_bytes ds) True p = p @ mpi_bytes neg ds"
proof (induction ds arbitrary: p)
  case (Cons d ds)
  with top_bytes_step [of d ds] setint64_loop_kept [of ds neg] show ?case
    by (simp add: Let_def mpi_bytes_def)
qed (simp add: mpi_bytes_def)

lemma rev_mpi_bytes:
  assumes "neg \<Longrightarrow> le_val (rev ds) \<noteq> 0"
  shows "rev (mpi_bytes neg ds) = num_body ((if neg then -1 else 1) * int (le_val (rev ds)))"
proof -
  define m where "m = le_val (rev ds)"
  define v where "v = (if neg then -1 else 1) * int m"
  have m: "m = le_val (rev (dropWhile (\<lambda>c. c = 0) ds))"
    unfolding m_def by (induction ds) auto
  have v: "nat \<bar>v\<bar> = m" "neg \<Longrightarrow> v < 0" "\<not> neg \<Longrightarrow> \<not> v < 0"
    using assms by (auto simp: v_def m_def)
  show ?thesis
  proof (cases "dropWhile (\<lambda>c. c = 0) ds")
    case Nil
    have "m = 0" using m unfolding Nil by simp
    then show ?thesis unfolding mpi_bytes_def Nil by (simp add: num_body_def m_def [symmetric])
  next
    case (Cons c cs)
    then have "c \<noteq> 0" using hd_dropWhile [of "\<lambda>c. c = 0" ds] by auto
    moreover have "m = le_val (rev cs @ [c])" using m unfolding Cons by (simp only: rev.simps)
    ultimately have mag: "le_bytes m = rev cs @ [c]"
      by (metis le_bytes_le_val last_snoc snoc_eq_iff_butlast)
    have "num_body v = (if bit c 7 then (rev cs @ [c]) @ [if neg then 0x80 else 0]
      else if neg then rev cs @ [c OR 0x80] else rev cs @ [c])"
      using v(2,3) unfolding num_body_def v(1) mag Let_def by (cases neg) simp_all
    then show ?thesis
      using Cons by (simp add: mpi_bytes_def and_bits v_def m_def [symmetric])
  qed
qed

lemma top_bytes_le_fixed: "top_bytes (rev (le_fixed 8 (unat n))) = n"
  using u64_bounds(1) [of n] by (simp add: top_bytes_def le_val_le_fixed)

lemma setint64_loop_num_body:
  assumes "neg \<Longrightarrow> n \<noteq> 0"
  shows "rev (setint64_loop neg 8 n True []) = num_body ((if neg then -1 else 1) * uint n)"
proof -
  have n: "le_val (le_fixed 8 (unat n)) = unat n"
    using u64_bounds(1) [of n] by (simp add: le_val_le_fixed)
  show ?thesis
    using setint64_loop_eq [of "rev (le_fixed 8 (unat n))" neg "[]"]
      rev_mpi_bytes [of neg "rev (le_fixed 8 (unat n))"] assms
    by (simp add: top_bytes_le_fixed n unat_eq_0)
qed

lemma length_num_body_uint: "length (num_body (s * uint (n :: u64))) \<le> 9" if "\<bar>s\<bar> = 1"
proof -
  have "nat \<bar>s * uint n\<bar> = unat n" using that by (simp only: abs_mult unat_eq_nat_uint) simp
  moreover have "2 * unat n < 256 ^ 9" using u64_bounds(1) [of n] by simp
  ultimately show ?thesis
    by (subst length_num_body_le_iff) simp_all
qed

context bignum_library
begin

lemma val_setuint64: "val (setuint64 L n) = uint n"
proof -
  have rev: "rev (setint64_loop False 8 n True []) = num_body (uint n)"
    using setint64_loop_num_body [of False n] by simp
  have "length (setint64_loop False 8 n True []) \<le> 9"
    using length_num_body_uint [of 1 n] rev by (metis abs_one length_rev mult_1)
  then show ?thesis
    by (simp add: setuint64_def Let_def mpi2bn rev num_value_num_body)
qed

lemma val_setint64: "int64_range sn \<Longrightarrow> val (setint64 L sn) = sn"
proof -
  assume r: "int64_range sn"
  define neg where "neg = (sn < 0)"
  define n where "n = (if neg then word_of_int (- (sn + 1)) + 1 else word_of_int sn :: u64)"
  have "n = word_of_int \<bar>sn\<bar>" by (simp add: n_def neg_def)
  then have n: "uint n = \<bar>sn\<bar>"
    using r unfolding int64_range_def by (simp add: unsigned_of_int) (rule take_bit_int_eq_self; simp; linarith)
  then have nz: "neg \<Longrightarrow> n \<noteq> 0" by (auto simp: neg_def)
  have sn: "(if neg then -1 else 1) * uint n = sn" by (simp add: n neg_def)
  have rev: "rev (setint64_loop neg 8 n True []) = num_body sn"
    using setint64_loop_num_body [OF nz] sn by simp
  have "length (num_body sn) \<le> 9"
    using length_num_body_uint [of "if neg then -1 else 1" n] sn by simp
  then have len: "length (setint64_loop neg 8 n True []) \<le> 9" using rev by (metis length_rev)
  have "setint64 L sn = BN_mpi2bn L
    (be32 (word_of_nat (length (setint64_loop neg 8 n True []))) @ setint64_loop neg 8 n True [])"
    by (simp add: setint64_def n_def neg_def Let_def)
  with len show ?thesis by (simp add: mpi2bn rev num_value_num_body)
qed

lemma val_CBigNum_int: "int64_range n \<Longrightarrow> val (CBigNum_int L n) = n"
  by (simp add: CBigNum_int_def setulong_def val_setint64)
    (simp add: int64_range_def unsigned_of_int take_bit_int_eq_self)

end
section \<open>The compact format as a number\<close>

text \<open>What a compact word denotes, and the compact word of a magnitude, on natural numbers.\<close>

definition compact_mag :: "nat \<Rightarrow> nat" where
  "compact_mag c = (let s = c div 2 ^ 24; w = c mod 2 ^ 23 in
     if s \<le> 3 then w div 256 ^ (3 - s) else w * 256 ^ (s - 3))"

definition mag_compact :: "nat \<Rightarrow> nat" where
  "mag_compact m = (let n = length (le_bytes m);
       k = (if n \<le> 3 then m * 256 ^ (3 - n) else m div 256 ^ (n - 3))
     in if 2 ^ 23 \<le> k then k div 256 + 2 ^ 24 * (n + 1) else k + 2 ^ 24 * n)"

lemma exp_8: "(2 :: 'a::comm_semiring_1) ^ (8 * n) = 256 ^ n"
  by (simp add: power_mult)

lemma mantissa_bound:
  "(if length (le_bytes m) \<le> 3 then m * 256 ^ (3 - length (le_bytes m))
    else m div 256 ^ (length (le_bytes m) - 3)) < 256 ^ 3"
proof -
  define n where "n = length (le_bytes m)"
  have m: "m < 256 ^ n" by (simp add: n_def le_bytes_upper)
  show ?thesis unfolding n_def [symmetric]
  proof (cases "n \<le> 3")
    case True
    have "m * 256 ^ (3 - n) < 256 ^ n * 256 ^ (3 - n)" using m by simp
    also have "\<dots> = 256 ^ 3" using True by (simp add: power_add [symmetric])
    finally show "(if n \<le> 3 then m * 256 ^ (3 - n) else m div 256 ^ (n - 3)) < 256 ^ 3"
      using True by simp
  next
    case False
    then have "(256 :: nat) ^ n = 256 ^ 3 * 256 ^ (n - 3)"
      by (simp only: power_add [symmetric]) simp
    with m False show "(if n \<le> 3 then m * 256 ^ (3 - n) else m div 256 ^ (n - 3)) < 256 ^ 3"
      by (simp add: less_mult_imp_div_less)
  qed
qed

text \<open>The words computed by the two directions, without the sign.\<close>

definition join_compact :: "u32 \<Rightarrow> u32 \<Rightarrow> u32" where
  "join_compact k n = (let (k, n) = (if k AND 0x00800000 \<noteq> 0 then (drop_bit 8 k, n + 1) else (k, n))
     in k OR push_bit 24 n)"

lemma unat_join_compact:
  assumes "unat k < 2 ^ 24" and "unat n < 255"
  shows "unat (join_compact k n) =
    (if 2 ^ 23 \<le> unat k then unat k div 256 + 2 ^ 24 * (unat n + 1) else unat k + 2 ^ 24 * unat n)"
proof (cases "2 ^ 23 \<le> unat k")
  case True
  then have "k AND 0x00800000 \<noteq> 0" using assms(1) by (simp add: and_bits bit_top_iff)
  moreover have "unat (n + 1) = unat n + 1"
    using assms(2) by (simp add: unat_word_ariths)
  moreover have "unat (drop_bit 8 k) = unat k div 256" by (simp add: unat_drop_bit)
  ultimately show ?thesis
    using True assms by (simp add: join_compact_def unat_or_push_bit)
next
  case False
  then have "k AND 0x00800000 = 0" using assms(1) by (simp add: and_bits bit_top_iff)
  with False assms show ?thesis by (simp add: join_compact_def unat_or_push_bit)
qed

lemma even_above_sign:
  assumes "(r :: nat) < 2 ^ 23" shows "even ((r + 2 ^ 24 * q) div 2 ^ 23)"
proof -
  have "(r + 2 ^ 24 * q) div 2 ^ 23 = (r + (2 * q) * 2 ^ 23) div 2 ^ 23" by (simp add: mult.commute)
  also have "\<dots> = 2 * q + r div 2 ^ 23" by (rule div_mult_self1) simp
  finally show ?thesis using assms by simp
qed

lemma mag_compact_sign_clear: "even (mag_compact m div 2 ^ 23)"
proof -
  define n where "n = length (le_bytes m)"
  define k where "k = (if n \<le> 3 then m * 256 ^ (3 - n) else m div 256 ^ (n - 3))"
  have "k < 256 ^ 3" unfolding k_def n_def by (rule mantissa_bound)
  then have "(if 2 ^ 23 \<le> k then k div 256 else k) < 2 ^ 23" by auto
  moreover have "mag_compact m = (if 2 ^ 23 \<le> k then k div 256 else k)
      + 2 ^ 24 * (if 2 ^ 23 \<le> k then n + 1 else n)"
    by (simp add: mag_compact_def n_def k_def Let_def)
  ultimately show ?thesis using even_above_sign by metis
qed

lemma split_compact:
  "unat (drop_bit 24 c :: u32) = unat c div 2 ^ 24" "unat (c AND 0x007fffff :: u32) = unat c mod 2 ^ 23"
  by (simp_all only: unat_drop_bit and_masks unat_take_bit)


context bignum_library
begin

lemma val_SetCompact:
  "val (SetCompact L c) = (if bit c 23 then -1 else 1) * int (compact_mag (unat c))"
proof -
  define s where "s = drop_bit 24 c"
  define w where "w = c AND 0x007fffff"
  have s: "unat s = unat c div 2 ^ 24" and w: "unat w = unat c mod 2 ^ 23"
    by (simp_all only: s_def w_def split_compact)
  have le: "s \<le> 3 \<longleftrightarrow> unat s \<le> 3" by (simp add: word_le_nat_alt)
  have "unat s < 256" using u32_bounds(1) [of c] unfolding s by simp
  then have sh: "unat (8 * (3 - s)) = 8 * (3 - unat s)" if "unat s \<le> 3"
    using that by (simp add: unat_word_ariths unat_sub_if_size word_size)
  have sh': "unat (8 * (s - 3)) = 8 * (unat s - 3)" if "\<not> unat s \<le> 3"
    using that \<open>unat s < 256\<close> by (simp add: unat_word_ariths unat_sub_if_size word_size)
  define b where "b = (if s \<le> 3 then BN_set_word L (ucast (drop_bit (unat (8 * (3 - s))) w))
                else BN_lshift L (BN_set_word L (ucast w)) (unat (8 * (s - 3))))"
  have "val b = int (compact_mag (unat c))"
  proof (cases "unat s \<le> 3")
    case True
    then have "val b = uint (ucast (drop_bit (unat (8 * (3 - s))) w) :: u64)"
      unfolding b_def le by (simp only: if_True set_word)
    also have "\<dots> = int (unat (drop_bit (8 * (3 - unat s)) w))"
      by (simp only: sh [OF True] u64_of_u32 int_nat_eq [symmetric]) simp
    also have "unat (drop_bit (8 * (3 - unat s)) w) = unat w div 256 ^ (3 - unat s)"
      by (simp only: unat_drop_bit exp_8)
    finally show ?thesis using True by (simp add: compact_mag_def s w Let_def)
  next
    case False
    then have "val b = int (unat w) * 256 ^ (unat s - 3)"
      unfolding b_def le if_not_P [OF False] sh' [OF False]
      by (simp only: lshift set_word u64_of_u32 exp_8) simp
    then show ?thesis using False by (simp add: compact_mag_def s w Let_def)
  qed
  then show ?thesis
    by (simp add: SetCompact_def Let_def s_def [symmetric] w_def [symmetric] b_def [symmetric] and_bits)
qed


lemma unat_GetCompact:
  assumes "length (le_bytes (nat \<bar>val b\<bar>)) < 255"
  shows "unat (GetCompact L b) = mag_compact (nat \<bar>val b\<bar>) + (if val b < 0 then 2 ^ 23 else 0)"
proof -
  define m where "m = nat \<bar>val b\<bar>"
  define n where "n = length (le_bytes m)"
  define N where "N = (word_of_nat n :: u32)"
  have n: "n < 255" using assms by (simp add: n_def m_def)
  have N: "unat N = n" using n by (simp add: N_def unat_of_nat_less)
  have le: "N \<le> 3 \<longleftrightarrow> n \<le> 3" by (simp add: word_le_nat_alt N)
  define K where "K = (if N \<le> 3 then ucast (push_bit (unat (8 * (3 - N))) (BN_get_word L b))
       else ucast (BN_get_word L (BN_rshift L b (unat (8 * (N - 3))))) :: u32)"
  have mlt: "m < 256 ^ n" unfolding n_def by (rule le_bytes_upper)
  have K: "unat K = (if n \<le> 3 then m * 256 ^ (3 - n) else m div 256 ^ (n - 3))"
  proof (cases "n \<le> 3")
    case True
    have p: "256 ^ n * 256 ^ (3 - n) = (16777216 :: nat)"
      using True by (simp add: power_add [symmetric])
    have "m * 256 ^ (3 - n) < 256 ^ n * 256 ^ (3 - n)" using mlt by simp
    then have b24: "m * 256 ^ (3 - n) < 16777216" unfolding p .
    then have "m < 16777216" by (metis le_less_trans mult_le_mono2 nat_mult_1_right one_le_power
        one_le_numeral)
    then have "\<bar>val b\<bar> < 2 ^ 64" by (simp add: m_def)
    then have g: "unat (BN_get_word L b) = m" by (simp add: unat_eq_nat_uint get_word m_def)
    have sh: "unat (8 * (3 - N)) = 8 * (3 - n)"
      using True N by (simp add: unat_word_ariths unat_sub_if_size word_size)
    have "unat (push_bit (8 * (3 - n)) (BN_get_word L b)) = m * 256 ^ (3 - n)"
      using b24 by (subst unat_push_bit) (simp_all add: g exp_8)
    then show ?thesis
      using True b24 unfolding K_def le sh by (simp add: unat_u32_of_u64)
  next
    case False
    define r where "r = BN_rshift L b (8 * (n - 3))"
    have sh: "unat (8 * (N - 3)) = 8 * (n - 3)"
      using False N n by (simp add: unat_word_ariths unat_sub_if_size word_size)
    have "\<bar>val r\<bar> = int m div 256 ^ (n - 3)"
      by (simp add: r_def c_div_abs exp_8 m_def)
    then have r: "\<bar>val r\<bar> = int (m div 256 ^ (n - 3))" by (simp add: zdiv_int)
    have b24: "m div 256 ^ (n - 3) < 16777216"
      using mantissa_bound [of m] False by (simp add: n_def)
    have "uint (BN_get_word L r) = \<bar>val r\<bar>" using b24 r by (intro get_word) simp
    then have "unat (BN_get_word L r) = m div 256 ^ (n - 3)"
      unfolding r by (simp add: unat_eq_nat_uint)
    then show ?thesis
      using False b24 unfolding K_def le sh r_def [symmetric] by (simp add: unat_u32_of_u64)
  qed
  have Klt: "unat K < 2 ^ 24"
    using mantissa_bound [of m] unfolding K n_def by simp
  have "GetCompact L b = join_compact K N OR (if val b < 0 then 0x00800000 else 0)"
  proof -
    have "GetCompact L b = (case (if K AND 0x00800000 \<noteq> 0 then (drop_bit 8 K, N + 1) else (K, N))
      of (k, n) \<Rightarrow> k OR push_bit 24 n OR (if val b < 0 then 0x00800000 else 0))"
      by (simp only: GetCompact_def Let_def K_def N_def n_def m_def num_bytes is_negative)
    then show ?thesis by (simp only: join_compact_def Let_def or.assoc [symmetric] split: if_split) simp
  qed
  moreover have J: "unat (join_compact K N) = mag_compact m"
    using unat_join_compact [OF Klt] n by (simp add: N K mag_compact_def n_def [symmetric] Let_def)
  moreover have "join_compact K N AND 0x00800000 = 0"
    using mag_compact_sign_clear [of m] by (simp add: and_bits bit_unat J)
  ultimately show ?thesis
    using unat_or_disjoint [where a = "join_compact K N" and b = "0x00800000"] by (simp add: m_def [symmetric])
qed

end

text \<open>
  Encoding keeps the three top bytes of the magnitude in its signed representation and drops the
  rest: the value read back is the number with its low bytes cleared.
\<close>

definition compact_drop :: "nat \<Rightarrow> nat" where
  "compact_drop m = (let n = length (le_bytes m);
     k = (if n \<le> 3 then m * 256 ^ (3 - n) else m div 256 ^ (n - 3))
   in if 2 ^ 23 \<le> k then n - 2 else n - 3)"

lemma compact_value_fields:
  assumes "w < 2 ^ 23"
  shows "compact_mag (w + 2 ^ 24 * s) = (if s \<le> 3 then w div 256 ^ (3 - s) else w * 256 ^ (s - 3))"
proof -
  have "(w + 2 ^ 24 * s) div 2 ^ 24 = s" using assms by simp
  moreover have "(w + 2 ^ 24 * s) mod 2 ^ 23 = (w + (2 * s) * 2 ^ 23) mod 2 ^ 23"
    by (simp add: mult.commute)
  then have "(w + 2 ^ 24 * s) mod 2 ^ 23 = w" using assms by (simp only: mod_mult_self1) simp
  ultimately show ?thesis by (simp only: compact_mag_def Let_def)
qed

lemma compact_mag_mag_compact:
  "compact_mag (mag_compact m) = m div 256 ^ compact_drop m * 256 ^ compact_drop m"
proof -
  define n where "n = length (le_bytes m)"
  define k where "k = (if n \<le> 3 then m * 256 ^ (3 - n) else m div 256 ^ (n - 3))"
  have k: "k < 256 ^ 3" unfolding k_def n_def by (rule mantissa_bound)
  have mag: "mag_compact m = (if 2 ^ 23 \<le> k then k div 256 + 2 ^ 24 * (n + 1) else k + 2 ^ 24 * n)"
    and drop: "compact_drop m = (if 2 ^ 23 \<le> k then n - 2 else n - 3)"
    by (simp_all only: mag_compact_def compact_drop_def Let_def n_def k_def)
  show ?thesis
  proof (cases "2 ^ 23 \<le> k")
    case False
    then have "compact_mag (mag_compact m) = (if n \<le> 3 then k div 256 ^ (3 - n) else k * 256 ^ (n - 3))"
      unfolding mag if_not_P [OF False] by (intro compact_value_fields) simp
    then show ?thesis using False by (simp add: drop k_def)
  next
    case True
    have "k div 256 < 2 ^ 23" using k by simp
    from compact_value_fields [OF this, of "n + 1"]
    have c: "compact_mag (mag_compact m) =
        (if n + 1 \<le> 3 then k div 256 div 256 ^ (2 - n) else k div 256 * 256 ^ (n - 2))"
      unfolding mag if_P [OF True] by simp
    consider (small) "n \<le> 2" | (mid) "n = 3" | (big) "3 < n" by linarith
    then show ?thesis
    proof cases
      case small
      then have "3 - n = Suc (2 - n)" by simp
      then have "(256 :: nat) * 256 ^ (2 - n) = 256 ^ (3 - n)" by (simp only: power_Suc)
      then have "k div 256 div 256 ^ (2 - n) = m"
        using small by (simp add: k_def div_mult2_eq [symmetric])
      then show ?thesis using c small True by (simp add: drop)
    next
      case mid
      then show ?thesis using c True by (simp add: drop k_def)
    next
      case big
      then have "(256 :: nat) ^ (n - 3) * 256 = 256 ^ (n - 2)"
      proof -
        have "n - 2 = Suc (n - 3)" using big by simp
        then show ?thesis by (simp only: power_Suc2)
      qed
      then have "k div 256 = m div 256 ^ (n - 2)"
        using big by (simp add: k_def div_mult2_eq [symmetric])
      then show ?thesis using c big True by (simp add: drop)
    qed
  qed
qed

lemma compact_drop_bound:
  assumes "0 < compact_drop m" shows "2 ^ 15 * 256 ^ compact_drop m \<le> m"
proof -
  define n where "n = length (le_bytes m)"
  define k where "k = (if n \<le> 3 then m * 256 ^ (3 - n) else m div 256 ^ (n - 3))"
  have drop: "compact_drop m = (if 2 ^ 23 \<le> k then n - 2 else n - 3)"
    by (simp_all only: compact_drop_def Let_def n_def k_def)
  have n: "3 \<le> n" using assms by (auto simp: drop split: if_splits)
  have k3: "k = m div 256 ^ (n - 3)" using n by (auto simp: k_def)
  show ?thesis
  proof (cases "2 ^ 23 \<le> k")
    case True
    have "(256 :: nat) ^ (n - 2) = 256 ^ (n - 3) * 256"
    proof -
      have "n - 2 = Suc (n - 3)" using n by simp
      then show ?thesis by (simp only: power_Suc2)
    qed
    then have "2 ^ 15 * 256 ^ (n - 2) = (2 ^ 23 :: nat) * 256 ^ (n - 3)" by simp
    also have "\<dots> \<le> k * 256 ^ (n - 3)" using True by (rule mult_le_mono1)
    also have "\<dots> \<le> m" by (simp add: k3)
    finally show ?thesis using True by (simp add: drop)
  next
    case False
    have "0 < m" using n by (cases "m = 0") (simp_all add: n_def)
    then have "256 ^ (n - 1) \<le> m" unfolding n_def by (rule le_bytes_lower)
    moreover have "(256 :: nat) ^ (n - 1) = 65536 * 256 ^ (n - 3)"
    proof -
      have "n - 1 = 2 + (n - 3)" using n by simp
      then have "(256 :: nat) ^ (n - 1) = 256 ^ 2 * 256 ^ (n - 3)" by (simp only: power_add)
      then show ?thesis by simp
    qed
    ultimately have "32768 * 256 ^ (n - 3) \<le> m" by linarith
    then show ?thesis using False by (simp add: drop)
  qed
qed

lemma compact_mag_le: "compact_mag (mag_compact m) \<le> m"
  by (simp add: compact_mag_mag_compact)

lemma compact_mag_loss: "(m - compact_mag (mag_compact m)) * 2 ^ 15 \<le> m"
proof (cases "compact_drop m = 0")
  case True
  then show ?thesis by (simp add: compact_mag_mag_compact)
next
  case False
  have "m - compact_mag (mag_compact m) = m mod 256 ^ compact_drop m"
    by (simp add: compact_mag_mag_compact minus_div_mult_eq_mod)
  also have "\<dots> \<le> 256 ^ compact_drop m" by (simp add: less_imp_le)
  finally have "(m - compact_mag (mag_compact m)) * 2 ^ 15 \<le> 256 ^ compact_drop m * 2 ^ 15"
    by (rule mult_le_mono1)
  also have "\<dots> \<le> m" using compact_drop_bound [of m] False by (simp add: mult.commute)
  finally show ?thesis .
qed

lemma compact_mag_pos: "0 < m \<Longrightarrow> 0 < compact_mag (mag_compact m)"
  using compact_mag_loss [of m] by (cases "compact_mag (mag_compact m) = 0") simp_all

lemma compact_drop_upper: "m < 2 ^ 23 * 256 ^ compact_drop m"
proof -
  define n where "n = length (le_bytes m)"
  define k where "k = (if n \<le> 3 then m * 256 ^ (3 - n) else m div 256 ^ (n - 3))"
  have drop: "compact_drop m = (if 2 ^ 23 \<le> k then n - 2 else n - 3)"
    by (simp_all only: compact_drop_def Let_def n_def k_def)
  have m: "m < 256 ^ n" by (simp add: n_def le_bytes_upper)
  have small: "m < 2 ^ 23 * 256 ^ compact_drop m" if "n \<le> 2"
  proof -
    have "(256 :: nat) ^ n \<le> 256 ^ 2" using that by (intro power_increasing) simp_all
    then have "m < 65536" using m by simp
    moreover have "(1 :: nat) \<le> 256 ^ compact_drop m" by simp
    ultimately have "m < 8388608 * 256 ^ compact_drop m" by linarith
    then show ?thesis by simp
  qed
  show ?thesis
  proof (cases "2 ^ 23 \<le> k")
    case True
    show ?thesis
    proof (cases "n \<le> 2")
      case False
      then have "n = 2 + (n - 2)" by simp
      then have "(256 :: nat) ^ n = 256 ^ 2 * 256 ^ (n - 2)" by (metis power_add)
      then have "m < 65536 * 256 ^ (n - 2)" using m by simp
      then show ?thesis using True by (simp add: drop)
    qed (rule small)
  next
    case False
    show ?thesis
    proof (cases "n \<le> 3")
      case True
      have "m \<le> k" using True by (simp add: k_def)
      with False True show ?thesis by (simp add: drop)
    next
      case big: False
      then have "m div 256 ^ (n - 3) < 2 ^ 23" using False by (simp add: k_def)
      then have "m < 2 ^ 23 * 256 ^ (n - 3)" by (simp add: div_less_iff_less_mult)
      then show ?thesis using False by (simp add: drop)
    qed
  qed
qed

lemma compact_drop_mono: assumes "m \<le> m'" shows "compact_drop m \<le> compact_drop m'"
proof (rule ccontr)
  assume "\<not> compact_drop m \<le> compact_drop m'"
  then have "Suc (compact_drop m') \<le> compact_drop m" and pos: "0 < compact_drop m" by simp_all
  then have "(256 :: nat) ^ Suc (compact_drop m') \<le> 256 ^ compact_drop m"
    by (intro power_increasing) simp_all
  then have "2 ^ 23 * 256 ^ compact_drop m' \<le> (2 ^ 15 :: nat) * 256 ^ compact_drop m" by simp
  also have "\<dots> \<le> m" by (rule compact_drop_bound [OF pos])
  also have "\<dots> < 2 ^ 23 * 256 ^ compact_drop m'"
    using assms compact_drop_upper [of m'] by linarith
  finally show False by simp
qed

lemma div_mult_lower: "c * d \<le> m \<Longrightarrow> c * d \<le> m div d * (d :: nat)"
  by (cases "d = 0") (simp_all add: less_eq_div_iff_mult_less_eq)

lemma compact_mag_mono:
  assumes "m \<le> m'" shows "compact_mag (mag_compact m) \<le> compact_mag (mag_compact m')"
proof (cases "compact_drop m = compact_drop m'")
  case True
  then show ?thesis using assms by (simp add: compact_mag_mag_compact div_le_mono)
next
  case False
  with compact_drop_mono [OF assms] have d: "Suc (compact_drop m) \<le> compact_drop m'" by simp
  then have "(256 :: nat) ^ Suc (compact_drop m) \<le> 256 ^ compact_drop m'"
    by (intro power_increasing) simp_all
  then have "2 ^ 23 * 256 ^ compact_drop m \<le> (2 ^ 15 :: nat) * 256 ^ compact_drop m'" by simp
  also have "\<dots> \<le> compact_mag (mag_compact m')"
    unfolding compact_mag_mag_compact using d by (intro div_mult_lower compact_drop_bound) simp
  finally show ?thesis using compact_drop_upper [of m] compact_mag_le [of m] by linarith
qed

lemma compact_drop_unique:
  assumes "0 < d \<Longrightarrow> 2 ^ 15 * 256 ^ d \<le> r" and "r < 2 ^ 23 * 256 ^ d"
  shows "compact_drop r = d"
proof (rule ccontr)
  assume "compact_drop r \<noteq> d"
  then consider "Suc d \<le> compact_drop r" | "Suc (compact_drop r) \<le> d" by linarith
  then show False
  proof cases
    case 1
    then have "(256 :: nat) ^ Suc d \<le> 256 ^ compact_drop r" by (intro power_increasing) simp_all
    with compact_drop_bound [of r] 1 assms(2) show False by simp
  next
    case 2
    then have "(256 :: nat) ^ Suc (compact_drop r) \<le> 256 ^ d" by (intro power_increasing) simp_all
    with compact_drop_upper [of r] 2 assms(1) show False by simp
  qed
qed

lemma compact_mag_idem:
  "compact_mag (mag_compact (compact_mag (mag_compact m))) = compact_mag (mag_compact m)"
proof -
  define r where "r = compact_mag (mag_compact m)"
  have r: "r = m div 256 ^ compact_drop m * 256 ^ compact_drop m"
    by (simp add: r_def compact_mag_mag_compact)
  have "compact_drop r = compact_drop m"
  proof (rule compact_drop_unique)
    show "2 ^ 15 * 256 ^ compact_drop m \<le> r" if "0 < compact_drop m"
      unfolding r using that by (intro div_mult_lower compact_drop_bound)
    show "r < 2 ^ 23 * 256 ^ compact_drop m"
      using compact_drop_upper [of m] compact_mag_le [of m] by (simp add: r_def)
  qed
  then show ?thesis
    unfolding r_def [symmetric] compact_mag_mag_compact [of r] by (simp add: r)
qed

end
