(* ===== verification/Phoenix.thy ===== *)
theory Phoenix
  imports Bignum
begin

text \<open>
  phoenix413.h: the per-block difficulty retarget (an ASERT rule in 16 bit fixed point). The
  signed 64 bit intermediates are int; phoenix_no_overflow below shows that they
  stay in range for every pair of block heights and times a header can carry. The unsigned
  64 bit factor is a word, so that the claim of the source that its sum stays inside 64 bits is
  a theorem and not an assumption.
\<close>

section \<open>The code\<close>

definition PHOENIX413_TARGET_SPACING :: int where "PHOENIX413_TARGET_SPACING = 30"
definition PHOENIX413_HALF_LIFE :: int where "PHOENIX413_HALF_LIFE = 12390"

definition Phoenix413_SetPowLimit :: "'b bn_lib \<Rightarrow> 'b" where
  "Phoenix413_SetPowLimit L = BN_sub_word L (BN_lshift L (BN_set_word L 1) 236) 1"

definition Phoenix413_SetCompact :: "'b bn_lib \<Rightarrow> u32 \<Rightarrow> 'b" where
  "Phoenix413_SetCompact L nCompact =
     (let nSize = drop_bit 24 nCompact; nWord = nCompact AND 0x007fffff in
      if nSize \<le> 3
      then BN_set_word L (ucast (drop_bit (unat (8 * (3 - nSize))) nWord))
      else BN_lshift L (BN_set_word L (ucast nWord)) (unat (8 * (nSize - 3))))"

definition Phoenix413_GetCompact :: "'b bn_lib \<Rightarrow> 'b \<Rightarrow> u32" where
  "Phoenix413_GetCompact L bn =
     (let nSize = word_of_nat (BN_num_bytes L bn) :: u32;
          nCompact = (if nSize \<le> 3
                      then ucast (push_bit (unat (8 * (3 - nSize))) (BN_get_word L bn))
                      else ucast (BN_get_word L (BN_rshift L bn (unat (8 * (nSize - 3))))));
          (nCompact, nSize) = (if nCompact AND 0x00800000 \<noteq> 0
                               then (drop_bit 8 nCompact, nSize + 1) else (nCompact, nSize))
      in nCompact OR push_bit 24 nSize)"

definition phoenix_exponent :: "int \<Rightarrow> int \<Rightarrow> int \<Rightarrow> int \<Rightarrow> int" where
  "phoenix_exponent nAnchorParentTime nAnchorHeight nEvalHeight nParentTime =
     (let nTimeDiff = nParentTime - nAnchorParentTime;
          nHeightDiff = (nEvalHeight - 1) - nAnchorHeight;
          nNum = (nTimeDiff - PHOENIX413_TARGET_SPACING * (nHeightDiff + 1)) * 65536
      in c_div nNum PHOENIX413_HALF_LIFE)"

definition phoenix_sum :: "u64 \<Rightarrow> u64" where
  "phoenix_sum nFrac =
     195766423245049 * nFrac + 971821376 * nFrac * nFrac + 5127 * nFrac * nFrac * nFrac
       + push_bit 47 1"

definition phoenix_factor :: "u64 \<Rightarrow> u64" where
  "phoenix_factor nFrac = 65536 + drop_bit 48 (phoenix_sum nFrac)"

definition phoenix_target :: "'b bn_lib \<Rightarrow> u32 \<Rightarrow> int \<Rightarrow> 'b" where
  "phoenix_target L nAnchorBits nExponent =
     (let nShifts = drop_bit 16 nExponent;
          nFrac = (word_of_int nExponent :: u64) AND 0xffff;
          nFactor = phoenix_factor nFrac;
          bnTarget = BN_mul_word L (Phoenix413_SetCompact L nAnchorBits) nFactor;
          nNet = nShifts - 16;
          bnTarget = (if nNet < 0 then BN_rshift L bnTarget (nat (- nNet))
                      else if nNet > 0 then BN_lshift L bnTarget (nat nNet) else bnTarget);
          bnTarget = (if BN_is_zero L bnTarget then BN_set_word L 1 else bnTarget);
          bnLimit = Phoenix413_SetPowLimit L
      in if BN_cmp L bnTarget bnLimit > 0 then bnLimit else bnTarget)"

definition Phoenix413_NextCompact ::
  "'b bn_lib \<Rightarrow> u32 \<Rightarrow> int \<Rightarrow> int \<Rightarrow> int \<Rightarrow> int \<Rightarrow> u32" where
  "Phoenix413_NextCompact L nAnchorBits nAnchorParentTime nAnchorHeight nEvalHeight nParentTime =
     Phoenix413_GetCompact L (phoenix_target L nAnchorBits
       (phoenix_exponent nAnchorParentTime nAnchorHeight nEvalHeight nParentTime))"

section \<open>The fixed-point factor\<close>

definition phoenix_poly :: "nat \<Rightarrow> nat" where
  "phoenix_poly f = 195766423245049 * f + 971821376 * f * f + 5127 * f * f * f + 140737488355328"

lemma phoenix_poly_mono: "f \<le> g \<Longrightarrow> phoenix_poly f \<le> phoenix_poly g"
  unfolding phoenix_poly_def by (intro add_mono mult_le_mono) simp_all

lemma phoenix_poly_bound: "f < 65536 \<Longrightarrow> phoenix_poly f < 2 ^ 64"
  using phoenix_poly_mono [of f 65535] by (simp add: phoenix_poly_def)

lemma phoenix_sum_eq: "phoenix_sum f = word_of_nat (phoenix_poly (unat f))"
  by (simp add: phoenix_sum_def phoenix_poly_def push_bit_eq_mult algebra_simps)

lemma unat_phoenix_sum: "unat f < 65536 \<Longrightarrow> unat (phoenix_sum f) = phoenix_poly (unat f)"
  unfolding phoenix_sum_eq using phoenix_poly_bound by (intro unat_of_nat_less) simp

lemma unat_phoenix_factor:
  assumes "unat f < 65536"
  shows "unat (phoenix_factor f) = 65536 + phoenix_poly (unat f) div 2 ^ 48"
proof -
  have "unat (drop_bit 48 (phoenix_sum f)) = phoenix_poly (unat f) div 2 ^ 48"
    using assms by (simp add: unat_drop_bit unat_phoenix_sum)
  moreover have "phoenix_poly (unat f) div 2 ^ 48 < 65536"
    using phoenix_poly_bound [OF assms] by simp
  ultimately show ?thesis
    unfolding phoenix_factor_def by (subst unat_add_less) simp_all
qed

definition phoenix_nat_factor :: "nat \<Rightarrow> nat" where
  "phoenix_nat_factor f = 65536 + phoenix_poly f div 2 ^ 48"

lemma phoenix_nat_factor_mono: "f \<le> g \<Longrightarrow> phoenix_nat_factor f \<le> phoenix_nat_factor g"
  by (simp add: phoenix_nat_factor_def div_le_mono phoenix_poly_mono)

lemma phoenix_nat_factor_bounds:
  "65536 \<le> phoenix_nat_factor f" "f < 65536 \<Longrightarrow> phoenix_nat_factor f < 131072"
  using phoenix_poly_bound [of f] by (simp_all add: phoenix_nat_factor_def)

lemma phoenix_nat_factor_0 [simp]: "phoenix_nat_factor 0 = 65536"
  by (simp add: phoenix_nat_factor_def phoenix_poly_def)

section \<open>The target as a number\<close>

text \<open>The rule on numbers: the scaled anchor target before and after the clamps.\<close>

definition phoenix_raw :: "nat \<Rightarrow> int \<Rightarrow> nat" where
  "phoenix_raw T e =
     (let x = T * phoenix_nat_factor (nat (e mod 65536)); net = e div 65536 - 16
      in if net < 0 then x div 2 ^ nat (- net) else x * 2 ^ nat net)"

definition phoenix_clamp :: "nat \<Rightarrow> nat" where
  "phoenix_clamp t = min (max 1 t) (2 ^ 236 - 1)"

lemma fixed_point_step:
  "e mod 65536 \<noteq> 65535 \<Longrightarrow> (e + 1) mod 65536 = e mod 65536 + 1 \<and> (e + 1) div 65536 = e div 65536"
  "e mod 65536 = 65535 \<Longrightarrow> (e + 1) mod 65536 = 0 \<and> (e + 1) div 65536 = e div 65536 + 1"
  for e :: int
proof -
  define q r where "q = e div 65536" and "r = e mod 65536"
  have e: "e = 65536 * q + r" and r: "0 \<le> r" "r < 65536" by (simp_all add: q_def r_def)
  show "(e + 1) mod 65536 = e mod 65536 + 1 \<and> (e + 1) div 65536 = e div 65536"
    if "e mod 65536 \<noteq> 65535"
    using that r int_div_pos_eq [of "e + 1" 65536 q "r + 1"] int_mod_pos_eq [of "e + 1" 65536 q "r + 1"]
    by (simp add: q_def [symmetric] r_def [symmetric] e)
  show "(e + 1) mod 65536 = 0 \<and> (e + 1) div 65536 = e div 65536 + 1"
    if "e mod 65536 = 65535"
  proof -
    have "r = 65535" using that by (simp only: r_def)
    then have "e + 1 = 65536 * (q + 1)" using e by simp
    then show ?thesis by (simp only: q_def [symmetric]) simp
  qed
qed

lemma phoenix_raw_step: "phoenix_raw T e \<le> phoenix_raw T (e + 1)"
proof (cases "e mod 65536 = 65535")
  case False
  then have m: "(e + 1) mod 65536 = e mod 65536 + 1" and d: "(e + 1) div 65536 = e div 65536"
    using fixed_point_step(1) by blast+
  have "nat (e mod 65536) \<le> nat (e mod 65536 + 1)" by simp
  then have "T * phoenix_nat_factor (nat (e mod 65536)) \<le> T * phoenix_nat_factor (nat (e mod 65536 + 1))"
    by (intro mult_le_mono2 phoenix_nat_factor_mono)
  then show ?thesis by (auto simp: phoenix_raw_def Let_def m d intro: div_le_mono)
next
  case True
  then have m: "(e + 1) mod 65536 = 0" and d: "(e + 1) div 65536 = e div 65536 + 1"
    using fixed_point_step(2) by blast+
  define x where "x = T * phoenix_nat_factor (nat (e mod 65536))"
  define net where "net = e div 65536 - 16"
  have x: "x \<le> T * 65536 * 2"
    using phoenix_nat_factor_bounds(2) [of 65535] by (simp add: x_def True)
  have r: "phoenix_raw T e = (if net < 0 then x div 2 ^ nat (- net) else x * 2 ^ nat net)"
    by (simp add: phoenix_raw_def x_def net_def Let_def)
  have r': "phoenix_raw T (e + 1) = (if net + 1 < 0 then T * 65536 div 2 ^ nat (- (net + 1))
      else T * 65536 * 2 ^ nat (net + 1))"
    by (simp add: phoenix_raw_def m d net_def Let_def)
  consider "net + 1 < 0" | "net = -1" | "0 \<le> net" by linarith
  then show ?thesis
  proof cases
    case 1
    then have "nat (- net) = Suc (nat (- (net + 1)))" by simp
    then have "x div 2 ^ nat (- net) \<le> T * 65536 * 2 div (2 * 2 ^ nat (- (net + 1)))"
      using x by (simp only: power_Suc) (rule div_le_mono)
    also have "\<dots> = T * 65536 div 2 ^ nat (- (net + 1))"
      by (metis div_mult_mult1 mult.commute zero_neq_numeral)
    finally show ?thesis using 1 by (simp add: r r')
  next
    case 2
    then show ?thesis using x by (simp add: r r')
  next
    case 3
    then have "nat (net + 1) = Suc (nat net)" by simp
    then show ?thesis using 3 x by (simp add: r r')
  qed
qed

lemma phoenix_raw_mono: "e \<le> e' \<Longrightarrow> phoenix_raw T e \<le> phoenix_raw T e'"
proof (induction rule: int_ge_induct)
  case (step i)
  then show ?case using phoenix_raw_step [of T i] by linarith
qed simp

lemma phoenix_raw_half_life: "phoenix_raw T e = phoenix_raw T (e + 65536) div 2"
proof -
  define x where "x = T * phoenix_nat_factor (nat (e mod 65536))"
  define net where "net = e div 65536 - 16"
  have r: "phoenix_raw T e = (if net < 0 then x div 2 ^ nat (- net) else x * 2 ^ nat net)"
    by (simp add: phoenix_raw_def x_def net_def Let_def)
  have "(e + 65536) mod 65536 = e mod 65536" "(e + 65536) div 65536 = e div 65536 + 1"
    by simp_all
  then have r': "phoenix_raw T (e + 65536) =
      (if net + 1 < 0 then x div 2 ^ nat (- (net + 1)) else x * 2 ^ nat (net + 1))"
    by (simp only: phoenix_raw_def x_def net_def Let_def) (simp add: algebra_simps)
  consider "net + 1 < 0" | "net = -1" | "0 \<le> net" by linarith
  then show ?thesis
  proof cases
    case 1
    then have "nat (- net) = Suc (nat (- (net + 1)))" by simp
    then have "x div 2 ^ nat (- net) = x div 2 ^ nat (- (net + 1)) div 2"
      by (simp only: power_Suc2 div_mult2_eq)
    then show ?thesis using 1 by (simp add: r r')
  next
    case 3
    then have "nat (net + 1) = Suc (nat net)" by simp
    then show ?thesis using 3 by (simp add: r r')
  qed (simp add: r r')
qed

section \<open>The code computes the rule\<close>

lemma drop_bit_16: "drop_bit 16 (e :: int) = e div 65536"
  by (simp add: drop_bit_eq_div)

lemma unat_low_16: "unat ((word_of_int e :: u64) AND 0xffff) = nat (e mod 65536)"
proof -
  have "unat ((word_of_int e :: u64) AND 0xffff) = unat (word_of_int e :: u64) mod 2 ^ 16"
    by (simp only: and_masks unat_take_bit)
  also have "\<dots> = nat (uint (word_of_int e :: u64) mod 2 ^ 16)"
    unfolding unat_eq_nat_uint by (subst nat_mod_distrib) simp_all
  also have "uint (word_of_int e :: u64) = e mod 2 ^ 64"
    by (simp add: unsigned_of_int take_bit_eq_mod)
  also have "e mod 2 ^ 64 mod 2 ^ 16 = e mod (2 ^ 16)"
    by (rule mod_mod_cancel) (simp add: le_imp_power_dvd)
  finally show ?thesis by simp
qed

context bignum_library
begin

lemma val_Phoenix413_SetPowLimit: "val (Phoenix413_SetPowLimit L) = 2 ^ 236 - 1"
  by (simp add: Phoenix413_SetPowLimit_def)

lemma val_Phoenix413_SetCompact: "val (Phoenix413_SetCompact L c) = int (compact_mag (unat c))"
proof -
  have "SetCompact L c = BN_set_negative L (Phoenix413_SetCompact L c) (c AND 0x00800000 \<noteq> 0)"
    by (simp only: SetCompact_def Phoenix413_SetCompact_def Let_def)
  then have "\<bar>val (Phoenix413_SetCompact L c)\<bar> = \<bar>val (SetCompact L c)\<bar>" by simp
  moreover have "0 \<le> val (Phoenix413_SetCompact L c)"
    by (simp add: Phoenix413_SetCompact_def Let_def)
  ultimately show ?thesis by (simp add: val_SetCompact split: if_splits)
qed

lemma Phoenix413_GetCompact_eq: "0 \<le> val b \<Longrightarrow> Phoenix413_GetCompact L b = GetCompact L b"
  by (simp only: GetCompact_def Phoenix413_GetCompact_def Let_def is_negative) (simp split: prod.splits)

lemma val_phoenix_target:
  "val (phoenix_target L c e) = int (phoenix_clamp (phoenix_raw (compact_mag (unat c)) e))"
proof -
  define F where "F = phoenix_nat_factor (nat (e mod 65536))"
  define net where "net = e div 65536 - 16"
  have "nat (e mod 65536) < 65536" by (simp add: nat_less_iff)
  then have f: "uint (phoenix_factor ((word_of_int e :: u64) AND 0xffff)) = int F"
    using unat_phoenix_factor [of "(word_of_int e :: u64) AND 0xffff"]
    by (simp only: unat_low_16 F_def phoenix_nat_factor_def uint_nat)
  define b where "b = BN_mul_word L (Phoenix413_SetCompact L c)
      (phoenix_factor ((word_of_int e :: u64) AND 0xffff))"
  define b2 where "b2 = (if net < 0 then BN_rshift L b (nat (- net))
                      else if net > 0 then BN_lshift L b (nat net) else b)"
  have b: "val b = int (compact_mag (unat c) * F)"
    by (simp add: b_def val_Phoenix413_SetCompact f)
  have b2: "val b2 = int (phoenix_raw (compact_mag (unat c)) e)"
    by (simp add: b2_def b phoenix_raw_def net_def [symmetric] F_def [symmetric] Let_def
        c_div_nonneg zdiv_int)
  have "phoenix_target L c e =
     (let t = (if BN_is_zero L b2 then BN_set_word L 1 else b2); l = Phoenix413_SetPowLimit L
      in if BN_cmp L t l > 0 then l else t)"
    by (simp only: phoenix_target_def Let_def b2_def b_def net_def drop_bit_16)
  then show ?thesis
    by (simp add: Let_def b2 phoenix_clamp_def val_Phoenix413_SetPowLimit min_def max_def)
qed

end

section \<open>What a compact word written by the rule denotes\<close>

lemma phoenix_clamp_bounds: "0 < phoenix_clamp t" "phoenix_clamp t < 2 ^ 236"
  by (simp_all add: phoenix_clamp_def)

text \<open>The limit as an opaque bound: arithmetic with the 236 bit numeral is slow.\<close>

lemma phoenix_clamp_cases:
  assumes "t \<le> 2 ^ 236 - 1" shows "phoenix_clamp t = max 1 t"
proof -
  obtain K :: nat where K: "K = 2 ^ 236 - 1" "1 \<le> K" by simp
  have "min (max 1 t) K = max 1 t" using assms K(2) unfolding K(1) [symmetric] by simp
  then show ?thesis by (simp only: phoenix_clamp_def K)
qed

lemma phoenix_clamp_below: "phoenix_clamp t < 2 ^ 236 - 1 \<Longrightarrow> t \<le> 2 ^ 236 - 1"
proof -
  obtain K :: nat where K: "K = 2 ^ 236 - 1" by simp
  assume "phoenix_clamp t < 2 ^ 236 - 1"
  then have "min (max 1 t) K < K" by (simp only: phoenix_clamp_def K)
  then have "t \<le> K" by auto
  then show ?thesis by (simp only: K)
qed

lemma phoenix_clamp_mono: "t \<le> t' \<Longrightarrow> phoenix_clamp t \<le> phoenix_clamp t'"
  by (auto simp: phoenix_clamp_def)

lemma length_phoenix_clamp: "length (le_bytes (phoenix_clamp t)) \<le> 30"
proof -
  have "(2 :: nat) ^ 236 \<le> 256 ^ 30" by simp
  then have "phoenix_clamp t < 256 ^ 30" using phoenix_clamp_bounds(2) [of t] by linarith
  then show ?thesis by (simp only: length_le_bytes_le_iff)
qed

context bignum_library
begin

lemma unat_NextCompact:
  "unat (Phoenix413_GetCompact L (phoenix_target L c e)) =
     mag_compact (phoenix_clamp (phoenix_raw (compact_mag (unat c)) e))"
  using unat_GetCompact [of "phoenix_target L c e"]
    length_phoenix_clamp [of "phoenix_raw (compact_mag (unat c)) e"]
  by (simp add: Phoenix413_GetCompact_eq val_phoenix_target)

lemma val_NextCompact:
  "val (SetCompact L (Phoenix413_GetCompact L (phoenix_target L c e))) =
     int (compact_mag (mag_compact (phoenix_clamp (phoenix_raw (compact_mag (unat c)) e))))"
  using mag_compact_sign_clear [of "phoenix_clamp (phoenix_raw (compact_mag (unat c)) e)"]
  by (simp add: val_SetCompact unat_NextCompact bit_unat)

end

lemma phoenix_exponent_mono: "t \<le> t' \<Longrightarrow> phoenix_exponent at ah h t \<le> phoenix_exponent at ah h t'"
  by (auto simp: phoenix_exponent_def PHOENIX413_HALF_LIFE_def Let_def intro!: c_div_mono)

section \<open>Properties\<close>

text \<open>The comment of the source that the sum stays inside 64 bits by construction is true:
  for every 16 bit fraction the words compute the cubic exactly, without wrap-around, and the
  resulting factor lies in [2^16, 2^17), that is between 1 and 2 in 16 bit fixed point.\<close>

theorem phoenix_factor_exact:
  assumes "unat nFrac < 65536"
  shows "unat (phoenix_sum nFrac) =
      195766423245049 * unat nFrac + 971821376 * unat nFrac ^ 2 + 5127 * unat nFrac ^ 3 + 2 ^ 47
    \<and> unat (phoenix_factor nFrac) = 65536 + unat (phoenix_sum nFrac) div 2 ^ 48
    \<and> 65536 \<le> unat (phoenix_factor nFrac) \<and> unat (phoenix_factor nFrac) < 131072"
proof (intro conjI)
  show "unat (phoenix_sum nFrac) =
      195766423245049 * unat nFrac + 971821376 * unat nFrac ^ 2 + 5127 * unat nFrac ^ 3 + 2 ^ 47"
    using assms by (simp add: unat_phoenix_sum phoenix_poly_def power2_eq_square power3_eq_cube)
  show "unat (phoenix_factor nFrac) = 65536 + unat (phoenix_sum nFrac) div 2 ^ 48"
    using assms by (simp only: unat_phoenix_sum unat_phoenix_factor)
  show "65536 \<le> unat (phoenix_factor nFrac)" and "unat (phoenix_factor nFrac) < 131072"
    using assms phoenix_nat_factor_bounds [of "unat nFrac"]
    by (simp_all add: unat_phoenix_factor phoenix_nat_factor_def)
qed

theorem phoenix_factor_exact_witness:
  "unat (65535 :: u64) < 65536 \<and> 65536 \<le> unat (phoenix_factor 65535)
    \<and> unat (phoenix_factor 65535) < 131072"
  using phoenix_factor_exact [of 65535] by simp

text \<open>C37: whatever the anchor, heights and times, the compact target the rule returns is a valid
  difficulty: it is not negative, not zero, and at most the proof-of-work limit 2^236 - 1.\<close>

theorem phoenix_next_in_range:
  assumes "bignum_library L val"
  shows "\<not> bit (Phoenix413_NextCompact L bits at ah h t) 23
    \<and> 0 < val (SetCompact L (Phoenix413_NextCompact L bits at ah h t))
    \<and> val (SetCompact L (Phoenix413_NextCompact L bits at ah h t)) \<le> 2 ^ 236 - 1"
proof -
  define e where "e = phoenix_exponent at ah h t"
  define m where "m = phoenix_clamp (phoenix_raw (compact_mag (unat bits)) e)"
  have m: "0 < m" "m < 2 ^ 236" unfolding m_def by (rule phoenix_clamp_bounds)+
  have w: "unat (Phoenix413_NextCompact L bits at ah h t) = mag_compact m"
    unfolding Phoenix413_NextCompact_def m_def e_def
    by (rule bignum_library.unat_NextCompact [OF assms])
  have v: "val (SetCompact L (Phoenix413_NextCompact L bits at ah h t)) =
      int (compact_mag (mag_compact m))"
    unfolding Phoenix413_NextCompact_def m_def e_def
    by (rule bignum_library.val_NextCompact [OF assms])
  have "int (compact_mag (mag_compact m)) \<le> 2 ^ 236 - 1"
    using compact_mag_le [of m] m(2) by simp
  then show ?thesis
    using mag_compact_sign_clear [of m] compact_mag_pos [OF m(1)] by (simp add: w v bit_unat)
qed

theorem phoenix_next_in_range_witness:
  "0 < SetCompact int_bn (Phoenix413_NextCompact int_bn 0x1d00ffff 1600000000 4500000 4500002 1600000031)"
  using phoenix_next_in_range [OF int_bn.bignum_library_axioms] by simp

text \<open>The rule is monotone: a later parent block never makes the next target harder.\<close>

theorem phoenix_next_monotone:
  assumes "bignum_library L val" and "t \<le> t'"
  shows "val (SetCompact L (Phoenix413_NextCompact L bits at ah h t))
    \<le> val (SetCompact L (Phoenix413_NextCompact L bits at ah h t'))"
  unfolding Phoenix413_NextCompact_def bignum_library.val_NextCompact [OF assms(1)] of_nat_le_iff
  by (intro compact_mag_mono phoenix_clamp_mono phoenix_raw_mono phoenix_exponent_mono assms(2))

theorem phoenix_next_monotone_witness:
  "SetCompact int_bn (Phoenix413_NextCompact int_bn 0x1d00ffff 1600000000 4500000 4500002 1600000029)
    \<le> SetCompact int_bn (Phoenix413_NextCompact int_bn 0x1d00ffff 1600000000 4500000 4500002 1600000031)"
  using phoenix_next_monotone [OF int_bn.bignum_library_axioms, of 1600000029 1600000031] by simp

lemma compact_mag_representable: "compact_mag (mag_compact (compact_mag c)) = compact_mag c"
proof -
  define w s where "w = c mod 2 ^ 23" and "s = c div 2 ^ 24"
  have c: "compact_mag c = (if s \<le> 3 then w div 256 ^ (3 - s) else w * 256 ^ (s - 3))"
    by (simp only: compact_mag_def w_def s_def Let_def)
  have w: "w < 2 ^ 23" by (simp add: w_def)
  have "256 ^ compact_drop (compact_mag c) dvd compact_mag c"
  proof (cases "compact_drop (compact_mag c) = 0")
    case False
    show ?thesis
    proof (cases "s \<le> 3")
      case True
      have "w div 256 ^ (3 - s) < 2 ^ 23" using w by (rule le_less_trans [OF div_le_dividend])
      then have "compact_mag c < 2 ^ 23" using True by (simp add: c)
      then have "compact_drop (compact_mag c) = 0" by (intro compact_drop_unique) simp_all
      then show ?thesis by simp
    next
      case big: False
      have "compact_mag c < 2 ^ 23 * 256 ^ (s - 3)" using w big by (simp add: c)
      then have "(2 :: nat) ^ 15 * 256 ^ compact_drop (compact_mag c) < 2 ^ 15 * 256 ^ Suc (s - 3)"
        using compact_drop_bound [of "compact_mag c"] False by simp
      then have "(256 :: nat) ^ compact_drop (compact_mag c) < 256 ^ Suc (s - 3)"
        by (simp only: mult_less_cancel1)
      then have "compact_drop (compact_mag c) < Suc (s - 3)"
        by (rule power_less_imp_less_exp [rotated]) simp
      then have "compact_drop (compact_mag c) \<le> s - 3" by simp
      then show ?thesis using big by (simp add: c le_imp_power_dvd dvd_mult)
    qed
  qed simp
  then show ?thesis by (simp add: compact_mag_mag_compact)
qed

text \<open>A chain exactly on schedule keeps the anchor's target.\<close>

theorem phoenix_on_schedule:
  assumes "bignum_library L val"
    and "0 < compact_mag (unat bits)" and "compact_mag (unat bits) < 2 ^ 236"
  shows "val (SetCompact L (Phoenix413_NextCompact L bits at ah h (at + 30 * (h - ah))))
    = int (compact_mag (unat bits))"
proof -
  have e: "phoenix_exponent at ah h (at + 30 * (h - ah)) = 0"
  proof -
    have "(at + 30 * (h - ah) - at - 30 * (h - 1 - ah + 1)) * 65536 = 0" by simp
    then show ?thesis
      by (simp only: phoenix_exponent_def PHOENIX413_TARGET_SPACING_def Let_def) (simp add: c_div_def)
  qed
  have "phoenix_raw (compact_mag (unat bits)) 0 = compact_mag (unat bits)"
    by (simp add: phoenix_raw_def)
  moreover have "phoenix_clamp (compact_mag (unat bits)) = compact_mag (unat bits)"
  proof -
    have "compact_mag (unat bits) \<le> 2 ^ 236 - 1" using assms(3) by simp
    from phoenix_clamp_cases [OF this] show ?thesis using assms(2) by simp
  qed
  ultimately show ?thesis
    unfolding Phoenix413_NextCompact_def bignum_library.val_NextCompact [OF assms(1)] e
    by (simp add: compact_mag_representable)
qed

theorem phoenix_on_schedule_witness:
  "SetCompact int_bn (Phoenix413_NextCompact int_bn 0x1d00ffff 1600000000 4500000 4500001 1600000030)
    = int (compact_mag 0x1d00ffff)"
  using phoenix_on_schedule [OF int_bn.bignum_library_axioms, where bits = "0x1d00ffff"
      and at = 1600000000 and ah = 4500000 and h = 4500001]
  by (simp add: compact_mag_def)

lemma phoenix_exponent_half_life:
  assumes "at + 30 * (h - ah) \<le> t"
  shows "phoenix_exponent at ah h (t + 12390) = phoenix_exponent at ah h t + 65536"
proof -
  define a where "a = (t - at - 30 * (h - 1 - ah + 1)) * 65536"
  have a: "0 \<le> a" using assms by (simp add: a_def algebra_simps)
  have "(t + 12390 - at - 30 * (h - 1 - ah + 1)) * 65536 = a + 65536 * 12390"
    by (simp add: a_def algebra_simps)
  moreover have "c_div (a + 65536 * 12390) 12390 = c_div a 12390 + 65536"
    using a by (simp add: c_div_nonneg)
  ultimately show ?thesis
    by (simp only: phoenix_exponent_def PHOENIX413_TARGET_SPACING_def PHOENIX413_HALF_LIFE_def
        Let_def a_def)
qed

text \<open>Half-life: on a chain that is not ahead of schedule, a parent that is 12390 seconds
  (413 blocks) later doubles the target; read backwards, where the later target is below the
  limit the earlier one is its half, rounded down and kept at least one.\<close>

theorem phoenix_half_life:
  assumes "bignum_library L val" and "at + 30 * (h - ah) \<le> t"
    and "val (phoenix_target L bits (phoenix_exponent at ah h (t + 12390))) < 2 ^ 236 - 1"
  shows "val (phoenix_target L bits (phoenix_exponent at ah h t)) =
    max 1 (val (phoenix_target L bits (phoenix_exponent at ah h (t + 12390))) div 2)"
proof -
  define e where "e = phoenix_exponent at ah h t"
  define r where "r = phoenix_raw (compact_mag (unat bits)) (e + 65536)"
  have e': "phoenix_exponent at ah h (t + 12390) = e + 65536"
    unfolding e_def by (rule phoenix_exponent_half_life [OF assms(2)])
  have half: "phoenix_raw (compact_mag (unat bits)) e = r div 2"
    unfolding r_def by (rule phoenix_raw_half_life)
  have v: "val (phoenix_target L bits (e + 65536)) = int (phoenix_clamp r)"
    "val (phoenix_target L bits e) = int (phoenix_clamp (r div 2))"
    by (simp_all only: bignum_library.val_phoenix_target [OF assms(1)] half r_def [symmetric])
  have "int (phoenix_clamp r) < int (2 ^ 236 - 1)" using assms(3) by (simp add: e' v)
  then have r: "phoenix_clamp r < 2 ^ 236 - 1" by (simp only: of_nat_less_iff)
  have "r div 2 \<le> 2 ^ 236 - 1"
    using phoenix_clamp_below [OF r] by (rule le_trans [OF div_le_dividend])
  then have "phoenix_clamp (r div 2) = max 1 (r div 2)" by (rule phoenix_clamp_cases)
  moreover have "max 1 (r div 2) = max 1 (max 1 r div 2)" by (simp add: max_def)
  ultimately have "phoenix_clamp (r div 2) = max 1 (phoenix_clamp r div 2)"
    by (simp only: phoenix_clamp_cases [OF phoenix_clamp_below [OF r]])
  then have "int (phoenix_clamp (r div 2)) = max 1 (int (phoenix_clamp r) div 2)"
    by (simp only: of_nat_max zdiv_int) simp
  then show ?thesis by (simp only: e' v e_def [symmetric])
qed

theorem phoenix_half_life_witness:
  "phoenix_target int_bn 0x1c00ffff (phoenix_exponent 1600000000 4500000 4500001 1600000030) =
    max 1 (phoenix_target int_bn 0x1c00ffff
      (phoenix_exponent 1600000000 4500000 4500001 1600012420) div 2)"
proof -
  have raw: "phoenix_raw 0xffff (16 * 65536) = 0xffff * 65536"
    by (simp add: phoenix_raw_def)
  have e: "phoenix_exponent 1600000000 4500000 4500001 1600012420 = 65536"
    by (simp add: phoenix_exponent_def PHOENIX413_TARGET_SPACING_def PHOENIX413_HALF_LIFE_def
        c_div_def)
  have "phoenix_target int_bn 0x1c00ffff 65536 < 2 ^ 236 - 1"
    using int_bn.val_phoenix_target [of "0x1c00ffff" 65536]
    by (simp add: compact_mag_def phoenix_raw_def phoenix_clamp_def)
  then show ?thesis
    using phoenix_half_life [OF int_bn.bignum_library_axioms, where bits = "0x1c00ffff"
        and at = 1600000000 and ah = 4500000 and h = 4500001 and t = 1600000030] by (simp add: e)
qed

definition phoenix_intermediates :: "int \<Rightarrow> int \<Rightarrow> int \<Rightarrow> int \<Rightarrow> int list" where
  "phoenix_intermediates nAnchorParentTime nAnchorHeight nEvalHeight nParentTime =
     (let nTimeDiff = nParentTime - nAnchorParentTime;
          nHeightDiff = (nEvalHeight - 1) - nAnchorHeight;
          ideal = PHOENIX413_TARGET_SPACING * (nHeightDiff + 1);
          nNum = (nTimeDiff - ideal) * 65536;
          nExponent = c_div nNum PHOENIX413_HALF_LIFE;
          nShifts = drop_bit 16 nExponent
      in [nTimeDiff, nHeightDiff, nHeightDiff + 1, ideal, nTimeDiff - ideal, nNum, nExponent,
          nShifts, nShifts - 16])"

text \<open>C38: no signed overflow: for header times (unsigned 32 bit) and heights (non-negative 32 bit)
  every 64 bit intermediate of the rule, and the shift count passed to OpenSSL as an int, is in
  the range of its C++ type.\<close>

theorem phoenix_no_overflow:
  assumes "0 \<le> at \<and> at < 2 ^ 32" and "0 \<le> t \<and> t < 2 ^ 32"
    and "0 \<le> ah \<and> ah < 2 ^ 31" and "0 \<le> h \<and> h < 2 ^ 31"
  shows "list_all int64_range (phoenix_intermediates at ah h t)
    \<and> int32_range (16 - drop_bit 16 (phoenix_exponent at ah h t))"
proof -
  define d where "d = t - at - 30 * (h - 1 - ah + 1)"
  have d: "\<bar>d\<bar> < 2 ^ 37" using assms by (simp add: d_def) linarith
  then have n: "\<bar>d * 65536\<bar> < 2 ^ 53" by simp
  define e where "e = c_div (d * 65536) 12390"
  have "\<bar>e\<bar> = \<bar>d * 65536\<bar> div 12390" unfolding e_def by (rule c_div_abs) simp
  also have "\<dots> < 2 ^ 40" using n by simp
  finally have e: "\<bar>e\<bar> < 2 ^ 40" .
  then have "- (2 ^ 24) \<le> e div 65536" "e div 65536 < 2 ^ 24" by simp_all
  then show ?thesis
    using assms d n e
    unfolding phoenix_intermediates_def phoenix_exponent_def Let_def PHOENIX413_TARGET_SPACING_def
      PHOENIX413_HALF_LIFE_def d_def [symmetric] e_def [symmetric] drop_bit_16
    by (simp add: int64_range_def int32_range_def abs_less_iff)
qed

theorem phoenix_no_overflow_witness:
  "list_all int64_range (phoenix_intermediates 1600000000 4500000 4500002 1600000031)"
  using phoenix_no_overflow [of 1600000000 1600000031 4500000 4500002] by simp

section \<open>The canonical vectors\<close>

text \<open>
  phoenix413_vectors.h: the table the standalone harness test-phoenix413.cpp compares the code with
  (name, anchor bits, anchor parent time, anchor height, evaluated height, parent time, expected
  bits). The harness counts the rows whose result differs from the expected one.
\<close>

definition PHOENIX413_VECTORS :: "(string \<times> u32 \<times> int \<times> int \<times> int \<times> int \<times> u32) list" where
  "PHOENIX413_VECTORS =
    [(''steady_dh0'', 0x1d00ffff, 1600000000, 4500000, 4500001, 1600000000, 0x1d00ff92),
     (''steady_dh1'', 0x1d00ffff, 1600000000, 4500000, 4500002, 1600000030, 0x1d00ff92),
     (''steady_dh412'', 0x1d00ffff, 1600000000, 4500000, 4500413, 1600012360, 0x1d00ff92),
     (''steady_dh413'', 0x1d00ffff, 1600000000, 4500000, 4500414, 1600012390, 0x1d00ff92),
     (''steady_dh9999'', 0x1d00ffff, 1600000000, 4500000, 4510000, 1600299970, 0x1d00ff92),
     (''jitter_-29'', 0x1d00ffff, 1600000000, 4500000, 4500002, 1600000001, 0x1d00ff28),
     (''jitter_-1'', 0x1d00ffff, 1600000000, 4500000, 4500002, 1600000029, 0x1d00ff8e),
     (''jitter_+1'', 0x1d00ffff, 1600000000, 4500000, 4500002, 1600000031, 0x1d00ff95),
     (''jitter_+29'', 0x1d00ffff, 1600000000, 4500000, 4500002, 1600000059, 0x1d00fffb),
     (''jitter_+300'', 0x1d00ffff, 1600000000, 4500000, 4500002, 1600000330, 0x1d0103e6),
     (''jitter_-300'', 0x1d00ffff, 1600000000, 4500000, 4500002, 1599999730, 0x1d00fb53),
     (''stall_1halflife'', 0x1d00ffff, 1600000000, 4500000, 4500001, 1600012420, 0x1d01fffe),
     (''surge_1halflife'', 0x1d00ffff, 1600000000, 4500000, 4500001, 1599987640, 0x1c7fff80),
     (''stall_2halflife'', 0x1d00ffff, 1600000000, 4500000, 4500001, 1600024810, 0x1d03fffc),
     (''surge_2halflife'', 0x1d00ffff, 1600000000, 4500000, 4500001, 1599975250, 0x1c3fffc0),
     (''stall_3halflife'', 0x1d00ffff, 1600000000, 4500000, 4500001, 1600037200, 0x1d07fff8),
     (''surge_3halflife'', 0x1d00ffff, 1600000000, 4500000, 4500001, 1599962860, 0x1c1fffe0),
     (''stall_4halflife'', 0x1d00ffff, 1600000000, 4500000, 4500001, 1600049590, 0x1d0ffff0),
     (''surge_4halflife'', 0x1d00ffff, 1600000000, 4500000, 4500001, 1599950470, 0x1c0ffff0),
     (''stall_5halflife'', 0x1d00ffff, 1600000000, 4500000, 4500001, 1600061980, 0x1d1fffe0),
     (''surge_5halflife'', 0x1d00ffff, 1600000000, 4500000, 4500001, 1599938080, 0x1c07fff8),
     (''strand_13x'', 0x1d00ffff, 1600000000, 4500000, 4501001, 1600390390, 0x1e0fffff),
     (''strand_23x'', 0x1d00ffff, 1600000000, 4500000, 4501001, 1600690690, 0x1e0fffff),
     (''strand_100x'', 0x1d00ffff, 1600000000, 4500000, 4501001, 1603003000, 0x1e0fffff),
     (''future_abuse_7200'', 0x1d00ffff, 1600000000, 4500000, 4500002, 1600007230, 0x1d017e4e),
     (''clamp_powlimit'', 0x1e0fffff, 1600000000, 4500000, 4500001, 1604956000, 0x1e0fffff),
     (''clamp_one'', 0x03000001, 1600000000, 4500000, 4500001, 1562830000, 0x01010000),
     (''anchor_easy_steady'', 0x1e0fffff, 1600000000, 4500000, 4500003, 1600000060, 0x1e0ff92f),
     (''anchor_easy_stall'', 0x1e0fffff, 1600000000, 4500000, 4500003, 1600012450, 0x1e0fffff),
     (''anchor_hard_steady'', 0x1b04864c, 1600000000, 4500000, 4500003, 1600000060, 0x1b04845e),
     (''anchor_hard_stall'', 0x1b04864c, 1600000000, 4500000, 4500003, 1600012450, 0x1b0908b9),
     (''anchor_mid_steady'', 0x1c05a3f4, 1600000000, 4500000, 4500003, 1600000060, 0x1c05a18d),
     (''anchor_mid_stall'', 0x1c05a3f4, 1600000000, 4500000, 4500003, 1600012450, 0x1c0b4314),
     (''walk_000'', 0x1d00ffff, 1600000000, 4500000, 4500002, 1600000053, 0x1d00ffe5),
     (''walk_010'', 0x1d00ffff, 1600000000, 4500000, 4500012, 1600000556, 0x1d0102d2),
     (''walk_020'', 0x1d00ffff, 1600000000, 4500000, 4500022, 1600001141, 0x1d0106fe),
     (''walk_030'', 0x1d00ffff, 1600000000, 4500000, 4500032, 1600001624, 0x1d0109b4),
     (''walk_040'', 0x1d00ffff, 1600000000, 4500000, 4500042, 1600002041, 0x1d010b73),
     (''walk_050'', 0x1d00ffff, 1600000000, 4500000, 4500052, 1600002510, 0x1d010dfe),
     (''walk_060'', 0x1d00ffff, 1600000000, 4500000, 4500062, 1600002823, 0x1d010e30),
     (''walk_070'', 0x1d00ffff, 1600000000, 4500000, 4500072, 1600003364, 0x1d0111dc),
     (''walk_080'', 0x1d00ffff, 1600000000, 4500000, 4500082, 1600003841, 0x1d011495),
     (''walk_090'', 0x1d00ffff, 1600000000, 4500000, 4500092, 1600004330, 0x1d011786),
     (''walk_100'', 0x1d00ffff, 1600000000, 4500000, 4500102, 1600004873, 0x1d011b59),
     (''walk_110'', 0x1d00ffff, 1600000000, 4500000, 4500112, 1600005166, 0x1d011b3c)]"

definition phoenix_harness_failures :: "'b bn_lib \<Rightarrow> nat" where
  "phoenix_harness_failures L =
     length (filter (\<lambda>(name, bits, at, ah, h, t, expect).
       Phoenix413_NextCompact L bits at ah h t \<noteq> expect) PHOENIX413_VECTORS)"

text \<open>The rule on numbers, for evaluation.\<close>

definition phoenix_eval :: "u32 \<Rightarrow> int \<Rightarrow> int \<Rightarrow> int \<Rightarrow> int \<Rightarrow> nat" where
  "phoenix_eval bits at ah h t =
    mag_compact (phoenix_clamp (phoenix_raw (compact_mag (unat bits)) (phoenix_exponent at ah h t)))"

lemmas phoenix_eval_simps =
  phoenix_eval_def phoenix_exponent_def PHOENIX413_TARGET_SPACING_def PHOENIX413_HALF_LIFE_def
  c_div_def compact_mag_def phoenix_raw_def phoenix_nat_factor_def phoenix_poly_def
  phoenix_clamp_def mag_compact_def le_bytes.simps Let_def

lemma phoenix_vectors_1:
  "phoenix_eval 0x1d00ffff 1600000000 4500000 4500001 1600000000 = unat (0x1d00ff92 :: u32)"
  "phoenix_eval 0x1d00ffff 1600000000 4500000 4500002 1600000030 = unat (0x1d00ff92 :: u32)"
  "phoenix_eval 0x1d00ffff 1600000000 4500000 4500413 1600012360 = unat (0x1d00ff92 :: u32)"
  "phoenix_eval 0x1d00ffff 1600000000 4500000 4500414 1600012390 = unat (0x1d00ff92 :: u32)"
  "phoenix_eval 0x1d00ffff 1600000000 4500000 4510000 1600299970 = unat (0x1d00ff92 :: u32)"
  "phoenix_eval 0x1d00ffff 1600000000 4500000 4500002 1600000001 = unat (0x1d00ff28 :: u32)"
  "phoenix_eval 0x1d00ffff 1600000000 4500000 4500002 1600000029 = unat (0x1d00ff8e :: u32)"
  "phoenix_eval 0x1d00ffff 1600000000 4500000 4500002 1600000031 = unat (0x1d00ff95 :: u32)"
  "phoenix_eval 0x1d00ffff 1600000000 4500000 4500002 1600000059 = unat (0x1d00fffb :: u32)"
  by (simp add: phoenix_eval_simps)+

lemma phoenix_vectors_2:
  "phoenix_eval 0x1d00ffff 1600000000 4500000 4500002 1600000330 = unat (0x1d0103e6 :: u32)"
  "phoenix_eval 0x1d00ffff 1600000000 4500000 4500002 1599999730 = unat (0x1d00fb53 :: u32)"
  "phoenix_eval 0x1d00ffff 1600000000 4500000 4500001 1600012420 = unat (0x1d01fffe :: u32)"
  "phoenix_eval 0x1d00ffff 1600000000 4500000 4500001 1599987640 = unat (0x1c7fff80 :: u32)"
  "phoenix_eval 0x1d00ffff 1600000000 4500000 4500001 1600024810 = unat (0x1d03fffc :: u32)"
  "phoenix_eval 0x1d00ffff 1600000000 4500000 4500001 1599975250 = unat (0x1c3fffc0 :: u32)"
  "phoenix_eval 0x1d00ffff 1600000000 4500000 4500001 1600037200 = unat (0x1d07fff8 :: u32)"
  "phoenix_eval 0x1d00ffff 1600000000 4500000 4500001 1599962860 = unat (0x1c1fffe0 :: u32)"
  "phoenix_eval 0x1d00ffff 1600000000 4500000 4500001 1600049590 = unat (0x1d0ffff0 :: u32)"
  by (simp add: phoenix_eval_simps)+

lemma phoenix_vectors_3:
  "phoenix_eval 0x1d00ffff 1600000000 4500000 4500001 1599950470 = unat (0x1c0ffff0 :: u32)"
  "phoenix_eval 0x1d00ffff 1600000000 4500000 4500001 1600061980 = unat (0x1d1fffe0 :: u32)"
  "phoenix_eval 0x1d00ffff 1600000000 4500000 4500001 1599938080 = unat (0x1c07fff8 :: u32)"
  "phoenix_eval 0x1d00ffff 1600000000 4500000 4501001 1600390390 = unat (0x1e0fffff :: u32)"
  "phoenix_eval 0x1d00ffff 1600000000 4500000 4501001 1600690690 = unat (0x1e0fffff :: u32)"
  "phoenix_eval 0x1d00ffff 1600000000 4500000 4501001 1603003000 = unat (0x1e0fffff :: u32)"
  "phoenix_eval 0x1d00ffff 1600000000 4500000 4500002 1600007230 = unat (0x1d017e4e :: u32)"
  "phoenix_eval 0x1e0fffff 1600000000 4500000 4500001 1604956000 = unat (0x1e0fffff :: u32)"
  "phoenix_eval 0x03000001 1600000000 4500000 4500001 1562830000 = unat (0x01010000 :: u32)"
  by (simp add: phoenix_eval_simps)+

lemma phoenix_vectors_4:
  "phoenix_eval 0x1e0fffff 1600000000 4500000 4500003 1600000060 = unat (0x1e0ff92f :: u32)"
  "phoenix_eval 0x1e0fffff 1600000000 4500000 4500003 1600012450 = unat (0x1e0fffff :: u32)"
  "phoenix_eval 0x1b04864c 1600000000 4500000 4500003 1600000060 = unat (0x1b04845e :: u32)"
  "phoenix_eval 0x1b04864c 1600000000 4500000 4500003 1600012450 = unat (0x1b0908b9 :: u32)"
  "phoenix_eval 0x1c05a3f4 1600000000 4500000 4500003 1600000060 = unat (0x1c05a18d :: u32)"
  "phoenix_eval 0x1c05a3f4 1600000000 4500000 4500003 1600012450 = unat (0x1c0b4314 :: u32)"
  "phoenix_eval 0x1d00ffff 1600000000 4500000 4500002 1600000053 = unat (0x1d00ffe5 :: u32)"
  "phoenix_eval 0x1d00ffff 1600000000 4500000 4500012 1600000556 = unat (0x1d0102d2 :: u32)"
  "phoenix_eval 0x1d00ffff 1600000000 4500000 4500022 1600001141 = unat (0x1d0106fe :: u32)"
  by (simp add: phoenix_eval_simps)+

lemma phoenix_vectors_5:
  "phoenix_eval 0x1d00ffff 1600000000 4500000 4500032 1600001624 = unat (0x1d0109b4 :: u32)"
  "phoenix_eval 0x1d00ffff 1600000000 4500000 4500042 1600002041 = unat (0x1d010b73 :: u32)"
  "phoenix_eval 0x1d00ffff 1600000000 4500000 4500052 1600002510 = unat (0x1d010dfe :: u32)"
  "phoenix_eval 0x1d00ffff 1600000000 4500000 4500062 1600002823 = unat (0x1d010e30 :: u32)"
  "phoenix_eval 0x1d00ffff 1600000000 4500000 4500072 1600003364 = unat (0x1d0111dc :: u32)"
  "phoenix_eval 0x1d00ffff 1600000000 4500000 4500082 1600003841 = unat (0x1d011495 :: u32)"
  "phoenix_eval 0x1d00ffff 1600000000 4500000 4500092 1600004330 = unat (0x1d011786 :: u32)"
  "phoenix_eval 0x1d00ffff 1600000000 4500000 4500102 1600004873 = unat (0x1d011b59 :: u32)"
  "phoenix_eval 0x1d00ffff 1600000000 4500000 4500112 1600005166 = unat (0x1d011b3c :: u32)"
  by (simp add: phoenix_eval_simps)+

lemma phoenix_vectors_eval:
  "list_all (\<lambda>(name, bits, at, ah, h, t, expect). phoenix_eval bits at ah h t = unat expect)
     PHOENIX413_VECTORS"
  by (simp only: PHOENIX413_VECTORS_def list.pred_inject prod.case phoenix_vectors_1 phoenix_vectors_2 phoenix_vectors_3 phoenix_vectors_4 phoenix_vectors_5 simp_thms)

lemma filter_none_length: "list_all (\<lambda>x. \<not> P x) xs \<Longrightarrow> length (filter P xs) = 0"
  by (induction xs) auto

text \<open>The model agrees with every row of the canonical vector table: the harness of the
  repository reports no failure.\<close>

theorem phoenix_vectors_pass:
  assumes "bignum_library L val"
  shows "phoenix_harness_failures L = 0"
  unfolding phoenix_harness_failures_def
proof (rule filter_none_length, rule list.pred_mono_strong [OF phoenix_vectors_eval])
  fix row :: "string \<times> u32 \<times> int \<times> int \<times> int \<times> int \<times> u32"
  assume "(\<lambda>(name, bits, at, ah, h, t, expect). phoenix_eval bits at ah h t = unat expect) row"
  then show "\<not> (\<lambda>(name, bits, at, ah, h, t, expect).
      Phoenix413_NextCompact L bits at ah h t \<noteq> expect) row"
    by (auto simp: word_unat_eq_iff Phoenix413_NextCompact_def phoenix_eval_def
        bignum_library.unat_NextCompact [OF assms])
qed

theorem phoenix_vectors_pass_witness: "phoenix_harness_failures int_bn = 0"
  by (rule phoenix_vectors_pass [OF int_bn.bignum_library_axioms])

end
