(* ===== verification/Uint256.thy ===== *)
theory Uint256
  imports Prelude
begin

text \<open>
  uint256.h: base_uint, the fixed width unsigned integers behind uint160 and uint256. The array pn of
  32-bit limbs, least significant first, is a list whose length is WIDTH; every operator is the loop
  of the source over the limbs. The contract is arithmetic modulo 2 to the number of bits, stated
  through bu_val, the number an array stands for.

  The other theories use the words uint160 and uint256 for the values of those
  classes, with u160_of_bytes and u160_bytes for the memory layout the serializer
  writes.
\<close>

type_synonym uint160 = "160 word"
type_synonym uint256 = "256 word"

definition u160_of_bytes :: "byte list \<Rightarrow> uint160" where
  "u160_of_bytes bs = word_of_nat (le_val bs)"

definition u160_bytes :: "uint160 \<Rightarrow> byte list" where
  "u160_bytes h = le_fixed 20 (unat h)"

definition u256_of_bytes :: "byte list \<Rightarrow> uint256" where
  "u256_of_bytes bs = word_of_nat (le_val bs)"

definition u256_bytes :: "uint256 \<Rightarrow> byte list" where
  "u256_bytes h = le_fixed 32 (unat h)"

lemma length_u160_bytes [simp]: "length (u160_bytes h) = 20"
  by (simp add: u160_bytes_def)

lemma length_u256_bytes [simp]: "length (u256_bytes h) = 32"
  by (simp add: u256_bytes_def)

lemma u160_of_bytes_bytes [simp]: "u160_of_bytes (u160_bytes h) = h"
proof -
  have "unat h < 2 ^ 160" using unsigned_less [of h] by simp
  then have "unat h mod 256 ^ 20 = unat h" by simp
  then show ?thesis by (simp only: u160_of_bytes_def u160_bytes_def le_val_le_fixed) simp
qed

lemma u256_of_bytes_bytes [simp]: "u256_of_bytes (u256_bytes h) = h"
proof -
  have "unat h < 2 ^ 256" using unsigned_less [of h] by simp
  then have "unat h mod 256 ^ 32 = unat h" by simp
  then show ?thesis by (simp only: u256_of_bytes_def u256_bytes_def le_val_le_fixed) simp
qed

lemma u160_bytes_of_bytes [simp]: assumes "length bs = 20" shows "u160_bytes (u160_of_bytes bs) = bs"
proof -
  have "le_val bs < 2 ^ 160" using le_val_bound [of bs] assms by simp
  then have "unat (word_of_nat (le_val bs) :: uint160) = le_val bs" by (intro unat_of_nat_less) simp
  then show ?thesis using assms by (simp add: u160_bytes_def u160_of_bytes_def)
qed

lemma u256_bytes_of_bytes [simp]: assumes "length bs = 32" shows "u256_bytes (u256_of_bytes bs) = bs"
proof -
  have "le_val bs < 2 ^ 256" using le_val_bound [of bs] assms by simp
  then have "unat (word_of_nat (le_val bs) :: uint256) = le_val bs" by (intro unat_of_nat_less) simp
  then show ?thesis using assms by (simp add: u256_bytes_def u256_of_bytes_def)
qed

section \<open>The operators\<close>

type_synonym pn = "u32 list"

definition bu_is_zero :: "pn \<Rightarrow> bool" where
  "bu_is_zero pn = list_all (\<lambda>x. x = 0) pn"

definition bu_compl :: "pn \<Rightarrow> pn" where
  "bu_compl pn = map (\<lambda>x. NOT x) pn"

text \<open>operator++: the carry stops at the first limb that does not wrap, or at the last one.\<close>

fun bu_inc :: "pn \<Rightarrow> pn" where
  "bu_inc [] = []"
| "bu_inc (x # pn) = (if x + 1 = 0 then 0 # bu_inc pn else (x + 1) # pn)"

fun bu_dec :: "pn \<Rightarrow> pn" where
  "bu_dec [] = []"
| "bu_dec (x # pn) = (if x - 1 = -1 then -1 # bu_dec pn else (x - 1) # pn)"

definition bu_uminus :: "pn \<Rightarrow> pn" where
  "bu_uminus pn = bu_inc (bu_compl pn)"

definition bu_assign64 :: "nat \<Rightarrow> u64 \<Rightarrow> pn" where
  "bu_assign64 WIDTH b = [ucast b, ucast (drop_bit 32 b)] @ replicate (WIDTH - 2) 0"

definition bu_xor :: "pn \<Rightarrow> pn \<Rightarrow> pn" where "bu_xor a b = map2 (XOR) a b"
definition bu_and :: "pn \<Rightarrow> pn \<Rightarrow> pn" where "bu_and a b = map2 (AND) a b"
definition bu_or :: "pn \<Rightarrow> pn \<Rightarrow> pn" where "bu_or a b = map2 (OR) a b"

definition bu_xor64 :: "pn \<Rightarrow> u64 \<Rightarrow> pn" where
  "bu_xor64 a b = a[0 := a ! 0 XOR ucast b, 1 := a ! 1 XOR ucast (drop_bit 32 b)]"

definition bu_or64 :: "pn \<Rightarrow> u64 \<Rightarrow> pn" where
  "bu_or64 a b = a[0 := a ! 0 OR ucast b, 1 := a ! 1 OR ucast (drop_bit 32 b)]"

text \<open>
  The shifts: the array is cleared and every limb of the copy a is or-ed into the two limbs
  its bits land in. The loops run over the indices i.
\<close>

definition or_at :: "pn \<Rightarrow> nat \<Rightarrow> u32 \<Rightarrow> pn" where
  "or_at pn i x = pn[i := pn ! i OR x]"

definition bu_shl_step :: "pn \<Rightarrow> nat \<Rightarrow> nat \<Rightarrow> nat \<Rightarrow> pn \<Rightarrow> pn" where
  "bu_shl_step a k shift i pn =
     (let pn1 = (if i + k + 1 < length a \<and> shift \<noteq> 0
                 then or_at pn (i + k + 1) (drop_bit (32 - shift) (a ! i)) else pn)
      in if i + k < length a then or_at pn1 (i + k) (push_bit shift (a ! i)) else pn1)"

definition bu_shl :: "pn \<Rightarrow> nat \<Rightarrow> pn" where
  "bu_shl a shift =
     fold (bu_shl_step a (shift div 32) (shift mod 32)) [0..<length a] (replicate (length a) 0)"

definition bu_shr_step :: "pn \<Rightarrow> nat \<Rightarrow> nat \<Rightarrow> nat \<Rightarrow> pn \<Rightarrow> pn" where
  "bu_shr_step a k shift i pn =
     (let pn1 = (if k + 1 \<le> i \<and> shift \<noteq> 0
                 then or_at pn (i - k - 1) (push_bit (32 - shift) (a ! i)) else pn)
      in if k \<le> i then or_at pn1 (i - k) (drop_bit shift (a ! i)) else pn1)"

definition bu_shr :: "pn \<Rightarrow> nat \<Rightarrow> pn" where
  "bu_shr a shift =
     fold (bu_shr_step a (shift div 32) (shift mod 32)) [0..<length a] (replicate (length a) 0)"

fun bu_add_loop :: "u64 \<Rightarrow> pn \<Rightarrow> pn \<Rightarrow> pn" where
  "bu_add_loop carry (x # a) (y # b) =
     (let n = carry + ucast x + ucast y in
      ucast (n AND 0xffffffff) # bu_add_loop (drop_bit 32 n) a b)"
| "bu_add_loop carry _ _ = []"

definition bu_add :: "pn \<Rightarrow> pn \<Rightarrow> pn" where
  "bu_add a b = bu_add_loop 0 a b"

definition bu_sub :: "pn \<Rightarrow> pn \<Rightarrow> pn" where
  "bu_sub a b = bu_add a (bu_uminus b)"

definition bu_add64 :: "pn \<Rightarrow> u64 \<Rightarrow> pn" where
  "bu_add64 a b = bu_add a (bu_assign64 (length a) b)"

definition bu_sub64 :: "pn \<Rightarrow> u64 \<Rightarrow> pn" where
  "bu_sub64 a b = bu_add a (bu_uminus (bu_assign64 (length a) b))"

text \<open>The comparisons scan from the most significant limb; the argument lists are reversed arrays.\<close>

fun bu_less_loop :: "bool \<Rightarrow> u32 list \<Rightarrow> u32 list \<Rightarrow> bool" where
  "bu_less_loop d (x # a) (y # b) = (if x < y then True else if x > y then False else bu_less_loop d a b)"
| "bu_less_loop d _ _ = d"

definition bu_less :: "pn \<Rightarrow> pn \<Rightarrow> bool" where
  "bu_less a b = bu_less_loop False (rev a) (rev b)"

definition bu_le :: "pn \<Rightarrow> pn \<Rightarrow> bool" where
  "bu_le a b = bu_less_loop True (rev a) (rev b)"

fun bu_greater_loop :: "bool \<Rightarrow> u32 list \<Rightarrow> u32 list \<Rightarrow> bool" where
  "bu_greater_loop d (x # a) (y # b) =
     (if x > y then True else if x < y then False else bu_greater_loop d a b)"
| "bu_greater_loop d _ _ = d"

definition bu_greater :: "pn \<Rightarrow> pn \<Rightarrow> bool" where
  "bu_greater a b = bu_greater_loop False (rev a) (rev b)"

definition bu_ge :: "pn \<Rightarrow> pn \<Rightarrow> bool" where
  "bu_ge a b = bu_greater_loop True (rev a) (rev b)"

definition bu_eq :: "pn \<Rightarrow> pn \<Rightarrow> bool" where
  "bu_eq a b = list_all2 (=) a b"

definition bu_eq64 :: "pn \<Rightarrow> u64 \<Rightarrow> bool" where
  "bu_eq64 a b =
     (if a ! 0 \<noteq> ucast b then False else if a ! 1 \<noteq> ucast (drop_bit 32 b) then False
      else list_all (\<lambda>x. x = 0) (drop 2 a))"

definition bu_Get64 :: "pn \<Rightarrow> nat \<Rightarrow> u64" where
  "bu_Get64 a n = ucast (a ! (2 * n)) OR push_bit 32 (ucast (a ! (2 * n + 1)))"

section \<open>The value of an array\<close>

fun bu_val :: "pn \<Rightarrow> nat" where
  "bu_val [] = 0"
| "bu_val (x # pn) = unat x + 2 ^ 32 * bu_val pn"

lemma unat_u32_less: "unat (x :: u32) < 2 ^ 32"
  using unsigned_less [of x] by simp

lemma bu_val_bound: "bu_val pn < 2 ^ (32 * length pn)"
proof (induction pn)
  case (Cons x pn)
  then have "bu_val pn + 1 \<le> 2 ^ (32 * length pn)" by simp
  then have "2 ^ 32 * (bu_val pn + 1) \<le> 2 ^ 32 * 2 ^ (32 * length pn)" by (rule mult_le_mono2)
  with unat_u32_less [of x] show ?case by (simp add: power_add)
qed simp

lemma bu_val_append: "bu_val (a @ b) = bu_val a + 2 ^ (32 * length a) * bu_val b"
  by (induction a) (simp_all add: power_add algebra_simps)

lemma bu_val_inj: "length a = length b \<Longrightarrow> bu_val a = bu_val b \<Longrightarrow> a = b"
proof (induction a b rule: list_induct2)
  case (Cons x a y b)
  from Cons.prems have e: "unat x + 2 ^ 32 * bu_val a = unat y + 2 ^ 32 * bu_val b" by simp
  then have "(unat x + 2 ^ 32 * bu_val a) mod 2 ^ 32 = (unat y + 2 ^ 32 * bu_val b) mod 2 ^ 32" by simp
  then have "unat x = unat y" using unat_u32_less [of x] unat_u32_less [of y] by simp
  with e Cons.IH show ?case by (simp add: word_unat_eq_iff)
qed simp

lemma bu_is_zero_iff: "bu_is_zero pn \<longleftrightarrow> bu_val pn = 0"
  by (induction pn) (auto simp: bu_is_zero_def unsigned_eq_0_iff)

lemma bu_eq_iff: "length a = length b \<Longrightarrow> bu_eq a b \<longleftrightarrow> bu_val a = bu_val b"
  using bu_val_inj by (auto simp: bu_eq_def list_all2_eq [symmetric])

lemma unat_not: "unat (NOT x :: u32) = 2 ^ 32 - 1 - unat x"
proof -
  have "NOT x = -1 - x" by (simp add: not_eq_complement)
  moreover have "unat (-1 - x) = unat (-1 :: u32) - unat x" by (rule unat_sub) simp
  ultimately show ?thesis by (simp add: unsigned_minus_1_eq_mask mask_eq_exp_minus_1)
qed

lemma bu_val_compl: "bu_val (bu_compl pn) = 2 ^ (32 * length pn) - 1 - bu_val pn"
proof (induction pn)
  case (Cons x pn)
  have "unat (NOT x) = 2 ^ 32 - 1 - unat x" by (rule unat_not)
  moreover have "bu_val pn + 1 \<le> 2 ^ (32 * length pn)" using bu_val_bound [of pn] by simp
  ultimately show ?case using Cons unat_u32_less [of x]
    by (simp add: bu_compl_def power_add algebra_simps)
qed (simp add: bu_compl_def)

lemma mod_limb: "0 < B \<Longrightarrow> (n :: nat) mod B + B * ((n div B + q) mod M) = (n + B * q) mod (B * M)"
  by (subst mod_mult2_eq) (simp add: add.commute)

lemma length_bu_inc [simp]: "length (bu_inc pn) = length pn"
  by (induction pn) auto

lemma length_bu_compl [simp]: "length (bu_compl pn) = length pn"
  by (simp add: bu_compl_def)

lemma unat_inc: "unat (x + 1 :: u32) = (if x + 1 = 0 then 0 else unat x + 1)"
  using unatSuc [of x] by (simp add: add.commute)

lemma bu_val_inc: "bu_val (bu_inc pn) = (bu_val pn + 1) mod 2 ^ (32 * length pn)"
proof (induction pn)
  case (Cons x pn)
  show ?case
  proof (cases "x + 1 = 0")
    case True
    then have "x = -1" by (simp add: eq_neg_iff_add_eq_0)
    then have "unat x + 1 = 2 ^ 32" by (simp add: unsigned_minus_1_eq_mask mask_eq_exp_minus_1)
    then have "bu_val (x # pn) + 1 = 0 + 2 ^ 32 * (bu_val pn + 1)" by simp
    moreover have "bu_val (bu_inc (x # pn)) = 2 ^ 32 * ((bu_val pn + 1) mod 2 ^ (32 * length pn))"
      using True Cons by simp
    ultimately show ?thesis by (simp add: power_add mult_mod_right)
  next
    case False
    then have "bu_val (bu_inc (x # pn)) = bu_val (x # pn) + 1" by (simp add: unat_inc)
    moreover have "bu_val (bu_inc (x # pn)) < 2 ^ (32 * length (x # pn))"
      using bu_val_bound [of "bu_inc (x # pn)"] by (simp only: length_bu_inc)
    ultimately show ?thesis by (simp only: mod_less)
  qed
qed simp

lemma bu_val_uminus: "bu_val (bu_uminus pn) = (2 ^ (32 * length pn) - bu_val pn) mod 2 ^ (32 * length pn)"
proof -
  have "2 ^ (32 * length pn) - 1 - bu_val pn + 1 = 2 ^ (32 * length pn) - bu_val pn"
    using bu_val_bound [of pn] by linarith
  then show ?thesis by (simp only: bu_uminus_def bu_val_inc bu_val_compl length_bu_compl)
qed

lemma bu_val_add_loop:
  assumes "length a = length b" and "unat c \<le> 1"
  shows "bu_val (bu_add_loop c a b) = (unat c + bu_val a + bu_val b) mod 2 ^ (32 * length a)"
  using assms
proof (induction a b arbitrary: c rule: list_induct2)
  case (Cons x a y b)
  define n where "n = c + ucast x + ucast y"
  have n: "unat n = unat c + unat x + unat y"
    using Cons.prems unat_u32_less [of x] unat_u32_less [of y]
    by (simp add: n_def unat_word_ariths u64_of_u32)
  have lo: "unat (ucast (n AND 0xffffffff) :: u32) = unat n mod 2 ^ 32"
  proof -
    have "n AND 0xffffffff = take_bit 32 n" by (rule and_masks(5))
    then show ?thesis by (simp add: unat_u32_of_u64 unat_take_bit)
  qed
  have hi: "unat (drop_bit 32 n) = unat n div 2 ^ 32" by (rule unat_drop_bit)
  have "unat (drop_bit 32 n) \<le> 1"
    unfolding hi n using Cons.prems unat_u32_less [of x] unat_u32_less [of y] by simp
  have step: "bu_add_loop c (x # a) (y # b) = ucast (n AND 0xffffffff) # bu_add_loop (drop_bit 32 n) a b"
    by (simp add: Let_def n_def)
  from Cons.IH [OF \<open>unat (drop_bit 32 n) \<le> 1\<close>]
  have "bu_val (bu_add_loop c (x # a) (y # b)) =
    unat n mod 2 ^ 32 + 2 ^ 32 * ((unat n div 2 ^ 32 + (bu_val a + bu_val b)) mod 2 ^ (32 * length a))"
    by (simp only: step bu_val.simps lo hi add.assoc)
  also have "\<dots> = (unat n + 2 ^ 32 * (bu_val a + bu_val b)) mod (2 ^ 32 * 2 ^ (32 * length a))"
    by (rule mod_limb) simp
  finally show ?case unfolding n by (simp add: power_add algebra_simps)
qed simp

lemma bu_val_add:
  "length a = length b \<Longrightarrow> bu_val (bu_add a b) = (bu_val a + bu_val b) mod 2 ^ (32 * length a)"
  using bu_val_add_loop [of a b 0] by (simp add: bu_add_def)


lemma length_bu_add [simp]: "length (bu_add_loop c a b) = min (length a) (length b)"
  by (induction c a b rule: bu_add_loop.induct) (simp_all add: Let_def)

lemma length_bu_uminus [simp]: "length (bu_uminus a) = length a"
  by (simp add: bu_uminus_def)

lemma bu_val_sub:
  assumes "length a = length b"
  shows "bu_val (bu_sub a b) = (bu_val a + (2 ^ (32 * length a) - bu_val b)) mod 2 ^ (32 * length a)"
  using assms by (simp add: bu_sub_def bu_val_add bu_val_uminus mod_add_right_eq)

lemma length_bu_assign64 [simp]: "2 \<le> WIDTH \<Longrightarrow> length (bu_assign64 WIDTH b) = WIDTH"
  by (simp add: bu_assign64_def)

lemma bu_val_replicate_0 [simp]: "bu_val (replicate n 0) = 0"
  by (induction n) simp_all

lemma bu_val_assign64: "bu_val (bu_assign64 WIDTH b) = unat b"
proof -
  have "unat b div 2 ^ 32 < 2 ^ 32"
    using u64_bounds(1) [of b] by (simp add: div_less_iff_less_mult)
  then have "unat (ucast (drop_bit 32 b) :: u32) = unat b div 2 ^ 32"
    by (simp only: unat_u32_of_u64 unat_drop_bit) simp
  then show ?thesis
    unfolding bu_assign64_def by (simp only: bu_val.simps append_Cons append_Nil unat_u32_of_u64) simp
qed

lemma bu_dec_inc: "bu_inc (bu_dec pn) = pn"
  by (induction pn) (auto simp: eq_diff_eq)

lemma bu_val_dec: "bu_val (bu_dec pn) = (bu_val pn + 2 ^ (32 * length pn) - 1) mod 2 ^ (32 * length pn)"
proof -
  define M where "M = (2 :: nat) ^ (32 * length pn)"
  have len: "length (bu_dec pn) = length pn" by (induction pn) auto
  have "bu_val pn = (bu_val (bu_dec pn) + 1) mod M"
    using bu_val_inc [of "bu_dec pn"] by (simp add: bu_dec_inc len M_def)
  moreover have "bu_val (bu_dec pn) < M" using bu_val_bound [of "bu_dec pn"] by (simp add: len M_def)
  ultimately have "bu_val (bu_dec pn) = (bu_val pn + M - 1) mod M"
    by (cases "bu_val (bu_dec pn) + 1 = M") auto
  then show ?thesis unfolding M_def .
qed

section \<open>Comparisons\<close>

lemma bu_less_loop_snoc:
  assumes "length a = length b"
  shows "bu_less_loop d (rev (a @ [x])) (rev (b @ [y])) =
    (if x < y then True else if y < x then False else bu_less_loop d (rev a) (rev b))"
  by simp

lemma limb_less:
  assumes "a < M" and "b < (M :: nat)" and "x < y"
  shows "a + M * x < b + M * y"
proof -
  have "a + M * x < M * (x + 1)" using assms by simp
  also have "\<dots> \<le> M * y" using assms by (intro mult_le_mono2) simp
  finally show ?thesis by simp
qed

lemma bu_less_loop_val:
  assumes "length a = length b"
  shows "bu_less_loop d (rev a) (rev b) = (if d then bu_val a \<le> bu_val b else bu_val a < bu_val b)"
  using assms
proof (induction a arbitrary: b rule: rev_induct)
  case (snoc x a)
  then obtain y b' where b: "b = b' @ [y]" and len: "length a = length b'"
    by (cases b rule: rev_cases) auto
  define M where "M = (2 :: nat) ^ (32 * length a)"
  have bounds: "bu_val a < M" "bu_val b' < M"
    using bu_val_bound [of a] bu_val_bound [of b'] len by (simp_all add: M_def)
  have vals: "bu_val (a @ [x]) = bu_val a + M * unat x" "bu_val b = bu_val b' + M * unat y"
    using len by (simp_all add: b bu_val_append M_def)
  consider "x < y" | "y < x" | "x = y" by fastforce
  then show ?case
  proof cases
    case 1
    then have "unat x < unat y" by (simp add: word_less_nat_alt)
    from limb_less [OF bounds this] 1 show ?thesis unfolding vals by (simp add: b)
  next
    case 2
    then have "unat y < unat x" by (simp add: word_less_nat_alt)
    from limb_less [OF bounds(2,1) this] 2 show ?thesis unfolding vals by (simp add: b)
  next
    case 3
    then show ?thesis using snoc.IH [OF len] unfolding vals by (simp add: b)
  qed
qed simp

lemma bu_greater_loop_flip: "bu_greater_loop d a b = bu_less_loop d b a"
  by (induction d a b rule: bu_greater_loop.induct) auto

lemma bu_compare:
  assumes "length a = length b"
  shows "bu_less a b \<longleftrightarrow> bu_val a < bu_val b" and "bu_le a b \<longleftrightarrow> bu_val a \<le> bu_val b"
    and "bu_greater a b \<longleftrightarrow> bu_val b < bu_val a" and "bu_ge a b \<longleftrightarrow> bu_val b \<le> bu_val a"
  using bu_less_loop_val [OF assms] bu_less_loop_val [OF assms [symmetric]]
  by (simp_all add: bu_less_def bu_le_def bu_greater_def bu_ge_def bu_greater_loop_flip)

section \<open>Bits\<close>

lemma bit_bu_val: "bit (bu_val pn) n \<longleftrightarrow> n < 32 * length pn \<and> bit (pn ! (n div 32)) (n mod 32)"
proof (induction pn arbitrary: n)
  case (Cons x pn)
  define v where "v = bu_val (x # pn)"
  have v: "take_bit 32 v = unat x" "drop_bit 32 v = bu_val pn"
    using unat_u32_less [of x] by (simp_all add: v_def take_bit_eq_mod drop_bit_eq_div)
  show ?case
  proof (cases "n < 32")
    case True
    then have "bit v n \<longleftrightarrow> bit (take_bit 32 v) n" by (simp add: bit_take_bit_iff)
    with True show ?thesis unfolding v v_def [symmetric] by (simp add: bit_unsigned_iff)
  next
    case False
    then have "bit v n \<longleftrightarrow> bit (drop_bit 32 v) (n - 32)" by (simp add: bit_drop_bit_eq)
    moreover have "n div 32 = Suc ((n - 32) div 32)" "n mod 32 = (n - 32) mod 32"
      using False by (simp_all add: le_div_geq le_mod_geq)
    ultimately show ?thesis unfolding v v_def [symmetric] using False Cons.IH [of "n - 32"] by auto
  qed
qed simp


lemma bit_bu_val_limb: "j < length pn \<Longrightarrow> m < 32 \<Longrightarrow> bit (bu_val pn) (32 * j + m) \<longleftrightarrow> bit (pn ! j) m"
proof -
  assume "j < length pn" "m < 32"
  moreover have "(32 * j + m) div 32 = j" "(32 * j + m) mod 32 = m" using \<open>m < 32\<close> by simp_all
  ultimately show ?thesis by (simp only: bit_bu_val) simp
qed

text \<open>Bitwise operators act limb by limb.\<close>

lemma bit_bu_map2:
  assumes len: "length a = length b"
    and f: "\<And>x y i. bit (f x y :: u32) i \<longleftrightarrow> g (bit x i) (bit y i)" and g: "\<not> g False False"
  shows "bit (bu_val (map2 f a b)) n \<longleftrightarrow> g (bit (bu_val a) n) (bit (bu_val b) n)"
proof (cases "n < 32 * length a")
  case True
  then have "n div 32 < length a" by (simp add: div_less_iff_less_mult mult.commute)
  with True show ?thesis using len by (simp add: bit_bu_val f)
next
  case False
  then show ?thesis using len g by (simp add: bit_bu_val)
qed

lemma bu_val_bitwise:
  assumes "length a = length b"
  shows "bu_val (bu_and a b) = bu_val a AND bu_val b"
    and "bu_val (bu_or a b) = bu_val a OR bu_val b"
    and "bu_val (bu_xor a b) = bu_val a XOR bu_val b"
proof -
  have "bit (bu_val (bu_and a b)) n \<longleftrightarrow> bit (bu_val a AND bu_val b) n" for n
    unfolding bu_and_def bit_and_iff by (rule bit_bu_map2 [OF assms]) (simp_all add: bit_and_iff)
  then show "bu_val (bu_and a b) = bu_val a AND bu_val b" by (rule bit_eqI)
  have "bit (bu_val (bu_or a b)) n \<longleftrightarrow> bit (bu_val a OR bu_val b) n" for n
    unfolding bu_or_def bit_or_iff by (rule bit_bu_map2 [OF assms]) (simp_all add: bit_or_iff)
  then show "bu_val (bu_or a b) = bu_val a OR bu_val b" by (rule bit_eqI)
  have "bit (bu_val (bu_xor a b)) n \<longleftrightarrow> bit (bu_val a XOR bu_val b) n" for n
    unfolding bu_xor_def bit_xor_iff by (rule bit_bu_map2 [OF assms]) (simp_all add: bit_xor_iff)
  then show "bu_val (bu_xor a b) = bu_val a XOR bu_val b" by (rule bit_eqI)
qed

section \<open>Shifts\<close>

definition shl_hi :: "pn \<Rightarrow> nat \<Rightarrow> nat \<Rightarrow> nat \<Rightarrow> nat \<Rightarrow> u32" where
  "shl_hi a k s m j = (if k < j \<and> s \<noteq> 0 \<and> j - k - 1 < m then drop_bit (32 - s) (a ! (j - k - 1)) else 0)"

definition shl_lo :: "pn \<Rightarrow> nat \<Rightarrow> nat \<Rightarrow> nat \<Rightarrow> nat \<Rightarrow> u32" where
  "shl_lo a k s m j = (if k \<le> j \<and> j - k < m then push_bit s (a ! (j - k)) else 0)"

lemma nth_or_at: "i < length pn \<Longrightarrow> or_at pn i x ! j = (if j = i then pn ! j OR x else pn ! j)"
  by (auto simp: or_at_def)

lemma length_or_at [simp]: "length (or_at pn i x) = length pn"
  by (simp add: or_at_def)

lemma bu_shl_step_nth:
  assumes "length pn = length a" and "j < length a" and "i < length a"
  shows "bu_shl_step a k s i pn ! j =
    (if j = i + k + 1 \<and> s \<noteq> 0 then pn ! j OR drop_bit (32 - s) (a ! i)
     else if j = i + k then pn ! j OR push_bit s (a ! i) else pn ! j)"
  using assms by (simp add: bu_shl_step_def Let_def nth_or_at)

lemma length_bu_shl_step [simp]: "length (bu_shl_step a k s i pn) = length pn"
  by (simp add: bu_shl_step_def Let_def)

lemma shl_grow:
  "(if j = m + k + 1 \<and> s \<noteq> 0 then (shl_hi a k s m j OR shl_lo a k s m j) OR drop_bit (32 - s) (a ! m)
    else if j = m + k then (shl_hi a k s m j OR shl_lo a k s m j) OR push_bit s (a ! m)
    else shl_hi a k s m j OR shl_lo a k s m j) = shl_hi a k s (Suc m) j OR shl_lo a k s (Suc m) j"
proof -
  consider (hi) "j = m + k + 1" | (lo) "j = m + k" | (below) "j < k" | (above) "m + k + 1 < j"
    | (old) "k \<le> j" "j < m + k" by linarith
  then show ?thesis
  proof cases
    case old
    then have "j - k < m" "j - k - 1 < m" by linarith+
    with old show ?thesis by (simp add: shl_hi_def shl_lo_def)
  next
    case above
    then have "\<not> j - k < Suc m" "\<not> j - k - 1 < Suc m" by linarith+
    with above show ?thesis by (simp add: shl_hi_def shl_lo_def)
  next
    case lo
    have "m - Suc 0 < Suc m" by simp
    with lo show ?thesis by (simp add: shl_hi_def shl_lo_def)
  qed (simp_all add: shl_hi_def shl_lo_def or.commute)
qed

lemma shl_fold:
  fixes k s :: nat
  assumes "m \<le> length a" and "r = fold (bu_shl_step a k s) [0..<m] (replicate (length a) 0)"
  shows "length r = length a \<and> (\<forall>j < length a. r ! j = shl_hi a k s m j OR shl_lo a k s m j)"
  using assms
proof (induction m arbitrary: r)
  case 0
  then show ?case by (simp add: shl_hi_def shl_lo_def)
next
  case (Suc m)
  define q where "q = fold (bu_shl_step a k s) [0..<m] (replicate (length a) 0)"
  have q: "length q = length a" "\<And>j. j < length a \<Longrightarrow> q ! j = shl_hi a k s m j OR shl_lo a k s m j"
    using Suc.IH [OF _ q_def] Suc.prems(1) by simp_all
  have r: "r = bu_shl_step a k s m q" using Suc.prems by (simp add: q_def)
  have "r ! j = shl_hi a k s (Suc m) j OR shl_lo a k s (Suc m) j" if j: "j < length a" for j
  proof -
    have step: "r ! j = bu_shl_step a k s m q ! j" unfolding r ..
    show ?thesis
      unfolding step bu_shl_step_nth [OF q(1) j Suc_le_lessD [OF Suc.prems(1)]] q(2) [OF j]
      by (rule shl_grow)
  qed
  then show ?case by (simp add: r q(1))
qed

lemma bu_shl_nth:
  assumes "j < length a"
  shows "bu_shl a shift ! j =
    shl_hi a (shift div 32) (shift mod 32) (length a) j OR shl_lo a (shift div 32) (shift mod 32) (length a) j"
  using shl_fold [OF order_refl refl, of a "shift div 32" "shift mod 32"] assms by (simp add: bu_shl_def)

lemma length_bu_shl [simp]: "length (bu_shl a shift) = length a"
  using shl_fold [OF order_refl refl, of a "shift div 32" "shift mod 32"] by (simp add: bu_shl_def)

lemma bit_bu_shl:
  "bit (bu_val (bu_shl a shift)) n \<longleftrightarrow> n < 32 * length a \<and> shift \<le> n \<and> bit (bu_val a) (n - shift)"
proof (cases "n < 32 * length a")
  case True
  define j m k s where "j = n div 32" and "m = n mod 32" and "k = shift div 32" and "s = shift mod 32"
  have n: "n = 32 * j + m" "m < 32" and sh: "shift = 32 * k + s" "s < 32"
    by (simp_all add: j_def m_def k_def s_def)
  have j: "j < length a" using True n by simp
  have "bit (bu_val (bu_shl a shift)) n \<longleftrightarrow> bit (shl_hi a k s (length a) j) m \<or> bit (shl_lo a k s (length a) j) m"
    using True j by (simp add: bit_bu_val bu_shl_nth bit_or_iff j_def m_def k_def s_def)
  also have "\<dots> \<longleftrightarrow> shift \<le> n \<and> bit (bu_val a) (n - shift)"
  proof (cases "s \<le> m")
    case le: True
    have hi: "\<not> bit (shl_hi a k s (length a) j) m"
      using le by (auto simp: shl_hi_def bit_drop_bit_eq dest: bit_imp_le_length)
    show ?thesis
    proof (cases "k \<le> j")
      case True
      have "n - shift = 32 * (j - k) + (m - s)" using n sh le True by (simp add: diff_mult_distrib2)
      moreover have "bit (bu_val a) (32 * (j - k) + (m - s)) \<longleftrightarrow> bit (a ! (j - k)) (m - s)"
        using j n by (intro bit_bu_val_limb) simp_all
      moreover have "shift \<le> n" "j - k < length a" using True n sh le j by simp_all
      ultimately show ?thesis using hi True j n(2) le by (simp add: shl_lo_def bit_push_bit_iff)
    next
      case False
      then have "n < shift" using n sh le by simp
      with hi False show ?thesis by (simp add: shl_lo_def)
    qed
  next
    case gt: False
    have lo: "\<not> bit (shl_lo a k s (length a) j) m"
      using gt by (auto simp: shl_lo_def bit_push_bit_iff)
    show ?thesis
    proof (cases "k < j")
      case True
      then have "n - shift = 32 * (j - k - 1) + (32 + m - s)" using n sh gt
        by (simp add: diff_mult_distrib2)
      moreover have "bit (bu_val a) (32 * (j - k - 1) + (32 + m - s)) \<longleftrightarrow> bit (a ! (j - k - 1)) (32 + m - s)"
        using j n gt sh by (intro bit_bu_val_limb) simp_all
      moreover have "32 - s + m = 32 + m - s" "shift \<le> n" "j - Suc k < length a"
        using n gt sh True j by simp_all
      ultimately show ?thesis using lo True j gt by (simp add: shl_hi_def bit_drop_bit_eq)
    next
      case False
      then have "n < shift" using n sh gt by simp
      with lo False show ?thesis by (simp add: shl_hi_def)
    qed
  qed
  finally show ?thesis using True by simp
qed (simp add: bit_bu_val)

lemma bu_val_shl: "bu_val (bu_shl a shift) = (bu_val a * 2 ^ shift) mod 2 ^ (32 * length a)"
  unfolding take_bit_eq_mod [symmetric] push_bit_eq_mult [symmetric]
  by (rule bit_eqI) (auto simp: bit_bu_shl bit_take_bit_iff bit_push_bit_iff)

definition shr_hi :: "pn \<Rightarrow> nat \<Rightarrow> nat \<Rightarrow> nat \<Rightarrow> nat \<Rightarrow> u32" where
  "shr_hi a k s m j = (if s \<noteq> 0 \<and> j + k + 1 < m then push_bit (32 - s) (a ! (j + k + 1)) else 0)"

definition shr_lo :: "pn \<Rightarrow> nat \<Rightarrow> nat \<Rightarrow> nat \<Rightarrow> nat \<Rightarrow> u32" where
  "shr_lo a k s m j = (if j + k < m then drop_bit s (a ! (j + k)) else 0)"

lemma bu_shr_step_nth:
  assumes "length pn = length a" and "j < length a" and "i < length a"
  shows "bu_shr_step a k s i pn ! j =
    (if i = j + k + 1 \<and> s \<noteq> 0 then pn ! j OR push_bit (32 - s) (a ! i)
     else if i = j + k then pn ! j OR drop_bit s (a ! i) else pn ! j)"
proof -
  consider "i = j + k + 1" | "i = j + k" | "i \<noteq> j + k + 1" "i \<noteq> j + k" by blast
  then show ?thesis
    by cases (use assms in \<open>auto simp: bu_shr_step_def Let_def nth_or_at\<close>)
qed

lemma length_bu_shr_step [simp]: "length (bu_shr_step a k s i pn) = length pn"
  by (simp add: bu_shr_step_def Let_def)

lemma shr_grow:
  "(if m = j + k + 1 \<and> s \<noteq> 0 then (shr_lo a k s m j OR shr_hi a k s m j) OR push_bit (32 - s) (a ! m)
    else if m = j + k then (shr_lo a k s m j OR shr_hi a k s m j) OR drop_bit s (a ! m)
    else shr_lo a k s m j OR shr_hi a k s m j) = shr_lo a k s (Suc m) j OR shr_hi a k s (Suc m) j"
proof -
  consider (hi) "m = j + k + 1" | (lo) "m = j + k" | (below) "m < j + k" | (old) "j + k + 1 < m"
    by linarith
  then show ?thesis by cases (simp_all add: shr_hi_def shr_lo_def)
qed

lemma shr_fold:
  fixes k s :: nat
  assumes "m \<le> length a" and "r = fold (bu_shr_step a k s) [0..<m] (replicate (length a) 0)"
  shows "length r = length a \<and> (\<forall>j < length a. r ! j = shr_lo a k s m j OR shr_hi a k s m j)"
  using assms
proof (induction m arbitrary: r)
  case 0
  then show ?case by (simp add: shr_hi_def shr_lo_def)
next
  case (Suc m)
  define q where "q = fold (bu_shr_step a k s) [0..<m] (replicate (length a) 0)"
  have q: "length q = length a" "\<And>j. j < length a \<Longrightarrow> q ! j = shr_lo a k s m j OR shr_hi a k s m j"
    using Suc.IH [OF _ q_def] Suc.prems(1) by simp_all
  have r: "r = bu_shr_step a k s m q" using Suc.prems by (simp add: q_def)
  have "r ! j = shr_lo a k s (Suc m) j OR shr_hi a k s (Suc m) j" if j: "j < length a" for j
  proof -
    have step: "r ! j = bu_shr_step a k s m q ! j" unfolding r ..
    show ?thesis
      unfolding step bu_shr_step_nth [OF q(1) j Suc_le_lessD [OF Suc.prems(1)]] q(2) [OF j]
      by (rule shr_grow)
  qed
  then show ?case by (simp add: r q(1))
qed

lemma length_bu_shr [simp]: "length (bu_shr a shift) = length a"
  using shr_fold [OF order_refl refl, of a "shift div 32" "shift mod 32"] by (simp add: bu_shr_def)


lemma bu_shr_nth:
  assumes "j < length a"
  shows "bu_shr a shift ! j =
    shr_lo a (shift div 32) (shift mod 32) (length a) j OR shr_hi a (shift div 32) (shift mod 32) (length a) j"
  using shr_fold [OF order_refl refl, of a "shift div 32" "shift mod 32"] assms by (simp add: bu_shr_def)

lemma bit_bu_shr: "bit (bu_val (bu_shr a shift)) n \<longleftrightarrow> bit (bu_val a) (n + shift)"
proof (cases "n < 32 * length a")
  case True
  define j m k s where "j = n div 32" and "m = n mod 32" and "k = shift div 32" and "s = shift mod 32"
  have n: "n = 32 * j + m" "m < 32" and sh: "shift = 32 * k + s" "s < 32"
    by (simp_all add: j_def m_def k_def s_def)
  have j: "j < length a" using True n by simp
  have lhs: "bit (bu_val (bu_shr a shift)) n \<longleftrightarrow>
    bit (shr_lo a k s (length a) j) m \<or> bit (shr_hi a k s (length a) j) m"
    using True j by (simp add: bit_bu_val bu_shr_nth bit_or_iff j_def m_def k_def s_def)
  show ?thesis
  proof (cases "m + s < 32")
    case True
    have "\<not> bit (shr_hi a k s (length a) j) m"
      using True by (auto simp: shr_hi_def bit_push_bit_iff)
    moreover have "bit (bu_val a) (n + shift) \<longleftrightarrow> j + k < length a \<and> bit (a ! (j + k)) (m + s)"
    proof (cases "j + k < length a")
      case a: True
      have "n + shift = 32 * (j + k) + (m + s)" using n sh by simp
      then show ?thesis using bit_bu_val_limb [OF a True] a by simp
    qed (use n sh in \<open>simp add: bit_bu_val\<close>)
    ultimately show ?thesis unfolding lhs by (simp add: shr_lo_def bit_drop_bit_eq add.commute)
  next
    case False
    have "\<not> bit (shr_lo a k s (length a) j) m"
      using False by (auto simp: shr_lo_def bit_drop_bit_eq dest: bit_imp_le_length)
    moreover have "bit (bu_val a) (n + shift) \<longleftrightarrow>
      j + k + 1 < length a \<and> bit (a ! (j + k + 1)) (m + s - 32)"
    proof (cases "j + k + 1 < length a")
      case a: True
      have "n + shift = 32 * (j + k + 1) + (m + s - 32)" "m + s - 32 < 32" using n sh False by simp_all
      then show ?thesis using bit_bu_val_limb [OF a, of "m + s - 32"] a by simp
    qed (use n sh False in \<open>simp add: bit_bu_val\<close>)
    moreover have "s \<noteq> 0" "32 - s \<le> m" "m - (32 - s) = m + s - 32" using False n sh by simp_all
    ultimately show ?thesis unfolding lhs using n(2) by (simp add: shr_hi_def bit_push_bit_iff)
  qed
next
  case False
  then show ?thesis by (simp add: bit_bu_val)
qed

lemma bu_val_shr: "bu_val (bu_shr a shift) = bu_val a div 2 ^ shift"
  unfolding drop_bit_eq_div [symmetric]
  by (rule bit_eqI) (simp add: bit_bu_shr bit_drop_bit_eq add.commute)

section \<open>Hexadecimal strings\<close>

text \<open>The memory of the array on the little endian machines the program runs on.\<close>

definition pn_bytes :: "pn \<Rightarrow> byte list" where
  "pn_bytes pn = concat (map (\<lambda>x. le_fixed 4 (unat x)) pn)"

fun pn_of_bytes :: "byte list \<Rightarrow> pn" where
  "pn_of_bytes (a # b # c # d # bs) = word_of_nat (le_val [a, b, c, d]) # pn_of_bytes bs"
| "pn_of_bytes _ = []"

definition hexmap :: string where "hexmap = ''0123456789abcdef''"

definition hex_of_byte :: "byte \<Rightarrow> string" where
  "hex_of_byte b = [hexmap ! (unat b div 16), hexmap ! (unat b mod 16)]"

definition bu_GetHex :: "pn \<Rightarrow> string" where
  "bu_GetHex pn = concat (map hex_of_byte (rev (pn_bytes pn)))"

text \<open>The table phexdigit: 0 for every character that is not a digit.\<close>

definition phexdigit :: "char \<Rightarrow> byte" where
  "phexdigit c =
     (let n = of_char c :: nat in
      if 48 \<le> n \<and> n \<le> 57 then word_of_nat (n - 48)
      else if 97 \<le> n \<and> n \<le> 102 then word_of_nat (n - 87)
      else if 65 \<le> n \<and> n \<le> 70 then word_of_nat (n - 55) else 0)"

text \<open>The digits from the last one on, two to a byte, until the array is full.\<close>

fun SetHex_loop :: "nat \<Rightarrow> string \<Rightarrow> byte list" where
  "SetHex_loop 0 ds = []"
| "SetHex_loop (Suc room) [] = 0 # SetHex_loop room []"
| "SetHex_loop (Suc room) [d] = phexdigit d # SetHex_loop room []"
| "SetHex_loop (Suc room) (d # e # ds) =
     (phexdigit d OR push_bit 4 (phexdigit e)) # SetHex_loop room ds"

definition bu_SetHex :: "nat \<Rightarrow> string \<Rightarrow> pn" where
  "bu_SetHex WIDTH psz =
     (let psz1 = dropWhile isspace psz;
          psz2 = (case psz1 of z # x # rest \<Rightarrow> if z = CHR ''0'' \<and> (x = CHR ''x'' \<or> x = CHR ''X'') then rest else psz1
                  | _ \<Rightarrow> psz1);
          digits = takeWhile (\<lambda>c. phexdigit c \<noteq> 0 \<or> c = CHR ''0'') psz2
      in pn_of_bytes (SetHex_loop (WIDTH * 4) (rev digits)))"

lemma length_pn_bytes [simp]: "length (pn_bytes pn) = 4 * length pn"
  by (induction pn) (simp_all add: pn_bytes_def)

lemma pn_of_bytes_append:
  assumes "length bs = 4" shows "pn_of_bytes (bs @ r) = word_of_nat (le_val bs) # pn_of_bytes r"
proof -
  from assms obtain a b c d where "bs = [a, b, c, d]"
    by (auto simp: length_Suc_conv eval_nat_numeral)
  then show ?thesis by (simp only: append_Cons append_Nil pn_of_bytes.simps)
qed

lemma pn_of_bytes_pn_bytes [simp]: "pn_of_bytes (pn_bytes pn) = pn"
proof (induction pn)
  case (Cons x pn)
  have "le_val (le_fixed 4 (unat x)) = unat x"
    using unat_u32_less [of x] by (simp only: le_val_le_fixed) simp
  with Cons show ?case by (simp add: pn_bytes_def pn_of_bytes_append)
qed (simp add: pn_bytes_def)

lemma hexmap_digit:
  assumes "n < 16"
  shows "phexdigit (hexmap ! n) = word_of_nat n" and "phexdigit (hexmap ! n) \<noteq> 0 \<or> hexmap ! n = CHR ''0''"
    and "\<not> isspace (hexmap ! n)" and "hexmap ! n \<noteq> CHR ''x''" and "hexmap ! n \<noteq> CHR ''X''"
proof -
  have "n \<in> {0, 1, 2, 3, 4, 5, 6, 7, 8, 9, 10, 11, 12, 13, 14, 15}"
    using assms by (auto simp: numeral_eq_Suc less_Suc_eq)
  then show "phexdigit (hexmap ! n) = word_of_nat n"
    "phexdigit (hexmap ! n) \<noteq> 0 \<or> hexmap ! n = CHR ''0''"
    "\<not> isspace (hexmap ! n)" "hexmap ! n \<noteq> CHR ''x''" "hexmap ! n \<noteq> CHR ''X''"
    by (auto simp: hexmap_def phexdigit_def isspace_def)
qed

lemma nibbles: "unat (b :: byte) div 16 < 16" "unat b mod 16 < 16"
  using unat_byte_less [of b] by (simp_all add: div_less_iff_less_mult)

lemma hex_nibbles: "word_of_nat (unat b mod 16) OR push_bit 4 (word_of_nat (unat b div 16)) = (b :: byte)"
proof -
  have lo: "word_of_nat (unat b mod 16) = take_bit 4 b"
    by (simp add: word_unat_eq_iff unat_take_bit unat_of_nat_less)
  have hi: "word_of_nat (unat b div 16) = drop_bit 4 b"
    using nibbles(1) [of b] unfolding word_unat_eq_iff unat_drop_bit
    by (subst unat_of_nat_less) simp_all
  have "bit (take_bit 4 b OR push_bit 4 (drop_bit 4 b)) n \<longleftrightarrow> bit b n" if "n < 8" for n
    using that by (cases "n < 4") (simp_all add: bit_or_iff bit_take_bit_iff bit_push_bit_iff bit_drop_bit_eq)
  then show ?thesis unfolding lo hi by (intro bit_eqI) simp
qed

lemma SetHex_loop_hex:
  "SetHex_loop (length bs) (rev (concat (map hex_of_byte (rev bs)))) = bs"
  by (induction bs) (simp_all add: hex_of_byte_def hexmap_digit nibbles hex_nibbles)

lemma hex_digits:
  "c \<in> set (concat (map hex_of_byte bs)) \<Longrightarrow>
    (phexdigit c \<noteq> 0 \<or> c = CHR ''0'') \<and> \<not> isspace c \<and> c \<noteq> CHR ''x'' \<and> c \<noteq> CHR ''X''"
  using hexmap_digit(2-5) nibbles by (auto simp: hex_of_byte_def)

text \<open>
  Printing a base_uint with GetHex and reading the text back with SetHex gives the same array,
  for every width.
\<close>

theorem bu_SetHex_GetHex: "bu_SetHex (length pn) (bu_GetHex pn) = pn"
proof -
  let ?s = "bu_GetHex pn"
  have digits: "\<forall>c \<in> set ?s. (phexdigit c \<noteq> 0 \<or> c = CHR ''0'') \<and> \<not> isspace c \<and> c \<noteq> CHR ''x'' \<and> c \<noteq> CHR ''X''"
    using hex_digits unfolding bu_GetHex_def by blast
  have 1: "dropWhile isspace ?s = ?s" using digits by (cases ?s) auto
  have 2: "(case ?s of z # x # rest \<Rightarrow>
      if z = CHR ''0'' \<and> (x = CHR ''x'' \<or> x = CHR ''X'') then rest else ?s | _ \<Rightarrow> ?s) = ?s"
    using digits by (auto split: list.split)
  have 3: "takeWhile (\<lambda>c. phexdigit c \<noteq> 0 \<or> c = CHR ''0'') ?s = ?s"
    using digits by (simp add: takeWhile_eq_all_conv)
  have "SetHex_loop (length pn * 4) (rev ?s) = pn_bytes pn"
    using SetHex_loop_hex [of "pn_bytes pn"] by (simp add: bu_GetHex_def mult.commute)
  then show ?thesis unfolding bu_SetHex_def Let_def 1 2 3 by simp
qed

section \<open>The contract\<close>

text \<open>
  The limb loops of base_uint compute modulo 2 to the number of bits: operator+= (with the carry
  propagated through all limbs), operator-= (two's complement of the subtrahend), unary minus,
  increment, decrement, and the forms that take a 64-bit operand.
\<close>

theorem base_uint_arithmetic:
  assumes "length a = length b" and "2 \<le> length a"
  defines "M \<equiv> 2 ^ (32 * length a)"
  shows "bu_val (bu_add a b) = (bu_val a + bu_val b) mod M
    \<and> bu_val (bu_sub a b) = (bu_val a + (M - bu_val b)) mod M
    \<and> bu_val (bu_uminus a) = (M - bu_val a) mod M
    \<and> bu_val (bu_inc a) = (bu_val a + 1) mod M
    \<and> bu_val (bu_dec a) = (bu_val a + M - 1) mod M
    \<and> bu_val (bu_add64 a n) = (bu_val a + unat n) mod M
    \<and> bu_val (bu_sub64 a n) = (bu_val a + (M - unat n)) mod M"
proof -
  let ?n = "bu_assign64 (length a) n"
  have n: "length a = length ?n" "bu_val ?n = unat n" using assms(2) by (simp_all add: bu_val_assign64)
  then show ?thesis
    unfolding M_def bu_add64_def bu_sub64_def bu_sub_def [of a ?n, symmetric]
    by (simp only: bu_val_add [OF assms(1)] bu_val_sub [OF assms(1)] bu_val_uminus bu_val_inc bu_val_dec
      bu_val_add [OF n(1)] bu_val_sub [OF n(1)] simp_thms)
qed

theorem base_uint_arithmetic_witness:
  "bu_val (bu_add [-1, -1] [1, 0]) = (bu_val [-1, -1] + bu_val [1, 0]) mod 2 ^ (32 * 2)
   \<and> bu_val (bu_sub [0, 0] [1, 0]) = (bu_val [0, 0] + (2 ^ (32 * 2) - bu_val [1, 0])) mod 2 ^ (32 * 2)"
  using base_uint_arithmetic [of "[-1, -1]" "[1, 0]" 0] base_uint_arithmetic [of "[0, 0]" "[1, 0]" 0]
  by (simp del: bu_val.simps)

text \<open>
  The comparison operators, which scan the limbs from the top, order arrays of one width by the
  numbers they stand for, and the bitwise operators and the shifts are those of the numbers: a left
  shift drops the bits beyond the width, a right shift divides.
\<close>

theorem base_uint_order_and_bits:
  assumes "length a = length b"
  shows "(bu_less a b \<longleftrightarrow> bu_val a < bu_val b) \<and> (bu_le a b \<longleftrightarrow> bu_val a \<le> bu_val b)
    \<and> (bu_greater a b \<longleftrightarrow> bu_val a > bu_val b) \<and> (bu_ge a b \<longleftrightarrow> bu_val a \<ge> bu_val b)
    \<and> (bu_eq a b \<longleftrightarrow> bu_val a = bu_val b) \<and> (bu_is_zero a \<longleftrightarrow> bu_val a = 0)
    \<and> bu_val (bu_and a b) = bu_val a AND bu_val b
    \<and> bu_val (bu_or a b) = bu_val a OR bu_val b
    \<and> bu_val (bu_xor a b) = bu_val a XOR bu_val b
    \<and> bu_val (bu_shl a s) = (bu_val a * 2 ^ s) mod 2 ^ (32 * length a)
    \<and> bu_val (bu_shr a s) = bu_val a div 2 ^ s"
  using bu_compare [OF assms] bu_val_bitwise [OF assms]
  by (simp add: bu_eq_iff [OF assms] bu_is_zero_iff bu_val_shl bu_val_shr)

theorem base_uint_order_and_bits_witness:
  "bu_val (bu_shl [1, 2] 33) = (bu_val [1, 2] * 2 ^ 33) mod 2 ^ (32 * length [1 :: u32, 2])
   \<and> (bu_less [5, 1] [4, 2] \<longleftrightarrow> bu_val [5, 1] < bu_val [4, 2])"
  using base_uint_order_and_bits [of "[1, 2]" "[1, 2]" 33] base_uint_order_and_bits [of "[5, 1]" "[4, 2]" 0]
  by (simp del: bu_val.simps)

end
