(* ===== verification/ScriptCode.thy ===== *)
theory ScriptCode
  imports Bignum
begin

text \<open>
  script.h and the static script queries of script.cpp: the opcodes, the byte encoding of pushes,
  the instruction reader GetOp2, FindAndDelete, signature-operation counting and the recognition of
  pay-to-script-hash. A script is its byte list; an iterator into a script is the list of bytes from
  its position on, so that advancing an iterator drops bytes.
\<close>

section \<open>Opcodes\<close>

text \<open>The enumeration opcodetype: instruction bytes as numbers.\<close>

abbreviation OP_0 :: nat where "OP_0 \<equiv> 0"
abbreviation OP_FALSE :: nat where "OP_FALSE \<equiv> OP_0"
abbreviation OP_PUSHDATA1 :: nat where "OP_PUSHDATA1 \<equiv> 76"
abbreviation OP_PUSHDATA2 :: nat where "OP_PUSHDATA2 \<equiv> 77"
abbreviation OP_PUSHDATA4 :: nat where "OP_PUSHDATA4 \<equiv> 78"
abbreviation OP_1NEGATE :: nat where "OP_1NEGATE \<equiv> 79"
abbreviation OP_RESERVED :: nat where "OP_RESERVED \<equiv> 80"
abbreviation OP_1 :: nat where "OP_1 \<equiv> 81"
abbreviation OP_TRUE :: nat where "OP_TRUE \<equiv> OP_1"
abbreviation OP_2 :: nat where "OP_2 \<equiv> 82"
abbreviation OP_3 :: nat where "OP_3 \<equiv> 83"
abbreviation OP_4 :: nat where "OP_4 \<equiv> 84"
abbreviation OP_5 :: nat where "OP_5 \<equiv> 85"
abbreviation OP_6 :: nat where "OP_6 \<equiv> 86"
abbreviation OP_7 :: nat where "OP_7 \<equiv> 87"
abbreviation OP_8 :: nat where "OP_8 \<equiv> 88"
abbreviation OP_9 :: nat where "OP_9 \<equiv> 89"
abbreviation OP_10 :: nat where "OP_10 \<equiv> 90"
abbreviation OP_11 :: nat where "OP_11 \<equiv> 91"
abbreviation OP_12 :: nat where "OP_12 \<equiv> 92"
abbreviation OP_13 :: nat where "OP_13 \<equiv> 93"
abbreviation OP_14 :: nat where "OP_14 \<equiv> 94"
abbreviation OP_15 :: nat where "OP_15 \<equiv> 95"
abbreviation OP_16 :: nat where "OP_16 \<equiv> 96"
abbreviation OP_NOP :: nat where "OP_NOP \<equiv> 97"
abbreviation OP_VER :: nat where "OP_VER \<equiv> 98"
abbreviation OP_IF :: nat where "OP_IF \<equiv> 99"
abbreviation OP_NOTIF :: nat where "OP_NOTIF \<equiv> 100"
abbreviation OP_VERIF :: nat where "OP_VERIF \<equiv> 101"
abbreviation OP_VERNOTIF :: nat where "OP_VERNOTIF \<equiv> 102"
abbreviation OP_ELSE :: nat where "OP_ELSE \<equiv> 103"
abbreviation OP_ENDIF :: nat where "OP_ENDIF \<equiv> 104"
abbreviation OP_VERIFY :: nat where "OP_VERIFY \<equiv> 105"
abbreviation OP_RETURN :: nat where "OP_RETURN \<equiv> 106"
abbreviation OP_TOALTSTACK :: nat where "OP_TOALTSTACK \<equiv> 107"
abbreviation OP_FROMALTSTACK :: nat where "OP_FROMALTSTACK \<equiv> 108"
abbreviation OP_2DROP :: nat where "OP_2DROP \<equiv> 109"
abbreviation OP_2DUP :: nat where "OP_2DUP \<equiv> 110"
abbreviation OP_3DUP :: nat where "OP_3DUP \<equiv> 111"
abbreviation OP_2OVER :: nat where "OP_2OVER \<equiv> 112"
abbreviation OP_2ROT :: nat where "OP_2ROT \<equiv> 113"
abbreviation OP_2SWAP :: nat where "OP_2SWAP \<equiv> 114"
abbreviation OP_IFDUP :: nat where "OP_IFDUP \<equiv> 115"
abbreviation OP_DEPTH :: nat where "OP_DEPTH \<equiv> 116"
abbreviation OP_DROP :: nat where "OP_DROP \<equiv> 117"
abbreviation OP_DUP :: nat where "OP_DUP \<equiv> 118"
abbreviation OP_NIP :: nat where "OP_NIP \<equiv> 119"
abbreviation OP_OVER :: nat where "OP_OVER \<equiv> 120"
abbreviation OP_PICK :: nat where "OP_PICK \<equiv> 121"
abbreviation OP_ROLL :: nat where "OP_ROLL \<equiv> 122"
abbreviation OP_ROT :: nat where "OP_ROT \<equiv> 123"
abbreviation OP_SWAP :: nat where "OP_SWAP \<equiv> 124"
abbreviation OP_TUCK :: nat where "OP_TUCK \<equiv> 125"
abbreviation OP_CAT :: nat where "OP_CAT \<equiv> 126"
abbreviation OP_SUBSTR :: nat where "OP_SUBSTR \<equiv> 127"
abbreviation OP_LEFT :: nat where "OP_LEFT \<equiv> 128"
abbreviation OP_RIGHT :: nat where "OP_RIGHT \<equiv> 129"
abbreviation OP_SIZE :: nat where "OP_SIZE \<equiv> 130"
abbreviation OP_INVERT :: nat where "OP_INVERT \<equiv> 131"
abbreviation OP_AND :: nat where "OP_AND \<equiv> 132"
abbreviation OP_OR :: nat where "OP_OR \<equiv> 133"
abbreviation OP_XOR :: nat where "OP_XOR \<equiv> 134"
abbreviation OP_EQUAL :: nat where "OP_EQUAL \<equiv> 135"
abbreviation OP_EQUALVERIFY :: nat where "OP_EQUALVERIFY \<equiv> 136"
abbreviation OP_RESERVED1 :: nat where "OP_RESERVED1 \<equiv> 137"
abbreviation OP_RESERVED2 :: nat where "OP_RESERVED2 \<equiv> 138"
abbreviation OP_1ADD :: nat where "OP_1ADD \<equiv> 139"
abbreviation OP_1SUB :: nat where "OP_1SUB \<equiv> 140"
abbreviation OP_2MUL :: nat where "OP_2MUL \<equiv> 141"
abbreviation OP_2DIV :: nat where "OP_2DIV \<equiv> 142"
abbreviation OP_NEGATE :: nat where "OP_NEGATE \<equiv> 143"
abbreviation OP_ABS :: nat where "OP_ABS \<equiv> 144"
abbreviation OP_NOT :: nat where "OP_NOT \<equiv> 145"
abbreviation OP_0NOTEQUAL :: nat where "OP_0NOTEQUAL \<equiv> 146"
abbreviation OP_ADD :: nat where "OP_ADD \<equiv> 147"
abbreviation OP_SUB :: nat where "OP_SUB \<equiv> 148"
abbreviation OP_MUL :: nat where "OP_MUL \<equiv> 149"
abbreviation OP_DIV :: nat where "OP_DIV \<equiv> 150"
abbreviation OP_MOD :: nat where "OP_MOD \<equiv> 151"
abbreviation OP_LSHIFT :: nat where "OP_LSHIFT \<equiv> 152"
abbreviation OP_RSHIFT :: nat where "OP_RSHIFT \<equiv> 153"
abbreviation OP_BOOLAND :: nat where "OP_BOOLAND \<equiv> 154"
abbreviation OP_BOOLOR :: nat where "OP_BOOLOR \<equiv> 155"
abbreviation OP_NUMEQUAL :: nat where "OP_NUMEQUAL \<equiv> 156"
abbreviation OP_NUMEQUALVERIFY :: nat where "OP_NUMEQUALVERIFY \<equiv> 157"
abbreviation OP_NUMNOTEQUAL :: nat where "OP_NUMNOTEQUAL \<equiv> 158"
abbreviation OP_LESSTHAN :: nat where "OP_LESSTHAN \<equiv> 159"
abbreviation OP_GREATERTHAN :: nat where "OP_GREATERTHAN \<equiv> 160"
abbreviation OP_LESSTHANOREQUAL :: nat where "OP_LESSTHANOREQUAL \<equiv> 161"
abbreviation OP_GREATERTHANOREQUAL :: nat where "OP_GREATERTHANOREQUAL \<equiv> 162"
abbreviation OP_MIN :: nat where "OP_MIN \<equiv> 163"
abbreviation OP_MAX :: nat where "OP_MAX \<equiv> 164"
abbreviation OP_WITHIN :: nat where "OP_WITHIN \<equiv> 165"
abbreviation OP_RIPEMD160 :: nat where "OP_RIPEMD160 \<equiv> 166"
abbreviation OP_SHA1 :: nat where "OP_SHA1 \<equiv> 167"
abbreviation OP_SHA256 :: nat where "OP_SHA256 \<equiv> 168"
abbreviation OP_HASH160 :: nat where "OP_HASH160 \<equiv> 169"
abbreviation OP_HASH256 :: nat where "OP_HASH256 \<equiv> 170"
abbreviation OP_CODESEPARATOR :: nat where "OP_CODESEPARATOR \<equiv> 171"
abbreviation OP_CHECKSIG :: nat where "OP_CHECKSIG \<equiv> 172"
abbreviation OP_CHECKSIGVERIFY :: nat where "OP_CHECKSIGVERIFY \<equiv> 173"
abbreviation OP_CHECKMULTISIG :: nat where "OP_CHECKMULTISIG \<equiv> 174"
abbreviation OP_CHECKMULTISIGVERIFY :: nat where "OP_CHECKMULTISIGVERIFY \<equiv> 175"
abbreviation OP_NOP1 :: nat where "OP_NOP1 \<equiv> 176"
abbreviation OP_NOP2 :: nat where "OP_NOP2 \<equiv> 177"
abbreviation OP_NOP3 :: nat where "OP_NOP3 \<equiv> 178"
abbreviation OP_NOP4 :: nat where "OP_NOP4 \<equiv> 179"
abbreviation OP_NOP5 :: nat where "OP_NOP5 \<equiv> 180"
abbreviation OP_NOP6 :: nat where "OP_NOP6 \<equiv> 181"
abbreviation OP_NOP7 :: nat where "OP_NOP7 \<equiv> 182"
abbreviation OP_NOP8 :: nat where "OP_NOP8 \<equiv> 183"
abbreviation OP_NOP9 :: nat where "OP_NOP9 \<equiv> 184"
abbreviation OP_NOP10 :: nat where "OP_NOP10 \<equiv> 185"
abbreviation OP_SMALLINTEGER :: nat where "OP_SMALLINTEGER \<equiv> 250"
abbreviation OP_PUBKEYS :: nat where "OP_PUBKEYS \<equiv> 251"
abbreviation OP_PUBKEYHASH :: nat where "OP_PUBKEYHASH \<equiv> 253"
abbreviation OP_PUBKEY :: nat where "OP_PUBKEY \<equiv> 254"
abbreviation OP_INVALIDOPCODE :: nat where "OP_INVALIDOPCODE \<equiv> 255"

definition MAX_SCRIPT_ELEMENT_SIZE :: nat where "MAX_SCRIPT_ELEMENT_SIZE = 520"

abbreviation SIGHASH_ALL :: nat where "SIGHASH_ALL \<equiv> 1"
abbreviation SIGHASH_NONE :: nat where "SIGHASH_NONE \<equiv> 2"
abbreviation SIGHASH_SINGLE :: nat where "SIGHASH_SINGLE \<equiv> 3"
abbreviation SIGHASH_ANYONECANPAY :: nat where "SIGHASH_ANYONECANPAY \<equiv> 128"

abbreviation SCRIPT_VERIFY_NONE :: u32 where "SCRIPT_VERIFY_NONE \<equiv> 0"
abbreviation SCRIPT_VERIFY_P2SH :: u32 where "SCRIPT_VERIFY_P2SH \<equiv> 1"
abbreviation SCRIPT_VERIFY_STRICTENC :: u32 where "SCRIPT_VERIFY_STRICTENC \<equiv> 2"
abbreviation SCRIPT_VERIFY_NOCACHE :: u32 where "SCRIPT_VERIFY_NOCACHE \<equiv> 4"

text \<open>GetOpName: the switch as a table, with the default of its last branch.\<close>

definition op_names :: "(nat \<times> string) list" where
  "op_names =
    [(OP_0, ''0''),
     (OP_PUSHDATA1, ''OP_PUSHDATA1''),
     (OP_PUSHDATA2, ''OP_PUSHDATA2''),
     (OP_PUSHDATA4, ''OP_PUSHDATA4''),
     (OP_1NEGATE, ''-1''),
     (OP_RESERVED, ''OP_RESERVED''),
     (OP_1, ''1''),
     (OP_2, ''2''),
     (OP_3, ''3''),
     (OP_4, ''4''),
     (OP_5, ''5''),
     (OP_6, ''6''),
     (OP_7, ''7''),
     (OP_8, ''8''),
     (OP_9, ''9''),
     (OP_10, ''10''),
     (OP_11, ''11''),
     (OP_12, ''12''),
     (OP_13, ''13''),
     (OP_14, ''14''),
     (OP_15, ''15''),
     (OP_16, ''16''),
     (OP_NOP, ''OP_NOP''),
     (OP_VER, ''OP_VER''),
     (OP_IF, ''OP_IF''),
     (OP_NOTIF, ''OP_NOTIF''),
     (OP_VERIF, ''OP_VERIF''),
     (OP_VERNOTIF, ''OP_VERNOTIF''),
     (OP_ELSE, ''OP_ELSE''),
     (OP_ENDIF, ''OP_ENDIF''),
     (OP_VERIFY, ''OP_VERIFY''),
     (OP_RETURN, ''OP_RETURN''),
     (OP_TOALTSTACK, ''OP_TOALTSTACK''),
     (OP_FROMALTSTACK, ''OP_FROMALTSTACK''),
     (OP_2DROP, ''OP_2DROP''),
     (OP_2DUP, ''OP_2DUP''),
     (OP_3DUP, ''OP_3DUP''),
     (OP_2OVER, ''OP_2OVER''),
     (OP_2ROT, ''OP_2ROT''),
     (OP_2SWAP, ''OP_2SWAP''),
     (OP_IFDUP, ''OP_IFDUP''),
     (OP_DEPTH, ''OP_DEPTH''),
     (OP_DROP, ''OP_DROP''),
     (OP_DUP, ''OP_DUP''),
     (OP_NIP, ''OP_NIP''),
     (OP_OVER, ''OP_OVER''),
     (OP_PICK, ''OP_PICK''),
     (OP_ROLL, ''OP_ROLL''),
     (OP_ROT, ''OP_ROT''),
     (OP_SWAP, ''OP_SWAP''),
     (OP_TUCK, ''OP_TUCK''),
     (OP_CAT, ''OP_CAT''),
     (OP_SUBSTR, ''OP_SUBSTR''),
     (OP_LEFT, ''OP_LEFT''),
     (OP_RIGHT, ''OP_RIGHT''),
     (OP_SIZE, ''OP_SIZE''),
     (OP_INVERT, ''OP_INVERT''),
     (OP_AND, ''OP_AND''),
     (OP_OR, ''OP_OR''),
     (OP_XOR, ''OP_XOR''),
     (OP_EQUAL, ''OP_EQUAL''),
     (OP_EQUALVERIFY, ''OP_EQUALVERIFY''),
     (OP_RESERVED1, ''OP_RESERVED1''),
     (OP_RESERVED2, ''OP_RESERVED2''),
     (OP_1ADD, ''OP_1ADD''),
     (OP_1SUB, ''OP_1SUB''),
     (OP_2MUL, ''OP_2MUL''),
     (OP_2DIV, ''OP_2DIV''),
     (OP_NEGATE, ''OP_NEGATE''),
     (OP_ABS, ''OP_ABS''),
     (OP_NOT, ''OP_NOT''),
     (OP_0NOTEQUAL, ''OP_0NOTEQUAL''),
     (OP_ADD, ''OP_ADD''),
     (OP_SUB, ''OP_SUB''),
     (OP_MUL, ''OP_MUL''),
     (OP_DIV, ''OP_DIV''),
     (OP_MOD, ''OP_MOD''),
     (OP_LSHIFT, ''OP_LSHIFT''),
     (OP_RSHIFT, ''OP_RSHIFT''),
     (OP_BOOLAND, ''OP_BOOLAND''),
     (OP_BOOLOR, ''OP_BOOLOR''),
     (OP_NUMEQUAL, ''OP_NUMEQUAL''),
     (OP_NUMEQUALVERIFY, ''OP_NUMEQUALVERIFY''),
     (OP_NUMNOTEQUAL, ''OP_NUMNOTEQUAL''),
     (OP_LESSTHAN, ''OP_LESSTHAN''),
     (OP_GREATERTHAN, ''OP_GREATERTHAN''),
     (OP_LESSTHANOREQUAL, ''OP_LESSTHANOREQUAL''),
     (OP_GREATERTHANOREQUAL, ''OP_GREATERTHANOREQUAL''),
     (OP_MIN, ''OP_MIN''),
     (OP_MAX, ''OP_MAX''),
     (OP_WITHIN, ''OP_WITHIN''),
     (OP_RIPEMD160, ''OP_RIPEMD160''),
     (OP_SHA1, ''OP_SHA1''),
     (OP_SHA256, ''OP_SHA256''),
     (OP_HASH160, ''OP_HASH160''),
     (OP_HASH256, ''OP_HASH256''),
     (OP_CODESEPARATOR, ''OP_CODESEPARATOR''),
     (OP_CHECKSIG, ''OP_CHECKSIG''),
     (OP_CHECKSIGVERIFY, ''OP_CHECKSIGVERIFY''),
     (OP_CHECKMULTISIG, ''OP_CHECKMULTISIG''),
     (OP_CHECKMULTISIGVERIFY, ''OP_CHECKMULTISIGVERIFY''),
     (OP_NOP1, ''OP_NOP1''),
     (OP_NOP2, ''OP_NOP2''),
     (OP_NOP3, ''OP_NOP3''),
     (OP_NOP4, ''OP_NOP4''),
     (OP_NOP5, ''OP_NOP5''),
     (OP_NOP6, ''OP_NOP6''),
     (OP_NOP7, ''OP_NOP7''),
     (OP_NOP8, ''OP_NOP8''),
     (OP_NOP9, ''OP_NOP9''),
     (OP_NOP10, ''OP_NOP10''),
     (OP_PUBKEYHASH, ''OP_PUBKEYHASH''),
     (OP_PUBKEY, ''OP_PUBKEY''),
     (OP_INVALIDOPCODE, ''OP_INVALIDOPCODE'')]"

definition GetOpName :: "nat \<Rightarrow> string" where
  "GetOpName opcode = (case map_of op_names opcode of Some s \<Rightarrow> s | None \<Rightarrow> ''OP_UNKNOWN'')"

section \<open>Pushing onto a script\<close>

type_synonym script = "byte list"

definition push_op :: "script \<Rightarrow> nat \<Rightarrow> script" where
  "push_op s opcode = s @ [word_of_nat opcode]"

definition push_data :: "script \<Rightarrow> byte list \<Rightarrow> script" where
  "push_data s b =
     (let n = length b in
      if n < OP_PUSHDATA1 then s @ [word_of_nat n] @ b
      else if n \<le> 0xff then s @ [word_of_nat OP_PUSHDATA1, word_of_nat n] @ b
      else if n \<le> 0xffff then s @ [word_of_nat OP_PUSHDATA2] @ le_fixed 2 n @ b
      else s @ [word_of_nat OP_PUSHDATA4] @ le_fixed 4 n @ b)"

definition push_int64 :: "'b bn_lib \<Rightarrow> script \<Rightarrow> int \<Rightarrow> script" where
  "push_int64 L s n =
     (if n = -1 \<or> (1 \<le> n \<and> n \<le> 16) then s @ [word_of_int (n + (int OP_1 - 1))]
      else push_data s (getvch L (CBigNum_int L n)))"

definition push_uint64 :: "'b bn_lib \<Rightarrow> script \<Rightarrow> u64 \<Rightarrow> script" where
  "push_uint64 L s n =
     (if 1 \<le> n \<and> n \<le> 16 then s @ [ucast (n + of_nat (OP_1 - 1))]
      else push_data s (getvch L (setuint64 L n)))"

text \<open>Hashes and keys of fixed size: one length byte and the bytes.\<close>

definition push_fixed :: "script \<Rightarrow> byte list \<Rightarrow> script" where
  "push_fixed s b = s @ [word_of_nat (length b)] @ b"

definition DecodeOP_N :: "nat \<Rightarrow> nat option" where
  "DecodeOP_N opcode =
     (if opcode = OP_0 then Some 0
      else if OP_1 \<le> opcode \<and> opcode \<le> OP_16 then Some (opcode - (OP_1 - 1)) else None)"

definition EncodeOP_N :: "int \<Rightarrow> nat option" where
  "EncodeOP_N n = (if 0 \<le> n \<and> n \<le> 16 then Some (if n = 0 then OP_0 else OP_1 + nat n - 1) else None)"

section \<open>Reading instructions\<close>

text \<open>
  GetOp2 returns whether an instruction was read, its opcode, its immediate data and the advanced
  iterator; the iterator also moves past the bytes consumed before a failure.
\<close>

type_synonym getop = "bool \<times> nat \<times> byte list \<times> script"

definition GetOp_immediate :: "nat \<Rightarrow> nat \<Rightarrow> script \<Rightarrow> getop" where
  "GetOp_immediate opcode nSize pc =
     (if length pc < nSize then (False, OP_INVALIDOPCODE, [], pc)
      else (True, opcode, take nSize pc, drop nSize pc))"

fun GetOp2 :: "script \<Rightarrow> getop" where
  "GetOp2 [] = (False, OP_INVALIDOPCODE, [], [])"
| "GetOp2 (b # pc) =
     (let opcode = unat b in
      if opcode \<le> OP_PUSHDATA4 then
        if opcode < OP_PUSHDATA1 then GetOp_immediate opcode opcode pc
        else if opcode = OP_PUSHDATA1 then
          (if length pc < 1 then (False, OP_INVALIDOPCODE, [], pc)
           else GetOp_immediate opcode (le_val (take 1 pc)) (drop 1 pc))
        else if opcode = OP_PUSHDATA2 then
          (if length pc < 2 then (False, OP_INVALIDOPCODE, [], pc)
           else GetOp_immediate opcode (le_val (take 2 pc)) (drop 2 pc))
        else
          (if length pc < 4 then (False, OP_INVALIDOPCODE, [], pc)
           else GetOp_immediate opcode (le_val (take 4 pc)) (drop 4 pc))
      else (True, opcode, [], pc))"

declare GetOp2.simps [simp del]

lemma GetOp_immediate_shrinks:
  "GetOp_immediate op n pc = (ok, opc, v, pc') \<Longrightarrow> length pc' \<le> length pc"
  by (auto simp: GetOp_immediate_def split: if_splits)

lemma GetOp2_shrinks: "GetOp2 pc = (True, opcode, vch, pc') \<Longrightarrow> length pc' < length pc"
  by (cases pc) (auto simp: GetOp2.simps Let_def split: if_splits dest!: GetOp_immediate_shrinks)

lemma GetOp2_suffix:
  "GetOp2 pc = (True, opcode, vch, pc') \<Longrightarrow> take (length pc - length pc') pc @ pc' = pc"
proof -
  assume g: "GetOp2 pc = (True, opcode, vch, pc')"
  then have "\<exists>k. pc' = drop k pc"
  proof (cases pc)
    case (Cons b pc1)
    have imm: "\<exists>k. r = drop k (b # pc1)" if "GetOp_immediate opc n (drop m pc1) = (True, opc', v, r)" for opc n m opc' v r
      using that by (intro exI [of _ "Suc (m + n)"]) (auto simp: GetOp_immediate_def add.commute split: if_splits)
    show ?thesis
      using g Cons imm [of _ _ 0] imm [of _ _ "Suc 0"] imm [of _ _ 2] imm [of _ _ 4]
      by (auto simp: GetOp2.simps Let_def split: if_splits intro: exI [of _ "Suc 0"])
  qed (simp add: GetOp2.simps)
  then obtain k where k: "pc' = drop k pc" by blast
  then show ?thesis
  proof (cases "k \<le> length pc")
    case True
    with k show ?thesis by simp
  qed simp
qed

lemma GetOp2_less:
  "(ok, r) = GetOp2 pc \<Longrightarrow> (opcode, r') = r \<Longrightarrow> (vch, pc') = r' \<Longrightarrow> ok \<Longrightarrow> length pc' < length pc"
  using GetOp2_shrinks [of pc opcode vch pc'] by auto

section \<open>Queries that walk over a script\<close>

function IsPushOnly :: "script \<Rightarrow> bool" where
  "IsPushOnly pc =
     (if pc = [] then True
      else case GetOp2 pc of (ok, opcode, vch, pc') \<Rightarrow>
        if \<not> ok then False else if opcode > OP_16 then False else IsPushOnly pc')"
  by pat_completeness auto
termination
  by (relation "measure length") (auto dest: GetOp2_less)

declare IsPushOnly.simps [simp del]

function Find_op :: "nat \<Rightarrow> script \<Rightarrow> nat" where
  "Find_op opc pc =
     (if pc = [] then 0
      else case GetOp2 pc of (ok, opcode, vch, pc') \<Rightarrow>
        if \<not> ok then 0 else (if opcode = opc then 1 else 0) + Find_op opc pc')"
  by pat_completeness auto
termination
  by (relation "measure (\<lambda>(opc, pc). length pc)") (auto dest: GetOp2_less)

declare Find_op.simps [simp del]

definition sigop_cost :: "bool \<Rightarrow> nat \<Rightarrow> nat \<Rightarrow> nat" where
  "sigop_cost fAccurate lastOpcode opcode =
     (if opcode = OP_CHECKSIG \<or> opcode = OP_CHECKSIGVERIFY then 1
      else if opcode = OP_CHECKMULTISIG \<or> opcode = OP_CHECKMULTISIGVERIFY then
        (if fAccurate \<and> OP_1 \<le> lastOpcode \<and> lastOpcode \<le> OP_16
         then the (DecodeOP_N lastOpcode) else 20)
      else 0)"

function sigop_loop :: "bool \<Rightarrow> script \<Rightarrow> nat \<Rightarrow> nat \<Rightarrow> nat" where
  "sigop_loop fAccurate pc lastOpcode n =
     (if pc = [] then n
      else case GetOp2 pc of (ok, opcode, vch, pc') \<Rightarrow>
        if \<not> ok then n
        else sigop_loop fAccurate pc' opcode (n + sigop_cost fAccurate lastOpcode opcode))"
  by pat_completeness auto
termination
  by (relation "measure (\<lambda>(f, pc, l, n). length pc)") (auto dest: GetOp2_less)

declare sigop_loop.simps [simp del]

definition GetSigOpCount :: "script \<Rightarrow> bool \<Rightarrow> nat" where
  "GetSigOpCount s fAccurate = sigop_loop fAccurate s OP_INVALIDOPCODE 0"

definition IsPayToScriptHash :: "script \<Rightarrow> bool" where
  "IsPayToScriptHash s \<longleftrightarrow> length s = 23 \<and> unat (s ! 0) = OP_HASH160 \<and> unat (s ! 1) = 0x14
     \<and> unat (s ! 22) = OP_EQUAL"

text \<open>The last item a script of pushes pushes; None where it is not one.\<close>

function last_push :: "script \<Rightarrow> byte list \<Rightarrow> byte list option" where
  "last_push pc data =
     (if pc = [] then Some data
      else case GetOp2 pc of (ok, opcode, vch, pc') \<Rightarrow>
        if \<not> ok then None else if opcode > OP_16 then None else last_push pc' vch)"
  by pat_completeness auto
termination
  by (relation "measure (\<lambda>(pc, data). length pc)") (auto dest: GetOp2_less)

declare last_push.simps [simp del]

definition GetSigOpCount_p2sh :: "script \<Rightarrow> script \<Rightarrow> nat" where
  "GetSigOpCount_p2sh s scriptSig =
     (if \<not> IsPayToScriptHash s then GetSigOpCount s True
      else case last_push scriptSig [] of None \<Rightarrow> 0 | Some data \<Rightarrow> GetSigOpCount data True)"

section \<open>FindAndDelete\<close>

text \<open>
  At every instruction boundary the occurrences of b that start there are erased, then one
  instruction is skipped. kept is the part of the script before the iterator.
\<close>

function fad_erase :: "script \<Rightarrow> script \<Rightarrow> nat \<Rightarrow> script \<times> nat" where
  "fad_erase b pc nFound =
     (if b \<noteq> [] \<and> length b \<le> length pc \<and> take (length b) pc = b
      then fad_erase b (drop (length b) pc) (nFound + 1) else (pc, nFound))"
  by pat_completeness auto
termination
proof (relation "measure (\<lambda>(b, pc, n). length pc)", goal_cases)
  case (2 b pc n)
  then have "0 < length b" "length b \<le> length pc" by simp_all
  then show ?case by (simp only: in_measure prod.case length_drop)
qed simp

declare fad_erase.simps [simp del]

lemma fad_erase_length:
  "fad_erase b pc n = (pc', n') \<Longrightarrow> length pc' + (n' - n) * length b = length pc \<and> n \<le> n'"
proof (induction b pc n arbitrary: pc' n' rule: fad_erase.induct)
  case (1 b pc n)
  show ?case
  proof (cases "b \<noteq> [] \<and> length b \<le> length pc \<and> take (length b) pc = b")
    case True
    with 1 have IH: "length pc' + (n' - (n + 1)) * length b = length (drop (length b) pc)" "n + 1 \<le> n'"
      by (simp_all add: fad_erase.simps [of b pc n])
    then have "n' - n = Suc (n' - (n + 1))" by simp
    with IH True show ?thesis by simp linarith
  next
    case False
    with 1 show ?thesis by (simp add: fad_erase.simps [of b pc n])
  qed
qed

lemma fad_erase_same: assumes "fad_erase b pc n = (pc', n)" shows "pc' = pc"
proof (cases "b \<noteq> [] \<and> length b \<le> length pc \<and> take (length b) pc = b")
  case True
  with assms have "fad_erase b (drop (length b) pc) (n + 1) = (pc', n)"
    by (simp add: fad_erase.simps [of b pc n])
  from fad_erase_length [OF this] show ?thesis by simp
next
  case False
  with assms show ?thesis by (simp add: fad_erase.simps [of b pc n])
qed

function FindAndDelete_loop :: "script \<Rightarrow> script \<Rightarrow> script \<Rightarrow> nat \<Rightarrow> script \<times> nat" where
  "FindAndDelete_loop b kept pc nFound =
     (case fad_erase b pc nFound of (pc1, n1) \<Rightarrow>
        case GetOp2 pc1 of (ok, opcode, vch, pc2) \<Rightarrow>
          if ok then FindAndDelete_loop b (kept @ take (length pc1 - length pc2) pc1) pc2 n1
          else (kept @ pc1, n1))"
  by pat_completeness auto
termination
  by (relation "measure (\<lambda>(b, k, pc, n). length pc)")
    (auto dest!: GetOp2_less fad_erase_length [OF sym])

declare FindAndDelete_loop.simps [simp del]

definition FindAndDelete :: "script \<Rightarrow> script \<Rightarrow> script \<times> nat" where
  "FindAndDelete s b = (if b = [] then (s, 0) else FindAndDelete_loop b [] s 0)"

section \<open>Facts\<close>

lemma push_data_not_Nil [simp]: "push_data s b \<noteq> []"
  by (simp add: push_data_def Let_def)

lemma length_push_data_le: "length (push_data s b) \<le> length s + length b + 5"
  by (simp add: push_data_def Let_def)

text \<open>Reading back what was pushed.\<close>

lemma GetOp2_push_data:
  assumes "length b < 2 ^ 32"
  shows "\<exists>opcode. opcode \<le> OP_PUSHDATA4 \<and> GetOp2 (push_data [] b @ rest) = (True, opcode, b, rest)"
proof -
  consider (direct) "length b < OP_PUSHDATA1" | (one) "OP_PUSHDATA1 \<le> length b" "length b \<le> 0xff"
    | (two) "0xff < length b" "length b \<le> 0xffff" | (four) "0xffff < length b"
    by linarith
  then show ?thesis
  proof cases
    case direct
    then have "unat (word_of_nat (length b) :: byte) = length b" by (intro unat_of_nat_less) simp
    with direct show ?thesis
      by (intro exI [of _ "length b"]) (simp add: push_data_def GetOp2.simps GetOp_immediate_def)
  next
    case one
    then have "unat (word_of_nat (length b) :: byte) = length b" by (intro unat_of_nat_less) simp
    with one show ?thesis
      by (intro exI [of _ OP_PUSHDATA1]) (simp add: push_data_def GetOp2.simps GetOp_immediate_def)
  next
    case two
    then have "le_val (le_fixed 2 (length b)) = length b" by (simp add: le_val_le_fixed)
    with two show ?thesis
      by (intro exI [of _ OP_PUSHDATA2]) (simp add: push_data_def GetOp2.simps GetOp_immediate_def)
  next
    case four
    then have "le_val (le_fixed 4 (length b)) = length b"
      using assms by (simp add: le_val_le_fixed)
    with four show ?thesis
      by (intro exI [of _ OP_PUSHDATA4]) (simp add: push_data_def GetOp2.simps GetOp_immediate_def)
  qed
qed

lemma push_data_append: "push_data s b = s @ push_data [] b"
  by (simp add: push_data_def Let_def)

definition PushAll :: "byte list list \<Rightarrow> script" where
  "PushAll values = fold (\<lambda>v result. push_data result v) values []"

lemma fold_push_data: "fold (\<lambda>v result. push_data result v) vs s = s @ concat (map (push_data []) vs)"
proof (induction vs arbitrary: s)
  case (Cons v vs)
  then show ?case using push_data_append [of s v] by simp
qed simp

lemma PushAll_Cons: "PushAll (v # vs) = push_data [] v @ PushAll vs"
  by (simp add: PushAll_def fold_push_data)

lemma PushAll_Nil [simp]: "PushAll [] = []"
  by (simp add: PushAll_def)

lemma GetOp2_PushAll_Cons:
  "length v < 2 ^ 32 \<Longrightarrow>
    \<exists>opcode. opcode \<le> OP_PUSHDATA4 \<and> GetOp2 (PushAll (v # vs)) = (True, opcode, v, PushAll vs)"
  unfolding PushAll_Cons by (rule GetOp2_push_data)

lemma sigop_loop_step:
  assumes "pc \<noteq> []" and "GetOp2 pc = (True, opcode, vch, pc')"
  shows "sigop_loop f pc l n = sigop_loop f pc' opcode (n + sigop_cost f l opcode)"
  using assms by (simp add: sigop_loop.simps [of f pc l n])

lemma sigop_loop_stop: "pc = [] \<or> \<not> fst (GetOp2 pc) \<Longrightarrow> sigop_loop f pc l n = n"
  by (auto simp: sigop_loop.simps [of f pc l n] split: prod.splits)

lemma GetOp2_cases:
  obtains (stop) "pc = [] \<or> \<not> fst (GetOp2 pc)"
    | (step) opcode vch pc' where "pc \<noteq> []" "GetOp2 pc = (True, opcode, vch, pc')"
        "length pc' < length pc"
proof (cases "pc = [] \<or> \<not> fst (GetOp2 pc)")
  case False
  then obtain opcode vch pc' where "GetOp2 pc = (True, opcode, vch, pc')"
    by (cases "GetOp2 pc") auto
  with False step GetOp2_shrinks show thesis by blast
qed (use stop in blast)

lemma sigop_loop_add: "sigop_loop f pc l n = n + sigop_loop f pc l 0"
proof (induction pc arbitrary: l n rule: measure_induct_rule [of length])
  case (less pc)
  show ?case
  proof (cases pc rule: GetOp2_cases)
    case (step opcode vch pc')
    show ?thesis
      using less.IH [OF step(3), of opcode "n + sigop_cost f l opcode"]
        less.IH [OF step(3), of opcode "sigop_cost f l opcode"]
      by (simp add: sigop_loop_step [OF step(1,2)])
  qed (simp add: sigop_loop_stop)
qed

lemma sigop_cost_le: "sigop_cost True l opcode \<le> sigop_cost False l' opcode" "sigop_cost f l opcode \<le> 20"
  by (auto simp: sigop_cost_def DecodeOP_N_def)

lemma sigop_loop_bounds:
  "sigop_loop True pc l 0 \<le> sigop_loop False pc l' 0 \<and> sigop_loop False pc l' 0 \<le> 20 * length pc"
proof (induction pc arbitrary: l l' rule: measure_induct_rule [of length])
  case (less pc)
  show ?case
  proof (cases pc rule: GetOp2_cases)
    case (step opcode vch pc')
    have "sigop_loop f pc l 0 = sigop_cost f l opcode + sigop_loop f pc' opcode 0" for f l
      using sigop_loop_add [of f pc' opcode "0 + sigop_cost f l opcode"]
      by (simp only: sigop_loop_step [OF step(1,2), where n = 0] add_0)
    then show ?thesis
      using less.IH [OF step(3), of opcode opcode] step(3) sigop_cost_le(1) [of l opcode l']
        sigop_cost_le(2) [of False l' opcode] by simp
  qed (simp add: sigop_loop_stop)
qed

lemma FindAndDelete_loop_length:
  "FindAndDelete_loop b kept pc n = (s', n') \<Longrightarrow>
    length s' + (n' - n) * length b = length kept + length pc \<and> n \<le> n'
    \<and> (n' = n \<longrightarrow> s' = kept @ pc)"
proof (induction pc arbitrary: kept n rule: measure_induct_rule [of length])
  case (less pc)
  obtain pc1 n1 where e: "fad_erase b pc n = (pc1, n1)" by (cases "fad_erase b pc n")
  from fad_erase_length [OF e] have len: "length pc1 + (n1 - n) * length b = length pc" "n \<le> n1"
    by simp_all
  have same: "n1 = n \<Longrightarrow> pc1 = pc"
    using fad_erase_same [of b pc n pc1] e by simp
  show ?case
  proof (cases "fst (GetOp2 pc1)")
    case False
    then have "s' = kept @ pc1" "n' = n1"
      using less.prems e by (auto simp: FindAndDelete_loop.simps [of b kept pc n] split: prod.splits if_splits)
    with len same show ?thesis by simp
  next
    case True
    then obtain opcode vch pc2 where g: "GetOp2 pc1 = (True, opcode, vch, pc2)"
      by (cases "GetOp2 pc1") auto
    have shrink: "length pc2 < length pc1" by (rule GetOp2_shrinks [OF g])
    then have lt: "length pc2 < length pc" using len by linarith
    have rec: "FindAndDelete_loop b (kept @ take (length pc1 - length pc2) pc1) pc2 n1 = (s', n')"
      using less.prems e g by (simp add: FindAndDelete_loop.simps [of b kept pc n])
    from less.IH [OF lt rec] have IH:
      "length s' + (n' - n1) * length b = length kept + length pc1" "n1 \<le> n'"
      "n' = n1 \<Longrightarrow> s' = kept @ take (length pc1 - length pc2) pc1 @ pc2"
      using shrink by simp_all
    have "n' - n = (n' - n1) + (n1 - n)" using IH(2) len(2) by simp
    then have "(n' - n) * length b = (n' - n1) * length b + (n1 - n) * length b"
      by (simp only: add_mult_distrib)
    moreover have "take (length pc1 - length pc2) pc1 @ pc2 = pc1"
      using GetOp2_suffix [OF g] by simp
    ultimately show ?thesis using IH len same by auto
  qed
qed

section \<open>Properties\<close>

text \<open>Reading back a push: whatever is pushed is read by the next instruction as exactly that
  data, with the bytes after it untouched, whichever of the four push encodings was chosen.\<close>

theorem push_data_read_back:
  assumes "length b < 2 ^ 32"
  shows "\<exists>opcode. opcode \<le> OP_PUSHDATA4 \<and> GetOp2 (push_data [] b @ rest) = (True, opcode, b, rest)"
  using assms by (rule GetOp2_push_data)

theorem push_data_read_back_witness:
  "\<exists>opcode. opcode \<le> OP_PUSHDATA4
    \<and> GetOp2 (push_data [] (replicate 80 7) @ [0xac]) = (True, opcode, replicate 80 7, [0xac])"
  by (rule push_data_read_back) simp

lemma IsPushOnly_PushAll: "\<forall>v \<in> set vs. length v < 2 ^ 32 \<Longrightarrow> IsPushOnly (PushAll vs)"
proof (induction vs)
  case (Cons v vs)
  then obtain opcode where "opcode \<le> OP_PUSHDATA4"
    "GetOp2 (PushAll (v # vs)) = (True, opcode, v, PushAll vs)"
    using GetOp2_PushAll_Cons [of v vs] by auto
  with Cons show ?case by (simp add: IsPushOnly.simps [of "PushAll (v # vs)"])
qed (simp add: IsPushOnly.simps)

lemma last_push_PushAll:
  "\<forall>v \<in> set vs. length v < 2 ^ 32 \<Longrightarrow> last_push (PushAll vs) d = Some (last (d # vs))"
proof (induction vs arbitrary: d)
  case (Cons v vs)
  then obtain opcode where o: "opcode \<le> OP_PUSHDATA4"
    "GetOp2 (PushAll (v # vs)) = (True, opcode, v, PushAll vs)"
    using GetOp2_PushAll_Cons [of v vs] by auto
  have "PushAll (v # vs) \<noteq> []" by (simp add: PushAll_Cons)
  with o Cons show ?case by (simp add: last_push.simps [of "PushAll (v # vs)"])
qed (simp add: last_push.simps)

text \<open>A script built from pushes only is recognised as such, and the redeem script that
  pay-to-script-hash counting looks for is the last item pushed.\<close>

theorem push_script_redeem_sigops:
  assumes "\<forall>v \<in> set (vs @ [redeem]). length v < 2 ^ 32" and "IsPayToScriptHash s"
  shows "IsPushOnly (PushAll (vs @ [redeem]))
    \<and> GetSigOpCount_p2sh s (PushAll (vs @ [redeem])) = GetSigOpCount redeem True"
  using assms IsPushOnly_PushAll [of "vs @ [redeem]"] last_push_PushAll [of "vs @ [redeem]" "[]"]
  by (simp add: GetSigOpCount_p2sh_def)

theorem push_script_redeem_sigops_witness:
  "GetSigOpCount_p2sh ([0xa9, 0x14] @ replicate 20 5 @ [0x87]) (PushAll ([[1, 2]] @ [[0xac]]))
    = GetSigOpCount [0xac] True"
  using push_script_redeem_sigops [of "[[1, 2]]" "[0xac]" "[0xa9, 0x14] @ replicate 20 5 @ [0x87]"]
  by (simp add: IsPayToScriptHash_def nth_append)

text \<open>Signature operations: the accurate count never exceeds the legacy count, and the legacy
  count is at most twenty per script byte, so no script can make the counter run away.\<close>

theorem sigop_count_bounds:
  "GetSigOpCount s True \<le> GetSigOpCount s False \<and> GetSigOpCount s False \<le> 20 * length s"
  unfolding GetSigOpCount_def by (rule sigop_loop_bounds)

text \<open>FindAndDelete removes whole occurrences only: the script shrinks by exactly the number of
  occurrences reported times their length, and is unchanged when none is reported.\<close>

theorem FindAndDelete_accounting:
  assumes "FindAndDelete s b = (s', n)"
  shows "length s = length s' + n * length b \<and> (n = 0 \<longrightarrow> s' = s)"
proof -
  have "length s = length s' + n * length b \<and> (n = 0 \<longrightarrow> s' = s)"
  proof (cases "b = []")
    case True
    with assms show ?thesis by (simp add: FindAndDelete_def)
  next
    case False
    with assms have "FindAndDelete_loop b [] s 0 = (s', n)" by (simp add: FindAndDelete_def)
    from FindAndDelete_loop_length [OF this] show ?thesis by simp
  qed
  then show ?thesis .
qed

theorem FindAndDelete_accounting_witness:
  "length [0xab, 0x51, 0xab, 0xac] = length [0x51 :: byte, 0xac] + 2 * length [0xab :: byte]"
  using FindAndDelete_accounting [of "[0xab, 0x51, 0xab, 0xac]" "[0xab]" "[0x51, 0xac]" 2]
  by (simp add: FindAndDelete_def FindAndDelete_loop.simps fad_erase.simps GetOp2.simps Let_def)

end
