(* ===== verification/ScriptEval.thy ===== *)
theory ScriptEval
  imports ScriptCode "HOL-Library.Sublist"
begin

text \<open>
  script.cpp: the stack machine EvalScript. The state of a run is a record: the main stack and the
  alternative stack (top first, so that "stacktop(-i)" is element i - 1), the stack of
  conditionals vfExec (innermost first), the operation counter, the position of the last code
  separator, and the state of the signature checker (its cache). An operation returns
  "Cont st" when the loop goes on and "Stop st" when the source returns false or
  throws (the caller sees false in both cases, and the stack as it was left).

  OpenSSL's hash functions are the fields of the record crypto; the signature check is an
  argument, instantiated with the model of CheckSig in the theory of signatures.
\<close>

record crypto =
  RIPEMD160 :: "byte list \<Rightarrow> byte list"
  SHA1 :: "byte list \<Rightarrow> byte list"
  SHA256 :: "byte list \<Rightarrow> byte list"

text \<open>hash.h: the two compositions the protocol uses.\<close>

definition Hash160 :: "crypto \<Rightarrow> byte list \<Rightarrow> byte list" where
  "Hash160 C vch = RIPEMD160 C (SHA256 C vch)"

definition Hash_bytes :: "crypto \<Rightarrow> byte list \<Rightarrow> byte list" where
  "Hash_bytes C vch = SHA256 C (SHA256 C vch)"

section \<open>Casts and canonical encodings\<close>

definition nMaxNumSize :: nat where "nMaxNumSize = 4"

definition CastToBigNum :: "'b bn_lib \<Rightarrow> byte list \<Rightarrow> 'b option" where
  "CastToBigNum L vch =
     (if length vch > nMaxNumSize then None
      else Some (setvch L (getvch L (setvch L vch))))"

fun CastToBool :: "byte list \<Rightarrow> bool" where
  "CastToBool [] = False"
| "CastToBool (b # bs) =
     (if b \<noteq> 0 then \<not> (bs = [] \<and> b = 0x80) else CastToBool bs)"

definition IsCanonicalPubKey :: "byte list \<Rightarrow> bool" where
  "IsCanonicalPubKey vchPubKey =
     (if length vchPubKey < 33 then False
      else if vchPubKey ! 0 = 0x04 then length vchPubKey = 65
      else if vchPubKey ! 0 = 0x02 \<or> vchPubKey ! 0 = 0x03 then length vchPubKey = 33
      else False)"

definition IsCanonicalSignature :: "byte list \<Rightarrow> bool" where
  "IsCanonicalSignature vchSig =
     (let n = length vchSig in
      if n < 9 then False
      else if n > 73 then False
      else let nHashType = vchSig ! (n - 1) AND NOT (word_of_nat SIGHASH_ANYONECANPAY) in
      if unat nHashType < SIGHASH_ALL \<or> unat nHashType > SIGHASH_SINGLE then False
      else if vchSig ! 0 \<noteq> 0x30 then False
      else if unat (vchSig ! 1) \<noteq> n - 3 then False
      else let nLenR = unat (vchSig ! 3) in
      if 5 + nLenR \<ge> n then False
      else let nLenS = unat (vchSig ! (5 + nLenR)) in
      if nLenR + nLenS + 7 \<noteq> n then False
      else if vchSig ! 2 \<noteq> 0x02 then False
      else if nLenR = 0 then False
      else if vchSig ! 4 AND 0x80 \<noteq> 0 then False
      else if nLenR > 1 \<and> vchSig ! 4 = 0 \<and> vchSig ! 5 AND 0x80 = 0 then False
      else if vchSig ! (4 + nLenR) \<noteq> 0x02 then False
      else if nLenS = 0 then False
      else if vchSig ! (6 + nLenR) AND 0x80 \<noteq> 0 then False
      else if nLenS > 1 \<and> vchSig ! (6 + nLenR) = 0 \<and> vchSig ! (7 + nLenR) AND 0x80 = 0 then False
      else True)"

section \<open>The state of a run\<close>

type_synonym valtype = "byte list"

definition vchFalse :: valtype where "vchFalse = []"
definition vchTrue :: valtype where "vchTrue = [1]"

definition bool_val :: "bool \<Rightarrow> valtype" where
  "bool_val b = (if b then vchTrue else vchFalse)"

record 's eval_state =
  stk :: "valtype list"
  altstk :: "valtype list"
  vfExec :: "bool list"
  nOpCount :: int
  pbegincodehash :: script
  sigstate :: 's

datatype 's result = Cont "'s eval_state" | Stop "'s eval_state"

text \<open>The signature check: signature, public key, signed script, and the checker's state.\<close>

type_synonym 's checker = "valtype \<Rightarrow> valtype \<Rightarrow> script \<Rightarrow> 's \<Rightarrow> bool \<times> 's"

definition push_val :: "valtype \<Rightarrow> 's eval_state \<Rightarrow> 's result" where
  "push_val v st = Cont (st\<lparr>stk := v # stk st\<rparr>)"

text \<open>The tail shared by the VERIFY forms: the result is on top of the stack.\<close>

definition verify_top :: "bool \<Rightarrow> bool \<Rightarrow> 's eval_state \<Rightarrow> 's result" where
  "verify_top fVerify fValue st =
     (if fVerify then (if fValue then Cont (st\<lparr>stk := tl (stk st)\<rparr>) else Stop st) else Cont st)"

section \<open>Operations\<close>

definition op_small_int :: "'b bn_lib \<Rightarrow> nat \<Rightarrow> 's eval_state \<Rightarrow> 's result" where
  "op_small_int L opcode st =
     push_val (getvch L (CBigNum_int L (int opcode - (int OP_1 - 1)))) st"

definition op_control :: "bool \<Rightarrow> nat \<Rightarrow> 's eval_state \<Rightarrow> 's result" where
  "op_control fExec opcode st =
     (if opcode = OP_IF \<or> opcode = OP_NOTIF then
        (if fExec then
           (case stk st of [] \<Rightarrow> Stop st
            | vch # rest \<Rightarrow>
                Cont (st\<lparr>stk := rest,
                  vfExec := (if opcode = OP_NOTIF then \<not> CastToBool vch else CastToBool vch) # vfExec st\<rparr>))
         else Cont (st\<lparr>vfExec := False # vfExec st\<rparr>))
      else if opcode = OP_ELSE then
        (case vfExec st of [] \<Rightarrow> Stop st | b # bs \<Rightarrow> Cont (st\<lparr>vfExec := (\<not> b) # bs\<rparr>))
      else if opcode = OP_ENDIF then
        (case vfExec st of [] \<Rightarrow> Stop st | b # bs \<Rightarrow> Cont (st\<lparr>vfExec := bs\<rparr>))
      else if opcode = OP_VERIFY then
        (case stk st of [] \<Rightarrow> Stop st
         | vch # rest \<Rightarrow> if CastToBool vch then Cont (st\<lparr>stk := rest\<rparr>) else Stop st)
      else Stop st)"

definition op_stack :: "nat \<Rightarrow> 's eval_state \<Rightarrow> 's result" where
  "op_stack opcode st =
     (if opcode = OP_TOALTSTACK then
        (case stk st of x # s \<Rightarrow> Cont (st\<lparr>stk := s, altstk := x # altstk st\<rparr>) | _ \<Rightarrow> Stop st)
      else if opcode = OP_FROMALTSTACK then
        (case altstk st of x # s \<Rightarrow> Cont (st\<lparr>stk := x # stk st, altstk := s\<rparr>) | _ \<Rightarrow> Stop st)
      else if opcode = OP_2DROP then
        (case stk st of x2 # x1 # s \<Rightarrow> Cont (st\<lparr>stk := s\<rparr>) | _ \<Rightarrow> Stop st)
      else if opcode = OP_2DUP then
        (case stk st of x2 # x1 # s \<Rightarrow> Cont (st\<lparr>stk := x2 # x1 # x2 # x1 # s\<rparr>) | _ \<Rightarrow> Stop st)
      else if opcode = OP_3DUP then
        (case stk st of x3 # x2 # x1 # s \<Rightarrow>
           Cont (st\<lparr>stk := x3 # x2 # x1 # x3 # x2 # x1 # s\<rparr>) | _ \<Rightarrow> Stop st)
      else if opcode = OP_2OVER then
        (case stk st of x4 # x3 # x2 # x1 # s \<Rightarrow>
           Cont (st\<lparr>stk := x2 # x1 # x4 # x3 # x2 # x1 # s\<rparr>) | _ \<Rightarrow> Stop st)
      else if opcode = OP_2ROT then
        (case stk st of x6 # x5 # x4 # x3 # x2 # x1 # s \<Rightarrow>
           Cont (st\<lparr>stk := x2 # x1 # x6 # x5 # x4 # x3 # s\<rparr>) | _ \<Rightarrow> Stop st)
      else if opcode = OP_2SWAP then
        (case stk st of x4 # x3 # x2 # x1 # s \<Rightarrow>
           Cont (st\<lparr>stk := x2 # x1 # x4 # x3 # s\<rparr>) | _ \<Rightarrow> Stop st)
      else if opcode = OP_IFDUP then
        (case stk st of x # s \<Rightarrow>
           Cont (if CastToBool x then st\<lparr>stk := x # x # s\<rparr> else st) | _ \<Rightarrow> Stop st)
      else if opcode = OP_DROP then
        (case stk st of x # s \<Rightarrow> Cont (st\<lparr>stk := s\<rparr>) | _ \<Rightarrow> Stop st)
      else if opcode = OP_DUP then
        (case stk st of x # s \<Rightarrow> Cont (st\<lparr>stk := x # x # s\<rparr>) | _ \<Rightarrow> Stop st)
      else if opcode = OP_NIP then
        (case stk st of x2 # x1 # s \<Rightarrow> Cont (st\<lparr>stk := x2 # s\<rparr>) | _ \<Rightarrow> Stop st)
      else if opcode = OP_OVER then
        (case stk st of x2 # x1 # s \<Rightarrow> Cont (st\<lparr>stk := x1 # x2 # x1 # s\<rparr>) | _ \<Rightarrow> Stop st)
      else if opcode = OP_ROT then
        (case stk st of x3 # x2 # x1 # s \<Rightarrow> Cont (st\<lparr>stk := x1 # x3 # x2 # s\<rparr>) | _ \<Rightarrow> Stop st)
      else if opcode = OP_SWAP then
        (case stk st of x2 # x1 # s \<Rightarrow> Cont (st\<lparr>stk := x1 # x2 # s\<rparr>) | _ \<Rightarrow> Stop st)
      else if opcode = OP_TUCK then
        (case stk st of x2 # x1 # s \<Rightarrow> Cont (st\<lparr>stk := x2 # x1 # x2 # s\<rparr>) | _ \<Rightarrow> Stop st)
      else Stop st)"

text \<open>OP_PICK and OP_ROLL: the index is read and popped before its range is checked.\<close>

definition op_pick_roll :: "'b bn_lib \<Rightarrow> nat \<Rightarrow> 's eval_state \<Rightarrow> 's result" where
  "op_pick_roll L opcode st =
     (if length (stk st) < 2 then Stop st
      else case CastToBigNum L (hd (stk st)) of None \<Rightarrow> Stop st
      | Some bn \<Rightarrow>
          let n = getint L bn; s = tl (stk st); st' = st\<lparr>stk := s\<rparr> in
          if n < 0 \<or> n \<ge> int (length s) then Stop st'
          else let vch = s ! nat n;
                   s' = (if opcode = OP_ROLL then take (nat n) s @ drop (Suc (nat n)) s else s)
               in Cont (st\<lparr>stk := vch # s'\<rparr>))"

definition op_sizes :: "'b bn_lib \<Rightarrow> nat \<Rightarrow> 's eval_state \<Rightarrow> 's result" where
  "op_sizes L opcode st =
     (if opcode = OP_DEPTH then push_val (getvch L (setulong L (word_of_nat (length (stk st))))) st
      else case stk st of [] \<Rightarrow> Stop st
           | x # s \<Rightarrow> push_val (getvch L (setulong L (word_of_nat (length x)))) st)"

definition op_equal :: "nat \<Rightarrow> 's eval_state \<Rightarrow> 's result" where
  "op_equal opcode st =
     (case stk st of vch2 # vch1 # s \<Rightarrow>
        let fEqual = (vch1 = vch2) in
        verify_top (opcode = OP_EQUALVERIFY) fEqual (st\<lparr>stk := bool_val fEqual # s\<rparr>)
      | _ \<Rightarrow> Stop st)"

definition bn_of_bool :: "'b bn_lib \<Rightarrow> bool \<Rightarrow> 'b" where
  "bn_of_bool L b = CBigNum_int L (if b then 1 else 0)"

definition unary_num :: "'b bn_lib \<Rightarrow> nat \<Rightarrow> 'b \<Rightarrow> 'b" where
  "unary_num L opcode bn =
     (let bnZero = CBigNum_int L 0; bnOne = CBigNum_int L 1 in
      if opcode = OP_1ADD then BN_add L bn bnOne
      else if opcode = OP_1SUB then BN_sub L bn bnOne
      else if opcode = OP_NEGATE then bn_uminus L bn
      else if opcode = OP_ABS then (if BN_cmp L bn bnZero < 0 then bn_uminus L bn else bn)
      else if opcode = OP_NOT then bn_of_bool L (BN_cmp L bn bnZero = 0)
      else bn_of_bool L (BN_cmp L bn bnZero \<noteq> 0))"

definition op_unary :: "'b bn_lib \<Rightarrow> nat \<Rightarrow> 's eval_state \<Rightarrow> 's result" where
  "op_unary L opcode st =
     (case stk st of [] \<Rightarrow> Stop st
      | x # s \<Rightarrow> (case CastToBigNum L x of None \<Rightarrow> Stop st
                | Some bn \<Rightarrow> Cont (st\<lparr>stk := getvch L (unary_num L opcode bn) # s\<rparr>)))"

definition binary_num :: "'b bn_lib \<Rightarrow> nat \<Rightarrow> 'b \<Rightarrow> 'b \<Rightarrow> 'b" where
  "binary_num L opcode bn1 bn2 =
     (let bnZero = CBigNum_int L 0 in
      if opcode = OP_ADD then BN_add L bn1 bn2
      else if opcode = OP_SUB then BN_sub L bn1 bn2
      else if opcode = OP_BOOLAND then bn_of_bool L (BN_cmp L bn1 bnZero \<noteq> 0 \<and> BN_cmp L bn2 bnZero \<noteq> 0)
      else if opcode = OP_BOOLOR then bn_of_bool L (BN_cmp L bn1 bnZero \<noteq> 0 \<or> BN_cmp L bn2 bnZero \<noteq> 0)
      else if opcode = OP_NUMEQUAL then bn_of_bool L (BN_cmp L bn1 bn2 = 0)
      else if opcode = OP_NUMEQUALVERIFY then bn_of_bool L (BN_cmp L bn1 bn2 = 0)
      else if opcode = OP_NUMNOTEQUAL then bn_of_bool L (BN_cmp L bn1 bn2 \<noteq> 0)
      else if opcode = OP_LESSTHAN then bn_of_bool L (BN_cmp L bn1 bn2 < 0)
      else if opcode = OP_GREATERTHAN then bn_of_bool L (BN_cmp L bn1 bn2 > 0)
      else if opcode = OP_LESSTHANOREQUAL then bn_of_bool L (BN_cmp L bn1 bn2 \<le> 0)
      else if opcode = OP_GREATERTHANOREQUAL then bn_of_bool L (BN_cmp L bn1 bn2 \<ge> 0)
      else if opcode = OP_MIN then (if BN_cmp L bn1 bn2 < 0 then bn1 else bn2)
      else (if BN_cmp L bn1 bn2 > 0 then bn1 else bn2))"

definition op_binary :: "'b bn_lib \<Rightarrow> nat \<Rightarrow> 's eval_state \<Rightarrow> 's result" where
  "op_binary L opcode st =
     (case stk st of x2 # x1 # s \<Rightarrow>
        (case (CastToBigNum L x1, CastToBigNum L x2) of
           (Some bn1, Some bn2) \<Rightarrow>
             let r = getvch L (binary_num L opcode bn1 bn2) in
             verify_top (opcode = OP_NUMEQUALVERIFY) (CastToBool r) (st\<lparr>stk := r # s\<rparr>)
         | _ \<Rightarrow> Stop st)
      | _ \<Rightarrow> Stop st)"

definition op_within :: "'b bn_lib \<Rightarrow> 's eval_state \<Rightarrow> 's result" where
  "op_within L st =
     (case stk st of x3 # x2 # x1 # s \<Rightarrow>
        (case (CastToBigNum L x1, CastToBigNum L x2, CastToBigNum L x3) of
           (Some bn1, Some bn2, Some bn3) \<Rightarrow>
             Cont (st\<lparr>stk := bool_val (BN_cmp L bn2 bn1 \<le> 0 \<and> BN_cmp L bn1 bn3 < 0) # s\<rparr>)
         | _ \<Rightarrow> Stop st)
      | _ \<Rightarrow> Stop st)"

definition op_hash :: "crypto \<Rightarrow> nat \<Rightarrow> 's eval_state \<Rightarrow> 's result" where
  "op_hash C opcode st =
     (case stk st of [] \<Rightarrow> Stop st
      | vch # s \<Rightarrow>
          Cont (st\<lparr>stk := (if opcode = OP_RIPEMD160 then RIPEMD160 C vch
                     else if opcode = OP_SHA1 then SHA1 C vch
                     else if opcode = OP_SHA256 then SHA256 C vch
                     else if opcode = OP_HASH160 then Hash160 C vch
                     else Hash_bytes C vch) # s\<rparr>))"

text \<open>One signature against one key: the encodings are checked first when the flags ask for it.\<close>

definition check_one :: "'s checker \<Rightarrow> bool \<Rightarrow> script \<Rightarrow> valtype \<Rightarrow> valtype \<Rightarrow> 's \<Rightarrow> bool \<times> 's" where
  "check_one CS fStrictEncodings scriptCode vchSig vchPubKey c =
     (if \<not> fStrictEncodings \<or> (IsCanonicalSignature vchSig \<and> IsCanonicalPubKey vchPubKey)
      then CS vchSig vchPubKey scriptCode c else (False, c))"

definition op_checksig :: "'s checker \<Rightarrow> bool \<Rightarrow> nat \<Rightarrow> 's eval_state \<Rightarrow> 's result" where
  "op_checksig CS fStrictEncodings opcode st =
     (case stk st of vchPubKey # vchSig # s \<Rightarrow>
        let scriptCode = fst (FindAndDelete (pbegincodehash st) (push_data [] vchSig));
            (fSuccess, c) = check_one CS fStrictEncodings scriptCode vchSig vchPubKey (sigstate st)
        in verify_top (opcode = OP_CHECKSIGVERIFY) fSuccess
             (st\<lparr>stk := bool_val fSuccess # s, sigstate := c\<rparr>)
      | _ \<Rightarrow> Stop st)"

text \<open>
  The matching loop of OP_CHECKMULTISIG on the signatures and keys not yet looked at, in stack
  order. A key that does not match is dropped; when more signatures than keys are left it fails.
\<close>

fun multisig_loop :: "'s checker \<Rightarrow> bool \<Rightarrow> script \<Rightarrow> valtype list \<Rightarrow> valtype list \<Rightarrow> 's \<Rightarrow> bool \<times> 's" where
  "multisig_loop CS fStrict scriptCode [] keys c = (True, c)"
| "multisig_loop CS fStrict scriptCode (vchSig # sigs) [] c = (False, c)"
| "multisig_loop CS fStrict scriptCode (vchSig # sigs) (vchPubKey # keys) c =
     (let (fOk, c') = check_one CS fStrict scriptCode vchSig vchPubKey c;
          sigs' = (if fOk then sigs else vchSig # sigs)
      in if length sigs' > length keys then (False, c')
         else multisig_loop CS fStrict scriptCode sigs' keys c')"

definition op_checkmultisig ::
  "'b bn_lib \<Rightarrow> 's checker \<Rightarrow> bool \<Rightarrow> nat \<Rightarrow> 's eval_state \<Rightarrow> 's result" where
  "op_checkmultisig L CS fStrictEncodings opcode st =
     (if length (stk st) < 1 then Stop st
      else case CastToBigNum L (stk st ! 0) of None \<Rightarrow> Stop st
      | Some bnKeys \<Rightarrow>
      let nKeysCount = getint L bnKeys in
      if nKeysCount < 0 \<or> nKeysCount > 20 then Stop st
      else let st = st\<lparr>nOpCount := nOpCount st + nKeysCount\<rparr> in
      if nOpCount st > 201 then Stop st
      else let ikey = 2; i = 2 + nat nKeysCount in
      if length (stk st) < i then Stop st
      else case CastToBigNum L (stk st ! (i - 1)) of None \<Rightarrow> Stop st
      | Some bnSigs \<Rightarrow>
      let nSigsCount = getint L bnSigs in
      if nSigsCount < 0 \<or> nSigsCount > nKeysCount then Stop st
      else let isig = i + 1; i = i + 1 + nat nSigsCount in
      if length (stk st) < i then Stop st
      else let sigs = take (nat nSigsCount) (drop (isig - 1) (stk st));
               keys = take (nat nKeysCount) (drop (ikey - 1) (stk st));
               scriptCode = fold (\<lambda>vchSig code. fst (FindAndDelete code (push_data [] vchSig)))
                              sigs (pbegincodehash st);
               (fSuccess, c) = multisig_loop CS fStrictEncodings scriptCode sigs keys (sigstate st)
           in verify_top (opcode = OP_CHECKMULTISIGVERIFY) fSuccess
                (st\<lparr>stk := bool_val fSuccess # drop i (stk st), sigstate := c\<rparr>))"

section \<open>The interpreter\<close>

definition disabled_ops :: "nat list" where
  "disabled_ops = [OP_CAT, OP_SUBSTR, OP_LEFT, OP_RIGHT, OP_INVERT, OP_AND, OP_OR, OP_XOR, OP_2MUL,
     OP_2DIV, OP_MUL, OP_DIV, OP_MOD, OP_LSHIFT, OP_RSHIFT]"

text \<open>The switch; pc is the position after the instruction.\<close>

definition exec_op ::
  "'b bn_lib \<Rightarrow> crypto \<Rightarrow> 's checker \<Rightarrow> bool \<Rightarrow> bool \<Rightarrow> nat \<Rightarrow> script \<Rightarrow> 's eval_state \<Rightarrow> 's result"
  where
  "exec_op L C CS fStrictEncodings fExec opcode pc st =
     (if opcode = OP_1NEGATE \<or> (OP_1 \<le> opcode \<and> opcode \<le> OP_16) then op_small_int L opcode st
      else if opcode = OP_NOP \<or> (OP_NOP1 \<le> opcode \<and> opcode \<le> OP_NOP10) then Cont st
      else if opcode \<in> set [OP_IF, OP_NOTIF, OP_ELSE, OP_ENDIF, OP_VERIFY, OP_RETURN]
        then op_control fExec opcode st
      else if opcode \<in> set [OP_TOALTSTACK, OP_FROMALTSTACK, OP_2DROP, OP_2DUP, OP_3DUP, OP_2OVER,
          OP_2ROT, OP_2SWAP, OP_IFDUP, OP_DROP, OP_DUP, OP_NIP, OP_OVER, OP_ROT, OP_SWAP, OP_TUCK]
        then op_stack opcode st
      else if opcode = OP_DEPTH \<or> opcode = OP_SIZE then op_sizes L opcode st
      else if opcode = OP_PICK \<or> opcode = OP_ROLL then op_pick_roll L opcode st
      else if opcode = OP_EQUAL \<or> opcode = OP_EQUALVERIFY then op_equal opcode st
      else if opcode \<in> set [OP_1ADD, OP_1SUB, OP_NEGATE, OP_ABS, OP_NOT, OP_0NOTEQUAL]
        then op_unary L opcode st
      else if opcode \<in> set [OP_ADD, OP_SUB, OP_BOOLAND, OP_BOOLOR, OP_NUMEQUAL, OP_NUMEQUALVERIFY,
          OP_NUMNOTEQUAL, OP_LESSTHAN, OP_GREATERTHAN, OP_LESSTHANOREQUAL, OP_GREATERTHANOREQUAL,
          OP_MIN, OP_MAX]
        then op_binary L opcode st
      else if opcode = OP_WITHIN then op_within L st
      else if opcode \<in> set [OP_RIPEMD160, OP_SHA1, OP_SHA256, OP_HASH160, OP_HASH256]
        then op_hash C opcode st
      else if opcode = OP_CODESEPARATOR then Cont (st\<lparr>pbegincodehash := pc\<rparr>)
      else if opcode = OP_CHECKSIG \<or> opcode = OP_CHECKSIGVERIFY
        then op_checksig CS fStrictEncodings opcode st
      else if opcode = OP_CHECKMULTISIG \<or> opcode = OP_CHECKMULTISIGVERIFY
        then op_checkmultisig L CS fStrictEncodings opcode st
      else Stop st)"

definition size_limit :: "'s result \<Rightarrow> 's result" where
  "size_limit r = (case r of
     Cont st \<Rightarrow> if length (stk st) + length (altstk st) > 1000 then Stop st else Cont st
   | Stop st \<Rightarrow> Stop st)"

text \<open>One iteration of the loop, after the instruction has been read.\<close>

definition eval_instr ::
  "'b bn_lib \<Rightarrow> crypto \<Rightarrow> 's checker \<Rightarrow> bool \<Rightarrow> nat \<Rightarrow> valtype \<Rightarrow> script \<Rightarrow> 's eval_state \<Rightarrow> 's result"
  where
  "eval_instr L C CS fStrictEncodings opcode vchPushValue pc st =
     (let fExec = (False \<notin> set (vfExec st)) in
      if length vchPushValue > MAX_SCRIPT_ELEMENT_SIZE then Stop st
      else let st = (if opcode > OP_16 then st\<lparr>nOpCount := nOpCount st + 1\<rparr> else st) in
      if opcode > OP_16 \<and> nOpCount st > 201 then Stop st
      else if opcode \<in> set disabled_ops then Stop st
      else size_limit
        (if fExec \<and> opcode \<le> OP_PUSHDATA4 then push_val vchPushValue st
         else if fExec \<or> (OP_IF \<le> opcode \<and> opcode \<le> OP_ENDIF)
           then exec_op L C CS fStrictEncodings fExec opcode pc st
         else Cont st))"

function eval_loop ::
  "'b bn_lib \<Rightarrow> crypto \<Rightarrow> 's checker \<Rightarrow> bool \<Rightarrow> script \<Rightarrow> 's eval_state \<Rightarrow> 's result" where
  "eval_loop L C CS fStrict pc st =
     (if pc = [] then (if vfExec st \<noteq> [] then Stop st else Cont st)
      else case GetOp2 pc of (ok, opcode, vch, pc') \<Rightarrow>
        if \<not> ok then Stop st
        else case eval_instr L C CS fStrict opcode vch pc' st of
               Stop st' \<Rightarrow> Stop st'
             | Cont st' \<Rightarrow> eval_loop L C CS fStrict pc' st')"
  by pat_completeness auto
termination
  by (relation "measure (\<lambda>(L, C, CS, f, pc, st). length pc)") (auto dest: GetOp2_less)

declare eval_loop.simps [simp del]

definition EvalScript ::
  "'b bn_lib \<Rightarrow> crypto \<Rightarrow> 's checker \<Rightarrow> u32 \<Rightarrow> valtype list \<Rightarrow> script \<Rightarrow> 's \<Rightarrow> bool \<times> valtype list \<times> 's" where
  "EvalScript L C CS flags stack script c =
     (if length script > 10000 then (False, stack, c)
      else case eval_loop L C CS (flags AND SCRIPT_VERIFY_STRICTENC \<noteq> 0) script
                  \<lparr>stk = stack, altstk = [], vfExec = [], nOpCount = 0, pbegincodehash = script,
                   sigstate = c\<rparr> of
             Cont st \<Rightarrow> (True, stk st, sigstate st)
           | Stop st \<Rightarrow> (False, stk st, sigstate st))"

definition VerifyScript ::
  "'b bn_lib \<Rightarrow> crypto \<Rightarrow> 's checker \<Rightarrow> u32 \<Rightarrow> script \<Rightarrow> script \<Rightarrow> 's \<Rightarrow> bool \<times> 's" where
  "VerifyScript L C CS flags scriptSig scriptPubKey c =
     (case EvalScript L C CS flags [] scriptSig c of (ok, stack, c1) \<Rightarrow>
      if \<not> ok then (False, c1)
      else case EvalScript L C CS flags stack scriptPubKey c1 of (ok2, stack2, c2) \<Rightarrow>
      if \<not> ok2 then (False, c2)
      else if stack2 = [] then (False, c2)
      else if \<not> CastToBool (hd stack2) then (False, c2)
      else if flags AND SCRIPT_VERIFY_P2SH \<noteq> 0 \<and> IsPayToScriptHash scriptPubKey then
        (if \<not> IsPushOnly scriptSig then (False, c2)
         else case stack of
           [] \<Rightarrow> (False, c2)
         | pubKeySerialized # stackCopy \<Rightarrow>
             (case EvalScript L C CS flags stackCopy pubKeySerialized c2 of (ok3, stack3, c3) \<Rightarrow>
                if \<not> ok3 then (False, c3)
                else if stack3 = [] then (False, c3)
                else (CastToBool (hd stack3), c3)))
      else (True, c2))"

end
