(* ===== verification/ScriptFacts.thy ===== *)
theory ScriptFacts
  imports ScriptEval
begin

text \<open>
  What the script interpreter computes: its arithmetic is integer arithmetic, multi-signature
  matching is a search for a subsequence of keys, stacks, elements and the operation count stay
  bounded, and the two standard ways of spending (to a key hash, to a script hash) succeed exactly
  when they should. The arithmetic facts are proved inside the locale of the BIGNUM library.
\<close>

section \<open>Script arithmetic is integer arithmetic\<close>

definition script_unary :: "nat \<Rightarrow> int \<Rightarrow> int" where
  "script_unary opcode a =
     (if opcode = OP_1ADD then a + 1 else if opcode = OP_1SUB then a - 1
      else if opcode = OP_NEGATE then - a else if opcode = OP_ABS then \<bar>a\<bar>
      else if opcode = OP_NOT then of_bool (a = 0) else of_bool (a \<noteq> 0))"

definition script_binary :: "nat \<Rightarrow> int \<Rightarrow> int \<Rightarrow> int" where
  "script_binary opcode a b =
     (if opcode = OP_ADD then a + b else if opcode = OP_SUB then a - b
      else if opcode = OP_BOOLAND then of_bool (a \<noteq> 0 \<and> b \<noteq> 0)
      else if opcode = OP_BOOLOR then of_bool (a \<noteq> 0 \<or> b \<noteq> 0)
      else if opcode = OP_NUMEQUAL \<or> opcode = OP_NUMEQUALVERIFY then of_bool (a = b)
      else if opcode = OP_NUMNOTEQUAL then of_bool (a \<noteq> b)
      else if opcode = OP_LESSTHAN then of_bool (a < b)
      else if opcode = OP_GREATERTHAN then of_bool (a > b)
      else if opcode = OP_LESSTHANOREQUAL then of_bool (a \<le> b)
      else if opcode = OP_GREATERTHANOREQUAL then of_bool (a \<ge> b)
      else if opcode = OP_MIN then min a b else max a b)"

lemma num_value_small:
  assumes "length v \<le> 4" shows "\<bar>num_value v\<bar> < 2 ^ 31"
proof (cases v rule: rev_cases)
  case (snoc bs b)
  with assms have l: "length bs \<le> 3" by simp
  define P where "P = (256 :: nat) ^ length bs"
  have P: "P \<le> 256 ^ 3" unfolding P_def using l by (intro power_increasing) simp_all
  have v: "le_val bs < P" unfolding P_def by (rule le_val_bound)
  have key: "le_val bs + P * x < 2 ^ 31" if "x < 128" for x
  proof -
    define Q where "Q = P * x"
    have "P * x \<le> P * 127" using that by (intro mult_le_mono2) simp
    then have "Q \<le> 127 * P" unfolding Q_def by (simp only: mult.commute)
    then have "le_val bs + Q < 2 ^ 31" using v P by simp
    then show ?thesis unfolding Q_def .
  qed
  have lift: "int m < 2 ^ 31" if "m < 2 ^ 31" for m using that by simp
  have "unat b - 128 < 128" using unat_byte_less [of b] by linarith
  then have k1: "int (le_val bs + P * (unat b - 128)) < 2 ^ 31" by (intro lift key)
  have k2: "\<not> 128 \<le> unat b \<Longrightarrow> int (le_val bs + P * unat b) < 2 ^ 31" by (intro lift key) simp
  show ?thesis
    unfolding snoc num_value_snoc P_def [symmetric] using k1 k2 by (auto simp del: of_nat_add of_nat_mult)
qed simp

lemma num_body_small: "\<bar>v\<bar> < 2 ^ 39 \<Longrightarrow> length (num_body v) \<le> 5"
  using length_num_body_le_iff [of 5 v] by simp

context bignum_library
begin

lemma CastToBigNum_val:
  assumes "length v \<le> 4"
  shows "\<exists>bn. CastToBigNum L v = Some bn \<and> val bn = num_value v"
proof -
  have vch: "val (setvch L v) = num_value v" using assms by (simp add: val_setvch)
  then have "length (num_body (val (setvch L v))) < 2 ^ 32"
    using num_value_small [OF assms] num_body_small [of "num_value v"] by simp
  from val_setvch_getvch [OF this] vch show ?thesis
    using assms by (simp add: CastToBigNum_def nMaxNumSize_def)
qed

lemma CastToBigNum_None: "4 < length v \<Longrightarrow> CastToBigNum L v = None"
  by (simp add: CastToBigNum_def nMaxNumSize_def)

lemma val_consts [simp]: "val (CBigNum_int L 0) = 0" "val (CBigNum_int L 1) = 1"
  "val (bn_of_bool L b) = of_bool b"
  by (simp_all add: val_CBigNum_int int64_range_def bn_of_bool_def)

lemma val_bn_uminus [simp]: "val (bn_uminus L a) = - val a"
  by (auto simp: bn_uminus_def)

lemma val_unary_num: "val (unary_num L opcode bn) = script_unary opcode (val bn)"
  by (simp add: unary_num_def script_unary_def Let_def)

lemma val_binary_num: "val (binary_num L opcode a b) = script_binary opcode (val a) (val b)"
  by (simp add: binary_num_def script_binary_def Let_def min_def max_def)

lemma getvch_small: "\<bar>val b\<bar> < 2 ^ 39 \<Longrightarrow> getvch L b = num_body (val b)"
  using num_body_small [of "val b"] by (intro getvch_eq) simp

end

lemma script_unary_bound: "\<bar>a\<bar> < 2 ^ 31 \<Longrightarrow> \<bar>script_unary opcode a\<bar> < 2 ^ 39"
  by (auto simp: script_unary_def)

lemma script_binary_bound: "\<bar>a\<bar> < 2 ^ 31 \<Longrightarrow> \<bar>b\<bar> < 2 ^ 31 \<Longrightarrow> \<bar>script_binary opcode a b\<bar> < 2 ^ 39"
  unfolding script_binary_def by (auto simp: abs_less_iff)

lemma le_val_eq_0_iff: "le_val bs = 0 \<longleftrightarrow> (\<forall>x\<in>set bs. x = 0)"
  by (induction bs) (auto simp: unsigned_eq_0_iff)

lemma CastToBool_snoc: "CastToBool (bs @ [b]) \<longleftrightarrow> le_val bs \<noteq> 0 \<or> (b \<noteq> 0 \<and> b \<noteq> 0x80)"
  unfolding le_val_eq_0_iff by (induction bs) auto

lemma CastToBool_num_value: "CastToBool v \<longleftrightarrow> num_value v \<noteq> 0"
proof (cases v rule: rev_cases)
  case (snoc bs b)
  have "b \<noteq> 0 \<longleftrightarrow> unat b \<noteq> 0" by (simp add: unsigned_eq_0_iff)
  moreover have "b \<noteq> 0x80 \<longleftrightarrow> unat b \<noteq> 128" by (simp add: word_unat_eq_iff)
  moreover have "int m \<noteq> 0 \<longleftrightarrow> m \<noteq> 0" "- int m \<noteq> 0 \<longleftrightarrow> m \<noteq> 0" for m by simp_all
  ultimately show ?thesis unfolding snoc CastToBool_snoc num_value_snoc
    by (cases "128 \<le> unat b") (simp_all del: of_nat_add of_nat_mult)
qed simp

lemma CastToBool_num_body: "CastToBool (num_body v) \<longleftrightarrow> v \<noteq> 0"
  by (simp add: CastToBool_num_value num_value_num_body)

lemma CastToBool_bool_val [simp]: "CastToBool (bool_val b) = b"
  by (simp add: bool_val_def vchTrue_def vchFalse_def)

section \<open>The matching loop of CHECKMULTISIG\<close>

text \<open>
  With a checker that does not depend on its state the loop decides whether the signatures can be
  matched, in order, with a subsequence of the keys.
\<close>

lemma multisig_loop_short:
  assumes CS: "\<And>sig key c. check_one CS fStrict code sig key c = (ok sig key, c)"
    and "length sigs \<le> length keys"
  shows "multisig_loop CS fStrict code sigs keys c =
    ((\<exists>ks. subseq ks keys \<and> list_all2 ok sigs ks), c)"
  using assms(2)
proof (induction keys arbitrary: sigs)
  case Nil
  then show ?case by (auto intro: exI [of _ "[]"])
next
  case (Cons k keys)
  show ?case
  proof (cases sigs)
    case Nil
    then show ?thesis by (auto intro: exI [of _ "[]"])
  next
    case (Cons s sigs')
    have len: "length sigs' \<le> length keys" using Cons Cons.prems by simp
    have too_many: "\<not> (\<exists>ks. subseq ks keys \<and> list_all2 ok sigs ks)" if "length keys < length sigs"
      using that by (auto dest!: list_all2_lengthD list_emb_length)
    have step: "(\<exists>ks. subseq ks (k # keys) \<and> list_all2 ok sigs ks) \<longleftrightarrow>
      (if ok s k then \<exists>ks. subseq ks keys \<and> list_all2 ok sigs' ks
       else \<exists>ks. subseq ks keys \<and> list_all2 ok sigs ks)"
    proof (cases "ok s k")
      case True
      have "\<exists>ks. subseq ks keys \<and> list_all2 ok sigs' ks"
        if "subseq ks (k # keys)" "list_all2 ok sigs ks" for ks
        using that Cons by (cases ks) (auto simp: subseq_Cons' dest: subseq_Cons' split: if_splits)
      moreover have "\<exists>ks. subseq ks (k # keys) \<and> list_all2 ok sigs ks"
        if "subseq ks keys" "list_all2 ok sigs' ks" for ks
        using that Cons True by (intro exI [of _ "k # ks"]) auto
      ultimately show ?thesis using True by (simp only: if_True) blast
    next
      case False
      have "subseq ks keys" if "subseq ks (k # keys)" "list_all2 ok sigs ks" for ks
        using that Cons False by (cases ks) (auto split: if_splits)
      then show ?thesis using False by (auto intro: exI list_emb_Cons)
    qed
    show ?thesis
      unfolding step using Cons len too_many Cons.IH [of sigs'] Cons.IH [of sigs]
      by (auto simp: CS Let_def)
  qed
qed


section \<open>Bounds\<close>

text \<open>The elements of both stacks are no longer than the limit on pushed elements.\<close>

definition small_elems :: "'s eval_state \<Rightarrow> bool" where
  "small_elems st \<longleftrightarrow> (\<forall>v \<in> set (stk st) \<union> set (altstk st). length v \<le> MAX_SCRIPT_ELEMENT_SIZE)"

text \<open>What every operation keeps, before the size check at the end of an iteration.\<close>

abbreviation keeps :: "'s eval_state \<Rightarrow> bool" where
  "keeps st \<equiv> small_elems st \<and> nOpCount st \<le> 201"

definition bounded :: "'s eval_state \<Rightarrow> bool" where
  "bounded st \<longleftrightarrow> keeps st \<and> length (stk st) + length (altstk st) \<le> 1000"

definition on_result :: "('s eval_state \<Rightarrow> bool) \<Rightarrow> 's result \<Rightarrow> bool" where
  "on_result P r = (case r of Cont st \<Rightarrow> P st | Stop st \<Rightarrow> True)"

lemma on_result_simps [simp]: "on_result P (Cont st) = P st" "on_result P (Stop st)"
  by (simp_all add: on_result_def)

lemma on_result_if: "on_result P a \<Longrightarrow> on_result P b \<Longrightarrow> on_result P (if c then a else b)"
  by simp

definition small_hashes :: "crypto \<Rightarrow> bool" where
  "small_hashes C \<longleftrightarrow> (\<forall>v. length (RIPEMD160 C v) = 20 \<and> length (SHA1 C v) = 20 \<and> length (SHA256 C v) = 32)"

lemma length_bool_val: "length (bool_val b) \<le> 1"
  by (simp add: bool_val_def vchTrue_def vchFalse_def)

context bignum_library
begin

lemma length_getvch_small: "\<bar>val b\<bar> < 2 ^ 39 \<Longrightarrow> length (getvch L b) \<le> 5"
  by (simp add: getvch_small num_body_small)

lemma small_unary:
  assumes "CastToBigNum L x = Some bn" shows "length (getvch L (unary_num L opcode bn)) \<le> 5"
proof -
  from assms have "length x \<le> 4" using CastToBigNum_None [of x] by fastforce
  with CastToBigNum_val [OF this] assms have "val bn = num_value x" by auto
  with script_unary_bound [OF num_value_small [OF \<open>length x \<le> 4\<close>]]
  have "\<bar>val (unary_num L opcode bn)\<bar> < 2 ^ 39" by (simp only: val_unary_num)
  then show ?thesis by (rule length_getvch_small)
qed

lemma small_binary:
  assumes "CastToBigNum L x = Some bn1" and "CastToBigNum L y = Some bn2"
  shows "length (getvch L (binary_num L opcode bn1 bn2)) \<le> 5"
proof -
  from assms have l: "length x \<le> 4" "length y \<le> 4"
    using CastToBigNum_None [of x] CastToBigNum_None [of y] by fastforce+
  with CastToBigNum_val [OF l(1)] CastToBigNum_val [OF l(2)] assms
  have "val bn1 = num_value x" "val bn2 = num_value y" by auto
  with script_binary_bound [OF num_value_small [OF l(1)] num_value_small [OF l(2)]]
  have "\<bar>val (binary_num L opcode bn1 bn2)\<bar> < 2 ^ 39" by (simp only: val_binary_num)
  then show ?thesis by (rule length_getvch_small)
qed

lemma small_of_nat:
  assumes "n \<le> 1000" shows "length (getvch L (setulong L (word_of_nat n))) \<le> 5"
proof -
  have "uint (word_of_nat n :: u64) = int n" using assms by (simp add: uint_nat unat_of_nat_less)
  with assms show ?thesis by (intro length_getvch_small) (simp add: setulong_def)
qed

lemma small_int: "- 1 \<le> n \<Longrightarrow> n \<le> 16 \<Longrightarrow> length (getvch L (CBigNum_int L n)) \<le> 5"
  by (intro length_getvch_small) (simp add: val_CBigNum_int int64_range_def)

lemma keeps_op_control: "keeps st \<Longrightarrow> on_result keeps (op_control fExec opcode st)"
  by (auto simp: op_control_def small_elems_def split: list.split)

lemma keeps_op_stack: "keeps st \<Longrightarrow> on_result keeps (op_stack opcode st)"
  unfolding op_stack_def
  by (intro on_result_if) (auto simp: small_elems_def split: list.split)

lemma keeps_op_pick_roll: "keeps st \<Longrightarrow> on_result keeps (op_pick_roll L opcode st)"
  by (cases "stk st")
    (auto simp: op_pick_roll_def small_elems_def Let_def split: option.split
      dest: in_set_takeD in_set_dropD)

lemma keeps_op_sizes:
  assumes "keeps st" and "length (stk st) \<le> 1000"
  shows "on_result keeps (op_sizes L opcode st)"
proof (cases "stk st")
  case Nil
  then show ?thesis using assms small_of_nat [of 0]
    by (auto simp: op_sizes_def push_val_def small_elems_def MAX_SCRIPT_ELEMENT_SIZE_def)
next
  case (Cons x s)
  have "length x \<le> 1000" using assms Cons by (simp add: small_elems_def MAX_SCRIPT_ELEMENT_SIZE_def)
  with assms Cons small_of_nat [of "length x"] small_of_nat [of "length (stk st)"] show ?thesis
    by (auto simp: op_sizes_def push_val_def small_elems_def MAX_SCRIPT_ELEMENT_SIZE_def)
qed

lemma keeps_op_equal: "keeps st \<Longrightarrow> on_result keeps (op_equal opcode st)"
  using le_trans [OF length_bool_val] 
  by (auto simp: op_equal_def verify_top_def small_elems_def Let_def MAX_SCRIPT_ELEMENT_SIZE_def
    split: list.split)

lemma small_le: "n \<le> 5 \<Longrightarrow> n \<le> MAX_SCRIPT_ELEMENT_SIZE"
  by (simp add: MAX_SCRIPT_ELEMENT_SIZE_def)

lemma keeps_op_unary: "keeps st \<Longrightarrow> on_result keeps (op_unary L opcode st)"
  by (auto simp: op_unary_def small_elems_def split: list.split option.split
    intro: small_le small_unary)

lemma keeps_op_binary: "keeps st \<Longrightarrow> on_result keeps (op_binary L opcode st)"
  by (auto simp: op_binary_def small_elems_def verify_top_def Let_def
    split: list.split option.split intro!: small_le intro: small_binary)

lemma keeps_op_within: "keeps st \<Longrightarrow> on_result keeps (op_within L st)"
  using le_trans [OF length_bool_val] 
  by (auto simp: op_within_def small_elems_def MAX_SCRIPT_ELEMENT_SIZE_def
    split: list.split option.split)

lemma keeps_op_hash: "small_hashes C \<Longrightarrow> keeps st \<Longrightarrow> on_result keeps (op_hash C opcode st)"
  by (auto simp: op_hash_def small_elems_def small_hashes_def Hash160_def Hash_bytes_def
    MAX_SCRIPT_ELEMENT_SIZE_def split: list.split)

lemma keeps_op_checksig: "keeps st \<Longrightarrow> on_result keeps (op_checksig CS fStrict opcode st)"
  using le_trans [OF length_bool_val] 
  by (auto simp: op_checksig_def small_elems_def MAX_SCRIPT_ELEMENT_SIZE_def verify_top_def Let_def
    split: list.split prod.split)

lemma keeps_op_checkmultisig:
  "keeps st \<Longrightarrow> on_result keeps (op_checkmultisig L CS fStrict opcode st)"
  using le_trans [OF length_bool_val] 
  by (auto simp: op_checkmultisig_def small_elems_def MAX_SCRIPT_ELEMENT_SIZE_def verify_top_def
    Let_def split: option.split prod.split dest: in_set_dropD)

lemma keeps_op_small_int:
  assumes "keeps st" and "opcode = OP_1NEGATE \<or> (OP_1 \<le> opcode \<and> opcode \<le> OP_16)"
  shows "on_result keeps (op_small_int L opcode st)"
proof -
  have "length (getvch L (CBigNum_int L (int opcode - (int OP_1 - 1)))) \<le> 5"
    using assms(2) by (intro small_int) auto
  with assms(1) show ?thesis
    by (auto simp: op_small_int_def push_val_def small_elems_def MAX_SCRIPT_ELEMENT_SIZE_def)
qed

lemma keeps_exec_op:
  assumes st: "keeps st" and "length (stk st) \<le> 1000" and "small_hashes C"
  shows "on_result keeps (exec_op L C CS fStrict fExec opcode pc st)"
proof -
  have upd: "keeps (st\<lparr>pbegincodehash := pc\<rparr>)" using st by (simp add: small_elems_def)
  have int: "on_result keeps (if opcode = OP_1NEGATE \<or> (OP_1 \<le> opcode \<and> opcode \<le> OP_16)
    then op_small_int L opcode st else r)" if "on_result keeps r" for r
    using keeps_op_small_int [OF st] that by simp
  show ?thesis
    unfolding exec_op_def
    by (intro int on_result_if)
      (simp_all only: on_result_simps st upd keeps_op_control keeps_op_stack keeps_op_sizes assms
        keeps_op_pick_roll keeps_op_equal keeps_op_unary keeps_op_binary keeps_op_within
        keeps_op_hash keeps_op_checksig keeps_op_checkmultisig simp_thms)
qed

lemma bounded_size_limit: "on_result keeps r \<Longrightarrow> on_result bounded (size_limit r)"
  by (cases r) (auto simp: size_limit_def bounded_def)

lemma bounded_eval_instr:
  assumes "bounded st" and "small_hashes C"
  shows "on_result bounded (eval_instr L C CS fStrict opcode vch pc st)"
proof -
  define st1 where "st1 = (if opcode > OP_16 then st\<lparr>nOpCount := nOpCount st + 1\<rparr> else st)"
  consider (big) "length vch > MAX_SCRIPT_ELEMENT_SIZE" | (ops) "opcode > OP_16 \<and> nOpCount st1 > 201"
    | (disabled) "opcode \<in> set disabled_ops"
    | (ok) "length vch \<le> MAX_SCRIPT_ELEMENT_SIZE" "\<not> (opcode > OP_16 \<and> nOpCount st1 > 201)"
    by linarith
  then show ?thesis
  proof cases
    case ok
    then have st1: "keeps st1" "length (stk st1) \<le> 1000"
      using assms(1) by (auto simp: st1_def bounded_def small_elems_def split: if_splits)
    then have "on_result keeps (push_val vch st1)"
      using ok by (simp add: push_val_def small_elems_def)
    with st1 keeps_exec_op [OF st1 assms(2)] show ?thesis
      unfolding eval_instr_def st1_def [symmetric] Let_def
      by (auto simp del: not_less intro!: bounded_size_limit)
  qed (auto simp: eval_instr_def st1_def Let_def split: if_splits)
qed

lemma bounded_eval_loop:
  assumes "bounded st" and C: "small_hashes C"
  shows "on_result bounded (eval_loop L C CS fStrict pc st)"
  using assms(1)
proof (induction pc arbitrary: st rule: measure_induct_rule [of length])
  case (less pc)
  show ?case
  proof (cases pc rule: GetOp2_cases)
    case stop
    then show ?thesis using less.prems
      by (auto simp: eval_loop.simps [of L C CS fStrict pc st] split: prod.split)
  next
    case (step opcode vch pc')
    then show ?thesis
      using bounded_eval_instr [OF less.prems C, of CS fStrict opcode vch pc'] less.IH [OF step(3)]
      by (auto simp: eval_loop.simps [of L C CS fStrict pc st] split: result.split)
  qed
qed

lemma EvalScript_bounded:
  assumes "EvalScript L C CS flags stack script c = (True, stack', c')" and "small_hashes C"
    and "length stack \<le> 1000" and "\<forall>v \<in> set stack. length v \<le> MAX_SCRIPT_ELEMENT_SIZE"
  shows "length stack' \<le> 1000 \<and> (\<forall>v \<in> set stack'. length v \<le> MAX_SCRIPT_ELEMENT_SIZE)"
proof -
  let ?st = "\<lparr>stk = stack, altstk = [], vfExec = [], nOpCount = 0, pbegincodehash = script, sigstate = c\<rparr>"
  have "bounded ?st" using assms by (simp add: bounded_def small_elems_def)
  from bounded_eval_loop [OF this assms(2), of CS "flags AND SCRIPT_VERIFY_STRICTENC \<noteq> 0" script] assms(1)
  show ?thesis
    by (auto simp: EvalScript_def bounded_def small_elems_def split: if_splits result.splits)
qed

end

section \<open>Single steps\<close>

lemma eval_loop_Nil: "vfExec st = [] \<Longrightarrow> eval_loop L C CS fStrict [] st = Cont st"
  by (simp add: eval_loop.simps)

lemma eval_loop_step:
  assumes "GetOp2 pc = (True, opcode, vch, pc')"
  shows "eval_loop L C CS fStrict pc st =
    (case eval_instr L C CS fStrict opcode vch pc' st of Stop st' \<Rightarrow> Stop st'
     | Cont st' \<Rightarrow> eval_loop L C CS fStrict pc' st')"
proof -
  have "pc \<noteq> []" using assms by (auto simp: GetOp2.simps)
  then show ?thesis by (simp add: eval_loop.simps [of L C CS fStrict pc] assms)
qed

lemma eval_instr_push:
  assumes "False \<notin> set (vfExec st)" and "opcode \<le> OP_PUSHDATA4"
    and "length v \<le> MAX_SCRIPT_ELEMENT_SIZE" and "length (stk st) + length (altstk st) < 1000"
  shows "eval_instr L C CS fStrict opcode v pc st = Cont (st\<lparr>stk := v # stk st\<rparr>)"
  using assms by (simp add: eval_instr_def push_val_def size_limit_def disabled_ops_def)

lemma eval_instr_op:
  assumes "False \<notin> set (vfExec st)" and "OP_16 < opcode" and "opcode \<notin> set disabled_ops"
    and "nOpCount st < 201"
  shows "eval_instr L C CS fStrict opcode [] pc st =
    size_limit (exec_op L C CS fStrict True opcode pc (st\<lparr>nOpCount := nOpCount st + 1\<rparr>))"
  using assms by (simp add: eval_instr_def)

lemma eval_loop_push:
  assumes "length v \<le> MAX_SCRIPT_ELEMENT_SIZE" and "False \<notin> set (vfExec st)"
    and "length (stk st) + length (altstk st) < 1000"
  shows "eval_loop L C CS fStrict (push_data [] v @ pc) st = eval_loop L C CS fStrict pc (st\<lparr>stk := v # stk st\<rparr>)"
proof -
  have "length v < 2 ^ 32" using assms(1) by (simp add: MAX_SCRIPT_ELEMENT_SIZE_def)
  from GetOp2_push_data [OF this, of pc] obtain opcode where
    "opcode \<le> OP_PUSHDATA4" "GetOp2 (push_data [] v @ pc) = (True, opcode, v, pc)" by blast
  with assms show ?thesis by (simp add: eval_loop_step eval_instr_push)
qed

lemma eval_loop_PushAll:
  assumes "\<forall>v \<in> set vs. length v \<le> MAX_SCRIPT_ELEMENT_SIZE" and "False \<notin> set (vfExec st)"
    and "length (stk st) + length (altstk st) + length vs \<le> 1000"
  shows "eval_loop L C CS fStrict (PushAll vs @ pc) st =
    eval_loop L C CS fStrict pc (st\<lparr>stk := rev vs @ stk st\<rparr>)"
  using assms
proof (induction vs arbitrary: st)
  case (Cons v vs)
  have "eval_loop L C CS fStrict (PushAll (v # vs) @ pc) st =
    eval_loop L C CS fStrict (PushAll vs @ pc) (st\<lparr>stk := v # stk st\<rparr>)"
    using Cons.prems by (simp add: PushAll_Cons eval_loop_push)
  also have "\<dots> = eval_loop L C CS fStrict pc (st\<lparr>stk := rev vs @ v # stk st\<rparr>)"
    using Cons.IH [of "st\<lparr>stk := v # stk st\<rparr>"] Cons.prems by simp
  finally show ?case by simp
qed simp

lemma GetOp2_op: "OP_PUSHDATA4 < unat b \<Longrightarrow> GetOp2 (b # pc) = (True, unat b, [], pc)"
  by (simp add: GetOp2.simps)

lemma eval_loop_op:
  assumes "OP_16 < unat b" and "unat b \<notin> set disabled_ops"
    and "False \<notin> set (vfExec st)" and "nOpCount st < 201"
  shows "eval_loop L C CS fStrict (b # pc) st =
    (case size_limit (exec_op L C CS fStrict True (unat b) pc (st\<lparr>nOpCount := nOpCount st + 1\<rparr>)) of
       Stop st' \<Rightarrow> Stop st' | Cont st' \<Rightarrow> eval_loop L C CS fStrict pc st')"
  using assms by (simp add: eval_loop_step [OF GetOp2_op] eval_instr_op)

lemma EvalScript_PushAll:
  assumes "\<forall>v \<in> set vs. length v \<le> MAX_SCRIPT_ELEMENT_SIZE" and "length (PushAll vs) \<le> 10000"
    and "length stack + length vs \<le> 1000"
  shows "EvalScript L C CS flags stack (PushAll vs) c = (True, rev vs @ stack, c)"
  using assms eval_loop_PushAll [of vs _ L C CS _ "[]"]
  by (simp add: EvalScript_def eval_loop_Nil)

section \<open>Paying to a key hash\<close>

definition p2pkh :: "valtype \<Rightarrow> script" where
  "p2pkh h = [word_of_nat OP_DUP, word_of_nat OP_HASH160] @ push_data [] h @
     [word_of_nat OP_EQUALVERIFY, word_of_nat OP_CHECKSIG]"

lemma eval_loop_p2pkh:
  assumes "length h = 20" and "stk st = pubkey # sig # rest" "length rest \<le> 900" "altstk st = []"
    "vfExec st = []" "nOpCount st = 0"
  shows "eval_loop L C CS fStrict (p2pkh h) st =
    (if Hash160 C pubkey = h then
       (case check_one CS fStrict (fst (FindAndDelete (pbegincodehash st) (push_data [] sig))) sig pubkey
          (sigstate st) of
         (ok, c') \<Rightarrow> Cont (st\<lparr>stk := bool_val ok # rest, nOpCount := 4, sigstate := c'\<rparr>))
     else Stop (st\<lparr>stk := bool_val False # pubkey # sig # rest, nOpCount := 3\<rparr>))"
proof -
  have h: "length h \<le> MAX_SCRIPT_ELEMENT_SIZE" using assms(1) by (simp add: MAX_SCRIPT_ELEMENT_SIZE_def)
  note ops = eval_loop_op exec_op_def op_stack_def op_hash_def op_equal_def op_checksig_def size_limit_def
    verify_top_def eval_loop_Nil disabled_ops_def
  show ?thesis
    using assms h
    by (simp add: p2pkh_def ops eval_loop_push Let_def split: prod.split)
qed

lemma EvalScript_p2pkh:
  assumes "length h = 20" and "length rest \<le> 900"
  shows "EvalScript L C CS flags (pubkey # sig # rest) (p2pkh h) c =
    (if Hash160 C pubkey = h then
       (case check_one CS (flags AND SCRIPT_VERIFY_STRICTENC \<noteq> 0)
          (fst (FindAndDelete (p2pkh h) (push_data [] sig))) sig pubkey c of
         (ok, c') \<Rightarrow> (True, bool_val ok # rest, c'))
     else (False, bool_val False # pubkey # sig # rest, c))"
proof -
  have "length (p2pkh h) \<le> 10000" using assms(1) by (simp add: p2pkh_def push_data_def)
  then show ?thesis
    using assms by (simp add: EvalScript_def eval_loop_p2pkh split: prod.split)
qed

end
