(* ===== verification/Checker.thy ===== *)
theory Checker
  imports ScriptFacts
begin

text \<open>
  The contract between the script interpreter and the signature check it calls. A checker may keep a state
  of its own, as the cache of valid signatures is: while an invariant of that state holds, the answer is a
  function of signature, key and script, and the invariant is kept. Under the contract a run of the
  interpreter, up to VerifyScript, is that of the plain checker, which has the answers and no state.
\<close>

section \<open>Instructions that do not check signatures\<close>

definition plain_checker :: "(valtype \<Rightarrow> valtype \<Rightarrow> script \<Rightarrow> bool) \<Rightarrow> 's checker" where
  "plain_checker ok sig key code c = (ok sig key code, c)"

text \<open>A result with another state of the checker in it.\<close>

definition with_sig :: "'s \<Rightarrow> 's result \<Rightarrow> 's result" where
  "with_sig c r = (case r of Cont st \<Rightarrow> Cont (st\<lparr>sigstate := c\<rparr>) | Stop st \<Rightarrow> Stop (st\<lparr>sigstate := c\<rparr>))"

definition result_sig :: "'s result \<Rightarrow> 's" where
  "result_sig r = (case r of Cont st \<Rightarrow> sigstate st | Stop st \<Rightarrow> sigstate st)"

lemma with_sig_simps [simp]:
  "with_sig c (Cont st) = Cont (st\<lparr>sigstate := c\<rparr>)" "with_sig c (Stop st) = Stop (st\<lparr>sigstate := c\<rparr>)"
  "result_sig (Cont st) = sigstate st" "result_sig (Stop st) = sigstate st"
  by (simp_all add: with_sig_def result_sig_def)

lemma result_sig_with [simp]: "result_sig (with_sig c r) = c"
  by (cases r) simp_all

lemma with_sig_if: "with_sig c (if b then x else y) = (if b then with_sig c x else with_sig c y)"
  by simp

lemma frame_small_int: "op_small_int L opcode (st\<lparr>sigstate := c\<rparr>) = with_sig c (op_small_int L opcode st)"
  by (simp add: op_small_int_def push_val_def)

lemma frame_control: "op_control fExec opcode (st\<lparr>sigstate := c\<rparr>) = with_sig c (op_control fExec opcode st)"
  by (simp add: op_control_def split: list.split)

lemma frame_stack: "op_stack opcode (st\<lparr>sigstate := c\<rparr>) = with_sig c (op_stack opcode st)"
  unfolding op_stack_def with_sig_if by (intro if_cong refl) (simp_all split: list.split)

lemma frame_pick_roll: "op_pick_roll L opcode (st\<lparr>sigstate := c\<rparr>) = with_sig c (op_pick_roll L opcode st)"
  by (simp add: op_pick_roll_def Let_def split: option.split)

lemma frame_sizes: "op_sizes L opcode (st\<lparr>sigstate := c\<rparr>) = with_sig c (op_sizes L opcode st)"
  by (simp add: op_sizes_def push_val_def split: list.split)

lemma frame_verify_top: "verify_top fVerify fValue (st\<lparr>sigstate := c\<rparr>) = with_sig c (verify_top fVerify fValue st)"
  by (simp add: verify_top_def)

lemma frame_equal: "op_equal opcode (st\<lparr>sigstate := c\<rparr>) = with_sig c (op_equal opcode st)"
  by (simp add: op_equal_def verify_top_def Let_def split: list.split)

lemma frame_unary: "op_unary L opcode (st\<lparr>sigstate := c\<rparr>) = with_sig c (op_unary L opcode st)"
  by (simp add: op_unary_def split: list.split option.split)

lemma frame_binary: "op_binary L opcode (st\<lparr>sigstate := c\<rparr>) = with_sig c (op_binary L opcode st)"
  by (simp add: op_binary_def verify_top_def Let_def split: list.split option.split)

lemma frame_within: "op_within L (st\<lparr>sigstate := c\<rparr>) = with_sig c (op_within L st)"
  by (simp add: op_within_def split: list.split option.split)

lemma frame_hash: "op_hash C opcode (st\<lparr>sigstate := c\<rparr>) = with_sig c (op_hash C opcode st)"
  by (simp add: op_hash_def split: list.split)

lemma frame_size_limit: "size_limit (with_sig c r) = with_sig c (size_limit r)"
  by (cases r) (simp_all add: size_limit_def)

lemmas frames = frame_small_int frame_control frame_stack frame_pick_roll frame_sizes frame_equal frame_unary
  frame_binary frame_within frame_hash

section \<open>The contract\<close>

text \<open>The same run: the plain checker's result has its own state and agrees in everything else.\<close>

definition same_run :: "('s \<Rightarrow> bool) \<Rightarrow> 's \<Rightarrow> 's result \<Rightarrow> 's result \<Rightarrow> bool" where
  "same_run sound c0 r r0 \<longleftrightarrow> r0 = with_sig c0 r \<and> sound (result_sig r)"

lemma same_run_Cont:
  assumes "same_run sound c0 r (Cont st)"
  obtains c where "r = Cont (st\<lparr>sigstate := c\<rparr>)" "sound c"
proof (cases r)
  case (Cont x)
  then show ?thesis using assms that [of "sigstate x"] by (auto simp: same_run_def)
qed (use assms in \<open>simp add: same_run_def\<close>)

lemma same_run_if: "same_run sound c0 x x0 \<Longrightarrow> same_run sound c0 y y0 \<Longrightarrow>
    same_run sound c0 (if b then x else y) (if b then x0 else y0)"
  by simp

lemma framed:
  assumes "\<And>c. f (st\<lparr>sigstate := c\<rparr>) = with_sig c (f st)" and "sound (sigstate st)"
  shows "same_run sound c0 (f st) (f (st\<lparr>sigstate := c0\<rparr>))"
proof -
  have "f st = with_sig (sigstate st) (f st)" using assms(1) [of "sigstate st"] by simp
  from arg_cong [OF this, of result_sig] have "result_sig (f st) = sigstate st" by simp
  then show ?thesis using assms by (simp add: same_run_def)
qed

locale checker_contract =
  fixes CS :: "'s checker" and ok :: "valtype \<Rightarrow> valtype \<Rightarrow> script \<Rightarrow> bool" and sound :: "'s \<Rightarrow> bool"
  assumes answers: "sound c \<Longrightarrow> fst (CS sig key code c) = ok sig key code"
    and keeps_inv: "sound c \<Longrightarrow> sound (snd (CS sig key code c))"
begin

lemma check_one_plain:
  fixes c0 :: 's
  assumes "sound c"
  shows "check_one (plain_checker ok) fStrict code sig key c0 = (fst (check_one CS fStrict code sig key c), c0)
    \<and> sound (snd (check_one CS fStrict code sig key c))"
  using assms by (simp add: check_one_def plain_checker_def answers keeps_inv)

lemma multisig_plain:
  fixes c0 :: 's
  shows "sound c \<Longrightarrow> multisig_loop (plain_checker ok) fStrict code sigs keys c0 = (fst (multisig_loop CS fStrict code sigs keys c), c0)
    \<and> sound (snd (multisig_loop CS fStrict code sigs keys c))"
proof (induction keys arbitrary: sigs c)
  case Nil
  then show ?case by (cases sigs) simp_all
next
  case (Cons key keys)
  show ?case
  proof (cases sigs)
    case (Cons sig rest)
    obtain b c' where b: "check_one CS fStrict code sig key c = (b, c')" by (rule prod.exhaust)
    note one = check_one_plain [OF \<open>sound c\<close>, of fStrict code sig key c0, unfolded b fst_conv snd_conv]
    show ?thesis unfolding Cons using Cons.IH [of c'] one by (simp add: b Let_def)
  qed (use Cons.prems in simp)
qed

lemma same_checksig:
  assumes "sound (sigstate st)"
  shows "same_run sound c0 (op_checksig CS fStrict opcode st) (op_checksig (plain_checker ok) fStrict opcode (st\<lparr>sigstate := c0\<rparr>))"
  using check_one_plain [OF assms] assms
  by (simp add: op_checksig_def same_run_def verify_top_def Let_def split_beta split: list.split)

lemma same_checkmultisig:
  assumes "sound (sigstate st)"
  shows "same_run sound c0 (op_checkmultisig L CS fStrict opcode st)
    (op_checkmultisig L (plain_checker ok) fStrict opcode (st\<lparr>sigstate := c0\<rparr>))"
  using multisig_plain [OF assms] assms
  by (simp add: op_checkmultisig_def same_run_def verify_top_def Let_def split_beta split: option.split)

lemma same_exec_op:
  assumes "sound (sigstate st)"
  shows "same_run sound c0 (exec_op L C CS fStrict fExec opcode pc st)
    (exec_op L C (plain_checker ok) fStrict fExec opcode pc (st\<lparr>sigstate := c0\<rparr>))"
proof -
  have upd: "same_run sound c0 (Cont st) (Cont (st\<lparr>sigstate := c0\<rparr>))" "same_run sound c0 (Stop st) (Stop (st\<lparr>sigstate := c0\<rparr>))"
    "same_run sound c0 (Cont (st\<lparr>pbegincodehash := pc\<rparr>)) (Cont (st\<lparr>sigstate := c0, pbegincodehash := pc\<rparr>))"
    using assms by (simp_all add: same_run_def)
  show ?thesis unfolding exec_op_def
    by (intro same_run_if upd same_checksig same_checkmultisig assms; rule framed; rule frames assms)
qed

lemma same_instr:
  assumes "sound (sigstate st)"
  shows "same_run sound c0 (eval_instr L C CS fStrict opcode v pc st)
    (eval_instr L C (plain_checker ok) fStrict opcode v pc (st\<lparr>sigstate := c0\<rparr>))"
proof -
  define st1 where "st1 = (if opcode > OP_16 then st\<lparr>nOpCount := nOpCount st + 1\<rparr> else st)"
  have i: "sound (sigstate st1)" using assms by (simp add: st1_def)
  have st1: "(if opcode > OP_16 then st\<lparr>sigstate := c0\<rparr>\<lparr>nOpCount := nOpCount (st\<lparr>sigstate := c0\<rparr>) + 1\<rparr> else st\<lparr>sigstate := c0\<rparr>)
      = st1\<lparr>sigstate := c0\<rparr>" by (simp add: st1_def)
  have v: "vfExec (st\<lparr>sigstate := c0\<rparr>) = vfExec st" "nOpCount (st1\<lparr>sigstate := c0\<rparr>) = nOpCount st1" by simp_all
  have run: "same_run sound c0 x y \<Longrightarrow> same_run sound c0 (size_limit x) (size_limit y)" for x y
    by (auto simp: same_run_def frame_size_limit size_limit_def split: result.split)
  have base: "same_run sound c0 (Stop st) (Stop (st\<lparr>sigstate := c0\<rparr>))" "same_run sound c0 (Stop st1) (Stop (st1\<lparr>sigstate := c0\<rparr>))"
    "same_run sound c0 (Cont st1) (Cont (st1\<lparr>sigstate := c0\<rparr>))" "same_run sound c0 (push_val v st1) (push_val v (st1\<lparr>sigstate := c0\<rparr>))"
    using assms i by (simp_all add: same_run_def push_val_def)
  show ?thesis
    unfolding eval_instr_def Let_def st1 st1_def [symmetric] v
    by (intro same_run_if base run same_exec_op i)
qed

lemma same_loop:
  "sound (sigstate st) \<Longrightarrow> same_run sound c0 (eval_loop L C CS fStrict pc st) (eval_loop L C (plain_checker ok) fStrict pc (st\<lparr>sigstate := c0\<rparr>))"
proof (induction pc arbitrary: st rule: length_induct)
  case (1 pc)
  show ?case
  proof (cases "pc = []")
    case True
    then show ?thesis using 1(2) by (simp add: eval_loop.simps [of _ _ _ _ "[]"] same_run_def)
  next
    case False
    obtain good opcode v pc' where g: "GetOp2 pc = (good, opcode, v, pc')" by (rule prod_cases4)
    show ?thesis
    proof (cases good)
      case True
      note run = same_instr [OF 1(2), of c0 L C fStrict opcode v pc']
      have less: "length pc' < length pc" using g True by (simp add: GetOp2_less)
      show ?thesis
      proof (cases "eval_instr L C CS fStrict opcode v pc' st")
        case (Cont st')
        then have "eval_instr L C (plain_checker ok) fStrict opcode v pc' (st\<lparr>sigstate := c0\<rparr>) = Cont (st'\<lparr>sigstate := c0\<rparr>)"
          "sound (sigstate st')" using run by (simp_all add: same_run_def)
        then show ?thesis using 1(1) less False True g Cont by (simp add: eval_loop.simps [of _ _ _ _ pc])
      next
        case (Stop st')
        then have "eval_instr L C (plain_checker ok) fStrict opcode v pc' (st\<lparr>sigstate := c0\<rparr>) = Stop (st'\<lparr>sigstate := c0\<rparr>)"
          "sound (sigstate st')" using run by (simp_all add: same_run_def)
        then show ?thesis using False True g Stop by (simp add: eval_loop.simps [of _ _ _ _ pc] same_run_def)
      qed
    next
      case bad: False
      then show ?thesis using 1(2) False g by (simp add: eval_loop.simps [of _ _ _ _ pc] same_run_def)
    qed
  qed
qed

lemma EvalScript_plain:
  fixes c0 :: 's
  assumes "sound c"
  shows "\<exists>b s c'. EvalScript L C CS flags stack script c = (b, s, c')
    \<and> EvalScript L C (plain_checker ok) flags stack script c0 = (b, s, c0) \<and> sound c'"
proof -
  let ?f = "flags AND SCRIPT_VERIFY_STRICTENC \<noteq> 0"
    and ?st = "\<lparr>stk = stack, altstk = [], vfExec = [], nOpCount = 0, pbegincodehash = script, sigstate = c\<rparr>"
  have "same_run sound c0 (eval_loop L C CS ?f script ?st) (eval_loop L C (plain_checker ok) ?f script (?st\<lparr>sigstate := c0\<rparr>))"
    by (rule same_loop) (simp add: assms)
  then show ?thesis
    using assms by (cases "eval_loop L C CS ?f script ?st") (auto simp: EvalScript_def same_run_def)
qed

lemma VerifyScript_plain:
  fixes c0 :: 's
  assumes "sound c"
  shows "fst (VerifyScript L C CS flags scriptSig scriptPubKey c) = fst (VerifyScript L C (plain_checker ok) flags scriptSig scriptPubKey c0)
    \<and> sound (snd (VerifyScript L C CS flags scriptSig scriptPubKey c))"
proof -
  note ev = EvalScript_plain [where L = L and C = C and flags = flags and ?c0.0 = c0]
  obtain b1 s1 c1 where 1: "EvalScript L C CS flags [] scriptSig c = (b1, s1, c1)"
    "EvalScript L C (plain_checker ok) flags [] scriptSig c0 = (b1, s1, c0)" "sound c1" using ev [OF assms] by blast
  obtain b2 s2 c2 where 2: "EvalScript L C CS flags s1 scriptPubKey c1 = (b2, s2, c2)"
    "EvalScript L C (plain_checker ok) flags s1 scriptPubKey c0 = (b2, s2, c0)" "sound c2" using ev [OF 1(3)] by blast
  obtain b3 s3 c3 where 3: "EvalScript L C CS flags (tl s1) (hd s1) c2 = (b3, s3, c3)"
    "EvalScript L C (plain_checker ok) flags (tl s1) (hd s1) c0 = (b3, s3, c0)" "sound c3" using ev [OF 2(3)] by blast
  show ?thesis using 1 2 3 by (cases s1) (simp_all add: VerifyScript_def)
qed

end

end
