(* ===== verification/Serialize.thy ===== *)
theory Serialize
  imports Prelude "HOL-Library.Monad_Syntax"
begin

text \<open>
  serialize.h: how numbers, byte strings and vectors are written to a stream and read back. A stream
  is the list of the bytes not yet read; a reader returns None where CDataStream::read throws (its
  exception mask covers the end of the data) or ReadCompactSize does. Integers are written as they
  are in memory, least significant byte first. The locale serializer is the contract of a pair
  Serialize/Unserialize with its GetSerializeSize; every pair of the program is an interpretation.
\<close>

unbundle bit_operations_syntax

type_synonym 'a reader = "byte list \<Rightarrow> ('a \<times> byte list) option"

section \<open>The contract\<close>

locale serializer =
  fixes ser :: "'a \<Rightarrow> byte list" and unser :: "'a reader" and ssize :: "'a \<Rightarrow> nat" and ok :: "'a \<Rightarrow> bool"
  assumes roundtrip: "ok x \<Longrightarrow> unser (ser x @ rest) = Some (x, rest)"
    and size_eq: "ok x \<Longrightarrow> ssize x = length (ser x)"
begin

lemma prefix_free: "ok x \<Longrightarrow> ok y \<Longrightarrow> ser x @ r = ser y @ s \<Longrightarrow> x = y \<and> r = s"
  using roundtrip [of x r] roundtrip [of y s] by (metis Pair_inject option.inject)

lemma roundtrip_end: "ok x \<Longrightarrow> unser (ser x) = Some (x, [])"
  using roundtrip [of x "[]"] by simp

end

section \<open>Fixed width integers\<close>

definition ds_read :: "nat \<Rightarrow> byte list reader" where
  "ds_read nSize s = (if nSize > length s then None else Some (take nSize s, drop nSize s))"

definition ser_word :: "'a::len word \<Rightarrow> byte list" where
  "ser_word w = le_fixed (LENGTH('a) div 8) (unat w)"

definition unser_word :: "('a::len word) reader" where
  "unser_word s = do { (b, s) \<leftarrow> ds_read (LENGTH('a) div 8) s; Some (word_of_nat (le_val b), s) }"

definition size_word :: "'a::len word \<Rightarrow> nat" where "size_word w = LENGTH('a) div 8"

text \<open>int and int64, as integers: the bytes of the two's complement.\<close>

definition ser_int :: "int \<Rightarrow> byte list" where "ser_int n = ser_word (word_of_int n :: u32)"
definition unser_int :: "int reader" where
  "unser_int s = do { (w, s) \<leftarrow> unser_word s; Some (sint (w :: u32), s) }"
definition ser_int64 :: "int \<Rightarrow> byte list" where "ser_int64 n = ser_word (word_of_int n :: u64)"
definition unser_int64 :: "int reader" where
  "unser_int64 s = do { (w, s) \<leftarrow> unser_word s; Some (sint (w :: u64), s) }"

lemma ds_read_append [simp]: "length b = n \<Longrightarrow> ds_read n (b @ s) = Some (b, s)"
  by (simp add: ds_read_def)

lemma length_ser_word: "length (ser_word (w :: 'a::len word)) = LENGTH('a) div 8"
  by (simp add: ser_word_def)

lemma unser_word_append:
  fixes w :: "'a::len word"
  assumes "8 dvd LENGTH('a)" shows "unser_word (ser_word w @ s) = Some (w, s)"
proof -
  have "(256 :: nat) ^ (LENGTH('a) div 8) = 2 ^ (8 * (LENGTH('a) div 8))" by (simp add: power_mult)
  also have "\<dots> = 2 ^ LENGTH('a)" using assms by simp
  finally show ?thesis by (simp add: unser_word_def length_ser_word) (simp add: ser_word_def le_val_le_fixed)
qed

interpretation byte: serializer "ser_word :: byte \<Rightarrow> byte list" unser_word size_word "\<lambda>_. True"
  by unfold_locales (simp_all add: unser_word_append size_word_def length_ser_word)
interpretation u16: serializer "ser_word :: u16 \<Rightarrow> byte list" unser_word size_word "\<lambda>_. True"
  by unfold_locales (simp_all add: unser_word_append size_word_def length_ser_word)
interpretation u32: serializer "ser_word :: u32 \<Rightarrow> byte list" unser_word size_word "\<lambda>_. True"
  by unfold_locales (simp_all add: unser_word_append size_word_def length_ser_word)
interpretation u64: serializer "ser_word :: u64 \<Rightarrow> byte list" unser_word size_word "\<lambda>_. True"
  by unfold_locales (simp_all add: unser_word_append size_word_def length_ser_word)

lemma sint_word_of_int:
  "int32_range n \<Longrightarrow> sint (word_of_int n :: u32) = n" "int64_range n \<Longrightarrow> sint (word_of_int n :: u64) = n"
  by (simp_all add: signed_of_int int32_range_def int64_range_def signed_take_bit_int_eq_self)

interpretation int32: serializer ser_int unser_int "\<lambda>_. 4" int32_range
  by unfold_locales (simp_all add: ser_int_def unser_int_def u32.roundtrip sint_word_of_int length_ser_word)

interpretation int64: serializer ser_int64 unser_int64 "\<lambda>_. 8" int64_range
  by unfold_locales (simp_all add: ser_int64_def unser_int64_def u64.roundtrip sint_word_of_int length_ser_word)

section \<open>Compact sizes\<close>

definition MAX_SIZE :: nat where "MAX_SIZE = 0x02000000"

definition GetSizeOfCompactSize :: "u64 \<Rightarrow> nat" where
  "GetSizeOfCompactSize nSize =
     (if nSize < 253 then 1 else if nSize \<le> 0xffff then 1 + 2 else if nSize \<le> 0xffffffff then 1 + 4
      else 1 + 8)"

definition WriteCompactSize :: "u64 \<Rightarrow> byte list" where
  "WriteCompactSize nSize =
     (if nSize < 253 then ser_word (ucast nSize :: byte)
      else if nSize \<le> 0xffff then ser_word (253 :: byte) @ ser_word (ucast nSize :: u16)
      else if nSize \<le> 0xffffffff then ser_word (254 :: byte) @ ser_word (ucast nSize :: u32)
      else ser_word (255 :: byte) @ ser_word nSize)"

definition ReadCompactSize :: "u64 reader" where
  "ReadCompactSize s = do {
     (chSize, s) \<leftarrow> unser_word s;
     (nSizeRet, s) \<leftarrow>
       (if chSize < (253 :: byte) then Some (ucast chSize, s)
        else if chSize = 253 then do { (xSize, s) \<leftarrow> unser_word s; Some (ucast (xSize :: u16), s) }
        else if chSize = 254 then do { (xSize, s) \<leftarrow> unser_word s; Some (ucast (xSize :: u32), s) }
        else unser_word s);
     if unat nSizeRet > MAX_SIZE then None else Some (nSizeRet, s) }"

lemma ucast_ucast_small:
  assumes "unat (n :: u64) < 2 ^ LENGTH('a::len)" shows "ucast (ucast n :: 'a word) = n"
  using assms by (simp add: word_unat_eq_iff unsigned_ucast_eq unsigned_take_bit_eq take_bit_nat_eq_self)

lemma ReadCompactSize_Write:
  "ReadCompactSize (WriteCompactSize n @ rest) = (if unat n > MAX_SIZE then None else Some (n, rest))"
proof -
  note sizes = word_less_nat_alt word_le_nat_alt
  consider "n < 253" | "\<not> n < 253" "n \<le> 0xffff" | "\<not> n \<le> 0xffff" "n \<le> 0xffffffff" | "\<not> n \<le> 0xffffffff"
    by blast
  then show ?thesis
  proof cases
    case 1
    then have n: "unat n < 2 ^ LENGTH(8)" by (simp add: sizes)
    then have c: "ucast (ucast n :: byte) = n" by (rule ucast_ucast_small)
    have "(ucast n :: byte) < 253"
      using 1 n by (simp add: sizes unsigned_ucast_eq unsigned_take_bit_eq take_bit_nat_eq_self)
    with 1 c show ?thesis
      by (simp add: WriteCompactSize_def ReadCompactSize_def byte.roundtrip)
  next
    case 2
    then have "unat n < 2 ^ LENGTH(16)" by (simp add: sizes)
    then have "ucast (ucast n :: u16) = n" by (rule ucast_ucast_small)
    with 2 show ?thesis
      by (simp add: WriteCompactSize_def ReadCompactSize_def byte.roundtrip u16.roundtrip)
  next
    case 3
    then have "unat n < 2 ^ LENGTH(32)" by (simp add: sizes)
    then have "ucast (ucast n :: u32) = n" by (rule ucast_ucast_small)
    moreover have "\<not> n < 253" using 3 by (simp add: sizes)
    ultimately show ?thesis
      using 3 by (simp add: WriteCompactSize_def ReadCompactSize_def byte.roundtrip u32.roundtrip)
  next
    case 4
    moreover have "\<not> n < 253" "\<not> n \<le> 0xffff" using 4 by (simp_all add: sizes)
    ultimately show ?thesis
      by (simp add: WriteCompactSize_def ReadCompactSize_def byte.roundtrip u64.roundtrip)
  qed
qed

lemma GetSizeOfCompactSize_eq: "GetSizeOfCompactSize n = length (WriteCompactSize n)"
  by (simp add: GetSizeOfCompactSize_def WriteCompactSize_def length_ser_word)

interpretation compact: serializer WriteCompactSize ReadCompactSize GetSizeOfCompactSize
  "\<lambda>n. unat n \<le> MAX_SIZE"
  by unfold_locales (simp_all add: ReadCompactSize_Write GetSizeOfCompactSize_eq)

text \<open>
  A size is read back from its compact form, whatever follows, exactly when it does not exceed
  MAX_SIZE; a larger one makes the reader throw although the writer writes it. The size computed in
  advance is the number of bytes written.
\<close>

theorem compact_size_roundtrip:
  "ReadCompactSize (WriteCompactSize n @ s) = (if unat n \<le> MAX_SIZE then Some (n, s) else None)
   \<and> GetSizeOfCompactSize n = length (WriteCompactSize n)"
  by (simp add: ReadCompactSize_Write GetSizeOfCompactSize_eq not_le)

section \<open>Vectors and strings\<close>

text \<open>Vectors of bytes and strings are read in blocks, so that a wrong size cannot exhaust the memory.\<close>

function read_blocks :: "nat \<Rightarrow> nat \<Rightarrow> byte list reader" where
  "read_blocks blksize n s =
     (if n = 0 \<or> blksize = 0 then Some ([], s)
      else let blk = min n blksize in
        do { (b, s) \<leftarrow> ds_read blk s; (bs, s) \<leftarrow> read_blocks blksize (n - blk) s; Some (b @ bs, s) })"
  by pat_completeness auto
termination by (relation "measure (\<lambda>(k, n, s). n)") auto

declare read_blocks.simps [simp del]

definition ser_bytes :: "byte list \<Rightarrow> byte list" where
  "ser_bytes v = WriteCompactSize (word_of_nat (length v)) @ v"

definition unser_bytes :: "byte list reader" where
  "unser_bytes s = do { (nSize, s) \<leftarrow> ReadCompactSize s; read_blocks (1 + 4999999) (unat nSize) s }"

definition size_bytes :: "byte list \<Rightarrow> nat" where
  "size_bytes v = GetSizeOfCompactSize (word_of_nat (length v)) + length v"

text \<open>Strings are read in one piece.\<close>

definition unser_string :: "byte list reader" where
  "unser_string s = do { (nSize, s) \<leftarrow> ReadCompactSize s;
     if nSize \<noteq> 0 then ds_read (unat nSize) s else Some ([], s) }"

text \<open>Vectors of other elements, one after the other.\<close>

fun unser_n :: "'a reader \<Rightarrow> nat \<Rightarrow> 'a list reader" where
  "unser_n u 0 s = Some ([], s)"
| "unser_n u (Suc n) s = do { (x, s) \<leftarrow> u s; (xs, s) \<leftarrow> unser_n u n s; Some (x # xs, s) }"

definition ser_vec :: "('a \<Rightarrow> byte list) \<Rightarrow> 'a list \<Rightarrow> byte list" where
  "ser_vec f v = WriteCompactSize (word_of_nat (length v)) @ concat (map f v)"

definition unser_vec :: "'a reader \<Rightarrow> 'a list reader" where
  "unser_vec u s = do { (nSize, s) \<leftarrow> ReadCompactSize s; unser_n u (unat nSize) s }"

definition size_vec :: "('a \<Rightarrow> nat) \<Rightarrow> 'a list \<Rightarrow> nat" where
  "size_vec f v = GetSizeOfCompactSize (word_of_nat (length v)) + sum_list (map f v)"

lemma length_u64: "n \<le> MAX_SIZE \<Longrightarrow> unat (word_of_nat n :: u64) = n"
  by (intro unat_of_nat_less) (simp add: MAX_SIZE_def)

lemma read_blocks_eq:
  "0 < k \<Longrightarrow> read_blocks k n s = (if n > length s then None else Some (take n s, drop n s))"
proof (induction n arbitrary: s rule: less_induct)
  case (less n)
  show ?case
  proof (cases "n = 0")
    case True
    then show ?thesis by (simp add: read_blocks.simps [of k])
  next
    case False
    define b where "b = min n k"
    have b: "b \<le> n" "n - b < n" using False less.prems by (auto simp: b_def)
    have "read_blocks k n s =
        do { (x, s) \<leftarrow> ds_read b s; (bs, s) \<leftarrow> read_blocks k (n - b) s; Some (x @ bs, s) }"
      using False less.prems by (simp add: read_blocks.simps [of k n] b_def Let_def)
    also have "\<dots> = (if n > length s then None else Some (take n s, drop n s))"
      using less.IH [OF b(2) less.prems] b(1) take_add [of b "n - b" s]
      by (auto simp: ds_read_def)
    finally show ?thesis .
  qed
qed

interpretation bytes: serializer ser_bytes unser_bytes size_bytes "\<lambda>v. length v \<le> MAX_SIZE"
proof
  fix v rest :: "byte list"
  assume ok: "length v \<le> MAX_SIZE"
  then show "unser_bytes (ser_bytes v @ rest) = Some (v, rest)"
    using compact.roundtrip [of "word_of_nat (length v)" "v @ rest"]
    by (simp add: unser_bytes_def ser_bytes_def read_blocks_eq length_u64)
  from ok show "size_bytes v = length (ser_bytes v)"
    using compact.size_eq [of "word_of_nat (length v)"] by (simp add: size_bytes_def ser_bytes_def length_u64)
qed

interpretation str: serializer ser_bytes unser_string size_bytes "\<lambda>v. length v \<le> MAX_SIZE"
proof
  fix v rest :: "byte list"
  assume ok: "length v \<le> MAX_SIZE"
  have "(word_of_nat (length v) :: u64) \<noteq> 0 \<longleftrightarrow> v \<noteq> []"
    using length_u64 [OF ok] by (metis length_0_conv unat_0 unsigned_eq_0_iff)
  then show "unser_string (ser_bytes v @ rest) = Some (v, rest)"
    using compact.roundtrip [of "word_of_nat (length v)" "v @ rest"] ok
    by (simp add: unser_string_def ser_bytes_def length_u64)
  from ok show "size_bytes v = length (ser_bytes v)" by (rule bytes.size_eq)
qed

context serializer
begin

lemma unser_n_append: "list_all ok v \<Longrightarrow> unser_n unser (length v) (concat (map ser v) @ rest) = Some (v, rest)"
  by (induction v) (simp_all add: roundtrip)

lemma length_concat_ser: "list_all ok v \<Longrightarrow> sum_list (map ssize v) = length (concat (map ser v))"
  by (induction v) (simp_all add: size_eq)

lemma vec:
  "serializer (ser_vec ser) (unser_vec unser) (size_vec ssize) (\<lambda>v. length v \<le> MAX_SIZE \<and> list_all ok v)"
proof
  fix v rest
  assume ok: "length v \<le> MAX_SIZE \<and> list_all ok v"
  then show "unser_vec unser (ser_vec ser v @ rest) = Some (v, rest)"
    using compact.roundtrip [of "word_of_nat (length v)" "concat (map ser v) @ rest"] unser_n_append
    by (simp add: unser_vec_def ser_vec_def length_u64)
  from ok show "size_vec ssize v = length (ser_vec ser v)"
    using compact.size_eq [of "word_of_nat (length v)"] length_concat_ser
    by (simp add: size_vec_def ser_vec_def length_u64)
qed

end

section \<open>Variable length integers\<close>

text \<open>
  The bytes in the order of the array tmp, the last one written first; a negative int leaves the loop
  at once. The reader collects into a word of the width of its type.
\<close>

function varint_digits :: "int \<Rightarrow> byte \<Rightarrow> byte list" where
  "varint_digits n flag =
     (let b = word_of_int (n AND 0x7F) OR flag
      in if n \<le> 0x7F then [b] else b # varint_digits (drop_bit 7 n - 1) 0x80)"
  by pat_completeness auto
termination by (relation "measure (\<lambda>(n, f). nat n)") (auto simp: drop_bit_eq_div)

declare varint_digits.simps [simp del]

definition WriteVarInt :: "int \<Rightarrow> byte list" where
  "WriteVarInt n = rev (varint_digits n 0x00)"

function varint_size :: "int \<Rightarrow> nat" where
  "varint_size n = (if n \<le> 0x7F then 1 else 1 + varint_size (drop_bit 7 n - 1))"
  by pat_completeness auto
termination by (relation "measure nat") (auto simp: drop_bit_eq_div)

declare varint_size.simps [simp del]

fun ReadVarInt_loop :: "'a::len word \<Rightarrow> 'a word reader" where
  "ReadVarInt_loop n [] = None"
| "ReadVarInt_loop n (chData # s) =
     (let n = push_bit 7 n OR (ucast chData AND 0x7F)
      in if chData AND 0x80 \<noteq> 0 then ReadVarInt_loop (n + 1) s else Some (n, s))"

definition ReadVarInt :: "('a::len word) reader" where "ReadVarInt s = ReadVarInt_loop 0 s"

lemma low_seven: "n AND 0x7F = n mod (128 :: int)"
proof -
  have "n AND mask 7 = take_bit 7 n" by (simp add: take_bit_eq_mask)
  then show ?thesis by (simp add: mask_eq_exp_minus_1 take_bit_eq_mod)
qed

lemma ucast_low:
  assumes "8 \<le> LENGTH('a::len)"
  shows "ucast (b :: byte) AND 0x7F = (word_of_nat (unat b mod 128) :: 'a word)"
proof -
  have len: "(256 :: nat) \<le> 2 ^ LENGTH('a)" using power_increasing [OF assms, of "2 :: nat"] by simp
  have "unat (word_of_nat (unat b mod 128) :: 'a word) = unat b mod 128"
    using len by (intro unat_of_nat_less) (simp add: less_le_trans [of _ 128])
  moreover have "unat (ucast b :: 'a word) = unat b"
    using unat_byte_less [of b] len by (simp add: unsigned_ucast_eq take_bit_eq_mod)
  ultimately show ?thesis by (simp add: and_masks word_unat_eq_iff unat_take_bit)
qed

lemma varint_byte:
  assumes "r < 128" and "8 \<le> LENGTH('a::len)"
  defines "b \<equiv> word_of_nat r OR (0x80 :: byte)"
  shows "b AND 0x80 \<noteq> 0" and "ucast b AND 0x7F = (word_of_nat r :: 'a word)"
    and "word_of_nat r AND 0x80 = (0 :: byte)"
    and "ucast (word_of_nat r :: byte) AND 0x7F = (word_of_nat r :: 'a word)"
proof -
  have r: "unat (word_of_nat r :: byte) = r" using assms(1) by (intro unat_of_nat_less) simp
  have b: "unat b = r + 128" using r assms(1) by (simp add: b_def byte_or_80)
  show "b AND 0x80 \<noteq> 0" using b by (simp add: and_bits byte_bit7)
  show "word_of_nat r AND 0x80 = (0 :: byte)" using r assms(1) by (simp add: and_bits byte_bit7)
  show "ucast b AND 0x7F = (word_of_nat r :: 'a word)"
    "ucast (word_of_nat r :: byte) AND 0x7F = (word_of_nat r :: 'a word)"
    unfolding ucast_low [OF assms(2)] b r using assms(1) by simp_all
qed

lemma varint_join: "push_bit 7 (word_of_int (n div 128)) OR word_of_int (n mod 128) = (word_of_int n :: 'a::len word)"
proof -
  have "push_bit 7 (n div 128) OR (n mod 128) = n"
  proof -
    have "push_bit 7 (drop_bit 7 n) OR take_bit 7 n = n" by (rule bit_eqI) (auto simp: bit_simps)
    then show ?thesis by (simp add: drop_bit_eq_div take_bit_eq_mod)
  qed
  then have "word_of_int (push_bit 7 (n div 128) OR (n mod 128)) = (word_of_int n :: 'a word)" by (simp only:)
  then show ?thesis by (simp only: of_int_or_eq of_int_push_bit)
qed

lemma ReadVarInt_digit:
  assumes "8 \<le> LENGTH('a::len)" and "w = (word_of_int (n div 128) :: 'a word)" and "0 \<le> n"
  shows "ReadVarInt_loop w ((word_of_int (n AND 0x7F) OR 0x80) # s) = ReadVarInt_loop (word_of_int (n + 1)) s"
    and "ReadVarInt_loop w ((word_of_int (n AND 0x7F) OR 0x00) # s) = Some (word_of_int n, s)"
proof -
  define r where "r = nat (n mod 128)"
  have r: "r < 128" "n mod 128 = int r" by (auto simp: r_def)
  have join: "push_bit 7 w OR word_of_nat r = word_of_int n"
    using varint_join [of n, where 'a = 'a] unfolding assms(2) r(2) by simp
  note byte = varint_byte [OF r(1) assms(1)]
  show "ReadVarInt_loop w ((word_of_int (n AND 0x7F) OR 0x80) # s) = ReadVarInt_loop (word_of_int (n + 1)) s"
    and "ReadVarInt_loop w ((word_of_int (n AND 0x7F) OR 0x00) # s) = Some (word_of_int n, s)"
    unfolding low_seven r(2) of_int_of_nat_eq or.right_neutral
    using byte by (simp_all add: Let_def join)
qed

lemma ReadVarInt_flagged:
  assumes "8 \<le> LENGTH('a::len)"
  shows "0 \<le> n \<Longrightarrow> ReadVarInt_loop (0 :: 'a word) (rev (varint_digits n 0x80) @ s) = ReadVarInt_loop (word_of_int (n + 1)) s"
proof (induction "nat n" arbitrary: n s rule: less_induct)
  case less
  show ?case
  proof (cases "n \<le> 0x7F")
    case True
    then show ?thesis
      using ReadVarInt_digit(1) [OF assms, of 0 n s] less.prems by (simp add: varint_digits.simps [of n])
  next
    case False
    have q: "drop_bit 7 n - 1 = n div 128 - 1" by (simp add: drop_bit_eq_div)
    have "0 \<le> n div 128 - 1" "nat (n div 128 - 1) < nat n" using False by auto
    from less.hyps [OF this(2,1)] show ?thesis
      using ReadVarInt_digit(1) [OF assms refl less.prems, of s] False
      by (simp add: varint_digits.simps [of n] q Let_def)
  qed
qed

lemma ReadVarInt_WriteVarInt:
  assumes "8 \<le> LENGTH('a::len)" and "0 \<le> n"
  shows "ReadVarInt (WriteVarInt n @ s) = Some (word_of_int n :: 'a word, s)"
proof (cases "n \<le> 0x7F")
  case True
  then show ?thesis
    using ReadVarInt_digit(2) [OF assms(1), of 0 n s] assms(2)
    by (simp add: WriteVarInt_def ReadVarInt_def varint_digits.simps [of n])
next
  case False
  have q: "drop_bit 7 n - 1 = n div 128 - 1" by (simp add: drop_bit_eq_div)
  have "0 \<le> n div 128 - 1" using False by auto
  from ReadVarInt_flagged [OF assms(1) this] show ?thesis
    using ReadVarInt_digit(2) [OF assms(1) refl assms(2), of s] False
    by (simp add: WriteVarInt_def ReadVarInt_def varint_digits.simps [of n] q Let_def)
qed

lemma varint_size_eq: "varint_size n = length (varint_digits n f)"
proof (induction n arbitrary: f rule: varint_size.induct)
  case (1 n)
  then show ?case by (simp add: varint_size.simps [of n] varint_digits.simps [of n] Let_def)
qed

lemma varint_size_le: "n < 128 ^ k \<Longrightarrow> 0 < k \<Longrightarrow> varint_size n \<le> k"
proof (induction k arbitrary: n)
  case (Suc k)
  show ?case
  proof (cases "n \<le> 0x7F")
    case False
    have "n div 128 < 128 ^ k" using Suc.prems by (simp add: div_less_iff_less_mult mult.commute)
    moreover have "0 < k" using False Suc.prems by (cases k) auto
    ultimately show ?thesis using Suc.IH [of "n div 128 - 1"] False
      by (simp add: varint_size.simps [of n] drop_bit_eq_div)
  qed (simp add: varint_size.simps [of n])
qed simp

text \<open>The unsigned types, and int, which is read into 32 bits and loses a negative number.\<close>

definition ser_varint :: "'a::len word \<Rightarrow> byte list" where "ser_varint w = WriteVarInt (uint w)"
definition size_varint :: "'a::len word \<Rightarrow> nat" where "size_varint w = varint_size (uint w)"

definition unser_varint_int :: "int reader" where
  "unser_varint_int s = do { (w, s) \<leftarrow> ReadVarInt s; Some (sint (w :: u32), s) }"

lemma length_WriteVarInt: "length (WriteVarInt n) = varint_size n"
  by (simp add: WriteVarInt_def varint_size_eq [where f = 0])

interpretation varint32: serializer "ser_varint :: u32 \<Rightarrow> byte list" ReadVarInt size_varint "\<lambda>_. True"
  by unfold_locales (simp_all add: ser_varint_def ReadVarInt_WriteVarInt size_varint_def length_WriteVarInt)

interpretation varint64: serializer "ser_varint :: u64 \<Rightarrow> byte list" ReadVarInt size_varint "\<lambda>_. True"
  by unfold_locales (simp_all add: ser_varint_def ReadVarInt_WriteVarInt size_varint_def length_WriteVarInt)

interpretation varint_int: serializer WriteVarInt unser_varint_int varint_size "\<lambda>n. 0 \<le> n \<and> int32_range n"
  by unfold_locales (simp_all add: unser_varint_int_def ReadVarInt_WriteVarInt sint_word_of_int length_WriteVarInt)

subsection \<open>One encoding per number\<close>

text \<open>What has been read so far: v is one more than the number whose digits, all flagged, are p.\<close>

definition varint_prefix :: "int \<Rightarrow> byte list \<Rightarrow> bool" where
  "varint_prefix v p \<longleftrightarrow> (if p = [] then v = 0 else 1 \<le> v \<and> rev (varint_digits (v - 1) 0x80) = p)
     \<and> 127 * v \<le> 128 * (128 ^ length p - 1)"

lemma byte_of_low:
  fixes ch :: byte
  assumes "m mod 128 = int (unat ch mod 128)"
  shows "ch AND 0x80 \<noteq> 0 \<Longrightarrow> word_of_int (m AND 0x7F) OR 0x80 = ch"
    and "ch AND 0x80 = 0 \<Longrightarrow> word_of_int (m AND 0x7F) OR 0x00 = ch"
proof -
  have r: "unat (word_of_nat (unat ch mod 128) :: byte) = unat ch mod 128"
    by (intro unat_of_nat_less) simp
  show "word_of_int (m AND 0x7F) OR 0x80 = ch" if "ch AND 0x80 \<noteq> 0"
  proof -
    have "128 \<le> unat ch" using that by (simp add: and_bits byte_bit7)
    then have "unat ch mod 128 + 128 = unat ch" using unat_byte_less [of ch] mod_if [of "unat ch" 128]
      by (simp add: le_mod_geq)
    then show ?thesis
      unfolding low_seven assms of_int_of_nat_eq by (simp add: word_unat_eq_iff byte_or_80 r)
  qed
  show "word_of_int (m AND 0x7F) OR 0x00 = ch" if "ch AND 0x80 = 0"
  proof -
    have "unat ch < 128" using that by (simp add: and_bits byte_bit7)
    then show ?thesis unfolding low_seven assms of_int_of_nat_eq by simp
  qed
qed

lemma varint_prefix_digits:
  fixes ch :: byte
  assumes "varint_prefix v p" and m: "m = v * 128 + int (unat ch mod 128)"
  shows "rev (varint_digits m f) = p @ [word_of_int (m AND 0x7F) OR f]" and "0 \<le> m"
proof -
  have v: "0 \<le> v" using assms(1) by (auto simp: varint_prefix_def split: if_split_asm)
  then show "0 \<le> m" by (simp add: m)
  show "rev (varint_digits m f) = p @ [word_of_int (m AND 0x7F) OR f]"
  proof (cases "p = []")
    case True
    then have "m \<le> 127" using assms by (simp add: varint_prefix_def)
    with True show ?thesis by (simp add: varint_digits.simps [of m])
  next
    case False
    then have p: "1 \<le> v" "rev (varint_digits (v - 1) 0x80) = p" using assms by (simp_all add: varint_prefix_def)
    have "m div 128 = v" unfolding m by (simp add: of_nat_mod)
    then have "drop_bit 7 m - 1 = v - 1" by (simp add: drop_bit_eq_div)
    moreover have "\<not> m \<le> 127" using p m by simp
    ultimately show ?thesis using p by (simp add: varint_digits.simps [of m] Let_def)
  qed
qed

lemma varint_prefix_step:
  fixes ch :: byte
  assumes "varint_prefix v p" and m: "m = v * 128 + int (unat ch mod 128)" and "ch AND 0x80 \<noteq> 0"
  shows "varint_prefix (m + 1) (p @ [ch])"
proof -
  have "m mod 128 = int (unat ch mod 128)" unfolding m by simp
  note b = byte_of_low(1) [OF this assms(3)]
  have r: "int (unat ch mod 128) \<le> 127" by simp
  define R where "R = int (unat ch mod 128)"
  define P where "P = (128 :: int) ^ length p"
  have "127 * v \<le> 128 * (P - 1)" using assms(1) by (simp add: varint_prefix_def P_def)
  then have "128 * (127 * v) + 127 * (R + 1) \<le> 128 * (128 * (P - 1)) + 127 * 128"
    using r unfolding R_def [symmetric] by (intro add_mono mult_left_mono) simp_all
  then have "127 * (v * 128 + R + 1) \<le> 128 * (128 * P - 1)" by (simp add: algebra_simps)
  then show ?thesis
    using varint_prefix_digits(1) [OF assms(1) m, of "0x80"] varint_prefix_digits(2) [OF assms(1) m] b by (simp add: varint_prefix_def m R_def P_def)
qed

lemma varint_prefix_value:
  fixes ch :: byte
  assumes "varint_prefix v p" and m: "m = v * 128 + int (unat ch mod 128)"
    and "128 ^ Suc (length p) * 2 \<le> (2 :: int) ^ LENGTH('a::len)"
  shows "uint (word_of_int m :: 'a word) = m"
proof -
  define R where "R = int (unat ch mod 128)"
  define P where "P = (128 :: int) ^ length p"
  have r: "R \<le> 127" by (simp add: R_def)
  have "127 * v \<le> 128 * (P - 1)" "1 \<le> P" using assms(1) by (simp_all add: varint_prefix_def P_def)
  have "v < 2 * P"
  proof (rule ccontr)
    assume "\<not> v < 2 * P"
    then have "127 * (2 * P) \<le> 127 * v" by simp
    also have "\<dots> \<le> 128 * (P - 1)" by fact
    finally show False using \<open>1 \<le> P\<close> by simp
  qed
  then have "v * 128 + R < 128 * P * 2" using r by linarith
  also have "\<dots> \<le> 2 ^ LENGTH('a)" using assms(3) by (simp add: P_def)
  finally have "m < 2 ^ LENGTH('a)" by (simp add: m R_def)
  with varint_prefix_digits(2) [OF assms(1) m] show ?thesis by (simp add: uint_word_of_int_eq take_bit_int_eq_self)
qed

lemma ReadVarInt_canonical:
  assumes "8 \<le> LENGTH('a::len)"
  shows "ReadVarInt_loop (word_of_int v :: 'a word) s = Some (w, rest) \<Longrightarrow> varint_prefix v p \<Longrightarrow>
    128 ^ (length p + length s - length rest) * 2 \<le> (2 :: int) ^ LENGTH('a) \<Longrightarrow>
    length rest < length s \<and> p @ s = WriteVarInt (uint w) @ rest"
proof (induction s arbitrary: v p)
  case (Cons ch s)
  define m where "m = v * 128 + int (unat ch mod 128)"
  have low: "m mod 128 = int (unat ch mod 128)" "m div 128 = v" unfolding m_def by (simp_all add: of_nat_mod)
  have word: "push_bit 7 (word_of_int v) OR (ucast ch AND 0x7F) = (word_of_int m :: 'a word)"
    using varint_join [of m, where 'a = 'a] unfolding low ucast_low [OF assms] by simp
  note pre = varint_prefix_digits [OF Cons.prems(2) m_def] byte_of_low [OF low(1)]
  show ?case
  proof (cases "ch AND 0x80 = 0")
    case True
    then have w: "w = word_of_int m" "rest = s" using Cons.prems(1) word by (simp_all add: Let_def)
    then have "uint (word_of_int m :: 'a word) = m"
      using Cons.prems(3) by (intro varint_prefix_value [OF Cons.prems(2) m_def]) simp
    with w show ?thesis using pre(1) [of 0] pre(4) [OF True] by (simp add: WriteVarInt_def)
  next
    case False
    then have "ReadVarInt_loop (word_of_int (m + 1) :: 'a word) s = Some (w, rest)"
      using Cons.prems(1) word by (simp add: Let_def)
    from Cons.IH [OF this varint_prefix_step [OF Cons.prems(2) m_def False]] Cons.prems(3)
    show ?thesis by simp
  qed
qed simp

text \<open>
  Every number has exactly one encoding as a variable length integer: writing and reading gives it
  back and fits the buffer of the writer, which has room for ten bytes of a 64 bit number and five of
  a 32 bit number; and whatever nine bytes (four for 32 bits) are read successfully are the bytes
  that writing the number gives.
\<close>

theorem varint_one_encoding:
  fixes w :: u64 and v :: u32
  shows "ReadVarInt (ser_varint w @ s) = Some (w, s) \<and> length (ser_varint w) \<le> (8 * 8 + 6) div 7
    \<and> ReadVarInt (ser_varint v @ s) = Some (v, s) \<and> length (ser_varint v) \<le> (4 * 8 + 6) div 7
    \<and> (case ReadVarInt b of Some (w', rest) \<Rightarrow> length b - length rest > 9 \<or> b = ser_varint (w' :: u64) @ rest | None \<Rightarrow> True)
    \<and> (case ReadVarInt b of Some (v', rest) \<Rightarrow> length b - length rest > 4 \<or> b = ser_varint (v' :: u32) @ rest | None \<Rightarrow> True)"
proof (intro conjI)
  show "ReadVarInt (ser_varint w @ s) = Some (w, s)" "ReadVarInt (ser_varint v @ s) = Some (v, s)"
    by (simp_all add: varint64.roundtrip varint32.roundtrip)
  have "uint w < 128 ^ 10" "uint v < 128 ^ 5" using u64_bounds [of w] u32_bounds [of v] by simp_all
  then show "length (ser_varint w) \<le> (8 * 8 + 6) div 7" "length (ser_varint v) \<le> (4 * 8 + 6) div 7"
    using varint_size_le [of "uint w" 10] varint_size_le [of "uint v" 5] by (simp_all add: ser_varint_def length_WriteVarInt)
  have start: "varint_prefix 0 []" by (simp add: varint_prefix_def)
  have short: "(128 :: int) ^ n \<le> 128 ^ k" if "n \<le> k" for n k :: nat using that by (intro power_increasing) simp_all
  have "b = ser_varint w' @ rest" if "ReadVarInt b = Some (w', rest)" "length b - length rest \<le> 9" for w' :: u64 and rest
    using ReadVarInt_canonical [of 0 b w' rest "[]"] that start short [OF that(2)]
    by (simp add: ReadVarInt_def ser_varint_def)
  then show "case ReadVarInt b of Some (w', rest) \<Rightarrow> length b - length rest > 9 \<or> b = ser_varint (w' :: u64) @ rest | None \<Rightarrow> True"
    by (auto split: option.split) (meson not_le_imp_less)
  have "b = ser_varint w' @ rest" if "ReadVarInt b = Some (w', rest)" "length b - length rest \<le> 4" for w' :: u32 and rest
    using ReadVarInt_canonical [of 0 b w' rest "[]"] that start short [OF that(2)]
    by (simp add: ReadVarInt_def ser_varint_def)
  then show "case ReadVarInt b of Some (v', rest) \<Rightarrow> length b - length rest > 4 \<or> b = ser_varint (v' :: u32) @ rest | None \<Rightarrow> True"
    by (auto split: option.split) (meson not_le_imp_less)
qed

end
