(* ===== verification/Money.thy ===== *)
theory Money
  imports Prelude
begin

text \<open>
  Amounts of money: their range (main.h), the subsidy of a block (main.cpp, GetBlockValue), the
  compressed form of amounts in the coin database (main.cpp, CTxOutCompressor), and their decimal
  text (util.cpp, FormatMoney and ParseMoney). An int64 is an int; where the source computes with
  uint64 the model uses words.
\<close>

section \<open>The range of amounts\<close>

definition COIN :: int where "COIN = 100000000"
definition CENT :: int where "CENT = 1000000"
definition MAX_MONEY :: int where "MAX_MONEY = 2065000000 * COIN"

definition MoneyRange :: "int \<Rightarrow> bool" where
  "MoneyRange nValue \<longleftrightarrow> nValue \<ge> 0 \<and> nValue \<le> MAX_MONEY"

section \<open>The subsidy\<close>

definition GetBlockValue :: "int \<Rightarrow> int \<Rightarrow> int" where
  "GetBlockValue nHeight nFees =
     (let nSubsidy = 413 * COIN;
          nSubsidy = (if nHeight < 100 then 13 * COIN else nSubsidy);
          nSubsidy = (if nHeight < 2 then 20650000 * COIN else nSubsidy);
          nSubsidy = drop_bit (nat (c_div nHeight 1051200)) nSubsidy
      in nSubsidy + nFees)"

text \<open>What all blocks below a height create.\<close>

definition total_subsidy :: "nat \<Rightarrow> int" where
  "total_subsidy n = (\<Sum>h<n. GetBlockValue (int h) 0)"

lemma GetBlockValue_eq:
  "GetBlockValue (int h) f = (if h < 2 then 20650000 * COIN else if h < 100 then 13 * COIN
     else 413 * COIN div 2 ^ (h div 1051200)) + f"
proof -
  have "c_div (int h) 1051200 = int (h div 1051200)" by (simp add: c_div_nonneg zdiv_int)
  then have "nat (c_div (int h) 1051200) = h div 1051200" by simp
  then show ?thesis by (auto simp: GetBlockValue_def Let_def drop_bit_eq_div)
qed

lemma sum_le_const: "(\<And>h. h \<in> A \<Longrightarrow> f h \<le> (c :: int)) \<Longrightarrow> sum f A \<le> int (card A) * c"
  using sum_bounded_above [of A f c] by simp

text \<open>The eras: from the first hundred blocks on, era k of 1051200 blocks pays at most 413 / 2^k.\<close>

lemma eras_bound:
  "(\<Sum>h\<in>{100..<1051200 * k}. GetBlockValue (int h) 0) \<le> (\<Sum>j<k. 1051200 * (413 * COIN div 2 ^ j))"
proof (induction k)
  case (Suc k)
  let ?E = "{1051200 * k..<1051200 * Suc k} - {..<100}"
  have "{100..<1051200 * Suc k} = {100..<1051200 * k} \<union> ?E" by auto
  then have "(\<Sum>h\<in>{100..<1051200 * Suc k}. GetBlockValue (int h) 0) =
      (\<Sum>h\<in>{100..<1051200 * k}. GetBlockValue (int h) 0) + (\<Sum>h\<in>?E. GetBlockValue (int h) 0)"
    by (simp only:) (rule sum.union_disjoint, auto)
  moreover have "GetBlockValue (int h) 0 = 413 * COIN div 2 ^ k" if "h \<in> ?E" for h
  proof -
    have "h div 1051200 = k" using that by (intro div_nat_eqI) auto
    with that show ?thesis by (simp add: GetBlockValue_eq)
  qed
  then have "(\<Sum>h\<in>?E. GetBlockValue (int h) 0) \<le> int (card ?E) * (413 * COIN div 2 ^ k)"
    by (intro sum_le_const) simp
  moreover have "card ?E \<le> 1051200"
    using card_mono [of "{1051200 * k..<1051200 * Suc k}" ?E] by auto
  then have "int (card ?E) * (413 * COIN div 2 ^ k) \<le> 1051200 * (413 * COIN div 2 ^ k)"
    by (intro mult_right_mono) (simp_all add: COIN_def pos_imp_zdiv_nonneg_iff)
  ultimately show ?case using Suc by simp
qed simp

lemma halving_sum: "(\<Sum>j<k. (C :: int) div 2 ^ j) \<le> 2 * C" if "0 \<le> C"
proof -
  have "(\<Sum>j<k. C div 2 ^ j) + 2 * (C div 2 ^ k) \<le> 2 * C"
  proof (induction k)
    case (Suc k)
    have "C div 2 ^ Suc k = (C div 2 ^ k) div 2" by (simp only: power_Suc2 zdiv_zmult2_eq zero_le_numeral)
    then have "2 * (C div 2 ^ Suc k) \<le> C div 2 ^ k" by simp
    with Suc show ?case by simp
  qed (use that in simp)
  moreover have "0 \<le> C div 2 ^ k" using that by (simp add: pos_imp_zdiv_nonneg_iff)
  ultimately show ?thesis by linarith
qed

lemma total_subsidy_bound:
  assumes "n \<le> 64 * 1051200"
  shows "MoneyRange (total_subsidy n) \<and> total_subsidy n < 910000000 * COIN"
proof -
  have pos: "0 \<le> GetBlockValue (int h) 0" for h
    by (simp add: GetBlockValue_eq COIN_def pos_imp_zdiv_nonneg_iff)
  have "total_subsidy n \<le> total_subsidy (1051200 * 64)"
    unfolding total_subsidy_def using assms pos by (intro sum_mono2) auto
  also have "\<dots> = (\<Sum>h<100. GetBlockValue (int h) 0) + (\<Sum>h\<in>{100..<1051200 * 64}. GetBlockValue (int h) 0)"
    unfolding total_subsidy_def by (subst sum.union_disjoint [symmetric]) (auto intro: sum.cong)
  also have "\<dots> \<le> (\<Sum>h<100. GetBlockValue (int h) 0) + 1051200 * (2 * (413 * COIN))"
    using eras_bound [of 64] halving_sum [of "413 * COIN" 64]
    by (simp add: COIN_def flip: sum_distrib_left)
  also have "(\<Sum>h<100. GetBlockValue (int h) 0) = (\<Sum>h<2. GetBlockValue (int h) 0) + (\<Sum>h\<in>{2..<100}. GetBlockValue (int h) 0)"
    by (subst sum.union_disjoint [symmetric]) (auto intro: sum.cong)
  also have "(\<Sum>h<2. GetBlockValue (int h) 0) = 41300000 * COIN"
    by (simp add: GetBlockValue_eq numeral_2_eq_2)
  also have "(\<Sum>h\<in>{2..<100}. GetBlockValue (int h) 0) = (\<Sum>h\<in>{2..<100 :: nat}. 13 * COIN)"
    by (rule sum.cong) (auto simp: GetBlockValue_eq)
  finally have "total_subsidy n < 910000000 * COIN" by (simp add: COIN_def)
  moreover have "0 \<le> total_subsidy n" unfolding total_subsidy_def by (intro sum_nonneg pos)
  ultimately show ?thesis by (simp add: MoneyRange_def MAX_MONEY_def COIN_def)
qed

text \<open>
  The subsidy schedule never creates more than MAX_MONEY: all blocks below any height at which the
  shift is defined (64 eras) create less than 910 million coins together, so every partial sum of
  subsidies is in the range of money; and from one era to the next the subsidy never grows.
\<close>

theorem subsidy_total:
  assumes "n \<le> 64 * 1051200"
  shows "MoneyRange (total_subsidy n) \<and> total_subsidy n < 910000000 * COIN"
  using assms by (rule total_subsidy_bound)

theorem subsidy_total_witness: "MoneyRange (total_subsidy 4194000)"
  using subsidy_total [of 4194000] by simp

section \<open>Compressed amounts\<close>

function strip_zeros :: "u64 \<Rightarrow> nat \<Rightarrow> u64 \<times> nat" where
  "strip_zeros n e = (if n mod 10 = 0 \<and> e < 9 then strip_zeros (n div 10) (e + 1) else (n, e))"
  by pat_completeness auto
termination by (relation "measure (\<lambda>(n, e). 9 - e)") auto

declare strip_zeros.simps [simp del]

text \<open>The value is None where the assertion on the digit fails.\<close>

definition CompressAmount :: "u64 \<Rightarrow> u64 option" where
  "CompressAmount n =
     (if n = 0 then Some 0
      else case strip_zeros n 0 of (n, e) \<Rightarrow>
        if e < 9 then
          (let d = n mod 10 in
           if \<not> (d \<ge> 1 \<and> d \<le> 9) then None
           else let n = n div 10 in Some (1 + (n * 9 + d - 1) * 10 + word_of_nat e))
        else Some (1 + (n - 1) * 10 + 9))"

primrec times_ten :: "nat \<Rightarrow> u64 \<Rightarrow> u64" where
  "times_ten 0 n = n"
| "times_ten (Suc e) n = times_ten e (n * 10)"

definition DecompressAmount :: "u64 \<Rightarrow> u64" where
  "DecompressAmount x =
     (if x = 0 then 0
      else let x = x - 1; e = unat (x mod 10); x = x div 10;
               n = (if e < 9 then (let d = x mod 9 + 1; x = x div 9 in x * 10 + d) else x + 1)
           in times_ten e n)"

lemma strip_zeros_props:
  assumes "strip_zeros n e = (m, k)" and "e \<le> 9" and "n \<noteq> 0"
  shows "e \<le> k \<and> k \<le> 9 \<and> unat n = unat m * 10 ^ (k - e) \<and> m \<noteq> 0 \<and> (k < 9 \<longrightarrow> unat m mod 10 \<noteq> 0)"
  using assms
proof (induction n e rule: strip_zeros.induct)
  case (1 n e)
  show ?case
  proof (cases "n mod 10 = 0 \<and> e < 9")
    case True
    then have r: "strip_zeros (n div 10) (e + 1) = (m, k)" using 1 by (simp add: strip_zeros.simps [of n])
    have n: "unat n = unat (n div 10) * 10"
    proof -
      have "unat (n mod 10) = 0" using True by simp
      then show ?thesis by (simp add: unat_div_distrib unat_mod_distrib) presburger
    qed
    then have "n div 10 \<noteq> 0" using 1(4) by (auto simp: unat_eq_zero)
    with 1(1) [OF True r] True have IH: "e + 1 \<le> k" "k \<le> 9" "unat (n div 10) = unat m * 10 ^ (k - (e + 1))"
      "m \<noteq> 0" "k < 9 \<longrightarrow> unat m mod 10 \<noteq> 0" by auto
    then have "k - e = Suc (k - (e + 1))" by simp
    with IH n show ?thesis by simp
  next
    case False
    with 1 show ?thesis
      by (auto simp: strip_zeros.simps [of n] unat_mod_distrib word_unat_eq_iff split: if_split_asm)
  qed
qed

lemma unat_times_ten: "unat n * 10 ^ e < 2 ^ 64 \<Longrightarrow> unat (times_ten e n) = unat n * 10 ^ e"
proof (induction e arbitrary: n)
  case (Suc e)
  have "unat n * 10 < 2 ^ 64" by (rule le_less_trans [OF _ Suc.prems]) simp
  then have "unat (n * 10) = unat n * 10" by (subst unat_mult_less) simp_all
  with Suc show ?case by (simp add: ac_simps)
qed simp

text \<open>The number a compressed amount has, for the digits and the exponent of the amount.\<close>

definition compressed_nat :: "nat \<Rightarrow> nat \<Rightarrow> nat" where
  "compressed_nat m e = (if e < 9 then 1 + (m div 10 * 9 + m mod 10 - 1) * 10 + e else 10 * m)"

lemma unat_div_10: "unat (x div 10 :: u64) = unat x div 10" "unat (x mod 10 :: u64) = unat x mod 10"
  "unat (x div 9 :: u64) = unat x div 9" "unat (x mod 9 :: u64) = unat x mod 9"
  by (simp_all add: unat_div_distrib unat_mod_distrib)

lemma CompressAmount_eq:
  assumes "strip_zeros n 0 = (m, e)" and "n \<noteq> 0" and "unat n < 2 ^ 60"
  shows "\<exists>x. CompressAmount n = Some x \<and> unat x = compressed_nat (unat m) e"
proof -
  have p: "e \<le> 9" "unat n = unat m * 10 ^ e" "0 < unat m" "e < 9 \<longrightarrow> unat m mod 10 \<noteq> 0"
    using strip_zeros_props [OF assms(1) _ assms(2)] by (auto simp: unat_gt_0)
  have m: "unat m < 2 ^ 60" by (rule le_less_trans [OF _ assms(3)]) (simp add: p(2))
  show ?thesis
  proof (cases "e < 9")
    case True
    define d where "d = unat m mod 10"
    define q where "q = unat m div 10"
    have q: "q < 2 ^ 57" "1 \<le> d" "d \<le> 9" using m True p(4) by (auto simp: q_def d_def)
    have d: "unat (m mod 10) = d" "unat (m div 10) = q" by (simp_all add: unat_div_10 d_def q_def)
    have ok: "m mod 10 \<ge> 1" "m mod 10 \<le> 9" using q d by (simp_all add: word_le_nat_alt)
    have a: "unat (m div 10 * 9) = q * 9" using q d by (subst unat_mult_less) simp_all
    have b: "unat (m div 10 * 9 + m mod 10) = q * 9 + d" using q a d by (subst unat_add_less) simp_all
    have c: "unat (m div 10 * 9 + m mod 10 - 1) = q * 9 + d - 1" using q b by (subst unat_sub_le) simp_all
    have e: "unat ((m div 10 * 9 + m mod 10 - 1) * 10) = (q * 9 + d - 1) * 10"
      using q c by (subst unat_mult_less) simp_all
    have f: "unat (1 + (m div 10 * 9 + m mod 10 - 1) * 10) = 1 + (q * 9 + d - 1) * 10"
      using q e by (subst unat_add_less) simp_all
    have w: "unat (word_of_nat e :: u64) = e" using True by (intro unat_of_nat_less) simp
    have "unat (1 + (m div 10 * 9 + m mod 10 - 1) * 10 + word_of_nat e) = 1 + (q * 9 + d - 1) * 10 + e"
      using q f w True by (subst unat_add_less) simp_all
    then show ?thesis
      using True assms(1,2) ok by (simp add: CompressAmount_def Let_def compressed_nat_def d_def q_def)
  next
    case False
    have a: "unat (m - 1) = unat m - 1" using p(3) by (subst unat_sub_le) simp_all
    have b: "unat ((m - 1) * 10) = (unat m - 1) * 10" using a m by (subst unat_mult_less) simp_all
    have c: "unat (1 + (m - 1) * 10) = 1 + (unat m - 1) * 10" using b m by (subst unat_add_less) simp_all
    have "unat (1 + (m - 1) * 10 + 9) = 1 + (unat m - 1) * 10 + 9" using c m by (subst unat_add_less) simp_all
    then show ?thesis using False assms(1,2) p(3) by (simp add: CompressAmount_def compressed_nat_def)
  qed
qed

lemma DecompressAmount_eq:
  assumes "unat x = compressed_nat m e" and "e \<le> 9" and "0 < m" and "e < 9 \<longrightarrow> m mod 10 \<noteq> 0"
    and "m * 10 ^ e < 2 ^ 60"
  shows "unat (DecompressAmount x) = m * 10 ^ e"
proof -
  have m: "m < 2 ^ 60" by (rule le_less_trans [OF _ assms(5)]) simp
  have x: "0 < unat x" using assms by (simp add: compressed_nat_def)
  then have x1: "unat (x - 1) = unat x - 1" by (subst unat_sub_le) simp_all
  define q where "q = (if e < 9 then m div 10 * 9 + m mod 10 - 1 else m - 1)"
  have q: "unat x - 1 = q * 10 + e" using assms by (auto simp: compressed_nat_def q_def)
  have e: "unat ((x - 1) mod 10) = e" "unat ((x - 1) div 10) = q"
    unfolding unat_div_10 x1 q using assms(2) by auto
  have n: "unat (if e < 9 then (x - 1) div 10 div 9 * 10 + ((x - 1) div 10 mod 9 + 1) else (x - 1) div 10 + 1) = m"
  proof (cases "e < 9")
    case True
    then have d: "m mod 10 \<noteq> 0" using assms(4) by simp
    define r where "r = m mod 10 - 1"
    have "m mod 10 < 10" by simp
    then have "q = r + m div 10 * 9" "r < 9" using True d unfolding q_def r_def by simp_all
    then have qd: "q div 9 = m div 10" "q mod 9 = m mod 10 - 1" by (simp_all, simp add: r_def)
    have a: "unat ((x - 1) div 10 mod 9) = m mod 10 - 1" "unat ((x - 1) div 10 div 9) = m div 10"
      by (simp_all only: unat_div_10 (3,4) e qd)
    have b: "unat ((x - 1) div 10 mod 9 + 1) = m mod 10" using a d by (subst unat_add_less) simp_all
    have c: "unat ((x - 1) div 10 div 9 * 10) = m div 10 * 10" using a m by (subst unat_mult_less) simp_all
    have "unat ((x - 1) div 10 div 9 * 10 + ((x - 1) div 10 mod 9 + 1)) = m div 10 * 10 + m mod 10"
      using b c m by (subst unat_add_less) simp_all
    with True show ?thesis by simp
  next
    case False
    then have "unat ((x - 1) div 10 + 1) = m"
      using e(2) m assms(3) by (subst unat_add_less) (simp_all add: q_def)
    with False show ?thesis by simp
  qed
  have "x \<noteq> 0" using x by auto
  then have "DecompressAmount x =
      times_ten e (if e < 9 then (x - 1) div 10 div 9 * 10 + ((x - 1) div 10 mod 9 + 1) else (x - 1) div 10 + 1)"
    by (simp add: DecompressAmount_def Let_def e)
  then show ?thesis using n assms(5) by (simp add: unat_times_ten)
qed

lemma Compress_Decompress:
  assumes "unat n < 2 ^ 60"
  shows "\<exists>x. CompressAmount n = Some x \<and> DecompressAmount x = n"
proof (cases "n = 0")
  case False
  obtain m e where s: "strip_zeros n 0 = (m, e)" by force
  have p: "e \<le> 9" "unat n = unat m * 10 ^ e" "0 < unat m" "e < 9 \<longrightarrow> unat m mod 10 \<noteq> 0"
    using strip_zeros_props [OF s _ False] by (auto simp: unat_gt_0)
  obtain x where x: "CompressAmount n = Some x" "unat x = compressed_nat (unat m) e"
    using CompressAmount_eq [OF s False assms] by blast
  have "DecompressAmount x = n"
    using DecompressAmount_eq [OF x(2) p(1,3,4)] p(2) assms by (simp add: word_unat_eq_iff)
  with x(1) show ?thesis by blast
qed (simp add: CompressAmount_def DecompressAmount_def)

text \<open>
  Compressing an amount and decompressing it gives the amount back, for every amount below 2^60,
  which includes all of the money range; the assertion on the last digit holds, and no 64 bit
  operation wraps around.
\<close>

theorem amount_compression_roundtrip:
  assumes "unat n < 2 ^ 60"
  shows "\<exists>x. CompressAmount n = Some x \<and> DecompressAmount x = n"
  using assms by (rule Compress_Decompress)

theorem amount_compression_roundtrip_witness:
  "\<exists>x. CompressAmount 206500000000000000 = Some x \<and> DecompressAmount x = 206500000000000000"
  by (rule amount_compression_roundtrip) simp

section \<open>The text of an amount\<close>

text \<open>The zeros at the end that FormatMoney trims, on the reversed text: str[i - 2] is two places on.\<close>

fun trim_zeros :: "string \<Rightarrow> nat" where
  "trim_zeros (c # d # x # rest) =
     (if c = CHR ''0'' \<and> isdigit x then Suc (trim_zeros (d # x # rest)) else 0)"
| "trim_zeros s = 0"

text \<open>strprintf with percent 08 and a number that is not negative.\<close>

definition pad8 :: "nat \<Rightarrow> string" where
  "pad8 n = replicate (8 - length (dec n)) CHR ''0'' @ dec n"

definition FormatMoney :: "int \<Rightarrow> bool \<Rightarrow> string" where
  "FormatMoney n fPlus =
     (let n_abs = (if n > 0 then n else - n);
          quotient = c_div n_abs COIN;
          remainder = c_mod n_abs COIN;
          str = dec (nat quotient) @ ''.'' @ pad8 (nat remainder);
          nTrim = trim_zeros (rev str);
          str = take (length str - nTrim) str
      in if n < 0 then ''-'' @ str else if fPlus \<and> n > 0 then ''+'' @ str else str)"

fun parse_frac :: "string \<Rightarrow> int \<Rightarrow> int \<Rightarrow> int \<times> string" where
  "parse_frac (c # p) nMult nUnits =
     (if isdigit c \<and> nMult > 0 then parse_frac p (c_div nMult 10) (nUnits + nMult * int (dec_digit c))
      else (nUnits, c # p))"
| "parse_frac [] nMult nUnits = (nUnits, [])"

fun parse_whole :: "string \<Rightarrow> string \<Rightarrow> (string \<times> int \<times> string) option" where
  "parse_whole [] strWhole = Some (strWhole, 0, [])"
| "parse_whole (c # p) strWhole =
     (if c = CHR ''.'' then
        (case parse_frac p (CENT * 10) 0 of (nUnits, p') \<Rightarrow> Some (strWhole, nUnits, p'))
      else if isspace c then Some (strWhole, 0, c # p)
      else if \<not> isdigit c then None
      else parse_whole p (strWhole @ [c]))"

definition ParseMoney :: "string \<Rightarrow> int option" where
  "ParseMoney psz =
     (case parse_whole (dropWhile isspace psz) [] of None \<Rightarrow> None
      | Some (strWhole, nUnits, p) \<Rightarrow>
          if \<not> list_all isspace p then None
          else if length strWhole > 10 then None
          else if nUnits < 0 \<or> nUnits > COIN then None
          else Some (int (dec_val strWhole) * COIN + nUnits))"

lemma trim_zeros_suffix: "take (trim_zeros s) s = replicate (trim_zeros s) CHR ''0'' \<and> trim_zeros s \<le> length s"
  by (induction s rule: trim_zeros.induct) auto

lemma trim_zeros_dot: "n + 2 < length s \<Longrightarrow> \<not> isdigit (s ! (n + 2)) \<Longrightarrow> trim_zeros s \<le> n"
proof (induction s arbitrary: n rule: trim_zeros.induct)
  case (1 c d x rest)
  then show ?case by (cases n) auto
qed simp_all

text \<open>nMult runs through the powers of ten below k, then is zero.\<close>

lemma c_div_pow10: "c_div (10 ^ k div 10) 10 = 10 ^ (k - 1) div 10"
proof (cases k)
  case (Suc j)
  then show ?thesis by (cases j) (simp_all add: c_div_nonneg)
qed (simp add: c_div_nonneg)

lemma dec_val_Cons: "dec_val (c # s) = dec_digit c * 10 ^ length s + dec_val s"
  by (induction s rule: rev_induct) (simp_all add: dec_val_snoc dec_val_snoc [of "[]", simplified] flip: append_Cons)

lemma parse_frac_digits:
  assumes "list_all isdigit cs" and "length cs \<le> k"
  shows "parse_frac cs (10 ^ k div 10) u = (u + int (dec_val cs) * 10 ^ (k - length cs), [])"
  using assms
proof (induction cs arbitrary: k u)
  case (Cons c cs)
  then obtain j where k: "k = Suc j" by (cases k) auto
  have pow: "(10 :: int) ^ j = 10 ^ length cs * 10 ^ (j - length cs)"
    using Cons.prems k by (simp flip: power_add)
  have "c_div (10 ^ j) 10 = (10 :: int) ^ j div 10" using c_div_pow10 [of k] k by simp
  then have "parse_frac (c # cs) (10 ^ k div 10) u = parse_frac cs (10 ^ j div 10) (u + 10 ^ j * int (dec_digit c))"
    using Cons.prems k by simp
  also have "\<dots> = (u + 10 ^ j * int (dec_digit c) + int (dec_val cs) * 10 ^ (j - length cs), [])"
    using Cons k by simp
  finally show ?case using k by (simp add: dec_val_Cons pow algebra_simps)
qed simp

lemma parse_whole_digits:
  "list_all isdigit cs \<Longrightarrow> parse_whole (cs @ CHR ''.'' # p) w =
    (case parse_frac p (CENT * 10) 0 of (nUnits, p') \<Rightarrow> Some (w @ cs, nUnits, p'))"
proof (induction cs arbitrary: w)
  case (Cons c cs)
  then have "c \<noteq> CHR ''.''" "\<not> isspace c" by (auto simp: isdigit_def isspace_def Let_def)
  with Cons show ?case by simp
qed simp

lemma pad8_props:
  assumes "n < 10 ^ 8"
  shows "length (pad8 n) = 8" and "list_all isdigit (pad8 n)" and "dec_val (pad8 n) = n"
  using length_dec_le [OF assms] dec_digits [of n]
  by (auto simp: pad8_def dec_val_zeros_append list_all_iff)

text \<open>The text is the whole part, the point, and the first digits of the fraction; the rest are zeros.\<close>

lemma FormatMoney_shape:
  assumes "0 \<le> n"
  shows "\<exists>t \<le> 6. FormatMoney n False = dec (nat (n div COIN)) @ CHR ''.'' # take (8 - t) (pad8 (nat (n mod COIN)))
    \<and> pad8 (nat (n mod COIN)) = take (8 - t) (pad8 (nat (n mod COIN))) @ replicate t CHR ''0''"
proof -
  define w where "w = dec (nat (n div COIN))"
  define f where "f = pad8 (nat (n mod COIN))"
  define t where "t = trim_zeros (rev (w @ ''.'' @ f))"
  have "0 \<le> n mod COIN" "n mod COIN < 10 ^ 8" by (simp_all add: COIN_def)
  then have f: "length f = 8" unfolding f_def by (intro pad8_props) (simp add: nat_less_iff)
  have "0 < length w" by (simp add: w_def)
  have "rev (w @ ''.'' @ f) ! 8 = CHR ''.''" using f by (simp add: nth_append)
  then have t6: "t \<le> 6" unfolding t_def using f \<open>0 < length w\<close> by (intro trim_zeros_dot) simp_all
  have "take t (rev (w @ ''.'' @ f)) = replicate t CHR ''0''" using trim_zeros_suffix unfolding t_def by blast
  then have "take t (rev f) = replicate t CHR ''0''" using t6 f by simp
  then have "rev (take t (rev f)) = replicate t CHR ''0''" by simp
  then have z: "drop (8 - t) f = replicate t CHR ''0''" using f by (simp add: rev_take)
  have "FormatMoney n False = take (length (w @ ''.'' @ f) - t) (w @ ''.'' @ f)"
    using assms by (simp add: FormatMoney_def Let_def t_def w_def f_def c_div_nonneg c_mod_nonneg COIN_def)
  also have "\<dots> = w @ CHR ''.'' # take (8 - t) f"
  proof -
    have "9 - t = Suc (8 - t)" using t6 by simp
    then show ?thesis using t6 f by simp
  qed
  finally have str: "FormatMoney n False = w @ CHR ''.'' # take (8 - t) f" .
  have "f = take (8 - t) f @ replicate t CHR ''0''" using append_take_drop_id [of "8 - t" f] z by simp
  with t6 str show ?thesis unfolding w_def f_def by blast
qed

lemma parse_frac_bounds:
  "parse_frac cs (10 ^ k div 10) u = (v, p) \<Longrightarrow> u \<le> v \<and> v \<le> u + 10 ^ k - 1"
proof (induction cs arbitrary: k u)
  case (Cons c cs)
  show ?case
  proof (cases "isdigit c \<and> k \<noteq> 0")
    case True
    then obtain j where k: "k = Suc j" by (cases k) auto
    have "dec_digit c \<le> 9" using True by (auto simp: isdigit_def dec_digit_def Let_def)
    then have d: "(10 :: int) ^ j * int (dec_digit c) \<le> 10 ^ j * 9" by (intro mult_left_mono) simp_all
    have "c_div (10 ^ j) 10 = (10 :: int) ^ j div 10" using c_div_pow10 [of k] k by simp
    then have "parse_frac cs (10 ^ j div 10) (u + 10 ^ j * int (dec_digit c)) = (v, p)"
      using Cons.prems True k by simp
    note ih = Cons.IH [OF this]
    have "0 \<le> (10 :: int) ^ j * int (dec_digit c)" by simp
    with ih d show ?thesis unfolding k power_Suc by linarith
  qed (use Cons.prems in \<open>auto split: if_split_asm\<close>)
qed simp

lemma parse_whole_props:
  "parse_whole p w = Some (w', u, p') \<Longrightarrow> list_all isdigit w \<Longrightarrow> list_all isdigit w' \<and> 0 \<le> u \<and> u < COIN"
proof (induction p arbitrary: w)
  case (Cons c p)
  have "0 \<le> v \<and> v < COIN" if "parse_frac p (CENT * 10) 0 = (v, q)" for v q
    using parse_frac_bounds [of p 8 0 v q] that by (simp add: CENT_def COIN_def)
  with Cons show ?case by (auto split: if_split_asm prod.splits simp: COIN_def)
qed (auto simp: COIN_def)

text \<open>
  ParseMoney reads back what FormatMoney prints without a sign, for every amount of up to ten digits
  before the point, which includes the whole money range.
\<close>

theorem money_text_roundtrip:
  assumes "0 \<le> n" and "n < 10 ^ 18"
  shows "ParseMoney (FormatMoney n False) = Some n"
proof -
  obtain t where t: "t \<le> 6" "FormatMoney n False = dec (nat (n div COIN)) @ CHR ''.'' # take (8 - t) (pad8 (nat (n mod COIN)))"
    "pad8 (nat (n mod COIN)) = take (8 - t) (pad8 (nat (n mod COIN))) @ replicate t CHR ''0''"
    using FormatMoney_shape [OF assms(1)] by blast
  define w where "w = dec (nat (n div COIN))"
  define f where "f = take (8 - t) (pad8 (nat (n mod COIN)))"
  have m: "0 \<le> n mod COIN" "nat (n mod COIN) < 10 ^ 8" by (simp_all add: COIN_def)
  note p = pad8_props [OF m(2)]
  have f: "length f = 8 - t" "list_all isdigit f" using p t(1) by (auto simp: f_def list_all_iff dest: in_set_takeD)
  have v: "int (dec_val f) * 10 ^ t = n mod COIN"
  proof -
    have "dec_val (f @ replicate t CHR ''0'') = nat (n mod COIN)" using t(3) p(3) by (simp add: f_def)
    then have "int (dec_val f * 10 ^ t) = n mod COIN" using m(1) by (simp only: dec_val_append_zeros)
    then show ?thesis by simp
  qed
  have frac: "parse_frac f (CENT * 10) 0 = (n mod COIN, [])"
    using parse_frac_digits [OF f(2), of 8 0] f(1) t(1) v by (simp add: CENT_def)
  have w: "list_all isdigit w" by (simp add: w_def dec_digits)
  have ns: "dropWhile isspace (w @ CHR ''.'' # f) = w @ CHR ''.'' # f"
    using w by (cases w) (auto simp: isdigit_def isspace_def Let_def)
  have "0 \<le> n div COIN" "nat (n div COIN) < 10 ^ 10" using assms by (simp_all add: COIN_def pos_imp_zdiv_nonneg_iff)
  then have lw: "length w \<le> 10" "int (dec_val w) = n div COIN"
    using length_dec_le [of "nat (n div COIN)" 10] by (simp_all add: w_def)
  have "FormatMoney n False = w @ CHR ''.'' # f" by (simp only: t(2) w_def f_def)
  then have "ParseMoney (FormatMoney n False) = Some (n div COIN * COIN + n mod COIN)"
    using lw m(1) by (simp add: ParseMoney_def ns parse_whole_digits [OF w] frac) (simp add: COIN_def)
  then show ?thesis by simp
qed

theorem money_text_roundtrip_witness: "ParseMoney (FormatMoney 123456000 False) = Some 123456000"
  by (rule money_text_roundtrip) simp_all

text \<open>
  Whatever text ParseMoney accepts, the amount is not negative and below 10^18, so the guard against
  overflow of 63 bits does its work.
\<close>

theorem ParseMoney_bounds:
  assumes "ParseMoney s = Some n"
  shows "0 \<le> n \<and> n < 10 ^ 18 \<and> int64_range n"
proof -
  from assms obtain w u p where p: "parse_whole (dropWhile isspace s) [] = Some (w, u, p)" "length w \<le> 10"
    "n = int (dec_val w) * COIN + u" by (auto simp: ParseMoney_def split: option.splits if_split_asm)
  from parse_whole_props [OF p(1)] have w: "list_all isdigit w" "0 \<le> u" "u < COIN" by simp_all
  have "dec_val w < 10 ^ length w" by (rule dec_val_bound [OF w(1)])
  also have "\<dots> \<le> 10 ^ 10" using p(2) by (intro power_increasing) simp_all
  finally show ?thesis using w p(3) by (simp add: COIN_def int64_range_def)
qed

theorem ParseMoney_bounds_witness: "ParseMoney '' 21.5 '' = Some 2150000000 \<and> int64_range 2150000000"
proof -
  have "ParseMoney '' 21.5 '' = Some 2150000000"
    by (simp add: ParseMoney_def isspace_def isdigit_def dec_digit_def dec_val_def c_div_def CENT_def COIN_def)
  with ParseMoney_bounds [OF this] show ?thesis by simp
qed

end
