(* ===== verification/Transaction.thy ===== *)
theory Transaction
  imports Serialize Uint256 Money ScriptEval
begin

text \<open>
  main.h and main.cpp: transactions, blocks, their serialized form, and the checks that need no
  context. An int is an integer in the range of its type. A verdict is what a function leaves in its
  CValidationState: accepted, rejected with the score added (Invalid is a score of 0), or a failed
  assertion or exception.
\<close>

section \<open>Data\<close>

record COutPoint =
  outhash :: uint256
  outn :: u32

record CTxIn =
  prevout :: COutPoint
  scriptSig :: script
  nSequence :: u32

record CTxOut =
  nValue :: int
  scriptPubKey :: script

record CTransaction =
  nVersion :: int
  vin :: "CTxIn list"
  vout :: "CTxOut list"
  nLockTime :: u32

record CBlockHeader =
  nBlockVersion :: int
  hashPrevBlock :: uint256
  hashMerkleRoot :: uint256
  nTime :: u32
  nBits :: u32
  nNonce :: u32

record CBlock = CBlockHeader +
  vtx :: "CTransaction list"

datatype verdict = Accept | DoS nat | Throw

section \<open>Queries\<close>

definition COutPoint_IsNull :: "COutPoint \<Rightarrow> bool" where
  "COutPoint_IsNull p \<longleftrightarrow> outhash p = 0 \<and> outn p = - 1"

definition COutPoint_null :: COutPoint where
  "COutPoint_null = \<lparr>outhash = 0, outn = - 1\<rparr>"

text \<open>operator<, which orders sets of outpoints.\<close>

definition COutPoint_less :: "COutPoint \<Rightarrow> COutPoint \<Rightarrow> bool" where
  "COutPoint_less a b \<longleftrightarrow> outhash a < outhash b \<or> (outhash a = outhash b \<and> outn a < outn b)"

definition CTxIn_IsFinal :: "CTxIn \<Rightarrow> bool" where
  "CTxIn_IsFinal txin \<longleftrightarrow> nSequence txin = - 1"

definition CTxOut_null :: CTxOut where
  "CTxOut_null = \<lparr>nValue = - 1, scriptPubKey = []\<rparr>"

definition CTxOut_IsNull :: "CTxOut \<Rightarrow> bool" where
  "CTxOut_IsNull txout \<longleftrightarrow> nValue txout = - 1"

definition IsCoinBase :: "CTransaction \<Rightarrow> bool" where
  "IsCoinBase tx \<longleftrightarrow> length (vin tx) = 1 \<and> COutPoint_IsNull (prevout (vin tx ! 0))"

definition LOCKTIME_THRESHOLD :: int where "LOCKTIME_THRESHOLD = 500000000"

text \<open>nBestHeight and GetAdjustedTime are the globals that stand in for zero arguments.\<close>

definition IsFinal :: "int \<Rightarrow> int \<Rightarrow> int \<Rightarrow> int \<Rightarrow> CTransaction \<Rightarrow> bool" where
  "IsFinal nBestHeight nAdjustedTime nBlockHeight nBlockTime tx =
     (if nLockTime tx = 0 then True
      else let nBlockHeight = (if nBlockHeight = 0 then nBestHeight else nBlockHeight);
               nBlockTime = (if nBlockTime = 0 then nAdjustedTime else nBlockTime)
      in if uint (nLockTime tx) < (if uint (nLockTime tx) < LOCKTIME_THRESHOLD then nBlockHeight else nBlockTime)
         then True
         else list_all CTxIn_IsFinal (vin tx))"

text \<open>The loop of IsNewerThan over both lists of inputs.\<close>

fun IsNewerThan_loop :: "(CTxIn \<times> CTxIn) list \<Rightarrow> bool \<Rightarrow> u32 \<Rightarrow> bool" where
  "IsNewerThan_loop [] fNewer nLowest = fNewer"
| "IsNewerThan_loop ((a, b) # rest) fNewer nLowest =
     (if nSequence a \<noteq> nSequence b then
        (let (fNewer, nLowest) = (if nSequence a \<le> nLowest then (False, nSequence a) else (fNewer, nLowest));
             (fNewer, nLowest) = (if nSequence b < nLowest then (True, nSequence b) else (fNewer, nLowest))
         in IsNewerThan_loop rest fNewer nLowest)
      else IsNewerThan_loop rest fNewer nLowest)"

definition IsNewerThan :: "CTransaction \<Rightarrow> CTransaction \<Rightarrow> bool" where
  "IsNewerThan tx old =
     (if length (vin tx) \<noteq> length (vin old) then False
      else if \<not> list_all (\<lambda>(a, b). prevout a = prevout b) (zip (vin tx) (vin old)) then False
      else IsNewerThan_loop (zip (vin tx) (vin old)) False (- 1))"

text \<open>None where the source throws.\<close>

fun GetValueOut_loop :: "CTxOut list \<Rightarrow> int \<Rightarrow> int option" where
  "GetValueOut_loop [] nValueOut = Some nValueOut"
| "GetValueOut_loop (txout # rest) nValueOut =
     (let nValueOut = nValueOut + nValue txout in
      if \<not> MoneyRange (nValue txout) \<or> \<not> MoneyRange nValueOut then None
      else GetValueOut_loop rest nValueOut)"

definition GetValueOut :: "CTransaction \<Rightarrow> int option" where
  "GetValueOut tx = GetValueOut_loop (vout tx) 0"

definition GetLegacySigOpCount :: "CTransaction \<Rightarrow> nat" where
  "GetLegacySigOpCount tx =
     (\<Sum>txin\<leftarrow>vin tx. GetSigOpCount (scriptSig txin) False) + (\<Sum>txout\<leftarrow>vout tx. GetSigOpCount (scriptPubKey txout) False)"

section \<open>Serialization\<close>

definition ser_outpoint :: "COutPoint \<Rightarrow> byte list" where
  "ser_outpoint p = ser_word (outhash p) @ ser_word (outn p)"

definition unser_outpoint :: "COutPoint reader" where
  "unser_outpoint s = do { (h, s) \<leftarrow> unser_word s; (m, s) \<leftarrow> unser_word s; Some (\<lparr>outhash = h, outn = m\<rparr>, s) }"

definition ser_txin :: "CTxIn \<Rightarrow> byte list" where
  "ser_txin i = ser_outpoint (prevout i) @ ser_bytes (scriptSig i) @ ser_word (nSequence i)"

definition unser_txin :: "CTxIn reader" where
  "unser_txin s = do { (p, s) \<leftarrow> unser_outpoint s; (c, s) \<leftarrow> unser_bytes s; (q, s) \<leftarrow> unser_word s;
     Some (\<lparr>prevout = p, scriptSig = c, nSequence = q\<rparr>, s) }"

definition size_txin :: "CTxIn \<Rightarrow> nat" where
  "size_txin i = 36 + size_bytes (scriptSig i) + 4"

definition ser_txout :: "CTxOut \<Rightarrow> byte list" where
  "ser_txout q = ser_int64 (nValue q) @ ser_bytes (scriptPubKey q)"

definition unser_txout :: "CTxOut reader" where
  "unser_txout s = do { (v, s) \<leftarrow> unser_int64 s; (c, s) \<leftarrow> unser_bytes s;
     Some (\<lparr>nValue = v, scriptPubKey = c\<rparr>, s) }"

definition size_txout :: "CTxOut \<Rightarrow> nat" where
  "size_txout q = 8 + size_bytes (scriptPubKey q)"

definition ser_tx :: "CTransaction \<Rightarrow> byte list" where
  "ser_tx tx = ser_int (nVersion tx) @ ser_vec ser_txin (vin tx) @ ser_vec ser_txout (vout tx) @ ser_word (nLockTime tx)"

definition unser_tx :: "CTransaction reader" where
  "unser_tx s = do { (v, s) \<leftarrow> unser_int s; (i, s) \<leftarrow> unser_vec unser_txin s; (q, s) \<leftarrow> unser_vec unser_txout s;
     (l, s) \<leftarrow> unser_word s; Some (\<lparr>nVersion = v, vin = i, vout = q, nLockTime = l\<rparr>, s) }"

definition size_tx :: "CTransaction \<Rightarrow> nat" where
  "size_tx tx = 4 + size_vec size_txin (vin tx) + size_vec size_txout (vout tx) + 4"

definition tx_hash :: "crypto \<Rightarrow> CTransaction \<Rightarrow> uint256" where
  "tx_hash C tx = u256_of_bytes (Hash_bytes C (ser_tx tx))"

definition ser_header :: "'a CBlockHeader_scheme \<Rightarrow> byte list" where
  "ser_header b = ser_int (nBlockVersion b) @ ser_word (hashPrevBlock b) @ ser_word (hashMerkleRoot b) @
     ser_word (nTime b) @ ser_word (nBits b) @ ser_word (nNonce b)"

definition unser_header :: "CBlockHeader reader" where
  "unser_header s = do { (v, s) \<leftarrow> unser_int s; (p, s) \<leftarrow> unser_word s; (r, s) \<leftarrow> unser_word s;
     (t, s) \<leftarrow> unser_word s; (b, s) \<leftarrow> unser_word s; (k, s) \<leftarrow> unser_word s;
     Some (\<lparr>nBlockVersion = v, hashPrevBlock = p, hashMerkleRoot = r, nTime = t, nBits = b, nNonce = k\<rparr>, s) }"

definition header_hash :: "crypto \<Rightarrow> 'a CBlockHeader_scheme \<Rightarrow> uint256" where
  "header_hash C b = u256_of_bytes (Hash_bytes C (ser_header b))"

definition ser_block :: "CBlock \<Rightarrow> byte list" where
  "ser_block b = ser_header b @ ser_vec ser_tx (vtx b)"

definition unser_block :: "CBlock reader" where
  "unser_block s = do { (h, s) \<leftarrow> unser_header s; (t, s) \<leftarrow> unser_vec unser_tx s;
     Some (CBlockHeader.extend h (CBlock.fields t), s) }"

definition size_block :: "CBlock \<Rightarrow> nat" where
  "size_block b = 80 + size_vec size_tx (vtx b)"

text \<open>What can be written and read back: integers in range, vectors within MAX_SIZE.\<close>

definition txin_ok :: "CTxIn \<Rightarrow> bool" where "txin_ok i \<longleftrightarrow> length (scriptSig i) \<le> MAX_SIZE"
definition txout_ok :: "CTxOut \<Rightarrow> bool" where
  "txout_ok q \<longleftrightarrow> int64_range (nValue q) \<and> length (scriptPubKey q) \<le> MAX_SIZE"
definition tx_ok :: "CTransaction \<Rightarrow> bool" where
  "tx_ok tx \<longleftrightarrow> int32_range (nVersion tx) \<and> (length (vin tx) \<le> MAX_SIZE \<and> list_all txin_ok (vin tx)) \<and>
     (length (vout tx) \<le> MAX_SIZE \<and> list_all txout_ok (vout tx))"
definition header_ok :: "'a CBlockHeader_scheme \<Rightarrow> bool" where "header_ok b \<longleftrightarrow> int32_range (nBlockVersion b)"
definition block_ok :: "CBlock \<Rightarrow> bool" where
  "block_ok b \<longleftrightarrow> header_ok b \<and> (length (vtx b) \<le> MAX_SIZE \<and> list_all tx_ok (vtx b))"

interpretation u256: serializer "ser_word :: uint256 \<Rightarrow> byte list" unser_word size_word "\<lambda>_. True"
  by unfold_locales (simp_all add: unser_word_append size_word_def length_ser_word)

interpretation outpoint: serializer ser_outpoint unser_outpoint "\<lambda>_. 36" "\<lambda>_. True"
  by unfold_locales (simp_all add: ser_outpoint_def unser_outpoint_def u256.roundtrip u32.roundtrip length_ser_word)

interpretation txin: serializer ser_txin unser_txin size_txin txin_ok
  by unfold_locales (simp_all add: ser_txin_def unser_txin_def size_txin_def txin_ok_def outpoint.roundtrip
      bytes.roundtrip u32.roundtrip bytes.size_eq length_ser_word flip: outpoint.size_eq)

interpretation txout: serializer ser_txout unser_txout size_txout txout_ok
  by unfold_locales (simp_all add: ser_txout_def unser_txout_def size_txout_def txout_ok_def int64.roundtrip
      bytes.roundtrip bytes.size_eq flip: int64.size_eq)

interpretation txins: serializer "ser_vec ser_txin" "unser_vec unser_txin" "size_vec size_txin"
  "\<lambda>v. length v \<le> MAX_SIZE \<and> list_all txin_ok v" by (rule txin.vec)

interpretation txouts: serializer "ser_vec ser_txout" "unser_vec unser_txout" "size_vec size_txout"
  "\<lambda>v. length v \<le> MAX_SIZE \<and> list_all txout_ok v" by (rule txout.vec)

interpretation tx: serializer ser_tx unser_tx size_tx tx_ok
  by unfold_locales (simp_all add: ser_tx_def unser_tx_def size_tx_def tx_ok_def int32.roundtrip txins.roundtrip
      txouts.roundtrip u32.roundtrip txins.size_eq txouts.size_eq length_ser_word flip: int32.size_eq)

interpretation txs: serializer "ser_vec ser_tx" "unser_vec unser_tx" "size_vec size_tx"
  "\<lambda>v. length v \<le> MAX_SIZE \<and> list_all tx_ok v" by (rule tx.vec)

lemma unser_header_ser:
  "header_ok b \<Longrightarrow> unser_header (ser_header b @ s) = Some (CBlockHeader.truncate b, s)"
  by (simp add: unser_header_def ser_header_def header_ok_def int32.roundtrip u256.roundtrip u32.roundtrip
      CBlockHeader.truncate_def)

lemma length_ser_header: "header_ok b \<Longrightarrow> length (ser_header b) = 80"
  by (simp add: ser_header_def header_ok_def length_ser_word flip: int32.size_eq)

interpretation header: serializer "ser_header :: CBlockHeader \<Rightarrow> byte list" unser_header "\<lambda>_. 80" header_ok
  by unfold_locales (simp_all add: unser_header_ser length_ser_header CBlockHeader.truncate_def)

interpretation blk: serializer ser_block unser_block size_block block_ok
  by unfold_locales (simp_all add: ser_block_def unser_block_def size_block_def block_ok_def unser_header_ser
      txs.roundtrip txs.size_eq length_ser_header CBlockHeader.defs CBlock.defs)

section \<open>Checks without context\<close>

definition MAX_BLOCK_SIZE :: nat where "MAX_BLOCK_SIZE = 1000000"
definition MAX_BLOCK_SIZE_GEN :: nat where "MAX_BLOCK_SIZE_GEN = MAX_BLOCK_SIZE div 4"
definition DEFAULT_BLOCK_PRIORITY_SIZE :: nat where "DEFAULT_BLOCK_PRIORITY_SIZE = 17000"
definition DUST_SOFT_LIMIT :: int where "DUST_SOFT_LIMIT = 100000"

text \<open>The loop over the outputs, and the one that collects the outpoints; True is success.\<close>

fun check_values :: "CTxOut list \<Rightarrow> int \<Rightarrow> bool" where
  "check_values [] nValueOut = True"
| "check_values (txout # rest) nValueOut =
     (if nValue txout < 0 then False
      else if nValue txout > MAX_MONEY then False
      else let nValueOut = nValueOut + nValue txout in
        if \<not> MoneyRange nValueOut then False else check_values rest nValueOut)"

fun check_duplicates :: "CTxIn list \<Rightarrow> COutPoint list \<Rightarrow> bool" where
  "check_duplicates [] vInOutPoints = True"
| "check_duplicates (txin # rest) vInOutPoints =
     (if List.member vInOutPoints (prevout txin) then False
      else check_duplicates rest (prevout txin # vInOutPoints))"

definition CheckTransaction :: "CTransaction \<Rightarrow> verdict" where
  "CheckTransaction tx =
     (if vin tx = [] then DoS 10
      else if vout tx = [] then DoS 10
      else if size_tx tx > MAX_BLOCK_SIZE then DoS 100
      else if \<not> check_values (vout tx) 0 then DoS 100
      else if \<not> check_duplicates (vin tx) [] then DoS 100
      else if IsCoinBase tx then
        (if length (scriptSig (vin tx ! 0)) < 2 \<or> length (scriptSig (vin tx ! 0)) > 100 then DoS 100 else Accept)
      else if list_ex (\<lambda>txin. COutPoint_IsNull (prevout txin)) (vin tx) then DoS 10
      else Accept)"

datatype GetMinFee_mode = GMF_BLOCK | GMF_RELAY | GMF_SEND

text \<open>The fee before the last check of its range; None where MAX_MONEY is returned early.\<close>

definition min_fee_raw :: "int \<Rightarrow> CTransaction \<Rightarrow> u32 \<Rightarrow> bool \<Rightarrow> GetMinFee_mode \<Rightarrow> int option" where
  "min_fee_raw nBaseFee tx nBlockSize fAllowFree mode =
     (let nBytes = (word_of_nat (size_tx tx) :: u32);
          nNewBlockSize = nBlockSize + nBytes;
          nMinFee = (1 + uint nBytes div 1000) * nBaseFee;
          nMinFee = (if fAllowFree \<and>
              unat nBytes < (if mode = GMF_SEND then 5000 else DEFAULT_BLOCK_PRIORITY_SIZE - 1000)
            then 0 else nMinFee);
          nMinFee = fold (\<lambda>txout fee. if nValue txout < DUST_SOFT_LIMIT then fee + nBaseFee else fee) (vout tx) nMinFee
      in if nBlockSize \<noteq> 1 \<and> unat nNewBlockSize \<ge> MAX_BLOCK_SIZE_GEN div 2 then
           (if unat nNewBlockSize \<ge> MAX_BLOCK_SIZE_GEN then None
            else Some (nMinFee * int (MAX_BLOCK_SIZE_GEN div (MAX_BLOCK_SIZE_GEN - unat nNewBlockSize))))
         else Some nMinFee)"

definition GetMinFee :: "int \<Rightarrow> int \<Rightarrow> CTransaction \<Rightarrow> u32 \<Rightarrow> bool \<Rightarrow> GetMinFee_mode \<Rightarrow> int" where
  "GetMinFee nMinTxFee nMinRelayTxFee tx nBlockSize fAllowFree mode =
     (case min_fee_raw (if mode = GMF_RELAY then nMinRelayTxFee else nMinTxFee) tx nBlockSize fAllowFree mode of
        None \<Rightarrow> MAX_MONEY
      | Some nMinFee \<Rightarrow> if \<not> MoneyRange nMinFee then MAX_MONEY else nMinFee)"

section \<open>Facts\<close>

lemma check_values_iff:
  "MoneyRange acc \<Longrightarrow> check_values outs acc \<longleftrightarrow>
     (\<forall>q \<in> set outs. MoneyRange (nValue q)) \<and> MoneyRange (acc + (\<Sum>q\<leftarrow>outs. nValue q))"
proof (induction outs arbitrary: acc)
  case (Cons q outs)
  have pos: "0 \<le> (\<Sum>q\<leftarrow>outs. nValue q)" if "\<forall>q \<in> set outs. MoneyRange (nValue q)"
    using that by (intro sum_list_nonneg) (auto simp: MoneyRange_def)
  show ?case
  proof (cases "MoneyRange (nValue q) \<and> MoneyRange (acc + nValue q)")
    case True
    with Cons.IH [of "acc + nValue q"] show ?thesis by (auto simp: MoneyRange_def add.assoc Let_def)
  next
    case False
    then have "\<not> check_values (q # outs) acc" by (auto simp: MoneyRange_def Let_def)
    moreover have "MoneyRange (acc + nValue q)" if "MoneyRange (nValue q)" "\<forall>q \<in> set outs. MoneyRange (nValue q)"
      "MoneyRange (acc + (nValue q + (\<Sum>q\<leftarrow>outs. nValue q)))"
      using that pos Cons.prems by (auto simp: MoneyRange_def)
    ultimately show ?thesis using False by auto
  qed
qed simp

lemma check_duplicates_iff:
  "check_duplicates ins seen \<longleftrightarrow> distinct (map prevout ins) \<and> set (map prevout ins) \<inter> set seen = {}"
  by (induction ins arbitrary: seen) auto

lemma GetValueOut_check: "check_values outs acc \<Longrightarrow> GetValueOut_loop outs acc = Some (acc + (\<Sum>q\<leftarrow>outs. nValue q))"
  by (induction outs arbitrary: acc) (auto simp: Let_def MoneyRange_def split: if_split_asm)

text \<open>
  C21: CheckTransaction accepts a transaction exactly when it has inputs and outputs, fits a block, every
  output and their sum are in the range of money, no output is spent twice, and either it is a coinbase
  with a script of 2 to 100 bytes or none of its inputs is null; then GetValueOut returns the sum of the
  outputs and does not throw.
\<close>

theorem CheckTransaction_accepts:
  "(CheckTransaction tx = Accept \<longleftrightarrow> vin tx \<noteq> [] \<and> vout tx \<noteq> [] \<and> size_tx tx \<le> MAX_BLOCK_SIZE
      \<and> list_all (\<lambda>q. MoneyRange (nValue q)) (vout tx) \<and> MoneyRange (\<Sum>q\<leftarrow>vout tx. nValue q)
      \<and> distinct (map prevout (vin tx))
      \<and> (if IsCoinBase tx then length (scriptSig (hd (vin tx))) \<in> {2..100}
         else list_all (\<lambda>i. \<not> COutPoint_IsNull (prevout i)) (vin tx)))
    \<and> (CheckTransaction tx = Accept \<longrightarrow> GetValueOut tx = Some (\<Sum>q\<leftarrow>vout tx. nValue q))"
proof -
  have z: "MoneyRange 0" by (simp add: MoneyRange_def MAX_MONEY_def COIN_def)
  note vals = check_values_iff [OF z, of "vout tx"]
  show ?thesis
    using vals check_duplicates_iff [of "vin tx" "[]"] GetValueOut_check [of "vout tx" 0]
    by (auto simp: CheckTransaction_def GetValueOut_def hd_conv_nth not_less list_all_iff list_ex_iff)
qed

theorem CheckTransaction_accepts_witness:
  "GetValueOut \<lparr>nVersion = 1, vin = [\<lparr>prevout = \<lparr>outhash = 7, outn = 0\<rparr>, scriptSig = [], nSequence = 0\<rparr>],
     vout = [\<lparr>nValue = 5, scriptPubKey = []\<rparr>, \<lparr>nValue = 6, scriptPubKey = []\<rparr>], nLockTime = 0\<rparr> = Some 11"
  using CheckTransaction_accepts [of "\<lparr>nVersion = 1, vin = [\<lparr>prevout = \<lparr>outhash = 7, outn = 0\<rparr>, scriptSig = [], nSequence = 0\<rparr>],
     vout = [\<lparr>nValue = 5, scriptPubKey = []\<rparr>, \<lparr>nValue = 6, scriptPubKey = []\<rparr>], nLockTime = 0\<rparr>"]
  by (simp add: size_tx_def size_vec_def GetSizeOfCompactSize_def size_txin_def size_txout_def size_bytes_def
      MAX_BLOCK_SIZE_def MoneyRange_def MAX_MONEY_def COIN_def IsCoinBase_def COutPoint_IsNull_def)

text \<open>
  C22: Transactions and blocks survive serialization: what is written is read back, whatever follows it
  in the stream, the size computed in advance is the number of bytes, and no serialized transaction or
  block is a proper beginning of another one.
\<close>

theorem block_serialization:
  assumes "tx_ok t" and "tx_ok t'" and "block_ok b" and "block_ok b'"
  shows "unser_tx (ser_tx t @ s) = Some (t, s) \<and> length (ser_tx t) = size_tx t
    \<and> (ser_tx t @ s = ser_tx t' @ s' \<longrightarrow> t = t' \<and> s = s')
    \<and> unser_block (ser_block b @ s) = Some (b, s) \<and> length (ser_block b) = size_block b
    \<and> (ser_block b @ s = ser_block b' @ s' \<longrightarrow> b = b' \<and> s = s')"
  by (intro conjI impI tx.roundtrip blk.roundtrip tx.size_eq [symmetric] blk.size_eq [symmetric]
      tx.prefix_free blk.prefix_free assms)

definition sample_tx :: CTransaction where
  "sample_tx = \<lparr>nVersion = 1, vin = [\<lparr>prevout = \<lparr>outhash = 7, outn = 0\<rparr>, scriptSig = [1, 2], nSequence = - 1\<rparr>],
     vout = [\<lparr>nValue = 5, scriptPubKey = [0x51]\<rparr>], nLockTime = 0\<rparr>"

definition sample_block :: CBlock where
  "sample_block = \<lparr>nBlockVersion = 2, hashPrevBlock = 3, hashMerkleRoot = 4, nTime = 5, nBits = 6, nNonce = 7,
     vtx = [sample_tx]\<rparr>"

theorem block_serialization_witness:
  "unser_block (ser_block sample_block @ [9]) = Some (sample_block, [9]) \<and> length (ser_block sample_block) = 144"
  using block_serialization [of sample_tx sample_tx sample_block sample_block "[9]" "[9]"]
  by (simp add: sample_block_def sample_tx_def tx_ok_def block_ok_def header_ok_def txin_ok_def txout_ok_def
      MAX_SIZE_def int32_range_def int64_range_def size_block_def size_vec_def size_tx_def size_txin_def
      size_txout_def size_bytes_def GetSizeOfCompactSize_def)

lemma GetSizeOfCompactSize_pos: "1 \<le> GetSizeOfCompactSize n"
  by (simp add: GetSizeOfCompactSize_def)

lemma size_vout_bound: "9 * length (vout tx) \<le> size_tx tx"
proof -
  have "9 \<le> size_txout q" for q
    using GetSizeOfCompactSize_pos [of "word_of_nat (length (scriptPubKey q))"] by (simp add: size_txout_def size_bytes_def)
  then have "9 * length outs \<le> sum_list (map size_txout outs)" for outs
    by (induction outs) (auto intro: add_mono)
  then show ?thesis by (simp add: size_tx_def size_vec_def trans_le_add2)
qed

lemma dust_fees:
  assumes "0 \<le> f" and "0 \<le> base"
  shows "0 \<le> fold (\<lambda>q fee. if nValue q < DUST_SOFT_LIMIT then fee + base else fee) outs f
    \<and> fold (\<lambda>q fee. if nValue q < DUST_SOFT_LIMIT then fee + base else fee) outs f \<le> f + int (length outs) * base"
  using assms(1)
proof (induction outs arbitrary: f)
  case (Cons q outs)
  show ?case
  proof (cases "nValue q < DUST_SOFT_LIMIT")
    case True
    then show ?thesis using Cons.IH [of "f + base"] Cons.prems assms(2) by (simp add: algebra_simps)
  next
    case False
    then show ?thesis using Cons.IH [of f] Cons.prems assms(2) by (simp add: algebra_simps)
  qed
qed simp

text \<open>
  The minimum fee is always in the range of money, and for a transaction that fits a block and a
  base fee of at most one coin the computation, with the surcharge for a nearly full block, stays
  inside 64 bits.
\<close>

theorem GetMinFee_range:
  fixes mode :: GetMinFee_mode
  assumes "0 \<le> nMinTxFee" and "nMinTxFee \<le> COIN" and "0 \<le> nMinRelayTxFee" and "nMinRelayTxFee \<le> COIN"
    and "size_tx tx \<le> MAX_BLOCK_SIZE"
  defines "base \<equiv> if mode = GMF_RELAY then nMinRelayTxFee else nMinTxFee"
  shows "MoneyRange (GetMinFee nMinTxFee nMinRelayTxFee tx nBlockSize fAllowFree mode)
    \<and> pred_option int64_range (min_fee_raw base tx nBlockSize fAllowFree mode)"
proof
  have max: "MoneyRange MAX_MONEY" by (simp add: MoneyRange_def MAX_MONEY_def COIN_def)
  then show "MoneyRange (GetMinFee nMinTxFee nMinRelayTxFee tx nBlockSize fAllowFree mode)"
    by (auto simp: GetMinFee_def split: option.split)
  have base: "0 \<le> base" "base \<le> 100000000" using assms(1-4) by (auto simp: base_def COIN_def)
  define nb where "nb = (word_of_nat (size_tx tx) :: u32)"
  have nb: "uint nb = int (size_tx tx)"
    using assms(5) unfolding nb_def uint_nat by (subst unat_of_nat_less) (auto simp: MAX_BLOCK_SIZE_def)
  define f0 where "f0 = (if fAllowFree \<and> unat nb < (if mode = GMF_SEND then 5000 else DEFAULT_BLOCK_PRIORITY_SIZE - 1000)
    then 0 else (1 + uint nb div 1000) * base)"
  have "(1 + uint nb div 1000) * base \<le> 1001 * 100000000"
    using base assms(5) by (intro mult_mono) (auto simp: nb MAX_BLOCK_SIZE_def)
  moreover have "0 \<le> (1 + uint nb div 1000) * base" using base by (simp add: nb)
  ultimately have f0: "0 \<le> f0" "f0 \<le> 1001 * 100000000" by (auto simp: f0_def)
  define f where "f = fold (\<lambda>q fee. if nValue q < DUST_SOFT_LIMIT then fee + base else fee) (vout tx) f0"
  have "int (length (vout tx)) * base \<le> 111112 * 100000000"
    using base size_vout_bound [of tx] assms(5) by (intro mult_mono) (auto simp: MAX_BLOCK_SIZE_def)
  with dust_fees [OF f0(1) base(1), of "vout tx"] f0 have f: "0 \<le> f" "f \<le> 112113 * 100000000"
    unfolding f_def [symmetric] by auto
  have "int (MAX_BLOCK_SIZE_GEN div k) \<le> 250000" for k
    using div_le_dividend [of MAX_BLOCK_SIZE_GEN k] by (simp add: MAX_BLOCK_SIZE_GEN_def MAX_BLOCK_SIZE_def)
  then have prod: "0 \<le> f * int (MAX_BLOCK_SIZE_GEN div k) \<and> f * int (MAX_BLOCK_SIZE_GEN div k) \<le> 112113 * 100000000 * 250000" for k
    using f by (intro conjI mult_mono) simp_all
  have "int64_range f" using f by (simp add: int64_range_def)
  moreover have "int64_range (f * int (MAX_BLOCK_SIZE_GEN div k))" for k using prod [of k] by (simp add: int64_range_def)
  ultimately show "pred_option int64_range (min_fee_raw base tx nBlockSize fAllowFree mode)"
    unfolding min_fee_raw_def Let_def nb_def [symmetric] f0_def [symmetric] f_def [symmetric] by simp
qed

theorem GetMinFee_range_witness: "MoneyRange (GetMinFee 100000 100000 sample_tx 200000 True GMF_RELAY)"
  using GetMinFee_range [where nMinTxFee = 100000 and nMinRelayTxFee = 100000 and tx = sample_tx]
  by (simp add: COIN_def sample_tx_def size_tx_def size_vec_def size_txin_def
      size_txout_def size_bytes_def GetSizeOfCompactSize_def MAX_BLOCK_SIZE_def)

end
