(* ===== verification/Keys.thy ===== *)
theory Keys
  imports ScriptEval Containers Uint256
begin

text \<open>
  key.h, key.cpp, keystore.h, keystore.cpp: public and private keys, the basic key store and the
  encrypting key store. The elliptic curve operations of OpenSSL are the fields of ec_lib,
  AES-256-CBC those of aes_lib. Both kinds of store offer the interface CKeyStore; what its
  users rely on is the locale key_store, interpreted by the basic store and by the encrypting
  store while it is unlocked.

  An operation that returns a bool and writes a result returns an option. GetPubKey asserts that the
  key is valid; the models of its callers return None of "'a outcome" when that assertion
  stops the program.
\<close>

text \<open>An outcome of code with assertions: None when an assertion fails.\<close>

type_synonym 'a outcome = "'a option"

record ec_lib =
  EC_pubkey :: "byte list \<Rightarrow> bool \<Rightarrow> byte list"
  EC_set_pub :: "byte list \<Rightarrow> bool"
  EC_decompress :: "byte list \<Rightarrow> byte list"
  EC_sign :: "byte list \<Rightarrow> byte list \<Rightarrow> byte list option"
  EC_verify :: "byte list \<Rightarrow> byte list \<Rightarrow> byte list \<Rightarrow> bool"

record aes_lib =
  AES_encrypt :: "byte list \<Rightarrow> byte list \<Rightarrow> byte list \<Rightarrow> byte list option"
  AES_decrypt :: "byte list \<Rightarrow> byte list \<Rightarrow> byte list \<Rightarrow> byte list option"

section \<open>CPubKey\<close>

text \<open>
  The bytes of the array that are in use; an invalid key is its header 0xFF alone. The header
  determines the length.
\<close>

type_synonym CPubKey = "byte list"

definition CPubKey_GetLen :: "byte \<Rightarrow> nat" where
  "CPubKey_GetLen chHeader =
     (if chHeader = 2 \<or> chHeader = 3 then 33
      else if chHeader = 4 \<or> chHeader = 6 \<or> chHeader = 7 then 65 else 0)"

definition CPubKey_invalid :: CPubKey where "CPubKey_invalid = [0xFF]"

definition CPubKey_Set :: "byte list \<Rightarrow> CPubKey" where
  "CPubKey_Set bytes =
     (let len = (if bytes = [] then 0 else CPubKey_GetLen (bytes ! 0)) in
      if len \<noteq> 0 \<and> len = length bytes then bytes else CPubKey_invalid)"

definition CPubKey_size :: "CPubKey \<Rightarrow> nat" where
  "CPubKey_size k = CPubKey_GetLen (k ! 0)"

definition CPubKey_bytes :: "CPubKey \<Rightarrow> byte list" where
  "CPubKey_bytes k = take (CPubKey_size k) k"

definition CPubKey_IsValid :: "CPubKey \<Rightarrow> bool" where
  "CPubKey_IsValid k \<longleftrightarrow> CPubKey_size k > 0"

definition CPubKey_IsCompressed :: "CPubKey \<Rightarrow> bool" where
  "CPubKey_IsCompressed k \<longleftrightarrow> CPubKey_size k = 33"

definition CPubKey_eq :: "CPubKey \<Rightarrow> CPubKey \<Rightarrow> bool" where
  "CPubKey_eq a b \<longleftrightarrow> a ! 0 = b ! 0 \<and> take (CPubKey_size a) a = take (CPubKey_size a) b"

definition CPubKey_GetID :: "crypto \<Rightarrow> CPubKey \<Rightarrow> uint160" where
  "CPubKey_GetID C k = u160_of_bytes (Hash160 C (CPubKey_bytes k))"

definition CPubKey_GetHash :: "crypto \<Rightarrow> CPubKey \<Rightarrow> uint256" where
  "CPubKey_GetHash C k = u256_of_bytes (Hash_bytes C (CPubKey_bytes k))"

definition CPubKey_IsFullyValid :: "ec_lib \<Rightarrow> CPubKey \<Rightarrow> bool" where
  "CPubKey_IsFullyValid E k \<longleftrightarrow>
     (if \<not> CPubKey_IsValid k then False else if \<not> EC_set_pub E (CPubKey_bytes k) then False else True)"

definition CPubKey_Verify :: "ec_lib \<Rightarrow> CPubKey \<Rightarrow> uint256 \<Rightarrow> byte list \<Rightarrow> bool" where
  "CPubKey_Verify E k hash vchSig \<longleftrightarrow>
     (if \<not> CPubKey_IsValid k then False
      else if \<not> EC_set_pub E (CPubKey_bytes k) then False
      else if \<not> EC_verify E (CPubKey_bytes k) (u256_bytes hash) vchSig then False else True)"

definition CPubKey_Decompress :: "ec_lib \<Rightarrow> CPubKey \<Rightarrow> CPubKey option" where
  "CPubKey_Decompress E k =
     (if \<not> CPubKey_IsValid k then None
      else if \<not> EC_set_pub E (CPubKey_bytes k) then None
      else Some (CPubKey_Set (EC_decompress E (CPubKey_bytes k))))"

section \<open>CKey\<close>

record CKey =
  fValid :: bool
  fCompressed :: bool
  key_vch :: "byte list"

definition CKey_new :: CKey where
  "CKey_new = \<lparr>fValid = False, fCompressed = False, key_vch = replicate 32 0\<rparr>"

definition vchMax :: "byte list" where
  "vchMax =
     [0xFF, 0xFF, 0xFF, 0xFF, 0xFF, 0xFF, 0xFF, 0xFF, 0xFF, 0xFF, 0xFF, 0xFF, 0xFF, 0xFF, 0xFF, 0xFE,
      0xBA, 0xAE, 0xDC, 0xE6, 0xAF, 0x48, 0xA0, 0x3B, 0xBF, 0xD2, 0x5E, 0x8C, 0xD0, 0x36, 0x41, 0x40]"

fun CKey_Check_loop :: "byte list \<Rightarrow> byte list \<Rightarrow> bool" where
  "CKey_Check_loop (x # xs) (y # ys) =
     (if x < y then True else if x > y then False else CKey_Check_loop xs ys)"
| "CKey_Check_loop _ _ = True"

definition CKey_Check :: "byte list \<Rightarrow> bool" where
  "CKey_Check vch =
     (let fIsZero = list_all (\<lambda>b. b = 0) vch in
      if fIsZero then False else CKey_Check_loop vch vchMax)"

definition CKey_Set :: "byte list \<Rightarrow> bool \<Rightarrow> CKey \<Rightarrow> CKey" where
  "CKey_Set bytes fCompressedIn key =
     (if length bytes \<noteq> 32 then key\<lparr>fValid := False\<rparr>
      else if CKey_Check bytes then key\<lparr>key_vch := bytes, fValid := True, fCompressed := fCompressedIn\<rparr>
      else key\<lparr>fValid := False\<rparr>)"

definition CKey_bytes :: "CKey \<Rightarrow> byte list" where
  "CKey_bytes key = take (if fValid key then 32 else 0) (key_vch key)"

definition CKey_GetPubKey :: "ec_lib \<Rightarrow> CKey \<Rightarrow> CPubKey outcome" where
  "CKey_GetPubKey E key =
     (if fValid key then Some (CPubKey_Set (EC_pubkey E (key_vch key) (fCompressed key))) else None)"

definition CKey_Sign :: "ec_lib \<Rightarrow> CKey \<Rightarrow> uint256 \<Rightarrow> byte list option" where
  "CKey_Sign E key hash = (if \<not> fValid key then None else EC_sign E (key_vch key) (u256_bytes hash))"

section \<open>Encrypting secrets (crypter.cpp)\<close>

definition WALLET_CRYPTO_KEY_SIZE :: nat where "WALLET_CRYPTO_KEY_SIZE = 32"

record CCrypter =
  chKey :: "byte list"
  chIV :: "byte list"
  fKeySet :: bool

definition CCrypter_new :: CCrypter where
  "CCrypter_new = \<lparr>chKey = replicate 32 0, chIV = replicate 32 0, fKeySet = False\<rparr>"

definition CCrypter_SetKey :: "byte list \<Rightarrow> byte list \<Rightarrow> CCrypter \<Rightarrow> CCrypter option" where
  "CCrypter_SetKey chNewKey chNewIV c =
     (if length chNewKey \<noteq> WALLET_CRYPTO_KEY_SIZE \<or> length chNewIV \<noteq> WALLET_CRYPTO_KEY_SIZE then None
      else Some (c\<lparr>chKey := chNewKey, chIV := chNewIV, fKeySet := True\<rparr>))"

definition CCrypter_Encrypt :: "aes_lib \<Rightarrow> CCrypter \<Rightarrow> byte list \<Rightarrow> byte list option" where
  "CCrypter_Encrypt A c vchPlaintext =
     (if \<not> fKeySet c then None else AES_encrypt A (chKey c) (chIV c) vchPlaintext)"

definition CCrypter_Decrypt :: "aes_lib \<Rightarrow> CCrypter \<Rightarrow> byte list \<Rightarrow> byte list option" where
  "CCrypter_Decrypt A c vchCiphertext =
     (if \<not> fKeySet c then None else AES_decrypt A (chKey c) (chIV c) vchCiphertext)"

definition EncryptSecret :: "aes_lib \<Rightarrow> byte list \<Rightarrow> byte list \<Rightarrow> uint256 \<Rightarrow> byte list option" where
  "EncryptSecret A vMasterKey vchPlaintext nIV =
     (case CCrypter_SetKey vMasterKey (take WALLET_CRYPTO_KEY_SIZE (u256_bytes nIV)) CCrypter_new of
        None \<Rightarrow> None | Some c \<Rightarrow> CCrypter_Encrypt A c vchPlaintext)"

definition DecryptSecret :: "aes_lib \<Rightarrow> byte list \<Rightarrow> byte list \<Rightarrow> uint256 \<Rightarrow> byte list option" where
  "DecryptSecret A vMasterKey vchCiphertext nIV =
     (case CCrypter_SetKey vMasterKey (take WALLET_CRYPTO_KEY_SIZE (u256_bytes nIV)) CCrypter_new of
        None \<Rightarrow> None | Some c \<Rightarrow> CCrypter_Decrypt A c vchCiphertext)"

section \<open>The key stores\<close>

text \<open>
  The fields of CBasicKeyStore and of CCryptoKeyStore. The basic store uses the first two only.
\<close>

record keystore =
  mapKeys :: "(uint160 \<times> CKey) list"
  mapScripts :: "(uint160 \<times> script) list"
  mapCryptedKeys :: "(uint160 \<times> CPubKey \<times> byte list) list"
  vMasterKey :: "byte list"
  fUseCrypto :: bool

definition keystore_new :: keystore where
  "keystore_new = \<lparr>mapKeys = [], mapScripts = [], mapCryptedKeys = [], vMasterKey = [], fUseCrypto = False\<rparr>"

definition CScript_GetID :: "crypto \<Rightarrow> script \<Rightarrow> uint160" where
  "CScript_GetID C s = u160_of_bytes (Hash160 C s)"

definition Basic_AddKeyPubKey :: "crypto \<Rightarrow> CKey \<Rightarrow> CPubKey \<Rightarrow> keystore \<Rightarrow> keystore" where
  "Basic_AddKeyPubKey C key pubkey ks = ks\<lparr>mapKeys := sm_put (CPubKey_GetID C pubkey) key (mapKeys ks)\<rparr>"

definition Basic_HaveKey :: "keystore \<Rightarrow> uint160 \<Rightarrow> bool" where
  "Basic_HaveKey ks address \<longleftrightarrow> map_of (mapKeys ks) address \<noteq> None"

definition Basic_GetKeys :: "keystore \<Rightarrow> uint160 list" where
  "Basic_GetKeys ks = map fst (mapKeys ks)"

definition Basic_GetKey :: "keystore \<Rightarrow> uint160 \<Rightarrow> CKey option" where
  "Basic_GetKey ks address = map_of (mapKeys ks) address"

definition KeyStore_GetPubKey ::
  "ec_lib \<Rightarrow> (uint160 \<Rightarrow> CKey option) \<Rightarrow> uint160 \<Rightarrow> CPubKey option outcome" where
  "KeyStore_GetPubKey E GetKey address =
     (case GetKey address of None \<Rightarrow> Some None
      | Some key \<Rightarrow> map_option Some (CKey_GetPubKey E key))"

definition AddCScript :: "crypto \<Rightarrow> script \<Rightarrow> keystore \<Rightarrow> keystore" where
  "AddCScript C redeemScript ks =
     ks\<lparr>mapScripts := sm_put (CScript_GetID C redeemScript) redeemScript (mapScripts ks)\<rparr>"

definition HaveCScript :: "keystore \<Rightarrow> uint160 \<Rightarrow> bool" where
  "HaveCScript ks hash \<longleftrightarrow> map_of (mapScripts ks) hash \<noteq> None"

definition GetCScript :: "keystore \<Rightarrow> uint160 \<Rightarrow> script option" where
  "GetCScript ks hash = map_of (mapScripts ks) hash"

section \<open>CCryptoKeyStore\<close>

definition IsCrypted :: "keystore \<Rightarrow> bool" where "IsCrypted ks = fUseCrypto ks"

definition IsLocked :: "keystore \<Rightarrow> bool" where
  "IsLocked ks = (if \<not> IsCrypted ks then False else vMasterKey ks = [])"

text \<open>Operations return the bool of the source and the new state.\<close>

definition SetCrypted :: "keystore \<Rightarrow> bool \<times> keystore" where
  "SetCrypted ks =
     (if fUseCrypto ks then (True, ks)
      else if mapKeys ks \<noteq> [] then (False, ks)
      else (True, ks\<lparr>fUseCrypto := True\<rparr>))"

definition Lock :: "keystore \<Rightarrow> bool \<times> keystore" where
  "Lock ks = (case SetCrypted ks of (ok, ks1) \<Rightarrow>
     if \<not> ok then (False, ks1) else (True, ks1\<lparr>vMasterKey := []\<rparr>))"

text \<open>Unlock tries the master key on the first entry of the map only.\<close>

definition Unlock :: "crypto \<Rightarrow> ec_lib \<Rightarrow> aes_lib \<Rightarrow> byte list \<Rightarrow> keystore \<Rightarrow> (bool \<times> keystore) outcome" where
  "Unlock C E A vMasterKeyIn ks =
     (case SetCrypted ks of (ok, ks1) \<Rightarrow>
      if \<not> ok then Some (False, ks1)
      else case mapCryptedKeys ks1 of
        [] \<Rightarrow> Some (True, ks1\<lparr>vMasterKey := vMasterKeyIn\<rparr>)
      | (kid, vchPubKey, vchCryptedSecret) # _ \<Rightarrow>
          (case DecryptSecret A vMasterKeyIn vchCryptedSecret (CPubKey_GetHash C vchPubKey) of
             None \<Rightarrow> Some (False, ks1)
           | Some vchSecret \<Rightarrow>
               if length vchSecret \<noteq> 32 then Some (False, ks1)
               else (case CKey_GetPubKey E (CKey_Set vchSecret (CPubKey_IsCompressed vchPubKey) CKey_new) of
                       None \<Rightarrow> None
                     | Some pk \<Rightarrow>
                         if CPubKey_eq pk vchPubKey then Some (True, ks1\<lparr>vMasterKey := vMasterKeyIn\<rparr>)
                         else Some (False, ks1))))"

definition AddCryptedKey :: "crypto \<Rightarrow> CPubKey \<Rightarrow> byte list \<Rightarrow> keystore \<Rightarrow> bool \<times> keystore" where
  "AddCryptedKey C vchPubKey vchCryptedSecret ks =
     (case SetCrypted ks of (ok, ks1) \<Rightarrow>
      if \<not> ok then (False, ks1)
      else (True, ks1\<lparr>mapCryptedKeys :=
              sm_put (CPubKey_GetID C vchPubKey) (vchPubKey, vchCryptedSecret) (mapCryptedKeys ks1)\<rparr>))"

definition AddKeyPubKey :: "crypto \<Rightarrow> aes_lib \<Rightarrow> CKey \<Rightarrow> CPubKey \<Rightarrow> keystore \<Rightarrow> bool \<times> keystore" where
  "AddKeyPubKey C A key pubkey ks =
     (if \<not> IsCrypted ks then (True, Basic_AddKeyPubKey C key pubkey ks)
      else if IsLocked ks then (False, ks)
      else case EncryptSecret A (vMasterKey ks) (CKey_bytes key) (CPubKey_GetHash C pubkey) of
        None \<Rightarrow> (False, ks)
      | Some vchCryptedSecret \<Rightarrow> AddCryptedKey C pubkey vchCryptedSecret ks)"

definition HaveKey :: "keystore \<Rightarrow> uint160 \<Rightarrow> bool" where
  "HaveKey ks address \<longleftrightarrow>
     (if \<not> IsCrypted ks then Basic_HaveKey ks address else map_of (mapCryptedKeys ks) address \<noteq> None)"

definition GetKey :: "crypto \<Rightarrow> aes_lib \<Rightarrow> keystore \<Rightarrow> uint160 \<Rightarrow> CKey option" where
  "GetKey C A ks address =
     (if \<not> IsCrypted ks then Basic_GetKey ks address
      else case map_of (mapCryptedKeys ks) address of
        None \<Rightarrow> None
      | Some (vchPubKey, vchCryptedSecret) \<Rightarrow>
          (case DecryptSecret A (vMasterKey ks) vchCryptedSecret (CPubKey_GetHash C vchPubKey) of
             None \<Rightarrow> None
           | Some vchSecret \<Rightarrow>
               if length vchSecret \<noteq> 32 then None
               else Some (CKey_Set vchSecret (CPubKey_IsCompressed vchPubKey) CKey_new)))"

definition GetPubKey ::
  "crypto \<Rightarrow> ec_lib \<Rightarrow> aes_lib \<Rightarrow> keystore \<Rightarrow> uint160 \<Rightarrow> CPubKey option outcome" where
  "GetPubKey C E A ks address =
     (if \<not> IsCrypted ks then KeyStore_GetPubKey E (GetKey C A ks) address
      else Some (map_option fst (map_of (mapCryptedKeys ks) address)))"

definition GetKeys :: "keystore \<Rightarrow> uint160 list" where
  "GetKeys ks = (if \<not> IsCrypted ks then Basic_GetKeys ks else map fst (mapCryptedKeys ks))"

text \<open>The loop of EncryptKeys over mapKeys; the master key is the argument, not yet the state.\<close>

fun EncryptKeys_loop ::
  "crypto \<Rightarrow> ec_lib \<Rightarrow> aes_lib \<Rightarrow> byte list \<Rightarrow> (uint160 \<times> CKey) list \<Rightarrow> keystore \<Rightarrow> (bool \<times> keystore) outcome"
  where
  "EncryptKeys_loop C E A vMasterKeyIn [] ks = Some (True, ks)"
| "EncryptKeys_loop C E A vMasterKeyIn ((kid, key) # mKeys) ks =
     (case CKey_GetPubKey E key of
        None \<Rightarrow> None
      | Some vchPubKey \<Rightarrow>
          (case EncryptSecret A vMasterKeyIn (CKey_bytes key) (CPubKey_GetHash C vchPubKey) of
             None \<Rightarrow> Some (False, ks)
           | Some vchCryptedSecret \<Rightarrow>
               (case AddCryptedKey C vchPubKey vchCryptedSecret ks of (ok, ks1) \<Rightarrow>
                  if \<not> ok then Some (False, ks1)
                  else EncryptKeys_loop C E A vMasterKeyIn mKeys ks1)))"

definition EncryptKeys ::
  "crypto \<Rightarrow> ec_lib \<Rightarrow> aes_lib \<Rightarrow> byte list \<Rightarrow> keystore \<Rightarrow> (bool \<times> keystore) outcome" where
  "EncryptKeys C E A vMasterKeyIn ks =
     (if mapCryptedKeys ks \<noteq> [] \<or> IsCrypted ks then Some (False, ks)
      else case EncryptKeys_loop C E A vMasterKeyIn (mapKeys ks) (ks\<lparr>fUseCrypto := True\<rparr>) of
        None \<Rightarrow> None
      | Some (ok, ks1) \<Rightarrow> if \<not> ok then Some (False, ks1) else Some (True, ks1\<lparr>mapKeys := []\<rparr>))"

end
