(* ===== verification/KeyFacts.thy ===== *)
theory KeyFacts
  imports Keys
begin

text \<open>
  What the keys and the key stores guarantee: the range of secrets, the interface CKeyStore as a
  locale with the basic store as its interpretation (and the encrypting store, given the laws of the
  cipher, as an instance of its predicate), the invariant of CCryptoKeyStore over all sequences of its
  operations, and that encrypting, locking and unlocking loses no key.
\<close>

section \<open>Valid secrets\<close>

text \<open>The order of the group of secp256k1.\<close>

definition secp256k1_order :: nat where
  "secp256k1_order = 0xFFFFFFFFFFFFFFFFFFFFFFFFFFFFFFFEBAAEDCE6AF48A03BBFD25E8CD0364141"

lemma CKey_Check_loop_iff:
  "length xs = length ys \<Longrightarrow> CKey_Check_loop xs ys \<longleftrightarrow> le_val (rev xs) \<le> le_val (rev ys)"
proof (induction xs ys rule: list_induct2)
  case (Cons x xs y ys)
  define M where "M = (256 :: nat) ^ length xs"
  have b: "le_val (rev xs) < M" "le_val (rev ys) < M"
    using le_val_bound [of "rev xs"] le_val_bound [of "rev ys"] Cons.hyps by (simp_all add: M_def)
  have v: "le_val (rev (x # xs)) = le_val (rev xs) + M * unat x"
    "le_val (rev (y # ys)) = le_val (rev ys) + M * unat y"
    using Cons.hyps by (simp_all add: M_def)
  consider "x < y" | "y < x" | "x = y" by fastforce
  then show ?case
  proof cases
    case 1
    then have "unat x < unat y" by (simp add: word_less_nat_alt)
    from limb_less [OF b this] 1 show ?thesis unfolding v by simp
  next
    case 2
    then have "unat y < unat x" by (simp add: word_less_nat_alt)
    from limb_less [OF b(2,1) this] 2 show ?thesis unfolding v by simp
  next
    case 3
    then show ?thesis using Cons.IH unfolding v by simp
  qed
qed simp

lemma le_val_vchMax: "le_val (rev vchMax) = secp256k1_order - 1"
  by (simp add: vchMax_def secp256k1_order_def)

lemma le_val_rev_0: "le_val (rev bs) = 0 \<longleftrightarrow> list_all (\<lambda>b. b = 0) bs"
  by (induction bs) (auto simp: unsigned_eq_0_iff)

text \<open>
  A secret is accepted by CKey::Check exactly when, read as a big endian number, it lies strictly
  between 0 and the order of the curve's group.
\<close>

theorem CKey_Check_range:
  assumes "length vch = 32"
  shows "CKey_Check vch \<longleftrightarrow> 0 < le_val (rev vch) \<and> le_val (rev vch) < secp256k1_order"
proof -
  have "length vch = length vchMax" using assms by (simp add: vchMax_def)
  then have "CKey_Check_loop vch vchMax \<longleftrightarrow> le_val (rev vch) \<le> secp256k1_order - 1"
    using CKey_Check_loop_iff le_val_vchMax by simp
  moreover have "0 < secp256k1_order" by (simp add: secp256k1_order_def)
  ultimately show ?thesis using le_val_rev_0 [of vch] unfolding CKey_Check_def Let_def by auto
qed

theorem CKey_Check_range_witness: "CKey_Check vchMax \<and> \<not> CKey_Check (butlast vchMax @ [0x41])"
  using CKey_Check_range [of vchMax] CKey_Check_range [of "butlast vchMax @ [0x41]"]
  by (simp add: vchMax_def secp256k1_order_def)

section \<open>Assumptions on the libraries\<close>

text \<open>
  What is used of AES-256-CBC with a 32-byte key and a 32-byte array as initialisation vector
  (encryption succeeds, decryption inverts it), and of the encodings of public keys.
\<close>

definition aes_ok :: "aes_lib \<Rightarrow> bool" where
  "aes_ok A \<longleftrightarrow> (\<forall>k iv p. length k = 32 \<and> length iv = 32 \<longrightarrow>
     (\<exists>c. AES_encrypt A k iv p = Some c \<and> AES_decrypt A k iv c = Some p))"

definition ec_encodes :: "ec_lib \<Rightarrow> bool" where
  "ec_encodes E \<longleftrightarrow> (\<forall>s. length s = 32 \<longrightarrow>
     (\<exists>b r. EC_pubkey E s True = b # r \<and> (b = 2 \<or> b = 3) \<and> length r = 32) \<and>
     (\<exists>r. EC_pubkey E s False = 4 # r \<and> length r = 64))"

definition aes_plain :: aes_lib where
  "aes_plain = \<lparr>AES_encrypt = (\<lambda>k iv p. Some p), AES_decrypt = (\<lambda>k iv c. Some c)\<rparr>"

definition ec_plain :: ec_lib where
  "ec_plain = \<lparr>EC_pubkey = (\<lambda>s c. if c then 2 # s else 4 # s @ s), EC_set_pub = (\<lambda>k. True),
     EC_decompress = (\<lambda>k. k), EC_sign = (\<lambda>s h. Some (s @ h)),
     EC_verify = (\<lambda>k h sig. sig = take 32 (drop 1 k) @ h)\<rparr>"

lemma aes_plain: "aes_ok aes_plain"
  by (simp add: aes_ok_def aes_plain_def)

lemma ec_plain: "ec_encodes ec_plain"
  by (simp add: ec_encodes_def ec_plain_def)

section \<open>Keys and their public keys\<close>

definition good_key :: "CKey \<Rightarrow> bool" where
  "good_key key \<longleftrightarrow> fValid key \<and> length (key_vch key) = 32 \<and> CKey_Check (key_vch key)"

lemma CKey_Set_good: "good_key key \<Longrightarrow> CKey_Set (key_vch key) (fCompressed key) CKey_new = key"
  by (simp add: good_key_def CKey_Set_def)

lemma CKey_bytes_good [simp]: "good_key key \<Longrightarrow> CKey_bytes key = key_vch key"
  by (simp add: good_key_def CKey_bytes_def)

lemma CKey_GetPubKey_good:
  assumes "ec_encodes E" and "good_key key"
  obtains pubkey where "CKey_GetPubKey E key = Some pubkey" "CPubKey_IsValid pubkey"
    "CPubKey_IsCompressed pubkey = fCompressed key" "CPubKey_bytes pubkey = pubkey"
proof -
  let ?b = "EC_pubkey E (key_vch key) (fCompressed key)"
  have "CPubKey_Set ?b = ?b" "CPubKey_IsValid ?b" "CPubKey_IsCompressed ?b = fCompressed key"
    "CPubKey_bytes ?b = ?b"
    using assms by (cases "fCompressed key"; fastforce simp: ec_encodes_def good_key_def CPubKey_Set_def
      CPubKey_GetLen_def CPubKey_IsValid_def CPubKey_size_def CPubKey_IsCompressed_def CPubKey_bytes_def)+
  with assms(2) that show thesis by (auto simp: CKey_GetPubKey_def good_key_def)
qed

lemma CPubKey_eq_refl [simp]: "CPubKey_eq a a"
  by (simp add: CPubKey_eq_def)

lemma EncryptSecret_roundtrip:
  assumes "aes_ok A" and "length mk = 32"
  obtains ct where "EncryptSecret A mk p iv = Some ct" "DecryptSecret A mk ct iv = Some p"
proof -
  obtain ct where "AES_encrypt A mk (u256_bytes iv) p = Some ct" "AES_decrypt A mk (u256_bytes iv) ct = Some p"
    using assms length_u256_bytes [of iv] unfolding aes_ok_def by blast
  with that assms(2) show thesis
    by (simp add: EncryptSecret_def DecryptSecret_def CCrypter_SetKey_def CCrypter_Encrypt_def
      CCrypter_Decrypt_def WALLET_CRYPTO_KEY_SIZE_def CCrypter_new_def)
qed

section \<open>The interface of the key stores\<close>

locale key_store =
  fixes C :: crypto and E :: ec_lib
    and get :: "'st \<Rightarrow> uint160 \<Rightarrow> CKey option"
    and have_key :: "'st \<Rightarrow> uint160 \<Rightarrow> bool"
    and add :: "CKey \<Rightarrow> CPubKey \<Rightarrow> 'st \<Rightarrow> bool \<times> 'st"
    and ready :: "'st \<Rightarrow> bool"
  assumes add_ok: "ready st \<Longrightarrow> good_key key \<Longrightarrow> CKey_GetPubKey E key = Some pubkey \<Longrightarrow>
      \<exists>st'. add key pubkey st = (True, st') \<and> ready st' \<and> get st' = (get st)(CPubKey_GetID C pubkey \<mapsto> key)"
    and have_iff: "ready st \<Longrightarrow> have_key st a \<longleftrightarrow> get st a \<noteq> None"
begin

text \<open>Adding a list of keys, each under its own public key.\<close>

fun add_keys :: "CKey list \<Rightarrow> 'st \<Rightarrow> 'st" where
  "add_keys [] st = st"
| "add_keys (key # keys) st =
     (case CKey_GetPubKey E key of None \<Rightarrow> st | Some pubkey \<Rightarrow> add_keys keys (snd (add key pubkey st)))"

lemma add_keys_ready: "ready st \<Longrightarrow> \<forall>key \<in> set keys. good_key key \<Longrightarrow> ready (add_keys keys st)"
proof (induction keys arbitrary: st)
  case (Cons key keys)
  show ?case
  proof (cases "CKey_GetPubKey E key")
    case (Some pubkey)
    with add_ok [of st key pubkey] Cons show ?thesis by fastforce
  qed (use Cons in simp)
qed simp

lemma get_add_keys:
  assumes "ready st" and "\<forall>key \<in> set keys. good_key key" and "ec_encodes E"
    and "key \<in> set keys" and "CKey_GetPubKey E key = Some pubkey"
  shows "\<exists>key'. get (add_keys keys st) (CPubKey_GetID C pubkey) = Some key' \<and>
    have_key (add_keys keys st) (CPubKey_GetID C pubkey)"
proof -
  have mono: "get st a \<noteq> None \<Longrightarrow> ready st \<Longrightarrow> \<forall>key \<in> set keys. good_key key \<Longrightarrow> get (add_keys keys st) a \<noteq> None"
    for st a keys
  proof (induction keys arbitrary: st)
    case (Cons k keys)
    show ?case
    proof (cases "CKey_GetPubKey E k")
      case (Some p)
      with add_ok [of st k p] Cons obtain st' where "add k p st = (True, st')" "ready st'"
        "get st' = (get st)(CPubKey_GetID C p \<mapsto> k)" by auto
      with Cons Some show ?thesis by simp
    qed (use Cons in simp)
  qed simp
  have "get (add_keys keys st) (CPubKey_GetID C pubkey) \<noteq> None"
    using assms(1,2,4)
  proof (induction keys arbitrary: st)
    case (Cons k keys)
    obtain p where p: "CKey_GetPubKey E k = Some p"
      using CKey_GetPubKey_good [OF assms(3)] Cons.prems(2) by (metis list.set_intros(1))
    from add_ok [of st k p] Cons.prems p obtain st' where st': "add k p st = (True, st')" "ready st'"
      "get st' = (get st)(CPubKey_GetID C p \<mapsto> k)" by auto
    show ?case
    proof (cases "key = k")
      case True
      then have "get st' (CPubKey_GetID C pubkey) \<noteq> None" using p st' assms(5) by simp
      from mono [OF this st'(2)] Cons.prems p st' show ?thesis by simp
    next
      case False
      then show ?thesis using Cons.IH [OF st'(2)] Cons.prems p st' by simp
    qed
  qed simp
  moreover have "ready (add_keys keys st)" using assms by (simp add: add_keys_ready)
  ultimately show ?thesis using have_iff by auto
qed

end

text \<open>The basic store, and the encrypting store while it holds a master key.\<close>

interpretation basic_store: key_store C E Basic_GetKey Basic_HaveKey
  "\<lambda>key pubkey ks. (True, Basic_AddKeyPubKey C key pubkey ks)" "\<lambda>ks. True" for C E
  by unfold_locales (auto simp: Basic_GetKey_def Basic_HaveKey_def Basic_AddKeyPubKey_def)

definition crypt_ready :: "crypto \<Rightarrow> aes_lib \<Rightarrow> keystore \<Rightarrow> bool" where
  "crypt_ready C A ks \<longleftrightarrow> IsCrypted ks \<and> length (vMasterKey ks) = 32 \<and>
     (\<forall>a pubkey ct. map_of (mapCryptedKeys ks) a = Some (pubkey, ct) \<longrightarrow>
        (\<exists>s. DecryptSecret A (vMasterKey ks) ct (CPubKey_GetHash C pubkey) = Some s \<and> length s = 32))"

lemma crypt_key_store:
  assumes A: "aes_ok A" and E: "ec_encodes E"
  shows "key_store C E (GetKey C A) HaveKey (AddKeyPubKey C A) (crypt_ready C A)"
proof (unfold_locales, goal_cases)
  case (1 st key pubkey)
  then have st: "IsCrypted st" "length (vMasterKey st) = 32" by (simp_all add: crypt_ready_def)
  obtain ct where ct: "EncryptSecret A (vMasterKey st) (key_vch key) (CPubKey_GetHash C pubkey) = Some ct"
    "DecryptSecret A (vMasterKey st) ct (CPubKey_GetHash C pubkey) = Some (key_vch key)"
    using EncryptSecret_roundtrip [OF A st(2)] by metis
  define st' where "st' = st\<lparr>mapCryptedKeys :=
    sm_put (CPubKey_GetID C pubkey) (pubkey, ct) (mapCryptedKeys st)\<rparr>"
  have "AddKeyPubKey C A key pubkey st = (True, st')"
    using st 1 ct(1) by (auto simp: AddKeyPubKey_def IsLocked_def AddCryptedKey_def SetCrypted_def IsCrypted_def st'_def)
  moreover have "crypt_ready C A st'"
    using 1 ct(2) by (auto simp: crypt_ready_def st'_def IsCrypted_def good_key_def)
  moreover have "CPubKey_IsCompressed pubkey = fCompressed key"
    using CKey_GetPubKey_good [OF E 1(2)] 1(3) by force
  then have "GetKey C A st' = (GetKey C A st)(CPubKey_GetID C pubkey \<mapsto> key)"
    using st 1(2) ct(2) CKey_Set_good [OF 1(2)]
    by (intro ext) (simp add: GetKey_def Basic_GetKey_def IsCrypted_def st'_def good_key_def cong: option.case_cong)
  ultimately show ?case by blast
next
  case (2 st a)
  show ?case
  proof (cases "map_of (mapCryptedKeys st) a")
    case None
    with 2 show ?thesis by (simp add: crypt_ready_def HaveKey_def GetKey_def)
  next
    case (Some e)
    obtain pubkey ct where e: "e = (pubkey, ct)" by (cases e)
    from 2 Some obtain s where "DecryptSecret A (vMasterKey st) ct (CPubKey_GetHash C pubkey) = Some s"
      "length s = 32" "IsCrypted st" unfolding crypt_ready_def e by blast
    with Some show ?thesis by (simp add: HaveKey_def GetKey_def e)
  qed
qed

section \<open>The invariant of the encrypting store\<close>

definition keys_filed :: "crypto \<Rightarrow> ec_lib \<Rightarrow> (uint160 \<times> CKey) list \<Rightarrow> bool" where
  "keys_filed C E m \<longleftrightarrow> (\<forall>(kid, key) \<in> set m. good_key key \<and>
     (\<exists>pubkey. CKey_GetPubKey E key = Some pubkey \<and> kid = CPubKey_GetID C pubkey))"

definition keystore_inv :: "crypto \<Rightarrow> ec_lib \<Rightarrow> keystore \<Rightarrow> bool" where
  "keystore_inv C E ks \<longleftrightarrow>
     (fUseCrypto ks \<longrightarrow> mapKeys ks = []) \<and>
     (\<not> fUseCrypto ks \<longrightarrow> vMasterKey ks = [] \<and> mapCryptedKeys ks = []) \<and>
     sm_wf (mapKeys ks) \<and> sm_wf (mapCryptedKeys ks) \<and> sm_wf (mapScripts ks) \<and> keys_filed C E (mapKeys ks) \<and>
     (\<forall>(kid, pubkey, ct) \<in> set (mapCryptedKeys ks). kid = CPubKey_GetID C pubkey) \<and>
     (\<forall>(sid, s) \<in> set (mapScripts ks). sid = CScript_GetID C s)"

lemma keys_filed_Nil [simp]: "keys_filed C E []"
  by (simp add: keys_filed_def)

text \<open>The operations as steps; a step of EncryptKeys is one whose encryptions succeed.\<close>

inductive ks_step :: "crypto \<Rightarrow> ec_lib \<Rightarrow> aes_lib \<Rightarrow> keystore \<Rightarrow> keystore \<Rightarrow> bool"
  for C E A where
  add_key: "good_key key \<Longrightarrow> CKey_GetPubKey E key = Some pubkey \<Longrightarrow>
    ks_step C E A ks (snd (AddKeyPubKey C A key pubkey ks))"
| add_crypted: "ks_step C E A ks (snd (AddCryptedKey C pubkey ct ks))"
| add_script: "ks_step C E A ks (AddCScript C s ks)"
| lock: "ks_step C E A ks (snd (Lock ks))"
| unlock: "Unlock C E A mk ks = Some (ok, ks') \<Longrightarrow> ks_step C E A ks ks'"
| encrypt: "length mk = 32 \<Longrightarrow> EncryptKeys C E A mk ks = Some (ok, ks') \<Longrightarrow> ks_step C E A ks ks'"

lemma set_put_cases: "e \<in> set (sm_put k v m) \<Longrightarrow> e = (k, v) \<or> e \<in> set m"
  using set_sm_put_subset by fast

lemma keystore_inv_SetCrypted: "keystore_inv C E ks \<Longrightarrow> keystore_inv C E (snd (SetCrypted ks))"
  by (auto simp: SetCrypted_def keystore_inv_def)

lemma keystore_inv_AddCryptedKey:
  "keystore_inv C E ks \<Longrightarrow> keystore_inv C E (snd (AddCryptedKey C pubkey ct ks))"
  by (auto simp: AddCryptedKey_def SetCrypted_def keystore_inv_def dest!: set_put_cases)

lemma keystore_inv_AddKeyPubKey:
  assumes "keystore_inv C E ks" and "good_key key" and "CKey_GetPubKey E key = Some pubkey"
  shows "keystore_inv C E (snd (AddKeyPubKey C A key pubkey ks))"
proof (cases "IsCrypted ks")
  case True
  then show ?thesis using assms keystore_inv_AddCryptedKey
    by (auto simp: AddKeyPubKey_def split: option.split)
next
  case False
  then show ?thesis using assms
    by (auto simp: AddKeyPubKey_def Basic_AddKeyPubKey_def keystore_inv_def IsCrypted_def keys_filed_def
      dest!: set_put_cases)
qed

lemma keystore_inv_AddCScript: "keystore_inv C E ks \<Longrightarrow> keystore_inv C E (AddCScript C s ks)"
  by (auto simp: AddCScript_def keystore_inv_def dest!: set_put_cases)

lemma keystore_inv_Lock: "keystore_inv C E ks \<Longrightarrow> keystore_inv C E (snd (Lock ks))"
  by (auto simp: Lock_def SetCrypted_def keystore_inv_def)

lemma keystore_inv_Unlock:
  assumes "keystore_inv C E ks" and "Unlock C E A mk ks = Some (ok, ks')"
  shows "keystore_inv C E ks'"
proof -
  obtain ok1 ks1 where s: "SetCrypted ks = (ok1, ks1)" by (cases "SetCrypted ks")
  have inv: "keystore_inv C E ks1" using keystore_inv_SetCrypted [OF assms(1)] s by simp
  have "ok1 \<Longrightarrow> fUseCrypto ks1" using s by (auto simp: SetCrypted_def split: if_splits)
  with inv have upd: "ok1 \<Longrightarrow> keystore_inv C E (ks1\<lparr>vMasterKey := mk\<rparr>)" by (simp add: keystore_inv_def)
  show ?thesis using assms(2) inv upd
    by (auto simp: Unlock_def s split: if_splits list.splits option.splits)
qed

definition encrypts :: "crypto \<Rightarrow> ec_lib \<Rightarrow> aes_lib \<Rightarrow> byte list \<Rightarrow> uint160 \<Rightarrow> CKey \<Rightarrow> CPubKey \<times> byte list \<Rightarrow> bool"
  where
  "encrypts C E A mk kid key e \<longleftrightarrow> CKey_GetPubKey E key = Some (fst e) \<and> kid = CPubKey_GetID C (fst e) \<and>
     DecryptSecret A mk (snd e) (CPubKey_GetHash C (fst e)) = Some (key_vch key)"

abbreviation encrypted_as where
  "encrypted_as C E A mk m es \<equiv> list_all2 (\<lambda>(k, a) (k', b). k' = k \<and> encrypts C E A mk k a b) m es"

text \<open>The loop of EncryptKeys files every key of the list encrypted under its identifier.\<close>

lemma EncryptKeys_loop_ok:
  assumes "aes_ok A" "ec_encodes E" "length mk = 32" "keys_filed C E m" "fUseCrypto ks"
  shows "\<exists>es. EncryptKeys_loop C E A mk m ks =
      Some (True, ks\<lparr>mapCryptedKeys := sm.put_all es (mapCryptedKeys ks)\<rparr>) \<and>
    encrypted_as C E A mk m es"
  using assms(4,5)
proof (induction m arbitrary: ks)
  case Nil
  then show ?case by (intro exI [of _ "[]"]) (simp add: sm.put_all_def)
next
  case (Cons e m)
  obtain kid key where e: "e = (kid, key)" by (cases e)
  from Cons.prems obtain pubkey where key: "good_key key" "CKey_GetPubKey E key = Some pubkey"
    "kid = CPubKey_GetID C pubkey" and m: "keys_filed C E m"
    by (auto simp: keys_filed_def e)
  obtain ct where ct: "EncryptSecret A mk (key_vch key) (CPubKey_GetHash C pubkey) = Some ct"
    "DecryptSecret A mk ct (CPubKey_GetHash C pubkey) = Some (key_vch key)"
    using EncryptSecret_roundtrip [OF assms(1,3)] by metis
  define ks1 where "ks1 = ks\<lparr>mapCryptedKeys := sm_put kid (pubkey, ct) (mapCryptedKeys ks)\<rparr>"
  have "EncryptKeys_loop C E A mk (e # m) ks = EncryptKeys_loop C E A mk m ks1"
    using key ct(1) Cons.prems(2) by (simp add: e AddCryptedKey_def SetCrypted_def ks1_def)
  moreover from Cons.IH [OF m, of ks1] Cons.prems(2) obtain es where es:
    "EncryptKeys_loop C E A mk m ks1 = Some (True, ks1\<lparr>mapCryptedKeys := sm.put_all es (mapCryptedKeys ks1)\<rparr>)"
    "encrypted_as C E A mk m es"
    by (auto simp: ks1_def)
  ultimately show ?case using key ct(2)
    by (intro exI [of _ "(kid, pubkey, ct) # es"]) (simp add: e ks1_def sm.put_all_def encrypts_def)
qed


lemma EncryptKeys_ok:
  assumes "aes_ok A" "ec_encodes E" "length mk = 32" "keystore_inv C E ks" "\<not> IsCrypted ks"
  obtains es where "EncryptKeys C E A mk ks = Some (True,
      ks\<lparr>mapKeys := [], mapCryptedKeys := sm.put_all es [], fUseCrypto := True\<rparr>)"
    "encrypted_as C E A mk (mapKeys ks) es"
proof -
  have "mapCryptedKeys ks = []" "keys_filed C E (mapKeys ks)"
    using assms(4,5) by (auto simp: keystore_inv_def IsCrypted_def)
  with EncryptKeys_loop_ok [OF assms(1-3), of C "mapKeys ks" "ks\<lparr>fUseCrypto := True\<rparr>"]
  obtain es where es: "EncryptKeys_loop C E A mk (mapKeys ks) (ks\<lparr>fUseCrypto := True\<rparr>) =
      Some (True, ks\<lparr>fUseCrypto := True,
        mapCryptedKeys := sm.put_all es (mapCryptedKeys (ks\<lparr>fUseCrypto := True\<rparr>))\<rparr>)"
    "encrypted_as C E A mk (mapKeys ks) es" by auto
  show thesis
    by (rule that [OF _ es(2)])
      (use es(1) assms(5) \<open>mapCryptedKeys ks = []\<close> in \<open>simp add: EncryptKeys_def IsCrypted_def\<close>)
qed

lemma list_all2_map_of:
  assumes "list_all2 (\<lambda>(k, a) (k', b). k' = k \<and> R k a b) m es" and "distinct (map fst m)"
  shows "rel_option (R k) (map_of m k) (map_of (rev es) k)"
proof -
  have "map fst es = map fst m" using assms(1) by (induction rule: list_all2_induct) auto
  with assms(2) have d: "distinct (map fst es)" "distinct (map fst (rev es))"
    by (simp_all add: rev_map [symmetric])
  have "map_of (rev es) = map_of es" using map_of_inject_set [OF d(2,1)] by simp
  moreover have "rel_option (R k) (map_of m k) (map_of es k)"
    using assms(1) by (induction rule: list_all2_induct) auto
  ultimately show ?thesis by simp
qed

lemma keystore_inv_step:
  assumes "aes_ok A" "ec_encodes E" and "ks_step C E A ks ks'" and inv: "keystore_inv C E ks"
  shows "keystore_inv C E ks'"
  using assms(3)
proof (cases rule: ks_step.cases)
  case (add_key key pubkey)
  then show ?thesis using keystore_inv_AddKeyPubKey [OF inv] by simp
next
  case (encrypt mk ok)
  show ?thesis
  proof (cases "IsCrypted ks")
    case False
    obtain es where ok: "EncryptKeys C E A mk ks = Some (True,
        ks\<lparr>mapKeys := [], mapCryptedKeys := sm.put_all es [], fUseCrypto := True\<rparr>)"
      and es: "encrypted_as C E A mk (mapKeys ks) es"
      by (rule EncryptKeys_ok [OF assms(1,2) encrypt(1) inv False])
    have ks': "ks' = ks\<lparr>mapKeys := [], mapCryptedKeys := sm.put_all es [], fUseCrypto := True\<rparr>"
      using ok encrypt(2) by simp
    have wf: "sm_wf (sm.put_all es [])" by (simp add: sm.wf_put_all)
    have entry: "k = CPubKey_GetID C (fst v)" if "(k, v) \<in> set es" for k v
      using es that by (induction rule: list_all2_induct) (auto simp: encrypts_def)
    have "k = CPubKey_GetID C (fst v)" if "(k, v) \<in> set (sm.put_all es [])" for k v
    proof -
      have "map_of (rev es) k = Some v"
        using that sm_in_set_iff [OF wf, of k v] sm.get_put_all [of es "[]" k] by (auto split: option.splits)
      then show ?thesis using entry map_of_SomeD by fastforce
    qed
    then have "\<forall>(kid, pubkey, ct) \<in> set (sm.put_all es []). kid = CPubKey_GetID C pubkey"
      by fastforce
    with inv wf show ?thesis by (simp add: ks' keystore_inv_def)
  qed (use encrypt inv in \<open>simp add: EncryptKeys_def\<close>)
next
  case (add_crypted pubkey ct)
  then show ?thesis using keystore_inv_AddCryptedKey [OF inv] by simp
next
  case (add_script s)
  then show ?thesis using keystore_inv_AddCScript [OF inv] by simp
next
  case lock
  then show ?thesis using keystore_inv_Lock [OF inv] by simp
next
  case (unlock mk ok)
  then show ?thesis using keystore_inv_Unlock [OF inv] by simp
qed

text \<open>
  In every state of CCryptoKeyStore that its operations (adding keys and scripts, locking,
  unlocking, encrypting the keys) reach from the empty store, plain keys and encryption exclude each
  other as the header demands, a store without encryption holds no master key, and every entry of
  the three maps is filed under the identifier of its public key or script.
\<close>

theorem keystore_invariant:
  assumes "aes_ok A" and "ec_encodes E" and "(ks_step C E A)\<^sup>*\<^sup>* keystore_new ks"
  shows "keystore_inv C E ks"
  using assms(3)
proof (induction rule: rtranclp_induct)
  case base
  then show ?case by (simp add: keystore_inv_def keystore_new_def)
next
  case (step ks ks')
  then show ?case using keystore_inv_step [OF assms(1,2)] by blast
qed

theorem keystore_invariant_witness:
  "keystore_inv \<lparr>RIPEMD160 = id, SHA1 = id, SHA256 = id\<rparr> ec_plain
     (AddCScript \<lparr>RIPEMD160 = id, SHA1 = id, SHA256 = id\<rparr> [] keystore_new)"
  by (rule keystore_invariant [OF aes_plain ec_plain r_into_rtranclp]) (rule add_script)


section \<open>Encrypting, locking and unlocking\<close>

lemma GetKey_unlocked:
  assumes "encrypted_as C E A mk m es" and "sm_wf m" and "ec_encodes E" and "keys_filed C E m"
    and "map_of (mapCryptedKeys ks) = map_of (rev es)" and "IsCrypted ks" and "vMasterKey ks = mk"
  shows "GetKey C A ks a = map_of m a"
proof -
  have rel: "rel_option (encrypts C E A mk a) (map_of m a) (map_of (rev es) a)"
    by (rule list_all2_map_of [OF assms(1) sm_wf_distinct [OF assms(2)]])
  show ?thesis
  proof (cases "map_of m a")
    case None
    with rel assms show ?thesis by (simp add: GetKey_def)
  next
    case (Some key)
    then have key: "good_key key" using assms(4) map_of_SomeD by (fastforce simp: keys_filed_def)
    obtain e where e: "map_of (rev es) a = Some e" "encrypts C E A mk a key e"
      using rel Some by (auto simp: option_rel_Some1)
    then have d: "DecryptSecret A mk (snd e) (CPubKey_GetHash C (fst e)) = Some (key_vch key)"
      and pk: "CKey_GetPubKey E key = Some (fst e)" by (simp_all add: encrypts_def)
    have "CPubKey_IsCompressed (fst e) = fCompressed key"
      using CKey_GetPubKey_good [OF assms(3) key] pk by force
    then show ?thesis using Some e(1) d assms(5-7) key CKey_Set_good [OF key]
      by (simp add: GetKey_def good_key_def case_prod_beta)
  qed
qed

lemma Unlock_encrypted:
  assumes "mapCryptedKeys ks = [] \<or> (\<exists>kid pk ct key. (kid, pk, ct) = hd (mapCryptedKeys ks) \<and>
      good_key key \<and> encrypts C E A mk kid key (pk, ct))"
    and "fUseCrypto ks" and "ec_encodes E"
  shows "Unlock C E A mk ks = Some (True, ks\<lparr>vMasterKey := mk\<rparr>)"
proof (cases "mapCryptedKeys ks")
  case Nil
  then show ?thesis using assms(2) by (simp add: Unlock_def SetCrypted_def)
next
  case (Cons e m)
  with assms(1) obtain kid pk ct key where e: "e = (kid, pk, ct)" and key: "good_key key"
    and enc: "encrypts C E A mk kid key (pk, ct)" by auto
  have "CPubKey_IsCompressed pk = fCompressed key"
    using CKey_GetPubKey_good [OF assms(3) key] enc by (force simp: encrypts_def)
  with Cons e enc key CKey_Set_good [OF key] assms(2) show ?thesis
    by (simp add: Unlock_def SetCrypted_def encrypts_def good_key_def)
qed

text \<open>
  C39: Encrypting a key store and unlocking it again gives every key back: EncryptKeys succeeds on a
  store that is not encrypted, leaves no plain key and a locked store, Unlock with the same master
  key then succeeds, GetKey finds under every identifier the key that was there before, and Lock
  forgets the master key again.
\<close>

theorem encrypt_unlock_roundtrip:
  assumes "aes_ok A" and "ec_encodes E" and "length mk = 32"
    and "keystore_inv C E ks" and "\<not> IsCrypted ks"
  shows "\<exists>ks1 ks2. EncryptKeys C E A mk ks = Some (True, ks1) \<and> mapKeys ks1 = [] \<and> IsLocked ks1
    \<and> Unlock C E A mk ks1 = Some (True, ks2) \<and> (\<forall>a. GetKey C A ks2 a = GetKey C A ks a)
    \<and> (\<forall>a. HaveKey ks2 a = HaveKey ks a) \<and> Lock ks2 = (True, ks1)"
proof -
  obtain es where es: "EncryptKeys C E A mk ks = Some (True,
      ks\<lparr>mapKeys := [], mapCryptedKeys := sm.put_all es [], fUseCrypto := True\<rparr>)"
    "encrypted_as C E A mk (mapKeys ks) es"
    by (rule EncryptKeys_ok [OF assms])
  define ks1 where "ks1 = ks\<lparr>mapKeys := [], mapCryptedKeys := sm.put_all es [], fUseCrypto := True\<rparr>"
  define ks2 where "ks2 = ks1\<lparr>vMasterKey := mk\<rparr>"
  have inv: "sm_wf (mapKeys ks)" "keys_filed C E (mapKeys ks)" "vMasterKey ks = []"
    using assms(4,5) by (auto simp: keystore_inv_def IsCrypted_def)
  have look: "map_of (mapCryptedKeys ks1) = map_of (rev es)"
    by (intro ext) (simp add: ks1_def sm.get_put_all split: option.split)
  have rel: "rel_option (encrypts C E A mk a) (map_of (mapKeys ks) a) (map_of (mapCryptedKeys ks1) a)" for a
    unfolding look by (rule list_all2_map_of [OF es(2) sm_wf_distinct [OF inv(1)]])
  have get: "GetKey C A ks2 a = GetKey C A ks a" for a
    using GetKey_unlocked [OF es(2) inv(1) assms(2) inv(2), of ks2 a] look assms(5)
    by (simp add: ks2_def GetKey_def [of C A ks] Basic_GetKey_def) (simp add: ks1_def IsCrypted_def)
  have "HaveKey ks2 a = HaveKey ks a" for a
    using rel [of a] assms(5)
    by (auto simp: HaveKey_def Basic_HaveKey_def ks2_def ks1_def IsCrypted_def option_rel_Some1
      elim!: option.rel_cases)
  moreover have "Unlock C E A mk ks1 = Some (True, ks2)"
    unfolding ks2_def
  proof (rule Unlock_encrypted)
    show "mapCryptedKeys ks1 = [] \<or> (\<exists>kid pk ct key. (kid, pk, ct) = hd (mapCryptedKeys ks1) \<and>
      good_key key \<and> encrypts C E A mk kid key (pk, ct))"
    proof (cases "mapCryptedKeys ks1")
      case (Cons e m)
      obtain kid v where e: "e = (kid, v)" by (cases e)
      then have "map_of (mapCryptedKeys ks1) kid = Some v" using Cons by simp
      with rel [of kid] obtain key where "map_of (mapKeys ks) kid = Some key" "encrypts C E A mk kid key v"
        by (auto simp: option_rel_Some2)
      moreover from this(1) inv(2) have "good_key key" by (auto simp: keys_filed_def dest!: map_of_SomeD)
      ultimately show ?thesis using Cons e by (cases v) auto
    qed simp
  qed (simp_all add: ks1_def assms(2))
  ultimately show ?thesis
    using es(1) get inv(3)
    by (intro exI [of _ ks1] exI [of _ ks2])
      (simp add: ks1_def ks2_def IsLocked_def IsCrypted_def Lock_def SetCrypted_def)
qed

definition one_key :: CKey where
  "one_key = \<lparr>fValid = True, fCompressed = True, key_vch = vchMax\<rparr>"

theorem encrypt_unlock_roundtrip_witness:
  defines "C \<equiv> \<lparr>RIPEMD160 = id, SHA1 = id, SHA256 = id\<rparr>"
  shows "\<exists>ks1 ks2. EncryptKeys C ec_plain aes_plain vchMax
      (Basic_AddKeyPubKey C one_key (2 # vchMax) keystore_new) = Some (True, ks1)
    \<and> Unlock C ec_plain aes_plain vchMax ks1 = Some (True, ks2)
    \<and> (\<forall>a. GetKey C aes_plain ks2 a =
        GetKey C aes_plain (Basic_AddKeyPubKey C one_key (2 # vchMax) keystore_new) a)"
proof -
  have len: "length vchMax = 32" by (simp add: vchMax_def)
  have chk: "CKey_Check vchMax" by (simp add: vchMax_def CKey_Check_def)
  have pub: "CKey_GetPubKey ec_plain one_key = Some (2 # vchMax)"
    by (simp add: CKey_GetPubKey_def one_key_def ec_plain_def CPubKey_Set_def CPubKey_GetLen_def len)
  have good: "good_key one_key" by (simp add: good_key_def one_key_def len chk)
  have inv: "keystore_inv C ec_plain (Basic_AddKeyPubKey C one_key (2 # vchMax) keystore_new)"
    using pub good
    by (simp add: keystore_inv_def Basic_AddKeyPubKey_def keystore_new_def keys_filed_def)
  have "\<not> IsCrypted (Basic_AddKeyPubKey C one_key (2 # vchMax) keystore_new)"
    by (simp add: IsCrypted_def Basic_AddKeyPubKey_def keystore_new_def)
  from encrypt_unlock_roundtrip [OF aes_plain ec_plain len inv this] show ?thesis by blast
qed

end
