(* ===== verification/Signature.thy ===== *)
theory Signature
  imports Transaction KeyFacts Checker "HOL-Library.Product_Lexorder" "HOL-Library.List_Lexorder"
begin

text \<open>
  script.cpp: what a signature signs (SignatureHash), the cache of valid signatures (CSignatureCache) and
  the signature check of the script interpreter (CheckSig). The random hash that picks the entry to evict
  is the next element of a sequence, an argument.
\<close>

section \<open>The signature hash\<close>

text \<open>The other inputs give up their sequence numbers.\<close>

definition free_sequences :: "nat \<Rightarrow> CTxIn list \<Rightarrow> CTxIn list" where
  "free_sequences nIn ins = map (\<lambda>i. if i \<noteq> nIn then (ins ! i)\<lparr>nSequence := 0\<rparr> else ins ! i) [0..<length ins]"

text \<open>The transaction that is hashed; None where the hash is the number one.\<close>

definition sighash_tx :: "script \<Rightarrow> CTransaction \<Rightarrow> nat \<Rightarrow> int \<Rightarrow> CTransaction option" where
  "sighash_tx scriptCode txTo nIn nHashType =
     (if nIn \<ge> length (vin txTo) then None
      else let scriptCode = fst (FindAndDelete scriptCode [word_of_nat OP_CODESEPARATOR]);
               ins = map (\<lambda>i. i\<lparr>scriptSig := []\<rparr>) (vin txTo);
               ins = ins[nIn := (ins ! nIn)\<lparr>scriptSig := scriptCode\<rparr>];
               txTmp = txTo\<lparr>vin := ins\<rparr>
      in case (if and nHashType 0x1f = int SIGHASH_NONE
               then Some (txTmp\<lparr>vout := [], vin := free_sequences nIn ins\<rparr>)
               else if and nHashType 0x1f = int SIGHASH_SINGLE
               then (if nIn \<ge> length (vout txTmp) then None
                     else Some (txTmp\<lparr>vout := replicate nIn CTxOut_null @ [vout txTmp ! nIn],
                       vin := free_sequences nIn ins\<rparr>))
               else Some txTmp) of
           None \<Rightarrow> None
         | Some txTmp \<Rightarrow> Some (if and nHashType (int SIGHASH_ANYONECANPAY) \<noteq> 0
             then txTmp\<lparr>vin := [vin txTmp ! nIn]\<rparr> else txTmp))"

definition SignatureHash :: "crypto \<Rightarrow> script \<Rightarrow> CTransaction \<Rightarrow> nat \<Rightarrow> int \<Rightarrow> uint256" where
  "SignatureHash C scriptCode txTo nIn nHashType =
     (case sighash_tx scriptCode txTo nIn nHashType of None \<Rightarrow> 1
      | Some txTmp \<Rightarrow> u256_of_bytes (Hash_bytes C (ser_tx txTmp @ ser_int nHashType)))"

section \<open>The signature cache\<close>

type_synonym sigdata = "uint256 \<times> byte list \<times> CPubKey"

record CSignatureCache =
  setValid :: "(sigdata \<times> unit) list"
  rand_used :: nat

definition sigcache_Get :: "CSignatureCache \<Rightarrow> sigdata \<Rightarrow> bool" where
  "sigcache_Get c k \<longleftrightarrow> map_of (setValid c) k \<noteq> None"

lemma length_sm_erase: "e \<in> set m \<Longrightarrow> length (sm_erase (fst e) m) < length m"
  unfolding sm_erase_def by (rule length_filter_less) auto

lemma evict_entry:
  assumes "m \<noteq> []"
  shows "(case sm_lower_bound k m of [] \<Rightarrow> hd m | e # _ \<Rightarrow> e) \<in> set m"
  using assms by (auto simp: sm_lower_bound_def split: list.split dest!: arg_cong [where f = set] set_dropWhileD)

text \<open>The eviction loop; the set is not empty in it, because the limit is positive.\<close>

function sigcache_evict :: "(nat \<Rightarrow> uint256) \<Rightarrow> int \<Rightarrow> CSignatureCache \<Rightarrow> CSignatureCache" where
  "sigcache_evict rand nMaxCacheSize c =
     (if int (length (setValid c)) > nMaxCacheSize \<and> setValid c \<noteq> []
      then let it = (case sm_lower_bound (rand (rand_used c), [], CPubKey_invalid) (setValid c) of
                       [] \<Rightarrow> hd (setValid c) | e # _ \<Rightarrow> e)
        in sigcache_evict rand nMaxCacheSize \<lparr>setValid = sm_erase (fst it) (setValid c), rand_used = Suc (rand_used c)\<rparr>
      else c)"
  by pat_completeness auto

termination
  by (relation "measure (\<lambda>(rand, n, c). length (setValid c))") (auto simp: length_sm_erase evict_entry)

declare sigcache_evict.simps [simp del]

definition sigcache_Set :: "(nat \<Rightarrow> uint256) \<Rightarrow> int \<Rightarrow> sigdata \<Rightarrow> CSignatureCache \<Rightarrow> CSignatureCache" where
  "sigcache_Set rand nMaxCacheSize k c =
     (if nMaxCacheSize \<le> 0 then c
      else let c = sigcache_evict rand nMaxCacheSize c in c\<lparr>setValid := sm_put k () (setValid c)\<rparr>)"

section \<open>CheckSig\<close>

definition CheckSig ::
  "crypto \<Rightarrow> ec_lib \<Rightarrow> (nat \<Rightarrow> uint256) \<Rightarrow> int \<Rightarrow> CTransaction \<Rightarrow> nat \<Rightarrow> int \<Rightarrow> u32 \<Rightarrow> CSignatureCache checker" where
  "CheckSig C E rand nMaxCacheSize txTo nIn nHashType flags vchSig vchPubKey scriptCode c =
     (let pubkey = CPubKey_Set vchPubKey in
      if \<not> CPubKey_IsValid pubkey then (False, c)
      else if vchSig = [] then (False, c)
      else if nHashType \<noteq> 0 \<and> nHashType \<noteq> uint (last vchSig) then (False, c)
      else let nHashType = (if nHashType = 0 then uint (last vchSig) else nHashType);
               vchSig = butlast vchSig;
               sighash = SignatureHash C scriptCode txTo nIn nHashType
      in if sigcache_Get c (sighash, vchSig, pubkey) then (True, c)
         else if \<not> CPubKey_Verify E pubkey sighash vchSig then (False, c)
         else (True, if flags AND SCRIPT_VERIFY_NOCACHE = 0
               then sigcache_Set rand nMaxCacheSize (sighash, vchSig, pubkey) c else c))"

section \<open>The cache never changes an answer\<close>

definition sigcache_empty :: CSignatureCache where
  "sigcache_empty = \<lparr>setValid = [], rand_used = 0\<rparr>"

text \<open>
  Every entry is a signature that verifies, and there is at most one entry more than the limit: Set evicts
  while there are more entries than the limit and inserts afterwards. A limit of zero and less means no cache.
\<close>

definition sigcache_sound :: "ec_lib \<Rightarrow> int \<Rightarrow> CSignatureCache \<Rightarrow> bool" where
  "sigcache_sound E nMaxCacheSize c \<longleftrightarrow>
     list_all (\<lambda>((h, s, p), _). CPubKey_Verify E p h s) (setValid c) \<and> sm_wf (setValid c) \<and>
     int (length (setValid c)) \<le> (if 0 < nMaxCacheSize then nMaxCacheSize + 1 else 0)"

lemma sigcache_evict_facts:
  "0 < n \<Longrightarrow> sigcache_sound E n c \<Longrightarrow>
    sigcache_sound E n (sigcache_evict rand n c) \<and> int (length (setValid (sigcache_evict rand n c))) \<le> n"
proof (induction rand n c rule: sigcache_evict.induct)
  case (1 rand n c)
  show ?case
  proof (cases "int (length (setValid c)) > n \<and> setValid c \<noteq> []")
    case True
    define e where "e = (case sm_lower_bound (rand (rand_used c), [], CPubKey_invalid) (setValid c) of
      [] \<Rightarrow> hd (setValid c) | e # _ \<Rightarrow> e)"
    define c' where "c' = \<lparr>setValid = sm_erase (fst e) (setValid c), rand_used = Suc (rand_used c)\<rparr>"
    have "length (sm_erase (fst e) (setValid c)) < length (setValid c)"
      unfolding e_def using True by (intro length_sm_erase evict_entry) simp
    then have "sigcache_sound E n c'"
      using 1(3) sm_wf_erase [of "setValid c" "fst e"]
      by (auto simp: sigcache_sound_def c'_def list_all_iff) (auto simp: sm_erase_def)
    from "1.IH" [OF True e_def, folded c'_def, OF 1(2) this] True show ?thesis
      by (simp add: sigcache_evict.simps [of rand n c] Let_def e_def [symmetric] c'_def [symmetric])
  next
    case False
    then show ?thesis using 1(2,3) by (auto simp: sigcache_evict.simps [of rand n c])
  qed
qed

lemma length_sm_put: "length (sm_put k v m) \<le> Suc (length m)"
  by (induction k v m rule: sm_put.induct) auto

lemma sigcache_Set_sound:
  assumes "sigcache_sound E n c" and "CPubKey_Verify E p h s"
  shows "sigcache_sound E n (sigcache_Set rand n (h, s, p) c)"
proof (cases "n \<le> 0")
  case False
  define c' where "c' = sigcache_evict rand n c"
  have c': "sigcache_sound E n c'" "int (length (setValid c')) \<le> n"
    using sigcache_evict_facts [of n E c rand] assms(1) False by (simp_all add: c'_def)
  have "list_all (\<lambda>((h, s, p), _). CPubKey_Verify E p h s) (sm_put (h, s, p) () (setValid c'))"
    using c'(1) assms(2) set_sm_put_subset [of "(h, s, p)" "()" "setValid c'"]
    by (auto simp: sigcache_sound_def list_all_iff)
  moreover have "sm_wf (sm_put (h, s, p) () (setValid c'))" using c'(1) by (auto simp: sigcache_sound_def)
  moreover have "int (length (sm_put (h, s, p) () (setValid c'))) \<le> n + 1"
    using length_sm_put [of "(h, s, p)" "()" "setValid c'"] c'(2) by linarith
  ultimately show ?thesis using False by (simp add: sigcache_Set_def sigcache_sound_def c'_def [symmetric] Let_def)
qed (use assms in \<open>simp add: sigcache_Set_def\<close>)

text \<open>The limit is exceeded by one: with a limit of one entry a second signature is kept beside the first.\<close>

lemma sigcache_exceeds_limit:
  "length (setValid (sigcache_Set rand 1 (1, s, p) (sigcache_Set rand 1 (0, s, p) sigcache_empty))) = 2"
  by (simp add: sigcache_Set_def sigcache_evict.simps sigcache_empty_def)

section \<open>CheckSig keeps the contract of a checker\<close>

text \<open>What a signature check decides, without a cache.\<close>

definition signature_ok ::
  "crypto \<Rightarrow> ec_lib \<Rightarrow> CTransaction \<Rightarrow> nat \<Rightarrow> int \<Rightarrow> valtype \<Rightarrow> valtype \<Rightarrow> script \<Rightarrow> bool" where
  "signature_ok C E txTo nIn nHashType vchSig vchPubKey scriptCode \<longleftrightarrow>
     CPubKey_IsValid (CPubKey_Set vchPubKey) \<and> vchSig \<noteq> [] \<and> (nHashType = 0 \<or> nHashType = uint (last vchSig))
     \<and> CPubKey_Verify E (CPubKey_Set vchPubKey) (SignatureHash C scriptCode txTo nIn (uint (last vchSig))) (butlast vchSig)"

lemma CheckSig_sound:
  assumes "sigcache_sound E n c"
  shows "fst (CheckSig C E rand n txTo nIn nHashType flags vchSig vchPubKey scriptCode c) =
      signature_ok C E txTo nIn nHashType vchSig vchPubKey scriptCode"
    and "sigcache_sound E n (snd (CheckSig C E rand n txTo nIn nHashType flags vchSig vchPubKey scriptCode c))"
proof -
  have hit: "CPubKey_Verify E p h s" if "sigcache_Get c (h, s, p)" for h s p
    using that assms by (auto simp: sigcache_Get_def sigcache_sound_def list_all_iff dest!: map_of_SomeD)
  then show "fst (CheckSig C E rand n txTo nIn nHashType flags vchSig vchPubKey scriptCode c) =
      signature_ok C E txTo nIn nHashType vchSig vchPubKey scriptCode"
    by (auto simp: CheckSig_def signature_ok_def Let_def)
  show "sigcache_sound E n (snd (CheckSig C E rand n txTo nIn nHashType flags vchSig vchPubKey scriptCode c))"
    using assms by (auto simp: CheckSig_def Let_def sigcache_Set_sound)
qed

interpretation sig: checker_contract "CheckSig C E rand n txTo nIn nHashType flags" "signature_ok C E txTo nIn nHashType"
  "sigcache_sound E n" for C E rand n txTo nIn nHashType flags
  by unfold_locales (rule CheckSig_sound; assumption)+

lemma sigcache_empty_sound [simp]: "sigcache_sound E n sigcache_empty"
  by (simp add: sigcache_sound_def sigcache_empty_def)

text \<open>
  C11: the signature cache is only a cache. While every entry of it is a signature that verifies, CheckSig
  answers what it would answer with an empty cache, for every signature, key, script, transaction and
  flags and whatever entries are evicted. It leaves the cache sound and within one entry above the limit of
  -maxsigcachesize: Set evicts only while there are more entries than the limit and then inserts one.
\<close>

theorem signature_cache_transparent:
  assumes "sigcache_sound E nMaxCacheSize c"
  shows "fst (CheckSig C E rand nMaxCacheSize txTo nIn nHashType flags vchSig vchPubKey scriptCode c) =
      fst (CheckSig C E rand nMaxCacheSize txTo nIn nHashType flags vchSig vchPubKey scriptCode sigcache_empty)
    \<and> sigcache_sound E nMaxCacheSize
        (snd (CheckSig C E rand nMaxCacheSize txTo nIn nHashType flags vchSig vchPubKey scriptCode c))"
  using CheckSig_sound [OF assms] CheckSig_sound(1) [OF sigcache_empty_sound] by simp

definition sighash_crypto :: crypto where
  "sighash_crypto = \<lparr>RIPEMD160 = id, SHA1 = id, SHA256 = id\<rparr>"

theorem signature_cache_transparent_witness:
  "fst (CheckSig sighash_crypto ec_plain (\<lambda>k. 3) 1 sample_tx 0 0 0 [7, 1] [2] [0x51]
      \<lparr>setValid = [], rand_used = 5\<rparr>) =
    fst (CheckSig sighash_crypto ec_plain (\<lambda>k. 3) 1 sample_tx 0 0 0 [7, 1] [2] [0x51] sigcache_empty)"
  using signature_cache_transparent [of ec_plain 1 "\<lparr>setValid = [], rand_used = 5\<rparr>" sighash_crypto
    "\<lambda>k. 3" sample_tx 0 0 0 "[7, 1]" "[2]" "[0x51]"]
  by (simp add: sigcache_sound_def)

section \<open>What SIGHASH_ALL commits to\<close>

definition hash_collides :: "crypto \<Rightarrow> byte list \<Rightarrow> byte list \<Rightarrow> bool" where
  "hash_collides C a b \<longleftrightarrow> a \<noteq> b \<and> u256_of_bytes (Hash_bytes C a) = u256_of_bytes (Hash_bytes C b)"

lemma sighash_tx_all:
  assumes "sighash_tx code tx n h = Some t"
    and "and h 0x1f \<noteq> int SIGHASH_NONE" "and h 0x1f \<noteq> int SIGHASH_SINGLE" "and h (int SIGHASH_ANYONECANPAY) = 0"
  shows "n < length (vin tx)" and "t = tx\<lparr>vin := (map (\<lambda>i. i\<lparr>scriptSig := []\<rparr>) (vin tx))[n :=
      (vin tx ! n)\<lparr>scriptSig := fst (FindAndDelete code [word_of_nat OP_CODESEPARATOR])\<rparr>]\<rparr>"
  using assms by (auto simp: sighash_tx_def Let_def split: if_splits)

lemma sighash_scripts:
  "n < length ins \<Longrightarrow> map scriptSig ((map (\<lambda>i. i\<lparr>scriptSig := []\<rparr>) ins)[n := (ins ! n)\<lparr>scriptSig := c\<rparr>]) =
    (replicate (length ins) [])[n := c]"
  by (simp add: map_update comp_def map_replicate_const)

lemma sighash_inputs:
  "map prevout ((map (\<lambda>i. i\<lparr>scriptSig := []\<rparr>) ins)[n := (ins ! n)\<lparr>scriptSig := c\<rparr>]) = map prevout ins"
  "map nSequence ((map (\<lambda>i. i\<lparr>scriptSig := []\<rparr>) ins)[n := (ins ! n)\<lparr>scriptSig := c\<rparr>]) = map nSequence ins"
  by (cases "n < length ins"; rule nth_equalityI; auto simp: nth_list_update list_update_beyond)+

lemma one_script:
  assumes "(replicate k [])[n := c] = (replicate k [])[n' := c']" "n < k" "n' < k" "c \<noteq> []"
  shows "n = n' \<and> c = c'"
proof -
  have "(replicate k [])[n' := c'] ! n = c" using assms(1,2) by (metis length_replicate nth_list_update_eq)
  then show ?thesis using assms(2-4) by (auto simp: nth_list_update split: if_splits)
qed

text \<open>
  C12: a signature of the default kind commits to the whole transaction. If two signature hashes are equal
  and the first is of a type other than NONE, SINGLE and ANYONECANPAY, then both sign the same version, lock
  time, outputs, previous outputs and sequence numbers, with the same hash type, for the same input and
  script - or else the two messages that were hashed, as they are serialized, differ and have the same double
  SHA-256.
\<close>

theorem sighash_all_commits:
  assumes "SignatureHash C code tx n h = SignatureHash C code' tx' n' h'"
    and "sighash_tx code tx n h = Some t" and "sighash_tx code' tx' n' h' = Some t'"
    and "tx_ok t" and "tx_ok t'" and "int32_range h" and "int32_range h'"
    and "and h 0x1f \<noteq> int SIGHASH_NONE" "and h 0x1f \<noteq> int SIGHASH_SINGLE" "and h (int SIGHASH_ANYONECANPAY) = 0"
    and "fst (FindAndDelete code [word_of_nat OP_CODESEPARATOR]) \<noteq> []"
  shows "hash_collides C (ser_tx t @ ser_int h) (ser_tx t' @ ser_int h') \<or>
    (h = h' \<and> nVersion tx = nVersion tx' \<and> nLockTime tx = nLockTime tx' \<and> vout tx = vout tx'
     \<and> map prevout (vin tx) = map prevout (vin tx') \<and> map nSequence (vin tx) = map nSequence (vin tx') \<and> n = n'
     \<and> fst (FindAndDelete code [word_of_nat OP_CODESEPARATOR]) = fst (FindAndDelete code' [word_of_nat OP_CODESEPARATOR]))"
proof (cases "hash_collides C (ser_tx t @ ser_int h) (ser_tx t' @ ser_int h')")
  case False
  then have "ser_tx t @ ser_int h = ser_tx t' @ ser_int h'"
    using assms(1-3) by (auto simp: hash_collides_def SignatureHash_def)
  then have t: "t = t'" and "ser_int h = ser_int h'" using tx.prefix_free [OF assms(4,5)] by blast+
  then have h: "h = h'" using int32.prefix_free [OF assms(6,7), of "[]" "[]"] by simp
  note T = sighash_tx_all [OF assms(2,8,9,10)]
  note T' = sighash_tx_all [OF assms(3) assms(8-10) [unfolded h]]
  let ?c = "fst (FindAndDelete code [word_of_nat OP_CODESEPARATOR])"
  let ?c' = "fst (FindAndDelete code' [word_of_nat OP_CODESEPARATOR])"
  have head: "nVersion tx = nVersion tx'" "nLockTime tx = nLockTime tx'" "vout tx = vout tx'"
    using arg_cong [OF t, of nVersion] arg_cong [OF t, of nLockTime] arg_cong [OF t, of vout]
    by (simp_all add: T(2) T'(2))
  have vin: "vin t = vin t'" using t by simp
  have ins: "map prevout (vin tx) = map prevout (vin tx')" "map nSequence (vin tx) = map nSequence (vin tx')"
    using arg_cong [OF vin, of "map prevout"] arg_cong [OF vin, of "map nSequence"]
    by (simp_all add: T(2) T'(2) sighash_inputs)
  then have len: "length (vin tx) = length (vin tx')" by (metis length_map)
  have "(replicate (length (vin tx)) [])[n := ?c] = (replicate (length (vin tx)) [])[n' := ?c']"
    using arg_cong [OF vin, of "map scriptSig"] T(1) T'(1) len by (simp add: T(2) T'(2) sighash_scripts)
  then have "n = n' \<and> ?c = ?c'" using T(1) T'(1) len assms(11) by (intro one_script) simp_all
  with h head ins show ?thesis by simp
qed simp

text \<open>The version cannot be changed under a signature, when the message with the other one does not collide.\<close>

lemma ucast_u256_of_bytes: "ucast (u256_of_bytes (b # bs)) = b"
proof -
  have "take_bit 8 (le_val (b # bs)) = unat b" by (simp add: take_bit_eq_mod unat_byte_less)
  then have "unat (ucast (word_of_nat (le_val (b # bs)) :: uint256) :: byte) = unat b"
    by (simp only: unsigned_ucast_eq unsigned_of_nat take_bit_take_bit) simp
  then show ?thesis by (simp add: u256_of_bytes_def word_unat_eq_iff del: le_val.simps)
qed

lemma u256_first_byte: "u256_of_bytes (b # bs) = u256_of_bytes (c # cs) \<Longrightarrow> b = c"
  by (metis ucast_u256_of_bytes)

theorem sighash_all_commits_witness:
  "SignatureHash sighash_crypto [0x51] sample_tx 0 1 \<noteq> SignatureHash sighash_crypto [0x51] (sample_tx\<lparr>nVersion := 2\<rparr>) 0 1"
proof
  assume eq: "SignatureHash sighash_crypto [0x51] sample_tx 0 1 = SignatureHash sighash_crypto [0x51] (sample_tx\<lparr>nVersion := 2\<rparr>) 0 1"
  let ?t = "sample_tx\<lparr>vin := [(vin sample_tx ! 0)\<lparr>scriptSig := [0x51]\<rparr>]\<rparr>"
  have f: "FindAndDelete [0x51] [171] = ([0x51], 0)" by code_simp
  have s: "sighash_tx [0x51] sample_tx 0 1 = Some ?t" by (simp add: sighash_tx_def sample_tx_def f)
  have s': "sighash_tx [0x51] (sample_tx\<lparr>nVersion := 2\<rparr>) 0 1 = Some (?t\<lparr>nVersion := 2\<rparr>)" by (simp add: sighash_tx_def sample_tx_def f)
  have "tx_ok ?t" "tx_ok (?t\<lparr>nVersion := 2\<rparr>)"
    by (simp_all add: sample_tx_def tx_ok_def txin_ok_def txout_ok_def MAX_SIZE_def int32_range_def int64_range_def)
  then have "hash_collides sighash_crypto (ser_tx ?t @ ser_int 1) (ser_tx (?t\<lparr>nVersion := 2\<rparr>) @ ser_int 1)"
    using sighash_all_commits [OF eq s s'] by (simp add: int32_range_def f sample_tx_def)
  then have "u256_of_bytes (ser_tx ?t @ ser_int 1) = u256_of_bytes (ser_tx (?t\<lparr>nVersion := 2\<rparr>) @ ser_int 1)"
    by (simp only: hash_collides_def sighash_crypto_def Hash_bytes_def) simp
  moreover have "ser_int 1 = [1, 0, 0, 0]" "ser_int 2 = [2, 0, 0, 0]" by code_simp+
  ultimately have "(1 :: byte) = 2"
    by (simp only: ser_tx_def sample_tx_def CTransaction.simps append_Cons) (rule u256_first_byte)
  then show False by simp
qed

end
