(* ===== verification/ScriptSpend.thy ===== *)
theory ScriptSpend
  imports Signature
begin

text \<open>
  The properties of the interpreter: its arithmetic, its limits, branches that are not executed,
  multi-signature matching, spending outputs that pay to a key hash and to a script hash, and the
  encodings IsCanonicalSignature accepts. The lemmas are in ScriptFacts and Checker.
\<close>

text \<open>A concrete instance of the hash functions, for the witnesses.\<close>

definition toy_crypto :: crypto where
  "toy_crypto = \<lparr>RIPEMD160 = (\<lambda>v. replicate 20 0), SHA1 = (\<lambda>v. replicate 20 0),
     SHA256 = (\<lambda>v. replicate 32 (word_of_nat (length v)))\<rparr>"

section \<open>Arithmetic, limits and branches\<close>

text \<open>
  Script arithmetic is integer arithmetic: on operands of at most four bytes the unary and binary
  number operations leave the encoding of the exact integer result, never an overflow; the VERIFY
  form stops exactly when the result is false, and an operand of more than four bytes stops the script.
\<close>

theorem script_arithmetic:
  assumes "bignum_library L val" and "length x \<le> 4" and "length y \<le> 4" and "4 < length z"
  shows "op_unary L opcode (st\<lparr>stk := x # s\<rparr>) =
      Cont (st\<lparr>stk := num_body (script_unary opcode (num_value x)) # s\<rparr>)
    \<and> op_binary L opcode (st\<lparr>stk := y # x # s\<rparr>) =
      (let r = script_binary opcode (num_value x) (num_value y) in
       verify_top (opcode = OP_NUMEQUALVERIFY) (r \<noteq> 0) (st\<lparr>stk := num_body r # s\<rparr>))
    \<and> op_unary L opcode (st\<lparr>stk := z # s\<rparr>) = Stop (st\<lparr>stk := z # s\<rparr>)
    \<and> op_binary L opcode (st\<lparr>stk := z # x # s\<rparr>) = Stop (st\<lparr>stk := z # x # s\<rparr>)
    \<and> op_binary L opcode (st\<lparr>stk := x # z # s\<rparr>) = Stop (st\<lparr>stk := x # z # s\<rparr>)"
proof -
  obtain bx where bx: "CastToBigNum L x = Some bx" "val bx = num_value x"
    using bignum_library.CastToBigNum_val [OF assms(1,2)] by blast
  obtain bi where bi: "CastToBigNum L y = Some bi" "val bi = num_value y"
    using bignum_library.CastToBigNum_val [OF assms(1,3)] by blast
  have small: "\<bar>num_value x\<bar> < 2 ^ 31" "\<bar>num_value y\<bar> < 2 ^ 31"
    using num_value_small assms(2,3) by blast+
  have u: "getvch L (unary_num L opcode bx) = num_body (script_unary opcode (num_value x))"
    using bignum_library.getvch_small [OF assms(1), of "unary_num L opcode bx"]
      script_unary_bound [OF small(1)] by (simp only: bignum_library.val_unary_num [OF assms(1)] bx)
  have b: "getvch L (binary_num L opcode bx bi) =
      num_body (script_binary opcode (num_value x) (num_value y))"
    using bignum_library.getvch_small [OF assms(1), of "binary_num L opcode bx bi"]
      script_binary_bound [OF small] by (simp only: bignum_library.val_binary_num [OF assms(1)] bx bi)
  have z: "CastToBigNum L z = None" by (rule bignum_library.CastToBigNum_None [OF assms(1,4)])
  show ?thesis
    by (simp add: op_unary_def op_binary_def bx(1) bi(1) u b z Let_def CastToBool_num_body)
qed

theorem script_arithmetic_witness:
  "op_binary int_bn OP_SUB \<lparr>stk = [[2], [3, 0x80], [7]], altstk = [], vfExec = [], nOpCount = 0, pbegincodehash = [], sigstate = ()\<rparr>
     = Cont \<lparr>stk = [num_body (- 5), [7]], altstk = [], vfExec = [], nOpCount = 0, pbegincodehash = [], sigstate = ()\<rparr>"
  using script_arithmetic [OF int_bn.bignum_library_axioms, where x = "[3, 0x80]" and y = "[2]" and z = "[1, 2, 3, 4, 5]" and opcode = OP_SUB
      and st = "\<lparr>stk = [], altstk = [], vfExec = [], nOpCount = 0, pbegincodehash = [], sigstate = ()\<rparr>" and s = "[[7]]"]
  by (simp add: script_binary_def verify_top_def Let_def num_value_def)

text \<open>
  The interpreter keeps its limits: a script that EvalScript accepts from a stack within the
  limits leaves at most 1000 elements of at most 520 bytes, whatever the script and the signature
  checker.
\<close>

theorem EvalScript_limits:
  assumes "bignum_library L val" and "small_hashes C"
    and "EvalScript L C CS flags stack script c = (True, stack', c')"
    and "length stack \<le> 1000" and "\<forall>v \<in> set stack. length v \<le> MAX_SCRIPT_ELEMENT_SIZE"
  shows "length stack' \<le> 1000 \<and> (\<forall>v \<in> set stack'. length v \<le> MAX_SCRIPT_ELEMENT_SIZE)"
  by (rule bignum_library.EvalScript_bounded [OF assms(1,3,2,4,5)])

theorem EvalScript_limits_witness:
  "length [[7 :: byte], [7]] \<le> 1000 \<and> length [7 :: byte] \<le> MAX_SCRIPT_ELEMENT_SIZE"
  using EvalScript_limits [OF int_bn.bignum_library_axioms, where C = toy_crypto and CS = "\<lambda>s k code c. (True, c)" and flags = 0
      and stack = "[[7]]" and script = "[word_of_nat OP_DUP]" and c = "()" and stack' = "[[7], [7]]" and c' = "()"]
  by (simp add: small_hashes_def toy_crypto_def EvalScript_def eval_loop_op exec_op_def op_stack_def
      disabled_ops_def size_limit_def eval_loop_Nil MAX_SCRIPT_ELEMENT_SIZE_def)

lemma op_control_skipped:
  "op_control False opcode st = Cont st' \<Longrightarrow> stk st' = stk st \<and> altstk st' = altstk st
    \<and> sigstate st' = sigstate st \<and> pbegincodehash st' = pbegincodehash st
    \<or> opcode = OP_VERIFY"
  by (auto simp: op_control_def split: if_splits list.splits)

lemma exec_op_conditional:
  assumes "OP_IF \<le> opcode" and "opcode \<le> OP_ENDIF"
  shows "exec_op L C CS fStrict fExec opcode pc st =
    (if opcode = OP_VERIF \<or> opcode = OP_VERNOTIF then Stop st else op_control fExec opcode st)"
proof -
  from assms have "opcode = 99 \<or> opcode = 100 \<or> opcode = 101 \<or> opcode = 102 \<or> opcode = 103 \<or> opcode = 104"
    by linarith
  then show ?thesis unfolding exec_op_def by (elim disjE) (simp_all only:, simp_all)
qed

lemma size_limit_Cont: "size_limit r = Cont st \<Longrightarrow> r = Cont st"
  by (auto simp: size_limit_def split: result.splits if_splits)

text \<open>
  In a branch that is not executed no instruction touches the stacks or the signature checker: only
  the operation count and the stack of conditionals may change, the latter by a conditional only.
\<close>

theorem skipped_branch:
  assumes "False \<in> set (vfExec st)" and "eval_instr L C CS fStrict opcode vch pc st = Cont st'"
  shows "stk st' = stk st \<and> altstk st' = altstk st \<and> sigstate st' = sigstate st
    \<and> pbegincodehash st' = pbegincodehash st
    \<and> (vfExec st' = vfExec st \<or> OP_IF \<le> opcode \<and> opcode \<le> OP_ENDIF)"
proof -
  define st1 where "st1 = (if opcode > OP_16 then st\<lparr>nOpCount := nOpCount st + 1\<rparr> else st)"
  have same: "stk st1 = stk st" "altstk st1 = altstk st" "sigstate st1 = sigstate st"
    "pbegincodehash st1 = pbegincodehash st" "vfExec st1 = vfExec st"
    by (simp_all add: st1_def)
  have r: "size_limit (if OP_IF \<le> opcode \<and> opcode \<le> OP_ENDIF
      then exec_op L C CS fStrict False opcode pc st1 else Cont st1) = Cont st'"
    using assms unfolding eval_instr_def st1_def [symmetric] Let_def
    by (auto simp: st1_def [symmetric] split: if_split_asm)
  show ?thesis
  proof (cases "OP_IF \<le> opcode \<and> opcode \<le> OP_ENDIF")
    case True
    with size_limit_Cont [OF r] have "op_control False opcode st1 = Cont st'"
      by (simp add: exec_op_conditional split: if_split_asm)
    from op_control_skipped [OF this] True same show ?thesis by simp
  next
    case False
    with size_limit_Cont [OF r] same show ?thesis by auto
  qed
qed

theorem skipped_branch_witness:
  "stk \<lparr>stk = [[1]], altstk = [], vfExec = [True], nOpCount = 1, pbegincodehash = [], sigstate = ()\<rparr> =
   stk \<lparr>stk = [[1]], altstk = [], vfExec = [False], nOpCount = 0, pbegincodehash = [], sigstate = ()\<rparr>"
  using skipped_branch [of "\<lparr>stk = [[1]], altstk = [], vfExec = [False], nOpCount = 0, pbegincodehash = [], sigstate = ()\<rparr>"
      int_bn toy_crypto "\<lambda>s k code c. (True, c)" False OP_ELSE "[]" "[]"
      "\<lparr>stk = [[1]], altstk = [], vfExec = [True], nOpCount = 1, pbegincodehash = [], sigstate = ()\<rparr>"]
  by (simp add: eval_instr_def exec_op_conditional op_control_def size_limit_def disabled_ops_def)

section \<open>Multi-signatures\<close>

lemma getint_small:
  assumes "bignum_library L val" and "val b = int n" and "n < 2 ^ 31" shows "getint L b = int n"
  using bignum_library.getint_eq [OF assms(1), of b] assms(2,3) by (simp add: INT_MAX_def)

text \<open>
  C34: OP_CHECKMULTISIG asks for an order-preserving matching: on a stack that holds the counts n and m
  with m keys and n signatures, n \<le> m \<le> 20, and a checker whose answers do not depend on its state, as
  CheckSig's do not while its cache is sound, it succeeds exactly when the signatures match, in order, a
  subsequence of the keys; it leaves the stack without the counts, keys, signatures and the extra element, and
  the state of the checker sound.
\<close>

theorem checkmultisig_matching:
  fixes st :: "'s eval_state" and L :: "'b bn_lib" and fStrict :: bool
  assumes "bignum_library L val" and "checker_contract CS ok sound" and "sound (sigstate st)"
    and "stk st = num_body (int (length keys)) # keys @ num_body (int (length sigs)) # sigs @ dummy # rest"
    and "length sigs \<le> length keys" and "length keys \<le> 20" and "nOpCount st + int (length keys) \<le> 201"
  defines "code \<equiv> fold (\<lambda>sig code. fst (FindAndDelete code (push_data [] sig))) sigs (pbegincodehash st)"
  defines "match \<equiv> \<lambda>sig key. (fStrict \<longrightarrow> IsCanonicalSignature sig \<and> IsCanonicalPubKey key) \<and> ok sig key code"
  shows "\<exists>c. op_checkmultisig L CS fStrict OP_CHECKMULTISIG st =
      Cont (st\<lparr>stk := bool_val (\<exists>ks. subseq ks keys \<and> list_all2 match sigs ks) # rest,
               nOpCount := nOpCount st + int (length keys), sigstate := c\<rparr>) \<and> sound c"
proof -
  have cast: "\<exists>bn. CastToBigNum L (num_body (int n)) = Some bn \<and> getint L bn = int n" if "n \<le> 20" for n
  proof -
    have "length (num_body (int n)) \<le> 4" using that by (simp add: length_num_body_le_iff)
    then obtain bn where "CastToBigNum L (num_body (int n)) = Some bn" "val bn = int n"
      using bignum_library.CastToBigNum_val [OF assms(1)] by (metis num_value_num_body)
    moreover from this that have "getint L bn = int n" by (intro getint_small [OF assms(1)]) simp_all
    ultimately show ?thesis by blast
  qed
  obtain bk where bk: "CastToBigNum L (num_body (int (length keys))) = Some bk"
    "getint L bk = int (length keys)" using cast assms(6) by blast
  obtain bs where bs: "CastToBigNum L (num_body (int (length sigs))) = Some bs"
    "getint L bs = int (length sigs)" using cast [of "length sigs"] assms(5,6) by auto
  have "check_one (plain_checker ok) fStrict code sig key c = (match sig key, c)" for sig key and c :: 's
    by (auto simp: check_one_def plain_checker_def match_def)
  note match = multisig_loop_short [OF this assms(5), of "sigstate st"]
  have "op_checkmultisig L (plain_checker ok) fStrict OP_CHECKMULTISIG st =
    Cont (st\<lparr>stk := bool_val (\<exists>ks. subseq ks keys \<and> list_all2 match sigs ks) # rest,
             nOpCount := nOpCount st + int (length keys)\<rparr>)"
    using assms(5-7) match
    by (simp add: op_checkmultisig_def assms(4) bk bs Let_def nth_append verify_top_def code_def [symmetric])
  with checker_contract.same_checkmultisig [OF assms(2,3), of "sigstate st" L fStrict OP_CHECKMULTISIG]
  have "same_run sound (sigstate st) (op_checkmultisig L CS fStrict OP_CHECKMULTISIG st)
    (Cont (st\<lparr>stk := bool_val (\<exists>ks. subseq ks keys \<and> list_all2 match sigs ks) # rest,
               nOpCount := nOpCount st + int (length keys)\<rparr>))" by simp
  then show ?thesis by (rule same_run_Cont) auto
qed

text \<open>The checker of the program, with its cache: one signature for the second of two keys.\<close>

lemma FindAndDelete_Nil: "FindAndDelete [] (push_data [] v) = ([], 0)"
  by (simp add: FindAndDelete_def FindAndDelete_loop.simps fad_erase.simps GetOp2.simps push_data_def)

theorem checkmultisig_matching_witness:
  defines "sig \<equiv> replicate 32 7 @ u256_bytes (SignatureHash toy_crypto [] sample_tx 0 1) @ [1]"
  defines "st \<equiv> \<lparr>stk = num_body 2 # [2 # replicate 32 8, 2 # replicate 32 7] @ num_body 1 # [sig] @ [] # [[9]], altstk = [],
    vfExec = [], nOpCount = 0, pbegincodehash = [], sigstate = sigcache_empty\<rparr>"
  shows "\<exists>c. op_checkmultisig int_bn (CheckSig toy_crypto ec_plain (\<lambda>k. 3) 100 sample_tx 0 0 0) False OP_CHECKMULTISIG st =
    Cont (st\<lparr>stk := [vchTrue, [9]], nOpCount := 2, sigstate := c\<rparr>) \<and> sigcache_sound ec_plain 100 c"
proof -
  let ?ok = "signature_ok toy_crypto ec_plain sample_tx 0 0"
  have "?ok sig (2 # replicate 32 7) []"
    by (simp add: signature_ok_def sig_def butlast_append CPubKey_Set_def CPubKey_GetLen_def CPubKey_IsValid_def CPubKey_size_def
        CPubKey_Verify_def CPubKey_bytes_def ec_plain_def)
  then have "\<exists>ks. subseq ks [2 # replicate 32 8, 2 # replicate 32 7] \<and> list_all2 (\<lambda>s k. ?ok s k []) [sig] ks"
    by (intro exI [of _ "[2 # replicate 32 7]"]) simp
  then show ?thesis
    using checkmultisig_matching [OF int_bn.bignum_library_axioms, of "CheckSig toy_crypto ec_plain (\<lambda>k. 3) 100 sample_tx 0 0 0" ?ok
        "sigcache_sound ec_plain 100" st "[2 # replicate 32 8, 2 # replicate 32 7]" "[sig]" "[]" "[[9]]" False] sig.checker_contract_axioms
    by (simp add: st_def FindAndDelete_Nil bool_val_def)
qed

section \<open>Spending an output\<close>

text \<open>
  A push that no instruction of the script performs is not found: FindAndDelete walks over it.
\<close>

lemma FindAndDelete_loop_step:
  assumes "length b < 2 ^ 32" and "GetOp2 pc = (True, opcode, v, pc')"
    and "\<not> (opcode \<le> OP_PUSHDATA4 \<and> v = b)"
  shows "FindAndDelete_loop (push_data [] b) kept pc n =
    FindAndDelete_loop (push_data [] b) (kept @ take (length pc - length pc') pc) pc' n"
proof -
  have "take (length (push_data [] b)) pc \<noteq> push_data [] b"
  proof
    assume "take (length (push_data [] b)) pc = push_data [] b"
    then have "pc = push_data [] b @ drop (length (push_data [] b)) pc"
      by (metis append_take_drop_id)
    with GetOp2_push_data [OF assms(1), of "drop (length (push_data [] b)) pc"] assms(2,3)
    show False by auto
  qed
  then have "fad_erase (push_data [] b) pc n = (pc, n)" by (simp add: fad_erase.simps [of _ pc])
  with assms(2) show ?thesis by (simp add: FindAndDelete_loop.simps [of _ kept pc])
qed

lemma FindAndDelete_loop_Nil: "b \<noteq> [] \<Longrightarrow> FindAndDelete_loop b kept [] n = (kept, n)"
  by (simp add: FindAndDelete_loop.simps fad_erase.simps GetOp2.simps)

lemma p2pkh_no_match:
  assumes "length h = 20" and "length sig < 2 ^ 32" and "sig \<noteq> h"
  shows "FindAndDelete (p2pkh h) (push_data [] sig) = (p2pkh h, 0)"
proof -
  have "length h < 2 ^ 32" using assms(1) by simp
  from GetOp2_push_data [OF this, of "[word_of_nat OP_EQUALVERIFY, word_of_nat OP_CHECKSIG]"]
  obtain opcode where h: "GetOp2 (push_data [] h @ [0x88, 0xac]) = (True, opcode, h, [0x88, 0xac])"
    by auto
  note op = FindAndDelete_loop_step [OF assms(2) GetOp2_op]
  show ?thesis
    using assms(3) by (simp add: FindAndDelete_def p2pkh_def op FindAndDelete_loop_Nil
        FindAndDelete_loop_step [OF assms(2) h])
qed

lemma length_PushAll_le: "length (PushAll vs) \<le> sum_list (map (\<lambda>v. length v + 5) vs)"
proof (induction vs)
  case (Cons v vs)
  then show ?case using length_push_data_le [of "[]" v] by (simp add: PushAll_Cons)
qed (simp add: PushAll_Nil)

lemma VerifyScript_p2pkh:
  assumes "length h = 20" and "length sig \<le> MAX_SCRIPT_ELEMENT_SIZE"
    and "length key \<le> MAX_SCRIPT_ELEMENT_SIZE" and "sig \<noteq> h"
  shows "VerifyScript L C CS flags (PushAll [sig, key]) (p2pkh h) c =
    (if Hash160 C key = h
     then check_one CS (flags AND SCRIPT_VERIFY_STRICTENC \<noteq> 0) (p2pkh h) sig key c else (False, c))"
proof -
  have len: "length (PushAll [sig, key]) \<le> 10000"
    using assms(2,3) length_PushAll_le [of "[sig, key]"] by (simp add: MAX_SCRIPT_ELEMENT_SIZE_def)
  have eval: "EvalScript L C CS flags [] (PushAll [sig, key]) c = (True, [key, sig], c)"
    using EvalScript_PushAll [OF _ len, of "[]"] assms(2,3) by simp
  have sig: "FindAndDelete (p2pkh h) (push_data [] sig) = (p2pkh h, 0)"
    using assms by (intro p2pkh_no_match) (simp_all add: MAX_SCRIPT_ELEMENT_SIZE_def)
  have no: "\<not> IsPayToScriptHash (p2pkh h)" by (simp add: p2pkh_def IsPayToScriptHash_def)
  show ?thesis
    unfolding VerifyScript_def eval using assms(1) no
    by (cases "check_one CS (flags AND SCRIPT_VERIFY_STRICTENC \<noteq> 0) (p2pkh h) sig key c")
      (simp add: EvalScript_p2pkh sig)
qed

text \<open>
  C35: Paying to a key hash: a spend that pushes a signature and a key is accepted exactly when the key
  has the hash the output names and the checker accepts the signature for the output's own script,
  with the encodings checked first when the flags ask for it. A key with another hash is refused
  without asking the checker.
\<close>

theorem pay_to_key_hash:
  assumes "length h = 20" and "length sig \<le> MAX_SCRIPT_ELEMENT_SIZE"
    and "length key \<le> MAX_SCRIPT_ELEMENT_SIZE" and "sig \<noteq> h"
  shows "VerifyScript L C CS flags (PushAll [sig, key]) (p2pkh h) c =
    (if Hash160 C key = h
     then check_one CS (flags AND SCRIPT_VERIFY_STRICTENC \<noteq> 0) (p2pkh h) sig key c else (False, c))"
  by (rule VerifyScript_p2pkh [OF assms])

theorem pay_to_key_hash_witness:
  "VerifyScript int_bn toy_crypto (\<lambda>s k code c. (s = k, c)) 0 (PushAll [[9], [9]]) (p2pkh (replicate 20 0)) ()
    = (True, ())"
proof -
  have "[9] \<noteq> (replicate 20 0 :: byte list)" by (simp add: list_eq_iff_nth_eq)
  then show ?thesis
    using pay_to_key_hash [of "replicate 20 0" "[9]" "[9]" int_bn toy_crypto "\<lambda>s k code c. (s = k, c)" 0 "()"]
    by (simp add: MAX_SCRIPT_ELEMENT_SIZE_def Hash160_def toy_crypto_def check_one_def)
qed

section \<open>Paying to a script hash\<close>

definition p2sh :: "valtype \<Rightarrow> script" where
  "p2sh h = [word_of_nat OP_HASH160] @ push_data [] h @ [word_of_nat OP_EQUAL]"

lemma EvalScript_p2sh:
  assumes "length h = 20" and "length rest < 999"
  shows "EvalScript L C CS flags (redeem # rest) (p2sh h) c =
    (True, bool_val (Hash160 C redeem = h) # rest, c)"
proof -
  have h: "length h \<le> MAX_SCRIPT_ELEMENT_SIZE" using assms(1) by (simp add: MAX_SCRIPT_ELEMENT_SIZE_def)
  have len: "length (p2sh h) \<le> 10000" using assms(1) by (simp add: p2sh_def push_data_def)
  note ops = eval_loop_op exec_op_def op_hash_def op_equal_def size_limit_def verify_top_def eval_loop_Nil
    disabled_ops_def
  show ?thesis
    using assms h len by (simp add: EvalScript_def) (simp add: p2sh_def ops eval_loop_push Let_def)
qed

lemma IsPayToScriptHash_p2sh: "length h = 20 \<Longrightarrow> IsPayToScriptHash (p2sh h)"
  by (simp add: p2sh_def IsPayToScriptHash_def push_data_def nth_append)

lemma VerifyScript_p2sh:
  assumes "length h = 20" and "length vs < 999"
    and "\<forall>v \<in> set (vs @ [redeem]). length v \<le> MAX_SCRIPT_ELEMENT_SIZE"
    and "length (PushAll (vs @ [redeem])) \<le> 10000"
  shows "VerifyScript L C CS flags (PushAll (vs @ [redeem])) (p2sh h) c =
    (if Hash160 C redeem \<noteq> h then (False, c)
     else if flags AND SCRIPT_VERIFY_P2SH = 0 then (True, c)
     else case EvalScript L C CS flags (rev vs) redeem c of
       (ok, stack, c') \<Rightarrow> (ok \<and> stack \<noteq> [] \<and> CastToBool (hd stack), c'))"
proof -
  have eval: "EvalScript L C CS flags [] (PushAll (vs @ [redeem])) c = (True, redeem # rev vs, c)"
    using EvalScript_PushAll [OF assms(3,4), of "[]"] assms(2) by simp
  have push: "IsPushOnly (PushAll (vs @ [redeem]))"
    using assms(3) by (intro IsPushOnly_PushAll) (auto simp: MAX_SCRIPT_ELEMENT_SIZE_def)
  show ?thesis
    unfolding VerifyScript_def eval
    using assms(1,2) push by (simp add: EvalScript_p2sh IsPayToScriptHash_p2sh split: prod.split)
qed

text \<open>
  C36: Paying to a script hash: a spend that pushes arguments and then the redeem script is accepted
  exactly when the redeem script has the hash the output names and, once the flags enable it, accepts
  the arguments; without the flag the hash alone decides.
\<close>

theorem pay_to_script_hash:
  assumes "length h = 20" and "length vs < 999"
    and "\<forall>v \<in> set (vs @ [redeem]). length v \<le> MAX_SCRIPT_ELEMENT_SIZE"
    and "length (PushAll (vs @ [redeem])) \<le> 10000"
  shows "VerifyScript L C CS flags (PushAll (vs @ [redeem])) (p2sh h) c =
    (if Hash160 C redeem \<noteq> h then (False, c)
     else if flags AND SCRIPT_VERIFY_P2SH = 0 then (True, c)
     else case EvalScript L C CS flags (rev vs) redeem c of
       (ok, stack, c') \<Rightarrow> (ok \<and> stack \<noteq> [] \<and> CastToBool (hd stack), c'))"
  by (rule VerifyScript_p2sh [OF assms])

theorem pay_to_script_hash_witness:
  "VerifyScript int_bn toy_crypto (\<lambda>s k code c. (s = k, c)) 1
     (PushAll ([[1]] @ [[word_of_nat OP_DUP]])) (p2sh (replicate 20 0)) () = (True, ())"
proof -
  have "length (PushAll ([[1]] @ [[word_of_nat OP_DUP]])) \<le> 10000"
    using length_PushAll_le [of "[[1]] @ [[word_of_nat OP_DUP]]"] by simp
  then show ?thesis
    using pay_to_script_hash [of "replicate 20 0" "[[1]]" "[word_of_nat OP_DUP]" int_bn toy_crypto
        "\<lambda>s k code c. (s = k, c)" 1 "()"]
    by (simp add: MAX_SCRIPT_ELEMENT_SIZE_def Hash160_def toy_crypto_def
        EvalScript_def eval_loop_op exec_op_def op_stack_def disabled_ops_def size_limit_def eval_loop_Nil)
qed

section \<open>Canonical signatures\<close>

text \<open>
  The encoding of an integer inside a signature: not empty, not negative, and without a leading zero
  byte that the sign does not need.
\<close>

definition der_int :: "valtype \<Rightarrow> bool" where
  "der_int n \<longleftrightarrow> n \<noteq> [] \<and> hd n AND 0x80 = 0 \<and> (1 < length n \<and> hd n = 0 \<longrightarrow> n ! 1 AND 0x80 \<noteq> 0)"

definition der_signature :: "valtype \<Rightarrow> valtype \<Rightarrow> byte \<Rightarrow> valtype" where
  "der_signature r s t = [0x30, word_of_nat (length r + length s + 4), 0x02, word_of_nat (length r)] @ r @
     [0x02, word_of_nat (length s)] @ s @ [t]"

definition hash_type_ok :: "byte \<Rightarrow> bool" where
  "hash_type_ok t \<longleftrightarrow> unat (t AND NOT (word_of_nat SIGHASH_ANYONECANPAY)) \<in> {SIGHASH_ALL..SIGHASH_SINGLE}"

lemma IsCanonicalSignature_conds:
  assumes "R = unat (v ! 3)" and "S = unat (v ! (5 + R))" and "n = length v"
  shows "IsCanonicalSignature v \<longleftrightarrow> 9 \<le> n \<and> n \<le> 73 \<and> hash_type_ok (v ! (n - 1)) \<and> v ! 0 = 0x30
    \<and> unat (v ! 1) = n - 3 \<and> R + S + 7 = n \<and> v ! 2 = 0x02 \<and> R \<noteq> 0 \<and> v ! 4 AND 0x80 = 0
    \<and> (R > 1 \<and> v ! 4 = 0 \<longrightarrow> v ! 5 AND 0x80 \<noteq> 0) \<and> v ! (4 + R) = 0x02 \<and> S \<noteq> 0
    \<and> v ! (6 + R) AND 0x80 = 0 \<and> (S > 1 \<and> v ! (6 + R) = 0 \<longrightarrow> v ! (7 + R) AND 0x80 \<noteq> 0)"
  unfolding IsCanonicalSignature_def Let_def assms(1) [symmetric] assms(2) [symmetric] assms(3) [symmetric]
    hash_type_ok_def
  by auto

lemma der_signature_conds:
  fixes r s :: valtype and t :: byte
  assumes r: "r \<noteq> []" and s: "s \<noteq> []" and "length r + length s \<le> 66"
  defines "v \<equiv> der_signature r s t"
  shows "IsCanonicalSignature v \<longleftrightarrow> der_int r \<and> der_int s \<and> hash_type_ok t"
proof -
  have b: "unat (word_of_nat k :: byte) = k" if "k \<le> 70" for k using that by (intro unat_of_nat_less) simp
  have n: "length v = length r + length s + 7" by (simp add: v_def der_signature_def)
  have v1: "v ! 1 = word_of_nat (length r + length s + 4)" by (simp add: v_def der_signature_def)
  have nth: "v ! 0 = 0x30" "v ! 2 = 0x02"
    "v ! 3 = word_of_nat (length r)" "v ! 4 = hd r" "v ! (4 + length r) = 0x02"
    "v ! (5 + length r) = word_of_nat (length s)" "v ! (6 + length r) = hd s"
    "v ! (length r + length s + 6) = t"
    using r s by (simp_all add: v_def der_signature_def nth_append hd_conv_nth nth_Cons' numeral_eq_Suc)
  have nth1: "length r > 1 \<Longrightarrow> v ! 5 = r ! 1" "length s > 1 \<Longrightarrow> v ! (7 + length r) = s ! 1"
    by (simp_all add: v_def der_signature_def nth_append nth_Cons' numeral_eq_Suc)
  have R: "length r = unat (v ! 3)" using assms(3) by (simp only: nth) (simp add: b)
  have S: "length s = unat (v ! (5 + length r))" using assms(3) by (simp only: nth) (simp add: b)
  have l: "length v - 1 = length r + length s + 6" "unat (v ! 1) = length v - 3" "9 \<le> length v" "length v \<le> 73"
  proof -
    have "0 < length r" "0 < length s" using r s by simp_all
    with assms(3) show "length v - 1 = length r + length s + 6" "unat (v ! 1) = length v - 3"
      "9 \<le> length v" "length v \<le> 73"
      by (simp_all only: n v1) (simp_all add: b del: of_nat_add of_nat_numeral)
  qed
  show ?thesis
    unfolding IsCanonicalSignature_conds [OF R S refl] l(1) nth
    using l(2-4) n r s nth1 by (auto simp: der_int_def nth)
qed

lemma canonical_is_der:
  assumes "IsCanonicalSignature v"
  shows "\<exists>r s t. v = der_signature r s t \<and> r \<noteq> [] \<and> s \<noteq> [] \<and> length r + length s \<le> 66"
proof -
  define R where "R = unat (v ! 3)"
  define S where "S = unat (v ! (5 + R))"
  have c: "9 \<le> length v" "length v \<le> 73" "v ! 0 = 0x30" "unat (v ! 1) = length v - 3" "R + S + 7 = length v"
    "v ! 2 = 0x02" "R \<noteq> 0" "v ! (4 + R) = 0x02" "S \<noteq> 0"
    using assms IsCanonicalSignature_conds [OF R_def S_def refl] by blast+
  define r where "r = take R (drop 4 v)"
  define s where "s = take S (drop (6 + R) v)"
  have len: "length r = R" "length s = S" using c by (simp_all add: r_def s_def)
  have bytes: "v ! 1 = word_of_nat (R + S + 4)" "v ! 3 = word_of_nat R" "v ! (5 + R) = word_of_nat S"
  proof -
    have "unat (v ! 1) = R + S + 4" using c(4,5) by simp
    then have "word_of_nat (R + S + 4) = (word_of_nat (unat (v ! 1)) :: byte)" by (simp only:)
    then show "v ! 1 = word_of_nat (R + S + 4)" by (simp del: of_nat_add)
  qed (simp_all add: R_def S_def)
  have "v = der_signature r s (v ! (R + S + 6))"
  proof (rule nth_equalityI)
    show "length v = length (der_signature r s (v ! (R + S + 6)))" using c(5) by (simp add: der_signature_def len)
    fix i assume "i < length v"
    then consider "i < 4" | "4 \<le> i" "i < 4 + R" | "i = 4 + R" | "i = 5 + R" | "6 + R \<le> i" "i < 6 + R + S"
      | "i = R + S + 6" using c(5) by linarith
    then show "v ! i = der_signature r s (v ! (R + S + 6)) ! i"
    proof cases
      case 1
      then have "i = 0 \<or> i = 1 \<or> i = 2 \<or> i = 3" by linarith
      then show ?thesis using c bytes by (auto simp: der_signature_def len)
    next
      case 2
      then have "\<exists>j. i = 4 + j \<and> j < R" by (intro exI [of _ "i - 4"]) auto
      then obtain j where "i = 4 + j" "j < R" by blast
      with c(5) len show ?thesis by (simp add: der_signature_def nth_append r_def)
    next
      case 5
      then have "\<exists>j. i = 6 + R + j \<and> j < S" by (intro exI [of _ "i - (6 + R)"]) auto
      then obtain j where "i = 6 + R + j" "j < S" by blast
      with c(5) len show ?thesis by (simp add: der_signature_def nth_append s_def)
    qed (use c bytes len in \<open>simp_all add: der_signature_def nth_append\<close>)
  qed
  moreover have "r \<noteq> []" "s \<noteq> []" "length r + length s \<le> 66" using c len by auto
  ultimately show ?thesis by blast
qed

text \<open>
  IsCanonicalSignature recognises exactly the strict encodings: the byte strings that consist of a
  sequence header with its length, two integers in their shortest non-negative encoding with their
  headers and lengths, at most 66 bytes together, and a known signature hash type.
\<close>

theorem canonical_signature_iff:
  "IsCanonicalSignature v \<longleftrightarrow> v \<in> {der_signature r s t | r s t.
     der_int r \<and> der_int s \<and> hash_type_ok t \<and> length r + length s \<le> 66}"
proof -
  have "IsCanonicalSignature (der_signature r s t)"
    if "der_int r" "der_int s" "hash_type_ok t" "length r + length s \<le> 66" for r s t
    using der_signature_conds [of r s t] that by (simp add: der_int_def)
  moreover have "\<exists>r s t. v = der_signature r s t \<and> der_int r \<and> der_int s \<and> hash_type_ok t
      \<and> length r + length s \<le> 66" if v: "IsCanonicalSignature v"
    using canonical_is_der [OF v] der_signature_conds v by blast
  ultimately show ?thesis by (simp only: mem_Collect_eq) blast
qed

end
