(* ===== verification/Coins.thy ===== *)
theory Coins
  imports Transaction Containers
begin

text \<open>
  main.h and main.cpp: the coin database. CCoins holds the unspent outputs of one transaction,
  CCoinsViewCache a cache of them in front of another view; UpdateCoins applies a transaction and
  keeps undo data, DisconnectBlock takes a block back with it. The base of a cache is the function
  its GetCoins computes; what the cache makes of it is the locale coins_store. Block indices are
  addresses (numbers). A failed assertion is None.
\<close>

section \<open>CCoins\<close>

record CCoins =
  fCoinBase :: bool
  coins_vout :: "CTxOut list"
  coins_nHeight :: int
  coins_nVersion :: int

record CTxInUndo =
  undo_txout :: CTxOut
  undo_fCoinBase :: bool
  undo_nHeight :: u32
  undo_nVersion :: int

type_synonym CTxUndo = "CTxInUndo list"
type_synonym CBlockUndo = "CTxUndo list"

definition CCoins_of :: "CTransaction \<Rightarrow> int \<Rightarrow> CCoins" where
  "CCoins_of tx nHeightIn = \<lparr>fCoinBase = IsCoinBase tx, coins_vout = vout tx, coins_nHeight = nHeightIn,
     coins_nVersion = nVersion tx\<rparr>"

definition CCoins_new :: CCoins where
  "CCoins_new = \<lparr>fCoinBase = False, coins_vout = [], coins_nHeight = 0, coins_nVersion = 0\<rparr>"

definition Cleanup :: "CCoins \<Rightarrow> CCoins" where
  "Cleanup c = c\<lparr>coins_vout := rev (dropWhile CTxOut_IsNull (rev (coins_vout c)))\<rparr>"

definition IsAvailable :: "CCoins \<Rightarrow> u32 \<Rightarrow> bool" where
  "IsAvailable c nPos \<longleftrightarrow> unat nPos < length (coins_vout c) \<and> \<not> CTxOut_IsNull (coins_vout c ! unat nPos)"

definition IsPruned :: "CCoins \<Rightarrow> bool" where
  "IsPruned c \<longleftrightarrow> list_all CTxOut_IsNull (coins_vout c)"

definition Spend :: "CCoins \<Rightarrow> COutPoint \<Rightarrow> (CTxInUndo \<times> CCoins) option" where
  "Spend c out =
     (if unat (outn out) \<ge> length (coins_vout c) then None
      else if CTxOut_IsNull (coins_vout c ! unat (outn out)) then None
      else let undo = \<lparr>undo_txout = coins_vout c ! unat (outn out), undo_fCoinBase = False,
                  undo_nHeight = 0, undo_nVersion = 0\<rparr>;
               c' = Cleanup (c\<lparr>coins_vout := (coins_vout c)[unat (outn out) := CTxOut_null]\<rparr>)
           in if length (coins_vout c') = 0
              then Some (undo\<lparr>undo_nHeight := word_of_int (coins_nHeight c'),
                     undo_fCoinBase := fCoinBase c', undo_nVersion := coins_nVersion c'\<rparr>, c')
              else Some (undo, c'))"

section \<open>The cache\<close>

record coins_view =
  base :: "uint256 \<Rightarrow> CCoins option"
  cacheCoins :: "(uint256 \<times> CCoins) list"
  pindexTip :: "nat option"
  base_best :: "nat option"

text \<open>The constructor: an empty cache in front of a view, known by what it answers.\<close>

definition CCoinsViewCache :: "(uint256 \<Rightarrow> CCoins option) \<Rightarrow> nat option \<Rightarrow> coins_view" where
  "CCoinsViewCache baseIn best = \<lparr>base = baseIn, cacheCoins = [], pindexTip = None, base_best = best\<rparr>"

text \<open>FetchCoins, the private lookup that GetCoins and HaveCoins use; it fills the cache.\<close>

definition FetchCoins :: "coins_view \<Rightarrow> uint256 \<Rightarrow> CCoins option \<times> coins_view" where
  "FetchCoins v txid =
     (case map_of (cacheCoins v) txid of Some c \<Rightarrow> (Some c, v)
      | None \<Rightarrow> (case base v txid of None \<Rightarrow> (None, v)
          | Some tmp \<Rightarrow> (Some tmp, v\<lparr>cacheCoins := sm_put txid tmp (cacheCoins v)\<rparr>)))"

definition SetCoins :: "coins_view \<Rightarrow> uint256 \<Rightarrow> CCoins \<Rightarrow> coins_view" where
  "SetCoins v txid coins = v\<lparr>cacheCoins := sm_put txid coins (cacheCoins v)\<rparr>"

definition HaveCoins :: "coins_view \<Rightarrow> uint256 \<Rightarrow> bool \<times> coins_view" where
  "HaveCoins v txid = (case FetchCoins v txid of (r, v) \<Rightarrow> (r \<noteq> None, v))"

definition GetBestBlock :: "coins_view \<Rightarrow> nat option \<times> coins_view" where
  "GetBestBlock v = (let v = (if pindexTip v = None then v\<lparr>pindexTip := base_best v\<rparr> else v) in (pindexTip v, v))"

definition SetBestBlock :: "coins_view \<Rightarrow> nat option \<Rightarrow> coins_view" where
  "SetBestBlock v pindex = v\<lparr>pindexTip := pindex\<rparr>"

definition BatchWrite :: "coins_view \<Rightarrow> (uint256 \<times> CCoins) list \<Rightarrow> nat option \<Rightarrow> coins_view" where
  "BatchWrite v mapCoins pindex =
     (fold (\<lambda>(k, c) w. w\<lparr>cacheCoins := sm_put k c (cacheCoins w)\<rparr>) mapCoins v)\<lparr>pindexTip := pindex\<rparr>"

text \<open>What a view answers, without the changes to the cache.\<close>

definition coins_at :: "coins_view \<Rightarrow> uint256 \<Rightarrow> CCoins option" where
  "coins_at v txid = (case map_of (cacheCoins v) txid of Some c \<Rightarrow> Some c | None \<Rightarrow> base v txid)"

text \<open>Flush writes the cache into the view behind it, here another cache, and empties it.\<close>

definition Flush :: "coins_view \<Rightarrow> coins_view \<Rightarrow> coins_view \<times> coins_view" where
  "Flush v parent = (let parent = BatchWrite parent (cacheCoins v) (pindexTip v) in
     (v\<lparr>cacheCoins := [], base := coins_at parent\<rparr>, parent))"

text \<open>
  The contract of a coin store: reading answers what the store holds and changes nothing of it, and
  writing replaces one entry.
\<close>

locale coins_store =
  fixes fetch :: "'v \<Rightarrow> uint256 \<Rightarrow> CCoins option \<times> 'v"
    and store :: "'v \<Rightarrow> uint256 \<Rightarrow> CCoins \<Rightarrow> 'v"
    and holds :: "'v \<Rightarrow> uint256 \<Rightarrow> CCoins option"
  assumes fetch_value: "fst (fetch v t) = holds v t"
    and fetch_same: "holds (snd (fetch v t)) = holds v"
    and store_value: "holds (store v t c) = (holds v)(t \<mapsto> c)"
begin

lemma fetch_cases:
  obtains v' where "fetch v t = (holds v t, v')" and "holds v' = holds v"
  using fetch_value [of v t] fetch_same [of v t] by (cases "fetch v t") auto

end

interpretation cache: coins_store FetchCoins SetCoins coins_at
  by unfold_locales (auto simp: FetchCoins_def SetCoins_def coins_at_def fun_eq_iff split: option.split)

section \<open>Applying a transaction\<close>

fun spend_inputs :: "CTxIn list \<Rightarrow> coins_view \<Rightarrow> CTxUndo \<Rightarrow> (coins_view \<times> CTxUndo) option" where
  "spend_inputs [] v vprevout = Some (v, vprevout)"
| "spend_inputs (txin # rest) v vprevout =
     (case FetchCoins v (outhash (prevout txin)) of (None, v) \<Rightarrow> None
      | (Some coins, v) \<Rightarrow> (case Spend coins (prevout txin) of None \<Rightarrow> None
          | Some (undo, coins) \<Rightarrow>
              spend_inputs rest (SetCoins v (outhash (prevout txin)) coins) (vprevout @ [undo])))"

definition UpdateCoins :: "CTransaction \<Rightarrow> coins_view \<Rightarrow> int \<Rightarrow> uint256 \<Rightarrow> (coins_view \<times> CTxUndo) option" where
  "UpdateCoins tx inputs nHeight txhash =
     (case (if IsCoinBase tx then Some (inputs, []) else spend_inputs (vin tx) inputs []) of None \<Rightarrow> None
      | Some (inputs, txundo) \<Rightarrow> Some (SetCoins inputs txhash (CCoins_of tx nHeight), txundo))"

section \<open>Taking a block back\<close>

text \<open>
  One input: the coins after it, from the undo data and what the view still holds of the transaction,
  and whether they are clean.
\<close>

definition restore_input :: "CTxInUndo \<Rightarrow> u32 \<Rightarrow> CCoins option \<Rightarrow> bool \<times> CCoins" where
  "restore_input undo m found =
     (let coins = (case found of Some c \<Rightarrow> c | None \<Rightarrow> CCoins_new);
          (fClean, coins) =
            (if undo_nHeight undo \<noteq> 0
             then (IsPruned coins, CCoins_new\<lparr>fCoinBase := undo_fCoinBase undo,
                coins_nHeight := sint (undo_nHeight undo), coins_nVersion := undo_nVersion undo\<rparr>)
             else (\<not> IsPruned coins, coins));
          fClean = (fClean \<and> \<not> IsAvailable coins m);
          coins = (if length (coins_vout coins) < unat m + 1
            then coins\<lparr>coins_vout := coins_vout coins @ replicate (unat m + 1 - length (coins_vout coins)) CTxOut_null\<rparr>
            else coins)
      in (fClean, coins\<lparr>coins_vout := (coins_vout coins)[unat m := undo_txout undo]\<rparr>))"

text \<open>The inputs of a transaction, last one first.\<close>

fun restore_inputs :: "(CTxIn \<times> CTxInUndo) list \<Rightarrow> coins_view \<Rightarrow> bool \<Rightarrow> coins_view \<times> bool" where
  "restore_inputs [] v fClean = (v, fClean)"
| "restore_inputs ((txin, undo) # rest) v fClean =
     (case FetchCoins v (outhash (prevout txin)) of (found, v) \<Rightarrow>
      case restore_input undo (outn (prevout txin)) found of (ok, coins) \<Rightarrow>
        restore_inputs rest (SetCoins v (outhash (prevout txin)) coins) (fClean \<and> ok))"

text \<open>One transaction; the undo data is None for the coinbase. None where they do not fit.\<close>

definition disconnect_tx ::
  "uint256 \<Rightarrow> int \<Rightarrow> CTransaction \<Rightarrow> CTxUndo option \<Rightarrow> coins_view \<Rightarrow> bool \<Rightarrow> (coins_view \<times> bool) option" where
  "disconnect_tx hash nHeight tx undo v fClean =
     (case FetchCoins v hash of (found, v) \<Rightarrow>
      let (fClean, outs) = (case found of None \<Rightarrow> (False, CCoins_new) | Some c \<Rightarrow> (fClean, c));
          outsBlock = CCoins_of tx nHeight;
          outs = (if coins_nVersion outsBlock < 0 then outs\<lparr>coins_nVersion := coins_nVersion outsBlock\<rparr> else outs);
          fClean = (fClean \<and> outs = outsBlock);
          v = SetCoins v hash CCoins_new
      in case undo of None \<Rightarrow> Some (v, fClean)
         | Some txundo \<Rightarrow>
             if length txundo \<noteq> length (vin tx) then None
             else Some (restore_inputs (rev (zip (vin tx) txundo)) v fClean))"

fun disconnect_txs ::
  "(CTransaction \<Rightarrow> uint256) \<Rightarrow> int \<Rightarrow> (CTransaction \<times> CTxUndo option) list \<Rightarrow> coins_view \<Rightarrow> bool \<Rightarrow> (coins_view \<times> bool) option" where
  "disconnect_txs GetHash nHeight [] v fClean = Some (v, fClean)"
| "disconnect_txs GetHash nHeight ((tx, undo) # rest) v fClean =
     (case disconnect_tx (GetHash tx) nHeight tx undo v fClean of None \<Rightarrow> None
      | Some (v, fClean) \<Rightarrow> disconnect_txs GetHash nHeight rest v fClean)"

text \<open>
  The block, the height of its index and its parent; the undo data is None where it could not be read.
\<close>

definition DisconnectBlock ::
  "(CTransaction \<Rightarrow> uint256) \<Rightarrow> CTransaction list \<Rightarrow> int \<Rightarrow> nat option \<Rightarrow> CBlockUndo option \<Rightarrow> coins_view \<Rightarrow> (coins_view \<times> bool) option" where
  "DisconnectBlock GetHash txs nHeight pprev blockUndo view =
     (case blockUndo of None \<Rightarrow> None
      | Some vtxundo \<Rightarrow>
          if length vtxundo + 1 \<noteq> length txs then None
          else case disconnect_txs GetHash nHeight (rev (zip txs (None # map Some vtxundo))) view True of
            None \<Rightarrow> None
          | Some (view, fClean) \<Rightarrow> Some (SetBestBlock view pprev, fClean))"

section \<open>What a store keeps of a version\<close>

text \<open>
  On disk the version of coins and of undo data is a VARINT, which keeps seven bits of a negative number:
  WriteVarInt leaves its loop at once. A version of undo data is written only with a height.
\<close>

definition disk_version :: "int \<Rightarrow> int" where
  "disk_version n = (if n < 0 then n mod 128 else n)"

definition with_version :: "(int \<Rightarrow> int) \<Rightarrow> CCoins \<Rightarrow> CCoins" where
  "with_version g c = c\<lparr>coins_nVersion := g (coins_nVersion c)\<rparr>"

definition with_undo_version :: "(int \<Rightarrow> int) \<Rightarrow> CTxInUndo \<Rightarrow> CTxInUndo" where
  "with_undo_version g u = u\<lparr>undo_nVersion := (if undo_nHeight u = 0 then 0 else g (undo_nVersion u))\<rparr>"

definition disk_coins :: "CCoins \<Rightarrow> CCoins" where "disk_coins = with_version disk_version"
definition disk_undo :: "CTxInUndo \<Rightarrow> CTxInUndo" where "disk_undo = with_undo_version disk_version"

text \<open>
  The contract of a place that keeps coins: it changes at most the version, and not one that is not negative.
  Memory changes none, the disk those that VARINT loses.
\<close>

locale version_kept =
  fixes g :: "int \<Rightarrow> int"
  assumes kept: "0 \<le> n \<Longrightarrow> g n = n"

interpretation disk: version_kept disk_version
  by unfold_locales (simp add: disk_version_def)

interpretation memory: version_kept "\<lambda>n. n"
  by unfold_locales simp

lemma disk_version_idem [simp]: "disk_version (disk_version n) = disk_version n"
  by (simp add: disk_version_def)

lemma with_version_fields [simp]:
  "fCoinBase (with_version g c) = fCoinBase c" "coins_vout (with_version g c) = coins_vout c"
  "coins_nHeight (with_version g c) = coins_nHeight c" "coins_nVersion (with_version g c) = g (coins_nVersion c)"
  by (simp_all add: with_version_def)

lemma with_same_version [simp]: "with_version (\<lambda>n. n) c = c"
  by (simp add: with_version_def)

lemma disk_coins_idem [simp]: "disk_coins (disk_coins c) = disk_coins c"
  by (simp add: disk_coins_def with_version_def)

text \<open>An answer of a store, against what was put into it, and the same for undo data.\<close>

definition stored_as :: "(int \<Rightarrow> int) \<Rightarrow> CCoins option \<Rightarrow> CCoins option \<Rightarrow> bool" where
  "stored_as g a b \<longleftrightarrow> a = b \<or> a = map_option (with_version g) b"

definition undo_stored_as :: "(int \<Rightarrow> int) \<Rightarrow> CTxInUndo \<Rightarrow> CTxInUndo \<Rightarrow> bool" where
  "undo_stored_as g u w \<longleftrightarrow> u = w \<or> u = with_undo_version g w"

lemma stored_as_refl [simp]: "stored_as g a a"
  by (simp add: stored_as_def)

lemma stored_as_None [simp]: "stored_as g None b \<longleftrightarrow> b = None" "stored_as g a None \<longleftrightarrow> a = None"
  by (auto simp: stored_as_def)

lemma stored_as_Some: "stored_as g a (Some c) \<longleftrightarrow> a = Some c \<or> a = Some (with_version g c)"
  by (simp add: stored_as_def)

lemma stored_in_memory [simp]: "stored_as (\<lambda>n. n) a b \<longleftrightarrow> a = b"
  by (auto simp: stored_as_def with_version_def map_option_case split: option.splits)

lemma undo_stored_refl [simp]:
  "undo_stored_as g u u" "list_all2 (undo_stored_as g) us us" "list_all2 (list_all2 (undo_stored_as g)) uss uss"
  by (simp_all add: undo_stored_as_def list.rel_refl)

section \<open>Spending and restoring one output\<close>

definition clean :: "CCoins \<Rightarrow> bool" where
  "clean c \<longleftrightarrow> (coins_vout c \<noteq> [] \<longrightarrow> \<not> CTxOut_IsNull (last (coins_vout c)))"

lemma clean_Cleanup: "clean (Cleanup c)"
proof -
  have "\<not> CTxOut_IsNull (hd (dropWhile CTxOut_IsNull xs))" if "dropWhile CTxOut_IsNull xs \<noteq> []" for xs
    using that by (rule hd_dropWhile)
  then show ?thesis by (auto simp: clean_def Cleanup_def last_rev)
qed

lemma clean_pruned: "clean c \<Longrightarrow> IsPruned c \<longleftrightarrow> coins_vout c = []"
  by (cases "coins_vout c" rule: rev_cases) (auto simp: clean_def IsPruned_def list_all_iff)

lemma IsNull_null [simp]: "CTxOut_IsNull CTxOut_null"
  by (simp add: CTxOut_null_def CTxOut_IsNull_def)

definition tidy :: "CCoins \<Rightarrow> bool" where
  "tidy c \<longleftrightarrow> clean c \<and> (\<forall>q \<in> set (coins_vout c). CTxOut_IsNull q \<longrightarrow> q = CTxOut_null)
     \<and> (coins_vout c \<noteq> [] \<longrightarrow> 0 < coins_nHeight c \<and> coins_nHeight c < 2 ^ 31)"

lemma drop_nulls:
  assumes "\<forall>q \<in> set xs. CTxOut_IsNull q \<longrightarrow> q = CTxOut_null"
  shows "xs = rev (dropWhile CTxOut_IsNull (rev xs)) @
    replicate (length xs - length (dropWhile CTxOut_IsNull (rev xs))) CTxOut_null"
proof -
  have t: "takeWhile CTxOut_IsNull (rev xs) = replicate (length (takeWhile CTxOut_IsNull (rev xs))) CTxOut_null"
    using assms by (intro replicate_eqI) (auto dest: set_takeWhileD)
  have l: "length (takeWhile CTxOut_IsNull (rev xs)) = length xs - length (dropWhile CTxOut_IsNull (rev xs))"
    using length_append [of "takeWhile CTxOut_IsNull (rev xs)" "dropWhile CTxOut_IsNull (rev xs)"]
    by (simp only: takeWhile_dropWhile_id length_rev) 
  have "xs = rev (dropWhile CTxOut_IsNull (rev xs)) @ rev (takeWhile CTxOut_IsNull (rev xs))"
    by (metis rev_append rev_rev_ident takeWhile_dropWhile_id)
  then show ?thesis using t l by (metis rev_replicate)
qed

text \<open>Writing an output back into what spending it left gives the outputs that were there before.\<close>

lemma respend_vout:
  fixes xs :: "CTxOut list"
  assumes "m < length xs" and "xs \<noteq> [] \<longrightarrow> \<not> CTxOut_IsNull (last xs)"
    and "\<forall>q \<in> set xs. CTxOut_IsNull q \<longrightarrow> q = CTxOut_null"
  defines "zs \<equiv> rev (dropWhile CTxOut_IsNull (rev (xs[m := CTxOut_null])))"
  shows "(if length zs < m + 1 then zs @ replicate (m + 1 - length zs) CTxOut_null else zs)[m := xs ! m] = xs"
    and "\<not> (m < length zs \<and> \<not> CTxOut_IsNull (zs ! m))"
proof -
  define ys where "ys = xs[m := CTxOut_null]"
  define k where "k = length ys - length zs"
  have null: "\<forall>q \<in> set ys. CTxOut_IsNull q \<longrightarrow> q = CTxOut_null"
    using assms(3) set_update_subset_insert [of xs m CTxOut_null] by (auto simp: ys_def)
  have ys: "ys = zs @ replicate k CTxOut_null"
    using drop_nulls [OF null] by (simp add: zs_def ys_def k_def)
  have xs: "xs = ys[m := xs ! m]" by (simp add: ys_def)
  have len: "length xs = length zs + k" using ys by (metis length_append length_list_update length_replicate ys_def)
  have last: "m = length xs - 1" if "0 < k"
  proof (rule ccontr)
    assume "m \<noteq> length xs - 1"
    then have "last xs = last ys" using assms(1)
      by (subst (1 2) last_conv_nth) (auto simp: ys_def)
    also have "\<dots> = CTxOut_null" using that ys by simp
    finally have "CTxOut_IsNull (last xs)" by simp
    with assms(1,2) show False by auto
  qed
  show "(if length zs < m + 1 then zs @ replicate (m + 1 - length zs) CTxOut_null else zs)[m := xs ! m] = xs"
  proof (cases "k = 0")
    case True
    then have "zs = ys" using ys by simp
    with xs assms(1) show ?thesis by (simp add: ys_def)
  next
    case False
    then have "m + 1 = length zs + k" using last len assms(1) by simp
    with False have "(if length zs < m + 1 then zs @ replicate (m + 1 - length zs) CTxOut_null else zs) = ys"
      using ys by simp
    then show ?thesis using xs by simp
  qed
  show "\<not> (m < length zs \<and> \<not> CTxOut_IsNull (zs ! m))"
  proof
    assume a: "m < length zs \<and> \<not> CTxOut_IsNull (zs ! m)"
    then have "zs ! m = ys ! m" using ys by (simp add: nth_append)
    also have "\<dots> = CTxOut_null" using assms(1) by (simp add: ys_def)
    finally show False using a by simp
  qed
qed

text \<open>What matters of an answer: a transaction without unspent outputs is as good as none.\<close>

definition live :: "CCoins option \<Rightarrow> CCoins option" where
  "live c = (case c of None \<Rightarrow> None | Some c \<Rightarrow> if IsPruned c then None else Some c)"

lemma Spend_Some:
  assumes "Spend c p = Some (u, c')" and "tidy c"
  shows "c' = Cleanup (c\<lparr>coins_vout := (coins_vout c)[unat (outn p) := CTxOut_null]\<rparr>)"
    and "unat (outn p) < length (coins_vout c)" and "\<not> CTxOut_IsNull (coins_vout c ! unat (outn p))"
    and "u = (if coins_vout c' = []
      then \<lparr>undo_txout = coins_vout c ! unat (outn p), undo_fCoinBase = fCoinBase c,
        undo_nHeight = word_of_int (coins_nHeight c), undo_nVersion = coins_nVersion c\<rparr>
      else \<lparr>undo_txout = coins_vout c ! unat (outn p), undo_fCoinBase = False, undo_nHeight = 0, undo_nVersion = 0\<rparr>)"
    and "tidy c'"
proof -
  define d where "d = Cleanup (c\<lparr>coins_vout := (coins_vout c)[unat (outn p) := CTxOut_null]\<rparr>)"
  show c': "c' = Cleanup (c\<lparr>coins_vout := (coins_vout c)[unat (outn p) := CTxOut_null]\<rparr>)"
    and n: "unat (outn p) < length (coins_vout c)" and "\<not> CTxOut_IsNull (coins_vout c ! unat (outn p))"
    and "u = (if coins_vout c' = []
      then \<lparr>undo_txout = coins_vout c ! unat (outn p), undo_fCoinBase = fCoinBase c,
        undo_nHeight = word_of_int (coins_nHeight c), undo_nVersion = coins_nVersion c\<rparr>
      else \<lparr>undo_txout = coins_vout c ! unat (outn p), undo_fCoinBase = False, undo_nHeight = 0, undo_nVersion = 0\<rparr>)"
    using assms(1) unfolding Spend_def Let_def d_def [symmetric]
    by (auto simp: d_def Cleanup_def split: if_split_asm)
  have "clean c'" unfolding c' by (rule clean_Cleanup)
  moreover have "q = CTxOut_null" if "q \<in> set (coins_vout c')" "CTxOut_IsNull q" for q
    using that assms(2) set_update_subset_insert [of "coins_vout c" "unat (outn p)" CTxOut_null]
    by (auto simp: c' Cleanup_def tidy_def dest!: set_dropWhileD)
  ultimately show "tidy c'" using assms(2) by (auto simp: tidy_def c' Cleanup_def)
qed

context version_kept
begin

lemma restore_Spend:
  assumes s: "Spend c p = Some (u, c')" and t: "tidy c" and found: "stored_as g (live found) (live (Some c'))"
    and u: "undo_stored_as g u' u"
  obtains d where "restore_input u' (outn p) found = (True, d)" and "d = c \<or> d = with_version g c"
proof -
  note S = Spend_Some [OF s t]
  let ?m = "unat (outn p)"
  have left: "coins_vout c' = rev (dropWhile CTxOut_IsNull (rev ((coins_vout c)[?m := CTxOut_null])))"
    by (simp add: S(1) Cleanup_def)
  have same: "fCoinBase c' = fCoinBase c" "coins_nHeight c' = coins_nHeight c" "coins_nVersion c' = coins_nVersion c"
    by (simp_all add: S(1) Cleanup_def)
  have undone: "(if length (coins_vout c') < ?m + 1 then coins_vout c' @ replicate (?m + 1 - length (coins_vout c')) CTxOut_null
      else coins_vout c')[?m := coins_vout c ! ?m] = coins_vout c" "\<not> IsAvailable c' (outn p)"
    using respend_vout [OF S(2), folded left] t by (auto simp: tidy_def clean_def IsAvailable_def)
  show ?thesis
  proof (cases "coins_vout c' = []")
    case True
    have h: "0 < coins_nHeight c" "coins_nHeight c < 2 ^ 31" using t S(2) by (auto simp: tidy_def)
    then have nz: "(word_of_int (coins_nHeight c) :: u32) \<noteq> 0" "sint (word_of_int (coins_nHeight c) :: u32) = coins_nHeight c"
      using sint_word_of_int(1) [of "coins_nHeight c"] by (auto simp: int32_range_def)
    have "live (Some c') = None" using True by (simp add: live_def IsPruned_def)
    then have "live found = None" using found by simp
    then have p: "IsPruned (case found of Some c \<Rightarrow> c | None \<Rightarrow> CCoins_new)"
      by (auto simp: live_def CCoins_new_def IsPruned_def split: option.splits if_split_asm)
    obtain k where k: "u' = \<lparr>undo_txout = coins_vout c ! ?m, undo_fCoinBase = fCoinBase c,
        undo_nHeight = word_of_int (coins_nHeight c), undo_nVersion = k\<rparr>" "k = coins_nVersion c \<or> k = g (coins_nVersion c)"
      using u True nz(1) by (auto simp: S(4) undo_stored_as_def with_undo_version_def)
    have "restore_input u' (outn p) found = (True, c\<lparr>coins_nVersion := k\<rparr>)"
      using True undone nz p by (simp add: k(1) restore_input_def Let_def CCoins_new_def IsAvailable_def)
    moreover have "c\<lparr>coins_nVersion := k\<rparr> = c \<or> c\<lparr>coins_nVersion := k\<rparr> = with_version g c"
      using k(2) by (auto simp: with_version_def)
    ultimately show ?thesis by (rule that)
  next
    case False
    then have "\<not> IsPruned c'" using clean_pruned S(5) by (simp add: tidy_def)
    then have "live (Some c') = Some c'" by (simp add: live_def)
    then obtain d where d: "live found = Some d" "d = c' \<or> d = with_version g c'"
      using found by (auto simp: stored_as_Some)
    then have f: "found = Some d" "\<not> IsPruned d" by (auto simp: live_def split: option.splits if_split_asm)
    have u': "u' = u" using u False by (auto simp: S(4) undo_stored_as_def with_undo_version_def)
    have "restore_input u (outn p) found = (True, d\<lparr>coins_vout := coins_vout c\<rparr>)"
      using d(2) False undone S(4) f by (auto simp: restore_input_def Let_def IsAvailable_def)
    moreover have "d\<lparr>coins_vout := coins_vout c\<rparr> = c \<or> d\<lparr>coins_vout := coins_vout c\<rparr> = with_version g c"
      using d(2) by (auto simp: S(1) Cleanup_def with_version_def)
    ultimately show ?thesis using that unfolding u' by blast
  qed
qed

end

section \<open>Taking back what was applied\<close>

definition live_at :: "coins_view \<Rightarrow> uint256 \<Rightarrow> CCoins option" where
  "live_at v t = live (coins_at v t)"

definition tidy_view :: "coins_view \<Rightarrow> bool" where
  "tidy_view v \<longleftrightarrow> (\<forall>t c. coins_at v t = Some c \<longrightarrow> tidy c)"

text \<open>A view that answers what another, or a replay, has, up to what the store has made of versions.\<close>

definition stores :: "(int \<Rightarrow> int) \<Rightarrow> coins_view \<Rightarrow> (uint256 \<Rightarrow> CCoins option) \<Rightarrow> bool" where
  "stores g v L \<longleftrightarrow> (\<forall>t. stored_as g (live_at v t) (L t))"

lemma live_at_cong: "coins_at v' = coins_at v \<Longrightarrow> live_at v' = live_at v"
  by (simp add: live_at_def fun_eq_iff)

lemma live_at_SetCoins [simp]: "live_at (SetCoins v t c) = (live_at v)(t := live (Some c))"
  by (simp add: live_at_def cache.store_value fun_eq_iff)

lemma tidy_view_cong: "coins_at v' = coins_at v \<Longrightarrow> tidy_view v' = tidy_view v"
  by (simp add: tidy_view_def)

lemma tidy_view_SetCoins [intro]: "tidy_view v \<Longrightarrow> tidy c \<Longrightarrow> tidy_view (SetCoins v t c)"
  by (simp add: tidy_view_def cache.store_value)

lemma stores_cong: "coins_at v' = coins_at v \<Longrightarrow> stores g v' L = stores g v L"
  by (simp add: stores_def live_at_def)

lemma stores_own [simp]: "stores g v (live_at v)"
  by (simp add: stores_def)

lemma stores_in_memory [simp]: "stores (\<lambda>n. n) v L \<longleftrightarrow> live_at v = L"
  by (auto simp: stores_def)

lemma stores_SetCoins: "stores g v L \<Longrightarrow> stored_as g (live (Some d)) a \<Longrightarrow> stores g (SetCoins v t d) (L(t := a))"
  by (simp add: stores_def)

lemma live_with_version: "live (Some (with_version g c)) = map_option (with_version g) (live (Some c))"
  by (simp add: live_def IsPruned_def)

lemma stored_live: "d = c \<or> d = with_version g c \<Longrightarrow> stored_as g (live (Some d)) (live (Some c))"
  by (auto simp: live_with_version) (simp add: stored_as_def)

lemma tidy_with_version [simp]: "tidy (with_version g c) = tidy c"
  by (simp add: tidy_def clean_def)

lemma Spend_live:
  assumes "Spend c p = Some (u, c')" "tidy c"
  shows "live (Some c) = Some c"
proof -
  from Spend_Some(2,3) [OF assms] have "\<not> IsPruned c" by (auto simp: IsPruned_def list_all_iff)
  then show ?thesis by (simp add: live_def)
qed

lemma spend_inputs_Cons:
  assumes "spend_inputs (i # rest) v us = Some (v', us')" and "tidy_view v"
  obtains c u c' w where "coins_at v (outhash (prevout i)) = Some c" "tidy c"
    "Spend c (prevout i) = Some (u, c')" "coins_at w = coins_at v" "tidy_view (SetCoins w (outhash (prevout i)) c')"
    "spend_inputs rest (SetCoins w (outhash (prevout i)) c') (us @ [u]) = Some (v', us')"
proof -
  obtain w where w: "FetchCoins v (outhash (prevout i)) = (coins_at v (outhash (prevout i)), w)" "coins_at w = coins_at v"
    by (rule cache.fetch_cases)
  from assms(1) w obtain c where c: "coins_at v (outhash (prevout i)) = Some c" by (auto split: option.splits)
  with assms(1) w obtain u c' where s: "Spend c (prevout i) = Some (u, c')"
    and r: "spend_inputs rest (SetCoins w (outhash (prevout i)) c') (us @ [u]) = Some (v', us')"
    by (auto split: option.splits)
  have t: "tidy c" using assms(2) c by (simp add: tidy_view_def)
  have "tidy_view w" using assms(2) tidy_view_cong [OF w(2)] by simp
  then have "tidy_view (SetCoins w (outhash (prevout i)) c')" using Spend_Some(5) [OF s t] by (rule tidy_view_SetCoins)
  with c t s w(2) show ?thesis using r by (rule that)
qed

lemma spend_inputs_tidy: "spend_inputs ins v us = Some (v', us') \<Longrightarrow> tidy_view v \<Longrightarrow> tidy_view v'"
proof (induction ins arbitrary: v us)
  case (Cons i rest)
  from Cons.prems show ?case by (rule spend_inputs_Cons) (rule Cons.IH)
qed simp

text \<open>Spending makes no coins: a transaction that has none keeps none.\<close>

lemma spend_inputs_none:
  "spend_inputs ins v us = Some (v', us') \<Longrightarrow> tidy_view v \<Longrightarrow> live_at v t = None \<Longrightarrow> live_at v' t = None"
proof (induction ins arbitrary: v us)
  case (Cons i rest)
  obtain c u c' w where s: "coins_at v (outhash (prevout i)) = Some c" "tidy c"
    "Spend c (prevout i) = Some (u, c')" "coins_at w = coins_at v" "tidy_view (SetCoins w (outhash (prevout i)) c')"
    "spend_inputs rest (SetCoins w (outhash (prevout i)) c') (us @ [u]) = Some (v', us')"
    using Cons.prems(1,2) by (rule spend_inputs_Cons)
  have "t \<noteq> outhash (prevout i)" using Cons.prems(3) s(1) Spend_live [OF s(3,2)] by (auto simp: live_at_def)
  then have "live_at (SetCoins w (outhash (prevout i)) c') t = None"
    using Cons.prems(3) live_at_cong [OF s(4)] by simp
  then show ?case by (rule Cons.IH [OF s(6,5)])
qed simp

lemma restore_inputs_append:
  "restore_inputs (xs @ ys) v ok = (case restore_inputs xs v ok of (v, ok) \<Rightarrow> restore_inputs ys v ok)"
  by (induction xs v ok rule: restore_inputs.induct) (auto split: prod.splits)

context version_kept
begin

lemma restore_spend_inputs:
  "spend_inputs ins v us = Some (v', us') \<Longrightarrow> tidy_view v \<Longrightarrow>
    \<exists>new. us' = us @ new \<and> length new = length ins \<and>
      (\<forall>w ok kept. stores g w (live_at v') \<longrightarrow> list_all2 (undo_stored_as g) kept new \<longrightarrow>
        (\<exists>w'. restore_inputs (rev (zip ins kept)) w ok = (w', ok)
          \<and> stores g w' (live_at v) \<and> (tidy_view w \<longrightarrow> tidy_view w')))"
proof (induction ins arbitrary: v us)
  case (Cons i rest)
  let ?t = "outhash (prevout i)"
  obtain c u c' w where s: "coins_at v ?t = Some c" "tidy c"
    "Spend c (prevout i) = Some (u, c')" "coins_at w = coins_at v" "tidy_view (SetCoins w ?t c')"
    "spend_inputs rest (SetCoins w ?t c') (us @ [u]) = Some (v', us')"
    using Cons.prems by (rule spend_inputs_Cons)
  obtain new where new: "us' = (us @ [u]) @ new" "length new = length rest"
    and IH: "\<And>x ok kept. stores g x (live_at v') \<Longrightarrow> list_all2 (undo_stored_as g) kept new \<Longrightarrow>
      \<exists>x'. restore_inputs (rev (zip rest kept)) x ok = (x', ok) \<and> stores g x' (live_at (SetCoins w ?t c'))
        \<and> (tidy_view x \<longrightarrow> tidy_view x')"
    using Cons.IH [OF s(6,5)] by blast
  have "\<exists>x'. restore_inputs (rev (zip (i # rest) (u' # kept))) x ok = (x', ok) \<and> stores g x' (live_at v)
      \<and> (tidy_view x \<longrightarrow> tidy_view x')"
    if x: "stores g x (live_at v')" "undo_stored_as g u' u" "list_all2 (undo_stored_as g) kept new" for x ok u' kept
  proof -
    obtain y where y: "restore_inputs (rev (zip rest kept)) x ok = (y, ok)" "stores g y (live_at (SetCoins w ?t c'))"
      "tidy_view x \<longrightarrow> tidy_view y"
      using IH [OF x(1,3)] by blast
    obtain z where z: "FetchCoins y ?t = (coins_at y ?t, z)" "coins_at z = coins_at y" by (rule cache.fetch_cases)
    have "stored_as g (live (coins_at y ?t)) (live (Some c'))" using y(2) by (auto simp: stores_def live_at_def [of y] dest: spec [of _ ?t])
    then obtain d where d: "restore_input u' (outn (prevout i)) (coins_at y ?t) = (True, d)" "d = c \<or> d = with_version g c"
      by (rule restore_Spend [OF s(3,2) _ x(2)])
    have "live_at v = (live_at (SetCoins w ?t c'))(?t := live (Some c))"
      using live_at_cong [OF s(4)] s(1) by (auto simp: fun_eq_iff live_at_def)
    moreover have "stores g (SetCoins z ?t d) ((live_at (SetCoins w ?t c'))(?t := live (Some c)))"
      using y(2) stores_cong [OF z(2)] stored_live [OF d(2)] by (intro stores_SetCoins) simp_all
    moreover have "tidy_view x \<longrightarrow> tidy_view (SetCoins z ?t d)"
      using y(3) tidy_view_cong [OF z(2)] s(2) d(2) by auto
    ultimately show ?thesis using y(1) z(1) d(1) list_all2_lengthD [OF x(3)] new(2) by (simp add: restore_inputs_append)
  qed
  with new show ?case by (intro exI [of _ "u # new"]) (auto simp: list_all2_Cons2)
qed simp

end

lemma disconnect_txs_append:
  "disconnect_txs GetHash h (xs @ ys) v ok =
    (case disconnect_txs GetHash h xs v ok of None \<Rightarrow> None | Some (v, ok) \<Rightarrow> disconnect_txs GetHash h ys v ok)"
  by (induction GetHash h xs v ok rule: disconnect_txs.induct) (auto split: option.splits)

text \<open>A transaction with outputs worth keeping, and a height a block other than the first can have.\<close>

definition tx_pays :: "CTransaction \<Rightarrow> bool" where
  "tx_pays tx \<longleftrightarrow> vout tx \<noteq> [] \<and> list_all (\<lambda>q. \<not> CTxOut_IsNull q) (vout tx)"

lemma tx_pays_coins:
  assumes "tx_pays tx" "0 < h" "h < 2 ^ 31"
  shows "tidy (CCoins_of tx h)" and "live (Some (CCoins_of tx h)) = Some (CCoins_of tx h)"
  using assms by (auto simp: tx_pays_def tidy_def clean_def CCoins_of_def live_def IsPruned_def list_all_iff dest: last_in_set)

context version_kept
begin

lemma disconnect_UpdateCoins:
  assumes up: "UpdateCoins tx v h t = Some (v', txundo)" and "tidy_view v"
    and tx: "tx_pays tx" "0 < h" "h < 2 ^ 31" and new: "live_at v t = None"
    and w: "stores g w (live_at v')" and kept_undo: "list_all2 (undo_stored_as g) undo txundo"
  shows "\<exists>w'. disconnect_tx t h tx (if IsCoinBase tx then None else Some undo) w ok = Some (w', ok) \<and> stores g w' (live_at v)
    \<and> (tidy_view w \<longrightarrow> tidy_view w')"
proof -
  obtain x where x: "(if IsCoinBase tx then Some (v, []) else spend_inputs (vin tx) v []) = Some (x, txundo)"
    and v': "v' = SetCoins x t (CCoins_of tx h)"
    using up by (auto simp: UpdateCoins_def split: option.splits)
  obtain y where y: "FetchCoins w t = (coins_at w t, y)" "coins_at y = coins_at w" by (rule cache.fetch_cases)
  have "live_at v' t = Some (CCoins_of tx h)" using tx_pays_coins(2) [OF tx] by (simp add: v')
  then have "stored_as g (live (coins_at w t)) (Some (CCoins_of tx h))"
    using w by (simp add: stores_def live_at_def) (metis live_at_def)
  then obtain d where d: "coins_at w t = Some d" "d = CCoins_of tx h \<or> d = with_version g (CCoins_of tx h)"
    by (auto simp: stored_as_Some live_def split: option.splits if_split_asm)
  define z where "z = SetCoins y t CCoins_new"
  have step: "disconnect_tx t h tx undo w ok = (case undo of None \<Rightarrow> Some (z, ok)
    | Some txundo \<Rightarrow> if length txundo \<noteq> length (vin tx) then None
      else Some (restore_inputs (rev (zip (vin tx) txundo)) z ok))" for undo
  proof -
    have "(if coins_nVersion (CCoins_of tx h) < 0 then d\<lparr>coins_nVersion := coins_nVersion (CCoins_of tx h)\<rparr> else d) = CCoins_of tx h"
      using d(2) by (auto simp: with_version_def kept)
    with y d(1) show ?thesis by (cases undo) (simp_all add: disconnect_tx_def z_def Let_def)
  qed
  have "live (Some CCoins_new) = None" by (simp add: live_def CCoins_new_def IsPruned_def)
  then have z: "stores g z ((live_at x)(t := None))"
    using w stores_cong [OF y(2)] stores_SetCoins [of g y "live_at v'" CCoins_new None t] by (simp add: z_def v')
  have tz: "tidy_view w \<longrightarrow> tidy_view z"
    using tidy_view_cong [OF y(2)] by (auto simp: z_def tidy_def clean_def CCoins_new_def)
  show ?thesis
  proof (cases "IsCoinBase tx")
    case True
    then have "(live_at x)(t := None) = live_at v" using x new by (auto simp: fun_eq_iff)
    then show ?thesis using z tz True step by auto
  next
    case False
    then have s: "spend_inputs (vin tx) v [] = Some (x, txundo)" using x by simp
    have "live_at x t = None" by (rule spend_inputs_none [OF s assms(2) new])
    then have "stores g z (live_at x)" using z by (simp add: fun_upd_idem)
    with restore_spend_inputs [OF s assms(2)] kept_undo obtain w' where
      "restore_inputs (rev (zip (vin tx) undo)) z ok = (w', ok)" "stores g w' (live_at v)" "tidy_view z \<longrightarrow> tidy_view w'"
      "length txundo = length (vin tx)" by fastforce
    then show ?thesis using False tz list_all2_lengthD [OF kept_undo] by (auto simp: step)
  qed
qed

end

section \<open>A cache is transparent\<close>

lemma spend_inputs_cong:
  "coins_at v = coins_at w \<Longrightarrow>
    map_option (apfst coins_at) (spend_inputs ins v us) = map_option (apfst coins_at) (spend_inputs ins w us)"
proof (induction ins arbitrary: v w us)
  case (Cons i rest)
  let ?t = "outhash (prevout i)"
  obtain v' where v: "FetchCoins v ?t = (coins_at v ?t, v')" "coins_at v' = coins_at v" by (rule cache.fetch_cases)
  obtain w' where w: "FetchCoins w ?t = (coins_at w ?t, w')" "coins_at w' = coins_at w" by (rule cache.fetch_cases)
  have "coins_at (SetCoins v' ?t c) = coins_at (SetCoins w' ?t c)" for c
    using Cons.prems v(2) w(2) by (simp add: cache.store_value)
  then show ?case using Cons.prems v(1) w(1) by (auto split: option.split intro!: Cons.IH)
qed simp

lemma UpdateCoins_cong:
  assumes "coins_at v = coins_at w"
  shows "map_option (apfst coins_at) (UpdateCoins tx v h t) = map_option (apfst coins_at) (UpdateCoins tx w h t)"
proof -
  let ?in = "\<lambda>v. if IsCoinBase tx then Some (v, []) else spend_inputs (vin tx) v []"
  have "map_option (apfst coins_at) (UpdateCoins tx v h t) =
    map_option (apfst (\<lambda>f. f(t \<mapsto> CCoins_of tx h))) (map_option (apfst coins_at) (?in v))" for v
    by (auto simp: UpdateCoins_def cache.store_value apfst_def map_prod_def split: option.split prod.split)
  moreover have "map_option (apfst coins_at) (?in v) = map_option (apfst coins_at) (?in w)"
    using assms spend_inputs_cong [OF assms] by simp
  ultimately show ?thesis by metis
qed

text \<open>A cache keeps what it had of the view behind it, and its entries in order.\<close>

definition behind :: "(uint256 \<Rightarrow> CCoins option) \<Rightarrow> coins_view \<Rightarrow> bool" where
  "behind f v \<longleftrightarrow> base v = f \<and> sm_wf (cacheCoins v)"

lemma behind_FetchCoins: "behind f v \<Longrightarrow> FetchCoins v t = (r, v') \<Longrightarrow> behind f v'"
  by (auto simp: behind_def FetchCoins_def split: option.splits)

lemma behind_SetCoins: "behind f v \<Longrightarrow> behind f (SetCoins v t c)"
  by (auto simp: behind_def SetCoins_def)

lemma behind_spend_inputs: "spend_inputs ins v us = Some (v', us') \<Longrightarrow> behind f v \<Longrightarrow> behind f v'"
proof (induction ins arbitrary: v us)
  case (Cons i rest)
  obtain r w where "FetchCoins v (outhash (prevout i)) = (r, w)" by (cases "FetchCoins v (outhash (prevout i))")
  moreover from this have "behind f (SetCoins w (outhash (prevout i)) c)" for c
    using Cons.prems(2) behind_FetchCoins behind_SetCoins by blast
  ultimately show ?case using Cons.prems(1) by (auto split: option.splits intro: Cons.IH)
qed simp

lemma behind_UpdateCoins: "UpdateCoins tx v h t = Some (v', us) \<Longrightarrow> behind f v \<Longrightarrow> behind f v'"
  by (auto simp: UpdateCoins_def split: option.splits if_splits intro: behind_SetCoins behind_spend_inputs)

lemma map_of_batch:
  "distinct (map fst m) \<Longrightarrow>
    map_of (cacheCoins (fold (\<lambda>(k, c) w. w\<lparr>cacheCoins := sm_put k c (cacheCoins w)\<rparr>) m p)) = map_of (cacheCoins p) ++ map_of m"
proof (induction m arbitrary: p)
  case (Cons e m)
  then have "map_of m (fst e) = None" by (simp add: map_of_eq_None_iff)
  with Cons show ?case by (cases e) (auto simp: map_add_def fun_eq_iff split: option.split)
qed simp

lemma base_batch: "base (fold (\<lambda>(k, c) w. w\<lparr>cacheCoins := sm_put k c (cacheCoins w)\<rparr>) m p) = base p"
  by (induction m arbitrary: p) auto

lemma Flush_coins:
  assumes "behind (coins_at p) v"
  shows "coins_at (snd (Flush v p)) = coins_at v" and "coins_at (fst (Flush v p)) = coins_at v"
    and "cacheCoins (fst (Flush v p)) = []" and "pindexTip (snd (Flush v p)) = pindexTip v"
proof -
  have d: "distinct (map fst (cacheCoins v))" using assms sm_wf_distinct by (auto simp: behind_def)
  show s: "coins_at (snd (Flush v p)) = coins_at v"
    using assms by (auto simp: Flush_def Let_def coins_at_def BatchWrite_def map_of_batch [OF d] base_batch
      behind_def fun_eq_iff map_add_def split: option.split)
  then show "coins_at (fst (Flush v p)) = coins_at v" by (auto simp: Flush_def Let_def coins_at_def fun_eq_iff)
  show "cacheCoins (fst (Flush v p)) = []" and "pindexTip (snd (Flush v p)) = pindexTip v"
    by (simp_all add: Flush_def BatchWrite_def Let_def)
qed

text \<open>
  C9: a cache in front of a view is transparent. Applying a transaction in a fresh cache and flushing it
  fails exactly when applying it to the view itself does, collects the same undo data, and leaves in the
  view and in the emptied cache the same coins.
\<close>

theorem cache_transparent:
  "map_option (\<lambda>(v, undo). (coins_at (snd (Flush v p)), coins_at (fst (Flush v p)), undo))
      (UpdateCoins tx (CCoinsViewCache (coins_at p) best) h t) =
   map_option (\<lambda>(v, undo). (coins_at v, coins_at v, undo)) (UpdateCoins tx p h t)"
proof -
  let ?v = "CCoinsViewCache (coins_at p) best"
  have "coins_at ?v = coins_at p" by (rule ext) (simp add: CCoinsViewCache_def coins_at_def)
  note same = UpdateCoins_cong [OF this, of tx h t]
  show ?thesis
  proof (cases "UpdateCoins tx ?v h t")
    case None
    then show ?thesis using same by simp
  next
    case (Some r)
    obtain v u where r: "r = (v, u)" by (cases r)
    have "behind (coins_at p) ?v" by (simp add: behind_def CCoinsViewCache_def)
    then have "behind (coins_at p) v" using behind_UpdateCoins Some r by blast
    from Flush_coins(1,2) [OF this] same Some r show ?thesis by (auto simp: map_option_case split: option.splits)
  qed
qed

end
