(* ===== verification/Merkle.thy ===== *)
theory Merkle
  imports Transaction
begin

text \<open>
  main.h, CBlock: the Merkle tree over the transactions of a block, the branch of one transaction, and
  the check of a branch. The tree is the one vector vMerkleTree, its rows one after the other.
\<close>

section \<open>The code\<close>

definition Hash_pair :: "crypto \<Rightarrow> uint256 \<Rightarrow> uint256 \<Rightarrow> uint256" where
  "Hash_pair C a b = u256_of_bytes (Hash_bytes C (ser_word a @ ser_word b))"

text \<open>The outer loop; each turn appends the hashes of the pairs of the row of nSize that starts at j.\<close>

function merkle_loop :: "crypto \<Rightarrow> nat \<Rightarrow> nat \<Rightarrow> uint256 list \<Rightarrow> uint256 list" where
  "merkle_loop C nSize j t =
     (if nSize > 1
      then merkle_loop C ((nSize + 1) div 2) (j + nSize)
        (t @ map (\<lambda>k. Hash_pair C (t ! (j + 2 * k)) (t ! (j + min (2 * k + 1) (nSize - 1)))) [0..<(nSize + 1) div 2])
      else t)"
  by pat_completeness auto
termination by (relation "measure (\<lambda>(C, nSize, j, t). nSize)") auto

declare merkle_loop.simps [simp del]

text \<open>The vector that BuildMerkleTree leaves, and the root it returns.\<close>

definition vMerkleTree :: "crypto \<Rightarrow> CTransaction list \<Rightarrow> uint256 list" where
  "vMerkleTree C txs = merkle_loop C (length txs) 0 (map (tx_hash C) txs)"

definition BuildMerkleTree :: "crypto \<Rightarrow> CTransaction list \<Rightarrow> uint256" where
  "BuildMerkleTree C txs = (if vMerkleTree C txs = [] then 0 else last (vMerkleTree C txs))"

text \<open>None where an assertion fails.\<close>

definition GetTxHash :: "uint256 list \<Rightarrow> CTransaction list \<Rightarrow> nat \<Rightarrow> uint256 option" where
  "GetTxHash t txs nIndex = (if t = [] then None else if nIndex \<ge> length txs then None else Some (t ! nIndex))"

function branch_loop :: "uint256 list \<Rightarrow> nat \<Rightarrow> nat \<Rightarrow> nat \<Rightarrow> uint256 list" where
  "branch_loop t nIndex nSize j =
     (if nSize > 1
      then t ! (j + min (xor nIndex 1) (nSize - 1)) # branch_loop t (drop_bit 1 nIndex) ((nSize + 1) div 2) (j + nSize)
      else [])"
  by pat_completeness auto
termination by (relation "measure (\<lambda>(t, nIndex, nSize, j). nSize)") auto

declare branch_loop.simps [simp del]

definition GetMerkleBranch :: "crypto \<Rightarrow> CTransaction list \<Rightarrow> nat \<Rightarrow> uint256 list" where
  "GetMerkleBranch C txs nIndex = branch_loop (vMerkleTree C txs) nIndex (length txs) 0"

fun check_branch :: "crypto \<Rightarrow> uint256 \<Rightarrow> uint256 list \<Rightarrow> int \<Rightarrow> uint256" where
  "check_branch C h [] nIndex = h"
| "check_branch C h (otherside # rest) nIndex =
     check_branch C (if odd nIndex then Hash_pair C otherside h else Hash_pair C h otherside) rest (drop_bit 1 nIndex)"

definition CheckMerkleBranch :: "crypto \<Rightarrow> uint256 \<Rightarrow> uint256 list \<Rightarrow> int \<Rightarrow> uint256" where
  "CheckMerkleBranch C h vMerkleBranch nIndex = (if nIndex = - 1 then 0 else check_branch C h vMerkleBranch nIndex)"

section \<open>The tree, row by row\<close>

definition parents :: "crypto \<Rightarrow> uint256 list \<Rightarrow> uint256 list" where
  "parents C xs = map (\<lambda>k. Hash_pair C (xs ! (2 * k)) (xs ! min (2 * k + 1) (length xs - 1))) [0..<(length xs + 1) div 2]"

lemma length_parents [simp]: "length (parents C xs) = (length xs + 1) div 2"
  by (simp add: parents_def)

lemma parents_Nil [simp]: "parents C xs = [] \<longleftrightarrow> xs = []"
  by (simp flip: length_0_conv) arith

function root :: "crypto \<Rightarrow> uint256 list \<Rightarrow> uint256" where
  "root C xs = (if length xs > 1 then root C (parents C xs) else last xs)"
  by pat_completeness auto
termination by (relation "measure (\<lambda>(C, xs). length xs)") auto

function branch :: "crypto \<Rightarrow> uint256 list \<Rightarrow> nat \<Rightarrow> uint256 list" where
  "branch C xs i =
     (if length xs > 1 then xs ! min (if even i then i + 1 else i - 1) (length xs - 1) # branch C (parents C xs) (i div 2)
      else [])"
  by pat_completeness auto
termination by (relation "measure (\<lambda>(C, xs, i). length xs)") auto

declare root.simps [simp del] branch.simps [simp del]

lemma merkle_step:
  assumes "length t = j + length xs" "drop j t = xs"
  shows "t @ map (\<lambda>k. Hash_pair C (t ! (j + 2 * k)) (t ! (j + min (2 * k + 1) (length xs - 1)))) [0..<(length xs + 1) div 2] =
    t @ parents C xs"
proof -
  have "t ! (j + k) = xs ! k" for k using assms(1) by (subst assms(2) [symmetric]) simp
  then show ?thesis by (simp add: parents_def)
qed

lemma merkle_loop_prefix: "\<exists>zs. merkle_loop C n j t = t @ zs"
proof (induction C n j t rule: merkle_loop.induct)
  case (1 C n j t)
  show ?case
  proof (cases "n > 1")
    case True
    from "1.IH" [OF True] show ?thesis using True by (auto simp: merkle_loop.simps [of C n j t])
  next
    case False
    then show ?thesis by (simp add: merkle_loop.simps [of C n j t])
  qed
qed

lemma merkle_loop_root:
  "length t = j + length xs \<Longrightarrow> drop j t = xs \<Longrightarrow> xs \<noteq> [] \<Longrightarrow> last (merkle_loop C (length xs) j t) = root C xs"
proof (induction C xs arbitrary: j t rule: root.induct)
  case (1 C xs)
  show ?case
  proof (cases "length xs > 1")
    case True
    have "last (merkle_loop C (length (parents C xs)) (j + length xs) (t @ parents C xs)) = root C (parents C xs)"
      using "1.prems" True by (intro "1.IH") auto
    with True show ?thesis
      using merkle_step [OF "1.prems"(1,2)] by (simp add: merkle_loop.simps [of C "length xs"] root.simps [of C xs])
  next
    case False
    have "j < length t" using "1.prems"(1,3) by simp
    then have "last xs = last t" unfolding "1.prems"(2) [symmetric] by (rule last_drop)
    with False show ?thesis
      by (simp add: merkle_loop.simps [of C "length xs" j t] root.simps [of C xs])
  qed
qed

lemma branch_loop_branch:
  "length t = j + length xs \<Longrightarrow> drop j t = xs \<Longrightarrow> branch_loop (merkle_loop C (length xs) j t) i (length xs) j = branch C xs i"
proof (induction C xs i arbitrary: j t rule: branch.induct)
  case (1 C xs i)
  show ?case
  proof (cases "length xs > 1")
    case True
    let ?m = "merkle_loop C (length xs) j t"
    have step: "?m = merkle_loop C (length (parents C xs)) (j + length xs) (t @ parents C xs)"
      using True merkle_step [OF "1.prems"] by (simp add: merkle_loop.simps [of C "length xs"])
    have IH: "branch_loop ?m (i div 2) (length (parents C xs)) (j + length xs) = branch C (parents C xs) (i div 2)"
      unfolding step using "1.prems" True by (intro "1.IH") auto
    obtain zs where "?m = t @ zs" using merkle_loop_prefix by blast
    then have "?m ! (j + k) = xs ! k" if "k < length xs" for k
      using "1.prems"(1) that by (subst "1.prems"(2) [symmetric]) (simp add: nth_append)
    moreover have "xor i 1 = (if even i then i + 1 else i - 1)"
      using xor_Suc_0_eq [of i] by auto
    ultimately show ?thesis using True IH
      by (simp add: branch_loop.simps [of ?m i] branch.simps [of C xs i] drop_bit_eq_div)
  next
    case False
    then show ?thesis by (simp add: branch_loop.simps branch.simps)
  qed
qed

lemma parents_nth:
  assumes "i < length xs" "length xs > 1"
  defines "s \<equiv> xs ! min (if even i then i + 1 else i - 1) (length xs - 1)"
  shows "parents C xs ! (i div 2) = (if odd i then Hash_pair C s (xs ! i) else Hash_pair C (xs ! i) s)"
proof -
  have "i div 2 < (length xs + 1) div 2" using assms by linarith
  then have "parents C xs ! (i div 2) = Hash_pair C (xs ! (2 * (i div 2))) (xs ! min (2 * (i div 2) + 1) (length xs - 1))"
    by (simp add: parents_def)
  moreover have "2 * (i div 2) = (if odd i then i - 1 else i)" by auto
  ultimately show ?thesis using assms by (auto simp: min_def elim!: oddE)
qed

lemma check_branch_root:
  "i < length xs \<Longrightarrow> check_branch C (xs ! i) (branch C xs i) (int i) = root C xs"
proof (induction C xs i rule: branch.induct)
  case (1 C xs i)
  show ?case
  proof (cases "length xs > 1")
    case True
    have "check_branch C (parents C xs ! (i div 2)) (branch C (parents C xs) (i div 2)) (int (i div 2)) = root C (parents C xs)"
      using "1.prems" True by (intro "1.IH") auto
    then show ?thesis using True unfolding parents_nth [OF "1.prems" True]
      by (simp add: branch.simps [of C xs i] root.simps [of C xs] drop_bit_eq_div zdiv_int
          del: Suc_less_eq One_nat_def split del: if_split cong: if_weak_cong)
  next
    case False
    with "1.prems" have "xs = [xs ! i]" by (cases xs) auto
    then have "last xs = xs ! i" by (metis last.simps)
    with False show ?thesis by (simp add: branch.simps [of C xs i] root.simps [of C xs])
  qed
qed

section \<open>Properties\<close>

lemma vMerkleTree_facts:
  assumes "txs \<noteq> []"
  shows "BuildMerkleTree C txs = root C (map (tx_hash C) txs)"
    and "GetMerkleBranch C txs i = branch C (map (tx_hash C) txs) i"
    and "i < length txs \<Longrightarrow> GetTxHash (vMerkleTree C txs) txs i = Some (tx_hash C (txs ! i))"
proof -
  let ?xs = "map (tx_hash C) txs"
  obtain zs where zs: "vMerkleTree C txs = ?xs @ zs"
    using merkle_loop_prefix [of C "length txs" 0 ?xs] by (auto simp: vMerkleTree_def)
  have "last (vMerkleTree C txs) = root C ?xs"
    using merkle_loop_root [of ?xs 0 ?xs C] assms by (simp add: vMerkleTree_def)
  then show "BuildMerkleTree C txs = root C ?xs" using zs assms by (simp add: BuildMerkleTree_def)
  show "GetMerkleBranch C txs i = branch C ?xs i"
    using branch_loop_branch [of ?xs 0 ?xs C i] by (simp add: GetMerkleBranch_def vMerkleTree_def)
  show "i < length txs \<Longrightarrow> GetTxHash (vMerkleTree C txs) txs i = Some (tx_hash C (txs ! i))"
    using zs assms by (simp add: GetTxHash_def nth_append)
qed

text \<open>
  The branch that GetMerkleBranch gives for a transaction of a block leads CheckMerkleBranch from its
  hash to the root that BuildMerkleTree computes, rows of odd length and the repeated last hash included,
  whatever the hash function is.
\<close>

theorem merkle_branch_check:
  assumes "i < length txs"
  shows "map_option (\<lambda>h. CheckMerkleBranch C h (GetMerkleBranch C txs i) (int i)) (GetTxHash (vMerkleTree C txs) txs i)
    = Some (BuildMerkleTree C txs)"
proof -
  have "txs \<noteq> []" using assms by auto
  note facts = vMerkleTree_facts [OF this]
  show ?thesis using assms check_branch_root [of i "map (tx_hash C) txs" C]
    by (simp add: facts CheckMerkleBranch_def)
qed

text \<open>The pairs that CheckMerkleBranch hashes on its way up.\<close>

fun branch_pairs :: "crypto \<Rightarrow> uint256 \<Rightarrow> uint256 list \<Rightarrow> int \<Rightarrow> (uint256 \<times> uint256) list" where
  "branch_pairs C h [] n = []"
| "branch_pairs C h (s # rest) n =
     (let p = (if odd n then (s, h) else (h, s))
      in p # branch_pairs C (Hash_pair C (fst p) (snd p)) rest (drop_bit 1 n))"

definition pairs_collide :: "crypto \<Rightarrow> (uint256 \<times> uint256) list \<Rightarrow> (uint256 \<times> uint256) list \<Rightarrow> bool" where
  "pairs_collide C ps qs =
     list_ex (\<lambda>(p, q). p \<noteq> q \<and> Hash_pair C (fst p) (snd p) = Hash_pair C (fst q) (snd q)) (zip ps qs)"

lemma pairs_collide_Cons [simp]:
  "\<not> pairs_collide C [] qs"
  "pairs_collide C (p # ps) (q # qs) \<longleftrightarrow>
     p \<noteq> q \<and> Hash_pair C (fst p) (snd p) = Hash_pair C (fst q) (snd q) \<or> pairs_collide C ps qs"
  by (simp_all add: pairs_collide_def)

lemma check_branch_binding:
  "length bs = length bs' \<Longrightarrow> check_branch C h bs n = check_branch C h' bs' n
    \<Longrightarrow> h = h' \<or> pairs_collide C (branch_pairs C h bs n) (branch_pairs C h' bs' n)"
proof (induction bs bs' arbitrary: h h' n rule: list_induct2)
  case (Cons b bs b' bs')
  then show ?case by (cases "odd n") (auto simp: Let_def)
qed simp

text \<open>
  C20: a branch proves what it claims. If a branch of the right length leads from a hash at a position to
  the root of a block then it is the hash of the transaction at that position, or at some height the pair
  hashed on that way and the pair hashed on the way of the block's own branch are two different pairs with
  the same double SHA-256.
\<close>

theorem merkle_branch_binding:
  assumes "i < length txs" and "length bs = length (GetMerkleBranch C txs i)"
    and "CheckMerkleBranch C h bs (int i) = BuildMerkleTree C txs"
  shows "h = tx_hash C (txs ! i)
    \<or> pairs_collide C (branch_pairs C h bs (int i))
        (branch_pairs C (tx_hash C (txs ! i)) (GetMerkleBranch C txs i) (int i))"
proof -
  have "txs \<noteq> []" using assms(1) by auto
  note facts = vMerkleTree_facts [OF this]
  have "check_branch C h bs (int i) = check_branch C (tx_hash C (txs ! i)) (GetMerkleBranch C txs i) (int i)"
    using assms(1,3) check_branch_root [of i "map (tx_hash C) txs" C] by (simp add: facts CheckMerkleBranch_def)
  with assms(2) show ?thesis by (rule check_branch_binding)
qed

definition plain_crypto :: crypto where
  "plain_crypto = \<lparr>RIPEMD160 = id, SHA1 = id, SHA256 = id\<rparr>"

theorem merkle_branch_check_witness:
  "map_option (\<lambda>h. CheckMerkleBranch plain_crypto h (GetMerkleBranch plain_crypto [sample_tx, sample_tx, sample_tx] 2) 2)
    (GetTxHash (vMerkleTree plain_crypto [sample_tx, sample_tx, sample_tx]) [sample_tx, sample_tx, sample_tx] 2)
    = Some (BuildMerkleTree plain_crypto [sample_tx, sample_tx, sample_tx])"
  using merkle_branch_check [of 2 "[sample_tx, sample_tx, sample_tx]" plain_crypto] by simp

theorem merkle_branch_binding_witness:
  "tx_hash plain_crypto sample_tx = tx_hash plain_crypto ([sample_tx, sample_tx] ! 1)
    \<or> pairs_collide plain_crypto
        (branch_pairs plain_crypto (tx_hash plain_crypto sample_tx) (GetMerkleBranch plain_crypto [sample_tx, sample_tx] 1) (int 1))
        (branch_pairs plain_crypto (tx_hash plain_crypto ([sample_tx, sample_tx] ! 1))
          (GetMerkleBranch plain_crypto [sample_tx, sample_tx] 1) (int 1))"
proof (rule merkle_branch_binding [where bs = "GetMerkleBranch plain_crypto [sample_tx, sample_tx] 1"])
  show "CheckMerkleBranch plain_crypto (tx_hash plain_crypto sample_tx)
      (GetMerkleBranch plain_crypto [sample_tx, sample_tx] 1) (int 1) = BuildMerkleTree plain_crypto [sample_tx, sample_tx]"
    using check_branch_root [of 1 "map (tx_hash plain_crypto) [sample_tx, sample_tx]" plain_crypto]
    by (simp add: vMerkleTree_facts CheckMerkleBranch_def)
qed simp_all

end
