(* ===== verification/Work.thy ===== *)
theory Work
  imports Phoenix Transaction
begin

text \<open>
  main.cpp: the proof of work of a block and the target of the next one. A CBlockIndex with its chain of
  pprev pointers is the list of the entries from it back to the first block. Numbers of OpenSSL are those
  of the theory of big numbers. The 64 bit intermediates are integers. None is a failed assertion or a null
  pointer.
\<close>

section \<open>CBigNum and uint256\<close>

fun setuint256_loop :: "byte list \<Rightarrow> bool \<Rightarrow> byte list \<Rightarrow> byte list" where
  "setuint256_loop [] fLeadingZeroes p = p"
| "setuint256_loop (c # psrc) fLeadingZeroes p =
     (if fLeadingZeroes then
        (if c = 0 then setuint256_loop psrc True p
         else setuint256_loop psrc False ((if c AND 0x80 \<noteq> 0 then p @ [0] else p) @ [c]))
      else setuint256_loop psrc False (p @ [c]))"

definition setuint256 :: "'b bn_lib \<Rightarrow> uint256 \<Rightarrow> 'b" where
  "setuint256 L n = (let p = setuint256_loop (rev (le_fixed 32 (unat n))) True [] in
     BN_mpi2bn L (be32 (word_of_nat (length p)) @ p))"

definition getuint256 :: "'b bn_lib \<Rightarrow> 'b \<Rightarrow> uint256" where
  "getuint256 L bn =
     (let vch = BN_bn2mpi L bn in
      if length vch < 4 then 0
      else let vch = (if length vch > 4 then vch[4 := vch ! 4 AND 0x7f] else vch) in
        word_of_nat (le_val (take 32 (rev (drop 4 vch)))))"

section \<open>The rules\<close>

record CBlockIndex =
  idx_nHeight :: int
  idx_nVersion :: int
  idx_nTime :: u32
  idx_nBits :: u32

definition nTargetTimespan :: int where "nTargetTimespan = 60 * 60"
definition nTargetSpacing :: int where "nTargetSpacing = 30"
definition nInterval :: int where "nInterval = c_div nTargetTimespan nTargetSpacing"
definition nTargetTimespanRe :: int where "nTargetTimespanRe = 60 * 60"
definition nTargetSpacingRe :: int where "nTargetSpacingRe = 1 * 30"
definition nIntervalRe :: int where "nIntervalRe = c_div nTargetTimespanRe nTargetSpacingRe"
definition nDiffChangeTarget :: int where "nDiffChangeTarget = 600000"
definition PHOENIX_ACTIVATION_HEIGHT :: int where "PHOENIX_ACTIVATION_HEIGHT = 4194000"

definition bnProofOfWorkLimit :: "'b bn_lib \<Rightarrow> 'b" where
  "bnProofOfWorkLimit L = setuint256 L (drop_bit 20 (NOT 0))"

definition CheckProofOfWork :: "'b bn_lib \<Rightarrow> uint256 \<Rightarrow> u32 \<Rightarrow> bool" where
  "CheckProofOfWork L hash bits =
     (let bnTarget = SetCompact L bits in
      if BN_cmp L bnTarget (CBigNum_int L 0) \<le> 0 \<or> BN_cmp L bnTarget (bnProofOfWorkLimit L) > 0 then False
      else if hash > getuint256 L bnTarget then False
      else True)"

text \<open>The walk back to the activation height, while there is a parent.\<close>

fun phoenix_walk :: "CBlockIndex list \<Rightarrow> CBlockIndex list" where
  "phoenix_walk (pindex # pprev # rest) =
     (if idx_nHeight pindex > PHOENIX_ACTIVATION_HEIGHT then phoenix_walk (pprev # rest) else pindex # pprev # rest)"
| "phoenix_walk chain = chain"

text \<open>The static variables nAnchorBits and nAnchorParentTime are passed through.\<close>

definition GetNextWorkRequiredPhoenix ::
  "'b bn_lib \<Rightarrow> u32 \<times> int \<Rightarrow> CBlockIndex list \<Rightarrow> (u32 \<times> (u32 \<times> int)) option" where
  "GetNextWorkRequiredPhoenix L anchor chain =
     (case (if fst anchor = 0 then
              (case phoenix_walk chain of
                 pindex # pprev # _ \<Rightarrow>
                   if idx_nHeight pindex = PHOENIX_ACTIVATION_HEIGHT then Some (idx_nBits pindex, uint (idx_nTime pprev))
                   else None
               | _ \<Rightarrow> None)
            else Some anchor) of
        None \<Rightarrow> None
      | Some (nAnchorBits, nAnchorParentTime) \<Rightarrow>
          (case chain of [] \<Rightarrow> None
           | pindexLast # _ \<Rightarrow>
               Some (Phoenix413_NextCompact L nAnchorBits nAnchorParentTime PHOENIX_ACTIVATION_HEIGHT
                  (idx_nHeight pindexLast + 1) (uint (idx_nTime pindexLast)), (nAnchorBits, nAnchorParentTime))))"

fun last_normal :: "u32 \<Rightarrow> CBlockIndex list \<Rightarrow> u32" where
  "last_normal nProofOfWorkLimit (pindex # pprev # rest) =
     (if c_mod (idx_nHeight pindex) nInterval \<noteq> 0 \<and> idx_nBits pindex = nProofOfWorkLimit
      then last_normal nProofOfWorkLimit (pprev # rest) else idx_nBits pindex)"
| "last_normal nProofOfWorkLimit [pindex] = idx_nBits pindex"
| "last_normal nProofOfWorkLimit [] = 0"

text \<open>The clamped timespan.\<close>

definition clamp_timespan :: "bool \<Rightarrow> int \<Rightarrow> int \<Rightarrow> int" where
  "clamp_timespan fNewDifficultyProtocol retargetTimespan nActualTimespan =
     (if fNewDifficultyProtocol then
        (let t = nActualTimespan;
             t = (if t < retargetTimespan - c_div retargetTimespan 10 then retargetTimespan - c_div retargetTimespan 10 else t);
             t = (if t > retargetTimespan + c_div retargetTimespan 10 then retargetTimespan + c_div retargetTimespan 10 else t)
         in t)
      else
        (let t = nActualTimespan;
             t = (if t < c_div retargetTimespan 4 then c_div retargetTimespan 4 else t);
             t = (if t > retargetTimespan * 4 then retargetTimespan * 4 else t)
         in t))"

text \<open>The end of the retarget, from the first and the last block of the interval.\<close>

definition retarget :: "'b bn_lib \<Rightarrow> bool \<Rightarrow> int \<Rightarrow> CBlockIndex \<Rightarrow> CBlockIndex \<Rightarrow> u32" where
  "retarget L fNewDifficultyProtocol retargetTimespan pindexLast pindexFirst =
     (let nActualTimespan = clamp_timespan fNewDifficultyProtocol retargetTimespan
            (uint (idx_nTime pindexLast) - uint (idx_nTime pindexFirst));
          bnNew = SetCompact L (idx_nBits pindexLast);
          bnNew = BN_mul L bnNew (CBigNum_int L nActualTimespan);
          bnNew = BN_div L bnNew (CBigNum_int L retargetTimespan);
          bnNew = (if BN_cmp L bnNew (bnProofOfWorkLimit L) > 0 then bnProofOfWorkLimit L else bnNew)
      in GetCompact L bnNew)"

definition GetNextWorkRequired ::
  "'b bn_lib \<Rightarrow> bool \<Rightarrow> u32 \<times> int \<Rightarrow> CBlockIndex list \<Rightarrow> u32 \<Rightarrow> (u32 \<times> (u32 \<times> int)) option" where
  "GetNextWorkRequired L fTestNet anchor chain blockTime =
     (let nProofOfWorkLimit = GetCompact L (bnProofOfWorkLimit L) in
      case chain of [] \<Rightarrow> None
      | pindexLast # _ \<Rightarrow>
        (let nHeight = idx_nHeight pindexLast + 1 in
         if \<not> fTestNet \<and> nHeight > PHOENIX_ACTIVATION_HEIGHT then GetNextWorkRequiredPhoenix L anchor chain
         else
           let fNewDifficultyProtocol = (nHeight \<ge> nDiffChangeTarget \<or> fTestNet);
               retargetTimespan = (if fNewDifficultyProtocol then nTargetTimespanRe else nTargetTimespan);
               retargetSpacing = (if fNewDifficultyProtocol then nTargetSpacingRe else nTargetSpacing);
               retargetInterval = (if fNewDifficultyProtocol then nIntervalRe else nInterval)
           in if c_mod (idx_nHeight pindexLast + 1) retargetInterval \<noteq> 0 then
                (if fTestNet then
                   (if uint blockTime > uint (idx_nTime pindexLast) + retargetSpacing * 2
                    then Some (nProofOfWorkLimit, anchor)
                    else Some (last_normal nProofOfWorkLimit chain, anchor))
                 else Some (idx_nBits pindexLast, anchor))
              else
                let blockstogoback = (if idx_nHeight pindexLast + 1 \<noteq> retargetInterval then retargetInterval else nInterval - 1)
                in case drop (nat blockstogoback) chain of [] \<Rightarrow> None
                   | pindexFirst # _ \<Rightarrow>
                       Some (retarget L fNewDifficultyProtocol retargetTimespan pindexLast pindexFirst, anchor)))"

text \<open>ComputeMinWork; fuel bounds the loop, the time goes down by four hours in each turn.\<close>

fun min_work_loop :: "'b bn_lib \<Rightarrow> int \<Rightarrow> nat \<Rightarrow> int \<Rightarrow> 'b \<Rightarrow> 'b option" where
  "min_work_loop L nBestHeight 0 remaining bnResult = None"
| "min_work_loop L nBestHeight (Suc fuel) remaining bnResult =
     (if remaining > 0 \<and> BN_cmp L bnResult (bnProofOfWorkLimit L) < 0 then
        (if nBestHeight + 1 < nDiffChangeTarget
         then min_work_loop L nBestHeight fuel (remaining - nTargetTimespan * 4) (BN_mul L bnResult (CBigNum_int L 4))
         else min_work_loop L nBestHeight fuel (remaining - nTargetTimespanRe * 4)
           (BN_div L (BN_mul L bnResult (CBigNum_int L 110)) (CBigNum_int L 100)))
      else Some bnResult)"

definition ComputeMinWork :: "'b bn_lib \<Rightarrow> bool \<Rightarrow> int \<Rightarrow> nat \<Rightarrow> u32 \<Rightarrow> int \<Rightarrow> u32 option" where
  "ComputeMinWork L fTestNet nBestHeight fuel nBase remaining =
     (if fTestNet \<and> remaining > nTargetSpacing * 2 then Some (GetCompact L (bnProofOfWorkLimit L))
      else map_option (\<lambda>bnResult. GetCompact L
          (if BN_cmp L bnResult (bnProofOfWorkLimit L) > 0 then bnProofOfWorkLimit L else bnResult))
        (min_work_loop L nBestHeight fuel remaining (SetCompact L nBase)))"

section \<open>The conversions are exact\<close>

lemma setuint256_loop_kept: "setuint256_loop ds False p = p @ ds"
  by (induction ds arbitrary: p) simp_all

lemma setuint256_loop_eq: "setuint256_loop ds True p = p @ mpi_bytes False ds"
  by (induction ds arbitrary: p) (simp_all add: mpi_bytes_def setuint256_loop_kept)

lemma unat_u256_less: "unat (n :: uint256) < 256 ^ 32"
  using unsigned_less [of n, where ?'a = nat] by simp

lemma num_body_u256_length: "\<bar>v\<bar> < 2 ^ 256 \<Longrightarrow> length (num_body v) \<le> 33"
  by (subst length_num_body_le_iff) auto

context bignum_library
begin

lemma val_setuint256: "val (setuint256 L n) = uint n"
proof -
  define p where "p = mpi_bytes False (rev (le_fixed 32 (unat n)))"
  have rev: "rev p = num_body (uint n)"
    using rev_mpi_bytes [of False "rev (le_fixed 32 (unat n))"] unat_u256_less [of n]
    by (simp add: p_def le_val_le_fixed)
  have "\<bar>uint n\<bar> < 2 ^ 256" using unsigned_less [of n, where ?'a = int] by simp
  then have "length p \<le> 33" using num_body_u256_length rev by (metis length_rev)
  then show ?thesis
    by (simp add: setuint256_def setuint256_loop_eq p_def [symmetric] Let_def mpi2bn rev num_value_num_body)
qed

lemma val_bnProofOfWorkLimit [simp]: "val (bnProofOfWorkLimit L) = 2 ^ 236 - 1"
proof -
  have "uint (drop_bit 20 (NOT 0 :: uint256)) = drop_bit 20 (uint (NOT 0 :: uint256))" by (simp only: unsigned_drop_bit_eq) (simp add: drop_bit_eq_div unsigned_minus_1_eq_mask mask_eq_exp_minus_1 take_bit_eq_mod)
  then show ?thesis by (simp add: bnProofOfWorkLimit_def val_setuint256 drop_bit_eq_div unsigned_minus_1_eq_mask mask_eq_exp_minus_1)
qed

lemma uint_getuint256:
  assumes "0 \<le> val b" and "val b < 2 ^ 256"
  shows "uint (getuint256 L b) = val b"
proof -
  define mag where "mag = le_bytes (nat (val b))"
  define body where "body = num_body (val b)"
  have len: "length mag \<le> 32"
    using assms unfolding mag_def length_le_bytes_le_iff by (simp add: nat_less_iff)
  have body: "body = (if mag = [] then [] else if bit (last mag) 7 then mag @ [0] else mag)"
    using assms(1) by (simp add: body_def num_body_def mag_def Let_def)
  have mag: "le_val mag = nat (val b)" by (simp add: mag_def)
  have low: "le_val (take 32 body) = nat (val b)" using mag len by (auto simp: body take_Cons')
  have "length body \<le> 33" using len by (simp add: body)
  then have "BN_bn2mpi L b = be32 (word_of_nat (length body)) @ rev body"
    unfolding body_def by (intro bn2mpi) simp
  moreover have "(rev body)[0 := rev body ! 0 AND 0x7f] = rev body" if "body \<noteq> []"
  proof -
    have "rev body ! 0 = last body" using that by (simp add: rev_nth last_conv_nth)
    moreover have "\<not> bit (last body) 7" using that by (auto simp: body split: if_splits)
    ultimately have "rev body ! 0 AND 0x7f = rev body ! 0"
      by (simp add: word_unat_eq_iff byte_and_7f byte_bit7)
    then show ?thesis by (metis list_update_id)
  qed
  ultimately have "getuint256 L b = word_of_nat (le_val (take 32 body))"
    by (auto simp: getuint256_def Let_def list_update_append nth_append)
  then show ?thesis unfolding low using assms by (simp add: unsigned_of_int take_bit_int_eq_self)
qed

lemma CheckProofOfWork_eq:
  "CheckProofOfWork L h bits \<longleftrightarrow> 0 < val (SetCompact L bits) \<and> val (SetCompact L bits) < 2 ^ 236 \<and> uint h \<le> val (SetCompact L bits)"
proof -
  have z: "val (CBigNum_int L 0) = 0" by (rule val_CBigNum_int) (simp add: int64_range_def)
  show ?thesis
  proof (cases "0 < val (SetCompact L bits) \<and> val (SetCompact L bits) < 2 ^ 236")
    case True
    then have "uint (getuint256 L (SetCompact L bits)) = val (SetCompact L bits)" by (intro uint_getuint256) auto
    with True z show ?thesis by (auto simp: CheckProofOfWork_def word_less_def)
  next
    case False
    with z show ?thesis by (auto simp: CheckProofOfWork_def Let_def)
  qed
qed

end


section \<open>Properties\<close>

text \<open>
  CheckProofOfWork accepts a block hash exactly when the target of its compact bits is positive, at
  most the limit 2^236 - 1, and the hash as a number is not above it; the conversions between uint256 and
  big numbers lose nothing on the way.
\<close>

theorem CheckProofOfWork_iff:
  assumes "bignum_library L val"
  shows "CheckProofOfWork L h bits \<longleftrightarrow>
    0 < val (SetCompact L bits) \<and> val (SetCompact L bits) < 2 ^ 236 \<and> uint h \<le> val (SetCompact L bits)"
  using assms by (rule bignum_library.CheckProofOfWork_eq)

theorem CheckProofOfWork_iff_witness:
  "CheckProofOfWork int_bn 5 0x1e0fffff \<longleftrightarrow> 0 < SetCompact int_bn 0x1e0fffff \<and> SetCompact int_bn 0x1e0fffff < 2 ^ 236
    \<and> 5 \<le> SetCompact int_bn 0x1e0fffff"
  using CheckProofOfWork_iff [OF int_bn.bignum_library_axioms, where h = 5 and bits = "0x1e0fffff"] by simp

text \<open>The retarget of the first two eras: the timespan, the raw target and its compact form.\<close>

lemma intervals: "nInterval = 120" "nIntervalRe = 120" "nTargetTimespan = 3600" "nTargetTimespanRe = 3600"
  by (simp_all add: nInterval_def nIntervalRe_def nTargetTimespan_def nTargetTimespanRe_def nTargetSpacing_def
      nTargetSpacingRe_def c_div_nonneg)

lemma clamp_timespan_bounds:
  "3240 \<le> clamp_timespan True 3600 t" "clamp_timespan True 3600 t \<le> 3960"
  "900 \<le> clamp_timespan False 3600 t" "clamp_timespan False 3600 t \<le> 14400"
  by (simp_all add: clamp_timespan_def Let_def c_div_nonneg)

definition raw_target :: "int \<Rightarrow> int \<Rightarrow> int" where
  "raw_target T ts = min (T * ts div 3600) (2 ^ 236 - 1)"

context bignum_library
begin

lemma val_GetCompact:
  assumes "0 \<le> val b" "val b < 2 ^ 256"
  shows "val (SetCompact L (GetCompact L b)) = int (compact_mag (mag_compact (nat (val b))))"
proof -
  have "length (le_bytes (nat (val b))) \<le> 32"
    using assms unfolding length_le_bytes_le_iff by (simp add: nat_less_iff)
  then have u: "unat (GetCompact L b) = mag_compact (nat (val b))"
    using unat_GetCompact [of b] assms(1) by simp
  then have "\<not> bit (GetCompact L b) 23"
    using mag_compact_sign_clear [of "nat (val b)"] by (simp add: bit_unat)
  then show ?thesis using u by (simp add: val_SetCompact)
qed

lemma compact_value_bounds:
  assumes "0 \<le> m" "m < 2 ^ 256" "val b = m"
  shows "val (SetCompact L (GetCompact L b)) \<le> m" and "(2 ^ 15 - 1) * m \<le> 2 ^ 15 * val (SetCompact L (GetCompact L b))"
proof -
  note v = val_GetCompact [of b, unfolded assms(3), OF assms(1,2)]
  have "int (compact_mag (mag_compact (nat m))) \<le> int (nat m)" by (simp only: of_nat_le_iff) (rule compact_mag_le)
  then show "val (SetCompact L (GetCompact L b)) \<le> m" using v assms(1) by simp
  define c where "c = compact_mag (mag_compact (nat m))"
  have "nat m * 32768 \<le> nat m + c * 32768"
    using compact_mag_loss [of "nat m"] by (simp add: c_def diff_mult_distrib)
  then have "int (nat m) * 32768 \<le> int (nat m) + int c * 32768" by linarith
  then show "(2 ^ 15 - 1) * m \<le> 2 ^ 15 * val (SetCompact L (GetCompact L b))" using v assms(1) by (simp add: c_def [symmetric])
qed


text \<open>The value a retarget computes before it is written as compact bits.\<close>

lemma val_retarget:
  fixes bits :: u32
  assumes "0 \<le> ts" "ts \<le> 14400"
  defines "q \<equiv> BN_div L (BN_mul L (SetCompact L bits) (CBigNum_int L ts)) (CBigNum_int L 3600)"
  assumes "0 \<le> val (SetCompact L bits)"
  shows "val (if BN_cmp L q (bnProofOfWorkLimit L) > 0 then bnProofOfWorkLimit L else q) = raw_target (val (SetCompact L bits)) ts"
proof -
  have "val (CBigNum_int L ts) = ts" "val (CBigNum_int L 3600) = 3600"
    using assms(1,2) by (simp_all add: val_CBigNum_int int64_range_def)
  moreover have "0 \<le> val (SetCompact L bits) * ts" using assms by simp
  ultimately have "val q = val (SetCompact L bits) * ts div 3600"
    by (simp add: q_def divide c_div_nonneg)
  then show ?thesis by (simp add: raw_target_def min_def)
qed

lemma GetNextWorkRequired_retarget:
  assumes h: "h = idx_nHeight (hd chain)" and "0 \<le> h" and "h + 1 \<le> PHOENIX_ACTIVATION_HEIGHT"
    and "(h + 1) mod 120 = 0" and "120 < length chain" and "0 \<le> val (SetCompact L (idx_nBits (hd chain)))"
  shows "\<exists>r ts. GetNextWorkRequired L False anchor chain bt = Some (r, anchor)
    \<and> (if h + 1 < nDiffChangeTarget then 900 \<le> ts \<and> ts \<le> 14400 else 3240 \<le> ts \<and> ts \<le> 3960)
    \<and> val (SetCompact L r) \<le> raw_target (val (SetCompact L (idx_nBits (hd chain)))) ts
    \<and> (2 ^ 15 - 1) * raw_target (val (SetCompact L (idx_nBits (hd chain)))) ts \<le> 2 ^ 15 * val (SetCompact L r)"
proof -
  define new where "new = (h + 1 \<ge> nDiffChangeTarget)"
  define k where "k = nat (if h + 1 \<noteq> 120 then 120 else 119)"
  obtain i rest where chain: "chain = i # rest" using assms(5) by (cases chain) auto
  have "k < length chain" using assms(5) by (simp add: k_def)
  then obtain j tl where j: "drop k chain = j # tl" by (metis drop_eq_Nil2 linorder_not_less neq_Nil_conv)
  define ts where "ts = clamp_timespan new 3600 (uint (idx_nTime i) - uint (idx_nTime j))"
  define q where "q = BN_div L (BN_mul L (SetCompact L (idx_nBits i)) (CBigNum_int L ts)) (CBigNum_int L 3600)"
  define r where "r = (if BN_cmp L q (bnProofOfWorkLimit L) > 0 then bnProofOfWorkLimit L else q)"
  have ts: "if h + 1 < nDiffChangeTarget then 900 \<le> ts \<and> ts \<le> 14400 else 3240 \<le> ts \<and> ts \<le> 3960"
    using clamp_timespan_bounds unfolding ts_def new_def by (auto simp: not_less)
  then have ts': "0 \<le> ts" "ts \<le> 14400" by (auto split: if_splits)
  have i: "idx_nHeight i = h" using h chain by simp
  have result: "GetNextWorkRequired L False anchor chain bt = Some (GetCompact L r, anchor)"
  proof -
    have "retarget L new 3600 i j = GetCompact L r"
      unfolding retarget_def Let_def ts_def [symmetric] q_def [symmetric] r_def [symmetric] ..
    moreover have "c_mod (h + 1) 120 = 0" using assms(2,4) by (simp add: c_mod_nonneg)
    moreover have "nat (if h + 1 \<noteq> 120 then 120 else 120 - 1) = k" by (simp add: k_def)
    ultimately show ?thesis using assms(3) j
      unfolding GetNextWorkRequired_def chain list.case Let_def intervals if_cancel i new_def by simp
  qed
  have T: "0 \<le> val (SetCompact L (idx_nBits i))" using assms(6) chain by simp
  have v: "val r = raw_target (val (SetCompact L (idx_nBits i))) ts"
    unfolding r_def q_def by (rule val_retarget [OF ts' T])
  have "0 \<le> raw_target (val (SetCompact L (idx_nBits i))) ts" "raw_target (val (SetCompact L (idx_nBits i))) ts < 2 ^ 256"
    using T ts' by (auto simp: raw_target_def pos_imp_zdiv_nonneg_iff)
  from compact_value_bounds [OF this v] result ts show ?thesis unfolding chain list.sel by blast
qed

end


lemma retarget_upper:
  assumes "0 \<le> T" "ts \<le> u" "x \<le> raw_target T ts"
  shows "3600 * x \<le> u * T" and "x \<le> 2 ^ 236 - 1"
proof -
  have "x \<le> T * ts div 3600" "x \<le> 2 ^ 236 - 1" using assms(3) by (simp_all add: raw_target_def)
  moreover have "3600 * (T * ts div 3600) \<le> T * ts" by simp
  moreover have "T * ts \<le> T * u" using assms(1,2) by (rule mult_left_mono [rotated])
  ultimately show "3600 * x \<le> u * T" "x \<le> 2 ^ 236 - 1" by (simp_all add: mult.commute)
qed

lemma raw_target_mono: "0 \<le> T \<Longrightarrow> s \<le> ts \<Longrightarrow> raw_target T s \<le> raw_target T ts"
  unfolding raw_target_def by (intro min.mono order.refl zdiv_mono1 mult_left_mono) simp_all

text \<open>
  C23: at the end of an interval of 120 blocks the retarget moves the target by a bounded factor, whatever
  the times of the blocks are: from height 600000 on it grows by at most a tenth and below by at most four,
  it never exceeds the proof-of-work limit, and it shrinks by no more than a tenth (three quarters) and the
  2^-15 that the compact form can lose.
\<close>

theorem retarget_bounds:
  fixes L :: "'b bn_lib" and val :: "'b \<Rightarrow> int" and chain :: "CBlockIndex list"
  defines "T \<equiv> val (SetCompact L (idx_nBits (hd chain)))"
  defines "h \<equiv> idx_nHeight (hd chain)"
  assumes "bignum_library L val" and "0 \<le> h" and "h + 1 \<le> PHOENIX_ACTIVATION_HEIGHT" and "(h + 1) mod 120 = 0"
    and "120 < length chain" and "0 \<le> T"
  shows "\<exists>r. GetNextWorkRequired L False anchor chain bt = Some (r, anchor)
    \<and> val (SetCompact L r) \<le> 2 ^ 236 - 1
    \<and> 3600 * val (SetCompact L r) \<le> (if h + 1 < nDiffChangeTarget then 14400 else 3960) * T
    \<and> (2 ^ 15 - 1) * raw_target T (if h + 1 < nDiffChangeTarget then 900 else 3240) \<le> 2 ^ 15 * val (SetCompact L r)"
proof -
  obtain r ts where r: "GetNextWorkRequired L False anchor chain bt = Some (r, anchor)"
    and ts: "if h + 1 < nDiffChangeTarget then 900 \<le> ts \<and> ts \<le> 14400 else 3240 \<le> ts \<and> ts \<le> 3960"
    and up: "val (SetCompact L r) \<le> raw_target T ts"
    and lo: "(2 ^ 15 - 1) * raw_target T ts \<le> 2 ^ 15 * val (SetCompact L r)"
    using bignum_library.GetNextWorkRequired_retarget [OF assms(3) _ assms(4-7), of anchor bt] assms(8)
    unfolding T_def h_def by blast
  have "ts \<le> (if h + 1 < nDiffChangeTarget then 14400 else 3960)" using ts by (auto split: if_splits)
  note upper = retarget_upper [OF assms(8) this up]
  have "raw_target T (if h + 1 < nDiffChangeTarget then 900 else 3240) \<le> raw_target T ts"
    using ts by (intro raw_target_mono assms(8)) (auto split: if_splits)
  then have "(2 ^ 15 - 1) * raw_target T (if h + 1 < nDiffChangeTarget then 900 else 3240)
    \<le> (2 ^ 15 - 1) * raw_target T ts" by (intro mult_left_mono) simp_all
  with r upper lo show ?thesis by (intro exI [of _ r] conjI) auto
qed

text \<open>Heights that count down by one along the chain.\<close>

definition linked :: "CBlockIndex list \<Rightarrow> bool" where
  "linked chain \<longleftrightarrow> successively (\<lambda>i p. idx_nHeight i = idx_nHeight p + 1) chain"

lemma phoenix_walk_linked:
  "linked chain \<Longrightarrow> chain \<noteq> [] \<Longrightarrow> idx_nHeight (hd chain) = PHOENIX_ACTIVATION_HEIGHT + int d \<Longrightarrow> d + 1 < length chain \<Longrightarrow>
    phoenix_walk chain = drop d chain \<and> idx_nHeight (chain ! d) = PHOENIX_ACTIVATION_HEIGHT"
proof (induction chain arbitrary: d rule: phoenix_walk.induct)
  case (1 i p rest)
  show ?case
  proof (cases d)
    case (Suc d')
    have "phoenix_walk (p # rest) = drop d' (p # rest) \<and> idx_nHeight ((p # rest) ! d') = PHOENIX_ACTIVATION_HEIGHT"
      using 1(2-) Suc by (intro "1.IH") (auto simp: linked_def)
    then show ?thesis using 1(4) Suc by simp
  qed (use 1 in simp)
qed auto

text \<open>The anchor that the walk finds on a chain: the bits of the activation block and its parent's time.\<close>

definition activation_anchor :: "CBlockIndex list \<Rightarrow> (u32 \<times> int) option" where
  "activation_anchor chain = (case phoenix_walk chain of
     pindex # pprev # _ \<Rightarrow>
       if idx_nHeight pindex = PHOENIX_ACTIVATION_HEIGHT then Some (idx_nBits pindex, uint (idx_nTime pprev)) else None
   | _ \<Rightarrow> None)"

lemma GetNextWorkRequiredPhoenix_anchor:
  "GetNextWorkRequiredPhoenix L anchor chain =
     (case (if fst anchor = 0 then activation_anchor chain else Some anchor) of None \<Rightarrow> None
      | Some A \<Rightarrow> (case chain of [] \<Rightarrow> None
         | pindexLast # _ \<Rightarrow> Some (Phoenix413_NextCompact L (fst A) (snd A) PHOENIX_ACTIVATION_HEIGHT
             (idx_nHeight pindexLast + 1) (uint (idx_nTime pindexLast)), A)))"
  unfolding GetNextWorkRequiredPhoenix_def activation_anchor_def
  by (auto split: option.split list.split prod.split)

lemma activation_anchor_linked:
  assumes "linked chain" and "idx_nHeight (hd chain) = PHOENIX_ACTIVATION_HEIGHT + int d" and "d + 1 < length chain"
  shows "activation_anchor chain = Some (idx_nBits (chain ! d), uint (idx_nTime (chain ! (d + 1))))"
proof -
  have w: "phoenix_walk chain = drop d chain" "idx_nHeight (chain ! d) = PHOENIX_ACTIVATION_HEIGHT"
    using phoenix_walk_linked [OF assms(1) _ assms(2,3)] assms(3) by fastforce+
  have "drop d chain = chain ! d # chain ! (d + 1) # drop (d + 2) chain"
    using assms(3) by (simp add: Cons_nth_drop_Suc)
  then show ?thesis using w by (simp add: activation_anchor_def)
qed

text \<open>What a call does to the static variables, and when they do not matter.\<close>

lemma GetNextWorkRequired_anchor:
  assumes "GetNextWorkRequired L fTestNet anchor chain bt = Some (r, anchor')"
  shows "anchor' = anchor \<or> fst anchor = 0 \<and> activation_anchor chain = Some anchor'"
  using assms
  by (auto simp: GetNextWorkRequired_def GetNextWorkRequiredPhoenix_anchor Let_def split: list.splits option.splits if_splits)

lemma GetNextWorkRequired_normal:
  assumes "\<not> (chain \<noteq> [] \<and> \<not> fTestNet \<and> idx_nHeight (hd chain) + 1 > PHOENIX_ACTIVATION_HEIGHT)"
  shows "GetNextWorkRequired L fTestNet a chain bt = map_option (\<lambda>r. (fst r, a)) (GetNextWorkRequired L fTestNet b chain bt)"
proof (cases chain)
  case (Cons i rest)
  then have c: "\<not> (\<not> fTestNet \<and> PHOENIX_ACTIVATION_HEIGHT < idx_nHeight i + 1)" using assms by simp
  show ?thesis unfolding Cons GetNextWorkRequired_def Let_def list.case if_not_P [OF c] by (simp split: list.split)
qed (simp add: GetNextWorkRequired_def)

lemma GetNextWorkRequired_other_anchor:
  assumes "GetNextWorkRequired L fTestNet anchor chain bt = Some (r, anchor')"
    and "fTestNet \<or> idx_nHeight (hd chain) + 1 \<le> PHOENIX_ACTIVATION_HEIGHT \<or> fst anchor = 0 \<or> activation_anchor chain = Some anchor"
  shows "\<exists>a. GetNextWorkRequired L fTestNet (0, 0) chain bt = Some (r, a)"
proof (cases "chain \<noteq> [] \<and> \<not> fTestNet \<and> idx_nHeight (hd chain) + 1 > PHOENIX_ACTIVATION_HEIGHT")
  case True
  then obtain i rest where chain: "chain = i # rest" by (cases chain) auto
  from True have g: "GetNextWorkRequired L fTestNet a chain bt = GetNextWorkRequiredPhoenix L a chain" for a
    by (simp add: chain GetNextWorkRequired_def)
  from True assms(2) have or: "fst anchor = 0 \<or> activation_anchor chain = Some anchor" by auto
  have "\<exists>A. (if fst anchor = 0 then activation_anchor chain else Some anchor) = Some A \<and> activation_anchor chain = Some A"
  proof (cases "fst anchor = 0")
    case True
    then have "activation_anchor chain \<noteq> None" using assms(1) by (cases "activation_anchor chain") (simp_all add: g GetNextWorkRequiredPhoenix_anchor)
    with True show ?thesis by auto
  next
    case False
    with or show ?thesis by simp
  qed
  then obtain A where A: "(if fst anchor = 0 then activation_anchor chain else Some anchor) = Some A" "activation_anchor chain = Some A" by blast
  from assms(1) have "Phoenix413_NextCompact L (fst A) (snd A) PHOENIX_ACTIVATION_HEIGHT
      (idx_nHeight i + 1) (uint (idx_nTime i)) = r"
    unfolding g GetNextWorkRequiredPhoenix_anchor A(1) by (auto simp: chain)
  moreover have "GetNextWorkRequired L fTestNet (0, 0) chain bt = Some (Phoenix413_NextCompact L (fst A) (snd A)
      PHOENIX_ACTIVATION_HEIGHT (idx_nHeight i + 1) (uint (idx_nTime i)), A)"
    unfolding g GetNextWorkRequiredPhoenix_anchor using A(2) by (simp add: chain)
  ultimately show ?thesis by blast
next
  case False
  from GetNextWorkRequired_normal [OF this, of L "(0, 0)" bt anchor] show ?thesis by (simp add: assms(1))
qed

text \<open>
  C24: above the activation height the next target is the Phoenix rule for the anchor in the static
  variables, whatever they hold. While they are unset (bits 0) the anchor is the chain's own, on a chain whose
  heights count down by one to the parent of block 4194000: that block's bits and its parent's time; and what
  was used is what they hold afterwards. So the first anchor with bits serves every later call, also one for
  another branch: that all branches of a node share it, thanks to the checkpoint, is shown with the tree.
\<close>

theorem phoenix_anchor:
  fixes chain :: "CBlockIndex list"
  assumes "linked chain" and "idx_nHeight (hd chain) = PHOENIX_ACTIVATION_HEIGHT + int d" and "d + 1 < length chain"
  shows "GetNextWorkRequired L False anchor chain bt =
    (let A = (if fst anchor = 0 then (idx_nBits (chain ! d), uint (idx_nTime (chain ! (d + 1)))) else anchor)
     in Some (Phoenix413_NextCompact L (fst A) (snd A) PHOENIX_ACTIVATION_HEIGHT
          (idx_nHeight (hd chain) + 1) (uint (idx_nTime (hd chain))), A))"
proof -
  obtain i rest where chain: "chain = i # rest" using assms(3) by (cases chain) auto
  then have "GetNextWorkRequired L False anchor chain bt = GetNextWorkRequiredPhoenix L anchor chain"
    using assms(2) by (simp add: GetNextWorkRequired_def)
  then show ?thesis using activation_anchor_linked [OF assms] chain by (simp add: GetNextWorkRequiredPhoenix_anchor Let_def)
qed

definition sample_index :: "int \<Rightarrow> CBlockIndex" where
  "sample_index h = \<lparr>idx_nHeight = h, idx_nVersion = 2, idx_nTime = word_of_int (1600000000 + 30 * h), idx_nBits = 0x1e0fffff\<rparr>"

theorem phoenix_anchor_witness:
  "GetNextWorkRequired int_bn False (0, 0) [sample_index 4194001, sample_index 4194000, sample_index 4193999] 0 =
    Some (Phoenix413_NextCompact int_bn 0x1e0fffff (uint (idx_nTime (sample_index 4193999))) PHOENIX_ACTIVATION_HEIGHT
      4194002 (uint (idx_nTime (sample_index 4194001))), (0x1e0fffff, uint (idx_nTime (sample_index 4193999))))"
  using phoenix_anchor [of "[sample_index 4194001, sample_index 4194000, sample_index 4193999]" 1 int_bn "(0, 0)" 0]
  by (simp add: linked_def sample_index_def PHOENIX_ACTIVATION_HEIGHT_def)

theorem retarget_bounds_witness:
  "\<exists>r. GetNextWorkRequired int_bn False (0, 0) (replicate 121 (sample_index 239)) 0 = Some (r, (0, 0))
    \<and> SetCompact int_bn r \<le> 2 ^ 236 - 1
    \<and> 3600 * SetCompact int_bn r \<le> 14400 * SetCompact int_bn 0x1e0fffff
    \<and> (2 ^ 15 - 1) * raw_target (SetCompact int_bn 0x1e0fffff) 900 \<le> 2 ^ 15 * SetCompact int_bn r"
  using retarget_bounds [OF int_bn.bignum_library_axioms, of "replicate 121 (sample_index 239)" "(0, 0)" 0]
  by (simp add: sample_index_def PHOENIX_ACTIVATION_HEIGHT_def nDiffChangeTarget_def int_bn.val_SetCompact [simplified])

end
