(* ===== verification/Blocks.thy ===== *)
theory Blocks
  imports Coins Merkle Work Signature
begin

text \<open>
  main.cpp: the inputs of a transaction against the coins (HaveInputs, GetValueIn, GetP2SHSigOpCount,
  CheckInputs), the checks of a block without context (CheckBlock) and connecting a block (ConnectBlock).
  What these functions take from elsewhere is one record: the libraries, the proof-of-work hash (scrypt),
  and the globals they read. The script checks run here where the code queues them for other threads;
  with one thread that is what it does, and the queue fails when one of them fails. Sums of amounts are
  integers. The wallet's notification and the writes of undo data and indices to disk are not modelled;
  what is written is returned.
\<close>

section \<open>The environment\<close>

record 'b env =
  bn :: "'b bn_lib"
  hashes :: crypto
  ec :: ec_lib
  randoms :: "nat \<Rightarrow> uint256"
  maxsigcache :: int
  GetPoWHash :: "CBlock \<Rightarrow> uint256"
  hashGenesisBlock :: uint256
  total_blocks_estimate :: int

definition COINBASE_MATURITY :: int where "COINBASE_MATURITY = 30"
definition MAX_BLOCK_SIGOPS :: nat where "MAX_BLOCK_SIGOPS = MAX_BLOCK_SIZE div 50"

section \<open>Inputs\<close>

text \<open>The reference GetCoins returns exists only if the transaction is known: None is its assertion.\<close>

definition GetCoins :: "coins_view \<Rightarrow> uint256 \<Rightarrow> (CCoins \<times> coins_view) option" where
  "GetCoins v txid = (case FetchCoins v txid of (None, v) \<Rightarrow> None | (Some coins, v) \<Rightarrow> Some (coins, v))"

definition GetOutputFor :: "CTxIn \<Rightarrow> coins_view \<Rightarrow> (CTxOut \<times> coins_view) option" where
  "GetOutputFor input view =
     (case GetCoins view (outhash (prevout input)) of None \<Rightarrow> None
      | Some (coins, view) \<Rightarrow>
          if \<not> IsAvailable coins (outn (prevout input)) then None
          else Some (coins_vout coins ! unat (outn (prevout input)), view))"

fun value_in_loop :: "CTxIn list \<Rightarrow> coins_view \<Rightarrow> int \<Rightarrow> (int \<times> coins_view) option" where
  "value_in_loop [] inputs nResult = Some (nResult, inputs)"
| "value_in_loop (i # rest) inputs nResult =
     (case GetOutputFor i inputs of None \<Rightarrow> None
      | Some (out, inputs) \<Rightarrow> value_in_loop rest inputs (nResult + nValue out))"

definition GetValueIn :: "CTransaction \<Rightarrow> coins_view \<Rightarrow> (int \<times> coins_view) option" where
  "GetValueIn tx inputs = (if IsCoinBase tx then Some (0, inputs) else value_in_loop (vin tx) inputs 0)"

fun p2sh_sigops_loop :: "CTxIn list \<Rightarrow> coins_view \<Rightarrow> nat \<Rightarrow> (nat \<times> coins_view) option" where
  "p2sh_sigops_loop [] inputs nSigOps = Some (nSigOps, inputs)"
| "p2sh_sigops_loop (i # rest) inputs nSigOps =
     (case GetOutputFor i inputs of None \<Rightarrow> None
      | Some (out, inputs) \<Rightarrow> p2sh_sigops_loop rest inputs
          (if IsPayToScriptHash (scriptPubKey out)
           then nSigOps + GetSigOpCount_p2sh (scriptPubKey out) (scriptSig i) else nSigOps))"

definition GetP2SHSigOpCount :: "CTransaction \<Rightarrow> coins_view \<Rightarrow> (nat \<times> coins_view) option" where
  "GetP2SHSigOpCount tx inputs = (if IsCoinBase tx then Some (0, inputs) else p2sh_sigops_loop (vin tx) inputs 0)"

text \<open>HaveInputs, first that the transactions are known, then that the outputs are there.\<close>

fun have_txs :: "CTxIn list \<Rightarrow> coins_view \<Rightarrow> bool \<times> coins_view" where
  "have_txs [] inputs = (True, inputs)"
| "have_txs (i # rest) inputs =
     (case HaveCoins inputs (outhash (prevout i)) of (ok, inputs) \<Rightarrow> if \<not> ok then (False, inputs) else have_txs rest inputs)"

fun have_outputs :: "CTxIn list \<Rightarrow> coins_view \<Rightarrow> (bool \<times> coins_view) option" where
  "have_outputs [] inputs = Some (True, inputs)"
| "have_outputs (i # rest) inputs =
     (case GetCoins inputs (outhash (prevout i)) of None \<Rightarrow> None
      | Some (coins, inputs) \<Rightarrow>
          if \<not> IsAvailable coins (outn (prevout i)) then Some (False, inputs) else have_outputs rest inputs)"

definition HaveInputs :: "CTransaction \<Rightarrow> coins_view \<Rightarrow> (bool \<times> coins_view) option" where
  "HaveInputs tx inputs =
     (if \<not> IsCoinBase tx then
        (case have_txs (vin tx) inputs of (ok, inputs) \<Rightarrow> if \<not> ok then Some (False, inputs) else have_outputs (vin tx) inputs)
      else Some (True, inputs))"

text \<open>The first loop of CheckInputs: maturity and the range of the values; Inl is the verdict it returns.\<close>

fun check_in_values :: "CTxIn list \<Rightarrow> int \<Rightarrow> coins_view \<Rightarrow> int \<Rightarrow> (verdict + int) \<times> coins_view" where
  "check_in_values [] nSpendHeight inputs nValueIn = (Inr nValueIn, inputs)"
| "check_in_values (i # rest) nSpendHeight inputs nValueIn =
     (case GetCoins inputs (outhash (prevout i)) of None \<Rightarrow> (Inl Throw, inputs)
      | Some (coins, inputs) \<Rightarrow>
          if fCoinBase coins \<and> nSpendHeight - coins_nHeight coins < COINBASE_MATURITY then (Inl (DoS 0), inputs)
          else let v = nValue (coins_vout coins ! unat (outn (prevout i))); nValueIn = nValueIn + v in
            if \<not> MoneyRange v \<or> \<not> MoneyRange nValueIn then (Inl (DoS 100), inputs)
            else check_in_values rest nSpendHeight inputs nValueIn)"

text \<open>CScriptCheck, with the hash type 0 CheckInputs passes.\<close>

definition CScriptCheck ::
  "'b env \<Rightarrow> CCoins \<Rightarrow> CTransaction \<Rightarrow> nat \<Rightarrow> u32 \<Rightarrow> CSignatureCache \<Rightarrow> bool \<times> CSignatureCache" where
  "CScriptCheck E coins tx nIn flags c =
     VerifyScript (bn E) (hashes E) (CheckSig (hashes E) (ec E) (randoms E) (maxsigcache E) tx nIn 0 flags) flags
       (scriptSig (vin tx ! nIn)) (scriptPubKey (coins_vout coins ! unat (outn (prevout (vin tx ! nIn))))) c"

fun check_scripts ::
  "'b env \<Rightarrow> CTransaction \<Rightarrow> u32 \<Rightarrow> nat list \<Rightarrow> coins_view \<Rightarrow> CSignatureCache \<Rightarrow> verdict \<times> coins_view \<times> CSignatureCache" where
  "check_scripts E tx flags [] inputs c = (Accept, inputs, c)"
| "check_scripts E tx flags (i # rest) inputs c =
     (case GetCoins inputs (outhash (prevout (vin tx ! i))) of None \<Rightarrow> (Throw, inputs, c)
      | Some (coins, inputs) \<Rightarrow>
          (case CScriptCheck E coins tx i flags c of (ok, c) \<Rightarrow>
             if ok then check_scripts E tx flags rest inputs c
             else if flags AND SCRIPT_VERIFY_STRICTENC \<noteq> 0 then
               (case CScriptCheck E coins tx i (flags AND NOT SCRIPT_VERIFY_STRICTENC) c of (ok, c) \<Rightarrow>
                  (if ok then DoS 0 else DoS 100, inputs, c))
             else (DoS 100, inputs, c)))"

text \<open>The height of the best block of the view, on the map from block addresses to heights.\<close>

definition CheckInputs ::
  "'b env \<Rightarrow> (nat \<Rightarrow> int) \<Rightarrow> CTransaction \<Rightarrow> coins_view \<Rightarrow> bool \<Rightarrow> u32 \<Rightarrow> CSignatureCache \<Rightarrow> verdict \<times> coins_view \<times> CSignatureCache" where
  "CheckInputs E heights tx inputs fScriptChecks flags c =
     (if IsCoinBase tx then (Accept, inputs, c)
      else case HaveInputs tx inputs of None \<Rightarrow> (Throw, inputs, c)
      | Some (ok, inputs) \<Rightarrow>
        if \<not> ok then (DoS 0, inputs, c)
        else case GetBestBlock inputs of (None, inputs) \<Rightarrow> (Throw, inputs, c)
        | (Some pindex, inputs) \<Rightarrow>
          (case check_in_values (vin tx) (heights pindex + 1) inputs 0 of
             (Inl verdict, inputs) \<Rightarrow> (verdict, inputs, c)
           | (Inr nValueIn, inputs) \<Rightarrow>
               (case GetValueOut tx of None \<Rightarrow> (Throw, inputs, c)
                | Some nValueOut \<Rightarrow>
                    if nValueIn < nValueOut then (DoS 100, inputs, c)
                    else let nTxFee = nValueIn - nValueOut in
                      if nTxFee < 0 then (DoS 100, inputs, c)
                      else if \<not> MoneyRange nTxFee then (DoS 100, inputs, c)
                      else if fScriptChecks then check_scripts E tx flags [0..<length (vin tx)] inputs c
                      else (Accept, inputs, c))))"

section \<open>CheckBlock\<close>

text \<open>The verdict of the first transaction that CheckTransaction refuses.\<close>

fun check_txs :: "CTransaction list \<Rightarrow> verdict" where
  "check_txs [] = Accept"
| "check_txs (tx # rest) = (if CheckTransaction tx \<noteq> Accept then CheckTransaction tx else check_txs rest)"

definition CheckBlock :: "'b env \<Rightarrow> CBlock \<Rightarrow> bool \<Rightarrow> bool \<Rightarrow> verdict" where
  "CheckBlock E block fCheckPOW fCheckMerkleRoot =
     (if vtx block = [] \<or> length (vtx block) > MAX_BLOCK_SIZE \<or> size_block block > MAX_BLOCK_SIZE then DoS 100
      else if header_hash (hashes E) block \<noteq> hashGenesisBlock E
          \<and> fCheckPOW \<and> \<not> CheckProofOfWork (bn E) (GetPoWHash E block) (nBits block) then DoS 50
      else if vtx block = [] \<or> \<not> IsCoinBase (vtx block ! 0) then DoS 100
      else if list_ex IsCoinBase (tl (vtx block)) then DoS 100
      else if check_txs (vtx block) \<noteq> Accept then check_txs (vtx block)
      else if length (remdups (map (tx_hash (hashes E)) (vtx block))) \<noteq> length (vtx block) then DoS 100
      else if (\<Sum>tx\<leftarrow>vtx block. GetLegacySigOpCount tx) > MAX_BLOCK_SIGOPS then DoS 100
      else if fCheckMerkleRoot \<and> hashMerkleRoot block \<noteq> BuildMerkleTree (hashes E) (vtx block) then DoS 100
      else Accept)"

section \<open>ConnectBlock\<close>

text \<open>A state of the loop over the transactions: the view, the caches, and what has been added up.\<close>

record connect_state =
  view :: coins_view
  sigs :: CSignatureCache
  nFees :: int
  nSigOps :: nat
  vtxundo :: CBlockUndo

fun bip30 :: "uint256 list \<Rightarrow> coins_view \<Rightarrow> bool \<times> coins_view" where
  "bip30 [] v = (True, v)"
| "bip30 (h # rest) v =
     (case FetchCoins v h of (r, v) \<Rightarrow>
        (case r of None \<Rightarrow> bip30 rest v | Some c \<Rightarrow> if \<not> IsPruned c then (False, v) else bip30 rest v))"

text \<open>One transaction; Inl is the verdict the function returns with.\<close>

definition connect_tx ::
  "'b env \<Rightarrow> (nat \<Rightarrow> int) \<Rightarrow> int \<Rightarrow> bool \<Rightarrow> bool \<Rightarrow> u32 \<Rightarrow> CTransaction \<Rightarrow> connect_state \<Rightarrow> verdict + connect_state" where
  "connect_tx E heights nHeight fScriptChecks fStrictPayToScriptHash flags tx s =
     (let s = s\<lparr>nSigOps := nSigOps s + GetLegacySigOpCount tx\<rparr> in
      if nSigOps s > MAX_BLOCK_SIGOPS then Inl (DoS 100)
      else case
        (if IsCoinBase tx then Inr s
         else case HaveInputs tx (view s) of None \<Rightarrow> Inl Throw
         | Some (ok, v) \<Rightarrow>
           if \<not> ok then Inl (DoS 100)
           else case (if fStrictPayToScriptHash then GetP2SHSigOpCount tx v else Some (0, v)) of None \<Rightarrow> Inl Throw
           | Some (k, v) \<Rightarrow>
             if fStrictPayToScriptHash \<and> nSigOps s + k > MAX_BLOCK_SIGOPS then Inl (DoS 100)
             else case GetValueIn tx v of None \<Rightarrow> Inl Throw
             | Some (nValueIn, v) \<Rightarrow>
               (case GetValueOut tx of None \<Rightarrow> Inl Throw
                | Some nValueOut \<Rightarrow>
                  (case CheckInputs E heights tx v fScriptChecks flags (sigs s) of (verdict, v, c) \<Rightarrow>
                     if verdict \<noteq> Accept then Inl verdict
                     else Inr (s\<lparr>view := v, sigs := c, nSigOps := nSigOps s + k, nFees := nFees s + (nValueIn - nValueOut)\<rparr>)))) of
        Inl verdict \<Rightarrow> Inl verdict
      | Inr s \<Rightarrow>
          (case UpdateCoins tx (view s) nHeight (tx_hash (hashes E) tx) of None \<Rightarrow> Inl Throw
           | Some (v, txundo) \<Rightarrow>
               Inr (s\<lparr>view := v, vtxundo := (if IsCoinBase tx then vtxundo s else vtxundo s @ [txundo])\<rparr>)))"

fun connect_txs ::
  "'b env \<Rightarrow> (nat \<Rightarrow> int) \<Rightarrow> int \<Rightarrow> bool \<Rightarrow> bool \<Rightarrow> u32 \<Rightarrow> CTransaction list \<Rightarrow> connect_state \<Rightarrow> verdict + connect_state" where
  "connect_txs E heights nHeight fScriptChecks fStrict flags [] s = Inr s"
| "connect_txs E heights nHeight fScriptChecks fStrict flags (tx # rest) s =
     (case connect_tx E heights nHeight fScriptChecks fStrict flags tx s of Inl verdict \<Rightarrow> Inl verdict
      | Inr s \<Rightarrow> connect_txs E heights nHeight fScriptChecks fStrict flags rest s)"

text \<open>
  The block, its index entry (address, height, time, parent) and whether it is only checked. The result is
  the verdict, the view, the signature cache and the undo data that is written. When a transaction fails, the
  view is the one before the loop: the callers discard it.
\<close>

definition ConnectBlock ::
  "'b env \<Rightarrow> (nat \<Rightarrow> int) \<Rightarrow> CBlock \<Rightarrow> nat \<Rightarrow> int \<Rightarrow> u32 \<Rightarrow> nat option \<Rightarrow> bool \<Rightarrow> coins_view \<Rightarrow> CSignatureCache \<Rightarrow>
    verdict \<times> coins_view \<times> CSignatureCache \<times> CBlockUndo" where
  "ConnectBlock E heights block pindex nHeight blockTime pprev fJustCheck v c =
     (if CheckBlock E block (\<not> fJustCheck) (\<not> fJustCheck) \<noteq> Accept
      then (CheckBlock E block (\<not> fJustCheck) (\<not> fJustCheck), v, c, [])
      else case GetBestBlock v of (best, v) \<Rightarrow>
      if pprev \<noteq> best then (Throw, v, c, [])
      else if header_hash (hashes E) block = hashGenesisBlock E then (Accept, SetBestBlock v (Some pindex), c, [])
      else let fScriptChecks = (nHeight \<ge> total_blocks_estimate E) in
      case bip30 (map (tx_hash (hashes E)) (vtx block)) v of (ok, v) \<Rightarrow>
      if \<not> ok then (DoS 100, v, c, [])
      else let fStrictPayToScriptHash = (uint blockTime \<ge> 1349049600);
               flags = SCRIPT_VERIFY_NOCACHE OR (if fStrictPayToScriptHash then SCRIPT_VERIFY_P2SH else SCRIPT_VERIFY_NONE)
      in case connect_txs E heights nHeight fScriptChecks fStrictPayToScriptHash flags (vtx block)
           \<lparr>view = v, sigs = c, nFees = 0, nSigOps = 0, vtxundo = []\<rparr> of
        Inl verdict \<Rightarrow> (verdict, v, c, [])
      | Inr s \<Rightarrow>
          (case GetValueOut (vtx block ! 0) of None \<Rightarrow> (Throw, view s, sigs s, [])
           | Some nValueOut \<Rightarrow>
               if nValueOut > GetBlockValue nHeight (nFees s) then (DoS 100, view s, sigs s, [])
               else if fJustCheck then (Accept, view s, sigs s, [])
               else (Accept, SetBestBlock (view s) (Some pindex), sigs s, vtxundo s)))"

section \<open>Reading changes no coins\<close>

lemma GetCoins_Some: "GetCoins v t = Some (c, v') \<Longrightarrow> coins_at v t = Some c \<and> coins_at v' = coins_at v"
  using cache.fetch_value [of v t] cache.fetch_same [of v t]
  by (auto simp: GetCoins_def split: prod.splits option.splits)

lemma GetOutputFor_Some:
  "GetOutputFor i v = Some (q, v') \<Longrightarrow> coins_at v' = coins_at v \<and>
    (\<exists>c. coins_at v (outhash (prevout i)) = Some c \<and> q = coins_vout c ! unat (outn (prevout i)))"
  by (auto simp: GetOutputFor_def split: option.splits if_splits dest: GetCoins_Some)

text \<open>The output an input spends, in a view that has it.\<close>

definition spent_value :: "coins_view \<Rightarrow> CTxIn \<Rightarrow> int" where
  "spent_value v i = nValue (coins_vout (the (coins_at v (outhash (prevout i)))) ! unat (outn (prevout i)))"

lemma spent_value_cong: "coins_at v' = coins_at v \<Longrightarrow> spent_value v' = spent_value v"
  by (simp add: spent_value_def fun_eq_iff)

lemma value_in_loop_Some:
  "value_in_loop ins v acc = Some (r, v') \<Longrightarrow> coins_at v' = coins_at v \<and> r = acc + (\<Sum>i\<leftarrow>ins. spent_value v i)"
proof (induction ins arbitrary: v acc)
  case (Cons i rest)
  then obtain q w where q: "GetOutputFor i v = Some (q, w)" "value_in_loop rest w (acc + nValue q) = Some (r, v')"
    by (auto split: option.splits)
  have w: "coins_at w = coins_at v" "nValue q = spent_value v i"
    using GetOutputFor_Some [OF q(1)] by (auto simp: spent_value_def)
  from Cons.IH [OF q(2)] w(2) show ?case by (simp add: spent_value_cong [OF w(1)] w(1))
qed simp

lemma p2sh_sigops_loop_same: "p2sh_sigops_loop ins v k = Some (r, v') \<Longrightarrow> coins_at v' = coins_at v"
  by (induction ins arbitrary: v k) (auto split: option.splits dest!: GetOutputFor_Some)

lemma have_txs_same: "have_txs ins v = (ok, v') \<Longrightarrow> coins_at v' = coins_at v"
proof (induction ins arbitrary: v)
  case (Cons i rest)
  then show ?case using cache.fetch_same [of v "outhash (prevout i)"]
    by (auto simp: HaveCoins_def split: prod.splits if_splits)
qed simp

lemma have_outputs_same: "have_outputs ins v = Some (ok, v') \<Longrightarrow> coins_at v' = coins_at v"
  by (induction ins arbitrary: v) (auto split: option.splits if_splits dest!: GetCoins_Some)

lemma HaveInputs_same: "HaveInputs tx v = Some (ok, v') \<Longrightarrow> coins_at v' = coins_at v"
  by (auto simp: HaveInputs_def split: if_splits prod.splits dest!: have_txs_same have_outputs_same)

lemma check_in_values_same: "check_in_values ins h v acc = (r, v') \<Longrightarrow> coins_at v' = coins_at v"
  by (induction ins arbitrary: v acc) (auto simp: Let_def split: option.splits if_splits dest!: GetCoins_Some)

lemma check_scripts_same: "check_scripts E tx flags is v c = (r, v', c') \<Longrightarrow> coins_at v' = coins_at v"
  by (induction "is" arbitrary: v c) (auto split: option.splits if_splits prod.splits dest!: GetCoins_Some)

lemma GetBestBlock_same: "GetBestBlock v = (b, v') \<Longrightarrow> coins_at v' = coins_at v"
  by (auto simp: GetBestBlock_def Let_def coins_at_def fun_eq_iff split: if_splits option.split)

lemma coins_at_SetBestBlock [simp]: "coins_at (SetBestBlock v p) = coins_at v"
  by (auto simp: SetBestBlock_def coins_at_def fun_eq_iff split: option.split)

lemma CheckInputs_same: "CheckInputs E heights tx v fs flags c = (r, v', c') \<Longrightarrow> coins_at v' = coins_at v"
  by (auto simp: CheckInputs_def Let_def split: if_splits option.splits prod.splits sum.splits
      dest!: HaveInputs_same GetBestBlock_same check_in_values_same check_scripts_same)

lemma bip30_True:
  "bip30 hs v = (True, v') \<Longrightarrow> coins_at v' = coins_at v \<and> (\<forall>h \<in> set hs. live_at v h = None)"
proof (induction hs arbitrary: v)
  case (Cons h hs)
  obtain w where w: "FetchCoins v h = (coins_at v h, w)" "coins_at w = coins_at v" by (rule cache.fetch_cases)
  then have "bip30 hs w = (True, v')" "live_at v h = None"
    using Cons.prems by (auto simp: live_at_def live_def split: option.splits if_splits)
  with Cons.IH [of w] w(2) show ?case by (simp add: live_at_def)
qed simp

section \<open>Connecting a transaction\<close>

lemma UpdateCoins_facts:
  assumes "UpdateCoins tx v h t = Some (v', us)" and "tidy_view v" and "tx_pays tx" "0 < h" "h < 2 ^ 31"
  shows "tidy_view v'" and "t' \<noteq> t \<Longrightarrow> live_at v t' = None \<Longrightarrow> live_at v' t' = None"
proof -
  obtain x where x: "(if IsCoinBase tx then Some (v, []) else spend_inputs (vin tx) v []) = Some (x, us)"
    and v': "v' = SetCoins x t (CCoins_of tx h)"
    using assms(1) by (auto simp: UpdateCoins_def split: option.splits)
  have "tidy_view x" using x assms(2) spend_inputs_tidy by (auto split: if_splits)
  then show "tidy_view v'" unfolding v' using tx_pays_coins(1) [OF assms(3-5)] by (rule tidy_view_SetCoins)
  assume "t' \<noteq> t" "live_at v t' = None"
  moreover from this have "live_at x t' = None" using x assms(2) spend_inputs_none by (auto split: if_splits)
  ultimately show "live_at v' t' = None" by (simp add: v')
qed

lemma connect_tx_Inr:
  assumes "connect_tx E heights h fs strict flags tx s = Inr s'"
  obtains v us where "coins_at v = coins_at (view s)"
    and "UpdateCoins tx v h (tx_hash (hashes E) tx) = Some (view s', us)"
    and "vtxundo s' = (if IsCoinBase tx then vtxundo s else vtxundo s @ [us])"
    and "IsCoinBase tx \<Longrightarrow> nFees s' = nFees s"
    and "\<not> IsCoinBase tx \<Longrightarrow> \<exists>out. GetValueOut tx = Some out \<and>
      nFees s' = nFees s + ((\<Sum>i\<leftarrow>vin tx. spent_value (view s) i) - out)"
proof (cases "IsCoinBase tx")
  case True
  then show ?thesis using assms that [of "view s"]
    by (auto simp: connect_tx_def Let_def split: if_splits option.splits)
next
  case False
  from assms False obtain v1 k v2 nin v3 out c v4 us where
    1: "HaveInputs tx (view s) = Some (True, v1)"
    and 2: "(if strict then GetP2SHSigOpCount tx v1 else Some (0, v1)) = Some (k, v2)"
    and 3: "GetValueIn tx v2 = Some (nin, v3)" and 4: "GetValueOut tx = Some out"
    and 5: "CheckInputs E heights tx v3 fs flags (sigs s) = (Accept, v4, c)"
    and 6: "UpdateCoins tx v4 h (tx_hash (hashes E) tx) = Some (view s', us)"
    and 7: "vtxundo s' = vtxundo s @ [us]" and 8: "nFees s' = nFees s + (nin - out)"
    by (auto simp: connect_tx_def Let_def split: if_splits option.splits sum.splits prod.splits)
  have "coins_at v2 = coins_at v1"
    using 2 False by (auto simp: GetP2SHSigOpCount_def split: if_splits dest: p2sh_sigops_loop_same)
  then have v2: "coins_at v2 = coins_at (view s)" using HaveInputs_same [OF 1] by simp
  have "coins_at v3 = coins_at v2" "nin = (\<Sum>i\<leftarrow>vin tx. spent_value v2 i)"
    using 3 False value_in_loop_Some [of "vin tx" v2 0 nin v3] by (simp_all add: GetValueIn_def)
  then have "coins_at v4 = coins_at (view s)" "nin = (\<Sum>i\<leftarrow>vin tx. spent_value (view s) i)"
    using CheckInputs_same [OF 5] v2 spent_value_cong [OF v2] by simp_all
  with 4 6 7 8 False show ?thesis by (intro that [of v4 us]) auto
qed

text \<open>A transaction that is not connected comes with a verdict other than acceptance.\<close>

lemma check_in_values_Inl: "check_in_values ins h v acc = (Inl d, v') \<Longrightarrow> d \<noteq> Accept"
  by (induction ins arbitrary: v acc) (auto simp: Let_def split: option.splits if_splits)

lemma connect_tx_Inl: "connect_tx E heights h fs strict flags tx s = Inl d \<Longrightarrow> d \<noteq> Accept"
  by (auto simp: connect_tx_def Let_def split: if_splits option.splits prod.splits sum.splits)

lemma connect_txs_Inl: "connect_txs E heights h fs strict flags txs s = Inl d \<Longrightarrow> d \<noteq> Accept"
  by (induction txs arbitrary: s) (auto split: sum.splits dest: connect_tx_Inl)

section \<open>A connected block can be disconnected\<close>

lemma distinct_map_head: "distinct (map f (x # xs)) \<Longrightarrow> q \<in> set xs \<Longrightarrow> f q \<noteq> f x"
  by simp (metis imageI)

context version_kept
begin

lemma connect_txs_undo:
  fixes E :: "'b env" and H :: "CTransaction \<Rightarrow> uint256"
  defines "H \<equiv> tx_hash (hashes E)"
  assumes "connect_txs E heights h fs strict flags txs s = Inr s'" and "list_all (\<lambda>tx. tx_pays tx \<and> \<not> IsCoinBase tx) txs"
    and "tidy_view (view s)" and "0 < h" "h < 2 ^ 31" and "distinct (map H txs)"
    and "\<And>tx. tx \<in> set txs \<Longrightarrow> live_at (view s) (H tx) = None"
  shows "\<exists>new. vtxundo s' = vtxundo s @ new \<and> length new = length txs \<and>
    (\<forall>w ok undo. stores g w (live_at (view s')) \<longrightarrow> list_all2 (list_all2 (undo_stored_as g)) undo new \<longrightarrow>
      (\<exists>w'. disconnect_txs H h (rev (zip txs (map Some undo))) w ok = Some (w', ok) \<and> stores g w' (live_at (view s))
        \<and> (tidy_view w \<longrightarrow> tidy_view w')))"
  using assms(2-4,7,8)
proof (induction txs arbitrary: s)
  case (Cons tx rest)
  from Cons.prems(1) obtain s1 where s1: "connect_tx E heights h fs strict flags tx s = Inr s1"
    and rest: "connect_txs E heights h fs strict flags rest s1 = Inr s'" by (auto split: sum.splits)
  have tx: "tx_pays tx" "\<not> IsCoinBase tx" using Cons.prems(2) by auto
  obtain v us where v: "coins_at v = coins_at (view s)" and up: "UpdateCoins tx v h (H tx) = Some (view s1, us)"
    and un: "vtxundo s1 = vtxundo s @ [us]"
    using connect_tx_Inr [OF s1] tx(2) unfolding H_def by metis
  have tidy: "tidy_view v" using Cons.prems(3) tidy_view_cong [OF v] by simp
  note up_facts = UpdateCoins_facts [OF up tidy tx(1) assms(5,6)]
  have none: "live_at (view s1) (H q) = None" if "q \<in> set rest" for q
  proof -
    have "H q \<noteq> H tx" using Cons.prems(4) that by (rule distinct_map_head)
    then show ?thesis using up_facts(2) [of "H q"] Cons.prems(5) that live_at_cong [OF v] by auto
  qed
  obtain new where new: "vtxundo s' = vtxundo s1 @ new" "length new = length rest"
    and IH: "\<And>w ok undo. stores g w (live_at (view s')) \<Longrightarrow> list_all2 (list_all2 (undo_stored_as g)) undo new \<Longrightarrow>
      \<exists>w'. disconnect_txs H h (rev (zip rest (map Some undo))) w ok = Some (w', ok) \<and> stores g w' (live_at (view s1))
        \<and> (tidy_view w \<longrightarrow> tidy_view w')"
    using Cons.IH [OF rest _ up_facts(1) _ none] Cons.prems(2,4) by auto
  have "\<exists>w'. disconnect_txs H h (rev (zip (tx # rest) (map Some (u # undo)))) w ok = Some (w', ok)
      \<and> stores g w' (live_at (view s)) \<and> (tidy_view w \<longrightarrow> tidy_view w')"
    if w: "stores g w (live_at (view s'))" "list_all2 (undo_stored_as g) u us"
      "list_all2 (list_all2 (undo_stored_as g)) undo new" for w ok u undo
  proof -
    obtain x where x: "disconnect_txs H h (rev (zip rest (map Some undo))) w ok = Some (x, ok)"
      "stores g x (live_at (view s1))" "tidy_view w \<longrightarrow> tidy_view x"
      using IH [OF w(1,3)] by blast
    have "live_at v (H tx) = None" using Cons.prems(5) live_at_cong [OF v] by simp
    from disconnect_UpdateCoins [OF up tidy tx(1) assms(5,6) this x(2) w(2)] tx(2)
    obtain y where "disconnect_tx (H tx) h tx (Some u) x ok = Some (y, ok)" "stores g y (live_at v)"
      "tidy_view x \<longrightarrow> tidy_view y" by auto
    with x(1,3) live_at_cong [OF v] list_all2_lengthD [OF w(3)] new(2) show ?thesis by (auto simp: disconnect_txs_append)
  qed
  with un new show ?case by (intro exI [of _ "us # new"]) (auto simp: list_all2_Cons2)
qed simp

end

lemma check_txs_Accept: "check_txs txs = Accept \<longleftrightarrow> list_all (\<lambda>tx. CheckTransaction tx = Accept) txs"
  by (induction txs) auto

lemma CheckTransaction_pays: "CheckTransaction tx = Accept \<Longrightarrow> tx_pays tx"
  using check_values_iff [of 0 "vout tx"]
  by (auto simp: CheckTransaction_def tx_pays_def list_all_iff CTxOut_IsNull_def MoneyRange_def MAX_MONEY_def COIN_def split: if_splits)

lemma CheckBlock_Accept:
  assumes "CheckBlock E block pow mr = Accept"
  obtains cb rest where "vtx block = cb # rest" "IsCoinBase cb" "tx_pays cb"
    "list_all (\<lambda>tx. tx_pays tx \<and> \<not> IsCoinBase tx) rest" "distinct (map (tx_hash (hashes E)) (vtx block))"
proof -
  have d: "length (remdups xs) = length xs \<Longrightarrow> distinct xs" for xs :: "uint256 list"
    by (metis length_remdups_eq distinct_remdups)
  from assms obtain cb rest where "vtx block = cb # rest" by (cases "vtx block") (auto simp: CheckBlock_def)
  moreover from assms this have "IsCoinBase cb" "list_all (\<lambda>tx. \<not> IsCoinBase tx) rest"
    "check_txs (vtx block) = Accept" "length (remdups (map (tx_hash (hashes E)) (vtx block))) = length (vtx block)"
    by (auto simp: CheckBlock_def list_ex_iff list_all_iff split: if_splits)
  moreover from this d [of "map (tx_hash (hashes E)) (vtx block)"] have "distinct (map (tx_hash (hashes E)) (vtx block))"
    by simp
  ultimately show ?thesis using that by (auto simp: check_txs_Accept list_all_iff CheckTransaction_pays split: if_splits)
qed

text \<open>What an accepted block, not the first one, has done.\<close>

lemma ConnectBlock_Accept:
  assumes "ConnectBlock E heights block pindex h t pprev False v c = (Accept, v', c', undo)"
    and "header_hash (hashes E) block \<noteq> hashGenesisBlock E"
  obtains w strict fs flags s out where "coins_at w = coins_at v"
    "\<forall>x \<in> set (map (tx_hash (hashes E)) (vtx block)). live_at v x = None"
    "connect_txs E heights h fs strict flags (vtx block) \<lparr>view = w, sigs = c, nFees = 0, nSigOps = 0, vtxundo = []\<rparr> = Inr s"
    "GetValueOut (vtx block ! 0) = Some out" "out \<le> GetBlockValue h (nFees s)"
    "v' = SetBestBlock (view s) (Some pindex)" "undo = vtxundo s" "CheckBlock E block True True = Accept"
proof -
  obtain best v1 where b: "GetBestBlock v = (best, v1)" by (cases "GetBestBlock v")
  obtain ok w where w: "bip30 (map (tx_hash (hashes E)) (vtx block)) v1 = (ok, w)"
    by (cases "bip30 (map (tx_hash (hashes E)) (vtx block)) v1")
  define strict where "strict = (uint t \<ge> 1349049600)"
  define fs where "fs = (h \<ge> total_blocks_estimate E)"
  define flags where "flags = SCRIPT_VERIFY_NOCACHE OR (if strict then SCRIPT_VERIFY_P2SH else SCRIPT_VERIFY_NONE)"
  let ?r = "connect_txs E heights h fs strict flags (vtx block) \<lparr>view = w, sigs = c, nFees = 0, nSigOps = 0, vtxundo = []\<rparr>"
  have ck: "CheckBlock E block True True = Accept"
    using assms(1) by (auto simp: ConnectBlock_def split: if_splits)
  have best: "pprev = best" using assms(1) ck b by (auto simp: ConnectBlock_def split: if_splits)
  have step: "(if \<not> ok then (DoS 100, w, c, [])
      else case ?r of Inl verdict \<Rightarrow> (verdict, w, c, [])
      | Inr s \<Rightarrow> (case GetValueOut (vtx block ! 0) of None \<Rightarrow> (Throw, view s, sigs s, [])
           | Some nValueOut \<Rightarrow>
               if nValueOut > GetBlockValue h (nFees s) then (DoS 100, view s, sigs s, [])
               else (Accept, SetBestBlock (view s) (Some pindex), sigs s, vtxundo s))) = (Accept, v', c', undo)"
    using assms(1) unfolding ConnectBlock_def Let_def not_False_eq_True ck b prod.case w best
      strict_def [symmetric] fs_def [symmetric] flags_def [symmetric] if_False if_not_P [OF assms(2)] by simp
  have ok using step by (cases ok) auto
  have "coins_at v1 = coins_at v" using b by (rule GetBestBlock_same)
  with bip30_True w \<open>ok\<close> have w': "coins_at w = coins_at v"
    "\<forall>x \<in> set (map (tx_hash (hashes E)) (vtx block)). live_at v x = None"
    by (metis live_at_cong)+
  obtain s where s: "?r = Inr s"
  proof (cases ?r)
    case (Inl d)
    with step \<open>ok\<close> have "d = Accept" by simp
    moreover have "d \<noteq> Accept" using connect_txs_Inl Inl by blast
    ultimately show ?thesis by blast
  qed
  with step \<open>ok\<close> obtain out where "GetValueOut (vtx block ! 0) = Some out" "out \<le> GetBlockValue h (nFees s)"
    "v' = SetBestBlock (view s) (Some pindex)" "undo = vtxundo s"
    by (auto split: option.splits if_splits)
  with that w' s ck show ?thesis by blast
qed

section \<open>A block creates no more than its subsidy\<close>

definition coins_value :: "CCoins \<Rightarrow> int" where
  "coins_value c = (\<Sum>q\<leftarrow>coins_vout c. if CTxOut_IsNull q then 0 else nValue q)"

definition value_at :: "coins_view \<Rightarrow> uint256 \<Rightarrow> int" where
  "value_at v t = (case coins_at v t of None \<Rightarrow> 0 | Some c \<Rightarrow> coins_value c)"

text \<open>All unspent money of a view.\<close>

definition money_supply :: "coins_view \<Rightarrow> int" where
  "money_supply v = (\<Sum>t\<in>UNIV. value_at v t)"

lemma supply_cong: "coins_at v' = coins_at v \<Longrightarrow> money_supply v' = money_supply v"
  by (simp add: money_supply_def value_at_def)

lemma supply_SetCoins: "money_supply (SetCoins v t c) = money_supply v - value_at v t + coins_value c"
proof -
  have "money_supply w = value_at w t + (\<Sum>x\<in>UNIV - {t}. value_at w x)" for w
    unfolding money_supply_def by (rule sum.remove) simp_all
  moreover have "(\<Sum>x\<in>UNIV - {t}. value_at (SetCoins v t c) x) = (\<Sum>x\<in>UNIV - {t}. value_at v x)"
    by (intro sum.cong refl) (simp add: value_at_def cache.store_value)
  moreover have "value_at (SetCoins v t c) t = coins_value c" by (simp add: value_at_def cache.store_value)
  ultimately show ?thesis by (metis add_diff_cancel_left' add.commute)
qed

lemma null_value: "list_all CTxOut_IsNull xs \<Longrightarrow> (\<Sum>q\<leftarrow>xs. if CTxOut_IsNull q then 0 else nValue q) = 0"
  by (induction xs) auto

lemma live_None_value: "live_at v t = None \<Longrightarrow> value_at v t = 0"
  by (auto simp: live_at_def live_def value_at_def coins_value_def IsPruned_def null_value split: option.splits if_splits)

lemma sum_list_replace: "i < length xs \<Longrightarrow> (\<Sum>q\<leftarrow>xs[i := y]. f q) = (\<Sum>q\<leftarrow>xs. f q) - f (xs ! i) + (f y :: int)"
  by (induction xs arbitrary: i) (auto split: nat.split)

lemma coins_value_Cleanup: "coins_value (Cleanup c) = coins_value c"
proof -
  have "(\<Sum>q\<leftarrow>rev (dropWhile CTxOut_IsNull ys). if CTxOut_IsNull q then 0 else nValue q) =
    (\<Sum>q\<leftarrow>rev ys. if CTxOut_IsNull q then 0 else nValue q)" for ys
    by (induction ys) auto
  from this [of "rev (coins_vout c)"] show ?thesis by (simp add: coins_value_def Cleanup_def)
qed

lemma Spend_value:
  assumes "Spend c p = Some (u, c')" and "tidy c"
  shows "coins_value c' = coins_value c - nValue (undo_txout u)" and "undo_txout u = coins_vout c ! unat (outn p)"
proof -
  note S = Spend_Some [OF assms]
  let ?f = "\<lambda>q. if CTxOut_IsNull q then 0 else nValue q"
  show u: "undo_txout u = coins_vout c ! unat (outn p)" unfolding S(4) by simp
  have "coins_value c' = (\<Sum>q\<leftarrow>(coins_vout c)[unat (outn p) := CTxOut_null]. ?f q)"
    unfolding S(1) coins_value_Cleanup by (simp add: coins_value_def)
  also have "\<dots> = coins_value c + ?f CTxOut_null - ?f (coins_vout c ! unat (outn p))"
    using sum_list_replace [OF S(2), of ?f CTxOut_null] by (simp add: coins_value_def)
  finally show "coins_value c' = coins_value c - nValue (undo_txout u)" using S(3) u by simp
qed

text \<open>One view has no outputs that the other has not.\<close>

definition fewer :: "coins_view \<Rightarrow> coins_view \<Rightarrow> bool" where
  "fewer w v \<longleftrightarrow> (\<forall>t c k. coins_at w t = Some c \<longrightarrow> k < length (coins_vout c) \<longrightarrow> \<not> CTxOut_IsNull (coins_vout c ! k) \<longrightarrow>
     (\<exists>d. coins_at v t = Some d \<and> coins_vout d ! k = coins_vout c ! k))"

lemma Spend_outputs:
  assumes "Spend c p = Some (u, c')" "tidy c" "k < length (coins_vout c')" "\<not> CTxOut_IsNull (coins_vout c' ! k)"
  shows "k < length (coins_vout c)" and "coins_vout c ! k = coins_vout c' ! k"
proof -
  let ?ys = "(coins_vout c)[unat (outn p) := CTxOut_null]"
  have null: "\<forall>q \<in> set ?ys. CTxOut_IsNull q \<longrightarrow> q = CTxOut_null"
    using assms(2) set_update_subset_insert [of "coins_vout c" "unat (outn p)" CTxOut_null] by (auto simp: tidy_def)
  have c': "coins_vout c' = rev (dropWhile CTxOut_IsNull (rev ?ys))"
    using Spend_Some(1) [OF assms(1,2)] by (simp add: Cleanup_def)
  obtain zs where zs: "?ys = coins_vout c' @ zs" using drop_nulls [OF null] unfolding c' by blast
  then have "length (coins_vout c) = length (coins_vout c') + length zs" by (metis length_append length_list_update)
  then show k: "k < length (coins_vout c)" using assms(3) by simp
  have "?ys ! k = coins_vout c' ! k" using zs assms(3) by (simp add: nth_append)
  then show "coins_vout c ! k = coins_vout c' ! k"
    using assms(4) k by (cases "k = unat (outn p)") auto
qed

lemma spend_inputs_money:
  "spend_inputs ins w us = Some (w', us') \<Longrightarrow> tidy_view w \<Longrightarrow> fewer w v \<Longrightarrow>
    money_supply w' = money_supply w - (\<Sum>i\<leftarrow>ins. spent_value v i)"
proof (induction ins arbitrary: w us)
  case (Cons i rest)
  let ?t = "outhash (prevout i)"
  obtain c u c' x where s: "coins_at w ?t = Some c" "tidy c" "Spend c (prevout i) = Some (u, c')"
    "coins_at x = coins_at w" "tidy_view (SetCoins x ?t c')"
    "spend_inputs rest (SetCoins x ?t c') (us @ [u]) = Some (w', us')"
    using Cons.prems(1,2) by (rule spend_inputs_Cons)
  have "fewer (SetCoins x ?t c') v"
    unfolding fewer_def
  proof (intro allI impI)
    fix t d k
    assume d: "coins_at (SetCoins x ?t c') t = Some d" "k < length (coins_vout d)" "\<not> CTxOut_IsNull (coins_vout d ! k)"
    show "\<exists>e. coins_at v t = Some e \<and> coins_vout e ! k = coins_vout d ! k"
    proof (cases "t = ?t")
      case True
      then have "d = c'" using d(1) by (simp add: cache.store_value)
      with d Spend_outputs [OF s(3,2), of k] show ?thesis using Cons.prems(3) s(1) True unfolding fewer_def by metis
    next
      case False
      with d s(4) show ?thesis using Cons.prems(3) unfolding fewer_def by (simp add: cache.store_value)
    qed
  qed
  from Cons.IH [OF s(6,5) this]
  have "money_supply w' = money_supply (SetCoins x ?t c') - (\<Sum>i\<leftarrow>rest. spent_value v i)" .
  also have "money_supply (SetCoins x ?t c') = money_supply w - nValue (undo_txout u)"
    using supply_SetCoins [of x ?t c'] supply_cong [OF s(4)] s(1,4) Spend_value(1) [OF s(3,2)]
    by (simp add: value_at_def)
  also have "undo_txout u = coins_vout c ! unat (outn (prevout i))" by (rule Spend_value(2) [OF s(3,2)])
  also have "nValue \<dots> = spent_value v i"
    using Cons.prems(3) s(1) Spend_Some(2,3) [OF s(3,2)] unfolding fewer_def spent_value_def by (metis option.sel)
  finally show ?case by simp
qed simp

lemma fewer_cong: "coins_at w = coins_at v \<Longrightarrow> fewer w v"
  by (auto simp: fewer_def)

lemma GetValueOut_Some: "GetValueOut_loop outs acc = Some r \<Longrightarrow> r = acc + (\<Sum>q\<leftarrow>outs. nValue q)"
  by (induction outs acc rule: GetValueOut_loop.induct) (auto simp: Let_def split: if_splits)

lemma CCoins_of_value: "tx_pays tx \<Longrightarrow> coins_value (CCoins_of tx h) = (\<Sum>q\<leftarrow>vout tx. nValue q)"
  unfolding tx_pays_def coins_value_def CCoins_of_def list_all_iff by (auto intro!: arg_cong [where f = sum_list])

text \<open>What one transaction does to the money in the view and to the fees.\<close>

lemma connect_tx_money:
  fixes E :: "'b env" and H :: "CTransaction \<Rightarrow> uint256"
  defines "H \<equiv> tx_hash (hashes E)"
  assumes c: "connect_tx E heights h fs strict flags tx s = Inr s'" and t: "tidy_view (view s)" and p: "tx_pays tx"
    and h: "0 < h" "h < 2 ^ 31" and new: "live_at (view s) (H tx) = None"
  shows "money_supply (view s') + nFees s' =
      money_supply (view s) + nFees s + (if IsCoinBase tx then \<Sum>q\<leftarrow>vout tx. nValue q else 0)"
    and "tidy_view (view s')" and "t' \<noteq> H tx \<Longrightarrow> live_at (view s) t' = None \<Longrightarrow> live_at (view s') t' = None"
proof -
  obtain v us where v: "coins_at v = coins_at (view s)" and up: "UpdateCoins tx v h (H tx) = Some (view s', us)"
    and cb: "IsCoinBase tx \<Longrightarrow> nFees s' = nFees s"
    and fee: "\<not> IsCoinBase tx \<Longrightarrow> \<exists>out. GetValueOut tx = Some out \<and>
      nFees s' = nFees s + ((\<Sum>i\<leftarrow>vin tx. spent_value (view s) i) - out)"
    using connect_tx_Inr [OF c] unfolding H_def by metis
  have tv: "tidy_view v" using t tidy_view_cong [OF v] by simp
  from UpdateCoins_facts [OF up tv p h] live_at_cong [OF v]
  show "tidy_view (view s')" and "t' \<noteq> H tx \<Longrightarrow> live_at (view s) t' = None \<Longrightarrow> live_at (view s') t' = None" by simp_all
  obtain x where x: "(if IsCoinBase tx then Some (v, []) else spend_inputs (vin tx) v []) = Some (x, us)"
    and s': "view s' = SetCoins x (H tx) (CCoins_of tx h)"
    using up by (auto simp: UpdateCoins_def split: option.splits)
  have "live_at x (H tx) = None"
    using x tv new live_at_cong [OF v] spend_inputs_none by (auto split: if_splits)
  then have add: "money_supply (view s') = money_supply x + (\<Sum>q\<leftarrow>vout tx. nValue q)"
    unfolding s' supply_SetCoins CCoins_of_value [OF p] by (simp add: live_None_value)
  show "money_supply (view s') + nFees s' =
      money_supply (view s) + nFees s + (if IsCoinBase tx then \<Sum>q\<leftarrow>vout tx. nValue q else 0)"
  proof (cases "IsCoinBase tx")
    case True
    then show ?thesis using add cb x supply_cong [OF v] by simp
  next
    case False
    then have "money_supply x = money_supply v - (\<Sum>i\<leftarrow>vin tx. spent_value (view s) i)"
      using x tv by (intro spend_inputs_money [of _ _ "[]" _ us] fewer_cong v) simp_all
    moreover obtain out where "GetValueOut tx = Some out" "nFees s' = nFees s + ((\<Sum>i\<leftarrow>vin tx. spent_value (view s) i) - out)"
      using fee False by blast
    moreover from this GetValueOut_Some [of "vout tx" 0 out] have "out = (\<Sum>q\<leftarrow>vout tx. nValue q)"
      by (simp add: GetValueOut_def)
    ultimately show ?thesis using add False supply_cong [OF v] by simp
  qed
qed

lemma connect_txs_money:
  fixes E :: "'b env" and H :: "CTransaction \<Rightarrow> uint256"
  defines "H \<equiv> tx_hash (hashes E)"
  assumes "connect_txs E heights h fs strict flags txs s = Inr s'" and "list_all (\<lambda>tx. tx_pays tx \<and> \<not> IsCoinBase tx) txs"
    and "tidy_view (view s)" and "0 < h" "h < 2 ^ 31" and "distinct (map H txs)"
    and "\<And>tx. tx \<in> set txs \<Longrightarrow> live_at (view s) (H tx) = None"
  shows "money_supply (view s') + nFees s' = money_supply (view s) + nFees s" and "tidy_view (view s')"
proof -
  have "money_supply (view s') + nFees s' = money_supply (view s) + nFees s \<and> tidy_view (view s')"
    using assms(2-4,7,8)
  proof (induction txs arbitrary: s)
    case (Cons tx rest)
    from Cons.prems(1) obtain s1 where s1: "connect_tx E heights h fs strict flags tx s = Inr s1"
      and rest: "connect_txs E heights h fs strict flags rest s1 = Inr s'" by (auto split: sum.splits)
    have tx: "tx_pays tx" "\<not> IsCoinBase tx" "live_at (view s) (H tx) = None" using Cons.prems(2,5) by auto
    note facts = connect_tx_money [OF s1 Cons.prems(3) tx(1) assms(5,6) tx(3) [unfolded H_def]]
    have "live_at (view s1) (H q) = None" if "q \<in> set rest" for q
      using facts(3) [of "H q"] distinct_map_head [OF Cons.prems(4) that] Cons.prems(5) that unfolding H_def by simp
    then have "money_supply (view s') + nFees s' = money_supply (view s1) + nFees s1 \<and> tidy_view (view s')"
      using Cons.IH [OF rest _ facts(2)] Cons.prems(2,4) by simp
    with facts(1) tx(2) show ?case by simp
  qed simp
  then show "money_supply (view s') + nFees s' = money_supply (view s) + nFees s" and "tidy_view (view s')" by simp_all
qed

section \<open>What connecting a block does\<close>

lemma ConnectBlock_effect:
  fixes E :: "'b env" and H :: "CTransaction \<Rightarrow> uint256"
  defines "H \<equiv> tx_hash (hashes E)"
  assumes "ConnectBlock E heights block pindex h t pprev False v c = (Accept, v', c', undo)"
    and "header_hash (hashes E) block \<noteq> hashGenesisBlock E"
    and "tidy_view v" and "0 < h" and "h < 2 ^ 31"
  shows "tidy_view v'" and "money_supply v' \<le> money_supply v + GetBlockValue h 0"
    and "version_kept g \<Longrightarrow> stores g x (live_at v') \<Longrightarrow> list_all2 (list_all2 (undo_stored_as g)) kept undo \<Longrightarrow>
      \<exists>x'. DisconnectBlock H (vtx block) h pprev (Some kept) x = Some (x', True)
        \<and> stores g x' (live_at v) \<and> pindexTip x' = pprev \<and> (tidy_view x \<longrightarrow> tidy_view x')"
proof -
  obtain w strict fs flags s out where w: "coins_at w = coins_at v"
    and none: "\<forall>x \<in> set (map H (vtx block)). live_at v x = None"
    and run: "connect_txs E heights h fs strict flags (vtx block) \<lparr>view = w, sigs = c, nFees = 0, nSigOps = 0, vtxundo = []\<rparr> = Inr s"
    and out: "GetValueOut (vtx block ! 0) = Some out" "out \<le> GetBlockValue h (nFees s)"
    and v': "v' = SetBestBlock (view s) (Some pindex)" and undo: "undo = vtxundo s" and ck: "CheckBlock E block True True = Accept"
    using ConnectBlock_Accept [OF assms(2,3)] unfolding H_def by metis
  obtain cb rest where txs: "vtx block = cb # rest" "IsCoinBase cb" "tx_pays cb"
    "list_all (\<lambda>tx. tx_pays tx \<and> \<not> IsCoinBase tx) rest" "distinct (map H (vtx block))"
    using ck unfolding H_def by (rule CheckBlock_Accept)
  from run txs(1) obtain s1 where s1: "connect_tx E heights h fs strict flags cb \<lparr>view = w, sigs = c, nFees = 0, nSigOps = 0, vtxundo = []\<rparr> = Inr s1"
    and more: "connect_txs E heights h fs strict flags rest s1 = Inr s" by (auto split: sum.splits)
  have wv: "tidy_view w" "live_at w = live_at v" using assms(4) tidy_view_cong [OF w] live_at_cong [OF w] by simp_all
  have new: "live_at w (H cb) = None" using none txs(1) wv(2) by simp
  note facts = connect_tx_money [OF s1, simplified, OF wv(1) txs(3) assms(5) assms(6) [simplified] new [unfolded H_def], folded H_def]
  have rest_new: "live_at (view s1) (H q) = None" if "q \<in> set rest" for q
    using facts(3) [of "H q"] distinct_map_head [OF txs(5) [unfolded txs(1)] that] none that txs(1) wv(2) by simp
  have d: "distinct (map H rest)" using txs(1,5) by simp
  note rest_facts = connect_txs_money [OF more txs(4) facts(2) assms(5,6) d [unfolded H_def] rest_new [unfolded H_def]]
  show "tidy_view v'" unfolding v' using rest_facts(2) tidy_view_cong [OF coins_at_SetBestBlock] by simp
  have "money_supply (view s1) + nFees s1 = money_supply v + (\<Sum>q\<leftarrow>vout cb. nValue q)"
    using facts(1) txs(2) supply_cong [OF w] by simp
  moreover have "out = (\<Sum>q\<leftarrow>vout cb. nValue q)"
    using out(1) txs(1) GetValueOut_Some [of "vout cb" 0 out] by (simp add: GetValueOut_def)
  moreover have "GetBlockValue h (nFees s) = GetBlockValue h 0 + nFees s" by (simp add: GetBlockValue_def Let_def)
  moreover have "money_supply v' = money_supply (view s)" unfolding v' by (rule supply_cong) simp
  ultimately show "money_supply v' \<le> money_supply v + GetBlockValue h 0" using rest_facts(1) out(2) by linarith
  obtain z us where z: "coins_at z = coins_at w" and up: "UpdateCoins cb z h (H cb) = Some (view s1, us)" and un: "vtxundo s1 = []"
    using connect_tx_Inr [OF s1] txs(2) unfolding H_def by (metis select_convs(1,5))
  have zv: "live_at z = live_at v" "tidy_view z" using wv z live_at_cong tidy_view_cong by (metis, metis)
  assume g: "version_kept g" and x: "stores g x (live_at v')" and kept: "list_all2 (list_all2 (undo_stored_as g)) kept undo"
  obtain vu where vu: "vtxundo s = vu" "length vu = length rest"
    and undone: "\<And>y ok ku. stores g y (live_at (view s)) \<Longrightarrow> list_all2 (list_all2 (undo_stored_as g)) ku vu \<Longrightarrow>
      \<exists>y'. disconnect_txs H h (rev (zip rest (map Some ku))) y ok = Some (y', ok) \<and> stores g y' (live_at (view s1))
        \<and> (tidy_view y \<longrightarrow> tidy_view y')"
    using version_kept.connect_txs_undo [OF g more txs(4) facts(2) assms(5,6) d [unfolded H_def] rest_new [unfolded H_def]] un
    unfolding H_def by auto
  have "live_at v' = live_at (view s)" unfolding v' by (rule live_at_cong) simp
  with x kept undo vu(1) undone [of x kept True] obtain y where
    y: "disconnect_txs H h (rev (zip rest (map Some kept))) x True = Some (y, True)"
    "stores g y (live_at (view s1))" "tidy_view x \<longrightarrow> tidy_view y" by auto
  have "live_at z (H cb) = None" using none txs(1) zv(1) by simp
  from version_kept.disconnect_UpdateCoins [OF g up zv(2) txs(3) assms(5,6) this y(2) undo_stored_refl(2)] txs(2) zv(1)
  obtain x' where x': "disconnect_tx (H cb) h cb None y True = Some (x', True)" "stores g x' (live_at v)"
    "tidy_view y \<longrightarrow> tidy_view x'" by auto
  have "length kept = length rest" using list_all2_lengthD [OF kept] undo vu by simp
  then have "DisconnectBlock H (vtx block) h pprev (Some kept) x = Some (SetBestBlock x' pprev, True)"
    using y(1) x'(1) txs(1) by (simp add: DisconnectBlock_def disconnect_txs_append)
  moreover have "pindexTip (SetBestBlock x' pprev) = pprev" by (simp add: SetBestBlock_def)
  ultimately show "\<exists>x'. DisconnectBlock H (vtx block) h pprev (Some kept) x = Some (x', True)
      \<and> stores g x' (live_at v) \<and> pindexTip x' = pprev \<and> (tidy_view x \<longrightarrow> tidy_view x')"
    using x'(2,3) y(3) stores_cong [OF coins_at_SetBestBlock] tidy_view_cong [OF coins_at_SetBestBlock] by metis
qed

text \<open>
  C8: a block that ConnectBlock accepted can be taken back. DisconnectBlock, given the undo data that was
  written, finds everything as it expects it (fClean stays true), never fails, moves the best block
  back to the parent, and every transaction has again exactly the unspent outputs it had before.
\<close>

theorem ConnectBlock_undo:
  assumes "ConnectBlock E heights block pindex h t pprev False v c = (Accept, v', c', undo)"
    and "header_hash (hashes E) block \<noteq> hashGenesisBlock E"
    and "tidy_view v" and "0 < h" and "h < 2 ^ 31"
  shows "\<exists>v''. DisconnectBlock (tx_hash (hashes E)) (vtx block) h pprev (Some undo) v' = Some (v'', True)
    \<and> live_at v'' = live_at v \<and> pindexTip v'' = pprev"
  using ConnectBlock_effect(3) [OF assms memory.version_kept_axioms, of v' undo] by auto

text \<open>
  C7: no inflation. When ConnectBlock accepts a block, all the unspent money of the coin database grows by
  no more than the subsidy of the block's height, whatever its transactions spend, pay and claim as fees.
\<close>

theorem ConnectBlock_no_inflation:
  assumes "ConnectBlock E heights block pindex h t pprev False v c = (Accept, v', c', undo)"
    and "header_hash (hashes E) block \<noteq> hashGenesisBlock E"
    and "tidy_view v" and "0 < h" and "h < 2 ^ 31"
  shows "money_supply v' \<le> money_supply v + GetBlockValue h 0"
  using assms by (rule ConnectBlock_effect(2))

section \<open>A concrete block\<close>

definition first_coinbase :: CTransaction where
  "first_coinbase = \<lparr>nVersion = 1, vin = [\<lparr>prevout = COutPoint_null, scriptSig = [1, 1], nSequence = - 1\<rparr>],
     vout = [\<lparr>nValue = 50 * COIN, scriptPubKey = [0x51]\<rparr>], nLockTime = 0\<rparr>"

definition one_crypto :: crypto where
  "one_crypto = \<lparr>RIPEMD160 = id, SHA1 = id, SHA256 = (\<lambda>v. [1])\<rparr>"

definition toy_env :: "int env" where
  "toy_env = \<lparr>bn = int_bn, hashes = one_crypto, ec = ec_plain, randoms = (\<lambda>k. 0), maxsigcache = 0,
     GetPoWHash = (\<lambda>b. 0), hashGenesisBlock = 0, total_blocks_estimate = 0\<rparr>"

definition first_block :: CBlock where
  "first_block = \<lparr>nBlockVersion = 2, hashPrevBlock = 0, hashMerkleRoot = tx_hash one_crypto first_coinbase,
     nTime = 5, nBits = 0x1e0fffff, nNonce = 7, vtx = [first_coinbase]\<rparr>"

definition empty_view :: coins_view where
  "empty_view = CCoinsViewCache (\<lambda>_. None) None"

lemma first_CheckBlock: "CheckBlock toy_env first_block True True = Accept"
proof -
  have pow: "CheckProofOfWork int_bn 0 0x1e0fffff"
    by (simp add: int_bn.CheckProofOfWork_eq int_bn.val_SetCompact [simplified] compact_mag_def bit_iff_odd)
  have size: "size_block first_block = 144"
    by (simp add: size_block_def first_block_def first_coinbase_def size_vec_def size_tx_def size_txin_def
      size_txout_def size_bytes_def GetSizeOfCompactSize_def)
  have tx: "CheckTransaction first_coinbase = Accept" "IsCoinBase first_coinbase"
    by (simp_all add: CheckTransaction_def first_coinbase_def IsCoinBase_def COutPoint_IsNull_def COutPoint_null_def
      MAX_MONEY_def COIN_def MoneyRange_def size_vec_def size_tx_def size_txin_def size_txout_def size_bytes_def
      GetSizeOfCompactSize_def MAX_BLOCK_SIZE_def)
  have sig: "GetLegacySigOpCount first_coinbase = 0" by code_simp
  have mr: "BuildMerkleTree one_crypto [first_coinbase] = tx_hash one_crypto first_coinbase"
    by (simp add: BuildMerkleTree_def vMerkleTree_def merkle_loop.simps)
  show ?thesis using pow size tx sig mr
    by (simp add: CheckBlock_def) (simp add: first_block_def toy_env_def MAX_BLOCK_SIZE_def MAX_BLOCK_SIGOPS_def)
qed

lemma first_hash: "header_hash (hashes toy_env) first_block \<noteq> hashGenesisBlock toy_env"
  by (simp add: header_hash_def toy_env_def one_crypto_def Hash_bytes_def u256_of_bytes_def)

lemma empty_view_facts: "tidy_view empty_view" "coins_at empty_view = (\<lambda>_. None)" "money_supply empty_view = 0"
  by (simp_all add: empty_view_def CCoinsViewCache_def coins_at_def tidy_view_def money_supply_def value_at_def fun_eq_iff)

lemma first_connect:
  obtains v' c' undo where
    "ConnectBlock toy_env (\<lambda>_. 0) first_block 1 1 5 None False empty_view sigcache_empty = (Accept, v', c', undo)"
proof -
  define H where "H = tx_hash one_crypto first_coinbase"
  have best: "GetBestBlock empty_view = (None, empty_view)"
    by (simp add: GetBestBlock_def empty_view_def CCoinsViewCache_def)
  have fetch: "FetchCoins empty_view x = (None, empty_view)" for x
    by (simp add: FetchCoins_def empty_view_def CCoinsViewCache_def)
  have cb: "IsCoinBase first_coinbase" "GetLegacySigOpCount first_coinbase = 0" by code_simp+
  have "vtx first_block = [first_coinbase]" "GetValueOut first_coinbase = Some (50 * COIN)"
    by (simp_all add: first_block_def GetValueOut_def first_coinbase_def MoneyRange_def MAX_MONEY_def COIN_def)
  moreover have "50 * COIN \<le> GetBlockValue 1 0" by (simp add: GetBlockValue_eq [of 1, simplified] COIN_def)
  ultimately show ?thesis using that first_hash cb
    by (simp add: ConnectBlock_def first_CheckBlock best fetch connect_tx_def Let_def UpdateCoins_def)
qed

theorem ConnectBlock_undo_witness:
  "\<exists>v' c' undo v''. ConnectBlock toy_env (\<lambda>_. 0) first_block 1 1 5 None False empty_view sigcache_empty = (Accept, v', c', undo)
    \<and> DisconnectBlock (tx_hash (hashes toy_env)) (vtx first_block) 1 None (Some undo) v' = Some (v'', True)
    \<and> live_at v'' = live_at empty_view"
proof -
  obtain v' c' undo where c:
    "ConnectBlock toy_env (\<lambda>_. 0) first_block 1 1 5 None False empty_view sigcache_empty = (Accept, v', c', undo)"
    by (rule first_connect)
  from ConnectBlock_undo [OF c first_hash empty_view_facts(1)] c show ?thesis by auto
qed

theorem ConnectBlock_no_inflation_witness:
  "\<exists>v' c' undo. ConnectBlock toy_env (\<lambda>_. 0) first_block 1 1 5 None False empty_view sigcache_empty = (Accept, v', c', undo)
    \<and> money_supply v' \<le> 20650000 * COIN"
proof -
  obtain v' c' undo where c:
    "ConnectBlock toy_env (\<lambda>_. 0) first_block 1 1 5 None False empty_view sigcache_empty = (Accept, v', c', undo)"
    by (rule first_connect)
  from ConnectBlock_no_inflation [OF c first_hash empty_view_facts(1)] c empty_view_facts(3) show ?thesis
    by (simp add: GetBlockValue_eq [of 1, simplified])
qed

end
