(* ===== verification/Solving.thy ===== *)
theory Solving
  imports ScriptSpend Signature
begin

text \<open>
  script.cpp: recognising the standard output scripts (Solver), what they say of the owner (IsStandard,
  ExtractDestination, IsMine) and signing for them (Sign1, SignN, Solver with a key store, SignSignature).
  An iterator into a script is the list of bytes from its position on. None is a failed assertion.
\<close>

section \<open>Templates\<close>

datatype txnouttype = TX_NONSTANDARD | TX_PUBKEY | TX_PUBKEYHASH | TX_SCRIPTHASH | TX_MULTISIG

definition mTemplates :: "(txnouttype \<times> script) list" where
  "mTemplates =
     [(TX_PUBKEY, map word_of_nat [OP_PUBKEY, OP_CHECKSIG]),
      (TX_PUBKEYHASH, map word_of_nat [OP_DUP, OP_HASH160, OP_PUBKEYHASH, OP_EQUALVERIFY, OP_CHECKSIG]),
      (TX_MULTISIG, map word_of_nat [OP_SMALLINTEGER, OP_PUBKEYS, OP_SMALLINTEGER, OP_CHECKMULTISIG])]"

text \<open>The inner loop for OP_PUBKEYS: the instruction after the keys, the iterator behind it and the keys.\<close>

function pubkeys_loop :: "nat \<Rightarrow> valtype \<Rightarrow> script \<Rightarrow> valtype list \<Rightarrow> nat \<times> valtype \<times> script \<times> valtype list" where
  "pubkeys_loop opcode1 vch1 pc1 vSolutionsRet =
     (if 33 \<le> length vch1 \<and> length vch1 \<le> 120 then
        case GetOp2 pc1 of (ok, opcode1', vch1', pc1') \<Rightarrow>
          if \<not> ok then (opcode1', vch1', pc1', vSolutionsRet @ [vch1])
          else pubkeys_loop opcode1' vch1' pc1' (vSolutionsRet @ [vch1])
      else (opcode1, vch1, pc1, vSolutionsRet))"
  by pat_completeness auto
termination
  by (relation "measure (\<lambda>(opcode1, vch1, pc1, sols). length pc1)") (auto dest: GetOp2_less)

declare pubkeys_loop.simps [simp del]

text \<open>One template instruction against one of the script; None where the loop breaks.\<close>

definition match_op :: "nat \<Rightarrow> valtype \<Rightarrow> nat \<Rightarrow> valtype \<Rightarrow> valtype list \<Rightarrow> valtype list option" where
  "match_op opcode1 vch1 opcode2 vch2 vSolutionsRet =
     (if opcode2 = OP_PUBKEY then
        (if length vch1 < 33 \<or> length vch1 > 120 then None else Some (vSolutionsRet @ [vch1]))
      else if opcode2 = OP_PUBKEYHASH then
        (if length vch1 \<noteq> 20 then None else Some (vSolutionsRet @ [vch1]))
      else if opcode2 = OP_SMALLINTEGER then
        (if opcode1 = OP_0 \<or> (OP_1 \<le> opcode1 \<and> opcode1 \<le> OP_16)
         then map_option (\<lambda>n. vSolutionsRet @ [[word_of_nat n]]) (DecodeOP_N opcode1) else None)
      else if opcode1 \<noteq> opcode2 \<or> vch1 \<noteq> vch2 then None else Some vSolutionsRet)"

function match_template :: "script \<Rightarrow> script \<Rightarrow> valtype list \<Rightarrow> valtype list option" where
  "match_template pc1 pc2 vSolutionsRet =
     (if pc1 = [] \<and> pc2 = [] then Some vSolutionsRet
      else case GetOp2 pc1 of (ok1, opcode1, vch1, pc1') \<Rightarrow> if \<not> ok1 then None
      else case GetOp2 pc2 of (ok2, opcode2, vch2, pc2') \<Rightarrow> if \<not> ok2 then None
      else if opcode2 = OP_PUBKEYS then
        (case pubkeys_loop opcode1 vch1 pc1' vSolutionsRet of (opcode1', vch1', pc1'', sols) \<Rightarrow>
         case GetOp2 pc2' of (ok3, opcode3, vch3, pc3) \<Rightarrow> if \<not> ok3 then None
         else (case match_op opcode1' vch1' opcode3 vch3 sols of None \<Rightarrow> None
           | Some sols \<Rightarrow> match_template pc1'' pc3 sols))
      else (case match_op opcode1 vch1 opcode2 vch2 vSolutionsRet of None \<Rightarrow> None
           | Some sols \<Rightarrow> match_template pc1' pc2' sols))"
  by pat_completeness auto
termination
  by (relation "measure (\<lambda>(pc1, pc2, sols). length pc2)") (auto dest!: GetOp2_less)

declare match_template.simps [simp del]

section \<open>Solver\<close>

text \<open>The loop over the templates. A match of TX_MULTISIG with bad counts returns at once.\<close>

fun scan_templates :: "(txnouttype \<times> script) list \<Rightarrow> script \<Rightarrow> bool \<times> txnouttype \<times> valtype list" where
  "scan_templates [] script1 = (False, TX_NONSTANDARD, [])"
| "scan_templates ((typeRet, script2) # rest) script1 =
     (case match_template script1 script2 [] of None \<Rightarrow> scan_templates rest script1
      | Some sols \<Rightarrow>
          if typeRet = TX_MULTISIG then
            let m = unat (hd sols ! 0); n = unat (last sols ! 0)
            in (\<not> (m < 1 \<or> n < 1 \<or> m > n \<or> length sols - 2 \<noteq> n), typeRet, sols)
          else (True, typeRet, sols))"

definition Solver :: "script \<Rightarrow> bool \<times> txnouttype \<times> valtype list" where
  "Solver spk =
     (if IsPayToScriptHash spk then (True, TX_SCRIPTHASH, [take 20 (drop 2 spk)])
      else scan_templates mTemplates spk)"

definition ScriptSigArgsExpected :: "txnouttype \<Rightarrow> valtype list \<Rightarrow> int" where
  "ScriptSigArgsExpected t vSolutions =
     (case t of TX_NONSTANDARD \<Rightarrow> - 1 | TX_PUBKEY \<Rightarrow> 1 | TX_PUBKEYHASH \<Rightarrow> 2
      | TX_MULTISIG \<Rightarrow> (if length vSolutions < 1 \<or> length (vSolutions ! 0) < 1 then - 1 else uint (vSolutions ! 0 ! 0) + 1)
      | TX_SCRIPTHASH \<Rightarrow> 1)"

definition IsStandard_script :: "script \<Rightarrow> bool" where
  "IsStandard_script spk =
     (case Solver spk of (ok, whichType, vSolutions) \<Rightarrow>
      if \<not> ok then False
      else if whichType = TX_MULTISIG
           \<and> (let m = unat (hd vSolutions ! 0); n = unat (last vSolutions ! 0) in (n < 1 \<or> n > 3) \<or> (m < 1 \<or> m > n)) then False
      else whichType \<noteq> TX_NONSTANDARD)"

section \<open>Destinations and ownership\<close>

datatype CTxDestination = CNoDestination | CKeyID uint160 | CScriptID uint160

definition ExtractDestination :: "crypto \<Rightarrow> script \<Rightarrow> CTxDestination option" where
  "ExtractDestination C spk =
     (case Solver spk of (ok, whichType, vSolutions) \<Rightarrow>
      if \<not> ok then None
      else if whichType = TX_PUBKEY then Some (CKeyID (CPubKey_GetID C (CPubKey_Set (vSolutions ! 0))))
      else if whichType = TX_PUBKEYHASH then Some (CKeyID (u160_of_bytes (vSolutions ! 0)))
      else if whichType = TX_SCRIPTHASH then Some (CScriptID (u160_of_bytes (vSolutions ! 0)))
      else None)"

definition ExtractDestinations :: "crypto \<Rightarrow> script \<Rightarrow> (txnouttype \<times> CTxDestination list \<times> int) option" where
  "ExtractDestinations C spk =
     (case Solver spk of (ok, typeRet, vSolutions) \<Rightarrow>
      if \<not> ok then None
      else if typeRet = TX_MULTISIG then
        Some (typeRet, map (\<lambda>v. CKeyID (CPubKey_GetID C (CPubKey_Set v))) (butlast (tl vSolutions)), uint (hd vSolutions ! 0))
      else map_option (\<lambda>address. (typeRet, [address], 1)) (ExtractDestination C spk))"

definition HaveKeys :: "crypto \<Rightarrow> valtype list \<Rightarrow> keystore \<Rightarrow> nat" where
  "HaveKeys C pubkeys ks = length (filter (\<lambda>pubkey. HaveKey ks (CPubKey_GetID C (CPubKey_Set pubkey))) pubkeys)"

definition IsMine_destination :: "keystore \<Rightarrow> CTxDestination \<Rightarrow> bool" where
  "IsMine_destination ks dest =
     (case dest of CNoDestination \<Rightarrow> False | CKeyID keyID \<Rightarrow> HaveKey ks keyID | CScriptID scriptID \<Rightarrow> HaveCScript ks scriptID)"

text \<open>IsMine follows redeem scripts through the key store, with no bound of its own.\<close>

partial_function (option) IsMine :: "crypto \<Rightarrow> keystore \<Rightarrow> script \<Rightarrow> bool option" where
  "IsMine C ks spk =
     (case Solver spk of (ok, whichType, vSolutions) \<Rightarrow>
      if \<not> ok then Some False
      else case whichType of
        TX_NONSTANDARD \<Rightarrow> Some False
      | TX_PUBKEY \<Rightarrow> Some (HaveKey ks (CPubKey_GetID C (CPubKey_Set (vSolutions ! 0))))
      | TX_PUBKEYHASH \<Rightarrow> Some (HaveKey ks (u160_of_bytes (vSolutions ! 0)))
      | TX_SCRIPTHASH \<Rightarrow>
          (case GetCScript ks (u160_of_bytes (vSolutions ! 0)) of None \<Rightarrow> Some False
           | Some subscript \<Rightarrow> IsMine C ks subscript)
      | TX_MULTISIG \<Rightarrow> let keys = butlast (tl vSolutions) in Some (HaveKeys C keys ks = length keys))"

section \<open>Signing\<close>

definition Sign1 ::
  "crypto \<Rightarrow> ec_lib \<Rightarrow> aes_lib \<Rightarrow> uint160 \<Rightarrow> keystore \<Rightarrow> uint256 \<Rightarrow> int \<Rightarrow> script \<Rightarrow> bool \<times> script" where
  "Sign1 C E A address ks hash nHashType scriptSigRet =
     (case GetKey C A ks address of None \<Rightarrow> (False, scriptSigRet)
      | Some key \<Rightarrow>
          (case CKey_Sign E key hash of None \<Rightarrow> (False, scriptSigRet)
           | Some vchSig \<Rightarrow> (True, push_data scriptSigRet (vchSig @ [word_of_int nHashType]))))"

fun SignN_loop ::
  "crypto \<Rightarrow> ec_lib \<Rightarrow> aes_lib \<Rightarrow> valtype list \<Rightarrow> int \<Rightarrow> keystore \<Rightarrow> uint256 \<Rightarrow> int \<Rightarrow> int \<Rightarrow> script \<Rightarrow> int \<times> script" where
  "SignN_loop C E A [] nRequired ks hash nHashType nSigned scriptSigRet = (nSigned, scriptSigRet)"
| "SignN_loop C E A (pubkey # rest) nRequired ks hash nHashType nSigned scriptSigRet =
     (if \<not> nSigned < nRequired then (nSigned, scriptSigRet)
      else case Sign1 C E A (CPubKey_GetID C (CPubKey_Set pubkey)) ks hash nHashType scriptSigRet of (ok, scriptSigRet) \<Rightarrow>
        SignN_loop C E A rest nRequired ks hash nHashType (if ok then nSigned + 1 else nSigned) scriptSigRet)"

definition SignN ::
  "crypto \<Rightarrow> ec_lib \<Rightarrow> aes_lib \<Rightarrow> valtype list \<Rightarrow> keystore \<Rightarrow> uint256 \<Rightarrow> int \<Rightarrow> script \<Rightarrow> bool \<times> script" where
  "SignN C E A multisigdata ks hash nHashType scriptSigRet =
     (let nRequired = uint (hd multisigdata ! 0) in
      case SignN_loop C E A (butlast (tl multisigdata)) nRequired ks hash nHashType 0 scriptSigRet of (nSigned, scriptSigRet) \<Rightarrow>
        (nSigned = nRequired, scriptSigRet))"

text \<open>Solver with a key store; a redeem script that is not there leaves the script as it was, empty.\<close>

definition Solver_sign ::
  "crypto \<Rightarrow> ec_lib \<Rightarrow> aes_lib \<Rightarrow> keystore \<Rightarrow> script \<Rightarrow> uint256 \<Rightarrow> int \<Rightarrow> (bool \<times> script \<times> txnouttype) outcome" where
  "Solver_sign C E A ks spk hash nHashType =
     (case Solver spk of (ok, whichTypeRet, vSolutions) \<Rightarrow>
      if \<not> ok then Some (False, [], whichTypeRet)
      else case whichTypeRet of
        TX_NONSTANDARD \<Rightarrow> Some (False, [], whichTypeRet)
      | TX_PUBKEY \<Rightarrow>
          (case Sign1 C E A (CPubKey_GetID C (CPubKey_Set (vSolutions ! 0))) ks hash nHashType [] of
             (ok, scriptSigRet) \<Rightarrow> Some (ok, scriptSigRet, whichTypeRet))
      | TX_PUBKEYHASH \<Rightarrow>
          let keyID = u160_of_bytes (vSolutions ! 0) in
          (case Sign1 C E A keyID ks hash nHashType [] of (ok, scriptSigRet) \<Rightarrow>
             if \<not> ok then Some (False, scriptSigRet, whichTypeRet)
             else case GetPubKey C E A ks keyID of None \<Rightarrow> None
             | Some vch \<Rightarrow>
                 let vch = (case vch of None \<Rightarrow> CPubKey_invalid | Some vch \<Rightarrow> vch) in
                 Some (True, push_fixed scriptSigRet (CPubKey_bytes vch), whichTypeRet))
      | TX_SCRIPTHASH \<Rightarrow>
          (case GetCScript ks (u160_of_bytes (vSolutions ! 0)) of None \<Rightarrow> Some (False, [], whichTypeRet)
           | Some subscript \<Rightarrow> Some (True, subscript, whichTypeRet))
      | TX_MULTISIG \<Rightarrow>
          (case SignN C E A vSolutions ks hash nHashType (push_op [] OP_0) of
             (ok, scriptSigRet) \<Rightarrow> Some (ok, scriptSigRet, whichTypeRet)))"

text \<open>The transaction with a new script in input nIn, and SignSignature: its result with that transaction.\<close>

definition with_scriptSig :: "CTransaction \<Rightarrow> nat \<Rightarrow> script \<Rightarrow> CTransaction" where
  "with_scriptSig txTo nIn s = txTo\<lparr>vin := (vin txTo)[nIn := (vin txTo ! nIn)\<lparr>scriptSig := s\<rparr>]\<rparr>"

definition test_solution ::
  "'b bn_lib \<Rightarrow> crypto \<Rightarrow> ec_lib \<Rightarrow> (nat \<Rightarrow> uint256) \<Rightarrow> int \<Rightarrow> script \<Rightarrow> CTransaction \<Rightarrow> nat \<Rightarrow> CSignatureCache
    \<Rightarrow> bool \<times> CTransaction \<times> CSignatureCache" where
  "test_solution L C E rand nMaxCacheSize fromPubKey txTo nIn c =
     (let flags = SCRIPT_VERIFY_P2SH OR SCRIPT_VERIFY_STRICTENC in
      case VerifyScript L C (CheckSig C E rand nMaxCacheSize txTo nIn 0 flags) flags (scriptSig (vin txTo ! nIn)) fromPubKey c of
        (ok, c) \<Rightarrow> (ok, txTo, c))"

definition SignSignature ::
  "'b bn_lib \<Rightarrow> crypto \<Rightarrow> ec_lib \<Rightarrow> aes_lib \<Rightarrow> (nat \<Rightarrow> uint256) \<Rightarrow> int \<Rightarrow> keystore \<Rightarrow> script \<Rightarrow> CTransaction \<Rightarrow> nat \<Rightarrow> int
    \<Rightarrow> CSignatureCache \<Rightarrow> (bool \<times> CTransaction \<times> CSignatureCache) outcome" where
  "SignSignature L C E A rand nMaxCacheSize ks fromPubKey txTo nIn nHashType c =
     (if nIn \<ge> length (vin txTo) then None
      else let hash = SignatureHash C fromPubKey txTo nIn nHashType
      in case Solver_sign C E A ks fromPubKey hash nHashType of None \<Rightarrow> None
         | Some (ok, s, whichType) \<Rightarrow>
             let txTo = with_scriptSig txTo nIn s in
             if \<not> ok then Some (False, txTo, c)
             else if whichType = TX_SCRIPTHASH then
               let subscript = s; hash2 = SignatureHash C subscript txTo nIn nHashType
               in (case Solver_sign C E A ks subscript hash2 nHashType of None \<Rightarrow> None
                  | Some (ok2, s2, subType) \<Rightarrow>
                      let fSolved = (ok2 \<and> subType \<noteq> TX_SCRIPTHASH);
                          txTo = with_scriptSig txTo nIn (push_data s2 subscript)
                      in if \<not> fSolved then Some (False, txTo, c)
                         else Some (test_solution L C E rand nMaxCacheSize fromPubKey txTo nIn c))
             else Some (test_solution L C E rand nMaxCacheSize fromPubKey txTo nIn c))"

section \<open>Building output scripts\<close>

definition SetDestination :: "CTxDestination \<Rightarrow> bool \<times> script" where
  "SetDestination dest =
     (case dest of CNoDestination \<Rightarrow> (False, [])
      | CKeyID keyID \<Rightarrow> (True, push_op (push_op (push_fixed (push_op (push_op [] OP_DUP) OP_HASH160) (u160_bytes keyID)) OP_EQUALVERIFY) OP_CHECKSIG)
      | CScriptID scriptID \<Rightarrow> (True, push_op (push_fixed (push_op [] OP_HASH160) (u160_bytes scriptID)) OP_EQUAL))"

definition SetMultisig :: "int \<Rightarrow> CPubKey list \<Rightarrow> script outcome" where
  "SetMultisig nRequired keys =
     (case EncodeOP_N nRequired of None \<Rightarrow> None
      | Some opcode \<Rightarrow>
          let s = fold (\<lambda>key s. push_fixed s (CPubKey_bytes key)) keys (push_op [] opcode) in
          (case EncodeOP_N (int (length keys)) of None \<Rightarrow> None
           | Some opcode \<Rightarrow> Some (push_op (push_op s opcode) OP_CHECKMULTISIG)))"

section \<open>What the templates match\<close>

lemma GetOp2_opcode:
  assumes "GetOp2 pc = (True, opcode, v, pc')" and "OP_PUSHDATA4 < opcode"
  shows "v = []" "pc = word_of_nat opcode # pc'"
proof -
  obtain b r where "pc = b # r" using assms(1) by (cases pc) (simp_all add: GetOp2.simps)
  with assms show "v = []" "pc = word_of_nat opcode # pc'"
    by (auto simp: GetOp2.simps Let_def GetOp_immediate_def split: if_splits)
qed

lemma GetOp2_is_op:
  assumes "OP_PUSHDATA4 < opcode" and "opcode < 256"
  shows "GetOp2 pc = (True, opcode, v, pc') \<longleftrightarrow> v = [] \<and> pc = word_of_nat opcode # pc'"
proof -
  have "unat (word_of_nat opcode :: byte) = opcode" using assms(2) by (simp add: unat_of_nat)
  then show ?thesis using GetOp2_opcode [of pc opcode v pc'] GetOp2_op [of "word_of_nat opcode" pc'] assms by auto
qed

text \<open>One instruction of a template that is not OP_PUBKEYS.\<close>

lemma match_template_Nil: "match_template pc1 [] sols = Some r \<longleftrightarrow> pc1 = [] \<and> r = sols"
  by (auto simp: match_template.simps [of pc1 "[]"] GetOp2.simps split: prod.splits if_splits)

lemma match_template_op:
  assumes "OP_PUSHDATA4 < unat b" and "unat b \<noteq> OP_PUBKEYS"
  shows "match_template pc1 (b # pc2) sols = Some r \<longleftrightarrow>
    (\<exists>opcode1 v pc1' sols'. GetOp2 pc1 = (True, opcode1, v, pc1') \<and> match_op opcode1 v (unat b) [] sols = Some sols'
       \<and> match_template pc1' pc2 sols' = Some r)"
  unfolding match_template.simps [of pc1 "b # pc2"] GetOp2_op [OF assms(1)] using assms(2)
  by (auto split: prod.splits if_splits option.splits)

lemma match_template_plain:
  assumes "OP_PUSHDATA4 < unat b" and "unat b < OP_SMALLINTEGER"
  shows "match_template pc1 (b # pc2) sols = Some r \<longleftrightarrow> (\<exists>pc1'. pc1 = b # pc1' \<and> match_template pc1' pc2 sols = Some r)"
proof -
  have "GetOp2 pc1 = (True, opcode1, v, pc1') \<and> match_op opcode1 v (unat b) [] sols = Some sols'
    \<longleftrightarrow> pc1 = b # pc1' \<and> opcode1 = unat b \<and> v = [] \<and> sols' = sols" for opcode1 v pc1' sols'
    using assms GetOp2_opcode [of pc1 "unat b" v pc1'] GetOp2_op [of b pc1'] by (auto simp: match_op_def)
  then have "(\<exists>opcode1 v pc1' sols'. GetOp2 pc1 = (True, opcode1, v, pc1') \<and> match_op opcode1 v (unat b) [] sols = Some sols'
       \<and> match_template pc1' pc2 sols' = Some r) \<longleftrightarrow> (\<exists>pc1'. pc1 = b # pc1' \<and> match_template pc1' pc2 sols = Some r)" by metis
  then show ?thesis using assms by (subst match_template_op) simp_all
qed

lemma match_op_params:
  "match_op opcode1 v OP_PUBKEY [] sols = Some r \<longleftrightarrow> 33 \<le> length v \<and> length v \<le> 120 \<and> r = sols @ [v]"
  "match_op opcode1 v OP_PUBKEYHASH [] sols = Some r \<longleftrightarrow> length v = 20 \<and> r = sols @ [v]"
  "match_op opcode1 v OP_SMALLINTEGER [] sols = Some r \<longleftrightarrow> (\<exists>n. DecodeOP_N opcode1 = Some n \<and> r = sols @ [[word_of_nat n]])"
  by (auto simp: match_op_def DecodeOP_N_def)

lemma match_pubkey:
  "match_template s [0xfe, 0xac] [] = Some sols \<longleftrightarrow>
    (\<exists>opcode v. GetOp2 s = (True, opcode, v, [0xac]) \<and> 33 \<le> length v \<and> length v \<le> 120 \<and> sols = [v])"
  by (subst match_template_op) (auto simp: match_template_plain match_template_Nil match_op_params)

lemma match_pubkeyhash:
  "match_template s [0x76, 0xa9, 0xfd, 0x88, 0xac] [] = Some sols \<longleftrightarrow>
    (\<exists>r opcode v. s = 0x76 # 0xa9 # r \<and> GetOp2 r = (True, opcode, v, [0x88, 0xac]) \<and> length v = 20 \<and> sols = [v])"
proof -
  have "match_template r [0xfd, 0x88, 0xac] [] = Some sols \<longleftrightarrow>
    (\<exists>opcode v. GetOp2 r = (True, opcode, v, [0x88, 0xac]) \<and> length v = 20 \<and> sols = [v])" for r
    by (subst match_template_op) (auto simp: match_template_plain match_template_Nil match_op_params)
  then show ?thesis by (simp add: match_template_plain) blast
qed

text \<open>A run of instructions and the data they push.\<close>

primrec reads :: "script \<Rightarrow> valtype list \<Rightarrow> script \<Rightarrow> bool" where
  "reads s [] s' \<longleftrightarrow> s = s'"
| "reads s (v # vs) s' \<longleftrightarrow> (\<exists>opcode r. GetOp2 s = (True, opcode, v, r) \<and> reads r vs s')"

definition key_sized :: "valtype \<Rightarrow> bool" where
  "key_sized v \<longleftrightarrow> 33 \<le> length v \<and> length v \<le> 120"

lemma GetOp2_fails: "GetOp2 pc = (False, opcode, v, pc') \<Longrightarrow> opcode = OP_INVALIDOPCODE"
  by (cases pc) (auto simp: GetOp2.simps Let_def GetOp_immediate_def split: if_splits)

lemma pubkeys_loop_reads:
  assumes "GetOp2 r = (True, opcode, v, pc)" and "pubkeys_loop opcode v pc sols = (opcode', v', pc', sols')"
    and "opcode' \<noteq> OP_INVALIDOPCODE"
  shows "\<exists>ks q. reads r ks q \<and> GetOp2 q = (True, opcode', v', pc') \<and> sols' = sols @ ks \<and> list_all key_sized ks"
  using assms
proof (induction opcode v pc sols arbitrary: r rule: pubkeys_loop.induct)
  case (1 opcode v pc sols)
  show ?case
  proof (cases "key_sized v")
    case False
    then have "opcode' = opcode" "v' = v" "pc' = pc" "sols' = sols"
      using 1(3) unfolding key_sized_def pubkeys_loop.simps [of opcode v pc sols] by (simp_all split: if_splits)
    then show ?thesis using 1(2) by (intro exI [of _ "[]"] exI [of _ r]) auto
  next
    case True
    obtain ok2 opcode2 v2 pc2 where g: "GetOp2 pc = (ok2, opcode2, v2, pc2)" by (cases "GetOp2 pc") auto
    have ok2: ok2
    proof (rule ccontr)
      assume n: "\<not> ok2"
      then have "opcode' = opcode2" using 1(3) True g unfolding key_sized_def pubkeys_loop.simps [of opcode v pc sols] by simp
      then show False using GetOp2_fails [of pc opcode2 v2 pc2] n g 1(4) by simp
    qed
    then have "pubkeys_loop opcode2 v2 pc2 (sols @ [v]) = (opcode', v', pc', sols')"
      using 1(3) True g unfolding key_sized_def pubkeys_loop.simps [of opcode v pc sols] by simp
    moreover have "GetOp2 pc = (True, opcode2, v2, pc2)" using g ok2 by simp
    ultimately obtain ks q where ks: "reads pc ks q" "GetOp2 q = (True, opcode', v', pc')" "sols' = (sols @ [v]) @ ks"
      "list_all key_sized ks"
      using 1(1) [OF True [unfolded key_sized_def] g [symmetric] refl refl _ _ _ 1(4)] ok2 by blast
    then show ?thesis using 1(2) True by (intro exI [of _ "v # ks"] exI [of _ q]) auto
  qed
qed

lemma reads_pubkeys_loop:
  assumes "reads r ks q" and "list_all key_sized ks" and "GetOp2 q = (True, opcode', v', pc')" and "\<not> key_sized v'"
    and "GetOp2 r = (True, opcode, v, pc)"
  shows "pubkeys_loop opcode v pc sols = (opcode', v', pc', sols @ ks)"
  using assms
proof (induction ks arbitrary: r opcode v pc sols)
  case Nil
  then show ?case by (auto simp: pubkeys_loop.simps [of opcode v pc sols] key_sized_def)
next
  case (Cons k ks)
  then have k: "v = k" "key_sized k" "reads pc ks q" by auto
  obtain opcode2 v2 pc2 where g: "GetOp2 pc = (True, opcode2, v2, pc2)"
    using k(3) Cons.prems(3) by (cases ks) auto
  show ?case using Cons.IH [OF k(3) _ Cons.prems(3,4) g, of "sols @ [k]"] Cons.prems(2) k(1,2) g
    unfolding pubkeys_loop.simps [of opcode v pc sols] by (simp add: key_sized_def)
qed

lemma DecodeOP_N_op: "GetOp2 s = (True, opcode, v, r) \<Longrightarrow> DecodeOP_N opcode = Some n \<Longrightarrow> v = []"
  using GetOp2_opcode(1) [of s opcode v r]
  by (cases s) (auto simp: DecodeOP_N_def GetOp2.simps Let_def GetOp_immediate_def split: if_splits)

lemma match_multisig:
  "match_template s [0xfa, 0xfb, 0xfa, 0xae] [] = Some sols \<longleftrightarrow>
    (\<exists>opm m r ks q opn n vm vn. GetOp2 s = (True, opm, vm, r) \<and> DecodeOP_N opm = Some m \<and> reads r ks q \<and> list_all key_sized ks
       \<and> GetOp2 q = (True, opn, vn, [0xae]) \<and> DecodeOP_N opn = Some n \<and> sols = [word_of_nat m] # ks @ [[word_of_nat n]])"
  (is "_ \<longleftrightarrow> ?R")
proof -
  have g: "GetOp2 [0xfb, 0xfa, 0xae] = (True, 251, [], [0xfa, 0xae])" "GetOp2 [0xfa, 0xae] = (True, 250, [], [0xae])"
    by (simp_all add: GetOp2_op)
  have inner: "match_template r [0xfb, 0xfa, 0xae] [[word_of_nat m]] = Some sols \<longleftrightarrow>
    (\<exists>ks q opn n vn. reads r ks q \<and> list_all key_sized ks \<and> GetOp2 q = (True, opn, vn, [0xae]) \<and> DecodeOP_N opn = Some n
       \<and> sols = [word_of_nat m] # ks @ [[word_of_nat n]])" (is "?l \<longleftrightarrow> ?r") for r m
  proof
    assume ?l
    then obtain op1 v1 r1 op2 v2 r2 sols' n where l: "GetOp2 r = (True, op1, v1, r1)"
      "pubkeys_loop op1 v1 r1 [[word_of_nat m]] = (op2, v2, r2, sols')" "DecodeOP_N op2 = Some n"
      "match_template r2 [0xae] (sols' @ [[word_of_nat n]]) = Some sols"
      unfolding match_template.simps [of r "[0xfb, 0xfa, 0xae]"]
      by (auto simp: g match_op_params split: prod.splits if_splits option.splits)
    have "op2 \<noteq> OP_INVALIDOPCODE" using l(3) by (auto simp: DecodeOP_N_def)
    from pubkeys_loop_reads [OF l(1,2) this] obtain ks q where ks: "reads r ks q" "GetOp2 q = (True, op2, v2, r2)"
      "sols' = [[word_of_nat m]] @ ks" "list_all key_sized ks" by blast
    moreover have "r2 = [0xae]" "sols = sols' @ [[word_of_nat n]]"
      using l(4) by (simp_all add: match_template_plain match_template_Nil)
    ultimately show ?r using l(3) by auto
  next
    assume ?r
    then obtain ks q opn n vn where r: "reads r ks q" "list_all key_sized ks" "GetOp2 q = (True, opn, vn, [0xae])"
      "DecodeOP_N opn = Some n" "sols = [word_of_nat m] # ks @ [[word_of_nat n]]" by blast
    obtain op1 v1 r1 where f: "GetOp2 r = (True, op1, v1, r1)" using r(1,3) by (cases ks) auto
    have "vn = []" by (rule DecodeOP_N_op [OF r(3,4)])
    then have "pubkeys_loop op1 v1 r1 [[word_of_nat m]] = (opn, vn, [0xae], [[word_of_nat m]] @ ks)"
      using reads_pubkeys_loop [OF r(1,2,3) _ f] by (simp add: key_sized_def)
    moreover have "match_op opn vn 250 [] ([[word_of_nat m]] @ ks) = Some sols" using r(4,5) by (simp add: match_op_params)
    moreover have "match_template [0xae] [0xae] sols = Some sols" by (simp add: match_template_plain match_template_Nil)
    ultimately show ?l unfolding match_template.simps [of r "[0xfb, 0xfa, 0xae]"] by (simp add: g f)
  qed
  have "match_template s [0xfa, 0xfb, 0xfa, 0xae] [] = Some sols \<longleftrightarrow> (\<exists>opm vm r sols'. GetOp2 s = (True, opm, vm, r)
      \<and> (\<exists>m. DecodeOP_N opm = Some m \<and> sols' = [[word_of_nat m]]) \<and> match_template r [0xfb, 0xfa, 0xae] sols' = Some sols)"
    by (subst match_template_op) (simp_all add: match_op_params)
  also have "\<dots> \<longleftrightarrow> (\<exists>opm vm r m. GetOp2 s = (True, opm, vm, r) \<and> DecodeOP_N opm = Some m
      \<and> match_template r [0xfb, 0xfa, 0xae] [[word_of_nat m]] = Some sols)" by blast
  finally show ?thesis unfolding inner by blast
qed

section \<open>What Solver recognises\<close>

lemma IsPayToScriptHash_iff: "IsPayToScriptHash s \<longleftrightarrow> (\<exists>h. length h = 20 \<and> s = [0xa9, 0x14] @ h @ [0x87])"
proof
  assume p: "IsPayToScriptHash s"
  then have l: "length s = 23" and b: "s ! 0 = 0xa9" "s ! 1 = 0x14" "s ! 22 = 0x87"
    by (auto simp: IsPayToScriptHash_def word_unat_eq_iff)
  have "s = [s ! 0, s ! 1] @ take 20 (drop 2 s) @ [s ! 22]"
    by (rule nth_equalityI) (use l in \<open>auto simp: nth_append nth_Cons' less_Suc_eq numeral_eq_Suc\<close>)
  then show "\<exists>h. length h = 20 \<and> s = [0xa9, 0x14] @ h @ [0x87]" using l b by (intro exI [of _ "take 20 (drop 2 s)"]) simp
next
  show "\<exists>h. length h = 20 \<and> s = [0xa9, 0x14] @ h @ [0x87] \<Longrightarrow> IsPayToScriptHash s"
    by (auto simp: IsPayToScriptHash_def nth_append)
qed

lemma mTemplates_bytes: "mTemplates = [(TX_PUBKEY, [0xfe, 0xac]), (TX_PUBKEYHASH, [0x76, 0xa9, 0xfd, 0x88, 0xac]),
    (TX_MULTISIG, [0xfa, 0xfb, 0xfa, 0xae])]"
  by (simp add: mTemplates_def)

lemma DecodeOP_N_byte: "DecodeOP_N opcode = Some n \<Longrightarrow> n \<le> 16 \<and> (1 \<le> n \<longrightarrow> opcode = 80 + n)"
  by (auto simp: DecodeOP_N_def split: if_splits)

lemma GetOp2_small: "1 \<le> n \<Longrightarrow> n \<le> 16 \<Longrightarrow> GetOp2 s = (True, 80 + n, v, r) \<longleftrightarrow> v = [] \<and> s = word_of_nat (80 + n) # r"
  by (rule GetOp2_is_op) simp_all

definition pays_multisig :: "script \<Rightarrow> nat \<Rightarrow> valtype list \<Rightarrow> bool" where
  "pays_multisig s m ks \<longleftrightarrow> 1 \<le> m \<and> m \<le> length ks \<and> length ks \<le> 16 \<and> list_all key_sized ks
     \<and> (\<exists>r. s = word_of_nat (80 + m) # r \<and> reads r ks [word_of_nat (80 + length ks), 0xae])"

lemma multisig_counts:
  assumes "match_template s [0xfa, 0xfb, 0xfa, 0xae] [] = Some sols"
  shows "(let m = unat (hd sols ! 0); n = unat (last sols ! 0) in \<not> (m < 1 \<or> n < 1 \<or> m > n \<or> length sols - 2 \<noteq> n)) \<longleftrightarrow>
    (\<exists>m ks. pays_multisig s m ks \<and> sols = [word_of_nat m] # ks @ [[word_of_nat (length ks)]])"
  (is "?l \<longleftrightarrow> ?r")
proof -
  obtain opm m r ks q opn n vm vn where s: "GetOp2 s = (True, opm, vm, r)" "DecodeOP_N opm = Some m" "reads r ks q"
    "list_all key_sized ks" "GetOp2 q = (True, opn, vn, [0xae])" "DecodeOP_N opn = Some n"
    "sols = [word_of_nat m] # ks @ [[word_of_nat n]]" using assms unfolding match_multisig by blast
  have mn: "m \<le> 16" "n \<le> 16" using DecodeOP_N_byte [OF s(2)] DecodeOP_N_byte [OF s(6)] by auto
  have u: "unat (word_of_nat k :: byte) = k" if "k \<le> 16" for k using that by (simp add: unat_of_nat)
  have l: "?l \<longleftrightarrow> 1 \<le> m \<and> 1 \<le> n \<and> m \<le> n \<and> length ks = n" using mn by (auto simp: s(7) u Let_def)
  show ?thesis
  proof
    assume ?l
    then have c: "1 \<le> m" "m \<le> length ks" "length ks = n" using l by auto
    then have "opm = 80 + m" "opn = 80 + length ks" using DecodeOP_N_byte [OF s(2)] DecodeOP_N_byte [OF s(6)] by auto
    then have "s = word_of_nat (80 + m) # r" "q = word_of_nat (80 + length ks) # [0xae]"
      using s(1,5) c mn GetOp2_small [of m s vm r] GetOp2_small [of "length ks" q vn "[0xae]"] by simp_all
    then show ?r using c s(3,4,7) mn by (auto simp: pays_multisig_def)
  next
    assume ?r
    then obtain m' ks' where r: "pays_multisig s m' ks'" "sols = [word_of_nat m'] # ks' @ [[word_of_nat (length ks')]]" by blast
    then have "ks = ks'" "(word_of_nat m :: byte) = word_of_nat m'" "(word_of_nat n :: byte) = word_of_nat (length ks')"
      using s(7) by auto
    moreover have "m' \<le> 16" "length ks' \<le> 16" using r(1) by (auto simp: pays_multisig_def)
    ultimately have "m = m'" "n = length ks'" using u mn by metis+
    then show ?l unfolding l using r(1) \<open>ks = ks'\<close> by (auto simp: pays_multisig_def)
  qed
qed

lemma pays_multisig_matches:
  assumes "pays_multisig s m ks"
  shows "match_template s [0xfa, 0xfb, 0xfa, 0xae] [] = Some ([word_of_nat m] # ks @ [[word_of_nat (length ks)]])"
    and "match_template s [0xfe, 0xac] [] = None" and "match_template s [0x76, 0xa9, 0xfd, 0x88, 0xac] [] = None"
    and "\<not> IsPayToScriptHash s"
proof -
  obtain r where r: "s = word_of_nat (80 + m) # r" "reads r ks [word_of_nat (80 + length ks), 0xae]"
    and c: "1 \<le> m" "m \<le> 16" "1 \<le> length ks" "length ks \<le> 16" "list_all key_sized ks"
    using assms unfolding pays_multisig_def by auto
  have g: "GetOp2 s = (True, 80 + m, [], r)" using GetOp2_small [OF c(1,2), of s "[]" r] r(1) by simp
  have "GetOp2 (word_of_nat (80 + length ks) # [0xae]) = (True, 80 + length ks, [], [0xae])"
    using GetOp2_small [OF c(3,4), of _ "[]" "[0xae]"] by simp
  moreover have "DecodeOP_N (80 + m) = Some m" "DecodeOP_N (80 + length ks) = Some (length ks)"
    using c by (auto simp: DecodeOP_N_def)
  ultimately show "match_template s [0xfa, 0xfb, 0xfa, 0xae] [] = Some ([word_of_nat m] # ks @ [[word_of_nat (length ks)]])"
    unfolding match_multisig using g r(2) c(5) by blast
  show "match_template s [0xfe, 0xac] [] = None"
    using g match_pubkey [of s] by (cases "match_template s [0xfe, 0xac] []") auto
  have u: "unat (word_of_nat (80 + m) :: byte) = 80 + m" using c(2) by (subst unat_of_nat) simp
  have ne: "word_of_nat (80 + m) \<noteq> b" if "96 < unat b" for b :: byte
  proof
    assume "word_of_nat (80 + m) = b"
    with u have "unat b = 80 + m" by (simp only:)
    then show False using that c(2) by simp
  qed
  show "match_template s [0x76, 0xa9, 0xfd, 0x88, 0xac] [] = None"
    using ne [of "0x76"] r(1) match_pubkeyhash [of s] by (cases "match_template s [0x76, 0xa9, 0xfd, 0x88, 0xac] []") auto
  show "\<not> IsPayToScriptHash s" using ne [of "0xa9"] r(1) by (auto simp: IsPayToScriptHash_iff)
qed

lemma Solver_iff:
  "Solver s = (True, t, sols) \<longleftrightarrow>
     (t = TX_SCRIPTHASH \<and> (\<exists>h. length h = 20 \<and> s = [0xa9, 0x14] @ h @ [0x87] \<and> sols = [h]))
   \<or> (t = TX_PUBKEY \<and> (\<exists>opcode v. GetOp2 s = (True, opcode, v, [0xac]) \<and> 33 \<le> length v \<and> length v \<le> 120 \<and> sols = [v]))
   \<or> (t = TX_PUBKEYHASH \<and> (\<exists>r opcode h. s = 0x76 # 0xa9 # r \<and> GetOp2 r = (True, opcode, h, [0x88, 0xac]) \<and> length h = 20 \<and> sols = [h]))
   \<or> (t = TX_MULTISIG \<and> (\<exists>m ks. pays_multisig s m ks \<and> sols = [word_of_nat m] # ks @ [[word_of_nat (length ks)]]))"
  (is "_ \<longleftrightarrow> ?S \<or> ?P \<or> ?H \<or> ?M")
proof (cases "IsPayToScriptHash s")
  case True
  then obtain h where h: "length h = 20" "s = [0xa9, 0x14] @ h @ [0x87]" unfolding IsPayToScriptHash_iff by blast
  then have "GetOp2 s = (True, 0xa9, [], 0x14 # h @ [0x87])" by (simp add: GetOp2_op)
  then have "\<not> ?P" "\<not> ?H" "\<not> ?M" using h True pays_multisig_matches(4) by auto
  moreover have "Solver s = (True, TX_SCRIPTHASH, [h])" using True h by (simp add: Solver_def)
  ultimately show ?thesis using h by auto
next
  case False
  then have S: "\<not> ?S" by (auto simp: IsPayToScriptHash_iff)
  have eq: "Solver s = scan_templates [(TX_PUBKEY, [0xfe, 0xac]), (TX_PUBKEYHASH, [0x76, 0xa9, 0xfd, 0x88, 0xac]),
      (TX_MULTISIG, [0xfa, 0xfb, 0xfa, 0xae])] s" using False by (simp add: Solver_def mTemplates_bytes)
  show ?thesis
  proof (cases "match_template s [0xfe, 0xac] []")
    case (Some r)
    then obtain opcode v where v: "GetOp2 s = (True, opcode, v, [0xac])" "33 \<le> length v" "length v \<le> 120" "r = [v]"
      unfolding match_pubkey by blast
    have "Solver s = (True, t, sols) \<longleftrightarrow> t = TX_PUBKEY \<and> sols = [v]" by (auto simp: eq Some v)
    moreover have "?P \<longleftrightarrow> t = TX_PUBKEY \<and> sols = [v]" using v by auto
    moreover have "\<not> ?H" using v(1,2) by (auto simp: GetOp2_op)
    moreover have "\<not> ?M" using Some pays_multisig_matches(2) by auto
    ultimately show ?thesis using S by blast
  next
    case None
    then have P: "\<not> ?P" using match_pubkey [of s sols] by auto
    show ?thesis
    proof (cases "match_template s [0x76, 0xa9, 0xfd, 0x88, 0xac] []")
      case (Some r)
      then obtain r' opcode h where h: "s = 0x76 # 0xa9 # r'" "GetOp2 r' = (True, opcode, h, [0x88, 0xac])" "length h = 20" "r = [h]"
        unfolding match_pubkeyhash by blast
      have "Solver s = (True, t, sols) \<longleftrightarrow> t = TX_PUBKEYHASH \<and> sols = [h]" by (auto simp: eq None Some h(4))
      moreover have "?H \<longleftrightarrow> t = TX_PUBKEYHASH \<and> sols = [h]" using h by auto
      moreover have "\<not> ?M" using Some pays_multisig_matches(3) by auto
      ultimately show ?thesis using S P by blast
    next
      case N: None
      then have H: "\<not> ?H" using match_pubkeyhash [of s sols] by auto
      show ?thesis
      proof (cases "match_template s [0xfa, 0xfb, 0xfa, 0xae] []")
        case None
        then have "\<not> ?M" using pays_multisig_matches(1) by auto
        moreover have "Solver s \<noteq> (True, t, sols)" using \<open>match_template s [0xfe, 0xac] [] = None\<close> N None by (simp add: eq)
        ultimately show ?thesis using S P H by blast
      next
        case (Some r)
        have "?M \<longleftrightarrow> t = TX_MULTISIG \<and> sols = r \<and> (\<exists>m ks. pays_multisig s m ks \<and> r = [word_of_nat m] # ks @ [[word_of_nat (length ks)]])"
          using pays_multisig_matches(1) [of s] unfolding Some option.inject by blast
        moreover have "Solver s = (True, t, sols) \<longleftrightarrow> t = TX_MULTISIG \<and> sols = r
            \<and> (let m = unat (hd r ! 0); n = unat (last r ! 0) in \<not> (m < 1 \<or> n < 1 \<or> m > n \<or> length r - 2 \<noteq> n))"
          by (auto simp: eq None N Some Let_def)
        ultimately show ?thesis using S P H multisig_counts [OF Some] by blast
      qed
    qed
  qed
qed

end
