(* ===== verification/SolveSign.thy ===== *)
theory SolveSign
  imports Solving
begin

text \<open>
  What Solver and the signing functions promise: a script built for a destination names that destination,
  multi-signature scripts name their keys, and the key store spends what it calls its own.
\<close>

section \<open>The standard forms\<close>

text \<open>
  C26: Solver recognises exactly the standard forms: the 23 bytes of a script hash, one push of 33 to 120
  bytes and CHECKSIG, the five instructions of a key hash with any push of 20 bytes, and m of n keys with
  1 <= m <= n <= 16; and it returns exactly the hash, the key, or the counts around the keys.
\<close>

theorem Solver_standard_forms:
  "Solver s = (True, t, sols) \<longleftrightarrow>
     (t = TX_SCRIPTHASH \<and> (\<exists>h. length h = 20 \<and> s = [0xa9, 0x14] @ h @ [0x87] \<and> sols = [h]))
   \<or> (t = TX_PUBKEY \<and> (\<exists>opcode v. GetOp2 s = (True, opcode, v, [0xac]) \<and> 33 \<le> length v \<and> length v \<le> 120 \<and> sols = [v]))
   \<or> (t = TX_PUBKEYHASH \<and> (\<exists>r opcode h. s = 0x76 # 0xa9 # r \<and> GetOp2 r = (True, opcode, h, [0x88, 0xac]) \<and> length h = 20 \<and> sols = [h]))
   \<or> (t = TX_MULTISIG \<and> (\<exists>m ks. pays_multisig s m ks \<and> sols = [word_of_nat m] # ks @ [[word_of_nat (length ks)]]))"
  by (rule Solver_iff)

section \<open>Scripts built for a destination\<close>

lemma GetOp2_direct: "length v < 76 \<Longrightarrow> GetOp2 (word_of_nat (length v) # v @ r) = (True, length v, v, r)"
  by (simp add: GetOp2.simps GetOp_immediate_def unat_of_nat)

lemma push_data_20: "length h = 20 \<Longrightarrow> push_data [] h = 0x14 # h"
  by (simp add: push_data_def)

lemma SetDestination_bytes:
  "SetDestination (CKeyID k) = (True, p2pkh (u160_bytes k))" "SetDestination (CScriptID k) = (True, p2sh (u160_bytes k))"
  by (simp_all add: SetDestination_def p2pkh_def p2sh_def push_op_def push_fixed_def push_data_20)

lemma Solver_p2pkh: "length h = 20 \<Longrightarrow> Solver (p2pkh h) = (True, TX_PUBKEYHASH, [h])"
  unfolding Solver_iff using GetOp2_direct [of h "[0x88, 0xac]"] by (simp add: p2pkh_def push_data_20)

lemma Solver_p2sh: "length h = 20 \<Longrightarrow> Solver (p2sh h) = (True, TX_SCRIPTHASH, [h])"
  unfolding Solver_iff by (simp add: p2sh_def push_data_20)

lemma Solver_Nil: "Solver [] = (False, TX_NONSTANDARD, [])"
  by (simp add: Solver_def IsPayToScriptHash_def mTemplates_bytes match_template.simps [of "[]"] GetOp2.simps)

text \<open>
  Round trip of destinations: the script that SetDestination builds for a key or a script is standard,
  and ExtractDestination reads exactly that destination from it; for no destination there is none.
\<close>

theorem destination_roundtrip:
  "ExtractDestination C (snd (SetDestination dest)) = (if dest = CNoDestination then None else Some dest)
   \<and> fst (SetDestination dest) = (dest \<noteq> CNoDestination)
   \<and> IsStandard_script (snd (SetDestination dest)) = (dest \<noteq> CNoDestination)"
proof (cases dest)
  case CNoDestination
  then show ?thesis by (simp add: SetDestination_def ExtractDestination_def IsStandard_script_def Solver_Nil)
qed (simp_all add: SetDestination_bytes ExtractDestination_def IsStandard_script_def Solver_p2pkh Solver_p2sh)

section \<open>Multi-signature scripts\<close>

definition key_ok :: "CPubKey \<Rightarrow> bool" where
  "key_ok k \<longleftrightarrow> k \<noteq> [] \<and> CPubKey_IsValid k \<and> length k = CPubKey_size k"

lemma key_ok_size: "key_ok k \<Longrightarrow> length k = 33 \<or> length k = 65"
  by (auto simp: key_ok_def CPubKey_IsValid_def CPubKey_size_def CPubKey_GetLen_def split: if_splits)

lemma key_ok_bytes: "key_ok k \<Longrightarrow> CPubKey_bytes k = k" "key_ok k \<Longrightarrow> CPubKey_Set k = k"
  by (simp_all add: key_ok_def CPubKey_bytes_def CPubKey_Set_def CPubKey_IsValid_def CPubKey_size_def Let_def)

lemma fold_push_fixed: "\<forall>k \<in> set keys. key_ok k
    \<Longrightarrow> fold (\<lambda>key s. push_fixed s (CPubKey_bytes key)) keys s = s @ concat (map (\<lambda>k. word_of_nat (length k) # k) keys)"
  by (induction keys arbitrary: s) (simp_all add: push_fixed_def key_ok_bytes)

lemma reads_keys: "\<forall>k \<in> set keys. key_ok k \<Longrightarrow> reads (concat (map (\<lambda>k. word_of_nat (length k) # k) keys) @ r) keys r"
proof (induction keys)
  case (Cons k keys)
  then have "length k < 76" using key_ok_size [of k] by auto
  from GetOp2_direct [OF this, of "concat (map (\<lambda>k. word_of_nat (length k) # k) keys) @ r"] Cons show ?case by auto
qed simp

lemma SetMultisig_pays:
  assumes keys: "\<forall>k \<in> set keys. key_ok k" and n: "1 \<le> m" "m \<le> length keys" "length keys \<le> 16"
  shows "\<exists>s. SetMultisig (int m) keys = Some s \<and> pays_multisig s m keys"
proof -
  have e: "EncodeOP_N (int m) = Some (80 + m)" "EncodeOP_N (int (length keys)) = Some (80 + length keys)"
    using n by (auto simp: EncodeOP_N_def)
  let ?s = "word_of_nat (80 + m) # concat (map (\<lambda>k. word_of_nat (length k) # k) keys) @ [word_of_nat (80 + length keys), 0xae]"
  have "SetMultisig (int m) keys = Some ?s"
    unfolding SetMultisig_def e by (simp add: fold_push_fixed [OF keys] push_op_def)
  moreover have "list_all key_sized keys" using keys key_ok_size by (fastforce simp: list_all_iff key_sized_def)
  ultimately show ?thesis using n reads_keys [OF keys] by (auto simp: pays_multisig_def)
qed

lemma Solver_pays_multisig: "pays_multisig s m ks \<Longrightarrow> Solver s = (True, TX_MULTISIG, [word_of_nat m] # ks @ [[word_of_nat (length ks)]])"
  unfolding Solver_iff by blast

text \<open>
  Round trip of multi-signature scripts: of up to 16 valid keys SetMultisig makes a script from which
  ExtractDestinations reads the addresses of the keys in their order and the number of signatures; it is
  standard with at most three keys; and the key store calls it its own exactly when it has every key.
\<close>

theorem multisig_roundtrip:
  assumes keys: "\<forall>k \<in> set keys. key_ok k" and n: "1 \<le> m" "m \<le> length keys" "length keys \<le> 16"
  shows "\<exists>s. SetMultisig (int m) keys = Some s
    \<and> ExtractDestinations C s = Some (TX_MULTISIG, map (\<lambda>k. CKeyID (CPubKey_GetID C k)) keys, int m)
    \<and> IsStandard_script s = (length keys \<le> 3)
    \<and> IsMine C ks s = Some (\<forall>k \<in> set keys. HaveKey ks (CPubKey_GetID C k))"
proof -
  obtain s where s: "SetMultisig (int m) keys = Some s" "pays_multisig s m keys" using SetMultisig_pays [OF assms] by blast
  note S = Solver_pays_multisig [OF s(2)]
  have u: "unat (word_of_nat k :: byte) = k" "uint (word_of_nat k :: byte) = int k" if "k \<le> 16" for k
    using that by (simp_all add: unat_of_nat unsigned_of_nat take_bit_nat_eq_self)
  have "map (\<lambda>v. CKeyID (CPubKey_GetID C (CPubKey_Set v))) keys = map (\<lambda>k. CKeyID (CPubKey_GetID C k)) keys"
    using keys by (simp add: key_ok_bytes)
  then have "ExtractDestinations C s = Some (TX_MULTISIG, map (\<lambda>k. CKeyID (CPubKey_GetID C k)) keys, int m)"
    using n by (simp add: ExtractDestinations_def S u)
  moreover have "IsStandard_script s = (length keys \<le> 3)" using n by (auto simp: IsStandard_script_def S u Let_def)
  moreover have "IsMine C ks s = Some (HaveKeys C keys ks = length keys)"
    by (subst IsMine.simps) (simp add: S Let_def)
  moreover have "HaveKeys C keys ks = length keys \<longleftrightarrow> (\<forall>k \<in> set keys. HaveKey ks (CPubKey_GetID C (CPubKey_Set k)))"
    unfolding HaveKeys_def by (metis filter_True filter_id_conv length_filter_less less_irrefl)
  ultimately show ?thesis using s(1) keys by (auto simp: key_ok_bytes)
qed

theorem multisig_roundtrip_witness:
  "\<exists>s. SetMultisig 1 [2 # replicate 32 7, 3 # replicate 32 9] = Some s
    \<and> ExtractDestinations toy_crypto s = Some (TX_MULTISIG, [CKeyID 0, CKeyID 0], 1) \<and> IsStandard_script s"
proof -
  have "\<forall>k \<in> set [2 # replicate 32 7, 3 # replicate 32 9]. key_ok k"
    by (simp add: key_ok_def CPubKey_IsValid_def CPubKey_size_def CPubKey_GetLen_def)
  moreover have "le_val (replicate n 0) = 0" for n by (induction n) simp_all
  ultimately show ?thesis using multisig_roundtrip [of "[2 # replicate 32 7, 3 # replicate 32 9]" 1 toy_crypto keystore_new]
    by (auto simp: CPubKey_GetID_def Hash160_def toy_crypto_def u160_of_bytes_def)
qed

section \<open>Signing for an own address\<close>

lemma sighash_tx_scriptSig: "sighash_tx code (with_scriptSig tx nIn s) nIn t = sighash_tx code tx nIn t"
proof -
  have "map (\<lambda>i. i\<lparr>scriptSig := []\<rparr>) (vin (with_scriptSig tx nIn s)) = map (\<lambda>i. i\<lparr>scriptSig := []\<rparr>) (vin tx)"
    by (cases "nIn < length (vin tx)"; rule nth_equalityI) (simp_all add: with_scriptSig_def nth_list_update list_update_beyond)
  moreover have "length (vin (with_scriptSig tx nIn s)) = length (vin tx)" "vout (with_scriptSig tx nIn s) = vout tx"
    "(with_scriptSig tx nIn s)\<lparr>vin := x\<rparr> = tx\<lparr>vin := x\<rparr>" for x by (simp_all add: with_scriptSig_def)
  ultimately show ?thesis unfolding sighash_tx_def by (simp add: Let_def)
qed

lemma SignatureHash_scriptSig: "SignatureHash C code (with_scriptSig tx nIn s) nIn t = SignatureHash C code tx nIn t"
  by (simp add: SignatureHash_def sighash_tx_scriptSig)

lemma with_scriptSig_twice: "with_scriptSig (with_scriptSig tx n s) n s' = with_scriptSig tx n s'"
  by (cases "n < length (vin tx)") (simp_all add: with_scriptSig_def list_update_beyond)

text \<open>A key whose signatures of one hash type are valid under its public key and canonical.\<close>

definition signs :: "ec_lib \<Rightarrow> CKey \<Rightarrow> CPubKey \<Rightarrow> int \<Rightarrow> byte list \<Rightarrow> bool" where
  "signs E key pub nHashType h \<longleftrightarrow> IsCanonicalPubKey pub \<and> CKey_GetPubKey E key = Some pub
     \<and> (\<forall>hash. \<exists>sig. CKey_Sign E key hash = Some sig \<and> CPubKey_Verify E pub hash sig
          \<and> IsCanonicalSignature (sig @ [word_of_int nHashType]) \<and> sig @ [word_of_int nHashType] \<noteq> h)"

lemma canonical_key_ok: "IsCanonicalPubKey pub \<Longrightarrow> key_ok pub"
  by (auto simp: IsCanonicalPubKey_def key_ok_def CPubKey_IsValid_def CPubKey_size_def CPubKey_GetLen_def split: if_splits)

lemma CheckSig_valid:
  assumes "key_ok pub" and "0 < nHashType" and "nHashType < 256"
    and "CPubKey_Verify E pub (SignatureHash C code tx nIn nHashType) sig"
  shows "fst (CheckSig C E rand n tx nIn 0 flags (sig @ [word_of_int nHashType]) pub code c)"
proof -
  have "uint (word_of_int nHashType :: byte) = nHashType" using assms(2,3) by (simp add: unsigned_of_int take_bit_int_eq_self)
  then show ?thesis using assms(1,4) by (simp add: CheckSig_def Let_def key_ok_bytes) (simp add: key_ok_def)
qed

lemma Hash160_20: "(\<And>v. length (RIPEMD160 C v) = 20) \<Longrightarrow> length (Hash160 C v) = 20"
  by (simp add: Hash160_def)

text \<open>What signing a key hash yields, and that the interpreter accepts it in that place.\<close>

lemma sign_p2pkh:
  assumes R: "\<And>v. length (RIPEMD160 C v) = 20" and s: "signs E key pub nHashType h" and h: "h = Hash160 C pub"
    and t: "0 < nHashType" "nHashType < 256" and k: "GetKey C A ks (u160_of_bytes h) = Some key"
    and p: "GetPubKey C E A ks (u160_of_bytes h) = Some (Some pub)"
  obtains sig where "Solver_sign C E A ks (p2pkh h) (SignatureHash C (p2pkh h) tx nIn nHashType) nHashType
      = Some (True, PushAll [sig, pub], TX_PUBKEYHASH)"
    and "\<And>s c rand n flags. fst (check_one (CheckSig C E rand n (with_scriptSig tx nIn s) nIn 0 flags) True (p2pkh h) sig pub c)"
    and "length sig \<le> 73" "length pub \<le> 65" "sig \<noteq> h" "length h = 20"
proof -
  let ?hash = "SignatureHash C (p2pkh h) tx nIn nHashType"
  have pub: "IsCanonicalPubKey pub" "key_ok pub" using s canonical_key_ok unfolding signs_def by auto
  obtain sg where sg: "CKey_Sign E key ?hash = Some sg" "CPubKey_Verify E pub ?hash sg"
    "IsCanonicalSignature (sg @ [word_of_int nHashType])" "sg @ [word_of_int nHashType] \<noteq> h"
    using s unfolding signs_def by blast
  let ?sig = "sg @ [word_of_int nHashType]"
  have len: "length ?sig \<le> 73" using sg(3) by (auto simp: IsCanonicalSignature_def Let_def split: if_splits)
  have h20: "length h = 20" using Hash160_20 [OF R] h by simp
  have lp: "length pub \<le> 65" "length pub < 76" using key_ok_size [OF pub(2)] by auto
  show thesis
  proof (rule that [of ?sig])
    have "push_fixed (push_data [] ?sig) (CPubKey_bytes pub) = PushAll [?sig, pub]"
      using lp by (simp add: push_fixed_def PushAll_Cons key_ok_bytes(1) [OF pub(2)] push_data_def)
    then show "Solver_sign C E A ks (p2pkh h) ?hash nHashType = Some (True, PushAll [?sig, pub], TX_PUBKEYHASH)"
      using k p sg(1) by (simp add: Solver_sign_def Solver_p2pkh [OF h20] Sign1_def Let_def)
    show "fst (check_one (CheckSig C E rand n (with_scriptSig tx nIn s) nIn 0 flags) True (p2pkh h) ?sig pub c)" for s c rand n flags
      using CheckSig_valid [OF pub(2) t, of E C "p2pkh h" "with_scriptSig tx nIn s" nIn sg] sg(2,3) pub(1)
      by (simp add: check_one_def SignatureHash_scriptSig)
  qed (use len lp sg(4) h20 in auto)
qed

lemma SignSignature_p2pkh:
  assumes "\<And>v. length (RIPEMD160 C v) = 20" "signs E key pub nHashType h" "h = Hash160 C pub"
    "0 < nHashType" "nHashType < 256" "GetKey C A ks (u160_of_bytes h) = Some key"
    "GetPubKey C E A ks (u160_of_bytes h) = Some (Some pub)" and n: "nIn < length (vin tx)"
  shows "\<exists>s c'. SignSignature L C E A rand m ks (p2pkh h) tx nIn nHashType c = Some (True, with_scriptSig tx nIn s, c')"
proof -
  obtain sig where sig: "Solver_sign C E A ks (p2pkh h) (SignatureHash C (p2pkh h) tx nIn nHashType) nHashType
      = Some (True, PushAll [sig, pub], TX_PUBKEYHASH)"
    "\<And>s c rand n flags. fst (check_one (CheckSig C E rand n (with_scriptSig tx nIn s) nIn 0 flags) True (p2pkh h) sig pub c)"
    "length sig \<le> 73" "length pub \<le> 65" "sig \<noteq> h" "length h = 20"
    using sign_p2pkh [OF assms(1-7)] by blast
  let ?tx = "with_scriptSig tx nIn (PushAll [sig, pub])" and ?f = "SCRIPT_VERIFY_P2SH OR SCRIPT_VERIFY_STRICTENC"
  have "scriptSig (vin ?tx ! nIn) = PushAll [sig, pub]" using n by (simp add: with_scriptSig_def)
  moreover have "VerifyScript L C CS ?f (PushAll [sig, pub]) (p2pkh h) c = check_one CS True (p2pkh h) sig pub c" for CS :: "CSignatureCache checker"
    using VerifyScript_p2pkh [OF sig(6) _ _ sig(5), of pub L C CS ?f c] sig(3,4) assms(3)
    by (simp add: MAX_SCRIPT_ELEMENT_SIZE_def)
  ultimately have "fst (test_solution L C E rand m (p2pkh h) ?tx nIn c)" "fst (snd (test_solution L C E rand m (p2pkh h) ?tx nIn c)) = ?tx"
    using sig(2) by (simp_all add: test_solution_def Let_def split: prod.split) (metis fst_conv)
  then have "test_solution L C E rand m (p2pkh h) ?tx nIn c = (True, ?tx, snd (snd (test_solution L C E rand m (p2pkh h) ?tx nIn c)))"
    by (metis prod.collapse)
  then show ?thesis using n sig(1) by (simp add: SignSignature_def Let_def) blast
qed

lemma test_solution_True:
  assumes "fst (test_solution L C E rand m spk tx nIn c)"
  shows "\<exists>c'. test_solution L C E rand m spk tx nIn c = (True, tx, c')"
  using assms by (auto simp: test_solution_def Let_def split: prod.splits)

lemma SignSignature_p2sh:
  assumes "\<And>v. length (RIPEMD160 C v) = 20" "signs E key pub nHashType h" "h = Hash160 C pub"
    "0 < nHashType" "nHashType < 256" "GetKey C A ks (u160_of_bytes h) = Some key"
    "GetPubKey C E A ks (u160_of_bytes h) = Some (Some pub)" and n: "nIn < length (vin tx)"
    and r: "GetCScript ks (CScript_GetID C (p2pkh h)) = Some (p2pkh h)"
  shows "\<exists>s c'. SignSignature L C E A rand m ks (p2sh (u160_bytes (CScript_GetID C (p2pkh h)))) tx nIn nHashType c
    = Some (True, with_scriptSig tx nIn s, c')"
proof -
  obtain sig where sig: "Solver_sign C E A ks (p2pkh h) (SignatureHash C (p2pkh h) tx nIn nHashType) nHashType
      = Some (True, PushAll [sig, pub], TX_PUBKEYHASH)"
    "\<And>s c rand n flags. fst (check_one (CheckSig C E rand n (with_scriptSig tx nIn s) nIn 0 flags) True (p2pkh h) sig pub c)"
    "length sig \<le> 73" "length pub \<le> 65" "sig \<noteq> h" "length h = 20"
    using sign_p2pkh [OF assms(1-7)] by blast
  let ?redeem = "p2pkh h" and ?f = "SCRIPT_VERIFY_P2SH OR SCRIPT_VERIFY_STRICTENC"
  let ?vs = "[sig, pub]" and ?h = "Hash160 C (p2pkh h)"
  let ?tx = "with_scriptSig tx nIn (PushAll (?vs @ [?redeem]))"
  have h2: "length ?h = 20" by (rule Hash160_20 [OF assms(1)])
  then have id: "u160_bytes (CScript_GetID C ?redeem) = ?h" by (simp add: CScript_GetID_def)
  have lr: "length ?redeem = 25" using sig(6) by (simp add: p2pkh_def push_data_20)
  have "length (PushAll (?vs @ [?redeem])) \<le> 10000"
    using length_PushAll_le [of "?vs @ [?redeem]"] sig(3,4) lr by simp
  then have "VerifyScript L C CS ?f (PushAll (?vs @ [?redeem])) (p2sh ?h) c =
      (case EvalScript L C CS ?f (rev ?vs) ?redeem c of (ok, stack, c') \<Rightarrow> (ok \<and> stack \<noteq> [] \<and> CastToBool (hd stack), c'))" for CS :: "CSignatureCache checker"
    using VerifyScript_p2sh [OF h2, of ?vs ?redeem L C CS ?f c] sig(3,4) lr by (simp add: MAX_SCRIPT_ELEMENT_SIZE_def)
  moreover have "EvalScript L C CS ?f (rev ?vs) ?redeem c =
      (case check_one CS True ?redeem sig pub c of (ok, c') \<Rightarrow> (True, [bool_val ok], c'))" for CS :: "CSignatureCache checker"
    using EvalScript_p2pkh [OF sig(6), of "[]" L C CS ?f pub sig c] p2pkh_no_match [OF sig(6) _ sig(5)] sig(3) assms(3) by simp
  moreover have "fst (VerifyScript L C CS ?f (PushAll (?vs @ [?redeem])) (p2sh ?h) c)"
    if "fst (check_one CS True ?redeem sig pub c)" for CS :: "CSignatureCache checker"
    using that calculation by (cases "check_one CS True ?redeem sig pub c") (simp add: bool_val_def vchTrue_def)
  moreover have "scriptSig (vin ?tx ! nIn) = PushAll (?vs @ [?redeem])" using n by (simp add: with_scriptSig_def)
  ultimately have "fst (test_solution L C E rand m (p2sh ?h) ?tx nIn c)"
    using sig(2) by (simp only: test_solution_def Let_def split_beta fst_conv) simp
  then obtain c' where "test_solution L C E rand m (p2sh ?h) ?tx nIn c = (True, ?tx, c')" using test_solution_True by blast
  moreover have "push_data (PushAll ?vs) ?redeem = PushAll (?vs @ [?redeem])"
    by (subst push_data_append) (simp add: PushAll_Cons)
  moreover have solve: "Solver_sign C E A ks (p2sh ?h) hash nHashType = Some (True, ?redeem, TX_SCRIPTHASH)" for hash
    using r by (simp add: Solver_sign_def Solver_p2sh [OF h2] CScript_GetID_def)
  ultimately have "SignSignature L C E A rand m ks (p2sh ?h) tx nIn nHashType c = Some (True, ?tx, c')"
    unfolding SignSignature_def Let_def solve using n
    by (simp only: option.case prod.case SignatureHash_scriptSig sig(1) with_scriptSig_twice) simp
  then show ?thesis unfolding id by blast
qed

text \<open>
  C25: A wallet spends what it owns: after a key is put into a store that is not encrypted, with the script
  of its address as a redeem script, IsMine recognises the address of the key and the address of that
  script, and SignSignature makes for either of them an input that VerifyScript accepts, whatever the
  transaction, the hash type and the state of the signature cache. The key is one whose signatures are
  valid and canonical, and no signature is the hash of the key.
\<close>

theorem own_addresses_spend:
  fixes A :: aes_lib
  assumes "\<And>v. length (RIPEMD160 C v) = 20" and "\<not> IsCrypted ks"
    and "signs E key pub nHashType (Hash160 C pub)" and "0 < nHashType" and "nHashType < 256" and "nIn < length (vin tx)"
  defines "spk \<equiv> snd (SetDestination (CKeyID (CPubKey_GetID C pub)))"
  defines "ks1 \<equiv> AddCScript C spk (snd (AddKeyPubKey C A key pub ks))"
  defines "spk2 \<equiv> snd (SetDestination (CScriptID (CScript_GetID C spk)))"
  shows "IsMine C ks1 spk = Some True \<and> IsMine C ks1 spk2 = Some True
    \<and> (\<exists>s c'. SignSignature L C E A rand m ks1 spk tx nIn nHashType c = Some (True, with_scriptSig tx nIn s, c'))
    \<and> (\<exists>s c'. SignSignature L C E A rand m ks1 spk2 tx nIn nHashType c = Some (True, with_scriptSig tx nIn s, c'))"
proof -
  let ?h = "Hash160 C pub"
  have pub: "key_ok pub" "CKey_GetPubKey E key = Some pub" using assms(3) canonical_key_ok by (auto simp: signs_def)
  have h: "length ?h = 20" by (rule Hash160_20 [OF assms(1)])
  have id: "CPubKey_GetID C pub = u160_of_bytes ?h" by (simp add: CPubKey_GetID_def key_ok_bytes(1) [OF pub(1)])
  have spk: "spk = p2pkh ?h" using h by (simp add: spk_def SetDestination_bytes id)
  have spk2: "spk2 = p2sh (u160_bytes (CScript_GetID C (p2pkh ?h)))" by (simp add: spk2_def SetDestination_bytes spk)
  have ks1: "GetKey C A ks1 (u160_of_bytes ?h) = Some key" "GetPubKey C E A ks1 (u160_of_bytes ?h) = Some (Some pub)"
    "GetCScript ks1 (CScript_GetID C (p2pkh ?h)) = Some (p2pkh ?h)" "HaveKey ks1 (u160_of_bytes ?h)"
    using assms(2) pub(2) by (simp_all add: ks1_def spk AddCScript_def AddKeyPubKey_def Basic_AddKeyPubKey_def GetKey_def Basic_GetKey_def
        GetPubKey_def KeyStore_GetPubKey_def GetCScript_def HaveKey_def Basic_HaveKey_def IsCrypted_def id)
  have mine: "IsMine C ks1 (p2pkh ?h) = Some True" by (subst IsMine.simps) (simp add: Solver_p2pkh [OF h] ks1)
  moreover have "IsMine C ks1 spk2 = Some True"
    unfolding spk2 by (subst IsMine.simps) (simp add: Solver_p2sh ks1 mine)
  ultimately show ?thesis
    using SignSignature_p2pkh [OF assms(1,3) refl assms(4,5) ks1(1,2) assms(6), of L rand m c]
      SignSignature_p2sh [OF assms(1,3) refl assms(4,5) ks1(1,2) assms(6) ks1(3), of L rand m c]
    unfolding spk spk2 by simp
qed

text \<open>A signature scheme that accepts one signature of nine bytes, for the witness.\<close>

definition toy_ec :: ec_lib where
  "toy_ec = \<lparr>EC_pubkey = (\<lambda>k c. 2 # replicate 32 7), EC_set_pub = (\<lambda>k. True), EC_decompress = (\<lambda>k. k),
     EC_sign = (\<lambda>k h. Some [0x30, 6, 2, 1, 1, 2, 1, 1]), EC_verify = (\<lambda>k h s. True)\<rparr>"

definition toy_key :: CKey where
  "toy_key = \<lparr>fValid = True, fCompressed = True, key_vch = replicate 32 1\<rparr>"

lemma toy_signs: "signs toy_ec toy_key (2 # replicate 32 7) 1 (Hash160 toy_crypto (2 # replicate 32 7))"
proof -
  have "length (Hash160 toy_crypto (2 # replicate 32 7)) = 20" by (simp add: Hash160_def toy_crypto_def)
  then have "[0x30, 6, 2, 1, 1, 2, 1, 1] @ [word_of_int 1] \<noteq> Hash160 toy_crypto (2 # replicate 32 7)" by (auto dest: arg_cong [where f = length])
  moreover have "IsCanonicalSignature ([0x30, 6, 2, 1, 1, 2, 1, 1] @ [word_of_int 1])"
    by (simp add: IsCanonicalSignature_def Let_def)
  ultimately show ?thesis
    by (simp add: signs_def toy_ec_def toy_key_def IsCanonicalPubKey_def CKey_GetPubKey_def CPubKey_Set_def CPubKey_GetLen_def CKey_Sign_def
        CPubKey_Verify_def CPubKey_IsValid_def CPubKey_size_def)
qed

theorem own_addresses_spend_witness:
  "\<exists>s c'. SignSignature int_bn toy_crypto toy_ec \<lparr>AES_encrypt = (\<lambda>_ _ _. None), AES_decrypt = (\<lambda>_ _ _. None)\<rparr> (\<lambda>_. 0) 5
      (AddCScript toy_crypto (p2pkh (replicate 20 0))
        (snd (AddKeyPubKey toy_crypto \<lparr>AES_encrypt = (\<lambda>_ _ _. None), AES_decrypt = (\<lambda>_ _ _. None)\<rparr> toy_key (2 # replicate 32 7) keystore_new)))
      (p2pkh (replicate 20 0)) sample_tx 0 1 sigcache_empty = Some (True, with_scriptSig sample_tx 0 s, c')"
proof -
  have "CPubKey_GetID toy_crypto (2 # replicate 32 7) = u160_of_bytes (replicate 20 0)"
    by (simp add: CPubKey_GetID_def Hash160_def toy_crypto_def)
  then have "snd (SetDestination (CKeyID (CPubKey_GetID toy_crypto (2 # replicate 32 7)))) = p2pkh (replicate 20 0)"
    by (simp add: SetDestination_bytes)
  moreover have "length (RIPEMD160 toy_crypto v) = 20" for v by (simp add: toy_crypto_def)
  moreover have "\<not> IsCrypted keystore_new" "0 < length (vin sample_tx)" by (simp_all add: IsCrypted_def keystore_new_def sample_tx_def)
  ultimately show ?thesis
    using own_addresses_spend [of toy_crypto keystore_new toy_ec toy_key "2 # replicate 32 7" 1 0 sample_tx
        "\<lparr>AES_encrypt = (\<lambda>_ _ _. None), AES_decrypt = (\<lambda>_ _ _. None)\<rparr>" int_bn "\<lambda>_. 0" 5 sigcache_empty] toy_signs by simp
qed

end
