(* ===== verification/CoinsDisk.thy ===== *)
theory CoinsDisk
  imports Coins Keys
begin

text \<open>
  The compact forms in which outputs are kept on disk: CScriptCompressor (script.h, script.cpp),
  CTxOutCompressor, CTxInUndo, CTxUndo, CBlockUndo and CCoins (main.h). A writer returns None where an
  assertion fails, a reader where the stream throws or an assertion fails; a reader starts from the value the
  constructor makes.
\<close>

section \<open>Scripts\<close>

definition IsToKeyID :: "script \<Rightarrow> byte list option" where
  "IsToKeyID s =
     (if length s = 25 \<and> unat (s ! 0) = OP_DUP \<and> unat (s ! 1) = OP_HASH160 \<and> s ! 2 = 20 \<and> unat (s ! 23) = OP_EQUALVERIFY
         \<and> unat (s ! 24) = OP_CHECKSIG then Some (take 20 (drop 3 s)) else None)"

definition IsToScriptID :: "script \<Rightarrow> byte list option" where
  "IsToScriptID s =
     (if length s = 23 \<and> unat (s ! 0) = OP_HASH160 \<and> s ! 1 = 20 \<and> unat (s ! 22) = OP_EQUAL
      then Some (take 20 (drop 2 s)) else None)"

definition IsToPubKey :: "ec_lib \<Rightarrow> script \<Rightarrow> CPubKey option" where
  "IsToPubKey E s =
     (if length s = 35 \<and> s ! 0 = 33 \<and> unat (s ! 34) = OP_CHECKSIG \<and> (s ! 1 = 2 \<or> s ! 1 = 3)
      then Some (CPubKey_Set (take 33 (drop 1 s)))
      else if length s = 67 \<and> s ! 0 = 65 \<and> unat (s ! 66) = OP_CHECKSIG \<and> s ! 1 = 4
      then let pubkey = CPubKey_Set (take 65 (drop 1 s)) in (if CPubKey_IsFullyValid E pubkey then Some pubkey else None)
      else None)"

definition Compress :: "ec_lib \<Rightarrow> script \<Rightarrow> byte list option" where
  "Compress E s =
     (case IsToKeyID s of Some keyID \<Rightarrow> Some (0 # keyID)
      | None \<Rightarrow> (case IsToScriptID s of Some scriptID \<Rightarrow> Some (1 # scriptID)
      | None \<Rightarrow> (case IsToPubKey E s of None \<Rightarrow> None
      | Some pubkey \<Rightarrow>
          if pubkey ! 0 = 2 \<or> pubkey ! 0 = 3 then Some (pubkey ! 0 # take 32 (drop 1 pubkey))
          else if pubkey ! 0 = 4 then Some ((4 OR (pubkey ! 64 AND 1)) # take 32 (drop 1 pubkey))
          else None)))"

definition GetSpecialSize :: "u32 \<Rightarrow> nat" where
  "GetSpecialSize nSize = (if nSize = 0 \<or> nSize = 1 then 20 else if nSize = 2 \<or> nSize = 3 \<or> nSize = 4 \<or> nSize = 5 then 32 else 0)"

text \<open>Decompress into a script; the bool is its result, and where it fails the script stays.\<close>

definition Decompress :: "ec_lib \<Rightarrow> u32 \<Rightarrow> byte list \<Rightarrow> script \<Rightarrow> (bool \<times> script) outcome" where
  "Decompress E nSize vchin s =
     (if nSize = 0 then Some (True, map word_of_nat [OP_DUP, OP_HASH160, 20] @ take 20 vchin @ map word_of_nat [OP_EQUALVERIFY, OP_CHECKSIG])
      else if nSize = 1 then Some (True, map word_of_nat [OP_HASH160, 20] @ take 20 vchin @ [word_of_nat OP_EQUAL])
      else if nSize = 2 \<or> nSize = 3 then Some (True, [33, ucast nSize] @ take 32 vchin @ [word_of_nat OP_CHECKSIG])
      else if nSize = 4 \<or> nSize = 5 then
        (case CPubKey_Decompress E (CPubKey_Set (ucast (nSize - 2) # take 32 vchin)) of
           None \<Rightarrow> Some (False, s)
         | Some pubkey \<Rightarrow>
             if CPubKey_size pubkey \<noteq> 65 then None
             else Some (True, [65] @ take 65 pubkey @ [word_of_nat OP_CHECKSIG]))
      else Some (False, s))"

definition nSpecialScripts :: u32 where "nSpecialScripts = 6"

definition ser_script :: "ec_lib \<Rightarrow> script \<Rightarrow> byte list" where
  "ser_script E s =
     (case Compress E s of Some compr \<Rightarrow> compr
      | None \<Rightarrow> ser_varint (word_of_nat (length s) + nSpecialScripts) @ s)"

definition size_script :: "ec_lib \<Rightarrow> script \<Rightarrow> nat" where
  "size_script E s =
     (case Compress E s of Some compr \<Rightarrow> length compr
      | None \<Rightarrow> length s + size_varint (word_of_nat (length s) + nSpecialScripts))"

definition unser_script :: "ec_lib \<Rightarrow> script \<Rightarrow> script reader" where
  "unser_script E old s = do {
     (nSize, s) \<leftarrow> ReadVarInt s;
     if nSize < nSpecialScripts then do {
       (vch, s) \<leftarrow> ds_read (GetSpecialSize nSize) s;
       (ok, script) \<leftarrow> Decompress E nSize vch old;
       Some (script, s) }
     else ds_read (unat (nSize - nSpecialScripts)) s }"

section \<open>Outputs\<close>

definition ser_amount :: "int \<Rightarrow> byte list option" where
  "ser_amount v = map_option ser_varint (CompressAmount (word_of_int v))"

definition unser_amount :: "int reader" where
  "unser_amount s = do { (nVal, s) \<leftarrow> ReadVarInt s; Some (sint (DecompressAmount nVal), s) }"

definition size_amount :: "int \<Rightarrow> nat outcome" where
  "size_amount v = map_option size_varint (CompressAmount (word_of_int v))"

definition ser_ctxout :: "ec_lib \<Rightarrow> CTxOut \<Rightarrow> byte list option" where
  "ser_ctxout E txout = do { b \<leftarrow> ser_amount (nValue txout); Some (b @ ser_script E (scriptPubKey txout)) }"

definition unser_ctxout :: "ec_lib \<Rightarrow> CTxOut reader" where
  "unser_ctxout E s = do {
     (v, s) \<leftarrow> unser_amount s;
     (script, s) \<leftarrow> unser_script E (scriptPubKey CTxOut_null) s;
     Some (\<lparr>nValue = v, scriptPubKey = script\<rparr>, s) }"

definition size_ctxout :: "ec_lib \<Rightarrow> CTxOut \<Rightarrow> nat outcome" where
  "size_ctxout E txout = do { n \<leftarrow> size_amount (nValue txout); Some (n + size_script E (scriptPubKey txout)) }"

section \<open>Undo data\<close>

definition ser_undo :: "ec_lib \<Rightarrow> CTxInUndo \<Rightarrow> byte list option" where
  "ser_undo E u = do {
     b \<leftarrow> ser_ctxout E (undo_txout u);
     Some (ser_varint (undo_nHeight u * 2 + (if undo_fCoinBase u then 1 else 0))
       @ (if undo_nHeight u > 0 then WriteVarInt (undo_nVersion u) else []) @ b) }"

definition unser_undo :: "ec_lib \<Rightarrow> CTxInUndo reader" where
  "unser_undo E s = do {
     (nCode :: u32, s) \<leftarrow> ReadVarInt s;
     (nVersion, s) \<leftarrow> (if nCode div 2 > 0 then unser_varint_int s else Some (0, s));
     (txout, s) \<leftarrow> unser_ctxout E s;
     Some (\<lparr>undo_txout = txout, undo_fCoinBase = (nCode AND 1 \<noteq> 0), undo_nHeight = nCode div 2, undo_nVersion = nVersion\<rparr>, s) }"

definition size_undo :: "ec_lib \<Rightarrow> CTxInUndo \<Rightarrow> nat outcome" where
  "size_undo E u = do {
     n \<leftarrow> size_ctxout E (undo_txout u);
     Some (size_varint (undo_nHeight u * 2 + (if undo_fCoinBase u then 1 else 0))
       + (if undo_nHeight u > 0 then varint_size (undo_nVersion u) else 0) + n) }"

text \<open>Vectors whose elements may fail to be written.\<close>

fun ser_all :: "('a \<Rightarrow> byte list option) \<Rightarrow> 'a list \<Rightarrow> byte list option" where
  "ser_all f [] = Some []"
| "ser_all f (x # xs) = do { b \<leftarrow> f x; bs \<leftarrow> ser_all f xs; Some (b @ bs) }"

definition ser_vector :: "('a \<Rightarrow> byte list option) \<Rightarrow> 'a list \<Rightarrow> byte list option" where
  "ser_vector f v = do { b \<leftarrow> ser_all f v; Some (WriteCompactSize (word_of_nat (length v)) @ b) }"

definition ser_txundo :: "ec_lib \<Rightarrow> CTxUndo \<Rightarrow> byte list option" where
  "ser_txundo E = ser_vector (ser_undo E)"

definition unser_txundo :: "ec_lib \<Rightarrow> CTxUndo reader" where
  "unser_txundo E = unser_vec (unser_undo E)"

definition ser_blockundo :: "ec_lib \<Rightarrow> CBlockUndo \<Rightarrow> byte list option" where
  "ser_blockundo E = ser_vector (ser_txundo E)"

definition unser_blockundo :: "ec_lib \<Rightarrow> CBlockUndo reader" where
  "unser_blockundo E = unser_vec (unser_txundo E)"

section \<open>CCoins\<close>

text \<open>Whether output i is there and not spent, the test of the loops over the bit vector.\<close>

definition unspent_at :: "CTxOut list \<Rightarrow> nat \<Rightarrow> bool" where
  "unspent_at outs i \<longleftrightarrow> i < length outs \<and> \<not> CTxOut_IsNull (outs ! i)"

definition CalcMaskSize :: "CTxOut list \<Rightarrow> nat \<times> nat" where
  "CalcMaskSize outs =
     fold (\<lambda>b (nLastUsedByte, nNonzeroBytes).
         let fZero = \<not> list_ex (\<lambda>i. unspent_at outs (2 + b * 8 + i)) [0..<8]
         in if \<not> fZero then (b + 1, nNonzeroBytes + 1) else (nLastUsedByte, nNonzeroBytes))
       [0..<(length outs + 5) div 8] (0, 0)"

definition mask_byte :: "CTxOut list \<Rightarrow> nat \<Rightarrow> byte" where
  "mask_byte outs b = fold (\<lambda>i chAvail. if unspent_at outs (2 + b * 8 + i) then chAvail OR push_bit i 1 else chAvail) [0..<8] 0"

definition header_code :: "CCoins \<Rightarrow> u32 outcome" where
  "header_code c =
     (let outs = coins_vout c; nMaskCode = word_of_nat (snd (CalcMaskSize outs)) :: u32;
          fFirst = unspent_at outs 0; fSecond = unspent_at outs 1
      in if \<not> (fFirst \<or> fSecond \<or> nMaskCode \<noteq> 0) then None
         else Some (8 * (nMaskCode - (if fFirst \<or> fSecond then 0 else 1)) + (if fCoinBase c then 1 else 0)
                + (if fFirst then 2 else 0) + (if fSecond then 4 else 0)))"

definition ser_coins :: "ec_lib \<Rightarrow> CCoins \<Rightarrow> byte list option" where
  "ser_coins E c = do {
     nCode \<leftarrow> header_code c;
     b \<leftarrow> ser_all (ser_ctxout E) (filter (\<lambda>q. \<not> CTxOut_IsNull q) (coins_vout c));
     Some (WriteVarInt (coins_nVersion c) @ ser_varint nCode @ map (mask_byte (coins_vout c)) [0..<fst (CalcMaskSize (coins_vout c))]
       @ b @ WriteVarInt (coins_nHeight c)) }"

text \<open>The bit vector, up to its last byte that is not zero.\<close>

fun read_mask :: "nat \<Rightarrow> bool list reader" where
  "read_mask 0 s = Some ([], s)"
| "read_mask (Suc nMaskCode) [] = None"
| "read_mask (Suc nMaskCode) (chAvail # s) =
     do { (bits, s) \<leftarrow> read_mask (if chAvail \<noteq> 0 then nMaskCode else Suc nMaskCode) s;
          Some (map (\<lambda>p. chAvail AND push_bit p 1 \<noteq> 0) [0..<8] @ bits, s) }"

fun read_outs :: "ec_lib \<Rightarrow> bool list \<Rightarrow> CTxOut list reader" where
  "read_outs E [] s = Some ([], s)"
| "read_outs E (f # vAvail) s = do {
     (q, s) \<leftarrow> (if f then unser_ctxout E s else Some (CTxOut_null, s));
     (qs, s) \<leftarrow> read_outs E vAvail s;
     Some (q # qs, s) }"

definition unser_coins :: "ec_lib \<Rightarrow> CCoins reader" where
  "unser_coins E s = do {
     (nVersion, s) \<leftarrow> unser_varint_int s;
     (nCode :: u32, s) \<leftarrow> ReadVarInt s;
     (bits, s) \<leftarrow> read_mask (unat (nCode div 8 + (if nCode AND 6 \<noteq> 0 then 0 else 1))) s;
     (outs, s) \<leftarrow> read_outs E ([nCode AND 2 \<noteq> 0, nCode AND 4 \<noteq> 0] @ bits) s;
     (nHeight, s) \<leftarrow> unser_varint_int s;
     Some (Cleanup \<lparr>fCoinBase = (nCode AND 1 \<noteq> 0), coins_vout = outs, coins_nHeight = nHeight, coins_nVersion = nVersion\<rparr>, s) }"

section \<open>The contract of a writer and a reader\<close>

locale codec =
  fixes ser :: "'a \<Rightarrow> byte list option" and unser :: "'a reader" and ssize :: "'a \<Rightarrow> nat option" and ok :: "'a \<Rightarrow> bool"
  assumes writes: "ok x \<Longrightarrow> \<exists>b. ser x = Some b \<and> ssize x = Some (length b) \<and> (\<forall>rest. unser (b @ rest) = Some (x, rest))"
begin

lemma all_written: "list_all ok v \<Longrightarrow> \<exists>b. ser_all ser v = Some b \<and> (\<forall>rest. unser_n unser (length v) (b @ rest) = Some (v, rest))"
proof (induction v)
  case (Cons x v)
  then obtain bs where "ser_all ser v = Some bs" "\<forall>rest. unser_n unser (length v) (bs @ rest) = Some (v, rest)" by auto
  moreover obtain b where "ser x = Some b" "\<forall>rest. unser (b @ rest) = Some (x, rest)" using writes [of x] Cons.prems by auto
  ultimately show ?case by (intro exI [of _ "b @ bs"]) simp
qed simp

lemma vector_written:
  assumes "list_all ok v" and "length v \<le> MAX_SIZE"
  shows "\<exists>b. ser_vector ser v = Some b \<and> (\<forall>rest. unser_vec unser (b @ rest) = Some (v, rest))"
proof -
  obtain b where "ser_all ser v = Some b" "\<forall>rest. unser_n unser (length v) (b @ rest) = Some (v, rest)"
    using all_written [OF assms(1)] by blast
  then show ?thesis using compact.roundtrip [of "word_of_nat (length v)"] assms(2)
    by (simp add: ser_vector_def unser_vec_def length_u64)
qed

end

interpretation amount: codec ser_amount unser_amount size_amount "\<lambda>v. 0 \<le> v \<and> v < 2 ^ 60"
proof
  fix v :: int
  assume v: "0 \<le> v \<and> v < 2 ^ 60"
  then have w: "uint (word_of_int v :: u64) = v" by (simp add: unsigned_of_int take_bit_int_eq_self)
  then have "unat (word_of_int v :: u64) < 2 ^ 60" using v by (simp add: unat_eq_nat_uint nat_less_iff)
  from Compress_Decompress [OF this] obtain x where x: "CompressAmount (word_of_int v) = Some x" "DecompressAmount x = word_of_int v" by blast
  have "sint (word_of_int v :: u64) = v" using v by (intro sint_word_of_int) (simp_all add: int64_range_def)
  then show "\<exists>b. ser_amount v = Some b \<and> size_amount v = Some (length b) \<and> (\<forall>rest. unser_amount (b @ rest) = Some (v, rest))"
    using x varint64.roundtrip [of x] varint64.size_eq [of x] by (simp add: ser_amount_def unser_amount_def size_amount_def)
qed

section \<open>Scripts are read back\<close>

text \<open>What is used of the curve: a valid uncompressed key has a valid compressed form, and that leads back.\<close>

definition ec_compresses :: "ec_lib \<Rightarrow> bool" where
  "ec_compresses E \<longleftrightarrow> (\<forall>k. length k = 65 \<and> k ! 0 = 4 \<and> EC_set_pub E k \<longrightarrow>
     (let c = (2 OR (k ! 64 AND 1)) # take 32 (drop 1 k) in EC_set_pub E c \<and> EC_decompress E c = k))"

lemma ReadVarInt_byte: "b AND 0x80 = 0 \<Longrightarrow> ReadVarInt (b # s) = Some (ucast b AND 0x7F, s)"
  by (simp add: ReadVarInt_def Let_def)

lemma IsToKeyID_iff: "IsToKeyID s = Some h \<longleftrightarrow> length h = 20 \<and> s = [118, 169, 20] @ h @ [136, 172]"
proof
  assume a: "IsToKeyID s = Some h"
  then have l: "length s = 25" and b: "s ! 0 = 118" "s ! 1 = 169" "s ! 2 = 20" "s ! 23 = 136" "s ! 24 = 172"
    and h: "h = take 20 (drop 3 s)" by (auto simp: IsToKeyID_def word_unat_eq_iff split: if_splits)
  have "s = [s ! 0, s ! 1, s ! 2] @ take 20 (drop 3 s) @ [s ! 23, s ! 24]"
    by (rule nth_equalityI) (use l in \<open>auto simp: nth_append nth_Cons' less_Suc_eq numeral_eq_Suc\<close>)
  then show "length h = 20 \<and> s = [118, 169, 20] @ h @ [136, 172]" using l by (simp only: b h) simp
qed (auto simp: IsToKeyID_def nth_append nth_Cons')

lemma IsToScriptID_iff: "IsToScriptID s = Some h \<longleftrightarrow> length h = 20 \<and> s = [169, 20] @ h @ [135]"
proof
  assume a: "IsToScriptID s = Some h"
  then have l: "length s = 23" and b: "s ! 0 = 169" "s ! 1 = 20" "s ! 22 = 135"
    and h: "h = take 20 (drop 2 s)" by (auto simp: IsToScriptID_def word_unat_eq_iff split: if_splits)
  have "s = [s ! 0, s ! 1] @ take 20 (drop 2 s) @ [s ! 22]"
    by (rule nth_equalityI) (use l in \<open>auto simp: nth_append nth_Cons' less_Suc_eq numeral_eq_Suc\<close>)
  then show "length h = 20 \<and> s = [169, 20] @ h @ [135]" using l by (simp only: b h) simp
qed (auto simp: IsToScriptID_def nth_append nth_Cons')

lemma split_key: "length s = Suc (Suc n) \<Longrightarrow> s = [s ! 0] @ take n (drop 1 s) @ [s ! Suc n]"
  by (rule nth_equalityI) (auto simp: nth_append nth_Cons' less_Suc_eq)

lemma IsToPubKey_cases:
  assumes "IsToPubKey E s = Some k"
  obtains (compressed) b x where "k = b # x" "length x = 32" "b = 2 \<or> b = 3" "s = [33] @ k @ [172]"
    | (full) x where "k = 4 # x" "length x = 64" "s = [65] @ k @ [172]" "EC_set_pub E k"
proof (cases "length s = 35")
  case True
  then have b: "s ! 0 = 33" "s ! 34 = 172" "s ! 1 = 2 \<or> s ! 1 = 3" "k = CPubKey_Set (take 33 (drop 1 s))"
    using assms by (auto simp: IsToPubKey_def word_unat_eq_iff split: if_splits)
  obtain x where x: "take 33 (drop 1 s) = s ! 1 # x" "length x = 32"
    using True by (intro that [of "take 32 (drop 2 s)"]) (auto simp: list_eq_iff_nth_eq nth_Cons')
  then have k: "k = s ! 1 # x" using b(3,4) by (auto simp: CPubKey_Set_def CPubKey_GetLen_def)
  have "s = [s ! 0] @ take 33 (drop 1 s) @ [s ! 34]" using split_key [of s 33] True by simp
  then have "s = [33] @ k @ [172]" unfolding b(1,2) x(1) k .
  then show thesis using compressed [OF k x(2) b(3)] by blast
next
  case False
  then have l: "length s = 67" and b: "s ! 0 = 65" "s ! 66 = 172" "s ! 1 = 4" "k = CPubKey_Set (take 65 (drop 1 s))"
    and v: "CPubKey_IsFullyValid E k"
    using assms by (auto simp: IsToPubKey_def word_unat_eq_iff Let_def split: if_splits)
  obtain x where x: "take 65 (drop 1 s) = 4 # x" "length x = 64"
    using l b(3) by (intro that [of "take 64 (drop 2 s)"]) (auto simp: list_eq_iff_nth_eq nth_Cons')
  then have k: "k = 4 # x" using b(4) by (auto simp: CPubKey_Set_def CPubKey_GetLen_def)
  have "EC_set_pub E k" using v x(2) k
    by (auto simp: CPubKey_IsFullyValid_def CPubKey_bytes_def CPubKey_size_def CPubKey_GetLen_def split: if_splits)
  moreover have "s = [s ! 0] @ take 65 (drop 1 s) @ [s ! 66]" using split_key [of s 65] l by simp
  then have "s = [65] @ k @ [172]" unfolding b(1,2) x(1) k .
  ultimately show thesis using full [OF k x(2)] by blast
qed

lemma unser_script_special:
  assumes "unser_script E old (b # vch @ rest) = r" and "b AND 0x80 = 0" and "b < 6" and "length vch = GetSpecialSize (ucast b)"
    and "Decompress E (ucast b) vch old = Some (ok, s)"
  shows "r = Some (s, rest)"
proof -
  have "b = 0 \<or> b = 1 \<or> b = 2 \<or> b = 3 \<or> b = 4 \<or> b = 5" using assms(3) by (simp add: word_less_nat_alt word_unat_eq_iff) linarith
  then have "ucast b AND 0x7F = (ucast b :: u32)" "(ucast b :: u32) < nSpecialScripts" unfolding nSpecialScripts_def by auto
  then show ?thesis using assms by (simp add: unser_script_def ReadVarInt_byte)
qed

lemma unser_script_ser:
  assumes E: "ec_compresses E" and l: "length s + 6 < 2 ^ 32"
  shows "unser_script E old (ser_script E s @ rest) = Some (s, rest)"
proof (cases "Compress E s")
  case None
  have "unat (word_of_nat (length s) + nSpecialScripts :: u32) = length s + 6"
    using l unfolding nSpecialScripts_def by (subst unat_word_ariths) (simp add: unat_of_nat)
  then have "\<not> (word_of_nat (length s) + nSpecialScripts :: u32) < nSpecialScripts"
    "unat (word_of_nat (length s) + nSpecialScripts - nSpecialScripts :: u32) = length s"
    using l by (simp_all add: word_less_nat_alt nSpecialScripts_def unat_of_nat)
  then show ?thesis unfolding ser_script_def None using varint32.roundtrip [of "word_of_nat (length s) + nSpecialScripts" "s @ rest"]
    by (simp add: unser_script_def)
next
  case (Some compr)
  have ser: "ser_script E s = compr" by (simp add: ser_script_def Some)
  show ?thesis
  proof (cases "IsToKeyID s")
    case K: (Some h)
    then have h: "compr = 0 # h" "length h = 20" "s = [118, 169, 20] @ h @ [136, 172]"
      using Some K [unfolded IsToKeyID_iff] by (simp_all add: Compress_def)
    then show ?thesis using unser_script_special [OF refl, where b = 0 and vch = h and ok = True and s = s and E = E and old = old and rest = rest] ser by (simp add: GetSpecialSize_def Decompress_def)
  next
    case nK: None
    show ?thesis
    proof (cases "IsToScriptID s")
      case S: (Some h)
      then have h: "compr = 1 # h" "length h = 20" "s = [169, 20] @ h @ [135]"
        using Some nK S [unfolded IsToScriptID_iff] by (simp_all add: Compress_def)
      then show ?thesis using unser_script_special [OF refl, where b = 1 and vch = h and ok = True and s = s and E = E and old = old and rest = rest] ser by (simp add: GetSpecialSize_def Decompress_def)
    next
      case nS: None
      then obtain k where k: "IsToPubKey E s = Some k" using Some nK by (auto simp: Compress_def split: option.splits)
      from k show ?thesis
      proof (cases rule: IsToPubKey_cases)
        case (compressed b x)
        have c: "compr = b # x" using Some nK nS k compressed(1-3) by (auto simp: Compress_def)
        have d: "Decompress E (ucast b) x old = Some (True, s)"
          using compressed by (auto simp: Decompress_def)
        have "b AND 0x80 = 0" "b < 6" "length x = GetSpecialSize (ucast b)" using compressed(2,3) by (auto simp: GetSpecialSize_def)
        then show ?thesis using unser_script_special [OF refl _ _ _ d, of rest] by (simp add: ser c)
      next
        case (full x)
        define p where "p = x ! 63 AND 1"
        have p: "p = 0 \<or> p = 1" unfolding p_def by (simp add: and_one_eq mod2_eq_if)
        have c: "compr = (4 OR p) # take 32 x" using Some nK nS k full(1) by (simp add: Compress_def p_def)
        have e: "EC_set_pub E ((2 OR p) # take 32 x)" "EC_decompress E ((2 OR p) # take 32 x) = k"
          using spec [OF E [unfolded ec_compresses_def], of k] full(1,2,4) by (simp_all add: Let_def p_def)
        have len: "CPubKey_Set ((2 OR p) # take 32 x) = (2 OR p) # take 32 x" "CPubKey_IsValid ((2 OR p) # take 32 x)"
          "CPubKey_bytes ((2 OR p) # take 32 x) = (2 OR p) # take 32 x" "CPubKey_Set k = k" "CPubKey_size k = 65"
          using p full(1,2) by (auto simp: CPubKey_Set_def CPubKey_IsValid_def CPubKey_bytes_def CPubKey_size_def CPubKey_GetLen_def)
        have "ucast (4 OR p) - (2 :: u32) = ucast (2 OR p)" using p by auto
        then have "ucast (ucast (4 OR p) - (2 :: u32)) = (2 OR p :: byte)" using p by auto
        then have d: "Decompress E (ucast (4 OR p)) (take 32 x) old = Some (True, s)"
          using p e len full(1-3) by (auto simp: Decompress_def CPubKey_Decompress_def)
        have "(4 OR p) AND 0x80 = 0" "4 OR p < 6" "length (take 32 x) = GetSpecialSize (ucast (4 OR p))"
          using p full(2) by (auto simp: GetSpecialSize_def)
        then show ?thesis using unser_script_special [OF refl _ _ _ d, of rest] by (simp add: ser c)
      qed
    qed
  qed
qed

lemma size_script_eq: "size_script E s = length (ser_script E s)"
  using varint32.size_eq [of "word_of_nat (length s) + nSpecialScripts"] by (simp add: size_script_def ser_script_def split: option.split)

section \<open>Outputs and undo data are read back\<close>

definition script_fits :: "script \<Rightarrow> bool" where "script_fits s \<longleftrightarrow> length s + 6 < 2 ^ 32"

definition ctxout_ok :: "CTxOut \<Rightarrow> bool" where
  "ctxout_ok q \<longleftrightarrow> 0 \<le> nValue q \<and> nValue q < 2 ^ 60 \<and> script_fits (scriptPubKey q)"

definition undo_ok :: "CTxInUndo \<Rightarrow> bool" where
  "undo_ok u \<longleftrightarrow> ctxout_ok (undo_txout u) \<and> unat (undo_nHeight u) < 2 ^ 31 \<and> int32_range (undo_nVersion u)"

text \<open>A record that the undo file keeps as it is: its version is not negative, and absent when there is no height.\<close>

definition undo_exact :: "CTxInUndo \<Rightarrow> bool" where
  "undo_exact u \<longleftrightarrow> undo_ok u \<and> 0 \<le> undo_nVersion u \<and> (undo_nHeight u = 0 \<longrightarrow> undo_nVersion u = 0)"

lemma codec_ctxout:
  assumes "ec_compresses E" shows "codec (ser_ctxout E) (unser_ctxout E) (size_ctxout E) ctxout_ok"
proof
  fix q assume q: "ctxout_ok q"
  then obtain b where b: "ser_amount (nValue q) = Some b" "size_amount (nValue q) = Some (length b)"
    "\<forall>rest. unser_amount (b @ rest) = Some (nValue q, rest)" using amount.writes [of "nValue q"] unfolding ctxout_ok_def by auto
  have "unser_script E [] (ser_script E (scriptPubKey q) @ rest) = Some (scriptPubKey q, rest)" for rest
    using unser_script_ser [OF assms] q unfolding ctxout_ok_def script_fits_def by blast
  then show "\<exists>b. ser_ctxout E q = Some b \<and> size_ctxout E q = Some (length b) \<and> (\<forall>rest. unser_ctxout E (b @ rest) = Some (q, rest))"
    using b by (intro exI [of _ "b @ ser_script E (scriptPubKey q)"])
      (simp add: ser_ctxout_def size_ctxout_def unser_ctxout_def size_script_eq CTxOut_null_def)
qed

text \<open>A number and a flag in one code.\<close>

lemma code_flag:
  fixes h :: u32
  assumes "unat h < 2 ^ 31"
  shows "(h * 2 + (if f then 1 else 0)) div 2 = h" and "(h * 2 + (if f then 1 else 0)) AND 1 \<noteq> 0 \<longleftrightarrow> f"
proof -
  have u: "unat (h * 2 + (if f then 1 else 0)) = unat h * 2 + (if f then 1 else 0)"
    using assms by (cases f) (simp_all add: unat_word_ariths)
  show "(h * 2 + (if f then 1 else 0)) div 2 = h" by (rule word_unat_eq_iff [THEN iffD2]) (simp only: unat_div_distrib u, simp)
  have "unat ((h * 2 + (if f then 1 else 0)) mod 2) = (if f then 1 else 0)" by (simp only: unat_mod_distrib u) simp
  then have "(h * 2 + (if f then 1 else 0)) mod 2 = (if f then 1 else 0)" by (metis unat_0 unat_1 word_unat_eq_iff)
  then show "(h * 2 + (if f then 1 else 0)) AND 1 \<noteq> 0 \<longleftrightarrow> f" unfolding and_one_eq by simp
qed

lemma codec_undo:
  assumes "ec_compresses E" shows "codec (ser_undo E) (unser_undo E) (size_undo E) undo_exact"
proof
  fix u assume u: "undo_exact u"
  obtain b where b: "ser_ctxout E (undo_txout u) = Some b" "size_ctxout E (undo_txout u) = Some (length b)"
    "\<forall>rest. unser_ctxout E (b @ rest) = Some (undo_txout u, rest)"
    using codec.writes [OF codec_ctxout [OF assms]] u unfolding undo_exact_def undo_ok_def by blast
  let ?code = "undo_nHeight u * 2 + (if undo_fCoinBase u then 1 else 0)"
  note c = code_flag [of "undo_nHeight u" "undo_fCoinBase u"] varint32.roundtrip [of ?code] varint32.size_eq [of ?code]
  note v = varint_int.roundtrip [of "undo_nVersion u"] varint_int.size_eq [of "undo_nVersion u"]
  show "\<exists>b. ser_undo E u = Some b \<and> size_undo E u = Some (length b) \<and> (\<forall>rest. unser_undo E (b @ rest) = Some (u, rest))"
  proof (cases "undo_nHeight u = 0")
    case True
    then show ?thesis using b c v u by (auto simp: ser_undo_def size_undo_def unser_undo_def undo_exact_def undo_ok_def)
  next
    case False
    then show ?thesis using b c v u by (auto simp: ser_undo_def size_undo_def unser_undo_def undo_exact_def undo_ok_def word_gt_0)
  qed
qed

text \<open>VARINT writes of a negative number the low seven bits, as of the version that is read back.\<close>

lemma WriteVarInt_disk: "WriteVarInt (disk_version n) = WriteVarInt n"
proof (cases "n < 0")
  case True
  have "n mod 128 AND 0x7F = n AND 0x7F" by (simp only: low_seven mod_mod_trivial)
  moreover have "n mod 128 \<le> 0x7F" using pos_mod_bound [of 128 n] by simp
  ultimately show ?thesis using True by (simp add: WriteVarInt_def disk_version_def varint_digits.simps [of n] varint_digits.simps [of "n mod 128"])
qed (simp add: disk_version_def)

lemma disk_version_nonneg: "0 \<le> disk_version n" "int32_range n \<Longrightarrow> int32_range (disk_version n)"
  using pos_mod_bound [of 128 n] by (auto simp: disk_version_def int32_range_def)

lemma version_written:
  "int32_range n \<Longrightarrow> unser_varint_int (WriteVarInt n @ rest) = Some (disk_version n, rest)"
  using varint_int.roundtrip [of "disk_version n" rest] disk_version_nonneg [of n] by (simp add: WriteVarInt_disk)

lemma ser_undo_disk: "ser_undo E (disk_undo u) = ser_undo E u"
  by (auto simp: ser_undo_def disk_undo_def with_undo_version_def WriteVarInt_disk word_gt_0)

lemma undo_exact_disk: "undo_ok u \<Longrightarrow> undo_exact (disk_undo u)"
  using disk_version_nonneg [of "undo_nVersion u"]
  by (auto simp: undo_exact_def undo_ok_def disk_undo_def with_undo_version_def int32_range_def)

lemma ser_all_map: "(\<And>x. f (h x) = f x) \<Longrightarrow> ser_all f (map h v) = ser_all f v"
  by (induction v) simp_all

lemma ser_txundo_disk: "ser_txundo E (map disk_undo t) = ser_txundo E t"
  by (simp add: ser_txundo_def ser_vector_def ser_all_map ser_undo_disk)

lemma blockundo_written:
  assumes E: "ec_compresses E" and "length u \<le> MAX_SIZE" and ok: "\<forall>t \<in> set u. length t \<le> MAX_SIZE \<and> list_all undo_ok t"
  shows "\<exists>b. ser_blockundo E u = Some b \<and> (\<forall>rest. unser_blockundo E (b @ rest) = Some (map (map disk_undo) u, rest))"
proof -
  define sz where "sz t = map_option length (ser_txundo E t)" for t
  have "codec (ser_txundo E) (unser_txundo E) sz (\<lambda>t. length t \<le> MAX_SIZE \<and> list_all undo_exact t)"
    using codec.vector_written [OF codec_undo [OF E]] unfolding sz_def ser_txundo_def unser_txundo_def by unfold_locales fastforce
  from codec.vector_written [OF this, of "map (map disk_undo) u"] ok assms(2) obtain b where
    b: "ser_vector (ser_txundo E) (map (map disk_undo) u) = Some b"
      "\<forall>rest. unser_vec (unser_txundo E) (b @ rest) = Some (map (map disk_undo) u, rest)"
    by (auto simp: list_all_iff undo_exact_disk)
  moreover have "ser_vector (ser_txundo E) (map (map disk_undo) u) = ser_vector (ser_txundo E) u"
    by (simp add: ser_vector_def ser_all_map ser_txundo_disk)
  ultimately show ?thesis unfolding ser_blockundo_def unser_blockundo_def by auto
qed

end
