(* ===== verification/CoinsDiskFacts.thy ===== *)
theory CoinsDiskFacts
  imports CoinsDisk
begin

text \<open>
  The bit vector and the header code of CCoins, and the round trips of scripts, outputs and coins through
  their compact forms. The example is the one main.h works out by hand.
\<close>

section \<open>The bit vector\<close>

definition used_byte :: "CTxOut list \<Rightarrow> nat \<Rightarrow> bool" where
  "used_byte outs b \<longleftrightarrow> list_ex (\<lambda>i. unspent_at outs (2 + b * 8 + i)) [0..<8]"

lemma mask_fold:
  fixes used :: "nat \<Rightarrow> bool" and k :: nat
  assumes "fold (\<lambda>b (m, k). if used b then (b + 1, k + 1) else (m, k)) [0..<n] (0, 0) = (m, k)"
  shows "m \<le> n \<and> (\<forall>b. m \<le> b \<and> b < n \<longrightarrow> \<not> used b) \<and> (0 < m \<longrightarrow> used (m - 1)) \<and> k = length (filter used [0..<m])"
  using assms
proof (induction n arbitrary: m k)
  case (Suc n)
  let ?f = "\<lambda>b (m, k :: nat). if used b then (b + 1, k + 1) else (m, k)"
  obtain m' k' where p: "fold ?f [0..<n] (0, 0) = (m', k')" by (cases "fold ?f [0..<n] (0, 0)") blast
  note IH = Suc.IH [OF p]
  show ?case
  proof (cases "used n")
    case True
    then have mk: "m = Suc n" "k = Suc k'" using Suc.prems p by auto
    have "filter used [m'..<n] = []" using IH by (auto simp: filter_empty_conv)
    moreover have "[0..<n] = [0..<m'] @ [m'..<n]" using IH by (metis le0 le_Suc_ex upt_add_eq_append)
    ultimately have "length (filter used [0..<n]) = k'" using IH by simp
    then show ?thesis using mk True by auto
  next
    case False
    then have "m = m'" "k = k'" using Suc.prems p by auto
    then show ?thesis using IH False by (auto simp: less_Suc_eq)
  qed
qed simp

lemma CalcMaskSize_props:
  assumes "CalcMaskSize outs = (m, k)"
  shows "\<And>b. used_byte outs b \<Longrightarrow> b < m" and "0 < m \<Longrightarrow> used_byte outs (m - 1)" and "k = length (filter (used_byte outs) [0..<m])"
    and "m \<le> length outs"
proof -
  have "fold (\<lambda>b (m, k). if used_byte outs b then (b + 1, k + 1) else (m, k)) [0..<(length outs + 5) div 8] (0, 0) = (m, k)"
    using assms unfolding CalcMaskSize_def used_byte_def by (simp add: Let_def)
  note p = mask_fold [OF this]
  show "b < m" if "used_byte outs b" for b
  proof -
    have "\<exists>i < 8. 2 + b * 8 + i < length outs" using that by (auto simp: used_byte_def list_ex_iff unspent_at_def)
    then obtain i where "i < 8" "2 + b * 8 + i < length outs" by blast
    then have "b < (length outs + 5) div 8" by linarith
    then show ?thesis using p that not_le by blast
  qed
  show "0 < m \<Longrightarrow> used_byte outs (m - 1)" "k = length (filter (used_byte outs) [0..<m])" using p by auto
  have "(length outs + 5) div 8 \<le> length outs" by linarith
  then show "m \<le> length outs" using p by linarith
qed

lemma bit_fold: "bit (fold (\<lambda>i a. if f i then a OR push_bit i 1 else a) [0..<n] (0 :: byte)) p \<longleftrightarrow> p < n \<and> p < 8 \<and> f p"
proof (induction n)
  case (Suc n)
  have "bit (push_bit n 1 :: byte) p \<longleftrightarrow> p = n \<and> p < 8" by (auto simp: bit_exp_iff)
  then show ?case using Suc by (auto simp: bit_or_iff less_Suc_eq)
qed simp

lemma bit_mask_byte: "bit (mask_byte outs b) p \<longleftrightarrow> p < 8 \<and> unspent_at outs (2 + b * 8 + p)"
  unfolding mask_byte_def by (subst bit_fold) auto

lemma mask_byte_used: "mask_byte outs b \<noteq> 0 \<longleftrightarrow> used_byte outs b"
proof -
  have "mask_byte outs b \<noteq> 0 \<longleftrightarrow> (\<exists>p. bit (mask_byte outs b) p)" by (metis bit_0_eq bot_apply bot_bool_def bit_eqI)
  then show ?thesis by (auto simp: bit_mask_byte used_byte_def list_ex_iff)
qed

lemma read_mask_bytes:
  assumes "bs \<noteq> [] \<longrightarrow> last bs \<noteq> 0"
  shows "read_mask (length (filter (\<lambda>b. b \<noteq> 0) bs)) (bs @ rest) = Some (concat (map (\<lambda>b. map (\<lambda>p. b AND push_bit p 1 \<noteq> 0) [0..<8]) bs), rest)"
  using assms
proof (induction bs)
  case (Cons b bs)
  have IH: "read_mask (length (filter (\<lambda>b. b \<noteq> 0) bs)) (bs @ rest)
      = Some (concat (map (\<lambda>b. map (\<lambda>p. b AND push_bit p 1 \<noteq> 0) [0..<8]) bs), rest)" using Cons by (cases bs) auto
  show ?case
  proof (cases "b = 0")
    case True
    then have "bs \<noteq> []" "last bs \<noteq> 0" using Cons.prems by (auto split: if_splits)
    then have "length (filter (\<lambda>b. b \<noteq> 0) bs) \<noteq> 0" by (auto simp: filter_empty_conv dest!: last_in_set)
    then obtain k where "length (filter (\<lambda>b. b \<noteq> 0) bs) = Suc k" by (cases "length (filter (\<lambda>b. b \<noteq> 0) bs)") auto
    then show ?thesis using IH True by simp
  qed (use IH in simp)
qed simp

lemma mask_bits:
  "concat (map (\<lambda>b. map (\<lambda>p. b AND push_bit p 1 \<noteq> 0) [0..<8]) (map (mask_byte outs) [0..<m]))
    = map (\<lambda>j. unspent_at outs (2 + j)) [0..<8 * m]"
proof (induction m)
  case (Suc m)
  have "(mask_byte outs m AND push_bit p 1 \<noteq> 0) = unspent_at outs (2 + m * 8 + p)" if "p < 8" for p
    using that bit_mask_byte [of outs m p] by (simp add: bit_iff_and_push_bit_not_eq_0)
  then have "map (\<lambda>p. mask_byte outs m AND push_bit p 1 \<noteq> 0) [0..<8] = map (\<lambda>p. unspent_at outs (2 + m * 8 + p)) [0..<8]" by simp
  also have "\<dots> = map (\<lambda>j. unspent_at outs (2 + j)) [8 * m..<8 * m + 8]"
    by (rule nth_equalityI) (simp_all add: ac_simps)
  finally have "map (\<lambda>p. mask_byte outs m AND push_bit p 1 \<noteq> 0) [0..<8] = map (\<lambda>j. unspent_at outs (2 + j)) [8 * m..<8 * m + 8]" .
  moreover have "[0..<8 * Suc m] = [0..<8 * m] @ [8 * m..<8 * m + 8]" using upt_add_eq_append [of 0 "8 * m" 8] by (simp add: add.commute)
  ultimately show ?case using Suc by (simp only: map_append upt_Suc list.map map_map concat_append concat.simps append_Nil2 le0 if_True)
qed simp

section \<open>The header\<close>

definition header_bits :: "bool \<Rightarrow> bool \<Rightarrow> bool \<Rightarrow> u32" where
  "header_bits f a b = (if f then 1 else 0) + (if a then 2 else 0) + (if b then 4 else 0)"

lemma header_decoded:
  fixes code :: u32
  assumes "code = 8 * word_of_nat n + header_bits f a b" and "n < 2 ^ 28"
  shows "code div 8 = word_of_nat n" "code AND 1 \<noteq> 0 \<longleftrightarrow> f" "code AND 2 \<noteq> 0 \<longleftrightarrow> a" "code AND 4 \<noteq> 0 \<longleftrightarrow> b" "code AND 6 \<noteq> 0 \<longleftrightarrow> a \<or> b"
proof -
  have hb: "unat (header_bits f a b) < 8" by (simp add: header_bits_def)
  have w: "unat (word_of_nat n :: u32) = n" using assms(2) by (intro unat_of_nat_less) simp
  then have u: "unat code = 8 * n + unat (header_bits f a b)"
    using assms hb by (simp add: unat_word_ariths)
  then show "code div 8 = word_of_nat n" using hb w by (simp add: word_unat_eq_iff unat_div_distrib)
  have "unat (code mod 8) = unat (header_bits f a b)" using u hb by (simp add: unat_mod_distrib)
  then have "code mod 8 = header_bits f a b" by (simp add: word_unat_eq_iff)
  then have t: "take_bit 3 code = header_bits f a b" by (simp add: take_bit_eq_mod)
  have "code AND m = take_bit 3 code AND m" if "m AND 7 = m" for m
  proof -
    have "take_bit 3 code AND m = code AND (7 AND m)" by (simp add: take_bit_eq_mask mask_eq_exp_minus_1 and.assoc)
    then show ?thesis using that by (simp add: and.commute)
  qed
  then have m: "code AND m = header_bits f a b AND m" if "m AND 7 = m" for m using that t by simp
  show "code AND 1 \<noteq> 0 \<longleftrightarrow> f" "code AND 2 \<noteq> 0 \<longleftrightarrow> a" "code AND 4 \<noteq> 0 \<longleftrightarrow> b" "code AND 6 \<noteq> 0 \<longleftrightarrow> a \<or> b"
    by (subst m, simp, simp add: header_bits_def)+
qed

section \<open>Coins are read back\<close>

text \<open>
  A coin that is worth keeping: tidy, not spent entirely, and with numbers the format can hold: less than 2^28
  outputs, a version that is an int, and for each unspent output an amount from 0 to 2^60 and a script whose
  length and the six special codes fit in 32 bits.
\<close>

definition coins_ok :: "CCoins \<Rightarrow> bool" where
  "coins_ok c \<longleftrightarrow> tidy c \<and> \<not> IsPruned c \<and> length (coins_vout c) < 2 ^ 28 \<and> int32_range (coins_nVersion c)
     \<and> (\<forall>q \<in> set (coins_vout c). CTxOut_IsNull q \<or> ctxout_ok q)"

lemma read_outs_all:
  assumes E: "ec_compresses E" and "\<forall>q \<in> set qs. (if CTxOut_IsNull q then q = CTxOut_null else ctxout_ok q)"
  shows "\<exists>b. ser_all (ser_ctxout E) (filter (\<lambda>q. \<not> CTxOut_IsNull q) qs) = Some b
    \<and> (\<forall>rest. read_outs E (map (\<lambda>q. \<not> CTxOut_IsNull q) qs) (b @ rest) = Some (qs, rest))"
  using assms(2)
proof (induction qs)
  case (Cons q qs)
  then obtain bs where bs: "ser_all (ser_ctxout E) (filter (\<lambda>q. \<not> CTxOut_IsNull q) qs) = Some bs"
    "\<And>rest. read_outs E (map (\<lambda>q. \<not> CTxOut_IsNull q) qs) (bs @ rest) = Some (qs, rest)" by auto
  show ?case
  proof (cases "CTxOut_IsNull q")
    case True
    then have "q = CTxOut_null" using Cons.prems by simp
    then show ?thesis using bs True by simp
  next
    case False
    then obtain b where "ser_ctxout E q = Some b" "\<forall>rest. unser_ctxout E (b @ rest) = Some (q, rest)"
      using codec.writes [OF codec_ctxout [OF E], of q] Cons.prems by auto
    then show ?thesis using bs False by (intro exI [of _ "b @ bs"]) simp
  qed
qed simp

lemma unspent_padded:
  assumes "length outs \<le> n"
  shows "map (unspent_at outs) [0..<n] = map (\<lambda>q. \<not> CTxOut_IsNull q) (outs @ replicate (n - length outs) CTxOut_null)"
  using assms by (intro nth_equalityI) (auto simp: unspent_at_def nth_append)

lemma Cleanup_padded: "clean c \<Longrightarrow> Cleanup (c\<lparr>coins_vout := coins_vout c @ replicate n CTxOut_null\<rparr>) = c"
proof -
  assume c: "clean c"
  have "dropWhile CTxOut_IsNull (replicate n CTxOut_null @ rev (coins_vout c)) = rev (coins_vout c)"
  proof (induction n)
    case 0
    then show ?case using c by (cases "coins_vout c" rule: rev_cases) (auto simp: clean_def)
  qed simp
  then show ?thesis by (simp add: Cleanup_def)
qed

lemma coins_written:
  assumes E: "ec_compresses E" and ok: "coins_ok c"
  shows "\<exists>b. ser_coins E c = Some b \<and> (\<forall>rest. unser_coins E (b @ rest) = Some (disk_coins c, rest))"
proof -
  let ?outs = "coins_vout c"
  obtain m k where mk: "CalcMaskSize ?outs = (m, k)" by (cases "CalcMaskSize ?outs")
  note p = CalcMaskSize_props [OF mk]
  let ?first = "unspent_at ?outs 0" and ?second = "unspent_at ?outs 1"
  define adj where "adj = (if ?first \<or> ?second then 0 else 1 :: nat)"
  have t: "tidy c" "clean c" "?outs \<noteq> []" "length ?outs < 2 ^ 28"
    using ok by (auto simp: coins_ok_def tidy_def IsPruned_def)
  have last: "unspent_at ?outs (length ?outs - 1)" using t(2,3) by (simp add: unspent_at_def clean_def last_conv_nth)
  have k: "k \<le> m" "m < 2 ^ 28" using p(3,4) t(4) length_filter_le [of "used_byte ?outs" "[0..<m]"] by auto
  have cover: "i < 2 + 8 * m" if "unspent_at ?outs i" for i
  proof (cases "i < 2")
    case False
    have "Suc (Suc (i - 2)) = i" using False by simp
    then have "used_byte ?outs ((i - 2) div 8)"
      using that unfolding used_byte_def list_ex_iff by (auto intro!: bexI [of _ "(i - 2) mod 8"])
    then have "(i - 2) div 8 < m" by (rule p(1))
    then show ?thesis using False by linarith
  qed simp
  have len: "length ?outs \<le> 2 + 8 * m" using cover [OF last] by linarith
  have adj: "adj \<le> k"
  proof (cases "?first \<or> ?second")
    case False
    then have "length ?outs - 1 \<noteq> 0" "length ?outs - 1 \<noteq> 1" using last by metis+
    then have "0 < m" using cover [OF last] by linarith
    then have "filter (used_byte ?outs) [0..<m] \<noteq> []" using p(2) by (auto simp: filter_empty_conv)
    then show ?thesis using p(3) by (cases "filter (used_byte ?outs) [0..<m]") (auto simp: adj_def)
  qed (simp add: adj_def)
  define code :: u32 where "code = 8 * word_of_nat (k - adj) + header_bits (fCoinBase c) ?first ?second"
  have "?first \<or> ?second \<or> (word_of_nat k :: u32) \<noteq> 0"
    using adj k by (auto simp: adj_def unat_eq_zero [symmetric] unat_of_nat split: if_splits)
  moreover have "(word_of_nat k - (if ?first \<or> ?second then 0 else 1) :: u32) = word_of_nat (k - adj)"
    using adj by (auto simp: adj_def of_nat_diff)
  ultimately have hc: "header_code c = Some code"
    by (simp add: header_code_def mk Let_def code_def header_bits_def add.assoc)
  have "k - adj < 2 ^ 28" using k by simp
  note d = header_decoded [OF code_def this]
  have n: "unat (code div 8 + (if code AND 6 \<noteq> 0 then 0 else 1)) = k"
  proof -
    have "code div 8 + (if code AND 6 \<noteq> 0 then 0 else 1) = word_of_nat (k - adj) + word_of_nat adj" using d(1,5) by (simp add: adj_def)
    also have "\<dots> = word_of_nat k" using adj by (simp add: of_nat_diff)
    finally show ?thesis using k by (simp add: unat_of_nat)
  qed
  let ?mask = "map (mask_byte ?outs) [0..<m]"
  have "length (filter (\<lambda>b. b \<noteq> 0) ?mask) = k" by (simp add: filter_map o_def mask_byte_used p(3))
  moreover have "?mask \<noteq> [] \<longrightarrow> last ?mask \<noteq> 0" using p(2) by (auto simp: last_map mask_byte_used)
  ultimately have bits: "read_mask k (?mask @ rest) = Some (map (\<lambda>j. unspent_at ?outs (2 + j)) [0..<8 * m], rest)" for rest
    using read_mask_bytes [of ?mask rest] by (simp only: mask_bits)
  let ?qs = "?outs @ replicate (2 + 8 * m - length ?outs) CTxOut_null"
  have avail: "[?first, ?second] @ map (\<lambda>j. unspent_at ?outs (2 + j)) [0..<8 * m] = map (\<lambda>q. \<not> CTxOut_IsNull q) ?qs"
  proof -
    have "[0..<2 + 8 * m] = [0, 1] @ map ((+) 2) [0..<8 * m]"
      by (rule nth_equalityI) (auto simp: nth_append nth_Cons' less_2_cases_iff)
    then have "[?first, ?second] @ map (\<lambda>j. unspent_at ?outs (2 + j)) [0..<8 * m] = map (unspent_at ?outs) [0..<2 + 8 * m]"
      by (simp add: o_def)
    then show ?thesis using unspent_padded [OF len] by simp
  qed
  have "\<forall>q \<in> set ?qs. (if CTxOut_IsNull q then q = CTxOut_null else ctxout_ok q)"
    using ok unfolding coins_ok_def tidy_def by auto
  from read_outs_all [OF E this] obtain b where b: "ser_all (ser_ctxout E) (filter (\<lambda>q. \<not> CTxOut_IsNull q) ?outs) = Some b"
    "\<forall>rest. read_outs E (map (\<lambda>q. \<not> CTxOut_IsNull q) ?qs) (b @ rest) = Some (?qs, rest)" by (auto simp: filter_replicate)
  have v: "int32_range (coins_nVersion c)" "0 \<le> coins_nHeight c \<and> int32_range (coins_nHeight c)"
    using ok t(1,3) by (auto simp: coins_ok_def tidy_def int32_range_def)
  have "clean (disk_coins c)" using t(2) by (simp add: clean_def disk_coins_def)
  then have final: "Cleanup \<lparr>fCoinBase = fCoinBase c, coins_vout = ?qs, coins_nHeight = coins_nHeight c,
      coins_nVersion = disk_version (coins_nVersion c)\<rparr> = disk_coins c"
    using Cleanup_padded [of "disk_coins c" "2 + 8 * m - length ?outs"] by (cases c) (simp add: disk_coins_def with_version_def)
  let ?b = "WriteVarInt (coins_nVersion c) @ ser_varint code @ ?mask @ b @ WriteVarInt (coins_nHeight c)"
  have "ser_coins E c = Some ?b" by (simp add: ser_coins_def hc b(1) mk)
  have r: "read_outs E ([code AND 2 \<noteq> 0, code AND 4 \<noteq> 0] @ map (\<lambda>j. unspent_at ?outs (2 + j)) [0..<8 * m]) (b @ rest)
      = Some (?qs, rest)" for rest by (simp only: d(3,4) avail b(2))
  have "unser_coins E (?b @ rest) = Some (disk_coins c, rest)" for rest
    using version_written [OF v(1)] varint_int.roundtrip [OF v(2)] varint32.roundtrip [of code] bits r final
    by (simp add: unser_coins_def d(2) n del: read_outs.simps)
  with \<open>ser_coins E c = Some ?b\<close> show ?thesis by blast
qed

section \<open>The properties\<close>

text \<open>A curve for the witnesses: the second coordinate of a valid point is zero or one.\<close>

definition toy_curve :: ec_lib where
  "toy_curve = \<lparr>EC_pubkey = (\<lambda>k c. []),
     EC_set_pub = (\<lambda>k. length k = 33 \<or> (take 31 (drop 33 k) = replicate 31 0 \<and> (k ! 64 = 0 \<or> k ! 64 = 1))),
     EC_decompress = (\<lambda>k. 4 # tl k @ replicate 31 0 @ [hd k AND 1]), EC_sign = (\<lambda>k h. None), EC_verify = (\<lambda>k h s. False)\<rparr>"

lemma toy_curve_compresses: "ec_compresses toy_curve"
  unfolding ec_compresses_def
proof (intro allI impI)
  fix k :: "byte list"
  assume k: "length k = 65 \<and> k ! 0 = 4 \<and> EC_set_pub toy_curve k"
  then have p: "take 31 (drop 33 k) = replicate 31 0" "k ! 64 = 0 \<or> k ! 64 = 1" by (auto simp: toy_curve_def)
  have last: "k ! i = k ! 64" if "\<not> i - 33 < 31" "i < 65" for i
  proof -
    have "i = 64" using that by linarith
    then show ?thesis by simp
  qed
  have "k = [k ! 0] @ take 32 (drop 1 k) @ take 31 (drop 33 k) @ [k ! 64]"
    by (rule nth_equalityI) (use k in \<open>auto simp: nth_append nth_Cons' intro: last\<close>)
  then have e: "k = 4 # take 32 (drop 1 k) @ replicate 31 0 @ [k ! 64]" unfolding p(1) using k by simp
  have "(2 OR (k ! 64 AND 1)) AND 1 = k ! 64" using p(2) by auto
  then have "EC_decompress toy_curve ((2 OR (k ! 64 AND 1)) # take 32 (drop 1 k)) = k" using e by (simp add: toy_curve_def)
  moreover have "EC_set_pub toy_curve ((2 OR (k ! 64 AND 1)) # take 32 (drop 1 k))" using k by (simp add: toy_curve_def)
  ultimately show "let c = (2 OR (k ! 64 AND 1)) # take 32 (drop 1 k) in EC_set_pub toy_curve c \<and> EC_decompress toy_curve c = k"
    by (simp add: Let_def)
qed

text \<open>
  Round trip of the compact script form: every script is read back from what CScriptCompressor writes,
  with the rest of the stream untouched, the key forms through the compression of the curve, and the size
  announced is the size written.
\<close>

theorem script_compression_roundtrip:
  assumes "ec_compresses E" and "length s + 6 < 2 ^ 32"
  shows "unser_script E old (ser_script E s @ rest) = Some (s, rest) \<and> size_script E s = length (ser_script E s)"
  using unser_script_ser [OF assms] size_script_eq by blast

theorem script_compression_roundtrip_witness:
  "unser_script toy_curve [] (ser_script toy_curve ([65, 4] @ replicate 63 0 @ [1, 172]) @ [7]) = Some ([65, 4] @ replicate 63 0 @ [1, 172], [7])
   \<and> length (ser_script toy_curve ([65, 4] @ replicate 63 0 @ [1, 172])) = 33"
proof -
  have "Compress toy_curve ([65, 4] @ replicate 63 0 @ [1, 172]) = Some (5 # replicate 32 0)"
    by (simp add: Compress_def IsToKeyID_def IsToScriptID_def IsToPubKey_def nth_append nth_Cons' CPubKey_Set_def CPubKey_GetLen_def
        CPubKey_IsFullyValid_def CPubKey_IsValid_def CPubKey_size_def CPubKey_bytes_def toy_curve_def take_Cons' min_def)
  then show ?thesis using script_compression_roundtrip [OF toy_curve_compresses, of "[65, 4] @ replicate 63 0 @ [1, 172]" "[]" "[7]"]
    by (simp add: ser_script_def)
qed

text \<open>
  C10: Round trip of the coin database: the coins of a transaction that has unspent outputs, within the sizes
  of coins_ok, are written without an assertion failing, and the rest of the stream is untouched when they are
  read: the coinbase flag, the height, every unspent output at its place and nothing where an output is spent
  are read back exactly, and so is a version that is not negative. Of a negative version, which transactions
  may have, the format keeps the low seven bits only, so that disk_coins is what comes back.
\<close>

theorem coins_disk_roundtrip:
  assumes "ec_compresses E" and "coins_ok c"
  shows "(\<exists>b. ser_coins E c = Some b \<and> (\<forall>rest. unser_coins E (b @ rest) = Some (disk_coins c, rest)))
    \<and> disk_coins c = c\<lparr>coins_nVersion := (if coins_nVersion c < 0 then coins_nVersion c mod 128 else coins_nVersion c)\<rparr>"
  using coins_written [OF assms] by (simp add: disk_coins_def with_version_def disk_version_def)

text \<open>The first example in the documentation of the format.\<close>

definition doc_coins :: CCoins where
  "doc_coins = \<lparr>fCoinBase = False, coins_vout = [CTxOut_null, \<lparr>nValue = 60000000000, scriptPubKey = [118, 169, 20] @
     [0x81, 0x61, 0x15, 0x94, 0x4e, 0x07, 0x7f, 0xe7, 0xc8, 0x03, 0xcf, 0xa5, 0x7f, 0x29, 0xb3, 0x6b, 0xf8, 0x7c, 0x1d, 0x35] @ [136, 172]\<rparr>],
     coins_nHeight = 203998, coins_nVersion = 1\<rparr>"

definition doc_bytes :: "byte list" where
  "doc_bytes = [0x01, 0x04, 0x83, 0x58, 0x00, 0x81, 0x61, 0x15, 0x94, 0x4e, 0x07, 0x7f, 0xe7, 0xc8, 0x03, 0xcf, 0xa5, 0x7f, 0x29, 0xb3,
     0x6b, 0xf8, 0x7c, 0x1d, 0x35, 0x8b, 0xb8, 0x5e]"

lemma doc_coins_written: "ser_coins toy_curve doc_coins = Some doc_bytes"
  by (simp add: ser_coins_def header_code_def CalcMaskSize_def doc_coins_def unspent_at_def CTxOut_IsNull_def CTxOut_null_def Let_def
      ser_ctxout_def ser_amount_def CompressAmount_def strip_zeros.simps ser_script_def Compress_def IsToKeyID_def doc_bytes_def
      ser_varint_def WriteVarInt_def varint_digits.simps)

theorem coins_disk_roundtrip_witness:
  "unser_coins toy_curve (doc_bytes @ [7]) = Some (doc_coins, [7])
   \<and> (\<exists>b. ser_coins toy_curve (doc_coins\<lparr>coins_nVersion := - 1\<rparr>) = Some b
        \<and> unser_coins toy_curve (b @ [7]) = Some (doc_coins\<lparr>coins_nVersion := 127\<rparr>, [7]))"
proof -
  have ok: "coins_ok doc_coins" "coins_ok (doc_coins\<lparr>coins_nVersion := - 1\<rparr>)"
    by (auto simp: coins_ok_def tidy_def clean_def IsPruned_def doc_coins_def CTxOut_IsNull_def CTxOut_null_def ctxout_ok_def
        script_fits_def int32_range_def)
  have v: "coins_nVersion doc_coins = 1" "doc_coins\<lparr>coins_nVersion := 1\<rparr> = doc_coins" by (simp_all add: doc_coins_def)
  from coins_disk_roundtrip [OF toy_curve_compresses ok(1)] coins_disk_roundtrip [OF toy_curve_compresses ok(2)]
  show ?thesis using doc_coins_written v by auto
qed

end
