(* ===== verification/MemPool.thy ===== *)
theory MemPool
  imports Blocks Solving
begin

text \<open>
  main.h and main.cpp: the pool of transactions that wait for a block. CTxMemPool holds the transactions by
  hash (mapTx) and, for every output one of them spends, the input that spends it (mapNextTx). A CInPoint
  points to an entry of mapTx; the pointer is the key of the entry, and following it after the entry is
  gone is None. The recursion of remove may not end on transactions that spend each other in a circle;
  None stands for that too, and MemPoolFacts shows that neither happens.
\<close>

section \<open>Outpoints as keys\<close>

text \<open>operator< of COutPoint, which orders mapNextTx.\<close>

instantiation COutPoint_ext :: (linorder) linorder
begin

definition less_COutPoint_ext :: "'a COutPoint_scheme \<Rightarrow> 'a COutPoint_scheme \<Rightarrow> bool" where
  "less_COutPoint_ext a b \<longleftrightarrow> outhash a < outhash b \<or> outhash a = outhash b \<and>
     (outn a < outn b \<or> outn a = outn b \<and> COutPoint.more a < COutPoint.more b)"

definition less_eq_COutPoint_ext :: "'a COutPoint_scheme \<Rightarrow> 'a COutPoint_scheme \<Rightarrow> bool" where
  "less_eq_COutPoint_ext a b \<longleftrightarrow> a = b \<or> a < b"

instance
  by standard (auto simp: less_COutPoint_ext_def less_eq_COutPoint_ext_def intro!: COutPoint.equality)

end

lemma COutPoint_less_iff: "(a :: COutPoint) < b \<longleftrightarrow> COutPoint_less a b"
  by (simp add: less_COutPoint_ext_def COutPoint_less_def)

section \<open>CTxMemPool\<close>

record CInPoint =
  ptx :: uint256
  in_n :: nat

record CTxMemPool =
  mapTx :: "(uint256 \<times> CTransaction) list"
  mapNextTx :: "(COutPoint \<times> CInPoint) list"
  nTransactionsUpdated :: nat

definition empty_pool :: CTxMemPool where
  "empty_pool = \<lparr>mapTx = [], mapNextTx = [], nTransactionsUpdated = 0\<rparr>"

definition exists_tx :: "CTxMemPool \<Rightarrow> uint256 \<Rightarrow> bool" where
  "exists_tx mp h \<longleftrightarrow> map_of (mapTx mp) h \<noteq> None"

definition addUnchecked :: "uint256 \<Rightarrow> CTransaction \<Rightarrow> CTxMemPool \<Rightarrow> CTxMemPool" where
  "addUnchecked h tx mp = mp\<lparr>mapTx := sm_put h tx (mapTx mp),
     mapNextTx := fold (\<lambda>i. sm_put (prevout (vin tx ! i)) \<lparr>ptx = h, in_n = i\<rparr>) [0..<length (vin tx)] (mapNextTx mp),
     nTransactionsUpdated := nTransactionsUpdated mp + 1\<rparr>"

text \<open>The end of remove, after its recursion.\<close>

definition erase_tx :: "crypto \<Rightarrow> CTransaction \<Rightarrow> CTxMemPool \<Rightarrow> CTxMemPool" where
  "erase_tx C tx mp =
     (if exists_tx mp (tx_hash C tx)
      then mp\<lparr>mapNextTx := fold (\<lambda>txin. sm_erase (prevout txin)) (vin tx) (mapNextTx mp),
        mapTx := sm_erase (tx_hash C tx) (mapTx mp), nTransactionsUpdated := nTransactionsUpdated mp + 1\<rparr>
      else mp)"

text \<open>The loop over the outputs of a transaction from the i-th one on, and then the end.\<close>

partial_function (option) remove_from :: "crypto \<Rightarrow> CTransaction \<Rightarrow> nat \<Rightarrow> CTxMemPool \<Rightarrow> CTxMemPool option" where
  "remove_from C tx i mp =
     (if i < length (vout tx) then
        (case map_of (mapNextTx mp) \<lparr>outhash = tx_hash C tx, outn = word_of_nat i\<rparr> of
           None \<Rightarrow> remove_from C tx (i + 1) mp
         | Some it \<Rightarrow>
             (case map_of (mapTx mp) (ptx it) of None \<Rightarrow> None
              | Some spender \<Rightarrow> do { mp \<leftarrow> remove_from C spender 0 mp; remove_from C tx (i + 1) mp }))
      else Some (erase_tx C tx mp))"

definition pool_remove :: "crypto \<Rightarrow> CTransaction \<Rightarrow> bool \<Rightarrow> CTxMemPool \<Rightarrow> CTxMemPool option" where
  "pool_remove C tx fRecursive mp = (if fRecursive then remove_from C tx 0 mp else Some (erase_tx C tx mp))"

fun remove_conflicts_loop :: "crypto \<Rightarrow> CTransaction \<Rightarrow> CTxIn list \<Rightarrow> CTxMemPool \<Rightarrow> CTxMemPool option" where
  "remove_conflicts_loop C tx [] mp = Some mp"
| "remove_conflicts_loop C tx (txin # rest) mp =
     (case map_of (mapNextTx mp) (prevout txin) of None \<Rightarrow> remove_conflicts_loop C tx rest mp
      | Some it \<Rightarrow>
          (case map_of (mapTx mp) (ptx it) of None \<Rightarrow> None
           | Some txConflict \<Rightarrow>
               if txConflict \<noteq> tx
               then do { mp \<leftarrow> pool_remove C txConflict True mp; remove_conflicts_loop C tx rest mp }
               else remove_conflicts_loop C tx rest mp))"

definition removeConflicts :: "crypto \<Rightarrow> CTransaction \<Rightarrow> CTxMemPool \<Rightarrow> CTxMemPool option" where
  "removeConflicts C tx = remove_conflicts_loop C tx (vin tx)"

definition pool_clear :: "CTxMemPool \<Rightarrow> CTxMemPool" where
  "pool_clear mp = mp\<lparr>mapTx := [], mapNextTx := [], nTransactionsUpdated := nTransactionsUpdated mp + 1\<rparr>"

definition queryHashes :: "CTxMemPool \<Rightarrow> uint256 list" where
  "queryHashes mp = map fst (mapTx mp)"

text \<open>CCoins::Spend of a position, whose answer pruneSpent ignores.\<close>

definition Spend_n :: "CCoins \<Rightarrow> u32 \<Rightarrow> CCoins" where
  "Spend_n coins n = (case Spend coins \<lparr>outhash = 0, outn = n\<rparr> of None \<Rightarrow> coins | Some (_, coins) \<Rightarrow> coins)"

definition pruneSpent :: "uint256 \<Rightarrow> CCoins \<Rightarrow> CTxMemPool \<Rightarrow> CCoins" where
  "pruneSpent hashTx coins mp =
     fold (\<lambda>e coins. Spend_n coins (outn (fst e)))
       (takeWhile (\<lambda>e. outhash (fst e) = hashTx) (sm_lower_bound \<lparr>outhash = hashTx, outn = 0\<rparr> (mapNextTx mp))) coins"

section \<open>The view that adds the pool to the coin database\<close>

definition MEMPOOL_HEIGHT :: int where "MEMPOOL_HEIGHT = 0x7FFFFFFF"

definition pool_GetCoins :: "(uint256 \<Rightarrow> CCoins option) \<Rightarrow> CTxMemPool \<Rightarrow> uint256 \<Rightarrow> CCoins option" where
  "pool_GetCoins baseIn mp txid =
     (case baseIn txid of Some coins \<Rightarrow> Some coins
      | None \<Rightarrow> map_option (\<lambda>tx. CCoins_of tx MEMPOOL_HEIGHT) (map_of (mapTx mp) txid))"

definition pool_HaveCoins :: "(uint256 \<Rightarrow> CCoins option) \<Rightarrow> CTxMemPool \<Rightarrow> uint256 \<Rightarrow> bool" where
  "pool_HaveCoins baseIn mp txid \<longleftrightarrow> exists_tx mp txid \<or> baseIn txid \<noteq> None"

section \<open>Standard transactions\<close>

text \<open>The globals that accept reads: the network, the height of the best block, the time, the fee rates.\<close>

record policy =
  fTestNet :: bool
  best_height :: int
  adjusted_time :: int
  min_tx_fee :: int
  min_relay_fee :: int

definition CURRENT_VERSION :: int where "CURRENT_VERSION = 1"
definition MAX_STANDARD_TX_SIZE :: nat where "MAX_STANDARD_TX_SIZE = 100000"
definition IsDust :: "CTxOut \<Rightarrow> bool" where "IsDust txout = False"

text \<open>IsStandard of a transaction, without the texts it returns as reasons.\<close>

definition IsStandard_tx :: "policy \<Rightarrow> CTransaction \<Rightarrow> bool" where
  "IsStandard_tx P tx =
     (if nVersion tx > CURRENT_VERSION \<or> nVersion tx < 1 then False
      else if \<not> IsFinal (best_height P) (adjusted_time P) 0 0 tx then False
      else if size_tx tx \<ge> MAX_STANDARD_TX_SIZE then False
      else if list_ex (\<lambda>txin. length (scriptSig txin) > 500 \<or> \<not> IsPushOnly (scriptSig txin)) (vin tx) then False
      else \<not> list_ex (\<lambda>txout. \<not> IsStandard_script (scriptPubKey txout) \<or> IsDust txout) (vout tx))"

text \<open>One turn of AreInputsStandard, for input i and the script it spends.\<close>

definition input_standard ::
  "'b env \<Rightarrow> CTransaction \<Rightarrow> nat \<Rightarrow> script \<Rightarrow> CSignatureCache \<Rightarrow> bool \<times> CSignatureCache" where
  "input_standard E tx i prevScript c =
     (case Solver prevScript of (solved, whichType, vSolutions) \<Rightarrow>
      let nArgsExpected = ScriptSigArgsExpected whichType vSolutions in
      if \<not> solved then (False, c)
      else if nArgsExpected < 0 then (False, c)
      else case EvalScript (bn E) (hashes E) (CheckSig (hashes E) (ec E) (randoms E) (maxsigcache E) tx i 0 0) 0 []
             (scriptSig (vin tx ! i)) c of (ok, stack, c) \<Rightarrow>
        if \<not> ok then (False, c)
        else if whichType = TX_SCRIPTHASH then
          (if stack = [] then (False, c)
           else case Solver (hd stack) of (solved2, whichType2, vSolutions2) \<Rightarrow>
             let tmpExpected = ScriptSigArgsExpected whichType2 vSolutions2 in
             if \<not> solved2 then (False, c)
             else if whichType2 = TX_SCRIPTHASH then (False, c)
             else if tmpExpected < 0 then (False, c)
             else (int (length stack) = nArgsExpected + tmpExpected, c))
        else (int (length stack) = nArgsExpected, c))"

fun inputs_standard ::
  "'b env \<Rightarrow> CTransaction \<Rightarrow> nat list \<Rightarrow> coins_view \<Rightarrow> CSignatureCache \<Rightarrow> (bool \<times> coins_view \<times> CSignatureCache) option" where
  "inputs_standard E tx [] mapInputs c = Some (True, mapInputs, c)"
| "inputs_standard E tx (i # rest) mapInputs c =
     (case GetOutputFor (vin tx ! i) mapInputs of None \<Rightarrow> None
      | Some (prev, mapInputs) \<Rightarrow>
          (case input_standard E tx i (scriptPubKey prev) c of (ok, c) \<Rightarrow>
             if \<not> ok then Some (False, mapInputs, c) else inputs_standard E tx rest mapInputs c))"

definition AreInputsStandard ::
  "'b env \<Rightarrow> CTransaction \<Rightarrow> coins_view \<Rightarrow> CSignatureCache \<Rightarrow> (bool \<times> coins_view \<times> CSignatureCache) option" where
  "AreInputsStandard E tx mapInputs c =
     (if IsCoinBase tx then Some (True, mapInputs, c) else inputs_standard E tx [0..<length (vin tx)] mapInputs c)"

section \<open>Acceptance\<close>

text \<open>
  What accept returns: true; false with the validation state untouched; the same with *pfMissingInputs set;
  false with the state's verdict (DoS 0 is state.Invalid), where Throw stands for an exception or an assertion.
\<close>

datatype reply = Accepted | Declined | MissingInputs | Invalid verdict

text \<open>SetBackend with a view that knows nothing.\<close>

definition SetBackend_dummy :: "coins_view \<Rightarrow> coins_view" where
  "SetBackend_dummy v = v\<lparr>base := (\<lambda>_. None), base_best := None\<rparr>"

text \<open>
  The part under fCheckInputs, over the coins of pcoinsTip and its best block. limiter is the outcome of the
  rate limiter for free transactions, which computes with floating point numbers and the clock.
\<close>

definition accept_inputs ::
  "'b env \<Rightarrow> policy \<Rightarrow> (nat \<Rightarrow> int) \<Rightarrow> (uint256 \<Rightarrow> CCoins option) \<Rightarrow> nat option \<Rightarrow> CTransaction \<Rightarrow> bool \<Rightarrow> bool \<Rightarrow>
    CTxMemPool \<Rightarrow> CSignatureCache \<Rightarrow> reply \<times> CSignatureCache" where
  "accept_inputs E P heights coinsTip best tx fLimitFree limiter mp c =
     (case HaveCoins (CCoinsViewCache (pool_GetCoins coinsTip mp) best) (tx_hash (hashes E) tx) of (found, v) \<Rightarrow>
      if found then (Declined, c)
      else case have_txs (vin tx) v of (known, v) \<Rightarrow>
      if \<not> known then (MissingInputs, c)
      else case HaveInputs tx v of None \<Rightarrow> (Invalid Throw, c)
      | Some (ok, v) \<Rightarrow>
      if \<not> ok then (Invalid (DoS 0), c)
      else let v = SetBackend_dummy (snd (GetBestBlock v)) in
      case AreInputsStandard E tx v c of None \<Rightarrow> (Invalid Throw, c)
      | Some (standard, v, c) \<Rightarrow>
      if \<not> standard \<and> \<not> fTestNet P then (Declined, c)
      else case (GetValueIn tx v, GetValueOut tx) of (Some (nValueIn, v), Some nValueOut) \<Rightarrow>
        (let nFees = nValueIn - nValueOut;
             txMinFee = GetMinFee (min_tx_fee P) (min_relay_fee P) tx 1000 True GMF_RELAY in
         if fLimitFree \<and> nFees < txMinFee then (Declined, c)
         else if fLimitFree \<and> nFees < min_relay_fee P \<and> limiter then (Declined, c)
         else case CheckInputs E heights tx v True (SCRIPT_VERIFY_P2SH OR SCRIPT_VERIFY_STRICTENC) c of
           (verdict, v, c) \<Rightarrow> (if verdict \<noteq> Accept then Invalid verdict else Accepted, c))
      | _ \<Rightarrow> (Invalid Throw, c))"

definition pool_accept ::
  "'b env \<Rightarrow> policy \<Rightarrow> (nat \<Rightarrow> int) \<Rightarrow> (uint256 \<Rightarrow> CCoins option) \<Rightarrow> nat option \<Rightarrow> CTransaction \<Rightarrow> bool \<Rightarrow> bool \<Rightarrow> bool \<Rightarrow>
    CTxMemPool \<Rightarrow> CSignatureCache \<Rightarrow> reply \<times> CTxMemPool \<times> CSignatureCache" where
  "pool_accept E P heights coinsTip best tx fCheckInputs fLimitFree limiter mp c =
     (if CheckTransaction tx \<noteq> Accept then (Invalid (CheckTransaction tx), mp, c)
      else if IsCoinBase tx then (Invalid (DoS 100), mp, c)
      else if uint (nLockTime tx) > 2 ^ 31 - 1 then (Declined, mp, c)
      else if \<not> fTestNet P \<and> \<not> IsStandard_tx P tx then (Declined, mp, c)
      else if exists_tx mp (tx_hash (hashes E) tx) then (Declined, mp, c)
      else if list_ex (\<lambda>txin. map_of (mapNextTx mp) (prevout txin) \<noteq> None) (vin tx) then (Declined, mp, c)
      else case (if fCheckInputs then accept_inputs E P heights coinsTip best tx fLimitFree limiter mp c
                 else (Accepted, c)) of (r, c) \<Rightarrow>
        if r \<noteq> Accepted then (r, mp, c) else (Accepted, addUnchecked (tx_hash (hashes E) tx) tx mp, c))"

section \<open>The pool when the best chain changes\<close>

text \<open>The end of SetBestChain: the transactions of the disconnected blocks, then those of the connected ones.\<close>

fun resurrect ::
  "'b env \<Rightarrow> policy \<Rightarrow> (nat \<Rightarrow> int) \<Rightarrow> (uint256 \<Rightarrow> CCoins option) \<Rightarrow> nat option \<Rightarrow> CTransaction list \<Rightarrow>
    CTxMemPool \<Rightarrow> CSignatureCache \<Rightarrow> (CTxMemPool \<times> CSignatureCache) option" where
  "resurrect E P heights coinsTip best [] mp c = Some (mp, c)"
| "resurrect E P heights coinsTip best (tx # vResurrect) mp c =
     (case pool_accept E P heights coinsTip best tx True False False mp c of (r, mp, c) \<Rightarrow>
        if r \<noteq> Accepted
        then do { mp \<leftarrow> pool_remove (hashes E) tx True mp; resurrect E P heights coinsTip best vResurrect mp c }
        else resurrect E P heights coinsTip best vResurrect mp c)"

fun delete_redundant :: "crypto \<Rightarrow> CTransaction list \<Rightarrow> CTxMemPool \<Rightarrow> CTxMemPool option" where
  "delete_redundant C [] mp = Some mp"
| "delete_redundant C (tx # vDelete) mp =
     do { mp \<leftarrow> pool_remove C tx False mp; mp \<leftarrow> removeConflicts C tx mp; delete_redundant C vDelete mp }"

definition update_pool ::
  "'b env \<Rightarrow> policy \<Rightarrow> (nat \<Rightarrow> int) \<Rightarrow> (uint256 \<Rightarrow> CCoins option) \<Rightarrow> nat option \<Rightarrow> CTransaction list \<Rightarrow> CTransaction list \<Rightarrow>
    CTxMemPool \<Rightarrow> CSignatureCache \<Rightarrow> (CTxMemPool \<times> CSignatureCache) option" where
  "update_pool E P heights coinsTip best vResurrect vDelete mp c = do {
     (mp, c) \<leftarrow> resurrect E P heights coinsTip best vResurrect mp c;
     mp \<leftarrow> delete_redundant (hashes E) vDelete mp;
     Some (mp, c) }"

end
