(* ===== verification/MemPoolFacts.thy ===== *)
theory MemPoolFacts
  imports MemPool
begin

text \<open>
  The invariant of the pool (mapNextTx is the exact inverse of the inputs of the transactions in mapTx), what
  remove takes out, and that every operation returns and keeps the invariant.
\<close>

section \<open>The invariant\<close>

definition pool_ok :: "crypto \<Rightarrow> CTxMemPool \<Rightarrow> bool" where
  "pool_ok C mp \<longleftrightarrow> sm_wf (mapTx mp) \<and> sm_wf (mapNextTx mp)
     \<and> (\<forall>h tx. map_of (mapTx mp) h = Some tx \<longrightarrow> h = tx_hash C tx \<and> distinct (map prevout (vin tx)))
     \<and> (\<forall>p it. map_of (mapNextTx mp) p = Some it \<longleftrightarrow>
          (\<exists>tx. map_of (mapTx mp) (ptx it) = Some tx \<and> in_n it < length (vin tx) \<and> prevout (vin tx ! in_n it) = p))"

definition pool_txs :: "CTxMemPool \<Rightarrow> CTransaction set" where
  "pool_txs mp = ran (map_of (mapTx mp))"

lemma pool_okD:
  assumes "pool_ok C mp"
  shows "map_of (mapTx mp) h = Some tx \<Longrightarrow> h = tx_hash C tx"
    and "map_of (mapTx mp) h = Some tx \<Longrightarrow> distinct (map prevout (vin tx))"
    and "map_of (mapNextTx mp) p = Some it \<longleftrightarrow>
      (\<exists>tx. map_of (mapTx mp) (ptx it) = Some tx \<and> in_n it < length (vin tx) \<and> prevout (vin tx ! in_n it) = p)"
    and "sm_wf (mapTx mp)" and "sm_wf (mapNextTx mp)"
  using assms unfolding pool_ok_def by blast+

lemma pool_okI:
  assumes "sm_wf (mapTx mp)" and "sm_wf (mapNextTx mp)"
    and "\<And>h tx. map_of (mapTx mp) h = Some tx \<Longrightarrow> h = tx_hash C tx \<and> distinct (map prevout (vin tx))"
    and "\<And>p it. map_of (mapNextTx mp) p = Some it \<longleftrightarrow>
      (\<exists>tx. map_of (mapTx mp) (ptx it) = Some tx \<and> in_n it < length (vin tx) \<and> prevout (vin tx ! in_n it) = p)"
  shows "pool_ok C mp"
  using assms unfolding pool_ok_def by blast

lemma pool_txs_iff: "pool_ok C mp \<Longrightarrow> t \<in> pool_txs mp \<longleftrightarrow> map_of (mapTx mp) (tx_hash C t) = Some t"
  using pool_okD(1) by (fastforce simp: pool_txs_def ran_def)

lemma finite_pool_txs [simp]: "finite (pool_txs mp)"
  by (simp add: pool_txs_def finite_ran)

text \<open>The spender that mapNextTx leads to is the only transaction of the pool with that input.\<close>

lemma spender_iff:
  assumes "pool_ok C mp"
  shows "(\<exists>it. map_of (mapNextTx mp) p = Some it \<and> map_of (mapTx mp) (ptx it) = Some t)
    \<longleftrightarrow> t \<in> pool_txs mp \<and> p \<in> prevout ` set (vin t)"
proof
  assume "\<exists>it. map_of (mapNextTx mp) p = Some it \<and> map_of (mapTx mp) (ptx it) = Some t"
  then show "t \<in> pool_txs mp \<and> p \<in> prevout ` set (vin t)"
    using pool_okD(3) [OF assms] by (fastforce simp: pool_txs_def ran_def in_set_conv_nth)
next
  assume r: "t \<in> pool_txs mp \<and> p \<in> prevout ` set (vin t)"
  then obtain n where n: "n < length (vin t)" "prevout (vin t ! n) = p" by (auto simp: in_set_conv_nth)
  have "map_of (mapTx mp) (tx_hash C t) = Some t" using r pool_txs_iff [OF assms] by simp
  with n have "map_of (mapNextTx mp) p = Some \<lparr>ptx = tx_hash C t, in_n = n\<rparr>" by (simp add: pool_okD(3) [OF assms])
  with \<open>map_of (mapTx mp) (tx_hash C t) = Some t\<close>
  show "\<exists>it. map_of (mapNextTx mp) p = Some it \<and> map_of (mapTx mp) (ptx it) = Some t"
    by (intro exI [of _ "\<lparr>ptx = tx_hash C t, in_n = n\<rparr>"]) simp
qed

lemma unspent_iff:
  assumes "pool_ok C mp"
  shows "map_of (mapNextTx mp) p = None \<longleftrightarrow> (\<forall>t \<in> pool_txs mp. p \<notin> prevout ` set (vin t))"
proof
  assume "map_of (mapNextTx mp) p = None"
  then show "\<forall>t \<in> pool_txs mp. p \<notin> prevout ` set (vin t)" using spender_iff [OF assms, of p] by fastforce
next
  assume r: "\<forall>t \<in> pool_txs mp. p \<notin> prevout ` set (vin t)"
  show "map_of (mapNextTx mp) p = None"
  proof (rule ccontr)
    assume "map_of (mapNextTx mp) p \<noteq> None"
    then obtain it where "map_of (mapNextTx mp) p = Some it" by blast
    moreover from this obtain t where "map_of (mapTx mp) (ptx it) = Some t" using pool_okD(3) [OF assms] by blast
    ultimately show False using r spender_iff [OF assms, of p t] by blast
  qed
qed

lemma no_double_spend:
  assumes "pool_ok C mp" "a \<in> pool_txs mp" "b \<in> pool_txs mp" "p \<in> prevout ` set (vin a)" "p \<in> prevout ` set (vin b)"
  shows "a = b"
  using spender_iff [OF assms(1), of p a] spender_iff [OF assms(1), of p b] assms(2-5) by auto

section \<open>Adding and erasing one transaction\<close>

lemma map_of_fold_put:
  "distinct (map f xs) \<Longrightarrow> map_of (fold (\<lambda>x. sm_put (f x) (g x)) xs m) p = Some v \<longleftrightarrow>
     (\<exists>x \<in> set xs. f x = p \<and> v = g x) \<or> (p \<notin> f ` set xs \<and> map_of m p = Some v)"
proof (induction xs arbitrary: m)
  case (Cons x xs)
  then show ?case by (auto simp: image_iff)
qed simp

lemma map_of_fold_erase: "map_of (fold (\<lambda>x. sm_erase (f x)) xs m) p = (if p \<in> f ` set xs then None else map_of m p)"
  by (induction xs arbitrary: m) auto

lemma sm_wf_fold_put: "sm_wf m \<Longrightarrow> sm_wf (fold (\<lambda>x. sm_put (f x) (g x)) xs m)"
  by (induction xs arbitrary: m) (auto intro: sm_wf_put)

lemma sm_wf_fold_erase: "sm_wf m \<Longrightarrow> sm_wf (fold (\<lambda>x. sm_erase (f x)) xs m)"
  by (induction xs arbitrary: m) (auto intro: sm_wf_erase)

lemma empty_pool_ok: "pool_ok C empty_pool"
  by (simp add: pool_ok_def empty_pool_def)

lemma pool_clear_ok: "pool_ok C (pool_clear mp)"
  by (simp add: pool_ok_def pool_clear_def)

lemma addUnchecked_ok:
  assumes ok: "pool_ok C mp" and new: "map_of (mapTx mp) (tx_hash C tx) = None"
    and free: "\<forall>i \<in> set (vin tx). map_of (mapNextTx mp) (prevout i) = None" and d: "distinct (map prevout (vin tx))"
  shows "pool_ok C (addUnchecked (tx_hash C tx) tx mp)"
    and "pool_txs (addUnchecked (tx_hash C tx) tx mp) = insert tx (pool_txs mp)"
proof -
  let ?h = "tx_hash C tx" and ?mp = "addUnchecked (tx_hash C tx) tx mp"
  have m: "map_of (mapTx ?mp) = (map_of (mapTx mp))(?h \<mapsto> tx)" by (simp add: addUnchecked_def)
  show "pool_txs ?mp = insert tx (pool_txs mp)" using new by (simp add: pool_txs_def m)
  have e: "map (\<lambda>i. prevout (vin tx ! i)) [0..<length (vin tx)] = map prevout (vin tx)" by (rule nth_equalityI) simp_all
  then have f: "distinct (map (\<lambda>i. prevout (vin tx ! i)) [0..<length (vin tx)])" using d by simp
  have "map_of (mapNextTx ?mp) p = Some it \<longleftrightarrow>
      (\<exists>t. map_of (mapTx ?mp) (ptx it) = Some t \<and> in_n it < length (vin t) \<and> prevout (vin t ! in_n it) = p)" (is "?l \<longleftrightarrow> ?r") for p it
  proof -
    have l: "?l \<longleftrightarrow> (\<exists>i < length (vin tx). prevout (vin tx ! i) = p \<and> it = \<lparr>ptx = ?h, in_n = i\<rparr>)
      \<or> (p \<notin> prevout ` set (vin tx) \<and> map_of (mapNextTx mp) p = Some it)"
    proof -
      have "(\<lambda>i. prevout (vin tx ! i)) ` {0..<length (vin tx)} = prevout ` set (vin tx)"
        using arg_cong [OF e, of set] by simp
      then show ?thesis
        using map_of_fold_put [OF f, of "\<lambda>i. \<lparr>ptx = ?h, in_n = i\<rparr>" "mapNextTx mp" p it]
        by (simp add: addUnchecked_def Bex_def conj_commute)
    qed
    show ?thesis
    proof (cases "ptx it = ?h")
      case True
      have "map_of (mapNextTx mp) p \<noteq> Some it" using new True pool_okD(3) [OF ok, of p it] by auto
      then show ?thesis using True unfolding l by (cases it) (auto simp: m)
    next
      case False
      have "p \<notin> prevout ` set (vin tx)" if "map_of (mapNextTx mp) p = Some it" using free that by auto
      then show ?thesis using False pool_okD(3) [OF ok, of p it] unfolding l by (auto simp: m)
    qed
  qed
  then show "pool_ok C ?mp"
  proof (rule pool_okI [rotated 3])
    show "sm_wf (mapTx ?mp)" "sm_wf (mapNextTx ?mp)"
      using pool_okD(4,5) [OF ok] by (auto simp: addUnchecked_def intro!: sm_wf_put sm_wf_fold_put)
    show "h = tx_hash C t \<and> distinct (map prevout (vin t))" if "map_of (mapTx ?mp) h = Some t" for h t
      using that pool_okD(1,2) [OF ok, of h t] d by (auto simp: m split: if_splits)
  qed
qed

lemma erase_tx_ok:
  assumes ok: "pool_ok C mp" and fits: "map_of (mapTx mp) (tx_hash C tx) \<in> {None, Some tx}"
  shows "pool_ok C (erase_tx C tx mp)" and "pool_txs (erase_tx C tx mp) = pool_txs mp - {tx}"
proof -
  let ?h = "tx_hash C tx" and ?mp = "erase_tx C tx mp"
  have "pool_ok C ?mp \<and> pool_txs ?mp = pool_txs mp - {tx}"
  proof (cases "map_of (mapTx mp) ?h")
    case None
    then have "tx \<notin> pool_txs mp" using pool_txs_iff [OF ok, of tx] by simp
    then show ?thesis using None ok by (simp add: erase_tx_def exists_tx_def)
  next
    case (Some t)
    then have tx: "map_of (mapTx mp) ?h = Some tx" using fits by auto
    have m: "map_of (mapTx ?mp) = (map_of (mapTx mp))(?h := None)" using tx by (simp add: erase_tx_def exists_tx_def)
    have n: "map_of (mapNextTx ?mp) p = (if p \<in> prevout ` set (vin tx) then None else map_of (mapNextTx mp) p)" for p
      using tx by (simp add: erase_tx_def exists_tx_def map_of_fold_erase)
    have key: "k = ?h" if "map_of (mapTx mp) k = Some tx" for k using that by (rule pool_okD(1) [OF ok])
    have "pool_txs ?mp = pool_txs mp - {tx}"
    proof (intro set_eqI)
      fix t
      have "t \<in> pool_txs ?mp \<longleftrightarrow> (\<exists>k. k \<noteq> ?h \<and> map_of (mapTx mp) k = Some t)" by (auto simp: pool_txs_def m ran_def)
      moreover have "t \<in> pool_txs mp \<longleftrightarrow> (\<exists>k. map_of (mapTx mp) k = Some t)" by (simp add: pool_txs_def ran_def)
      ultimately show "t \<in> pool_txs ?mp \<longleftrightarrow> t \<in> pool_txs mp - {tx}" using key tx by (metis Diff_iff option.inject singleton_iff)
    qed
    moreover have "pool_ok C ?mp"
    proof -
      have "map_of (mapNextTx ?mp) p = Some it \<longleftrightarrow>
        (\<exists>t. map_of (mapTx ?mp) (ptx it) = Some t \<and> in_n it < length (vin t) \<and> prevout (vin t ! in_n it) = p)" for p it
      proof (cases "ptx it = ?h")
        case True
        then have "map_of (mapNextTx mp) p = Some it \<Longrightarrow> p \<in> prevout ` set (vin tx)"
          using tx pool_okD(3) [OF ok, of p it] by auto
        with True show ?thesis by (auto simp: m n)
      next
        case False
        have "p \<notin> prevout ` set (vin tx)" if spent: "map_of (mapNextTx mp) p = Some it"
        proof
          assume "p \<in> prevout ` set (vin tx)"
          moreover obtain t where t: "map_of (mapTx mp) (ptx it) = Some t" "in_n it < length (vin t)" "prevout (vin t ! in_n it) = p"
            using spent pool_okD(3) [OF ok, of p it] by blast
          moreover have "t \<in> pool_txs mp" using t(1) by (auto simp: pool_txs_def ran_def)
          moreover have "p \<in> prevout ` set (vin t)" using t(2,3) by (auto simp: image_iff)
          moreover have "tx \<in> pool_txs mp" using tx by (auto simp: pool_txs_def ran_def)
          ultimately have "t = tx" using no_double_spend [OF ok] by blast
          then show False using t(1) False key by simp
        qed
        then show ?thesis using False pool_okD(3) [OF ok, of p it] by (auto simp: m n)
      qed
      then show ?thesis
      proof (rule pool_okI [rotated 3])
        show "sm_wf (mapTx ?mp)" "sm_wf (mapNextTx ?mp)"
          using pool_okD(4,5) [OF ok] tx by (auto simp: erase_tx_def exists_tx_def intro!: sm_wf_erase sm_wf_fold_erase)
        show "h = tx_hash C t \<and> distinct (map prevout (vin t))" if "map_of (mapTx ?mp) h = Some t" for h t
          using that pool_okD(1,2) [OF ok, of h t] by (auto simp: m split: if_splits)
      qed
    qed
    ultimately show ?thesis by blast
  qed
  then show "pool_ok C ?mp" "pool_txs ?mp = pool_txs mp - {tx}" by blast+
qed

section \<open>What remove takes out\<close>

definition spends :: "crypto \<Rightarrow> CTransaction \<Rightarrow> CTransaction \<Rightarrow> nat \<Rightarrow> bool" where
  "spends C b a i \<longleftrightarrow> \<lparr>outhash = tx_hash C a, outn = word_of_nat i\<rparr> \<in> prevout ` set (vin b)"

text \<open>The edges from a transaction to those of a set that spend one of its outputs.\<close>

definition edges :: "crypto \<Rightarrow> CTransaction set \<Rightarrow> (CTransaction \<times> CTransaction) set" where
  "edges C P = {(a, b). b \<in> P \<and> (\<exists>i < length (vout a). spends C b a i)}"

definition descendants :: "crypto \<Rightarrow> CTransaction set \<Rightarrow> CTransaction \<Rightarrow> CTransaction set" where
  "descendants C P a = (edges C P)\<^sup>* `` {a}"

text \<open>Those below the outputs of a transaction from the i-th one on.\<close>

definition below :: "crypto \<Rightarrow> CTransaction set \<Rightarrow> nat \<Rightarrow> CTransaction \<Rightarrow> CTransaction set" where
  "below C P i a = (\<Union>b \<in> {b \<in> P. \<exists>j. i \<le> j \<and> j < length (vout a) \<and> spends C b a j}. descendants C P b)"

lemma below_iff:
  "x \<in> below C P i a \<longleftrightarrow> (\<exists>b j. b \<in> P \<and> i \<le> j \<and> j < length (vout a) \<and> spends C b a j \<and> x \<in> descendants C P b)"
  by (auto simp: below_def)

lemma edges_mono: "P \<subseteq> Q \<Longrightarrow> edges C P \<subseteq> edges C Q"
  by (auto simp: edges_def)

lemma descendants_mono: "P \<subseteq> Q \<Longrightarrow> descendants C P a \<subseteq> descendants C Q a"
  unfolding descendants_def by (intro Image_mono rtrancl_mono edges_mono order_refl)

lemma descendants_trans: "b \<in> descendants C P a \<Longrightarrow> descendants C P b \<subseteq> descendants C P a"
  by (auto simp: descendants_def)

lemma descendants_self [simp]: "a \<in> descendants C P a"
  by (simp add: descendants_def)

lemma descendants_below: "descendants C P a = insert a (below C P 0 a)"
proof (intro equalityI subsetI)
  fix c assume "c \<in> descendants C P a"
  then have "(a, c) \<in> (edges C P)\<^sup>*" by (simp add: descendants_def)
  then show "c \<in> insert a (below C P 0 a)"
    by (cases rule: converse_rtranclE) (auto simp: below_def edges_def descendants_def)
next
  fix c assume "c \<in> insert a (below C P 0 a)"
  moreover have "c \<in> descendants C P a" if "c \<in> below C P 0 a"
    using that by (auto simp: below_def descendants_def intro: converse_rtrancl_into_rtrancl [of a] simp: edges_def)
  ultimately show "c \<in> descendants C P a" by auto
qed

lemma descendants_minus:
  "descendants C P c \<subseteq> descendants C (P - descendants C P b) c \<union> descendants C P b"
proof
  fix x assume "x \<in> descendants C P c"
  then have "(c, x) \<in> (edges C P)\<^sup>*" by (simp add: descendants_def)
  then show "x \<in> descendants C (P - descendants C P b) c \<union> descendants C P b"
  proof (induction rule: rtrancl_induct)
    case (step y z)
    show ?case
    proof (cases "z \<in> descendants C P b")
      case False
      with step(2) have "y \<notin> descendants C P b" by (auto simp: descendants_def intro: rtrancl_into_rtrancl)
      with step(3) have "(c, y) \<in> (edges C (P - descendants C P b))\<^sup>*" by (simp add: descendants_def)
      moreover have "(y, z) \<in> edges C (P - descendants C P b)" using step(2) False by (auto simp: edges_def)
      ultimately show ?thesis by (auto simp: descendants_def intro: rtrancl_into_rtrancl)
    qed simp
  qed simp
qed

lemma below_step:
  assumes "i < length (vout a)" "b \<in> P" "spends C b a i" and only: "\<And>c. c \<in> P \<Longrightarrow> spends C c a i \<Longrightarrow> c = b"
  defines "D \<equiv> descendants C P b"
  shows "below C P i a = D \<union> below C (P - D) (Suc i) a"
proof (intro equalityI subsetI)
  fix x assume "x \<in> below C P i a"
  then obtain c j where c: "c \<in> P" "i \<le> j" "j < length (vout a)" "spends C c a j" "x \<in> descendants C P c"
    by (auto simp: below_def)
  show "x \<in> D \<union> below C (P - D) (Suc i) a"
  proof (cases "x \<in> D")
    case False
    then have "c \<notin> D" using c(5) descendants_trans [of c C P b] by (auto simp: D_def)
    then have "j \<noteq> i" using only c(1,4) by (auto simp: D_def)
    moreover have "x \<in> descendants C (P - D) c" using descendants_minus [of C P c b] c(5) False by (auto simp: D_def)
    ultimately show ?thesis using c \<open>c \<notin> D\<close> by (fastforce simp: below_def)
  qed simp
next
  fix x assume "x \<in> D \<union> below C (P - D) (Suc i) a"
  moreover have "D \<subseteq> below C P i a" using assms(1-3) by (auto simp: below_def D_def)
  moreover have "below C (P - D) (Suc i) a \<subseteq> below C P i a"
  proof
    fix y assume "y \<in> below C (P - D) (Suc i) a"
    then obtain c j where "c \<in> P" "Suc i \<le> j" "j < length (vout a)" "spends C c a j" "y \<in> descendants C (P - D) c"
      by (auto simp: below_iff)
    then show "y \<in> below C P i a"
      unfolding below_iff using descendants_mono [of "P - D" P C c] by (intro exI [of _ c] exI [of _ j]) auto
  qed
  ultimately show "x \<in> below C P i a" by blast
qed

lemma below_skip:
  assumes "\<forall>c \<in> P. \<not> spends C c a i"
  shows "below C P i a = below C P (Suc i) a"
proof -
  have "c \<in> P \<and> i \<le> j \<and> j < length (vout a) \<and> spends C c a j \<longleftrightarrow>
      c \<in> P \<and> Suc i \<le> j \<and> j < length (vout a) \<and> spends C c a j" for c j
    using assms by (auto simp: Suc_le_eq order_le_less)
  then have "{c \<in> P. \<exists>j. i \<le> j \<and> j < length (vout a) \<and> spends C c a j} =
      {c \<in> P. \<exists>j. Suc i \<le> j \<and> j < length (vout a) \<and> spends C c a j}" by blast
  then show ?thesis by (simp only: below_def)
qed

lemma below_end: "length (vout a) \<le> i \<Longrightarrow> below C P i a = {}"
  by (auto simp: below_def)

lemma remove_from_spec:
  assumes "wf {(b, a). a \<in> W \<and> (a, b) \<in> edges C W}" and inj: "inj_on (tx_hash C) W"
  shows "a \<in> W \<Longrightarrow> pool_ok C mp \<Longrightarrow> pool_txs mp \<subseteq> W \<Longrightarrow>
    \<exists>mp'. remove_from C a i mp = Some mp' \<and> pool_ok C mp' \<and> pool_txs mp' = pool_txs mp - insert a (below C (pool_txs mp) i a)"
  using assms(1)
proof (induction a arbitrary: i mp rule: wf_induct_rule)
  case (less a)
  note outer = less.IH and aW = less.prems(1)
  from less.prems(2,3) show ?case
  proof (induction "length (vout a) - i" arbitrary: i mp)
    case 0
    have "map_of (mapTx mp) (tx_hash C a) \<in> {None, Some a}"
    proof (cases "map_of (mapTx mp) (tx_hash C a)")
      case (Some t)
      then have "tx_hash C t = tx_hash C a" "t \<in> W"
        using pool_okD(1) [OF 0(2)] 0(3) by (auto simp: pool_txs_def ran_def)
      then show ?thesis using Some aW inj by (simp add: inj_onD)
    qed simp
    then show ?case using 0 erase_tx_ok [of C mp a] below_end [of a i C] by (simp add: remove_from.simps [of C a i])
  next
    case (Suc k)
    let ?p = "\<lparr>outhash = tx_hash C a, outn = word_of_nat i\<rparr> :: COutPoint" and ?P = "pool_txs mp"
    have i: "i < length (vout a)" "k = length (vout a) - (i + 1)" using Suc(2) by auto
    show ?case
    proof (cases "map_of (mapNextTx mp) ?p")
      case None
      then have "below C ?P i a = below C ?P (Suc i) a"
        using unspent_iff [OF Suc(3)] by (intro below_skip) (auto simp: spends_def)
      then show ?thesis using Suc(1) [OF i(2) Suc(3,4)] None i(1) by (simp add: remove_from.simps [of C a i])
    next
      case (Some it)
      then obtain b where b: "map_of (mapTx mp) (ptx it) = Some b" using pool_okD(3) [OF Suc(3)] by blast
      with Some have bP: "b \<in> ?P" and sp: "spends C b a i"
        using spender_iff [OF Suc(3), of ?p b] by (auto simp: spends_def)
      let ?D = "descendants C ?P b"
      have "(b, a) \<in> {(b, a). a \<in> W \<and> (a, b) \<in> edges C W}" using bP sp Suc(4) aW i(1) by (auto simp: edges_def)
      from outer [OF this _ Suc(3,4), of 0] bP Suc(4)
      obtain mp1 where m1: "remove_from C b 0 mp = Some mp1" "pool_ok C mp1" "pool_txs mp1 = ?P - ?D"
        by (auto simp: descendants_below)
      from Suc(1) [OF i(2) m1(2)] m1(3) Suc(4)
      obtain mp2 where m2: "remove_from C a (i + 1) mp1 = Some mp2" "pool_ok C mp2"
        "pool_txs mp2 = ?P - ?D - insert a (below C (?P - ?D) (Suc i) a)" by auto
      have "below C ?P i a = ?D \<union> below C (?P - ?D) (Suc i) a"
        using no_double_spend [OF Suc(3) _ bP] sp by (intro below_step [OF i(1) bP sp]) (auto simp: spends_def)
      then have "pool_txs mp2 = ?P - insert a (below C ?P i a)" using m2(3) by auto
      then show ?thesis using m1(1) m2(1,2) Some b i(1) by (simp add: remove_from.simps [of C a i])
    qed
  qed
qed

section \<open>Sets of transactions without collisions and circles\<close>

text \<open>
  Different transactions of the set have different hashes, and none of them spends, through others, its own
  outputs: a circle would be a fixed point of the hash function.
\<close>

definition tx_graph_ok :: "crypto \<Rightarrow> CTransaction set \<Rightarrow> bool" where
  "tx_graph_ok C W \<longleftrightarrow> inj_on (tx_hash C) W \<and> acyclic {(a, b). a \<in> W \<and> (a, b) \<in> edges C W}"

lemma tx_graph_ok_subset: "tx_graph_ok C W \<Longrightarrow> V \<subseteq> W \<Longrightarrow> tx_graph_ok C V"
  unfolding tx_graph_ok_def
  by (auto intro: inj_on_subset acyclic_subset dest: edges_mono [of V W C, THEN subsetD])

lemma tx_graph_wf:
  assumes "tx_graph_ok C W" "finite W"
  shows "wf {(b, a). a \<in> W \<and> (a, b) \<in> edges C W}"
proof -
  let ?R = "{(a, b). a \<in> W \<and> (a, b) \<in> edges C W}"
  have "?R \<subseteq> W \<times> W" by (auto simp: edges_def)
  then have "finite ?R" by (rule finite_subset) (simp add: assms(2))
  then have "wf (?R\<inverse>)" using assms(1) by (intro finite_acyclic_wf_converse) (auto simp: tx_graph_ok_def)
  moreover have "?R\<inverse> = {(b, a). a \<in> W \<and> (a, b) \<in> edges C W}" by auto
  ultimately show ?thesis by simp
qed

lemma remove_rec:
  assumes "pool_ok C mp" and "tx_graph_ok C (insert tx (pool_txs mp))"
  shows "\<exists>mp'. pool_remove C tx True mp = Some mp' \<and> pool_ok C mp'
    \<and> pool_txs mp' = pool_txs mp - descendants C (pool_txs mp) tx"
  using remove_from_spec [OF tx_graph_wf [OF assms(2)], of tx mp 0] assms
  by (auto simp: tx_graph_ok_def pool_remove_def descendants_below)

lemma remove_one:
  assumes "pool_ok C mp" and "inj_on (tx_hash C) (insert tx (pool_txs mp))"
  shows "pool_ok C (erase_tx C tx mp)" and "pool_txs (erase_tx C tx mp) = pool_txs mp - {tx}"
proof -
  have "map_of (mapTx mp) (tx_hash C tx) \<in> {None, Some tx}"
  proof (cases "map_of (mapTx mp) (tx_hash C tx)")
    case (Some t)
    then have "tx_hash C t = tx_hash C tx" "t \<in> pool_txs mp"
      using pool_okD(1) [OF assms(1)] by (auto simp: pool_txs_def ran_def)
    then have "t = tx" by (intro inj_onD [OF assms(2)]) auto
    then show ?thesis using Some by simp
  qed simp
  then show "pool_ok C (erase_tx C tx mp)" "pool_txs (erase_tx C tx mp) = pool_txs mp - {tx}"
    using erase_tx_ok [OF assms(1)] by blast+
qed

section \<open>Conflicts\<close>

definition conflicting :: "CTransaction \<Rightarrow> CTxIn list \<Rightarrow> CTransaction set \<Rightarrow> CTransaction set" where
  "conflicting tx ins P = {b \<in> P. b \<noteq> tx \<and> prevout ` set ins \<inter> prevout ` set (vin b) \<noteq> {}}"

lemma descendants_Union_minus:
  fixes C :: crypto and P :: "CTransaction set" and b :: CTransaction
  defines "D \<equiv> descendants C P b"
  shows "D \<union> \<Union> (descendants C P ` B) = D \<union> \<Union> (descendants C (P - D) ` (B - D))"
proof
  have "descendants C P c \<subseteq> D \<union> \<Union> (descendants C (P - D) ` (B - D))" if "c \<in> B" for c
  proof (cases "c \<in> D")
    case True
    then show ?thesis using descendants_trans [of c C P b] by (auto simp: D_def)
  next
    case False
    then show ?thesis using descendants_minus [of C P c b] that by (auto simp: D_def)
  qed
  then show "D \<union> \<Union> (descendants C P ` B) \<subseteq> D \<union> \<Union> (descendants C (P - D) ` (B - D))" by blast
  have "descendants C (P - D) c \<subseteq> descendants C P c" for c by (rule descendants_mono) auto
  then show "D \<union> \<Union> (descendants C (P - D) ` (B - D)) \<subseteq> D \<union> \<Union> (descendants C P ` B)" by blast
qed

lemma remove_conflicts_spec:
  "pool_ok C mp \<Longrightarrow> tx_graph_ok C (pool_txs mp) \<Longrightarrow>
    \<exists>mp'. remove_conflicts_loop C tx ins mp = Some mp' \<and> pool_ok C mp'
      \<and> pool_txs mp' = pool_txs mp - \<Union> (descendants C (pool_txs mp) ` conflicting tx ins (pool_txs mp))"
proof (induction ins arbitrary: mp)
  case Nil
  then show ?case by (simp add: conflicting_def)
next
  case (Cons i ins)
  let ?P = "pool_txs mp" and ?p = "prevout i"
  show ?case
  proof (cases "map_of (mapNextTx mp) ?p")
    case None
    then have "conflicting tx (i # ins) ?P = conflicting tx ins ?P"
      using unspent_iff [OF Cons.prems(1), of ?p] by (auto simp: conflicting_def)
    then show ?thesis using None Cons by simp
  next
    case (Some it)
    then obtain b where b: "map_of (mapTx mp) (ptx it) = Some b" using pool_okD(3) [OF Cons.prems(1)] by blast
    with Some have bP: "b \<in> ?P" "?p \<in> prevout ` set (vin b)" using spender_iff [OF Cons.prems(1), of ?p b] by auto
    then have only: "c = b" if "c \<in> ?P" "?p \<in> prevout ` set (vin c)" for c
      using no_double_spend [OF Cons.prems(1)] that by blast
    show ?thesis
    proof (cases "b = tx")
      case True
      then have "conflicting tx (i # ins) ?P = conflicting tx ins ?P"
        using only by (auto simp: conflicting_def)
      then show ?thesis using Some b True Cons by simp
    next
      case False
      let ?D = "descendants C ?P b"
      obtain mp1 where m1: "pool_remove C b True mp = Some mp1" "pool_ok C mp1" "pool_txs mp1 = ?P - ?D"
        using remove_rec [of C mp b] Cons.prems bP(1) by (auto simp: insert_absorb)
      obtain mp2 where m2: "remove_conflicts_loop C tx ins mp1 = Some mp2" "pool_ok C mp2"
        "pool_txs mp2 = ?P - ?D - \<Union> (descendants C (?P - ?D) ` conflicting tx ins (?P - ?D))"
        using Cons.IH [OF m1(2)] tx_graph_ok_subset [OF Cons.prems(2), of "pool_txs mp1"] m1(3) by auto
      have "conflicting tx (i # ins) ?P = {c \<in> ?P. c \<noteq> tx \<and> ?p \<in> prevout ` set (vin c)} \<union> conflicting tx ins ?P"
        unfolding conflicting_def by (simp, blast)
      moreover have "{c \<in> ?P. c \<noteq> tx \<and> ?p \<in> prevout ` set (vin c)} = {b}" using bP False only by blast
      ultimately have "conflicting tx (i # ins) ?P = insert b (conflicting tx ins ?P)" by simp
      then have "\<Union> (descendants C ?P ` conflicting tx (i # ins) ?P) = ?D \<union> \<Union> (descendants C ?P ` conflicting tx ins ?P)"
        by simp
      also have "\<dots> = ?D \<union> \<Union> (descendants C (?P - ?D) ` (conflicting tx ins ?P - ?D))" by (rule descendants_Union_minus)
      also have "conflicting tx ins ?P - ?D = conflicting tx ins (?P - ?D)" by (auto simp: conflicting_def)
      finally have "pool_txs mp2 = ?P - \<Union> (descendants C ?P ` conflicting tx (i # ins) ?P)" using m2(3) by auto
      then show ?thesis using Some b False m1(1) m2(1,2) by simp
    qed
  qed
qed

section \<open>Spent outputs\<close>

lemma IsAvailable_Spend_n: "IsAvailable (Spend_n coins n) m \<longleftrightarrow> IsAvailable coins m \<and> m \<noteq> n"
proof -
  have app: "\<exists>k. xs = rev (dropWhile CTxOut_IsNull (rev xs)) @ k \<and> list_all CTxOut_IsNull k" for xs
    by (intro exI [of _ "rev (takeWhile CTxOut_IsNull (rev xs))"])
      (auto simp: list_all_iff dest: set_takeWhileD simp flip: rev_append)
  have clean: "IsAvailable (Cleanup c) m \<longleftrightarrow> IsAvailable c m" for c
  proof -
    obtain k where k: "coins_vout c = coins_vout (Cleanup c) @ k" "list_all CTxOut_IsNull k"
      using app [of "coins_vout c"] by (auto simp: Cleanup_def)
    then show ?thesis unfolding IsAvailable_def k(1) by (auto simp: nth_append list_all_length)
  qed
  have eq: "unat m = unat n \<longleftrightarrow> m = n" by (simp add: word_unat_eq_iff)
  show ?thesis
  proof (cases "IsAvailable coins n")
    case True
    then have "IsAvailable (Spend_n coins n) m \<longleftrightarrow> IsAvailable (coins\<lparr>coins_vout := (coins_vout coins)[unat n := CTxOut_null]\<rparr>) m"
      by (simp add: Spend_n_def Spend_def IsAvailable_def [of coins n] Let_def clean)
    also have "\<dots> \<longleftrightarrow> IsAvailable coins m \<and> m \<noteq> n"
      using True eq by (auto simp: IsAvailable_def nth_list_update)
    finally show ?thesis .
  next
    case False
    then show ?thesis by (auto simp: Spend_n_def Spend_def IsAvailable_def)
  qed
qed

lemma IsAvailable_fold_Spend_n:
  "IsAvailable (fold (\<lambda>e coins. Spend_n coins (f e)) es coins) m \<longleftrightarrow> IsAvailable coins m \<and> m \<notin> f ` set es"
  by (induction es arbitrary: coins) (auto simp: IsAvailable_Spend_n)

text \<open>The entries of one hash are the stretch of mapNextTx that pruneSpent walks over.\<close>

lemma stretch:
  assumes "sm_wf m"
  shows "set (takeWhile (\<lambda>e. outhash (fst e) = h) (sm_lower_bound \<lparr>outhash = h, outn = 0\<rparr> m)) =
    {e \<in> set m. outhash (fst e) = (h :: uint256)}"
  using assms
proof (induction m)
  case (Cons e m)
  let ?p = "\<lparr>outhash = h, outn = 0\<rparr> :: COutPoint"
  have IH: "set (takeWhile (\<lambda>e. outhash (fst e) = h) (sm_lower_bound ?p m)) = {e \<in> set m. outhash (fst e) = h}"
    using Cons by (simp add: sm_wf_Cons)
  have lt: "fst e < fst x" if "x \<in> set m" for x using Cons.prems that by (auto simp: sm_wf_Cons)
  consider "outhash (fst e) < h" | "outhash (fst e) = h" | "h < outhash (fst e)" by (metis linorder_cases)
  then show ?case
  proof cases
    case 1
    then have "fst e < ?p" by (simp add: less_COutPoint_ext_def)
    then show ?thesis using 1 IH by (auto simp: sm_lower_bound_def)
  next
    case 2
    then have "\<not> fst e < ?p" by (simp add: less_COutPoint_ext_def)
    moreover have "\<not> fst x < ?p" if "x \<in> set m" for x
      using lt [OF that] 2 by (auto simp: less_COutPoint_ext_def)
    then have "sm_lower_bound ?p m = m" by (simp add: sm_lower_bound_def dropWhile_eq_self_iff)
    ultimately show ?thesis using 2 IH by (auto simp: sm_lower_bound_def)
  next
    case 3
    then have "\<not> fst e < ?p" by (simp add: less_COutPoint_ext_def)
    moreover have "outhash (fst x) \<noteq> h" if "x \<in> set m" for x
      using lt [OF that] 3 by (auto simp: less_COutPoint_ext_def)
    ultimately show ?thesis using 3 by (auto simp: sm_lower_bound_def)
  qed
qed (simp add: sm_lower_bound_def)

lemma pruneSpent_available:
  assumes "pool_ok C mp"
  shows "IsAvailable (pruneSpent h coins mp) n \<longleftrightarrow>
    IsAvailable coins n \<and> (\<forall>t \<in> pool_txs mp. \<lparr>outhash = h, outn = n\<rparr> \<notin> prevout ` set (vin t))"
proof -
  have "n \<in> (\<lambda>e. outn (fst e)) ` {e \<in> set (mapNextTx mp). outhash (fst e) = h} \<longleftrightarrow>
      \<lparr>outhash = h, outn = n\<rparr> \<in> fst ` set (mapNextTx mp)"
  proof
    assume "n \<in> (\<lambda>e. outn (fst e)) ` {e \<in> set (mapNextTx mp). outhash (fst e) = h}"
    then obtain e where e: "e \<in> set (mapNextTx mp)" "outhash (fst e) = h" "outn (fst e) = n" by blast
    then have "fst e = \<lparr>outhash = h, outn = n\<rparr>" by (intro COutPoint.equality) simp_all
    with e(1) show "\<lparr>outhash = h, outn = n\<rparr> \<in> fst ` set (mapNextTx mp)" by (metis image_eqI)
  next
    assume "\<lparr>outhash = h, outn = n\<rparr> \<in> fst ` set (mapNextTx mp)"
    then obtain e where "e \<in> set (mapNextTx mp)" "fst e = \<lparr>outhash = h, outn = n\<rparr>" by auto
    then show "n \<in> (\<lambda>e. outn (fst e)) ` {e \<in> set (mapNextTx mp). outhash (fst e) = h}" by (intro image_eqI [of _ _ e]) auto
  qed
  then show ?thesis
    using unspent_iff [OF assms] stretch [OF pool_okD(5) [OF assms]]
    by (simp add: pruneSpent_def IsAvailable_fold_Spend_n map_of_eq_None_iff)
qed

end
