(* ===== verification/PoolAccept.thy ===== *)
theory PoolAccept
  imports MemPoolFacts
begin

text \<open>
  The pool as a state machine: what acceptance guarantees, the states the operations reach, and the pool
  after the best chain has changed.
\<close>

section \<open>What CheckInputs has checked\<close>

definition tip_of :: "coins_view \<Rightarrow> nat option \<times> nat option" where
  "tip_of v = (pindexTip v, base_best v)"

lemma FetchCoins_tip: "FetchCoins v t = (r, v') \<Longrightarrow> tip_of v' = tip_of v"
  by (auto simp: tip_of_def FetchCoins_def split: option.splits)

lemma GetCoins_tip: "GetCoins v t = Some (c, v') \<Longrightarrow> tip_of v' = tip_of v"
  by (auto simp: GetCoins_def split: option.splits prod.splits dest: FetchCoins_tip)

lemma GetOutputFor_tip: "GetOutputFor i v = Some (q, v') \<Longrightarrow> tip_of v' = tip_of v"
  by (auto simp: GetOutputFor_def split: option.splits if_splits dest: GetCoins_tip)

lemma have_txs_tip: "have_txs ins v = (ok, v') \<Longrightarrow> tip_of v' = tip_of v"
  by (induction ins arbitrary: v) (auto simp: HaveCoins_def split: prod.splits if_splits dest: FetchCoins_tip)

lemma have_outputs_tip: "have_outputs ins v = Some (ok, v') \<Longrightarrow> tip_of v' = tip_of v"
  by (induction ins arbitrary: v) (auto split: option.splits if_splits dest!: GetCoins_tip)

lemma HaveInputs_tip: "HaveInputs tx v = Some (ok, v') \<Longrightarrow> tip_of v' = tip_of v"
  by (auto simp: HaveInputs_def split: if_splits prod.splits dest!: have_txs_tip have_outputs_tip)

lemma value_in_loop_tip: "value_in_loop ins v acc = Some (r, v') \<Longrightarrow> tip_of v' = tip_of v"
  by (induction ins arbitrary: v acc) (auto split: option.splits dest!: GetOutputFor_tip)

lemma inputs_standard_same:
  "inputs_standard E tx ks v c = Some (ok, v', c') \<Longrightarrow> coins_at v' = coins_at v \<and> tip_of v' = tip_of v"
proof (induction ks arbitrary: v c)
  case (Cons k ks)
  obtain q w where q: "GetOutputFor (vin tx ! k) v = Some (q, w)" using Cons.prems by (auto split: option.splits)
  note w = GetOutputFor_Some [OF q, THEN conjunct1] GetOutputFor_tip [OF q]
  obtain ok1 c1 where i: "input_standard E tx k (scriptPubKey q) c = (ok1, c1)" by (rule prod.exhaust)
  show ?case using Cons.prems Cons.IH [of w c1] w by (cases ok1) (auto simp: q i)
qed simp

lemma have_outputs_True:
  "have_outputs ins v = Some (True, v') \<Longrightarrow> i \<in> set ins \<Longrightarrow>
    \<exists>c. coins_at v (outhash (prevout i)) = Some c \<and> IsAvailable c (outn (prevout i))"
proof (induction ins arbitrary: v)
  case (Cons j ins)
  from Cons.prems obtain c w where c: "GetCoins v (outhash (prevout j)) = Some (c, w)" "IsAvailable c (outn (prevout j))"
    "have_outputs ins w = Some (True, v')" by (auto split: option.splits if_splits)
  note s = GetCoins_Some [OF c(1)]
  show ?case
  proof (cases "i = j")
    case False
    then show ?thesis using Cons.IH [OF c(3)] Cons.prems(2) s by simp
  qed (use s c(2) in simp)
qed simp

lemma check_in_values_Inr:
  "check_in_values ins h v acc = (Inr r, v') \<Longrightarrow> i \<in> set ins \<Longrightarrow>
    \<exists>c. coins_at v (outhash (prevout i)) = Some c \<and> (fCoinBase c \<longrightarrow> COINBASE_MATURITY \<le> h - coins_nHeight c)"
proof (induction ins arbitrary: v acc)
  case (Cons j ins)
  from Cons.prems(1) obtain c w acc' where c: "GetCoins v (outhash (prevout j)) = Some (c, w)"
    "\<not> (fCoinBase c \<and> h - coins_nHeight c < COINBASE_MATURITY)" "check_in_values ins h w acc' = (Inr r, v')"
    by (auto simp: Let_def split: option.splits if_splits)
  note s = GetCoins_Some [OF c(1)]
  show ?case
  proof (cases "i = j")
    case False
    then show ?thesis using Cons.IH [OF c(3)] Cons.prems(2) s by simp
  qed (use s c(2) in auto)
qed simp

text \<open>
  That a script verifies: the interpreter answers true when every signature is checked with CPubKey_Verify,
  with no cache. While the cache is sound CScriptCheck decides that, and keeps it sound.
\<close>

definition script_verifies :: "'b env \<Rightarrow> CCoins \<Rightarrow> CTransaction \<Rightarrow> nat \<Rightarrow> u32 \<Rightarrow> bool" where
  "script_verifies E coins tx nIn flags \<longleftrightarrow>
     fst (VerifyScript (bn E) (hashes E) (plain_checker (signature_ok (hashes E) (ec E) tx nIn 0)) flags (scriptSig (vin tx ! nIn))
       (scriptPubKey (coins_vout coins ! unat (outn (prevout (vin tx ! nIn))))) sigcache_empty)"

abbreviation cache_sound :: "'b env \<Rightarrow> CSignatureCache \<Rightarrow> bool" where
  "cache_sound E c \<equiv> sigcache_sound (ec E) (maxsigcache E) c"

lemma CScriptCheck_sound:
  assumes "CScriptCheck E coins tx k flags c = (ok, c')" and "cache_sound E c"
  shows "ok = script_verifies E coins tx k flags" and "cache_sound E c'"
  using sig.VerifyScript_plain [OF assms(2)] assms(1) unfolding CScriptCheck_def script_verifies_def by (metis fst_conv snd_conv)+

lemma check_scripts_Accept:
  "check_scripts E tx flags ks v c = (r, v', c') \<Longrightarrow> cache_sound E c \<Longrightarrow> cache_sound E c' \<and> (r = Accept \<longrightarrow> (\<forall>k \<in> set ks.
    \<exists>coins. coins_at v (outhash (prevout (vin tx ! k))) = Some coins \<and> script_verifies E coins tx k flags))"
proof (induction ks arbitrary: v c)
  case (Cons j ks)
  show ?case
  proof (cases "GetCoins v (outhash (prevout (vin tx ! j)))")
    case (Some q)
    obtain coins w where q: "q = (coins, w)" by (rule prod.exhaust)
    obtain ok c1 where 1: "CScriptCheck E coins tx j flags c = (ok, c1)" by (rule prod.exhaust)
    obtain ok2 c2 where 2: "CScriptCheck E coins tx j (flags AND NOT SCRIPT_VERIFY_STRICTENC) c1 = (ok2, c2)" by (rule prod.exhaust)
    note s1 = CScriptCheck_sound [OF 1 Cons.prems(2)]
    note s2 = CScriptCheck_sound(2) [OF 2 s1(2)]
    note at = GetCoins_Some [OF Some [unfolded q]]
    show ?thesis
    proof (cases ok)
      case True
      then have "check_scripts E tx flags ks w c1 = (r, v', c')" using Cons.prems(1) Some q 1 by simp
      with Cons.IH [OF this s1(2)] show ?thesis using True s1(1) at by auto
    next
      case False
      then show ?thesis using Cons.prems(1) Some q 1 2 s1(2) s2 by (auto split: if_splits)
    qed
  qed (use Cons.prems in auto)
qed simp

lemma CheckInputs_sound:
  assumes "CheckInputs E heights tx v fScriptChecks flags c = (r, v', c')" and "cache_sound E c"
  shows "cache_sound E c'"
  using assms by (auto simp: CheckInputs_def Let_def split: if_splits option.splits prod.splits sum.splits dest!: check_scripts_Accept)

lemma input_standard_sound:
  assumes "input_standard E tx i prevScript c = (ok, c')" and "cache_sound E c"
  shows "cache_sound E c'"
proof -
  have "\<exists>b s d. EvalScript (bn E) (hashes E) (CheckSig (hashes E) (ec E) (randoms E) (maxsigcache E) tx i 0 0) 0 []
      (scriptSig (vin tx ! i)) c = (b, s, d) \<and> cache_sound E d" using sig.EvalScript_plain [OF assms(2)] by blast
  then show ?thesis using assms by (auto simp: input_standard_def Let_def split: prod.splits if_splits)
qed

lemma inputs_standard_sound:
  "inputs_standard E tx ks v c = Some (ok, v', c') \<Longrightarrow> cache_sound E c \<Longrightarrow> cache_sound E c'"
proof (induction ks arbitrary: v c)
  case (Cons k ks)
  then show ?case by (auto split: option.splits prod.splits if_splits dest: input_standard_sound)
qed simp

lemma accept_inputs_sound:
  assumes "accept_inputs E P heights coinsTip best tx fLimitFree limiter mp c = (r, c')" and "cache_sound E c"
  shows "cache_sound E c'"
  using assms unfolding accept_inputs_def AreInputsStandard_def Let_def
  by (auto split: if_splits option.splits prod.splits dest!: inputs_standard_sound CheckInputs_sound)

lemma CheckInputs_Accept:
  assumes "CheckInputs E heights tx v True flags c = (Accept, v', c')" and "\<not> IsCoinBase tx" and "pindexTip v = Some t"
    and "k < length (vin tx)" and "cache_sound E c"
  obtains coins where "coins_at v (outhash (prevout (vin tx ! k))) = Some coins"
    and "IsAvailable coins (outn (prevout (vin tx ! k)))"
    and "fCoinBase coins \<longrightarrow> COINBASE_MATURITY \<le> heights t + 1 - coins_nHeight coins"
    and "script_verifies E coins tx k flags"
proof -
  from assms(1,2) obtain v1 v2 p v3 nin out where 1: "HaveInputs tx v = Some (True, v1)"
    and 2: "GetBestBlock v1 = (Some p, v2)" and 3: "check_in_values (vin tx) (heights p + 1) v2 0 = (Inr nin, v3)"
    and 4: "check_scripts E tx flags [0..<length (vin tx)] v3 c = (Accept, v', c')"
    by (auto simp: CheckInputs_def Let_def split: if_splits option.splits prod.splits sum.splits dest: check_in_values_Inl)
  have at: "coins_at v1 = coins_at v" "coins_at v2 = coins_at v" "coins_at v3 = coins_at v"
    using HaveInputs_same [OF 1] GetBestBlock_same [OF 2] check_in_values_same [OF 3] by simp_all
  have p: "p = t" using 2 HaveInputs_tip [OF 1] assms(3) by (auto simp: GetBestBlock_def Let_def tip_of_def)
  have i: "vin tx ! k \<in> set (vin tx)" "k \<in> set [0..<length (vin tx)]" using assms(4) by auto
  obtain v0 where "have_outputs (vin tx) v0 = Some (True, v1)" "coins_at v0 = coins_at v"
    using 1 assms(2) by (auto simp: HaveInputs_def split: if_splits prod.splits dest: have_txs_same)
  moreover have "\<exists>coins. coins_at v3 (outhash (prevout (vin tx ! k))) = Some coins \<and> script_verifies E coins tx k flags"
    using check_scripts_Accept [OF 4 assms(5)] i(2) by blast
  ultimately show ?thesis using have_outputs_True [of "vin tx" v0 v1, OF _ i(1)] check_in_values_Inr [OF 3 i(1)]
    that by (auto simp: at p)
qed

section \<open>What acceptance means\<close>

lemma SetBackend_dummy_coins: "coins_at (SetBackend_dummy v) t = Some c \<Longrightarrow> coins_at v t = Some c"
  by (auto simp: SetBackend_dummy_def coins_at_def split: option.splits)

lemma accept_inputs_Accepted:
  assumes "accept_inputs E P heights coinsTip best tx fLimitFree limiter mp c = (Accepted, c')"
    and "\<not> IsCoinBase tx" and "best = Some t" and "cache_sound E c"
  obtains w nout where "\<And>h coins. coins_at w h = Some coins \<Longrightarrow> pool_GetCoins coinsTip mp h = Some coins"
    and "pool_GetCoins coinsTip mp (tx_hash (hashes E) tx) = None"
    and "GetValueOut tx = Some nout"
    and "fLimitFree \<Longrightarrow> GetMinFee (min_tx_fee P) (min_relay_fee P) tx 1000 True GMF_RELAY \<le> (\<Sum>i\<leftarrow>vin tx. spent_value w i) - nout"
    and "\<And>k. k < length (vin tx) \<Longrightarrow> \<exists>coins. coins_at w (outhash (prevout (vin tx ! k))) = Some coins
      \<and> IsAvailable coins (outn (prevout (vin tx ! k)))
      \<and> (fCoinBase coins \<longrightarrow> COINBASE_MATURITY \<le> heights t + 1 - coins_nHeight coins)
      \<and> script_verifies E coins tx k (SCRIPT_VERIFY_P2SH OR SCRIPT_VERIFY_STRICTENC)"
proof -
  let ?f = "pool_GetCoins coinsTip mp" and ?flags = "SCRIPT_VERIFY_P2SH OR SCRIPT_VERIFY_STRICTENC"
  let ?v0 = "CCoinsViewCache ?f best" and ?h = "tx_hash (hashes E) tx"
  from assms(1) obtain v1 v2 v3 v4 c1 nin v5 nout v6 c2 where 0: "HaveCoins ?v0 ?h = (False, v1)"
    and 1: "have_txs (vin tx) v1 = (True, v2)" and 2: "HaveInputs tx v2 = Some (True, v3)"
    and 3: "AreInputsStandard E tx (SetBackend_dummy (snd (GetBestBlock v3))) c = Some (c2, v4, c1)"
    and 4: "GetValueIn tx v4 = Some (nin, v5)" and 5: "GetValueOut tx = Some nout"
    and 6: "fLimitFree \<longrightarrow> GetMinFee (min_tx_fee P) (min_relay_fee P) tx 1000 True GMF_RELAY \<le> nin - nout"
    and 7: "CheckInputs E heights tx v5 True ?flags c1 = (Accept, v6, c')"
    by (auto simp: accept_inputs_def Let_def split: if_splits option.splits prod.splits)
  let ?w = "SetBackend_dummy (snd (GetBestBlock v3))"
  have v0: "coins_at ?v0 = ?f" "pindexTip ?v0 = None" "base_best ?v0 = best"
    by (simp_all add: CCoinsViewCache_def coins_at_def fun_eq_iff)
  obtain r where r: "FetchCoins ?v0 ?h = (r, v1)" "r = None" using 0 by (auto simp: HaveCoins_def split: prod.splits)
  have v1: "coins_at v1 = ?f" and new: "?f ?h = None"
    using cache.fetch_same [of ?v0 ?h] cache.fetch_value [of ?v0 ?h] r v0(1) by simp_all
  have v3: "coins_at v3 = ?f" using v1 have_txs_same [OF 1] HaveInputs_same [OF 2] by simp
  have "coins_at (snd (GetBestBlock v3)) = ?f" using v3 GetBestBlock_same [of v3] by (cases "GetBestBlock v3") simp
  then have w: "?f h = Some coins" if "coins_at ?w h = Some coins" for h coins
    using SetBackend_dummy_coins [OF that] by simp
  have "inputs_standard E tx [0..<length (vin tx)] ?w c = Some (c2, v4, c1)" using 3 assms(2) by (simp add: AreInputsStandard_def)
  note c1 = inputs_standard_sound [OF this assms(4)]
  from inputs_standard_same [OF \<open>inputs_standard E tx [0..<length (vin tx)] ?w c = Some (c2, v4, c1)\<close>] have v4: "coins_at v4 = coins_at ?w" "tip_of v4 = tip_of ?w" by simp_all
  have v5: "coins_at v5 = coins_at ?w" "tip_of v5 = tip_of ?w" "nin = (\<Sum>i\<leftarrow>vin tx. spent_value v4 i)"
    using 4 assms(2) v4 value_in_loop_Some [of "vin tx" v4 0 nin v5] value_in_loop_tip [of "vin tx" v4 0 nin v5]
    by (simp_all add: GetValueIn_def)
  have tip: "pindexTip v5 = Some t"
  proof -
    have "tip_of v3 = (None, Some t)"
      using v0 assms(3) FetchCoins_tip [OF r(1)] have_txs_tip [OF 1] HaveInputs_tip [OF 2] by (simp add: tip_of_def)
    then show ?thesis using v5(2) by (simp add: tip_of_def GetBestBlock_def SetBackend_dummy_def Let_def)
  qed
  show ?thesis
  proof (rule that [of ?w nout])
    show "?f h = Some coins" if "coins_at ?w h = Some coins" for h coins using that by (rule w)
    show "GetMinFee (min_tx_fee P) (min_relay_fee P) tx 1000 True GMF_RELAY \<le> (\<Sum>i\<leftarrow>vin tx. spent_value ?w i) - nout"
      if fLimitFree using 6 that v5(3) spent_value_cong [OF v4(1)] by simp
    show "\<exists>coins. coins_at ?w (outhash (prevout (vin tx ! k))) = Some coins
      \<and> IsAvailable coins (outn (prevout (vin tx ! k)))
      \<and> (fCoinBase coins \<longrightarrow> COINBASE_MATURITY \<le> heights t + 1 - coins_nHeight coins)
      \<and> script_verifies E coins tx k ?flags" if "k < length (vin tx)" for k
      by (rule CheckInputs_Accept [OF 7 assms(2) tip that c1]) (auto simp: v5(1))
  qed (fact new 5)+
qed

lemma pool_accept_cases:
  assumes "pool_accept E P heights coinsTip best tx fCheckInputs fLimitFree limiter mp c = (r, mp', c')"
  shows "r \<noteq> Accepted \<and> mp' = mp \<or>
    r = Accepted \<and> mp' = addUnchecked (tx_hash (hashes E) tx) tx mp \<and> CheckTransaction tx = Accept \<and> \<not> IsCoinBase tx
      \<and> map_of (mapTx mp) (tx_hash (hashes E) tx) = None \<and> (\<forall>i \<in> set (vin tx). map_of (mapNextTx mp) (prevout i) = None)
      \<and> (fCheckInputs \<longrightarrow> accept_inputs E P heights coinsTip best tx fLimitFree limiter mp c = (Accepted, c'))"
  using assms by (auto simp: pool_accept_def exists_tx_def list_ex_iff split: if_splits prod.splits)

lemma pool_accept_sound:
  assumes "pool_accept E P heights coinsTip best tx fCheckInputs fLimitFree limiter mp c = (r, mp', c')" and "cache_sound E c"
  shows "cache_sound E c'"
  using assms by (auto simp: pool_accept_def split: if_splits prod.splits dest: accept_inputs_sound)

lemma pool_accept_ok:
  assumes "pool_accept E P heights coinsTip best tx fCheckInputs fLimitFree limiter mp c = (r, mp', c')"
    and "pool_ok (hashes E) mp"
  shows "pool_ok (hashes E) mp'" and "pool_txs mp' = (if r = Accepted then insert tx (pool_txs mp) else pool_txs mp)"
    and "r = Accepted \<Longrightarrow> tx \<notin> pool_txs mp"
proof -
  have d: "distinct (map prevout (vin tx))" if "CheckTransaction tx = Accept"
    using that check_duplicates_iff [of "vin tx" "[]"] by (auto simp: CheckTransaction_def split: if_splits)
  show "pool_ok (hashes E) mp'" "pool_txs mp' = (if r = Accepted then insert tx (pool_txs mp) else pool_txs mp)"
    using pool_accept_cases [OF assms(1)] addUnchecked_ok [OF assms(2) _ _ d] assms(2) by auto
  show "r = Accepted \<Longrightarrow> tx \<notin> pool_txs mp"
    using pool_accept_cases [OF assms(1)] pool_txs_iff [OF assms(2), of tx] by auto
qed

section \<open>When the best chain changes\<close>

lemma resurrect_ok:
  "tx_graph_ok (hashes E) W \<Longrightarrow> set txs \<subseteq> W \<Longrightarrow> pool_ok (hashes E) mp \<Longrightarrow> pool_txs mp \<subseteq> W \<Longrightarrow>
    \<exists>mp' c'. resurrect E P heights coinsTip best txs mp c = Some (mp', c') \<and> pool_ok (hashes E) mp' \<and> pool_txs mp' \<subseteq> W"
proof (induction txs arbitrary: mp c)
  case (Cons tx txs)
  obtain r mp1 c1 where a: "pool_accept E P heights coinsTip best tx True False False mp c = (r, mp1, c1)" by (rule prod_cases3)
  note ok = pool_accept_ok [OF a Cons.prems(3)]
  have W1: "insert tx (pool_txs mp1) \<subseteq> W" using ok(2) Cons.prems(2,4) by auto
  show ?case
  proof (cases "r = Accepted")
    case True
    then show ?thesis using Cons.IH [OF Cons.prems(1) _ ok(1)] W1 Cons.prems(2) a by simp
  next
    case False
    obtain mp2 where "pool_remove (hashes E) tx True mp1 = Some mp2" "pool_ok (hashes E) mp2" "pool_txs mp2 \<subseteq> pool_txs mp1"
      using remove_rec [OF ok(1) tx_graph_ok_subset [OF Cons.prems(1) W1]] by blast
    then show ?thesis using Cons.IH [OF Cons.prems(1), of mp2 c1] W1 Cons.prems(2) a False by auto
  qed
qed simp

lemma delete_redundant_ok:
  "tx_graph_ok C W \<Longrightarrow> set txs \<subseteq> W \<Longrightarrow> pool_ok C mp \<Longrightarrow> pool_txs mp \<subseteq> W \<Longrightarrow>
    \<exists>mp'. delete_redundant C txs mp = Some mp' \<and> pool_ok C mp' \<and> pool_txs mp' \<subseteq> pool_txs mp
      \<and> (\<forall>t \<in> set txs. \<forall>b \<in> pool_txs mp'. b \<noteq> t \<and> prevout ` set (vin t) \<inter> prevout ` set (vin b) = {})"
proof (induction txs arbitrary: mp)
  case (Cons tx txs)
  let ?mp1 = "erase_tx C tx mp"
  have W: "insert tx (pool_txs mp) \<subseteq> W" using Cons.prems(2,4) by auto
  have "inj_on (tx_hash C) (insert tx (pool_txs mp))"
    using tx_graph_ok_subset [OF Cons.prems(1) W] by (simp add: tx_graph_ok_def)
  note e = remove_one [OF Cons.prems(3) this]
  have "tx_graph_ok C (pool_txs ?mp1)" using W e(2) by (intro tx_graph_ok_subset [OF Cons.prems(1)]) auto
  from remove_conflicts_spec [OF e(1) this] obtain mp2 where m2: "removeConflicts C tx ?mp1 = Some mp2" "pool_ok C mp2"
    "pool_txs mp2 = pool_txs ?mp1 - \<Union> (descendants C (pool_txs ?mp1) ` conflicting tx (vin tx) (pool_txs ?mp1))"
    unfolding removeConflicts_def by blast
  have free: "b \<noteq> tx \<and> prevout ` set (vin tx) \<inter> prevout ` set (vin b) = {}" if "b \<in> pool_txs mp2" for b
  proof -
    from that have "b \<in> pool_txs ?mp1" "b \<notin> conflicting tx (vin tx) (pool_txs ?mp1)"
      unfolding m2(3) using descendants_self [of _ C "pool_txs ?mp1"] by blast+
    then show ?thesis using e(2) by (auto simp: conflicting_def)
  qed
  have "pool_txs mp2 \<subseteq> pool_txs mp" using m2(3) e(2) by auto
  then show ?case
    using Cons.IH [OF Cons.prems(1) _ m2(2)] Cons.prems(2,4) m2(1) free by (fastforce simp: pool_remove_def)
qed simp

lemma update_pool_ok:
  assumes "tx_graph_ok (hashes E) W" "set vResurrect \<subseteq> W" "set vDelete \<subseteq> W" "pool_ok (hashes E) mp" "pool_txs mp \<subseteq> W"
  shows "\<exists>mp' c'. update_pool E P heights coinsTip best vResurrect vDelete mp c = Some (mp', c')
    \<and> pool_ok (hashes E) mp' \<and> pool_txs mp' \<subseteq> W
    \<and> (\<forall>t \<in> set vDelete. \<forall>b \<in> pool_txs mp'. b \<noteq> t \<and> prevout ` set (vin t) \<inter> prevout ` set (vin b) = {})"
proof -
  obtain mp1 c1 where 1: "resurrect E P heights coinsTip best vResurrect mp c = Some (mp1, c1)"
    "pool_ok (hashes E) mp1" "pool_txs mp1 \<subseteq> W" using resurrect_ok [OF assms(1,2,4,5)] by blast
  from delete_redundant_ok [OF assms(1,3) 1(2,3)] obtain mp2 where
    2: "delete_redundant (hashes E) vDelete mp1 = Some mp2" "pool_ok (hashes E) mp2" "pool_txs mp2 \<subseteq> pool_txs mp1"
    "\<forall>t \<in> set vDelete. \<forall>b \<in> pool_txs mp2. b \<noteq> t \<and> prevout ` set (vin t) \<inter> prevout ` set (vin b) = {}" by blast
  then show ?thesis using 1 by (intro exI [of _ mp2] exI [of _ c1]) (auto simp: update_pool_def)
qed

section \<open>The states of the pool\<close>

text \<open>
  What the program does with its pool: it offers transactions to accept, removes them (alone or with those
  that depend on them), removes conflicts, updates it when the best chain has changed, and clears it.
\<close>

inductive pool_reachable :: "'b env \<Rightarrow> CTransaction set \<Rightarrow> CTxMemPool \<Rightarrow> bool" for E W where
  empty: "pool_reachable E W empty_pool"
| accept: "pool_reachable E W mp \<Longrightarrow> tx \<in> W
    \<Longrightarrow> pool_accept E P heights coinsTip best tx fCheckInputs fLimitFree limiter mp c = (r, mp', c') \<Longrightarrow> pool_reachable E W mp'"
| remove: "pool_reachable E W mp \<Longrightarrow> tx \<in> W \<Longrightarrow> pool_remove (hashes E) tx fRecursive mp = Some mp' \<Longrightarrow> pool_reachable E W mp'"
| conflicts: "pool_reachable E W mp \<Longrightarrow> tx \<in> W \<Longrightarrow> removeConflicts (hashes E) tx mp = Some mp' \<Longrightarrow> pool_reachable E W mp'"
| update: "pool_reachable E W mp \<Longrightarrow> set vResurrect \<subseteq> W \<Longrightarrow> set vDelete \<subseteq> W
    \<Longrightarrow> update_pool E P heights coinsTip best vResurrect vDelete mp c = Some (mp', c') \<Longrightarrow> pool_reachable E W mp'"
| clear: "pool_reachable E W mp \<Longrightarrow> pool_reachable E W (pool_clear mp)"

lemma pool_remove_ok:
  assumes "tx_graph_ok C W" "tx \<in> W" "pool_ok C mp" "pool_txs mp \<subseteq> W"
  shows "\<exists>mp'. pool_remove C tx fRecursive mp = Some mp' \<and> pool_ok C mp' \<and> pool_txs mp' \<subseteq> pool_txs mp"
proof -
  have g: "tx_graph_ok C (insert tx (pool_txs mp))" using assms by (intro tx_graph_ok_subset [OF assms(1)]) auto
  show ?thesis
  proof (cases fRecursive)
    case True
    then show ?thesis using remove_rec [OF assms(3) g] by auto
  next
    case False
    then show ?thesis using remove_one [OF assms(3)] g by (auto simp: pool_remove_def tx_graph_ok_def)
  qed
qed

lemma removeConflicts_ok:
  assumes "tx_graph_ok C W" "pool_ok C mp" "pool_txs mp \<subseteq> W"
  shows "\<exists>mp'. removeConflicts C tx mp = Some mp' \<and> pool_ok C mp' \<and> pool_txs mp' \<subseteq> pool_txs mp"
  using remove_conflicts_spec [OF assms(2) tx_graph_ok_subset [OF assms(1,3)]] by (fastforce simp: removeConflicts_def)

lemma pool_reachable_ok:
  assumes "pool_reachable E W mp" and "tx_graph_ok (hashes E) W"
  shows "pool_ok (hashes E) mp \<and> pool_txs mp \<subseteq> W"
  using assms
proof (induction rule: pool_reachable.induct)
  case empty
  then show ?case by (simp add: empty_pool_ok) (simp add: pool_txs_def empty_pool_def)
next
  case (accept mp tx P heights coinsTip best fCheckInputs fLimitFree limiter c r mp' c')
  then show ?case using pool_accept_ok [OF accept(3)] by (auto split: if_splits)
next
  case (remove mp tx fRecursive mp')
  then show ?case using pool_remove_ok [of "hashes E" W tx mp fRecursive] by auto
next
  case (conflicts mp tx mp')
  then show ?case using removeConflicts_ok [of "hashes E" W mp tx] by auto
next
  case (update mp vResurrect vDelete P heights coinsTip best c mp' c')
  then show ?case using update_pool_ok [of E W vResurrect vDelete mp P heights coinsTip best c] by auto
next
  case (clear mp)
  then show ?case by (simp add: pool_clear_ok) (simp add: pool_txs_def pool_clear_def)
qed

section \<open>Properties\<close>

text \<open>
  C13: An accepted transaction can be put into a block on the best chain with the pool. When accept with
  checked inputs answers true and the cache of signatures was sound, as it is from the start, the transaction
  was unknown, each of its inputs spends an output that the coin database or the pool has and no pool
  transaction spends, coinbases among them are mature, every script verifies with each of its signatures
  checked against the key and no cache at all, and the pool has exactly this transaction more; in every other
  case the pool is as before. The cache stays sound.
\<close>

theorem accept_sound:
  assumes "pool_ok (hashes E) mp" and "sigcache_sound (ec E) (maxsigcache E) c"
    and "pool_accept E P heights coinsTip (Some t) tx True fLimitFree limiter mp c = (r, mp', c')"
  shows "sigcache_sound (ec E) (maxsigcache E) c' \<and> (if r = Accepted
    then pool_ok (hashes E) mp' \<and> pool_txs mp' = insert tx (pool_txs mp) \<and> tx \<notin> pool_txs mp
      \<and> pool_GetCoins coinsTip mp (tx_hash (hashes E) tx) = None
      \<and> (\<forall>k < length (vin tx). (\<exists>coins. pool_GetCoins coinsTip mp (outhash (prevout (vin tx ! k))) = Some coins
            \<and> IsAvailable coins (outn (prevout (vin tx ! k)))
            \<and> (fCoinBase coins \<longrightarrow> COINBASE_MATURITY \<le> heights t + 1 - coins_nHeight coins)
            \<and> script_verifies E coins tx k (SCRIPT_VERIFY_P2SH OR SCRIPT_VERIFY_STRICTENC))
          \<and> (\<forall>b \<in> pool_txs mp. prevout (vin tx ! k) \<notin> prevout ` set (vin b)))
    else mp' = mp)"
proof (cases "r = Accepted")
  case True
  note ok = pool_accept_ok [OF assms(3,1)]
  from pool_accept_cases [OF assms(3)] True have a: "\<not> IsCoinBase tx"
    "accept_inputs E P heights coinsTip (Some t) tx fLimitFree limiter mp c = (Accepted, c')"
    and free: "\<forall>i \<in> set (vin tx). map_of (mapNextTx mp) (prevout i) = None" by auto
  have free': "\<forall>b \<in> pool_txs mp. prevout (vin tx ! k) \<notin> prevout ` set (vin b)" if "k < length (vin tx)" for k
    using free unspent_iff [OF assms(1), of "prevout (vin tx ! k)"] that by simp
  note c' = accept_inputs_sound [OF a(2) assms(2)]
  show ?thesis
    by (rule accept_inputs_Accepted [OF a(2,1) refl assms(2)]) (use True ok free' c' in \<open>simp, blast\<close>)
next
  case False
  then show ?thesis using pool_accept_cases [OF assms(3)] pool_accept_sound [OF assms(3,2)] by simp
qed

text \<open>
  C15: Recursive removal takes out a transaction with everything that depends on it and nothing else, and it
  returns, on every pool whose transactions have no colliding hashes and no circle of spending.
\<close>

theorem remove_takes_descendants:
  assumes "pool_ok C mp" and "tx_graph_ok C (insert tx (pool_txs mp))"
  shows "\<exists>mp'. pool_remove C tx True mp = Some mp' \<and> pool_ok C mp'
    \<and> pool_txs mp' = pool_txs mp - descendants C (pool_txs mp) tx"
  by (rule remove_rec [OF assms])

text \<open>
  C14: In every state the pool reaches, mapNextTx is the exact inverse of the inputs of the transactions, no
  two of them spend the same output, and removing a transaction, its conflicts, or the transactions of a new
  best chain returns: no pointer leads to an erased entry and no recursion runs forever.
\<close>

theorem pool_invariant:
  assumes "pool_reachable E W mp" and "tx_graph_ok (hashes E) W" and "tx \<in> W"
  shows "pool_ok (hashes E) mp
    \<and> (\<forall>a \<in> pool_txs mp. \<forall>b \<in> pool_txs mp. a \<noteq> b \<longrightarrow> prevout ` set (vin a) \<inter> prevout ` set (vin b) = {})
    \<and> pool_remove (hashes E) tx fRecursive mp \<noteq> None \<and> removeConflicts (hashes E) tx mp \<noteq> None"
proof -
  have ok: "pool_ok (hashes E) mp" "pool_txs mp \<subseteq> W" using pool_reachable_ok [OF assms(1,2)] by blast+
  then show ?thesis
    using no_double_spend [OF ok(1)] pool_remove_ok [OF assms(2,3) ok, of fRecursive] removeConflicts_ok [OF assms(2) ok, of tx]
    by blast
qed

text \<open>
  After the best chain has changed, the pool agrees with it: the update returns, and no transaction left
  in the pool is one of the connected blocks or spends an output that one of theirs spends.
\<close>

theorem update_leaves_no_conflict:
  assumes "pool_reachable E W mp" and "tx_graph_ok (hashes E) W" and "set vResurrect \<subseteq> W" and "set vDelete \<subseteq> W"
  shows "\<exists>mp' c'. update_pool E P heights coinsTip best vResurrect vDelete mp c = Some (mp', c')
    \<and> pool_reachable E W mp'
    \<and> (\<forall>t \<in> set vDelete. \<forall>b \<in> pool_txs mp'. b \<noteq> t \<and> prevout ` set (vin t) \<inter> prevout ` set (vin b) = {})"
proof -
  have "pool_ok (hashes E) mp" "pool_txs mp \<subseteq> W" using pool_reachable_ok [OF assms(1,2)] by blast+
  from update_pool_ok [OF assms(2-4) this] pool_reachable.update [OF assms(1,3,4)] show ?thesis by metis
qed

text \<open>
  PruneSpent takes out of the coins of a transaction exactly the outputs that transactions of the pool
  spend.
\<close>

theorem pruneSpent_exact:
  assumes "pool_ok C mp"
  shows "IsAvailable (pruneSpent h coins mp) n \<longleftrightarrow>
    IsAvailable coins n \<and> (\<forall>t \<in> pool_txs mp. \<lparr>outhash = h, outn = n\<rparr> \<notin> prevout ` set (vin t))"
  by (rule pruneSpent_available [OF assms])

section \<open>Examples\<close>

definition pool_env :: "int env" where
  "pool_env = toy_env\<lparr>hashes := plain_crypto\<rparr>"

definition child_tx :: CTransaction where
  "child_tx = \<lparr>nVersion = 2, vin = [\<lparr>prevout = \<lparr>outhash = tx_hash plain_crypto sample_tx, outn = 0\<rparr>, scriptSig = [], nSequence = - 1\<rparr>],
     vout = [\<lparr>nValue = 4, scriptPubKey = [0x51]\<rparr>], nLockTime = 0\<rparr>"

definition open_policy :: policy where
  "open_policy = \<lparr>fTestNet = True, best_height = 9, adjusted_time = 0, min_tx_fee = 0, min_relay_fee = 0\<rparr>"

definition two_pool :: CTxMemPool where
  "two_pool = addUnchecked (tx_hash plain_crypto child_tx) child_tx (addUnchecked (tx_hash plain_crypto sample_tx) sample_tx empty_pool)"

text \<open>The hashes of the examples differ in their first byte, the version.\<close>

lemma example_hashes:
  "ucast (tx_hash plain_crypto sample_tx) = (1 :: byte)" "ucast (tx_hash plain_crypto child_tx) = (2 :: byte)"
proof -
  have "ser_int 1 = [1, 0, 0, 0]" "ser_int 2 = [2, 0, 0, 0]" by code_simp+
  then show "ucast (tx_hash plain_crypto sample_tx) = (1 :: byte)" "ucast (tx_hash plain_crypto child_tx) = (2 :: byte)"
    by (simp_all add: tx_hash_def Hash_bytes_def plain_crypto_def ser_tx_def sample_tx_def child_tx_def ucast_u256_of_bytes)
qed

lemma example_fields:
  "vin sample_tx = [\<lparr>prevout = \<lparr>outhash = 7, outn = 0\<rparr>, scriptSig = [1, 2], nSequence = - 1\<rparr>]"
  "vin child_tx = [\<lparr>prevout = \<lparr>outhash = tx_hash plain_crypto sample_tx, outn = 0\<rparr>, scriptSig = [], nSequence = - 1\<rparr>]"
  "nLockTime sample_tx = 0" "nLockTime child_tx = 0"
  by (simp_all add: sample_tx_def child_tx_def)

lemma example_distinct:
  "tx_hash plain_crypto sample_tx \<noteq> tx_hash plain_crypto child_tx" "tx_hash plain_crypto sample_tx \<noteq> 7"
  "tx_hash plain_crypto child_tx \<noteq> 7" "sample_tx \<noteq> child_tx"
  using example_hashes by (auto simp: sample_tx_def child_tx_def)

lemma example_spends:
  "spends plain_crypto b a i \<longleftrightarrow> a = sample_tx \<and> b = child_tx \<and> word_of_nat i = (0 :: u32)"
  if "a \<in> {sample_tx, child_tx}" "b \<in> {sample_tx, child_tx}"
  using that example_distinct by (auto simp: spends_def example_fields)

lemma example_graph: "tx_graph_ok plain_crypto {sample_tx, child_tx}"
proof -
  have "acyclic {(sample_tx, child_tx)}" using example_distinct(4) by (intro acyclicI) (auto simp: trancl_insert)
  then have "acyclic {(a, b). a \<in> {sample_tx, child_tx} \<and> (a, b) \<in> edges plain_crypto {sample_tx, child_tx}}"
    by (rule acyclic_subset) (use example_spends in \<open>unfold edges_def, blast\<close>)
  then show ?thesis using example_distinct(1) by (auto simp: tx_graph_ok_def)
qed

lemma two_pool_reachable: "pool_reachable pool_env {sample_tx, child_tx} two_pool"
proof -
  let ?W = "{sample_tx, child_tx}" and ?mp = "addUnchecked (tx_hash plain_crypto sample_tx) sample_tx empty_pool"
  have ok: "CheckTransaction sample_tx = Accept" "CheckTransaction child_tx = Accept" "\<not> IsCoinBase sample_tx" "\<not> IsCoinBase child_tx"
    by (simp_all add: CheckTransaction_def sample_tx_def child_tx_def size_tx_def size_vec_def GetSizeOfCompactSize_def
        size_txin_def size_txout_def size_bytes_def MAX_BLOCK_SIZE_def MoneyRange_def MAX_MONEY_def COIN_def IsCoinBase_def COutPoint_IsNull_def)
  have "pool_accept pool_env open_policy (\<lambda>_. 0) (\<lambda>_. None) None sample_tx False False False empty_pool sigcache_empty =
      (Accepted, ?mp, sigcache_empty)"
    using ok by (simp add: pool_accept_def open_policy_def exists_tx_def empty_pool_def pool_env_def toy_env_def example_fields)
  then have 1: "pool_reachable pool_env ?W ?mp" by (rule pool_reachable.accept [OF pool_reachable.empty, rotated]) simp
  have "pool_accept pool_env open_policy (\<lambda>_. 0) (\<lambda>_. None) None child_tx False False False ?mp sigcache_empty =
      (Accepted, two_pool, sigcache_empty)"
    using ok example_distinct
    by (simp add: pool_accept_def open_policy_def exists_tx_def two_pool_def pool_env_def toy_env_def addUnchecked_def empty_pool_def example_fields)
  then show ?thesis by (rule pool_reachable.accept [OF 1, rotated]) simp
qed

lemma two_pool_ok: "pool_ok plain_crypto two_pool" "pool_txs two_pool = {sample_tx, child_tx}"
proof -
  show "pool_ok plain_crypto two_pool"
    using pool_reachable_ok [OF two_pool_reachable] example_graph by (simp add: pool_env_def)
  show "pool_txs two_pool = {sample_tx, child_tx}"
    using example_distinct by (auto simp: pool_txs_def two_pool_def addUnchecked_def empty_pool_def ran_def)
qed

theorem remove_takes_descendants_witness:
  "\<exists>mp'. pool_remove plain_crypto sample_tx True two_pool = Some mp' \<and> pool_txs mp' = {}"
proof -
  have "(sample_tx, child_tx) \<in> edges plain_crypto {sample_tx, child_tx}"
    using example_spends [of sample_tx child_tx 0] by (auto simp: edges_def sample_tx_def)
  then have "{sample_tx, child_tx} \<subseteq> descendants plain_crypto {sample_tx, child_tx} sample_tx"
    by (auto simp: descendants_def)
  then show ?thesis
    using remove_takes_descendants [OF two_pool_ok(1), of sample_tx] two_pool_ok(2) example_graph by (auto simp: insert_absorb)
qed

theorem pool_invariant_witness:
  "pool_ok plain_crypto two_pool \<and> removeConflicts plain_crypto child_tx two_pool \<noteq> None"
  using pool_invariant [OF two_pool_reachable, of child_tx] example_graph by (simp add: pool_env_def)

theorem update_leaves_no_conflict_witness:
  "\<exists>mp' c'. update_pool pool_env open_policy (\<lambda>_. 0) (\<lambda>_. None) None [] [child_tx] two_pool sigcache_empty = Some (mp', c')
    \<and> child_tx \<notin> pool_txs mp'"
  using update_leaves_no_conflict [OF two_pool_reachable, of "[]" "[child_tx]" open_policy "\<lambda>_. 0" "\<lambda>_. None" None sigcache_empty]
    example_graph by (auto simp: pool_env_def)

theorem pruneSpent_exact_witness:
  "\<not> IsAvailable (pruneSpent 7 \<lparr>fCoinBase = False, coins_vout = [\<lparr>nValue = 9, scriptPubKey = []\<rparr>], coins_nHeight = 5, coins_nVersion = 1\<rparr>
      two_pool) 0"
  using pruneSpent_exact [OF two_pool_ok(1)] two_pool_ok(2) by (simp add: example_fields)

definition paid_coins :: "uint256 \<Rightarrow> CCoins option" where
  "paid_coins h = (if h = 7 then Some \<lparr>fCoinBase = False, coins_vout = [\<lparr>nValue = 9, scriptPubKey = [0x51]\<rparr>], coins_nHeight = 5,
     coins_nVersion = 1\<rparr> else None)"

lemma paid_script:
  "VerifyScript int_bn plain_crypto (CheckSig plain_crypto ec_plain (\<lambda>k. 0) 0 sample_tx 0 0
      (SCRIPT_VERIFY_P2SH OR SCRIPT_VERIFY_STRICTENC)) (SCRIPT_VERIFY_P2SH OR SCRIPT_VERIFY_STRICTENC) [1, 2] [0x51] sigcache_empty
    = (True, sigcache_empty)"
  by code_simp

lemma paid_standard:
  "input_standard pool_env sample_tx 0 [0x51] sigcache_empty = (False, sigcache_empty)"
  by code_simp

lemma paid_accept:
  "pool_accept pool_env open_policy (\<lambda>_. 9) paid_coins (Some 1) sample_tx True fLimitFree limiter empty_pool sigcache_empty
    = (Accepted, addUnchecked (tx_hash plain_crypto sample_tx) sample_tx empty_pool, sigcache_empty)"
proof -
  let ?c = "\<lparr>fCoinBase = False, coins_vout = [\<lparr>nValue = 9, scriptPubKey = [0x51]\<rparr>], coins_nHeight = 5, coins_nVersion = 1\<rparr>"
  let ?v = "\<lambda>f b p. \<lparr>base = f, cacheCoins = [(7, ?c)], pindexTip = p, base_best = b\<rparr>"
  have base: "pool_GetCoins paid_coins empty_pool = paid_coins"
    by (auto simp: pool_GetCoins_def empty_pool_def paid_coins_def fun_eq_iff split: option.split)
  have at: "paid_coins (tx_hash plain_crypto sample_tx) = None" using example_distinct(2) by (simp add: paid_coins_def)
  have get: "GetCoins (?v f b p) 7 = Some (?c, ?v f b p)" for f b p by (simp add: GetCoins_def FetchCoins_def)
  have out: "IsAvailable ?c 0" by (simp add: IsAvailable_def CTxOut_IsNull_def)
  have ok: "CheckTransaction sample_tx = Accept" "\<not> IsCoinBase sample_tx"
    by (simp_all add: CheckTransaction_def sample_tx_def size_tx_def size_vec_def GetSizeOfCompactSize_def
        size_txin_def size_txout_def size_bytes_def MAX_BLOCK_SIZE_def MoneyRange_def MAX_MONEY_def COIN_def IsCoinBase_def COutPoint_IsNull_def)
  have H: "HaveCoins (CCoinsViewCache paid_coins (Some 1)) (tx_hash plain_crypto sample_tx) =
      (False, CCoinsViewCache paid_coins (Some 1))"
    by (simp add: HaveCoins_def FetchCoins_def CCoinsViewCache_def at)
  have T: "have_txs (vin sample_tx) (CCoinsViewCache paid_coins (Some 1)) = (True, ?v paid_coins (Some 1) None)"
    by (simp add: example_fields HaveCoins_def FetchCoins_def CCoinsViewCache_def) (simp add: paid_coins_def)
  have I: "HaveInputs sample_tx (?v f b p) = Some (True, ?v f b p)" for f b p
    using ok(2) out by (simp add: HaveInputs_def example_fields get HaveCoins_def FetchCoins_def)
  have D: "SetBackend_dummy (snd (GetBestBlock (?v paid_coins (Some 1) None))) = ?v (\<lambda>_. None) None (Some 1)"
    by (simp add: SetBackend_dummy_def GetBestBlock_def)
  have G: "GetOutputFor (vin sample_tx ! 0) (?v f b p) = Some (\<lparr>nValue = 9, scriptPubKey = [0x51]\<rparr>, ?v f b p)" for f b p
    using out by (simp add: GetOutputFor_def example_fields get)
  have S: "AreInputsStandard pool_env sample_tx (?v f b p) sigcache_empty = Some (False, ?v f b p, sigcache_empty)" for f b p
    using ok(2) G paid_standard by (simp add: AreInputsStandard_def example_fields)
  have V: "GetValueIn sample_tx (?v f b p) = Some (9, ?v f b p)" "GetValueOut sample_tx = Some 5" for f b p
    using ok(2) G by (simp_all add: GetValueIn_def example_fields) (simp add: GetValueOut_def sample_tx_def MoneyRange_def MAX_MONEY_def COIN_def)
  have C: "CheckInputs pool_env (\<lambda>_. 9) sample_tx (?v f b (Some 1)) True (SCRIPT_VERIFY_P2SH OR SCRIPT_VERIFY_STRICTENC) sigcache_empty =
      (Accept, ?v f b (Some 1), sigcache_empty)" for f b
    using ok(2) I V paid_script get by (simp add: CheckInputs_def GetBestBlock_def example_fields CScriptCheck_def
        pool_env_def toy_env_def MoneyRange_def MAX_MONEY_def COIN_def)
  have F: "GetMinFee 0 0 sample_tx 1000 True GMF_RELAY = 0"
    by (simp add: GetMinFee_def min_fee_raw_def Let_def sample_tx_def size_tx_def size_vec_def GetSizeOfCompactSize_def
        size_txin_def size_txout_def size_bytes_def MAX_BLOCK_SIZE_GEN_def MAX_BLOCK_SIZE_def MoneyRange_def MAX_MONEY_def COIN_def)
  have "accept_inputs pool_env open_policy (\<lambda>_. 9) paid_coins (Some 1) sample_tx fLimitFree limiter empty_pool sigcache_empty =
      (Accepted, sigcache_empty)"
    unfolding accept_inputs_def base using H T I D S V C F by (simp add: pool_env_def toy_env_def open_policy_def)
  then show ?thesis
    using ok by (simp add: pool_accept_def open_policy_def exists_tx_def empty_pool_def example_fields pool_env_def toy_env_def)
qed

theorem accept_sound_witness:
  "pool_txs (fst (snd (pool_accept pool_env open_policy (\<lambda>_. 9) paid_coins (Some 1) sample_tx True False False
      empty_pool sigcache_empty))) = {sample_tx}
   \<and> (\<exists>coins. paid_coins 7 = Some coins
        \<and> script_verifies pool_env coins sample_tx 0 (SCRIPT_VERIFY_P2SH OR SCRIPT_VERIFY_STRICTENC))"
proof -
  have base: "pool_GetCoins paid_coins empty_pool = paid_coins"
    by (auto simp: pool_GetCoins_def empty_pool_def paid_coins_def fun_eq_iff split: option.split)
  have len: "length (vin sample_tx) = 1" "outhash (prevout (vin sample_tx ! 0)) = 7" by (simp_all add: example_fields)
  show ?thesis using accept_sound [OF empty_pool_ok sigcache_empty_sound paid_accept] paid_accept
    by (auto simp: pool_txs_def empty_pool_def base len) (auto simp: base [unfolded empty_pool_def] len)
qed

end
