(* ===== verification/Orphans.thy ===== *)
theory Orphans
  imports PoolAccept
begin

text \<open>
  main.cpp: transactions whose inputs are not known yet (mapOrphanTransactions, and by the hash of an input
  mapOrphanTransactionsByPrev), and the message "tx", which offers a transaction to the pool and then looks
  at the orphans that waited for it. A std::set of hashes is the increasing list of its elements. Relaying,
  logging and the lists of inventory are not modelled.
\<close>

section \<open>The orphans\<close>

record orphan_state =
  mapOrphanTransactions :: "(uint256 \<times> CTransaction) list"
  mapOrphanTransactionsByPrev :: "(uint256 \<times> uint256 list) list"

definition no_orphans :: orphan_state where
  "no_orphans = \<lparr>mapOrphanTransactions = [], mapOrphanTransactionsByPrev = []\<rparr>"

text \<open>What operator[] of the map of sets finds, a new empty set where there is no entry.\<close>

definition by_prev :: "(uint256 \<times> uint256 list) list \<Rightarrow> uint256 \<Rightarrow> uint256 list" where
  "by_prev m p = (case map_of m p of None \<Rightarrow> [] | Some s \<Rightarrow> s)"

definition AddOrphanTx :: "crypto \<Rightarrow> CTransaction \<Rightarrow> orphan_state \<Rightarrow> bool \<times> orphan_state" where
  "AddOrphanTx C tx om =
     (if map_of (mapOrphanTransactions om) (tx_hash C tx) \<noteq> None then (False, om)
      else if size_tx tx > 5000 then (False, om)
      else (True, om\<lparr>mapOrphanTransactions := sm_put (tx_hash C tx) tx (mapOrphanTransactions om),
        mapOrphanTransactionsByPrev := fold (\<lambda>txin m. sm_put (outhash (prevout txin))
            (insort_insert (tx_hash C tx) (by_prev m (outhash (prevout txin)))) m) (vin tx) (mapOrphanTransactionsByPrev om)\<rparr>))"

definition erase_by_prev :: "uint256 \<Rightarrow> CTxIn \<Rightarrow> (uint256 \<times> uint256 list) list \<Rightarrow> (uint256 \<times> uint256 list) list" where
  "erase_by_prev h txin m =
     (let p = outhash (prevout txin); s = removeAll h (by_prev m p)
      in if s = [] then sm_erase p m else sm_put p s m)"

definition EraseOrphanTx :: "uint256 \<Rightarrow> orphan_state \<Rightarrow> orphan_state" where
  "EraseOrphanTx h om =
     (case map_of (mapOrphanTransactions om) h of None \<Rightarrow> om
      | Some tx \<Rightarrow> om\<lparr>mapOrphanTransactions := sm_erase h (mapOrphanTransactions om),
          mapOrphanTransactionsByPrev := fold (erase_by_prev h) (vin tx) (mapOrphanTransactionsByPrev om)\<rparr>)"

text \<open>The orphan that a random hash evicts: the next one in the order of the keys, or the first.\<close>

definition evicted :: "uint256 \<Rightarrow> (uint256 \<times> CTransaction) list \<Rightarrow> uint256" where
  "evicted randomhash m = (case sm_lower_bound randomhash m of [] \<Rightarrow> fst (hd m) | it # _ \<Rightarrow> fst it)"

lemma evicted_mem: "m \<noteq> [] \<Longrightarrow> evicted r m \<in> fst ` set m"
proof (cases "sm_lower_bound r m")
  case (Cons it rest)
  then have "it \<in> set m" using set_dropWhileD [of it "\<lambda>e. fst e < r" m] by (simp add: sm_lower_bound_def)
  with Cons show ?thesis by (simp add: evicted_def)
qed (simp add: evicted_def)

lemma length_EraseOrphanTx:
  "h \<in> fst ` set (mapOrphanTransactions om) \<Longrightarrow>
    length (mapOrphanTransactions (EraseOrphanTx h om)) < length (mapOrphanTransactions om)"
  by (auto simp: EraseOrphanTx_def sm_erase_def map_of_eq_None_iff intro: length_filter_less split: option.split)

text \<open>The hashes that GetRandHash gives are rand 0, rand 1, and so on; the result counts the evictions.\<close>

function LimitOrphanTxSize :: "(nat \<Rightarrow> uint256) \<Rightarrow> nat \<Rightarrow> nat \<Rightarrow> orphan_state \<Rightarrow> nat \<times> orphan_state" where
  "LimitOrphanTxSize rand nMaxOrphans nEvicted om =
     (if length (mapOrphanTransactions om) > nMaxOrphans
      then LimitOrphanTxSize rand nMaxOrphans (nEvicted + 1)
        (EraseOrphanTx (evicted (rand nEvicted) (mapOrphanTransactions om)) om)
      else (nEvicted, om))"
  by pat_completeness auto
termination
  by (relation "measure (\<lambda>(rand, n, k, om). length (mapOrphanTransactions om))")
    (auto intro!: length_EraseOrphanTx evicted_mem)

declare LimitOrphanTxSize.simps [simp del]

definition MAX_ORPHAN_TRANSACTIONS :: nat where "MAX_ORPHAN_TRANSACTIONS = MAX_BLOCK_SIZE div 100"

section \<open>The message tx\<close>

text \<open>
  The loop over the orphans of one entry of the work queue. The source offers tx, the transaction that came
  with the message, to the pool here, not the orphan. k counts the calls of accept.
\<close>

fun orphan_loop ::
  "(nat \<Rightarrow> CTxMemPool \<Rightarrow> CSignatureCache \<Rightarrow> reply \<times> CTxMemPool \<times> CSignatureCache) \<Rightarrow> uint256 list \<Rightarrow>
    nat \<Rightarrow> uint256 list \<Rightarrow> uint256 list \<Rightarrow> CTxMemPool \<Rightarrow> CSignatureCache \<Rightarrow>
    nat \<times> uint256 list \<times> uint256 list \<times> CTxMemPool \<times> CSignatureCache" where
  "orphan_loop accept_tx [] k vWorkQueue vEraseQueue mp c = (k, vWorkQueue, vEraseQueue, mp, c)"
| "orphan_loop accept_tx (orphanHash # mi) k vWorkQueue vEraseQueue mp c =
     (case accept_tx k mp c of (r, mp, c) \<Rightarrow>
        if r = Accepted then orphan_loop accept_tx mi (k + 1) (vWorkQueue @ [orphanHash]) (vEraseQueue @ [orphanHash]) mp c
        else if r \<noteq> MissingInputs then orphan_loop accept_tx mi (k + 1) vWorkQueue (vEraseQueue @ [orphanHash]) mp c
        else orphan_loop accept_tx mi (k + 1) vWorkQueue vEraseQueue mp c)"

text \<open>The work queue from its i-th entry on; looking up an entry creates it.\<close>

partial_function (option) work_loop ::
  "(nat \<Rightarrow> CTxMemPool \<Rightarrow> CSignatureCache \<Rightarrow> reply \<times> CTxMemPool \<times> CSignatureCache) \<Rightarrow> nat \<Rightarrow> nat \<Rightarrow>
    uint256 list \<Rightarrow> uint256 list \<Rightarrow> orphan_state \<Rightarrow> CTxMemPool \<Rightarrow> CSignatureCache \<Rightarrow>
    (uint256 list \<times> orphan_state \<times> CTxMemPool \<times> CSignatureCache) option" where
  "work_loop accept_tx i k vWorkQueue vEraseQueue om mp c =
     (if i < length vWorkQueue then
        (let hashPrev = vWorkQueue ! i; s = by_prev (mapOrphanTransactionsByPrev om) hashPrev;
             om = om\<lparr>mapOrphanTransactionsByPrev := sm_put hashPrev s (mapOrphanTransactionsByPrev om)\<rparr>
         in case orphan_loop accept_tx s k vWorkQueue vEraseQueue mp c of (k, vWorkQueue, vEraseQueue, mp, c) \<Rightarrow>
           work_loop accept_tx (i + 1) k vWorkQueue vEraseQueue om mp c)
      else Some (vEraseQueue, om, mp, c))"

definition ProcessMessage_tx ::
  "'b env \<Rightarrow> policy \<Rightarrow> (nat \<Rightarrow> int) \<Rightarrow> (uint256 \<Rightarrow> CCoins option) \<Rightarrow> nat option \<Rightarrow> (nat \<Rightarrow> bool) \<Rightarrow> (nat \<Rightarrow> uint256) \<Rightarrow>
    CTransaction \<Rightarrow> orphan_state \<Rightarrow> CTxMemPool \<Rightarrow> CSignatureCache \<Rightarrow>
    (reply \<times> orphan_state \<times> CTxMemPool \<times> CSignatureCache) option" where
  "ProcessMessage_tx E P heights coinsTip best limiter rand tx om mp c =
     (let accept_tx = (\<lambda>k. pool_accept E P heights coinsTip best tx True True (limiter k)); h = tx_hash (hashes E) tx
      in case accept_tx 0 mp c of (r, mp, c) \<Rightarrow>
        if r = Accepted then
          do { (vEraseQueue, om, mp, c) \<leftarrow> work_loop accept_tx 0 1 [h] [h] om mp c;
               Some (r, fold EraseOrphanTx vEraseQueue om, mp, c) }
        else if r = MissingInputs then
          Some (r, snd (LimitOrphanTxSize rand MAX_ORPHAN_TRANSACTIONS 0 (snd (AddOrphanTx (hashes E) tx om))), mp, c)
        else Some (r, om, mp, c))"

section \<open>The invariant\<close>

definition waits_for :: "CTransaction \<Rightarrow> uint256 \<Rightarrow> bool" where
  "waits_for tx p \<longleftrightarrow> p \<in> (\<lambda>i. outhash (prevout i)) ` set (vin tx)"

text \<open>Orphans are filed under their hashes, small, and found from exactly the hashes of their inputs.\<close>

definition orphans_ok :: "crypto \<Rightarrow> orphan_state \<Rightarrow> bool" where
  "orphans_ok C om \<longleftrightarrow> sm_wf (mapOrphanTransactions om)
     \<and> (\<forall>h tx. map_of (mapOrphanTransactions om) h = Some tx \<longrightarrow> h = tx_hash C tx \<and> size_tx tx \<le> 5000)
     \<and> (\<forall>p. set (by_prev (mapOrphanTransactionsByPrev om) p) =
          {h. \<exists>tx. map_of (mapOrphanTransactions om) h = Some tx \<and> waits_for tx p})"

lemma no_orphans_ok: "orphans_ok C no_orphans"
  by (simp add: orphans_ok_def no_orphans_def by_prev_def)

lemma by_prev_put [simp]: "by_prev (sm_put p s m) q = (if q = p then s else by_prev m q)"
  by (simp add: by_prev_def)

lemma by_prev_erase [simp]: "by_prev (sm_erase p m) q = (if q = p then [] else by_prev m q)"
  by (simp add: by_prev_def)

lemma set_by_prev_add:
  "set (by_prev (fold (\<lambda>i m. sm_put (outhash (prevout i)) (insort_insert h (by_prev m (outhash (prevout i)))) m) ins m) p) =
    (if p \<in> (\<lambda>i. outhash (prevout i)) ` set ins then insert h (set (by_prev m p)) else set (by_prev m p))"
  by (induction ins arbitrary: m) (auto simp: set_insort_insert)

lemma set_by_prev_erase:
  "set (by_prev (fold (erase_by_prev h) ins m) p) =
    (if p \<in> (\<lambda>i. outhash (prevout i)) ` set ins then set (by_prev m p) - {h} else set (by_prev m p))"
proof (induction ins arbitrary: m p)
  case (Cons i ins)
  have "by_prev (erase_by_prev h i m) p = (if p = outhash (prevout i) then removeAll h (by_prev m p) else by_prev m p)"
    by (simp add: erase_by_prev_def Let_def)
  then show ?case
    by (cases "p = outhash (prevout i)"; cases "p \<in> (\<lambda>i. outhash (prevout i)) ` set ins") (simp_all add: Cons.IH)
qed simp

lemma AddOrphanTx_ok:
  assumes "orphans_ok C om" and "AddOrphanTx C tx om = (ok, om')"
  shows "orphans_ok C om'"
proof (cases ok)
  case False
  then show ?thesis using assms by (auto simp: AddOrphanTx_def split: if_splits)
next
  case True
  let ?h = "tx_hash C tx"
  have new: "map_of (mapOrphanTransactions om) ?h = None" and sz: "size_tx tx \<le> 5000"
    and m: "mapOrphanTransactions om' = sm_put ?h tx (mapOrphanTransactions om)"
    and b: "set (by_prev (mapOrphanTransactionsByPrev om') p) =
      (if waits_for tx p then insert ?h (set (by_prev (mapOrphanTransactionsByPrev om) p))
       else set (by_prev (mapOrphanTransactionsByPrev om) p))" for p
    using assms(2) True set_by_prev_add [of ?h "vin tx"] by (auto simp: AddOrphanTx_def waits_for_def split: if_splits)
  show ?thesis using assms(1) new sz unfolding orphans_ok_def m b by (auto split: if_splits)
qed

lemma EraseOrphanTx_ok:
  assumes "orphans_ok C om"
  shows "orphans_ok C (EraseOrphanTx h om)"
    and "map_of (mapOrphanTransactions (EraseOrphanTx h om)) = (map_of (mapOrphanTransactions om))(h := None)"
proof -
  let ?om = "EraseOrphanTx h om"
  have "orphans_ok C ?om \<and> map_of (mapOrphanTransactions ?om) = (map_of (mapOrphanTransactions om))(h := None)"
  proof (cases "map_of (mapOrphanTransactions om) h")
    case None
    then show ?thesis using assms by (auto simp: EraseOrphanTx_def)
  next
    case (Some tx)
    have m: "mapOrphanTransactions ?om = sm_erase h (mapOrphanTransactions om)"
      and b: "set (by_prev (mapOrphanTransactionsByPrev ?om) p) =
        (if waits_for tx p then set (by_prev (mapOrphanTransactionsByPrev om) p) - {h}
         else set (by_prev (mapOrphanTransactionsByPrev om) p))" for p
      using Some set_by_prev_erase [of h "vin tx"] by (auto simp: EraseOrphanTx_def waits_for_def)
    show ?thesis using assms Some unfolding orphans_ok_def m b by (auto split: if_splits)
  qed
  then show "orphans_ok C ?om" "map_of (mapOrphanTransactions ?om) = (map_of (mapOrphanTransactions om))(h := None)" by blast+
qed

lemma EraseOrphanTx_all:
  "orphans_ok C om \<Longrightarrow> orphans_ok C (fold EraseOrphanTx hs om)
    \<and> map_of (mapOrphanTransactions (fold EraseOrphanTx hs om)) = map_of (mapOrphanTransactions om) |` (- set hs)"
proof (induction hs arbitrary: om)
  case (Cons h hs)
  show ?case using Cons.IH [OF EraseOrphanTx_ok(1) [OF Cons.prems]] EraseOrphanTx_ok(2) [OF Cons.prems, of h]
    by (auto simp: restrict_map_def fun_eq_iff)
qed (simp add: restrict_map_def)

lemma LimitOrphanTxSize_ok:
  "orphans_ok C om \<Longrightarrow> LimitOrphanTxSize rand n k om = (k', om') \<Longrightarrow>
    orphans_ok C om' \<and> length (mapOrphanTransactions om') \<le> n
      \<and> map_of (mapOrphanTransactions om') \<subseteq>\<^sub>m map_of (mapOrphanTransactions om)"
proof (induction rand n k om rule: LimitOrphanTxSize.induct)
  case (1 rand n k om)
  show ?case
  proof (cases "length (mapOrphanTransactions om) > n")
    case True
    let ?h = "evicted (rand k) (mapOrphanTransactions om)"
    have "LimitOrphanTxSize rand n (k + 1) (EraseOrphanTx ?h om) = (k', om')"
      using "1.prems"(2) True by (simp add: LimitOrphanTxSize.simps [of rand n k om])
    from "1.IH" [OF True EraseOrphanTx_ok(1) [OF "1.prems"(1)] this] EraseOrphanTx_ok(2) [OF "1.prems"(1), of ?h]
    show ?thesis using map_le_trans [OF _ upd_None_map_le] by metis
  next
    case False
    then show ?thesis using "1.prems" by (simp add: LimitOrphanTxSize.simps [of rand n k om])
  qed
qed

section \<open>The message\<close>

lemma orphan_loop_declined:
  assumes "\<And>k c. accept_tx k mp c = (Declined, mp, c)"
  shows "orphan_loop accept_tx s k vWorkQueue vEraseQueue mp c = (k + length s, vWorkQueue, vEraseQueue @ s, mp, c)"
  using assms by (induction s arbitrary: k vEraseQueue) auto

lemma work_loop_declined:
  assumes "\<And>k c. accept_tx k mp c = (Declined, mp, c)"
  shows "work_loop accept_tx 0 k [h] vEraseQueue om mp c =
    (let s = by_prev (mapOrphanTransactionsByPrev om) h
     in Some (vEraseQueue @ s, om\<lparr>mapOrphanTransactionsByPrev := sm_put h s (mapOrphanTransactionsByPrev om)\<rparr>, mp, c))"
  by (simp add: work_loop.simps [of accept_tx 0] work_loop.simps [of accept_tx "Suc 0"] orphan_loop_declined [where accept_tx = accept_tx and mp = mp, OF assms] Let_def)

lemma accept_again:
  assumes "pool_accept E P heights coinsTip best tx fCheckInputs fLimitFree limiter mp c = (Accepted, mp', c')"
  shows "pool_accept E P heights coinsTip best tx fCheckInputs fLimitFree limiter' mp' c1 = (Declined, mp', c1)"
proof -
  from assms have a: "CheckTransaction tx = Accept" "\<not> IsCoinBase tx" "\<not> uint (nLockTime tx) > 2 ^ 31 - 1"
    "fTestNet P \<or> IsStandard_tx P tx"
    by (auto simp: pool_accept_def split: if_splits)
  have "mp' = addUnchecked (tx_hash (hashes E) tx) tx mp" using pool_accept_cases [OF assms] by simp
  then have "exists_tx mp' (tx_hash (hashes E) tx)" by (simp add: exists_tx_def addUnchecked_def)
  with a show ?thesis by (simp add: pool_accept_def)
qed

lemma touch_ok:
  assumes "orphans_ok C om"
  shows "orphans_ok C (om\<lparr>mapOrphanTransactionsByPrev :=
    sm_put h (by_prev (mapOrphanTransactionsByPrev om) h) (mapOrphanTransactionsByPrev om)\<rparr>)"
  using assms by (simp add: orphans_ok_def)

lemma ProcessMessage_tx_Accepted:
  assumes "orphans_ok (hashes E) om"
    and acc: "pool_accept E P heights coinsTip best tx True True (limiter 0) mp c = (Accepted, mp', c')"
  shows "\<exists>om'. ProcessMessage_tx E P heights coinsTip best limiter rand tx om mp c = Some (Accepted, om', mp', c')
    \<and> orphans_ok (hashes E) om'
    \<and> (\<forall>h. map_of (mapOrphanTransactions om') h =
        (case map_of (mapOrphanTransactions om) h of None \<Rightarrow> None
         | Some q \<Rightarrow> if h = tx_hash (hashes E) tx \<or> waits_for q (tx_hash (hashes E) tx) then None else Some q))"
proof -
  let ?h = "tx_hash (hashes E) tx"
  let ?s = "by_prev (mapOrphanTransactionsByPrev om) ?h"
  let ?om = "om\<lparr>mapOrphanTransactionsByPrev := sm_put ?h ?s (mapOrphanTransactionsByPrev om)\<rparr>"
  have "pool_accept E P heights coinsTip best tx True True (limiter k) mp' c1 = (Declined, mp', c1)" for k c1
    by (rule accept_again [OF acc])
  note w = work_loop_declined [of "\<lambda>k. pool_accept E P heights coinsTip best tx True True (limiter k)", OF this]
  have p: "ProcessMessage_tx E P heights coinsTip best limiter rand tx om mp c = Some (Accepted, fold EraseOrphanTx (?h # ?s) ?om, mp', c')"
    using acc w by (simp add: ProcessMessage_tx_def Let_def)
  have s: "set ?s = {h. \<exists>q. map_of (mapOrphanTransactions om) h = Some q \<and> waits_for q ?h}"
    using assms(1) by (simp add: orphans_ok_def)
  define hs where "hs = ?h # ?s"
  define om' where "om' = fold EraseOrphanTx hs ?om"
  have e: "orphans_ok (hashes E) om'" "map_of (mapOrphanTransactions om') = map_of (mapOrphanTransactions om) |` (- set hs)"
    using EraseOrphanTx_all [OF touch_ok [OF assms(1)], of hs ?h] by (simp_all add: om'_def)
  have "map_of (mapOrphanTransactions om') h = (case map_of (mapOrphanTransactions om) h of None \<Rightarrow> None
      | Some q \<Rightarrow> if h = ?h \<or> waits_for q ?h then None else Some q)" for h
    unfolding e(2) by (auto simp: restrict_map_def hs_def s split: option.split)
  with p e(1) show ?thesis unfolding om'_def hs_def by blast
qed

lemma length_map_le:
  assumes "sm_wf m" "sm_wf m'" "map_of m' \<subseteq>\<^sub>m map_of m"
  shows "length m' \<le> length m"
proof -
  have len: "length q = card (dom (map_of q))" if "sm_wf q" for q :: "('a \<times> 'b) list"
    using distinct_card [OF sm_wf_distinct [OF that]] by (simp add: dom_map_of_conv_image_fst)
  have "dom (map_of m') \<subseteq> dom (map_of m)" using assms(3) by (rule map_le_implies_dom_le)
  then show ?thesis using len [OF assms(1)] len [OF assms(2)] card_mono [OF finite_dom_map_of] by metis
qed

lemma ProcessMessage_tx_ok:
  assumes "orphans_ok (hashes E) om" and "length (mapOrphanTransactions om) \<le> MAX_ORPHAN_TRANSACTIONS"
  shows "\<exists>r om' mp' c'. ProcessMessage_tx E P heights coinsTip best limiter rand tx om mp c = Some (r, om', mp', c')
    \<and> orphans_ok (hashes E) om' \<and> length (mapOrphanTransactions om') \<le> MAX_ORPHAN_TRANSACTIONS"
proof -
  obtain r mp1 c1 where a: "pool_accept E P heights coinsTip best tx True True (limiter 0) mp c = (r, mp1, c1)" by (rule prod_cases3)
  consider "r = Accepted" | "r = MissingInputs" | "r \<noteq> Accepted" "r \<noteq> MissingInputs" by blast
  then show ?thesis
  proof cases
    case 1
    from ProcessMessage_tx_Accepted [where limiter = limiter and rand = rand, OF assms(1) a [unfolded 1]]
    obtain om' where m: "ProcessMessage_tx E P heights coinsTip best limiter rand tx om mp c = Some (Accepted, om', mp1, c1)"
      "orphans_ok (hashes E) om'" and l: "\<And>h. map_of (mapOrphanTransactions om') h = (case map_of (mapOrphanTransactions om) h of None \<Rightarrow> None
         | Some q \<Rightarrow> if h = tx_hash (hashes E) tx \<or> waits_for q (tx_hash (hashes E) tx) then None else Some q)" by blast
    have "map_of (mapOrphanTransactions om') \<subseteq>\<^sub>m map_of (mapOrphanTransactions om)"
      by (auto simp: map_le_def l split: option.splits if_splits)
    then have "length (mapOrphanTransactions om') \<le> length (mapOrphanTransactions om)"
      using assms(1) m(2) by (intro length_map_le) (auto simp: orphans_ok_def)
    with m assms(2) show ?thesis by auto
  next
    case 2
    obtain ok om1 where o1: "AddOrphanTx (hashes E) tx om = (ok, om1)" by (rule prod.exhaust)
    obtain k om2 where o2: "LimitOrphanTxSize rand MAX_ORPHAN_TRANSACTIONS 0 om1 = (k, om2)" by (rule prod.exhaust)
    from LimitOrphanTxSize_ok [OF AddOrphanTx_ok [OF assms(1) o1] o2] show ?thesis
      using a 2 o1 o2 by (simp add: ProcessMessage_tx_def)
  next
    case 3
    then show ?thesis using a assms by (simp add: ProcessMessage_tx_def)
  qed
qed

section \<open>Properties\<close>

text \<open>
  C16: The orphans that waited for an accepted transaction are thrown away. When accept takes the transaction
  of a message tx, the pool gains that transaction alone, and every orphan that spends one of its outputs is
  erased, however valid it is: the loop over the waiting orphans offers the transaction of the message to the
  pool again, which has it by then, and takes the refusal for the orphan's.
\<close>

theorem waiting_orphans_are_dropped:
  assumes "orphans_ok (hashes E) om" and "pool_ok (hashes E) mp"
    and "pool_accept E P heights coinsTip best tx True True (limiter 0) mp c = (Accepted, mp', c')"
  shows "\<exists>om'. ProcessMessage_tx E P heights coinsTip best limiter rand tx om mp c = Some (Accepted, om', mp', c')
    \<and> pool_txs mp' = insert tx (pool_txs mp)
    \<and> (\<forall>h. map_of (mapOrphanTransactions om') h =
        (case map_of (mapOrphanTransactions om) h of None \<Rightarrow> None
         | Some q \<Rightarrow> if h = tx_hash (hashes E) tx \<or> waits_for q (tx_hash (hashes E) tx) then None else Some q))"
proof -
  have "pool_txs mp' = insert tx (pool_txs mp)" using pool_accept_ok(2) [OF assms(3,2)] by simp
  with ProcessMessage_tx_Accepted [where limiter = limiter and rand = rand, OF assms(1,3)] show ?thesis by blast
qed

text \<open>
  C17: The message tx always ends, keeps the orphans filed under exactly the hashes of their inputs, and never
  leaves more than MAX_ORPHAN_TRANSACTIONS of them, each of at most 5000 bytes, whatever the peers send and
  whichever random hashes choose the evicted ones.
\<close>

theorem orphans_bounded:
  assumes "orphans_ok (hashes E) om" and "length (mapOrphanTransactions om) \<le> MAX_ORPHAN_TRANSACTIONS"
  shows "\<exists>r om' mp' c'. ProcessMessage_tx E P heights coinsTip best limiter rand tx om mp c = Some (r, om', mp', c')
    \<and> orphans_ok (hashes E) om' \<and> length (mapOrphanTransactions om') \<le> MAX_ORPHAN_TRANSACTIONS"
  by (rule ProcessMessage_tx_ok [OF assms])

definition waiting_child :: orphan_state where
  "waiting_child = snd (AddOrphanTx plain_crypto child_tx no_orphans)"

lemma waiting_child_ok:
  "orphans_ok plain_crypto waiting_child" "map_of (mapOrphanTransactions waiting_child) (tx_hash plain_crypto child_tx) = Some child_tx"
proof -
  have sz: "size_tx child_tx \<le> 5000"
    by (simp add: child_tx_def size_tx_def size_vec_def GetSizeOfCompactSize_def size_txin_def size_txout_def size_bytes_def)
  obtain ok om where a: "AddOrphanTx plain_crypto child_tx no_orphans = (ok, om)" by (rule prod.exhaust)
  from AddOrphanTx_ok [OF no_orphans_ok a] show "orphans_ok plain_crypto waiting_child" by (simp add: waiting_child_def a)
  show "map_of (mapOrphanTransactions waiting_child) (tx_hash plain_crypto child_tx) = Some child_tx"
    using sz by (simp add: waiting_child_def AddOrphanTx_def no_orphans_def)
qed

theorem waiting_orphans_are_dropped_witness:
  "\<exists>om' mp'. ProcessMessage_tx pool_env open_policy (\<lambda>_. 9) paid_coins (Some 1) (\<lambda>_. False) (\<lambda>_. 0) sample_tx
      waiting_child empty_pool sigcache_empty = Some (Accepted, om', mp', sigcache_empty)
    \<and> map_of (mapOrphanTransactions om') (tx_hash plain_crypto child_tx) = None \<and> child_tx \<notin> pool_txs mp'"
proof -
  have e: "hashes pool_env = plain_crypto" by (simp add: pool_env_def)
  have w: "waits_for child_tx (tx_hash plain_crypto sample_tx)" by (simp add: waits_for_def example_fields)
  have p: "pool_txs empty_pool = {}" by (simp add: pool_txs_def empty_pool_def)
  obtain om' mp' where "ProcessMessage_tx pool_env open_policy (\<lambda>_. 9) paid_coins (Some 1) (\<lambda>_. False) (\<lambda>_. 0) sample_tx
      waiting_child empty_pool sigcache_empty = Some (Accepted, om', mp', sigcache_empty)" "pool_txs mp' = {sample_tx}"
    and "\<And>h. map_of (mapOrphanTransactions om') h = (case map_of (mapOrphanTransactions waiting_child) h of None \<Rightarrow> None
      | Some q \<Rightarrow> if h = tx_hash (hashes pool_env) sample_tx \<or> waits_for q (tx_hash (hashes pool_env) sample_tx) then None else Some q)"
    using waiting_orphans_are_dropped [of pool_env waiting_child empty_pool open_policy "\<lambda>_. 9" paid_coins "Some 1" sample_tx
      "\<lambda>_. False" sigcache_empty _ sigcache_empty "\<lambda>_. 0", OF _ _ paid_accept] waiting_child_ok(1) empty_pool_ok
    unfolding e p by blast
  then show ?thesis using waiting_child_ok(2) w example_distinct(4) by (auto simp: e)
qed

theorem orphans_bounded_witness:
  "\<exists>r om' mp' c'. ProcessMessage_tx pool_env open_policy (\<lambda>_. 9) paid_coins (Some 1) (\<lambda>_. False) (\<lambda>_. 0) child_tx
      no_orphans empty_pool sigcache_empty = Some (r, om', mp', c') \<and> length (mapOrphanTransactions om') \<le> 10000"
  using orphans_bounded [OF no_orphans_ok, of pool_env open_policy "\<lambda>_. 9" paid_coins "Some 1" "\<lambda>_. False" "\<lambda>_. 0" child_tx
    empty_pool sigcache_empty]
  by (auto simp: no_orphans_def MAX_ORPHAN_TRANSACTIONS_def MAX_BLOCK_SIZE_def)

end
