(* ===== verification/Limited.thy ===== *)
theory Limited
  imports Containers "HOL-Library.Monad_Syntax"
begin

text \<open>
  mruset.h and limitedmap.h: a set that forgets its oldest elements and a map that drops its lowest values. The
  std::set is a set, the std::map the sorted list of its entries, and the std::multimap from values to
  iterators the list of pairs of a value and a key, sorted by the value, a new pair after the equal ones. None
  is a failed assertion, or the use of the first element of an empty multimap.
\<close>

section \<open>mruset\<close>

record 'a mruset =
  mru_set :: "'a set"
  mru_queue :: "'a list"
  mru_max :: nat

definition mru_empty :: "nat \<Rightarrow> 'a mruset" where
  "mru_empty nMaxSizeIn = \<lparr>mru_set = {}, mru_queue = [], mru_max = nMaxSizeIn\<rparr>"

definition mru_insert :: "'a \<Rightarrow> 'a mruset \<Rightarrow> bool \<times> 'a mruset" where
  "mru_insert x m =
     (if x \<in> mru_set m then (False, m)
      else
        let m = m\<lparr>mru_set := insert x (mru_set m)\<rparr>;
            m = (if mru_max m \<noteq> 0 \<and> length (mru_queue m) = mru_max m
                 then m\<lparr>mru_set := mru_set m - {hd (mru_queue m)}, mru_queue := tl (mru_queue m)\<rparr> else m)
        in (True, m\<lparr>mru_queue := mru_queue m @ [x]\<rparr>))"

fun mru_shrink :: "nat \<Rightarrow> 'a list \<Rightarrow> 'a set \<Rightarrow> 'a list \<times> 'a set" where
  "mru_shrink s [] S = ([], S)"
| "mru_shrink s (x # q) S = (if length (x # q) > s then mru_shrink s q (S - {x}) else (x # q, S))"

definition mru_max_size :: "nat \<Rightarrow> 'a mruset \<Rightarrow> 'a mruset" where
  "mru_max_size s m =
     (let (q, S) = (if s \<noteq> 0 then mru_shrink s (mru_queue m) (mru_set m) else (mru_queue m, mru_set m))
      in \<lparr>mru_set = S, mru_queue = q, mru_max = s\<rparr>)"

section \<open>limitedmap\<close>

record ('k, 'v) limitedmap =
  lmap :: "('k \<times> 'v) list"
  rmap :: "('v \<times> 'k) list"
  lim_max :: nat

definition lim_empty :: "nat \<Rightarrow> ('k, 'v) limitedmap" where
  "lim_empty nMaxSizeIn = \<lparr>lmap = [], rmap = [], lim_max = nMaxSizeIn\<rparr>"

fun mm_insert :: "'v::linorder \<Rightarrow> 'k \<Rightarrow> ('v \<times> 'k) list \<Rightarrow> ('v \<times> 'k) list" where
  "mm_insert v k [] = [(v, k)]"
| "mm_insert v k ((w, j) # r) = (if v < w then (v, k) # (w, j) # r else (w, j) # mm_insert v k r)"

text \<open>map.erase(rmap.begin()->second); rmap.erase(rmap.begin());\<close>

definition drop_lowest :: "('k, 'v) limitedmap \<Rightarrow> ('k, 'v) limitedmap option" where
  "drop_lowest m = (case rmap m of [] \<Rightarrow> None | (v, k) # r \<Rightarrow> Some (m\<lparr>lmap := sm_erase k (lmap m), rmap := r\<rparr>))"

definition lim_insert :: "'k::linorder \<Rightarrow> 'v::linorder \<Rightarrow> ('k, 'v) limitedmap \<Rightarrow> ('k, 'v) limitedmap option" where
  "lim_insert k v m =
     (if map_of (lmap m) k \<noteq> None then Some m
      else
        let m = m\<lparr>lmap := sm_put k v (lmap m)\<rparr>
        in do { m \<leftarrow> (if lim_max m \<noteq> 0 \<and> length (lmap m) = lim_max m then drop_lowest m else Some m);
                Some (m\<lparr>rmap := mm_insert v k (rmap m)\<rparr>) })"

text \<open>The loop over equal_range; None where the assertion after it fails.\<close>

definition rmap_erase :: "'v \<Rightarrow> 'k \<Rightarrow> ('v \<times> 'k) list \<Rightarrow> ('v \<times> 'k) list option" where
  "rmap_erase v k r = (if (v, k) \<in> set r then Some (remove1 (v, k) r) else None)"

definition lim_erase :: "'k \<Rightarrow> ('k, 'v) limitedmap \<Rightarrow> ('k, 'v) limitedmap option" where
  "lim_erase k m =
     (case map_of (lmap m) k of None \<Rightarrow> Some m
      | Some v \<Rightarrow> do { r \<leftarrow> rmap_erase v k (rmap m); Some (m\<lparr>lmap := sm_erase k (lmap m), rmap := r\<rparr>) })"

definition lim_update :: "'k::linorder \<Rightarrow> 'v::linorder \<Rightarrow> ('k, 'v) limitedmap \<Rightarrow> ('k, 'v) limitedmap option" where
  "lim_update k v m =
     (case map_of (lmap m) k of None \<Rightarrow> Some m
      | Some w \<Rightarrow> do { r \<leftarrow> rmap_erase w k (rmap m); Some (m\<lparr>lmap := sm_put k v (lmap m), rmap := mm_insert v k r\<rparr>) })"

fun lim_shrink :: "nat \<Rightarrow> nat \<Rightarrow> ('k, 'v) limitedmap \<Rightarrow> ('k, 'v) limitedmap option" where
  "lim_shrink s 0 m = Some m"
| "lim_shrink s (Suc n) m = (if length (lmap m) > s then do { m \<leftarrow> drop_lowest m; lim_shrink s n m } else Some m)"

definition lim_max_size :: "nat \<Rightarrow> ('k, 'v) limitedmap \<Rightarrow> ('k, 'v) limitedmap option" where
  "lim_max_size s m =
     do { m \<leftarrow> (if s \<noteq> 0 then lim_shrink s (length (lmap m)) m else Some m); Some (m\<lparr>lim_max := s\<rparr>) }"

section \<open>The set keeps the last elements\<close>

definition mru_ok :: "'a mruset \<Rightarrow> bool" where
  "mru_ok m \<longleftrightarrow> mru_set m = set (mru_queue m) \<and> distinct (mru_queue m) \<and> (mru_max m \<noteq> 0 \<longrightarrow> length (mru_queue m) \<le> mru_max m)"

definition keep_last :: "nat \<Rightarrow> 'a list \<Rightarrow> 'a list" where
  "keep_last n q = (if n = 0 then q else drop (length q - n) q)"

lemma mru_insert_new:
  assumes "mru_ok m" "x \<notin> mru_set m"
  shows "mru_insert x m = (True, m\<lparr>mru_set := set (keep_last (mru_max m) (mru_queue m @ [x])),
      mru_queue := keep_last (mru_max m) (mru_queue m @ [x])\<rparr>)"
proof (cases "mru_max m \<noteq> 0 \<and> length (mru_queue m) = mru_max m")
  case True
  then obtain h t where q: "mru_queue m = h # t" by (cases "mru_queue m") auto
  then have "insert x (mru_set m) - {h} = insert x (set t)" using assms by (auto simp: mru_ok_def)
  moreover have "keep_last (mru_max m) (mru_queue m @ [x]) = t @ [x]" using True q by (auto simp: keep_last_def)
  ultimately show ?thesis using True assms(2) q by (simp add: mru_insert_def)
next
  case False
  then have "keep_last (mru_max m) (mru_queue m @ [x]) = mru_queue m @ [x]"
    using assms(1) by (auto simp: keep_last_def mru_ok_def)
  moreover have "mru_set m = set (mru_queue m)" using assms(1) by (simp add: mru_ok_def)
  ultimately show ?thesis using False assms(2) by (cases "mru_max m = 0") (simp_all add: mru_insert_def Let_def)
qed

lemma distinct_keep_last: "distinct q \<Longrightarrow> distinct (keep_last n q)"
  by (simp add: keep_last_def)

lemma length_keep_last: "n \<noteq> 0 \<Longrightarrow> length (keep_last n q) \<le> n"
  by (simp add: keep_last_def)

lemma mru_insert_ok:
  assumes "mru_ok m" shows "mru_ok (snd (mru_insert x m))"
proof (cases "x \<in> mru_set m")
  case True
  then show ?thesis using assms by (simp add: mru_insert_def)
next
  case False
  then have "distinct (mru_queue m @ [x])" using assms by (auto simp: mru_ok_def)
  then have "distinct (keep_last (mru_max m) (mru_queue m @ [x]))" by (rule distinct_keep_last)
  then show ?thesis unfolding mru_insert_new [OF assms False] using length_keep_last [of "mru_max m" "mru_queue m @ [x]"] by (simp add: mru_ok_def)
qed

lemma keep_last_snoc: "keep_last n (keep_last n q @ [x]) = keep_last n (q @ [x])"
  by (cases "length q \<le> n") (auto simp: keep_last_def Suc_diff_le)

text \<open>The elements that were new when they came, and the set after a sequence of insertions.\<close>

fun mru_run :: "'a list \<Rightarrow> 'a mruset \<Rightarrow> 'a list \<times> 'a mruset" where
  "mru_run [] m = ([], m)"
| "mru_run (x # xs) m = (let (new, m) = mru_insert x m; (ys, m) = mru_run xs m in (if new then x # ys else ys, m))"

lemma mru_run_queue:
  "mru_ok m \<Longrightarrow> mru_queue m = keep_last (mru_max m) q \<Longrightarrow> mru_run xs m = (ys, m') \<Longrightarrow>
    mru_ok m' \<and> mru_max m' = mru_max m \<and> mru_queue m' = keep_last (mru_max m) (q @ ys)"
proof (induction xs arbitrary: m q ys)
  case (Cons x xs)
  show ?case
  proof (cases "x \<in> mru_set m")
    case True
    then show ?thesis using Cons by (auto simp: mru_insert_def split: prod.splits)
  next
    case False
    note new = mru_insert_new [OF Cons.prems(1) False]
    obtain zs where zs: "ys = x # zs" "mru_run xs (snd (mru_insert x m)) = (zs, m')"
      using Cons.prems(3) by (auto simp: new split: prod.splits)
    have "mru_queue (snd (mru_insert x m)) = keep_last (mru_max (snd (mru_insert x m))) (q @ [x])"
      by (simp add: new Cons.prems(2) keep_last_snoc)
    from Cons.IH [OF mru_insert_ok [OF Cons.prems(1)] this zs(2)] show ?thesis by (simp add: new zs(1))
  qed
qed simp

text \<open>
  An mruset holds the most recent elements. After any insertions into a new set of a given size the set
  holds exactly the last so many of the elements that were not in it when they came (all of them for size 0),
  each once.
\<close>

theorem mruset_keeps_last:
  shows "case mru_run xs (mru_empty n) of (ys, m) \<Rightarrow>
    mru_queue m = keep_last n ys \<and> mru_set m = set (keep_last n ys) \<and> distinct (keep_last n ys)"
proof -
  obtain ys m where r: "mru_run xs (mru_empty n) = (ys, m)" by (metis surj_pair)
  have "mru_ok (mru_empty n)" "mru_queue (mru_empty n) = keep_last (mru_max (mru_empty n)) []"
    by (simp_all add: mru_ok_def mru_empty_def keep_last_def)
  from mru_run_queue [OF this r] have m: "mru_ok m" "mru_queue m = keep_last n ys" by (simp_all add: mru_empty_def)
  then have "mru_set m = set (keep_last n ys)" "distinct (keep_last n ys)" unfolding m(2) [symmetric] by (simp_all add: mru_ok_def)
  then show ?thesis using m(2) by (simp add: r)
qed

section \<open>The map drops its lowest values\<close>

definition lim_ok :: "('k::linorder, 'v::linorder) limitedmap \<Rightarrow> bool" where
  "lim_ok m \<longleftrightarrow> sm_wf (lmap m) \<and> sorted (map fst (rmap m)) \<and> distinct (map snd (rmap m))
     \<and> (\<forall>k v. (v, k) \<in> set (rmap m) \<longleftrightarrow> map_of (lmap m) k = Some v)"

lemma set_mm_insert [simp]: "set (mm_insert v k r) = insert (v, k) (set r)"
  by (induction v k r rule: mm_insert.induct) (simp_all add: insert_commute)

lemma sorted_mm_insert: "sorted (map fst r) \<Longrightarrow> sorted (map fst (mm_insert v k r))"
proof (induction r)
  case (Cons e r)
  obtain w j where e: "e = (w, j)" by (cases e)
  have w: "w \<le> fst x" if "x \<in> set r" for x using Cons.prems that by (simp add: e)
  show ?case
  proof (cases "v < w")
    case True
    then have "v \<le> fst x" if "x \<in> set r" for x using w [OF that] by order
    then show ?thesis using True Cons.prems by (simp add: e less_imp_le)
  next
    case False
    then show ?thesis using Cons w by (auto simp: e not_less)
  qed
qed simp

lemma distinct_mm_insert: "distinct (map snd r) \<Longrightarrow> k \<notin> snd ` set r \<Longrightarrow> distinct (map snd (mm_insert v k r))"
  by (induction r) (auto simp: image_iff)

lemma lim_ok_keys: "lim_ok m \<Longrightarrow> snd ` set (rmap m) = dom (map_of (lmap m))"
  by (force simp: lim_ok_def image_iff)

lemma lim_ok_length: "lim_ok m \<Longrightarrow> length (rmap m) = length (lmap m)"
proof -
  assume ok: "lim_ok m"
  have "length (rmap m) = card (snd ` set (rmap m))"
    using ok by (metis lim_ok_def distinct_card length_map set_map)
  also have "\<dots> = card (set (map fst (lmap m)))" using lim_ok_keys [OF ok] by (simp add: dom_map_of_conv_image_fst)
  also have "\<dots> = length (lmap m)" using ok sm_wf_distinct [of "lmap m"] by (metis lim_ok_def distinct_card length_map)
  finally show ?thesis .
qed

lemma drop_lowest_ok:
  assumes "lim_ok m" "lmap m \<noteq> []"
  shows "\<exists>w j m'. drop_lowest m = Some m' \<and> lim_ok m' \<and> lim_max m' = lim_max m \<and> map_of (lmap m) j = Some w
    \<and> map_of (lmap m') = (map_of (lmap m))(j := None) \<and> (\<forall>k v. map_of (lmap m) k = Some v \<longrightarrow> w \<le> v)"
proof -
  have "rmap m \<noteq> []" using lim_ok_length [OF assms(1)] assms(2) by auto
  then obtain w j r where r: "rmap m = (w, j) # r" by (cases "rmap m") auto
  let ?m = "m\<lparr>lmap := sm_erase j (lmap m), rmap := r\<rparr>"
  have set: "(v, k) \<in> set (rmap m) \<longleftrightarrow> map_of (lmap m) k = Some v" for v k using assms(1) by (simp add: lim_ok_def)
  have dist: "distinct (map snd (rmap m))" using assms(1) by (simp add: lim_ok_def)
  have "(v, k) \<in> set r \<longleftrightarrow> map_of (sm_erase j (lmap m)) k = Some v" for v k
    using set [of v k] dist by (cases "k = j") (force simp: r)+
  then have "lim_ok ?m" using assms(1) by (simp add: lim_ok_def r sm_wf_erase)
  moreover have "w \<le> v" if "map_of (lmap m) k = Some v" for k v
  proof -
    have "(v, k) \<in> set (rmap m)" using assms(1) that by (simp add: lim_ok_def)
    moreover have "\<forall>x \<in> set (rmap m). w \<le> fst x" using assms(1) by (auto simp: lim_ok_def r)
    ultimately show ?thesis by (metis fst_conv)
  qed
  moreover have "map_of (lmap m) j = Some w" using assms(1) by (auto simp: lim_ok_def r)
  ultimately show ?thesis by (intro exI [of _ w] exI [of _ j] exI [of _ ?m]) (simp add: drop_lowest_def r)
qed

lemma lim_ok_put:
  assumes "lim_ok m" "map_of (lmap m) k = None"
  shows "lim_ok (m\<lparr>lmap := sm_put k v (lmap m), rmap := mm_insert v k (rmap m)\<rparr>)"
proof -
  have k: "k \<notin> snd ` set (rmap m)" using lim_ok_keys [OF assms(1)] assms(2) by auto
  have "(w, j) \<in> set (mm_insert v k (rmap m)) \<longleftrightarrow> map_of (sm_put k v (lmap m)) j = Some w" for w j
    using assms k by (cases "j = k") (auto simp: lim_ok_def)
  then show ?thesis using assms(1) k
    by (simp add: lim_ok_def sm_wf_put sorted_mm_insert distinct_mm_insert)
qed

lemma length_sm_put_new: "map_of m k = None \<Longrightarrow> length (sm_put k v m) = Suc (length m)"
  by (induction k v m rule: sm_put.induct) (auto split: if_splits)

text \<open>insert, for a new key: where the map would become as large as its limit, the lowest of the old values goes.\<close>

lemma lim_insert_ok:
  assumes ok: "lim_ok m" and ne: "\<not> (lim_max m = 1 \<and> lmap m = [])"
  shows "\<exists>m'. lim_insert k v m = Some m' \<and> lim_ok m' \<and> lim_max m' = lim_max m
    \<and> (map_of (lmap m) k = None \<and> lim_max m \<noteq> 0 \<and> length (lmap m) + 1 = lim_max m \<longrightarrow>
        (\<exists>w j. map_of (lmap m) j = Some w \<and> (\<forall>i u. map_of (lmap m) i = Some u \<longrightarrow> w \<le> u)
          \<and> map_of (lmap m') = (map_of (lmap m))(j := None, k \<mapsto> v)))
    \<and> (map_of (lmap m) k = None \<and> \<not> (lim_max m \<noteq> 0 \<and> length (lmap m) + 1 = lim_max m) \<longrightarrow>
        map_of (lmap m') = (map_of (lmap m))(k \<mapsto> v))
    \<and> (map_of (lmap m) k \<noteq> None \<longrightarrow> m' = m)"
proof (cases "map_of (lmap m) k = None")
  case False
  then show ?thesis using ok by (auto simp: lim_insert_def)
next
  case new: True
  show ?thesis
  proof (cases "lim_max m \<noteq> 0 \<and> length (lmap m) + 1 = lim_max m")
    case False
    then show ?thesis using new lim_ok_put [OF ok new, of v]
      by (auto simp: lim_insert_def length_sm_put_new)
  next
    case True
    have "lmap m \<noteq> []" using True ne by auto
    then obtain w j m1 where m1: "drop_lowest m = Some m1" "lim_ok m1" "map_of (lmap m) j = Some w"
      "map_of (lmap m1) = (map_of (lmap m))(j := None)" "\<forall>i u. map_of (lmap m) i = Some u \<longrightarrow> w \<le> u"
      using drop_lowest_ok [OF ok] by blast
    then obtain i w' r where r: "rmap m = (w', i) # r" "m1 = m\<lparr>lmap := sm_erase i (lmap m), rmap := r\<rparr>"
      by (auto simp: drop_lowest_def split: list.splits)
    have "map_of (lmap m) i = Some w'" using ok by (auto simp: lim_ok_def r(1))
    then have ij: "i = j" using m1(3,4) by (auto simp: r(2) fun_eq_iff split: if_splits)
    have k1: "map_of (lmap m1) k = None" using new by (simp add: m1(4))
    let ?m = "m\<lparr>lmap := sm_erase i (sm_put k v (lmap m)), rmap := mm_insert v k r\<rparr>"
    have run: "lim_insert k v m = Some ?m"
      using new True by (simp add: lim_insert_def drop_lowest_def r(1) length_sm_put_new)
    have "k \<noteq> j" using new m1(3) by auto
    then have same: "map_of (lmap ?m) = map_of (sm_put k v (lmap m1))" by (auto simp: r(2) ij fun_upd_twist)
    have "sm_wf (lmap ?m)" using ok by (simp add: lim_ok_def sm_wf_erase sm_wf_put)
    then have "lim_ok ?m" using lim_ok_put [OF m1(2) k1, of v] same by (simp add: lim_ok_def r(2))
    moreover have "map_of (lmap ?m) = (map_of (lmap m))(j := None, k \<mapsto> v)" using same m1(4) by simp
    ultimately show ?thesis using run new True m1(3,5) by (intro exI [of _ ?m]) auto
  qed
qed

lemma set_remove1_distinct: "distinct (map snd r) \<Longrightarrow> (v, k) \<in> set r \<Longrightarrow> set (remove1 (v, k) r) = set r - {(v, k)}"
  by (rule set_remove1_eq) (simp add: distinct_map)

lemma distinct_map_remove1: "distinct (map f r) \<Longrightarrow> distinct (map f (remove1 x r))"
proof (induction r)
  case (Cons y r)
  have "f y \<notin> f ` set (remove1 x r)" using Cons.prems set_remove1_subset [of x r] by auto
  with Cons show ?case by simp
qed simp

lemma remove1_ok:
  assumes "lim_ok m" "map_of (lmap m) k = Some v"
  shows "rmap_erase v k (rmap m) = Some (remove1 (v, k) (rmap m))"
    "lim_ok (m\<lparr>lmap := sm_erase k (lmap m), rmap := remove1 (v, k) (rmap m)\<rparr>)"
proof -
  have i: "(v, k) \<in> set (rmap m)" and d: "distinct (map snd (rmap m))" and wf: "sm_wf (lmap m)"
    and s: "sorted (map fst (rmap m))" and iff: "\<And>j w. (w, j) \<in> set (rmap m) \<longleftrightarrow> map_of (lmap m) j = Some w"
    using assms by (simp_all add: lim_ok_def)
  show "rmap_erase v k (rmap m) = Some (remove1 (v, k) (rmap m))" using i by (simp add: rmap_erase_def)
  have "sorted (map fst (remove1 (v, k) (rmap m)))" using s by (simp add: sorted_map_remove1)
  moreover have "distinct (map snd (remove1 (v, k) (rmap m)))" using d by (rule distinct_map_remove1)
  moreover have "(w, j) \<in> set (remove1 (v, k) (rmap m)) \<longleftrightarrow> map_of (sm_erase k (lmap m)) j = Some w" for j w
    unfolding set_remove1_distinct [OF d i] using iff [of w j] assms(2) by auto
  ultimately show "lim_ok (m\<lparr>lmap := sm_erase k (lmap m), rmap := remove1 (v, k) (rmap m)\<rparr>)"
    using wf by (simp add: lim_ok_def sm_wf_erase)
qed

lemma length_mm_insert [simp]: "length (mm_insert v k r) = Suc (length r)"
  by (induction v k r rule: mm_insert.induct) simp_all

lemma lim_erase_ok:
  assumes "lim_ok m"
  shows "\<exists>m'. lim_erase k m = Some m' \<and> lim_ok m' \<and> lim_max m' = lim_max m \<and> length (lmap m') \<le> length (lmap m)
    \<and> map_of (lmap m') = (map_of (lmap m))(k := None)"
proof (cases "map_of (lmap m) k")
  case None
  then show ?thesis using assms by (simp add: lim_erase_def fun_upd_idem)
next
  case (Some v)
  show ?thesis using remove1_ok [OF assms Some] Some by (simp add: lim_erase_def) (simp add: sm_erase_def)
qed

lemma lim_update_ok:
  assumes "lim_ok m"
  shows "\<exists>m'. lim_update k v m = Some m' \<and> lim_ok m' \<and> lim_max m' = lim_max m \<and> length (lmap m') = length (lmap m)
    \<and> map_of (lmap m') = (if map_of (lmap m) k = None then map_of (lmap m) else (map_of (lmap m))(k \<mapsto> v))"
proof (cases "map_of (lmap m) k")
  case None
  then show ?thesis using assms by (simp add: lim_update_def)
next
  case (Some w)
  let ?m1 = "m\<lparr>lmap := sm_erase k (lmap m), rmap := remove1 (w, k) (rmap m)\<rparr>"
  let ?m' = "m\<lparr>lmap := sm_put k v (lmap m), rmap := mm_insert v k (remove1 (w, k) (rmap m))\<rparr>"
  note ok1 = remove1_ok [OF assms Some]
  have ok2: "lim_ok (?m1\<lparr>lmap := sm_put k v (lmap ?m1), rmap := mm_insert v k (rmap ?m1)\<rparr>)"
    by (rule lim_ok_put [OF ok1(2)]) simp
  have ok': "lim_ok ?m'" using ok2 assms by (simp add: lim_ok_def sm_wf_put)
  have i: "(w, k) \<in> set (rmap m)" using assms Some by (simp add: lim_ok_def)
  then have "length (lmap ?m') = length (lmap m)"
    using lim_ok_length [OF ok'] lim_ok_length [OF assms] length_pos_if_in_set [OF i] by (simp add: length_remove1)
  then show ?thesis using ok' Some ok1(1) by (intro exI [of _ ?m']) (simp add: lim_update_def)
qed

inductive lim_reach :: "nat \<Rightarrow> ('k::linorder, 'v::linorder) limitedmap \<Rightarrow> bool" for N where
  start: "lim_reach N (lim_empty N)"
| insert: "lim_reach N m \<Longrightarrow> lim_insert k v m = Some m' \<Longrightarrow> lim_reach N m'"
| erase: "lim_reach N m \<Longrightarrow> lim_erase k m = Some m' \<Longrightarrow> lim_reach N m'"
| update: "lim_reach N m \<Longrightarrow> lim_update k v m = Some m' \<Longrightarrow> lim_reach N m'"

lemma lim_insert_length:
  assumes "lim_ok m" "length (lmap m) < lim_max m" "lim_insert k v m = Some m'"
  shows "length (lmap m') < lim_max m"
proof (cases "map_of (lmap m) k = None \<and> length (lmap m) + 1 = lim_max m")
  case True
  then obtain w j r where r: "rmap m = (w, j) # r" "rmap m' = mm_insert v k r"
    using assms(3) by (auto simp: lim_insert_def drop_lowest_def length_sm_put_new Let_def split: list.splits prod.splits)
  have "lmap m \<noteq> []" using r(1) lim_ok_length [OF assms(1)] by auto
  then have "lim_ok m'" using lim_insert_ok [OF assms(1), of k v] assms(3) by auto
  then show ?thesis using lim_ok_length [OF assms(1)] lim_ok_length [of m'] r assms(2) by simp
next
  case False
  then show ?thesis using assms
    by (auto simp: lim_insert_def length_sm_put_new split: if_splits bind_splits)
qed

text \<open>
  A limitedmap never holds as many elements as its limit. In every state that a new map with a limit of at
  least two can reach, the multimap and the map agree, so that no assertion fails, insert, erase and update
  return, and the map has fewer elements than the limit, although the comment of the class promises to keep
  that many: insert compares the size after the new element is in and drops the lowest of the old ones.
\<close>

theorem limitedmap_holds_fewer:
  assumes "lim_reach N m" "2 \<le> N"
  shows "lim_ok m \<and> length (lmap m) < N \<and> lim_insert k v m \<noteq> None \<and> lim_erase k m \<noteq> None \<and> lim_update k v m \<noteq> None"
proof -
  have "lim_ok m \<and> lim_max m = N \<and> length (lmap m) < N"
    using assms(1)
  proof (induction rule: lim_reach.induct)
    case start
    then show ?case using assms(2) by (simp add: lim_ok_def lim_empty_def)
  next
    case (insert m k v m')
    then show ?case using lim_insert_ok [of m k v] lim_insert_length [of m k v m'] assms(2) by auto
  next
    case (erase m k m')
    then show ?case using lim_erase_ok [of m k] by auto
  next
    case (update m k v m')
    then show ?case using lim_update_ok [of m k v] by auto
  qed
  moreover from this have "lim_insert k v m \<noteq> None" using lim_insert_ok [of m k v] assms(2) by auto
  ultimately show ?thesis using lim_erase_ok [of m k] lim_update_ok [of m k v] by auto
qed

theorem limitedmap_holds_fewer_witness:
  "lim_ok (lim_empty 3 :: (nat, nat) limitedmap) \<and> length (lmap (lim_empty 3 :: (nat, nat) limitedmap)) < 3
    \<and> lim_insert 1 2 (lim_empty 3 :: (nat, nat) limitedmap) \<noteq> None \<and> lim_erase 1 (lim_empty 3 :: (nat, nat) limitedmap) \<noteq> None
    \<and> lim_update 1 2 (lim_empty 3 :: (nat, nat) limitedmap) \<noteq> None"
  by (rule limitedmap_holds_fewer [OF lim_reach.start]) simp

text \<open>
  Two insertions into a map for two elements leave the second one alone, although the first value is the
  higher one; with a limit of one the first insertion uses the first element of an empty multimap.
\<close>

lemma limitedmap_examples:
  "map_option lmap (do { m \<leftarrow> lim_insert (1 :: nat) (9 :: nat) (lim_empty 2); lim_insert 2 5 m }) = Some [(2, 5)]"
  "lim_insert (1 :: nat) (9 :: nat) (lim_empty 1) = None"
  by code_simp+

end
