(* ===== verification/Bloom.thy ===== *)
theory Bloom
  imports MemPool
begin

text \<open>
  hash.cpp and bloom.cpp: MurmurHash3, and the Bloom filters with which light clients choose the transactions
  they are sent, with the messages filterload, filteradd and filterclear of main.cpp. The constructor that
  computes the size from a rate of false positives with floating point numbers is not modelled: a filter
  comes with its bytes and its number of hash functions. None is the division by zero of a filter without bytes.
\<close>

section \<open>MurmurHash3\<close>

definition ROTL32 :: "u32 \<Rightarrow> nat \<Rightarrow> u32" where
  "ROTL32 x r = push_bit r x OR drop_bit (32 - r) x"

definition murmur_mix :: "u32 \<Rightarrow> u32" where
  "murmur_mix k1 = ROTL32 (k1 * 0xcc9e2d51) 15 * 0x1b873593"

definition murmur_block :: "byte list \<Rightarrow> u32 \<Rightarrow> u32" where
  "murmur_block block h1 = ROTL32 (h1 XOR murmur_mix (word_of_nat (le_val block))) 13 * 5 + 0xe6546b64"

definition MurmurHash3 :: "u32 \<Rightarrow> byte list \<Rightarrow> u32" where
  "MurmurHash3 nHashSeed vDataToHash =
     (let nblocks = length vDataToHash div 4;
          h1 = fold (\<lambda>i. murmur_block (take 4 (drop (4 * i) vDataToHash))) [0..<nblocks] nHashSeed;
          tail = drop (4 * nblocks) vDataToHash;
          h1 = (if tail = [] then h1 else h1 XOR murmur_mix (word_of_nat (le_val tail)));
          h1 = h1 XOR word_of_nat (length vDataToHash);
          h1 = (h1 XOR drop_bit 16 h1) * 0x85ebca6b;
          h1 = (h1 XOR drop_bit 13 h1) * 0xc2b2ae35
      in h1 XOR drop_bit 16 h1)"

section \<open>CBloomFilter\<close>

definition MAX_BLOOM_FILTER_SIZE :: nat where "MAX_BLOOM_FILTER_SIZE = 36000"
definition MAX_HASH_FUNCS :: nat where "MAX_HASH_FUNCS = 50"
definition BLOOM_UPDATE_ALL :: byte where "BLOOM_UPDATE_ALL = 1"
definition BLOOM_UPDATE_P2PUBKEY_ONLY :: byte where "BLOOM_UPDATE_P2PUBKEY_ONLY = 2"
definition BLOOM_UPDATE_MASK :: byte where "BLOOM_UPDATE_MASK = 3"

record CBloomFilter =
  vData :: "byte list"
  isFull :: bool
  isEmpty :: bool
  nHashFuncs :: nat
  nTweak :: u32
  nFlags :: byte

definition bloom_hash :: "CBloomFilter \<Rightarrow> nat \<Rightarrow> byte list \<Rightarrow> nat option" where
  "bloom_hash f nHashNum vDataToHash =
     (if vData f = [] then None
      else Some (unat (MurmurHash3 (word_of_nat nHashNum * 0xFBA4C795 + nTweak f) vDataToHash) mod (length (vData f) * 8)))"

definition set_bit_at :: "nat \<Rightarrow> byte list \<Rightarrow> byte list" where
  "set_bit_at nIndex d = d[nIndex div 8 := d ! (nIndex div 8) OR push_bit (nIndex mod 8) 1]"

definition bit_at :: "nat \<Rightarrow> byte list \<Rightarrow> bool" where
  "bit_at nIndex d \<longleftrightarrow> d ! (nIndex div 8) AND push_bit (nIndex mod 8) 1 \<noteq> 0"

fun insert_loop :: "nat list \<Rightarrow> byte list \<Rightarrow> CBloomFilter \<Rightarrow> CBloomFilter option" where
  "insert_loop [] vKey f = Some f"
| "insert_loop (i # rest) vKey f =
     do { nIndex \<leftarrow> bloom_hash f i vKey; insert_loop rest vKey (f\<lparr>vData := set_bit_at nIndex (vData f)\<rparr>) }"

definition bloom_insert :: "byte list \<Rightarrow> CBloomFilter \<Rightarrow> CBloomFilter option" where
  "bloom_insert vKey f =
     (if isFull f then Some f
      else do { f \<leftarrow> insert_loop [0..<nHashFuncs f] vKey f; Some (f\<lparr>isEmpty := False\<rparr>) })"

fun contains_loop :: "nat list \<Rightarrow> byte list \<Rightarrow> CBloomFilter \<Rightarrow> bool option" where
  "contains_loop [] vKey f = Some True"
| "contains_loop (i # rest) vKey f =
     do { nIndex \<leftarrow> bloom_hash f i vKey;
          if \<not> bit_at nIndex (vData f) then Some False else contains_loop rest vKey f }"

definition bloom_contains :: "byte list \<Rightarrow> CBloomFilter \<Rightarrow> bool option" where
  "bloom_contains vKey f =
     (if isFull f then Some True else if isEmpty f then Some False else contains_loop [0..<nHashFuncs f] vKey f)"

definition IsWithinSizeConstraints :: "CBloomFilter \<Rightarrow> bool" where
  "IsWithinSizeConstraints f \<longleftrightarrow> length (vData f) \<le> MAX_BLOOM_FILTER_SIZE \<and> nHashFuncs f \<le> MAX_HASH_FUNCS"

definition UpdateEmptyFull :: "CBloomFilter \<Rightarrow> CBloomFilter" where
  "UpdateEmptyFull f = f\<lparr>isFull := list_all (\<lambda>b. b = 0xff) (vData f), isEmpty := list_all (\<lambda>b. b = 0) (vData f)\<rparr>"

text \<open>The data elements of a script in order, up to an instruction that cannot be read; true at the first match.\<close>

function match_script :: "CBloomFilter \<Rightarrow> script \<Rightarrow> bool option" where
  "match_script f pc =
     (if pc = [] then Some False
      else case GetOp2 pc of (ok, opcode, vch, pc') \<Rightarrow>
        if \<not> ok then Some False
        else if vch \<noteq> [] then do { found \<leftarrow> bloom_contains vch f; if found then Some True else match_script f pc' }
        else match_script f pc')"
  by pat_completeness auto
termination
  by (relation "measure (\<lambda>(f, pc). length pc)") (auto dest: GetOp2_less)

declare match_script.simps [simp del]

text \<open>What the filter takes up at a match of an output, and the loop over the outputs from the i-th one on.\<close>

definition add_outpoint :: "COutPoint \<Rightarrow> script \<Rightarrow> CBloomFilter \<Rightarrow> CBloomFilter option" where
  "add_outpoint outpoint s f =
     (if nFlags f AND BLOOM_UPDATE_MASK = BLOOM_UPDATE_ALL then bloom_insert (ser_outpoint outpoint) f
      else if nFlags f AND BLOOM_UPDATE_MASK = BLOOM_UPDATE_P2PUBKEY_ONLY then
        (case Solver s of (solved, type, vSolutions) \<Rightarrow>
           if solved \<and> (type = TX_PUBKEY \<or> type = TX_MULTISIG) then bloom_insert (ser_outpoint outpoint) f else Some f)
      else Some f)"

fun match_outputs :: "uint256 \<Rightarrow> nat \<Rightarrow> CTxOut list \<Rightarrow> bool \<Rightarrow> CBloomFilter \<Rightarrow> (bool \<times> CBloomFilter) option" where
  "match_outputs h i [] fFound f = Some (fFound, f)"
| "match_outputs h i (txout # rest) fFound f = do {
     found \<leftarrow> match_script f (scriptPubKey txout);
     f \<leftarrow> (if found then add_outpoint \<lparr>outhash = h, outn = word_of_nat i\<rparr> (scriptPubKey txout) f else Some f);
     match_outputs h (i + 1) rest (fFound \<or> found) f }"

fun match_inputs :: "CTxIn list \<Rightarrow> CBloomFilter \<Rightarrow> bool option" where
  "match_inputs [] f = Some False"
| "match_inputs (txin # rest) f = do {
     found \<leftarrow> bloom_contains (ser_outpoint (prevout txin)) f;
     if found then Some True
     else do { found \<leftarrow> match_script f (scriptSig txin); if found then Some True else match_inputs rest f } }"

definition IsRelevantAndUpdate :: "CTransaction \<Rightarrow> uint256 \<Rightarrow> CBloomFilter \<Rightarrow> (bool \<times> CBloomFilter) option" where
  "IsRelevantAndUpdate tx h f =
     (if isFull f then Some (True, f)
      else if isEmpty f then Some (False, f)
      else do {
        fFound \<leftarrow> bloom_contains (u256_bytes h) f;
        (fFound, f) \<leftarrow> match_outputs h 0 (vout tx) fFound f;
        if fFound then Some (True, f)
        else do { fFound \<leftarrow> match_inputs (vin tx) f; Some (fFound, f) } })"

section \<open>The filter of a peer\<close>

text \<open>
  What a connection keeps of the filter, and the sum of what Misbehaving was called with. A deserialized
  filter comes with arbitrary flags, and so does the default constructor but for isFull.
\<close>

record filter_peer =
  pfilter :: "CBloomFilter option"
  fRelayTxes :: bool
  misbehaved :: nat

definition CBloomFilter_new :: "CBloomFilter \<Rightarrow> CBloomFilter" where
  "CBloomFilter_new junk = junk\<lparr>vData := [], isFull := True\<rparr>"

definition new_peer :: "CBloomFilter \<Rightarrow> filter_peer" where
  "new_peer junk = \<lparr>pfilter = Some (CBloomFilter_new junk), fRelayTxes = False, misbehaved = 0\<rparr>"

definition filterload :: "CBloomFilter \<Rightarrow> filter_peer \<Rightarrow> filter_peer" where
  "filterload f p =
     (if \<not> IsWithinSizeConstraints f then p\<lparr>misbehaved := misbehaved p + 100\<rparr>
      else p\<lparr>pfilter := Some (UpdateEmptyFull f)\<rparr>)\<lparr>fRelayTxes := True\<rparr>"

definition filteradd :: "byte list \<Rightarrow> filter_peer \<Rightarrow> filter_peer option" where
  "filteradd data p =
     (if length data > MAX_SCRIPT_ELEMENT_SIZE then Some (p\<lparr>misbehaved := misbehaved p + 100\<rparr>)
      else case pfilter p of
        Some f \<Rightarrow> do { f \<leftarrow> bloom_insert data f; Some (p\<lparr>pfilter := Some f\<rparr>) }
      | None \<Rightarrow> Some (p\<lparr>misbehaved := misbehaved p + 100\<rparr>))"

definition filterclear :: "CBloomFilter \<Rightarrow> filter_peer \<Rightarrow> filter_peer" where
  "filterclear junk p = p\<lparr>pfilter := Some (CBloomFilter_new junk), fRelayTxes := True\<rparr>"

text \<open>RelayTransaction, for one peer: whether its inventory gets the transaction.\<close>

definition relay_to :: "CTransaction \<Rightarrow> uint256 \<Rightarrow> filter_peer \<Rightarrow> (bool \<times> filter_peer) option" where
  "relay_to tx h p =
     (if \<not> fRelayTxes p then Some (False, p)
      else case pfilter p of
        Some f \<Rightarrow> do { (rel, f) \<leftarrow> IsRelevantAndUpdate tx h f; Some (rel, p\<lparr>pfilter := Some f\<rparr>) }
      | None \<Rightarrow> Some (True, p))"

section \<open>Bits\<close>

lemma length_set_bit_at [simp]: "length (set_bit_at n d) = length d"
  by (simp add: set_bit_at_def)

lemma bit_at_iff: "bit_at n d \<longleftrightarrow> bit (d ! (n div 8)) (n mod 8)"
  by (simp add: bit_at_def bit_iff_and_push_bit_not_eq_0)

lemma bit_at_set_bit_at: "n < length d * 8 \<Longrightarrow> bit_at m (set_bit_at n d) \<longleftrightarrow> bit_at m d \<or> m = n"
proof -
  assume n: "n < length d * 8"
  then have d: "n div 8 < length d" by (simp add: less_mult_imp_div_less)
  have "m = n \<longleftrightarrow> m div 8 = n div 8 \<and> m mod 8 = n mod 8" by (metis div_mult_mod_eq)
  then show ?thesis
    using d by (cases "m div 8 = n div 8") (auto simp: bit_at_iff set_bit_at_def bit_or_iff bit_exp_iff)
qed

section \<open>Growing filters\<close>

text \<open>A filter that will not divide by zero, and the relation between a filter and what it becomes.\<close>

definition usable :: "CBloomFilter \<Rightarrow> bool" where
  "usable f \<longleftrightarrow> isFull f \<or> vData f \<noteq> []"

definition grows :: "CBloomFilter \<Rightarrow> CBloomFilter \<Rightarrow> bool" where
  "grows f g \<longleftrightarrow> length (vData g) = length (vData f) \<and> nTweak g = nTweak f \<and> nHashFuncs g = nHashFuncs f
     \<and> nFlags g = nFlags f \<and> isFull g = isFull f \<and> (isEmpty g \<longrightarrow> isEmpty f)
     \<and> (\<forall>n. bit_at n (vData f) \<longrightarrow> bit_at n (vData g))"

lemma grows_refl [simp]: "grows f f"
  by (simp add: grows_def)

lemma grows_trans: "grows f g \<Longrightarrow> grows g h \<Longrightarrow> grows f h"
  by (auto simp: grows_def)

lemma grows_usable: "grows f g \<Longrightarrow> usable f \<Longrightarrow> usable g"
  by (auto simp: grows_def usable_def)

lemma bloom_hash_cong: "length (vData g) = length (vData f) \<Longrightarrow> nTweak g = nTweak f \<Longrightarrow> bloom_hash g i v = bloom_hash f i v"
  by (cases "vData f"; cases "vData g") (auto simp: bloom_hash_def)

lemma bloom_hash_Some: "vData f \<noteq> [] \<Longrightarrow> \<exists>n. bloom_hash f i v = Some n \<and> n < length (vData f) * 8"
  by (auto simp: bloom_hash_def)

lemma insert_loop_spec:
  "vData f \<noteq> [] \<Longrightarrow> \<exists>g. insert_loop is v f = Some g \<and> grows f g
    \<and> (\<forall>i \<in> set is. \<forall>n. bloom_hash f i v = Some n \<longrightarrow> bit_at n (vData g))"
proof (induction "is" arbitrary: f)
  case (Cons i "is")
  obtain n where n: "bloom_hash f i v = Some n" "n < length (vData f) * 8" using bloom_hash_Some [OF Cons.prems] by blast
  let ?f = "f\<lparr>vData := set_bit_at n (vData f)\<rparr>"
  have g1: "grows f ?f" "bit_at n (vData ?f)" using bit_at_set_bit_at [OF n(2)] by (auto simp: grows_def)
  have "vData ?f \<noteq> []" using Cons.prems by (simp add: set_bit_at_def)
  from Cons.IH [OF this] obtain g where g: "insert_loop is v ?f = Some g" "grows ?f g"
    "\<forall>i \<in> set is. \<forall>n. bloom_hash ?f i v = Some n \<longrightarrow> bit_at n (vData g)" by blast
  have "bloom_hash ?f j v = bloom_hash f j v" for j by (rule bloom_hash_cong) simp_all
  moreover have "bit_at n (vData g)" using g1(2) g(2) unfolding grows_def by blast
  ultimately show ?case using g n(1) grows_trans [OF g1(1) g(2)] by auto
qed simp

lemma contains_loop_True:
  "contains_loop is v f = Some True \<longleftrightarrow> (\<forall>i \<in> set is. \<exists>n. bloom_hash f i v = Some n \<and> bit_at n (vData f))"
  by (induction "is") (auto split: bind_split)

lemma contains_loop_Some: "vData f \<noteq> [] \<Longrightarrow> \<exists>b. contains_loop is v f = Some b"
proof (induction "is")
  case (Cons i "is")
  obtain n where "bloom_hash f i v = Some n" using bloom_hash_Some [OF Cons.prems] by blast
  then show ?case using Cons by (auto simp: ex_bool_eq)
qed (auto simp: ex_bool_eq)

lemma contains_total: "usable f \<Longrightarrow> \<exists>b. bloom_contains v f = Some b"
  using contains_loop_Some [of f] by (auto simp: bloom_contains_def usable_def)

lemma contains_grows:
  assumes "grows f g" "bloom_contains v f = Some True"
  shows "bloom_contains v g = Some True"
proof (cases "isFull f")
  case True
  then show ?thesis using assms(1) by (simp add: bloom_contains_def grows_def)
next
  case False
  then have "contains_loop [0..<nHashFuncs f] v f = Some True" "\<not> isEmpty f"
    using assms(2) by (auto simp: bloom_contains_def split: if_splits)
  then have "contains_loop [0..<nHashFuncs g] v g = Some True"
    using assms(1) bloom_hash_cong [of g f] unfolding contains_loop_True grows_def by auto
  then show ?thesis using assms(1) \<open>\<not> isEmpty f\<close> by (auto simp: bloom_contains_def grows_def)
qed

lemma insert_spec:
  assumes "usable f"
  shows "\<exists>g. bloom_insert v f = Some g \<and> grows f g \<and> bloom_contains v g = Some True"
proof (cases "isFull f")
  case True
  then show ?thesis by (simp add: bloom_insert_def bloom_contains_def)
next
  case False
  then have v: "vData f \<noteq> []" using assms by (simp add: usable_def)
  obtain g where g: "insert_loop [0..<nHashFuncs f] v f = Some g" "grows f g"
    "\<forall>i \<in> set [0..<nHashFuncs f]. \<forall>n. bloom_hash f i v = Some n \<longrightarrow> bit_at n (vData g)" using insert_loop_spec [OF v] by blast
  let ?g = "g\<lparr>isEmpty := False\<rparr>"
  have gr: "grows f ?g" using g(2) by (simp add: grows_def)
  have "contains_loop [0..<nHashFuncs ?g] v ?g = Some True"
    unfolding contains_loop_True
  proof
    fix i assume "i \<in> set [0..<nHashFuncs ?g]"
    then have i: "i \<in> set [0..<nHashFuncs f]" using gr by (simp add: grows_def)
    obtain n where n: "bloom_hash f i v = Some n" using bloom_hash_Some [OF v] by blast
    then have "bloom_hash ?g i v = Some n" using bloom_hash_cong [of ?g f] gr by (simp add: grows_def)
    then show "\<exists>n. bloom_hash ?g i v = Some n \<and> bit_at n (vData ?g)" using g(3) i n by simp
  qed
  then have "bloom_contains v ?g = Some True" using gr False by (simp add: bloom_contains_def grows_def)
  then show ?thesis using g(1) gr False by (intro exI [of _ ?g]) (simp add: bloom_insert_def)
qed

section \<open>Scripts and transactions\<close>

text \<open>The data elements of a script, as far as it can be read.\<close>

function script_elements :: "script \<Rightarrow> valtype list" where
  "script_elements pc =
     (if pc = [] then []
      else case GetOp2 pc of (ok, opcode, vch, pc') \<Rightarrow> if \<not> ok then [] else vch # script_elements pc')"
  by pat_completeness auto
termination
  by (relation "measure length") (auto dest: GetOp2_less)

declare script_elements.simps [simp del]

definition script_matches :: "CBloomFilter \<Rightarrow> script \<Rightarrow> bool" where
  "script_matches f s \<longleftrightarrow> (\<exists>v \<in> set (script_elements s). v \<noteq> [] \<and> bloom_contains v f = Some True)"

lemma match_script_eq: "usable f \<Longrightarrow> match_script f pc = Some (script_matches f pc)"
proof (induction f pc rule: match_script.induct)
  case (1 f pc)
  obtain ok opcode vch pc' where g: "GetOp2 pc = (ok, opcode, vch, pc')" by (rule prod_cases4)
  obtain b where b: "bloom_contains vch f = Some b" using contains_total [OF "1.prems"] by blast
  show ?case
  proof (cases "pc = [] \<or> \<not> ok")
    case True
    then show ?thesis
      by (auto simp: match_script.simps [of f pc] script_elements.simps [of pc] script_matches_def g)
  next
    case False
    then have e: "script_elements pc = vch # script_elements pc'" by (simp add: script_elements.simps [of pc] g)
    show ?thesis
    proof (cases "vch \<noteq> [] \<and> b")
      case True
      then show ?thesis using False b by (auto simp: match_script.simps [of f pc] script_matches_def g e)
    next
      case no: False
      have "match_script f pc' = Some (script_matches f pc')"
      proof (cases "vch = []")
        case True
        then show ?thesis using "1.IH"(2) [OF _ g [symmetric] refl refl] False "1.prems" by blast
      next
        case v: False
        then show ?thesis using "1.IH"(1) [OF _ g [symmetric] refl refl _ v b] no False "1.prems" by blast
      qed
      then show ?thesis using False no b by (auto simp: match_script.simps [of f pc] script_matches_def g e)
    qed
  qed
qed

lemma script_matches_grows: "grows f g \<Longrightarrow> script_matches f s \<Longrightarrow> script_matches g s"
  unfolding script_matches_def using contains_grows by blast

text \<open>The outputs whose outpoint the filter takes up when their script matches.\<close>

definition follows :: "CBloomFilter \<Rightarrow> script \<Rightarrow> bool" where
  "follows f s \<longleftrightarrow> nFlags f AND BLOOM_UPDATE_MASK = BLOOM_UPDATE_ALL
     \<or> nFlags f AND BLOOM_UPDATE_MASK = BLOOM_UPDATE_P2PUBKEY_ONLY \<and> fst (Solver s)
        \<and> (fst (snd (Solver s)) = TX_PUBKEY \<or> fst (snd (Solver s)) = TX_MULTISIG)"

lemma follows_grows: "grows f g \<Longrightarrow> follows g s = follows f s"
  by (simp add: follows_def grows_def)

lemma add_outpoint_spec:
  assumes "usable f"
  shows "\<exists>g. add_outpoint p s f = Some g \<and> grows f g \<and> (follows f s \<longrightarrow> bloom_contains (ser_outpoint p) g = Some True)"
proof -
  obtain g where g: "bloom_insert (ser_outpoint p) f = Some g" "grows f g" "bloom_contains (ser_outpoint p) g = Some True"
    using insert_spec [OF assms] by blast
  obtain solved type sols where S: "Solver s = (solved, type, sols)" by (rule prod_cases3)
  have "add_outpoint p s f = (if follows f s then Some g else Some f)"
    by (auto simp: add_outpoint_def follows_def S g(1))
  then show ?thesis using g by (cases "follows f s") auto
qed

lemma match_outputs_spec:
  "usable f \<Longrightarrow> \<exists>b g. match_outputs h i outs found f = Some (b, g) \<and> grows f g \<and> (found \<longrightarrow> b)
    \<and> (\<forall>k < length outs. script_matches f (scriptPubKey (outs ! k)) \<longrightarrow> b
        \<and> (follows f (scriptPubKey (outs ! k)) \<longrightarrow>
             bloom_contains (ser_outpoint \<lparr>outhash = h, outn = word_of_nat (i + k)\<rparr>) g = Some True))"
proof (induction outs arbitrary: i found f)
  case (Cons out outs)
  let ?s = "scriptPubKey out" and ?m = "script_matches f (scriptPubKey out)"
  let ?p = "\<lambda>k. \<lparr>outhash = h, outn = word_of_nat k\<rparr> :: COutPoint"
  obtain f' where f': "(if ?m then add_outpoint (?p i) ?s f else Some f) = Some f'" "grows f f'"
    "?m \<and> follows f ?s \<longrightarrow> bloom_contains (ser_outpoint (?p i)) f' = Some True"
    using add_outpoint_spec [OF Cons.prems, of "?p i" ?s] by (cases ?m) auto
  have u: "usable f'" using grows_usable f'(2) Cons.prems by blast
  obtain b g where g: "match_outputs h (i + 1) outs (found \<or> ?m) f' = Some (b, g)" "grows f' g" "found \<or> ?m \<longrightarrow> b"
    and k: "\<And>k. k < length outs \<Longrightarrow> script_matches f' (scriptPubKey (outs ! k)) \<Longrightarrow> b
        \<and> (follows f' (scriptPubKey (outs ! k)) \<longrightarrow> bloom_contains (ser_outpoint (?p (i + 1 + k))) g = Some True)"
    using Cons.IH [OF u, of "i + 1" "found \<or> ?m"] by blast
  have "match_outputs h i (out # outs) found f = Some (b, g)"
    using f'(1) g(1) by (simp add: match_script_eq [OF Cons.prems] del: of_nat_Suc)
  moreover have "script_matches f (scriptPubKey ((out # outs) ! k)) \<longrightarrow> b
      \<and> (follows f (scriptPubKey ((out # outs) ! k)) \<longrightarrow> bloom_contains (ser_outpoint (?p (i + k))) g = Some True)"
    if "k < length (out # outs)" for k
  proof (cases k)
    case 0
    then show ?thesis using g(3) f'(3) contains_grows [OF g(2)] by auto
  next
    case (Suc j)
    then have "j < length outs" using that by simp
    from k [OF this] show ?thesis using Suc script_matches_grows [OF f'(2)] follows_grows [OF f'(2)] by auto
  qed
  ultimately show ?case using g(3) grows_trans [OF f'(2) g(2)] by blast
qed simp

lemma match_inputs_eq:
  "usable f \<Longrightarrow> match_inputs ins f = Some (\<exists>x \<in> set ins. bloom_contains (ser_outpoint (prevout x)) f = Some True
     \<or> script_matches f (scriptSig x))"
proof (induction ins)
  case (Cons x ins)
  obtain b where "bloom_contains (ser_outpoint (prevout x)) f = Some b" using contains_total [OF Cons.prems] by blast
  then show ?case using Cons by (auto simp: match_script_eq)
qed simp

text \<open>What makes a transaction relevant for a filter.\<close>

definition tx_matches :: "CBloomFilter \<Rightarrow> CTransaction \<Rightarrow> uint256 \<Rightarrow> bool" where
  "tx_matches f tx h \<longleftrightarrow> bloom_contains (u256_bytes h) f = Some True
     \<or> (\<exists>txo \<in> set (vout tx). script_matches f (scriptPubKey txo))
     \<or> (\<exists>x \<in> set (vin tx). bloom_contains (ser_outpoint (prevout x)) f = Some True \<or> script_matches f (scriptSig x))"

lemma tx_matches_grows: "grows f g \<Longrightarrow> tx_matches f tx h \<Longrightarrow> tx_matches g tx h"
  unfolding tx_matches_def using contains_grows script_matches_grows by blast

lemma relevant_spec:
  assumes "usable f"
  shows "\<exists>b g. IsRelevantAndUpdate tx h f = Some (b, g) \<and> grows f g \<and> (tx_matches f tx h \<longrightarrow> b)
    \<and> (\<forall>k < length (vout tx). script_matches f (scriptPubKey (vout tx ! k)) \<and> follows f (scriptPubKey (vout tx ! k)) \<longrightarrow>
         bloom_contains (ser_outpoint \<lparr>outhash = h, outn = word_of_nat k\<rparr>) g = Some True)"
proof (cases "isFull f \<or> isEmpty f")
  case True
  then show ?thesis
    by (auto simp: IsRelevantAndUpdate_def tx_matches_def script_matches_def bloom_contains_def)
next
  case False
  obtain b0 where b0: "bloom_contains (u256_bytes h) f = Some b0" using contains_total [OF assms] by blast
  obtain b g where g: "match_outputs h 0 (vout tx) b0 f = Some (b, g)" "grows f g" "b0 \<longrightarrow> b"
    "\<And>k. k < length (vout tx) \<Longrightarrow> script_matches f (scriptPubKey (vout tx ! k)) \<Longrightarrow> b
        \<and> (follows f (scriptPubKey (vout tx ! k)) \<longrightarrow> bloom_contains (ser_outpoint \<lparr>outhash = h, outn = word_of_nat (0 + k)\<rparr>) g = Some True)"
    using match_outputs_spec [OF assms, of h 0 "vout tx" b0] by blast
  have u: "usable g" using grows_usable g(2) assms by blast
  let ?i = "\<exists>x \<in> set (vin tx). bloom_contains (ser_outpoint (prevout x)) g = Some True \<or> script_matches g (scriptSig x)"
  have "IsRelevantAndUpdate tx h f = Some (b \<or> ?i, g)"
    using False b0 g(1) match_inputs_eq [OF u, of "vin tx"] by (simp add: IsRelevantAndUpdate_def)
  moreover have "tx_matches f tx h \<longrightarrow> b \<or> ?i"
  proof
    assume "tx_matches f tx h"
    then consider "b0" | txo where "txo \<in> set (vout tx)" "script_matches f (scriptPubKey txo)" | ?i
      using b0 contains_grows [OF g(2)] script_matches_grows [OF g(2)] unfolding tx_matches_def by auto
    then show "b \<or> ?i"
    proof cases
      case 2
      then obtain k where "k < length (vout tx)" "vout tx ! k = txo" by (auto simp: in_set_conv_nth)
      with 2 g(4) show ?thesis by blast
    qed (use g(3) in blast)+
  qed
  moreover have "bloom_contains (ser_outpoint \<lparr>outhash = h, outn = word_of_nat k\<rparr>) g = Some True"
    if "k < length (vout tx)" "script_matches f (scriptPubKey (vout tx ! k)) \<and> follows f (scriptPubKey (vout tx ! k))" for k
    using g(4) [OF that(1)] that(2) by simp
  ultimately show ?thesis using g(2) by blast
qed

end
