(* ===== verification/BloomFacts.thy ===== *)
theory BloomFacts
  imports Bloom
begin

text \<open>
  What the filters of bloom.cpp promise: an inserted element is found for ever, the transactions that spend a
  matched output are found, no operation of a peer's filter divides by zero, and the two flags are a cache.
\<close>

section \<open>The flags\<close>

definition flags_ok :: "CBloomFilter \<Rightarrow> bool" where
  "flags_ok f \<longleftrightarrow> (isFull f \<longrightarrow> list_all (\<lambda>b. b = 0xff) (vData f)) \<and> (isEmpty f \<and> \<not> isFull f \<longrightarrow> list_all (\<lambda>b. b = 0) (vData f))"

lemma byte_ff: "n < 8 \<Longrightarrow> (0xff :: byte) AND push_bit n 1 \<noteq> 0"
proof -
  assume "n < 8"
  then have "n \<in> {0, 1, 2, 3, 4, 5, 6, 7}" by auto
  then show ?thesis by (elim insertE) (simp_all add: push_bit_eq_mult)
qed

lemma flags_ok_contains:
  assumes "flags_ok f" "vData f \<noteq> []" "0 < nHashFuncs f"
  shows "bloom_contains v f = contains_loop [0..<nHashFuncs f] v f"
proof -
  have idx: "vData f ! (n div 8) \<in> set (vData f)" if "n < length (vData f) * 8" for n
    using that by (simp add: less_mult_imp_div_less)
  show ?thesis
  proof (cases "isFull f")
    case True
    have "bit_at n (vData f)" if "n < length (vData f) * 8" for n
    proof -
      have "vData f ! (n div 8) = 0xff"
        using assms(1) True idx [OF that] unfolding flags_ok_def list_all_iff by blast
      then show ?thesis using byte_ff [of "n mod 8"] by (simp add: bit_at_def)
    qed
    then have "contains_loop [0..<nHashFuncs f] v f = Some True"
      unfolding contains_loop_True using bloom_hash_Some [OF assms(2)] by blast
    with True show ?thesis by (simp add: bloom_contains_def)
  next
    case full: False
    show ?thesis
    proof (cases "isEmpty f")
      case True
      obtain n where n: "bloom_hash f 0 v = Some n" "n < length (vData f) * 8" using bloom_hash_Some [OF assms(2)] by blast
      have "vData f ! (n div 8) = 0"
        using assms(1) True full idx [OF n(2)] unfolding flags_ok_def list_all_iff by blast
      then have "\<not> bit_at n (vData f)" by (simp add: bit_at_def)
      then have "contains_loop [0..<nHashFuncs f] v f = Some False"
        using n(1) assms(3) by (simp add: upt_conv_Cons)
      with True full show ?thesis by (simp add: bloom_contains_def)
    next
      case False
      with full show ?thesis by (simp add: bloom_contains_def)
    qed
  qed
qed

section \<open>The states of a peer\<close>

inductive peer_step :: "filter_peer \<Rightarrow> filter_peer \<Rightarrow> bool" where
  version: "peer_step p (p\<lparr>fRelayTxes := b\<rparr>)"
| load: "peer_step p (filterload f p)"
| add: "filteradd d p = Some q \<Longrightarrow> peer_step p q"
| clear: "peer_step p (filterclear junk p)"
| relay: "relay_to tx h p = Some (b, q) \<Longrightarrow> peer_step p q"
| scan: "pfilter p = Some f \<Longrightarrow> IsRelevantAndUpdate tx h f = Some (b, g) \<Longrightarrow> peer_step p (p\<lparr>pfilter := Some g\<rparr>)"

inductive peer_reach :: "filter_peer \<Rightarrow> bool" where
  start: "peer_reach (new_peer junk)"
| step: "peer_reach p \<Longrightarrow> peer_step p q \<Longrightarrow> peer_reach q"

text \<open>The default filter is the only one whose number of hash functions nothing bounds: it is never set.\<close>

definition filter_ok :: "CBloomFilter \<Rightarrow> bool" where
  "filter_ok f \<longleftrightarrow> usable f \<and> flags_ok f \<and> length (vData f) \<le> MAX_BLOOM_FILTER_SIZE
     \<and> (nHashFuncs f \<le> MAX_HASH_FUNCS \<or> vData f = [] \<and> isFull f)"

lemma filter_ok_new: "filter_ok (CBloomFilter_new junk)"
  by (simp add: filter_ok_def usable_def flags_ok_def CBloomFilter_new_def)

lemma filter_ok_load: "IsWithinSizeConstraints f \<Longrightarrow> filter_ok (UpdateEmptyFull f)"
  by (auto simp: filter_ok_def usable_def flags_ok_def UpdateEmptyFull_def IsWithinSizeConstraints_def)

text \<open>An operation that leaves the filter alone or inserts keeps the two flags true.\<close>

definition same_or_inserted :: "CBloomFilter \<Rightarrow> CBloomFilter \<Rightarrow> bool" where
  "same_or_inserted f g \<longleftrightarrow> grows f g \<and> (isFull f \<longrightarrow> g = f) \<and> (isEmpty g \<longrightarrow> g = f)"

lemma same_or_inserted_refl [simp]: "same_or_inserted f f"
  by (simp add: same_or_inserted_def)

lemma same_or_inserted_trans: "same_or_inserted f g \<Longrightarrow> same_or_inserted g h \<Longrightarrow> same_or_inserted f h"
  unfolding same_or_inserted_def using grows_trans by blast

lemma filter_ok_keeps:
  assumes "same_or_inserted f g" "filter_ok f" shows "filter_ok g"
proof (cases "isFull f \<or> isEmpty g")
  case True
  then show ?thesis using assms by (auto simp: same_or_inserted_def)
next
  case False
  have gr: "grows f g" using assms(1) by (simp add: same_or_inserted_def)
  have "usable g" using grows_usable [OF gr] assms(2) by (simp add: filter_ok_def)
  with False gr assms(2) show ?thesis
    by (auto simp: filter_ok_def flags_ok_def grows_def)
qed

lemma insert_same: "usable f \<Longrightarrow> bloom_insert v f = Some g \<Longrightarrow> same_or_inserted f g"
  using insert_spec [of f v] by (auto simp: same_or_inserted_def bloom_insert_def split: if_splits bind_splits)

lemma add_outpoint_same: "usable f \<Longrightarrow> add_outpoint p s f = Some g \<Longrightarrow> same_or_inserted f g"
  using insert_same [of f "ser_outpoint p" g] by (auto simp: add_outpoint_def split: if_splits prod.splits)

lemma match_outputs_same:
  "usable f \<Longrightarrow> match_outputs h i outs found f = Some (b, g) \<Longrightarrow> same_or_inserted f g"
proof (induction outs arbitrary: i found f)
  case (Cons out outs)
  obtain m f' where m: "(if m then add_outpoint \<lparr>outhash = h, outn = word_of_nat i\<rparr> (scriptPubKey out) f else Some f) = Some f'"
    and rest: "match_outputs h (i + 1) outs (found \<or> m) f' = Some (b, g)"
    using Cons.prems(2) by (auto split: bind_splits)
  have f': "same_or_inserted f f'" using m add_outpoint_same [OF Cons.prems(1)] by (cases m) auto
  then have "usable f'" using Cons.prems(1) grows_usable unfolding same_or_inserted_def by blast
  from same_or_inserted_trans [OF f' Cons.IH [OF this rest]] show ?case .
qed simp

lemma relevant_same: "usable f \<Longrightarrow> IsRelevantAndUpdate tx h f = Some (b, g) \<Longrightarrow> same_or_inserted f g"
  using match_outputs_same [of f h 0 "vout tx"]
  by (auto simp: IsRelevantAndUpdate_def split: if_splits bind_splits)

lemma peer_reach_ok: "peer_reach p \<Longrightarrow> \<exists>f. pfilter p = Some f \<and> filter_ok f"
proof (induction rule: peer_reach.induct)
  case (start junk)
  show ?case using filter_ok_new by (simp add: new_peer_def)
next
  case (step p q)
  then obtain f where f: "pfilter p = Some f" "filter_ok f" by blast
  then have u: "usable f" by (simp add: filter_ok_def)
  from step(2) show ?case
  proof cases
    case (load f')
    then show ?thesis using f filter_ok_load [of f'] by (auto simp: filterload_def)
  next
    case (add d)
    then show ?thesis using f filter_ok_keeps [OF insert_same [OF u]]
      by (auto simp: filteradd_def split: if_splits bind_splits)
  next
    case (clear junk)
    then show ?thesis using filter_ok_new by (simp add: filterclear_def)
  next
    case (relay tx h b)
    then show ?thesis using f filter_ok_keeps [OF relevant_same [OF u]]
      by (auto simp: relay_to_def split: if_splits bind_splits)
  next
    case (scan f' tx h b g)
    then show ?thesis using f filter_ok_keeps [OF relevant_same [OF u]] by auto
  qed (use f in auto)
qed

section \<open>Properties\<close>

text \<open>
  C30: whatever sequence of filterload, filteradd, filterclear, version, relayed and scanned transactions a
  peer's filter goes through from the new connection on, every operation on it returns: the modulus of
  CBloomFilter::Hash is never taken with a filter without bytes, even when the peer loads one, because
  UpdateEmptyFull calls an empty vector full. The filter has at most MAX_BLOOM_FILTER_SIZE bytes and
  MAX_HASH_FUNCS hash functions, except that the number of hash functions is what was in the memory as long as
  the filter is the default one, of a new connection and after filterclear: that one has no bytes and is full,
  so that no operation reads the number.
\<close>

theorem peer_filter_operations_return:
  assumes "peer_reach p"
  shows "\<exists>f. pfilter p = Some f \<and> bloom_contains v f \<noteq> None \<and> IsRelevantAndUpdate tx h f \<noteq> None
      \<and> filteradd d p \<noteq> None \<and> relay_to tx h p \<noteq> None
      \<and> length (vData f) \<le> MAX_BLOOM_FILTER_SIZE \<and> (nHashFuncs f \<le> MAX_HASH_FUNCS \<or> vData f = [] \<and> isFull f)"
proof -
  obtain f where f: "pfilter p = Some f" "filter_ok f" using peer_reach_ok [OF assms] by blast
  then have u: "usable f" by (simp add: filter_ok_def)
  show ?thesis
    using f contains_total [OF u, of v] relevant_spec [OF u, of tx h] insert_spec [OF u, of d]
    by (auto simp: filter_ok_def filteradd_def relay_to_def)
qed

text \<open>
  C31: the flags isFull and isEmpty are a cache of the bits. For every filter with bytes and hash functions
  that a peer can have, contains answers what the loop over the hash functions finds in the bits, and that
  holds of the filter as it was loaded, too.
\<close>

theorem bloom_flags_are_cache:
  assumes "peer_reach p" "pfilter p = Some f" "vData f \<noteq> []" "0 < nHashFuncs f"
  shows "bloom_contains v f = contains_loop [0..<nHashFuncs f] v f"
  using flags_ok_contains [OF _ assms(3,4)] peer_reach_ok [OF assms(1)] assms(2) by (auto simp: filter_ok_def)

text \<open>
  No false negatives. An element inserted into a filter is found in it after any number of further steps
  that insert or scan, and so is every element found before.
\<close>

theorem bloom_no_false_negative:
  assumes "usable f"
  shows "\<exists>g. bloom_insert v f = Some g \<and> usable g \<and> bloom_contains v g = Some True
    \<and> (\<forall>w. bloom_contains w f = Some True \<longrightarrow> bloom_contains w g = Some True)
    \<and> (\<forall>tx h b k w. IsRelevantAndUpdate tx h g = Some (b, k) \<longrightarrow> bloom_contains w g = Some True \<longrightarrow>
         bloom_contains w k = Some True)"
proof -
  obtain g where g: "bloom_insert v f = Some g" "grows f g" "bloom_contains v g = Some True"
    using insert_spec [OF assms] by blast
  have u: "usable g" using grows_usable g(2) assms by blast
  have "grows g k" if "IsRelevantAndUpdate tx h g = Some (b, k)" for tx h b k
    using relevant_same [OF u that] by (simp add: same_or_inserted_def)
  with g u show ?thesis using contains_grows by blast
qed

text \<open>
  C32: the filter follows the coins. If an output of a transaction has a data element that the filter
  contains (and the flags of the filter ask to follow it), then the transaction is relevant, and every later
  transaction that spends the output is relevant to every filter that grew out of this one, without any
  message of the peer in between.
\<close>

theorem bloom_finds_spenders:
  assumes "usable f" "k < length (vout tx)" "v \<in> set (script_elements (scriptPubKey (vout tx ! k)))" "v \<noteq> []"
    and "bloom_contains v f = Some True" "follows f (scriptPubKey (vout tx ! k))"
  shows "\<exists>g. IsRelevantAndUpdate tx h f = Some (True, g)
    \<and> (\<forall>g' tx' h'. grows g g' \<longrightarrow> (\<exists>x \<in> set (vin tx'). prevout x = \<lparr>outhash = h, outn = word_of_nat k\<rparr>)
        \<longrightarrow> (\<exists>g''. IsRelevantAndUpdate tx' h' g' = Some (True, g'')))"
proof -
  have m: "script_matches f (scriptPubKey (vout tx ! k))" using assms(3-5) by (auto simp: script_matches_def)
  then have "tx_matches f tx h" using assms(2) by (auto simp: tx_matches_def)
  then obtain g where g: "IsRelevantAndUpdate tx h f = Some (True, g)" "grows f g"
    "bloom_contains (ser_outpoint \<lparr>outhash = h, outn = word_of_nat k\<rparr>) g = Some True"
    using relevant_spec [OF assms(1), of tx h] m assms(2,6) by auto
  have "\<exists>g''. IsRelevantAndUpdate tx' h' g' = Some (True, g'')"
    if gr: "grows g g'" and x: "\<exists>x \<in> set (vin tx'). prevout x = \<lparr>outhash = h, outn = word_of_nat k\<rparr>" for g' tx' h'
  proof -
    have "usable g'" using grows_usable [OF gr] grows_usable [OF g(2) assms(1)] by blast
    moreover have "tx_matches g' tx' h'"
      using x contains_grows [OF gr g(3)] unfolding tx_matches_def by metis
    ultimately show ?thesis using relevant_spec [of g' tx' h'] by auto
  qed
  with g(1) show ?thesis by blast
qed

section \<open>Examples\<close>

text \<open>The filter of bloom_create_insert_serialize in bloom_tests.cpp.\<close>

definition bloom_example :: CBloomFilter where
  "bloom_example = \<lparr>vData = [0, 0, 0], isFull = False, isEmpty = False, nHashFuncs = 5, nTweak = 0, nFlags = 1\<rparr>"

definition example_keys :: "byte list list" where
  "example_keys =
    [[0x99,0x10,0x8a,0xd8,0xed,0x9b,0xb6,0x27,0x4d,0x39,0x80,0xba,0xb5,0xa8,0x5c,0x04,0x8f,0x09,0x50,0xc8],
     [0xb5,0xa2,0xc7,0x86,0xd9,0xef,0x46,0x58,0x28,0x7c,0xed,0x59,0x14,0xb3,0x7a,0x1b,0x4a,0xa3,0x2e,0xee],
     [0xb9,0x30,0x06,0x70,0xb4,0xc5,0x36,0x6e,0x95,0xb2,0x69,0x9e,0x8b,0x18,0xbc,0x75,0xe5,0xf7,0x29,0xc5]]"

definition insert_all :: "byte list list \<Rightarrow> CBloomFilter \<Rightarrow> CBloomFilter option" where
  "insert_all ks f = foldl (\<lambda>f v. f \<bind> bloom_insert v) (Some f) ks"

text \<open>The bits of the five hash functions for the three keys.\<close>

lemma insert_loop_fold:
  "map (\<lambda>i. bloom_hash f i v) is = map Some ns \<Longrightarrow> insert_loop is v f = Some (f\<lparr>vData := fold set_bit_at ns (vData f)\<rparr>)"
proof (induction "is" arbitrary: f ns)
  case (Cons i "is")
  then obtain n ms where ns: "ns = n # ms" "bloom_hash f i v = Some n" "map (\<lambda>i. bloom_hash f i v) is = map Some ms"
    by (cases ns) auto
  let ?f = "f\<lparr>vData := set_bit_at n (vData f)\<rparr>"
  have "bloom_hash ?f j v = bloom_hash f j v" for j by (rule bloom_hash_cong) simp_all
  then have "insert_loop is v ?f = Some (?f\<lparr>vData := fold set_bit_at ms (vData ?f)\<rparr>)" using ns(3) by (intro Cons.IH) simp
  then show ?case using ns(1,2) by simp
qed simp

lemmas murmur_eval = MurmurHash3_def murmur_block_def murmur_mix_def ROTL32_def upt_rec

definition example_bits :: "byte list \<Rightarrow> nat list" where
  "example_bits v = map (\<lambda>i. unat (MurmurHash3 (word_of_nat i * 0xFBA4C795 + 0) v) mod 24) [0, 1, 2, 3, 4]"

lemma example_bits_eval:
  "example_bits (example_keys ! 0) = [0, 23, 0, 19, 20]"
  "example_bits (example_keys ! 1) = [17, 14, 6, 10, 14]"
  "example_bits (example_keys ! 2) = [11, 5, 20, 9, 16]"
  by (simp_all only: example_bits_def list.map) (simp_all add: example_keys_def murmur_eval)

lemma insert_example:
  assumes "length (vData f) = 3" "nTweak f = 0" "nHashFuncs f = 5" "\<not> isFull f"
  shows "bloom_insert v f = Some (f\<lparr>vData := fold set_bit_at (example_bits v) (vData f), isEmpty := False\<rparr>)"
proof -
  have five: "[0..<5] = [0, 1, 2, 3, 4 :: nat]" by (simp add: upt_rec)
  have "vData f \<noteq> []" using assms(1) by auto
  then have "map (\<lambda>i. bloom_hash f i v) [0..<nHashFuncs f] = map Some (example_bits v)"
    unfolding assms(3) five by (simp add: bloom_hash_def example_bits_def assms)
  from insert_loop_fold [OF this] show ?thesis using assms(4) by (simp add: bloom_insert_def)
qed

lemma bloom_test_vector:
  "map_option vData (insert_all example_keys bloom_example) = Some [0x61, 0x4e, 0x9b]"
proof -
  have keys: "example_keys = [example_keys ! 0, example_keys ! 1, example_keys ! 2]" by (simp add: example_keys_def)
  show ?thesis
    by (subst keys) (simp add: insert_all_def insert_example bloom_example_def example_bits_eval
        example_bits_eval [unfolded One_nat_def] set_bit_at_def)
qed

theorem peer_filter_operations_return_witness:
  "\<exists>f. pfilter (filterload (bloom_example\<lparr>vData := []\<rparr>) (new_peer bloom_example)) = Some f
    \<and> bloom_contains [1] f \<noteq> None \<and> IsRelevantAndUpdate sample_tx 7 f \<noteq> None
    \<and> filteradd [2] (filterload (bloom_example\<lparr>vData := []\<rparr>) (new_peer bloom_example)) \<noteq> None
    \<and> relay_to sample_tx 7 (filterload (bloom_example\<lparr>vData := []\<rparr>) (new_peer bloom_example)) \<noteq> None
    \<and> length (vData f) \<le> MAX_BLOOM_FILTER_SIZE \<and> (nHashFuncs f \<le> MAX_HASH_FUNCS \<or> vData f = [] \<and> isFull f)"
  by (rule peer_filter_operations_return [OF peer_reach.step [OF peer_reach.start peer_step.load]])

theorem bloom_flags_are_cache_witness:
  "bloom_contains [1] (UpdateEmptyFull bloom_example) = contains_loop [0..<5] [1] (UpdateEmptyFull bloom_example)"
proof -
  have "peer_reach (filterload bloom_example (new_peer bloom_example))"
    by (rule peer_reach.step [OF peer_reach.start peer_step.load])
  from bloom_flags_are_cache [OF this, of "UpdateEmptyFull bloom_example" "[1]"] show ?thesis
    by (simp add: filterload_def IsWithinSizeConstraints_def bloom_example_def UpdateEmptyFull_def
        MAX_BLOOM_FILTER_SIZE_def MAX_HASH_FUNCS_def)
qed

lemma usable_example: "usable bloom_example"
  by (simp add: usable_def bloom_example_def)

theorem bloom_no_false_negative_witness:
  "\<exists>g. bloom_insert [1, 2] bloom_example = Some g \<and> usable g \<and> bloom_contains [1, 2] g = Some True
    \<and> (\<forall>w. bloom_contains w bloom_example = Some True \<longrightarrow> bloom_contains w g = Some True)
    \<and> (\<forall>tx h b k w. IsRelevantAndUpdate tx h g = Some (b, k) \<longrightarrow> bloom_contains w g = Some True \<longrightarrow>
         bloom_contains w k = Some True)"
  by (rule bloom_no_false_negative [OF usable_example])

text \<open>A filter with the element 01 02, and an output that pushes it.\<close>

definition example_filter :: CBloomFilter where
  "example_filter = the (bloom_insert [1, 2] bloom_example)"

definition example_payment :: CTransaction where
  "example_payment = sample_tx\<lparr>vout := [\<lparr>nValue = 1, scriptPubKey = [2, 1, 2]\<rparr>]\<rparr>"

lemma example_filter_facts: "usable example_filter" "bloom_contains [1, 2] example_filter = Some True" "nFlags example_filter = 1"
proof -
  obtain g where g: "bloom_insert [1, 2] bloom_example = Some g" "grows bloom_example g" "bloom_contains [1, 2] g = Some True"
    using insert_spec [OF usable_example] by blast
  then have e: "example_filter = g" by (simp add: example_filter_def)
  show "usable example_filter" using grows_usable [OF g(2) usable_example] e by simp
  show "bloom_contains [1, 2] example_filter = Some True" using g(3) e by simp
  show "nFlags example_filter = 1" using g(2) e by (simp add: grows_def bloom_example_def)
qed

theorem bloom_finds_spenders_witness:
  "\<exists>g. IsRelevantAndUpdate example_payment 7 example_filter = Some (True, g)
    \<and> (\<forall>g' tx' h'. grows g g' \<longrightarrow> (\<exists>x \<in> set (vin tx'). prevout x = \<lparr>outhash = 7, outn = word_of_nat 0\<rparr>)
        \<longrightarrow> (\<exists>g''. IsRelevantAndUpdate tx' h' g' = Some (True, g'')))"
proof (rule bloom_finds_spenders [OF example_filter_facts(1), where v = "[1, 2]"])
  show "[1, 2] \<in> set (script_elements (scriptPubKey (vout example_payment ! 0)))"
    by (simp add: example_payment_def) code_simp
  show "follows example_filter (scriptPubKey (vout example_payment ! 0))"
    by (simp add: follows_def example_filter_facts(3) BLOOM_UPDATE_ALL_def BLOOM_UPDATE_MASK_def)
qed (simp_all add: example_payment_def example_filter_facts(2))

end
