(* ===== verification/PartialTree.thy ===== *)
theory PartialTree
  imports Merkle
begin

text \<open>
  main.h and main.cpp, CPartialMerkleTree: the part of the Merkle tree of a block that proves to a light
  client which of some transactions are in it, as a list of flag bits and a list of hashes in depth first
  order. Positions are natural numbers: they stay below the width of their row.
\<close>

section \<open>The code\<close>

record CPartialMerkleTree =
  nTransactions :: u32
  vBits :: "bool list"
  vHash :: "uint256 list"
  fBad :: bool

definition CalcTreeWidth :: "u32 \<Rightarrow> nat \<Rightarrow> u32" where
  "CalcTreeWidth n height = drop_bit height (n + push_bit height 1 - 1)"

fun CalcHash :: "crypto \<Rightarrow> u32 \<Rightarrow> nat \<Rightarrow> nat \<Rightarrow> uint256 list \<Rightarrow> uint256" where
  "CalcHash C n 0 pos vTxid = vTxid ! pos"
| "CalcHash C n (Suc height) pos vTxid =
     (let left = CalcHash C n height (pos * 2) vTxid;
          right = (if pos * 2 + 1 < unat (CalcTreeWidth n height) then CalcHash C n height (pos * 2 + 1) vTxid else left)
      in Hash_pair C left right)"

text \<open>The bits and the hashes so far are an argument and the result.\<close>

definition ParentOfMatch :: "u32 \<Rightarrow> nat \<Rightarrow> nat \<Rightarrow> bool list \<Rightarrow> bool" where
  "ParentOfMatch n height pos vMatch =
     list_ex (\<lambda>p. vMatch ! p) [pos * 2 ^ height ..< min ((pos + 1) * 2 ^ height) (unat n)]"

function TraverseAndBuild :: "crypto \<Rightarrow> u32 \<Rightarrow> nat \<Rightarrow> nat \<Rightarrow> uint256 list \<Rightarrow> bool list
    \<Rightarrow> bool list \<times> uint256 list \<Rightarrow> bool list \<times> uint256 list" where
  "TraverseAndBuild C n height pos vTxid vMatch (bits, hashes) =
     (let fParentOfMatch = ParentOfMatch n height pos vMatch;
          bits = bits @ [fParentOfMatch]
      in if height = 0 \<or> \<not> fParentOfMatch then (bits, hashes @ [CalcHash C n height pos vTxid])
         else
           let t = TraverseAndBuild C n (height - 1) (pos * 2) vTxid vMatch (bits, hashes)
           in if pos * 2 + 1 < unat (CalcTreeWidth n (height - 1))
              then TraverseAndBuild C n (height - 1) (pos * 2 + 1) vTxid vMatch t else t)"
  by pat_completeness auto
termination
  by (relation "measure (\<lambda>(C, n, height, pos, vTxid, vMatch, t). height)") auto

text \<open>The height of the tree, from the given one on.\<close>

function pmt_height :: "u32 \<Rightarrow> nat \<Rightarrow> nat" where
  "pmt_height n nHeight = (if CalcTreeWidth n nHeight > 1 then pmt_height n (nHeight + 1) else nHeight)"
  by pat_completeness auto
termination
proof (relation "measure (\<lambda>(n, h). 32 - h)")
  fix n :: u32 and h assume "1 < CalcTreeWidth n h"
  moreover have "CalcTreeWidth n h = 0" if "32 \<le> h"
    proof -
    have "(2 :: nat) ^ 32 \<le> 2 ^ h" using that by (intro power_increasing) simp_all
    then have "unat (CalcTreeWidth n h) = 0"
      using unsigned_less [of "n + push_bit h 1 - 1", where 'a = nat]
      by (simp add: CalcTreeWidth_def unat_drop_bit div_less order_less_le_trans)
    then show ?thesis by (simp add: unsigned_eq_0_iff)
  qed
  ultimately show "((n, h + 1), n, h) \<in> measure (\<lambda>(n, h). 32 - h)" by (cases "32 \<le> h") auto
qed simp

declare TraverseAndBuild.simps [simp del] pmt_height.simps [simp del]

definition CPartialMerkleTree_of :: "crypto \<Rightarrow> uint256 list \<Rightarrow> bool list \<Rightarrow> CPartialMerkleTree" where
  "CPartialMerkleTree_of C vTxid vMatch =
     (let n = word_of_nat (length vTxid);
          (bits, hashes) = TraverseAndBuild C n (pmt_height n 0) 0 vTxid vMatch ([], [])
      in \<lparr>nTransactions = n, vBits = bits, vHash = hashes, fBad = False\<rparr>)"

text \<open>The hash, and nBitsUsed, nHashUsed, vMatch and fBad afterwards.\<close>

type_synonym cursor = "nat \<times> nat \<times> uint256 list \<times> bool"

function TraverseAndExtract :: "crypto \<Rightarrow> CPartialMerkleTree \<Rightarrow> nat \<Rightarrow> nat \<Rightarrow> cursor \<Rightarrow> uint256 \<times> cursor" where
  "TraverseAndExtract C t height pos (nBitsUsed, nHashUsed, vMatch, bad) =
     (if nBitsUsed \<ge> length (vBits t) then (0, nBitsUsed, nHashUsed, vMatch, True)
      else
        let fParentOfMatch = vBits t ! nBitsUsed; nBitsUsed = nBitsUsed + 1
        in if height = 0 \<or> \<not> fParentOfMatch then
             if nHashUsed \<ge> length (vHash t) then (0, nBitsUsed, nHashUsed, vMatch, True)
             else
               let h = vHash t ! nHashUsed
               in (h, nBitsUsed, nHashUsed + 1, if height = 0 \<and> fParentOfMatch then vMatch @ [h] else vMatch, bad)
           else
             let (left, s) = TraverseAndExtract C t (height - 1) (pos * 2) (nBitsUsed, nHashUsed, vMatch, bad);
                 (right, s) = (if pos * 2 + 1 < unat (CalcTreeWidth (nTransactions t) (height - 1))
                   then TraverseAndExtract C t (height - 1) (pos * 2 + 1) s else (left, s))
             in (Hash_pair C left right, s))"
  by pat_completeness auto
termination
  by (relation "measure (\<lambda>(C, t, height, pos, s). height)") auto

declare TraverseAndExtract.simps [simp del]

text \<open>The root or 0, the vector vMatch, and the object with its flag fBad.\<close>

definition ExtractMatches :: "crypto \<Rightarrow> CPartialMerkleTree \<Rightarrow> uint256 \<times> uint256 list \<times> CPartialMerkleTree" where
  "ExtractMatches C t =
     (if nTransactions t = 0 then (0, [], t)
      else if unat (nTransactions t) > MAX_BLOCK_SIZE div 60 then (0, [], t)
      else if length (vHash t) > unat (nTransactions t) then (0, [], t)
      else if length (vBits t) < length (vHash t) then (0, [], t)
      else
        let nHeight = pmt_height (nTransactions t) 0;
            (hashMerkleRoot, nBitsUsed, nHashUsed, vMatch, bad) = TraverseAndExtract C t nHeight 0 (0, 0, [], fBad t);
            t' = t\<lparr>fBad := bad\<rparr>
        in if bad then (0, vMatch, t')
           else if (nBitsUsed + 7) div 8 \<noteq> (length (vBits t) + 7) div 8 then (0, vMatch, t')
           else if nHashUsed \<noteq> length (vHash t) then (0, vMatch, t')
           else (hashMerkleRoot, vMatch, t'))"

section \<open>Serialization\<close>

definition pack_bits :: "bool list \<Rightarrow> byte list" where
  "pack_bits bits = fold (\<lambda>p vBytes. vBytes[p div 8 := vBytes ! (p div 8) OR push_bit (p mod 8) (of_bool (bits ! p))])
     [0..<length bits] (replicate ((length bits + 7) div 8) 0)"

definition unpack_bits :: "byte list \<Rightarrow> bool list" where
  "unpack_bits vBytes = map (\<lambda>p. vBytes ! (p div 8) AND push_bit (p mod 8) 1 \<noteq> 0) [0..<length vBytes * 8]"

definition ser_tree :: "CPartialMerkleTree \<Rightarrow> byte list" where
  "ser_tree t = ser_word (nTransactions t) @ ser_vec ser_word (vHash t) @ ser_bytes (pack_bits (vBits t))"

definition unser_tree :: "CPartialMerkleTree reader" where
  "unser_tree s = do {
     (n, s) \<leftarrow> unser_word s; (h, s) \<leftarrow> unser_vec unser_word s; (vBytes, s) \<leftarrow> unser_bytes s;
     Some (\<lparr>nTransactions = n, vBits = unpack_bits vBytes, vHash = h, fBad = False\<rparr>, s) }"

definition size_tree :: "CPartialMerkleTree \<Rightarrow> nat" where
  "size_tree t = 4 + size_vec size_word (vHash t) + size_bytes (pack_bits (vBits t))"

end
