(* ===== verification/PartialFacts.thy ===== *)
theory PartialFacts
  imports PartialTree
begin

text \<open>
  What the partial Merkle trees prove. A tree built for some transactions of a block survives the wire and
  gives back the root of the block and just these transactions; whatever tree leads to the root of a block
  names only transactions of that block, or shows a collision; and the sizes that main.h promises.
\<close>

section \<open>Widths and rows\<close>

definition ceil_div :: "nat \<Rightarrow> nat \<Rightarrow> nat" where
  "ceil_div n b = (n + b - 1) div b"

lemma less_ceil_div: "a < ceil_div n b \<longleftrightarrow> a * b < n" if "0 < b"
proof -
  have "a < ceil_div n b \<longleftrightarrow> Suc a * b \<le> n + b - 1"
    using that by (simp only: ceil_div_def Suc_le_eq [symmetric] less_eq_div_iff_mult_less_eq)
  also have "\<dots> \<longleftrightarrow> a * b < n" using that by auto
  finally show ?thesis .
qed

lemma ceil_div_double: "ceil_div n (2 * b) = (ceil_div n b + 1) div 2" if "0 < b"
proof -
  have "(ceil_div n b + 1) div 2 = ((n + b - 1 + b) div b) div 2"
    unfolding ceil_div_def by (subst div_add_self2) (use that in simp_all)
  also have "n + b - 1 + b = n + 2 * b - 1" using that by simp
  finally show ?thesis by (simp add: ceil_div_def div_mult2_eq mult.commute [of 2])
qed

lemma width_eq:
  assumes "unat n < 2 ^ 31" "h \<le> 31"
  shows "unat (CalcTreeWidth n h) = ceil_div (unat n) (2 ^ h)"
proof -
  have h: "(2 :: nat) ^ h \<le> 2 ^ 31" using assms(2) by (intro power_increasing) simp_all
  have p: "unat (push_bit h 1 :: u32) = 2 ^ h" using h by (subst unat_push_bit) simp_all
  have "unat (n + push_bit h 1) = unat n + 2 ^ h"
    using assms(1) h p by (simp add: unat_word_ariths)
  moreover have "1 \<le> unat n + (2 :: nat) ^ h" by (simp add: trans_le_add2)
  ultimately have "unat (n + push_bit h 1 - 1) = unat n + 2 ^ h - 1" by (simp add: unat_sub_if_size)
  then show ?thesis by (simp add: CalcTreeWidth_def unat_drop_bit ceil_div_def)
qed

definition row :: "crypto \<Rightarrow> uint256 list \<Rightarrow> nat \<Rightarrow> uint256 list" where
  "row C xs h = (parents C ^^ h) xs"

lemma row_simps [simp]: "row C xs 0 = xs" "row C xs (Suc h) = parents C (row C xs h)"
  by (simp_all add: row_def)

lemma length_row: "length (row C xs h) = ceil_div (length xs) (2 ^ h)"
proof (induction h)
  case (Suc h)
  then show ?case using ceil_div_double [of "2 ^ h" "length xs"] by simp
qed (simp add: ceil_div_def)

lemma in_row: "pos < length (row C xs h) \<longleftrightarrow> pos * 2 ^ h < length xs"
  by (simp add: length_row less_ceil_div)

lemma row_nonempty: "xs \<noteq> [] \<Longrightarrow> row C xs h \<noteq> []"
  by (induction h) simp_all

text \<open>The trees of the program: the counter holds the number of transactions, with room for the sums.\<close>

definition sized :: "u32 \<Rightarrow> uint256 list \<Rightarrow> bool" where
  "sized n xs \<longleftrightarrow> unat n = length xs \<and> length xs < 2 ^ 31 \<and> xs \<noteq> []"

lemma width: "sized n xs \<Longrightarrow> h \<le> 31 \<Longrightarrow> unat (CalcTreeWidth n h) = length (row C xs h)"
  by (simp add: sized_def width_eq length_row)

lemma CalcHash_row:
  "sized n xs \<Longrightarrow> h \<le> 31 \<Longrightarrow> pos < length (row C xs h) \<Longrightarrow> CalcHash C n h pos xs = row C xs h ! pos"
proof (induction h arbitrary: pos)
  case (Suc h)
  let ?r = "row C xs h"
  have p: "pos < (length ?r + 1) div 2" using Suc.prems(3) by simp
  have l: "CalcHash C n h (pos * 2) xs = ?r ! (pos * 2)" using Suc.prems p by (intro Suc.IH) auto
  have w: "unat (CalcTreeWidth n h) = length ?r" using Suc.prems by (intro width) auto
  have s: "row C xs (Suc h) ! pos = Hash_pair C (?r ! (pos * 2)) (?r ! min (pos * 2 + 1) (length ?r - 1))"
    using p by (simp add: parents_def mult.commute)
  show ?case
  proof (cases "pos * 2 + 1 < length ?r")
    case True
    then have "CalcHash C n h (pos * 2 + 1) xs = ?r ! (pos * 2 + 1)" using Suc.prems by (intro Suc.IH) auto
    moreover have "min (pos * 2 + 1) (length ?r - 1) = pos * 2 + 1" using True by linarith
    ultimately show ?thesis using True s l w by simp
  next
    case False
    then have "min (pos * 2 + 1) (length ?r - 1) = pos * 2" using p by linarith
    then show ?thesis using False s l w by (simp add: Let_def)
  qed
qed simp

lemma width_31: "sized n xs \<Longrightarrow> length (row C xs 31) \<le> 1"
  using less_ceil_div [of "2 ^ 31" 1 "length xs"] by (simp add: length_row sized_def)

lemma pmt_height_row:
  assumes "sized n xs"
  shows "h \<le> 31 \<Longrightarrow> pmt_height n h \<le> 31 \<and> length (row C xs (pmt_height n h)) = 1
    \<and> root C (row C xs h) = row C xs (pmt_height n h) ! 0"
proof (induction "31 - h" arbitrary: h rule: less_induct)
  case less
  have w: "CalcTreeWidth n h > 1 \<longleftrightarrow> length (row C xs h) > 1"
    using width [OF assms less.prems, of C] by (simp add: word_less_nat_alt)
  show ?case
  proof (cases "length (row C xs h) > 1")
    case True
    then have "h \<noteq> 31" using width_31 [OF assms, of C] by auto
    then have "31 - (h + 1) < 31 - h" "h + 1 \<le> 31" using less.prems by auto
    from less.hyps [OF this] show ?thesis using True w
      by (simp add: pmt_height.simps [of n h] root.simps [of C "row C xs h"])
  next
    case False
    then have "length (row C xs h) = 1" using row_nonempty [of xs C h] assms by (auto simp: sized_def le_Suc_eq not_less)
    then show ?thesis using False w less.prems
      using row_nonempty [of xs C h] assms
      by (simp add: pmt_height.simps [of n h] root.simps [of C "row C xs h"] last_conv_nth sized_def)
  qed
qed

text \<open>So the hash at the top is the Merkle root.\<close>

lemma CalcHash_root:
  assumes "sized n xs" shows "pmt_height n 0 \<le> 31" "CalcHash C n (pmt_height n 0) 0 xs = root C xs"
  using pmt_height_row [OF assms, of 0 C] CalcHash_row [OF assms, of "pmt_height n 0" 0 C] by simp_all

section \<open>Building and extracting\<close>

text \<open>The transactions below a node, and those of them that are to be matched.\<close>

definition span :: "nat \<Rightarrow> nat \<Rightarrow> nat \<Rightarrow> nat list" where
  "span n h pos = [pos * 2 ^ h ..< min ((pos + 1) * 2 ^ h) n]"

definition matched :: "nat \<Rightarrow> uint256 list \<Rightarrow> bool list \<Rightarrow> nat \<Rightarrow> nat \<Rightarrow> uint256 list" where
  "matched n xs ms h pos = map ((!) xs) (filter ((!) ms) (span n h pos))"

lemma span_0: "pos < n \<Longrightarrow> span n 0 pos = [pos]"
  by (simp add: span_def)

lemma span_Suc: "span n (Suc h) pos = span n h (pos * 2) @ (if (pos * 2 + 1) * 2 ^ h < n then span n h (pos * 2 + 1) else [])"
proof -
  have e: "pos * 2 ^ Suc h = pos * 2 * 2 ^ h" "(pos + 1) * 2 ^ Suc h = (pos * 2 + 1 + 1) * 2 ^ h" by simp_all
  have le: "pos * 2 * 2 ^ h \<le> (pos * 2 + 1) * 2 ^ h" "(pos * 2 + 1) * 2 ^ h \<le> (pos * 2 + 1 + 1) * 2 ^ h" by simp_all
  have split: "[a ..< min c n] = [a ..< min b n] @ (if b < n then [b ..< min c n] else [])" if "a \<le> b" "b \<le> c" for a b c :: nat
    using that upt_add_eq_append [of a b "min c n - b"] by (auto simp: min_def)
  show ?thesis unfolding span_def e by (rule split [OF le])
qed

lemma ParentOfMatch_span: "ParentOfMatch n h pos ms = list_ex ((!) ms) (span (unat n) h pos)"
  by (simp add: ParentOfMatch_def span_def)

lemma matched_Nil: "\<not> ParentOfMatch n h pos ms \<Longrightarrow> matched (unat n) xs ms h pos = []"
  by (auto simp: ParentOfMatch_span matched_def list_ex_iff)

definition built :: "crypto \<Rightarrow> u32 \<Rightarrow> uint256 list \<Rightarrow> bool list \<Rightarrow> nat \<Rightarrow> nat \<Rightarrow> bool list \<times> uint256 list" where
  "built C n xs ms h pos = TraverseAndBuild C n h pos xs ms ([], [])"

lemma build_step:
  "TraverseAndBuild C n h pos xs ms (bits, hs) =
     (if h = 0 \<or> \<not> ParentOfMatch n h pos ms
      then (bits @ [ParentOfMatch n h pos ms], hs @ [CalcHash C n h pos xs])
      else
        let t = TraverseAndBuild C n (h - 1) (pos * 2) xs ms (bits @ [True], hs)
        in if pos * 2 + 1 < unat (CalcTreeWidth n (h - 1)) then TraverseAndBuild C n (h - 1) (pos * 2 + 1) xs ms t else t)"
  by (simp add: TraverseAndBuild.simps [of C n h])

lemma build_prefix:
  "TraverseAndBuild C n h pos xs ms (bits, hs) = (bits @ fst (built C n xs ms h pos), hs @ snd (built C n xs ms h pos))"
proof (induction h arbitrary: pos bits hs)
  case 0
  then show ?case by (simp add: built_def build_step)
next
  case (Suc h)
  show ?case unfolding built_def build_step [of C n "Suc h"]
    by (simp add: Let_def Suc.IH)
qed

lemma built_leaf: "h = 0 \<or> \<not> ParentOfMatch n h pos ms \<Longrightarrow>
    built C n xs ms h pos = ([ParentOfMatch n h pos ms], [CalcHash C n h pos xs])"
  by (auto simp: built_def build_step)

lemma built_node: "ParentOfMatch n (Suc h) pos ms \<Longrightarrow> built C n xs ms (Suc h) pos =
    (let l = built C n xs ms h (pos * 2);
         r = (if pos * 2 + 1 < unat (CalcTreeWidth n h) then built C n xs ms h (pos * 2 + 1) else ([], []))
     in (True # fst l @ fst r, snd l @ snd r))"
  unfolding built_def [of C n xs ms "Suc h"] build_step [of C n "Suc h"] by (simp add: build_prefix Let_def)

text \<open>Extracting consumes just what was built.\<close>

lemma extract_step:
  "vBits t = pre @ b # bits \<Longrightarrow> TraverseAndExtract C t h pos (length pre, k, vm, bad) =
     (if h = 0 \<or> \<not> b then
        if k \<ge> length (vHash t) then (0, length pre + 1, k, vm, True)
        else (vHash t ! k, length pre + 1, k + 1, if h = 0 \<and> b then vm @ [vHash t ! k] else vm, bad)
      else
        let (left, s) = TraverseAndExtract C t (h - 1) (pos * 2) (length pre + 1, k, vm, bad);
            (right, s) = (if pos * 2 + 1 < unat (CalcTreeWidth (nTransactions t) (h - 1))
              then TraverseAndExtract C t (h - 1) (pos * 2 + 1) s else (left, s))
        in (Hash_pair C left right, s))"
  by (simp add: TraverseAndExtract.simps [of C t h] Let_def)

lemma extract_built:
  assumes "sized n xs"
  shows "h \<le> 31 \<Longrightarrow> pos < length (row C xs h) \<Longrightarrow> nTransactions t = n
    \<Longrightarrow> vBits t = pre @ fst (built C n xs ms h pos) @ post \<Longrightarrow> vHash t = preH @ snd (built C n xs ms h pos) @ postH
    \<Longrightarrow> TraverseAndExtract C t h pos (length pre, length preH, vm, bad) =
      (CalcHash C n h pos xs, length pre + length (fst (built C n xs ms h pos)),
       length preH + length (snd (built C n xs ms h pos)), vm @ matched (length xs) xs ms h pos, bad)"
proof (induction h arbitrary: pos pre post preH postH vm)
  case 0
  have n: "unat n = length xs" using assms by (simp add: sized_def)
  have "pos < length xs" using 0 by simp
  then show ?case using 0 built_leaf [of 0 n pos ms C xs] ParentOfMatch_span [of n 0 pos ms]
    by (simp add: extract_step n span_0 matched_def)
next
  case (Suc h)
  have n: "unat n = length xs" using assms by (simp add: sized_def)
  show ?case
  proof (cases "ParentOfMatch n (Suc h) pos ms")
    case False
    then show ?thesis using Suc.prems built_leaf [of "Suc h" n pos ms C xs] matched_Nil [of n "Suc h" pos ms xs]
      by (simp add: extract_step n)
  next
    case True
    define l where "l = built C n xs ms h (pos * 2)"
    define r where "r = (if pos * 2 + 1 < unat (CalcTreeWidth n h) then built C n xs ms h (pos * 2 + 1) else ([], []))"
    have b: "built C n xs ms (Suc h) pos = (True # fst l @ fst r, snd l @ snd r)"
      using built_node [OF True, of C xs] by (simp add: l_def r_def Let_def)
    have p: "pos * 2 < length (row C xs h)" using Suc.prems(2) by simp
    have w: "unat (CalcTreeWidth n h) = length (row C xs h)" using Suc.prems(1) by (intro width [OF assms]) simp
    have L: "TraverseAndExtract C t h (pos * 2) (length (pre @ [True]), length preH, vm, bad) =
        (CalcHash C n h (pos * 2) xs, length (pre @ [True]) + length (fst l), length preH + length (snd l),
         vm @ matched (length xs) xs ms h (pos * 2), bad)"
      unfolding l_def by (rule Suc.IH [where post = "fst r @ post" and postH = "snd r @ postH"])
        (use Suc.prems p b in \<open>auto simp: l_def\<close>)
    have m: "matched (length xs) xs ms (Suc h) pos = matched (length xs) xs ms h (pos * 2) @
        (if pos * 2 + 1 < length (row C xs h) then matched (length xs) xs ms h (pos * 2 + 1) else [])"
      unfolding matched_def span_Suc in_row by simp
    show ?thesis
    proof (cases "pos * 2 + 1 < length (row C xs h)")
      case False
      then show ?thesis using L b m w Suc.prems by (simp add: extract_step r_def Let_def)
    next
      case R: True
      have "TraverseAndExtract C t h (pos * 2 + 1) (length (pre @ True # fst l), length (preH @ snd l),
          vm @ matched (length xs) xs ms h (pos * 2), bad) =
        (CalcHash C n h (pos * 2 + 1) xs, length (pre @ True # fst l) + length (fst r), length (preH @ snd l) + length (snd r),
         (vm @ matched (length xs) xs ms h (pos * 2)) @ matched (length xs) xs ms h (pos * 2 + 1), bad)"
        using Suc.IH [where post = post and postH = postH and pre = "pre @ True # fst l" and preH = "preH @ snd l" and pos = "pos * 2 + 1"]
          Suc.prems R b w by (simp add: r_def)
      then show ?thesis using L b m w R Suc.prems by (simp add: extract_step Let_def add.assoc)
    qed
  qed
qed

section \<open>Sizes\<close>

lemma span_nonempty: "pos * 2 ^ h < n \<Longrightarrow> 1 \<le> length (span n h pos)"
proof -
  have "pos * 2 ^ h < (pos + 1) * 2 ^ h" by simp
  then show "pos * 2 ^ h < n \<Longrightarrow> 1 \<le> length (span n h pos)" unfolding span_def by (simp add: min_def Suc_le_eq)
qed

text \<open>main.h: one hash for the root and at most the height of the tree for every matched transaction.\<close>

lemma built_bounds:
  assumes "sized n xs"
  shows "h \<le> 31 \<Longrightarrow> pos < length (row C xs h) \<Longrightarrow>
    (case built C n xs ms h pos of (bits, hs) \<Rightarrow>
      length hs \<le> 1 + length (matched (length xs) xs ms h pos) * h
      \<and> length bits \<le> 1 + 2 * length (matched (length xs) xs ms h pos) * h
      \<and> length hs \<le> length bits \<and> length hs \<le> length (span (length xs) h pos))"
proof (induction h arbitrary: pos)
  case 0
  then show ?case by (simp add: built_leaf span_0)
next
  case (Suc h)
  have n: "unat n = length xs" using assms by (simp add: sized_def)
  have p: "pos * 2 < length (row C xs h)" using Suc.prems(2) by simp
  have nonempty: "pos * 2 ^ Suc h < length xs" using Suc.prems(2) unfolding in_row .
  show ?case
  proof (cases "ParentOfMatch n (Suc h) pos ms")
    case False
    then show ?thesis using span_nonempty [OF nonempty] by (simp add: built_leaf)
  next
    case True
    let ?m = "\<lambda>h pos. length (matched (length xs) xs ms h pos)"
    define l where "l = built C n xs ms h (pos * 2)"
    define r where "r = (if pos * 2 + 1 < unat (CalcTreeWidth n h) then built C n xs ms h (pos * 2 + 1) else ([], []))"
    define mr where "mr = (if pos * 2 + 1 < length (row C xs h) then ?m h (pos * 2 + 1) else 0)"
    have b: "built C n xs ms (Suc h) pos = (True # fst l @ fst r, snd l @ snd r)"
      using built_node [OF True, of C xs] by (simp add: l_def r_def Let_def)
    have w: "unat (CalcTreeWidth n h) = length (row C xs h)" using Suc.prems(1) by (intro width [OF assms]) simp
    have m: "?m (Suc h) pos = ?m h (pos * 2) + mr"
      unfolding matched_def span_Suc in_row mr_def by simp
    have one: "1 \<le> ?m (Suc h) pos"
      using True by (auto simp: ParentOfMatch_span n matched_def list_ex_iff filter_empty_conv Suc_le_eq)
    have L: "length (snd l) \<le> 1 + ?m h (pos * 2) * h" "length (fst l) \<le> 1 + 2 * ?m h (pos * 2) * h"
      "length (snd l) \<le> length (fst l)" "length (snd l) \<le> length (span (length xs) h (pos * 2))"
      using Suc.IH [OF _ p] Suc.prems(1) by (simp_all add: l_def split: prod.splits)
    have R: "length (snd r) \<le> 1 + mr * h \<and> length (fst r) \<le> 1 + 2 * mr * h \<and> length (snd r) \<le> length (fst r)
        \<and> length (span (length xs) h (pos * 2)) + length (snd r) \<le> length (span (length xs) (Suc h) pos)"
    proof (cases "pos * 2 + 1 < length (row C xs h)")
      case True
      then have "r = built C n xs ms h (pos * 2 + 1)" "mr = ?m h (pos * 2 + 1)" by (simp_all add: r_def mr_def w)
      moreover have "length (span (length xs) (Suc h) pos)
          = length (span (length xs) h (pos * 2)) + length (span (length xs) h (pos * 2 + 1))"
        using True unfolding in_row span_Suc by simp
      ultimately show ?thesis using Suc.IH [OF _ True] Suc.prems(1) by (simp split: prod.splits)
    next
      case False
      then have "r = ([], [])" "mr = 0" by (simp_all add: r_def mr_def w)
      then show ?thesis unfolding span_Suc by simp
    qed
    have "length (snd l @ snd r) \<le> 1 + ?m (Suc h) pos * Suc h"
      using L(1) R one unfolding m by (simp add: algebra_simps)
    moreover have "length (True # fst l @ fst r) \<le> 1 + 2 * ?m (Suc h) pos * Suc h"
      using L(2) R one unfolding m by (simp add: algebra_simps)
    ultimately show ?thesis using L(3,4) R b by simp
  qed
qed

section \<open>The bits as bytes\<close>

lemma pack_bits_spec:
  "k \<le> length bits \<Longrightarrow>
    (let v = fold (\<lambda>p vBytes. vBytes[p div 8 := vBytes ! (p div 8) OR push_bit (p mod 8) (of_bool (bits ! p))])
       [0..<k] (replicate ((length bits + 7) div 8) (0 :: byte))
     in length v = (length bits + 7) div 8 \<and>
       (\<forall>p < length v * 8. bit (v ! (p div 8)) (p mod 8) \<longleftrightarrow> p < k \<and> bits ! p))"
proof (induction k)
  case 0
  then show ?case by (auto simp: Let_def less_mult_imp_div_less)
next
  case (Suc k)
  let ?f = "\<lambda>p vBytes. vBytes[p div 8 := vBytes ! (p div 8) OR push_bit (p mod 8) (of_bool (bits ! p))]"
  define v where "v = fold ?f [0..<k] (replicate ((length bits + 7) div 8) (0 :: byte))"
  have v: "length v = (length bits + 7) div 8"
    "\<And>p. p < length v * 8 \<Longrightarrow> bit (v ! (p div 8)) (p mod 8) \<longleftrightarrow> p < k \<and> bits ! p"
    using Suc by (simp_all add: v_def Let_def)
  have k: "k div 8 < length v" using Suc.prems v(1) by linarith
  have "bit (?f k v ! (p div 8)) (p mod 8) \<longleftrightarrow> p < Suc k \<and> bits ! p" if p: "p < length v * 8" for p
  proof (cases "p div 8 = k div 8")
    case True
    have "p mod 8 = k mod 8 \<longleftrightarrow> p = k" using True by (metis div_mult_mod_eq)
    then show ?thesis using v(2) [OF p] True k
      by (auto simp: bit_or_iff bit_push_bit_iff bit_of_bool_iff less_Suc_eq)
  next
    case False
    then have "p \<noteq> k" by auto
    then show ?thesis using v(2) [OF p] False by (auto simp: less_Suc_eq)
  qed
  then show ?case using v(1) by (simp add: Let_def v_def)
qed

lemma unpack_pack:
    "\<exists>k < 8. unpack_bits (pack_bits bits) = bits @ replicate k False \<and> (length bits + 7) div 8 * 8 = length bits + k"
  and length_pack: "length (pack_bits bits) = (length bits + 7) div 8"
proof -
  have v: "length (pack_bits bits) = (length bits + 7) div 8"
    "\<And>p. p < length (pack_bits bits) * 8 \<Longrightarrow> bit (pack_bits bits ! (p div 8)) (p mod 8) \<longleftrightarrow> p < length bits \<and> bits ! p"
    using pack_bits_spec [of "length bits" bits] by (simp_all add: pack_bits_def Let_def)
  let ?k = "length (pack_bits bits) * 8 - length bits"
  have k: "?k < 8" "length bits \<le> length (pack_bits bits) * 8" unfolding v(1) by linarith+
  have "unpack_bits (pack_bits bits) = bits @ replicate ?k False"
  proof (rule nth_equalityI)
    show "length (unpack_bits (pack_bits bits)) = length (bits @ replicate ?k False)" using k(2) by (simp add: unpack_bits_def)
    fix p assume "p < length (unpack_bits (pack_bits bits))"
    then have p: "p < length (pack_bits bits) * 8" by (simp add: unpack_bits_def)
    then show "unpack_bits (pack_bits bits) ! p = (bits @ replicate ?k False) ! p"
      using v(2) [OF p] by (simp add: unpack_bits_def nth_append bit_iff_and_push_bit_not_eq_0)
  qed
  moreover have "(length bits + 7) div 8 * 8 = length bits + ?k" using k(2) v(1) by simp
  ultimately show "\<exists>k < 8. unpack_bits (pack_bits bits) = bits @ replicate k False \<and> (length bits + 7) div 8 * 8 = length bits + k"
    using k(1) by blast
  show "length (pack_bits bits) = (length bits + 7) div 8" by (rule v(1))
qed

end
