(* ===== verification/MerkleProof.thy ===== *)
theory MerkleProof
  imports PartialFacts BloomFacts "HOL-Library.Sublist"
begin

text \<open>
  main.cpp, CMerkleBlock: what a light client gets instead of a block, from the filter it loaded to the
  transactions it extracts; and the properties of the proof that it carries.
\<close>

section \<open>CMerkleBlock\<close>

record CMerkleBlock =
  mheader :: CBlockHeader
  txn :: CPartialMerkleTree
  vMatchedTxn :: "(nat \<times> uint256) list"

text \<open>The loop over the transactions from the i-th one on: vMatch, vMatchedTxn, vHashes and the filter.\<close>

fun filter_txs :: "crypto \<Rightarrow> nat \<Rightarrow> CTransaction list \<Rightarrow> CBloomFilter
    \<Rightarrow> (bool list \<times> (nat \<times> uint256) list \<times> uint256 list \<times> CBloomFilter) option" where
  "filter_txs C i [] f = Some ([], [], [], f)"
| "filter_txs C i (tx # rest) f = do {
     let h = tx_hash C tx;
     (rel, f) \<leftarrow> IsRelevantAndUpdate tx h f;
     (ms, mt, hs, f) \<leftarrow> filter_txs C (i + 1) rest f;
     Some (rel # ms, if rel then (i, h) # mt else mt, h # hs, f) }"

definition CMerkleBlock_of :: "crypto \<Rightarrow> CBlock \<Rightarrow> CBloomFilter \<Rightarrow> (CMerkleBlock \<times> CBloomFilter) option" where
  "CMerkleBlock_of C block f = do {
     (vMatch, mt, vHashes, f) \<leftarrow> filter_txs C 0 (vtx block) f;
     Some (\<lparr>mheader = CBlockHeader.truncate block, txn = CPartialMerkleTree_of C vHashes vMatch, vMatchedTxn = mt\<rparr>, f) }"

definition ser_merkleblock :: "CMerkleBlock \<Rightarrow> byte list" where
  "ser_merkleblock mb = ser_header (mheader mb) @ ser_tree (txn mb)"

definition unser_merkleblock :: "(CBlockHeader \<times> CPartialMerkleTree) reader" where
  "unser_merkleblock s = do { (b, s) \<leftarrow> unser_header s; (t, s) \<leftarrow> unser_tree s; Some ((b, t), s) }"

section \<open>A built tree gives back what it was built for\<close>

lemma sized_of: "xs \<noteq> [] \<Longrightarrow> length xs \<le> MAX_BLOCK_SIZE div 60 \<Longrightarrow> sized (word_of_nat (length xs)) xs"
  unfolding sized_def MAX_BLOCK_SIZE_def by (auto intro: unat_of_nat_less)

lemma tree_of_eq:
  "CPartialMerkleTree_of C xs ms = (let n = word_of_nat (length xs); (b, h) = built C n xs ms (pmt_height n 0) 0
     in \<lparr>nTransactions = n, vBits = b, vHash = h, fBad = False\<rparr>)"
  by (simp add: CPartialMerkleTree_of_def built_def)

lemma tree_of_facts:
  fixes C :: crypto and ms :: "bool list"
  assumes "xs \<noteq> []" "length xs \<le> MAX_BLOCK_SIZE div 60" "length ms = length xs"
  defines "t \<equiv> CPartialMerkleTree_of C xs ms" and "H \<equiv> pmt_height (word_of_nat (length xs)) 0"
    and "m \<equiv> length (filter id ms)"
  shows "unat (nTransactions t) = length xs" "\<not> fBad t"
    "length (vHash t) \<le> 1 + m * H" "length (vBits t) \<le> 1 + 2 * m * H"
    "length (vHash t) \<le> length (vBits t)" "length (vHash t) \<le> length xs"
    "TraverseAndExtract C (t\<lparr>vBits := vBits t @ post\<rparr>) H 0 (0, 0, [], bad) =
      (root C xs, length (vBits t), length (vHash t), map fst (filter snd (zip xs ms)), bad)"
proof -
  let ?n = "word_of_nat (length xs) :: u32"
  note s = sized_of [OF assms(1,2)]
  note H = CalcHash_root(1) [OF s, folded H_def] CalcHash_root(2) [OF s, of C, folded H_def]
  have t: "nTransactions t = ?n" "vBits t = fst (built C ?n xs ms H 0)" "vHash t = snd (built C ?n xs ms H 0)" "fBad t = False"
    by (simp_all add: t_def tree_of_eq H_def Let_def split: prod.splits)
  have top: "length (row C xs H) = 1" using pmt_height_row [OF s, of 0 C] by (simp add: H_def)
  have "\<not> 1 < length (row C xs H)" using top by simp
  then have n: "length xs \<le> 2 ^ H" using in_row [of 1 C xs H] by simp
  then have span: "span (length xs) H 0 = [0..<length xs]" by (simp add: span_def min_def)
  have M: "matched (length xs) xs ms H 0 = map fst (filter snd (zip xs ms))"
  proof -
    have "zip xs ms = map (\<lambda>i. (xs ! i, ms ! i)) [0..<length xs]" using assms(3) by (intro nth_equalityI) simp_all
    then show ?thesis unfolding matched_def span by (simp add: filter_map comp_def)
  qed
  have lM: "length (map fst (filter snd (zip xs ms))) = m"
  proof -
    have "map snd (filter snd (zip xs ms)) = filter id (map snd (zip xs ms))" by (simp add: filter_map comp_def)
    then have "length (filter snd (zip xs ms)) = length (filter id (map snd (zip xs ms)))" by (metis length_map)
    then show ?thesis using assms(3) by (simp add: m_def)
  qed
  show "unat (nTransactions t) = length xs" using s t(1) by (simp add: sized_def)
  show "\<not> fBad t" by (simp add: t)
  have B: "case built C ?n xs ms H 0 of (bits, hs) \<Rightarrow> length hs \<le> 1 + m * H \<and> length bits \<le> 1 + 2 * m * H
      \<and> length hs \<le> length bits \<and> length hs \<le> length xs"
    using built_bounds [OF s H(1), of 0 C ms] top unfolding M lM span by simp
  then show "length (vHash t) \<le> 1 + m * H" "length (vBits t) \<le> 1 + 2 * m * H"
    "length (vHash t) \<le> length (vBits t)" "length (vHash t) \<le> length xs" by (simp_all add: t split: prod.splits)
  show "TraverseAndExtract C (t\<lparr>vBits := vBits t @ post\<rparr>) H 0 (0, 0, [], bad) =
      (root C xs, length (vBits t), length (vHash t), map fst (filter snd (zip xs ms)), bad)"
    using extract_built [OF s H(1), of 0 C "t\<lparr>vBits := vBits t @ post\<rparr>" "[]" ms post "[]" "[]" "[]" bad] top t M H(2)
    by simp
qed

text \<open>Over the wire the bits are filled up to whole bytes, which is the one thing that changes.\<close>

interpretation hashes: serializer "ser_vec (ser_word :: uint256 \<Rightarrow> byte list)" "unser_vec unser_word" "size_vec size_word"
  "\<lambda>v. length v \<le> MAX_SIZE \<and> list_all (\<lambda>_. True) v" by (rule u256.vec)

lemma unser_tree_ser:
  assumes "length (vHash t) \<le> MAX_SIZE" "(length (vBits t) + 7) div 8 \<le> MAX_SIZE"
  shows "unser_tree (ser_tree t @ rest) = Some (t\<lparr>vBits := unpack_bits (pack_bits (vBits t)), fBad := False\<rparr>, rest)"
  using assms by (simp add: unser_tree_def ser_tree_def u32.roundtrip hashes.roundtrip bytes.roundtrip length_pack list_all_iff)

definition pmt_ok :: "CPartialMerkleTree \<Rightarrow> bool" where
  "pmt_ok t \<longleftrightarrow> length (vHash t) \<le> MAX_SIZE \<and> (length (vBits t) + 7) div 8 \<le> MAX_SIZE \<and> 8 dvd length (vBits t) \<and> \<not> fBad t"

lemma unpack_pack_whole: "8 dvd length bits \<Longrightarrow> unpack_bits (pack_bits bits) = bits"
proof -
  assume d: "8 dvd length bits"
  obtain k where k: "k < 8" "unpack_bits (pack_bits bits) = bits @ replicate k False"
    "(length bits + 7) div 8 * 8 = length bits + k" using unpack_pack by blast
  with d have "k = 0" by (auto elim!: dvdE)
  with k(2) show ?thesis by simp
qed

interpretation ptree: serializer ser_tree unser_tree size_tree pmt_ok
proof
  fix t rest assume ok: "pmt_ok t"
  then show "unser_tree (ser_tree t @ rest) = Some (t, rest)"
    by (subst unser_tree_ser) (simp_all add: pmt_ok_def unpack_pack_whole)
  from ok show "size_tree t = length (ser_tree t)"
    by (simp add: pmt_ok_def size_tree_def ser_tree_def length_ser_word hashes.size_eq bytes.size_eq length_pack list_all_iff)
qed

text \<open>The bits of the last byte that nobody asked for do no harm.\<close>

lemma extract_padded:
  fixes C :: crypto and ms :: "bool list"
  assumes "xs \<noteq> []" "length xs \<le> MAX_BLOCK_SIZE div 60" "length ms = length xs"
  defines "t \<equiv> CPartialMerkleTree_of C xs ms"
  assumes "(length (vBits t) + 7) div 8 = (length (vBits t) + length post + 7) div 8"
  shows "ExtractMatches C (t\<lparr>vBits := vBits t @ post\<rparr>) =
    (root C xs, map fst (filter snd (zip xs ms)), t\<lparr>vBits := vBits t @ post\<rparr>)"
proof -
  note facts = tree_of_facts [OF assms(1-3), of C, folded t_def]
  have n: "nTransactions t = word_of_nat (length xs)" by (simp add: t_def tree_of_eq Let_def split: prod.splits)
  have "nTransactions t \<noteq> 0" using facts(1) assms(1) by auto
  then show ?thesis
    using facts(1,2,5,6) facts(7) [of post False] assms(2,5) by (simp add: ExtractMatches_def n [symmetric])
qed

text \<open>A tree that was built, sent and received leads to the root, and to the transactions it was built for.\<close>

lemma tree_roundtrip:
  fixes ms :: "bool list"
  assumes "xs \<noteq> []" "length xs \<le> MAX_BLOCK_SIZE div 60" "length ms = length xs"
  shows "\<exists>t. unser_tree (ser_tree (CPartialMerkleTree_of C xs ms) @ rest) = Some (t, rest)
    \<and> ExtractMatches C t = (root C xs, map fst (filter snd (zip xs ms)), t)"
proof -
  define s where "s = CPartialMerkleTree_of C xs ms"
  note facts = tree_of_facts [OF assms, of C, folded s_def]
  obtain k where k: "k < 8" "unpack_bits (pack_bits (vBits s)) = vBits s @ replicate k False"
    "(length (vBits s) + 7) div 8 * 8 = length (vBits s) + k" using unpack_pack by blast
  define t where "t = s\<lparr>vBits := vBits s @ replicate k False\<rparr>"
  let ?H = "pmt_height (word_of_nat (length xs)) 0"
  have "length (filter id ms) \<le> length xs" using assms(3) by (metis length_filter_le)
  then have "length (filter id ms) * ?H \<le> (MAX_BLOCK_SIZE div 60) * 31" using CalcHash_root(1) [OF sized_of [OF assms(1,2)]] assms(2)
    by (intro mult_le_mono) auto
  then have "length (vBits s) \<le> 1 + 2 * (MAX_BLOCK_SIZE div 60 * 31)" using facts(4) by linarith
  then have b: "(length (vBits s) + 7) div 8 \<le> MAX_SIZE" by (simp add: MAX_BLOCK_SIZE_def MAX_SIZE_def)
  have h: "length (vHash s) \<le> MAX_SIZE" using facts(6) assms(2) by (simp add: MAX_BLOCK_SIZE_def MAX_SIZE_def)
  have un: "unser_tree (ser_tree s @ rest) = Some (t, rest)"
    using unser_tree_ser [OF h b, of rest] facts(2) by (simp add: k(2) t_def)
  have "(length (vBits s) + 7) div 8 = (length (vBits s) + k + 7) div 8" using k(1,3) by linarith
  then have "ExtractMatches C t = (root C xs, map fst (filter snd (zip xs ms)), t)"
    using extract_padded [OF assms, of C "replicate k False"] by (simp add: s_def t_def)
  with un show ?thesis unfolding s_def by blast
qed

section \<open>What a light client learns\<close>

text \<open>
  The filters that a run over the transactions goes through: fs ! k is the one that transaction k is tested
  against, with what the transactions before it inserted.
\<close>

definition tests_in_order :: "crypto \<Rightarrow> CTransaction list \<Rightarrow> CBloomFilter list \<Rightarrow> (nat \<Rightarrow> bool) \<Rightarrow> bool" where
  "tests_in_order C txs fs rel \<longleftrightarrow> length fs = length txs + 1
     \<and> (\<forall>k < length txs. IsRelevantAndUpdate (txs ! k) (tx_hash C (txs ! k)) (fs ! k) = Some (rel k, fs ! (k + 1)))"

lemma tests_in_order_Cons:
  assumes "IsRelevantAndUpdate tx (tx_hash C tx) f = Some (rel 0, fs ! 0)" "tests_in_order C txs fs (\<lambda>k. rel (Suc k))"
  shows "tests_in_order C (tx # txs) (f # fs) rel"
  using assms by (auto simp: tests_in_order_def less_Suc_eq_0_disj)

lemma filter_txs_exact:
  "filter_txs C i txs f = Some (ms, mt, hs, g) \<Longrightarrow> sorted_wrt (<) (map fst mt) \<and> (\<forall>(k, h) \<in> set mt. i \<le> k)
    \<and> (\<exists>fs. fs ! 0 = f \<and> fs ! length txs = g
         \<and> tests_in_order C txs fs (\<lambda>k. (i + k, tx_hash C (txs ! k)) \<in> set mt))"
proof (induction txs arbitrary: i f ms mt hs)
  case Nil
  then show ?case by (auto simp: tests_in_order_def intro!: exI [of _ "[f]"])
next
  case (Cons tx txs)
  from Cons.prems obtain rel f' ms' mt' hs' where 1: "IsRelevantAndUpdate tx (tx_hash C tx) f = Some (rel, f')"
    and 2: "filter_txs C (i + 1) txs f' = Some (ms', mt', hs', g)" and mt: "mt = (if rel then (i, tx_hash C tx) # mt' else mt')"
    by (auto simp: Let_def bind_eq_Some_conv)
  from Cons.IH [OF 2] obtain fs where IH: "sorted_wrt (<) (map fst mt')" "\<forall>(k, h) \<in> set mt'. i + 1 \<le> k"
    "fs ! 0 = f'" "fs ! length txs = g" "tests_in_order C txs fs (\<lambda>k. (i + 1 + k, tx_hash C (txs ! k)) \<in> set mt')" by blast
  have rel: "rel \<longleftrightarrow> (i, tx_hash C tx) \<in> set mt" using IH(2) by (auto simp: mt)
  have "(i + 1 + k, x) \<in> set mt \<longleftrightarrow> (i + 1 + k, x) \<in> set mt'" for k x by (simp add: mt)
  then have "tests_in_order C (tx # txs) (f # fs) (\<lambda>k. (i + k, tx_hash C ((tx # txs) ! k)) \<in> set mt)"
    using 1 IH(3,5) rel by (intro tests_in_order_Cons) simp_all
  moreover have "sorted_wrt (<) (map fst mt) \<and> (\<forall>(k, h) \<in> set mt. i \<le> k)" using IH(1,2) by (cases rel) (auto simp: mt)
  ultimately show ?case using IH(4) by (intro conjI exI [of _ "f # fs"]) auto
qed

lemma filter_txs_spec:
  "usable f \<Longrightarrow> \<exists>ms mt hs g. filter_txs C i txs f = Some (ms, mt, hs, g) \<and> grows f g
    \<and> hs = map (tx_hash C) txs \<and> length ms = length txs \<and> map snd mt = map fst (filter snd (zip hs ms))
    \<and> (\<forall>(k, h) \<in> set mt. i \<le> k \<and> k - i < length txs \<and> h = tx_hash C (txs ! (k - i)))
    \<and> (\<forall>k < length txs. tx_matches f (txs ! k) (tx_hash C (txs ! k)) \<longrightarrow> (i + k, tx_hash C (txs ! k)) \<in> set mt)"
proof (induction txs arbitrary: i f)
  case (Cons tx txs)
  obtain rel f' where f': "IsRelevantAndUpdate tx (tx_hash C tx) f = Some (rel, f')" "grows f f'"
    "tx_matches f tx (tx_hash C tx) \<longrightarrow> rel" using relevant_spec [OF Cons.prems] by blast
  have "usable f'" using grows_usable [OF f'(2) Cons.prems] .
  from Cons.IH [OF this, of "i + 1"] obtain ms mt hs g where IH: "filter_txs C (i + 1) txs f' = Some (ms, mt, hs, g)"
    "grows f' g" "hs = map (tx_hash C) txs" "length ms = length txs" "map snd mt = map fst (filter snd (zip hs ms))"
    "\<And>k h. (k, h) \<in> set mt \<Longrightarrow> i + 1 \<le> k \<and> k - (i + 1) < length txs \<and> h = tx_hash C (txs ! (k - (i + 1)))"
    "\<And>k. k < length txs \<Longrightarrow> tx_matches f' (txs ! k) (tx_hash C (txs ! k)) \<Longrightarrow> (i + 1 + k, tx_hash C (txs ! k)) \<in> set mt"
    by blast
  let ?mt = "if rel then (i, tx_hash C tx) # mt else mt"
  have run: "filter_txs C i (tx # txs) f = Some (rel # ms, ?mt, tx_hash C tx # hs, g)" using f'(1) IH(1) by (simp add: Let_def)
  have A: "i \<le> k \<and> k - i < length (tx # txs) \<and> h = tx_hash C ((tx # txs) ! (k - i))" if "(k, h) \<in> set ?mt" for k h
  proof (cases "k = i")
    case True
    then show ?thesis using that IH(6) [of i h] by (auto split: if_splits)
  next
    case False
    then have "i + 1 \<le> k \<and> k - (i + 1) < length txs \<and> h = tx_hash C (txs ! (k - (i + 1)))"
      using that by (intro IH(6)) (auto split: if_splits)
    then show ?thesis by (auto simp: nth_Cons')
  qed
  have B: "(i + k, tx_hash C ((tx # txs) ! k)) \<in> set ?mt"
    if "k < length (tx # txs)" "tx_matches f ((tx # txs) ! k) (tx_hash C ((tx # txs) ! k))" for k
  proof (cases k)
    case 0
    then show ?thesis using that(2) f'(3) by simp
  next
    case (Suc j)
    then have "(i + 1 + j, tx_hash C (txs ! j)) \<in> set mt" using that tx_matches_grows [OF f'(2)] by (intro IH(7)) auto
    then show ?thesis using Suc by simp
  qed
  have "tx_hash C tx # hs = map (tx_hash C) (tx # txs)" "length (rel # ms) = length (tx # txs)"
    "map snd ?mt = map fst (filter snd (zip (tx_hash C tx # hs) (rel # ms)))" using IH(3-5) by simp_all
  moreover have "\<forall>(k, h) \<in> set ?mt. i \<le> k \<and> k - i < length (tx # txs) \<and> h = tx_hash C ((tx # txs) ! (k - i))"
    using A by blast
  moreover have "\<forall>k < length (tx # txs). tx_matches f ((tx # txs) ! k) (tx_hash C ((tx # txs) ! k)) \<longrightarrow>
      (i + k, tx_hash C ((tx # txs) ! k)) \<in> set ?mt"
    using B by blast
  ultimately show ?case using run grows_trans [OF f'(2) IH(2)] by (intro exI conjI)
qed simp

text \<open>
  C27: what a light client gets. With the filter of any connection a block within the limits always becomes a
  merkleblock message. Whatever follows it on the wire, the client reads the header of the block and a tree,
  and ExtractMatches of that tree gives the root that BuildMerkleTree computes and exactly the hashes of the
  relevant transactions, in the order of the block: transaction k is delivered if and only if
  IsRelevantAndUpdate answers true for it, against the filter with what the transactions before it inserted,
  starting from the filter the client loaded. No transaction that this first filter matches is missing.
\<close>

theorem merkleblock_delivers:
  assumes "peer_reach p" "pfilter p = Some f" "header_ok block" "vtx block \<noteq> []"
    and "length (vtx block) \<le> MAX_BLOCK_SIZE div 60"
  shows "\<exists>mb g t fs. CMerkleBlock_of C block f = Some (mb, g) \<and> grows f g
    \<and> unser_merkleblock (ser_merkleblock mb @ rest) = Some ((CBlockHeader.truncate block, t), rest)
    \<and> ExtractMatches C t = (BuildMerkleTree C (vtx block), map snd (vMatchedTxn mb), t)
    \<and> (\<forall>(k, h) \<in> set (vMatchedTxn mb). k < length (vtx block) \<and> h = tx_hash C (vtx block ! k))
    \<and> sorted_wrt (<) (map fst (vMatchedTxn mb)) \<and> fs ! 0 = f \<and> fs ! length (vtx block) = g
    \<and> tests_in_order C (vtx block) fs (\<lambda>k. (k, tx_hash C (vtx block ! k)) \<in> set (vMatchedTxn mb))
    \<and> (\<forall>k < length (vtx block). tx_matches f (vtx block ! k) (tx_hash C (vtx block ! k)) \<longrightarrow>
         (k, tx_hash C (vtx block ! k)) \<in> set (vMatchedTxn mb))"
proof -
  have u: "usable f" using peer_reach_ok [OF assms(1)] assms(2) by (auto simp: filter_ok_def)
  let ?xs = "map (tx_hash C) (vtx block)"
  obtain ms mt g where F: "filter_txs C 0 (vtx block) f = Some (ms, mt, ?xs, g)" "grows f g"
    "length ms = length (vtx block)" "map snd mt = map fst (filter snd (zip ?xs ms))"
    "\<forall>(k, h) \<in> set mt. k < length (vtx block) \<and> h = tx_hash C (vtx block ! k)"
    "\<forall>k < length (vtx block). tx_matches f (vtx block ! k) (tx_hash C (vtx block ! k)) \<longrightarrow> (k, tx_hash C (vtx block ! k)) \<in> set mt"
    using filter_txs_spec [OF u, of C 0 "vtx block"] by auto
  let ?mb = "\<lparr>mheader = CBlockHeader.truncate block, txn = CPartialMerkleTree_of C ?xs ms, vMatchedTxn = mt\<rparr>"
  have mb: "CMerkleBlock_of C block f = Some (?mb, g)" using F(1) by (simp add: CMerkleBlock_of_def)
  obtain t where t: "unser_tree (ser_tree (CPartialMerkleTree_of C ?xs ms) @ rest) = Some (t, rest)"
    "ExtractMatches C t = (root C ?xs, map fst (filter snd (zip ?xs ms)), t)"
    using tree_roundtrip [of ?xs ms C rest] assms(4,5) F(3) by auto
  have h: "unser_header (ser_header (CBlockHeader.truncate block) @ s) = Some (CBlockHeader.truncate block, s)" for s
    using assms(3) by (subst unser_header_ser) (simp_all add: header_ok_def CBlockHeader.defs)
  have "unser_merkleblock (ser_merkleblock ?mb @ rest) = Some ((CBlockHeader.truncate block, t), rest)"
    by (simp add: unser_merkleblock_def ser_merkleblock_def h t(1))
  moreover from filter_txs_exact [OF F(1)] obtain fs where "fs ! 0 = f" "fs ! length (vtx block) = g"
    "tests_in_order C (vtx block) fs (\<lambda>k. (k, tx_hash C (vtx block ! k)) \<in> set mt)" "sorted_wrt (<) (map fst mt)" by auto
  ultimately show ?thesis using mb F(2,4-6) t(2) vMerkleTree_facts(1) [OF assms(4), of C]
    by (intro exI [of _ ?mb] exI [of _ g] exI [of _ t] exI [of _ fs]) simp
qed

section \<open>What a tree proves\<close>

text \<open>
  Some pair of hashes that the traversal joins differs from the pair of the block's own tree at that place
  and has the same hash.
\<close>

fun extract_collides :: "crypto \<Rightarrow> CPartialMerkleTree \<Rightarrow> uint256 list \<Rightarrow> nat \<Rightarrow> nat \<Rightarrow> cursor \<Rightarrow> bool" where
  "extract_collides C t xs 0 pos s = False"
| "extract_collides C t xs (Suc h) pos (k, s) =
     (k < length (vBits t) \<and> vBits t ! k \<and>
      (let two = pos * 2 + 1 < unat (CalcTreeWidth (nTransactions t) h);
           (left, s1) = TraverseAndExtract C t h (pos * 2) (k + 1, s);
           (right, s2) = (if two then TraverseAndExtract C t h (pos * 2 + 1) s1 else (left, s1));
           left' = CalcHash C (nTransactions t) h (pos * 2) xs;
           right' = (if two then CalcHash C (nTransactions t) h (pos * 2 + 1) xs else left')
       in (left, right) \<noteq> (left', right') \<and> Hash_pair C left right = Hash_pair C left' right'
          \<or> extract_collides C t xs h (pos * 2) (k + 1, s)
          \<or> two \<and> extract_collides C t xs h (pos * 2 + 1) s1))"

lemma extract_bad: "snd (snd (snd s)) \<Longrightarrow> snd (snd (snd (snd (TraverseAndExtract C t h pos s))))"
proof (induction h arbitrary: pos s)
  case 0
  then show ?case by (cases s) (auto simp: TraverseAndExtract.simps [of C t 0] Let_def)
next
  case (Suc h)
  obtain k j vm where s: "s = (k, j, vm, True)" using Suc.prems(1) by (cases s) auto
  have 1: "snd (snd (snd (snd (TraverseAndExtract C t h (pos * 2) (k + 1, j, vm, True)))))" by (rule Suc.IH) simp
  note 2 = Suc.IH [OF 1, of "pos * 2 + 1"]
  show ?case using 1 2 by (simp add: s TraverseAndExtract.simps [of C t "Suc h"] Let_def split_beta)
qed

lemma extract_sound:
  assumes "sized n xs" "nTransactions t = n"
  shows "h \<le> 31 \<Longrightarrow> pos < length (row C xs h)
    \<Longrightarrow> TraverseAndExtract C t h pos (k, j, vm, bad) = (CalcHash C n h pos xs, k', j', vm', False)
    \<Longrightarrow> \<not> extract_collides C t xs h pos (k, j, vm, bad)
    \<Longrightarrow> \<exists>ys. vm' = vm @ ys \<and> subseq ys (map ((!) xs) (span (length xs) h pos))"
proof (induction h arbitrary: pos k j vm bad k' j' vm')
  case 0
  then show ?case by (auto simp: TraverseAndExtract.simps [of C t 0] Let_def span_0 split: if_splits)
next
  case (Suc h)
  show ?case
  proof (cases "k < length (vBits t) \<and> vBits t ! k")
    case False
    then show ?thesis using Suc.prems(3) by (auto simp: TraverseAndExtract.simps [of C t "Suc h"] Let_def split: if_splits)
  next
    case True
    have p: "pos * 2 < length (row C xs h)" using Suc.prems(2) by simp
    have w: "unat (CalcTreeWidth n h) = length (row C xs h)" using Suc.prems(1) by (intro width [OF assms(1)]) simp
    obtain l k1 j1 v1 b1 where l: "TraverseAndExtract C t h (pos * 2) (k + 1, j, vm, bad) = (l, k1, j1, v1, b1)"
      by (metis prod_cases5)
    let ?l = "CalcHash C n h (pos * 2) xs" and ?r = "CalcHash C n h (pos * 2 + 1) xs"
    show ?thesis
    proof (cases "pos * 2 + 1 < length (row C xs h)")
      case one: False
      have "Hash_pair C l l = CalcHash C n (Suc h) pos xs" "v1 = vm'" "\<not> b1"
        using Suc.prems(3) True l one by (simp_all add: TraverseAndExtract.simps [of C t "Suc h"] Let_def assms(2) w)
      moreover have "\<not> (l \<noteq> ?l \<and> Hash_pair C l l = Hash_pair C ?l ?l)" "\<not> extract_collides C t xs h (pos * 2) (k + 1, j, vm, bad)"
        using Suc.prems(4) True l one by (simp_all add: assms(2) w Let_def)
      ultimately have "\<exists>ys. vm' = vm @ ys \<and> subseq ys (map ((!) xs) (span (length xs) h (pos * 2)))"
        using Suc.IH [OF _ p, of "k + 1" j vm bad k1 j1 v1] Suc.prems(1) l one w by (simp add: Let_def)
      then show ?thesis using one unfolding in_row span_Suc by simp
    next
      case two: True
      obtain r k2 j2 v2 b2 where r: "TraverseAndExtract C t h (pos * 2 + 1) (k1, j1, v1, b1) = (r, k2, j2, v2, b2)"
        by (metis prod_cases5)
      have e: "Hash_pair C l r = CalcHash C n (Suc h) pos xs" "v2 = vm'" "\<not> b2"
        using Suc.prems(3) True l r two by (simp_all add: TraverseAndExtract.simps [of C t "Suc h"] Let_def assms(2) w)
      have c: "\<not> ((l, r) \<noteq> (?l, ?r) \<and> Hash_pair C l r = Hash_pair C ?l ?r)"
        "\<not> extract_collides C t xs h (pos * 2) (k + 1, j, vm, bad)" "\<not> extract_collides C t xs h (pos * 2 + 1) (k1, j1, v1, b1)"
        using Suc.prems(4) True l r two by (simp_all add: assms(2) w Let_def)
      have lr: "l = ?l" "r = ?r" using c(1) e(1) two w by (simp_all add: Let_def)
      have b1: "\<not> b1" using extract_bad [of "(k1, j1, v1, b1)" C t h "pos * 2 + 1"] r e(3) by auto
      obtain ys where ys: "v1 = vm @ ys" "subseq ys (map ((!) xs) (span (length xs) h (pos * 2)))"
        using Suc.IH [OF _ p, of "k + 1" j vm bad k1 j1 v1] Suc.prems(1) l lr b1 c(2) by auto
      obtain zs where zs: "vm' = v1 @ zs" "subseq zs (map ((!) xs) (span (length xs) h (pos * 2 + 1)))"
        using Suc.IH [OF _ two, of k1 j1 v1 b1 k2 j2 v2] Suc.prems(1) r lr e(2,3) c(3) by auto
      have "subseq (ys @ zs) (map ((!) xs) (span (length xs) (Suc h) pos))"
        using two ys(2) zs(2) unfolding in_row span_Suc by (simp add: list_emb_append_mono)
      then show ?thesis using ys(1) zs(1) by auto
    qed
  qed
qed

text \<open>
  C28: a partial tree proves what it claims. Take any tree that a peer may send with the number of
  transactions of a block. If ExtractMatches returns the root of that block then the hashes it gives are
  hashes of transactions of the block, in the order of the block, or the traversal met a pair of hashes that
  differs from the block's own pair at that place and has the same double SHA-256.
\<close>

theorem partial_tree_proves:
  assumes "ExtractMatches C t = (BuildMerkleTree C txs, vm, t')" "BuildMerkleTree C txs \<noteq> 0"
    and "unat (nTransactions t) = length txs"
  shows "subseq vm (map (tx_hash C) txs)
    \<or> extract_collides C t (map (tx_hash C) txs) (pmt_height (nTransactions t) 0) 0 (0, 0, [], fBad t)"
proof -
  let ?xs = "map (tx_hash C) txs" and ?n = "nTransactions t"
  let ?H = "pmt_height ?n 0"
  have n: "?n \<noteq> 0" "length txs \<le> MAX_BLOCK_SIZE div 60"
    using assms by (auto simp: ExtractMatches_def split: if_splits)
  then have ne: "txs \<noteq> []" using assms(3) by (auto simp: unat_eq_zero)
  have s: "sized ?n ?xs" using n(2) ne assms(3) by (simp add: sized_def MAX_BLOCK_SIZE_def)
  obtain h k j v bad where T: "TraverseAndExtract C t ?H 0 (0, 0, [], fBad t) = (h, k, j, v, bad)" by (metis prod_cases5)
  have "h = BuildMerkleTree C txs" "v = vm" "\<not> bad"
    using assms(1,2) n T by (auto simp: ExtractMatches_def Let_def split: if_splits)
  then have T: "TraverseAndExtract C t ?H 0 (0, 0, [], fBad t) = (CalcHash C ?n ?H 0 ?xs, k, j, vm, False)"
    using T vMerkleTree_facts(1) [OF ne, of C] CalcHash_root(2) [OF s, of C] by simp
  have top: "length (row C ?xs ?H) = 1" using pmt_height_row [OF s, of 0 C] by simp
  then have "length ?xs \<le> 2 ^ ?H" using in_row [of 1 C ?xs ?H] by simp
  then have span: "map ((!) ?xs) (span (length ?xs) ?H 0) = ?xs"
    using map_nth [of ?xs] by (simp add: span_def min_def)
  show ?thesis
    using extract_sound [OF s refl CalcHash_root(1) [OF s] _ T] top unfolding span by auto
qed

text \<open>
  C29: the sizes of a tree are as main.h says, one hash and at most the height of the tree more for every
  matched transaction, and never more hashes than transactions or bits; but of the bits only
  1 + 2 * matched * height is true. With three transactions of which the last is matched there are four bits
  for two hashes, more than the 2 * N - 1 of the comment, since a node with one child has a bit of its own.
\<close>

theorem partial_tree_size:
  fixes ms :: "bool list"
  assumes "xs \<noteq> []" "length xs \<le> MAX_BLOCK_SIZE div 60" "length ms = length xs"
  shows "let t = CPartialMerkleTree_of C xs ms; m = length (filter id ms); H = pmt_height (word_of_nat (length xs)) 0
    in length (vHash t) \<le> 1 + m * H \<and> length (vBits t) \<le> 1 + 2 * m * H
      \<and> length (vHash t) \<le> length (vBits t) \<and> length (vHash t) \<le> length xs"
  using tree_of_facts [OF assms, of C] by (simp add: Let_def)

theorem partial_tree_more_bits:
  "length (vBits (CPartialMerkleTree_of C [a, b, c] [False, False, True])) = 4"
  "length (vHash (CPartialMerkleTree_of C [a, b, c] [False, False, True])) = 2"
proof -
  have H: "pmt_height 3 0 = 2"
    by (simp add: pmt_height.simps [of 3 0] pmt_height.simps [of 3 "Suc 0"] pmt_height.simps [of 3 "Suc (Suc 0)"] CalcTreeWidth_def)
  show "length (vBits (CPartialMerkleTree_of C [a, b, c] [False, False, True])) = 4"
    "length (vHash (CPartialMerkleTree_of C [a, b, c] [False, False, True])) = 2"
    by (simp_all add: CPartialMerkleTree_of_def H CalcTreeWidth_def ParentOfMatch_def upt_rec Let_def
        build_step [of C 3 2] build_step [of C 3 "Suc 0"] build_step [of C 3 0])
qed

section \<open>Examples\<close>

definition example_txids :: "uint256 list" where
  "example_txids = map (tx_hash plain_crypto) [sample_tx, sample_tx]"

theorem merkleblock_delivers_witness:
  "\<exists>mb g t fs. CMerkleBlock_of plain_crypto sample_block (UpdateEmptyFull (bloom_example\<lparr>vData := [1, 2, 3]\<rparr>)) = Some (mb, g)
    \<and> grows (UpdateEmptyFull (bloom_example\<lparr>vData := [1, 2, 3]\<rparr>)) g
    \<and> unser_merkleblock (ser_merkleblock mb @ [7]) = Some ((CBlockHeader.truncate sample_block, t), [7])
    \<and> ExtractMatches plain_crypto t =
        (BuildMerkleTree plain_crypto (vtx sample_block), map snd (vMatchedTxn mb), t)
    \<and> (\<forall>(k, h) \<in> set (vMatchedTxn mb). k < length (vtx sample_block) \<and> h = tx_hash plain_crypto (vtx sample_block ! k))
    \<and> sorted_wrt (<) (map fst (vMatchedTxn mb)) \<and> fs ! 0 = UpdateEmptyFull (bloom_example\<lparr>vData := [1, 2, 3]\<rparr>)
    \<and> fs ! length (vtx sample_block) = g
    \<and> tests_in_order plain_crypto (vtx sample_block) fs (\<lambda>k. (k, tx_hash plain_crypto (vtx sample_block ! k)) \<in> set (vMatchedTxn mb))
    \<and> (\<forall>k < length (vtx sample_block). tx_matches (UpdateEmptyFull (bloom_example\<lparr>vData := [1, 2, 3]\<rparr>)) (vtx sample_block ! k)
          (tx_hash plain_crypto (vtx sample_block ! k)) \<longrightarrow>
         (k, tx_hash plain_crypto (vtx sample_block ! k)) \<in> set (vMatchedTxn mb))"
proof (rule merkleblock_delivers)
  show "peer_reach (filterload (bloom_example\<lparr>vData := [1, 2, 3]\<rparr>) (new_peer bloom_example))"
    by (rule peer_reach.step [OF peer_reach.start peer_step.load])
qed (simp_all add: filterload_def IsWithinSizeConstraints_def bloom_example_def MAX_BLOOM_FILTER_SIZE_def
    MAX_HASH_FUNCS_def sample_block_def header_ok_def int32_range_def MAX_BLOCK_SIZE_def)

theorem partial_tree_size_witness:
  "let t = CPartialMerkleTree_of plain_crypto [1, 2, 3] [True, False, True]; m = length (filter id [True, False, True]);
     H = pmt_height (word_of_nat (length [1, 2, 3 :: uint256])) 0
   in length (vHash t) \<le> 1 + m * H \<and> length (vBits t) \<le> 1 + 2 * m * H
     \<and> length (vHash t) \<le> length (vBits t) \<and> length (vHash t) \<le> length [1, 2, 3 :: uint256]"
  by (rule partial_tree_size) (simp_all add: MAX_BLOCK_SIZE_def)

lemma ser_word_Cons: "\<exists>bs. ser_word (h :: uint256) = ucast h # bs"
proof -
  have "LENGTH(256) div 8 = Suc 31" by simp
  moreover have "word_of_nat (unat h mod 256) = (ucast h :: byte)"
    by (simp add: word_unat_eq_iff unsigned_ucast_eq take_bit_eq_mod)
  ultimately show ?thesis by (simp only: ser_word_def le_fixed.simps) blast
qed

lemma example_root: "BuildMerkleTree plain_crypto [sample_tx, sample_tx] \<noteq> 0"
proof -
  let ?h = "tx_hash plain_crypto sample_tx"
  have "ser_int 1 = [1, 0, 0, 0]" by code_simp
  then obtain bs where "ser_tx sample_tx = 1 # bs"
    by (simp only: ser_tx_def sample_tx_def CTransaction.simps append_Cons)
  then have "ucast ?h = (1 :: byte)" by (simp add: tx_hash_def Hash_bytes_def plain_crypto_def ucast_u256_of_bytes)
  then obtain cs where "ser_word ?h = 1 # cs" using ser_word_Cons [of ?h] by auto
  then have "ucast (Hash_pair plain_crypto ?h ?h) = (1 :: byte)"
    by (simp add: Hash_pair_def Hash_bytes_def plain_crypto_def ucast_u256_of_bytes)
  then have "Hash_pair plain_crypto ?h ?h \<noteq> 0" by auto
  then show ?thesis
    using vMerkleTree_facts(1) [of "[sample_tx, sample_tx]" plain_crypto]
    by (simp add: root.simps [of plain_crypto "[tx_hash plain_crypto sample_tx, tx_hash plain_crypto sample_tx]"] root.simps [of plain_crypto "[x]" for x] parents_def)
qed

theorem partial_tree_proves_witness:
  "subseq [tx_hash plain_crypto sample_tx] (map (tx_hash plain_crypto) [sample_tx, sample_tx])
    \<or> extract_collides plain_crypto (CPartialMerkleTree_of plain_crypto example_txids [True, False]) (map (tx_hash plain_crypto) [sample_tx, sample_tx])
        (pmt_height (nTransactions (CPartialMerkleTree_of plain_crypto example_txids [True, False])) 0) 0
        (0, 0, [], fBad (CPartialMerkleTree_of plain_crypto example_txids [True, False]))"
proof (rule partial_tree_proves [OF _ example_root])
  let ?t = "CPartialMerkleTree_of plain_crypto example_txids [True, False]"
  have s: "example_txids \<noteq> []" "length example_txids \<le> MAX_BLOCK_SIZE div 60" "length [True, False] = length example_txids"
    by (simp_all add: example_txids_def MAX_BLOCK_SIZE_def)
  show "ExtractMatches plain_crypto ?t =
      (BuildMerkleTree plain_crypto [sample_tx, sample_tx], [tx_hash plain_crypto sample_tx], ?t)"
    using extract_padded [OF s, of plain_crypto "[]"] vMerkleTree_facts(1) [of "[sample_tx, sample_tx]" plain_crypto]
    by (simp add: example_txids_def)
  show "unat (nTransactions ?t) = length [sample_tx, sample_tx]"
    using tree_of_facts(1) [OF s, of plain_crypto] by (simp add: example_txids_def)
qed

end
