(* ===== verification/Base58.thy ===== *)
theory Base58
  imports Solving KeyFacts Bignum
begin

text \<open>
  base58.h: byte strings as numbers to the base 58, with and without a checksum, and the addresses and
  secret keys that users see. The big numbers are those of OpenSSL, the argument L, and the hash functions the
  argument C. A std::string is passed on as a C string, which ends at the first zero character.
\<close>

section \<open>EncodeBase58 and DecodeBase58\<close>

definition pszBase58 :: string where
  "pszBase58 = ''123456789ABCDEFGHJKLMNPQRSTUVWXYZabcdefghijkmnopqrstuvwxyz''"

partial_function (option) encode_loop :: "'b bn_lib \<Rightarrow> 'b \<Rightarrow> string \<Rightarrow> string option" where
  "encode_loop L bn str =
     (if BN_cmp L bn (CBigNum_int L 0) > 0 then
        let c = ucast (BN_get_word L (BN_mod L bn (CBigNum_int L 58))) :: u32
        in encode_loop L (BN_div L bn (CBigNum_int L 58)) (str @ [pszBase58 ! unat c])
      else Some str)"

definition EncodeBase58 :: "'b bn_lib \<Rightarrow> byte list \<Rightarrow> string option" where
  "EncodeBase58 L vch =
     (let bn = setvch L (rev vch @ [0])
      in do { str \<leftarrow> encode_loop L bn [];
              Some (rev (str @ replicate (length (takeWhile (\<lambda>b. b = 0) vch)) (pszBase58 ! 0))) })"

text \<open>strchr on the alphabet; the loop over the characters, None where it returns false.\<close>

definition base58_index :: "char \<Rightarrow> nat option" where
  "base58_index c = (if c \<in> set pszBase58 then Some (length (takeWhile (\<lambda>d. d \<noteq> c) pszBase58)) else None)"

fun decode_loop :: "'b bn_lib \<Rightarrow> string \<Rightarrow> 'b \<Rightarrow> 'b option" where
  "decode_loop L [] bn = Some bn"
| "decode_loop L (c # p) bn =
     (case base58_index c of
        None \<Rightarrow> if dropWhile isspace (c # p) \<noteq> [] then None else Some bn
      | Some i \<Rightarrow> decode_loop L p (BN_add L (BN_mul L bn (CBigNum_int L 58)) (setulong L (word_of_nat i))))"

definition trim_sign :: "byte list \<Rightarrow> byte list" where
  "trim_sign vchTmp = (if length vchTmp \<ge> 2 \<and> last vchTmp = 0 \<and> vchTmp ! (length vchTmp - 2) \<ge> 0x80 then butlast vchTmp else vchTmp)"

definition c_str :: "string \<Rightarrow> string" where
  "c_str s = takeWhile (\<lambda>c. c \<noteq> CHR 0x00) s"

text \<open>Whether it succeeds, and vchRet.\<close>

definition DecodeBase58 :: "'b bn_lib \<Rightarrow> string \<Rightarrow> bool \<times> byte list" where
  "DecodeBase58 L str =
     (let psz = dropWhile isspace (c_str str)
      in case decode_loop L psz (CBigNum_int L 0) of
           None \<Rightarrow> (False, [])
         | Some bn \<Rightarrow>
             let vchTmp = trim_sign (getvch L bn);
                 nLeadingZeros = length (takeWhile (\<lambda>c. c = pszBase58 ! 0) psz)
             in (True, replicate nLeadingZeros 0 @ rev vchTmp))"

definition checksum :: "crypto \<Rightarrow> byte list \<Rightarrow> byte list" where
  "checksum C v = take 4 (u256_bytes (u256_of_bytes (Hash_bytes C v)))"

definition EncodeBase58Check :: "crypto \<Rightarrow> 'b bn_lib \<Rightarrow> byte list \<Rightarrow> string option" where
  "EncodeBase58Check C L vchIn = EncodeBase58 L (vchIn @ checksum C vchIn)"

definition DecodeBase58Check :: "crypto \<Rightarrow> 'b bn_lib \<Rightarrow> string \<Rightarrow> bool \<times> byte list" where
  "DecodeBase58Check C L str =
     (let (ok, vchRet) = DecodeBase58 L str; n = length vchRet - 4
      in if \<not> ok then (False, vchRet)
         else if length vchRet < 4 then (False, [])
         else if checksum C (take n vchRet) \<noteq> drop n vchRet then (False, [])
         else (True, take n vchRet))"

section \<open>CBase58Data\<close>

record CBase58Data =
  b58_version :: byte
  b58_data :: "byte list"

definition CBase58Data_new :: CBase58Data where
  "CBase58Data_new = \<lparr>b58_version = 0, b58_data = []\<rparr>"

definition SetData :: "int \<Rightarrow> byte list \<Rightarrow> CBase58Data" where
  "SetData nVersionIn pdata = \<lparr>b58_version = word_of_int nVersionIn, b58_data = pdata\<rparr>"

text \<open>The answer of DecodeBase58Check is not looked at: a failure leaves an empty vector.\<close>

definition SetString :: "crypto \<Rightarrow> 'b bn_lib \<Rightarrow> string \<Rightarrow> bool \<times> CBase58Data" where
  "SetString C L str =
     (let vchTemp = snd (DecodeBase58Check C L str)
      in if vchTemp = [] then (False, \<lparr>b58_version = 0, b58_data = []\<rparr>)
         else (True, \<lparr>b58_version = hd vchTemp, b58_data = tl vchTemp\<rparr>))"

definition b58_ToString :: "crypto \<Rightarrow> 'b bn_lib \<Rightarrow> CBase58Data \<Rightarrow> string option" where
  "b58_ToString C L d = EncodeBase58Check C L (b58_version d # b58_data d)"

fun bytes_less :: "byte list \<Rightarrow> byte list \<Rightarrow> bool" where
  "bytes_less _ [] = False"
| "bytes_less [] (y # ys) = True"
| "bytes_less (x # xs) (y # ys) = (if x < y then True else if y < x then False else bytes_less xs ys)"

definition CompareTo :: "CBase58Data \<Rightarrow> CBase58Data \<Rightarrow> int" where
  "CompareTo a b =
     (if b58_version a < b58_version b then - 1
      else if b58_version a > b58_version b then 1
      else if bytes_less (b58_data a) (b58_data b) then - 1
      else if bytes_less (b58_data b) (b58_data a) then 1
      else 0)"

section \<open>CBlazecoinAddress\<close>

definition PUBKEY_ADDRESS :: int where "PUBKEY_ADDRESS = 26"
definition SCRIPT_ADDRESS :: int where "SCRIPT_ADDRESS = 5"
definition PUBKEY_ADDRESS_TEST :: int where "PUBKEY_ADDRESS_TEST = 111"
definition SCRIPT_ADDRESS_TEST :: int where "SCRIPT_ADDRESS_TEST = 196"

text \<open>The answer, and the address, which a missing destination leaves alone.\<close>

fun address_Set :: "bool \<Rightarrow> CTxDestination \<Rightarrow> CBase58Data \<Rightarrow> bool \<times> CBase58Data" where
  "address_Set fTestNet (CKeyID k) d = (True, SetData (if fTestNet then PUBKEY_ADDRESS_TEST else PUBKEY_ADDRESS) (u160_bytes k))"
| "address_Set fTestNet (CScriptID k) d = (True, SetData (if fTestNet then SCRIPT_ADDRESS_TEST else SCRIPT_ADDRESS) (u160_bytes k))"
| "address_Set fTestNet CNoDestination d = (False, d)"

definition address_IsValid :: "bool \<Rightarrow> CBase58Data \<Rightarrow> bool" where
  "address_IsValid fTestNet d =
     (let nExpectedSize = 20; v = uint (b58_version d)
      in if v = PUBKEY_ADDRESS \<or> v = SCRIPT_ADDRESS then \<not> fTestNet \<and> length (b58_data d) = nExpectedSize
         else if v = PUBKEY_ADDRESS_TEST \<or> v = SCRIPT_ADDRESS_TEST then fTestNet \<and> length (b58_data d) = nExpectedSize
         else False)"

definition address_Get :: "bool \<Rightarrow> CBase58Data \<Rightarrow> CTxDestination" where
  "address_Get fTestNet d =
     (let v = uint (b58_version d)
      in if \<not> address_IsValid fTestNet d then CNoDestination
         else if v = PUBKEY_ADDRESS \<or> v = PUBKEY_ADDRESS_TEST then CKeyID (u160_of_bytes (take 20 (b58_data d)))
         else if v = SCRIPT_ADDRESS \<or> v = SCRIPT_ADDRESS_TEST then CScriptID (u160_of_bytes (take 20 (b58_data d)))
         else CNoDestination)"

definition address_GetKeyID :: "bool \<Rightarrow> CBase58Data \<Rightarrow> uint160 option" where
  "address_GetKeyID fTestNet d =
     (let v = uint (b58_version d)
      in if \<not> address_IsValid fTestNet d then None
         else if v = PUBKEY_ADDRESS \<or> v = PUBKEY_ADDRESS_TEST then Some (u160_of_bytes (take 20 (b58_data d)))
         else None)"

definition address_IsScript :: "bool \<Rightarrow> CBase58Data \<Rightarrow> bool" where
  "address_IsScript fTestNet d =
     (let v = uint (b58_version d)
      in if \<not> address_IsValid fTestNet d then False else v = SCRIPT_ADDRESS \<or> v = SCRIPT_ADDRESS_TEST)"

section \<open>CBitcoinSecret\<close>

definition PRIVKEY_ADDRESS :: int where "PRIVKEY_ADDRESS = PUBKEY_ADDRESS + 128"
definition PRIVKEY_ADDRESS_TEST :: int where "PRIVKEY_ADDRESS_TEST = PUBKEY_ADDRESS_TEST + 128"

text \<open>None where the assertion fails, and where GetKey reads beyond the data.\<close>

definition secret_SetKey :: "bool \<Rightarrow> CKey \<Rightarrow> CBase58Data option" where
  "secret_SetKey fTestNet vchSecret =
     (if \<not> fValid vchSecret then None
      else let d = SetData (if fTestNet then PRIVKEY_ADDRESS_TEST else PRIVKEY_ADDRESS) (CKey_bytes vchSecret)
           in Some (if fCompressed vchSecret then d\<lparr>b58_data := b58_data d @ [1]\<rparr> else d))"

definition secret_GetKey :: "CBase58Data \<Rightarrow> CKey option" where
  "secret_GetKey d =
     (if length (b58_data d) < 32 then None
      else Some (CKey_Set (take 32 (b58_data d)) (length (b58_data d) > 32 \<and> b58_data d ! 32 = 1) CKey_new))"

definition secret_IsValid :: "bool \<Rightarrow> CBase58Data \<Rightarrow> bool" where
  "secret_IsValid fTestNet d =
     (let v = uint (b58_version d); n = length (b58_data d);
          size_ok = (n = 32 \<or> (n = 33 \<and> b58_data d ! 32 = 1))
      in if v = PRIVKEY_ADDRESS then \<not> fTestNet \<and> size_ok
         else if v = PRIVKEY_ADDRESS_TEST then fTestNet \<and> size_ok
         else False)"

definition secret_SetString :: "crypto \<Rightarrow> 'b bn_lib \<Rightarrow> bool \<Rightarrow> string \<Rightarrow> bool \<times> CBase58Data" where
  "secret_SetString C L fTestNet str =
     (let (ok, d) = SetString C L str in (ok \<and> secret_IsValid fTestNet d, d))"

end
