(* ===== verification/Base58Facts.thy ===== *)
theory Base58Facts
  imports Base58
begin

text \<open>
  What base58.h promises: every byte string is read back from its encoding, every string that is read is the
  encoding of what it was read as (spaces around it apart), and addresses and keys survive the round trip.
\<close>

section \<open>The alphabet\<close>

lemma length_alphabet: "length pszBase58 = 58"
  by (simp add: pszBase58_def)

lemma base58_index_nth: "i < 58 \<Longrightarrow> base58_index (pszBase58 ! i) = Some i"
proof -
  have "list_all (\<lambda>i. base58_index (pszBase58 ! i) = Some i) [0..<58]" by code_simp
  then show "i < 58 \<Longrightarrow> base58_index (pszBase58 ! i) = Some i" by (simp add: list_all_iff)
qed

lemma takeWhile_shorter: "x \<in> set xs \<Longrightarrow> \<not> P x \<Longrightarrow> length (takeWhile P xs) < length xs"
  by (induction xs) auto

lemma base58_index_Some: "base58_index c = Some i \<Longrightarrow> i < 58 \<and> pszBase58 ! i = c"
proof -
  assume i: "base58_index c = Some i"
  then have c: "c \<in> set pszBase58" "i = length (takeWhile (\<lambda>d. d \<noteq> c) pszBase58)" by (auto simp: base58_index_def split: if_splits)
  have "i < length pszBase58" unfolding c(2) by (rule takeWhile_shorter [OF c(1)]) simp
  then show ?thesis using nth_length_takeWhile [of "\<lambda>d. d \<noteq> c" pszBase58] c(2) by (simp add: length_alphabet)
qed

lemma base58_index_None: "base58_index c = None \<longleftrightarrow> c \<notin> set pszBase58"
  by (simp add: base58_index_def)

lemma alphabet_plain: "c \<in> set pszBase58 \<Longrightarrow> \<not> isspace c \<and> c \<noteq> CHR 0x00"
proof -
  have "list_all (\<lambda>c. \<not> isspace c \<and> c \<noteq> CHR 0x00) pszBase58" by code_simp
  then show "c \<in> set pszBase58 \<Longrightarrow> \<not> isspace c \<and> c \<noteq> CHR 0x00" by (simp add: list_all_iff)
qed

lemma space_no_nul: "isspace c \<Longrightarrow> c \<noteq> CHR 0x00"
  by (auto simp: isspace_def)

section \<open>Numbers to the base 58\<close>

fun digits58 :: "nat \<Rightarrow> nat list" where
  "digits58 n = (if n = 0 then [] else n mod 58 # digits58 (n div 58))"

declare digits58.simps [simp del]

definition value58 :: "nat list \<Rightarrow> nat" where
  "value58 ds = foldl (\<lambda>a d. a * 58 + d) 0 ds"

lemma digits58_pos: "0 < n \<Longrightarrow> digits58 n = n mod 58 # digits58 (n div 58)"
  by (simp add: digits58.simps [of n])

lemma digits58_0 [simp]: "digits58 0 = []"
  by (simp add: digits58.simps)

lemma digits58_less: "d \<in> set (digits58 n) \<Longrightarrow> d < 58"
  by (induction n rule: digits58.induct) (subst (asm) (2) digits58.simps, auto split: if_splits)

lemma value58_snoc [simp]: "value58 (ds @ [d]) = value58 ds * 58 + d"
  by (simp add: value58_def)

lemma value58_Nil [simp]: "value58 [] = 0"
  by (simp add: value58_def)

lemma value58_digits58: "value58 (rev (digits58 n)) = n"
proof (induction n rule: digits58.induct)
  case (1 n)
  then show ?case by (cases "n = 0") (simp_all add: digits58_pos)
qed

lemma value58_zeros: "value58 (replicate z 0 @ ds) = value58 ds"
  by (induction z) (simp_all add: value58_def)

lemma value58_less: "\<forall>d \<in> set ds. d < 58 \<Longrightarrow> value58 ds < 58 ^ length ds"
proof (induction ds rule: rev_induct)
  case (snoc d ds)
  then have "value58 ds < 58 ^ length ds" "d < 58" by auto
  then have "value58 ds * 58 + d < (value58 ds + 1) * 58" "(value58 ds + 1) * 58 \<le> 58 ^ length ds * 58" by auto
  then show ?case by simp
qed simp

lemma digits58_value58: "\<forall>d \<in> set ds. d < 58 \<Longrightarrow> ds = [] \<or> hd ds \<noteq> 0 \<Longrightarrow> rev (digits58 (value58 ds)) = ds"
proof (induction ds rule: rev_induct)
  case (snoc d ds)
  show ?case
  proof (cases "ds = []")
    case True
    then show ?thesis using snoc.prems by (simp add: value58_def digits58_pos)
  next
    case False
    then have "hd ds \<noteq> 0" using snoc.prems(2) by simp
    then have IH: "rev (digits58 (value58 ds)) = ds" using snoc by simp
    then have "0 < value58 ds" using False by (cases "value58 ds") auto
    then show ?thesis using IH snoc.prems(1) by (simp add: digits58_pos)
  qed
qed simp

lemma hd_digits58: "0 < n \<Longrightarrow> hd (rev (digits58 n)) \<noteq> 0"
proof (induction n rule: digits58.induct)
  case (1 n)
  show ?case
  proof (cases "n div 58 = 0")
    case True
    then show ?thesis using 1 by (simp add: digits58_pos mod_less)
  next
    case False
    then have "rev (digits58 (n div 58)) \<noteq> []" by (simp add: digits58_pos)
    then show ?thesis using 1 False by (simp add: digits58_pos [of n])
  qed
qed

lemma length_digits58_le: "n < 58 ^ k \<Longrightarrow> length (digits58 n) \<le> k"
proof (induction k arbitrary: n)
  case (Suc k)
  then have "n div 58 < 58 ^ k" by (simp add: less_mult_imp_div_less)
  then show ?case using Suc.IH [of "n div 58"] by (cases "n = 0") (simp_all add: digits58_pos)
qed simp

section \<open>Big endian bytes\<close>

lemma le_val_replicate_0 [simp]: "le_val (replicate z 0) = 0"
  by (induction z) simp_all

lemma le_val_zeros: "le_val (bs @ replicate z 0) = le_val bs"
  by simp

lemma num_value_positive: "num_value (bs @ [0]) = int (le_val bs)"
  using le_val_zeros [of bs 1] by (simp add: num_value_def)

lemma trim_sign_num_body: "trim_sign (num_body (int n)) = le_bytes n"
proof (cases "n = 0")
  case True
  then show ?thesis by (simp add: num_body_def trim_sign_def)
next
  case False
  then have l: "le_bytes n \<noteq> []" "last (le_bytes n) \<noteq> 0" using last_le_bytes [of n] by simp_all
  have top: "le_bytes n ! (length (le_bytes n) - 1) = last (le_bytes n)" using l(1) by (simp add: last_conv_nth)
  have b: "bit (last (le_bytes n)) 7 \<longleftrightarrow> 0x80 \<le> last (le_bytes n)"
    by (simp add: byte_bit7 word_le_nat_alt)
  show ?thesis using l top b
    by (auto simp: num_body_def trim_sign_def Let_def nth_append Suc_le_eq)
qed

lemma zeros_and_bytes:
  defines "z \<equiv> \<lambda>v :: byte list. length (takeWhile (\<lambda>b. b = 0) v)"
  shows "replicate (z v) 0 @ rev (le_bytes (le_val (rev v))) = v"
proof -
  let ?w = "dropWhile (\<lambda>b. b = 0) v"
  have t: "takeWhile (\<lambda>b. b = 0) v = replicate (z v) 0"
    by (intro replicate_eqI) (auto simp: z_def dest: set_takeWhileD)
  have v: "v = replicate (z v) 0 @ ?w" using takeWhile_dropWhile_id [of "\<lambda>b. b = 0" v] unfolding t by simp
  have "le_val (rev v) = le_val (rev ?w)" by (subst v) simp
  moreover have "le_bytes (le_val (rev ?w)) = rev ?w"
  proof (cases "?w = []")
    case True
    show ?thesis unfolding True by simp
  next
    case False
    then show ?thesis using hd_dropWhile [OF False] by (intro le_bytes_le_val) (simp_all add: last_rev)
  qed
  ultimately show ?thesis using v by simp
qed

section \<open>The loops of the program\<close>

definition alphabet_value :: "string \<Rightarrow> nat" where
  "alphabet_value s = value58 (map (the \<circ> base58_index) s)"

definition base58_body :: "string \<Rightarrow> string" where
  "base58_body s = takeWhile (\<lambda>c. c \<in> set pszBase58) (dropWhile isspace (c_str s))"

context bignum_library
begin

lemma val_small: "val (CBigNum_int L 58) = 58" "val (CBigNum_int L 0) = 0"
  by (simp_all add: CBigNum_int_def setulong_def)

lemma encode_loop_eq:
  "0 \<le> val bn \<Longrightarrow> encode_loop L bn str = Some (str @ map ((!) pszBase58) (digits58 (nat (val bn))))"
proof (induction "nat (val bn)" arbitrary: bn str rule: less_induct)
  case less
  show ?case
  proof (cases "val bn = 0")
    case True
    then show ?thesis by (subst encode_loop.simps) (simp add: val_small)
  next
    case False
    let ?m = "BN_mod L bn (CBigNum_int L 58)" and ?d = "BN_div L bn (CBigNum_int L 58)"
    have m: "val ?m = val bn mod 58" and d: "val ?d = val bn div 58"
      using less.prems by (simp_all add: modulo divide val_small c_mod_nonneg c_div_nonneg)
    have r: "0 \<le> val bn mod 58" "val bn mod 58 < 58" by simp_all
    have "uint (BN_get_word L ?m) = val bn mod 58" using get_word [of ?m] m r by simp
    then have g: "unat (BN_get_word L ?m) = nat (val bn) mod 58"
      using less.prems by (simp add: unat_eq_nat_uint nat_mod_distrib)
    then have u: "unat (ucast (BN_get_word L ?m) :: u32) = nat (val bn) mod 58"
      by (subst unsigned_ucast_eq) (simp add: take_bit_nat_eq_self)
    have "encode_loop L ?d str' = Some (str' @ map ((!) pszBase58) (digits58 (nat (val ?d))))" for str'
      using less.prems False d by (intro less.hyps) (simp_all add: nat_div_distrib)
    then show ?thesis using less.prems False u d
      by (subst encode_loop.simps) (simp add: val_small digits58_pos nat_div_distrib Let_def)
  qed
qed

lemma EncodeBase58_eq:
  assumes "length v < 2 ^ 32 - 1"
  shows "EncodeBase58 L v = Some (replicate (length (takeWhile (\<lambda>b. b = 0) v)) (pszBase58 ! 0)
    @ map ((!) pszBase58) (rev (digits58 (le_val (rev v)))))"
  using assms by (simp add: EncodeBase58_def val_setvch num_value_positive encode_loop_eq rev_map)

lemma decode_loop_eq:
  "\<forall>c \<in> set s. c \<in> set pszBase58 \<Longrightarrow> \<forall>c \<in> set w. isspace c \<Longrightarrow> 0 \<le> val bn \<Longrightarrow>
    \<exists>b. decode_loop L (s @ w) bn = Some b \<and>
      val b = int (foldl (\<lambda>a c. a * 58 + the (base58_index c)) (nat (val bn)) s)"
proof (induction s arbitrary: bn)
  case Nil
  have "c \<notin> set pszBase58" if "c \<in> set w" for c using Nil(2) that alphabet_plain by blast
  moreover have "dropWhile isspace w = []" using Nil(2) by (simp add: dropWhile_eq_Nil_conv)
  ultimately show ?case using Nil(3) by (cases w) (auto simp: base58_index_def)
next
  case (Cons c s)
  obtain i where i: "base58_index c = Some i" "i < 58"
    using Cons.prems(1) base58_index_None [of c] base58_index_Some [of c] by (cases "base58_index c") auto
  let ?b = "BN_add L (BN_mul L bn (CBigNum_int L 58)) (setulong L (word_of_nat i))"
  have "uint (word_of_nat i :: u64) = int i" using i(2) by (simp add: unsigned_of_nat take_bit_nat_eq_self)
  then have v: "val ?b = val bn * 58 + int i" by (simp add: val_small setulong_def)
  then have "nat (val ?b) = nat (val bn) * 58 + i" using Cons.prems(3) by (simp add: nat_add_distrib nat_mult_distrib)
  then show ?case using Cons.IH [of ?b] Cons.prems i(1) v by simp
qed

lemma decode_loop_Some:
  "decode_loop L p bn = Some b \<Longrightarrow> \<exists>s w. p = s @ w \<and> (\<forall>c \<in> set s. c \<in> set pszBase58) \<and> (\<forall>c \<in> set w. isspace c)"
proof (induction L p bn rule: decode_loop.induct)
  case (2 L c p bn)
  show ?case
  proof (cases "base58_index c")
    case None
    with 2 have "\<forall>x \<in> set (c # p). isspace x" by (simp add: dropWhile_eq_Nil_conv split: if_splits)
    then show ?thesis by (intro exI [of _ "[]"] exI [of _ "c # p"]) simp
  next
    case (Some i)
    with 2 obtain s w where "p = s @ w" "\<forall>c \<in> set s. c \<in> set pszBase58" "\<forall>c \<in> set w. isspace c" by auto
    moreover have "c \<in> set pszBase58" using Some by (simp add: base58_index_def split: if_splits)
    ultimately show ?thesis by (intro exI [of _ "c # s"] exI [of _ w]) simp
  qed
qed simp

lemma DecodeBase58_eq:
  assumes s: "\<forall>c \<in> set s. c \<in> set pszBase58" and w: "\<forall>c \<in> set w. isspace c" "\<forall>c \<in> set w'. isspace c"
    and len: "length s < 2 ^ 32 - 1"
  shows "DecodeBase58 L (w @ s @ w') =
    (True, replicate (length (takeWhile (\<lambda>c. c = pszBase58 ! 0) s)) 0 @ rev (le_bytes (alphabet_value s)))"
proof -
  have c: "c_str (w @ s @ w') = w @ s @ w'"
    unfolding c_str_def takeWhile_eq_all_conv using s w by (auto dest: alphabet_plain space_no_nul)
  have drop: "dropWhile isspace (w @ s @ w') = (if s = [] then [] else s @ w')"
  proof (cases s)
    case (Cons a t)
    then show ?thesis using s w alphabet_plain [of a] by (simp add: dropWhile_append3 dropWhile_append)
  qed (use w in \<open>simp add: dropWhile_eq_Nil_conv\<close>)
  obtain b where b: "decode_loop L (if s = [] then [] else s @ w') (CBigNum_int L 0) = Some b"
    "val b = int (foldl (\<lambda>a c. a * 58 + the (base58_index c)) 0 s)"
    using decode_loop_eq [OF s w(2), of "CBigNum_int L 0"] by (cases "s = []") (auto simp: val_small)
  have v: "val b = int (alphabet_value s)"
    unfolding b(2) alphabet_value_def value58_def by (simp add: foldl_map)
  have "\<forall>d \<in> set (map (the \<circ> base58_index) s). d < 58"
    using s base58_index_Some base58_index_None by fastforce
  from value58_less [OF this] have "alphabet_value s < 58 ^ length s" by (simp add: alphabet_value_def)
  also have "(58 :: nat) ^ length s \<le> 256 ^ length s" by (intro power_mono) simp_all
  finally have "2 * alphabet_value s < 256 ^ (length s + 1)" by simp
  then have "length (num_body (val b)) \<le> length s + 1"
    using length_num_body_le_iff [of "length s + 1" "val b"] v by simp
  then have g: "getvch L b = num_body (int (alphabet_value s))" using len v by (subst getvch_eq) simp_all
  have "pszBase58 ! 0 \<in> set pszBase58" by (simp add: length_alphabet)
  then have "takeWhile (\<lambda>c. c = pszBase58 ! 0) w' = []" using w(2) alphabet_plain by (cases w') auto
  then have "takeWhile (\<lambda>c. c = pszBase58 ! 0) (if s = [] then [] else s @ w') = takeWhile (\<lambda>c. c = pszBase58 ! 0) s"
    by (cases "\<forall>c \<in> set s. c = pszBase58 ! 0") (simp_all add: takeWhile_append takeWhile_eq_all_conv [THEN iffD2])
  then show ?thesis by (simp add: DecodeBase58_def c drop b(1) g trim_sign_num_body)
qed

text \<open>Every byte string is read back, with any spaces around its encoding.\<close>

lemma base58_there_and_back:
  assumes "length v < 2 ^ 30" "\<forall>c \<in> set w. isspace c" "\<forall>c \<in> set w'. isspace c"
  shows "\<exists>s. EncodeBase58 L v = Some s \<and> DecodeBase58 L (w @ s @ w') = (True, v)"
proof -
  let ?z = "length (takeWhile (\<lambda>b. b = 0) v)" and ?N = "le_val (rev v)"
  let ?ds = "rev (digits58 ?N)"
  let ?s = "replicate ?z (pszBase58 ! 0) @ map ((!) pszBase58) ?ds"
  have enc: "EncodeBase58 L v = Some ?s" using assms(1) by (intro EncodeBase58_eq) simp
  have small: "\<forall>d \<in> set ?ds. d < 58" using digits58_less by simp
  have s: "\<forall>c \<in> set ?s. c \<in> set pszBase58" using small length_alphabet by (auto simp: in_set_replicate)
  have idx: "map (the \<circ> base58_index) (map ((!) pszBase58) ?ds) = ?ds"
    unfolding map_map using small by (intro map_idI) (simp add: base58_index_nth)
  have "alphabet_value ?s = value58 (replicate ?z 0 @ ?ds)"
    unfolding alphabet_value_def map_append idx by (simp add: base58_index_nth)
  then have N: "alphabet_value ?s = ?N" by (simp add: value58_zeros value58_digits58)
  have ones: "takeWhile (\<lambda>c. c = pszBase58 ! 0) (map ((!) pszBase58) ?ds) = []"
  proof (cases "?N = 0")
    case False
    then have h: "hd ?ds \<noteq> 0" "?ds \<noteq> []" using hd_digits58 [of ?N] by (simp_all add: digits58_pos)
    then have "hd ?ds < 58" using small by (metis hd_in_set)
    then have "pszBase58 ! hd ?ds \<noteq> pszBase58 ! 0" using h(1) base58_index_nth by (metis option.inject zero_less_numeral)
    then show ?thesis using h(2) by (cases ?ds) simp_all
  qed simp
  have "?N < 256 ^ length v" using le_val_bound [of "rev v"] by simp
  also have "(256 :: nat) ^ length v \<le> (58 ^ 2) ^ length v" by (intro power_mono) simp_all
  finally have "length (digits58 ?N) \<le> 2 * length v" by (intro length_digits58_le) (simp add: power_mult)
  moreover have "?z \<le> length v" by (rule length_takeWhile_le)
  ultimately have "length ?s < 2 ^ 32 - 1" using assms(1) by simp
  from DecodeBase58_eq [OF s assms(2,3) this] have "DecodeBase58 L (w @ ?s @ w') = (True, v)"
    using ones zeros_and_bytes [of v] by (simp add: N takeWhile_append)
  with enc show ?thesis by blast
qed

text \<open>Every string that is read is the encoding of what it was read as, apart from the spaces.\<close>

lemma base58_back_and_there:
  assumes dec: "DecodeBase58 L str = (True, v)" and len: "length str < 2 ^ 30"
  shows "EncodeBase58 L v = Some (base58_body str)"
proof -
  let ?p = "dropWhile isspace (c_str str)"
  obtain b where "decode_loop L ?p (CBigNum_int L 0) = Some b"
    using dec by (auto simp: DecodeBase58_def Let_def split: option.splits)
  then obtain s w where p: "?p = s @ w" and s: "\<forall>c \<in> set s. c \<in> set pszBase58" and w: "\<forall>c \<in> set w. isspace c"
    using decode_loop_Some by blast
  have wa: "c \<notin> set pszBase58" if "c \<in> set w" for c using that w alphabet_plain by blast
  then have "takeWhile (\<lambda>c. c \<in> set pszBase58) w = []" by (cases w) auto
  then have body: "base58_body str = s" using s by (simp add: base58_body_def p)
  have "c_str (s @ w) = s @ w"
    unfolding c_str_def takeWhile_eq_all_conv using s w by (auto dest: alphabet_plain space_no_nul)
  moreover have "dropWhile isspace (s @ w) = s @ w" unfolding p [symmetric] by (rule dropWhile_idem)
  ultimately have "DecodeBase58 L ([] @ s @ w) = DecodeBase58 L str" by (simp add: DecodeBase58_def p)
  moreover have "length ?p \<le> length str"
    unfolding c_str_def using length_dropWhile_le length_takeWhile_le order_trans by blast
  then have ls: "length s < 2 ^ 30" using len p by simp
  ultimately have v: "v = replicate (length (takeWhile (\<lambda>c. c = pszBase58 ! 0) s)) 0 @ rev (le_bytes (alphabet_value s))"
    using DecodeBase58_eq [OF s _ w, of "[]"] dec by simp
  define z where "z = length (takeWhile (\<lambda>c. c = pszBase58 ! 0) s)"
  define t where "t = dropWhile (\<lambda>c. c = pszBase58 ! 0) s"
  have "takeWhile (\<lambda>c. c = pszBase58 ! 0) s = replicate z (pszBase58 ! 0)"
    by (intro replicate_eqI) (auto simp: z_def dest: set_takeWhileD)
  then have st: "s = replicate z (pszBase58 ! 0) @ t"
    unfolding t_def by (metis takeWhile_dropWhile_id)
  let ?i = "the \<circ> base58_index"
  have idx: "?i c < 58 \<and> pszBase58 ! ?i c = c" if "c \<in> set t" for c
    using that s base58_index_Some [of c] base58_index_None [of c] by (cases "base58_index c") (auto simp: st)
  have A: "alphabet_value s = value58 (map ?i t)"
    unfolding alphabet_value_def st by (simp add: base58_index_nth value58_zeros)
  have "map ?i t = [] \<or> hd (map ?i t) \<noteq> 0"
  proof (cases t)
    case (Cons c u)
    then have "c \<noteq> pszBase58 ! 0" using hd_dropWhile [of "\<lambda>c. c = pszBase58 ! 0" s] by (simp add: t_def)
    then show ?thesis using idx [of c] Cons by (metis hd_map list.discI list.sel(1) list.set_intros(1))
  qed simp
  then have D: "rev (digits58 (alphabet_value s)) = map ?i t" unfolding A using idx by (intro digits58_value58) auto
  have T: "map ((!) pszBase58) (map ?i t) = t" unfolding map_map using idx by (intro map_idI) simp
  have "takeWhile (\<lambda>b. b = 0) (rev (le_bytes (alphabet_value s))) = []"
  proof (cases "rev (le_bytes (alphabet_value s))")
    case (Cons h u)
    then have "last (le_bytes (alphabet_value s)) = h" "0 < alphabet_value s" by (auto simp flip: hd_rev intro: gr0I)
    then show ?thesis using Cons last_le_bytes [of "alphabet_value s"] by simp
  qed simp
  then have z: "length (takeWhile (\<lambda>b. b = 0) v) = z" by (simp add: v z_def takeWhile_append)
  have N: "le_val (rev v) = alphabet_value s" by (simp add: v)
  have "\<forall>d \<in> set (map ?i t). d < 58" using idx by auto
  from value58_less [OF this] have "alphabet_value s < 58 ^ length t" unfolding A by simp
  also have "(58 :: nat) ^ length t \<le> 256 ^ length t" by (intro power_mono) simp_all
  finally have "length (le_bytes (alphabet_value s)) \<le> length t" unfolding length_le_bytes_le_iff .
  moreover have "length s = z + length t" using arg_cong [OF st, of length] by simp
  moreover have "length v = z + length (le_bytes (alphabet_value s))" using arg_cong [OF v, of length] by (simp add: z_def)
  ultimately have "length v < 2 ^ 32 - 1" using ls by simp
  from EncodeBase58_eq [OF this] show ?thesis unfolding z N D T body by (simp add: st)
qed

end

section \<open>Properties\<close>

text \<open>
  Base 58 loses nothing and adds nothing. Every byte string is read back from its encoding, whatever white
  space is around it, and every string that is read is the encoding of the bytes it stands for, apart from the
  white space. OpenSSL enters by its contract.
\<close>

theorem base58_roundtrip:
  assumes "bignum_library L val" "length v < 2 ^ 30" "length str < 2 ^ 30"
    and "\<forall>c \<in> set w. isspace c" "\<forall>c \<in> set w'. isspace c"
  shows "\<exists>s. EncodeBase58 L v = Some s \<and> DecodeBase58 L (w @ s @ w') = (True, v)
    \<and> (\<forall>u. DecodeBase58 L str = (True, u) \<longrightarrow> EncodeBase58 L u = Some (base58_body str))"
  using bignum_library.base58_there_and_back [OF assms(1,2,4,5)] bignum_library.base58_back_and_there [OF assms(1) _ assms(3)]
  by blast

lemma length_checksum [simp]: "length (checksum C v) = 4"
  by (simp add: checksum_def)

text \<open>With the checksum.\<close>

lemma check_there_and_back:
  assumes "bignum_library L val" "length v < 2 ^ 29" "\<forall>c \<in> set w. isspace c" "\<forall>c \<in> set w'. isspace c"
  shows "\<exists>s. EncodeBase58Check C L v = Some s \<and> DecodeBase58Check C L (w @ s @ w') = (True, v)"
proof -
  have "length (v @ checksum C v) < 2 ^ 30" using assms(2) by simp
  from bignum_library.base58_there_and_back [OF assms(1) this assms(3,4)] show ?thesis
    by (auto simp: EncodeBase58Check_def DecodeBase58Check_def)
qed

lemma check_back_and_there:
  assumes "bignum_library L val" "DecodeBase58Check C L str = (True, v)" "length str < 2 ^ 30"
  shows "EncodeBase58Check C L v = Some (base58_body str)"
proof -
  obtain ok u where d: "DecodeBase58 L str = (ok, u)" by (metis surj_pair)
  then have "ok" "v @ checksum C v = u"
    using assms(2) by (auto simp: DecodeBase58Check_def Let_def split: if_splits)
  then show ?thesis using bignum_library.base58_back_and_there [OF assms(1) _ assms(3)] d by (simp add: EncodeBase58Check_def)
qed

lemma SetString_ToString:
  assumes "bignum_library L val" "length (b58_data d) < 2 ^ 28" "\<forall>c \<in> set w. isspace c" "\<forall>c \<in> set w'. isspace c"
  shows "\<exists>s. b58_ToString C L d = Some s \<and> SetString C L (w @ s @ w') = (True, d)"
proof -
  have "length (b58_version d # b58_data d) < 2 ^ 29" using assms(2) by simp
  from check_there_and_back [OF assms(1) this assms(3,4), of C] show ?thesis
    by (auto simp: b58_ToString_def SetString_def)
qed

lemma SetString_True:
  assumes "bignum_library L val" "SetString C L str = (True, d)" "length str < 2 ^ 30"
  shows "b58_ToString C L d = Some (base58_body str)"
proof -
  obtain ok v where v: "DecodeBase58Check C L str = (ok, v)" by (metis surj_pair)
  then have d: "v \<noteq> []" "v = b58_version d # b58_data d" using assms(2) by (auto simp: SetString_def split: if_splits)
  have ok
  proof (rule ccontr)
    assume "\<not> ok"
    then have "v = []" using v
      by (auto simp: DecodeBase58Check_def DecodeBase58_def Let_def split: if_splits option.splits prod.splits)
    with d(1) show False ..
  qed
  then show ?thesis using check_back_and_there [OF assms(1) _ assms(3)] v d(2) by (simp add: b58_ToString_def)
qed

text \<open>
  C33: an address names its destination. The string of an address made from a key or script hash is read back,
  on the same network, as a valid address with the same destination, with white space around it as well; on
  the other network it is not valid and gives no destination. And whatever string is taken as a valid address
  is the string of the destination that it gives: nobody can write a destination in a second way.
\<close>

theorem address_roundtrip:
  assumes "bignum_library L val" "dest \<noteq> CNoDestination" "length str < 2 ^ 30"
    and "\<forall>c \<in> set w. isspace c" "\<forall>c \<in> set w'. isspace c"
  shows "\<exists>a s. address_Set net dest d = (True, a) \<and> b58_ToString C L a = Some s
    \<and> SetString C L (w @ s @ w') = (True, a) \<and> address_IsValid net a \<and> address_Get net a = dest
    \<and> address_Get (\<not> net) a = CNoDestination
    \<and> (\<forall>b. SetString C L str = (True, b) \<and> address_IsValid net b \<longrightarrow>
         address_Set net (address_Get net b) d = (True, b) \<and> b58_ToString C L b = Some (base58_body str))"
proof -
  note versions = PUBKEY_ADDRESS_def SCRIPT_ADDRESS_def PUBKEY_ADDRESS_TEST_def SCRIPT_ADDRESS_TEST_def
  obtain a where a: "address_Set net dest d = (True, a)" "length (b58_data a) = 20"
    "address_IsValid net a" "address_Get net a = dest" "address_Get (\<not> net) a = CNoDestination"
    using assms(2) by (cases dest; cases net)
      (simp_all add: SetData_def address_IsValid_def address_Get_def versions)
  obtain s where s: "b58_ToString C L a = Some s" "SetString C L (w @ s @ w') = (True, a)"
    using SetString_ToString [OF assms(1) _ assms(4,5), of a C] a(2) by auto
  have "address_Set net (address_Get net b) d = (True, b)" if "address_IsValid net b" for b
  proof -
    have v: "x = word_of_int k" if "uint x = k" for x :: byte and k using that by (metis word_of_int_uint)
    show ?thesis using that
      by (cases b) (auto simp: address_IsValid_def address_Get_def SetData_def versions Let_def split: if_splits dest!: v)
  qed
  then show ?thesis using a s SetString_True [OF assms(1) _ assms(3)] by blast
qed

text \<open>
  A secret key survives its string: SetKey, ToString, SetString and GetKey give back the key with its
  32 bytes and the flag of compression, and the string is valid on its own network only.
\<close>

theorem secret_roundtrip:
  assumes "bignum_library L val" "good_key key"
  shows "\<exists>a s. secret_SetKey net key = Some a \<and> b58_ToString C L a = Some s
    \<and> secret_SetString C L net s = (True, a) \<and> secret_SetString C L (\<not> net) s = (False, a)
    \<and> secret_GetKey a = Some key"
proof -
  note versions = PRIVKEY_ADDRESS_def PRIVKEY_ADDRESS_TEST_def PUBKEY_ADDRESS_def PUBKEY_ADDRESS_TEST_def
  have k: "fValid key" "length (key_vch key) = 32" using assms(2) by (simp_all add: good_key_def)
  obtain a where a: "secret_SetKey net key = Some a" "secret_IsValid net a" "\<not> secret_IsValid (\<not> net) a"
    "secret_GetKey a = Some key" "length (b58_data a) \<le> 33"
    using k assms(2) CKey_Set_good [OF assms(2)]
    by (cases net; cases "fCompressed key")
      (simp_all add: secret_SetKey_def secret_GetKey_def secret_IsValid_def SetData_def versions nth_append)
  obtain s where s: "b58_ToString C L a = Some s" "SetString C L s = (True, a)"
    using SetString_ToString [OF assms(1), of a "[]" "[]" C] a(5) by auto
  show ?thesis using a s by (intro exI [of _ a] exI [of _ s]) (simp add: secret_SetString_def)
qed

section \<open>Examples\<close>

definition plain_hash :: crypto where
  "plain_hash = \<lparr>RIPEMD160 = id, SHA1 = id, SHA256 = id\<rparr>"

text \<open>From base58_encode_decode.json, the vectors of up to ten bytes.\<close>

lemma base58_vectors:
  "EncodeBase58 int_bn [] = Some []"
  "EncodeBase58 int_bn [0x61] = Some ''2g''"
  "EncodeBase58 int_bn [0x62, 0x62, 0x62] = Some ''a3gV''"
  "EncodeBase58 int_bn [0x63, 0x63, 0x63] = Some ''aPEr''"
  "EncodeBase58 int_bn [0x51, 0x6b, 0x6f, 0xcd, 0x0f] = Some ''ABnLTmg''"
  "EncodeBase58 int_bn [0xbf, 0x4f, 0x89, 0x00, 0x1e, 0x67, 0x02, 0x74, 0xdd] = Some ''3SEo3LWLoPntC''"
  "EncodeBase58 int_bn [0x57, 0x2e, 0x47, 0x94] = Some ''3EFU7m''"
  "EncodeBase58 int_bn [0xec, 0xac, 0x89, 0xca, 0xd9, 0x39, 0x23, 0xc0, 0x23, 0x21] = Some ''EJDM8drfXA6uyA''"
  "EncodeBase58 int_bn [0x10, 0xc8, 0x51, 0x1e] = Some ''Rt5zm''"
  "EncodeBase58 int_bn [0x00, 0x00, 0x00, 0x00, 0x00, 0x00, 0x00, 0x00, 0x00, 0x00] = Some ''1111111111''"
  by (simp_all add: int_bn.EncodeBase58_eq digits58_pos pszBase58_def)

theorem base58_roundtrip_witness:
  "\<exists>s. EncodeBase58 int_bn [0, 0, 1, 255] = Some s \<and> DecodeBase58 int_bn ('' '' @ s @ ''  '') = (True, [0, 0, 1, 255])
    \<and> (\<forall>u. DecodeBase58 int_bn '' 1B '' = (True, u) \<longrightarrow> EncodeBase58 int_bn u = Some (base58_body '' 1B ''))"
  by (rule base58_roundtrip [OF int_bn.bignum_library_axioms]) (simp_all add: isspace_def)

theorem address_roundtrip_witness:
  "\<exists>a s. address_Set False (CKeyID 77) CBase58Data_new = (True, a) \<and> b58_ToString plain_hash int_bn a = Some s
    \<and> SetString plain_hash int_bn ('' '' @ s @ '' '') = (True, a) \<and> address_IsValid False a \<and> address_Get False a = CKeyID 77
    \<and> address_Get (\<not> False) a = CNoDestination
    \<and> (\<forall>b. SetString plain_hash int_bn ''1B'' = (True, b) \<and> address_IsValid False b \<longrightarrow>
         address_Set False (address_Get False b) CBase58Data_new = (True, b)
         \<and> b58_ToString plain_hash int_bn b = Some (base58_body ''1B''))"
  by (rule address_roundtrip [OF int_bn.bignum_library_axioms]) (simp_all add: isspace_def)

theorem secret_roundtrip_witness:
  "\<exists>a s. secret_SetKey True \<lparr>fValid = True, fCompressed = True, key_vch = replicate 32 7\<rparr> = Some a
    \<and> b58_ToString plain_hash int_bn a = Some s
    \<and> secret_SetString plain_hash int_bn True s = (True, a) \<and> secret_SetString plain_hash int_bn (\<not> True) s = (False, a)
    \<and> secret_GetKey a = Some \<lparr>fValid = True, fCompressed = True, key_vch = replicate 32 7\<rparr>"
proof (rule secret_roundtrip [OF int_bn.bignum_library_axioms])
  show "good_key \<lparr>fValid = True, fCompressed = True, key_vch = replicate 32 7\<rparr>"
    unfolding good_key_def by code_simp
qed

end
