(* ===== verification/CheckQueue.thy ===== *)
theory CheckQueue
  imports Prelude
begin

text \<open>
  checkqueue.h: the queue of script checks that the master thread shares with worker threads. A thread is
  a number, the master is 0; what one thread does between two acquisitions of the mutex is one step, and
  the steps of the threads interleave in any order. The counters are natural numbers. The members queue,
  nIdle, nTotal, fAllOk, nTodo and fQuit are those of the class; threads holds the local variables of
  Loop, woken the threads a condition variable has notified. The last two members are history: the checks
  added since the last return of the master, and that return with its checks.
\<close>

section \<open>State\<close>

text \<open>Where a thread is in Loop: Entering and Working carry its nNow, its vChecks and its fOk.\<close>

datatype 'c phase = Outside | Entering nat bool | Waiting | Working nat "'c list" bool

record 'c check_queue =
  queue :: "'c list"
  nIdle :: nat
  nTotal :: nat
  fAllOk :: bool
  nTodo :: nat
  fQuit :: bool
  threads :: "nat \<Rightarrow> 'c phase"
  woken :: "nat set"
  added :: "'c list"
  answer :: "(bool \<times> 'c list) option"

definition CCheckQueue :: "'c check_queue" where
  "CCheckQueue = \<lparr>queue = [], nIdle = 0, nTotal = 0, fAllOk = True, nTodo = 0, fQuit = False,
     threads = (\<lambda>_. Outside), woken = {}, added = [], answer = None\<rparr>"

section \<open>Loop\<close>

text \<open>The clean-up of the previous run; notify_one reaches the master only if it waits.\<close>

definition loop_cleanup :: "bool \<Rightarrow> nat \<Rightarrow> bool \<Rightarrow> 'c check_queue \<Rightarrow> 'c check_queue" where
  "loop_cleanup fMaster nNow fOk s =
     (if nNow \<noteq> 0 then
        let s = s\<lparr>fAllOk := (fAllOk s \<and> fOk), nTodo := nTodo s - nNow\<rparr> in
        if nTodo s = 0 \<and> \<not> fMaster then s\<lparr>woken := woken s \<union> (if threads s 0 = Waiting then {0} else {})\<rparr> else s
      else s\<lparr>nTotal := nTotal s + 1\<rparr>)"

definition batch_size :: "nat \<Rightarrow> 'c check_queue \<Rightarrow> nat" where
  "batch_size nBatchSize s = max 1 (min nBatchSize (length (queue s) div (nTotal s + nIdle s + 1)))"

text \<open>The head of the loop: return, wait, or take a batch from the back of the queue.\<close>

definition loop_head :: "nat \<Rightarrow> nat \<Rightarrow> 'c check_queue \<Rightarrow> 'c check_queue" where
  "loop_head nBatchSize t s =
     (if queue s = [] then
        (if (t = 0 \<or> fQuit s) \<and> nTodo s = 0
         then let fRet = fAllOk s; s = s\<lparr>nTotal := nTotal s - 1, threads := (threads s)(t := Outside)\<rparr>
           in if t = 0 then s\<lparr>fAllOk := True, answer := Some (fRet, added s), added := []\<rparr> else s
         else s\<lparr>nIdle := nIdle s + 1, threads := (threads s)(t := Waiting)\<rparr>)
      else let nNow = batch_size nBatchSize s in
        s\<lparr>queue := take (length (queue s) - nNow) (queue s),
          threads := (threads s)(t := Working nNow (take nNow (rev (queue s))) (fAllOk s))\<rparr>)"

section \<open>The steps\<close>

definition waiting_workers :: "nat \<Rightarrow> 'c check_queue \<Rightarrow> nat set" where
  "waiting_workers n s = {t. 0 < t \<and> t < n \<and> threads s t = Waiting \<and> t \<notin> woken s}"

text \<open>
  The steps of n threads: the master adds checks and notifies workers, a thread calls Thread or Wait, it
  gets the mutex, it wakes from a notification or without one, it runs a check, and it finishes its batch.
\<close>

inductive queue_step :: "('c \<Rightarrow> bool) \<Rightarrow> nat \<Rightarrow> nat \<Rightarrow> bool \<Rightarrow> 'c check_queue \<Rightarrow> 'c check_queue \<Rightarrow> bool"
  for check nBatchSize n where
  add: "threads s 0 = Outside \<Longrightarrow> W \<subseteq> waiting_workers n s
    \<Longrightarrow> (length vChecks = 0 \<longrightarrow> W = {}) \<Longrightarrow> (length vChecks = 1 \<longrightarrow> card W = min 1 (card (waiting_workers n s)))
    \<Longrightarrow> (length vChecks > 1 \<longrightarrow> W = waiting_workers n s)
    \<Longrightarrow> queue_step check nBatchSize n False s (s\<lparr>queue := queue s @ vChecks, nTodo := nTodo s + length vChecks,
          woken := woken s \<union> W, added := added s @ vChecks\<rparr>)"
| call: "t < n \<Longrightarrow> threads s t = Outside
    \<Longrightarrow> queue_step check nBatchSize n False s (s\<lparr>threads := (threads s)(t := Entering 0 True)\<rparr>)"
| enter: "t < n \<Longrightarrow> threads s t = Entering nNow fOk
    \<Longrightarrow> queue_step check nBatchSize n False s (loop_head nBatchSize t (loop_cleanup (t = 0) nNow fOk s))"
| wake: "t < n \<Longrightarrow> threads s t = Waiting \<Longrightarrow> t \<in> woken s \<or> spurious
    \<Longrightarrow> queue_step check nBatchSize n spurious s (loop_head nBatchSize t (s\<lparr>nIdle := nIdle s - 1, woken := woken s - {t}\<rparr>))"
| work: "t < n \<Longrightarrow> threads s t = Working nNow (c # cs) fOk
    \<Longrightarrow> queue_step check nBatchSize n False s (s\<lparr>threads := (threads s)(t := Working nNow cs (if fOk then check c else fOk))\<rparr>)"
| finish: "t < n \<Longrightarrow> threads s t = Working nNow [] fOk
    \<Longrightarrow> queue_step check nBatchSize n False s (s\<lparr>threads := (threads s)(t := Entering nNow fOk)\<rparr>)"

inductive queue_reachable :: "('c \<Rightarrow> bool) \<Rightarrow> nat \<Rightarrow> nat \<Rightarrow> 'c check_queue \<Rightarrow> bool" for check nBatchSize n where
  "queue_reachable check nBatchSize n CCheckQueue"
| "queue_reachable check nBatchSize n s \<Longrightarrow> queue_step check nBatchSize n spurious s s' \<Longrightarrow> queue_reachable check nBatchSize n s'"

section \<open>The invariant\<close>

fun pending :: "'c phase \<Rightarrow> nat" where
  "pending (Entering k ok) = k" | "pending (Working k cs ok) = k" | "pending p = 0"

fun remaining :: "'c phase \<Rightarrow> 'c list" where
  "remaining (Working k cs ok) = cs" | "remaining p = []"

fun failed :: "'c phase \<Rightarrow> bool" where
  "failed (Entering k ok) = (k \<noteq> 0 \<and> \<not> ok)" | "failed (Working k cs ok) = (\<not> ok)" | "failed p = False"

fun phase_ok :: "'c phase \<Rightarrow> bool" where
  "phase_ok (Working k cs ok) = (0 < k)" | "phase_ok p = True"

text \<open>What the first n threads hold: jobs counted in nTodo, jobs not run, a failure not yet reported.\<close>

definition held :: "nat \<Rightarrow> (nat \<Rightarrow> 'c phase) \<Rightarrow> nat" where
  "held n g = (\<Sum>t<n. pending (g t))"

definition left_over :: "nat \<Rightarrow> (nat \<Rightarrow> 'c phase) \<Rightarrow> 'c set" where
  "left_over n g = (\<Union>t<n. set (remaining (g t)))"

definition any_failed :: "nat \<Rightarrow> (nat \<Rightarrow> 'c phase) \<Rightarrow> bool" where
  "any_failed n g \<longleftrightarrow> (\<exists>t<n. failed (g t))"

definition tally :: "('c \<Rightarrow> bool) \<Rightarrow> 'c set \<Rightarrow> 'c set \<Rightarrow> bool \<Rightarrow> bool" where
  "tally check cs todo bad = (if bad then \<exists>c \<in> cs. \<not> check c else \<forall>c \<in> cs. c \<in> todo \<or> check c)"

definition queue_inv :: "('c \<Rightarrow> bool) \<Rightarrow> nat \<Rightarrow> 'c check_queue \<Rightarrow> bool" where
  "queue_inv check n s \<longleftrightarrow> \<not> fQuit s \<and> (\<forall>t<n. phase_ok (threads s t))
     \<and> nTodo s = length (queue s) + held n (threads s)
     \<and> set (queue s) \<union> left_over n (threads s) \<subseteq> set (added s)
     \<and> tally check (set (added s)) (set (queue s) \<union> left_over n (threads s)) (\<not> fAllOk s \<or> any_failed n (threads s))
     \<and> (threads s 0 = Waiting \<longrightarrow> queue s = [] \<and> (0 < nTodo s \<or> 0 \<in> woken s))
     \<and> (\<forall>b cs. answer s = Some (b, cs) \<longrightarrow> b = list_all check cs)"

text \<open>The same of all threads but t, which does not change when t does.\<close>

definition held_else :: "nat \<Rightarrow> nat \<Rightarrow> (nat \<Rightarrow> 'c phase) \<Rightarrow> nat" where
  "held_else n t g = (\<Sum>u\<in>{..<n} - {t}. pending (g u))"

definition left_else :: "nat \<Rightarrow> nat \<Rightarrow> (nat \<Rightarrow> 'c phase) \<Rightarrow> 'c set" where
  "left_else n t g = (\<Union>u\<in>{..<n} - {t}. set (remaining (g u)))"

definition failed_else :: "nat \<Rightarrow> nat \<Rightarrow> (nat \<Rightarrow> 'c phase) \<Rightarrow> bool" where
  "failed_else n t g \<longleftrightarrow> (\<exists>u\<in>{..<n} - {t}. failed (g u))"

lemma else_upd [simp]: "held_else n t (g(t := p)) = held_else n t g" "left_else n t (g(t := p)) = left_else n t g"
  "failed_else n t (g(t := p)) = failed_else n t g"
  unfolding held_else_def left_else_def failed_else_def by (auto intro!: sum.cong)

lemma one_thread:
  assumes "t < n"
  shows "held n g = held_else n t g + pending (g t)" "left_over n g = left_else n t g \<union> set (remaining (g t))"
    "any_failed n g \<longleftrightarrow> failed_else n t g \<or> failed (g t)"
  using assms unfolding held_def left_over_def any_failed_def held_else_def left_else_def failed_else_def
  by (auto simp: sum.remove [of "{..<n}" t])

lemma loop_head_outside: "loop_head b t (s\<lparr>threads := (threads s)(t := p)\<rparr>) = loop_head b t s"
  by (simp add: loop_head_def Let_def batch_size_def)

lemma batch_bounds: "queue s \<noteq> [] \<Longrightarrow> 0 < batch_size b s \<and> batch_size b s \<le> length (queue s)"
proof -
  assume "queue s \<noteq> []"
  then have "1 \<le> length (queue s)" by (cases "queue s") auto
  moreover have "length (queue s) div (nTotal s + nIdle s + 1) \<le> length (queue s)" by (rule div_le_dividend)
  ultimately show ?thesis unfolding batch_size_def by (simp add: min.coboundedI2)
qed

lemma loop_head_inv:
  assumes inv: "queue_inv check n s" and t: "t < n" "threads s t = Outside"
  shows "queue_inv check n (loop_head b t s)"
proof (cases "queue s = []")
  case True
  note i = inv [unfolded queue_inv_def]
  show ?thesis
  proof (cases "t = 0 \<and> nTodo s = 0")
    case True
    then have "\<forall>u<n. pending (threads s u) = 0" using i by (simp add: held_def)
    then have idle: "\<not> failed (threads s u) \<and> remaining (threads s u) = []" if "u < n" for u
      using i that by (cases "threads s u") fastforce+
    then have none: "\<not> any_failed n (threads s)" "left_over n (threads s) = {}"
      by (auto simp: any_failed_def left_over_def)
    then have "fAllOk s = list_all check (added s)" using i \<open>queue s = []\<close> by (auto simp: tally_def list_all_iff split: if_splits)
    moreover have "loop_head b t s = s\<lparr>nTotal := nTotal s - 1, threads := (threads s)(0 := Outside), fAllOk := True,
        answer := Some (fAllOk s, added s), added := []\<rparr>"
      using True \<open>queue s = []\<close> by (simp add: loop_head_def Let_def)
    moreover have "(threads s)(0 := Outside) = threads s" using True t by (auto simp: fun_eq_iff)
    ultimately show ?thesis using i none \<open>queue s = []\<close> True t by (simp add: queue_inv_def tally_def)
  next
    case False
    then have lh: "loop_head b t s = s\<lparr>nIdle := nIdle s + 1, threads := (threads s)(t := Waiting)\<rparr>"
      using \<open>queue s = []\<close> i by (auto simp: loop_head_def)
    note p = one_thread [OF t(1)]
    have "t = 0 \<longrightarrow> 0 < nTodo s" using False by auto
    then show ?thesis using i t \<open>queue s = []\<close> unfolding queue_inv_def lh by (auto simp: p)
  qed
next
  case False
  note i = inv [unfolded queue_inv_def]
  let ?k = "batch_size b s"
  have k: "0 < ?k" "?k \<le> length (queue s)" using batch_bounds [OF False] by simp_all
  let ?q = "take (length (queue s) - ?k) (queue s)" and ?cs = "take ?k (rev (queue s))"
  have lh: "loop_head b t s = s\<lparr>queue := ?q, threads := (threads s)(t := Working ?k ?cs (fAllOk s))\<rparr>"
    using False by (simp add: loop_head_def Let_def)
  note p = one_thread [OF t(1)]
  have "set ?cs = set (drop (length (queue s) - ?k) (queue s))" by (simp add: take_rev)
  then have q: "set ?q \<union> set ?cs = set (queue s)" by (metis append_take_drop_id set_append)
  have u: "set ?q \<union> left_over n ((threads s)(t := Working ?k ?cs (fAllOk s))) = set (queue s) \<union> left_over n (threads s)"
    using q t(2) by (auto simp: p)
  have f: "(\<not> fAllOk s \<or> any_failed n ((threads s)(t := Working ?k ?cs (fAllOk s)))) \<longleftrightarrow> (\<not> fAllOk s \<or> any_failed n (threads s))"
    using t(2) by (auto simp: p)
  have "length ?q + held n ((threads s)(t := Working ?k ?cs (fAllOk s))) = nTodo s" using i k t(2) by (simp add: p)
  moreover have "(if t = 0 then Working ?k ?cs (fAllOk s) else threads s 0) \<noteq> Waiting" using i False by auto
  moreover have "tally check (set (added s)) (set ?q \<union> left_over n ((threads s)(t := Working ?k ?cs (fAllOk s))))
    (\<not> fAllOk s \<or> any_failed n ((threads s)(t := Working ?k ?cs (fAllOk s))))"
    using i unfolding u f by simp
  moreover have "set ?q \<union> left_over n ((threads s)(t := Working ?k ?cs (fAllOk s))) \<subseteq> set (added s)"
    using i unfolding u by simp
  ultimately show ?thesis using i k unfolding queue_inv_def lh by simp
qed

lemma cleanup_threads: "threads (loop_cleanup m k ok s) = threads s"
  by (simp add: loop_cleanup_def Let_def)

lemma cleanup_inv:
  assumes inv: "queue_inv check n s" and t: "t < n" "threads s t = Entering k ok"
  shows "queue_inv check n ((loop_cleanup (t = 0) k ok s)\<lparr>threads := (threads s)(t := Outside)\<rparr>)"
proof -
  note i = inv [unfolded queue_inv_def]
  note p = one_thread [OF t(1)]
  have same: "added (loop_cleanup m k ok s) = added s" "queue (loop_cleanup m k ok s) = queue s"
    "answer (loop_cleanup m k ok s) = answer s" "fQuit (loop_cleanup m k ok s) = fQuit s"
    "nTodo (loop_cleanup m k ok s) = nTodo s - k" "fAllOk (loop_cleanup m k ok s) = (fAllOk s \<and> (k \<noteq> 0 \<longrightarrow> ok))" for m
    by (auto simp: loop_cleanup_def Let_def)
  have w: "threads s 0 = Waiting \<Longrightarrow> t \<noteq> 0 \<Longrightarrow> 0 < nTodo s - k \<or> 0 \<in> woken (loop_cleanup (t = 0) k ok s)"
    using i by (auto simp: loop_cleanup_def Let_def)
  have "(\<not> (fAllOk s \<and> (k \<noteq> 0 \<longrightarrow> ok)) \<or> failed_else n t (threads s)) \<longleftrightarrow> (\<not> fAllOk s \<or> any_failed n (threads s))" using t(2) by (auto simp: p)
  then have "tally check (set (added s)) (set (queue s) \<union> left_else n t (threads s))
    (\<not> (fAllOk s \<and> (k \<noteq> 0 \<longrightarrow> ok)) \<or> failed_else n t (threads s))"
    using i t(2) by (simp add: p)
  then show ?thesis unfolding queue_inv_def using i t w by (simp add: same p)
qed

lemma queue_step_inv:
  assumes "queue_step check b n spurious s s'" and inv: "queue_inv check n s" and n: "0 < n"
  shows "queue_inv check n s'"
  using assms(1)
proof cases
  case (add W vChecks)
  show ?thesis using inv add(3) unfolding queue_inv_def by (auto simp: add(2) tally_def split: if_splits)
next
  case (call t)
  note i = inv [unfolded queue_inv_def]
  note p = one_thread [OF call(3)]
  show ?thesis using i call(4) unfolding queue_inv_def by (auto simp: call(2) p)
next
  case (enter t k ok)
  have "s' = loop_head b t ((loop_cleanup (t = 0) k ok s)\<lparr>threads := (threads s)(t := Outside)\<rparr>)"
    using enter(2) loop_head_outside [of b t "loop_cleanup (t = 0) k ok s" Outside] by (simp only: cleanup_threads)
  with cleanup_inv [OF inv enter(3,4)] show ?thesis by (simp add: loop_head_inv enter(3))
next
  case (wake t)
  note i = inv [unfolded queue_inv_def]
  note p = one_thread [OF wake(2)]
  let ?s = "s\<lparr>nIdle := nIdle s - 1, woken := woken s - {t}, threads := (threads s)(t := Outside)\<rparr>"
  have "s' = loop_head b t ?s" using wake(1) loop_head_outside [of b t "s\<lparr>nIdle := nIdle s - 1, woken := woken s - {t}\<rparr>" Outside] by simp
  moreover have "queue_inv check n ?s" using i wake(3) unfolding queue_inv_def by (auto simp: p)
  ultimately show ?thesis by (simp add: loop_head_inv wake(2))
next
  case (work t k c cs ok)
  note i = inv [unfolded queue_inv_def]
  note p = one_thread [OF work(3)]
  show ?thesis using i work(3,4) unfolding queue_inv_def by (auto simp: work(2) p tally_def split: if_splits)
next
  case (finish t k ok)
  note i = inv [unfolded queue_inv_def]
  note p = one_thread [OF finish(3)]
  have "0 < k" using i finish(3,4) by force
  then show ?thesis using i finish(3,4) unfolding queue_inv_def by (auto simp: finish(2) p tally_def split: if_splits)
qed

lemma queue_reachable_inv: "queue_reachable check b n s \<Longrightarrow> 0 < n \<Longrightarrow> queue_inv check n s"
proof (induction rule: queue_reachable.induct)
  case 1
  then show ?case by (simp add: queue_inv_def CCheckQueue_def held_def left_over_def any_failed_def tally_def)
next
  case (2 s spurious s')
  then show ?case using queue_step_inv by blast
qed

section \<open>Progress\<close>

text \<open>A bound on the steps until the master returns: open checks, a first entry, and work in progress.\<close>

fun unfinished :: "'c phase \<Rightarrow> nat" where
  "unfinished (Working k cs ok) = 2 + length cs" | "unfinished (Entering k ok) = 1" | "unfinished p = 0"

definition distance :: "nat \<Rightarrow> ('c check_queue \<times> 'c check_queue) set" where
  "distance n = measures [nTodo, \<lambda>s. case threads s 0 of Entering k ok \<Rightarrow> (if k = 0 then 1 else 0) | _ \<Rightarrow> 0,
     \<lambda>s. (\<Sum>t<n. unfinished (threads s t)) + (if 0 \<in> woken s then 1 else 0)]"

lemma sum_update:
  fixes f :: "'p \<Rightarrow> nat" and t n :: nat
  assumes "t < n"
  shows "(\<Sum>u<n. f (if u = t then p else g u)) + f (g t) = (\<Sum>u<n. f (g u)) + f p"
proof -
  have "(\<Sum>u\<in>{..<n} - {t}. f (if u = t then p else g u)) = (\<Sum>u\<in>{..<n} - {t}. f (g u))" by (rule sum.cong) auto
  moreover have "(\<Sum>u<n. f (if u = t then p else g u)) = f p + (\<Sum>u\<in>{..<n} - {t}. f (if u = t then p else g u))"
    using assms by (subst sum.remove [of "{..<n}" t]) auto
  moreover have "(\<Sum>u<n. f (g u)) = f (g t) + (\<Sum>u\<in>{..<n} - {t}. f (g u))" using assms by (simp add: sum.remove)
  ultimately show ?thesis by simp
qed

lemma loop_head_master:
  "(threads (loop_head b 0 s) 0 = Outside \<and> answer (loop_head b 0 s) = Some (fAllOk s, added s))
   \<or> ((threads (loop_head b 0 s) 0 = Waiting \<or> (\<exists>k cs ok. threads (loop_head b 0 s) 0 = Working k cs ok))
      \<and> added (loop_head b 0 s) = added s \<and> nTodo (loop_head b 0 s) = nTodo s)"
  by (simp add: loop_head_def Let_def)

lemma loop_head_worker: "t \<noteq> 0 \<Longrightarrow> threads (loop_head b t s) 0 = threads s 0
    \<and> added (loop_head b t s) = added s \<and> nTodo (loop_head b t s) = nTodo s"
  by (simp add: loop_head_def Let_def)

lemma cleanup_fields: "added (loop_cleanup m k ok s) = added s" "nTodo (loop_cleanup m k ok s) = nTodo s - k"
  by (auto simp: loop_cleanup_def Let_def)

text \<open>The next step towards the master's return, whatever its place.\<close>

definition nearer :: "nat \<Rightarrow> 'c check_queue \<Rightarrow> 'c check_queue \<Rightarrow> bool" where
  "nearer n s s' \<longleftrightarrow> (threads s' 0 = Outside \<and> (\<exists>r. answer s' = Some (r, added s)))
     \<or> (threads s' 0 \<noteq> Outside \<and> added s' = added s \<and> (s', s) \<in> distance n)"

lemma busy_thread:
  assumes "queue_inv check n s" and t: "t < n" "0 < pending (threads s t)" and master: "threads s 0 \<noteq> Outside" "threads s 0 \<noteq> Entering 0 ok'"
  shows "\<exists>s'. queue_step check b n False s s' \<and> nearer n s s'"
proof (cases "threads s t")
  case (Entering k ok)
  let ?c = "loop_cleanup (t = 0) k ok s"
  have st: "queue_step check b n False s (loop_head b t ?c)" by (rule queue_step.enter [OF t(1) Entering])
  have k: "0 < k" "0 < nTodo s"
    using t assms(1) Entering sum.remove [of "{..<n}" t "\<lambda>u. pending (threads s u)"] unfolding queue_inv_def held_def by auto
  have "nearer n s (loop_head b t ?c)"
  proof (cases "t = 0")
    case True
    then show ?thesis using loop_head_master [of b ?c] k
      unfolding nearer_def distance_def by (auto simp: cleanup_fields)
  next
    case False
    then show ?thesis using loop_head_worker [OF False, of b ?c] k master(1)
      unfolding nearer_def distance_def by (simp add: cleanup_fields cleanup_threads)
  qed
  then show ?thesis using st by blast
next
  case (Working k cs ok)
  show ?thesis
  proof (cases cs)
    case Nil
    have "0 < k" using t Working by simp
    then have "nearer n s (s\<lparr>threads := (threads s)(t := Entering k ok)\<rparr>)"
      using master(1) Working Nil sum_update [OF t(1), of unfinished "Entering k ok" "threads s"]
      unfolding nearer_def distance_def by (auto split: phase.splits)
    then show ?thesis using queue_step.finish [OF t(1) Working [unfolded Nil]] by blast
  next
    case (Cons c cs')
    have "nearer n s (s\<lparr>threads := (threads s)(t := Working k cs' (if ok then check c else ok))\<rparr>)"
      using master(1) Working Cons sum_update [OF t(1), of unfinished "Working k cs' (if ok then check c else ok)" "threads s"]
      unfolding nearer_def distance_def by (auto split: phase.splits)
    then show ?thesis using queue_step.work [OF t(1) Working [unfolded Cons]] by blast
  qed
qed (use t in simp_all)

lemma master_step:
  assumes inv: "queue_inv check n s" and n: "0 < n" and master: "threads s 0 \<noteq> Outside"
  shows "\<exists>s'. queue_step check b n False s s' \<and> nearer n s s'"
proof (cases "threads s 0")
  case (Entering k ok)
  show ?thesis
  proof (cases "k = 0")
    case True
    let ?c = "loop_cleanup True k ok s"
    have st: "queue_step check b n False s (loop_head b 0 ?c)" using queue_step.enter [OF n Entering, of check b] by simp
    have "nearer n s (loop_head b 0 ?c)" using loop_head_master [of b ?c] True Entering
      unfolding nearer_def distance_def by (auto simp: cleanup_fields)
    then show ?thesis using st by blast
  next
    case False
    then show ?thesis using busy_thread [OF inv n _ master] Entering by simp
  qed
next
  case (Working k cs ok)
  then have "0 < k" using inv n unfolding queue_inv_def by force
  then show ?thesis using busy_thread [OF inv n _ master] Working by simp
next
  case Waiting
  then have q: "queue s = []" "0 < nTodo s \<or> 0 \<in> woken s" using inv unfolding queue_inv_def by auto
  show ?thesis
  proof (cases "0 \<in> woken s")
    case True
    let ?c = "s\<lparr>nIdle := nIdle s - 1, woken := woken s - {0}\<rparr>"
    have st: "queue_step check b n False s (loop_head b 0 ?c)" by (rule queue_step.wake) (use n Waiting True in simp_all)
    have "nearer n s (loop_head b 0 ?c)"
    proof (cases "nTodo s = 0")
      case True
      then show ?thesis using q(1) unfolding nearer_def loop_head_def by simp
    next
      case False
      have "(\<Sum>t<n. unfinished (if t = 0 then Waiting else threads s t)) = (\<Sum>t<n. unfinished (threads s t))"
        using sum_update [OF n, of unfinished Waiting "threads s"] Waiting by simp
      then show ?thesis using False q(1) True Waiting unfolding nearer_def distance_def by (simp add: loop_head_def)
    qed
    then show ?thesis using st by blast
  next
    case False
    then have "0 < held n (threads s)" using q inv unfolding queue_inv_def by auto
    then obtain t where "t < n" "0 < pending (threads s t)" unfolding held_def
      by (metis (no_types, lifting) gr0I lessThan_iff less_numeral_extra(3) sum.neutral)
    then show ?thesis using busy_thread [OF inv _ _ master] Waiting by simp
  qed
qed (use master in simp)

lemma master_returns:
  assumes "queue_inv check n s" and "0 < n" and "threads s 0 \<noteq> Outside"
  shows "\<exists>s'. (queue_step check b n False)\<^sup>*\<^sup>* s s' \<and> threads s' 0 = Outside
     \<and> answer s' = Some (list_all check (added s), added s)"
proof -
  have "wf (distance n)" unfolding distance_def by simp
  then show ?thesis using assms
  proof (induction s rule: wf_induct_rule)
    case (less s)
    obtain s' where s': "queue_step check b n False s s'" "nearer n s s'" using master_step [OF less.prems, of b] by blast
    have inv': "queue_inv check n s'" by (rule queue_step_inv [OF s'(1) less.prems(1,2)])
    show ?case
    proof (cases "threads s' 0 = Outside")
      case True
      then obtain r where "answer s' = Some (r, added s)" using s'(2) unfolding nearer_def by auto
      moreover from this have "r = list_all check (added s)" using inv' unfolding queue_inv_def by auto
      ultimately show ?thesis using True s'(1) by (intro exI [of _ s']) auto
    next
      case False
      then have d: "added s' = added s" "(s', s) \<in> distance n" using s'(2) unfolding nearer_def by auto
      from less.IH [OF d(2) inv' less.prems(2) False] obtain s'' where
        "(queue_step check b n False)\<^sup>*\<^sup>* s' s''" "threads s'' 0 = Outside" "answer s'' = Some (list_all check (added s), added s)"
        using d(1) by auto
      then show ?thesis using s'(1) by (meson converse_rtranclp_into_rtranclp)
    qed
  qed
qed

section \<open>The counters of threads\<close>

fun idle :: "'c phase \<Rightarrow> nat" where
  "idle Waiting = 1" | "idle p = 0"

fun present :: "'c phase \<Rightarrow> nat" where
  "present Outside = 0" | "present (Entering k ok) = (if k = 0 then 0 else 1)" | "present p = 1"

definition counted :: "nat \<Rightarrow> 'c check_queue \<Rightarrow> bool" where
  "counted n s \<longleftrightarrow> nIdle s = (\<Sum>t<n. idle (threads s t)) \<and> nTotal s = (\<Sum>t<n. present (threads s t))
     \<and> (added s = [] \<longrightarrow> nTodo s = 0)"

text \<open>The counters when thread t has left its place p and counts there.\<close>

lemma counted_update:
  assumes "counted n s" and "t < n"
  shows "nIdle s + idle p = (\<Sum>u<n. idle (if u = t then p else threads s u)) + idle (threads s t)"
    and "nTotal s + present p = (\<Sum>u<n. present (if u = t then p else threads s u)) + present (threads s t)"
  using assms sum_update [OF assms(2), of idle p "threads s"] sum_update [OF assms(2), of present p "threads s"]
  unfolding counted_def by simp_all

lemma loop_head_counted:
  assumes g: "threads s = g" and "nIdle s = (\<Sum>u<n. idle (if u = t then Outside else g u))"
    and "nTotal s = (\<Sum>u<n. present (if u = t then Outside else g u)) + 1"
    and "added s = [] \<longrightarrow> nTodo s = 0" and t: "t < n"
  shows "counted n (loop_head b t s)"
proof -
  let ?g = "\<lambda>u. if u = t then Outside else g u"
  have 1: "(\<Sum>u<n. idle (if u = t then p else g u)) = nIdle s + idle p" for p
    using sum_update [OF t, of idle p ?g] assms(2) by (simp cong: if_cong)
  have 2: "(\<Sum>u<n. present (if u = t then p else g u)) + 1 = nTotal s + present p" for p
    using sum_update [OF t, of present p ?g] assms(3) by (simp cong: if_cong)
  have "0 < batch_size b s" by (simp add: batch_size_def)
  then show ?thesis using 1 2 [of Outside] 2 [of Waiting]
      2 [of "Working (batch_size b s) (take (batch_size b s) (rev (queue s))) (fAllOk s)"] assms(4) g
    unfolding counted_def loop_head_def Let_def by auto
qed

lemma queue_step_counted:
  assumes "queue_step check b n spurious s s'" and inv: "queue_inv check n s" and c: "counted n s"
  shows "counted n s'"
  using assms(1)
proof cases
  case (add W vChecks)
  then show ?thesis using c unfolding counted_def by auto
next
  case (call t)
  show ?thesis using counted_update [OF c call(3), of "Entering 0 True"] call(4) c unfolding counted_def call(2) by simp
next
  case (enter t k ok)
  have "added (loop_cleanup (t = 0) k ok s) = [] \<longrightarrow> nTodo (loop_cleanup (t = 0) k ok s) = 0"
    using c unfolding counted_def by (simp add: cleanup_fields)
  moreover have "nIdle (loop_cleanup (t = 0) k ok s) = nIdle s"
    "nTotal (loop_cleanup (t = 0) k ok s) = nTotal s + (if k = 0 then 1 else 0)"
    by (auto simp: loop_cleanup_def Let_def)
  ultimately show ?thesis unfolding enter(2)
    using counted_update [OF c enter(3), of Outside] enter(3,4) by (intro loop_head_counted [where g = "threads s"]) (simp_all add: cleanup_threads)
next
  case (wake t)
  show ?thesis unfolding wake(1)
    using counted_update [OF c wake(2), of Outside] wake(2,3) c [unfolded counted_def] by (intro loop_head_counted [where g = "threads s"]) simp_all
next
  case (work t k c' cs ok)
  show ?thesis using counted_update [OF c work(3), of "Working k cs (if ok then check c' else ok)"] work(4) c
    unfolding counted_def work(2) by simp
next
  case (finish t k ok)
  have "0 < k" using inv finish(3,4) unfolding queue_inv_def by force
  then show ?thesis using counted_update [OF c finish(3), of "Entering k ok"] finish(4) c unfolding counted_def finish(2) by simp
qed

lemma queue_reachable_counted: "queue_reachable check b n s \<Longrightarrow> 0 < n \<Longrightarrow> counted n s"
proof (induction rule: queue_reachable.induct)
  case 1
  then show ?case by (simp add: counted_def CCheckQueue_def)
next
  case (2 s spurious s')
  then show ?case using queue_step_counted queue_reachable_inv by blast
qed

lemma unused_when_outside:
  assumes "queue_inv check n s" and "counted n s" and "added s = []"
  shows "nTotal s = nIdle s \<and> nTodo s = 0 \<and> fAllOk s"
proof -
  have "nTodo s = 0" using assms(2,3) unfolding counted_def by blast
  then have "pending (threads s t) = 0 \<and> phase_ok (threads s t)" if "t < n" for t
    using assms(1) that unfolding queue_inv_def held_def by auto
  then have "present (threads s t) = idle (threads s t)" if "t < n" for t
    using that by (cases "threads s t") fastforce+
  then have "nTotal s = nIdle s" using assms(2) unfolding counted_def by simp
  then show ?thesis using \<open>nTodo s = 0\<close> assms(1,3) unfolding queue_inv_def tally_def by (auto split: if_splits)
qed

section \<open>The properties\<close>

text \<open>
  C18: In every interleaving of the steps of the threads the answer of Wait is the conjunction of all checks
  added since the previous one.
\<close>

theorem Wait_is_conjunction:
  assumes "queue_reachable check nBatchSize n s" and "0 < n" and "answer s = Some (fRet, vChecks)"
  shows "fRet = list_all check vChecks"
  using queue_reachable_inv [OF assms(1,2)] assms(3) unfolding queue_inv_def by blast

text \<open>A master and a worker share two checks, the second of which fails.\<close>

definition share1 :: "nat check_queue" where
  "share1 = loop_head 4 1 (loop_cleanup False 0 True (CCheckQueue\<lparr>threads := (threads CCheckQueue)(1 := Entering 0 True)\<rparr>))"

definition share2 :: "nat check_queue" where
  "share2 = (let s = share1\<lparr>queue := queue share1 @ [3, 5], nTodo := nTodo share1 + length [3::nat, 5],
       woken := woken share1 \<union> {1}, added := added share1 @ [3, 5]\<rparr> in s\<lparr>threads := (threads s)(0 := Entering 0 True)\<rparr>)"

definition share3 :: "nat check_queue" where
  "share3 = (let s = loop_head 4 0 (loop_cleanup True 0 True share2)
     in loop_head 4 1 (s\<lparr>nIdle := nIdle s - 1, woken := woken s - {1}\<rparr>))"

lemmas share_defs = share1_def share2_def share3_def loop_head_def loop_cleanup_def batch_size_def CCheckQueue_def

lemma share1_reachable: "queue_reachable (\<lambda>c. c < (4::nat)) 4 2 share1"
proof -
  let ?s = "CCheckQueue\<lparr>threads := (threads CCheckQueue)(1 := Entering 0 True)\<rparr> :: nat check_queue"
  have "queue_reachable (\<lambda>c. c < (4::nat)) 4 2 ?s"
    by (rule queue_reachable.intros(2) [OF queue_reachable.intros(1)], rule queue_step.call) (simp_all add: CCheckQueue_def)
  moreover have "queue_step (\<lambda>c. c < (4::nat)) 4 2 False ?s share1"
    using queue_step.enter [of 1 2 ?s 0 True "\<lambda>c. c < (4::nat)" 4] by (simp add: share1_def)
  ultimately show ?thesis by (rule queue_reachable.intros(2))
qed

lemma share2_reachable: "queue_reachable (\<lambda>c. c < (4::nat)) 4 2 share2"
proof -
  have "waiting_workers 2 share1 = {1}" by (auto simp: waiting_workers_def share_defs)
  then have "queue_step (\<lambda>c. c < (4::nat)) 4 2 False share1 (share1\<lparr>queue := queue share1 @ [3, 5],
      nTodo := nTodo share1 + length [3::nat, 5], woken := woken share1 \<union> {1}, added := added share1 @ [3, 5]\<rparr>)"
    (is "queue_step _ _ _ _ _ ?s")
    by (intro queue_step.add) (simp_all add: share_defs)
  then have "queue_reachable (\<lambda>c. c < (4::nat)) 4 2 ?s" by (rule queue_reachable.intros(2) [OF share1_reachable])
  moreover have "queue_step (\<lambda>c. c < (4::nat)) 4 2 False ?s share2"
    unfolding share2_def Let_def by (rule queue_step.call) (simp_all add: share_defs)
  ultimately show ?thesis by (rule queue_reachable.intros(2))
qed

lemma share3_reachable: "queue_reachable (\<lambda>c. c < (4::nat)) 4 2 share3"
proof -
  let ?s = "loop_head 4 0 (loop_cleanup True 0 True share2)"
  have "queue_step (\<lambda>c. c < (4::nat)) 4 2 False share2 ?s"
    using queue_step.enter [of 0 2 share2 0 True "\<lambda>c. c < (4::nat)" 4] by (simp add: share2_def Let_def)
  then have "queue_reachable (\<lambda>c. c < (4::nat)) 4 2 ?s" by (rule queue_reachable.intros(2) [OF share2_reachable])
  moreover have "queue_step (\<lambda>c. c < (4::nat)) 4 2 False ?s share3"
    unfolding share3_def Let_def by (rule queue_step.wake) (simp_all add: share_defs)
  ultimately show ?thesis by (rule queue_reachable.intros(2))
qed

theorem Wait_is_conjunction_witness: "\<exists>s. queue_reachable (\<lambda>c. c < (4::nat)) 4 2 s \<and> answer s = Some (False, [3, 5])"
proof -
  have "queue_inv (\<lambda>c. c < (4::nat)) 2 share3" using queue_reachable_inv [OF share3_reachable] by simp
  moreover have "threads share3 0 \<noteq> Outside" "added share3 = [3, 5]" by (simp_all add: share_defs)
  ultimately obtain s where s: "(queue_step (\<lambda>c. c < (4::nat)) 4 2 False)\<^sup>*\<^sup>* share3 s" "\<exists>r. answer s = Some (r, [3, 5])"
    using master_returns [of "\<lambda>c. c < (4::nat)" 2 share3 4] by auto
  from s(1) have "queue_reachable (\<lambda>c. c < (4::nat)) 4 2 s"
    by (induction) (auto intro: share3_reachable queue_reachable.intros(2))
  then show ?thesis using s(2) Wait_is_conjunction [of "\<lambda>c. c < (4::nat)" 4 2 s] by fastforce
qed

text \<open>
  C19: From every reachable state with the master in Wait the threads can go on, without a spurious wake-up,
  until Wait returns with the conjunction of the checks: no wake-up is lost and no thread is stuck.
\<close>

theorem Wait_returns:
  assumes "queue_reachable check nBatchSize n s" and "0 < n" and "threads s 0 \<noteq> Outside"
  shows "\<exists>s'. (queue_step check nBatchSize n False)\<^sup>*\<^sup>* s s' \<and> threads s' 0 = Outside
     \<and> answer s' = Some (list_all check (added s), added s)"
  by (rule master_returns [OF queue_reachable_inv [OF assms(1,2)] assms(2,3)])

theorem Wait_returns_witness: "\<exists>s'. (queue_step (\<lambda>c. c < (4::nat)) 4 2 False)\<^sup>*\<^sup>* share3 s' \<and> answer s' = Some (False, [3, 5])"
proof -
  have "threads share3 0 \<noteq> Outside" "added share3 = [3, 5]" by (simp_all add: share_defs)
  then show ?thesis using Wait_returns [OF share3_reachable] by fastforce
qed

text \<open>
  When nothing was added since the master's last return, the three assertions of CCheckQueueControl
  hold, whatever the workers do.
\<close>

theorem CCheckQueueControl_asserts:
  assumes "queue_reachable check nBatchSize n s" and "0 < n" and "added s = []"
  shows "nTotal s = nIdle s \<and> nTodo s = 0 \<and> fAllOk s"
  by (rule unused_when_outside [OF queue_reachable_inv [OF assms(1,2)] queue_reachable_counted [OF assms(1,2)] assms(3)])

theorem CCheckQueueControl_asserts_witness: "nTotal share1 = 1 \<and> nIdle share1 = 1 \<and> fAllOk share1"
  using CCheckQueueControl_asserts [OF share1_reachable] by (simp add: share_defs)

end
