(* ===== verification/Versions.thy ===== *)
theory Versions
  imports Blocks
begin

text \<open>
  No rule of main.cpp reads the version of coins. ConnectBlock over views that agree up to what a store has
  made of versions decides the same, and leaves views and undo data that agree in the same way: this is what
  lets the coin database on disk, which loses negative versions, stand for the coins that were put into it.
\<close>

section \<open>What reading answers\<close>

definition best_of :: "coins_view \<Rightarrow> nat option" where
  "best_of v = fst (GetBestBlock v)"

text \<open>The coins with the output an input spends, and a view that answers as before.\<close>

definition unspent :: "coins_view \<Rightarrow> CTxIn \<Rightarrow> CCoins option" where
  "unspent v i = (case live_at v (outhash (prevout i)) of None \<Rightarrow> None
     | Some c \<Rightarrow> if IsAvailable c (outn (prevout i)) then Some c else None)"

definition same_answers :: "coins_view \<Rightarrow> coins_view \<Rightarrow> bool" where
  "same_answers v' v \<longleftrightarrow> coins_at v' = coins_at v \<and> best_of v' = best_of v"

lemma same_answers_refl [simp]: "same_answers v v"
  by (simp add: same_answers_def)

lemma same_answers_trans [trans]: "same_answers u v \<Longrightarrow> same_answers v w \<Longrightarrow> same_answers u w"
  by (simp add: same_answers_def)

lemma same_answers_FetchCoins: "FetchCoins v t = (r, v') \<Longrightarrow> r = coins_at v t \<and> same_answers v' v"
proof -
  assume f: "FetchCoins v t = (r, v')"
  have "pindexTip v' = pindexTip v" "base_best v' = base_best v" using f by (auto simp: FetchCoins_def split: option.splits)
  then have "best_of v' = best_of v" by (simp add: best_of_def GetBestBlock_def Let_def)
  then show ?thesis using cache.fetch_value [of v t] cache.fetch_same [of v t] f by (simp add: same_answers_def)
qed

lemma same_answers_GetBestBlock: "GetBestBlock v = (b, v') \<Longrightarrow> b = best_of v \<and> same_answers v' v"
  using GetBestBlock_same [of v b v'] by (auto simp: same_answers_def best_of_def GetBestBlock_def Let_def split: if_splits)

lemma best_of_SetCoins [simp]: "best_of (SetCoins v t c) = best_of v"
  by (simp add: best_of_def GetBestBlock_def SetCoins_def Let_def)

lemma best_of_SetBestBlock [simp]: "best_of (SetBestBlock v (Some i)) = Some i"
  by (simp add: best_of_def GetBestBlock_def SetBestBlock_def)

lemma unspent_same: "same_answers v' v \<Longrightarrow> unspent v' = unspent v"
  using live_at_cong [of v' v] by (simp add: same_answers_def unspent_def fun_eq_iff)

lemma available_not_pruned: "IsAvailable c n \<Longrightarrow> \<not> IsPruned c"
  by (auto simp: IsAvailable_def IsPruned_def list_all_iff)

lemma unspent_Some:
  "unspent v i = Some c \<longleftrightarrow> coins_at v (outhash (prevout i)) = Some c \<and> IsAvailable c (outn (prevout i))"
  using available_not_pruned by (auto simp: unspent_def live_at_def live_def split: option.splits if_splits)

section \<open>Two views\<close>

text \<open>The first view is what a store has made of the second.\<close>

definition alike :: "(int \<Rightarrow> int) \<Rightarrow> coins_view \<Rightarrow> coins_view \<Rightarrow> bool" where
  "alike g v w \<longleftrightarrow> stores g v (live_at w) \<and> best_of v = best_of w"

lemma alike_same: "alike g v w \<Longrightarrow> same_answers v' v \<Longrightarrow> same_answers w' w \<Longrightarrow> alike g v' w'"
  using stores_cong [of v' v] live_at_cong [of w' w] by (simp add: alike_def same_answers_def)

lemma alike_unspent: "alike g v w \<Longrightarrow> stored_as g (unspent v i) (unspent w i)"
proof -
  assume "alike g v w"
  then have "stored_as g (live_at v (outhash (prevout i))) (live_at w (outhash (prevout i)))"
    by (simp add: alike_def stores_def)
  then show ?thesis unfolding stored_as_def unspent_def
    by (auto simp: IsAvailable_def split: option.splits)
qed

lemma alike_unspent_None: "alike g v w \<Longrightarrow> unspent v i = None \<longleftrightarrow> unspent w i = None"
  using alike_unspent [of g v w i] by (auto simp: stored_as_def)

lemma GetCoins_alike:
  assumes "alike g v w" and "unspent w i \<noteq> None"
  obtains c d v' w' where "GetCoins v (outhash (prevout i)) = Some (c, v')" and "GetCoins w (outhash (prevout i)) = Some (d, w')"
    and "c = d \<or> c = with_version g d" and "IsAvailable c (outn (prevout i))" "IsAvailable d (outn (prevout i))"
    and "same_answers v' v" "same_answers w' w"
proof -
  obtain d where d: "unspent w i = Some d" using assms(2) by blast
  then obtain c where c: "unspent v i = Some c" "c = d \<or> c = with_version g d"
    using alike_unspent [OF assms(1), of i] by (auto simp: stored_as_Some)
  obtain v' where "FetchCoins v (outhash (prevout i)) = (Some c, v')" "same_answers v' v"
    using c(1) same_answers_FetchCoins [of v "outhash (prevout i)"] by (cases "FetchCoins v (outhash (prevout i))") (auto simp: unspent_Some)
  moreover obtain w' where "FetchCoins w (outhash (prevout i)) = (Some d, w')" "same_answers w' w"
    using d same_answers_FetchCoins [of w "outhash (prevout i)"] by (cases "FetchCoins w (outhash (prevout i))") (auto simp: unspent_Some)
  ultimately show ?thesis using that c d by (auto simp: GetCoins_def unspent_Some)
qed

lemma GetOutputFor_alike:
  assumes "alike g v w" and "unspent w i \<noteq> None"
  obtains q v' w' where "GetOutputFor i v = Some (q, v')" and "GetOutputFor i w = Some (q, w')"
    and "same_answers v' v" "same_answers w' w"
  by (rule GetCoins_alike [OF assms]) (auto simp: GetOutputFor_def intro: that)

lemma have_txs_all:
  obtains v' where "have_txs ins v = (\<forall>i \<in> set ins. coins_at v (outhash (prevout i)) \<noteq> None, v')" and "same_answers v' v"
proof -
  have "\<exists>v'. have_txs ins v = (\<forall>i \<in> set ins. coins_at v (outhash (prevout i)) \<noteq> None, v') \<and> same_answers v' v"
  proof (induction ins arbitrary: v)
    case (Cons i ins)
    obtain w where w: "FetchCoins v (outhash (prevout i)) = (coins_at v (outhash (prevout i)), w)" "same_answers w v"
      using same_answers_FetchCoins by (metis surj_pair)
    obtain u where u: "have_txs ins w = (\<forall>i \<in> set ins. coins_at w (outhash (prevout i)) \<noteq> None, u)" "same_answers u w"
      using Cons.IH by blast
    have "coins_at w = coins_at v" "same_answers u v" using w(2) u(2) same_answers_trans by (simp_all add: same_answers_def)
    with w u show ?case by (cases "coins_at v (outhash (prevout i))") (auto simp: HaveCoins_def)
  qed simp
  with that show ?thesis by blast
qed

lemma have_outputs_all:
  assumes "\<forall>i \<in> set ins. coins_at v (outhash (prevout i)) \<noteq> None"
  obtains v' where "have_outputs ins v = Some (\<forall>i \<in> set ins. unspent v i \<noteq> None, v')" and "same_answers v' v"
proof -
  have "\<exists>v'. have_outputs ins v = Some (\<forall>i \<in> set ins. unspent v i \<noteq> None, v') \<and> same_answers v' v"
    using assms
  proof (induction ins arbitrary: v)
    case (Cons i ins)
    obtain c where c: "coins_at v (outhash (prevout i)) = Some c" using Cons.prems by auto
    obtain w where w: "FetchCoins v (outhash (prevout i)) = (Some c, w)" "same_answers w v"
      using same_answers_FetchCoins c by (metis surj_pair)
    have at: "coins_at w = coins_at v" using w(2) by (simp add: same_answers_def)
    obtain u where u: "have_outputs ins w = Some (\<forall>i \<in> set ins. unspent w i \<noteq> None, u)" "same_answers u w"
      using Cons.IH [of w] Cons.prems at by auto
    have "unspent v i \<noteq> None \<longleftrightarrow> IsAvailable c (outn (prevout i))" using c unspent_Some [of v i] by auto
    with w(1) u unspent_same [OF w(2)] same_answers_trans [OF u(2) w(2)] w(2) show ?case by (auto simp: GetCoins_def)
  qed simp
  with that show ?thesis by blast
qed

lemma HaveInputs_all:
  assumes "\<not> IsCoinBase tx"
  obtains v' where "HaveInputs tx v = Some (\<forall>i \<in> set (vin tx). unspent v i \<noteq> None, v')" and "same_answers v' v"
proof -
  obtain w where w: "have_txs (vin tx) v = (\<forall>i \<in> set (vin tx). coins_at v (outhash (prevout i)) \<noteq> None, w)" "same_answers w v"
    by (rule have_txs_all)
  show ?thesis
  proof (cases "\<forall>i \<in> set (vin tx). coins_at v (outhash (prevout i)) \<noteq> None")
    case True
    then have "\<forall>i \<in> set (vin tx). coins_at w (outhash (prevout i)) \<noteq> None" using w(2) by (simp add: same_answers_def)
    then obtain u where "have_outputs (vin tx) w = Some (\<forall>i \<in> set (vin tx). unspent w i \<noteq> None, u)" "same_answers u w"
      by (rule have_outputs_all)
    then show ?thesis using that w True assms unspent_same [OF w(2)] same_answers_trans by (auto simp: HaveInputs_def)
  next
    case False
    then obtain i where i: "i \<in> set (vin tx)" "coins_at v (outhash (prevout i)) = None" by blast
    then have "unspent v i = None" using unspent_Some [of v i] by (cases "unspent v i") auto
    with i(1) have "\<not> (\<forall>i \<in> set (vin tx). unspent v i \<noteq> None)" by blast
    then show ?thesis using that [of w] w False assms by (auto simp: HaveInputs_def)
  qed
qed

section \<open>Checking inputs\<close>

lemma value_in_loop_alike:
  "alike g v w \<Longrightarrow> \<forall>i \<in> set ins. unspent w i \<noteq> None \<Longrightarrow> \<exists>r v' w'. value_in_loop ins v a = Some (r, v')
    \<and> value_in_loop ins w a = Some (r, w') \<and> same_answers v' v \<and> same_answers w' w"
proof (induction ins arbitrary: v w a)
  case (Cons i ins)
  obtain q v1 w1 where q: "GetOutputFor i v = Some (q, v1)" "GetOutputFor i w = Some (q, w1)" "same_answers v1 v" "same_answers w1 w"
    by (rule GetOutputFor_alike [OF Cons.prems(1), of i]) (use Cons.prems(2) in auto)
  from Cons.IH [OF alike_same [OF Cons.prems(1) q(3,4)], of "a + nValue q"] Cons.prems(2) unspent_same [OF q(4)]
  obtain r v' w' where "value_in_loop ins v1 (a + nValue q) = Some (r, v')" "value_in_loop ins w1 (a + nValue q) = Some (r, w')"
    "same_answers v' v1" "same_answers w' w1" by auto
  with q show ?case using same_answers_trans by auto
qed simp

lemma p2sh_sigops_alike:
  "alike g v w \<Longrightarrow> \<forall>i \<in> set ins. unspent w i \<noteq> None \<Longrightarrow> \<exists>r v' w'. p2sh_sigops_loop ins v a = Some (r, v')
    \<and> p2sh_sigops_loop ins w a = Some (r, w') \<and> same_answers v' v \<and> same_answers w' w"
proof (induction ins arbitrary: v w a)
  case (Cons i ins)
  obtain q v1 w1 where q: "GetOutputFor i v = Some (q, v1)" "GetOutputFor i w = Some (q, w1)" "same_answers v1 v" "same_answers w1 w"
    by (rule GetOutputFor_alike [OF Cons.prems(1), of i]) (use Cons.prems(2) in auto)
  define k where "k = (if IsPayToScriptHash (scriptPubKey q) then a + GetSigOpCount_p2sh (scriptPubKey q) (scriptSig i) else a)"
  from Cons.IH [OF alike_same [OF Cons.prems(1) q(3,4)], of k] Cons.prems(2) unspent_same [OF q(4)]
  obtain r v' w' where "p2sh_sigops_loop ins v1 k = Some (r, v')" "p2sh_sigops_loop ins w1 k = Some (r, w')"
    "same_answers v' v1" "same_answers w' w1" by auto
  with q show ?case using same_answers_trans by (auto simp: k_def)
qed simp

lemma check_in_values_alike:
  "alike g v w \<Longrightarrow> \<forall>i \<in> set ins. unspent w i \<noteq> None \<Longrightarrow> \<exists>r v' w'. check_in_values ins h v a = (r, v')
    \<and> check_in_values ins h w a = (r, w') \<and> same_answers v' v \<and> same_answers w' w"
proof (induction ins arbitrary: v w a)
  case (Cons i ins)
  obtain c d v1 w1 where q: "GetCoins v (outhash (prevout i)) = Some (c, v1)" "GetCoins w (outhash (prevout i)) = Some (d, w1)"
    "c = d \<or> c = with_version g d" "same_answers v1 v" "same_answers w1 w"
    by (rule GetCoins_alike [OF Cons.prems(1), of i]) (use Cons.prems(2) in auto)
  have c: "fCoinBase c = fCoinBase d" "coins_nHeight c = coins_nHeight d" "coins_vout c = coins_vout d" using q(3) by auto
  define x where "x = nValue (coins_vout d ! unat (outn (prevout i)))"
  from Cons.IH [OF alike_same [OF Cons.prems(1) q(4,5)], of "a + x"] Cons.prems(2) unspent_same [OF q(5)]
  obtain r v' w' where "check_in_values ins h v1 (a + x) = (r, v')" "check_in_values ins h w1 (a + x) = (r, w')"
    "same_answers v' v1" "same_answers w' w1" by auto
  moreover from this have "same_answers v' v" "same_answers w' w" using q(4,5) same_answers_trans by blast+
  ultimately show ?case using q by (simp add: c x_def [symmetric] Let_def)
qed simp

lemma check_scripts_alike:
  "alike g v w \<Longrightarrow> \<forall>k \<in> set ks. unspent w (vin tx ! k) \<noteq> None \<Longrightarrow> \<exists>r v' w' c'. check_scripts E tx flags ks v c = (r, v', c')
    \<and> check_scripts E tx flags ks w c = (r, w', c') \<and> same_answers v' v \<and> same_answers w' w"
proof (induction ks arbitrary: v w c)
  case (Cons k ks)
  obtain a d v1 w1 where q: "GetCoins v (outhash (prevout (vin tx ! k))) = Some (a, v1)"
    "GetCoins w (outhash (prevout (vin tx ! k))) = Some (d, w1)" "a = d \<or> a = with_version g d" "same_answers v1 v" "same_answers w1 w"
    by (rule GetCoins_alike [OF Cons.prems(1), of "vin tx ! k"]) (use Cons.prems(2) in auto)
  have script: "CScriptCheck E a tx k fl x = CScriptCheck E d tx k fl x" for fl x
    using q(3) by (auto simp: CScriptCheck_def)
  obtain ok c1 where ok: "CScriptCheck E d tx k flags c = (ok, c1)" by (rule prod.exhaust)
  from Cons.IH [OF alike_same [OF Cons.prems(1) q(4,5)], of c1] Cons.prems(2) unspent_same [OF q(5)]
  obtain r v' w' c' where "check_scripts E tx flags ks v1 c1 = (r, v', c')" "check_scripts E tx flags ks w1 c1 = (r, w', c')"
    "same_answers v' v1" "same_answers w' w1" by auto
  moreover from this have "same_answers v' v" "same_answers w' w" using q(4,5) same_answers_trans by blast+
  moreover obtain ok2 c2 where "CScriptCheck E d tx k (flags AND NOT SCRIPT_VERIFY_STRICTENC) c1 = (ok2, c2)" by (rule prod.exhaust)
  ultimately show ?case using q(1,2,4,5) ok by (cases ok) (simp_all add: script)
qed simp

lemma CheckInputs_alike:
  assumes a: "alike g v w"
  shows "\<exists>r v' w' c'. CheckInputs E heights tx v fs flags c = (r, v', c') \<and> CheckInputs E heights tx w fs flags c = (r, w', c')
    \<and> same_answers v' v \<and> same_answers w' w"
proof (cases "IsCoinBase tx")
  case False
  obtain v1 where v1: "HaveInputs tx v = Some (\<forall>i \<in> set (vin tx). unspent v i \<noteq> None, v1)" "same_answers v1 v"
    by (rule HaveInputs_all [OF False])
  obtain w1 where w1: "HaveInputs tx w = Some (\<forall>i \<in> set (vin tx). unspent w i \<noteq> None, w1)" "same_answers w1 w"
    by (rule HaveInputs_all [OF False])
  have all: "(\<forall>i \<in> set (vin tx). unspent v i \<noteq> None) = (\<forall>i \<in> set (vin tx). unspent w i \<noteq> None)"
    using alike_unspent_None [OF a] by simp
  show ?thesis
  proof (cases "\<forall>i \<in> set (vin tx). unspent w i \<noteq> None")
    case no: False
    then show ?thesis using v1 w1 all False by (auto simp: CheckInputs_def)
  next
    case True
    obtain p v2 where v2: "GetBestBlock v1 = (p, v2)" by (rule prod.exhaust)
    obtain p' w2 where w2: "GetBestBlock w1 = (p', w2)" by (rule prod.exhaust)
    note s2 = same_answers_GetBestBlock [OF v2] same_answers_GetBestBlock [OF w2]
    have sv: "same_answers v2 v" and sw: "same_answers w2 w" using s2 v1(2) w1(2) same_answers_trans by blast+
    have p: "p' = p" using s2 v1(2) w1(2) a by (simp add: same_answers_def alike_def)
    have a2: "alike g v2 w2" using a sv sw by (rule alike_same)
    have u2: "\<forall>i \<in> set (vin tx). unspent w2 i \<noteq> None" using True unspent_same [OF sw] by simp
    obtain r v3 w3 where 3: "check_in_values (vin tx) (heights (the p) + 1) v2 0 = (r, v3)"
      "check_in_values (vin tx) (heights (the p) + 1) w2 0 = (r, w3)" "same_answers v3 v2" "same_answers w3 w2"
      using check_in_values_alike [OF a2 u2] by blast
    have a3: "alike g v3 w3" using a2 3(3,4) by (rule alike_same)
    have u3: "\<forall>k \<in> set [0..<length (vin tx)]. unspent w3 (vin tx ! k) \<noteq> None" using u2 unspent_same [OF 3(4)] by simp
    obtain r4 v4 w4 c4 where 4: "check_scripts E tx flags [0..<length (vin tx)] v3 c = (r4, v4, c4)"
      "check_scripts E tx flags [0..<length (vin tx)] w3 c = (r4, w4, c4)" "same_answers v4 v3" "same_answers w4 w3"
      using check_scripts_alike [OF a3 u3] by blast
    have "same_answers v3 v" "same_answers w3 w" "same_answers v4 v" "same_answers w4 w"
      using sv sw 3(3,4) 4(3,4) same_answers_trans by blast+
    then show ?thesis
      using v1(1) w1(1) all True False v2 w2 p sv sw 3(1,2) 4(1,2)
      by (cases p; cases r; cases "GetValueOut tx") (simp_all add: CheckInputs_def Let_def)
  qed
qed (simp add: CheckInputs_def)

section \<open>Applying transactions\<close>

lemma Spend_alike:
  assumes "c = d \<or> c = with_version g d" "tidy d" "Spend d p = Some (u, d')"
  shows "\<exists>w c'. Spend c p = Some (w, c') \<and> undo_stored_as g w u \<and> (c' = d' \<or> c' = with_version g d')"
proof (cases "c = d")
  case True
  then show ?thesis using assms(3) by simp
next
  case False
  then have c: "c = with_version g d" using assms(1) by simp
  note S = Spend_Some [OF assms(3,2)]
  have clean: "Cleanup (with_version g d\<lparr>coins_vout := xs\<rparr>) = with_version g (Cleanup (d\<lparr>coins_vout := xs\<rparr>))" for xs
    by (simp add: Cleanup_def with_version_def)
  have h: "(word_of_int (coins_nHeight d) :: u32) \<noteq> 0"
  proof -
    have "0 < coins_nHeight d" "coins_nHeight d < 2 ^ 31" using assms(2) S(2) by (auto simp: tidy_def)
    then show ?thesis using sint_word_of_int(1) [of "coins_nHeight d"] by (auto simp: int32_range_def)
  qed
  have same: "fCoinBase d' = fCoinBase d" "coins_nHeight d' = coins_nHeight d" "coins_nVersion d' = coins_nVersion d"
    by (simp_all add: S(1) Cleanup_def)
  have "Spend c p = Some (with_undo_version g u, with_version g d')"
    using S(2,3) h same unfolding Spend_def c by (simp add: clean S(1) [symmetric] S(4) with_undo_version_def Let_def)
  then show ?thesis by (simp add: undo_stored_as_def)
qed

lemma Spend_pruned: "IsPruned c \<Longrightarrow> Spend c p = None"
  by (auto simp: IsPruned_def Spend_def list_all_length)

lemma spend_inputs_alike:
  "alike g v w \<Longrightarrow> tidy_view w \<Longrightarrow> list_all2 (undo_stored_as g) us ws \<Longrightarrow>
    rel_option (\<lambda>(v', us') (w', ws'). alike g v' w' \<and> list_all2 (undo_stored_as g) us' ws')
      (spend_inputs ins v us) (spend_inputs ins w ws)"
proof (induction ins arbitrary: v w us ws)
  case (Cons i ins)
  let ?t = "outhash (prevout i)"
  obtain v1 where v1: "FetchCoins v ?t = (coins_at v ?t, v1)" "same_answers v1 v"
    using same_answers_FetchCoins by (metis surj_pair)
  obtain w1 where w1: "FetchCoins w ?t = (coins_at w ?t, w1)" "same_answers w1 w"
    using same_answers_FetchCoins by (metis surj_pair)
  have a1: "alike g v1 w1" using Cons.prems(1) v1(2) w1(2) by (rule alike_same)
  have at: "stored_as g (live (coins_at v ?t)) (live (coins_at w ?t))"
    using Cons.prems(1) by (simp add: alike_def stores_def live_at_def [symmetric])
  show ?case
  proof (cases "live (coins_at w ?t)")
    case None
    then have "live (coins_at v ?t) = None" using at by simp
    then show ?thesis using None v1(1) w1(1)
      by (auto simp: live_def Spend_pruned split: option.splits if_splits)
  next
    case (Some d)
    then obtain c where c: "live (coins_at v ?t) = Some c" "c = d \<or> c = with_version g d" using at by (auto simp: stored_as_Some)
    have cd: "coins_at v ?t = Some c" "coins_at w ?t = Some d" using c(1) Some by (auto simp: live_def split: option.splits if_splits)
    have t: "tidy d" using Cons.prems(2) cd(2) by (simp add: tidy_view_def)
    show ?thesis
    proof (cases "Spend d (prevout i)")
      case None
      have "Spend c (prevout i) = None" using None c(2) by (auto simp: Spend_def Let_def Cleanup_def split: if_splits)
      then show ?thesis using None v1(1) w1(1) cd by simp
    next
      case s: (Some r)
      obtain u d' where r: "r = (u, d')" by (rule prod.exhaust)
      obtain u' c' where s': "Spend c (prevout i) = Some (u', c')" "undo_stored_as g u' u" "c' = d' \<or> c' = with_version g d'"
        using Spend_alike [OF c(2) t s [unfolded r]] by blast
      have "alike g (SetCoins v1 ?t c') (SetCoins w1 ?t d')"
        using a1 stored_live [OF s'(3)] by (simp add: alike_def stores_SetCoins)
      moreover have "tidy_view (SetCoins w1 ?t d')"
        using Cons.prems(2) Spend_Some(5) [OF s [unfolded r] t] tidy_view_cong [of w1 w] w1(2)
        by (intro tidy_view_SetCoins) (simp_all add: same_answers_def)
      moreover have "list_all2 (undo_stored_as g) (us @ [u']) (ws @ [u])" using Cons.prems(3) s'(2) by (intro list_all2_appendI) simp_all
      ultimately show ?thesis using Cons.IH v1(1) w1(1) cd s r s'(1) by simp
    qed
  qed
qed simp

lemma UpdateCoins_alike:
  assumes "alike g v w" "tidy_view w"
  shows "rel_option (\<lambda>(v', us) (w', ws). alike g v' w' \<and> list_all2 (undo_stored_as g) us ws)
    (UpdateCoins tx v h t) (UpdateCoins tx w h t)"
proof -
  have set: "alike g (SetCoins x t c) (SetCoins y t c)" if "alike g x y" for x y c
    using that by (simp add: alike_def stores_SetCoins)
  show ?thesis
  proof (cases "IsCoinBase tx")
    case True
    then show ?thesis using assms(1) set by (simp add: UpdateCoins_def)
  next
    case False
    then show ?thesis using spend_inputs_alike [OF assms, of "[]" "[]" "vin tx"] set
      by (auto simp: UpdateCoins_def rel_option_iff split: option.splits)
  qed
qed

section \<open>Connecting a block\<close>

definition state_alike :: "(int \<Rightarrow> int) \<Rightarrow> connect_state \<Rightarrow> connect_state \<Rightarrow> bool" where
  "state_alike g s1 s2 \<longleftrightarrow> alike g (view s1) (view s2) \<and> sigs s1 = sigs s2 \<and> nFees s1 = nFees s2 \<and> nSigOps s1 = nSigOps s2
     \<and> list_all2 (list_all2 (undo_stored_as g)) (vtxundo s1) (vtxundo s2)"

text \<open>What connect_tx does before it applies the transaction, on two views.\<close>

definition connect_checks ::
  "'b env \<Rightarrow> (nat \<Rightarrow> int) \<Rightarrow> bool \<Rightarrow> bool \<Rightarrow> u32 \<Rightarrow> CTransaction \<Rightarrow> connect_state \<Rightarrow> verdict + connect_state" where
  "connect_checks E heights fScriptChecks fStrict flags tx s =
     (if IsCoinBase tx then Inr s
      else case HaveInputs tx (view s) of None \<Rightarrow> Inl Throw
      | Some (ok, v) \<Rightarrow>
        if \<not> ok then Inl (DoS 100)
        else case (if fStrict then GetP2SHSigOpCount tx v else Some (0, v)) of None \<Rightarrow> Inl Throw
        | Some (k, v) \<Rightarrow>
          if fStrict \<and> nSigOps s + k > MAX_BLOCK_SIGOPS then Inl (DoS 100)
          else case GetValueIn tx v of None \<Rightarrow> Inl Throw
          | Some (nValueIn, v) \<Rightarrow>
            (case GetValueOut tx of None \<Rightarrow> Inl Throw
             | Some nValueOut \<Rightarrow>
               (case CheckInputs E heights tx v fScriptChecks flags (sigs s) of (verdict, v, c) \<Rightarrow>
                  if verdict \<noteq> Accept then Inl verdict
                  else Inr (s\<lparr>view := v, sigs := c, nSigOps := nSigOps s + k, nFees := nFees s + (nValueIn - nValueOut)\<rparr>))))"

lemma connect_tx_checks:
  "connect_tx E heights h fs strict flags tx s =
     (let s = s\<lparr>nSigOps := nSigOps s + GetLegacySigOpCount tx\<rparr> in
      if nSigOps s > MAX_BLOCK_SIGOPS then Inl (DoS 100)
      else case connect_checks E heights fs strict flags tx s of Inl verdict \<Rightarrow> Inl verdict
      | Inr s \<Rightarrow> (case UpdateCoins tx (view s) h (tx_hash (hashes E) tx) of None \<Rightarrow> Inl Throw
         | Some (v, txundo) \<Rightarrow>
             Inr (s\<lparr>view := v, vtxundo := (if IsCoinBase tx then vtxundo s else vtxundo s @ [txundo])\<rparr>)))"
  by (simp only: connect_tx_def connect_checks_def)

lemma connect_checks_alike:
  assumes s: "state_alike g s1 s2"
  shows "rel_sum (=) (\<lambda>t1 t2. state_alike g t1 t2 \<and> same_answers (view t2) (view s2) \<and> vtxundo t2 = vtxundo s2)
    (connect_checks E heights fs strict flags tx s1) (connect_checks E heights fs strict flags tx s2)"
proof (cases "IsCoinBase tx")
  case False
  let ?v = "view s1" and ?w = "view s2"
  have a: "alike g ?v ?w" and eq: "sigs s1 = sigs s2" "nFees s1 = nFees s2" "nSigOps s1 = nSigOps s2" using s by (simp_all add: state_alike_def)
  obtain v1 where v1: "HaveInputs tx ?v = Some (\<forall>i \<in> set (vin tx). unspent ?v i \<noteq> None, v1)" "same_answers v1 ?v"
    by (rule HaveInputs_all [OF False])
  obtain w1 where w1: "HaveInputs tx ?w = Some (\<forall>i \<in> set (vin tx). unspent ?w i \<noteq> None, w1)" "same_answers w1 ?w"
    by (rule HaveInputs_all [OF False])
  have all: "(\<forall>i \<in> set (vin tx). unspent ?v i \<noteq> None) = (\<forall>i \<in> set (vin tx). unspent ?w i \<noteq> None)"
    using alike_unspent_None [OF a] by simp
  show ?thesis
  proof (cases "\<forall>i \<in> set (vin tx). unspent ?w i \<noteq> None")
    case no: False
    then show ?thesis using v1 w1 all False by (simp add: connect_checks_def)
  next
    case True
    note a1 = alike_same [OF a v1(2) w1(2)]
    have u1: "\<forall>i \<in> set (vin tx). unspent w1 i \<noteq> None" using True unspent_same [OF w1(2)] by simp
    obtain k v2 w2 where 2: "(if strict then GetP2SHSigOpCount tx v1 else Some (0, v1)) = Some (k, v2)"
      "(if strict then GetP2SHSigOpCount tx w1 else Some (0, w1)) = Some (k, w2)" "same_answers v2 v1" "same_answers w2 w1"
      using p2sh_sigops_alike [OF a1 u1, of 0] False by (cases strict) (auto simp: GetP2SHSigOpCount_def)
    note a2 = alike_same [OF a1 2(3,4)]
    have u2: "\<forall>i \<in> set (vin tx). unspent w2 i \<noteq> None" using u1 unspent_same [OF 2(4)] by simp
    obtain nin v3 w3 where 3: "GetValueIn tx v2 = Some (nin, v3)" "GetValueIn tx w2 = Some (nin, w3)"
      "same_answers v3 v2" "same_answers w3 w2"
      using value_in_loop_alike [OF a2 u2, of 0] False by (auto simp: GetValueIn_def)
    note a3 = alike_same [OF a2 3(3,4)]
    obtain r v4 w4 c where 4: "CheckInputs E heights tx v3 fs flags (sigs s2) = (r, v4, c)"
      "CheckInputs E heights tx w3 fs flags (sigs s2) = (r, w4, c)" "same_answers v4 v3" "same_answers w4 w3"
      using CheckInputs_alike [OF a3] by blast
    have sw: "same_answers w4 ?w" using w1(2) 2(4) 3(4) 4(4) same_answers_trans by blast
    have a4: "alike g v4 w4" using a3 4(3,4) by (rule alike_same)
    let ?t = "\<lambda>s v nout. s\<lparr>view := v, sigs := c, nSigOps := nSigOps s2 + k, nFees := nFees s2 + (nin - nout)\<rparr>"
    have "state_alike g (?t s1 v4 nout) (?t s2 w4 nout)" for nout using s a4 by (simp add: state_alike_def)
    then show ?thesis
      using v1(1) w1(1) all True False 2(1,2) 3(1,2) 4(1,2) sw eq
      by (cases "GetValueOut tx") (simp_all add: connect_checks_def)
  qed
qed (use s in \<open>simp add: connect_checks_def\<close>)

lemma connect_tx_alike:
  assumes "state_alike g s1 s2" "tidy_view (view s2)"
  shows "rel_sum (=) (state_alike g) (connect_tx E heights h fs strict flags tx s1) (connect_tx E heights h fs strict flags tx s2)"
proof -
  let ?n = "\<lambda>s. s\<lparr>nSigOps := nSigOps s + GetLegacySigOpCount tx\<rparr>"
  have n: "state_alike g (?n s1) (?n s2)" "nSigOps s1 = nSigOps s2" using assms(1) by (simp_all add: state_alike_def)
  have v: "view (?n s2) = view s2" by simp
  note r = connect_checks_alike [OF n(1), of E heights fs strict flags tx]
  show ?thesis
  proof (cases "connect_checks E heights fs strict flags tx (?n s2)")
    case (Inl d)
    then show ?thesis using r n(2) by (cases "connect_checks E heights fs strict flags tx (?n s1)") (simp_all add: connect_tx_checks)
  next
    case (Inr t2)
    then obtain t1 where t: "connect_checks E heights fs strict flags tx (?n s1) = Inr t1" "state_alike g t1 t2"
      "same_answers (view t2) (view s2)" using r by (cases "connect_checks E heights fs strict flags tx (?n s1)") auto
    have "tidy_view (view t2)" using assms(2) tidy_view_cong [of "view t2" "view s2"] t(3) by (simp add: same_answers_def)
    then have up: "rel_option (\<lambda>(v', us) (w', ws). alike g v' w' \<and> list_all2 (undo_stored_as g) us ws)
      (UpdateCoins tx (view t1) h (tx_hash (hashes E) tx)) (UpdateCoins tx (view t2) h (tx_hash (hashes E) tx))"
      using t(2) by (intro UpdateCoins_alike) (simp_all add: state_alike_def)
    show ?thesis
    proof (cases "UpdateCoins tx (view t2) h (tx_hash (hashes E) tx)")
      case None
      then show ?thesis using up Inr t(1) n(2) by (simp add: connect_tx_checks)
    next
      case (Some x)
      obtain w ws where x: "x = (w, ws)" by (rule prod.exhaust)
      with Some up obtain v us where "UpdateCoins tx (view t1) h (tx_hash (hashes E) tx) = Some (v, us)"
        "alike g v w" "list_all2 (undo_stored_as g) us ws"
        by (cases "UpdateCoins tx (view t1) h (tx_hash (hashes E) tx)") auto
      then show ?thesis using Inr t(1,2) n(2) Some x
        by (simp add: connect_tx_checks state_alike_def list_all2_appendI)
    qed
  qed
qed

lemma connect_txs_alike:
  assumes "0 < h" "h < 2 ^ 31"
  shows "state_alike g s1 s2 \<Longrightarrow> tidy_view (view s2) \<Longrightarrow> list_all tx_pays txs \<Longrightarrow>
    rel_sum (=) (state_alike g) (connect_txs E heights h fs strict flags txs s1) (connect_txs E heights h fs strict flags txs s2)"
proof (induction txs arbitrary: s1 s2)
  case (Cons tx rest)
  note r = connect_tx_alike [OF Cons.prems(1,2), of E heights h fs strict flags tx]
  show ?case
  proof (cases "connect_tx E heights h fs strict flags tx s2")
    case (Inl d)
    then show ?thesis using r by (cases "connect_tx E heights h fs strict flags tx s1") simp_all
  next
    case (Inr t2)
    then obtain t1 where t1: "connect_tx E heights h fs strict flags tx s1 = Inr t1" "state_alike g t1 t2"
      using r by (cases "connect_tx E heights h fs strict flags tx s1") simp_all
    obtain v us where v: "coins_at v = coins_at (view s2)" "UpdateCoins tx v h (tx_hash (hashes E) tx) = Some (view t2, us)"
      using Inr by (rule connect_tx_Inr)
    have "tidy_view v" using Cons.prems(2) tidy_view_cong [OF v(1)] by simp
    then have "tidy_view (view t2)" using UpdateCoins_facts(1) [OF v(2) _ _ assms] Cons.prems(3) by simp
    then show ?thesis using Cons.IH [OF t1(2)] Cons.prems(3) Inr t1(1) by simp
  qed
qed simp

lemma bip30_all:
  obtains v' where "bip30 hs v = (\<forall>h \<in> set hs. live_at v h = None, v')" and "same_answers v' v"
proof -
  have "\<exists>v'. bip30 hs v = (\<forall>h \<in> set hs. live_at v h = None, v') \<and> same_answers v' v"
  proof (induction hs arbitrary: v)
    case (Cons h hs)
    obtain w where w: "FetchCoins v h = (coins_at v h, w)" "same_answers w v" using same_answers_FetchCoins by (metis surj_pair)
    obtain u where u: "bip30 hs w = (\<forall>h \<in> set hs. live_at w h = None, u)" "same_answers u w" using Cons.IH by blast
    have "live_at w = live_at v" "same_answers u v"
      using w(2) u(2) live_at_cong [of w v] same_answers_trans by (auto simp: same_answers_def)
    with w u show ?case by (auto simp: live_at_def live_def split: option.splits)
  qed simp
  with that show ?thesis by blast
qed

lemma alike_None: "alike g v w \<Longrightarrow> live_at v t = None \<longleftrightarrow> live_at w t = None"
  unfolding alike_def stores_def by (metis stored_as_None)

lemma alike_SetBestBlock: "alike g v w \<Longrightarrow> alike g (SetBestBlock v (Some i)) (SetBestBlock w (Some i))"
  using stores_cong [OF coins_at_SetBestBlock] live_at_cong [OF coins_at_SetBestBlock] by (simp add: alike_def)

text \<open>The decision, the signature cache, the view and the undo data of ConnectBlock on two views.\<close>

lemma ConnectBlock_alike:
  assumes a: "alike g v w" and t: "tidy_view w" and h: "0 < h" "h < 2 ^ 31"
    and c: "ConnectBlock E heights block i h bt pp False v c = (Accept, v', c', u)"
  obtains w' u' where "ConnectBlock E heights block i h bt pp False w c = (Accept, w', c', u')"
    and "alike g v' w'" and "list_all2 (list_all2 (undo_stored_as g)) u u'"
proof -
  let ?H = "map (tx_hash (hashes E)) (vtx block)"
  obtain p v1 where v1: "GetBestBlock v = (p, v1)" by (rule prod.exhaust)
  obtain p' w1 where w1: "GetBestBlock w = (p', w1)" by (rule prod.exhaust)
  note s1 = same_answers_GetBestBlock [OF v1] same_answers_GetBestBlock [OF w1]
  have p: "p' = p" using s1 a by (simp add: alike_def)
  have a1: "alike g v1 w1" using alike_same [OF a] s1 by blast
  have ck: "CheckBlock E block True True = Accept" and pp: "pp = p"
    using c v1 by (auto simp: ConnectBlock_def split: if_splits)
  show ?thesis
  proof (cases "header_hash (hashes E) block = hashGenesisBlock E")
    case True
    then show ?thesis using that c ck pp v1 w1 p alike_SetBestBlock [OF a1, of i] by (auto simp: ConnectBlock_def)
  next
    case False
    obtain v2 where v2: "bip30 ?H v1 = (\<forall>x \<in> set ?H. live_at v1 x = None, v2)" "same_answers v2 v1" by (rule bip30_all)
    obtain w2 where w2: "bip30 ?H w1 = (\<forall>x \<in> set ?H. live_at w1 x = None, w2)" "same_answers w2 w1" by (rule bip30_all)
    have all: "(\<forall>x \<in> set ?H. live_at v1 x = None) = (\<forall>x \<in> set ?H. live_at w1 x = None)" using alike_None [OF a1] by simp
    define strict where "strict = (uint bt \<ge> 1349049600)"
    define fs where "fs = (h \<ge> total_blocks_estimate E)"
    define flags where "flags = SCRIPT_VERIFY_NOCACHE OR (if strict then SCRIPT_VERIFY_P2SH else SCRIPT_VERIFY_NONE)"
    define run where "run x = connect_txs E heights h fs strict flags (vtx block) \<lparr>view = x, sigs = c, nFees = 0, nSigOps = 0, vtxundo = []\<rparr>" for x
    have step: "ConnectBlock E heights block i h bt pp False x c =
      (if \<not> (\<forall>k \<in> set ?H. live_at x1 k = None) then (DoS 100, x2, c, [])
       else case run x2 of Inl verdict \<Rightarrow> (verdict, x2, c, [])
       | Inr s \<Rightarrow> (case GetValueOut (vtx block ! 0) of None \<Rightarrow> (Throw, view s, sigs s, [])
           | Some nValueOut \<Rightarrow>
               if nValueOut > GetBlockValue h (nFees s) then (DoS 100, view s, sigs s, [])
               else (Accept, SetBestBlock (view s) (Some i), sigs s, vtxundo s)))"
      if "GetBestBlock x = (p, x1)" "bip30 ?H x1 = (\<forall>k \<in> set ?H. live_at x1 k = None, x2)" for x x1 x2
      unfolding ConnectBlock_def Let_def not_False_eq_True ck that prod.case pp run_def
        strict_def [symmetric] fs_def [symmetric] flags_def [symmetric] if_False if_not_P [OF False] by simp
    have a2: "alike g v2 w2" using a1 v2(2) w2(2) by (rule alike_same)
    have tw: "tidy_view w2" using t tidy_view_cong [of w2 w] s1 w2(2) same_answers_trans by (simp add: same_answers_def)
    have pays: "list_all tx_pays (vtx block)" using ck by (rule CheckBlock_Accept) (auto simp: list_all_iff)
    have r: "rel_sum (=) (state_alike g) (run v2) (run w2)"
      unfolding run_def using a2 by (intro connect_txs_alike h tw pays) (simp_all add: state_alike_def tw)
    obtain s where s: "run v2 = Inr s"
    proof (cases "run v2")
      case (Inl d)
      then have "d = Accept" using c step [OF v1 v2(1)] by (simp split: if_splits)
      moreover have "d \<noteq> Accept" using Inl connect_txs_Inl unfolding run_def by blast
      ultimately show ?thesis by blast
    qed
    then obtain s' where s': "run w2 = Inr s'" "state_alike g s s'" using r by (cases "run w2") simp_all
    then have ss: "alike g (view s) (view s')" "sigs s = sigs s'" "nFees s = nFees s'"
      "list_all2 (list_all2 (undo_stored_as g)) (vtxundo s) (vtxundo s')" by (simp_all add: state_alike_def)
    have "ConnectBlock E heights block i h bt pp False w c = (Accept, SetBestBlock (view s') (Some i), c', vtxundo s')"
      and v': "v' = SetBestBlock (view s) (Some i)" "u = vtxundo s"
      using c step [OF v1 v2(1)] step [OF w1 [unfolded p] w2(1)] all s s'(1) ss(2,3)
      by (auto split: option.splits if_splits)
    then show ?thesis using that ss alike_SetBestBlock [OF ss(1)] by simp
  qed
qed

end
