(* ===== verification/Checkpoints.thy ===== *)
theory Checkpoints
  imports Work
begin

text \<open>
  checkpoints.cpp: the hardened checkpoints of the main network. The program looks a height up before it takes
  a block into its tree, so that at the heights of the table there is one block at most. The height from which
  on the Phoenix rule holds is one of them, which is what makes the static anchor of the rule the same for
  every branch. The option -checkpoints is an argument; a CBlockIndex is an address.
\<close>

definition mapCheckpoints :: "(int \<times> uint256) list" where
  "mapCheckpoints =
    [(0, 0x5d871c1b6ea542c2bb8a3b3ac70028a591bbf81369e90c2446c1a2bbfb89459b),
     (1, 0x50f5ef3a2b2637c92907e9d444e6a58f925cb61eaac7b23f46263f2e7d9245c0),
     (18500, 0x6cfc4decf7c26c037c621190681f9b3f12912f8330b06c652e0c193340a23347),
     (33000, 0xcfd0eb628a7fee82accc4e2f183cdd1abd08afeedf2b1b030230836a4e74629e),
     (60413, 0x99ea9310aac366b03161254d77ada05c9eb1392ca8ca370885b013f80d41f56e),
     (124650, 0x0d8aa2452b7f2702a9a07a4cb36ad1edd12503014ba46da46992c9dba898dec2),
     (215000, 0x7e960cd973982501d2339906c3c7bf81c2e0c0a0a02192198263ae51f024e991),
     (363120, 0x40c6d6d81494d53781af0fc9d7aff91a2f3a13e38100b20c3ac819f944ecf9f4),
     (500000, 0x9b6f14f13f0ee345eb03aa2742630480d7e2f7c3ce46e4c34ecbb23d2d871f6c),
     (1000000, 0x2f1c4d32c87f0e77a63fc4cb902223307cf3b3c867818fa45f1bc7fef60d2686),
     (1500000, 0x44a971426d30eb1446086b1319979edcf73536897efb04505782da3760be4809),
     (2000000, 0x4ceca77d22d672d391670224ca2f9457209bc1ecf5f5eaf5e9d652b81656995b),
     (2500000, 0xa6c937fcf01c04eb3aa7a8e06c80acb80e6843acd268fb6d520c5dad6194e7db),
     (3000000, 0x1af43523e055656cae5e3b6894d4484b968c25ddf7adbd758e5908e45e38fdf0),
     (3500000, 0xf637143b959c511cd0e4d3df7859181f1e5633ca2460f270eb02d4903846e04f),
     (4000000, 0x959ec2a6d7d67cf4272bcb6508c68daa69a7c280123f26d001c47387186fc1fd),
     (4194000, 0xadd35fb660b3424e73ffccddee2ac84933b92b75e99f0fe874605b716f8a96a0)]"

definition mapCheckpointsTestnet :: "(int \<times> uint256) list" where
  "mapCheckpointsTestnet = [(0, 0)]"

definition checkpoint_table :: "bool \<Rightarrow> (int \<times> uint256) list" where
  "checkpoint_table fTestNet = (if fTestNet then mapCheckpointsTestnet else mapCheckpoints)"

definition Checkpoints_CheckBlock :: "bool \<Rightarrow> bool \<Rightarrow> int \<Rightarrow> uint256 \<Rightarrow> bool" where
  "Checkpoints_CheckBlock fTestNet fCheckpoints nHeight hash =
     (if fTestNet then True
      else if \<not> fCheckpoints then True
      else case map_of (checkpoint_table fTestNet) nHeight of None \<Rightarrow> True | Some h \<Rightarrow> hash = h)"

definition GetTotalBlocksEstimate :: "bool \<Rightarrow> bool \<Rightarrow> int" where
  "GetTotalBlocksEstimate fTestNet fCheckpoints =
     (if fTestNet then 0 else if \<not> fCheckpoints then 0 else fst (last (checkpoint_table fTestNet)))"

definition GetLastCheckpoint :: "bool \<Rightarrow> bool \<Rightarrow> (uint256 \<Rightarrow> nat option) \<Rightarrow> nat option" where
  "GetLastCheckpoint fTestNet fCheckpoints mapBlockIndex =
     (if fTestNet then None
      else if \<not> fCheckpoints then None
      else case filter (\<lambda>i. mapBlockIndex (snd i) \<noteq> None) (rev (checkpoint_table fTestNet)) of
        [] \<Rightarrow> None | i # _ \<Rightarrow> mapBlockIndex (snd i))"

text \<open>A test that lets one hash pass, or none, at the activation height.\<close>

definition pins_activation :: "(int \<Rightarrow> uint256 \<Rightarrow> bool) \<Rightarrow> bool" where
  "pins_activation ok \<longleftrightarrow> (\<exists>x. \<forall>h. ok PHOENIX_ACTIVATION_HEIGHT h \<longrightarrow> h = x)"

lemma checkpoints_pin_activation: "pins_activation (Checkpoints_CheckBlock False True)"
  unfolding pins_activation_def
  by (intro exI [of _ "0xadd35fb660b3424e73ffccddee2ac84933b92b75e99f0fe874605b716f8a96a0"])
    (simp add: Checkpoints_CheckBlock_def checkpoint_table_def mapCheckpoints_def PHOENIX_ACTIVATION_HEIGHT_def)

lemma checkpoints_sorted: "sorted_wrt (<) (map fst mapCheckpoints)" "GetTotalBlocksEstimate False True = PHOENIX_ACTIVATION_HEIGHT"
  by (simp_all add: mapCheckpoints_def GetTotalBlocksEstimate_def checkpoint_table_def PHOENIX_ACTIVATION_HEIGHT_def)

end
