(* ===== verification/Chain.thy ===== *)
theory Chain
  imports Versions
begin

text \<open>
  main.cpp and main.h: the tree of block indices, accepting a block into it (AcceptBlock,
  AddToBlockIndex) and moving the best chain (SetBestChain). A CBlockIndex is an address; the tree maps
  addresses to what does not change of them, with the block at its place in the block files. What changes
  (the undo data on disk and pnext) are maps of their own. None is a loop that does not end; an error is
  the value Inl. The memory pool, the wallet's notification, the status of failed blocks and the messages
  about checkpoints and upgrades are not modelled.
\<close>

section \<open>State\<close>

record block_node = CBlockIndex +
  pprev :: "nat option"
  hashBlock :: uint256
  nChainWork :: uint256
  block_file :: "CBlock option"

type_synonym block_tree = "nat \<Rightarrow> block_node option"

datatype chain_error = Assertion | Failure | Abort | Rejected verdict

record chain_state =
  mapBlockIndex :: "uint256 \<Rightarrow> nat option"
  tree :: block_tree
  undo_file :: "nat \<Rightarrow> CBlockUndo option"
  pnext :: "nat \<Rightarrow> nat option"
  pcoinsTip :: coins_view
  sigcache :: CSignatureCache
  pindexBest :: "nat option"
  nBestHeight :: int
  hashBestChain :: uint256
  nBestChainWork :: uint256
  anchor :: "u32 \<times> int"

definition no_chain :: chain_state where
  "no_chain = \<lparr>mapBlockIndex = (\<lambda>_. None), tree = (\<lambda>_. None), undo_file = (\<lambda>_. None), pnext = (\<lambda>_. None),
     pcoinsTip = CCoinsViewCache (\<lambda>_. None) None, sigcache = sigcache_empty, pindexBest = None, nBestHeight = - 1,
     hashBestChain = 0, nBestChainWork = 0, anchor = (0, 0)\<rparr>"

section \<open>Walking the tree\<close>

text \<open>The indices from p back to the one before stop; a null pointer on the way is an error.\<close>

partial_function (option) path :: "block_tree \<Rightarrow> nat option \<Rightarrow> nat option \<Rightarrow> (chain_error + nat list) option" where
  "path T stop p =
     (if p = stop then Some (Inr [])
      else case p of None \<Rightarrow> Some (Inl Assertion)
      | Some i \<Rightarrow> (case T i of None \<Rightarrow> Some (Inl Assertion)
         | Some n \<Rightarrow> Option.bind (path T stop (pprev n))
             (\<lambda>r. case r of Inl e \<Rightarrow> Some (Inl e) | Inr is \<Rightarrow> Some (Inr (i # is)))))"

text \<open>The inner loop of the search for the fork: up to the first index not above the height.\<close>

partial_function (option) climb :: "block_tree \<Rightarrow> int \<Rightarrow> nat \<Rightarrow> (chain_error + nat) option" where
  "climb T h plonger =
     (case T plonger of None \<Rightarrow> Some (Inl Assertion)
      | Some n \<Rightarrow>
          if idx_nHeight n > h
          then (case pprev n of None \<Rightarrow> Some (Inl Assertion) | Some p \<Rightarrow> climb T h p)
          else Some (Inr plonger))"

partial_function (option) find_fork :: "block_tree \<Rightarrow> nat option \<Rightarrow> nat \<Rightarrow> (chain_error + nat option) option" where
  "find_fork T pfork plonger =
     (case pfork of None \<Rightarrow> Some (Inr None)
      | Some f \<Rightarrow>
          if f = plonger then Some (Inr (Some f))
          else case T f of None \<Rightarrow> Some (Inl Assertion)
          | Some n \<Rightarrow> Option.bind (climb T (idx_nHeight n) plonger)
              (\<lambda>r. case r of Inl e \<Rightarrow> Some (Inl e)
                | Inr p \<Rightarrow>
                    if f = p then Some (Inr (Some f))
                    else (case pprev n of None \<Rightarrow> Some (Inl Assertion) | Some q \<Rightarrow> find_fork T (Some q) p)))"

section \<open>The block files\<close>

definition ReadFromDisk :: "'b env \<Rightarrow> block_node \<Rightarrow> CBlock option" where
  "ReadFromDisk E n =
     (case block_file n of None \<Rightarrow> None
      | Some b \<Rightarrow>
          if header_hash (hashes E) b \<noteq> hashGenesisBlock E \<and> \<not> CheckProofOfWork (bn E) (GetPoWHash E b) (nBits b) then None
          else if header_hash (hashes E) b \<noteq> hashBlock n then None
          else Some b)"

definition tree_height :: "block_tree \<Rightarrow> nat \<Rightarrow> int" where
  "tree_height T i = (case T i of None \<Rightarrow> 0 | Some n \<Rightarrow> idx_nHeight n)"

section \<open>SetBestChain\<close>

text \<open>Disconnecting the shorter branch.\<close>

fun disconnect_loop ::
  "'b env \<Rightarrow> block_tree \<Rightarrow> (nat \<Rightarrow> CBlockUndo option) \<Rightarrow> nat list \<Rightarrow> coins_view \<Rightarrow> chain_error + coins_view" where
  "disconnect_loop E T undo [] v = Inr v"
| "disconnect_loop E T undo (i # is) v =
     (case T i of None \<Rightarrow> Inl Assertion
      | Some n \<Rightarrow>
        (case ReadFromDisk E n of None \<Rightarrow> Inl Abort
         | Some b \<Rightarrow>
           (case GetBestBlock v of (best, v) \<Rightarrow>
              if best \<noteq> Some i then Inl Assertion
              else case DisconnectBlock (tx_hash (hashes E)) (vtx b) (idx_nHeight n) (pprev n) (undo i) v of
                None \<Rightarrow> Inl Failure
              | Some (v, fClean) \<Rightarrow> if \<not> fClean then Inl Failure else disconnect_loop E T undo is v)))"

text \<open>
  What ConnectBlock leaves on disk: undo data is written the first time only, and never for the genesis
  block. The file answers what CTxInUndo reads back from its bytes.
\<close>

definition write_undo ::
  "'b env \<Rightarrow> CBlock \<Rightarrow> nat \<Rightarrow> CBlockUndo \<Rightarrow> (nat \<Rightarrow> CBlockUndo option) \<Rightarrow> (nat \<Rightarrow> CBlockUndo option)" where
  "write_undo E b i u undo =
     (if header_hash (hashes E) b = hashGenesisBlock E then undo
      else if undo i = None then undo(i := Some (map (map disk_undo) u)) else undo)"

text \<open>Connecting the longer branch; the signature cache and the files keep what was written.\<close>

fun connect_loop ::
  "'b env \<Rightarrow> block_tree \<Rightarrow> nat list \<Rightarrow> coins_view \<Rightarrow> CSignatureCache \<Rightarrow> (nat \<Rightarrow> CBlockUndo option) \<Rightarrow>
    (chain_error + coins_view) \<times> CSignatureCache \<times> (nat \<Rightarrow> CBlockUndo option)" where
  "connect_loop E T [] v c undo = (Inr v, c, undo)"
| "connect_loop E T (i # is) v c undo =
     (case T i of None \<Rightarrow> (Inl Assertion, c, undo)
      | Some n \<Rightarrow>
        (case ReadFromDisk E n of None \<Rightarrow> (Inl Abort, c, undo)
         | Some b \<Rightarrow>
           (case ConnectBlock E (tree_height T) b i (idx_nHeight n) (idx_nTime n) (pprev n) False v c of (verdict, v, c, u) \<Rightarrow>
              if verdict \<noteq> Accept then (Inl (Rejected verdict), c, undo)
              else connect_loop E T is v c (write_undo E b i u undo))))"

text \<open>
  The database behind pcoinsTip takes the entries of the cache; it erases the pruned ones. What it answers
  afterwards, the new base, is what CCoins reads back from its bytes.
\<close>

definition db_BatchWrite :: "(uint256 \<Rightarrow> CCoins option) \<Rightarrow> (uint256 \<times> CCoins) list \<Rightarrow> (uint256 \<Rightarrow> CCoins option)" where
  "db_BatchWrite db m = fold (\<lambda>(k, c) db. db(k := (if IsPruned c then None else Some (disk_coins c)))) m db"

definition FlushTip :: "coins_view \<Rightarrow> coins_view" where
  "FlushTip v = v\<lparr>base := db_BatchWrite (base v) (cacheCoins v), cacheCoins := [],
     base_best := (if pindexTip v = None then base_best v else pindexTip v)\<rparr>"

text \<open>What the disk does once the coins are in pcoinsTip: nothing, no space, a failed or a finished write.\<close>

datatype disk_step = No_flush | No_space | Flush_failed | Flush_done

definition unlink :: "block_tree \<Rightarrow> nat list \<Rightarrow> (nat \<Rightarrow> nat option) \<Rightarrow> (nat \<Rightarrow> nat option)" where
  "unlink T is nxt = fold (\<lambda>i nxt. case Option.bind (T i) pprev of None \<Rightarrow> nxt | Some p \<Rightarrow> nxt(p := None)) is nxt"

definition link :: "block_tree \<Rightarrow> nat list \<Rightarrow> (nat \<Rightarrow> nat option) \<Rightarrow> (nat \<Rightarrow> nat option)" where
  "link T is nxt = fold (\<lambda>i nxt. case Option.bind (T i) pprev of None \<Rightarrow> nxt | Some p \<Rightarrow> nxt(p := Some i)) is nxt"

text \<open>The end of SetBestChain, when the new coins are ready.\<close>

definition commit_chain ::
  "disk_step \<Rightarrow> nat list \<Rightarrow> nat list \<Rightarrow> nat \<Rightarrow> coins_view \<Rightarrow> chain_state \<Rightarrow> (chain_error + unit) \<times> chain_state" where
  "commit_chain disk vDisconnect vConnect pindexNew v s =
     (let s = s\<lparr>pcoinsTip := snd (Flush v (pcoinsTip s))\<rparr> in
      if disk = No_space \<or> disk = Flush_failed then (Inl Abort, s)
      else let s = (if disk = Flush_done then s\<lparr>pcoinsTip := FlushTip (pcoinsTip s)\<rparr> else s) in
        case tree s pindexNew of None \<Rightarrow> (Inl Assertion, s)
        | Some n \<Rightarrow> (Inr (), s\<lparr>pnext := link (tree s) vConnect (unlink (tree s) vDisconnect (pnext s)),
              pindexBest := Some pindexNew, nBestHeight := idx_nHeight n, hashBestChain := hashBlock n,
              nBestChainWork := nChainWork n\<rparr>))"

definition SetBestChain :: "'b env \<Rightarrow> disk_step \<Rightarrow> nat \<Rightarrow> chain_state \<Rightarrow> ((chain_error + unit) \<times> chain_state) option" where
  "SetBestChain E disk pindexNew s =
     (case GetBestBlock (pcoinsTip s) of (best, tip) \<Rightarrow>
      let s = s\<lparr>pcoinsTip := tip\<rparr>; (_, v) = GetBestBlock (CCoinsViewCache (coins_at tip) best) in
      Option.bind (find_fork (tree s) best pindexNew) (\<lambda>r. case r of Inl e \<Rightarrow> Some (Inl e, s) | Inr pfork \<Rightarrow>
      Option.bind (path (tree s) pfork best) (\<lambda>r. case r of Inl e \<Rightarrow> Some (Inl e, s) | Inr vDisconnect \<Rightarrow>
      Option.bind (path (tree s) pfork (Some pindexNew)) (\<lambda>r. case r of Inl e \<Rightarrow> Some (Inl e, s) | Inr vBranch \<Rightarrow>
        Some (case disconnect_loop E (tree s) (undo_file s) vDisconnect v of Inl e \<Rightarrow> (Inl e, s)
         | Inr v \<Rightarrow>
            (case connect_loop E (tree s) (rev vBranch) v (sigcache s) (undo_file s) of
               (Inl e, c, undo) \<Rightarrow> (Inl e, s\<lparr>sigcache := c, undo_file := undo\<rparr>)
             | (Inr v, c, undo) \<Rightarrow>
                 commit_chain disk vDisconnect (rev vBranch) pindexNew v (s\<lparr>sigcache := c, undo_file := undo\<rparr>)))))))"

section \<open>Accepting a block into the tree\<close>

definition GetBlockWork :: "'b bn_lib \<Rightarrow> u32 \<Rightarrow> 'b" where
  "GetBlockWork L bits =
     (let bnTarget = SetCompact L bits in
      if BN_cmp L bnTarget (CBigNum_int L 0) \<le> 0 then CBigNum_int L 0
      else BN_div L (BN_lshift L (CBigNum_int L 1) 256) (BN_add L bnTarget (CBigNum_int L 1)))"

text \<open>
  A new index at the address a; stored is what the block files answer at the position of the block. The
  block index database and ConnectBestBlock are left to the caller.
\<close>

definition AddToBlockIndex :: "'b env \<Rightarrow> CBlock \<Rightarrow> CBlock option \<Rightarrow> nat \<Rightarrow> chain_state \<Rightarrow> (chain_error + unit) \<times> chain_state" where
  "AddToBlockIndex E block stored a s =
     (let hash = header_hash (hashes E) block in
      if mapBlockIndex s hash \<noteq> None then (Inl (Rejected (DoS 0)), s)
      else let miPrev = mapBlockIndex s (hashPrevBlock block);
               work = getuint256 (bn E) (GetBlockWork (bn E) (nBits block));
               n = \<lparr>idx_nHeight = (case miPrev of None \<Rightarrow> 0 | Some p \<Rightarrow> tree_height (tree s) p + 1),
                    idx_nVersion = nBlockVersion block, idx_nTime = nTime block, idx_nBits = nBits block,
                    pprev = miPrev, hashBlock = hash,
                    nChainWork = (case Option.bind miPrev (tree s) of None \<Rightarrow> 0 | Some m \<Rightarrow> nChainWork m) + work,
                    block_file = stored\<rparr>
      in (Inr (), s\<lparr>mapBlockIndex := (mapBlockIndex s)(hash := Some a), tree := (tree s)(a := Some n)\<rparr>))"

text \<open>The entries from an index back to the first block, as the functions on pprev chains take them.\<close>

definition chain_of :: "block_tree \<Rightarrow> nat \<Rightarrow> CBlockIndex list option" where
  "chain_of T i =
     (case path T None (Some i) of Some (Inr is) \<Rightarrow> Some (map (\<lambda>j. CBlockIndex.truncate (the (T j))) is) | _ \<Rightarrow> None)"

definition nMedianTimeSpan :: nat where "nMedianTimeSpan = 11"

definition GetMedianTimePast :: "CBlockIndex list \<Rightarrow> int" where
  "GetMedianTimePast chain =
     (let pmedian = sort (map (\<lambda>n. uint (idx_nTime n)) (take nMedianTimeSpan chain)) in pmedian ! (length pmedian div 2))"

definition IsSuperMajority :: "int \<Rightarrow> CBlockIndex list \<Rightarrow> nat \<Rightarrow> nat \<Rightarrow> bool" where
  "IsSuperMajority minVersion chain nRequired nToCheck = False"

definition nSoftFork :: int where "nSoftFork = 1316550"

text \<open>
  The tests on the block at its place. The hardened checkpoints, the adjusted time and the answer of the
  synchronized checkpoint are arguments.
\<close>

definition accept_checks ::
  "'b env \<Rightarrow> bool \<Rightarrow> (int \<Rightarrow> uint256 \<Rightarrow> bool) \<Rightarrow> int \<Rightarrow> bool \<Rightarrow> CBlock \<Rightarrow> CBlockIndex list \<Rightarrow> int \<Rightarrow> u32 \<Rightarrow> chain_error + unit" where
  "accept_checks E fTestNet CheckpointOk nAdjustedTime syncOk block chain nBest required =
     (let hash = header_hash (hashes E) block; nHeight = idx_nHeight (hd chain) + 1; t = uint (nTime block) in
      if nBits block \<noteq> required then Inl (Rejected (DoS 100))
      else if t \<le> GetMedianTimePast chain then Inl (Rejected (DoS 0))
      else if t > nAdjustedTime + 15 * 60 then Inl Failure
      else if (nHeight \<ge> nSoftFork \<or> fTestNet) \<and> t \<le> uint (idx_nTime (hd chain)) - 15 * 60 then Inl Failure
      else if \<not> list_all (IsFinal nBest nAdjustedTime nHeight t) (vtx block) then Inl (Rejected (DoS 10))
      else if \<not> CheckpointOk nHeight hash then Inl (Rejected (DoS 100))
      else if \<not> syncOk then Inl Failure
      else if nBlockVersion block < 2
          \<and> (\<not> fTestNet \<and> IsSuperMajority 2 chain 950 1000 \<or> fTestNet \<and> IsSuperMajority 2 chain 75 100)
        then Inl (Rejected (DoS 0))
      else if nBlockVersion block \<ge> 2
          \<and> (\<not> fTestNet \<and> IsSuperMajority 2 chain 750 1000 \<or> fTestNet \<and> IsSuperMajority 2 chain 51 100)
          \<and> (let expect = push_int64 (bn E) [] nHeight; sig = scriptSig (vin (vtx block ! 0) ! 0)
             in length sig < length expect \<or> take (length expect) sig \<noteq> expect)
        then Inl (Rejected (DoS 100))
      else Inr ())"

definition AcceptBlock ::
  "'b env \<Rightarrow> bool \<Rightarrow> (int \<Rightarrow> uint256 \<Rightarrow> bool) \<Rightarrow> int \<Rightarrow> bool \<Rightarrow> CBlock \<Rightarrow> CBlock option \<Rightarrow> nat \<Rightarrow> chain_state \<Rightarrow>
    ((chain_error + unit) \<times> chain_state) option" where
  "AcceptBlock E fTestNet CheckpointOk nAdjustedTime syncOk block stored a s =
     (let hash = header_hash (hashes E) block in
      if mapBlockIndex s hash \<noteq> None then Some (Inl (Rejected (DoS 0)), s)
      else if hash = hashGenesisBlock E then Some (AddToBlockIndex E block stored a s)
      else case mapBlockIndex s (hashPrevBlock block) of None \<Rightarrow> Some (Inl (Rejected (DoS 10)), s)
      | Some pindexPrev \<Rightarrow>
        (case chain_of (tree s) pindexPrev of None \<Rightarrow> None
         | Some chain \<Rightarrow>
           (case GetNextWorkRequired (bn E) fTestNet (anchor s) chain (nTime block) of None \<Rightarrow> Some (Inl Assertion, s)
            | Some (required, anc) \<Rightarrow>
                let s = s\<lparr>anchor := anc\<rparr> in
                Some (case accept_checks E fTestNet CheckpointOk nAdjustedTime syncOk block chain (nBestHeight s) required of
                   Inl e \<Rightarrow> (Inl e, s)
                 | Inr u \<Rightarrow> AddToBlockIndex E block stored a s))))"

section \<open>The node as a state machine\<close>

text \<open>
  A run accepts blocks that passed CheckBlock, as ProcessBlock does before, and moves the best chain to any
  block of the tree; it ends with an abort. An address is new, and a height fits in an int.
\<close>

inductive reachable :: "'b env \<Rightarrow> bool \<Rightarrow> (int \<Rightarrow> uint256 \<Rightarrow> bool) \<Rightarrow> chain_state \<Rightarrow> bool"
  for E fTestNet CheckpointOk where
  start: "reachable E fTestNet CheckpointOk no_chain"
| accept: "reachable E fTestNet CheckpointOk s \<Longrightarrow> CheckBlock E block True True = Accept \<Longrightarrow> tree s a = None
    \<Longrightarrow> (\<forall>p. mapBlockIndex s (hashPrevBlock block) = Some p \<longrightarrow> tree_height (tree s) p + 1 < 2 ^ 31)
    \<Longrightarrow> AcceptBlock E fTestNet CheckpointOk nAdjustedTime syncOk block stored a s = Some (r, s')
    \<Longrightarrow> reachable E fTestNet CheckpointOk s'"
| best: "reachable E fTestNet CheckpointOk s \<Longrightarrow> tree s p \<noteq> None \<Longrightarrow> SetBestChain E disk p s = Some (r, s')
    \<Longrightarrow> r \<noteq> Inl Abort \<Longrightarrow> reachable E fTestNet CheckpointOk s'"

end
