(* ===== verification/ChainTree.thy ===== *)
theory ChainTree
  imports Chain
begin

text \<open>
  The tree of blocks and the walks of SetBestChain over it. A line is the list of the indices from one
  back to the root; it is the specification of the walks path and find_fork, which on a well-formed tree
  always end.
\<close>

section \<open>Well-formed trees and lines\<close>

definition node_ok :: "uint256 \<Rightarrow> block_tree \<Rightarrow> block_node \<Rightarrow> bool" where
  "node_ok G T n \<longleftrightarrow> (pprev n = None \<longleftrightarrow> hashBlock n = G) \<and> 0 \<le> idx_nHeight n \<and> idx_nHeight n < 2 ^ 31
     \<and> (case pprev n of None \<Rightarrow> idx_nHeight n = 0
        | Some j \<Rightarrow> (case T j of None \<Rightarrow> False | Some m \<Rightarrow> idx_nHeight n = idx_nHeight m + 1))"

definition tree_ok :: "uint256 \<Rightarrow> block_tree \<Rightarrow> bool" where
  "tree_ok G T \<longleftrightarrow> (\<forall>i n. T i = Some n \<longrightarrow> node_ok G T n)
     \<and> (\<forall>i j n m. T i = Some n \<longrightarrow> T j = Some m \<longrightarrow> hashBlock n = hashBlock m \<longrightarrow> i = j)"

fun line :: "block_tree \<Rightarrow> nat option \<Rightarrow> nat list \<Rightarrow> bool" where
  "line T p [] = (p = None)"
| "line T p (i # is) = (p = Some i \<and> (case T i of None \<Rightarrow> False | Some n \<Rightarrow> line T (pprev n) is))"

lemma line_unique: "line T p xs \<Longrightarrow> line T p ys \<Longrightarrow> xs = ys"
proof (induction xs arbitrary: p ys)
  case Nil
  then show ?case by (cases ys) auto
next
  case (Cons i xs)
  then show ?case by (cases ys) (auto split: option.splits)
qed

lemma line_append: "line T p (xs @ i # ys) \<Longrightarrow> line T (Some i) (i # ys)"
proof (induction xs arbitrary: p)
  case Nil
  then show ?case by auto
next
  case (Cons a xs)
  then have "\<exists>q. line T q (xs @ i # ys)" by (auto split: option.splits)
  then show ?case using Cons.IH by blast
qed

lemma line_head: "line T (Some i) xs \<Longrightarrow> \<exists>n ys. xs = i # ys \<and> T i = Some n \<and> line T (pprev n) ys"
  by (cases xs) (auto split: option.splits)

lemma tree_okD: "tree_ok G T \<Longrightarrow> T i = Some n \<Longrightarrow> node_ok G T n"
  by (auto simp: tree_ok_def)

lemma node_parent:
  assumes "node_ok G T n" "pprev n = Some j"
  obtains m where "T j = Some m" "idx_nHeight n = idx_nHeight m + 1"
  using assms by (auto simp: node_ok_def split: option.splits)

lemma line_length:
  assumes "tree_ok G T"
  shows "line T (Some i) xs \<Longrightarrow> int (length xs) = tree_height T i + 1"
proof (induction xs arbitrary: i)
  case (Cons j xs)
  then obtain n where n: "j = i" "T i = Some n" "line T (pprev n) xs" by (auto split: option.splits)
  note ok = tree_okD [OF assms n(2)]
  show ?case
  proof (cases "pprev n")
    case None
    then show ?thesis using n ok by (cases xs) (auto simp: node_ok_def tree_height_def)
  next
    case (Some k)
    from ok Some obtain m where "T k = Some m" "idx_nHeight n = idx_nHeight m + 1" by (rule node_parent)
    then show ?thesis using Cons.IH [of k] n Some by (simp add: tree_height_def)
  qed
qed simp

lemma line_exists:
  assumes "tree_ok G T" and "T i = Some n"
  shows "\<exists>xs. line T (Some i) xs"
proof -
  have "\<exists>xs. line T (Some i) xs" if "T i = Some n" "nat (idx_nHeight n) = k" for k i n
    using that
  proof (induction k arbitrary: i n)
    case 0
    then have "pprev n = None" using tree_okD [OF assms(1) 0(1)]
      by (auto simp: node_ok_def split: option.splits dest!: tree_okD [OF assms(1)])
    then show ?case using 0 by (intro exI [of _ "[i]"]) simp
  next
    case (Suc k)
    note ok = tree_okD [OF assms(1) Suc.prems(1)]
    show ?case
    proof (cases "pprev n")
      case None
      then show ?thesis using Suc.prems by (intro exI [of _ "[i]"]) simp
    next
      case (Some j)
      from ok Some obtain m where m: "T j = Some m" "idx_nHeight n = idx_nHeight m + 1" by (rule node_parent)
      have "nat (idx_nHeight m) = k" using m(2) Suc.prems(2) tree_okD [OF assms(1) m(1)] by (simp add: node_ok_def)
      with Suc.IH m(1) obtain xs where "line T (Some j) xs" by blast
      then show ?thesis using Some Suc.prems(1) by (intro exI [of _ "i # xs"]) simp
    qed
  qed
  with assms(2) show ?thesis by blast
qed

lemma line_position:
  assumes "tree_ok G T" "line T p xs" "k < length xs"
  shows "int (length xs - k) = tree_height T (xs ! k) + 1" and "line T (Some (xs ! k)) (drop k xs)"
proof -
  have "xs = take k xs @ xs ! k # drop (Suc k) xs" using assms(3) by (simp add: id_take_nth_drop)
  with assms(2) have l: "line T (Some (xs ! k)) (xs ! k # drop (Suc k) xs)" by (metis line_append)
  then show "line T (Some (xs ! k)) (drop k xs)" using assms(3) by (simp add: Cons_nth_drop_Suc)
  from line_length [OF assms(1) this] show "int (length xs - k) = tree_height T (xs ! k) + 1" by simp
qed

lemma line_distinct:
  assumes "tree_ok G T" "line T p xs"
  shows "distinct xs"
  unfolding distinct_conv_nth
proof (intro allI impI)
  fix a b assume ab: "a < length xs" "b < length xs" "a \<noteq> b"
  show "xs ! a \<noteq> xs ! b"
  proof
    assume "xs ! a = xs ! b"
    then have "int (length xs - a) = int (length xs - b)"
      using line_position(1) [OF assms ab(1)] line_position(1) [OF assms ab(2)] by simp
    then show False using ab by simp
  qed
qed

section \<open>The walks\<close>

lemma path_line:
  "line T p (xs @ ys) \<Longrightarrow> line T stop ys \<Longrightarrow> (\<forall>x \<in> set xs. stop \<noteq> Some x) \<Longrightarrow> path T stop p = Some (Inr xs)"
proof (induction xs arbitrary: p)
  case Nil
  then have "p = stop"
    by (cases ys) auto
  then show ?case by (simp add: path.simps)
next
  case (Cons i xs)
  then obtain n where "p = Some i" "T i = Some n" "line T (pprev n) (xs @ ys)" by (auto split: option.splits)
  with Cons show ?case by (subst path.simps) auto
qed

lemma climb_line:
  assumes "tree_ok G T" and "0 \<le> h"
  shows "line T (Some p) ps \<Longrightarrow> climb T h p = Some (Inr (hd (drop (length ps - (nat h + 1)) ps)))"
proof (induction ps arbitrary: p)
  case (Cons i ps)
  from Cons.prems obtain n where n: "i = p" "T p = Some n" "line T (pprev n) ps" by (auto split: option.splits)
  have len: "int (length ps) = idx_nHeight n"
    using line_length [OF assms(1) Cons.prems] n(1,2) by (simp add: tree_height_def)
  show ?case
  proof (cases "idx_nHeight n > h")
    case False
    then have "length (i # ps) - (nat h + 1) = 0" using len assms(2) by simp
    with False n show ?thesis by (subst climb.simps) simp
  next
    case True
    then have "ps \<noteq> []" using len assms(2) by auto
    then obtain q where q: "pprev n = Some q" using n(3) by (cases ps) auto
    have "nat h < length ps" using True len assms(2) by linarith
    then have "Suc (length ps) - (nat h + 1) = Suc (length ps - (nat h + 1))" by simp
    with True n q Cons.IH [of q] show ?thesis by (subst climb.simps) simp
  qed
qed simp

text \<open>
  The search ends at the last common index: the lines of both ends share a tail that starts there, and
  before it they have nothing in common.
\<close>

lemma find_fork_line:
  assumes "tree_ok G T"
  shows "line T (Some f) fs \<Longrightarrow> line T (Some p) ps \<Longrightarrow>
    \<exists>xs zs r ys. fs = xs @ r # ys \<and> ps = zs @ r # ys \<and> set xs \<inter> set ps = {}
      \<and> find_fork T (Some f) p = Some (Inr (Some r))"
proof (induction fs arbitrary: f p ps)
  case (Cons i fs)
  from Cons.prems(1) obtain n where n: "i = f" "T f = Some n" "line T (pprev n) fs" by (auto split: option.splits)
  show ?case
  proof (cases "f = p")
    case True
    from line_head [OF Cons.prems(2)] obtain ys where ys: "ps = p # ys" by blast
    then have "i # fs = ps" using line_unique [OF Cons.prems(1)] Cons.prems(2) True by metis
    with True n(1) ys show ?thesis by (intro exI [of _ "[]"] exI [of _ f] exI [of _ ys]) (simp add: find_fork.simps)
  next
    case False
    have len: "int (length fs) = idx_nHeight n" "0 \<le> idx_nHeight n"
      using line_length [OF assms Cons.prems(1)] n(1,2) tree_okD [OF assms n(2)] by (simp_all add: tree_height_def node_ok_def)
    define k where "k = length ps - (nat (idx_nHeight n) + 1)"
    have c: "climb T (idx_nHeight n) p = Some (Inr (hd (drop k ps)))"
      unfolding k_def using assms len(2) Cons.prems(2) by (rule climb_line)
    have "ps \<noteq> []" using Cons.prems(2) by auto
    then have k: "k < length ps" by (simp add: k_def)
    define q where "q = ps ! k"
    have q: "hd (drop k ps) = q" "line T (Some q) (drop k ps)" "q \<in> set ps"
      using k line_position(2) [OF assms Cons.prems(2) k] by (simp_all add: q_def hd_drop_conv_nth)
    have at_q: "f = q" if "f \<in> set ps"
    proof -
      obtain j where j: "j < length ps" "ps ! j = f" using \<open>f \<in> set ps\<close> unfolding in_set_conv_nth by blast
      then have "int (length ps - j) = idx_nHeight n + 1"
        using line_position(1) [OF assms Cons.prems(2), of j] n(2) by (simp add: tree_height_def)
      then have "j = k" using j(1) by (simp add: k_def)
      then show ?thesis using j(2) by (simp add: q_def)
    qed
    show ?thesis
    proof (cases "f = q")
      case True
      have "drop k ps = i # fs" using line_unique [OF q(2)] Cons.prems(1) True by metis
      then have "ps = take k ps @ f # fs" using n(1) by (metis append_take_drop_id)
      moreover have "find_fork T (Some f) p = Some (Inr (Some f))"
        using False n(2) c q(1) True by (subst find_fork.simps) simp
      ultimately show ?thesis using n(1) by (intro exI [of _ "[]"] exI [of _ "take k ps"] exI [of _ f] exI [of _ fs]) simp
    next
      case ne: False
      have "pprev n \<noteq> None"
      proof
        assume "pprev n = None"
        then have root: "hashBlock n = G" using tree_okD [OF assms n(2)] by (simp add: node_ok_def)
        have "line T (Some p) (butlast ps @ last ps # [])"
          using Cons.prems(2) \<open>ps \<noteq> []\<close> by simp
        then have "line T (Some (last ps)) [last ps]" by (rule line_append)
        moreover have "last ps \<in> set ps" using \<open>ps \<noteq> []\<close> by simp
        ultimately have "last ps \<in> set ps" "line T (Some (last ps)) [last ps]" by simp_all
        then obtain m where m: "T (last ps) = Some m" "pprev m = None" by (auto split: option.splits)
        then have "hashBlock m = G" using tree_okD [OF assms m(1)] by (simp add: node_ok_def)
        then have "last ps = f" using assms m(1) n(2) root unfolding tree_ok_def by metis
        then show False using at_q \<open>last ps \<in> set ps\<close> ne by simp
      qed
      then obtain g where g: "pprev n = Some g" by blast
      obtain xs zs r ys where IH: "fs = xs @ r # ys" "drop k ps = zs @ r # ys" "set xs \<inter> set (drop k ps) = {}"
        "find_fork T (Some g) q = Some (Inr (Some r))"
        using Cons.IH [OF n(3) [unfolded g] q(2)] by blast
      have "find_fork T (Some f) p = Some (Inr (Some r))"
        using False n(2) c q(1) ne g IH(4) by (subst find_fork.simps) simp
      moreover have "ps = (take k ps @ zs) @ r # ys" using IH(2) by (metis append_take_drop_id append.assoc)
      moreover have "set (f # xs) \<inter> set ps = {}"
      proof -
        have "f \<notin> set ps" using at_q ne by blast
        moreover have "x \<notin> set ps" if "x \<in> set xs" for x
        proof
          assume "x \<in> set ps"
          then obtain j where j: "j < length ps" "ps ! j = x" unfolding in_set_conv_nth by blast
          obtain a where a: "a < length xs" "xs ! a = x" using \<open>x \<in> set xs\<close> unfolding in_set_conv_nth by blast
          have "a < length fs" "fs ! a = x" using a IH(1) by (simp_all add: nth_append)
          with line_position(1) [OF assms n(3), of a] line_position(1) [OF assms Cons.prems(2) j(1)] j
          have "length ps - j = length fs - a" by simp
          then have "j \<ge> k" using j(1) len by (simp add: k_def)
          then have "drop k ps ! (j - k) = x" "j - k < length (drop k ps)" using j by simp_all
          then have "x \<in> set (drop k ps)" by (metis nth_mem)
          with that IH(3) show False by blast
        qed
        ultimately show ?thesis by auto
      qed
      ultimately show ?thesis using IH(1) n(1) by (intro exI [of _ "f # xs"] exI [of _ "take k ps @ zs"] exI [of _ r] exI [of _ ys]) simp
    qed
  qed
qed simp

end
