(* ===== verification/ChainFacts.thy ===== *)
theory ChainFacts
  imports Chain
begin

text \<open>
  The lemmas behind the properties of the best chain: connecting depends only on the unspent outputs, the
  views made on the way are caches of the view behind, and the walks over the tree of blocks end where
  they should.
\<close>

section \<open>Connecting depends only on the unspent outputs\<close>

lemma spend_inputs_live:
  assumes "spend_inputs ins v us = Some (v', us')" and "spend_inputs ins w us = Some (w', ws')"
    and "tidy_view v" and "tidy_view w" and "live_at v = live_at w"
  shows "live_at v' = live_at w' \<and> us' = ws'"
  using assms
proof (induction ins arbitrary: v w us)
  case (Cons i rest)
  let ?t = "outhash (prevout i)"
  obtain c u c' x where 1: "coins_at v ?t = Some c" "tidy c" "Spend c (prevout i) = Some (u, c')"
    "coins_at x = coins_at v" "tidy_view (SetCoins x ?t c')" "spend_inputs rest (SetCoins x ?t c') (us @ [u]) = Some (v', us')"
    using Cons.prems(1,3) by (rule spend_inputs_Cons)
  obtain d u2 d' y where 2: "coins_at w ?t = Some d" "tidy d" "Spend d (prevout i) = Some (u2, d')"
    "coins_at y = coins_at w" "tidy_view (SetCoins y ?t d')" "spend_inputs rest (SetCoins y ?t d') (us @ [u2]) = Some (w', ws')"
    using Cons.prems(2,4) by (rule spend_inputs_Cons)
  have "live (Some c) = live (Some d)" using fun_cong [OF Cons.prems(5), of ?t] 1(1) 2(1) by (simp add: live_at_def)
  then have "c = d" using Spend_live [OF 1(3,2)] Spend_live [OF 2(3,2)] by simp
  then have eq: "u2 = u" "d' = c'" using 1(3) 2(3) by simp_all
  have "live_at (SetCoins x ?t c') = live_at (SetCoins y ?t c')"
    using live_at_cong [OF 1(4)] live_at_cong [OF 2(4)] Cons.prems(5) by simp
  then show ?case using Cons.IH [OF 1(6) _ 1(5) 2(5) [unfolded eq]] 2(6) [unfolded eq] by blast
qed simp

lemma UpdateCoins_live:
  assumes "UpdateCoins tx v h t = Some (v', us)" and "UpdateCoins tx w h t = Some (w', ws)"
    and "tidy_view v" and "tidy_view w" and "live_at v = live_at w"
  shows "live_at v' = live_at w' \<and> us = ws"
proof -
  let ?in = "\<lambda>v. if IsCoinBase tx then Some (v, []) else spend_inputs (vin tx) v []"
  obtain x where x: "?in v = Some (x, us)" "v' = SetCoins x t (CCoins_of tx h)"
    using assms(1) by (auto simp: UpdateCoins_def split: option.splits)
  obtain y where y: "?in w = Some (y, ws)" "w' = SetCoins y t (CCoins_of tx h)"
    using assms(2) by (auto simp: UpdateCoins_def split: option.splits)
  have "live_at x = live_at y \<and> us = ws"
  proof (cases "IsCoinBase tx")
    case True
    then show ?thesis using x(1) y(1) assms(5) by simp
  next
    case False
    then have "spend_inputs (vin tx) v [] = Some (x, us)" "spend_inputs (vin tx) w [] = Some (y, ws)"
      using x(1) y(1) by simp_all
    then show ?thesis using assms(3-5) by (rule spend_inputs_live)
  qed
  with x(2) y(2) show ?thesis by simp
qed

lemma connect_txs_live:
  assumes "connect_txs E H1 h f1 st1 fl1 txs s1 = Inr r1" and "connect_txs E H2 h f2 st2 fl2 txs s2 = Inr r2"
    and "tidy_view (view s1)" and "tidy_view (view s2)" and "live_at (view s1) = live_at (view s2)"
    and "vtxundo s1 = vtxundo s2" and "list_all tx_pays txs" and "0 < h" "h < 2 ^ 31"
  shows "live_at (view r1) = live_at (view r2) \<and> vtxundo r1 = vtxundo r2"
  using assms
proof (induction txs arbitrary: s1 s2)
  case (Cons tx rest)
  from Cons.prems(1) obtain t1 where t1: "connect_tx E H1 h f1 st1 fl1 tx s1 = Inr t1"
    "connect_txs E H1 h f1 st1 fl1 rest t1 = Inr r1" by (auto split: sum.splits)
  from Cons.prems(2) obtain t2 where t2: "connect_tx E H2 h f2 st2 fl2 tx s2 = Inr t2"
    "connect_txs E H2 h f2 st2 fl2 rest t2 = Inr r2" by (auto split: sum.splits)
  have pays: "tx_pays tx" using Cons.prems(7) by simp
  obtain v us where v: "coins_at v = coins_at (view s1)" "UpdateCoins tx v h (tx_hash (hashes E) tx) = Some (view t1, us)"
    "vtxundo t1 = (if IsCoinBase tx then vtxundo s1 else vtxundo s1 @ [us])"
    using t1(1) by (rule connect_tx_Inr)
  obtain w ws where w: "coins_at w = coins_at (view s2)" "UpdateCoins tx w h (tx_hash (hashes E) tx) = Some (view t2, ws)"
    "vtxundo t2 = (if IsCoinBase tx then vtxundo s2 else vtxundo s2 @ [ws])"
    using t2(1) by (rule connect_tx_Inr)
  have tidy: "tidy_view v" "tidy_view w" using Cons.prems(3,4) tidy_view_cong [OF v(1)] tidy_view_cong [OF w(1)] by simp_all
  have "live_at v = live_at w" using Cons.prems(5) live_at_cong [OF v(1)] live_at_cong [OF w(1)] by simp
  from UpdateCoins_live [OF v(2) w(2) tidy this] have "live_at (view t1) = live_at (view t2)" "us = ws" by simp_all
  moreover have "tidy_view (view t1)" "tidy_view (view t2)"
    using UpdateCoins_facts(1) [OF v(2) tidy(1) pays Cons.prems(8,9)] UpdateCoins_facts(1) [OF w(2) tidy(2) pays Cons.prems(8,9)]
    by simp_all
  moreover have "vtxundo t1 = vtxundo t2" using v(3) w(3) Cons.prems(6) \<open>us = ws\<close> by simp
  ultimately show ?case using Cons.IH [OF t1(2) t2(2)] Cons.prems(7-9) by simp
qed simp

lemma ConnectBlock_genesis:
  assumes "ConnectBlock E heights block i h t pp False v c = (Accept, v', c', u)"
    and "header_hash (hashes E) block = hashGenesisBlock E"
  shows "coins_at v' = coins_at v"
  using assms GetBestBlock_same [of v]
  by (auto simp: ConnectBlock_def split: if_splits prod.splits)

text \<open>Two connections of one block over the same unspent outputs have the same effect.\<close>

lemma ConnectBlock_live:
  assumes "ConnectBlock E H1 block i h t pp False v c1 = (Accept, v', c1', u1)"
    and "ConnectBlock E H2 block i h t pp False w c2 = (Accept, w', c2', u2)"
    and "tidy_view v" and "tidy_view w" and "live_at v = live_at w"
    and "header_hash (hashes E) block \<noteq> hashGenesisBlock E" and "0 < h" "h < 2 ^ 31"
  shows "live_at v' = live_at w' \<and> u1 = u2"
proof -
  obtain x strict1 f1 flags1 s1 where 1: "coins_at x = coins_at v"
    "connect_txs E H1 h f1 strict1 flags1 (vtx block) \<lparr>view = x, sigs = c1, nFees = 0, nSigOps = 0, vtxundo = []\<rparr> = Inr s1"
    "v' = SetBestBlock (view s1) (Some i)" "u1 = vtxundo s1" and ck: "CheckBlock E block True True = Accept"
    using ConnectBlock_Accept [OF assms(1,6)] by metis
  obtain y strict2 f2 flags2 s2 where 2: "coins_at y = coins_at w"
    "connect_txs E H2 h f2 strict2 flags2 (vtx block) \<lparr>view = y, sigs = c2, nFees = 0, nSigOps = 0, vtxundo = []\<rparr> = Inr s2"
    "w' = SetBestBlock (view s2) (Some i)" "u2 = vtxundo s2"
    using ConnectBlock_Accept [OF assms(2,6)] by metis
  obtain cb rest where "vtx block = cb # rest" "tx_pays cb" "list_all (\<lambda>tx. tx_pays tx \<and> \<not> IsCoinBase tx) rest"
    using ck by (rule CheckBlock_Accept)
  then have pays: "list_all tx_pays (vtx block)" by (auto simp: list_all_iff)
  have "live_at x = live_at y" "tidy_view x" "tidy_view y"
    using assms(3-5) live_at_cong [OF 1(1)] live_at_cong [OF 2(1)] tidy_view_cong [OF 1(1)] tidy_view_cong [OF 2(1)] by simp_all
  then have "live_at (view s1) = live_at (view s2) \<and> vtxundo s1 = vtxundo s2"
    using connect_txs_live [OF 1(2) 2(2)] pays assms(7,8) by simp
  then show ?thesis unfolding 1(3,4) 2(3,4) using live_at_cong [OF coins_at_SetBestBlock] by metis
qed

section \<open>The views made on the way\<close>

lemma behind_GetCoins: "GetCoins v t = Some (c, v') \<Longrightarrow> behind f v \<Longrightarrow> behind f v'"
  by (auto simp: GetCoins_def split: prod.splits option.splits intro: behind_FetchCoins)

lemma behind_GetOutputFor: "GetOutputFor i v = Some (q, v') \<Longrightarrow> behind f v \<Longrightarrow> behind f v'"
  by (auto simp: GetOutputFor_def split: option.splits if_splits intro: behind_GetCoins)

lemma behind_value_in_loop: "value_in_loop ins v acc = Some (r, v') \<Longrightarrow> behind f v \<Longrightarrow> behind f v'"
  by (induction ins arbitrary: v acc) (auto split: option.splits dest!: behind_GetOutputFor)

lemma behind_p2sh: "p2sh_sigops_loop ins v k = Some (r, v') \<Longrightarrow> behind f v \<Longrightarrow> behind f v'"
  by (induction ins arbitrary: v k) (auto split: option.splits dest!: behind_GetOutputFor)

lemma behind_have_txs: "have_txs ins v = (ok, v') \<Longrightarrow> behind f v \<Longrightarrow> behind f v'"
proof (induction ins arbitrary: v)
  case (Cons i rest)
  obtain r w where "FetchCoins v (outhash (prevout i)) = (r, w)" by (cases "FetchCoins v (outhash (prevout i))")
  moreover from this have "behind f w" using Cons.prems(2) by (rule behind_FetchCoins [rotated])
  ultimately show ?case using Cons by (auto simp: HaveCoins_def split: if_splits)
qed simp

lemma behind_have_outputs: "have_outputs ins v = Some (ok, v') \<Longrightarrow> behind f v \<Longrightarrow> behind f v'"
  by (induction ins arbitrary: v) (auto split: option.splits if_splits dest!: behind_GetCoins)

lemma behind_HaveInputs: "HaveInputs tx v = Some (ok, v') \<Longrightarrow> behind f v \<Longrightarrow> behind f v'"
  by (auto simp: HaveInputs_def split: if_splits prod.splits dest!: behind_have_txs behind_have_outputs)

lemma behind_check_in_values: "check_in_values ins h v acc = (r, v') \<Longrightarrow> behind f v \<Longrightarrow> behind f v'"
  by (induction ins arbitrary: v acc) (auto simp: Let_def split: option.splits if_splits dest!: behind_GetCoins)

lemma behind_check_scripts: "check_scripts E tx flags is v c = (r, v', c') \<Longrightarrow> behind f v \<Longrightarrow> behind f v'"
  by (induction "is" arbitrary: v c) (auto split: option.splits if_splits prod.splits dest!: behind_GetCoins)

lemma behind_GetBestBlock: "GetBestBlock v = (b, v') \<Longrightarrow> behind f v \<Longrightarrow> behind f v'"
  by (auto simp: GetBestBlock_def Let_def behind_def split: if_splits)

lemma behind_SetBestBlock: "behind f (SetBestBlock v p) \<longleftrightarrow> behind f v"
  by (simp add: SetBestBlock_def behind_def)

lemma behind_CheckInputs: "CheckInputs E heights tx v fs flags c = (r, v', c') \<Longrightarrow> behind f v \<Longrightarrow> behind f v'"
  by (auto simp: CheckInputs_def Let_def split: if_splits option.splits prod.splits sum.splits
      dest!: behind_HaveInputs behind_GetBestBlock behind_check_in_values behind_check_scripts)

lemma behind_bip30: "bip30 hs v = (ok, v') \<Longrightarrow> behind f v \<Longrightarrow> behind f v'"
proof (induction hs arbitrary: v)
  case (Cons h hs)
  obtain r w where "FetchCoins v h = (r, w)" by (cases "FetchCoins v h")
  moreover from this have "behind f w" using Cons.prems(2) by (rule behind_FetchCoins [rotated])
  ultimately show ?case using Cons by (auto split: option.splits if_splits)
qed simp

lemma behind_connect_tx:
  assumes "connect_tx E heights h fs strict flags tx s = Inr s'" and "behind f (view s)"
  shows "behind f (view s')"
proof (cases "IsCoinBase tx")
  case True
  then show ?thesis using assms
    by (auto simp: connect_tx_def Let_def split: if_splits option.splits intro: behind_UpdateCoins)
next
  case False
  from assms(1) False obtain v1 k v2 nin v3 c v4 us where
    1: "HaveInputs tx (view s) = Some (True, v1)"
    and 2: "(if strict then GetP2SHSigOpCount tx v1 else Some (0, v1)) = Some (k, v2)"
    and 3: "GetValueIn tx v2 = Some (nin, v3)"
    and 4: "CheckInputs E heights tx v3 fs flags (sigs s) = (Accept, v4, c)"
    and 5: "UpdateCoins tx v4 h (tx_hash (hashes E) tx) = Some (view s', us)"
    by (auto simp: connect_tx_def Let_def split: if_splits option.splits sum.splits prod.splits)
  have "behind f v1" using 1 assms(2) by (rule behind_HaveInputs)
  then have "behind f v2" using 2 False by (auto simp: GetP2SHSigOpCount_def split: if_splits intro: behind_p2sh)
  then have "behind f v3" using 3 False by (auto simp: GetValueIn_def intro: behind_value_in_loop)
  with 4 have "behind f v4" by (rule behind_CheckInputs)
  with 5 show ?thesis by (rule behind_UpdateCoins)
qed

lemma behind_connect_txs:
  "connect_txs E heights h fs strict flags txs s = Inr s' \<Longrightarrow> behind f (view s) \<Longrightarrow> behind f (view s')"
  by (induction txs arbitrary: s) (auto split: sum.splits dest: behind_connect_tx)

lemma behind_ConnectBlock:
  assumes "ConnectBlock E heights block i h t pp False v c = (Accept, v', c', u)" and "behind f v"
  shows "behind f v'" and "fst (GetBestBlock v) = pp" and "pindexTip v' = Some i"
proof -
  obtain best v1 where b: "GetBestBlock v = (best, v1)" by (cases "GetBestBlock v")
  obtain ok w where w: "bip30 (map (tx_hash (hashes E)) (vtx block)) v1 = (ok, w)"
    by (cases "bip30 (map (tx_hash (hashes E)) (vtx block)) v1")
  have v1: "behind f v1" using b assms(2) by (rule behind_GetBestBlock)
  have fw: "behind f w" using w v1 by (rule behind_bip30)
  have "behind f v' \<and> best = pp \<and> pindexTip v' = Some i"
  proof (cases "header_hash (hashes E) block = hashGenesisBlock E")
    case True
    then show ?thesis using assms(1) b v1
      by (auto simp: ConnectBlock_def behind_SetBestBlock split: if_splits) (simp_all add: SetBestBlock_def)
  next
    case False
    then show ?thesis using assms(1) b w fw
      by (auto simp: ConnectBlock_def Let_def behind_SetBestBlock split: if_splits option.splits sum.splits
        dest!: behind_connect_txs [where f = f] connect_txs_Inl) (simp_all add: SetBestBlock_def)
  qed
  with b show "behind f v'" and "fst (GetBestBlock v) = pp" and "pindexTip v' = Some i" by simp_all
qed

lemma behind_restore_inputs: "restore_inputs xs v ok = (v', ok') \<Longrightarrow> behind f v \<Longrightarrow> behind f v'"
proof (induction xs arbitrary: v ok)
  case (Cons x xs)
  obtain i u where x: "x = (i, u)" by (cases x)
  obtain r w where w: "FetchCoins v (outhash (prevout i)) = (r, w)" by (cases "FetchCoins v (outhash (prevout i))")
  then have "behind f (SetCoins w (outhash (prevout i)) c)" for c
    using Cons.prems(2) behind_FetchCoins behind_SetCoins by blast
  then show ?case using Cons.prems(1) w x by (auto split: prod.splits intro: Cons.IH)
qed simp

lemma behind_disconnect_tx: "disconnect_tx t h tx u v ok = Some (v', ok') \<Longrightarrow> behind f v \<Longrightarrow> behind f v'"
proof -
  assume d: "disconnect_tx t h tx u v ok = Some (v', ok')" and f: "behind f v"
  obtain r w where w: "FetchCoins v t = (r, w)" by (cases "FetchCoins v t")
  then have "behind f (SetCoins w t CCoins_new)" using f behind_FetchCoins behind_SetCoins by blast
  with d w show ?thesis
    by (auto simp: disconnect_tx_def Let_def split: option.splits if_splits dest: behind_restore_inputs [where f = f])
qed

lemma behind_disconnect_txs: "disconnect_txs H h xs v ok = Some (v', ok') \<Longrightarrow> behind f v \<Longrightarrow> behind f v'"
  by (induction H h xs v ok rule: disconnect_txs.induct) (auto split: option.splits dest: behind_disconnect_tx [where f = f])

lemma behind_DisconnectBlock: "DisconnectBlock H txs h pp u v = Some (v', ok) \<Longrightarrow> behind f v \<Longrightarrow> behind f v'"
  by (auto simp: DisconnectBlock_def behind_SetBestBlock split: option.splits if_splits dest: behind_disconnect_txs [where f = f])

end
