(* ===== verification/BestChain.thy ===== *)
theory BestChain
  imports ChainTree ChainFacts
begin

text \<open>
  The best chain of the node. The specification is replay: the unspent outputs that come from connecting
  the blocks of a branch one after the other, from none. Whatever a node has gone through, its coin
  database is the replay of its best chain.
\<close>

section \<open>Replaying a branch\<close>

text \<open>Connecting the block of an index over given unspent outputs: the view it leaves and its undo data.\<close>

definition connects ::
  "'b env \<Rightarrow> block_tree \<Rightarrow> nat \<Rightarrow> (uint256 \<Rightarrow> CCoins option) \<Rightarrow> coins_view \<Rightarrow> CBlockUndo \<Rightarrow> bool" where
  "connects E T i L v' u \<longleftrightarrow> (\<exists>n b v c c' heights. T i = Some n \<and> ReadFromDisk E n = Some b \<and> tidy_view v \<and> live_at v = L
     \<and> (\<forall>j. pprev n = Some j \<longrightarrow> heights j = tree_height T j)
     \<and> ConnectBlock E heights b i (idx_nHeight n) (idx_nTime n) (pprev n) False v c = (Accept, v', c', u))"

inductive replay :: "'b env \<Rightarrow> block_tree \<Rightarrow> nat option \<Rightarrow> (uint256 \<Rightarrow> CCoins option) \<Rightarrow> bool"
  for E T where
  "replay E T None (\<lambda>_. None)"
| "replay E T (Option.bind (T i) pprev) L \<Longrightarrow> connects E T i L v' u \<Longrightarrow> replay E T (Some i) (live_at v')"

inductive_cases replay_None: "replay E T None L"
inductive_cases replay_Some: "replay E T (Some i) L"

lemma ReadFromDisk_hash: "ReadFromDisk E n = Some b \<Longrightarrow> header_hash (hashes E) b = hashBlock n"
  by (auto simp: ReadFromDisk_def split: option.splits if_splits)

lemma node_not_first:
  assumes "tree_ok G T" "T i = Some n" "hashBlock n \<noteq> G"
  shows "0 < idx_nHeight n" and "idx_nHeight n < 2 ^ 31"
proof -
  note ok = tree_okD [OF assms(1,2)]
  then obtain j where j: "pprev n = Some j" using assms(3) by (auto simp: node_ok_def)
  from ok j obtain m where m: "T j = Some m" "idx_nHeight n = idx_nHeight m + 1" by (rule node_parent)
  then show "0 < idx_nHeight n" using tree_okD [OF assms(1) m(1)] by (simp add: node_ok_def)
  show "idx_nHeight n < 2 ^ 31" using ok by (simp add: node_ok_def)
qed

lemma connects_genesis:
  assumes "connects E T i L v' u" and "T i = Some n" and "hashBlock n = hashGenesisBlock E"
  shows "live_at v' = L" and "tidy_view v'"
proof -
  obtain b v c c' heights where "ReadFromDisk E n = Some b" "tidy_view v" "live_at v = L"
    "ConnectBlock E heights b i (idx_nHeight n) (idx_nTime n) (pprev n) False v c = (Accept, v', c', u)"
    using assms(1,2) unfolding connects_def by auto
  moreover from this have "coins_at v' = coins_at v" using ConnectBlock_genesis ReadFromDisk_hash assms(3) by metis
  ultimately show "live_at v' = L" and "tidy_view v'" using live_at_cong tidy_view_cong by metis+
qed

lemma connects_block:
  assumes ok: "tree_ok (hashGenesisBlock E) T" and c: "connects E T i L v' u" and n: "T i = Some n"
    and h: "hashBlock n \<noteq> hashGenesisBlock E"
  obtains b v where "ReadFromDisk E n = Some b" "live_at v = L" "tidy_view v'"
    "money_supply v' \<le> money_supply v + GetBlockValue (idx_nHeight n) 0"
    "\<And>x kept. stores disk_version x (live_at v') \<Longrightarrow> list_all2 (list_all2 (undo_stored_as disk_version)) kept u \<Longrightarrow>
      \<exists>x'. DisconnectBlock (tx_hash (hashes E)) (vtx b) (idx_nHeight n) (pprev n) (Some kept) x
        = Some (x', True) \<and> stores disk_version x' L \<and> pindexTip x' = pprev n \<and> (tidy_view x \<longrightarrow> tidy_view x')"
proof -
  obtain b v c c' heights where 1: "ReadFromDisk E n = Some b" "tidy_view v" "live_at v = L"
    "ConnectBlock E heights b i (idx_nHeight n) (idx_nTime n) (pprev n) False v c = (Accept, v', c', u)"
    using c n unfolding connects_def by auto
  have "header_hash (hashes E) b \<noteq> hashGenesisBlock E" using h ReadFromDisk_hash [OF 1(1)] by simp
  note eff = ConnectBlock_effect [OF 1(4) this 1(2) node_not_first [OF ok n h]]
  show ?thesis using that [OF 1(1,3) eff(1,2)] eff(3) [OF disk.version_kept_axioms] 1(3) by simp
qed

lemma connects_tidy:
  assumes "tree_ok (hashGenesisBlock E) T" and "connects E T i L v' u"
  shows "tidy_view v'"
proof -
  obtain n where n: "T i = Some n" using assms(2) by (auto simp: connects_def)
  show ?thesis
  proof (cases "hashBlock n = hashGenesisBlock E")
    case True
    then show ?thesis using connects_genesis(2) [OF assms(2) n] by blast
  next
    case False
    show ?thesis by (rule connects_block [OF assms n False])
  qed
qed

lemma connects_unique:
  assumes ok: "tree_ok (hashGenesisBlock E) T" and 1: "connects E T i L v1 u1" and 2: "connects E T i L v2 u2"
    and n: "T i = Some n"
  shows "live_at v1 = live_at v2" and "hashBlock n \<noteq> hashGenesisBlock E \<Longrightarrow> u1 = u2"
proof -
  have "live_at v1 = live_at v2 \<and> (hashBlock n \<noteq> hashGenesisBlock E \<longrightarrow> u1 = u2)"
  proof (cases "hashBlock n = hashGenesisBlock E")
    case True
    then show ?thesis using connects_genesis(1) [OF 1 n] connects_genesis(1) [OF 2 n] by simp
  next
    case False
    obtain b v c c' heights where a: "ReadFromDisk E n = Some b" "tidy_view v" "live_at v = L"
      "ConnectBlock E heights b i (idx_nHeight n) (idx_nTime n) (pprev n) False v c = (Accept, v1, c', u1)"
      using 1 n unfolding connects_def by auto
    obtain w d d' heights' where b: "tidy_view w" "live_at w = L"
      "ConnectBlock E heights' b i (idx_nHeight n) (idx_nTime n) (pprev n) False w d = (Accept, v2, d', u2)"
      using 2 n a(1) unfolding connects_def by auto
    have "header_hash (hashes E) b \<noteq> hashGenesisBlock E" using False ReadFromDisk_hash [OF a(1)] by simp
    from ConnectBlock_live [OF a(4) b(3) a(2) b(1) _ this node_not_first [OF ok n False]] a(3) b(2)
    show ?thesis by simp
  qed
  then show "live_at v1 = live_at v2" and "hashBlock n \<noteq> hashGenesisBlock E \<Longrightarrow> u1 = u2" by simp_all
qed

lemma replay_unique:
  assumes "tree_ok (hashGenesisBlock E) T"
  shows "replay E T p L \<Longrightarrow> replay E T p L' \<Longrightarrow> L = L'"
proof (induction arbitrary: L' rule: replay.induct)
  case 1
  then show ?case by (rule replay_None) simp
next
  case (2 i L v' u)
  from 2(4) obtain M w w' where M: "replay E T (Option.bind (T i) pprev) M" "connects E T i M w w'" "L' = live_at w"
    by (rule replay_Some) auto
  have "M = L" using 2(3) [OF M(1)] by simp
  moreover obtain n where "T i = Some n" using 2(2) by (auto simp: connects_def)
  ultimately show ?case using connects_unique(1) [OF assms 2(2)] M(2,3) by metis
qed

text \<open>A replay as a view of its own: nothing in it is pruned, and everything is tidy.\<close>

lemma live_live [simp]: "live (live c) = live c"
  by (auto simp: live_def split: option.splits)

lemma replay_view:
  assumes "tree_ok (hashGenesisBlock E) T" "replay E T p L"
  shows "live_at (CCoinsViewCache L q) = L" and "tidy_view (CCoinsViewCache L q)" and "fst (GetBestBlock (CCoinsViewCache L q)) = q"
proof -
  have at: "coins_at (CCoinsViewCache L q) = L" by (rule ext) (simp add: CCoinsViewCache_def coins_at_def)
  have "(\<forall>t. live (L t) = L t) \<and> (\<forall>t c. L t = Some c \<longrightarrow> tidy c)"
    using assms(2)
  proof (cases rule: replay.cases)
    case 1
    then show ?thesis by (simp add: live_def)
  next
    case (2 i L' v' u)
    have "tidy_view v'" using assms(1) 2(4) by (rule connects_tidy)
    then show ?thesis unfolding 2(2) by (auto simp: live_at_def live_def tidy_view_def split: option.splits if_splits)
  qed
  then show "live_at (CCoinsViewCache L q) = L" and "tidy_view (CCoinsViewCache L q)"
    by (auto simp: live_at_def at tidy_view_def fun_eq_iff)
  show "fst (GetBestBlock (CCoinsViewCache L q)) = q" by (simp add: GetBestBlock_def CCoinsViewCache_def Let_def)
qed

section \<open>The money of a branch\<close>

definition live_supply :: "(uint256 \<Rightarrow> CCoins option) \<Rightarrow> int" where
  "live_supply L = (\<Sum>t\<in>UNIV. case L t of None \<Rightarrow> 0 | Some c \<Rightarrow> coins_value c)"

lemma supply_live: "money_supply v = live_supply (live_at v)"
proof -
  have "value_at v t = (case live_at v t of None \<Rightarrow> 0 | Some c \<Rightarrow> coins_value c)" for t
    using live_None_value [of v t] by (auto simp: value_at_def live_at_def live_def split: option.splits if_splits)
  then show ?thesis by (simp add: money_supply_def live_supply_def)
qed

text \<open>The version of coins is no money.\<close>

lemma stores_supply: "stores g v L \<Longrightarrow> money_supply v = live_supply L"
proof -
  assume s: "stores g v L"
  have "coins_value (with_version g c) = coins_value c" for c by (simp add: coins_value_def)
  then have "(case a of None \<Rightarrow> 0 | Some c \<Rightarrow> coins_value c) = (case b of None \<Rightarrow> 0 | Some c \<Rightarrow> coins_value c)"
    if "stored_as g a b" for a b using that by (auto simp: stored_as_def split: option.splits)
  with s show ?thesis unfolding supply_live live_supply_def stores_def by (metis (no_types, lifting))
qed

lemma replay_supply:
  assumes "tree_ok (hashGenesisBlock E) T"
  shows "replay E T p L \<Longrightarrow> live_supply L \<le> (case p of None \<Rightarrow> 0 | Some i \<Rightarrow> total_subsidy (nat (tree_height T i) + 1))"
proof (induction rule: replay.induct)
  case 1
  then show ?case by (simp add: live_supply_def)
next
  case (2 i L v' u)
  obtain n where n: "T i = Some n" using 2(2) by (auto simp: connects_def)
  note ok = tree_okD [OF assms n]
  show ?case
  proof (cases "hashBlock n = hashGenesisBlock E")
    case True
    then have "pprev n = None" using ok by (simp add: node_ok_def)
    then have "L = (\<lambda>_. None)" using 2(1) n by (auto elim: replay_None)
    then have "live_supply L = 0" by (simp add: live_supply_def)
    moreover have "0 \<le> total_subsidy k" for k unfolding total_subsidy_def by (intro sum_nonneg) (simp add: GetBlockValue_eq COIN_def pos_imp_zdiv_nonneg_iff)
    ultimately show ?thesis using connects_genesis(1) [OF 2(2) n True] by simp
  next
    case False
    then obtain j where j: "pprev n = Some j" using ok by (auto simp: node_ok_def)
    from ok j obtain m where m: "T j = Some m" "idx_nHeight n = idx_nHeight m + 1" by (rule node_parent)
    have h: "0 \<le> idx_nHeight m" using tree_okD [OF assms m(1)] by (simp add: node_ok_def)
    obtain b v where v: "live_at v = L" "money_supply v' \<le> money_supply v + GetBlockValue (idx_nHeight n) 0"
      by (rule connects_block [OF assms 2(2) n False])
    have "live_supply L \<le> total_subsidy (nat (idx_nHeight m) + 1)" using 2(3) n j m(1) by (simp add: tree_height_def)
    moreover have "total_subsidy (nat (idx_nHeight n) + 1) = total_subsidy (nat (idx_nHeight m) + 1) + GetBlockValue (idx_nHeight n) 0"
      using m(2) h by (simp add: total_subsidy_def nat_add_distrib add.commute)
    ultimately show ?thesis using v n by (simp add: supply_live tree_height_def)
  qed
qed

section \<open>Disconnecting and connecting branches\<close>

text \<open>The undo data on disk is what the disk keeps of what connecting the block over its branch leaves.\<close>

definition undo_ok :: "'b env \<Rightarrow> block_tree \<Rightarrow> (nat \<Rightarrow> CBlockUndo option) \<Rightarrow> bool" where
  "undo_ok E T undo \<longleftrightarrow> (\<forall>i u. undo i = Some u \<longrightarrow> Option.bind (T i) pprev \<noteq> None
     \<and> (\<exists>L v' w. replay E T (Option.bind (T i) pprev) L \<and> connects E T i L v' w
       \<and> list_all2 (list_all2 (undo_stored_as disk_version)) u w))"

text \<open>A view at the end of a branch: its replay, up to versions that the disk has lost.\<close>

definition at_end :: "'b env \<Rightarrow> block_tree \<Rightarrow> nat option \<Rightarrow> coins_view \<Rightarrow> bool" where
  "at_end E T p v \<longleftrightarrow> tidy_view v \<and> fst (GetBestBlock v) = p \<and> (\<exists>L. replay E T p L \<and> stores disk_version v L)"

text \<open>Every block of a branch but the first has its undo data.\<close>

definition undo_for :: "block_tree \<Rightarrow> (nat \<Rightarrow> CBlockUndo option) \<Rightarrow> nat list \<Rightarrow> bool" where
  "undo_for T undo is \<longleftrightarrow> (\<forall>i \<in> set is. Option.bind (T i) pprev \<noteq> None \<longrightarrow> undo i \<noteq> None)"

lemma best_SetTip: "pindexTip v = Some i \<Longrightarrow> fst (GetBestBlock v) = Some i"
  by (simp add: GetBestBlock_def)

lemma at_end_cong:
  assumes "at_end E T p v" and "GetBestBlock v = (b, w)"
  shows "b = p" and "tidy_view w" and "\<exists>L. replay E T p L \<and> stores disk_version w L"
  using assms tidy_view_cong [OF GetBestBlock_same] stores_cong [OF GetBestBlock_same] by (auto simp: at_end_def)

lemma disconnect_loop_ok:
  assumes ok: "tree_ok (hashGenesisBlock E) T" and undo: "undo_ok E T undo"
  shows "line T p (xs @ r # ys) \<Longrightarrow> at_end E T p v \<Longrightarrow> undo_for T undo (xs @ r # ys) \<Longrightarrow> behind f v \<Longrightarrow>
    pindexTip v = p \<Longrightarrow>
    \<exists>v'. disconnect_loop E T undo xs v = Inr v' \<and> at_end E T (Some r) v' \<and> behind f v' \<and> pindexTip v' = Some r"
proof (induction xs arbitrary: p v)
  case Nil
  then show ?case by auto
next
  case (Cons i xs)
  from Cons.prems(1) obtain n where n: "p = Some i" "T i = Some n" "line T (pprev n) (xs @ r # ys)"
    by (auto split: option.splits)
  obtain j where j: "pprev n = Some j" using n(3) by (cases xs) auto
  have h: "hashBlock n \<noteq> hashGenesisBlock E" using tree_okD [OF ok n(2)] j by (simp add: node_ok_def)
  obtain u where u: "undo i = Some u" using Cons.prems(3) n(2) j by (auto simp: undo_for_def)
  obtain L w x where L: "replay E T (Some j) L" "connects E T i L w x" "list_all2 (list_all2 (undo_stored_as disk_version)) u x"
    using undo u n(2) j unfolding undo_ok_def by fastforce
  have "replay E T (Some i) (live_at w)" using replay.intros(2) [of E T i L w x] L n(2) j by simp
  moreover obtain b v1 where best: "GetBestBlock v = (b, v1)" by (cases "GetBestBlock v")
  moreover note at = at_end_cong [OF Cons.prems(2) best]
  ultimately have live: "stores disk_version v1 (live_at w)" using replay_unique [OF ok] n(1) by metis
  obtain blk where blk: "ReadFromDisk E n = Some blk"
    "\<And>y. stores disk_version y (live_at w) \<Longrightarrow>
      \<exists>x'. DisconnectBlock (tx_hash (hashes E)) (vtx blk) (idx_nHeight n) (pprev n) (Some u) y
        = Some (x', True) \<and> stores disk_version x' L \<and> pindexTip x' = pprev n \<and> (tidy_view y \<longrightarrow> tidy_view x')"
    by (rule connects_block [OF ok L(2) n(2) h]) (use L(3) in blast)
  obtain v2 where v2: "DisconnectBlock (tx_hash (hashes E)) (vtx blk) (idx_nHeight n) (pprev n) (undo i) v1 = Some (v2, True)"
    "stores disk_version v2 L" "pindexTip v2 = pprev n" "tidy_view v2"
    using blk(2) [OF live] at(2) u by auto
  have "behind f v1" using best Cons.prems(4) by (rule behind_GetBestBlock)
  with v2(1) have f: "behind f v2" by (rule behind_DisconnectBlock)
  have "at_end E T (Some j) v2" using v2 L(1) j best_SetTip by (auto simp: at_end_def)
  from Cons.IH [OF n(3) [unfolded j] this _ f] v2(3) j Cons.prems(3) obtain v' where
    "disconnect_loop E T undo xs v2 = Inr v'" "at_end E T (Some r) v'" "behind f v'" "pindexTip v' = Some r"
    by (auto simp: undo_for_def)
  then show ?case using n(1,2) blk(1) best at(1) v2(1) by simp
qed

lemma undo_for_mono: "undo_for T undo is \<Longrightarrow> (\<forall>i. undo i \<noteq> None \<longrightarrow> undo' i \<noteq> None) \<Longrightarrow> undo_for T undo' is"
  by (auto simp: undo_for_def)

text \<open>A block that ConnectBlock accepts at the end of the branch of its parent, whatever the caches hold.\<close>

definition acceptable :: "'b env \<Rightarrow> block_tree \<Rightarrow> nat \<Rightarrow> bool" where
  "acceptable E T i \<longleftrightarrow> (\<exists>n b. T i = Some n \<and> ReadFromDisk E n = Some b
     \<and> (\<forall>v c. at_end E T (pprev n) v \<longrightarrow>
          fst (ConnectBlock E (tree_height T) b i (idx_nHeight n) (idx_nTime n) (pprev n) False v c) = Accept))"

lemma undo_stored_on_disk:
  "list_all2 (list_all2 (undo_stored_as disk_version)) u w \<Longrightarrow>
    list_all2 (list_all2 (undo_stored_as disk_version)) (map (map disk_undo) u) w"
proof -
  have "undo_stored_as disk_version (disk_undo a) b" if "undo_stored_as disk_version a b" for a b
    using that by (auto simp: undo_stored_as_def disk_undo_def with_undo_version_def)
  then show "list_all2 (list_all2 (undo_stored_as disk_version)) u w \<Longrightarrow> ?thesis"
    by (auto simp: list_all2_conv_all_nth)
qed

lemma connect_loop_ok:
  assumes ok: "tree_ok (hashGenesisBlock E) T"
  shows "line T q (rev is @ ys) \<Longrightarrow> line T p ys \<Longrightarrow> at_end E T p v \<Longrightarrow> undo_ok E T undo \<Longrightarrow> behind f v \<Longrightarrow> pindexTip v = p \<Longrightarrow>
    connect_loop E T is v c undo = (r, c', undo') \<Longrightarrow>
    undo_ok E T undo' \<and> (\<forall>i. undo i \<noteq> None \<longrightarrow> undo' i \<noteq> None) \<and>
    (case r of Inl e \<Rightarrow> e \<noteq> Assertion \<and> e \<noteq> Failure | Inr v' \<Rightarrow> at_end E T q v' \<and> behind f v' \<and> pindexTip v' = q \<and> undo_for T undo' is)
    \<and> (list_all (acceptable E T) is \<longrightarrow> (\<exists>v'. r = Inr v'))"
proof (induction "is" arbitrary: p ys v c undo)
  case Nil
  then have "q = p" by (cases ys) auto
  with Nil show ?case by (auto simp: undo_for_def)
next
  case (Cons i rest)
  have "line T q (rev rest @ i # ys)" using Cons.prems(1) by simp
  then have l: "line T (Some i) (i # ys)" by (rule line_append)
  then obtain n where n: "T i = Some n" "line T (pprev n) ys" by (auto split: option.splits)
  have p: "pprev n = p" using n(2) Cons.prems(2) by (cases ys) auto
  obtain verdict v1 c1 u where cb0: "ConnectBlock E (tree_height T) (the (ReadFromDisk E n)) i (idx_nHeight n) (idx_nTime n) p False v c
    = (verdict, v1, c1, u)" by (rule prod_cases4)
  have cb: "ConnectBlock E (tree_height T) b i (idx_nHeight n) (idx_nTime n) p False v c = (verdict, v1, c1, u)"
    if "ReadFromDisk E n = Some b" for b using cb0 that by simp
  show ?case
  proof (cases "\<exists>b. ReadFromDisk E n = Some b \<and> verdict = Accept")
    case False
    moreover have "\<not> acceptable E T i"
    proof
      assume "acceptable E T i"
      then obtain b where b: "ReadFromDisk E n = Some b"
        "fst (ConnectBlock E (tree_height T) b i (idx_nHeight n) (idx_nTime n) p False v c) = Accept"
        using n(1) Cons.prems(3) p unfolding acceptable_def by auto
      then show False using cb [OF b(1)] False by simp
    qed
    ultimately show ?thesis using Cons.prems(4,7) n(1) cb p by (auto split: option.splits if_splits)
  next
    case True
    then obtain b where b: "ReadFromDisk E n = Some b" and acc: "verdict = Accept" by blast
    note cb = cb [OF b, unfolded acc]
    obtain L where L: "replay E T p L" "stores disk_version v L" "tidy_view v" "fst (GetBestBlock v) = p"
      using Cons.prems(3) by (auto simp: at_end_def)
    note pure = replay_view [OF ok L(1), of p]
    have alike: "alike disk_version v (CCoinsViewCache L p)" using L(2,4) pure by (simp add: alike_def best_of_def)
    have acc': "\<exists>w u'. connects E T i L w u' \<and> stores disk_version v1 (live_at w) \<and> tidy_view v1
      \<and> (p \<noteq> None \<longrightarrow> list_all2 (list_all2 (undo_stored_as disk_version)) u u')"
    proof (cases "hashBlock n = hashGenesisBlock E")
      case True
      then have g: "header_hash (hashes E) b = hashGenesisBlock E" "p = None"
        using ReadFromDisk_hash [OF b] tree_okD [OF ok n(1)] p by (simp_all add: node_ok_def)
      have v1: "coins_at v1 = coins_at v" using cb g(1) by (rule ConnectBlock_genesis)
      obtain w where w: "ConnectBlock E (tree_height T) b i (idx_nHeight n) (idx_nTime n) p False (CCoinsViewCache L p) c = (Accept, w, c, [])"
        "coins_at w = coins_at (CCoinsViewCache L p)"
      proof -
        obtain w0 where w0: "GetBestBlock (CCoinsViewCache L p) = (p, w0)" using pure(3) by (cases "GetBestBlock (CCoinsViewCache L p)") simp
        have "CheckBlock E b True True = Accept" using cb by (auto simp: ConnectBlock_def split: if_splits)
        then show ?thesis using that [of "SetBestBlock w0 (Some i)"] w0 g(1) GetBestBlock_same [OF w0] by (simp add: ConnectBlock_def)
      qed
      have "connects E T i L w []" unfolding connects_def using n(1) b pure(1,2) w(1) p
        by (intro exI [of _ n] exI [of _ b] exI [of _ "CCoinsViewCache L p"] exI [of _ c] exI [of _ c] exI [of _ "tree_height T"]) simp
      moreover have "stores disk_version v1 (live_at w)" using L(2) stores_cong [OF v1] live_at_cong [OF w(2)] pure(1) by simp
      moreover have "tidy_view v1" using L(3) tidy_view_cong [OF v1] by simp
      ultimately show ?thesis using g(2) by blast
    next
      case False
      note h = node_not_first [OF ok n(1) False]
      obtain w u' where w: "ConnectBlock E (tree_height T) b i (idx_nHeight n) (idx_nTime n) p False (CCoinsViewCache L p) c = (Accept, w, c1, u')"
        "alike disk_version v1 w" "list_all2 (list_all2 (undo_stored_as disk_version)) u u'"
        using alike pure(2) h cb by (rule ConnectBlock_alike)
      have "connects E T i L w u'" unfolding connects_def using n(1) b pure(1,2) w(1) p
        by (intro exI [of _ n] exI [of _ b] exI [of _ "CCoinsViewCache L p"] exI [of _ c] exI [of _ c1] exI [of _ "tree_height T"]) simp
      moreover have "header_hash (hashes E) b \<noteq> hashGenesisBlock E" using False ReadFromDisk_hash [OF b] by simp
      ultimately show ?thesis using w(2,3) ConnectBlock_effect(1) [OF cb _ L(3) h] by (auto simp: alike_def)
    qed
    then obtain w u' where con: "connects E T i L w u'" "stores disk_version v1 (live_at w)" "tidy_view v1"
      "p \<noteq> None \<Longrightarrow> list_all2 (list_all2 (undo_stored_as disk_version)) u u'" by blast
    have rep: "replay E T (Some i) (live_at w)" using L(1) con(1) n(1) p by (intro replay.intros(2) [of E T i L w u']) simp_all
    note bh = behind_ConnectBlock [OF cb Cons.prems(5)]
    have end1: "at_end E T (Some i) v1" using con(2,3) best_SetTip [OF bh(3)] rep by (auto simp: at_end_def)
    define undo1 where "undo1 = write_undo E b i u undo"
    have gen: "header_hash (hashes E) b = hashGenesisBlock E \<longleftrightarrow> p = None"
      using ReadFromDisk_hash [OF b] tree_okD [OF ok n(1)] p by (simp add: node_ok_def)
    have "undo_ok E T undo1"
    proof (cases "p = None \<or> undo i \<noteq> None")
      case True
      then show ?thesis using Cons.prems(4) gen by (auto simp: undo1_def write_undo_def)
    next
      case False
      then have "\<exists>L v' w. replay E T (Option.bind (T i) pprev) L \<and> connects E T i L v' w
        \<and> list_all2 (list_all2 (undo_stored_as disk_version)) (map (map disk_undo) u) w"
        using L(1) con(1) undo_stored_on_disk [OF con(4)] n(1) p by auto
      then show ?thesis using Cons.prems(4) False n(1) p gen unfolding undo_ok_def undo1_def write_undo_def by auto
    qed
    moreover have "connect_loop E T rest v1 c1 undo1 = (r, c', undo')"
      using Cons.prems(7) n(1) b cb p acc by (simp add: undo1_def)
    ultimately have IH: "undo_ok E T undo' \<and> (\<forall>i. undo1 i \<noteq> None \<longrightarrow> undo' i \<noteq> None) \<and>
      (case r of Inl e \<Rightarrow> e \<noteq> Assertion \<and> e \<noteq> Failure | Inr v' \<Rightarrow> at_end E T q v' \<and> behind f v' \<and> pindexTip v' = q \<and> undo_for T undo' rest)
      \<and> (list_all (acceptable E T) rest \<longrightarrow> (\<exists>v'. r = Inr v'))"
      using Cons.IH [OF _ l end1 _ bh(1,3)] Cons.prems(1) by simp
    moreover have "undo j \<noteq> None \<longrightarrow> undo1 j \<noteq> None" for j by (simp add: undo1_def write_undo_def)
    moreover have "p \<noteq> None \<longrightarrow> undo1 i \<noteq> None" using gen by (simp add: undo1_def write_undo_def)
    ultimately show ?thesis using n(1) p by (auto simp: undo_for_def split: sum.splits)
  qed
qed

section \<open>The walks of SetBestChain\<close>

lemma path_before:
  assumes "tree_ok G T" "line T p (xs @ ys)" "line T stop ys"
  shows "path T stop p = Some (Inr xs)"
proof (rule path_line [OF assms(2,3)])
  have "distinct (xs @ ys)" using assms(1,2) by (rule line_distinct)
  then show "\<forall>x \<in> set xs. stop \<noteq> Some x" using assms(3) by (cases ys) auto
qed

lemma fork_walks:
  assumes ok: "tree_ok G T" and best: "\<forall>i. best = Some i \<longrightarrow> T i \<noteq> None" and p: "T p \<noteq> None"
  obtains xs zs ys fork where "line T best (xs @ ys)" "line T (Some p) (zs @ ys)" "line T fork ys"
    "find_fork T best p = Some (Inr fork)" "path T fork best = Some (Inr xs)" "path T fork (Some p) = Some (Inr zs)"
    "fork = None \<longrightarrow> xs = []" "set xs \<inter> set (zs @ ys) = {}"
proof -
  obtain ps where ps: "line T (Some p) ps" using line_exists [OF ok] p by auto
  show ?thesis
  proof (cases best)
    case None
    have "path T None (Some p) = Some (Inr ps)" by (rule path_before [OF ok, where ys = "[]"]) (use ps in simp_all)
    then show ?thesis using that [of "[]" "[]" ps None] None ps by (simp add: find_fork.simps path.simps)
  next
    case (Some f)
    obtain fs where fs: "line T (Some f) fs" using line_exists [OF ok] best Some by auto
    from find_fork_line [OF ok fs ps] obtain xs zs r ys where
      1: "fs = xs @ r # ys" "ps = zs @ r # ys" "find_fork T (Some f) p = Some (Inr (Some r))" "set xs \<inter> set ps = {}" by blast
    have 2: "line T (Some r) (r # ys)" using line_append fs 1(1) by blast
    have l: "line T (Some f) (xs @ r # ys)" "line T (Some p) (zs @ r # ys)" using fs ps 1(1,2) by simp_all
    show ?thesis
      using that [of xs "r # ys" zs "Some r"] Some l 1(3) 2 path_before [OF ok l(1) 2] path_before [OF ok l(2) 2] 1(4) [unfolded 1(2)] by simp
  qed
qed

text \<open>The successors on a line.\<close>

fun next_on :: "nat list \<Rightarrow> nat \<Rightarrow> nat option" where
  "next_on (j # i # xs) = (next_on (i # xs))(i := Some j)"
| "next_on xs = (\<lambda>_. None)"

lemma next_on_outside: "i \<notin> set xs \<Longrightarrow> next_on (j # xs) i = None"
  by (induction xs arbitrary: j) auto

lemma unlink_line:
  "line T p (xs @ ys) \<Longrightarrow> distinct (xs @ ys) \<Longrightarrow> (xs \<noteq> [] \<longrightarrow> ys \<noteq> []) \<Longrightarrow> unlink T xs (next_on (xs @ ys)) = next_on ys"
proof (induction xs arbitrary: p)
  case (Cons i xs)
  from Cons.prems(1) obtain n where n: "T i = Some n" "line T (pprev n) (xs @ ys)" by (auto split: option.splits)
  obtain j zs where j: "xs @ ys = j # zs" using Cons.prems(3) by (cases "xs @ ys") auto
  with n(2) have "pprev n = Some j" by (auto split: option.splits)
  moreover have "(next_on (i # xs @ ys))(j := None) = next_on (xs @ ys)"
    using Cons.prems(2) next_on_outside [of j zs j] unfolding j by (auto simp: j fun_eq_iff)
  ultimately have "unlink T (i # xs) (next_on ((i # xs) @ ys)) = unlink T xs (next_on (xs @ ys))"
    using n(1) by (simp add: unlink_def)
  also have "\<dots> = next_on ys" using Cons.IH [OF n(2)] Cons.prems(2,3) by auto
  finally show ?case .
qed (simp add: unlink_def)

lemma link_line:
  "line T q (rev is @ ys) \<Longrightarrow> line T p ys \<Longrightarrow> link T is (next_on ys) = next_on (rev is @ ys)"
proof (induction "is" arbitrary: p ys)
  case (Cons i rest)
  have "line T q (rev rest @ i # ys)" using Cons.prems(1) by simp
  then have l: "line T (Some i) (i # ys)" by (rule line_append)
  then obtain n where n: "T i = Some n" "line T (pprev n) ys" by (auto split: option.splits)
  have "link T (i # rest) (next_on ys) = link T rest (next_on (i # ys))"
    using n by (cases ys) (auto simp: link_def split: option.splits)
  also have "\<dots> = next_on (rev rest @ i # ys)" using Cons.IH [OF _ l] Cons.prems(1) by simp
  finally show ?case by simp
qed (simp add: link_def)

section \<open>Flushing the coins\<close>

lemma db_BatchWrite_at:
  "distinct (map fst m) \<Longrightarrow> db_BatchWrite db m t =
    (case map_of m t of None \<Rightarrow> db t | Some c \<Rightarrow> if IsPruned c then None else Some (disk_coins c))"
proof (induction m arbitrary: db)
  case (Cons e m)
  obtain k c where e: "e = (k, c)" by (cases e)
  have "map_of m k = None" using Cons.prems e by (simp add: map_of_eq_None_iff)
  then show ?case using Cons e by (auto simp: db_BatchWrite_def split: option.split)
qed (simp add: db_BatchWrite_def)

lemma stored_again: "stored_as disk_version a b \<Longrightarrow> stored_as disk_version (map_option disk_coins a) b"
  by (auto simp: stored_as_def disk_coins_def [symmetric] option.map_comp comp_def)

lemma FlushTip_at:
  assumes "sm_wf (cacheCoins v)"
  shows "stores disk_version v L \<Longrightarrow> stores disk_version (FlushTip v) L" and "tidy_view v \<Longrightarrow> tidy_view (FlushTip v)"
    and "fst (GetBestBlock (FlushTip v)) = fst (GetBestBlock v)" and "cacheCoins (FlushTip v) = []"
proof -
  have at: "coins_at (FlushTip v) t = (case map_of (cacheCoins v) t of None \<Rightarrow> base v t
      | Some c \<Rightarrow> if IsPruned c then None else Some (disk_coins c))" for t
    using db_BatchWrite_at [OF sm_wf_distinct [OF assms]] by (simp add: FlushTip_def coins_at_def)
  have cv: "coins_at v t = (case map_of (cacheCoins v) t of None \<Rightarrow> base v t | Some c \<Rightarrow> Some c)" for t
    by (simp add: coins_at_def)
  have "live_at (FlushTip v) t = live_at v t \<or> live_at (FlushTip v) t = map_option disk_coins (live_at v t)" for t
    by (unfold live_at_def at cv) (auto simp: live_def disk_coins_def IsPruned_def split: option.split)
  then show "stores disk_version v L \<Longrightarrow> stores disk_version (FlushTip v) L"
    unfolding stores_def by (metis stored_again)
  show "tidy_view (FlushTip v)" if t: "tidy_view v"
  proof -
    have "tidy c" if "coins_at (FlushTip v) x = Some c" for x c
      using that t unfolding tidy_view_def at cv
      by (cases "map_of (cacheCoins v) x") (auto simp: disk_coins_def split: if_splits dest: spec [of _ x])
    then show ?thesis by (simp add: tidy_view_def)
  qed
  show "fst (GetBestBlock (FlushTip v)) = fst (GetBestBlock v)" and "cacheCoins (FlushTip v) = []"
    by (auto simp: GetBestBlock_def FlushTip_def Let_def)
qed

lemma sm_wf_BatchWrite: "sm_wf (cacheCoins p) \<Longrightarrow> sm_wf (cacheCoins (BatchWrite p m b))"
proof -
  have "sm_wf (cacheCoins p) \<Longrightarrow> sm_wf (cacheCoins (fold (\<lambda>(k, c) w. w\<lparr>cacheCoins := sm_put k c (cacheCoins w)\<rparr>) m p))"
  proof (induction m arbitrary: p)
    case (Cons e m)
    obtain k c where "e = (k, c)" by (cases e)
    moreover have "sm_wf (cacheCoins (p\<lparr>cacheCoins := sm_put k c (cacheCoins p)\<rparr>))" using Cons.prems by auto
    ultimately show ?case using Cons.IH by simp
  qed simp
  then show "sm_wf (cacheCoins p) \<Longrightarrow> sm_wf (cacheCoins (BatchWrite p m b))" by (simp add: BatchWrite_def)
qed

lemma Flush_at_end:
  assumes "at_end E T (Some i) v" "behind (coins_at tip) v" "sm_wf (cacheCoins tip)" "pindexTip v = Some i"
  shows "at_end E T (Some i) (snd (Flush v tip))" and "sm_wf (cacheCoins (snd (Flush v tip)))"
proof -
  note f = Flush_coins [OF assms(2)]
  show "at_end E T (Some i) (snd (Flush v tip))"
    using assms(1) stores_cong [OF f(1)] tidy_view_cong [OF f(1)] best_SetTip [of "snd (Flush v tip)" i] f(4) assms(4)
    by (simp add: at_end_def)
  show "sm_wf (cacheCoins (snd (Flush v tip)))" using sm_wf_BatchWrite [OF assms(3)] by (simp add: Flush_def Let_def)
qed

lemma FlushTip_at_end:
  assumes "at_end E T p v" "sm_wf (cacheCoins v)"
  shows "at_end E T p (FlushTip v)"
  using assms(1) FlushTip_at [OF assms(2)] by (auto simp: at_end_def)

section \<open>The invariant of the node\<close>

definition index_ok :: "uint256 \<Rightarrow> chain_state \<Rightarrow> bool" where
  "index_ok G s \<longleftrightarrow> tree_ok G (tree s)
     \<and> (\<forall>h i. mapBlockIndex s h = Some i \<longleftrightarrow> (\<exists>n. tree s i = Some n \<and> hashBlock n = h))
     \<and> ((\<exists>i. tree s i \<noteq> None) \<longrightarrow> mapBlockIndex s G \<noteq> None)"

definition chain_inv :: "'b env \<Rightarrow> chain_state \<Rightarrow> bool" where
  "chain_inv E s \<longleftrightarrow> index_ok (hashGenesisBlock E) s
     \<and> at_end E (tree s) (pindexBest s) (pcoinsTip s) \<and> sm_wf (cacheCoins (pcoinsTip s))
     \<and> (\<forall>i. pindexBest s = Some i \<longrightarrow> tree s i \<noteq> None)
     \<and> undo_ok E (tree s) (undo_file s)
     \<and> (\<forall>is. line (tree s) (pindexBest s) is \<longrightarrow> undo_for (tree s) (undo_file s) is \<and> pnext s = next_on is)"

lemma next_on_small: "next_on [] = (\<lambda>_. None)" "next_on [i] = (\<lambda>_. None)"
  by simp_all

lemma index_ok_cong: "tree s' = tree s \<Longrightarrow> mapBlockIndex s' = mapBlockIndex s \<Longrightarrow> index_ok G s' = index_ok G s"
  by (simp add: index_ok_def)

text \<open>What a call of SetBestChain does, from a state that satisfies the invariant.\<close>

lemma SetBestChain_effect:
  assumes inv: "chain_inv E s" and p: "tree s p \<noteq> None"
  obtains r s' where "SetBestChain E disk p s = Some (r, s')" "r \<noteq> Inl Assertion" "r \<noteq> Inl Failure"
    "r \<noteq> Inl Abort \<Longrightarrow> chain_inv E s'" "tree s' = tree s" "mapBlockIndex s' = mapBlockIndex s"
    "r = Inr () \<Longrightarrow> pindexBest s' = Some p"
    "\<And>verdict. r = Inl (Rejected verdict) \<Longrightarrow>
      \<exists>tip c u. s' = s\<lparr>pcoinsTip := tip, sigcache := c, undo_file := u\<rparr> \<and> coins_at tip = coins_at (pcoinsTip s)"
    "\<And>is. line (tree s) (pindexBest s) is \<Longrightarrow> p \<in> set is \<Longrightarrow> disk \<noteq> No_space \<Longrightarrow> disk \<noteq> Flush_failed \<Longrightarrow> r = Inr ()"
    "\<And>is. line (tree s) (Some p) is \<Longrightarrow> list_all (acceptable E (tree s)) is \<Longrightarrow> disk \<noteq> No_space \<Longrightarrow> disk \<noteq> Flush_failed
      \<Longrightarrow> r = Inr ()"
proof -
  let ?T = "tree s" and ?G = "hashGenesisBlock E"
  note inv = inv [unfolded chain_inv_def]
  have ok: "tree_ok ?G ?T" using inv by (simp add: index_ok_def)
  obtain best tip where b: "GetBestBlock (pcoinsTip s) = (best, tip)" by (cases "GetBestBlock (pcoinsTip s)")
  have at: "at_end E ?T (pindexBest s) (pcoinsTip s)" using inv by simp
  have best: "best = pindexBest s" and tip_at: "tidy_view tip" "\<exists>L. replay E ?T (pindexBest s) L \<and> stores disk_version tip L"
    using at_end_cong [OF at b] by simp_all
  have tip: "coins_at tip = coins_at (pcoinsTip s)" "fst (GetBestBlock tip) = pindexBest s" "cacheCoins tip = cacheCoins (pcoinsTip s)"
    using GetBestBlock_same [OF b] b best by (auto simp: GetBestBlock_def Let_def split: if_splits)
  obtain x v where v: "GetBestBlock (CCoinsViewCache (coins_at tip) best) = (x, v)"
    by (cases "GetBestBlock (CCoinsViewCache (coins_at tip) best)")
  have v_facts: "coins_at v = coins_at tip" "behind (coins_at tip) v" "fst (GetBestBlock v) = pindexBest s" "pindexTip v = pindexBest s"
    using v best by (auto simp: GetBestBlock_def CCoinsViewCache_def coins_at_def behind_def)
  have v_end: "at_end E ?T (pindexBest s) v"
    using tip_at v_facts(3) stores_cong [OF v_facts(1)] tidy_view_cong [OF v_facts(1)] by (simp add: at_end_def)
  have known: "\<forall>i. pindexBest s = Some i \<longrightarrow> ?T i \<noteq> None" using inv by simp
  obtain xs zs ys fork where w: "line ?T (pindexBest s) (xs @ ys)" "line ?T (Some p) (zs @ ys)" "line ?T fork ys"
    "find_fork ?T (pindexBest s) p = Some (Inr fork)" "path ?T fork (pindexBest s) = Some (Inr xs)"
    "path ?T fork (Some p) = Some (Inr zs)" "fork = None \<longrightarrow> xs = []" "set xs \<inter> set (zs @ ys) = {}"
    by (rule fork_walks [OF ok known p])
  have undo: "undo_ok E ?T (undo_file s)" and links: "undo_for ?T (undo_file s) (xs @ ys)" "pnext s = next_on (xs @ ys)"
    using inv w(1) by simp_all
  obtain v1 where v1: "disconnect_loop E ?T (undo_file s) xs v = Inr v1" "at_end E ?T fork v1" "behind (coins_at tip) v1" "pindexTip v1 = fork"
  proof (cases fork)
    case None
    then have "xs = []" "ys = []" using w(3,7) by (cases ys; simp)+
    then have "pindexBest s = None" using w(1) by simp
    then show ?thesis using that [of v] \<open>xs = []\<close> v_end v_facts None by simp
  next
    case (Some r)
    then obtain zs' where "ys = r # zs'" using w(3) by (cases ys) auto
    then show ?thesis
      using disconnect_loop_ok [OF ok undo _ v_end _ v_facts(2,4), of xs r zs'] w(1) links(1) that Some by auto
  qed
  obtain r2 c2 undo2 where c: "connect_loop E ?T (rev zs) v1 (sigcache s) (undo_file s) = (r2, c2, undo2)"
    by (rule prod_cases3)
  have co: "undo_ok E ?T undo2" "\<forall>i. undo_file s i \<noteq> None \<longrightarrow> undo2 i \<noteq> None"
    "case r2 of Inl e \<Rightarrow> e \<noteq> Assertion \<and> e \<noteq> Failure | Inr v' \<Rightarrow> at_end E ?T (Some p) v' \<and> behind (coins_at tip) v' \<and> pindexTip v' = Some p \<and> undo_for ?T undo2 (rev zs)"
    "list_all (acceptable E ?T) (rev zs) \<longrightarrow> (\<exists>v'. r2 = Inr v')"
    using connect_loop_ok [OF ok _ w(3) v1(2) undo v1(3,4) c, of "Some p"] w(2) by simp_all
  let ?s = "s\<lparr>pcoinsTip := tip, sigcache := c2, undo_file := undo2\<rparr>"
  have sbc: "SetBestChain E disk p s = Some (case r2 of Inl e \<Rightarrow> (Inl e, ?s) | Inr v' \<Rightarrow> commit_chain disk xs (rev zs) p v' ?s)"
    using b v best w(4-6) v1(1) c by (simp add: SetBestChain_def split: sum.split)
  have wf: "sm_wf (cacheCoins tip)" using inv tip(3) by simp
  have on_best: "zs = []" if "line ?T (pindexBest s) is" "p \<in> set is" for "is"
  proof -
    have "is = xs @ ys" using that(1) w(1) by (rule line_unique)
    moreover obtain qs where qs: "zs @ ys = p # qs" using line_head [OF w(2)] by blast
    ultimately have "p \<in> set ys" using that(2) w(8) by auto
    moreover have "distinct (zs @ ys)" using ok w(2) by (rule line_distinct)
    ultimately show ?thesis using qs by (cases zs) auto
  qed
  have tip_end: "at_end E ?T (pindexBest s) tip" using tip_at tip(2) by (simp add: at_end_def)
  show ?thesis
  proof (cases r2)
    case (Inl e)
    have "undo_for ?T undo2 is \<and> pnext s = next_on is" if "line ?T (pindexBest s) is" for "is"
      using inv that undo_for_mono [OF _ co(2)] by blast
    then have "chain_inv E ?s" using inv known co(1) tip_end wf by (simp add: chain_inv_def index_ok_cong [of ?s s])
    moreover have "e \<noteq> Assertion \<and> e \<noteq> Failure" using co(3) Inl by simp
    moreover have "zs \<noteq> []" using c Inl by auto
    moreover have "\<not> list_all (acceptable E ?T) is" if "line ?T (Some p) is" for "is"
      using co(4) Inl line_unique [OF that w(2)] by (auto simp: list_all_iff)
    ultimately show ?thesis using that [of "Inl e" ?s] sbc Inl tip(1) on_best by auto
  next
    case (Inr v2)
    then have v2: "at_end E ?T (Some p) v2" "behind (coins_at tip) v2" "pindexTip v2 = Some p" "undo_for ?T undo2 (rev zs)"
      using co(3) by simp_all
    obtain n where n: "?T p = Some n" using p by auto
    let ?t = "snd (Flush v2 tip)"
    note t = Flush_at_end [OF v2(1,2) wf v2(3)]
    define t' where "t' = (if disk = Flush_done then FlushTip ?t else ?t)"
    have t': "at_end E ?T (Some p) t'" "sm_wf (cacheCoins t')"
      using t FlushTip_at_end [OF t] FlushTip_at(4) [OF t(2)] by (simp_all add: t'_def)
    let ?s' = "?s\<lparr>pcoinsTip := t', pnext := next_on (zs @ ys), pindexBest := Some p, nBestHeight := idx_nHeight n,
      hashBestChain := hashBlock n, nBestChainWork := nChainWork n\<rparr>"
    have "distinct (xs @ ys)" using ok w(1) by (rule line_distinct)
    moreover have "xs \<noteq> [] \<longrightarrow> ys \<noteq> []" using w(3,7) by (cases fork) auto
    ultimately have "unlink ?T xs (pnext s) = next_on ys" unfolding links(2) by (intro unlink_line [OF w(1)])
    then have nxt: "link ?T (rev zs) (unlink ?T xs (pnext s)) = next_on (zs @ ys)"
      using link_line [of ?T "Some p" "rev zs" ys fork] w(2,3) by simp
    show ?thesis
    proof (cases "disk = No_space \<or> disk = Flush_failed")
      case True
      then have "commit_chain disk xs (rev zs) p v2 ?s = (Inl Abort, ?s\<lparr>pcoinsTip := ?t\<rparr>)" by (auto simp: commit_chain_def)
      then show ?thesis using that [of "Inl Abort" "?s\<lparr>pcoinsTip := ?t\<rparr>"] sbc Inr True by auto
    next
      case False
      have com: "commit_chain disk xs (rev zs) p v2 ?s = (Inr (), ?s')"
        using False n nxt by (cases "disk = Flush_done") (simp_all add: commit_chain_def t'_def)
      have "undo_for ?T undo2 (zs @ ys)"
        using v2(4) undo_for_mono [OF links(1) co(2)] by (auto simp: undo_for_def)
      then have "undo_for ?T undo2 is \<and> next_on (zs @ ys) = next_on is" if "line ?T (Some p) is" for "is"
        using line_unique [OF that w(2)] by simp
      moreover have "index_ok ?G ?s'" using inv by (intro iffD2 [OF index_ok_cong [of ?s' s]]) simp_all
      ultimately have "chain_inv E ?s'" using n co(1) t' by (simp add: chain_inv_def)
      then show ?thesis using that [of "Inr ()" ?s'] sbc Inr com by simp
    qed
  qed
qed

section \<open>Accepting a block keeps the invariant\<close>

lemma connects_extend:
  assumes "tree_ok G T" "T a = None" "connects E T i L v' u"
  shows "connects E (T(a := Some k)) i L v' u"
proof -
  obtain n b v c c' heights where 1: "T i = Some n" "ReadFromDisk E n = Some b" "tidy_view v" "live_at v = L"
    "\<forall>j. pprev n = Some j \<longrightarrow> heights j = tree_height T j"
    "ConnectBlock E heights b i (idx_nHeight n) (idx_nTime n) (pprev n) False v c = (Accept, v', c', u)"
    using assms(3) unfolding connects_def by blast
  have "tree_height (T(a := Some k)) j = tree_height T j" if "pprev n = Some j" for j
    by (rule node_parent [OF tree_okD [OF assms(1) 1(1)] that]) (use assms(2) in \<open>auto simp: tree_height_def\<close>)
  moreover have "(T(a := Some k)) i = Some n" using 1(1) assms(2) by auto
  ultimately show ?thesis using 1(2-6) unfolding connects_def
    by (intro exI [of _ n] exI [of _ b] exI [of _ v] exI [of _ c] exI [of _ c'] exI [of _ heights]) simp
qed

lemma bind_extend: "T a = None \<Longrightarrow> T i \<noteq> None \<Longrightarrow> Option.bind ((T(a := Some k)) i) pprev = Option.bind (T i) pprev"
  by auto

lemma connects_known: "connects E T i L v' u \<Longrightarrow> T i \<noteq> None"
  by (auto simp: connects_def)

lemma replay_extend:
  assumes "tree_ok G T" "T a = None"
  shows "replay E T p L \<Longrightarrow> replay E (T(a := Some k)) p L"
proof (induction rule: replay.induct)
  case 1
  show ?case by (rule replay.intros(1))
next
  case (2 i L v' u)
  have "Option.bind ((T(a := Some k)) i) pprev = Option.bind (T i) pprev"
    using assms(2) connects_known [OF 2(2)] by (rule bind_extend)
  then have "replay E (T(a := Some k)) (Option.bind ((T(a := Some k)) i) pprev) L" using 2(3) by (simp only:)
  then show ?case using connects_extend [OF assms 2(2)] by (rule replay.intros(2))
qed

lemma undo_ok_extend:
  assumes "tree_ok G T" "T a = None" "undo_ok E T undo"
  shows "undo_ok E (T(a := Some k)) undo"
  unfolding undo_ok_def
proof (intro allI impI)
  fix i u assume "undo i = Some u"
  with assms(3) obtain L v' w where 1: "Option.bind (T i) pprev \<noteq> None" "replay E T (Option.bind (T i) pprev) L" "connects E T i L v' w"
    "list_all2 (list_all2 (undo_stored_as disk_version)) u w"
    unfolding undo_ok_def by blast
  note b = bind_extend [of T a i k, OF assms(2) connects_known [OF 1(3)]]
  show "Option.bind ((T(a := Some k)) i) pprev \<noteq> None
    \<and> (\<exists>L v' w. replay E (T(a := Some k)) (Option.bind ((T(a := Some k)) i) pprev) L \<and> connects E (T(a := Some k)) i L v' w
      \<and> list_all2 (list_all2 (undo_stored_as disk_version)) u w)"
    unfolding b using 1(1,4) replay_extend [OF assms(1,2) 1(2)] connects_extend [OF assms(1,2) 1(3)] by blast
qed

lemma line_extend: "line T p is \<Longrightarrow> T a = None \<Longrightarrow> line (T(a := Some k)) p is"
  by (induction "is" arbitrary: p) (auto split: option.splits if_splits)

lemma line_known: "line T p is \<Longrightarrow> i \<in> set is \<Longrightarrow> T i \<noteq> None"
  by (induction "is" arbitrary: p) (auto split: option.splits)

lemma node_ok_extend: "node_ok G T n \<Longrightarrow> T a = None \<Longrightarrow> node_ok G (T(a := Some k)) n"
  by (auto simp: node_ok_def split: option.splits)

lemma index_ok_add:
  assumes idx: "index_ok G s" and "tree s a = None" and "mapBlockIndex s (hashBlock n) = None"
    and "node_ok G (tree s) n" and "hashBlock n = G \<or> pprev n \<noteq> None"
  shows "index_ok G (s\<lparr>mapBlockIndex := (mapBlockIndex s)(hashBlock n := Some a), tree := (tree s)(a := Some n)\<rparr>)"
proof -
  let ?T = "(tree s)(a := Some n)"
  have fresh: "hashBlock m \<noteq> hashBlock n" if "tree s i = Some m" for i m
    using idx assms(3) that unfolding index_ok_def by (metis option.distinct(1))
  have ok: "tree_ok G (tree s)" using idx by (simp add: index_ok_def)
  have "node_ok G ?T m" if "?T i = Some m" for i m
    using that node_ok_extend [OF assms(4,2)] node_ok_extend [OF tree_okD [OF ok] assms(2)] by (auto split: if_splits)
  moreover have "i = j" if "?T i = Some m" "?T j = Some m'" "hashBlock m = hashBlock m'" for i j m m'
    using that fresh ok unfolding tree_ok_def by (auto split: if_splits)
  ultimately have "tree_ok G ?T" unfolding tree_ok_def by blast
  moreover have "((mapBlockIndex s)(hashBlock n := Some a)) h = Some i \<longleftrightarrow> (\<exists>m. ?T i = Some m \<and> hashBlock m = h)" for h i
    using idx assms(2) fresh unfolding index_ok_def by auto
  moreover have "((mapBlockIndex s)(hashBlock n := Some a)) G \<noteq> None"
  proof (cases "hashBlock n = G")
    case False
    with assms(5) obtain j where "pprev n = Some j" by auto
    with assms(4) have "tree s j \<noteq> None" by (auto simp: node_ok_def split: option.splits)
    then have "mapBlockIndex s G \<noteq> None" using idx unfolding index_ok_def by blast
    then show ?thesis by simp
  qed simp
  ultimately show ?thesis by (simp add: index_ok_def)
qed

lemma AddToBlockIndex_inv:
  assumes inv: "chain_inv E s" and a: "tree s a = None"
    and "header_hash (hashes E) block = hashGenesisBlock E \<or> mapBlockIndex s (hashPrevBlock block) \<noteq> None"
    and "\<forall>p. mapBlockIndex s (hashPrevBlock block) = Some p \<longrightarrow> tree_height (tree s) p + 1 < 2 ^ 31"
    and "AddToBlockIndex E block stored a s = (r, s')"
  shows "chain_inv E s'"
proof (cases "mapBlockIndex s (header_hash (hashes E) block) = None")
  case False
  then show ?thesis using assms(5) inv by (simp add: AddToBlockIndex_def)
next
  case True
  let ?h = "header_hash (hashes E) block" and ?G = "hashGenesisBlock E" and ?prev = "mapBlockIndex s (hashPrevBlock block)"
  note inv = inv [unfolded chain_inv_def]
  have idx: "index_ok ?G s" using inv by simp
  then have ok: "tree_ok ?G (tree s)" by (simp add: index_ok_def)
  obtain n where n: "s' = s\<lparr>mapBlockIndex := (mapBlockIndex s)(hashBlock n := Some a), tree := (tree s)(a := Some n)\<rparr>"
    "hashBlock n = ?h" "pprev n = ?prev" "idx_nHeight n = (case ?prev of None \<Rightarrow> 0 | Some p \<Rightarrow> tree_height (tree s) p + 1)"
    using assms(5) True by (auto simp: AddToBlockIndex_def Let_def)
  have first: "?prev = None" if "?h = ?G"
  proof (rule ccontr)
    assume "?prev \<noteq> None"
    then obtain p where "?prev = Some p" by blast
    then have "\<exists>i. tree s i \<noteq> None" using idx unfolding index_ok_def by blast
    then have "mapBlockIndex s ?G \<noteq> None" using idx unfolding index_ok_def by blast
    then show False using True that by simp
  qed
  have "node_ok ?G (tree s) n"
  proof (cases ?prev)
    case None
    then show ?thesis using n assms(3) by (simp add: node_ok_def)
  next
    case (Some p)
    then obtain m where m: "tree s p = Some m" using idx unfolding index_ok_def by blast
    then have "0 \<le> idx_nHeight m" using tree_okD [OF ok m] by (simp add: node_ok_def)
    moreover have "?h \<noteq> ?G" using first Some by auto
    moreover have "idx_nHeight m + 1 < 2 ^ 31" using assms(4) Some m by (simp add: tree_height_def)
    ultimately show ?thesis using n m Some by (simp add: node_ok_def tree_height_def)
  qed
  then have "index_ok ?G s'" unfolding n(1) using idx a True n(2,3) assms(3) by (intro index_ok_add) auto
  moreover have "at_end E (tree s') (pindexBest s') (pcoinsTip s')"
  proof -
    obtain L where "replay E (tree s) (pindexBest s) L" "stores disk_version (pcoinsTip s) L" using inv by (auto simp: at_end_def)
    moreover from this(1) have "replay E ((tree s)(a := Some n)) (pindexBest s) L" by (rule replay_extend [OF ok a])
    ultimately show ?thesis using inv by (auto simp: n(1) at_end_def)
  qed
  moreover have "undo_ok E (tree s') (undo_file s')" 
  proof -
    have "undo_ok E (tree s) (undo_file s)" using inv by simp
    then have "undo_ok E ((tree s)(a := Some n)) (undo_file s)" by (rule undo_ok_extend [OF ok a])
    then show ?thesis by (simp add: n(1))
  qed
  moreover have "undo_for (tree s') (undo_file s') is \<and> pnext s' = next_on is" if "line (tree s') (pindexBest s') is" for "is"
  proof -
    obtain js where js: "line (tree s) (pindexBest s) js"
    proof (cases "pindexBest s")
      case None
      then show ?thesis using that [of "[]"] by simp
    next
      case (Some i)
      then show ?thesis using that line_exists [OF ok, of i] inv by auto
    qed
    then have "line (tree s') (pindexBest s') js" using line_extend a by (simp add: n(1))
    with that have "is = js" by (rule line_unique)
    moreover have "undo_for (tree s') (undo_file s) js"
      using inv js line_known [OF js] bind_extend [of "tree s" a, OF a] by (simp add: undo_for_def n(1))
    ultimately show ?thesis using inv js by (simp add: n(1))
  qed
  moreover have "pindexBest s' = Some i \<Longrightarrow> tree s' i \<noteq> None" for i using inv by (simp add: n(1))
  ultimately show ?thesis using inv by (simp add: chain_inv_def n(1))
qed

lemma chain_inv_anchor: "chain_inv E (s\<lparr>anchor := x\<rparr>) \<longleftrightarrow> chain_inv E s"
  by (simp add: chain_inv_def index_ok_def)

lemma AcceptBlock_inv:
  assumes inv: "chain_inv E s" and a: "tree s a = None"
    and h: "\<forall>p. mapBlockIndex s (hashPrevBlock block) = Some p \<longrightarrow> tree_height (tree s) p + 1 < 2 ^ 31"
    and acc: "AcceptBlock E fTestNet CheckpointOk now syncOk block stored a s = Some (r, s')"
  shows "chain_inv E s'"
proof -
  have add: "chain_inv E t'" if "AddToBlockIndex E block stored a s = (q, t')"
    "header_hash (hashes E) block = hashGenesisBlock E \<or> mapBlockIndex s (hashPrevBlock block) \<noteq> None" for q t'
    using AddToBlockIndex_inv [OF inv a that(2) h that(1)] .
  have add_anchor: "chain_inv E t'" if "AddToBlockIndex E block stored a (s\<lparr>anchor := x\<rparr>) = (q, t')"
    "mapBlockIndex s (hashPrevBlock block) \<noteq> None" for q t' x
    using AddToBlockIndex_inv [of E "s\<lparr>anchor := x\<rparr>" a block stored q t'] that inv a h by (simp add: chain_inv_anchor)
  show ?thesis using acc inv
    by (auto simp: AcceptBlock_def Let_def chain_inv_anchor split: if_splits option.splits sum.splits prod.splits
      intro: add add_anchor)
qed

lemma no_chain_inv: "chain_inv E no_chain"
proof -
  have "coins_at (pcoinsTip no_chain) = (\<lambda>_. None)" by (simp add: no_chain_def CCoinsViewCache_def coins_at_def fun_eq_iff)
  then have "live_at (pcoinsTip no_chain) = (\<lambda>_. None)" "tidy_view (pcoinsTip no_chain)"
    by (simp_all add: live_at_def live_def tidy_view_def fun_eq_iff)
  then have "at_end E (tree no_chain) None (pcoinsTip no_chain)"
    using replay.intros(1) [of E "tree no_chain"] stores_own [of disk_version "pcoinsTip no_chain"]
    by (auto simp: at_end_def simp del: stores_own) (simp add: no_chain_def CCoinsViewCache_def GetBestBlock_def)
  moreover have "next_on is = (\<lambda>_. None)" if "line T None is" for T "is" using that by (cases "is") auto
  moreover have "undo_for T undo is" if "line T None is" for T "is" undo using that by (cases "is") (auto simp: undo_for_def)
  ultimately show ?thesis
    by (simp add: chain_inv_def index_ok_def) (simp add: no_chain_def tree_ok_def undo_ok_def CCoinsViewCache_def)
qed

lemma reachable_inv: "reachable E fTestNet CheckpointOk s \<Longrightarrow> chain_inv E s"
proof (induction rule: reachable.induct)
  case start
  show ?case by (rule no_chain_inv)
next
  case (accept s block a now syncOk stored r s')
  then show ?case by (intro AcceptBlock_inv [OF _ accept.hyps(3,4,5)])
next
  case (best s p disk r s')
  show ?case
    by (rule SetBestChain_effect [OF best.IH best.hyps(2), of disk]) (use best.hyps(3,4) in auto)
qed

end
