(* ===== verification/AcceptRules.thy ===== *)
theory AcceptRules
  imports BestChain Checkpoints
begin

text \<open>
  What AcceptBlock demands of a block at its place in the tree, and that the tree of every reachable state
  keeps it. The static variables of the Phoenix rule hold the anchor of one branch and serve them all: when
  the checkpoints let at most one block pass at the activation height, that is the anchor of every branch.
\<close>

section \<open>Chains and lines\<close>

lemma chain_of_line:
  assumes "tree_ok G T" "line T (Some p) is"
  shows "chain_of T p = Some (map (\<lambda>j. CBlockIndex.truncate (the (T j))) is)"
  using path_before [OF assms(1), of "Some p" "is" "[]" None] assms(2) by (simp add: chain_of_def)

lemma chain_of_extend:
  assumes "tree_ok G T" "T a = None" "T p \<noteq> None" "tree_ok G (T(a := Some k))"
  shows "chain_of (T(a := Some k)) p = chain_of T p"
proof -
  obtain "is" where l: "line T (Some p) is" using line_exists [OF assms(1)] assms(3) by auto
  have "(T(a := Some k)) j = T j" if "j \<in> set is" for j using line_known [OF l that] assms(2) by auto
  then show ?thesis
    using chain_of_line [OF assms(1) l] chain_of_line [OF assms(4) line_extend [OF l assms(2)]] by simp
qed

lemma accept_checks_Inr:
  assumes "accept_checks E fTestNet CheckpointOk now syncOk block chain nBest required = Inr u"
  shows "nBits block = required" and "GetMedianTimePast chain < uint (nTime block)"
    and "CheckpointOk (idx_nHeight (hd chain) + 1) (header_hash (hashes E) block)"
  using assms by (auto simp: accept_checks_def Let_def split: if_splits)

lemma hd_chain_of:
  assumes "tree_ok G T" "T p = Some m" "chain_of T p = Some chain"
  shows "idx_nHeight (hd chain) = idx_nHeight m"
proof -
  obtain "is" where l: "line T (Some p) is" using line_exists [OF assms(1,2)] by blast
  then obtain ys where "is = p # ys" using line_head by blast
  with chain_of_line [OF assms(1) l] assms(2,3) show ?thesis by (auto simp: CBlockIndex.defs)
qed

section \<open>Lines as the rules read them\<close>

lemma linked_line:
  assumes "tree_ok G T"
  shows "line T p is \<Longrightarrow> linked (map (\<lambda>j. CBlockIndex.truncate (the (T j))) is)"
proof (induction "is" arbitrary: p)
  case (Cons i js)
  then obtain n where n: "T i = Some n" "line T (pprev n) js" by (auto split: option.splits)
  show ?case
  proof (cases js)
    case (Cons j ks)
    then have p: "pprev n = Some j" using n(2) by simp
    from tree_okD [OF assms n(1)] p obtain m where "T j = Some m" "idx_nHeight n = idx_nHeight m + 1" by (rule node_parent)
    then show ?thesis using Cons.IH [OF n(2)] n(1) Cons by (simp add: linked_def CBlockIndex.defs)
  qed (simp add: linked_def)
qed (simp add: linked_def)

lemma phoenix_walk_suffix: "\<exists>ys. chain = ys @ phoenix_walk chain"
proof (induction chain rule: phoenix_walk.induct)
  case (1 i p rest)
  show ?case
  proof (cases "idx_nHeight i > PHOENIX_ACTIVATION_HEIGHT")
    case True
    then obtain ys where "p # rest = ys @ phoenix_walk (p # rest)" using "1.IH" by blast
    then have "i # p # rest = (i # ys) @ phoenix_walk (i # p # rest)" using True by simp
    then show ?thesis by blast
  qed simp
qed simp_all

section \<open>The anchor of a branch\<close>

text \<open>Bits that are zero stand for variables not set yet; otherwise they are those of a block of the tree.\<close>

definition tree_anchor :: "block_tree \<Rightarrow> u32 \<times> int \<Rightarrow> bool" where
  "tree_anchor T anc \<longleftrightarrow> (\<exists>i n j m. T i = Some n \<and> idx_nHeight n = PHOENIX_ACTIVATION_HEIGHT \<and> pprev n = Some j
     \<and> T j = Some m \<and> anc = (idx_nBits n, uint (idx_nTime m)))"

definition anchor_ok :: "block_tree \<Rightarrow> u32 \<times> int \<Rightarrow> bool" where
  "anchor_ok T anc \<longleftrightarrow> fst anc = 0 \<or> tree_anchor T anc"

lemma anchor_ok_extend: "anchor_ok T anc \<Longrightarrow> T a = None \<Longrightarrow> anchor_ok (T(a := Some k)) anc"
  unfolding anchor_ok_def tree_anchor_def by (metis fun_upd_other option.distinct(1))

lemma activation_anchor_tree:
  assumes "tree_ok G T" "T q \<noteq> None" "chain_of T q = Some chain" "activation_anchor chain = Some A"
  shows "tree_anchor T A"
proof -
  obtain "is" where l: "line T (Some q) is" using line_exists [OF assms(1)] assms(2) by auto
  have c: "chain = map (\<lambda>j. CBlockIndex.truncate (the (T j))) is" using chain_of_line [OF assms(1) l] assms(3) by simp
  obtain x y rest where w: "phoenix_walk chain = x # y # rest" "idx_nHeight x = PHOENIX_ACTIVATION_HEIGHT"
    "A = (idx_nBits x, uint (idx_nTime y))"
    using assms(4) unfolding activation_anchor_def by (auto split: list.splits if_splits)
  obtain ys where "chain = ys @ x # y # rest" using phoenix_walk_suffix [of chain] w(1) by auto
  then obtain us i j vs where s: "is = us @ i # j # vs" "x = CBlockIndex.truncate (the (T i))" "y = CBlockIndex.truncate (the (T j))"
    unfolding c by (auto simp: map_eq_append_conv map_eq_Cons_conv)
  have "line T (Some i) (i # j # vs)" using l unfolding s(1) by (rule line_append)
  then obtain n m where "T i = Some n" "pprev n = Some j" "T j = Some m" by (auto split: option.splits)
  then show ?thesis using w(2,3) s(2,3) unfolding tree_anchor_def by (auto simp: CBlockIndex.defs)
qed

lemma activation_anchor_exists:
  assumes "tree_ok G T" "T q = Some m" "PHOENIX_ACTIVATION_HEIGHT \<le> idx_nHeight m" "chain_of T q = Some chain"
  obtains A where "activation_anchor chain = Some A"
proof -
  obtain "is" where l: "line T (Some q) is" using line_exists [OF assms(1,2)] by blast
  have c: "chain = map (\<lambda>j. CBlockIndex.truncate (the (T j))) is" using chain_of_line [OF assms(1) l] assms(4) by simp
  have len: "int (length chain) = idx_nHeight m + 1" using line_length [OF assms(1) l] assms(2) c by (simp add: tree_height_def)
  obtain ks where "is = q # ks" using line_head [OF l] by blast
  then have hd: "idx_nHeight (hd chain) = idx_nHeight m" using c assms(2) by (simp add: CBlockIndex.defs)
  have "linked chain" unfolding c using assms(1) l by (rule linked_line)
  then have "activation_anchor chain = Some (idx_nBits (chain ! nat (idx_nHeight m - PHOENIX_ACTIVATION_HEIGHT)),
      uint (idx_nTime (chain ! (nat (idx_nHeight m - PHOENIX_ACTIVATION_HEIGHT) + 1))))"
    using hd assms(3) len by (intro activation_anchor_linked) (simp_all add: PHOENIX_ACTIVATION_HEIGHT_def)
  then show ?thesis by (rule that)
qed

section \<open>The rules\<close>

definition follows_rules :: "'b env \<Rightarrow> bool \<Rightarrow> (int \<Rightarrow> uint256 \<Rightarrow> bool) \<Rightarrow> block_tree \<Rightarrow> block_node \<Rightarrow> bool" where
  "follows_rules E fTestNet CheckpointOk T n \<longleftrightarrow> (\<forall>p. pprev n = Some p \<longrightarrow> (\<exists>chain anc anc'. chain_of T p = Some chain
     \<and> anchor_ok T anc
     \<and> GetNextWorkRequired (bn E) fTestNet anc chain (idx_nTime n) = Some (idx_nBits n, anc')
     \<and> GetMedianTimePast chain < uint (idx_nTime n) \<and> CheckpointOk (idx_nHeight n) (hashBlock n)))"

definition tree_rules :: "'b env \<Rightarrow> bool \<Rightarrow> (int \<Rightarrow> uint256 \<Rightarrow> bool) \<Rightarrow> block_tree \<Rightarrow> bool" where
  "tree_rules E fTestNet CheckpointOk T \<longleftrightarrow> (\<forall>i n. T i = Some n \<longrightarrow> follows_rules E fTestNet CheckpointOk T n)"

lemma tree_anchor_unique:
  assumes ok: "tree_ok G T" and rules: "tree_rules E fTestNet CheckpointOk T" and pins: "pins_activation CheckpointOk"
    and A: "tree_anchor T A" and B: "tree_anchor T B"
  shows "A = B"
proof -
  obtain x where x: "\<And>h. CheckpointOk PHOENIX_ACTIVATION_HEIGHT h \<Longrightarrow> h = x" using pins unfolding pins_activation_def by blast
  obtain i n j m where i: "T i = Some n" "idx_nHeight n = PHOENIX_ACTIVATION_HEIGHT" "pprev n = Some j" "T j = Some m"
    "A = (idx_nBits n, uint (idx_nTime m))" using A unfolding tree_anchor_def by blast
  obtain i' n' j' m' where i': "T i' = Some n'" "idx_nHeight n' = PHOENIX_ACTIVATION_HEIGHT" "pprev n' = Some j'" "T j' = Some m'"
    "B = (idx_nBits n', uint (idx_nTime m'))" using B unfolding tree_anchor_def by blast
  have "CheckpointOk (idx_nHeight n) (hashBlock n)" "CheckpointOk (idx_nHeight n') (hashBlock n')"
    using rules i(1,3) i'(1,3) unfolding tree_rules_def follows_rules_def by blast+
  then have "hashBlock n = hashBlock n'" using x i(2) i'(2) by metis
  then have "i = i'" using ok i(1) i'(1) unfolding tree_ok_def by blast
  then show ?thesis using i i' by simp
qed

text \<open>Then the target is what the rule demands with variables not set yet, from the block's own branch.\<close>

lemma rules_own_anchor:
  assumes ok: "tree_ok G T" and rules: "tree_rules E fTestNet CheckpointOk T" and n: "T i = Some n" "pprev n = Some p"
  shows "\<exists>chain. chain_of T p = Some chain \<and> GetMedianTimePast chain < uint (idx_nTime n)
    \<and> CheckpointOk (idx_nHeight n) (hashBlock n)
    \<and> (fTestNet \<or> idx_nHeight n \<le> PHOENIX_ACTIVATION_HEIGHT \<or> pins_activation CheckpointOk \<longrightarrow>
       (\<exists>anc. GetNextWorkRequired (bn E) fTestNet (0, 0) chain (idx_nTime n) = Some (idx_nBits n, anc)))"
proof -
  obtain chain anc anc' where c: "chain_of T p = Some chain" "anchor_ok T anc"
    "GetNextWorkRequired (bn E) fTestNet anc chain (idx_nTime n) = Some (idx_nBits n, anc')"
    "GetMedianTimePast chain < uint (idx_nTime n)" "CheckpointOk (idx_nHeight n) (hashBlock n)"
    using rules n unfolding tree_rules_def follows_rules_def by blast
  from tree_okD [OF ok n(1)] n(2) obtain m where m: "T p = Some m" "idx_nHeight n = idx_nHeight m + 1" by (rule node_parent)
  have hd: "idx_nHeight (hd chain) = idx_nHeight m" using ok m(1) c(1) by (rule hd_chain_of)
  have "\<exists>anc. GetNextWorkRequired (bn E) fTestNet (0, 0) chain (idx_nTime n) = Some (idx_nBits n, anc)"
    if side: "fTestNet \<or> idx_nHeight n \<le> PHOENIX_ACTIVATION_HEIGHT \<or> pins_activation CheckpointOk"
  proof (rule GetNextWorkRequired_other_anchor [OF c(3)])
    show "fTestNet \<or> idx_nHeight (hd chain) + 1 \<le> PHOENIX_ACTIVATION_HEIGHT \<or> fst anc = 0 \<or> activation_anchor chain = Some anc"
    proof (cases "fTestNet \<or> idx_nHeight n \<le> PHOENIX_ACTIVATION_HEIGHT \<or> fst anc = 0")
      case True
      then show ?thesis using m(2) hd by auto
    next
      case False
      then have "PHOENIX_ACTIVATION_HEIGHT \<le> idx_nHeight m" "tree_anchor T anc" using m(2) c(2) by (simp_all add: anchor_ok_def)
      obtain A where A: "activation_anchor chain = Some A"
        by (rule activation_anchor_exists [OF ok m(1) \<open>PHOENIX_ACTIVATION_HEIGHT \<le> idx_nHeight m\<close> c(1)])
      have "tree_anchor T A" using activation_anchor_tree [OF ok _ c(1) A] m(1) by simp
      then have "A = anc" using tree_anchor_unique [OF ok rules _ _ \<open>tree_anchor T anc\<close>] side False by blast
      then show ?thesis using A by simp
    qed
  qed
  then show ?thesis using c by blast
qed

section \<open>Accepting a block\<close>

text \<open>A call of AcceptBlock adds at most one node, which follows the rules.\<close>

lemma AcceptBlock_node:
  assumes idx: "index_ok (hashGenesisBlock E) s" and anc: "anchor_ok (tree s) (anchor s)"
    and acc: "AcceptBlock E fTestNet CheckpointOk now syncOk block stored a s = Some (r, s')"
    and new: "tree s' \<noteq> tree s"
  obtains n where "tree s' = (tree s)(a := Some n)" "follows_rules E fTestNet CheckpointOk (tree s) n"
proof -
  let ?h = "header_hash (hashes E) block" and ?prev = "mapBlockIndex s (hashPrevBlock block)"
  have ok: "tree_ok (hashGenesisBlock E) (tree s)" using idx by (simp add: index_ok_def)
  have dup: "mapBlockIndex s ?h = None" using acc new by (auto simp: AcceptBlock_def split: if_splits)
  show ?thesis
  proof (cases "?h = hashGenesisBlock E")
    case True
    have "\<not> (\<exists>i. tree s i \<noteq> None)" using idx dup True unfolding index_ok_def by metis
    then have none: "?prev = None" using idx unfolding index_ok_def by (metis not_Some_eq)
    from acc dup True have "AddToBlockIndex E block stored a s = (r, s')" by (simp add: AcceptBlock_def)
    then obtain n where "tree s' = (tree s)(a := Some n)" "pprev n = None"
      using dup none by (auto simp: AddToBlockIndex_def Let_def)
    then show ?thesis using that by (simp add: follows_rules_def)
  next
    case False
    from acc dup False new obtain p chain required anc u where
      p: "?prev = Some p" and chain: "chain_of (tree s) p = Some chain"
      and req: "GetNextWorkRequired (bn E) fTestNet (anchor s) chain (nTime block) = Some (required, anc)"
      and chk: "accept_checks E fTestNet CheckpointOk now syncOk block chain (nBestHeight s) required = Inr u"
      and add: "AddToBlockIndex E block stored a (s\<lparr>anchor := anc\<rparr>) = (r, s')"
      by (auto simp: AcceptBlock_def Let_def split: option.splits sum.splits prod.splits)
    obtain m where m: "tree s p = Some m" using idx p unfolding index_ok_def by blast
    from add dup p obtain n where n: "tree s' = (tree s)(a := Some n)" "pprev n = Some p" "idx_nTime n = nTime block"
      "idx_nBits n = nBits block" "hashBlock n = ?h" "idx_nHeight n = idx_nHeight m + 1"
      by (auto simp: AddToBlockIndex_def Let_def tree_height_def m)
    have "idx_nHeight (hd chain) = idx_nHeight m" using ok m chain by (rule hd_chain_of)
    then have "follows_rules E fTestNet CheckpointOk (tree s) n"
      using n accept_checks_Inr [OF chk] req chain \<open>anchor_ok (tree s) (anchor s)\<close> unfolding follows_rules_def
      by (intro allI impI exI [of _ chain] exI [of _ "anchor s"] exI [of _ anc]) simp
    with n(1) show ?thesis by (rule that)
  qed
qed

text \<open>The static variables are set by AcceptBlock only, to the anchor of the branch it looks at.\<close>

lemma AddToBlockIndex_anchor: "anchor (snd (AddToBlockIndex E block stored a s)) = anchor s"
  by (simp add: AddToBlockIndex_def Let_def)

lemma AcceptBlock_anchor:
  assumes ok: "tree_ok G (tree s)" and idx: "\<And>h p. mapBlockIndex s h = Some p \<Longrightarrow> tree s p \<noteq> None"
    and anc: "anchor_ok (tree s) (anchor s)"
    and acc: "AcceptBlock E fTestNet CheckpointOk now syncOk block stored a s = Some (r, s')"
  shows "anchor_ok (tree s) (anchor s')"
proof -
  have "anchor s' = anchor s \<or> (\<exists>p chain required. mapBlockIndex s (hashPrevBlock block) = Some p \<and> chain_of (tree s) p = Some chain
      \<and> GetNextWorkRequired (bn E) fTestNet (anchor s) chain (nTime block) = Some (required, anchor s'))"
    using acc AddToBlockIndex_anchor [of E block stored a s]
    by (auto simp: AcceptBlock_def Let_def split: if_splits option.splits sum.splits prod.splits
      dest!: arg_cong [where f = "\<lambda>x. anchor (snd x)"] simp: AddToBlockIndex_anchor)
  then show ?thesis
  proof (elim disjE exE conjE)
    fix p chain required
    assume p: "mapBlockIndex s (hashPrevBlock block) = Some p" "chain_of (tree s) p = Some chain"
      "GetNextWorkRequired (bn E) fTestNet (anchor s) chain (nTime block) = Some (required, anchor s')"
    from GetNextWorkRequired_anchor [OF p(3)] show ?thesis
      using anc activation_anchor_tree [OF ok idx [OF p(1)] p(2), of "anchor s'"] by (metis anchor_ok_def)
  qed (use anc in simp)
qed

lemma commit_chain_anchor: "anchor (snd (commit_chain disk xs ys p v s)) = anchor s"
  by (simp add: commit_chain_def Let_def split: option.split)

lemma SetBestChain_anchor: "SetBestChain E disk p s = Some (r, s') \<Longrightarrow> anchor s' = anchor s"
  unfolding SetBestChain_def Let_def
  by (auto split: prod.splits sum.splits bind_splits dest!: arg_cong [where f = "\<lambda>x. anchor (snd x)"]
    simp: commit_chain_anchor)

section \<open>Every reachable state\<close>

lemma follows_rules_extend:
  assumes ok: "tree_ok G T" "tree_ok G (T(a := Some k))" and a: "T a = None" and old: "follows_rules E fTestNet CheckpointOk T n"
  shows "follows_rules E fTestNet CheckpointOk (T(a := Some k)) n"
proof -
  have "chain_of (T(a := Some k)) p = Some chain" if "chain_of T p = Some chain" for p chain
  proof (cases "T p")
    case None
    then have "path T None (Some p) = Some (Inl Assertion)" by (simp add: path.simps)
    with that show ?thesis by (simp add: chain_of_def)
  next
    case (Some m)
    then show ?thesis using chain_of_extend [OF ok(1) a _ ok(2)] that by simp
  qed
  moreover have "anchor_ok (T(a := Some k)) anc" if "anchor_ok T anc" for anc using that a by (rule anchor_ok_extend)
  ultimately show ?thesis using old unfolding follows_rules_def by metis
qed

lemma reachable_rules:
  "reachable E fTestNet CheckpointOk s \<Longrightarrow> tree_rules E fTestNet CheckpointOk (tree s) \<and> anchor_ok (tree s) (anchor s)"
proof (induction rule: reachable.induct)
  case start
  then show ?case by (simp add: no_chain_def tree_rules_def anchor_ok_def)
next
  case (accept s block a now syncOk stored r s')
  have inv: "chain_inv E s" using accept.hyps(1) by (rule reachable_inv)
  then have idx: "index_ok (hashGenesisBlock E) s" by (simp add: chain_inv_def)
  have inv': "chain_inv E s'" using inv accept.hyps(3,4,5) by (rule AcceptBlock_inv)
  have ok: "tree_ok (hashGenesisBlock E) (tree s)" "tree_ok (hashGenesisBlock E) (tree s')"
    using idx inv' by (simp_all add: index_ok_def chain_inv_def)
  have "tree s p \<noteq> None" if "mapBlockIndex s h = Some p" for h p using idx that unfolding index_ok_def by blast
  then have anc: "anchor_ok (tree s) (anchor s')"
    using AcceptBlock_anchor [OF ok(1) _ conjunct2 [OF accept.IH] accept.hyps(5)] by blast
  show ?case
  proof (cases "tree s' = tree s")
    case True
    then show ?thesis using accept.IH anc by simp
  next
    case False
    obtain k where k: "tree s' = (tree s)(a := Some k)" "follows_rules E fTestNet CheckpointOk (tree s) k"
      by (rule AcceptBlock_node [OF idx conjunct2 [OF accept.IH] accept.hyps(5) False])
    have "follows_rules E fTestNet CheckpointOk (tree s) n" if "tree s' i = Some n" for i n
      using accept.IH that k by (auto simp: tree_rules_def split: if_splits)
    then have "tree_rules E fTestNet CheckpointOk (tree s')"
      using follows_rules_extend [OF ok(1) ok(2) [unfolded k(1)] accept.hyps(3)] unfolding tree_rules_def k(1) by blast
    then show ?thesis using anchor_ok_extend [OF anc accept.hyps(3), of k] k(1) by (simp del: fun_upd_apply)
  qed
next
  case (best s p disk r s')
  have inv: "chain_inv E s" using best.hyps(1) by (rule reachable_inv)
  have "tree s' = tree s" by (rule SetBestChain_effect [OF inv best.hyps(2), of disk]) (use best.hyps(3) in auto)
  then show ?case using best.IH SetBestChain_anchor [OF best.hyps(3)] by simp
qed

end
