(* ===== verification/Node.thy ===== *)
theory Node
  imports AcceptRules
begin

text \<open>
  The properties of the node as a whole: what holds in every state it can reach by accepting blocks and
  moving its best chain, and what a call of SetBestChain does there.
\<close>

section \<open>The properties\<close>

text \<open>What coins on the disk and in the caches are to those of the replay: the same, or read back from a file.\<close>

definition holds_replay :: "coins_view \<Rightarrow> (uint256 \<Rightarrow> CCoins option) \<Rightarrow> bool" where
  "holds_replay v L \<longleftrightarrow> (\<forall>t. live_at v t = L t \<or> live_at v t = map_option disk_coins (L t))"

lemma stores_holds: "stores disk_version v L \<Longrightarrow> holds_replay v L"
  by (auto simp: stores_def stored_as_def holds_replay_def disk_coins_def split: option.splits)

text \<open>
  C1: the coin database is the replay of the best chain. In every state the node can reach, whatever
  branches it connected, disconnected and flushed on the way, there is exactly one set of coins that comes
  from connecting the blocks of the best chain one after the other from an empty database, and pcoinsTip has
  unspent outputs of the same transactions: each CCoins is that of the replay, or what the disk makes of it,
  which is the same but for a negative version of its transaction.
\<close>

theorem coins_are_the_replay:
  assumes "reachable E fTestNet CheckpointOk s"
  shows "\<exists>L. (\<forall>L'. replay E (tree s) (pindexBest s) L' \<longleftrightarrow> L' = L)
    \<and> (\<forall>t. live_at (pcoinsTip s) t = L t \<or> live_at (pcoinsTip s) t = map_option disk_coins (L t))"
proof -
  have "chain_inv E s" using assms by (rule reachable_inv)
  then obtain L where "tree_ok (hashGenesisBlock E) (tree s)" "replay E (tree s) (pindexBest s) L"
    "stores disk_version (pcoinsTip s) L"
    by (auto simp: chain_inv_def index_ok_def at_end_def)
  moreover from stores_holds [OF this(3)] have
    "\<forall>t. live_at (pcoinsTip s) t = L t \<or> live_at (pcoinsTip s) t = map_option disk_coins (L t)" by (simp add: holds_replay_def)
  ultimately show ?thesis using replay_unique by blast
qed

text \<open>
  C2: the money in a node, below height 67276800 (64 halvings, from where on the shift of GetBlockValue is
  by 64 bits and more). In every state the node can reach whose best block is below it the unspent money of
  pcoinsTip is at most the subsidies of the best chain up to its height, which stay within MAX_MONEY.
\<close>

theorem node_money_bounded:
  assumes "reachable E fTestNet CheckpointOk s" and "pindexBest s = Some i"
    and "tree_height (tree s) i < 64 * 1051200"
  shows "money_supply (pcoinsTip s) \<le> total_subsidy (nat (tree_height (tree s) i) + 1)
    \<and> money_supply (pcoinsTip s) \<le> MAX_MONEY"
proof -
  have inv: "chain_inv E s" using assms(1) by (rule reachable_inv)
  then have ok: "tree_ok (hashGenesisBlock E) (tree s)"
    and known: "tree s i \<noteq> None" and "\<exists>L. replay E (tree s) (Some i) L \<and> stores disk_version (pcoinsTip s) L"
    using assms(2) by (auto simp: chain_inv_def index_ok_def at_end_def)
  then obtain L where rep: "replay E (tree s) (Some i) L" and L: "stores disk_version (pcoinsTip s) L" by blast
  from ok known have "0 \<le> tree_height (tree s) i" by (auto simp: tree_height_def node_ok_def dest: tree_okD)
  then have "nat (tree_height (tree s) i) + 1 \<le> 64 * 1051200" using assms(3) by linarith
  from total_subsidy_bound [OF this] have "total_subsidy (nat (tree_height (tree s) i) + 1) \<le> MAX_MONEY"
    by (simp add: MoneyRange_def)
  moreover have "money_supply (pcoinsTip s) \<le> total_subsidy (nat (tree_height (tree s) i) + 1)"
    using replay_supply [OF ok rep] by (simp add: stores_supply [OF L])
  ultimately show ?thesis by simp
qed

text \<open>
  C3: SetBestChain returns. From every state the node can reach and for every block of its tree, the search
  for the fork and the walks of both branches end, no assertion of them fails and no null pointer is
  followed, and every block of the shorter branch is disconnected cleanly: what can go wrong is a block
  of the longer branch that ConnectBlock refuses, or the disk.
\<close>

theorem SetBestChain_returns:
  assumes "reachable E fTestNet CheckpointOk s" and "tree s p \<noteq> None"
  shows "\<exists>r s'. SetBestChain E disk p s = Some (r, s') \<and> r \<noteq> Inl Assertion \<and> r \<noteq> Inl Failure"
  by (rule SetBestChain_effect [OF reachable_inv [OF assms(1)] assms(2), of disk]) blast

text \<open>
  A node can go back. From every state it can reach, SetBestChain to a block of the best chain succeeds
  while the disk does, and leaves that block as the best one.
\<close>

theorem SetBestChain_goes_back:
  assumes "reachable E fTestNet CheckpointOk s" and "line (tree s) (pindexBest s) (newer @ p # older)"
    and "disk = No_flush \<or> disk = Flush_done"
  shows "\<exists>s'. SetBestChain E disk p s = Some (Inr (), s') \<and> pindexBest s' = Some p
    \<and> (\<exists>L. replay E (tree s) (Some p) L \<and> holds_replay (pcoinsTip s') L)"
proof -
  have known: "tree s p \<noteq> None" using line_known [OF assms(2), of p] by simp
  obtain r s' where r: "SetBestChain E disk p s = Some (r, s')" "r \<noteq> Inl Abort \<Longrightarrow> chain_inv E s'" "tree s' = tree s"
    "r = Inr () \<Longrightarrow> pindexBest s' = Some p" "r = Inr ()"
    by (rule SetBestChain_effect [OF reachable_inv [OF assms(1)] known, of disk])
      (use assms(2,3) in \<open>auto dest!: meta_spec [where x = "newer @ p # older"]\<close>)
  then have "at_end E (tree s) (Some p) (pcoinsTip s')" by (simp add: chain_inv_def)
  then obtain L where "replay E (tree s) (Some p) L" "holds_replay (pcoinsTip s') L"
    using stores_holds by (auto simp: at_end_def)
  with r show ?thesis by blast
qed

lemma SetBestChain_accepted:
  assumes "reachable E fTestNet CheckpointOk s" and "line (tree s) (Some p) is"
    and "list_all (acceptable E (tree s)) is" and "disk = No_flush \<or> disk = Flush_done"
  shows "\<exists>s'. SetBestChain E disk p s = Some (Inr (), s') \<and> pindexBest s' = Some p \<and> tree s' = tree s
    \<and> (\<exists>L. replay E (tree s) (Some p) L \<and> holds_replay (pcoinsTip s') L)"
proof -
  have known: "tree s p \<noteq> None" using line_head [OF assms(2)] by auto
  obtain r s' where r: "SetBestChain E disk p s = Some (r, s')" "r \<noteq> Inl Abort \<Longrightarrow> chain_inv E s'" "tree s' = tree s"
    "r = Inr () \<Longrightarrow> pindexBest s' = Some p" "r = Inr ()"
    by (rule SetBestChain_effect [OF reachable_inv [OF assms(1)] known, of disk])
      (use assms(2-4) in \<open>auto dest!: meta_spec [where x = "is"]\<close>)
  then have "at_end E (tree s) (Some p) (pcoinsTip s')" by (simp add: chain_inv_def)
  then obtain L where "replay E (tree s) (Some p) L" "holds_replay (pcoinsTip s') L"
    using stores_holds by (auto simp: at_end_def)
  with r show ?thesis by blast
qed

text \<open>
  C5: a better branch is taken. If every block of the branch of p is readable and is one that ConnectBlock
  accepts at the end of its parent's branch, SetBestChain to p succeeds from every state the node can reach,
  provided that no flush is due or that it finishes (the disk has space and takes the data); p is the best
  block then, and pcoinsTip has the coins of the replay of its branch, but for negative versions lost on disk.
\<close>

theorem SetBestChain_succeeds:
  assumes "reachable E fTestNet CheckpointOk s" and "line (tree s) (Some p) is"
    and "list_all (acceptable E (tree s)) is" and "disk = No_flush \<or> disk = Flush_done"
  shows "\<exists>s'. SetBestChain E disk p s = Some (Inr (), s') \<and> pindexBest s' = Some p \<and> tree s' = tree s
    \<and> (\<exists>L. replay E (tree s) (Some p) L
      \<and> (\<forall>t. live_at (pcoinsTip s') t = L t \<or> live_at (pcoinsTip s') t = map_option disk_coins (L t)))"
  using SetBestChain_accepted [OF assms] unfolding holds_replay_def .

text \<open>
  C4: a refused block changes no coins. When SetBestChain returns because ConnectBlock refused a block, the
  best block, its height and hash, the links of the main chain and the tree are as before, and pcoinsTip
  answers as before; only caches and undo files have grown.
\<close>

theorem SetBestChain_refused:
  assumes "reachable E fTestNet CheckpointOk s" and "tree s p \<noteq> None"
    and "SetBestChain E disk p s = Some (Inl (Rejected verdict), s')"
  shows "\<exists>tip c u. s' = s\<lparr>pcoinsTip := tip, sigcache := c, undo_file := u\<rparr> \<and> coins_at tip = coins_at (pcoinsTip s)"
  by (rule SetBestChain_effect [OF reachable_inv [OF assms(1)] assms(2), of disk]) (use assms(3) in auto)

lemma next_on_iff: "distinct is \<Longrightarrow> next_on is i = Some j \<longleftrightarrow> (\<exists>xs ys. is = xs @ j # i # ys)"
proof (induction "is" rule: next_on.induct)
  case (1 k l "is")
  have "next_on (k # l # is) i = Some j \<longleftrightarrow> i = l \<and> j = k \<or> i \<noteq> l \<and> (\<exists>xs ys. l # is = xs @ j # i # ys)"
    using 1 by auto
  also have "\<dots> \<longleftrightarrow> (\<exists>xs ys. k # l # is = xs @ j # i # ys)" (is "?l = ?r")
  proof
    assume ?l
    then show ?r
    proof (elim disjE conjE exE)
      assume "i = l" "j = k"
      then show ?r by (intro exI [of _ "[]"] exI [of _ "is"]) simp
    next
      fix xs ys assume "l # is = xs @ j # i # ys"
      then show ?r by (intro exI [of _ "k # xs"] exI [of _ ys]) simp
    qed
  next
    assume ?r
    then obtain xs ys where e: "k # l # is = xs @ j # i # ys" by blast
    show ?l
    proof (cases xs)
      case Nil
      then show ?thesis using e by simp
    next
      case (Cons x zs)
      then have e': "l # is = zs @ j # i # ys" using e by simp
      then have "i \<noteq> l" using 1(2) by (cases zs) auto
      then show ?thesis using e' by blast
    qed
  qed
  finally show ?case .
qed auto

text \<open>
  Pnext links the main chain. In every state the node can reach, pnext of an index is the one that
  follows it on the best chain, and null for the best block and every index off the best chain.
\<close>

theorem pnext_is_main_chain:
  assumes "reachable E fTestNet CheckpointOk s" and "line (tree s) (pindexBest s) is"
  shows "pnext s i = Some j \<longleftrightarrow> (\<exists>newer older. is = newer @ j # i # older)"
proof -
  have inv: "chain_inv E s" using assms(1) by (rule reachable_inv)
  then have "pnext s = next_on is" "tree_ok (hashGenesisBlock E) (tree s)" using assms(2) by (simp_all add: chain_inv_def index_ok_def)
  moreover from this(2) have "distinct is" using assms(2) by (rule line_distinct)
  ultimately show ?thesis using next_on_iff by simp
qed

text \<open>
  C6: every block in the tree keeps the rules of its place. In every state the node can reach, each block
  after the first has a time above the median of the eleven blocks before it, agrees with the checkpoints, and
  has the target that GetNextWorkRequired demands over its own ancestors, called with static variables not set
  yet: up to the activation height of the Phoenix rule always, and above it when the checkpoints let one block
  at most pass at that height, as the table of checkpoints.cpp does (checkpoints_pin_activation). Without that
  the node may have used the anchor of another branch.
\<close>

theorem tree_follows_rules:
  assumes "reachable E fTestNet CheckpointOk s" and "tree s i = Some n" and "pprev n = Some p"
  shows "\<exists>chain. chain_of (tree s) p = Some chain \<and> GetMedianTimePast chain < uint (idx_nTime n)
    \<and> CheckpointOk (idx_nHeight n) (hashBlock n)
    \<and> (fTestNet \<or> idx_nHeight n \<le> PHOENIX_ACTIVATION_HEIGHT \<or> pins_activation CheckpointOk \<longrightarrow>
       (\<exists>anc. GetNextWorkRequired (bn E) fTestNet (0, 0) chain (idx_nTime n) = Some (idx_nBits n, anc)))"
proof -
  have "tree_ok (hashGenesisBlock E) (tree s)" "tree_rules E fTestNet CheckpointOk (tree s)"
    using reachable_inv [OF assms(1)] reachable_rules [OF assms(1)] by (simp_all add: chain_inv_def index_ok_def)
  then show ?thesis using assms(2,3) by (rule rules_own_anchor)
qed

section \<open>A concrete run\<close>

definition two_env :: "int env" where
  "two_env = toy_env\<lparr>hashes := plain_crypto, hashGenesisBlock := 1\<rparr>"

definition block_at :: "int \<Rightarrow> uint256 \<Rightarrow> u32 \<Rightarrow> CBlock" where
  "block_at version prev time = \<lparr>nBlockVersion = version, hashPrevBlock = prev,
     hashMerkleRoot = tx_hash plain_crypto first_coinbase, nTime = time, nBits = 0x1e0fffff, nNonce = 7,
     vtx = [first_coinbase]\<rparr>"

lemma two_CheckBlock: "CheckBlock two_env (block_at version prev time) True True = Accept"
proof -
  let ?b = "block_at version prev time"
  have pow: "CheckProofOfWork int_bn 0 0x1e0fffff"
    by (simp add: int_bn.CheckProofOfWork_eq int_bn.val_SetCompact [simplified] compact_mag_def bit_iff_odd)
  have size: "size_block ?b = 144"
    by (simp add: size_block_def block_at_def first_coinbase_def size_vec_def size_tx_def size_txin_def
      size_txout_def size_bytes_def GetSizeOfCompactSize_def)
  have tx: "CheckTransaction first_coinbase = Accept" "IsCoinBase first_coinbase"
    by (simp_all add: CheckTransaction_def first_coinbase_def IsCoinBase_def COutPoint_IsNull_def COutPoint_null_def
      MAX_MONEY_def COIN_def MoneyRange_def size_vec_def size_tx_def size_txin_def size_txout_def size_bytes_def
      GetSizeOfCompactSize_def MAX_BLOCK_SIZE_def)
  have sig: "GetLegacySigOpCount first_coinbase = 0" by code_simp
  have mr: "BuildMerkleTree plain_crypto [first_coinbase] = tx_hash plain_crypto first_coinbase"
    by (simp add: BuildMerkleTree_def vMerkleTree_def merkle_loop.simps)
  show ?thesis using pow size tx sig mr
    by (simp add: CheckBlock_def) (simp add: block_at_def two_env_def toy_env_def MAX_BLOCK_SIZE_def MAX_BLOCK_SIGOPS_def)
qed

lemma le_val_ser_word: "le_val (ser_word (w :: 'a::len word)) = unat w mod 256 ^ (LENGTH('a) div 8)"
  by (simp add: ser_word_def le_val_le_fixed)

text \<open>With the identity as hash function the hash of a block is its version and the low part of its parent.\<close>

lemma plain_header_hash:
  "header_hash plain_crypto b = word_of_nat (le_val (ser_int (nBlockVersion b))) + 2 ^ 32 * hashPrevBlock b"
proof -
  have "unat (hashPrevBlock b) < 256 ^ 32" using unsigned_less [of "hashPrevBlock b", where ?'a = nat] by simp
  then have p: "le_val (ser_word (hashPrevBlock b)) = unat (hashPrevBlock b)" by (simp add: le_val_ser_word)
  have l: "length (ser_int (nBlockVersion b)) = 4" "length (ser_word (hashPrevBlock b)) = 32"
    by (simp_all add: ser_int_def length_ser_word)
  define X where "X = le_val (ser_word (hashMerkleRoot b) @ ser_word (nTime b) @ ser_word (nBits b) @ ser_word (nNonce b))"
  have z: "(256 ^ 4 * 256 ^ 32 :: uint256) = 0" by simp
  have "header_hash plain_crypto b =
    word_of_nat (le_val (ser_int (nBlockVersion b)) + 256 ^ 4 * (unat (hashPrevBlock b) + 256 ^ 32 * X))"
    by (simp only: header_hash_def Hash_bytes_def plain_crypto_def ser_header_def u256_of_bytes_def crypto.simps id_apply
      le_val_append l p X_def)
  also have "\<dots> = word_of_nat (le_val (ser_int (nBlockVersion b))) + 256 ^ 4 * word_of_nat (unat (hashPrevBlock b))
      + (256 ^ 4 * 256 ^ 32) * word_of_nat X"
    by (simp only: of_nat_add of_nat_mult of_nat_power of_nat_numeral distrib_left mult.assoc add.assoc)
  finally show ?thesis unfolding z by simp
qed

lemma two_hash: "header_hash plain_crypto (block_at 1 0 5) = 1"
  "header_hash plain_crypto (block_at 2 1 6) = 0x100000002"
  by (simp_all add: plain_header_hash block_at_def ser_int_def le_val_ser_word)

definition node_at :: "int \<Rightarrow> int \<Rightarrow> u32 \<Rightarrow> nat option \<Rightarrow> uint256 \<Rightarrow> uint256 \<Rightarrow> CBlock \<Rightarrow> block_node" where
  "node_at h version time prev hash work b = \<lparr>idx_nHeight = h, idx_nVersion = version, idx_nTime = time, idx_nBits = 0x1e0fffff,
     pprev = prev, hashBlock = hash, nChainWork = work, block_file = Some b\<rparr>"

definition two_work :: uint256 where
  "two_work = getuint256 int_bn (GetBlockWork int_bn 0x1e0fffff)"

abbreviation genesis_block :: CBlock where "genesis_block \<equiv> block_at 1 0 5"
abbreviation second_block :: CBlock where "second_block \<equiv> block_at 2 1 6"

definition first_node :: block_node where "first_node = node_at 0 1 5 None 1 two_work genesis_block"
definition second_node :: block_node where
  "second_node = node_at 1 2 6 (Some 0) 0x100000002 (two_work + two_work) second_block"

definition run1 :: chain_state where
  "run1 = no_chain\<lparr>mapBlockIndex := [1 \<mapsto> 0], tree := [0 \<mapsto> first_node]\<rparr>"

definition run2 :: chain_state where
  "run2 = no_chain\<lparr>mapBlockIndex := [1 \<mapsto> 0, 0x100000002 \<mapsto> 1], tree := [0 \<mapsto> first_node, 1 \<mapsto> second_node]\<rparr>"

lemma two_env_simps:
  "bn two_env = int_bn" "hashes two_env = plain_crypto" "hashGenesisBlock two_env = 1" "GetPoWHash two_env = (\<lambda>b. 0)"
  "total_blocks_estimate two_env = 0"
  by (simp_all add: two_env_def toy_env_def)

lemma block_at_simps:
  "nBlockVersion (block_at v p t) = v" "hashPrevBlock (block_at v p t) = p" "nTime (block_at v p t) = t"
  "nBits (block_at v p t) = 0x1e0fffff" "vtx (block_at v p t) = [first_coinbase]"
  by (simp_all add: block_at_def)

lemma run_accept1: "AcceptBlock two_env False ok 100 True genesis_block (Some genesis_block) 0 no_chain = Some (Inr (), run1)"
  by (simp add: AcceptBlock_def AddToBlockIndex_def two_env_simps two_hash block_at_simps run1_def no_chain_def first_node_def node_at_def two_work_def)

lemma two_read: "ReadFromDisk two_env (node_at h v t p (header_hash plain_crypto b) w b) = Some b" if "nBits b = 0x1e0fffff"
proof -
  have "CheckProofOfWork int_bn 0 0x1e0fffff"
    by (simp add: int_bn.CheckProofOfWork_eq int_bn.val_SetCompact [simplified] compact_mag_def bit_iff_odd)
  then show ?thesis using that by (simp add: ReadFromDisk_def two_env_simps node_at_def)
qed

lemma run_accept2:
  assumes "ok 1 0x100000002"
  shows "AcceptBlock two_env False ok 100 True second_block (Some second_block) 1 run1 = Some (Inr (), run2)"
proof -
  have p: "path [0 \<mapsto> first_node] None (Some 0) = Some (Inr [0])"
    by (simp add: path.simps first_node_def node_at_def)
  have c: "chain_of [0 \<mapsto> first_node] 0 = Some [\<lparr>idx_nHeight = 0, idx_nVersion = 1, idx_nTime = 5, idx_nBits = 0x1e0fffff\<rparr>]"
    unfolding chain_of_def p by (simp add: first_node_def node_at_def CBlockIndex.defs)
  have g: "GetNextWorkRequired int_bn False anc [\<lparr>idx_nHeight = 0, idx_nVersion = 1, idx_nTime = 5, idx_nBits = 0x1e0fffff\<rparr>] 6
      = Some (0x1e0fffff, anc)" for anc
    by (simp add: GetNextWorkRequired_def Let_def PHOENIX_ACTIVATION_HEIGHT_def nDiffChangeTarget_def nInterval_def
      nTargetTimespan_def nTargetSpacing_def c_div_def c_mod_def)
  have k: "accept_checks two_env False ok 100 True second_block
      [\<lparr>idx_nHeight = 0, idx_nVersion = 1, idx_nTime = 5, idx_nBits = 0x1e0fffff\<rparr>] best 0x1e0fffff = Inr ()" for best
    by (simp add: accept_checks_def block_at_simps assms two_env_simps two_hash GetMedianTimePast_def nMedianTimeSpan_def IsFinal_def first_coinbase_def
      IsSuperMajority_def nSoftFork_def)
  show ?thesis
    by (simp add: AcceptBlock_def AddToBlockIndex_def two_env_simps two_hash block_at_simps run1_def run2_def no_chain_def c
      g k) (simp add: second_node_def first_node_def node_at_def tree_height_def two_work_def Let_def)
qed

lemma run2_reachable_at: "ok 1 0x100000002 \<Longrightarrow> reachable two_env False ok run2"
proof -
  assume ok: "ok 1 0x100000002"
  have "reachable two_env False ok run1"
    by (rule reachable.accept [OF reachable.start two_CheckBlock _ _ run_accept1]) (simp_all add: no_chain_def)
  then show ?thesis
    by (rule reachable.accept [OF _ two_CheckBlock _ _ run_accept2 [of ok, OF ok]])
      (simp_all add: run1_def block_at_simps tree_height_def first_node_def node_at_def no_chain_def)
qed

lemma run2_reachable: "reachable two_env False (\<lambda>_ _. True) run2"
  by (rule run2_reachable_at) simp

lemma run2_tree_ok: "tree_ok 1 (tree run2)"
  using reachable_inv [OF run2_reachable] by (simp add: chain_inv_def index_ok_def two_env_simps)

lemma run2_line: "line (tree run2) (Some 1) [1, 0]"
  by (simp add: run2_def no_chain_def first_node_def second_node_def node_at_def)

lemma first_acceptable: "acceptable two_env (tree run2) 0"
proof -
  have "tree run2 0 = Some first_node" by (simp add: run2_def)
  moreover have "ReadFromDisk two_env first_node = Some genesis_block"
    using two_read [of genesis_block] by (simp add: two_hash block_at_simps first_node_def)
  moreover have "fst (ConnectBlock two_env H genesis_block 0 h t None False v c) = Accept" if "at_end two_env T None v" for H h t v c T
    using that by (cases "GetBestBlock v") (auto simp: ConnectBlock_def two_CheckBlock two_env_simps two_hash at_end_def)
  ultimately show ?thesis unfolding acceptable_def by (simp add: first_node_def node_at_def)
qed

lemma bip30_none: "\<forall>h \<in> set hs. live_at v h = None \<Longrightarrow> \<exists>w. bip30 hs v = (True, w)"
proof (induction hs arbitrary: v)
  case (Cons h hs)
  obtain w where w: "FetchCoins v h = (coins_at v h, w)" "coins_at w = coins_at v" by (rule cache.fetch_cases)
  have "\<exists>x. bip30 hs w = (True, x)" using Cons live_at_cong [OF w(2)] by simp
  moreover have "live (coins_at v h) = None" using Cons.prems by (simp add: live_at_def)
  ultimately show ?case using w(1) by (auto simp: live_def split: option.splits if_splits)
qed simp

lemma second_acceptable: "acceptable two_env (tree run2) 1"
proof -
  have tree: "tree run2 0 = Some first_node" "tree run2 1 = Some second_node" by (simp_all add: run2_def)
  moreover have "ReadFromDisk two_env second_node = Some second_block"
    using two_read [of second_block] by (simp add: two_hash block_at_simps second_node_def)
  moreover have "fst (ConnectBlock two_env H second_block 1 1 6 (Some 0) False v c) = Accept" if at: "at_end two_env (tree run2) (Some 0) v" for H v c
  proof -
    obtain v1 where best: "GetBestBlock v = (Some 0, v1)" using at by (cases "GetBestBlock v") (simp add: at_end_def)
    obtain K where K: "replay two_env (tree run2) (Some 0) K" "stores disk_version v K" using at by (auto simp: at_end_def)
    from K(1) obtain L w u where L: "replay two_env (tree run2) None L" "connects two_env (tree run2) 0 L w u" "K = live_at w"
      by (rule replay_Some) (use tree(1) in \<open>simp add: first_node_def node_at_def\<close>)
    have "L = (\<lambda>_. None)" using L(1) by (rule replay_None)
    then have "K = (\<lambda>_. None)"
      using connects_genesis(1) [OF L(2) tree(1)] L(3) by (simp add: first_node_def node_at_def two_env_simps)
    then have "live_at v = (\<lambda>_. None)" using stores_holds [OF K(2)] by (auto simp: holds_replay_def)
    then have "\<forall>h \<in> set hs. live_at v1 h = None" for hs using live_at_cong [OF GetBestBlock_same [OF best]] by simp
    then obtain w2 where w2: "bip30 [tx_hash plain_crypto first_coinbase] v1 = (True, w2)" using bip30_none by blast
    have cb: "IsCoinBase first_coinbase" "GetLegacySigOpCount first_coinbase = 0" by code_simp+
    have "GetValueOut first_coinbase = Some (50 * COIN)"
      by (simp add: GetValueOut_def first_coinbase_def MoneyRange_def MAX_MONEY_def COIN_def)
    moreover have "50 * COIN \<le> GetBlockValue 1 0" by (simp add: GetBlockValue_eq [of 1, simplified] COIN_def)
    ultimately show ?thesis using best w2 cb
      by (simp add: ConnectBlock_def two_CheckBlock two_env_simps two_hash block_at_simps connect_tx_def Let_def UpdateCoins_def)
  qed
  ultimately show ?thesis unfolding acceptable_def by (simp add: second_node_def node_at_def)
qed

lemma run3:
  obtains s where "reachable two_env False (\<lambda>_ _. True) s" "pindexBest s = Some 1" "tree s = tree run2"
proof -
  obtain s where s: "SetBestChain two_env No_flush 1 run2 = Some (Inr (), s)" "pindexBest s = Some 1" "tree s = tree run2"
    using SetBestChain_accepted [OF run2_reachable run2_line, of No_flush] first_acceptable second_acceptable by auto
  have "reachable two_env False (\<lambda>_ _. True) s"
    by (rule reachable.best [OF run2_reachable _ s(1)]) (simp_all add: run2_def)
  with s show ?thesis using that by blast
qed

theorem coins_are_the_replay_witness:
  "\<exists>s. reachable two_env False (\<lambda>_ _. True) s \<and> pindexBest s = Some 1
    \<and> (\<exists>L. replay two_env (tree s) (Some 1) L
      \<and> (\<forall>t. live_at (pcoinsTip s) t = L t \<or> live_at (pcoinsTip s) t = map_option disk_coins (L t)))"
proof -
  obtain s where s: "reachable two_env False (\<lambda>_ _. True) s" "pindexBest s = Some 1" by (rule run3)
  with coins_are_the_replay [OF s(1)] show ?thesis by metis
qed

theorem node_money_bounded_witness:
  "\<exists>s. reachable two_env False (\<lambda>_ _. True) s \<and> pindexBest s = Some 1 \<and> money_supply (pcoinsTip s) \<le> total_subsidy 2"
proof -
  obtain s where s: "reachable two_env False (\<lambda>_ _. True) s" "pindexBest s = Some 1" "tree s = tree run2" by (rule run3)
  have "tree_height (tree s) 1 = 1" by (simp add: s(3) run2_def tree_height_def second_node_def node_at_def)
  with node_money_bounded [OF s(1,2)] have "money_supply (pcoinsTip s) \<le> total_subsidy (nat 1 + 1)" by auto
  then have "money_supply (pcoinsTip s) \<le> total_subsidy 2" by (simp add: numeral_2_eq_2)
  with s show ?thesis by blast
qed

theorem SetBestChain_returns_witness:
  "\<exists>r s'. SetBestChain two_env Flush_done 1 run2 = Some (r, s') \<and> r \<noteq> Inl Assertion \<and> r \<noteq> Inl Failure"
  by (rule SetBestChain_returns [OF run2_reachable]) (simp add: run2_def)

theorem SetBestChain_goes_back_witness:
  "\<exists>s s'. reachable two_env False (\<lambda>_ _. True) s \<and> pindexBest s = Some 1
    \<and> SetBestChain two_env No_flush 0 s = Some (Inr (), s') \<and> pindexBest s' = Some 0"
proof -
  obtain s where s: "reachable two_env False (\<lambda>_ _. True) s" "pindexBest s = Some 1" "tree s = tree run2" by (rule run3)
  have "line (tree s) (pindexBest s) ([1] @ 0 # [])" using run2_line s(2,3) by simp
  from SetBestChain_goes_back [OF s(1) this, of No_flush] s show ?thesis by auto
qed

theorem SetBestChain_succeeds_witness:
  "\<exists>s'. SetBestChain two_env No_flush 1 run2 = Some (Inr (), s') \<and> pindexBest s' = Some 1"
  using SetBestChain_succeeds [OF run2_reachable run2_line, of No_flush] first_acceptable second_acceptable by auto

theorem pnext_is_main_chain_witness:
  "\<exists>s. reachable two_env False (\<lambda>_ _. True) s \<and> pnext s 0 = Some 1"
proof -
  obtain s where s: "reachable two_env False (\<lambda>_ _. True) s" "pindexBest s = Some 1" "tree s = tree run2" by (rule run3)
  have "line (tree s) (pindexBest s) [1, 0]" using run2_line s(2,3) by simp
  from pnext_is_main_chain [OF s(1) this, of 0 1] have "pnext s 0 = Some 1" by (auto intro: exI [of _ "[]"])
  with s(1) show ?thesis by blast
qed

theorem tree_follows_rules_witness:
  "\<exists>chain anc. chain_of (tree run2) 0 = Some chain \<and> GetMedianTimePast chain < 6
    \<and> GetNextWorkRequired int_bn False (0, 0) chain 6 = Some (0x1e0fffff, anc)"
proof -
  let ?ok = "\<lambda>h x. h = PHOENIX_ACTIVATION_HEIGHT \<longrightarrow> x = (7 :: uint256)"
  have "reachable two_env False ?ok run2" by (rule run2_reachable_at) (simp add: PHOENIX_ACTIVATION_HEIGHT_def)
  moreover have "tree run2 1 = Some second_node" "pprev second_node = Some 0"
    by (simp_all add: run2_def second_node_def node_at_def)
  moreover have "pins_activation ?ok" by (auto simp: pins_activation_def)
  ultimately show ?thesis using tree_follows_rules [of two_env False ?ok run2 1 second_node 0]
    by (auto simp: two_env_simps second_node_def node_at_def)
qed

text \<open>A first block whose file has been damaged: the header is right and the transactions are gone.\<close>

definition damaged_block :: CBlock where "damaged_block = genesis_block\<lparr>vtx := []\<rparr>"

definition damaged_run :: chain_state where
  "damaged_run = no_chain\<lparr>mapBlockIndex := [1 \<mapsto> 0], tree := [0 \<mapsto> node_at 0 1 5 None 1 two_work damaged_block]\<rparr>"

lemma damaged_reachable: "reachable two_env False (\<lambda>_ _. True) damaged_run"
proof -
  have a: "AcceptBlock two_env False (\<lambda>_ _. True) 100 True genesis_block (Some damaged_block) 0 no_chain = Some (Inr (), damaged_run)"
    by (simp add: AcceptBlock_def AddToBlockIndex_def two_env_simps two_hash block_at_simps damaged_run_def no_chain_def
      node_at_def two_work_def)
  show ?thesis
    by (rule reachable.accept [OF reachable.start two_CheckBlock _ _ a]) (simp_all add: no_chain_def)
qed

lemma damaged_refused:
  obtains s' where "SetBestChain two_env No_flush 0 damaged_run = Some (Inl (Rejected (DoS 100)), s')"
proof -
  have n: "tree damaged_run 0 = Some (node_at 0 1 5 None 1 two_work damaged_block)" by (simp add: damaged_run_def)
  have h: "header_hash plain_crypto damaged_block = 1"
    by (simp add: plain_header_hash damaged_block_def block_at_def ser_int_def le_val_ser_word)
  have read: "ReadFromDisk two_env (node_at 0 1 5 None 1 two_work damaged_block) = Some damaged_block"
    using two_read [of damaged_block] h by (simp add: damaged_block_def block_at_def)
  have p: "path (tree damaged_run) None (Some 0) = Some (Inr [0])" "path (tree damaged_run) None None = Some (Inr [])"
    by (simp_all add: path.simps damaged_run_def) (simp add: node_at_def path.simps)
  have cb: "ConnectBlock two_env H damaged_block i hh t pp False v c = (DoS 100, v, c, [])" for H i hh t pp v c
    by (simp add: ConnectBlock_def CheckBlock_def damaged_block_def)
  have best: "GetBestBlock (pcoinsTip damaged_run) = (None, pcoinsTip damaged_run)"
    by (simp add: damaged_run_def no_chain_def GetBestBlock_def CCoinsViewCache_def)
  have best2: "GetBestBlock (CCoinsViewCache f None) = (None, CCoinsViewCache f None)" for f
    by (simp add: GetBestBlock_def CCoinsViewCache_def)
  show ?thesis
    by (rule that) (simp add: SetBestChain_def best best2 find_fork.simps p n read cb Let_def)
qed

theorem SetBestChain_refused_witness:
  "\<exists>s' tip c u. SetBestChain two_env No_flush 0 damaged_run = Some (Inl (Rejected (DoS 100)), s')
    \<and> s' = damaged_run\<lparr>pcoinsTip := tip, sigcache := c, undo_file := u\<rparr>"
proof -
  obtain s' where s': "SetBestChain two_env No_flush 0 damaged_run = Some (Inl (Rejected (DoS 100)), s')"
    by (rule damaged_refused)
  from SetBestChain_refused [OF damaged_reachable _ s'] s' show ?thesis by (auto simp: damaged_run_def)
qed

end
