(* ===== verification/Translation.thy ===== *)
theory Translation
  imports Main
begin

text \<open>
  The message catalogues of the user interface (src/qt/locale/*.ts) and the code that reads texts
  through them: Translate in qt/blazecoin.cpp, the function _ of ui_interface.h, and the choice of
  the language at start-up. A catalogue is a list of contexts, a context a list of messages in the
  order of the file, with the places in the sources that use them. Character data is kept as pieces:
  runs of printable ASCII, single ASCII characters that a literal cannot hold, and runs of other
  characters as code points. The compiled catalogue is searched by Qt, which is not part of the
  repository: its lookup is a parameter.
\<close>

section \<open>The format of the catalogues\<close>

datatype piece = A string | C char | U "nat list"

type_synonym utext = "piece list"

datatype location = At string int | Rel int

datatype message =
  Msg (locations: "location list") (source: utext) (unfinished: bool) (numerus: bool) (forms: "utext list")

type_synonym context_messages = "string \<times> message list"

type_synonym catalogue = "context_messages list"

section \<open>Conversion specifications\<close>

text \<open>
  The conversion specifications of a printf format (util.h, strprintf), in order: the characters
  between a percent sign and the conversion letter, and the letter. The state of the scan is the
  specification read so far, if any. A character outside ASCII is part of no specification.
\<close>

definition spec_chars :: string where "spec_chars = ''-+ #0123456789.*hlLqjztI''"

fun printf_char :: "string option \<Rightarrow> char \<Rightarrow> string list \<times> string option" where
  "printf_char None c = ([], if c = CHR ''%'' then Some [] else None)"
| "printf_char (Some acc) c =
     (if c \<in> set spec_chars then ([], Some (acc @ [c])) else ([acc @ [c]], None))"

text \<open>
  The place markers of QString::arg and of plural forms: percent, an optional L, digits; or percent n.
\<close>

definition digits :: string where "digits = ''0123456789''"

fun marker_char :: "string option \<Rightarrow> char \<Rightarrow> string list \<times> string option" where
  "marker_char None c = ([], if c = CHR ''%'' then Some [] else None)"
| "marker_char (Some acc) c =
     (if c \<in> set digits then ([], Some (acc @ [c]))
      else if acc = [] \<and> c = CHR ''n'' then ([[c]], None)
      else if acc = [] \<and> c = CHR ''L'' then ([], Some [c])
      else ([acc], if c = CHR ''%'' then Some [] else None))"

text \<open>Both are scans of the pieces of a text, character by character.\<close>

function scan :: "(string option \<Rightarrow> char \<Rightarrow> string list \<times> string option) \<Rightarrow> string option \<Rightarrow> utext \<Rightarrow> string list"
  where
  "scan f s [] = (case s of Some acc \<Rightarrow> [acc] | None \<Rightarrow> [])"
| "scan f s (A [] # ps) = scan f s ps"
| "scan f s (A (c # cs) # ps) = fst (f s c) @ scan f (snd (f s c)) (A cs # ps)"
| "scan f s (C c # ps) = fst (f s c) @ scan f (snd (f s c)) ps"
| "scan f s (U ns # ps) = (case s of Some acc \<Rightarrow> [acc] | None \<Rightarrow> []) @ scan f None ps"
  by pat_completeness auto
termination
  by (relation "measure (\<lambda>(f, s, t). sum_list (map (\<lambda>p. case p of A cs \<Rightarrow> length cs + 1 | _ \<Rightarrow> 1) t))")
    auto

definition printf_specs :: "utext \<Rightarrow> string list" where
  "printf_specs t = scan printf_char None t"

definition markers :: "utext \<Rightarrow> string list" where
  "markers t = scan marker_char None t"

text \<open>
  A translation agrees with its source when it is missing or has the same conversion specifications in
  the same order, and the same set of place markers.
\<close>

fun agree_printf :: "string list \<Rightarrow> utext list \<Rightarrow> bool" where
  "agree_printf specs [] = True"
| "agree_printf specs (f # fs) = ((f = [] \<or> printf_specs f = specs) \<and> agree_printf specs fs)"

fun agree_markers :: "string list \<Rightarrow> utext list \<Rightarrow> bool" where
  "agree_markers ms [] = True"
| "agree_markers ms (f # fs) = ((f = [] \<or> set (markers f) = set ms) \<and> agree_markers ms fs)"

definition same_printf :: "message \<Rightarrow> bool" where
  "same_printf m = agree_printf (printf_specs (source m)) (forms m)"

definition same_markers :: "message \<Rightarrow> bool" where
  "same_markers m = agree_markers (markers (source m)) (forms m)"

text \<open>
  A message without plural forms has one translation (empty when there is none), one with them as many
  as the language has.
\<close>

definition forms_ok :: "nat \<Rightarrow> message \<Rightarrow> bool" where
  "forms_ok k m \<longleftrightarrow> length (forms m) = (if numerus m then k else 1)"

text \<open>The texts of the core are formats of strprintf, those of the windows patterns of QString::arg.\<close>

definition context_ok :: "nat \<Rightarrow> context_messages \<Rightarrow> bool" where
  "context_ok k c \<longleftrightarrow>
     list_all (if fst c = ''blazecoin-core'' then same_printf else same_markers) (snd c) \<and>
     list_all (forms_ok k) (snd c)"

subsection \<open>Evaluation\<close>

text \<open>Congruences that keep the simplifier from visiting the data again at every step.\<close>

lemma scan_cong: "s = s' \<Longrightarrow> scan f s t = scan f s' t" by simp
lemma agree_cong: "a = a' \<Longrightarrow> agree_printf a fs = agree_printf a' fs" "a = a' \<Longrightarrow> agree_markers a fs = agree_markers a' fs"
  by simp_all
lemma same_congs: "list_all p xs = list_all p xs" "same_printf m = same_printf m" "same_markers m = same_markers m"
  by simp_all

lemma form_congs: "list_all p xs = list_all p xs" "forms_ok k m = forms_ok k m" by simp_all

lemmas eval_congs = scan_cong agree_cong same_congs

text \<open>A message that is not translated agrees with its source whatever that is.\<close>

lemma same_Msg:
  "same_printf (Msg l s u n []) = True" "same_markers (Msg l s u n []) = True"
  "same_printf (Msg l s u n ([] # fs)) = same_printf (Msg l s u n fs)"
  "same_markers (Msg l s u n ([] # fs)) = same_markers (Msg l s u n fs)"
  "same_printf (Msg l s u n ((p # ps) # fs)) = agree_printf (scan printf_char None s) ((p # ps) # fs)"
  "same_markers (Msg l s u n ((p # ps) # fs)) = agree_markers (scan marker_char None s) ((p # ps) # fs)"
  by (simp_all add: same_printf_def same_markers_def printf_specs_def markers_def)

lemmas catalogue_eval = same_Msg printf_specs_def markers_def spec_chars_def digits_def

end
