(* ===== verification/Catalogue_zh_CN.thy ===== *)
theory Catalogue_zh_CN
  imports Translation
begin

text \<open>
  The Simplified Chinese catalogue, src/qt/locale/blazecoin_zh_CN.ts: its messages in the order of the file,
  in lists of about thirty, the contexts they belong to, and the catalogue. For every list the lemma
  that follows it compares each translation with its source: the conversion specifications in the
  context of the core, whose texts are formats of strprintf, the place markers elsewhere.
\<close>

definition zh_CN_AboutDialog_1 :: "message list" where
  "zh_CN_AboutDialog_1 =
    [
     Msg [At ''../forms/aboutdialog.ui'' 26] [A ''Dialog''] False False [[U [23545, 35805]]],
     Msg [Rel 125] [A ''Information about program''] False False [[U [26174, 31034, 30456, 20851,
      20449, 24687]]],
     Msg [Rel 91] [A ''<b>Blazecoin</b> version''] False False [[A ''<b>'', U [19990, 30028,
      24065], A ''</b>'', U [29256, 26412]]],
     Msg [Rel 170] [C (CHR 0x0A), A ''This is experimental software.'', C (CHR 0x0A), C (CHR 0x0A),
      A ''Distributed under the MIT/X11 software license, see the accompanying file COPYING or http://www.opensource.org/licenses/mit-license.php.'',
      C (CHR 0x0A), C (CHR 0x0A),
      A ''This product includes software developed by the OpenSSL Project for use in the OpenSSL Toolkit (http://www.openssl.org/) and cryptographic software written by Eric Young (eay'',
      C (CHR 0x40),
      A ''cryptsoft.com) and UPnP software written by Thomas Bernard.''] False False [[C (CHR 0x0A),
      A ''This is experimental software.'', C (CHR 0x0A), C (CHR 0x0A),
      A ''Distributed under the MIT/X11 software license, see the accompanying file COPYING or http://www.opensource.org/licenses/mit-license.php.'',
      C (CHR 0x0A), C (CHR 0x0A),
      A ''This product includes software developed by the OpenSSL Project for use in the OpenSSL Toolkit (http://www.openssl.org/) and cryptographic software written by Eric Young (eay'',
      C (CHR 0x40), A ''cryptsoft.com) and UPnP software written by Thomas Bernard.'']],
     Msg [Rel 105] [A ''OK''] False False [[U [30830, 23450]]],
     Msg [At ''../aboutdialog.cpp'' 21] [A ''Copyright''] False False [[U [29256, 26435]]],
     Msg [Rel 0] [A ''Dr. Kimoto Chan''] False False [[A ''Blazecoin-qt '', U [23458, 25143, 31471,
      24320, 21457, 22242, 38431]]]
    ]"

lemma zh_CN_AboutDialog_1_ok: "list_all same_markers zh_CN_AboutDialog_1"
  unfolding zh_CN_AboutDialog_1_def by (simp add: catalogue_eval cong: eval_congs)

lemma zh_CN_AboutDialog_1_forms: "list_all (forms_ok (Suc 0)) zh_CN_AboutDialog_1"
  unfolding zh_CN_AboutDialog_1_def by (simp add: forms_ok_def cong: form_congs)

definition zh_CN_AboutDialog :: context_messages where
  "zh_CN_AboutDialog = (''AboutDialog'', zh_CN_AboutDialog_1)"

lemma zh_CN_AboutDialog_ok: "context_ok (Suc 0) zh_CN_AboutDialog"
  unfolding zh_CN_AboutDialog_def by (simp add: context_ok_def zh_CN_AboutDialog_1_ok
    zh_CN_AboutDialog_1_forms)

definition zh_CN_AddressBookPage_1 :: "message list" where
  "zh_CN_AddressBookPage_1 =
    [
     Msg [At ''../forms/addressbookpage.ui'' 159,
      Rel 137] [A ''Address Book''] False False [[U [36890, 35759, 24405]]],
     Msg [Rel 48] [A ''Double-click to edit address or label''] False False [[U [21452, 20987,
      20197, 32534, 36753, 22320, 22336, 25110, 26631, 31614]]],
     Msg [At ''../addressbookpage.cpp'' 74] [A ''&Copy Address''] False False [[A ''&'', U [22797,
      21046, 22320, 22336]]],
     Msg [At ''../forms/addressbookpage.ui'' 219] [A ''Show &QR Code''] False False [[U [26174,
      31034, 20108, 32500, 30721]]],
     Msg [At ''../addressbookpage.cpp'' 4] [A ''Sign &Message''] False False [[U [23545, 28040,
      24687, 31614, 21517]]],
     Msg [Rel 1] [A ''&Verify Message''] False False [[A ''&'', U [39564, 35777, 28040, 24687]]],
     Msg [Rel 1] [A ''&Delete''] False False [[A ''&'', U [21024, 38500]]],
     Msg [Rel (- 5)] [A ''Copy &Label''] False False [[U [22797, 21046], A '' &'', U [26631,
      31614]]],
     Msg [Rel 1] [A ''&Edit''] False False [[A ''&'', U [32534, 36753]]],
     Msg [Rel (- 10)] [A ''Adress for receiving Blazecoins''] False False [[U [25509, 25910, 19990,
      30028, 24065, 22320, 22336]]],
     Msg [Rel 272] [A ''Export Address Book Data''] False False [[U [23548, 20986, 36890, 35759,
      24405, 25968, 25454]]],
     Msg [Rel 1] [A ''Comma separated file (*.csv)''] False False [[U [36887, 21495, 20998, 38548,
      25991, 20214], A '' (*.csv)'']],
     Msg [Rel 13] [A ''Error exporting''] False False [[U [23548, 20986, 38169, 35823]]],
     Msg [Rel 0] [A ''Could not write to file %1.''] False False [[U [26080, 27861, 20889, 20837,
      25991, 20214], A '' %1'', U [12290]]]
    ]"

lemma zh_CN_AddressBookPage_1_ok: "list_all same_markers zh_CN_AddressBookPage_1"
  unfolding zh_CN_AddressBookPage_1_def by (simp add: catalogue_eval cong: eval_congs)

lemma zh_CN_AddressBookPage_1_forms: "list_all (forms_ok (Suc 0)) zh_CN_AddressBookPage_1"
  unfolding zh_CN_AddressBookPage_1_def by (simp add: forms_ok_def cong: form_congs)

definition zh_CN_AddressBookPage :: context_messages where
  "zh_CN_AddressBookPage = (''AddressBookPage'', zh_CN_AddressBookPage_1)"

lemma zh_CN_AddressBookPage_ok: "context_ok (Suc 0) zh_CN_AddressBookPage"
  unfolding zh_CN_AddressBookPage_def by (simp add: context_ok_def zh_CN_AddressBookPage_1_ok
    zh_CN_AddressBookPage_1_forms)

definition zh_CN_AddressTableModel_1 :: "message list" where
  "zh_CN_AddressTableModel_1 =
    [
     Msg [At ''../addresstablemodel.cpp'' 146] [A ''Label''] False False [[U [26631, 31614]]],
     Msg [Rel 0] [A ''Address''] False False [[U [22320, 22336]]],
     Msg [Rel 36] [A ''(no label)''] False False [[A ''('', U [27809, 26377, 26631, 31614],
      A '')'']]
    ]"

lemma zh_CN_AddressTableModel_1_ok: "list_all same_markers zh_CN_AddressTableModel_1"
  unfolding zh_CN_AddressTableModel_1_def by (simp add: catalogue_eval cong: eval_congs)

lemma zh_CN_AddressTableModel_1_forms: "list_all (forms_ok (Suc 0)) zh_CN_AddressTableModel_1"
  unfolding zh_CN_AddressTableModel_1_def by (simp add: forms_ok_def cong: form_congs)

definition zh_CN_AddressTableModel :: context_messages where
  "zh_CN_AddressTableModel = (''AddressTableModel'', zh_CN_AddressTableModel_1)"

lemma zh_CN_AddressTableModel_ok: "context_ok (Suc 0) zh_CN_AddressTableModel"
  unfolding zh_CN_AddressTableModel_def by (simp add: context_ok_def zh_CN_AddressTableModel_1_ok
    zh_CN_AddressTableModel_1_forms)

definition zh_CN_AskPassphraseDialog_1 :: "message list" where
  "zh_CN_AskPassphraseDialog_1 =
    [
     Msg [At ''../forms/askpassphrasedialog.ui'' 26] [A ''Passphrase Dialog''] False False [[U [23494,
      30721, 23545, 35805, 26694]]],
     Msg [Rel 162] [A ''Change password''] False False [[U [20462, 25913, 23494, 30721]]],
     Msg [Rel 111] [A ''Enter passphrase''] False False [[U [36755, 20837, 23494, 30721]]],
     Msg [Rel 27] [A ''New passphrase''] False False [[U [26032, 23494, 30721]]],
     Msg [Rel 27] [A ''Repeat new passphrase''] False False [[U [37325, 22797, 26032, 23494,
      30721]]],
     Msg [At ''../askpassphrasedialog.cpp'' 38] [A ''Enter the new passphrase to the wallet.<br/>Please use a passphrase of <b>10 or more random characters</b>, or <b>eight or more words</b>.''] False False [[U [36755,
      20837, 38065, 21253, 30340, 26032, 23494, 30721, 12290], A ''<br/>'', U [20351, 29992, 30340,
      23494, 30721, 35831, 33267, 23569, 21253, 21547], A ''<b>10'', U [20010, 20197, 19978, 38543,
      26426, 23383, 31526], A ''</>'', U [65292, 25110, 32773, 26159], A ''<b>8'', U [20010, 20197,
      19978, 30340, 21333, 35789], A ''</b>'', U [12290]]],
     Msg [Rel 1, Rel 1] [A ''Encrypt wallet''] False False [[U [21152, 23494, 38065, 21253]]],
     Msg [Rel 3] [A ''This operation needs your wallet passphrase to unlock the wallet.''] False False [[U [35813,
      25805, 20316, 38656, 35201, 24744, 39318, 20808, 20351, 29992, 23494, 30721, 35299, 38145,
      38065, 21253, 12290]]],
     Msg [Rel 6, Rel 1] [A ''Unlock wallet''] False False [[U [35299, 38145, 38065, 21253]]],
     Msg [Rel 3] [A ''This operation needs your wallet passphrase to decrypt the wallet.''] False False [[U [35813,
      25805, 20316, 38656, 35201, 24744, 39318, 20808, 20351, 29992, 23494, 30721, 35299, 23494,
      38065, 21253, 12290]]],
     Msg [Rel 6, Rel 1] [A ''Decrypt wallet''] False False [[U [35299, 23494, 38065, 21253]]],
     Msg [Rel 4, Rel 1] [A ''Change passphrase''] False False [[U [20462, 25913, 23494, 30721]]],
     Msg [Rel 1] [A ''Enter the old and new passphrase to the wallet.''] False False [[U [35831,
      36755, 20837, 38065, 21253, 30340, 26087, 23494, 30721, 19982, 26032, 23494, 30721, 12290]]],
     Msg [Rel 50] [A ''Confirm wallet encryption''] False False [[U [30830, 35748, 21152, 23494,
      38065, 21253]]],
     Msg [Rel 1] [A ''Warning: If you encrypt your wallet and lose your passphrase, you will <b>LOSE ALL OF YOUR BLAZECOINS</b>!''] False False [[U [35686,
      21578, 65306, 22914, 26524, 24744, 21152, 23494, 20102, 24744, 30340, 38065, 21253, 65292,
      20294, 26159, 24536, 35760, 20102, 23494, 30721, 65292, 20320, 23558, 20250], A ''<b>'',
      U [20002, 22833, 25152, 26377, 30340, 19990, 30028, 24065], A ''</b>'', U [65281]]],
     Msg [Rel 0] [A ''Are you sure you wish to encrypt your wallet?''] False False [[U [24744,
      30830, 23450, 38656, 35201, 20026, 38065, 21253, 21152, 23494, 21527, 65311]]],
     Msg [Rel 15] [A ''IMPORTANT: Any previous backups you have made of your wallet file should be replaced with the newly generated, encrypted wallet file. For security reasons, previous backups of the unencrypted wallet file will become useless as soon as you start using the new, encrypted wallet.''] False False [[U [37325,
      35201, 25552, 31034, 65306, 24744, 20197, 21069, 22791, 20221, 30340, 38065, 21253, 25991,
      20214, 24212, 35813, 26367, 25442, 25104, 26368, 26032, 29983, 25104, 30340, 21152, 23494,
      38065, 21253, 25991, 20214, 65288, 37325, 26032, 22791, 20221, 65289, 12290, 20174, 23433,
      20840, 24615, 19978, 32771, 34385, 65292, 24744, 20197, 21069, 22791, 20221, 30340, 26410,
      21152, 23494, 30340, 38065, 21253, 25991, 20214, 65292, 22312, 24744, 20351, 29992, 26032,
      30340, 21152, 23494, 38065, 21253, 21518, 23558, 26080, 25928, 65292, 35831, 37325, 26032,
      22791, 20221, 12290]]],
     Msg [Rel 100, Rel 24] [A ''Warning: The Caps Lock key is on!''] False False [[U [35686, 21578,
      65306, 22823, 20889, 38145, 23450, 38190, 22788, 20110, 25171, 24320, 29366, 24577, 65281]]],
     Msg [Rel (- 130), Rel 58] [A ''Wallet encrypted''] False False [[U [38065, 21253, 24050,
      21152, 23494]]],
     Msg [Rel (- 56)] [A ''Blazecoin will close now to finish the encryption process. Remember that encrypting your wallet cannot fully protect your blazecoins from being stolen by malware infecting your computer.''] False False [[U [23558,
      20851, 38381, 36719, 20214, 20197, 23436, 25104, 21152, 23494, 36807, 31243, 12290], A '' '',
      U [35831, 24744, 35880, 35760, 65306, 38065, 21253, 21152, 23494, 24182, 19981, 26159, 19975,
      33021, 30340, 65292, 30005, 33041, 20013, 27602, 65292, 24744, 30340, 19990, 30028, 24065,
      36824, 26159, 26377, 21487, 33021, 20002, 22833, 12290]]],
     Msg [Rel 13, Rel 7, Rel 42, Rel 6] [A ''Wallet encryption failed''] False False [[U [38065,
      21253, 21152, 23494, 22833, 36133]]],
     Msg [Rel (- 54)] [A ''Wallet encryption failed due to an internal error. Your wallet was not encrypted.''] False False [[U [30001,
      20110, 19968, 20010, 26412, 22320, 38169, 35823, 65292, 21152, 23494, 38065, 21253, 25805,
      20316, 24050, 32463, 22833, 36133, 12290, 24744, 30340, 38065, 21253, 27809, 26377, 34987,
      21152, 23494, 12290]]],
     Msg [Rel 7, Rel 48] [A ''The supplied passphrases do not match.''] False False [[U [23494,
      30721, 19981, 21305, 37197, 12290]]],
     Msg [Rel (- 37)] [A ''Wallet unlock failed''] False False [[U [38065, 21253, 35299, 38145,
      22833, 36133]]],
     Msg [Rel 1, Rel 11,
      Rel 19] [A ''The passphrase entered for the wallet decryption was incorrect.''] False False [[U [29992,
      20110, 35299, 23494, 38065, 21253, 30340, 23494, 30721, 19981, 27491, 30830, 12290]]],
     Msg [Rel (- 20)] [A ''Wallet decryption failed''] False False [[U [38065, 21253, 35299, 23494,
      22833, 36133, 12290]]]
    ]"

lemma zh_CN_AskPassphraseDialog_1_ok: "list_all same_markers zh_CN_AskPassphraseDialog_1"
  unfolding zh_CN_AskPassphraseDialog_1_def by (simp add: catalogue_eval cong: eval_congs)

lemma zh_CN_AskPassphraseDialog_1_forms: "list_all (forms_ok (Suc 0)) zh_CN_AskPassphraseDialog_1"
  unfolding zh_CN_AskPassphraseDialog_1_def by (simp add: forms_ok_def cong: form_congs)

definition zh_CN_AskPassphraseDialog_2 :: "message list" where
  "zh_CN_AskPassphraseDialog_2 =
    [
     Msg [Rel 14] [A ''Wallet passphrase was successfully changed.''] False False [[U [20462,
      25913, 38065, 21253, 23494, 30721, 25104, 21151, 12290]]]
    ]"

lemma zh_CN_AskPassphraseDialog_2_ok: "list_all same_markers zh_CN_AskPassphraseDialog_2"
  unfolding zh_CN_AskPassphraseDialog_2_def by (simp add: catalogue_eval cong: eval_congs)

lemma zh_CN_AskPassphraseDialog_2_forms: "list_all (forms_ok (Suc 0)) zh_CN_AskPassphraseDialog_2"
  unfolding zh_CN_AskPassphraseDialog_2_def by (simp add: forms_ok_def cong: form_congs)

definition zh_CN_AskPassphraseDialog :: context_messages where
  "zh_CN_AskPassphraseDialog = (''AskPassphraseDialog'', zh_CN_AskPassphraseDialog_1 @ zh_CN_AskPassphraseDialog_2)"

lemma zh_CN_AskPassphraseDialog_ok: "context_ok (Suc 0) zh_CN_AskPassphraseDialog"
  unfolding zh_CN_AskPassphraseDialog_def by (simp add: context_ok_def
    zh_CN_AskPassphraseDialog_1_ok zh_CN_AskPassphraseDialog_1_forms
    zh_CN_AskPassphraseDialog_2_ok zh_CN_AskPassphraseDialog_2_forms)

definition zh_CN_ClientModel_1 :: "message list" where
  "zh_CN_ClientModel_1 =
    [
     Msg [At ''../clientmodel.cpp'' 104] [A ''Network Alert''] False False [[U [32593, 32476,
      35686, 25253]]],
     Msg [Rel 16] [A ''Incoming News''] False False [[U [27969, 20837, 20449, 24687]]]
    ]"

lemma zh_CN_ClientModel_1_ok: "list_all same_markers zh_CN_ClientModel_1"
  unfolding zh_CN_ClientModel_1_def by (simp add: catalogue_eval cong: eval_congs)

lemma zh_CN_ClientModel_1_forms: "list_all (forms_ok (Suc 0)) zh_CN_ClientModel_1"
  unfolding zh_CN_ClientModel_1_def by (simp add: forms_ok_def cong: form_congs)

definition zh_CN_ClientModel :: context_messages where
  "zh_CN_ClientModel = (''ClientModel'', zh_CN_ClientModel_1)"

lemma zh_CN_ClientModel_ok: "context_ok (Suc 0) zh_CN_ClientModel"
  unfolding zh_CN_ClientModel_def by (simp add: context_ok_def zh_CN_ClientModel_1_ok
    zh_CN_ClientModel_1_forms)

definition zh_CN_EditAddressDialog_1 :: "message list" where
  "zh_CN_EditAddressDialog_1 =
    [
     Msg [At ''../forms/editaddressdialog.ui'' 171] [A ''Edit record''] False False [[U [32534,
      36753, 35760, 24405]]],
     Msg [Rel 89] [A ''&Label''] False False [[A ''&'', U [26631, 31614]]],
     Msg [Rel 78] [A ''The label associated with this address book entry''] False False [[U [19982,
      27492, 22320, 22336, 26465, 30446, 20851, 32852, 30340, 26631, 31614]]],
     Msg [Rel 14] [A ''&Address''] False False [[A ''&'', U [22320, 22336]]],
     Msg [Rel 25] [A ''Paste from clipboard''] False False [[U [20174, 21098, 36148, 26495, 31896,
      36148]]],
     Msg [Rel 24] [A ''Alt+A''] False False [[A ''Alt+A'']],
     Msg [Rel (- 122)] [A ''The address associated with this address book entry. This can only be modified for sending addresses.''] False False [[U [35813,
      22320, 22336, 19982, 22320, 22336, 31807, 20013, 30340, 26465, 30446, 24050, 20851, 32852,
      65292, 26080, 27861, 20316, 20026, 21457, 36865, 22320, 22336, 32534, 36753, 12290]]],
     Msg [At ''../editaddressdialog.cpp'' 26,
      Rel 1] [A ''New receiving address''] False False [[U [26032, 25509, 25910, 22320, 22336]]],
     Msg [Rel 7, Rel 1] [A ''New sending address''] False False [[U [26032, 21457, 36865, 22320,
      22336]]],
     Msg [Rel 5, Rel 1] [A ''Edit receiving address''] False False [[U [32534, 36753, 25509, 25910,
      22320, 22336]]],
     Msg [Rel 7, Rel 1] [A ''Edit sending address''] False False [[U [32534, 36753, 21457, 36865,
      22320, 22336]]],
     Msg [Rel 81] [A ''The entered address '', C (CHR 0x22), A ''%1'', C (CHR 0x22),
      A '' is already in the address book.''] False False [[U [36755, 20837, 30340, 22320, 22336],
      A '' '', C (CHR 0x22), A ''%1'', C (CHR 0x22), A '' '', U [24050, 32463, 23384, 22312, 20110,
      22320, 22336, 31807, 12290]]],
     Msg [Rel (- 5)] [A ''The entered address '', C (CHR 0x22), A ''%1'', C (CHR 0x22),
      A '' is not a valid Blazecoin address.''] False False [[U [24744, 36755, 20837, 30340],
      A '' '', C (CHR 0x22), A ''%1'', C (CHR 0x22), A '' '', U [19981, 26159, 21512, 27861, 30340,
      19990, 30028, 24065, 22320, 22336], A ''.'']],
     Msg [Rel 10] [A ''Could not unlock wallet.''] False False [[U [26080, 27861, 35299, 38145,
      38065, 21253]]],
     Msg [Rel 5] [A ''New key generation failed.''] False False [[U [23494, 38053, 21019, 24314,
      22833, 36133], A ''.'']]
    ]"

lemma zh_CN_EditAddressDialog_1_ok: "list_all same_markers zh_CN_EditAddressDialog_1"
  unfolding zh_CN_EditAddressDialog_1_def by (simp add: catalogue_eval cong: eval_congs)

lemma zh_CN_EditAddressDialog_1_forms: "list_all (forms_ok (Suc 0)) zh_CN_EditAddressDialog_1"
  unfolding zh_CN_EditAddressDialog_1_def by (simp add: forms_ok_def cong: form_congs)

definition zh_CN_EditAddressDialog :: context_messages where
  "zh_CN_EditAddressDialog = (''EditAddressDialog'', zh_CN_EditAddressDialog_1)"

lemma zh_CN_EditAddressDialog_ok: "context_ok (Suc 0) zh_CN_EditAddressDialog"
  unfolding zh_CN_EditAddressDialog_def by (simp add: context_ok_def zh_CN_EditAddressDialog_1_ok
    zh_CN_EditAddressDialog_1_forms)

definition zh_CN_GUIUtil_HelpMessageBox_1 :: "message list" where
  "zh_CN_GUIUtil_HelpMessageBox_1 =
    [
     Msg [At ''../guiutil.cpp'' 442,
      Rel 12] [A ''Blazecoin-Qt''] False False [[A ''Blazecoin-Qt'']],
     Msg [Rel (- 12)] [A ''version''] False False [[U [29256, 26412]]],
     Msg [Rel 2] [A ''Usage:''] False False [[U [20351, 29992, 65306]]],
     Msg [Rel 1] [A ''command-line options''] False False [[U [21629, 20196, 34892, 36873, 39033]]],
     Msg [Rel 4] [A ''UI options''] False False [[A ''UI'', U [36873, 39033]]],
     Msg [Rel 1] [A ''Set language, for example '', C (CHR 0x22), A ''de_DE'', C (CHR 0x22),
      A '' (default: system locale)''] False False [[U [35774, 32622, 35821, 35328], A '', '',
      U [20363, 22914], A '' '', C (CHR 0x22), A ''de_DE'', C (CHR 0x22), A '' ('', U [32570,
      30465], A '': '', U [31995, 32479, 35821, 35328], A '')'']],
     Msg [Rel 1] [A ''Start minimized''] False False [[U [21551, 21160, 26102, 26368, 23567,
      21270], C (CHR 0x0A)]],
     Msg [Rel 1] [A ''Show splash screen on startup (default: 1)''] False False [[U [21551, 21160,
      26102, 26174, 31034, 29256, 26435, 39029], A '' ('', U [32570, 30465], A '': 1)'']]
    ]"

lemma zh_CN_GUIUtil_HelpMessageBox_1_ok: "list_all same_markers zh_CN_GUIUtil_HelpMessageBox_1"
  unfolding zh_CN_GUIUtil_HelpMessageBox_1_def by (simp add: catalogue_eval cong: eval_congs)

lemma zh_CN_GUIUtil_HelpMessageBox_1_forms: "list_all (forms_ok (Suc 0)) zh_CN_GUIUtil_HelpMessageBox_1"
  unfolding zh_CN_GUIUtil_HelpMessageBox_1_def by (simp add: forms_ok_def cong: form_congs)

definition zh_CN_GUIUtil_HelpMessageBox :: context_messages where
  "zh_CN_GUIUtil_HelpMessageBox = (''GUIUtil::HelpMessageBox'', zh_CN_GUIUtil_HelpMessageBox_1)"

lemma zh_CN_GUIUtil_HelpMessageBox_ok: "context_ok (Suc 0) zh_CN_GUIUtil_HelpMessageBox"
  unfolding zh_CN_GUIUtil_HelpMessageBox_def by (simp add: context_ok_def
    zh_CN_GUIUtil_HelpMessageBox_1_ok zh_CN_GUIUtil_HelpMessageBox_1_forms)

definition zh_CN_MainWindow_1 :: "message list" where
  "zh_CN_MainWindow_1 =
    [
     Msg [At ''../forms/mainwindow.ui'' 19] [A ''MainWindow''] False False [[U [20027, 39029]]],
     Msg [Rel 266] [A ''Messages from Blazecoin''] False False [[U [19990, 30028, 24065, 20449,
      24687]]],
     Msg [Rel 85] [A ''Blazecoin''] False False [[U [19990, 30028, 24065]]],
     Msg [Rel 17] [A ''global wallet''] False False [[U [38065, 21253]]],
     Msg [Rel 51] [A ''File''] False False [[U [25991, 20214]]],
     Msg [Rel 52] [A ''Operations''] False False [[U [36873, 39033]]],
     Msg [Rel 52] [A ''Settings''] False False [[U [35774, 32622]]],
     Msg [Rel 156] [A ''<html><head/><body><p>Welcome to Blazecoin. This is your personal account</p></body></html>''] False False [[A ''<html><head/><body><p>'',
      U [27426, 36814, 26469, 21040, 19990, 30028, 24065, 65292, 36825, 26159, 20320, 30340, 20010,
      20154, 36134, 25143], A ''</p></body></html>'']],
     Msg [Rel 62] [A ''Overview''] False False [[U [27010, 20917]]],
     Msg [Rel 110] [A ''Mining''] False False [[U [25366, 30719]]],
     Msg [Rel 53] [A ''Send Coins''] False False [[U [21457, 36865, 36135, 24065]]],
     Msg [Rel 47] [A ''Transactions''] False False [[U [20132, 26131, 35760, 24405]]],
     Msg [Rel 47] [A ''Sign Message''] False False [[U [31614, 21517, 28040, 24687]]],
     Msg [Rel 47] [A ''Receive Coins''] False False [[U [25509, 21463, 36135, 24065]]],
     Msg [Rel 47] [A ''Address Book''] False False [[U [36890, 35759, 24405]]],
     Msg [Rel 47] [A ''Verify Message''] False False [[U [39564, 35777, 28040, 24687]]],
     Msg [Rel 200] [A ''Synchronization''] False False [[U [21516, 27493]]],
     Msg [Rel 45] [A ''10549874 blocks''] False False [[A ''10549874'', U [21306, 22359]]]
    ]"

lemma zh_CN_MainWindow_1_ok: "list_all same_markers zh_CN_MainWindow_1"
  unfolding zh_CN_MainWindow_1_def by (simp add: catalogue_eval cong: eval_congs)

lemma zh_CN_MainWindow_1_forms: "list_all (forms_ok (Suc 0)) zh_CN_MainWindow_1"
  unfolding zh_CN_MainWindow_1_def by (simp add: forms_ok_def cong: form_congs)

definition zh_CN_MainWindow :: context_messages where
  "zh_CN_MainWindow = (''MainWindow'', zh_CN_MainWindow_1)"

lemma zh_CN_MainWindow_ok: "context_ok (Suc 0) zh_CN_MainWindow"
  unfolding zh_CN_MainWindow_def by (simp add: context_ok_def zh_CN_MainWindow_1_ok
    zh_CN_MainWindow_1_forms)

definition zh_CN_BlazecoinGUI_1 :: "message list" where
  "zh_CN_BlazecoinGUI_1 =
    [
     Msg [At ''../blazecoingui.cpp'' 366,
      Rel 753] [A ''Sign &message...''] False False [[U [23545], A ''&'', U [28040, 24687, 31614,
      21517], A ''...'']],
     Msg [Rel (- 487)] [A ''Synchronizing with network...''] False False [[U [27491, 22312, 19982,
      32593, 32476, 21516, 27493], A ''...'']],
     Msg [Rel (- 343), Rel 780] [A ''&Overview''] False False [[A ''&'', U [27010, 20917]]],
     Msg [Rel (- 779)] [A ''Show general overview of wallet''] False False [[U [26174, 31034,
      38065, 21253, 27010, 20917]]],
     Msg [Rel 20, Rel 804] [A ''&Transactions''] False False [[A ''&'', U [20132, 26131, 35760,
      24405]]],
     Msg [Rel (- 803)] [A ''Browse transaction history''] False False [[U [26597, 30475, 20132,
      26131, 21382, 21490]]],
     Msg [Rel 7] [A ''Edit the list of stored addresses and labels''] False False [[U [20462,
      25913, 23384, 20648, 30340, 22320, 22336, 21644, 26631, 31614, 21015, 34920]]],
     Msg [Rel (- 14)] [A ''Show the list of addresses for receiving payments''] False False [[U [26174,
      31034, 25509, 25910, 25903, 20184, 30340, 22320, 22336, 21015, 34920]]],
     Msg [Rel (- 8)] [A ''&Send coins''] False False [[A ''&'', U [21457, 36865, 36135, 24065]]],
     Msg [Rel 7] [A ''&Receive coins''] False False [[A ''&'', U [25509, 21463, 36135, 24065]]],
     Msg [Rel 14, Rel 798] [A ''&Address Book''] False False [[A ''&'', U [36890, 35759, 24405]]],
     Msg [Rel (- 778), Rel 735] [A ''E&xit''] False False [[U [36864, 20986]]],
     Msg [Rel (- 734)] [A ''Quit application''] False False [[U [36864, 20986, 31243, 24207]]],
     Msg [Rel 7] [A ''Show information about Blazecoin''] False False [[U [26174, 31034, 19990,
      30028, 24065, 30340, 30456, 20851, 20449, 24687]]],
     Msg [Rel 2] [A ''About &Qt''] False False [[U [20851, 20110], A '' &Qt'']],
     Msg [Rel 1] [A ''Show information about Qt''] False False [[U [26174, 31034], A ''Qt'',
      U [30456, 20851, 20449, 24687]]],
     Msg [Rel 2] [A ''&Options...''] False False [[A ''&'', U [36873, 39033], A ''...'']],
     Msg [Rel 9, Rel 757] [A ''&Encrypt Wallet...''] False False [[A ''&'', U [21152, 23494, 38065,
      21253], A ''...'']],
     Msg [Rel (- 754)] [A ''&Backup Wallet...''] False False [[A ''&'', U [22791, 20221, 38065,
      21253], A ''...'']],
     Msg [Rel 2, Rel 754] [A ''&Change Passphrase...''] False False [[A ''&'', U [20462, 25913,
      23494, 30721], A ''...'']],
     Msg [Rel (- 747), Rel 700] [A ''&Export...''] False False [[A ''&'', U [31471, 21475],
      A '':'']],
     Msg [Rel (- 699)] [A ''Export the data in the current tab to a file''] False False [[U [23548,
      20986, 24403, 21069, 25968, 25454, 21040, 25991, 20214]]],
     Msg [Rel 59] [A ''Actions toolbar''] False False [[U [24037, 20855, 26639]]],
     Msg [Rel 204] [A ''Importing blocks from disk...''] False False [[U [27491, 22312, 20174,
      30913, 30424, 23548, 20837, 25968, 25454, 22359], A ''...'']],
     Msg [Rel 3] [A ''Reindexing blocks on disk...''] False False [[U [27491, 22312, 20026, 25968,
      25454, 22359, 24314, 31435, 32034, 24341], A ''...'']],
     Msg [Rel (- 341)] [A ''Send coins to a Blazecoin address''] False False [[U [21521, 19968,
      20010, 19990, 30028, 24065, 22320, 22336, 21457, 36865, 19990, 30028, 24065]]],
     Msg [Rel 54] [A ''Modify configuration options for Blazecoin''] False False [[U [35774, 32622,
      36873, 39033]]]
    ]"

lemma zh_CN_BlazecoinGUI_1_ok: "list_all same_markers zh_CN_BlazecoinGUI_1"
  unfolding zh_CN_BlazecoinGUI_1_def by (simp add: catalogue_eval cong: eval_congs)

lemma zh_CN_BlazecoinGUI_1_forms: "list_all (forms_ok (Suc 0)) zh_CN_BlazecoinGUI_1"
  unfolding zh_CN_BlazecoinGUI_1_def by (simp add: forms_ok_def cong: form_congs)

definition zh_CN_BlazecoinGUI_2 :: "message list" where
  "zh_CN_BlazecoinGUI_2 =
    [
     Msg [Rel 12] [A ''Backup wallet to another location''] False False [[U [22791, 20221, 38065,
      21253, 21040, 20854, 23427, 25991, 20214, 22841]]],
     Msg [Rel 2] [A ''Change the passphrase used for wallet encryption''] False False [[U [20462,
      25913, 38065, 21253, 21152, 23494, 21475, 20196]]],
     Msg [Rel 9, Rel 800] [A ''&Debug window''] False False [[A ''&'', U [35843, 35797, 31383,
      21475]]],
     Msg [Rel (- 799)] [A ''Open debugging and diagnostic console''] False False [[U [22312, 35786,
      26029, 25511, 21046, 21488, 35843, 35797]]],
     Msg [Rel (- 7), Rel 752] [A ''&Verify message...''] False False [[A ''&'', U [39564, 35777,
      28040, 24687], A ''...'']],
     Msg [Rel (- 1014), Rel 6, Rel 619] [A ''Blazecoin''] False False [[U [19990, 30028, 24065]]],
     Msg [Rel (- 625), Rel 6] [A ''Wallet''] False False [[U [38065, 21253]]],
     Msg [Rel 230, Rel 2, Rel 831] [A ''&About Blazecoin''] False False [[A ''&'', U [20851, 20110,
      19990, 30028, 24065]]],
     Msg [Rel (- 821), Rel 2] [A ''&Show / Hide''] False False [[A ''&'', U [26174, 31034],
      A '' / '', U [38544, 34255]]],
     Msg [Rel 1] [A ''Show or hide the main Window''] False False [[U [26174, 31034, 25110, 38544,
      34255, 20027, 31383, 21475]]],
     Msg [Rel 3] [A ''Encrypt the private keys that belong to your wallet''] False False [[U [23545,
      38065, 21253, 20013, 30340, 31169, 38053, 21152, 23494]]],
     Msg [Rel 7] [A ''Sign messages with your Blazecoin addresses to prove you own them''] False False [[U [29992,
      19990, 30028, 24065, 22320, 22336, 20851, 32852, 30340, 31169, 38053, 20026, 28040, 24687,
      31614, 21517, 65292, 20197, 35777, 26126, 24744, 25317, 26377, 36825, 20010, 19990, 30028,
      24065, 22320, 22336]]],
     Msg [Rel 2] [A ''Verify messages to ensure they were signed with specified Blazecoin addresses''] False False [[U [26657,
      39564, 28040, 24687, 65292, 30830, 20445, 35813, 28040, 24687, 26159, 30001, 25351, 23450,
      30340, 19990, 30028, 24065, 22320, 22336, 25152, 26377, 32773, 31614, 21517, 30340]]],
     Msg [Rel 31] [A ''&File''] False False [[A ''&'', U [25991, 20214]]],
     Msg [Rel 8] [A ''&Settings''] False False [[A ''&'', U [35774, 32622]]],
     Msg [Rel 6] [A ''&Help''] False False [[A ''&'', U [24110, 21161]]],
     Msg [Rel 9] [A ''Tabs toolbar''] False False [[U [20998, 39029, 24037, 20855, 26639]]],
     Msg [Rel (- 311)] [A ''[testnet]''] False False [[A ''[testnet]'']],
     Msg [Rel 385] [A ''Blazecoin client''] False False [[U [19990, 30028, 24065, 23458, 25143,
      31471]]],
     Msg [Rel 109] [A ''%n active connection(s) to Blazecoin network''] False True [[U [21040,
      19990, 30028, 24065, 32593, 32476, 30340, 36830, 25509, 20849, 26377], A ''%n'', U [26465]]],
     Msg [Rel 57] [A ''Processed %1 blocks of transaction history.''] False False [[U [24050,
      22788, 29702], A '' %1 '', U [20010, 20132, 26131, 21382, 21490, 25968, 25454, 22359,
      12290]]],
     Msg [Rel 77] [A ''Error''] False False [[U [38169, 35823]]],
     Msg [Rel 3] [A ''Warning''] False False [[U [35686, 21578]]],
     Msg [Rel 3] [A ''Information''] False False [[U [20449, 24687]]],
     Msg [Rel 70] [A ''This transaction is over the size limit. You can still send it for a fee of %1, which goes to the nodes that process your transaction and helps to support the network. Do you want to pay the fee?''] False False [[U [35813,
      20132, 26131, 30340, 23383, 33410, 25968, 36229, 26631, 12290, 24744, 21487, 20197, 36873,
      25321, 25903, 20184], A ''%1'', U [30340, 20132, 26131, 36153, 32473, 22788, 29702, 24744,
      30340, 20132, 26131, 30340, 32593, 32476, 33410, 28857, 65292, 26377, 21161, 20110, 19990,
      30028, 24065, 32593, 32476, 30340, 36816, 34892, 12290, 24744, 24895, 24847, 25903, 20184,
      36825, 31508, 20132, 26131, 36153, 29992, 21527, 65311]]],
     Msg [Rel (- 121)] [A ''Up to date''] False False [[U [26368, 26032, 29366, 24577]]]
    ]"

lemma zh_CN_BlazecoinGUI_2_ok: "list_all same_markers zh_CN_BlazecoinGUI_2"
  unfolding zh_CN_BlazecoinGUI_2_def by (simp add: catalogue_eval cong: eval_congs)

lemma zh_CN_BlazecoinGUI_2_forms: "list_all (forms_ok (Suc 0)) zh_CN_BlazecoinGUI_2"
  unfolding zh_CN_BlazecoinGUI_2_def by (simp add: forms_ok_def cong: form_congs)

definition zh_CN_BlazecoinGUI_3 :: "message list" where
  "zh_CN_BlazecoinGUI_3 =
    [
     Msg [Rel (- 47)] [A ''~%n block(s) remaining''] False True [[A ''~%n '', U [21097, 20313,
      21306, 22359]]],
     Msg [Rel 4] [A ''%n blocks''] False True [[A ''%n '', U [21306, 22359]]],
     Msg [Rel 3] [A ''Processed %1 of %2 blocks of transaction history (%3% done).''] False False [[U [24050,
      22788, 29702], A '' %1 '', U [20043], A '' %2 '', U [20132, 26131, 21382, 21490, 25968,
      25454, 22359], A '' (%3% '', U [23436, 25104], A '').'']],
     Msg [Rel 22] [A ''%n second(s) ago''] False True [[A ''%n '', U [31186, 20043, 21069]]],
     Msg [Rel 4] [A ''%n minute(s) ago''] False True [[A ''%n '', U [20998, 38047, 20043, 21069]]],
     Msg [Rel 4] [A ''%n hour(s) ago''] False True [[A ''%n '', U [23567, 26102, 20043, 21069]]],
     Msg [Rel 4] [A ''%n day(s) ago''] False True [[A ''%n '', U [22825, 20043, 21069]]],
     Msg [Rel 13] [A ''Catching up...''] False False [[U [26356, 26032, 20013], A ''...'']],
     Msg [Rel 16] [A ''Last received block was generated %1.''] False False [[U [20135, 20986,
      26368, 21518, 25509, 25910, 21306, 22359], A '' %1.'']],
     Msg [Rel 102] [A ''Confirm transaction fee''] False False [[U [30830, 35748, 20132, 26131,
      36153]]],
     Msg [Rel 38] [A ''Sent transaction''] False False [[U [24050, 21457, 36865, 20132, 26131]]],
     Msg [Rel 0] [A ''Incoming transaction''] False False [[U [27969, 20837, 20132, 26131]]],
     Msg [Rel 1] [A ''Date: %1'', C (CHR 0x0A), A ''Amount: %2'', C (CHR 0x0A), A ''Type: %3'',
      C (CHR 0x0A), A ''Address: %4'', C (CHR 0x0A)] False False [[U [26085, 26399], A '': %1'',
      C (CHR 0x0A), U [37329, 39069], A '': %2'', C (CHR 0x0A), U [31867, 21035], A '': %3'',
      C (CHR 0x0A), U [22320, 22336], A '': %4'', C (CHR 0x0A)]],
     Msg [Rel 123, Rel 80] [A ''URI handling''] False False [[A ''URI '', U [22788, 29702]]],
     Msg [Rel (- 80),
      Rel 80] [A ''URI can not be parsed! This can be caused by an invalid Blazecoin address or malformed URI parameters.''] False False [[A ''URI'',
      U [26080, 27861, 35299, 26512, 65281, 21407, 22240, 21487, 33021, 26159, 19990, 30028, 24065,
      22320, 22336, 19981, 27491, 30830, 65292, 25110, 32773], A ''URI'', U [21442, 25968, 38169,
      35823, 12290]]],
     Msg [Rel 8] [A ''Service messages''] False False [[U [26381, 21153, 22120, 20449, 24687]]],
     Msg [Rel 42] [A ''Send Blazecoins''] False False [[U [21457, 36865, 36135, 24065]]],
     Msg [Rel 1] [A ''Receive Blazecoins''] False False [[U [25509, 21463, 36135, 24065]]],
     Msg [Rel 4] [A ''Mining''] False False [[U [25366, 30719]]],
     Msg [Rel 56] [A ''Common, Network''] False False [[U [26222, 36890, 65292, 32593, 32476]]],
     Msg [Rel 38] [A ''Wallet is <b>encrypted</b> and currently <b>unlocked</b>''] False False [[U [38065,
      21253, 24050, 34987], A ''<b>'', U [21152, 23494], A ''</b>'', U [65292, 24403, 21069,
      20026], A ''<b>'', U [35299, 38145], A ''</b>'', U [29366, 24577]]],
     Msg [Rel 8] [A ''Wallet is <b>encrypted</b> and currently <b>locked</b>''] False False [[U [38065,
      21253, 24050, 34987], A ''<b>'', U [21152, 23494], A ''</b>'', U [65292, 24403, 21069,
      20026], A ''<b>'', U [38145, 23450], A ''</b>'', U [29366, 24577]]],
     Msg [Rel 23] [A ''Backup Wallet''] False False [[U [22791, 20221, 38065, 21253]]],
     Msg [Rel 0] [A ''Wallet Data (*.dat)''] False False [[U [38065, 21253, 25991, 20214],
      A ''(*.dat)'']]
    ]"

lemma zh_CN_BlazecoinGUI_3_ok: "list_all same_markers zh_CN_BlazecoinGUI_3"
  unfolding zh_CN_BlazecoinGUI_3_def by (simp add: catalogue_eval cong: eval_congs)

lemma zh_CN_BlazecoinGUI_3_forms: "list_all (forms_ok (Suc 0)) zh_CN_BlazecoinGUI_3"
  unfolding zh_CN_BlazecoinGUI_3_def by (simp add: forms_ok_def cong: form_congs)

definition zh_CN_BlazecoinGUI_4 :: "message list" where
  "zh_CN_BlazecoinGUI_4 =
    [
     Msg [Rel 3] [A ''Backup Failed''] False False [[U [22791, 20221, 22833, 36133]]],
     Msg [Rel 0] [A ''There was an error trying to save the wallet data to the new location.''] False False [[U [22791,
      20221, 38065, 21253, 21040, 20854, 23427, 25991, 20214, 22841, 22833, 36133], A ''.'']],
     Msg [Rel 4] [A ''Backup Successful''] False False [[U [22791, 20221, 25104, 21151]]],
     Msg [Rel 0] [A ''The wallet data was successfully saved to the new location.''] False False [[U [38065,
      21253, 25968, 25454, 25104, 21151, 23384, 20648, 21040, 26032, 20301, 32622]]],
     Msg [At ''../blazecoin.cpp'' 109] [A ''A fatal error occurred. Blazecoin can no longer continue safely and will quit.''] False False [[U [21457,
      29983, 20005, 37325, 38169, 35823, 12290]]]
    ]"

lemma zh_CN_BlazecoinGUI_4_ok: "list_all same_markers zh_CN_BlazecoinGUI_4"
  unfolding zh_CN_BlazecoinGUI_4_def by (simp add: catalogue_eval cong: eval_congs)

lemma zh_CN_BlazecoinGUI_4_forms: "list_all (forms_ok (Suc 0)) zh_CN_BlazecoinGUI_4"
  unfolding zh_CN_BlazecoinGUI_4_def by (simp add: forms_ok_def cong: form_congs)

definition zh_CN_BlazecoinGUI :: context_messages where
  "zh_CN_BlazecoinGUI = (''BlazecoinGUI'', zh_CN_BlazecoinGUI_1 @ zh_CN_BlazecoinGUI_2 @ zh_CN_BlazecoinGUI_3 @ zh_CN_BlazecoinGUI_4)"

lemma zh_CN_BlazecoinGUI_ok: "context_ok (Suc 0) zh_CN_BlazecoinGUI"
  unfolding zh_CN_BlazecoinGUI_def by (simp add: context_ok_def zh_CN_BlazecoinGUI_1_ok
    zh_CN_BlazecoinGUI_1_forms zh_CN_BlazecoinGUI_2_ok zh_CN_BlazecoinGUI_2_forms
    zh_CN_BlazecoinGUI_3_ok zh_CN_BlazecoinGUI_3_forms zh_CN_BlazecoinGUI_4_ok
    zh_CN_BlazecoinGUI_4_forms)

definition zh_CN_MessageBoxDialog_1 :: "message list" where
  "zh_CN_MessageBoxDialog_1 =
    [
     Msg [At ''../forms/message_box_dialog.ui'' 374] [A ''OK''] False False [[U [30830, 23450]]],
     Msg [Rel 82] [A ''Yes''] False False [[U [26159]]],
     Msg [Rel 51] [A ''No''] False False [[U [21542]]],
     Msg [Rel 76] [A ''Don'', C (CHR 0x27), A ''t show again''] False False [[U [19981, 20877,
      26174, 31034]]]
    ]"

lemma zh_CN_MessageBoxDialog_1_ok: "list_all same_markers zh_CN_MessageBoxDialog_1"
  unfolding zh_CN_MessageBoxDialog_1_def by (simp add: catalogue_eval cong: eval_congs)

lemma zh_CN_MessageBoxDialog_1_forms: "list_all (forms_ok (Suc 0)) zh_CN_MessageBoxDialog_1"
  unfolding zh_CN_MessageBoxDialog_1_def by (simp add: forms_ok_def cong: form_congs)

definition zh_CN_MessageBoxDialog :: context_messages where
  "zh_CN_MessageBoxDialog = (''MessageBoxDialog'', zh_CN_MessageBoxDialog_1)"

lemma zh_CN_MessageBoxDialog_ok: "context_ok (Suc 0) zh_CN_MessageBoxDialog"
  unfolding zh_CN_MessageBoxDialog_def by (simp add: context_ok_def zh_CN_MessageBoxDialog_1_ok
    zh_CN_MessageBoxDialog_1_forms)

definition zh_CN_MiningPage_1 :: "message list" where
  "zh_CN_MiningPage_1 =
    [
     Msg [At ''../forms/miningpage.ui'' 159] [A ''Form''] False False [[U [34920, 21333]]],
     Msg [Rel 107] [A ''Mining coins''] False False [[U [25366, 24065]]],
     Msg [Rel 378] [A ''Stop''] False False [[U [20572, 27490]]],
     Msg [Rel 38] [A ''Start''] False False [[U [21551, 21160]]],
     Msg [At ''../miningpage.cpp'' 66] [A ''Mining coins started!''] False False [[U [21551, 21160,
      25366, 24065]]],
     Msg [Rel 2] [A ''Used threads %1''] False False [[U [24050, 20351, 29992, 32447, 31243],
      A '' %1'']],
     Msg [Rel 3] [A ''Mining coins stopped!''] False False [[U [25366, 24065, 20572, 27490]]],
     Msg [Rel 46] [A ''Running mining coins...''] False False [[U [25366, 24065, 36827, 34892,
      20013]]],
     Msg [Rel 7] [A ''Start error!''] False False [[U [36816, 34892, 38169, 35823, 65306]]],
     Msg [Rel 11] [A ''Stop mining coins...''] False False [[U [20572, 27490, 25366, 24065]]],
     Msg [Rel 7] [A ''Stop error!''] False False [[U [38169, 35823, 65306]]]
    ]"

lemma zh_CN_MiningPage_1_ok: "list_all same_markers zh_CN_MiningPage_1"
  unfolding zh_CN_MiningPage_1_def by (simp add: catalogue_eval cong: eval_congs)

lemma zh_CN_MiningPage_1_forms: "list_all (forms_ok (Suc 0)) zh_CN_MiningPage_1"
  unfolding zh_CN_MiningPage_1_def by (simp add: forms_ok_def cong: form_congs)

definition zh_CN_MiningPage :: context_messages where
  "zh_CN_MiningPage = (''MiningPage'', zh_CN_MiningPage_1)"

lemma zh_CN_MiningPage_ok: "context_ok (Suc 0) zh_CN_MiningPage"
  unfolding zh_CN_MiningPage_def by (simp add: context_ok_def zh_CN_MiningPage_1_ok
    zh_CN_MiningPage_1_forms)

definition zh_CN_OptionsDialog_1 :: "message list" where
  "zh_CN_OptionsDialog_1 =
    [
     Msg [At ''../forms/optionsdialog.ui'' 14] [A ''Options''] False False [[U [36873, 39033]]],
     Msg [Rel 16] [A ''&Main''] False False [[A ''&'', U [20027, 35201, 30340]]],
     Msg [Rel 6] [A ''Optional transaction fee per kB that helps make sure your transactions are processed quickly. Most transactions are 1 kB.''] False False [[U [21487,
      36873, 30340, 20132, 26131, 36153], A '' '', U [27599], A ''kB '', U [26377, 21161, 20110,
      30830, 20445, 24555, 36895, 22788, 29702, 24744, 30340, 20132, 26131, 12290, 22823, 22810,
      25968, 30340, 20132, 26131], A '' 1 kB.'']],
     Msg [Rel 15] [A ''Pay transaction &fee''] False False [[U [25903, 20184, 20132, 26131],
      A '' &'', U [36153, 29992]]],
     Msg [Rel 31] [A ''Automatically start Blazecoin after logging in to the system.''] False False [[U [30331,
      24405, 31995, 32479, 21518, 33258, 21160, 24320, 21551, 19990, 30028, 24065, 23458, 25143,
      31471]]],
     Msg [Rel 3] [A ''&Start Blazecoin on system login''] False False [[U [21551, 21160, 26102],
      A ''&'', U [36816, 34892]]],
     Msg [Rel 35] [A ''Reset all client options to default.''] False False [[U [24674, 22797,
      23458, 25143, 31471, 30340, 32570, 30465, 35774, 32622]]],
     Msg [Rel 3] [A ''&Reset Options''] False False [[U [24674, 22797, 32570, 30465, 35774,
      32622]]],
     Msg [Rel 13] [A ''&Network''] False False [[A ''&'', U [32593, 32476]]],
     Msg [Rel 6] [A ''Automatically open the Blazecoin client port on the router. This only works when your router supports UPnP and it is enabled.''] False False [[U [33258,
      21160, 22312, 36335, 30001, 22120, 20013, 25171, 24320, 19990, 30028, 24065, 31471, 21475,
      12290, 21482, 26377, 24403, 24744, 30340, 36335, 30001, 22120, 24320, 21551], A '' UPnP '',
      U [36873, 39033, 26102, 27492, 21151, 33021, 25165, 26377, 25928, 12290]]],
     Msg [Rel 3] [A ''Map port using &UPnP''] False False [[U [20351, 29992], A '' &UPnP '',
      U [26144, 23556, 31471, 21475]]],
     Msg [Rel 7] [A ''Connect to the Blazecoin network through a SOCKS proxy (e.g. when connecting through Tor).''] False False [[U [36890,
      36807, 20195, 29702, 26381, 21153, 22120, 36830, 25509, 19990, 30028, 24065, 32593, 32476],
      A ''('', U [20363, 22914, 65306, 36890, 36807], A ''Tor'', U [36830, 25509], A '')'']],
     Msg [Rel 3] [A ''&Connect through SOCKS proxy:''] False False [[A ''&'', U [36890, 36807],
      A ''Socks'', U [20195, 29702, 36830, 25509], A '':'']],
     Msg [Rel 9] [A ''Proxy &IP:''] False False [[U [20195, 29702, 26381, 21153, 22120],
      A ''&IP:'']],
     Msg [Rel 19] [A ''IP address of the proxy (e.g. 127.0.0.1)''] False False [[U [20195, 29702,
      26381, 21153, 22120], A ''IP ('', U [22914], A '' 127.0.0.1)'']],
     Msg [Rel 7] [A ''&Port:''] False False [[A ''&'', U [31471, 21475], A '':'']],
     Msg [Rel 19] [A ''Port of the proxy (e.g. 9050)''] False False [[U [20195, 29702, 31471,
      21475], A ''('', U [20363, 22914], A '' 9050)'']],
     Msg [Rel 7] [A ''SOCKS &Version:''] False False [[A ''Socks &'', U [29256, 26412]]],
     Msg [Rel 13] [A ''SOCKS version of the proxy (e.g. 5)''] False False [[A ''Socks'', U [20195,
      29702, 29256, 26412], A '' ('', U [20363, 22914], A '' 5)'']],
     Msg [Rel 36] [A ''&Window''] False False [[A ''&'', U [31383, 21475]]],
     Msg [Rel 6] [A ''Show only a tray icon after minimizing the window.''] False False [[U [26368,
      23567, 21270, 31383, 21475, 21518, 20165, 26174, 31034, 25176, 30424, 22270, 26631]]],
     Msg [Rel 3] [A ''&Minimize to the tray instead of the taskbar''] False False [[A ''&'',
      U [26368, 23567, 21270, 21040, 25176, 30424]]],
     Msg [Rel 7] [A ''Minimize instead of exit the application when the window is closed. When this option is enabled, the application will be closed only after selecting Quit in the menu.''] False False [[U [24403,
      31383, 21475, 20851, 38381, 26102, 31243, 24207, 26368, 23567, 21270, 32780, 19981, 26159,
      36864, 20986, 12290, 24403, 20351, 29992, 35813, 36873, 39033, 26102, 65292, 31243, 24207,
      21482, 33021, 36890, 36807, 22312, 33756, 21333, 20013, 36873, 25321, 36864, 20986, 26469,
      20851, 38381]]],
     Msg [Rel 3] [A ''M&inimize on close''] False False [[U [21333, 20987, 20851, 38381, 25353,
      38062, 26368, 23567, 21270]]],
     Msg [Rel 21] [A ''&Display''] False False [[A ''&'', U [26174, 31034]]],
     Msg [Rel 8] [A ''User Interface &language:''] False False [[U [29992, 25143, 30028, 38754],
      A ''&'', U [35821, 35328], A '':'']],
     Msg [Rel 13] [A ''The user interface language can be set here. This setting will take effect after restarting Blazecoin.''] False False [[U [22312,
      36825, 37324, 35774, 32622, 29992, 25143, 30028, 38754, 30340, 35821, 35328, 12290, 35774,
      32622, 23558, 22312, 23458, 25143, 31471, 37325, 21551, 21518, 29983, 25928, 12290]]],
     Msg [Rel 11] [A ''&Unit to show amounts in:''] False False [[A ''&'', U [19990, 30028, 24065,
      37329, 39069, 21333, 20301], A '':'']],
     Msg [Rel 13] [A ''Choose the default subdivision unit to show in the interface and when sending coins.''] False False [[U [36873,
      25321, 19990, 30028, 24065, 21333, 20301, 12290]]]
    ]"

lemma zh_CN_OptionsDialog_1_ok: "list_all same_markers zh_CN_OptionsDialog_1"
  unfolding zh_CN_OptionsDialog_1_def by (simp add: catalogue_eval cong: eval_congs)

lemma zh_CN_OptionsDialog_1_forms: "list_all (forms_ok (Suc 0)) zh_CN_OptionsDialog_1"
  unfolding zh_CN_OptionsDialog_1_def by (simp add: forms_ok_def cong: form_congs)

definition zh_CN_OptionsDialog_2 :: "message list" where
  "zh_CN_OptionsDialog_2 =
    [
     Msg [Rel 9] [A ''Whether to show Blazecoin addresses in the transaction list or not.''] False False [[U [26159,
      21542, 38656, 35201, 22312, 20132, 26131, 28165, 21333, 20013, 26174, 31034, 19990, 30028,
      24065, 22320, 22336, 12290]]],
     Msg [Rel 3] [A ''&Display addresses in transaction list''] False False [[U [22312, 20132,
      26131, 28165, 21333, 20013], A ''&'', U [26174, 31034, 19990, 30028, 24065, 22320, 22336]]],
     Msg [Rel 21] [A ''Mining''] False False [[U [25366, 30719]]],
     Msg [Rel 9] [A ''&Start mining Blazecoins on application start''] False False [[U [21551,
      21160, 26102, 36816, 34892, 31243, 24207]]],
     Msg [Rel 71] [A ''&OK''] False False [[A ''&'', U [30830, 23450]]],
     Msg [Rel 7] [A ''&Cancel''] False False [[A ''&'', U [21462, 28040]]],
     Msg [Rel 10] [A ''&Apply''] False False [[A ''&'', U [24212, 29992]]],
     Msg [At ''../optionspage.cpp'' 56] [A ''default''] False False [[U [32570, 30465]]],
     Msg [Rel 43] [A ''Optional transaction fee per kB that helps make sure your transactions are processed quickly. Fee 0.01 recommended.''] False False [[U [21487,
      36873, 30340, 20132, 26131, 36153], A '' '', U [27599], A ''kB '', U [26377, 21161, 20110,
      30830, 20445, 24555, 36895, 22788, 29702, 24744, 30340, 20132, 26131, 12290, 24314, 35758,
      36153, 29992], A ''0.01'']],
     Msg [Rel 112] [A ''Confirm options reset''] False False [[U [30830, 35748, 24674, 22797,
      32570, 30465, 35774, 32622]]],
     Msg [Rel 1] [A ''Some settings may require a client restart to take effect.''] False False [[U [26576,
      20123, 35774, 32622, 36873, 39033, 38656, 35201, 37325, 21551, 23458, 25143, 31471, 25165,
      33021, 29983, 25928]]],
     Msg [Rel 0] [A ''Do you want to proceed?''] False False [[U [24744, 24076, 26395, 32487,
      32493, 21527, 65311]]],
     Msg [Rel 42, Rel 9] [A ''Warning''] False False [[U [35686, 21578]]],
     Msg [Rel (- 9),
      Rel 9] [A ''This setting will take effect after restarting Blazecoin.''] False False [[U [38656,
      35201, 37325, 21551, 23458, 25143, 31471, 36719, 20214, 25165, 33021, 29983, 25928, 12290]]],
     Msg [Rel 29] [A ''The supplied proxy address is invalid.''] False False [[U [25552, 20379,
      30340, 20195, 29702, 26381, 21153, 22120, 22320, 22336, 26080, 25928, 12290]]]
    ]"

lemma zh_CN_OptionsDialog_2_ok: "list_all same_markers zh_CN_OptionsDialog_2"
  unfolding zh_CN_OptionsDialog_2_def by (simp add: catalogue_eval cong: eval_congs)

lemma zh_CN_OptionsDialog_2_forms: "list_all (forms_ok (Suc 0)) zh_CN_OptionsDialog_2"
  unfolding zh_CN_OptionsDialog_2_def by (simp add: forms_ok_def cong: form_congs)

definition zh_CN_OptionsDialog :: context_messages where
  "zh_CN_OptionsDialog = (''OptionsDialog'', zh_CN_OptionsDialog_1 @ zh_CN_OptionsDialog_2)"

lemma zh_CN_OptionsDialog_ok: "context_ok (Suc 0) zh_CN_OptionsDialog"
  unfolding zh_CN_OptionsDialog_def by (simp add: context_ok_def zh_CN_OptionsDialog_1_ok
    zh_CN_OptionsDialog_1_forms zh_CN_OptionsDialog_2_ok zh_CN_OptionsDialog_2_forms)

definition zh_CN_OptionsPage_1 :: "message list" where
  "zh_CN_OptionsPage_1 =
    [
     Msg [At ''../forms/optionspage.ui'' 159] [A ''Form''] False False [[U [34920, 21333]]],
     Msg [Rel 110] [A ''Common settings, Network''] False False [[U [26222, 36890, 35774, 32622,
      65292, 32593, 32476]]],
     Msg [Rel 103] [A ''Common''] False False [[U [26222, 36890]]],
     Msg [Rel 29] [A ''Automatically start Blazecoin after logging in to the system.''] False False [[U [30331,
      24405, 31995, 32479, 21518, 33258, 21160, 24320, 21551, 19990, 30028, 24065, 23458, 25143,
      31471]]],
     Msg [Rel 3] [A ''&Start Blazecoin on system login''] False False [[U [21551, 21160, 26102],
      A ''&'', U [36816, 34892]]],
     Msg [Rel 17] [A ''&Start mining blazecoins on start application''] False False [[U [21551,
      21160, 26102, 36816, 34892, 31243, 24207]]],
     Msg [Rel 14] [A ''Show only a tray icon after minimizing the window.''] False False [[U [26368,
      23567, 21270, 31383, 21475, 21518, 20165, 26174, 31034, 25176, 30424, 22270, 26631]]],
     Msg [Rel 3] [A ''&Minimize to the tray instead of the taskbar''] False False [[A ''&'',
      U [26368, 23567, 21270, 21040, 25176, 30424]]],
     Msg [Rel 14] [A ''Minimize instead of exit the application when the window is closed. When this option is enabled, the application will be closed only after selecting Quit in the menu.''] False False [[U [24403,
      31383, 21475, 20851, 38381, 26102, 31243, 24207, 26368, 23567, 21270, 32780, 19981, 26159,
      36864, 20986, 12290, 24403, 20351, 29992, 35813, 36873, 39033, 26102, 65292, 31243, 24207,
      21482, 33021, 36890, 36807, 22312, 33756, 21333, 20013, 36873, 25321, 36864, 20986, 26469,
      20851, 38381]]],
     Msg [Rel 3] [A ''M&inimize on close''] False False [[U [21333, 20987, 20851, 38381, 25353,
      38062, 26368, 23567, 21270]]],
     Msg [Rel 17] [A ''&Allow sounds''] False False [[A ''&'', U [24320, 21551, 22768, 38899]]],
     Msg [Rel 20] [A ''&Check updates at startup''] False False [[A ''&'', U [24320, 21551, 26102,
      26816, 27979, 26356, 26032]]],
     Msg [Rel 36] [A ''Display''] False False [[U [26174, 31034]]],
     Msg [Rel 60] [A ''&Unit to show amounts in:''] False False [[A ''&'', U [19990, 30028, 24065,
      37329, 39069, 21333, 20301], A '':'']],
     Msg [Rel 18] [A ''Choose the default subdivision unit to show in the interface and when sending coins.''] False False [[U [36873,
      25321, 19990, 30028, 24065, 21333, 20301, 12290]]],
     Msg [Rel 45] [A ''User Interface &language:''] False False [[U [29992, 25143, 30028, 38754],
      A ''&'', U [35821, 35328], A '':'']],
     Msg [Rel 31] [A ''The user interface language can be set here. This setting will take effect after restarting Blazecoin.''] False False [[U [22312,
      36825, 37324, 35774, 32622, 29992, 25143, 30028, 38754, 30340, 35821, 35328, 12290, 35774,
      32622, 23558, 22312, 23458, 25143, 31471, 37325, 21551, 21518, 29983, 25928, 12290]]],
     Msg [Rel 17] [A ''Whether to show Blazecoin addresses in the transaction list or not.''] False False [[U [26159,
      21542, 38656, 35201, 22312, 20132, 26131, 28165, 21333, 20013, 26174, 31034, 19990, 30028,
      24065, 22320, 22336, 12290]]],
     Msg [Rel 3] [A ''&Display addresses in transaction list''] False False [[U [22312, 20132,
      26131, 28165, 21333, 20013], A ''&'', U [26174, 31034, 19990, 30028, 24065, 22320, 22336]]],
     Msg [Rel 59] [A ''Pay transaction fee''] False False [[U [25903, 20184, 20132, 26131],
      A '' '', U [36153, 29992]]],
     Msg [Rel 56] [A ''Network''] False False [[U [32593, 32476]]],
     Msg [Rel 32] [A ''Automatically open the Blazecoin client port on the router. This only works when your router supports UPnP and it is enabled.''] False False [[U [33258,
      21160, 22312, 36335, 30001, 22120, 20013, 25171, 24320, 19990, 30028, 24065, 31471, 21475,
      12290, 21482, 26377, 24403, 24744, 30340, 36335, 30001, 22120, 24320, 21551], A '' UPnP '',
      U [36873, 39033, 26102, 27492, 21151, 33021, 25165, 26377, 25928, 12290]]],
     Msg [Rel 3] [A ''Map port using &UPnP''] False False [[U [20351, 29992], A '' &UPnP '',
      U [26144, 23556, 31471, 21475]]],
     Msg [Rel 23] [A ''Connect to the Blazecoin network through a SOCKS proxy (e.g. when connecting through Tor).''] False False [[U [36890,
      36807, 20195, 29702, 26381, 21153, 22120, 36830, 25509, 19990, 30028, 24065, 32593, 32476],
      A ''('', U [20363, 22914, 65306, 36890, 36807], A ''Tor'', U [36830, 25509], A '')'']],
     Msg [Rel 3] [A ''&Connect through SOCKS proxy:''] False False [[A ''&'', U [36890, 36807],
      A ''Socks'', U [20195, 29702, 36830, 25509], A '':'']],
     Msg [Rel 42] [A ''Proxy &IP:''] False False [[U [20195, 29702, 26381, 21153, 22120],
      A ''&IP:'']],
     Msg [Rel 27] [A ''IP address of the proxy (e.g. 127.0.0.1)''] False False [[U [20195, 29702,
      26381, 21153, 22120], A ''IP ('', U [22914], A '' 127.0.0.1)'']],
     Msg [Rel 30] [A ''&Port:''] False False [[A ''&'', U [31471, 21475], A '':'']],
     Msg [Rel 27] [A ''Port of the proxy (e.g. 9050)''] False False [[U [20195, 29702, 31471,
      21475], A ''('', U [20363, 22914], A '' 9050)'']]
    ]"

lemma zh_CN_OptionsPage_1_ok: "list_all same_markers zh_CN_OptionsPage_1"
  unfolding zh_CN_OptionsPage_1_def by (simp add: catalogue_eval cong: eval_congs)

lemma zh_CN_OptionsPage_1_forms: "list_all (forms_ok (Suc 0)) zh_CN_OptionsPage_1"
  unfolding zh_CN_OptionsPage_1_def by (simp add: forms_ok_def cong: form_congs)

definition zh_CN_OptionsPage_2 :: "message list" where
  "zh_CN_OptionsPage_2 =
    [
     Msg [Rel 48] [A ''SOCKS &Version:''] False False [[A ''Socks &'', U [29256, 26412]]],
     Msg [Rel 33] [A ''SOCKS version of the proxy (e.g. 5)''] False False [[A ''Socks'', U [20195,
      29702, 29256, 26412], A '' ('', U [20363, 22914], A '' 5)'']],
     Msg [Rel 128] [A ''Reset all client options to default.''] False False [[U [24674, 22797,
      23458, 25143, 31471, 30340, 32570, 30465, 35774, 32622]]],
     Msg [Rel 22] [A ''&Reset Options''] False False [[U [24674, 22797, 32570, 30465, 35774,
      32622]]],
     Msg [Rel 51] [A ''&Apply''] False False [[A ''&'', U [24212, 29992]]]
    ]"

lemma zh_CN_OptionsPage_2_ok: "list_all same_markers zh_CN_OptionsPage_2"
  unfolding zh_CN_OptionsPage_2_def by (simp add: catalogue_eval cong: eval_congs)

lemma zh_CN_OptionsPage_2_forms: "list_all (forms_ok (Suc 0)) zh_CN_OptionsPage_2"
  unfolding zh_CN_OptionsPage_2_def by (simp add: forms_ok_def cong: form_congs)

definition zh_CN_OptionsPage :: context_messages where
  "zh_CN_OptionsPage = (''OptionsPage'', zh_CN_OptionsPage_1 @ zh_CN_OptionsPage_2)"

lemma zh_CN_OptionsPage_ok: "context_ok (Suc 0) zh_CN_OptionsPage"
  unfolding zh_CN_OptionsPage_def by (simp add: context_ok_def zh_CN_OptionsPage_1_ok
    zh_CN_OptionsPage_1_forms zh_CN_OptionsPage_2_ok zh_CN_OptionsPage_2_forms)

definition zh_CN_OverviewPage_1 :: "message list" where
  "zh_CN_OverviewPage_1 =
    [
     Msg [At ''../forms/overviewpage.ui'' 159] [A ''Form''] False False [[U [34920, 21333]]],
     Msg [Rel 128] [A ''Account status''] False False [[U [36134, 25143, 29366, 24577]]],
     Msg [Rel 35, Rel 46, Rel 46] [A ''0 Lrks''] False False [[A ''0 Mec'']],
     Msg [Rel 64] [A ''Balance:''] False False [[U [20313, 39069, 65306]]],
     Msg [Rel 47] [A ''Unconfirmed:''] False False [[U [26410, 30830, 35748, 65306]]],
     Msg [Rel 175] [A ''Last transactions''] False False [[U [26368, 21518, 19968, 27425, 20132,
      26131, 35760, 24405]]],
     Msg [Rel (- 128)] [A ''Immature:''] False False [[U [26410, 25104, 29087, 30340, 65306]]]
    ]"

lemma zh_CN_OverviewPage_1_ok: "list_all same_markers zh_CN_OverviewPage_1"
  unfolding zh_CN_OverviewPage_1_def by (simp add: catalogue_eval cong: eval_congs)

lemma zh_CN_OverviewPage_1_forms: "list_all (forms_ok (Suc 0)) zh_CN_OverviewPage_1"
  unfolding zh_CN_OverviewPage_1_def by (simp add: forms_ok_def cong: form_congs)

definition zh_CN_OverviewPage :: context_messages where
  "zh_CN_OverviewPage = (''OverviewPage'', zh_CN_OverviewPage_1)"

lemma zh_CN_OverviewPage_ok: "context_ok (Suc 0) zh_CN_OverviewPage"
  unfolding zh_CN_OverviewPage_def by (simp add: context_ok_def zh_CN_OverviewPage_1_ok
    zh_CN_OverviewPage_1_forms)

definition zh_CN_PaymentServer_1 :: "message list" where
  "zh_CN_PaymentServer_1 =
    [
     Msg [At ''../paymentserver.cpp'' 110] [A ''Cannot start blazecoin: click-to-pay handler''] False False [[U [26242,
      26102, 26080, 27861, 21551, 21160, 19990, 30028, 24065, 65306, 28857, 20987, 25903, 20184,
      21151, 33021]]]
    ]"

lemma zh_CN_PaymentServer_1_ok: "list_all same_markers zh_CN_PaymentServer_1"
  unfolding zh_CN_PaymentServer_1_def by (simp add: catalogue_eval cong: eval_congs)

lemma zh_CN_PaymentServer_1_forms: "list_all (forms_ok (Suc 0)) zh_CN_PaymentServer_1"
  unfolding zh_CN_PaymentServer_1_def by (simp add: forms_ok_def cong: form_congs)

definition zh_CN_PaymentServer :: context_messages where
  "zh_CN_PaymentServer = (''PaymentServer'', zh_CN_PaymentServer_1)"

lemma zh_CN_PaymentServer_ok: "context_ok (Suc 0) zh_CN_PaymentServer"
  unfolding zh_CN_PaymentServer_def by (simp add: context_ok_def zh_CN_PaymentServer_1_ok
    zh_CN_PaymentServer_1_forms)

definition zh_CN_QRCodeDialog_1 :: "message list" where
  "zh_CN_QRCodeDialog_1 =
    [
     Msg [At ''../forms/qrcodedialog.ui'' 14] [A ''QR Code Dialog''] False False [[U [20108, 32500,
      30721, 23545, 35805, 26694]]],
     Msg [Rel 59] [A ''Request Payment''] False False [[U [35831, 27714, 20184, 27454]]],
     Msg [Rel 56] [A ''Amount:''] False False [[U [37329, 39069, 65306]]],
     Msg [Rel (- 44)] [A ''Label:''] False False [[U [26631, 31614, 65306]]],
     Msg [Rel 19] [A ''Message:''] False False [[U [28040, 24687, 65306]]],
     Msg [Rel 71] [A ''&Save As...''] False False [[A ''&'', U [21478, 23384, 20026]]],
     Msg [At ''../qrcodedialog.cpp'' 64] [A ''Error encoding URI into QR Code.''] False False [[U [23558],
      A '' URI '', U [36716, 25442, 25104, 20108, 32500, 30721, 22833, 36133], A ''.'']],
     Msg [Rel 40] [A ''The entered amount is invalid, please check.''] False False [[U [36755,
      20837, 30340, 37329, 39069, 38750, 27861, 65292, 35831, 26816, 26597, 12290]]],
     Msg [Rel 23] [A ''Resulting URI too long, try to reduce the text for label / message.''] False False [[A ''URI '',
      U [22826, 38271], A '', '', U [35831, 35797, 30528, 31934, 31616, 26631, 31614], A ''/'',
      U [28040, 24687, 30340, 20869, 23481], A ''.'']],
     Msg [Rel 25] [A ''Save QR Code''] False False [[U [20445, 23384, 20108, 32500, 30721]]],
     Msg [Rel 0] [A ''PNG Images (*.png)''] False False [[A ''PNG'', U [22270, 20687, 25991,
      20214], A ''(*.png)'']]
    ]"

lemma zh_CN_QRCodeDialog_1_ok: "list_all same_markers zh_CN_QRCodeDialog_1"
  unfolding zh_CN_QRCodeDialog_1_def by (simp add: catalogue_eval cong: eval_congs)

lemma zh_CN_QRCodeDialog_1_forms: "list_all (forms_ok (Suc 0)) zh_CN_QRCodeDialog_1"
  unfolding zh_CN_QRCodeDialog_1_def by (simp add: forms_ok_def cong: form_congs)

definition zh_CN_QRCodeDialog :: context_messages where
  "zh_CN_QRCodeDialog = (''QRCodeDialog'', zh_CN_QRCodeDialog_1)"

lemma zh_CN_QRCodeDialog_ok: "context_ok (Suc 0) zh_CN_QRCodeDialog"
  unfolding zh_CN_QRCodeDialog_def by (simp add: context_ok_def zh_CN_QRCodeDialog_1_ok
    zh_CN_QRCodeDialog_1_forms)

definition zh_CN_RPCConsole_1 :: "message list" where
  "zh_CN_RPCConsole_1 =
    [
     Msg [At ''../forms/rpcconsole.ui'' 46] [A ''Client name''] False False [[U [23458, 25143,
      31471, 21517, 31216]]],
     Msg [Rel 10, Rel 23, Rel 26, Rel 23, Rel 23, Rel 36, Rel 53, Rel 23, Rel 23,
      At ''../rpcconsole.cpp'' 365] [A ''N/A''] False False [[U [19981, 21487, 29992]]],
     Msg [Rel (- 217)] [A ''Client version''] False False [[U [23458, 25143, 31471, 29256, 26412]]],
     Msg [Rel (- 45)] [A ''&Information''] False False [[A ''&'', U [20449, 24687]]],
     Msg [Rel 68] [A ''Using OpenSSL version''] False False [[U [20351, 29992], A ''OpenSSL'',
      U [29256, 26412]]],
     Msg [Rel 49] [A ''Startup time''] False False [[U [21551, 21160, 26102, 38388]]],
     Msg [Rel 29] [A ''Network''] False False [[U [32593, 32476]]],
     Msg [Rel 7] [A ''Number of connections''] False False [[U [36830, 25509, 25968]]],
     Msg [Rel 23] [A ''On testnet''] False False [[U [24403, 21069, 20026, 19990, 30028, 24065,
      27979, 35797, 32593, 32476]]],
     Msg [Rel 23] [A ''Block chain''] False False [[U [25968, 25454, 38142]]],
     Msg [Rel 7] [A ''Current number of blocks''] False False [[U [24403, 21069, 25968, 25454,
      22359, 25968, 37327]]],
     Msg [Rel 23] [A ''Estimated total blocks''] False False [[U [39044, 35745, 25968, 25454,
      22359, 25968, 37327]]],
     Msg [Rel 23] [A ''Last block time''] False False [[U [19978, 19968, 25968, 25454, 22359,
      26102, 38388]]],
     Msg [Rel 52] [A ''&Open''] False False [[A ''&'', U [25171, 24320]]],
     Msg [Rel 16] [A ''Command-line options''] False False [[U [21629, 20196, 34892, 36873,
      39033]]],
     Msg [Rel 7] [A ''Show the Blazecoin-Qt help message to get a list with possible Blazecoin command-line options.''] False False [[U [26174,
      31034], A ''Blazecoin'', U [21629, 20196, 34892, 36873, 39033, 24110, 21161, 20449, 24687]]],
     Msg [Rel 3] [A ''&Show''] False False [[A ''&'', U [26174, 31034]]],
     Msg [Rel 24] [A ''&Console''] False False [[A ''&'', U [25511, 21046, 21488]]],
     Msg [Rel 72] [A ''Send network alert''] False False [[U [21457, 36865, 32593, 32476, 35686,
      25253]]],
     Msg [Rel 5] [A ''Send news''] False False [[U [21457, 36865, 20449, 24687]]],
     Msg [Rel 22] [A ''Header''] False False [[U [26631, 39064]]],
     Msg [Rel 33] [A ''Tray''] False False [[U [26368, 23567, 21270, 31383, 21475]]],
     Msg [Rel 13] [A ''Text''] False False [[U [20449, 24687]]],
     Msg [Rel 23] [A ''Date''] False False [[U [26085, 26399]]],
     Msg [Rel 13] [A ''Expires On''] False False [[U [36807, 26399]]],
     Msg [Rel 33] [A ''ID''] False False [[A ''ID'']],
     Msg [Rel 13] [A ''Language''] False False [[U [35821, 35328]]]
    ]"

lemma zh_CN_RPCConsole_1_ok: "list_all same_markers zh_CN_RPCConsole_1"
  unfolding zh_CN_RPCConsole_1_def by (simp add: catalogue_eval cong: eval_congs)

lemma zh_CN_RPCConsole_1_forms: "list_all (forms_ok (Suc 0)) zh_CN_RPCConsole_1"
  unfolding zh_CN_RPCConsole_1_def by (simp add: forms_ok_def cong: form_congs)

definition zh_CN_RPCConsole_2 :: "message list" where
  "zh_CN_RPCConsole_2 =
    [
     Msg [Rel 26] [A ''Signature''] False False [[U [31614, 21517]]],
     Msg [Rel 23] [A ''Send''] False False [[U [21457, 36865]]],
     Msg [Rel (- 536)] [A ''Build date''] False False [[U [21019, 24314, 26102, 38388]]],
     Msg [Rel (- 104)] [A ''Blazecoin - Debug window''] False False [[U [19990, 30028, 24065],
      A '' - '', U [35843, 35797, 31383, 21475]]],
     Msg [Rel 25] [A ''Blazecoin Core''] False False [[U [19990, 30028, 24065, 26680, 24515]]],
     Msg [Rel 279] [A ''Debug log file''] False False [[U [35843, 35797, 26085, 24535, 25991,
      20214]]],
     Msg [Rel 7] [A ''Open the Blazecoin debug log file from the current data directory. This can take a few seconds for large log files.''] False False [[U [25171,
      24320, 24403, 21069, 30446, 24405, 20013, 30340, 35843, 35797, 26085, 24535, 25991, 20214,
      12290, 26085, 24535, 25991, 20214, 22823, 30340, 35805, 21487, 33021, 35201, 31561, 19978,
      20960, 31186, 38047, 12290]]],
     Msg [Rel 102] [A ''Clear console''] False False [[U [28165, 31354, 25511, 21046, 21488]]],
     Msg [At ''../rpcconsole.cpp'' (- 30)] [A ''Welcome to the Blazecoin RPC console.''] False False [[U [27426,
      36814, 26469, 21040], A '' RPC '', U [25511, 21046, 21488], A ''.'']],
     Msg [Rel 1] [A ''Use up and down arrows to navigate history, and <b>Ctrl-L</b> to clear screen.''] False False [[U [20351,
      29992, 19978, 19979, 26041, 21521, 38190, 27983, 35272, 21382, 21490],
      A '',  <b>Ctrl-L</b>'', U [28165, 38500, 23631, 24149], A ''.'']],
     Msg [Rel 1] [A ''Type <b>help</b> for an overview of available commands.''] False False [[U [20351,
      29992], A '' <b>help</b> '', U [21629, 20196, 26174, 31034, 24110, 21161, 20449, 24687],
      A ''.'']]
    ]"

lemma zh_CN_RPCConsole_2_ok: "list_all same_markers zh_CN_RPCConsole_2"
  unfolding zh_CN_RPCConsole_2_def by (simp add: catalogue_eval cong: eval_congs)

lemma zh_CN_RPCConsole_2_forms: "list_all (forms_ok (Suc 0)) zh_CN_RPCConsole_2"
  unfolding zh_CN_RPCConsole_2_def by (simp add: forms_ok_def cong: form_congs)

definition zh_CN_RPCConsole :: context_messages where
  "zh_CN_RPCConsole = (''RPCConsole'', zh_CN_RPCConsole_1 @ zh_CN_RPCConsole_2)"

lemma zh_CN_RPCConsole_ok: "context_ok (Suc 0) zh_CN_RPCConsole"
  unfolding zh_CN_RPCConsole_def by (simp add: context_ok_def zh_CN_RPCConsole_1_ok
    zh_CN_RPCConsole_1_forms zh_CN_RPCConsole_2_ok zh_CN_RPCConsole_2_forms)

definition zh_CN_SendCoinsDialog_1 :: "message list" where
  "zh_CN_SendCoinsDialog_1 =
    [
     Msg [At ''../forms/sendcoinsdialog.ui'' 105, At ''../sendcoinsdialog.cpp'' 130, Rel 5, Rel 5,
      Rel 5, Rel 6, Rel 5, Rel 5] [A ''Send Coins''] False False [[U [21457, 36865, 36135, 24065]]],
     Msg [Rel 278] [A ''Remove all transaction fields''] False False [[U [31227, 38500, 25152,
      26377, 20132, 26131, 39033]]],
     Msg [Rel 22] [A ''Clear &All''] False False [[U [28165, 38500], A '' &'', U [25152, 26377]]],
     Msg [Rel (- 75)] [A ''Balance:''] False False [[U [20313, 39069, 65306]]],
     Msg [Rel (- 115)] [A ''Send Blazecoins''] False False [[U [21457, 36865, 36135, 24065]]],
     Msg [Rel 137] [A ''123.456 WDC''] False False [[A ''123.456 WDC'']],
     Msg [Rel 75] [A ''Confirm the send action''] False False [[U [30830, 35748, 24182, 21457,
      36865, 36135, 24065]]],
     Msg [Rel 22] [A ''S&end''] False False [[U [21457, 36865]]],
     Msg [At ''../sendcoinsdialog.cpp'' (- 62),
      Rel 2] [A ''<b>%1</b> to %2 (%3)''] False False [[A ''<b>%1</b> '', U [21040],
      A '' %2 (%3)'']],
     Msg [Rel 6] [A ''Confirm send coins''] False False [[U [30830, 35748, 21457, 36865, 36135,
      24065]]],
     Msg [Rel 1] [A ''Are you sure you want to send %1?''] False False [[U [30830, 23450, 24744,
      35201, 21457, 36865], A '' %1?'']],
     Msg [Rel 0] [A '' and ''] False False [[A '' '', U [21644], A '' '']],
     Msg [Rel 23] [A ''The recipient address is not valid, please recheck.''] False False [[U [25910,
      27454, 20154, 22320, 22336, 19981, 21512, 27861, 65292, 35831, 26816, 26597, 12290]]],
     Msg [Rel 5] [A ''The amount to pay must be larger than 0.''] False False [[U [25903, 20184,
      37329, 39069, 24517, 39035, 22823, 20110], A ''0.'']],
     Msg [Rel 5] [A ''The amount exceeds your balance.''] False False [[U [37329, 39069, 36229,
      20986, 24744, 30340, 36134, 19978, 20313, 39069, 12290]]],
     Msg [Rel 5] [A ''The total exceeds your balance when the %1 transaction fee is included.''] False False [[U [35745,
      20837], A '' %1 '', U [20132, 26131, 36153, 21518, 30340, 37329, 39069, 36229, 20986, 24744,
      30340, 36134, 19978, 20313, 39069, 12290]]],
     Msg [Rel 6] [A ''Duplicate address found, can only send to each address once per send operation.''] False False [[U [21457,
      29616, 37325, 22797, 30340, 22320, 22336], A '', '', U [27599, 27425, 21482, 33021, 23545,
      21516, 19968, 22320, 22336, 21457, 36865, 19968, 27425], A ''.'']],
     Msg [Rel 5] [A ''Error: Transaction creation failed!''] False False [[U [38169, 35823, 65306,
      21019, 24314, 20132, 26131, 22833, 36133, 65281]]],
     Msg [Rel 5] [A ''Error: The transaction was rejected. This might happen if some of the coins in your wallet were already spent, such as if you used a copy of wallet.dat and coins were spent in the copy but not marked as spent here.''] False False [[U [38169,
      35823], A '': '', U [20132, 26131, 34987, 25298, 32477], A ''. '', U [22914, 26524, 24744,
      20351, 29992, 30340, 26159, 22791, 20221, 38065, 21253, 65292, 21487, 33021, 23384, 22312,
      20004, 20010, 38065, 21253, 19981, 21516, 27493, 30340, 24773, 20917, 65292, 21478, 19968,
      20010, 38065, 21253, 20013, 30340, 19990, 30028, 24065, 24050, 32463, 34987, 20351, 29992,
      65292, 20294, 26412, 22320, 30340, 36825, 20010, 38065, 21253, 23578, 27809, 26377, 35760,
      24405, 12290]]]
    ]"

lemma zh_CN_SendCoinsDialog_1_ok: "list_all same_markers zh_CN_SendCoinsDialog_1"
  unfolding zh_CN_SendCoinsDialog_1_def by (simp add: catalogue_eval cong: eval_congs)

lemma zh_CN_SendCoinsDialog_1_forms: "list_all (forms_ok (Suc 0)) zh_CN_SendCoinsDialog_1"
  unfolding zh_CN_SendCoinsDialog_1_def by (simp add: forms_ok_def cong: form_congs)

definition zh_CN_SendCoinsDialog :: context_messages where
  "zh_CN_SendCoinsDialog = (''SendCoinsDialog'', zh_CN_SendCoinsDialog_1)"

lemma zh_CN_SendCoinsDialog_ok: "context_ok (Suc 0) zh_CN_SendCoinsDialog"
  unfolding zh_CN_SendCoinsDialog_def by (simp add: context_ok_def zh_CN_SendCoinsDialog_1_ok
    zh_CN_SendCoinsDialog_1_forms)

definition zh_CN_SendCoinsEntry_1 :: "message list" where
  "zh_CN_SendCoinsEntry_1 =
    [
     Msg [At ''../forms/sendcoinsentry.ui'' 116] [A ''A&mount:''] False False [[U [37329, 39069]]],
     Msg [Rel (- 40)] [A ''Pay &To:''] False False [[U [20184, 27454], A ''&'', U [32473, 65306]]],
     Msg [Rel 86] [A ''The address to send the payment to (e.g. MNS17iag9jJgTHD1VXjvLCEnZuQ3rJDE9L)''] False False [[U [20184,
      27454, 32473, 36825, 20010, 22320, 22336], A ''  ('', U [20363, 22914],
      A '' MNS17iag9jJgTHD1VXjvLCEnZuQ3rJDE9L)'']],
     Msg [Rel (- 13),
      At ''../sendcoinsentry.cpp'' 26] [A ''Enter a label for this address to add it to your address book''] False False [[U [20026,
      36825, 20010, 22320, 22336, 36755, 20837, 19968, 20010, 26631, 31614, 65292, 20197, 20415,
      23558, 23427, 28155, 21152, 21040, 24744, 30340, 22320, 22336, 31807]]],
     Msg [Rel (- 53)] [A ''&Label:''] False False [[A ''&'', U [26631, 31614, 65306]]],
     Msg [Rel 94] [A ''Send to multiple recipients at once''] False False [[U [19968, 27425, 21457,
      36865, 32473, 22810, 20010, 25509, 25910, 32773]]],
     Msg [Rel 92] [A ''Choose address from address book''] False False [[U [20174, 22320, 22336,
      31807, 36873, 25321, 22320, 22336]]],
     Msg [Rel (- 22)] [A ''Alt+A''] False False [[A ''Alt+A'']],
     Msg [Rel (- 24)] [A ''Paste address from clipboard''] False False [[U [20174, 21098, 36148,
      26495, 31896, 36148, 22320, 22336]]],
     Msg [Rel (- 22), Rel 92] [A ''Alt+P''] False False [[A ''Alt+P'']],
     Msg [Rel 22] [A ''Remove this recipient''] False False [[U [31227, 38500, 27492, 25509, 25910,
      32773]]],
     Msg [At ''../sendcoinsentry.cpp'' 1] [A ''Enter a Blazecoin address (e.g. MNS17iag9jJgTHD1VXjvLCEnZuQ3rJDE9L)''] False False [[U [35831,
      36755, 20837, 19990, 30028, 24065, 22320, 22336], A '' ('', U [20363, 22914],
      A '': MNS17iag9jJgTHD1VXjvLCEnZuQ3rJDE9L)'']]
    ]"

lemma zh_CN_SendCoinsEntry_1_ok: "list_all same_markers zh_CN_SendCoinsEntry_1"
  unfolding zh_CN_SendCoinsEntry_1_def by (simp add: catalogue_eval cong: eval_congs)

lemma zh_CN_SendCoinsEntry_1_forms: "list_all (forms_ok (Suc 0)) zh_CN_SendCoinsEntry_1"
  unfolding zh_CN_SendCoinsEntry_1_def by (simp add: forms_ok_def cong: form_congs)

definition zh_CN_SendCoinsEntry :: context_messages where
  "zh_CN_SendCoinsEntry = (''SendCoinsEntry'', zh_CN_SendCoinsEntry_1)"

lemma zh_CN_SendCoinsEntry_ok: "context_ok (Suc 0) zh_CN_SendCoinsEntry"
  unfolding zh_CN_SendCoinsEntry_def by (simp add: context_ok_def zh_CN_SendCoinsEntry_1_ok
    zh_CN_SendCoinsEntry_1_forms)

definition zh_CN_ServiceMessagesPage_1 :: "message list" where
  "zh_CN_ServiceMessagesPage_1 =
    [
     Msg [At ''../forms/servicemessagespage.ui'' 159] [A ''Form''] False False [[U [34920, 21333]]],
     Msg [Rel 107] [A ''Messages from Blazecoin''] False False [[U [19990, 30028, 24065, 20449,
      24687]]],
     Msg [Rel 60] [A ''Date''] False False [[U [26085, 26399]]],
     Msg [Rel 20] [A ''Message content''] False False [[U [20449, 24687]]],
     Msg [At ''../servicemessagespage.cpp'' 33] [A ''17:56, 01.03.2012''] False False [[A ''17:56, 01.03.2012'']]
    ]"

lemma zh_CN_ServiceMessagesPage_1_ok: "list_all same_markers zh_CN_ServiceMessagesPage_1"
  unfolding zh_CN_ServiceMessagesPage_1_def by (simp add: catalogue_eval cong: eval_congs)

lemma zh_CN_ServiceMessagesPage_1_forms: "list_all (forms_ok (Suc 0)) zh_CN_ServiceMessagesPage_1"
  unfolding zh_CN_ServiceMessagesPage_1_def by (simp add: forms_ok_def cong: form_congs)

definition zh_CN_ServiceMessagesPage :: context_messages where
  "zh_CN_ServiceMessagesPage = (''ServiceMessagesPage'', zh_CN_ServiceMessagesPage_1)"

lemma zh_CN_ServiceMessagesPage_ok: "context_ok (Suc 0) zh_CN_ServiceMessagesPage"
  unfolding zh_CN_ServiceMessagesPage_def by (simp add: context_ok_def
    zh_CN_ServiceMessagesPage_1_ok zh_CN_ServiceMessagesPage_1_forms)

definition zh_CN_SignMessagePage_1 :: "message list" where
  "zh_CN_SignMessagePage_1 =
    [
     Msg [At ''../forms/signmessagepage.ui'' 159] [A ''Form''] False False [[U [34920, 21333]]],
     Msg [Rel 110] [A ''Sign Message''] False False [[U [31614, 21517, 28040, 24687]]],
     Msg [Rel 73] [A ''Signature''] False False [[U [31614, 21517]]],
     Msg [Rel 25] [A ''Choose an address from the address book''] False False [[U [20174, 22320,
      22336, 31807, 36873, 25321, 22320, 22336]]],
     Msg [Rel 21] [A ''Alt+A''] False False [[A ''Alt+A'']],
     Msg [Rel 22] [A ''Paste address from clipboard''] False False [[U [20174, 21098, 36148, 26495,
      31896, 36148, 22320, 22336]]],
     Msg [Rel 21] [A ''Alt+P''] False False [[A ''Alt+P'']],
     Msg [Rel 22] [A ''Address''] False False [[U [22320, 22336]]],
     Msg [Rel 24] [A ''The address to sign the message with (e.g. MNS17iag9jJgTHD1VXjvLCEnZuQ3rJDE9L)''] False False [[U [29992,
      20110, 31614, 21517, 28040, 24687, 30340, 22320, 22336], A ''('', U [20363, 22914],
      A '': MNS17iag9jJgTHD1VXjvLCEnZuQ3rJDE9L)'']],
     Msg [Rel 22] [A ''Text''] False False [[U [20449, 24687]]],
     Msg [Rel 18] [A ''Enter the message you want to sign here''] False False [[U [35831, 36755,
      20837, 24744, 35201, 21457, 36865, 30340, 31614, 21517, 28040, 24687]]],
     Msg [Rel 30] [A ''Copy the current signature to the system clipboard''] False False [[U [22797,
      21046, 24403, 21069, 31614, 21517, 33267, 21098, 20999, 26495]]],
     Msg [Rel 110] [A ''Reset all sign message fields''] False False [[U [28165, 31354, 25152,
      26377, 31614, 21517, 28040, 24687, 26639]]],
     Msg [Rel 22] [A ''Clear &All''] False False [[U [28165, 38500], A '' &'', U [25152, 26377]]],
     Msg [Rel 16] [A ''Sign the message to prove you own this Blazecoin address''] False False [[U [31614,
      21517, 28040, 24687, 65292, 35777, 26126, 36825, 20010, 22320, 22336, 23646, 20110, 24744,
      12290]]],
     Msg [Rel 22] [A ''Sign &Message''] False False [[U [23545, 28040, 24687, 31614, 21517]]],
     Msg [At ''../signmessagepage.cpp'' 28] [A ''Enter a Blazecoin address (e.g. MNS17iag9jJgTHD1VXjvLCEnZuQ3rJDE9L)''] False False [[U [35831,
      36755, 20837, 19990, 30028, 24065, 22320, 22336], A '' ('', U [20363, 22914],
      A '': MNS17iag9jJgTHD1VXjvLCEnZuQ3rJDE9L)'']],
     Msg [Rel 1] [A ''Click '', C (CHR 0x22), A ''Sign Message'', C (CHR 0x22),
      A '' to generate signature''] False False [[U [21333, 20987, 8220, 31614, 21517, 28040,
      24687, 8220, 20135, 29983, 31614, 21517, 12290]]],
     Msg [Rel 12, Rel 53] [A ''The entered address is invalid.''] False False [[U [36755, 20837,
      30340, 22320, 22336, 38750, 27861, 12290]]],
     Msg [Rel (- 53), Rel 53,
      Rel 8] [A ''Please check the address and try again.''] False False [[U [35831, 26816, 26597,
      22320, 22336, 21518, 37325, 35797, 12290]]],
     Msg [Rel 0] [A ''The entered address does not refer to a key.''] False False [[U [36755,
      20837, 30340, 22320, 22336, 27809, 26377, 20851, 32852, 30340, 20844, 31169, 38053, 23545,
      12290]]],
     Msg [Rel 8] [A ''Wallet unlock was cancelled.''] False False [[U [38065, 21253, 35299, 38145,
      21160, 20316, 21462, 28040, 12290]]],
     Msg [Rel 8] [A ''Private key for the entered address is not available.''] False False [[U [25214,
      19981, 21040, 36755, 20837, 22320, 22336, 20851, 32852, 30340, 31169, 38053, 12290]]],
     Msg [Rel 12] [A ''Message signing failed.''] False False [[U [28040, 24687, 31614, 21517,
      22833, 36133, 12290]]],
     Msg [Rel 5] [A ''Message signed.''] False False [[U [28040, 24687, 24050, 31614, 21517,
      12290]]]
    ]"

lemma zh_CN_SignMessagePage_1_ok: "list_all same_markers zh_CN_SignMessagePage_1"
  unfolding zh_CN_SignMessagePage_1_def by (simp add: catalogue_eval cong: eval_congs)

lemma zh_CN_SignMessagePage_1_forms: "list_all (forms_ok (Suc 0)) zh_CN_SignMessagePage_1"
  unfolding zh_CN_SignMessagePage_1_def by (simp add: forms_ok_def cong: form_congs)

definition zh_CN_SignMessagePage :: context_messages where
  "zh_CN_SignMessagePage = (''SignMessagePage'', zh_CN_SignMessagePage_1)"

lemma zh_CN_SignMessagePage_ok: "context_ok (Suc 0) zh_CN_SignMessagePage"
  unfolding zh_CN_SignMessagePage_def by (simp add: context_ok_def zh_CN_SignMessagePage_1_ok
    zh_CN_SignMessagePage_1_forms)

definition zh_CN_SignVerifyMessageDialog_1 :: "message list" where
  "zh_CN_SignVerifyMessageDialog_1 =
    [
     Msg [At ''../forms/signverifymessagedialog.ui'' 14,
      At ''../signverifymessagedialog.cpp'' 30] [A ''Signatures - Sign / Verify a Message''] False False [[U [31614,
      21517], A '' - '', U [20026, 28040, 24687, 31614, 21517], A ''/'', U [39564, 35777, 31614,
      21517, 28040, 24687]]],
     Msg [Rel 105] [A ''Edit record''] False False [[U [32534, 36753, 35760, 24405]]],
     Msg [Rel 49] [A ''&Sign Message''] False False [[A ''&'', U [31614, 21517, 28040, 24687]]],
     Msg [Rel 6] [A ''You can sign messages with your addresses to prove you own them. Be careful not to sign anything vague, as phishing attacks may try to trick you into signing your identity over to them. Only sign fully-detailed statements you agree to.''] False False [[U [24744,
      21487, 20197, 29992, 20320, 30340, 22320, 22336, 23545, 28040, 24687, 36827, 34892, 31614,
      21517, 65292, 20197, 35777, 26126, 24744, 26159, 35813, 22320, 22336, 30340, 25152, 26377,
      20154, 12290, 27880, 24847, 19981, 35201, 23545, 27169, 26865, 20004, 21487, 30340, 28040,
      24687, 31614, 21517, 65292, 20197, 20813, 36973, 21463, 38035, 40060, 24335, 25915, 20987,
      12290, 35831, 30830, 20445, 28040, 24687, 20869, 23481, 20934, 30830, 30340, 34920, 36798,
      20102, 24744, 30340, 30495, 23454, 24847, 24895, 12290]]],
     Msg [Rel 18] [A ''The address to sign the message with (e.g. MNS17iag9jJgTHD1VXjvLCEnZuQ3rJDE9L)''] False False [[U [29992,
      20110, 31614, 21517, 28040, 24687, 30340, 22320, 22336], A ''('', U [20363, 22914],
      A '': MNS17iag9jJgTHD1VXjvLCEnZuQ3rJDE9L)'']],
     Msg [Rel 10, Rel 213] [A ''Choose an address from the address book''] False False [[U [20174,
      22320, 22336, 31807, 36873, 25321, 22320, 22336]]],
     Msg [Rel (- 203), Rel 213] [A ''Alt+A''] False False [[A ''Alt+A'']],
     Msg [Rel (- 203)] [A ''Paste address from clipboard''] False False [[U [20174, 21098, 36148,
      26495, 31896, 36148, 22320, 22336]]],
     Msg [Rel 10] [A ''Alt+P''] False False [[A ''Alt+P'']],
     Msg [Rel 12] [A ''Enter the message you want to sign here''] False False [[U [35831, 36755,
      20837, 24744, 35201, 21457, 36865, 30340, 31614, 21517, 28040, 24687]]],
     Msg [Rel 7] [A ''Signature''] False False [[U [31614, 21517]]],
     Msg [Rel 27] [A ''Copy the current signature to the system clipboard''] False False [[U [22797,
      21046, 24403, 21069, 31614, 21517, 33267, 21098, 20999, 26495]]],
     Msg [Rel 21] [A ''Sign the message to prove you own this Blazecoin address''] False False [[U [31614,
      21517, 28040, 24687, 65292, 35777, 26126, 36825, 20010, 22320, 22336, 23646, 20110, 24744,
      12290]]],
     Msg [Rel 3] [A ''Sign &Message''] False False [[U [28040, 24687, 31614, 21517]]],
     Msg [Rel 14] [A ''Reset all sign message fields''] False False [[U [28165, 31354, 25152,
      26377, 31614, 21517, 28040, 24687, 26639]]],
     Msg [Rel 3, Rel 146] [A ''Clear &All''] False False [[U [28165, 38500], A '' &'', U [25152,
      26377]]],
     Msg [Rel (- 87)] [A ''&Verify Message''] False False [[A ''&'', U [39564, 35777, 28040,
      24687]]],
     Msg [Rel 6] [A ''Enter the signing address, message (ensure you copy line breaks, spaces, tabs, etc. exactly) and signature below to verify the message. Be careful not to read more into the signature than what is in the signed message itself, to avoid being tricked by a man-in-the-middle attack.''] False False [[U [22312,
      19979, 38754, 36755, 20837, 31614, 21517, 22320, 22336, 65292, 28040, 24687, 65288, 35831,
      30830, 20445, 25442, 34892, 31526, 12289, 31354, 26684, 31526, 12289, 21046, 34920, 31526,
      31561, 31561, 19968, 20010, 19981, 28431, 65289, 21644, 31614, 21517, 20197, 39564, 35777,
      28040, 24687, 12290, 35831, 30830, 20445, 31614, 21517, 20449, 24687, 20934, 30830, 65292,
      25552, 38450, 20013, 38388, 20154, 25915, 20987, 12290]]],
     Msg [Rel 21] [A ''The address the message was signed with (e.g. MNS17iag9jJgTHD1VXjvLCEnZuQ3rJDE9L)''] False False [[U [29992,
      20110, 31614, 21517, 28040, 24687, 30340, 22320, 22336], A ''('', U [20363, 22914],
      A '': MNS17iag9jJgTHD1VXjvLCEnZuQ3rJDE9L)'']],
     Msg [Rel 40] [A ''Verify the message to ensure it was signed with the specified Blazecoin address''] False False [[U [39564,
      35777, 28040, 24687, 65292, 30830, 20445, 28040, 24687, 26159, 30001, 25351, 23450, 30340,
      19990, 30028, 24065, 22320, 22336, 31614, 21517, 36807, 30340, 12290]]],
     Msg [Rel 3] [A ''Verify &Message''] False False [[U [39564, 35777, 28040, 24687, 31614,
      21517]]],
     Msg [Rel 14] [A ''Reset all verify message fields''] False False [[U [28165, 31354, 25152,
      26377, 39564, 35777, 28040, 24687, 26639]]],
     Msg [At ''../signverifymessagedialog.cpp'' 4,
      Rel 3] [A ''Enter a Blazecoin address (e.g. MNS17iag9jJgTHD1VXjvLCEnZuQ3rJDE9L)''] False False [[U [35831,
      36755, 20837, 19990, 30028, 24065, 22320, 22336], A '' ('', U [20363, 22914],
      A '': MNS17iag9jJgTHD1VXjvLCEnZuQ3rJDE9L)'']],
     Msg [Rel (- 2)] [A ''Click '', C (CHR 0x22), A ''Sign Message'', C (CHR 0x22),
      A '' to generate signature''] False False [[U [21333, 20987, 8220, 31614, 21517, 28040,
      24687, 8220, 20135, 29983, 31614, 21517, 12290]]],
     Msg [Rel 3] [A ''Enter Blazecoin signature''] False False [[U [36755, 20837, 19990, 30028,
      24065, 31614, 21517]]],
     Msg [Rel 92, Rel 81] [A ''The entered address is invalid.''] False False [[U [36755, 20837,
      30340, 22320, 22336, 38750, 27861, 12290]]],
     Msg [Rel (- 81), Rel 8, Rel 73,
      Rel 8] [A ''Please check the address and try again.''] False False [[U [35831, 26816, 26597,
      22320, 22336, 21518, 37325, 35797, 12290]]]
    ]"

lemma zh_CN_SignVerifyMessageDialog_1_ok: "list_all same_markers zh_CN_SignVerifyMessageDialog_1"
  unfolding zh_CN_SignVerifyMessageDialog_1_def by (simp add: catalogue_eval cong: eval_congs)

lemma zh_CN_SignVerifyMessageDialog_1_forms: "list_all (forms_ok (Suc 0)) zh_CN_SignVerifyMessageDialog_1"
  unfolding zh_CN_SignVerifyMessageDialog_1_def by (simp add: forms_ok_def cong: form_congs)

definition zh_CN_SignVerifyMessageDialog_2 :: "message list" where
  "zh_CN_SignVerifyMessageDialog_2 =
    [
     Msg [Rel (- 81),
      Rel 81] [A ''The entered address does not refer to a key.''] False False [[U [36755, 20837,
      30340, 22320, 22336, 27809, 26377, 20851, 32852, 30340, 20844, 31169, 38053, 23545, 12290]]],
     Msg [Rel (- 73)] [A ''Wallet unlock was cancelled.''] False False [[U [38065, 21253, 35299,
      38145, 21160, 20316, 21462, 28040, 12290]]],
     Msg [Rel 8] [A ''Private key for the entered address is not available.''] False False [[U [25214,
      19981, 21040, 36755, 20837, 22320, 22336, 20851, 32852, 30340, 31169, 38053, 12290]]],
     Msg [Rel 12] [A ''Message signing failed.''] False False [[U [28040, 24687, 31614, 21517,
      22833, 36133, 12290]]],
     Msg [Rel 5] [A ''Message signed.''] False False [[U [28040, 24687, 24050, 31614, 21517,
      12290]]],
     Msg [Rel 59] [A ''The signature could not be decoded.''] False False [[U [31614, 21517, 26080,
      27861, 35299, 30721, 12290]]],
     Msg [Rel 0, Rel 13] [A ''Please check the signature and try again.''] False False [[U [35831,
      26816, 26597, 31614, 21517, 21518, 37325, 35797, 12290]]],
     Msg [Rel 0] [A ''The signature did not match the message digest.''] False False [[U [31614,
      21517, 19982, 28040, 24687, 25688, 35201, 19981, 21305, 37197, 12290]]],
     Msg [Rel 7] [A ''Message verification failed.''] False False [[U [28040, 24687, 39564, 35777,
      22833, 36133, 12290]]],
     Msg [Rel 5] [A ''Message verified.''] False False [[U [28040, 24687, 39564, 35777, 25104,
      21151, 12290]]]
    ]"

lemma zh_CN_SignVerifyMessageDialog_2_ok: "list_all same_markers zh_CN_SignVerifyMessageDialog_2"
  unfolding zh_CN_SignVerifyMessageDialog_2_def by (simp add: catalogue_eval cong: eval_congs)

lemma zh_CN_SignVerifyMessageDialog_2_forms: "list_all (forms_ok (Suc 0)) zh_CN_SignVerifyMessageDialog_2"
  unfolding zh_CN_SignVerifyMessageDialog_2_def by (simp add: forms_ok_def cong: form_congs)

definition zh_CN_SignVerifyMessageDialog :: context_messages where
  "zh_CN_SignVerifyMessageDialog = (''SignVerifyMessageDialog'', zh_CN_SignVerifyMessageDialog_1 @ zh_CN_SignVerifyMessageDialog_2)"

lemma zh_CN_SignVerifyMessageDialog_ok: "context_ok (Suc 0) zh_CN_SignVerifyMessageDialog"
  unfolding zh_CN_SignVerifyMessageDialog_def by (simp add: context_ok_def
    zh_CN_SignVerifyMessageDialog_1_ok zh_CN_SignVerifyMessageDialog_1_forms
    zh_CN_SignVerifyMessageDialog_2_ok zh_CN_SignVerifyMessageDialog_2_forms)

definition zh_CN_SplashScreen_1 :: "message list" where
  "zh_CN_SplashScreen_1 =
    [
     Msg [At ''../splashscreen.cpp'' 24] [A ''Dr. Kimoto Chan''] False False [[A ''Blazecoin-qt '',
      U [23458, 25143, 31471, 24320, 21457, 22242, 38431]]],
     Msg [Rel 1] [A ''[testnet]''] False False [[A ''[testnet]'']]
    ]"

lemma zh_CN_SplashScreen_1_ok: "list_all same_markers zh_CN_SplashScreen_1"
  unfolding zh_CN_SplashScreen_1_def by (simp add: catalogue_eval cong: eval_congs)

lemma zh_CN_SplashScreen_1_forms: "list_all (forms_ok (Suc 0)) zh_CN_SplashScreen_1"
  unfolding zh_CN_SplashScreen_1_def by (simp add: forms_ok_def cong: form_congs)

definition zh_CN_SplashScreen :: context_messages where
  "zh_CN_SplashScreen = (''SplashScreen'', zh_CN_SplashScreen_1)"

lemma zh_CN_SplashScreen_ok: "context_ok (Suc 0) zh_CN_SplashScreen"
  unfolding zh_CN_SplashScreen_def by (simp add: context_ok_def zh_CN_SplashScreen_1_ok
    zh_CN_SplashScreen_1_forms)

definition zh_CN_TransactionDesc_1 :: "message list" where
  "zh_CN_TransactionDesc_1 =
    [
     Msg [At ''../transactiondesc.cpp'' 20] [A ''Open until %1''] False False [[U [33267],
      A '' %1 '', U [20010, 25968, 25454, 22359, 26102, 24320, 21551]]],
     Msg [Rel 6] [A ''%1/offline''] False False [[A ''%1 / '', U [31163, 32447]]],
     Msg [Rel 2] [A ''%1/unconfirmed''] False False [[A ''%1/'', U [26410, 30830, 35748]]],
     Msg [Rel 2] [A ''%1 confirmations''] False False [[A ''%1 '', U [30830, 35748, 39033]]],
     Msg [Rel 18] [A ''Status''] False False [[U [29366, 24577]]],
     Msg [Rel 7] [A '', broadcast through %n node(s)''] False True [[U [36890, 36807], A '' %n '',
      U [20010, 33410, 28857, 24191, 25773]]],
     Msg [Rel 4] [A ''Date''] False False [[U [26085, 26399]]],
     Msg [Rel 7] [A ''Source''] False False [[U [28304]]],
     Msg [Rel 0] [A ''Generated''] False False [[U [29983, 25104]]],
     Msg [Rel 5, Rel 17] [A ''From''] False False [[U [26469, 33258]]],
     Msg [Rel 1, Rel 22, Rel 58] [A ''To''] False False [[U [21040]]],
     Msg [Rel (- 77), Rel 2] [A ''own address''] False False [[U [33258, 24049, 30340, 22320,
      22336]]],
     Msg [Rel (- 2)] [A ''label''] False False [[U [26631, 31614]]],
     Msg [Rel 37, Rel 12, Rel 45, Rel 17, Rel 30] [A ''Credit''] False False [[U [25910, 20837]]],
     Msg [Rel (- 102)] [A ''matures in %n more block(s)''] False True [[U [23558, 22312],
      A '' %n '', U [20010, 25968, 25454, 22359, 21518, 25104, 29087]]],
     Msg [Rel 2] [A ''not accepted''] False False [[U [26410, 34987, 25509, 21463]]],
     Msg [Rel 44, Rel 8, Rel 15, Rel 30] [A ''Debit''] False False [[U [25903, 20986]]],
     Msg [Rel (- 39)] [A ''Transaction fee''] False False [[U [20132, 26131, 36153]]],
     Msg [Rel 16] [A ''Net amount''] False False [[U [20928, 39069]]],
     Msg [Rel 6] [A ''Message''] False False [[U [28040, 24687]]],
     Msg [Rel 2] [A ''Comment''] False False [[U [22791, 27880]]],
     Msg [Rel 2] [A ''Transaction ID''] False False [[U [20132, 26131], A ''ID'']],
     Msg [Rel 3] [A ''Generated coins must mature 120 blocks before they can be spent. When you generated this block, it was broadcast to the network to be added to the block chain. If it fails to get into the chain, its state will change to '',
      C (CHR 0x22), A ''not accepted'', C (CHR 0x22), A '' and it won'', C (CHR 0x27),
      A ''t be spendable. This may occasionally happen if another node generates a block within a few seconds of yours.''] False False [[U [26032,
      25366, 20986, 30340, 19990, 30028, 24065, 24517, 39035, 31561, 30830], A ''120'', U [20010,
      30830, 35748, 25165, 33021, 20351, 29992, 12290, 24744, 29983, 20135, 20986, 30340, 25968,
      25454, 22359, 65292, 23558, 34987, 24191, 25773, 21040, 20840, 32593, 24182, 28155, 21152,
      21040, 25968, 25454, 22359, 38142, 12290, 22914, 26524, 20837, 38142, 22833, 36133, 65292,
      29366, 24577, 23558, 21464, 20026, 8220, 26410, 34987, 25509, 21463, 8221, 65292, 24847,
      21619, 30528, 24744, 30340, 25968, 25454, 22359, 31454, 20105, 22833, 36133, 65292, 25366,
      20986, 30340, 19990, 30028, 24065, 23558, 19981, 33021, 20351, 29992, 12290, 24403, 26576,
      20010, 33410, 28857, 20808, 20110, 20320, 20960, 31186, 29983, 20135, 20986, 26032, 30340,
      25968, 25454, 22359, 65292, 36825, 31181, 24773, 20917, 20250, 20598, 23572, 21457, 29983,
      12290]]],
     Msg [Rel 7] [A ''Debug information''] False False [[U [35843, 35797, 20449, 24687]]],
     Msg [Rel 8] [A ''Transaction''] False False [[U [20132, 26131]]],
     Msg [Rel 3] [A ''Inputs''] False False [[U [36755, 20837]]]
    ]"

lemma zh_CN_TransactionDesc_1_ok: "list_all same_markers zh_CN_TransactionDesc_1"
  unfolding zh_CN_TransactionDesc_1_def by (simp add: catalogue_eval cong: eval_congs)

lemma zh_CN_TransactionDesc_1_forms: "list_all (forms_ok (Suc 0)) zh_CN_TransactionDesc_1"
  unfolding zh_CN_TransactionDesc_1_def by (simp add: forms_ok_def cong: form_congs)

definition zh_CN_TransactionDesc_2 :: "message list" where
  "zh_CN_TransactionDesc_2 =
    [
     Msg [Rel 23] [A ''Amount''] False False [[U [37329, 39069]]],
     Msg [Rel 1] [A ''true''] False False [[U [27491, 30830]]],
     Msg [Rel 0] [A ''false''] False False [[U [38169, 35823]]],
     Msg [Rel (- 209)] [A '', has not been successfully broadcast yet''] False False [[A '', '',
      U [26410, 34987, 25104, 21151, 24191, 25773]]],
     Msg [Rel (- 35)] [A ''Open for %n more block(s)''] False True [[A ''Open for %n more block'']],
     Msg [Rel 70] [A ''unknown''] False False [[U [26410, 30693]]]
    ]"

lemma zh_CN_TransactionDesc_2_ok: "list_all same_markers zh_CN_TransactionDesc_2"
  unfolding zh_CN_TransactionDesc_2_def by (simp add: catalogue_eval cong: eval_congs)

lemma zh_CN_TransactionDesc_2_forms: "list_all (forms_ok (Suc 0)) zh_CN_TransactionDesc_2"
  unfolding zh_CN_TransactionDesc_2_def by (simp add: forms_ok_def cong: form_congs)

definition zh_CN_TransactionDesc :: context_messages where
  "zh_CN_TransactionDesc = (''TransactionDesc'', zh_CN_TransactionDesc_1 @ zh_CN_TransactionDesc_2)"

lemma zh_CN_TransactionDesc_ok: "context_ok (Suc 0) zh_CN_TransactionDesc"
  unfolding zh_CN_TransactionDesc_def by (simp add: context_ok_def zh_CN_TransactionDesc_1_ok
    zh_CN_TransactionDesc_1_forms zh_CN_TransactionDesc_2_ok zh_CN_TransactionDesc_2_forms)

definition zh_CN_TransactionDescDialog_1 :: "message list" where
  "zh_CN_TransactionDescDialog_1 =
    [
     Msg [At ''../forms/transactiondescdialog.ui'' 105] [A ''Transaction details''] False False [[U [20132,
      26131, 26126, 32454]]],
     Msg [Rel 76] [A ''This pane shows a detailed description of the transaction''] False False [[U [24403,
      21069, 38754, 26495, 26174, 31034, 20102, 20132, 26131, 30340, 35814, 32454, 20449, 24687]]]
    ]"

lemma zh_CN_TransactionDescDialog_1_ok: "list_all same_markers zh_CN_TransactionDescDialog_1"
  unfolding zh_CN_TransactionDescDialog_1_def by (simp add: catalogue_eval cong: eval_congs)

lemma zh_CN_TransactionDescDialog_1_forms: "list_all (forms_ok (Suc 0)) zh_CN_TransactionDescDialog_1"
  unfolding zh_CN_TransactionDescDialog_1_def by (simp add: forms_ok_def cong: form_congs)

definition zh_CN_TransactionDescDialog :: context_messages where
  "zh_CN_TransactionDescDialog = (''TransactionDescDialog'', zh_CN_TransactionDescDialog_1)"

lemma zh_CN_TransactionDescDialog_ok: "context_ok (Suc 0) zh_CN_TransactionDescDialog"
  unfolding zh_CN_TransactionDescDialog_def by (simp add: context_ok_def
    zh_CN_TransactionDescDialog_1_ok zh_CN_TransactionDescDialog_1_forms)

definition zh_CN_TransactionTableModel_1 :: "message list" where
  "zh_CN_TransactionTableModel_1 =
    [
     Msg [At ''../transactiontablemodel.cpp'' 230] [A ''Date''] False False [[U [26085, 26399]]],
     Msg [Rel 0] [A ''Type''] False False [[U [31867, 22411]]],
     Msg [Rel 0] [A ''Address''] False False [[U [22320, 22336]]],
     Msg [Rel 0] [A ''Amount''] False False [[U [25968, 37327]]],
     Msg [Rel 57] [A ''Open for %n more block(s)''] False True [[A ''Open for %n more block'']],
     Msg [Rel 3] [A ''Open until %1''] False False [[U [33267], A '' %1 '', U [20010, 25968, 25454,
      22359, 26102, 24320, 21551]]],
     Msg [Rel 3] [A ''Offline (%1 confirmations)''] False False [[U [31163, 32447], A '' (%1 '',
      U [20010, 30830, 35748, 39033], A '')'']],
     Msg [Rel 3] [A ''Unconfirmed (%1 of %2 confirmations)''] False False [[U [26410, 30830,
      35748], A '' (%1 / %2 '', U [26465, 30830, 35748, 20449, 24687], A '')'']],
     Msg [Rel 3] [A ''Confirmed (%1 confirmations)''] False False [[U [24050, 30830, 35748],
      A '' (%1 '', U [26465, 30830, 35748, 20449, 24687], A '')'']],
     Msg [Rel 8] [A ''Mined balance will be available when it matures in %n more block(s)''] False True [[U [25366,
      30719, 25910, 20837, 20313, 39069, 23558, 22312], A '' %n '', U [20010, 25968, 25454, 22359,
      21518, 21487, 29992]]],
     Msg [Rel 5] [A ''This block was not received by any other nodes and will probably not be accepted!''] False False [[U [27492,
      25968, 25454, 22359, 26410, 34987, 20854, 20182, 33410, 28857, 25509, 25910, 65292, 24182,
      21487, 33021, 19981, 34987, 25509, 21463, 65281]]],
     Msg [Rel 3] [A ''Generated but not accepted''] False False [[U [24050, 29983, 25104, 20294,
      26410, 34987, 25509, 21463]]],
     Msg [Rel 43] [A ''Received with''] False False [[U [25509, 25910, 20110]]],
     Msg [Rel 2] [A ''Received from''] False False [[U [25910, 27454, 26469, 33258]]],
     Msg [Rel 3] [A ''Sent to''] False False [[U [21457, 36865, 21040]]],
     Msg [Rel 2] [A ''Payment to yourself''] False False [[U [20184, 27454, 32473, 33258, 24049]]],
     Msg [Rel 2] [A ''Mined''] False False [[U [25366, 30719, 25152, 24471]]],
     Msg [Rel 40] [A ''(n/a)''] False False [[A ''(n/a)'']],
     Msg [Rel 201] [A ''Transaction status. Hover over this field to show number of confirmations.''] False False [[U [20132,
      26131, 29366, 24577, 12290], A '' '', U [40736, 26631, 31227, 21040, 27492, 21306, 22495,
      19978, 21487, 26174, 31034, 30830, 35748, 28040, 24687, 39033, 30340, 25968, 30446, 12290]]],
     Msg [Rel 2] [A ''Date and time that the transaction was received.''] False False [[U [25509,
      25910, 19990, 30028, 24065, 30340, 26102, 38388]]],
     Msg [Rel 2] [A ''Type of transaction.''] False False [[U [20132, 26131, 31867, 21035, 12290]]],
     Msg [Rel 2] [A ''Destination address of transaction.''] False False [[U [20132, 26131, 30446,
      30340, 22320, 22336, 12290]]],
     Msg [Rel 2] [A ''Amount removed from or added to balance.''] False False [[U [20174, 20313,
      39069, 28155, 21152, 25110, 31227, 38500, 30340, 37329, 39069, 12290]]]
    ]"

lemma zh_CN_TransactionTableModel_1_ok: "list_all same_markers zh_CN_TransactionTableModel_1"
  unfolding zh_CN_TransactionTableModel_1_def by (simp add: catalogue_eval cong: eval_congs)

lemma zh_CN_TransactionTableModel_1_forms: "list_all (forms_ok (Suc 0)) zh_CN_TransactionTableModel_1"
  unfolding zh_CN_TransactionTableModel_1_def by (simp add: forms_ok_def cong: form_congs)

definition zh_CN_TransactionTableModel :: context_messages where
  "zh_CN_TransactionTableModel = (''TransactionTableModel'', zh_CN_TransactionTableModel_1)"

lemma zh_CN_TransactionTableModel_ok: "context_ok (Suc 0) zh_CN_TransactionTableModel"
  unfolding zh_CN_TransactionTableModel_def by (simp add: context_ok_def
    zh_CN_TransactionTableModel_1_ok zh_CN_TransactionTableModel_1_forms)

definition zh_CN_TransactionView_1 :: "message list" where
  "zh_CN_TransactionView_1 =
    [
     Msg [At ''../transactionview.cpp'' 62, Rel 17] [A ''All''] False False [[U [20840, 37096]]],
     Msg [Rel (- 16)] [A ''Today''] False False [[U [20170, 22825]]],
     Msg [Rel 1] [A ''This week''] False False [[U [26412, 21608]]],
     Msg [Rel 1] [A ''This month''] False False [[U [26412, 26376]]],
     Msg [Rel 1] [A ''Last month''] False False [[U [19978, 26376]]],
     Msg [Rel 1] [A ''This year''] False False [[U [20170, 24180]]],
     Msg [Rel 1] [A ''Range...''] False False [[U [33539, 22260], A ''...'']],
     Msg [Rel 12] [A ''Received with''] False False [[U [25509, 25910, 20110]]],
     Msg [Rel 2] [A ''Sent to''] False False [[U [21457, 36865, 21040]]],
     Msg [Rel 2] [A ''To yourself''] False False [[U [21040, 33258, 24049]]],
     Msg [Rel 1] [A ''Mined''] False False [[U [25366, 30719, 25152, 24471]]],
     Msg [Rel 1] [A ''Other''] False False [[U [20854, 20182]]],
     Msg [Rel 9] [A ''Enter address or label to search''] False False [[U [36755, 20837, 22320,
      22336, 25110, 26631, 31614, 36827, 34892, 25628, 32034]]],
     Msg [Rel 8] [A ''Min amount''] False False [[U [26368, 23567, 37329, 39069]]],
     Msg [Rel 37] [A ''Copy address''] False False [[U [22797, 21046, 22320, 22336]]],
     Msg [Rel 1] [A ''Copy label''] False False [[U [22797, 21046, 26631, 31614]]],
     Msg [Rel 1] [A ''Copy amount''] False False [[U [22797, 21046, 37329, 39069]]],
     Msg [Rel 1] [A ''Copy transaction ID''] False False [[U [22797, 21046, 20132, 26131, 32534,
      21495]]],
     Msg [Rel 1] [A ''Edit label''] False False [[U [32534, 36753, 26631, 31614]]],
     Msg [Rel 1] [A ''Show transaction details''] False False [[U [26174, 31034, 20132, 26131,
      35814, 24773]]],
     Msg [Rel 150] [A ''Export Transaction Data''] False False [[U [23548, 20986, 20132, 26131,
      25968, 25454]]],
     Msg [Rel 1] [A ''Comma separated file (*.csv)''] False False [[U [36887, 21495, 20998, 38548,
      25991, 20214], A ''(*.csv)'']],
     Msg [Rel 8] [A ''Confirmed''] False False [[U [24050, 30830, 35748]]],
     Msg [Rel 1] [A ''Date''] False False [[U [26085, 26399]]],
     Msg [Rel 1] [A ''Type''] False False [[U [31867, 21035]]],
     Msg [Rel 1] [A ''Label''] False False [[U [26631, 31614]]],
     Msg [Rel 1] [A ''Address''] False False [[U [22320, 22336]]],
     Msg [Rel 1] [A ''Amount''] False False [[U [37329, 39069]]]
    ]"

lemma zh_CN_TransactionView_1_ok: "list_all same_markers zh_CN_TransactionView_1"
  unfolding zh_CN_TransactionView_1_def by (simp add: catalogue_eval cong: eval_congs)

lemma zh_CN_TransactionView_1_forms: "list_all (forms_ok (Suc 0)) zh_CN_TransactionView_1"
  unfolding zh_CN_TransactionView_1_def by (simp add: forms_ok_def cong: form_congs)

definition zh_CN_TransactionView_2 :: "message list" where
  "zh_CN_TransactionView_2 =
    [
     Msg [Rel 1] [A ''ID''] False False [[A ''ID'']],
     Msg [Rel 4] [A ''Error exporting''] False False [[U [23548, 20986, 38169, 35823]]],
     Msg [Rel 0] [A ''Could not write to file %1.''] False False [[U [26080, 27861, 20889, 20837,
      25991, 20214], A '' %1'', U [12290]]],
     Msg [Rel 100] [A ''Range:''] False False [[U [33539, 22260, 65306]]],
     Msg [Rel 8] [A ''to''] False False [[U [21040]]]
    ]"

lemma zh_CN_TransactionView_2_ok: "list_all same_markers zh_CN_TransactionView_2"
  unfolding zh_CN_TransactionView_2_def by (simp add: catalogue_eval cong: eval_congs)

lemma zh_CN_TransactionView_2_forms: "list_all (forms_ok (Suc 0)) zh_CN_TransactionView_2"
  unfolding zh_CN_TransactionView_2_def by (simp add: forms_ok_def cong: form_congs)

definition zh_CN_TransactionView :: context_messages where
  "zh_CN_TransactionView = (''TransactionView'', zh_CN_TransactionView_1 @ zh_CN_TransactionView_2)"

lemma zh_CN_TransactionView_ok: "context_ok (Suc 0) zh_CN_TransactionView"
  unfolding zh_CN_TransactionView_def by (simp add: context_ok_def zh_CN_TransactionView_1_ok
    zh_CN_TransactionView_1_forms zh_CN_TransactionView_2_ok zh_CN_TransactionView_2_forms)

definition zh_CN_TransactionsPage_1 :: "message list" where
  "zh_CN_TransactionsPage_1 =
    [
     Msg [At ''../forms/transactionspage.ui'' 159] [A ''Form''] False False [[U [34920, 21333]]],
     Msg [Rel 101] [A ''Transactions''] False False [[U [20132, 26131, 35760, 24405]]]
    ]"

lemma zh_CN_TransactionsPage_1_ok: "list_all same_markers zh_CN_TransactionsPage_1"
  unfolding zh_CN_TransactionsPage_1_def by (simp add: catalogue_eval cong: eval_congs)

lemma zh_CN_TransactionsPage_1_forms: "list_all (forms_ok (Suc 0)) zh_CN_TransactionsPage_1"
  unfolding zh_CN_TransactionsPage_1_def by (simp add: forms_ok_def cong: form_congs)

definition zh_CN_TransactionsPage :: context_messages where
  "zh_CN_TransactionsPage = (''TransactionsPage'', zh_CN_TransactionsPage_1)"

lemma zh_CN_TransactionsPage_ok: "context_ok (Suc 0) zh_CN_TransactionsPage"
  unfolding zh_CN_TransactionsPage_def by (simp add: context_ok_def zh_CN_TransactionsPage_1_ok
    zh_CN_TransactionsPage_1_forms)

definition zh_CN_VerifyMessagePage_1 :: "message list" where
  "zh_CN_VerifyMessagePage_1 =
    [
     Msg [At ''../forms/verifymessagepage.ui'' 159] [A ''Form''] False False [[U [34920, 21333]]],
     Msg [Rel 110] [A ''Verify Message''] False False [[U [39564, 35777, 28040, 24687]]],
     Msg [Rel 93] [A ''Signature''] False False [[U [31614, 21517]]],
     Msg [Rel 43] [A ''Text''] False False [[U [20449, 24687]]],
     Msg [Rel 45] [A ''Address''] False False [[U [22320, 22336]]],
     Msg [Rel 24] [A ''The address the message was signed with (e.g. MNS17iag9jJgTHD1VXjvLCEnZuQ3rJDE9L)''] False False [[U [29992,
      20110, 31614, 21517, 28040, 24687, 30340, 22320, 22336], A ''('', U [20363, 22914],
      A '': MNS17iag9jJgTHD1VXjvLCEnZuQ3rJDE9L)'']],
     Msg [Rel 22] [A ''Choose an address from the address book''] False False [[U [20174, 22320,
      22336, 31807, 36873, 25321, 22320, 22336]]],
     Msg [Rel 21] [A ''Alt+A''] False False [[A ''Alt+A'']],
     Msg [Rel 101] [A ''Reset all verify message fields''] False False [[U [28165, 31354, 25152,
      26377, 39564, 35777, 28040, 24687, 26639]]],
     Msg [Rel 22] [A ''Clear &All''] False False [[U [28165, 38500], A '' &'', U [25152, 26377]]],
     Msg [Rel 16] [A ''Verify the message to ensure it was signed with the specified Blazecoin address''] False False [[U [39564,
      35777, 28040, 24687, 65292, 30830, 20445, 28040, 24687, 26159, 30001, 25351, 23450, 30340,
      19990, 30028, 24065, 22320, 22336, 31614, 21517, 36807, 30340, 12290]]],
     Msg [Rel 22] [A ''Verify &Message''] False False [[U [39564, 35777, 28040, 24687, 31614,
      21517]]],
     Msg [At ''../verifymessagepage.cpp'' 28] [A ''Enter a Blazecoin address (e.g. MNS17iag9jJgTHD1VXjvLCEnZuQ3rJDE9L)''] False False [[U [35831,
      36755, 20837, 19990, 30028, 24065, 22320, 22336], A '' ('', U [20363, 22914],
      A '': MNS17iag9jJgTHD1VXjvLCEnZuQ3rJDE9L)'']],
     Msg [Rel 1] [A ''Enter Blazecoin signature''] False False [[U [36755, 20837, 19990, 30028,
      24065, 31614, 21517]]],
     Msg [Rel 12, Rel 45] [A ''The entered address is invalid.''] False False [[U [36755, 20837,
      30340, 22320, 22336, 38750, 27861, 12290]]],
     Msg [Rel (- 45), Rel 45,
      Rel 8] [A ''Please check the address and try again.''] False False [[U [35831, 26816, 26597,
      22320, 22336, 21518, 37325, 35797, 12290]]],
     Msg [Rel 0] [A ''The entered address does not refer to a key.''] False False [[U [36755,
      20837, 30340, 22320, 22336, 27809, 26377, 20851, 32852, 30340, 20844, 31169, 38053, 23545,
      12290]]],
     Msg [Rel 11] [A ''The signature could not be decoded.''] False False [[U [31614, 21517, 26080,
      27861, 35299, 30721, 12290]]],
     Msg [Rel 0, Rel 13] [A ''Please check the signature and try again.''] False False [[U [35831,
      26816, 26597, 31614, 21517, 21518, 37325, 35797, 12290]]],
     Msg [Rel 0] [A ''The signature did not match the message digest.''] False False [[U [31614,
      21517, 19982, 28040, 24687, 25688, 35201, 19981, 21305, 37197, 12290]]],
     Msg [Rel 7] [A ''Message verification failed.''] False False [[U [28040, 24687, 39564, 35777,
      22833, 36133, 12290]]],
     Msg [Rel 5] [A ''Message verified.''] False False [[U [28040, 24687, 39564, 35777, 25104,
      21151, 12290]]]
    ]"

lemma zh_CN_VerifyMessagePage_1_ok: "list_all same_markers zh_CN_VerifyMessagePage_1"
  unfolding zh_CN_VerifyMessagePage_1_def by (simp add: catalogue_eval cong: eval_congs)

lemma zh_CN_VerifyMessagePage_1_forms: "list_all (forms_ok (Suc 0)) zh_CN_VerifyMessagePage_1"
  unfolding zh_CN_VerifyMessagePage_1_def by (simp add: forms_ok_def cong: form_congs)

definition zh_CN_VerifyMessagePage :: context_messages where
  "zh_CN_VerifyMessagePage = (''VerifyMessagePage'', zh_CN_VerifyMessagePage_1)"

lemma zh_CN_VerifyMessagePage_ok: "context_ok (Suc 0) zh_CN_VerifyMessagePage"
  unfolding zh_CN_VerifyMessagePage_def by (simp add: context_ok_def zh_CN_VerifyMessagePage_1_ok
    zh_CN_VerifyMessagePage_1_forms)

definition zh_CN_WalletModel_1 :: "message list" where
  "zh_CN_WalletModel_1 =
    [
     Msg [At ''../walletmodel.cpp'' 193] [A ''Send Coins''] False False [[U [21457, 36865, 19990,
      30028, 24065]]]
    ]"

lemma zh_CN_WalletModel_1_ok: "list_all same_markers zh_CN_WalletModel_1"
  unfolding zh_CN_WalletModel_1_def by (simp add: catalogue_eval cong: eval_congs)

lemma zh_CN_WalletModel_1_forms: "list_all (forms_ok (Suc 0)) zh_CN_WalletModel_1"
  unfolding zh_CN_WalletModel_1_def by (simp add: forms_ok_def cong: form_congs)

definition zh_CN_WalletModel :: context_messages where
  "zh_CN_WalletModel = (''WalletModel'', zh_CN_WalletModel_1)"

lemma zh_CN_WalletModel_ok: "context_ok (Suc 0) zh_CN_WalletModel"
  unfolding zh_CN_WalletModel_def by (simp add: context_ok_def zh_CN_WalletModel_1_ok
    zh_CN_WalletModel_1_forms)

definition zh_CN_blazecoin_core_1 :: "message list" where
  "zh_CN_blazecoin_core_1 =
    [
     Msg [At ''../blazecoinstrings.cpp'' 94] [A ''Blazecoin version''] False False [[U [19990,
      30028, 24065, 29256, 26412]]],
     Msg [Rel 102] [A ''Usage:''] False False [[U [20351, 29992, 65306]]],
     Msg [Rel (- 29)] [A ''Send command to -server or blazecoind''] False False [[U [21457, 36865,
      21629, 20196, 21040, 26381, 21153, 22120, 25110, 32773], A '' blazecoind'', C (CHR 0x0A)]],
     Msg [Rel (- 23)] [A ''List commands''] False False [[U [21015, 20986, 21629, 20196],
      C (CHR 0x0A)]],
     Msg [Rel (- 12)] [A ''Get help for a command''] False False [[U [33719, 24471, 26576, 26465,
      21629, 20196, 30340, 24110, 21161], C (CHR 0x0A)]],
     Msg [Rel 24] [A ''Options:''] False False [[U [36873, 39033, 65306], C (CHR 0x0A)]],
     Msg [Rel 24] [A ''Specify configuration file (default: blazecoin.conf)''] False False [[U [25351,
      23450, 37197, 32622, 25991, 20214], A '' ('', U [40664, 35748, 20026],
      A '' blazecoin.conf)'', C (CHR 0x0A)]],
     Msg [Rel 3] [A ''Specify pid file (default: blazecoind.pid)''] False False [[U [25351, 23450],
      A '' pid '', U [25991, 20214], A '' ('', U [40664, 35748, 20026], A '' blazecoind.pid)'',
      C (CHR 0x0A)]],
     Msg [Rel (- 1)] [A ''Specify data directory''] False False [[U [25351, 23450, 25968, 25454,
      30446, 24405], C (CHR 0x0A)]],
     Msg [Rel (- 9)] [A ''Set database cache size in megabytes (default: 25)''] False False [[U [35774,
      32622, 25968, 25454, 24211, 32531, 20914, 21306, 22823, 23567], A '' ('', U [32570, 30465],
      A '': 25MB)'']],
     Msg [Rel (- 28)] [A ''Listen for connections on <port> (default: 7951 or testnet: 17951)''] False False [[U [30417,
      21548, 31471, 21475, 36830, 25509], A '' <port> ('', U [32570, 30465],
      A '': 7951 or testnet: 17951)'']],
     Msg [Rel 5] [A ''Maintain at most <n> connections to peers (default: 125)''] False False [[U [26368,
      22823, 36830, 25509, 25968], A '' <n>  ('', U [32570, 30465], A '': 125)'']],
     Msg [Rel (- 48)] [A ''Connect to a node to retrieve peer addresses, and disconnect''] False False [[U [36830,
      25509, 19968, 20010, 33410, 28857, 24182, 33719, 21462, 23545, 31471, 22320, 22336],
      A '', '', U [28982, 21518, 26029, 24320, 36830, 25509]]],
     Msg [Rel 82] [A ''Specify your own public address''] False False [[U [25351, 23450, 24744,
      30340, 20844, 20849, 22320, 22336]]],
     Msg [Rel 3] [A ''Threshold for disconnecting misbehaving peers (default: 100)''] False False [[A ''Threshold for disconnecting misbehaving peers ('',
      U [32570, 30465], A '': 100)'']],
     Msg [Rel (- 134)] [A ''Number of seconds to keep misbehaving peers from reconnecting (default: 86400)''] False False [[A ''Number of seconds to keep misbehaving peers from reconnecting ('',
      U [32570, 30465], A '': 86400)'']],
     Msg [Rel (- 29)] [A ''An error occurred while setting up the RPC port %u for listening on IPv4: %s''] False False [[U [35774,
      32622], A ''RPC'', U [30417, 21548, 31471, 21475], A ''%u'', U [26102, 21457, 29983, 38169,
      35823], A '', IPv4:%s'']],
     Msg [Rel 27] [A ''Listen for JSON-RPC connections on <port> (default: 7950 or testnet: 17950)''] False False [[A ''JSON-RPC'',
      U [36830, 25509, 30417, 21548, 31471, 21475], A ''<port> ('', U [32570, 30465, 65306],
      A ''7950'', U [12288], A ''testnet'', U [65306], A ''17950)'']],
     Msg [Rel 37] [A ''Accept command line and JSON-RPC commands''] False False [[U [25509, 21463,
      21629, 20196, 34892, 21644], A '' JSON-RPC '', U [21629, 20196], C (CHR 0x0A)]],
     Msg [Rel 76] [A ''Run in the background as a daemon and accept commands''] False False [[U [22312,
      21518, 21488, 36816, 34892, 24182, 25509, 21463, 21629, 20196], C (CHR 0x0A), C (CHR 0x0A)]],
     Msg [Rel 37] [A ''Use the test network''] False False [[U [20351, 29992, 27979, 35797, 32593,
      32476], C (CHR 0x0A)]],
     Msg [Rel (- 112)] [A ''Accept connections from outside (default: 1 if no -proxy or -connect)''] False False [[U [25509,
      21463, 26469, 33258, 22806, 37096, 30340, 36830, 25509], A '' ('', U [32570, 30465],
      A '': '', U [22914, 26524, 19981, 24102], A '' -proxy or -connect '', U [21442, 25968, 35774,
      32622, 20026], A ''1)'']]
    ]"

lemma zh_CN_blazecoin_core_1_ok: "list_all same_printf zh_CN_blazecoin_core_1"
  unfolding zh_CN_blazecoin_core_1_def by (simp add: catalogue_eval cong: eval_congs)

lemma zh_CN_blazecoin_core_1_forms: "list_all (forms_ok (Suc 0)) zh_CN_blazecoin_core_1"
  unfolding zh_CN_blazecoin_core_1_def by (simp add: forms_ok_def cong: form_congs)

definition zh_CN_blazecoin_core_2 :: "message list" where
  "zh_CN_blazecoin_core_2 =
    [
     Msg [Rel (- 80)] [A ''%s, you must set a rpcpassword in the configuration file:'',
      C (CHR 0x0A), A ''%s'', C (CHR 0x0A),
      A ''It is recommended you use the following random password:'', C (CHR 0x0A),
      A ''rpcuser=blazecoinrpc'', C (CHR 0x0A), A ''rpcpassword=%s'', C (CHR 0x0A),
      A ''(you do not need to remember this password)'', C (CHR 0x0A),
      A ''The username and password MUST NOT be the same.'', C (CHR 0x0A),
      A ''If the file does not exist, create it with owner-readable-only file permissions.'',
      C (CHR 0x0A),
      A ''It is also recommended to set alertnotify so you are notified of problems;'',
      C (CHR 0x0A), A ''for example: alertnotify=echo %%s | mail -s '', C (CHR 0x22),
      A ''Blazecoin Alert'', C (CHR 0x22), A '' admin'', C (CHR 0x40), A ''foo.com'',
      C (CHR 0x0A)] False False [[A ''%s, '', U [24744, 24517, 39035, 22312, 37197, 32622, 25991,
      20214, 35774, 32622], A ''rpcpassword:'', C (CHR 0x0A), A '' %s'', C (CHR 0x0A), U [24314,
      35758, 24744, 20351, 29992, 19979, 38754, 30340, 38543, 26426, 23494, 30721], A '':'',
      C (CHR 0x0A), A ''rpcuser=blazecoinrpc'', C (CHR 0x0A), A ''rpcpassword=%s'', C (CHR 0x0A),
      A ''('', U [24744, 26080, 38656, 35760, 20303, 27492, 23494, 30721], A '')'', C (CHR 0x0A),
      U [29992, 25143, 21517, 21644, 23494, 30721], A '' '', U [24517], A ''! '', U [39035],
      A ''! '', U [19981, 19968, 26679, 12290], C (CHR 0x0A), U [22914, 26524, 37197, 32622, 25991,
      20214, 19981, 23384, 22312, 65292, 35831, 33258, 34892, 24314, 31435, 19968, 20010, 21482,
      26377, 25152, 26377, 32773, 25317, 26377, 21482, 35835, 26435, 38480, 30340, 25991, 20214,
      12290], C (CHR 0x0A), U [25512, 33616, 24744, 24320, 21551, 25552, 31034, 36890, 30693,
      20197, 20415, 25910, 21040, 38169, 35823, 36890, 30693, 65292], C (CHR 0x0A), U [20687,
      36825, 26679], A '': alertnotify=echo %%s | mail -s '', C (CHR 0x22), A ''Blazecoin Alert'',
      C (CHR 0x22), A '' admin'', C (CHR 0x40), A ''foo.com'', C (CHR 0x0A)]],
     Msg [Rel 17] [A ''An error occurred while setting up the RPC port %u for listening on IPv6, falling back to IPv4: %s''] False False [[U [22312],
      A ''IPv6'', U [27169, 24335, 19979, 35774, 32622], A ''RPC'', U [30417, 21548, 31471, 21475],
      A '' %u '', U [22833, 36133, 65292, 36820, 22238, 21040], A ''IPv4'', U [27169, 24335],
      A '': %s'']],
     Msg [Rel 3] [A ''Bind to given address and always listen on it. Use [host]:port notation for IPv6''] False False [[U [32465,
      23450, 25351, 23450, 30340], A ''IP'', U [22320, 22336, 24320, 22987, 30417, 21548, 12290],
      A ''IPv6'', U [22320, 22336, 35831, 20351, 29992], A ''[host]:port '', U [26684, 24335]]],
     Msg [Rel 3] [A ''Cannot obtain a lock on data directory %s. Blazecoin is probably already running.''] False False [[U [26080,
      27861, 32473, 25968, 25454, 30446, 24405], A '' %s'', U [19978, 38145, 12290, 26412, 36719,
      20214, 21487, 33021, 24050, 32463, 22312, 36816, 34892, 12290]]],
     Msg [Rel 3] [A ''Error: The transaction was rejected! This might happen if some of the coins in your wallet were already spent, such as if you used a copy of wallet.dat and coins were spent in the copy but not marked as spent here.''] False False [[U [38169,
      35823, 65306, 35813, 20132, 26131, 34987, 25298, 32477, 65281, 21457, 29983, 36825, 31181,
      38169, 35823, 30340, 21407, 22240, 21487, 33021, 26159, 65306, 38065, 21253, 20013, 30340,
      19990, 30028, 24065, 24050, 32463, 34987, 29992, 25481, 65292, 26377, 21487, 33021, 24744,
      22797, 21046, 20102], A ''wallet.dat'', U [38065, 21253, 25991, 20214, 65292, 28982, 21518,
      29992, 22797, 21046, 30340, 38065, 21253, 25991, 20214, 25903, 20184, 20102, 19990, 30028,
      24065, 65292, 20294, 26159, 36825, 20010, 38065, 21253, 25991, 20214, 20013, 27809, 26377,
      35760, 24405, 12290]]],
     Msg [Rel 4] [A ''Error: This transaction requires a transaction fee of at least %s because of its amount, complexity, or use of recently received funds!''] False False [[U [38169,
      35823, 65306, 22240, 20026, 35813, 20132, 26131, 30340, 25968, 37327, 12289, 22797, 26434,
      24230, 25110, 32773, 21160, 29992, 20102, 21018, 25910, 21040, 19981, 20037, 30340, 36164,
      37329, 65292, 24744, 38656, 35201, 25903, 20184, 19981, 23569, 20110], A ''%s'', U [30340,
      20132, 26131, 36153, 29992, 12290]]],
     Msg [Rel 3] [A ''Execute command when a relevant alert is received (%s in cmd is replaced by message)''] False False [[U [24403,
      25910, 21040, 30456, 20851, 36890, 30693, 26102, 25191, 34892, 21629, 20196, 65288, 21629,
      20196, 34892, 20013, 30340], A '' %s '', U [30340, 26367, 25442, 20026, 28040, 24687,
      65289]]],
     Msg [Rel 3] [A ''Execute command when a wallet transaction changes (%s in cmd is replaced by TxID)''] False False [[U [24403,
      26368, 20339, 21306, 22359, 21464, 21270, 26102, 25191, 34892, 21629, 20196], A '' ('',
      U [21629, 20196, 34892, 20013, 30340], A '' %s '', U [20250, 34987, 26367, 25442, 25104,
      21306, 22359, 21704, 24076, 20540], A '')'']],
     Msg [Rel 11] [A ''Set maximum size of high-priority/low-fee transactions in bytes (default: 27000)''] False False [[A ''Set maximum size of high-priority/low-fee transactions in bytes (default: 27000)'']],
     Msg [Rel 6] [A ''This is a pre-release test build - use at your own risk - do not use for mining or merchant applications''] False False [[U [36825,
      26159, 27979, 35797, 29992, 30340, 39044, 21457, 24067, 29256, 26412], A '' - '', U [35831,
      35880, 24910, 20351, 29992], A '' - '', U [19981, 35201, 29992, 26469, 25366, 30719, 65292,
      25110, 32773, 22312, 27491, 24335, 21830, 29992, 29615, 22659, 19979, 20351, 29992]]],
     Msg [Rel 5] [A ''Warning: -paytxfee is set very high! This is the transaction fee you will pay if you send a transaction.''] False False [[U [35686,
      21578, 65306], A ''-paytxfee '', U [20132, 26131, 36153, 35774, 32622, 24471, 22826, 39640,
      20102, 65281, 27599, 31508, 20132, 26131, 37117, 23558, 25903, 20184, 20132, 26131, 36153,
      12290]]],
     Msg [Rel 3] [A ''Warning: Displayed transactions may not be correct! You may need to upgrade, or other nodes may need to upgrade.''] False False [[U [35686,
      21578, 65306, 26174, 31034, 30340, 20132, 26131, 21487, 33021, 19981, 27491, 30830, 65281,
      24744, 38656, 35201, 21319, 32423, 23458, 25143, 31471, 36719, 20214, 65292, 25110, 32773,
      32593, 32476, 19978, 30340, 20854, 20182, 33410, 28857, 38656, 35201, 21319, 32423, 12290]]],
     Msg [Rel 3] [A ''Warning: Please check that your computer'', C (CHR 0x27),
      A ''s date and time are correct! If your clock is wrong Blazecoin will not work properly.''] False False [[U [35686,
      21578, 65306, 35831, 26816, 26597, 30005, 33041, 30340, 26085, 26399, 26102, 38388, 35774,
      32622, 26159, 21542, 27491, 30830, 65281, 26102, 38388, 38169, 35823, 21487, 33021, 20250,
      23548, 33268, 19990, 30028, 24065, 23458, 25143, 31471, 36816, 34892, 24322, 24120, 12290]]],
     Msg [Rel 3] [A ''Warning: error reading wallet.dat! All keys read correctly, but transaction data or address book entries might be missing or incorrect.''] False False [[U [35686,
      21578, 65306, 38065, 21253, 25991, 20214], A ''wallet.dat'', U [35835, 21462, 22833, 36133,
      65281, 26368, 37325, 35201, 30340, 20844, 38053, 12289, 31169, 38053, 25968, 25454, 37117,
      27809, 26377, 38382, 39064, 65292, 20294, 26159, 20132, 26131, 35760, 24405, 25110, 22320,
      22336, 31807, 25968, 25454, 19981, 27491, 30830, 65292, 25110, 32773, 23384, 22312, 25968,
      25454, 20002, 22833, 12290]]],
     Msg [Rel 3] [A ''Warning: wallet.dat corrupt, data salvaged! Original wallet.dat saved as wallet.{timestamp}.bak in %s; if your balance or transactions are incorrect you should restore from a backup.''] False False [[U [35686,
      21578, 65306, 38065, 21253, 25991, 20214], A ''wallet.dat'', U [25439, 22351], A ''! '',
      U [21407, 22987, 30340, 38065, 21253, 25991, 20214, 24050, 32463, 22791, 20221, 21040],
      A ''%s'', U [30446, 24405, 19979, 24182, 37325, 21629, 21517, 20026], A ''{timestamp}.bak '',
      U [12290, 22914, 26524, 24744, 30340, 36134, 25143, 20313, 39069, 25110, 32773, 20132, 26131,
      35760, 24405, 19981, 27491, 30830, 65292, 35831, 20351, 29992, 24744, 30340, 38065, 21253,
      22791, 20221, 25991, 20214, 24674, 22797, 12290]]],
     Msg [Rel 14] [A ''Attempt to recover private keys from a corrupt wallet.dat''] False False [[U [23581,
      35797, 20174, 25439, 22351, 30340, 38065, 21253, 25991, 20214], A ''wallet.dat'', U [20013,
      24674, 22797, 31169, 38053]]],
     Msg [Rel 2] [A ''Block creation options:''] False False [[U [25968, 25454, 22359, 21019,
      24314, 36873, 39033, 65306]]],
     Msg [Rel 5] [A ''Connect only to the specified node(s)''] False False [[U [20165, 36830,
      25509, 21040, 25351, 23450, 33410, 28857]]],
     Msg [Rel 3] [A ''Corrupted block database detected''] False False [[U [26816, 27979, 21457,
      29616, 25968, 25454, 22359, 25968, 25454, 24211, 25439, 22351, 12290, 35831, 20351, 29992],
      A '' -reindex'', U [21442, 25968, 37325, 21551, 23458, 25143, 31471, 12290]]],
     Msg [Rel 1] [A ''Discover own IP address (default: 1 when listening and no -externalip)''] False False [[U [21457,
      29616, 33258, 24049, 30340], A ''IP'', U [22320, 22336], A ''('', U [32570, 30465], A '':'',
      U [19981, 24102], A '' -externalip '', U [21442, 25968, 30417, 21548, 26102, 35774, 32622,
      20026], A ''1)'']],
     Msg [Rel 1] [A ''Do you want to rebuild the block database now?''] False False [[U [20320,
      24819, 29616, 22312, 23601, 37325, 24314, 22359, 25968, 25454, 24211, 21527, 65311]]],
     Msg [Rel 2] [A ''Error initializing block database''] False False [[U [21021, 22987, 21270,
      25968, 25454, 22359, 25968, 25454, 24211, 20986, 38169]]],
     Msg [Rel 1] [A ''Error initializing wallet database environment %s!''] False False [[A ''Error initializing wallet database environment %s!'']],
     Msg [Rel 1] [A ''Error loading block database''] False False [[U [23548, 20837, 25968, 25454,
      22359, 25968, 25454, 24211, 20986, 38169]]],
     Msg [Rel 4] [A ''Error opening block database''] False False [[U [23548, 20837, 25968, 25454,
      22359, 25968, 25454, 24211, 20986, 38169]]]
    ]"

lemma zh_CN_blazecoin_core_2_ok: "list_all same_printf zh_CN_blazecoin_core_2"
  unfolding zh_CN_blazecoin_core_2_def by (simp add: catalogue_eval cong: eval_congs)

lemma zh_CN_blazecoin_core_2_forms: "list_all (forms_ok (Suc 0)) zh_CN_blazecoin_core_2"
  unfolding zh_CN_blazecoin_core_2_def by (simp add: forms_ok_def cong: form_congs)

definition zh_CN_blazecoin_core_3 :: "message list" where
  "zh_CN_blazecoin_core_3 =
    [
     Msg [Rel 2] [A ''Error: Disk space is low!''] False False [[U [38169, 35823, 65306, 30913,
      30424, 21097, 20313, 31354, 38388, 20302], A ''!'']],
     Msg [Rel 1] [A ''Error: Wallet locked, unable to create transaction!''] False False [[U [38169,
      35823, 65306, 38065, 21253, 34987, 38145, 23450, 65292, 26080, 27861, 21019, 24314, 20132,
      26131, 65281]]],
     Msg [Rel 1] [A ''Error: system error: ''] False False [[U [38169, 35823, 65306, 31995, 32479,
      20986, 38169, 12290]]],
     Msg [Rel 1] [A ''Failed to listen on any port. Use -listen=0 if you want this.''] False False [[U [30417,
      21548, 31471, 21475, 22833, 36133, 12290, 35831, 20351, 29992], A '' -listen=0 '', U [21442,
      25968, 12290]]],
     Msg [Rel 1] [A ''Failed to read block info''] False False [[U [26080, 27861, 35835, 21462,
      25968, 25454, 22359, 20449, 24687]]],
     Msg [Rel 1] [A ''Failed to read block''] False False [[U [35835, 21462, 25968, 25454, 22359,
      22833, 36133]]],
     Msg [Rel 1] [A ''Failed to sync block index''] False False [[U [26080, 27861, 21516, 27493,
      25968, 25454, 22359, 32034, 24341]]],
     Msg [Rel 1] [A ''Failed to write block index''] False False [[U [26080, 27861, 20889, 20837,
      25968, 25454, 22359, 32034, 24341]]],
     Msg [Rel 1] [A ''Failed to write block info''] False False [[U [26080, 27861, 20889, 20837,
      25968, 25454, 22359, 20449, 24687]]],
     Msg [Rel 1] [A ''Failed to write block''] False False [[U [26080, 27861, 20889, 25968, 25454,
      22359]]],
     Msg [Rel 1] [A ''Failed to write file info''] False False [[U [26080, 27861, 20889, 20837,
      25991, 20214, 20449, 24687]]],
     Msg [Rel 1] [A ''Failed to write to coin database''] False False [[U [26080, 27861, 20889,
      20837], A ''coin'', U [25968, 25454, 24211]]],
     Msg [Rel 1] [A ''Failed to write transaction index''] False False [[U [26080, 27861, 20889,
      20837, 20132, 26131, 32034, 24341]]],
     Msg [Rel 1] [A ''Failed to write undo data''] False False [[U [26080, 27861, 20889, 20837,
      22238, 28378, 20449, 24687]]],
     Msg [Rel 2] [A ''Find peers using DNS lookup (default: 1 unless -connect)''] False False [[U [36890,
      36807], A ''DNS'', U [26597, 25214, 33410, 28857], A ''('', U [32570, 30465, 65306],
      A ''1 '', U [38500, 38750, 20351, 29992], A '' -connect '', U [36873, 39033], A '')'']],
     Msg [Rel 1] [A ''Generate coins (default: 0)''] False False [[U [20135, 20986, 36135, 24065,
      65288, 40664, 35748, 65306], A ''0'', U [65289]]],
     Msg [Rel 2] [A ''How many blocks to check at startup (default: 288, 0 = all)''] False False [[U [21551,
      21160, 26102, 26816, 27979, 22810, 23569, 20010, 25968, 25454, 22359], A ''('', U [32570,
      30465, 65306], A ''288'', U [65292], A ''0='', U [25152, 26377], A '')'']],
     Msg [Rel 1] [A ''How thorough the block verification is (0-4, default: 3)''] False False [[A ''How thorough the block verification is (0-4, default: 3)'']],
     Msg [Rel 19] [A ''Not enough file descriptors available.''] False False [[U [27809, 26377,
      36275, 22815, 21487, 29992, 30340, 25991, 20214, 25551, 36848, 31526, 12290]]],
     Msg [Rel 8] [A ''Rebuild block chain index from current blk000??.dat files''] False False [[U [37325,
      26032, 20026, 24403, 21069, 30340], A ''blk000??.dat'', U [25991, 20214, 24314, 31435, 32034,
      24341]]],
     Msg [Rel 16] [A ''Set the number of threads to service RPC calls (default: 4)''] False False [[U [35774,
      32622, 20351, 29992, 35843, 29992, 26381, 21153], A '' RPC '', U [30340, 32447, 31243, 25968,
      37327, 65288, 40664, 35748, 65306], A ''4'', U [65289]]],
     Msg [Rel 26] [A ''Verifying blocks...''] False False [[U [27491, 22312, 39564, 35777, 25968,
      25454, 24211, 30340, 23436, 25972, 24615], A ''...'']],
     Msg [Rel 1] [A ''Verifying wallet...''] False False [[U [27491, 22312, 26816, 27979, 38065,
      21253, 30340, 23436, 25972, 24615], A ''...'']],
     Msg [Rel (- 69)] [A ''Imports blocks from external blk000??.dat file''] False False [[U [20174],
      A ''blk000??.dat'', U [25991, 20214, 23548, 20837, 25968, 25454, 22359]]],
     Msg [Rel (- 76)] [A ''Set the number of script verification threads (up to 16, 0 = auto, <0 = leave that many cores free, default: 0)''] False False [[U [35774,
      32622, 33050, 26412, 30340, 25968, 37327, 26680, 26597, 32447, 31243], A '' ('', U [19981,
      22823, 20110], A '' 16, 0 = '', U [33258, 21160], A '', <0 = '', U [35768, 22810, 26680,
      24515, 33258, 30001, 30340, 31163, 24320], A '', '', U [40664, 35748], A '': 0)'']],
     Msg [Rel 77] [A ''Information''] False False [[U [20449, 24687]]],
     Msg [Rel 3] [A ''Invalid -tor address: '', C (CHR 0x27), A ''%s'',
      C (CHR 0x27)] False False [[U [38750, 27861, 30340], A '' -tor '', U [22320, 22336, 65306],
      C (CHR 0x27), A ''%s'', C (CHR 0x27), A '' '']],
     Msg [Rel 1] [A ''Invalid amount for -minrelaytxfee=<amount>: '', C (CHR 0x27), A ''%s'',
      C (CHR 0x27)] False False [[U [38750, 27861, 37329, 39069], A '' -minrelaytxfee=<amount>: '',
      C (CHR 0x27), A ''%s'', C (CHR 0x27)]],
     Msg [Rel 1] [A ''Invalid amount for -mintxfee=<amount>: '', C (CHR 0x27), A ''%s'',
      C (CHR 0x27)] False False [[U [38750, 27861, 37329, 39069], A '' -mintxfee=<amount>: '',
      C (CHR 0x27), A ''%s'', C (CHR 0x27)]]
    ]"

lemma zh_CN_blazecoin_core_3_ok: "list_all same_printf zh_CN_blazecoin_core_3"
  unfolding zh_CN_blazecoin_core_3_def by (simp add: catalogue_eval cong: eval_congs)

lemma zh_CN_blazecoin_core_3_forms: "list_all (forms_ok (Suc 0)) zh_CN_blazecoin_core_3"
  unfolding zh_CN_blazecoin_core_3_def by (simp add: forms_ok_def cong: form_congs)

definition zh_CN_blazecoin_core_4 :: "message list" where
  "zh_CN_blazecoin_core_4 =
    [
     Msg [Rel 8] [A ''Maintain a full transaction index (default: 0)''] False False [[U [32500,
      25252, 19968, 20221, 23436, 25972, 30340, 20132, 26131, 32034, 24341], A ''('', U [32570,
      30465, 65306], A ''0)'']],
     Msg [Rel 2] [A ''Maximum per-connection receive buffer, <n>*1000 bytes (default: 5000)''] False False [[U [27599,
      20010, 36830, 25509, 30340, 26368, 22823, 25509, 25910, 32531, 23384, 65292],
      A ''<n>*1000 '', U [23383, 33410], A ''('', U [32570, 30465, 65306], A ''5000)'']],
     Msg [Rel 1] [A ''Maximum per-connection send buffer, <n>*1000 bytes (default: 1000)''] False False [[U [27599,
      20010, 36830, 25509, 30340, 26368, 22823, 21457, 36865, 32531, 23384, 65292],
      A ''<n>*1000 '', U [23383, 33410], A ''('', U [32570, 30465, 65306], A ''1000)'']],
     Msg [Rel 2] [A ''Only accept block chain matching built-in checkpoints (default: 1)''] False False [[U [20165,
      25509, 21463, 31526, 21512, 23458, 25143, 31471, 26816, 26597, 28857, 35774, 32622, 30340,
      25968, 25454, 22359, 25991, 20214]]],
     Msg [Rel 1] [A ''Only connect to nodes in network <net> (IPv4, IPv6 or Tor)''] False False [[U [20165,
      36830, 25509, 33267, 25351, 23450, 32593, 32476, 30340, 33410, 28857],
      A ''<net>(IPv4, IPv6 '', U [25110, 32773], A '' Tor)'']],
     Msg [Rel 2] [A ''Output extra debugging information. Implies all other -debug* options''] False False [[U [36755,
      20986, 39069, 22806, 30340, 35843, 35797, 20449, 24687, 12290, 25171, 24320, 25152, 26377],
      A '' -debug* '', U [24320, 20851]]],
     Msg [Rel 1] [A ''Output extra network debugging information''] False False [[U [36755, 20986,
      39069, 22806, 30340, 32593, 32476, 35843, 35797, 20449, 24687]]],
     Msg [Rel 2] [A ''Prepend debug output with timestamp''] False False [[U [20026, 35843, 35797,
      36755, 20986, 20449, 24687, 28155, 21152, 26102, 38388, 25139]]],
     Msg [Rel 5] [A ''SSL options: (see the Blazecoin Wiki for SSL setup instructions)''] False False [[A ''SSL'',
      U [36873, 39033, 65306], A ''('', U [21442, 35265], A ''Blazecoin Wiki'', U [20851, 20110],
      A ''SSL'', U [35774, 32622, 26639, 30446], A '')'']],
     Msg [Rel 1] [A ''Select the version of socks proxy to use (4-5, default: 5)''] False False [[U [35831,
      36873, 25321], A ''Socks'', U [20195, 29702, 26381, 21153, 22120, 29256, 26412], A '' (4 '',
      U [25110], A '' 5, '', U [32570, 30465], A '': 5)'']],
     Msg [Rel 3] [A ''Send trace/debug info to console instead of debug.log file''] False False [[U [36319,
      36394], A ''/'', U [35843, 35797, 20449, 24687, 36755, 20986, 21040, 25511, 21046, 21488,
      65292, 19981, 36755, 20986, 21040], A ''debug.log'', U [25991, 20214]]],
     Msg [Rel 1] [A ''Send trace/debug info to debugger''] False False [[U [36319, 36394], A ''/'',
      U [35843, 35797, 20449, 24687, 36755, 20986, 21040], A '' '', U [35843, 35797, 22120],
      A ''debugger'']],
     Msg [Rel 5] [A ''Set maximum block size in bytes (default: 250000)''] False False [[U [35774,
      32622, 26368, 22823, 25968, 25454, 22359, 22823, 23567], A ''('', U [32570, 30465, 65306],
      A ''250000)'']],
     Msg [Rel 1] [A ''Set minimum block size in bytes (default: 0)''] False False [[U [35774,
      32622, 26368, 23567, 25968, 25454, 22359, 22823, 23567], A ''('', U [32570, 30465],
      A '':0)'']],
     Msg [Rel 2] [A ''Shrink debug.log file on client startup (default: 1 when no -debug)''] False False [[U [23458,
      25143, 31471, 21551, 21160, 26102, 21387, 32553], A ''debug.log'', U [25991, 20214], A ''('',
      U [32570, 30465, 65306], A ''no-debug'', U [27169, 24335, 26102, 20026], A ''1)'']],
     Msg [Rel 1] [A ''Signing transaction failed''] False False [[U [20132, 26131, 31614, 21517,
      22833, 36133]]],
     Msg [Rel 2] [A ''Specify connection timeout in milliseconds (default: 5000)''] False False [[U [35774,
      32622, 36830, 25509, 36229, 26102, 26102, 38388], A ''('', U [32570, 30465, 65306],
      A ''5000'', U [27627, 31186], A '')'']],
     Msg [Rel 4] [A ''System error: ''] False False [[U [31995, 32479, 38169, 35823, 65306]]],
     Msg [Rel 4] [A ''Transaction amount too small''] False False [[U [20132, 26131, 37329, 39069,
      22826, 23569]]],
     Msg [Rel 1] [A ''Transaction amounts must be positive''] False False [[U [20132, 26131, 37329,
      39069, 24517, 39035, 20026, 27491, 25968]]],
     Msg [Rel 1] [A ''Transaction too large''] False False [[U [20132, 26131, 37329, 39069, 22826,
      22823]]],
     Msg [Rel 7] [A ''Use UPnP to map the listening port (default: 0)''] False False [[U [20351,
      29992], A ''UPnp'', U [26144, 23556, 30417, 21548, 31471, 21475], A ''('', U [32570, 30465],
      A '': 0)'']],
     Msg [Rel 1] [A ''Use UPnP to map the listening port (default: 1 when listening)''] False False [[U [20351,
      29992], A ''UPnp'', U [26144, 23556, 30417, 21548, 31471, 21475], A ''('', U [32570, 30465],
      A '': '', U [30417, 21548, 29366, 24577, 35774, 20026], A ''1)'']],
     Msg [Rel 1] [A ''Use proxy to reach tor hidden services (default: same as -proxy)''] False False [[U [20351,
      29992, 20195, 29702, 26381, 21153, 22120, 35775, 38382, 38544, 34255, 26381, 21153], A ''('',
      U [32570, 30465, 65306, 21516], A '' -proxy)'']],
     Msg [Rel 2] [A ''Username for JSON-RPC connections''] False False [[A ''JSON-RPC'', U [36830,
      25509, 29992, 25143, 21517], C (CHR 0x0A)]],
     Msg [Rel 4] [A ''Warning''] False False [[U [35686, 21578]]],
     Msg [Rel 1] [A ''Warning: This version is obsolete, upgrade required!''] False False [[U [35686,
      21578, 65306, 35813, 36719, 20214, 29256, 26412, 24050, 36807, 26102, 65292, 35831, 21319,
      32423, 65281]]],
     Msg [Rel 1] [A ''You need to rebuild the databases using -reindex to change -txindex''] False False [[A ''You need to rebuild the databases using -reindex to change -txindex'']]
    ]"

lemma zh_CN_blazecoin_core_4_ok: "list_all same_printf zh_CN_blazecoin_core_4"
  unfolding zh_CN_blazecoin_core_4_def by (simp add: catalogue_eval cong: eval_congs)

lemma zh_CN_blazecoin_core_4_forms: "list_all (forms_ok (Suc 0)) zh_CN_blazecoin_core_4"
  unfolding zh_CN_blazecoin_core_4_def by (simp add: forms_ok_def cong: form_congs)

definition zh_CN_blazecoin_core_5 :: "message list" where
  "zh_CN_blazecoin_core_5 =
    [
     Msg [Rel 1] [A ''wallet.dat corrupt, salvage failed''] False False [[U [38065, 21253, 25991,
      20214], A ''wallet.dat'', U [25439, 22351, 65292, 25250, 25937, 22791, 20221, 22833, 36133]]],
     Msg [Rel (- 50)] [A ''Password for JSON-RPC connections''] False False [[A ''JSON-RPC'',
      U [36830, 25509, 23494, 30721], C (CHR 0x0A)]],
     Msg [Rel (- 67)] [A ''Allow JSON-RPC connections from specified IP address''] False False [[U [20801,
      35768, 20174, 25351, 23450], A ''IP'', U [25509, 21463, 21040, 30340], A ''JSON-RPC'',
      U [36830, 25509], C (CHR 0x0A)]],
     Msg [Rel 76] [A ''Send commands to node running on <ip> (default: 127.0.0.1)''] False False [[U [21521],
      A ''IP'', U [22320, 22336, 20026], A '' <ip> '', U [30340, 33410, 28857, 21457, 36865, 25351,
      20196], A '' ('', U [32570, 30465], A '': 127.0.0.1)'', C (CHR 0x0A)]],
     Msg [Rel (- 120)] [A ''Execute command when the best block changes (%s in cmd is replaced by block hash)''] False False [[U [24403,
      26368, 20339, 25968, 25454, 22359, 21464, 21270, 26102, 25191, 34892, 21629, 20196],
      A '' ('', U [21629, 20196, 34892, 20013, 30340], A '' %s '', U [20250, 34987, 26367, 25442,
      25104, 25968, 25454, 22359, 21704, 24076, 20540], A '')'']],
     Msg [Rel 147] [A ''Upgrade wallet to latest format''] False False [[U [23558, 38065, 21253,
      21319, 32423, 21040, 26368, 26032, 30340, 26684, 24335]]],
     Msg [Rel (- 21)] [A ''Set key pool size to <n> (default: 100)''] False False [[U [35774,
      32622, 23494, 38053, 27744, 22823, 23567, 20026], A '' <n> ('', U [32570, 30465],
      A '': 100)'', C (CHR 0x0A)]],
     Msg [Rel (- 12)] [A ''Rescan the block chain for missing wallet transactions''] False False [[U [37325,
      26032, 25195, 25551, 25968, 25454, 38142, 20197, 26597, 25214, 36951, 28431, 30340, 20132,
      26131], C (CHR 0x0A)]],
     Msg [Rel 35] [A ''Use OpenSSL (https) for JSON-RPC connections''] False False [[U [20026],
      A '' JSON-RPC '', U [36830, 25509, 20351, 29992], A '' OpenSSL (https)'', U [36830, 25509]]],
     Msg [Rel (- 26)] [A ''Server certificate file (default: server.cert)''] False False [[U [26381,
      21153, 22120, 35777, 20070], A '' ('', U [40664, 35748, 20026], A '' server.cert)'',
      C (CHR 0x0A)]],
     Msg [Rel 1] [A ''Server private key (default: server.pem)''] False False [[U [26381, 21153,
      22120, 31169, 38053], A '' ('', U [40664, 35748, 20026], A '' server.pem)'', C (CHR 0x0A)]],
     Msg [Rel (- 151)] [A ''Acceptable ciphers (default: TLSv1+HIGH:!SSLv2:!aNULL:!eNULL:!AH:!3DES:'',
      C (CHR 0x40), A ''STRENGTH)''] False False [[U [21487, 25509, 21463, 30340, 21152, 23494,
      22120], A '' ('', U [40664, 35748, 20026], A '' TLSv1+HIGH:!SSLv2:!aNULL:!eNULL:!AH:!3DES:'',
      C (CHR 0x40), A ''STRENGTH)'', C (CHR 0x0A)]],
     Msg [Rel 165] [A ''This help message''] False False [[U [35813, 24110, 21161, 20449, 24687],
      C (CHR 0x0A)]],
     Msg [Rel 6] [A ''Unable to bind to %s on this computer (bind returned error %d, %s)''] False False [[U [26080,
      27861, 32465, 23450, 26412, 26426, 31471, 21475], A '' %s  ('', U [36820, 22238, 38169,
      35823, 28040, 24687], A '' %d, %s)'']],
     Msg [Rel (- 91)] [A ''Connect through socks proxy''] False False [[U [36890, 36807],
      A '' socks '', U [20195, 29702, 36830, 25509]]],
     Msg [Rel (- 10)] [A ''Allow DNS lookups for -addnode, -seednode and -connect''] False False [[U [20351,
      29992], A '' -addnode, -seednode '', U [21644], A '' -connect'', U [36873, 39033, 26102,
      20801, 35768], A ''DNS'', U [26597, 25214]]],
     Msg [Rel 55] [A ''Loading addresses...''] False False [[U [27491, 22312, 21152, 36733, 22320,
      22336], A ''...'']],
     Msg [Rel (- 35)] [A ''Error loading wallet.dat: Wallet corrupted''] False False [[A ''wallet.dat'',
      U [38065, 21253, 25991, 20214, 21152, 36733, 38169, 35823, 65306, 38065, 21253, 25439,
      22351]]],
     Msg [Rel 1] [A ''Error loading wallet.dat: Wallet requires newer version of Blazecoin''] False False [[A ''wallet.dat'',
      U [38065, 21253, 25991, 20214, 21152, 36733, 38169, 35823, 65306, 35831, 21319, 32423, 21040,
      26368, 26032], A ''Blazecoin'', U [23458, 25143, 31471]]],
     Msg [Rel 93] [A ''Wallet needed to be rewritten: restart Blazecoin to complete''] False False [[U [38065,
      21253, 25991, 20214, 38656, 35201, 37325, 20889, 65306, 35831, 36864, 20986, 24182, 37325,
      26032, 21551, 21160], A ''Blazecoin'', U [23458, 25143, 31471]]],
     Msg [Rel (- 95)] [A ''Error loading wallet.dat''] False False [[A ''wallet.dat'', U [38065,
      21253, 25991, 20214, 21152, 36733, 38169, 35823]]],
     Msg [Rel 28] [A ''Invalid -proxy address: '', C (CHR 0x27), A ''%s'',
      C (CHR 0x27)] False False [[U [38750, 27861, 30340, 20195, 29702, 22320, 22336], A '': '',
      C (CHR 0x27), A ''%s'', C (CHR 0x27)]],
     Msg [Rel 56] [A ''Unknown network specified in -onlynet: '', C (CHR 0x27), A ''%s'',
      C (CHR 0x27)] False False [[U [34987, 25351, 23450, 30340, 26159, 26410, 30693, 32593,
      32476], A '' -onlynet: '', C (CHR 0x27), A ''%s'', C (CHR 0x27)]],
     Msg [Rel (- 1)] [A ''Unknown -socks proxy version requested: %i''] False False [[U [34987,
      25351, 23450, 30340, 26159, 26410, 30693], A ''socks'', U [20195, 29702, 29256, 26412],
      A '': %i'']],
     Msg [Rel (- 96)] [A ''Cannot resolve -bind address: '', C (CHR 0x27), A ''%s'',
      C (CHR 0x27)] False False [[U [26080, 27861, 35299, 26512], A '' -bind '', U [31471, 21475,
      22320, 22336], A '': '', C (CHR 0x27), A ''%s'', C (CHR 0x27)]],
     Msg [Rel 1] [A ''Cannot resolve -externalip address: '', C (CHR 0x27), A ''%s'',
      C (CHR 0x27)] False False [[U [26080, 27861, 35299, 26512], A '' -externalip '', U [22320,
      22336], A '': '', C (CHR 0x27), A ''%s'', C (CHR 0x27)]],
     Msg [Rel 44] [A ''Invalid amount for -paytxfee=<amount>: '', C (CHR 0x27), A ''%s'',
      C (CHR 0x27)] False False [[U [38750, 27861, 37329, 39069], A '' -paytxfee=<amount>: '',
      C (CHR 0x27), A ''%s'', C (CHR 0x27)]]
    ]"

lemma zh_CN_blazecoin_core_5_ok: "list_all same_printf zh_CN_blazecoin_core_5"
  unfolding zh_CN_blazecoin_core_5_def by (simp add: catalogue_eval cong: eval_congs)

lemma zh_CN_blazecoin_core_5_forms: "list_all (forms_ok (Suc 0)) zh_CN_blazecoin_core_5"
  unfolding zh_CN_blazecoin_core_5_def by (simp add: forms_ok_def cong: form_congs)

definition zh_CN_blazecoin_core_6 :: "message list" where
  "zh_CN_blazecoin_core_6 =
    [
     Msg [Rel 1] [A ''Invalid amount''] False False [[U [37329, 39069, 19981, 23545]]],
     Msg [Rel (- 6)] [A ''Insufficient funds''] False False [[U [37329, 39069, 19981, 36275]]],
     Msg [Rel 10] [A ''Loading block index...''] False False [[U [21152, 36733, 25968, 25454,
      22359, 32034, 24341], A ''...'']],
     Msg [Rel (- 57)] [A ''Add a node to connect to and attempt to keep the connection open''] False False [[U [28155,
      21152, 33410, 28857, 24182, 19982, 20854, 20445, 25345, 36830, 25509]]],
     Msg [Rel (- 25)] [A ''Unable to bind to %s on this computer. Blazecoin is probably already running.''] False False [[U [26080,
      27861, 22312, 26412, 26426, 32465, 23450], A '' %s '', U [31471, 21475], A '' . '', U [19990,
      30028, 24065, 23458, 25143, 31471, 36719, 20214, 21487, 33021, 24050, 32463, 22312, 36816,
      34892], A ''.'']],
     Msg [Rel 64] [A ''Fee per KB to add to transactions you send''] False False [[U [27599, 21457,
      36865], A ''1KB'', U [20132, 26131, 25152, 38656, 30340, 36153, 29992]]],
     Msg [Rel 19] [A ''Loading wallet...''] False False [[U [27491, 22312, 21152, 36733, 38065,
      21253], A ''...'']],
     Msg [Rel (- 52)] [A ''Cannot downgrade wallet''] False False [[U [26080, 27861, 38477, 32423,
      38065, 21253, 26684, 24335]]],
     Msg [Rel 3] [A ''Cannot write default address''] False False [[U [26080, 27861, 20889, 20837,
      32570, 30465, 22320, 22336]]],
     Msg [Rel 64] [A ''Rescanning...''] False False [[U [27491, 22312, 37325, 26032, 25195, 25551],
      A ''...'']],
     Msg [Rel (- 57)] [A ''Done loading''] False False [[U [21152, 36733, 23436, 25104]]],
     Msg [Rel 82] [A ''To use the %s option''] False False [[U [20351, 29992], A '' %s '',
      U [36873, 39033]]],
     Msg [Rel (- 74)] [A ''Error''] False False [[U [38169, 35823]]],
     Msg [Rel (- 31)] [A ''You must set rpcpassword=<password> in the configuration file:'',
      C (CHR 0x0A), A ''%s'', C (CHR 0x0A),
      A ''If the file does not exist, create it with owner-readable-only file permissions.''] False False [[U [24744,
      24517, 39035, 22312, 37197, 32622, 25991, 20214, 20013, 21152, 20837, 36873, 39033],
      A '' rpcpassword :'', C (CHR 0x0A), A '' %s'', C (CHR 0x0A), U [22914, 26524, 37197, 32622,
      25991, 20214, 19981, 23384, 22312, 65292, 35831, 26032, 24314, 65292, 24182, 23558, 25991,
      20214, 26435, 38480, 35774, 32622, 20026, 20165, 20801, 35768, 25991, 20214, 25152, 26377,
      32773, 35835, 21462], A ''.'']]
    ]"

lemma zh_CN_blazecoin_core_6_ok: "list_all same_printf zh_CN_blazecoin_core_6"
  unfolding zh_CN_blazecoin_core_6_def by (simp add: catalogue_eval cong: eval_congs)

lemma zh_CN_blazecoin_core_6_forms: "list_all (forms_ok (Suc 0)) zh_CN_blazecoin_core_6"
  unfolding zh_CN_blazecoin_core_6_def by (simp add: forms_ok_def cong: form_congs)

definition zh_CN_blazecoin_core :: context_messages where
  "zh_CN_blazecoin_core = (''blazecoin-core'', zh_CN_blazecoin_core_1 @ zh_CN_blazecoin_core_2 @ zh_CN_blazecoin_core_3 @ zh_CN_blazecoin_core_4 @ zh_CN_blazecoin_core_5 @ zh_CN_blazecoin_core_6)"

lemma zh_CN_blazecoin_core_ok: "context_ok (Suc 0) zh_CN_blazecoin_core"
  unfolding zh_CN_blazecoin_core_def by (simp add: context_ok_def zh_CN_blazecoin_core_1_ok
    zh_CN_blazecoin_core_1_forms zh_CN_blazecoin_core_2_ok zh_CN_blazecoin_core_2_forms
    zh_CN_blazecoin_core_3_ok zh_CN_blazecoin_core_3_forms zh_CN_blazecoin_core_4_ok
    zh_CN_blazecoin_core_4_forms zh_CN_blazecoin_core_5_ok zh_CN_blazecoin_core_5_forms
    zh_CN_blazecoin_core_6_ok zh_CN_blazecoin_core_6_forms)

definition zh_CN_catalogue :: catalogue where
  "zh_CN_catalogue =
    [zh_CN_AboutDialog, zh_CN_AddressBookPage, zh_CN_AddressTableModel, zh_CN_AskPassphraseDialog,
      zh_CN_ClientModel, zh_CN_EditAddressDialog, zh_CN_GUIUtil_HelpMessageBox, zh_CN_MainWindow,
      zh_CN_BlazecoinGUI, zh_CN_MessageBoxDialog, zh_CN_MiningPage, zh_CN_OptionsDialog,
      zh_CN_OptionsPage, zh_CN_OverviewPage, zh_CN_PaymentServer, zh_CN_QRCodeDialog,
      zh_CN_RPCConsole, zh_CN_SendCoinsDialog, zh_CN_SendCoinsEntry, zh_CN_ServiceMessagesPage,
      zh_CN_SignMessagePage, zh_CN_SignVerifyMessageDialog, zh_CN_SplashScreen,
      zh_CN_TransactionDesc, zh_CN_TransactionDescDialog, zh_CN_TransactionTableModel,
      zh_CN_TransactionView, zh_CN_TransactionsPage, zh_CN_VerifyMessagePage, zh_CN_WalletModel,
      zh_CN_blazecoin_core]"

lemma zh_CN_catalogue_ok: "list_all (context_ok (Suc 0)) zh_CN_catalogue"
  unfolding zh_CN_catalogue_def by (simp add: zh_CN_AboutDialog_ok zh_CN_AddressBookPage_ok
    zh_CN_AddressTableModel_ok zh_CN_AskPassphraseDialog_ok zh_CN_ClientModel_ok
    zh_CN_EditAddressDialog_ok zh_CN_GUIUtil_HelpMessageBox_ok zh_CN_MainWindow_ok
    zh_CN_BlazecoinGUI_ok zh_CN_MessageBoxDialog_ok zh_CN_MiningPage_ok zh_CN_OptionsDialog_ok
    zh_CN_OptionsPage_ok zh_CN_OverviewPage_ok zh_CN_PaymentServer_ok zh_CN_QRCodeDialog_ok
    zh_CN_RPCConsole_ok zh_CN_SendCoinsDialog_ok zh_CN_SendCoinsEntry_ok
    zh_CN_ServiceMessagesPage_ok zh_CN_SignMessagePage_ok zh_CN_SignVerifyMessageDialog_ok
    zh_CN_SplashScreen_ok zh_CN_TransactionDesc_ok zh_CN_TransactionDescDialog_ok
    zh_CN_TransactionTableModel_ok zh_CN_TransactionView_ok zh_CN_TransactionsPage_ok
    zh_CN_VerifyMessagePage_ok zh_CN_WalletModel_ok zh_CN_blazecoin_core_ok)

end
