(* ===== verification/Catalogue_hi_IN.thy ===== *)
theory Catalogue_hi_IN
  imports Translation
begin

text \<open>
  The Hindi catalogue, src/qt/locale/blazecoin_hi_IN.ts: its messages in the order of the file,
  in lists of about thirty, the contexts they belong to, and the catalogue. For every list the lemma
  that follows it compares each translation with its source: the conversion specifications in the
  context of the core, whose texts are formats of strprintf, the place markers elsewhere.
\<close>

definition hi_IN_AboutDialog_1 :: "message list" where
  "hi_IN_AboutDialog_1 =
    [
     Msg [At ''../forms/aboutdialog.ui'' 14] [A ''About Blazecoin''] False False [[U [2348, 2367,
      2335, 2325, 2379, 2311, 2344], A '' '', U [2325, 2375], A '' '', U [2360, 2306, 2348, 2306,
      2343], A '' '', U [2350, 2375, 2306]]],
     Msg [Rel 39] [A ''<b>Blazecoin</b> version''] False False [[U [2348, 2367, 2335, 2325, 2379,
      2311, 2344], A '' '', U [2357, 2352, 2381, 2360, 2344]]],
     Msg [Rel 57] [C (CHR 0x0A), A ''This is experimental software.'', C (CHR 0x0A), C (CHR 0x0A),
      A ''Distributed under the MIT/X11 software license, see the accompanying file COPYING or http://www.opensource.org/licenses/mit-license.php.'',
      C (CHR 0x0A), C (CHR 0x0A),
      A ''This product includes software developed by the OpenSSL Project for use in the OpenSSL Toolkit (http://www.openssl.org/) and cryptographic software written by Eric Young (eay'',
      C (CHR 0x40),
      A ''cryptsoft.com) and UPnP software written by Thomas Bernard.''] True False [[]],
     Msg [At ''../aboutdialog.cpp'' 14] [A ''Copyright''] False False [[U [2325, 2366, 2346, 2368,
      2352, 2366, 2311, 2335]]],
     Msg [Rel 0] [A ''Dr. Kimoto Chan''] True False [[]]
    ]"

lemma hi_IN_AboutDialog_1_ok: "list_all same_markers hi_IN_AboutDialog_1"
  unfolding hi_IN_AboutDialog_1_def by (simp add: catalogue_eval cong: eval_congs)

lemma hi_IN_AboutDialog_1_forms: "list_all (forms_ok 2) hi_IN_AboutDialog_1"
  unfolding hi_IN_AboutDialog_1_def by (simp add: forms_ok_def cong: form_congs)

definition hi_IN_AboutDialog :: context_messages where
  "hi_IN_AboutDialog = (''AboutDialog'', hi_IN_AboutDialog_1)"

lemma hi_IN_AboutDialog_ok: "context_ok 2 hi_IN_AboutDialog"
  unfolding hi_IN_AboutDialog_def by (simp add: context_ok_def hi_IN_AboutDialog_1_ok
    hi_IN_AboutDialog_1_forms)

definition hi_IN_AddressBookPage_1 :: "message list" where
  "hi_IN_AddressBookPage_1 =
    [
     Msg [At ''../forms/addressbookpage.ui'' 14] [A ''Address Book''] False False [[U [2346, 2340,
      2366], A '' '', U [2346, 2369, 2360, 2381, 2340, 2325]]],
     Msg [Rel 19] [A ''Double-click to edit address or label''] False False [[U [2342, 2379],
      A '' '', U [2348, 2366, 2352], A '' '', U [2325, 2381, 2354, 2367, 2325], A '' '', U [2325,
      2352, 2375], A '' '', U [2346, 2340, 2366], A '' '', U [2351, 2366], A '' '', U [2354, 2375,
      2348, 2354], A '' '', U [2360, 2306, 2346, 2366, 2342, 2344], A '' '', U [2325, 2352, 2344,
      2375], A '' '', U [2325, 2375], A '' '', U [2354, 2367, 2319], A '' !'']],
     Msg [Rel 27] [A ''Create a new address''] False False [[U [2344, 2351, 2366], A '' '',
      U [2346, 2340, 2366], A '' '', U [2354, 2367, 2326, 2367, 2319], A '' !'']],
     Msg [Rel 14] [A ''Copy the currently selected address to the system clipboard''] False False [[U [2330,
      2369, 2344, 2367, 2344, 2381, 2342, 2366], A '' '', U [2346, 2340, 2375], A '' '', U [2325,
      2379], A '' '', U [2360, 2367, 2360, 2381, 2335, 2350], A '' '', U [2325, 2381, 2354, 2367,
      2346, 2348, 2379, 2352, 2381, 2337], A '' '', U [2346, 2352], A '' '', U [2325, 2366, 2346,
      2368], A '' '', U [2325, 2352, 2375], A '' !'']],
     Msg [Rel (- 11)] [A ''&New Address''] False False [[A ''&'', U [2344, 2351, 2366], A '' '',
      U [2346, 2340, 2366]]],
     Msg [At ''../addressbookpage.cpp'' 63] [A ''These are your Blazecoin addresses for receiving payments. You may want to give a different one to each sender so you can keep track of who is paying you.''] True False [[]],
     Msg [At ''../forms/addressbookpage.ui'' 14] [A ''&Copy Address''] False False [[A ''&'',
      U [2346, 2340, 2366], A '' '', U [2325, 2377, 2346, 2368], A '' '', U [2325, 2352, 2375]]],
     Msg [Rel 11] [A ''Show &QR Code''] True False [[]],
     Msg [Rel 11] [A ''Sign a message to prove you own a Blazecoin address''] True False [[]],
     Msg [Rel 3] [A ''Sign &Message''] True False [[]],
     Msg [Rel 25] [A ''Delete the currently selected address from the list''] True False [[]],
     Msg [Rel 27] [A ''Export the data in the current tab to a file''] True False [[]],
     Msg [Rel 3] [A ''&Export''] True False [[]],
     Msg [Rel (- 44)] [A ''Verify a message to ensure it was signed with a specified Blazecoin address''] True False [[]],
     Msg [Rel 3] [A ''&Verify Message''] True False [[]],
     Msg [Rel 14] [A ''&Delete''] False False [[A ''&'', U [2350, 2367, 2335, 2366, 2319],
      A '' !!'']],
     Msg [At ''../addressbookpage.cpp'' (- 5)] [A ''These are your Blazecoin addresses for sending payments. Always check the amount and the receiving address before sending coins.''] True False [[]],
     Msg [Rel 13] [A ''Copy &Label''] False False [[A ''&'', U [2354, 2375, 2348, 2354], A '' '',
      U [2325, 2377, 2346, 2368], A '' '', U [2325, 2352, 2375], A '' '']],
     Msg [Rel 1] [A ''&Edit''] False False [[A ''&'', U [2319, 2337, 2367, 2335]]],
     Msg [Rel 1] [A ''Send &Coins''] True False [[]],
     Msg [Rel 260] [A ''Export Address Book Data''] False False [[U [2346, 2340, 2366], A '' '',
      U [2346, 2369, 2360, 2381, 2340, 2325], A '' '', U [2325, 2366], A '' '', U [2337, 2375,
      2335, 2366], A '' '', U [2319, 2325, 2381, 2360, 2346, 2379, 2352, 2381, 2335], A '' ('',
      U [2344, 2367, 2352, 2381, 2351, 2366, 2340], A '') '', U [2325, 2352, 2375], A '' !'']],
     Msg [Rel 1] [A ''Comma separated file (*.csv)''] False False [[A ''Comma separated file (*.csv)'']],
     Msg [Rel 13] [A ''Error exporting''] False False [[U [2327, 2364, 2354, 2340, 2367, 2351,
      2366, 2305], A '' '', U [2319, 2325, 2381, 2360, 2346, 2379, 2352, 2381, 2335], A '' ('',
      U [2344, 2367, 2352, 2381, 2351, 2366, 2340], A '') '', U [2325, 2352, 2375], A ''!'']],
     Msg [Rel 0] [A ''Could not write to file %1.''] False False [[U [2347, 2366, 2311, 2354],
      A '' '', U [2350, 2375, 2306], A '' '', U [2354, 2367, 2326], A '' '', U [2344, 2361, 2368],
      A '' '', U [2360, 2325, 2375], A '' %1.'']]
    ]"

lemma hi_IN_AddressBookPage_1_ok: "list_all same_markers hi_IN_AddressBookPage_1"
  unfolding hi_IN_AddressBookPage_1_def by (simp add: catalogue_eval cong: eval_congs)

lemma hi_IN_AddressBookPage_1_forms: "list_all (forms_ok 2) hi_IN_AddressBookPage_1"
  unfolding hi_IN_AddressBookPage_1_def by (simp add: forms_ok_def cong: form_congs)

definition hi_IN_AddressBookPage :: context_messages where
  "hi_IN_AddressBookPage = (''AddressBookPage'', hi_IN_AddressBookPage_1)"

lemma hi_IN_AddressBookPage_ok: "context_ok 2 hi_IN_AddressBookPage"
  unfolding hi_IN_AddressBookPage_def by (simp add: context_ok_def hi_IN_AddressBookPage_1_ok
    hi_IN_AddressBookPage_1_forms)

definition hi_IN_AddressTableModel_1 :: "message list" where
  "hi_IN_AddressTableModel_1 =
    [
     Msg [At ''../addresstablemodel.cpp'' 144] [A ''Label''] False False [[U [2354, 2375, 2348,
      2354]]],
     Msg [Rel 0] [A ''Address''] False False [[U [2346, 2340, 2366]]],
     Msg [Rel 36] [A ''(no label)''] False False [[A ''('', U [2325, 2379, 2312], A '' '', U [2354,
      2375, 2348, 2354], A '' '', U [2344, 2361, 2368], A '' !)'']]
    ]"

lemma hi_IN_AddressTableModel_1_ok: "list_all same_markers hi_IN_AddressTableModel_1"
  unfolding hi_IN_AddressTableModel_1_def by (simp add: catalogue_eval cong: eval_congs)

lemma hi_IN_AddressTableModel_1_forms: "list_all (forms_ok 2) hi_IN_AddressTableModel_1"
  unfolding hi_IN_AddressTableModel_1_def by (simp add: forms_ok_def cong: form_congs)

definition hi_IN_AddressTableModel :: context_messages where
  "hi_IN_AddressTableModel = (''AddressTableModel'', hi_IN_AddressTableModel_1)"

lemma hi_IN_AddressTableModel_ok: "context_ok 2 hi_IN_AddressTableModel"
  unfolding hi_IN_AddressTableModel_def by (simp add: context_ok_def hi_IN_AddressTableModel_1_ok
    hi_IN_AddressTableModel_1_forms)

definition hi_IN_AskPassphraseDialog_1 :: "message list" where
  "hi_IN_AskPassphraseDialog_1 =
    [
     Msg [At ''../forms/askpassphrasedialog.ui'' 26] [A ''Passphrase Dialog''] True False [[]],
     Msg [Rel 21] [A ''Enter passphrase''] False False [[U [2346, 2361, 2330, 2366, 2344], A '' '',
      U [2358, 2348, 2381, 2342], A ''/'', U [2309, 2325, 2381, 2359, 2352], A '' '', U [2337,
      2366, 2354, 2367, 2319], A '' !'']],
     Msg [Rel 14] [A ''New passphrase''] False False [[U [2344, 2351, 2366], A '' '', U [2346,
      2361, 2330, 2366, 2344], A '' '', U [2358, 2348, 2381, 2342], A ''/'', U [2309, 2325, 2381,
      2359, 2352], A '' '', U [2337, 2366, 2354, 2367, 2319], A '' !'']],
     Msg [Rel 14] [A ''Repeat new passphrase''] False False [[U [2342, 2379, 2348, 2366, 2352,
      2366], A '' '', U [2344, 2351, 2366], A '' '', U [2346, 2361, 2330, 2366, 2344], A '' '',
      U [2358, 2348, 2381, 2342], A ''/'', U [2309, 2325, 2381, 2359, 2352], A '' '', U [2337,
      2366, 2354, 2367, 2319], A '' !'']],
     Msg [At ''../askpassphrasedialog.cpp'' 33] [A ''Enter the new passphrase to the wallet.<br/>Please use a passphrase of <b>10 or more random characters</b>, or <b>eight or more words</b>.''] False False [[U [2344,
      2351, 2366], A '' '', U [2346, 2361, 2330, 2366, 2344], A '' '', U [2358, 2348, 2381, 2342],
      A ''/'', U [2309, 2325, 2381, 2359, 2352], A '' '', U [2357, 2377, 2354, 2375, 2335],
      A '' '', U [2350, 2375], A '' '', U [2337, 2366, 2354, 2367, 2319], A '' ! <br/> '', U [2325,
      2371, 2346, 2366], A '' '', U [2325, 2352, 2325, 2375], A '' '', U [2346, 2361, 2330, 2366,
      2344], A '' '', U [2358, 2348, 2381, 2342], A '' '', U [2350, 2375, 2306], A '' <br> 10 '',
      U [2360, 2375], A '' '', U [2332, 2364, 2381, 2351, 2366, 2342, 2366], A '' '', U [2309,
      2325, 2381, 2359, 2377, 2352, 2379, 2306], A '' '', U [2325, 2366], A '' '', U [2311, 2360,
      2381, 2340, 2375, 2350, 2366, 2354], A '' '', U [2325, 2352, 2375], A '' </b>,'', U [2351,
      2366], A '' <b>'', U [2310, 2336], A '' '', U [2351, 2366], A '' '', U [2313, 2360, 2360,
      2375], A '' '', U [2360, 2375], A '' '', U [2332, 2364, 2381, 2351, 2366, 2342, 2366],
      A '' '', U [2358, 2348, 2381, 2342, 2379], A '' '', U [2325, 2366], A '' '', U [2311, 2360,
      2381, 2340, 2375, 2350, 2366, 2354], A '' '', U [2325, 2352, 2375], A ''</b> !'']],
     Msg [Rel 1] [A ''Encrypt wallet''] False False [[U [2319, 2344, 2325, 2381, 2352, 2367, 2346,
      2381, 2335], A '' '', U [2357, 2377, 2354, 2375, 2335], A '' !'']],
     Msg [Rel 3] [A ''This operation needs your wallet passphrase to unlock the wallet.''] False False [[U [2357,
      2377, 2354, 2375, 2335], A '' '', U [2326, 2379, 2354, 2344, 2375], A '' '', U [2325, 2375],
      A '' '', U [2310, 2346, 2325, 2366], A '' '', U [2357, 2377, 2354, 2375, 2335], A '' '',
      U [2346, 2361, 2330, 2366, 2344], A '' '', U [2358, 2348, 2381, 2342, 2381, 8204], A ''/'',
      U [2309, 2325, 2381, 2359, 2352], A '' '', U [2330, 2366, 2312, 2319], A '' !'']],
     Msg [Rel 5] [A ''Unlock wallet''] False False [[U [2357, 2377, 2354, 2375, 2335], A '' '',
      U [2326, 2379, 2354, 2367, 2319]]],
     Msg [Rel 3] [A ''This operation needs your wallet passphrase to decrypt the wallet.''] False False [[U [2357,
      2377, 2354, 2375, 2335], A '' '', U [2337, 2368, 2325, 2381, 2352, 2367, 2346, 2381, 2335],
      A ''( '', U [2357, 2367, 2325, 2379, 2337], A '') '', U [2325, 2352, 2344, 2375], A '' '',
      U [2325, 2375], A '' '', U [2354, 2367, 2319], A '' '', U [2310, 2346, 2325, 2366], A '' '',
      U [2357, 2377, 2354, 2375, 2335], A '' '', U [2346, 2361, 2330, 2366, 2344], A '' '',
      U [2358, 2348, 2381, 2342, 2381, 8204], A ''/'', U [2309, 2325, 2381, 2359, 2352], A '' '',
      U [2330, 2366, 2312, 2319], A '' !'']],
     Msg [Rel 5] [A ''Decrypt wallet''] False False [[A '' '', U [2337, 2368, 2325, 2381, 2352,
      2367, 2346, 2381, 2335], A '' '', U [2357, 2377, 2354, 2375, 2335]]],
     Msg [Rel 3] [A ''Change passphrase''] False False [[U [2346, 2361, 2330, 2366, 2344], A '' '',
      U [2358, 2348, 2381, 2342], A ''/'', U [2309, 2325, 2381, 2359, 2352], A '' '', U [2348,
      2342, 2354, 2367, 2351, 2375], A '' !'']],
     Msg [Rel 1] [A ''Enter the old and new passphrase to the wallet.''] False False [[U [2325,
      2371, 2346, 2366], A '' '', U [2325, 2352, 2325, 2375], A '' '', U [2346, 2369, 2352, 2366,
      2344, 2366], A '' '', U [2319, 2357, 2306], A '' '', U [2344, 2351, 2366], A '' '', U [2346,
      2361, 2330, 2366, 2344], A '' '', U [2358, 2348, 2381, 2342], A ''/'', U [2309, 2325, 2381,
      2359, 2352], A '' '', U [2357, 2377, 2354, 2375, 2335], A '' '', U [2350, 2375, 2306],
      A '' '', U [2337, 2366, 2354, 2367, 2319], A '' !'']],
     Msg [Rel 46] [A ''Confirm wallet encryption''] False False [[U [2357, 2377, 2354, 2375, 2335],
      A '' '', U [2319, 2344, 2325, 2381, 2352, 2367, 2346, 2358, 2344], A '' '', U [2325, 2379],
      A '' '', U [2346, 2381, 2352, 2350, 2366, 2339, 2367, 2340], A '' '', U [2325, 2368, 2332,
      2367, 2319], A '' !'']],
     Msg [Rel 1] [A ''Warning: If you encrypt your wallet and lose your passphrase, you will <b>LOSE ALL OF YOUR BLAZECOINS</b>!''] True False [[]],
     Msg [Rel 0] [A ''Are you sure you wish to encrypt your wallet?''] True False [[]],
     Msg [Rel 15] [A ''IMPORTANT: Any previous backups you have made of your wallet file should be replaced with the newly generated, encrypted wallet file. For security reasons, previous backups of the unencrypted wallet file will become useless as soon as you start using the new, encrypted wallet.''] True False [[]],
     Msg [Rel 100, Rel 24] [A ''Warning: The Caps Lock key is on!''] True False [[]],
     Msg [Rel (- 130), Rel 58] [A ''Wallet encrypted''] False False [[U [2357, 2377, 2354, 2375,
      2335], A '' '', U [2319, 2344, 2325, 2381, 2352, 2367, 2346, 2381, 2335], A '' '', U [2361,
      2379], A '' '', U [2327, 2351, 2366], A '' !'']],
     Msg [Rel (- 56)] [A ''Blazecoin will close now to finish the encryption process. Remember that encrypting your wallet cannot fully protect your blazecoins from being stolen by malware infecting your computer.''] True False [[]],
     Msg [Rel 13, Rel 7, Rel 42, Rel 6] [A ''Wallet encryption failed''] False False [[U [2357,
      2377, 2354, 2375, 2335], A '' '', U [2319, 2344, 2325, 2381, 2352, 2367, 2346, 2381, 2335],
      A '' '', U [2344, 2361, 2368], A '' '', U [2361, 2369, 2310], A ''!'']],
     Msg [Rel (- 54)] [A ''Wallet encryption failed due to an internal error. Your wallet was not encrypted.''] False False [[U [2357,
      2377, 2354, 2375, 2335], A '' '', U [2319, 2344, 2325, 2381, 2352, 2367, 2346, 2358, 2344],
      A '' '', U [2344, 2366, 2325, 2366, 2350], A '' '', U [2361, 2379], A '' '', U [2327, 2351,
      2366], A '' '', U [2311, 2306, 2335, 2352, 2381, 2344, 2354], A '' '', U [2319, 2352, 2352],
      A '' '', U [2325, 2368], A '' '', U [2357, 2332, 2361], A '' '', U [2360, 2375], A ''! '',
      U [2310, 2346, 2325, 2366], A '' '', U [2357, 2377, 2354, 2375, 2335], A '' '', U [2319,
      2344, 2325, 2381, 2352, 2368, 2346, 2340], A '' '', U [2344, 2361, 2368], A '' '', U [2361,
      2369, 2310], A '' '', U [2361, 2376], A ''!'']],
     Msg [Rel 7, Rel 48] [A ''The supplied passphrases do not match.''] False False [[U [2310,
      2346, 2325, 2375], A '' '', U [2342, 2381, 2357, 2366, 2352, 2366], A '' '', U [2337, 2366,
      2354, 2375], A '' '', U [2327, 2351, 2375], A '' '', U [2346, 2361, 2330, 2366, 2344],
      A '' '', U [2358, 2348, 2381, 2342], A ''/'', U [2309, 2325, 2381, 2359, 2352], A '' '',
      U [2350, 2367, 2354, 2340, 2375], A '' '', U [2344, 2361, 2368], A '' '', U [2361, 2376],
      A '' !'']],
     Msg [Rel (- 37)] [A ''Wallet unlock failed''] False False [[U [2357, 2377, 2354, 2375, 2335],
      A '' '', U [2325, 2366], A '' '', U [2354, 2377, 2325], A '' '', U [2344, 2361, 2368],
      A '' '', U [2326, 2369, 2354, 2366], A '' !'']],
     Msg [Rel 1, Rel 11,
      Rel 19] [A ''The passphrase entered for the wallet decryption was incorrect.''] False False [[U [2357,
      2377, 2354, 2375, 2335], A '' '', U [2337, 2368, 2325, 2381, 2352, 2367, 2346, 2381, 2335],
      A '' '', U [2325, 2352, 2344, 2375], A '' '', U [2325, 2375], A '' '', U [2354, 2367, 2319],
      A '' '', U [2332, 2379], A '' '', U [2346, 2361, 2330, 2366, 2344], A '' '', U [2358, 2348,
      2381, 2342], A ''/'', U [2309, 2325, 2381, 2359, 2352], A '' '', U [2337, 2366, 2354, 2375],
      A '' '', U [2327, 2351, 2375], A '' '', U [2361, 2376], A '' '', U [2357, 2379], A '' '',
      U [2360, 2361, 2368], A '' '', U [2344, 2361, 2368], A '' '', U [2361, 2376], A ''!'']],
     Msg [Rel (- 20)] [A ''Wallet decryption failed''] False False [[U [2357, 2377, 2354, 2375,
      2335], A '' '', U [2325, 2366], A '' '', U [2337, 2368, 2325, 2381, 2352, 2367, 2346, 2381,
      2335], A ''-'', U [2359, 2381, 2339], A '' '', U [2309, 2360, 2347, 2354], A '' !'']],
     Msg [Rel 14] [A ''Wallet passphrase was successfully changed.''] True False [[]]
    ]"

lemma hi_IN_AskPassphraseDialog_1_ok: "list_all same_markers hi_IN_AskPassphraseDialog_1"
  unfolding hi_IN_AskPassphraseDialog_1_def by (simp add: catalogue_eval cong: eval_congs)

lemma hi_IN_AskPassphraseDialog_1_forms: "list_all (forms_ok 2) hi_IN_AskPassphraseDialog_1"
  unfolding hi_IN_AskPassphraseDialog_1_def by (simp add: forms_ok_def cong: form_congs)

definition hi_IN_AskPassphraseDialog :: context_messages where
  "hi_IN_AskPassphraseDialog = (''AskPassphraseDialog'', hi_IN_AskPassphraseDialog_1)"

lemma hi_IN_AskPassphraseDialog_ok: "context_ok 2 hi_IN_AskPassphraseDialog"
  unfolding hi_IN_AskPassphraseDialog_def by (simp add: context_ok_def
    hi_IN_AskPassphraseDialog_1_ok hi_IN_AskPassphraseDialog_1_forms)

definition hi_IN_BlazecoinGUI_1 :: "message list" where
  "hi_IN_BlazecoinGUI_1 =
    [
     Msg [At ''../blazecoingui.cpp'' 233] [A ''Sign &message...''] True False [[]],
     Msg [Rel 280] [A ''Synchronizing with network...''] False False [[U [2344, 2375, 2335, 2357,
      2352, 2381, 2325], A '' '', U [2360, 2375], A '' '', U [2360, 2350, 2325, 2366, 2354, 2367,
      2325], A '' ('', U [2350, 2367, 2354], A '') '', U [2352, 2361, 2366], A '' '', U [2361,
      2376], A '' ...'']],
     Msg [Rel (- 349)] [A ''&Overview''] False False [[A ''&'', U [2357, 2367, 2357, 2352, 2339]]],
     Msg [Rel 1] [A ''Show general overview of wallet''] False False [[U [2357, 2377, 2354, 2375,
      2335], A '' '', U [2325, 2366], A '' '', U [2360, 2366, 2350, 2366, 2344, 2351, 2366],
      A '' '', U [2357, 2367, 2357, 2352, 2339], A '' '', U [2342, 2367, 2326, 2366, 2319],
      A '' !'']],
     Msg [Rel 20] [A ''&Transactions''] False False [[A ''& '', U [2354, 2375, 2344], A ''-'',
      U [2342, 2375, 2344], C (CHR 0x0A)]],
     Msg [Rel 1] [A ''Browse transaction history''] False False [[U [2342, 2375, 2326, 2367, 2319],
      A '' '', U [2346, 2369, 2352, 2366, 2344, 2375], A '' '', U [2354, 2375, 2344], A ''-'',
      U [2342, 2375, 2344], A '' '', U [2325, 2375], A '' '', U [2357, 2367, 2357, 2352, 2339],
      A '' !'']],
     Msg [Rel 7] [A ''Edit the list of stored addresses and labels''] False False [[U [2360, 2381,
      2335, 2379, 2352], A '' '', U [2325, 2367, 2319], A '' '', U [2361, 2369, 2319], A '' '',
      U [2346, 2340, 2375], A '' '', U [2324, 2352], A '' '', U [2354, 2375, 2348, 2354, 2323],
      A '' '', U [2325, 2379], A '' '', U [2348, 2342, 2354, 2367, 2319], A '' !'']],
     Msg [Rel (- 14)] [A ''Show the list of addresses for receiving payments''] False False [[U [2346,
      2340, 2375], A '' '', U [2325, 2368], A '' '', U [2360, 2370, 2330, 2368], A '' '', U [2342,
      2367, 2326, 2366, 2319], A '' '', U [2332, 2367, 2344, 2381, 2361, 2375], A '' '', U [2349,
      2369, 2327, 2340, 2366, 2344], A '' '', U [2325, 2352, 2344, 2366], A '' '', U [2361, 2376],
      A '' !'']],
     Msg [Rel 31] [A ''E&xit''] False False [[U [2348, 2366, 2361, 2352], A '' '', U [2332, 2366,
      2351, 2375, 2306]]],
     Msg [Rel 1] [A ''Quit application''] False False [[U [2309, 2346, 2381, 2354, 2367, 2325,
      2375, 2358, 2344], A '' '', U [2360, 2375], A '' '', U [2348, 2366, 2361, 2352], A '' '',
      U [2344, 2367, 2325, 2354, 2344, 2366], A '' !'']],
     Msg [Rel 4] [A ''Show information about Blazecoin''] False False [[U [2348, 2368, 2335, 2325,
      2379, 2311, 2344], A '' '', U [2325, 2375], A '' '', U [2348, 2366, 2352, 2375], A '' '',
      U [2350, 2375, 2306], A '' '', U [2332, 2366, 2344, 2325, 2366, 2352, 2368], A '' !'']],
     Msg [Rel 2] [A ''About &Qt''] True False [[]],
     Msg [Rel 1] [A ''Show information about Qt''] True False [[]],
     Msg [Rel 2] [A ''&Options...''] False False [[A ''&'', U [2357, 2367, 2325, 2354, 2381,
      2346]]],
     Msg [Rel 6] [A ''&Encrypt Wallet...''] True False [[]],
     Msg [Rel 3] [A ''&Backup Wallet...''] False False [[A ''&'', U [2348, 2376, 2325, 2346],
      A '' '', U [2357, 2377, 2354, 2375, 2335]]],
     Msg [Rel 2] [A ''&Change Passphrase...''] True False [[]],
     Msg [Rel 285] [A ''Importing blocks from disk...''] True False [[]],
     Msg [Rel 3] [A ''Reindexing blocks on disk...''] True False [[]],
     Msg [Rel (- 347)] [A ''Send coins to a Blazecoin address''] True False [[]],
     Msg [Rel 49] [A ''Modify configuration options for Blazecoin''] True False [[]],
     Msg [Rel 9] [A ''Backup wallet to another location''] True False [[]],
     Msg [Rel 2] [A ''Change the passphrase used for wallet encryption''] False False [[U [2346,
      2361, 2330, 2366, 2344], A '' '', U [2358, 2348, 2381, 2342], A ''/'', U [2309, 2325, 2381,
      2359, 2352], A '' '', U [2332, 2379], A '' '', U [2357, 2377, 2354, 2375, 2335], A '' '',
      U [2319, 2344, 2325, 2381, 2352, 2367, 2346, 2358, 2344], A '' '', U [2325, 2375], A '' '',
      U [2354, 2367, 2319], A '' '', U [2311, 2360, 2381, 2340, 2375, 2350, 2366, 2354], A '' '',
      U [2325, 2367, 2351, 2366], A '' '', U [2361, 2376], A '' '', U [2313, 2360, 2375], A '' '',
      U [2348, 2342, 2354, 2367, 2319], A ''!'']],
     Msg [Rel 6] [A ''&Debug window''] True False [[]],
     Msg [Rel 1] [A ''Open debugging and diagnostic console''] True False [[]],
     Msg [Rel (- 4)] [A ''&Verify message...''] True False [[]],
     Msg [Rel (- 165), Rel 530] [A ''Blazecoin''] False False [[U [2348, 2368, 2335, 2325, 2379,
      2311, 2344]]],
     Msg [Rel (- 530)] [A ''Wallet''] False False [[U [2357, 2377, 2354, 2375, 2335]]]
    ]"

lemma hi_IN_BlazecoinGUI_1_ok: "list_all same_markers hi_IN_BlazecoinGUI_1"
  unfolding hi_IN_BlazecoinGUI_1_def by (simp add: catalogue_eval cong: eval_congs)

lemma hi_IN_BlazecoinGUI_1_forms: "list_all (forms_ok 2) hi_IN_BlazecoinGUI_1"
  unfolding hi_IN_BlazecoinGUI_1_def by (simp add: forms_ok_def cong: form_congs)

definition hi_IN_BlazecoinGUI_2 :: "message list" where
  "hi_IN_BlazecoinGUI_2 =
    [
     Msg [Rel 101] [A ''&Send''] True False [[]],
     Msg [Rel 7] [A ''&Receive''] True False [[]],
     Msg [Rel 14] [A ''&Addresses''] True False [[]],
     Msg [Rel 22] [A ''&About Blazecoin''] True False [[]],
     Msg [Rel 9] [A ''&Show / Hide''] True False [[]],
     Msg [Rel 1] [A ''Show or hide the main Window''] True False [[]],
     Msg [Rel 3] [A ''Encrypt the private keys that belong to your wallet''] True False [[]],
     Msg [Rel 7] [A ''Sign messages with your Blazecoin addresses to prove you own them''] True False [[]],
     Msg [Rel 2] [A ''Verify messages to ensure they were signed with specified Blazecoin addresses''] True False [[]],
     Msg [Rel 28] [A ''&File''] False False [[A ''&'', U [2347, 2366, 2311, 2354]]],
     Msg [Rel 7] [A ''&Settings''] False False [[A ''&'', U [2360, 2375, 2335, 2381, 2335, 2367,
      2306, 2327, 2381, 2360]]],
     Msg [Rel 6] [A ''&Help''] False False [[A ''&'', U [2350, 2342, 2342]]],
     Msg [Rel 9] [A ''Tabs toolbar''] False False [[U [2335, 2376, 2348, 2360], A '' '', U [2335,
      2370, 2354, 2348, 2366, 2352]]],
     Msg [Rel 17, Rel 10] [A ''[testnet]''] False False [[A ''['', U [2335, 2375, 2360, 2381, 2335,
      2344, 2375, 2335], A '']'']],
     Msg [Rel 47] [A ''Blazecoin client''] True False [[]],
     Msg [Rel 141] [A ''%n active connection(s) to Blazecoin network''] False True [[A ''%n '',
      U [2360, 2325, 2381, 2352, 2367, 2351, 2366], A '' '', U [2360, 2306, 2346, 2352, 2381,
      2325], A '' '', U [2348, 2368, 2335, 2325, 2379, 2311, 2344], A '' '', U [2344, 2375, 2335,
      2357, 2352, 2381, 2325], A '' '', U [2360, 2375]], [A ''%n '', U [2360, 2325, 2381, 2352,
      2367, 2351, 2366], A '' '', U [2360, 2306, 2346, 2352, 2381, 2325], A '' '', U [2348, 2368,
      2335, 2325, 2379, 2311, 2344], A '' '', U [2344, 2375, 2335, 2357, 2352, 2381, 2325],
      A '' '', U [2360, 2375]]],
     Msg [Rel 22] [A ''No block source available...''] True False [[]],
     Msg [Rel 12] [A ''Processed %1 of %2 (estimated) blocks of transaction history.''] True False [[]],
     Msg [Rel 4] [A ''Processed %1 blocks of transaction history.''] True False [[]],
     Msg [Rel 20] [A ''%n hour(s)''] False True [[A ''%n '', U [2328, 2306, 2335, 2366]],
      [A ''%n '', U [2328, 2306, 2335, 2375]]],
     Msg [Rel 4] [A ''%n day(s)''] False True [[A ''%n '', U [2342, 2367, 2344]], [A ''%n '',
      U [2342, 2367, 2344, 2379]]],
     Msg [Rel 4] [A ''%n week(s)''] False True [[A ''%n '', U [2361, 2347, 2364, 2381, 2340,
      2366]], [A ''%n '', U [2361, 2347, 2381, 2340, 2375]]],
     Msg [Rel 4] [A ''%1 behind''] False False [[A ''%1 '', U [2346, 2368, 2331, 2375]]],
     Msg [Rel 14] [A ''Last received block was generated %1 ago.''] True False [[]],
     Msg [Rel 2] [A ''Transactions after this will not yet be visible.''] True False [[]],
     Msg [Rel 22] [A ''Error''] False False [[U [2349, 2370, 2354]]],
     Msg [Rel 3] [A ''Warning''] False False [[U [2330, 2375, 2340, 2366, 2357, 2344, 2368]]],
     Msg [Rel 3] [A ''Information''] False False [[U [2332, 2366, 2344, 2325, 2366, 2352, 2368]]]
    ]"

lemma hi_IN_BlazecoinGUI_2_ok: "list_all same_markers hi_IN_BlazecoinGUI_2"
  unfolding hi_IN_BlazecoinGUI_2_def by (simp add: catalogue_eval cong: eval_congs)

lemma hi_IN_BlazecoinGUI_2_forms: "list_all (forms_ok 2) hi_IN_BlazecoinGUI_2"
  unfolding hi_IN_BlazecoinGUI_2_def by (simp add: forms_ok_def cong: form_congs)

definition hi_IN_BlazecoinGUI_3 :: "message list" where
  "hi_IN_BlazecoinGUI_3 =
    [
     Msg [Rel 70] [A ''This transaction is over the size limit. You can still send it for a fee of %1, which goes to the nodes that process your transaction and helps to support the network. Do you want to pay the fee?''] True False [[]],
     Msg [Rel (- 140)] [A ''Up to date''] False False [[U [2344, 2357, 2368, 2344, 2340, 2350]]],
     Msg [Rel 31] [A ''Catching up...''] True False [[]],
     Msg [Rel 113] [A ''Confirm transaction fee''] True False [[]],
     Msg [Rel 8] [A ''Sent transaction''] False False [[U [2349, 2375, 2332, 2368], A '' '',
      U [2335, 2381, 2352, 2366, 2306, 2332, 2325, 2381, 2358, 2344]]],
     Msg [Rel 0] [A ''Incoming transaction''] False False [[U [2346, 2381, 2352, 2366, 2346, 2381,
      2340], A '' '', U [2361, 2369, 2312], A '' '', U [2335, 2381, 2352, 2366, 2306, 2332, 2325,
      2381, 2358, 2344]]],
     Msg [Rel 1] [A ''Date: %1'', C (CHR 0x0A), A ''Amount: %2'', C (CHR 0x0A), A ''Type: %3'',
      C (CHR 0x0A), A ''Address: %4'', C (CHR 0x0A)] False False [[U [2340, 2366, 2352, 2368,
      2326], A '': %1'', C (CHR 0x5C), A ''n'', C (CHR 0x0A), U [2352, 2366, 2358, 2367],
      A '': %2'', C (CHR 0x5C), A ''n'', C (CHR 0x0A), U [2335, 2366, 2311, 2346], A '': %3'',
      C (CHR 0x5C), A ''n'', C (CHR 0x0A), U [2346, 2340, 2366], A '':%4'', C (CHR 0x5C), A ''n'']],
     Msg [Rel 33, Rel 23] [A ''URI handling''] True False [[]],
     Msg [Rel (- 23),
      Rel 23] [A ''URI can not be parsed! This can be caused by an invalid Blazecoin address or malformed URI parameters.''] True False [[]],
     Msg [Rel 17] [A ''Wallet is <b>encrypted</b> and currently <b>unlocked</b>''] False False [[U [2357,
      2377, 2354, 2375, 2335], A '' '', U [2319, 2344, 2381, 2325, 2381, 2352, 2367, 2346, 2381,
      2335, 2375, 2337], A '' '', U [2361, 2376], A '' '', U [2340, 2341, 2366], A '' '', U [2309,
      2349, 2368], A '' '', U [2354, 2377, 2325, 2381, 2337], A '' '', U [2344, 2361, 2368, 2306],
      A '' '', U [2361, 2376]]],
     Msg [Rel 8] [A ''Wallet is <b>encrypted</b> and currently <b>locked</b>''] False False [[U [2357,
      2377, 2354, 2375, 2335], A '' '', U [2319, 2344, 2381, 2325, 2381, 2352, 2367, 2346, 2381,
      2335, 2375, 2337], A '' '', U [2361, 2376], A '' '', U [2340, 2341, 2366], A '' '', U [2309,
      2349, 2368], A '' '', U [2354, 2377, 2325, 2381, 2337], A '' '', U [2361, 2376]]],
     Msg [At ''../blazecoin.cpp'' 111] [A ''A fatal error occurred. Blazecoin can no longer continue safely and will quit.''] True False [[]]
    ]"

lemma hi_IN_BlazecoinGUI_3_ok: "list_all same_markers hi_IN_BlazecoinGUI_3"
  unfolding hi_IN_BlazecoinGUI_3_def by (simp add: catalogue_eval cong: eval_congs)

lemma hi_IN_BlazecoinGUI_3_forms: "list_all (forms_ok 2) hi_IN_BlazecoinGUI_3"
  unfolding hi_IN_BlazecoinGUI_3_def by (simp add: forms_ok_def cong: form_congs)

definition hi_IN_BlazecoinGUI :: context_messages where
  "hi_IN_BlazecoinGUI = (''BlazecoinGUI'', hi_IN_BlazecoinGUI_1 @ hi_IN_BlazecoinGUI_2 @ hi_IN_BlazecoinGUI_3)"

lemma hi_IN_BlazecoinGUI_ok: "context_ok 2 hi_IN_BlazecoinGUI"
  unfolding hi_IN_BlazecoinGUI_def by (simp add: context_ok_def hi_IN_BlazecoinGUI_1_ok
    hi_IN_BlazecoinGUI_1_forms hi_IN_BlazecoinGUI_2_ok hi_IN_BlazecoinGUI_2_forms
    hi_IN_BlazecoinGUI_3_ok hi_IN_BlazecoinGUI_3_forms)

definition hi_IN_ClientModel_1 :: "message list" where
  "hi_IN_ClientModel_1 =
    [
     Msg [At ''../clientmodel.cpp'' 104] [A ''Network Alert''] True False [[]]
    ]"

lemma hi_IN_ClientModel_1_ok: "list_all same_markers hi_IN_ClientModel_1"
  unfolding hi_IN_ClientModel_1_def by (simp add: catalogue_eval cong: eval_congs)

lemma hi_IN_ClientModel_1_forms: "list_all (forms_ok 2) hi_IN_ClientModel_1"
  unfolding hi_IN_ClientModel_1_def by (simp add: forms_ok_def cong: form_congs)

definition hi_IN_ClientModel :: context_messages where
  "hi_IN_ClientModel = (''ClientModel'', hi_IN_ClientModel_1)"

lemma hi_IN_ClientModel_ok: "context_ok 2 hi_IN_ClientModel"
  unfolding hi_IN_ClientModel_def by (simp add: context_ok_def hi_IN_ClientModel_1_ok
    hi_IN_ClientModel_1_forms)

definition hi_IN_EditAddressDialog_1 :: "message list" where
  "hi_IN_EditAddressDialog_1 =
    [
     Msg [At ''../forms/editaddressdialog.ui'' 14] [A ''Edit Address''] False False [[U [2346,
      2340, 2366], A '' '', U [2319, 2337, 2367, 2335], A '' '', U [2325, 2352, 2344, 2366]]],
     Msg [Rel 11] [A ''&Label''] False False [[A ''&'', U [2354, 2375, 2348, 2354]]],
     Msg [Rel 10] [A ''The label associated with this address book entry''] False False [[U [2311,
      2360], A '' '', U [2319, 2337, 2381, 2352, 2375, 2360], A '' '', U [2348, 2369, 2325],
      A '' '', U [2360, 2375], A '' '', U [2332, 2369, 2396, 2366], A '' '', U [2319, 2337, 2381,
      2352, 2375, 2360]]],
     Msg [Rel 7] [A ''&Address''] False False [[A ''&'', U [2346, 2340, 2366]]],
     Msg [Rel 10] [A ''The address associated with this address book entry. This can only be modified for sending addresses.''] False False [[U [2311,
      2360], A '' '', U [2319, 2337, 2381, 2352, 2375, 2360], A '' '', U [2348, 2369, 2325],
      A '' '', U [2360, 2375], A '' '', U [2332, 2369, 2396, 2368], A '' '', U [2346, 2381, 2352,
      2357, 2367, 2359, 2381, 2335, 2367], A '' '', U [2325, 2375, 2357, 2354], A '' '', U [2349,
      2375, 2332, 2344, 2375], A '' '', U [2357, 2366, 2354, 2375], A '' addresses '', U [2325,
      2375], A '' '', U [2354, 2367, 2319], A '' '', U [2348, 2342, 2354, 2368], A '' '', U [2332,
      2366], A '' '', U [2360, 2325, 2340, 2368], A '' '', U [2361, 2376], A ''|'']],
     Msg [At ''../editaddressdialog.cpp'' 21] [A ''New receiving address''] False False [[U [2344,
      2351, 2366], A '' '', U [2360, 2381, 2357, 2368, 2325, 2366, 2352, 2381, 2351], A '' '',
      U [2346, 2340, 2366]]],
     Msg [Rel 4] [A ''New sending address''] False False [[U [2344, 2351, 2366], A '' '', U [2349,
      2375, 2332, 2344, 2375], A '' '', U [2357, 2366, 2354, 2366], A '' '', U [2346, 2340, 2366]]],
     Msg [Rel 3] [A ''Edit receiving address''] False False [[U [2319, 2337, 2367, 2335], A '' '',
      U [2360, 2381, 2357, 2368, 2325, 2366, 2352, 2381, 2351], A '' '', U [2346, 2340, 2366],
      A '' '']],
     Msg [Rel 4] [A ''Edit sending address''] False False [[U [2319, 2337, 2367, 2335], A '' '',
      U [2349, 2375, 2332, 2344, 2375], A '' '', U [2357, 2366, 2354, 2366], A '' '', U [2346,
      2340, 2366]]],
     Msg [Rel 76] [A ''The entered address '', C (CHR 0x22), A ''%1'', C (CHR 0x22),
      A '' is already in the address book.''] False False [[U [2337, 2366, 2354, 2366], A '' '',
      U [2327, 2351, 2366], A '' '', U [2346, 2340, 2366], A '' '', C (CHR 0x22), A ''%1'',
      C (CHR 0x22), A '' '', U [2319, 2337, 2381, 2352, 2375, 2360], A '' '', U [2348, 2369, 2325],
      A '' '', U [2350, 2375, 2306], A '' '', U [2346, 2361, 2354, 2375], A '' '', U [2360, 2375],
      A '' '', U [2361, 2368], A '' '', U [2350, 2379, 2332, 2370, 2342], A '' '', U [2361, 2376],
      A ''|'']],
     Msg [Rel (- 5)] [A ''The entered address '', C (CHR 0x22), A ''%1'', C (CHR 0x22),
      A '' is not a valid Blazecoin address.''] True False [[]],
     Msg [Rel 10] [A ''Could not unlock wallet.''] False False [[U [2357, 2377, 2354, 2375, 2335],
      A '' '', U [2325, 2379], A '' unlock '', U [2344, 2361, 2368, 2306], A '' '', U [2325, 2367,
      2351, 2366], A '' '', U [2332, 2366], A '' '', U [2360, 2325, 2340, 2366], A ''|'']],
     Msg [Rel 5] [A ''New key generation failed.''] False False [[U [2344, 2351, 2368], A '' '',
      U [2325, 2369, 2306, 2332, 2368], A '' '', U [2325, 2366], A '' '', U [2344, 2367, 2352,
      2381, 2350, 2366, 2339], A '' '', U [2309, 2360, 2347, 2354], A '' '', U [2352, 2361, 2366],
      A ''|'']]
    ]"

lemma hi_IN_EditAddressDialog_1_ok: "list_all same_markers hi_IN_EditAddressDialog_1"
  unfolding hi_IN_EditAddressDialog_1_def by (simp add: catalogue_eval cong: eval_congs)

lemma hi_IN_EditAddressDialog_1_forms: "list_all (forms_ok 2) hi_IN_EditAddressDialog_1"
  unfolding hi_IN_EditAddressDialog_1_def by (simp add: forms_ok_def cong: form_congs)

definition hi_IN_EditAddressDialog :: context_messages where
  "hi_IN_EditAddressDialog = (''EditAddressDialog'', hi_IN_EditAddressDialog_1)"

lemma hi_IN_EditAddressDialog_ok: "context_ok 2 hi_IN_EditAddressDialog"
  unfolding hi_IN_EditAddressDialog_def by (simp add: context_ok_def hi_IN_EditAddressDialog_1_ok
    hi_IN_EditAddressDialog_1_forms)

definition hi_IN_GUIUtil_HelpMessageBox_1 :: "message list" where
  "hi_IN_GUIUtil_HelpMessageBox_1 =
    [
     Msg [At ''../guiutil.cpp'' 424, Rel 12] [A ''Blazecoin-Qt''] False False [[U [2348, 2368,
      2335, 2325, 2379, 2311, 2344], A ''-Qt'']],
     Msg [Rel (- 12)] [A ''version''] False False [[U [2360, 2306, 2360, 2381, 2325, 2352, 2339]]],
     Msg [Rel 2] [A ''Usage:''] False False [[U [2326, 2346, 2340], A '' :'']],
     Msg [Rel 1] [A ''command-line options''] True False [[]],
     Msg [Rel 4] [A ''UI options''] True False [[]],
     Msg [Rel 1] [A ''Set language, for example '', C (CHR 0x22), A ''de_DE'', C (CHR 0x22),
      A '' (default: system locale)''] True False [[]],
     Msg [Rel 1] [A ''Start minimized''] True False [[]],
     Msg [Rel 1] [A ''Show splash screen on startup (default: 1)''] True False [[]]
    ]"

lemma hi_IN_GUIUtil_HelpMessageBox_1_ok: "list_all same_markers hi_IN_GUIUtil_HelpMessageBox_1"
  unfolding hi_IN_GUIUtil_HelpMessageBox_1_def by (simp add: catalogue_eval cong: eval_congs)

lemma hi_IN_GUIUtil_HelpMessageBox_1_forms: "list_all (forms_ok 2) hi_IN_GUIUtil_HelpMessageBox_1"
  unfolding hi_IN_GUIUtil_HelpMessageBox_1_def by (simp add: forms_ok_def cong: form_congs)

definition hi_IN_GUIUtil_HelpMessageBox :: context_messages where
  "hi_IN_GUIUtil_HelpMessageBox = (''GUIUtil::HelpMessageBox'', hi_IN_GUIUtil_HelpMessageBox_1)"

lemma hi_IN_GUIUtil_HelpMessageBox_ok: "context_ok 2 hi_IN_GUIUtil_HelpMessageBox"
  unfolding hi_IN_GUIUtil_HelpMessageBox_def by (simp add: context_ok_def
    hi_IN_GUIUtil_HelpMessageBox_1_ok hi_IN_GUIUtil_HelpMessageBox_1_forms)

definition hi_IN_OptionsDialog_1 :: "message list" where
  "hi_IN_OptionsDialog_1 =
    [
     Msg [At ''../forms/optionsdialog.ui'' 14] [A ''Options''] False False [[U [2357, 2367, 2325,
      2354, 2381, 2346]]],
     Msg [Rel 16] [A ''&Main''] True False [[]],
     Msg [Rel 6] [A ''Optional transaction fee per kB that helps make sure your transactions are processed quickly. Most transactions are 1 kB.''] True False [[]],
     Msg [Rel 15] [A ''Pay transaction &fee''] True False [[]],
     Msg [Rel 31] [A ''Automatically start Blazecoin after logging in to the system.''] True False [[]],
     Msg [Rel 3] [A ''&Start Blazecoin on system login''] True False [[]],
     Msg [Rel 35] [A ''Reset all client options to default.''] True False [[]],
     Msg [Rel 3] [A ''&Reset Options''] True False [[]],
     Msg [Rel 13] [A ''&Network''] True False [[]],
     Msg [Rel 6] [A ''Automatically open the Blazecoin client port on the router. This only works when your router supports UPnP and it is enabled.''] True False [[]],
     Msg [Rel 3] [A ''Map port using &UPnP''] True False [[]],
     Msg [Rel 7] [A ''Connect to the Blazecoin network through a SOCKS proxy (e.g. when connecting through Tor).''] True False [[]],
     Msg [Rel 3] [A ''&Connect through SOCKS proxy:''] True False [[]],
     Msg [Rel 9] [A ''Proxy &IP:''] True False [[]],
     Msg [Rel 19] [A ''IP address of the proxy (e.g. 127.0.0.1)''] True False [[]],
     Msg [Rel 7] [A ''&Port:''] True False [[]],
     Msg [Rel 19] [A ''Port of the proxy (e.g. 9050)''] True False [[]],
     Msg [Rel 7] [A ''SOCKS &Version:''] True False [[]],
     Msg [Rel 13] [A ''SOCKS version of the proxy (e.g. 5)''] True False [[]],
     Msg [Rel 36] [A ''&Window''] True False [[]],
     Msg [Rel 6] [A ''Show only a tray icon after minimizing the window.''] True False [[]],
     Msg [Rel 3] [A ''&Minimize to the tray instead of the taskbar''] True False [[]],
     Msg [Rel 7] [A ''Minimize instead of exit the application when the window is closed. When this option is enabled, the application will be closed only after selecting Quit in the menu.''] True False [[]],
     Msg [Rel 3] [A ''M&inimize on close''] True False [[]],
     Msg [Rel 21] [A ''&Display''] True False [[]],
     Msg [Rel 8] [A ''User Interface &language:''] True False [[]],
     Msg [Rel 13] [A ''The user interface language can be set here. This setting will take effect after restarting Blazecoin.''] True False [[]],
     Msg [Rel 11] [A ''&Unit to show amounts in:''] True False [[]],
     Msg [Rel 13] [A ''Choose the default subdivision unit to show in the interface and when sending coins.''] True False [[]]
    ]"

lemma hi_IN_OptionsDialog_1_ok: "list_all same_markers hi_IN_OptionsDialog_1"
  unfolding hi_IN_OptionsDialog_1_def by (simp add: catalogue_eval cong: eval_congs)

lemma hi_IN_OptionsDialog_1_forms: "list_all (forms_ok 2) hi_IN_OptionsDialog_1"
  unfolding hi_IN_OptionsDialog_1_def by (simp add: forms_ok_def cong: form_congs)

definition hi_IN_OptionsDialog_2 :: "message list" where
  "hi_IN_OptionsDialog_2 =
    [
     Msg [Rel 9] [A ''Whether to show Blazecoin addresses in the transaction list or not.''] True False [[]],
     Msg [Rel 3] [A ''&Display addresses in transaction list''] True False [[]],
     Msg [Rel 71] [A ''&OK''] False False [[A ''&'', U [2323, 2325, 2375]]],
     Msg [Rel 7] [A ''&Cancel''] False False [[A ''&'', U [2325, 2376, 2344, 2381, 2360, 2354]]],
     Msg [Rel 10] [A ''&Apply''] True False [[]],
     Msg [At ''../optionsdialog.cpp'' 53] [A ''default''] True False [[]],
     Msg [Rel 130] [A ''Confirm options reset''] True False [[]],
     Msg [Rel 1] [A ''Some settings may require a client restart to take effect.''] True False [[]],
     Msg [Rel 0] [A ''Do you want to proceed?''] True False [[]],
     Msg [Rel 42, Rel 9] [A ''Warning''] False False [[U [2330, 2375, 2340, 2366, 2357, 2344,
      2368]]],
     Msg [Rel (- 9),
      Rel 9] [A ''This setting will take effect after restarting Blazecoin.''] True False [[]],
     Msg [Rel 29] [A ''The supplied proxy address is invalid.''] True False [[]]
    ]"

lemma hi_IN_OptionsDialog_2_ok: "list_all same_markers hi_IN_OptionsDialog_2"
  unfolding hi_IN_OptionsDialog_2_def by (simp add: catalogue_eval cong: eval_congs)

lemma hi_IN_OptionsDialog_2_forms: "list_all (forms_ok 2) hi_IN_OptionsDialog_2"
  unfolding hi_IN_OptionsDialog_2_def by (simp add: forms_ok_def cong: form_congs)

definition hi_IN_OptionsDialog :: context_messages where
  "hi_IN_OptionsDialog = (''OptionsDialog'', hi_IN_OptionsDialog_1 @ hi_IN_OptionsDialog_2)"

lemma hi_IN_OptionsDialog_ok: "context_ok 2 hi_IN_OptionsDialog"
  unfolding hi_IN_OptionsDialog_def by (simp add: context_ok_def hi_IN_OptionsDialog_1_ok
    hi_IN_OptionsDialog_1_forms hi_IN_OptionsDialog_2_ok hi_IN_OptionsDialog_2_forms)

definition hi_IN_OverviewPage_1 :: "message list" where
  "hi_IN_OverviewPage_1 =
    [
     Msg [At ''../forms/overviewpage.ui'' 14] [A ''Form''] False False [[U [2347, 2366, 2352, 2381,
      2350]]],
     Msg [Rel 50,
      Rel 166] [A ''The displayed information may be out of date. Your wallet automatically synchronizes with the Blazecoin network after a connection is established, but this process has not completed yet.''] True False [[]],
     Msg [Rel (- 124)] [A ''Balance:''] False False [[U [2348, 2366, 2325, 2368], A '' '', U [2352,
      2325, 2350], A '' :'']],
     Msg [Rel 29] [A ''Unconfirmed:''] False False [[U [2309, 2346, 2369, 2359, 2381, 2335],
      A '' :'']],
     Msg [Rel (- 78)] [A ''Wallet''] False False [[U [2357, 2377, 2354, 2375, 2335]]],
     Msg [Rel 107] [A ''Immature:''] True False [[]],
     Msg [Rel 13] [A ''Mined balance that has not yet matured''] True False [[]],
     Msg [Rel 46] [A ''<b>Recent transactions</b>''] False False [[A ''<b>'', U [2361, 2366, 2354],
      A '' '', U [2325, 2366], A '' '', U [2354, 2375, 2344], A ''-'', U [2342, 2375, 2344],
      A ''</b>'']],
     Msg [Rel (- 101)] [A ''Your current balance''] False False [[U [2310, 2346, 2325, 2366],
      A '' '', U [2330, 2366, 2354, 2370], A '' '', U [2348, 2373, 2354, 2375, 2344, 2381, 2360]]],
     Msg [Rel 29] [A ''Total of transactions that have yet to be confirmed, and do not yet count toward the current balance''] False False [[U [2354,
      2375, 2344], A '' '', U [2342, 2375, 2344], A '' '', U [2325, 2368], A '' '', U [2346, 2369,
      2359, 2381, 2335, 2367], A '' '', U [2309, 2349, 2368], A '' '', U [2344, 2361, 2368, 2306],
      A '' '', U [2361, 2369, 2312], A '' '', U [2361, 2376], A '', '', U [2311, 2360, 2354, 2367,
      2319], A '' '', U [2311, 2344, 2381, 2361, 2375, 2306], A '' '', U [2309, 2349, 2368],
      A '' '', U [2350, 2379, 2332, 2369, 2342, 2366], A '' '', U [2348, 2376, 2354, 2375, 2306,
      2360], A '' '', U [2350, 2375, 2306], A '' '', U [2327, 2367, 2344, 2366], A '' '', U [2344,
      2361, 2368, 2306], A '' '', U [2327, 2351, 2366], A '' '', U [2361, 2376], A ''|'']],
     Msg [At ''../overviewpage.cpp'' 116, Rel 1] [A ''out of sync''] True False [[]]
    ]"

lemma hi_IN_OverviewPage_1_ok: "list_all same_markers hi_IN_OverviewPage_1"
  unfolding hi_IN_OverviewPage_1_def by (simp add: catalogue_eval cong: eval_congs)

lemma hi_IN_OverviewPage_1_forms: "list_all (forms_ok 2) hi_IN_OverviewPage_1"
  unfolding hi_IN_OverviewPage_1_def by (simp add: forms_ok_def cong: form_congs)

definition hi_IN_OverviewPage :: context_messages where
  "hi_IN_OverviewPage = (''OverviewPage'', hi_IN_OverviewPage_1)"

lemma hi_IN_OverviewPage_ok: "context_ok 2 hi_IN_OverviewPage"
  unfolding hi_IN_OverviewPage_def by (simp add: context_ok_def hi_IN_OverviewPage_1_ok
    hi_IN_OverviewPage_1_forms)

definition hi_IN_PaymentServer_1 :: "message list" where
  "hi_IN_PaymentServer_1 =
    [
     Msg [At ''../paymentserver.cpp'' 107] [A ''Cannot start blazecoin: click-to-pay handler''] True False [[]]
    ]"

lemma hi_IN_PaymentServer_1_ok: "list_all same_markers hi_IN_PaymentServer_1"
  unfolding hi_IN_PaymentServer_1_def by (simp add: catalogue_eval cong: eval_congs)

lemma hi_IN_PaymentServer_1_forms: "list_all (forms_ok 2) hi_IN_PaymentServer_1"
  unfolding hi_IN_PaymentServer_1_def by (simp add: forms_ok_def cong: form_congs)

definition hi_IN_PaymentServer :: context_messages where
  "hi_IN_PaymentServer = (''PaymentServer'', hi_IN_PaymentServer_1)"

lemma hi_IN_PaymentServer_ok: "context_ok 2 hi_IN_PaymentServer"
  unfolding hi_IN_PaymentServer_def by (simp add: context_ok_def hi_IN_PaymentServer_1_ok
    hi_IN_PaymentServer_1_forms)

definition hi_IN_QRCodeDialog_1 :: "message list" where
  "hi_IN_QRCodeDialog_1 =
    [
     Msg [At ''../forms/qrcodedialog.ui'' 14] [A ''QR Code Dialog''] True False [[]],
     Msg [Rel 59] [A ''Request Payment''] False False [[U [2349, 2369, 2327, 2340, 2366, 2344],
      A '' '', U [2325, 2366], A '' '', U [2309, 2344, 2369, 2352, 2379, 2343]]],
     Msg [Rel 56] [A ''Amount:''] False False [[U [2352, 2366, 2358, 2367], A '' :'']],
     Msg [Rel (- 44)] [A ''Label:''] False False [[U [2354, 2375, 2348, 2354], A '' :'']],
     Msg [Rel 19] [A ''Message:''] True False [[]],
     Msg [Rel 71] [A ''&Save As...''] True False [[]],
     Msg [At ''../qrcodedialog.cpp'' 62] [A ''Error encoding URI into QR Code.''] True False [[]],
     Msg [Rel 40] [A ''The entered amount is invalid, please check.''] True False [[]],
     Msg [Rel 23] [A ''Resulting URI too long, try to reduce the text for label / message.''] True False [[]],
     Msg [Rel 25] [A ''Save QR Code''] True False [[]],
     Msg [Rel 0] [A ''PNG Images (*.png)''] True False [[]]
    ]"

lemma hi_IN_QRCodeDialog_1_ok: "list_all same_markers hi_IN_QRCodeDialog_1"
  unfolding hi_IN_QRCodeDialog_1_def by (simp add: catalogue_eval cong: eval_congs)

lemma hi_IN_QRCodeDialog_1_forms: "list_all (forms_ok 2) hi_IN_QRCodeDialog_1"
  unfolding hi_IN_QRCodeDialog_1_def by (simp add: forms_ok_def cong: form_congs)

definition hi_IN_QRCodeDialog :: context_messages where
  "hi_IN_QRCodeDialog = (''QRCodeDialog'', hi_IN_QRCodeDialog_1)"

lemma hi_IN_QRCodeDialog_ok: "context_ok 2 hi_IN_QRCodeDialog"
  unfolding hi_IN_QRCodeDialog_def by (simp add: context_ok_def hi_IN_QRCodeDialog_1_ok
    hi_IN_QRCodeDialog_1_forms)

definition hi_IN_RPCConsole_1 :: "message list" where
  "hi_IN_RPCConsole_1 =
    [
     Msg [At ''../forms/rpcconsole.ui'' 46] [A ''Client name''] True False [[]],
     Msg [Rel 10, Rel 23, Rel 26, Rel 23, Rel 23, Rel 36, Rel 53, Rel 23, Rel 23,
      At ''../rpcconsole.cpp'' 339] [A ''N/A''] False False [[U [2354, 2366, 2327, 2370], A '' '',
      U [2344, 2361, 2368], C (CHR 0x0A)]],
     Msg [Rel (- 217)] [A ''Client version''] True False [[]],
     Msg [Rel (- 45)] [A ''&Information''] True False [[]],
     Msg [Rel 68] [A ''Using OpenSSL version''] True False [[]],
     Msg [Rel 49] [A ''Startup time''] True False [[]],
     Msg [Rel 29] [A ''Network''] True False [[]],
     Msg [Rel 7] [A ''Number of connections''] True False [[]],
     Msg [Rel 23] [A ''On testnet''] True False [[]],
     Msg [Rel 23] [A ''Block chain''] True False [[]],
     Msg [Rel 7] [A ''Current number of blocks''] True False [[]],
     Msg [Rel 23] [A ''Estimated total blocks''] True False [[]],
     Msg [Rel 23] [A ''Last block time''] True False [[]],
     Msg [Rel 52] [A ''&Open''] True False [[]],
     Msg [Rel 16] [A ''Command-line options''] True False [[]],
     Msg [Rel 7] [A ''Show the Blazecoin-Qt help message to get a list with possible Blazecoin command-line options.''] True False [[]],
     Msg [Rel 3] [A ''&Show''] True False [[]],
     Msg [Rel 24] [A ''&Console''] True False [[]],
     Msg [Rel (- 260)] [A ''Build date''] True False [[]],
     Msg [Rel (- 104)] [A ''Blazecoin - Debug window''] True False [[]],
     Msg [Rel 25] [A ''Blazecoin Core''] True False [[]],
     Msg [Rel 279] [A ''Debug log file''] True False [[]],
     Msg [Rel 7] [A ''Open the Blazecoin debug log file from the current data directory. This can take a few seconds for large log files.''] True False [[]],
     Msg [Rel 102] [A ''Clear console''] True False [[]],
     Msg [At ''../rpcconsole.cpp'' (- 30)] [A ''Welcome to the Blazecoin RPC console.''] True False [[]],
     Msg [Rel 1] [A ''Use up and down arrows to navigate history, and <b>Ctrl-L</b> to clear screen.''] True False [[]],
     Msg [Rel 1] [A ''Type <b>help</b> for an overview of available commands.''] True False [[]]
    ]"

lemma hi_IN_RPCConsole_1_ok: "list_all same_markers hi_IN_RPCConsole_1"
  unfolding hi_IN_RPCConsole_1_def by (simp add: catalogue_eval cong: eval_congs)

lemma hi_IN_RPCConsole_1_forms: "list_all (forms_ok 2) hi_IN_RPCConsole_1"
  unfolding hi_IN_RPCConsole_1_def by (simp add: forms_ok_def cong: form_congs)

definition hi_IN_RPCConsole :: context_messages where
  "hi_IN_RPCConsole = (''RPCConsole'', hi_IN_RPCConsole_1)"

lemma hi_IN_RPCConsole_ok: "context_ok 2 hi_IN_RPCConsole"
  unfolding hi_IN_RPCConsole_def by (simp add: context_ok_def hi_IN_RPCConsole_1_ok
    hi_IN_RPCConsole_1_forms)

definition hi_IN_SendCoinsDialog_1 :: "message list" where
  "hi_IN_SendCoinsDialog_1 =
    [
     Msg [At ''../forms/sendcoinsdialog.ui'' 14, At ''../sendcoinsdialog.cpp'' 124, Rel 5, Rel 5,
      Rel 5, Rel 6, Rel 5, Rel 5] [A ''Send Coins''] False False [[U [2360, 2367, 2325, 2381, 2325,
      2375], A '' '', U [2349, 2375, 2332, 2375, 2306], A ''|'']],
     Msg [Rel 50] [A ''Send to multiple recipients at once''] False False [[U [2319, 2325],
      A '' '', U [2360, 2366, 2341], A '' '', U [2325, 2312], A '' '', U [2346, 2381, 2352, 2366,
      2346, 2381, 2340, 2325, 2352, 2381, 2340, 2366, 2323, 2306], A '' '', U [2325, 2379],
      A '' '', U [2349, 2375, 2332, 2375, 2306]]],
     Msg [Rel 3] [A ''Add &Recipient''] True False [[]],
     Msg [Rel 20] [A ''Remove all transaction fields''] True False [[]],
     Msg [Rel 3] [A ''Clear &All''] True False [[]],
     Msg [Rel 22] [A ''Balance:''] False False [[U [2348, 2366, 2325, 2368], A '' '', U [2352,
      2325, 2350], A '' :'']],
     Msg [Rel 10] [A ''123.456 WDC''] False False [[A ''123.456 WDC'']],
     Msg [Rel 31] [A ''Confirm the send action''] False False [[U [2349, 2375, 2332, 2344, 2375],
      A '' '', U [2325, 2368], A '' '', U [2346, 2369, 2359, 2381, 2335, 2367], A '' '', U [2325,
      2352, 2375, 2306]]],
     Msg [Rel 3] [A ''S&end''] True False [[]],
     Msg [At ''../sendcoinsdialog.cpp'' (- 59)] [A ''<b>%1</b> to %2 (%3)''] False False [[A ''<b>%1</b> '',
      U [2360, 2375], A '' %2 (%3)'']],
     Msg [Rel 5] [A ''Confirm send coins''] False False [[U [2360, 2367, 2325, 2381, 2325, 2375],
      A '' '', U [2349, 2375, 2332, 2344, 2375], A '' '', U [2325, 2368], A '' '', U [2346, 2369,
      2359, 2381, 2335, 2367], A '' '', U [2325, 2352, 2375, 2306]]],
     Msg [Rel 1] [A ''Are you sure you want to send %1?''] False False [[U [2325, 2381, 2351,
      2366], A '' '', U [2310, 2346], A '' %1 '', U [2349, 2375, 2332, 2344, 2366], A '' '',
      U [2330, 2366, 2361, 2340, 2375], A '' '', U [2361, 2376, 2306], A ''?'']],
     Msg [Rel 0] [A '' and ''] False False [[U [2324, 2352]]],
     Msg [Rel 23] [A ''The recipient address is not valid, please recheck.''] True False [[]],
     Msg [Rel 5] [A ''The amount to pay must be larger than 0.''] False False [[U [2349, 2375,
      2332, 2366], A '' '', U [2327, 2351, 2366], A '' '', U [2309, 2350, 2366, 2313, 2306, 2335],
      A '' '', U [2358, 2369, 2344, 2381, 2351], A '' '', U [2360, 2375], A '' '', U [2309, 2343,
      2367, 2325], A '' '', U [2361, 2379, 2344, 2366], A '' '', U [2330, 2366, 2361, 2367, 2319],
      A ''|'']],
     Msg [Rel 5] [A ''The amount exceeds your balance.''] True False [[]],
     Msg [Rel 5] [A ''The total exceeds your balance when the %1 transaction fee is included.''] True False [[]],
     Msg [Rel 6] [A ''Duplicate address found, can only send to each address once per send operation.''] True False [[]],
     Msg [Rel 5] [A ''Error: Transaction creation failed!''] True False [[]],
     Msg [Rel 5] [A ''Error: The transaction was rejected. This might happen if some of the coins in your wallet were already spent, such as if you used a copy of wallet.dat and coins were spent in the copy but not marked as spent here.''] True False [[]]
    ]"

lemma hi_IN_SendCoinsDialog_1_ok: "list_all same_markers hi_IN_SendCoinsDialog_1"
  unfolding hi_IN_SendCoinsDialog_1_def by (simp add: catalogue_eval cong: eval_congs)

lemma hi_IN_SendCoinsDialog_1_forms: "list_all (forms_ok 2) hi_IN_SendCoinsDialog_1"
  unfolding hi_IN_SendCoinsDialog_1_def by (simp add: forms_ok_def cong: form_congs)

definition hi_IN_SendCoinsDialog :: context_messages where
  "hi_IN_SendCoinsDialog = (''SendCoinsDialog'', hi_IN_SendCoinsDialog_1)"

lemma hi_IN_SendCoinsDialog_ok: "context_ok 2 hi_IN_SendCoinsDialog"
  unfolding hi_IN_SendCoinsDialog_def by (simp add: context_ok_def hi_IN_SendCoinsDialog_1_ok
    hi_IN_SendCoinsDialog_1_forms)

definition hi_IN_SendCoinsEntry_1 :: "message list" where
  "hi_IN_SendCoinsEntry_1 =
    [
     Msg [At ''../forms/sendcoinsentry.ui'' 14] [A ''Form''] False False [[U [2347, 2366, 2352,
      2381, 2350]]],
     Msg [Rel 15] [A ''A&mount:''] False False [[U [2309, 2350, 2366, 2313, 2306, 2335], A '':'']],
     Msg [Rel 13] [A ''Pay &To:''] False False [[U [2346, 2381, 2352, 2366, 2346, 2381, 2340, 2325,
      2352, 2381, 2340, 2366], A '':'']],
     Msg [Rel 34] [A ''The address to send the payment to (e.g. MNS17iag9jJgTHD1VXjvLCEnZuQ3rJDE9L)''] True False [[]],
     Msg [Rel 60,
      At ''../sendcoinsentry.cpp'' 26] [A ''Enter a label for this address to add it to your address book''] False False [[U [2310,
      2346, 2325, 2368], A '' '', U [2319, 2337, 2381, 2352, 2375, 2360], A '' '', U [2348, 2369,
      2325], A '' '', U [2350, 2375, 2306], A '' '', U [2311, 2360], A '' '', U [2319, 2337, 2381,
      2352, 2375, 2360], A '' '', U [2325, 2375], A '' '', U [2354, 2367, 2319], A '' '', U [2319,
      2325], A '' '', U [2354, 2375, 2348, 2354], A '' '', U [2354, 2367, 2326, 2375, 2306]]],
     Msg [Rel (- 78)] [A ''&Label:''] False False [[U [2354, 2375, 2348, 2354], A '':'']],
     Msg [Rel 28] [A ''Choose address from address book''] True False [[]],
     Msg [Rel 10] [A ''Alt+A''] False False [[A ''Alt-A'']],
     Msg [Rel 7] [A ''Paste address from clipboard''] False False [[A ''Clipboard '', U [2360,
      2375], A '' '', U [2319, 2337, 2381, 2352, 2375, 2360], A '' paste '', U [2325, 2352, 2375,
      2306]]],
     Msg [Rel 10] [A ''Alt+P''] False False [[A ''Alt-P'']],
     Msg [Rel 7] [A ''Remove this recipient''] False False [[U [2346, 2381, 2352, 2366, 2346, 2381,
      2340, 2325, 2352, 2381, 2340, 2366], A '' '', U [2361, 2335, 2366, 2351, 2375, 2306]]],
     Msg [At ''../sendcoinsentry.cpp'' 1] [A ''Enter a Blazecoin address (e.g. MNS17iag9jJgTHD1VXjvLCEnZuQ3rJDE9L)''] False False [[A ''Blazecoin '',
      U [2319, 2337, 2381, 2352, 2375, 2360], A '' '', U [2354, 2367, 2326, 2375, 2306], A '' ('',
      U [2313, 2342, 2366, 2361, 2352, 2339], A '': MNS17iag9jJgTHD1VXjvLCEnZuQ3rJDE9L)'']]
    ]"

lemma hi_IN_SendCoinsEntry_1_ok: "list_all same_markers hi_IN_SendCoinsEntry_1"
  unfolding hi_IN_SendCoinsEntry_1_def by (simp add: catalogue_eval cong: eval_congs)

lemma hi_IN_SendCoinsEntry_1_forms: "list_all (forms_ok 2) hi_IN_SendCoinsEntry_1"
  unfolding hi_IN_SendCoinsEntry_1_def by (simp add: forms_ok_def cong: form_congs)

definition hi_IN_SendCoinsEntry :: context_messages where
  "hi_IN_SendCoinsEntry = (''SendCoinsEntry'', hi_IN_SendCoinsEntry_1)"

lemma hi_IN_SendCoinsEntry_ok: "context_ok 2 hi_IN_SendCoinsEntry"
  unfolding hi_IN_SendCoinsEntry_def by (simp add: context_ok_def hi_IN_SendCoinsEntry_1_ok
    hi_IN_SendCoinsEntry_1_forms)

definition hi_IN_SignVerifyMessageDialog_1 :: "message list" where
  "hi_IN_SignVerifyMessageDialog_1 =
    [
     Msg [At ''../forms/signverifymessagedialog.ui'' 14] [A ''Signatures - Sign / Verify a Message''] True False [[]],
     Msg [Rel 13] [A ''&Sign Message''] True False [[]],
     Msg [Rel 6] [A ''You can sign messages with your addresses to prove you own them. Be careful not to sign anything vague, as phishing attacks may try to trick you into signing your identity over to them. Only sign fully-detailed statements you agree to.''] True False [[]],
     Msg [Rel 18] [A ''The address to sign the message with (e.g. MNS17iag9jJgTHD1VXjvLCEnZuQ3rJDE9L)''] True False [[]],
     Msg [Rel 10, Rel 213] [A ''Choose an address from the address book''] True False [[]],
     Msg [Rel (- 203), Rel 213] [A ''Alt+A''] False False [[A ''Alt-A'']],
     Msg [Rel (- 203)] [A ''Paste address from clipboard''] False False [[A ''Clipboard '',
      U [2360, 2375], A '' '', U [2319, 2337, 2381, 2352, 2375, 2360], A '' paste '', U [2325,
      2352, 2375, 2306]]],
     Msg [Rel 10] [A ''Alt+P''] False False [[A ''Alt-P'']],
     Msg [Rel 12] [A ''Enter the message you want to sign here''] True False [[]],
     Msg [Rel 7] [A ''Signature''] False False [[U [2361, 2360, 2381, 2340, 2366, 2325, 2381, 2359,
      2352]]],
     Msg [Rel 27] [A ''Copy the current signature to the system clipboard''] True False [[]],
     Msg [Rel 21] [A ''Sign the message to prove you own this Blazecoin address''] True False [[]],
     Msg [Rel 3] [A ''Sign &Message''] True False [[]],
     Msg [Rel 14] [A ''Reset all sign message fields''] True False [[]],
     Msg [Rel 3, Rel 146] [A ''Clear &All''] True False [[]],
     Msg [Rel (- 87)] [A ''&Verify Message''] True False [[]],
     Msg [Rel 6] [A ''Enter the signing address, message (ensure you copy line breaks, spaces, tabs, etc. exactly) and signature below to verify the message. Be careful not to read more into the signature than what is in the signed message itself, to avoid being tricked by a man-in-the-middle attack.''] True False [[]],
     Msg [Rel 21] [A ''The address the message was signed with (e.g. MNS17iag9jJgTHD1VXjvLCEnZuQ3rJDE9L)''] True False [[]],
     Msg [Rel 40] [A ''Verify the message to ensure it was signed with the specified Blazecoin address''] True False [[]],
     Msg [Rel 3] [A ''Verify &Message''] True False [[]],
     Msg [Rel 14] [A ''Reset all verify message fields''] True False [[]],
     Msg [At ''../signverifymessagedialog.cpp'' 27,
      Rel 3] [A ''Enter a Blazecoin address (e.g. MNS17iag9jJgTHD1VXjvLCEnZuQ3rJDE9L)''] False False [[A ''Blazecoin '',
      U [2319, 2337, 2381, 2352, 2375, 2360], A '' '', U [2354, 2367, 2326, 2375, 2306], A '' ('',
      U [2313, 2342, 2366, 2361, 2352, 2339], A '': MNS17iag9jJgTHD1VXjvLCEnZuQ3rJDE9L)'']],
     Msg [Rel (- 2)] [A ''Click '', C (CHR 0x22), A ''Sign Message'', C (CHR 0x22),
      A '' to generate signature''] True False [[]],
     Msg [Rel 3] [A ''Enter Blazecoin signature''] True False [[]],
     Msg [Rel 82, Rel 81] [A ''The entered address is invalid.''] True False [[]],
     Msg [Rel (- 81), Rel 8, Rel 73,
      Rel 8] [A ''Please check the address and try again.''] True False [[]],
     Msg [Rel (- 81), Rel 81] [A ''The entered address does not refer to a key.''] True False [[]]
    ]"

lemma hi_IN_SignVerifyMessageDialog_1_ok: "list_all same_markers hi_IN_SignVerifyMessageDialog_1"
  unfolding hi_IN_SignVerifyMessageDialog_1_def by (simp add: catalogue_eval cong: eval_congs)

lemma hi_IN_SignVerifyMessageDialog_1_forms: "list_all (forms_ok 2) hi_IN_SignVerifyMessageDialog_1"
  unfolding hi_IN_SignVerifyMessageDialog_1_def by (simp add: forms_ok_def cong: form_congs)

definition hi_IN_SignVerifyMessageDialog_2 :: "message list" where
  "hi_IN_SignVerifyMessageDialog_2 =
    [
     Msg [Rel (- 73)] [A ''Wallet unlock was cancelled.''] True False [[]],
     Msg [Rel 8] [A ''Private key for the entered address is not available.''] True False [[]],
     Msg [Rel 12] [A ''Message signing failed.''] True False [[]],
     Msg [Rel 5] [A ''Message signed.''] True False [[]],
     Msg [Rel 59] [A ''The signature could not be decoded.''] True False [[]],
     Msg [Rel 0, Rel 13] [A ''Please check the signature and try again.''] True False [[]],
     Msg [Rel 0] [A ''The signature did not match the message digest.''] True False [[]],
     Msg [Rel 7] [A ''Message verification failed.''] True False [[]],
     Msg [Rel 5] [A ''Message verified.''] True False [[]]
    ]"

lemma hi_IN_SignVerifyMessageDialog_2_ok: "list_all same_markers hi_IN_SignVerifyMessageDialog_2"
  unfolding hi_IN_SignVerifyMessageDialog_2_def by (simp add: catalogue_eval cong: eval_congs)

lemma hi_IN_SignVerifyMessageDialog_2_forms: "list_all (forms_ok 2) hi_IN_SignVerifyMessageDialog_2"
  unfolding hi_IN_SignVerifyMessageDialog_2_def by (simp add: forms_ok_def cong: form_congs)

definition hi_IN_SignVerifyMessageDialog :: context_messages where
  "hi_IN_SignVerifyMessageDialog = (''SignVerifyMessageDialog'', hi_IN_SignVerifyMessageDialog_1 @ hi_IN_SignVerifyMessageDialog_2)"

lemma hi_IN_SignVerifyMessageDialog_ok: "context_ok 2 hi_IN_SignVerifyMessageDialog"
  unfolding hi_IN_SignVerifyMessageDialog_def by (simp add: context_ok_def
    hi_IN_SignVerifyMessageDialog_1_ok hi_IN_SignVerifyMessageDialog_1_forms
    hi_IN_SignVerifyMessageDialog_2_ok hi_IN_SignVerifyMessageDialog_2_forms)

definition hi_IN_SplashScreen_1 :: "message list" where
  "hi_IN_SplashScreen_1 =
    [
     Msg [At ''../splashscreen.cpp'' 22] [A ''Dr. Kimoto Chan''] True False [[]],
     Msg [Rel 1] [A ''[testnet]''] True False [[]]
    ]"

lemma hi_IN_SplashScreen_1_ok: "list_all same_markers hi_IN_SplashScreen_1"
  unfolding hi_IN_SplashScreen_1_def by (simp add: catalogue_eval cong: eval_congs)

lemma hi_IN_SplashScreen_1_forms: "list_all (forms_ok 2) hi_IN_SplashScreen_1"
  unfolding hi_IN_SplashScreen_1_def by (simp add: forms_ok_def cong: form_congs)

definition hi_IN_SplashScreen :: context_messages where
  "hi_IN_SplashScreen = (''SplashScreen'', hi_IN_SplashScreen_1)"

lemma hi_IN_SplashScreen_ok: "context_ok 2 hi_IN_SplashScreen"
  unfolding hi_IN_SplashScreen_def by (simp add: context_ok_def hi_IN_SplashScreen_1_ok
    hi_IN_SplashScreen_1_forms)

definition hi_IN_TransactionDesc_1 :: "message list" where
  "hi_IN_TransactionDesc_1 =
    [
     Msg [At ''../transactiondesc.cpp'' 20] [A ''Open until %1''] False False [[U [2326, 2369,
      2354, 2366], A '' '', U [2361, 2376], A '' '', U [2332, 2348, 2340, 2325], A '' %1'']],
     Msg [Rel 6] [A ''%1/offline''] True False [[]],
     Msg [Rel 2] [A ''%1/unconfirmed''] False False [[A ''%1/'', U [2309, 2346, 2369, 2359, 2381,
      2335]]],
     Msg [Rel 2] [A ''%1 confirmations''] False False [[A ''%1 '', U [2346, 2369, 2359, 2381, 2335,
      2367, 2351, 2366, 2305]]],
     Msg [Rel 18] [A ''Status''] True False [[]],
     Msg [Rel 7] [A '', broadcast through %n node(s)''] True True [[], []],
     Msg [Rel 4] [A ''Date''] False False [[A ''taareek'']],
     Msg [Rel 7] [A ''Source''] True False [[]],
     Msg [Rel 0] [A ''Generated''] True False [[]],
     Msg [Rel 5, Rel 17] [A ''From''] True False [[]],
     Msg [Rel 1, Rel 22, Rel 58] [A ''To''] True False [[]],
     Msg [Rel (- 77), Rel 2] [A ''own address''] True False [[]],
     Msg [Rel (- 2)] [A ''label''] True False [[]],
     Msg [Rel 37, Rel 12, Rel 45, Rel 17, Rel 30] [A ''Credit''] True False [[]],
     Msg [Rel (- 102)] [A ''matures in %n more block(s)''] True True [[], []],
     Msg [Rel 2] [A ''not accepted''] True False [[]],
     Msg [Rel 44, Rel 8, Rel 15, Rel 30] [A ''Debit''] True False [[]],
     Msg [Rel (- 39)] [A ''Transaction fee''] True False [[]],
     Msg [Rel 16] [A ''Net amount''] True False [[]],
     Msg [Rel 6] [A ''Message''] True False [[]],
     Msg [Rel 2] [A ''Comment''] True False [[]],
     Msg [Rel 2] [A ''Transaction ID''] True False [[]],
     Msg [Rel 3] [A ''Generated coins must mature 120 blocks before they can be spent. When you generated this block, it was broadcast to the network to be added to the block chain. If it fails to get into the chain, its state will change to '',
      C (CHR 0x22), A ''not accepted'', C (CHR 0x22), A '' and it won'', C (CHR 0x27),
      A ''t be spendable. This may occasionally happen if another node generates a block within a few seconds of yours.''] True False [[]],
     Msg [Rel 7] [A ''Debug information''] True False [[]],
     Msg [Rel 8] [A ''Transaction''] True False [[]],
     Msg [Rel 3] [A ''Inputs''] True False [[]]
    ]"

lemma hi_IN_TransactionDesc_1_ok: "list_all same_markers hi_IN_TransactionDesc_1"
  unfolding hi_IN_TransactionDesc_1_def by (simp add: catalogue_eval cong: eval_congs)

lemma hi_IN_TransactionDesc_1_forms: "list_all (forms_ok 2) hi_IN_TransactionDesc_1"
  unfolding hi_IN_TransactionDesc_1_def by (simp add: forms_ok_def cong: form_congs)

definition hi_IN_TransactionDesc_2 :: "message list" where
  "hi_IN_TransactionDesc_2 =
    [
     Msg [Rel 23] [A ''Amount''] False False [[U [2352, 2366, 2358, 2367]]],
     Msg [Rel 1] [A ''true''] False False [[U [2360, 2361, 2368]]],
     Msg [Rel 0] [A ''false''] False False [[U [2327, 2364, 2354, 2340]]],
     Msg [Rel (- 209)] [A '', has not been successfully broadcast yet''] False False [[A '', '',
      U [2309, 2349, 2368], A '' '', U [2340, 2325], A '' '', U [2360, 2347, 2354, 2340, 2366,
      2346, 2370, 2352, 2381, 2357, 2325], A '' '', U [2346, 2381, 2352, 2360, 2366, 2352, 2367,
      2340], A '' '', U [2344, 2361, 2368, 2306], A '' '', U [2325, 2367, 2351, 2366], A '' '',
      U [2327, 2351, 2366], A '' '', U [2361, 2376]]],
     Msg [Rel (- 35)] [A ''Open for %n more block(s)''] True True [[], []],
     Msg [Rel 70] [A ''unknown''] False False [[U [2309, 2332, 2381, 2334, 2366, 2340]]]
    ]"

lemma hi_IN_TransactionDesc_2_ok: "list_all same_markers hi_IN_TransactionDesc_2"
  unfolding hi_IN_TransactionDesc_2_def by (simp add: catalogue_eval cong: eval_congs)

lemma hi_IN_TransactionDesc_2_forms: "list_all (forms_ok 2) hi_IN_TransactionDesc_2"
  unfolding hi_IN_TransactionDesc_2_def by (simp add: forms_ok_def cong: form_congs)

definition hi_IN_TransactionDesc :: context_messages where
  "hi_IN_TransactionDesc = (''TransactionDesc'', hi_IN_TransactionDesc_1 @ hi_IN_TransactionDesc_2)"

lemma hi_IN_TransactionDesc_ok: "context_ok 2 hi_IN_TransactionDesc"
  unfolding hi_IN_TransactionDesc_def by (simp add: context_ok_def hi_IN_TransactionDesc_1_ok
    hi_IN_TransactionDesc_1_forms hi_IN_TransactionDesc_2_ok hi_IN_TransactionDesc_2_forms)

definition hi_IN_TransactionDescDialog_1 :: "message list" where
  "hi_IN_TransactionDescDialog_1 =
    [
     Msg [At ''../forms/transactiondescdialog.ui'' 14] [A ''Transaction details''] False False [[U [2354,
      2375, 2344], A ''-'', U [2342, 2375, 2344], A '' '', U [2325, 2366], A '' '', U [2357, 2367,
      2357, 2352, 2339]]],
     Msg [Rel 6] [A ''This pane shows a detailed description of the transaction''] False False [[A '' '',
      U [2351, 2375], A '' '', U [2326, 2367, 2337, 2364, 2325, 2368], A '' '', U [2310, 2346,
      2325, 2379], A '' '', U [2354, 2375, 2344], A ''-'', U [2342, 2375, 2344], A '' '', U [2325,
      2366], A '' '', U [2357, 2367, 2360, 2381, 2340, 2371, 2340], A '' '', U [2357, 2367, 2357,
      2352, 2339], A '' '', U [2342, 2375, 2327, 2368], A '' !'']]
    ]"

lemma hi_IN_TransactionDescDialog_1_ok: "list_all same_markers hi_IN_TransactionDescDialog_1"
  unfolding hi_IN_TransactionDescDialog_1_def by (simp add: catalogue_eval cong: eval_congs)

lemma hi_IN_TransactionDescDialog_1_forms: "list_all (forms_ok 2) hi_IN_TransactionDescDialog_1"
  unfolding hi_IN_TransactionDescDialog_1_def by (simp add: forms_ok_def cong: form_congs)

definition hi_IN_TransactionDescDialog :: context_messages where
  "hi_IN_TransactionDescDialog = (''TransactionDescDialog'', hi_IN_TransactionDescDialog_1)"

lemma hi_IN_TransactionDescDialog_ok: "context_ok 2 hi_IN_TransactionDescDialog"
  unfolding hi_IN_TransactionDescDialog_def by (simp add: context_ok_def
    hi_IN_TransactionDescDialog_1_ok hi_IN_TransactionDescDialog_1_forms)

definition hi_IN_TransactionTableModel_1 :: "message list" where
  "hi_IN_TransactionTableModel_1 =
    [
     Msg [At ''../transactiontablemodel.cpp'' 225] [A ''Date''] False False [[A ''taareek'']],
     Msg [Rel 0] [A ''Type''] False False [[U [2335, 2366, 2311, 2346]]],
     Msg [Rel 0] [A ''Address''] False False [[U [2346, 2340, 2366]]],
     Msg [Rel 0] [A ''Amount''] False False [[U [2352, 2366, 2358, 2367]]],
     Msg [Rel 57] [A ''Open for %n more block(s)''] True True [[], []],
     Msg [Rel 3] [A ''Open until %1''] False False [[U [2326, 2369, 2354, 2366], A '' '', U [2361,
      2376], A '' '', U [2332, 2348, 2340, 2325], A '' %1'']],
     Msg [Rel 3] [A ''Offline (%1 confirmations)''] False False [[U [2321, 2347, 2354, 2366, 2311,
      2344], A '' ( %1 '', U [2346, 2325, 2381, 2325, 2366], A '' '', U [2325, 2352, 2344, 2366],
      A '')'']],
     Msg [Rel 3] [A ''Unconfirmed (%1 of %2 confirmations)''] False False [[U [2309, 2346, 2369,
      2359, 2381, 2335], A '' ( %1  '', U [2350, 2375], A '' %2  '', U [2346, 2325, 2381, 2325,
      2375], A ''  )'']],
     Msg [Rel 3] [A ''Confirmed (%1 confirmations)''] False False [[U [2346, 2325, 2381, 2325,
      2375], A ''  ( %1 '', U [2346, 2325, 2381, 2325, 2366], A '' '', U [2325, 2352, 2344, 2366],
      A '')'']],
     Msg [Rel 8] [A ''Mined balance will be available when it matures in %n more block(s)''] True True [[],
      []],
     Msg [Rel 5] [A ''This block was not received by any other nodes and will probably not be accepted!''] False False [[U [2351,
      2361], A '' '', U [2348, 2381, 2354, 2377, 2325], A '' '', U [2325, 2367, 2360, 2368],
      A '' '', U [2349, 2368], A '' '', U [2324, 2352], A '' '', U [2344, 2379, 2337], A '' '',
      U [2325, 2379], A '' '', U [2350, 2367, 2354, 2366], A '' '', U [2344, 2361, 2368], A '' '',
      U [2361, 2376], A '' ! '', U [2358, 2366, 2351, 2342], A '' '', U [2351, 2361], A '' '',
      U [2348, 2381, 2354, 2377, 2325], A '' '', U [2325, 2379, 2312], A '' '', U [2349, 2368],
      A '' '', U [2344, 2379, 2337], A '' '', U [2360, 2381, 2357, 2368, 2325, 2366, 2352, 2375],
      A '' '', U [2327, 2366], A '' '', U [2344, 2361, 2368], A '' !'']],
     Msg [Rel 3] [A ''Generated but not accepted''] False False [[U [2332, 2375, 2344, 2352, 2375,
      2335], A '' '', U [2325, 2367, 2351, 2366], A '' '', U [2327, 2351, 2366], A '' '', U [2325,
      2367, 2306, 2340, 2369], A '' '', U [2360, 2381, 2357, 2368, 2325, 2366, 2352, 2366],
      A '' '', U [2344, 2361, 2368], A '' '', U [2327, 2351, 2366], A '' !'']],
     Msg [Rel 43] [A ''Received with''] False False [[U [2360, 2381, 2357, 2368, 2325, 2366, 2352,
      2366], A '' '', U [2327, 2351, 2366]]],
     Msg [Rel 2] [A ''Received from''] False False [[U [2360, 2381, 2357, 2368, 2325, 2366, 2352,
      2381, 2351], A '' '', U [2323, 2352], A '' '', U [2360, 2375]]],
     Msg [Rel 3] [A ''Sent to''] False False [[U [2349, 2375, 2332, 2366], A '' '', U [2327, 2351,
      2366]]],
     Msg [Rel 2] [A ''Payment to yourself''] False False [[U [2349, 2375, 2332, 2366], A '' '',
      U [2326, 2369, 2342], A '' '', U [2325, 2379], A '' '', U [2349, 2369, 2327, 2340, 2366,
      2344]]],
     Msg [Rel 2] [A ''Mined''] False False [[U [2350, 2366, 2311, 2306, 2337]]],
     Msg [Rel 38] [A ''(n/a)''] False False [[A ''('', U [2354, 2366, 2327, 2370], A '' '',
      U [2344, 2361, 2368, 2306], A '')'']],
     Msg [Rel 199] [A ''Transaction status. Hover over this field to show number of confirmations.''] False False [[U [2335,
      2381, 2352, 2366, 2306, 2360, 2375, 2325, 2381, 2358, 2344], A '' '', U [2360, 2381, 2340,
      2367, 2341, 2367], A ''| '', U [2346, 2369, 2359, 2381, 2335, 2367, 2351, 2379, 2306],
      A '' '', U [2325, 2368], A '' '', U [2360, 2306, 2326, 2381, 2351, 2366], A '' '', U [2332,
      2366, 2344, 2344, 2375], A '' '', U [2325, 2375], A '' '', U [2354, 2367, 2319], A '' '',
      U [2311, 2360], A '' '', U [2332, 2327, 2361], A '' '', U [2346, 2352], A '' '', U [2350,
      2366, 2313, 2360], A '' '', U [2354, 2366, 2351, 2375, 2306], A ''|'']],
     Msg [Rel 2] [A ''Date and time that the transaction was received.''] False False [[U [2340,
      2366, 2352, 2368, 2326], A '' '', U [2340, 2341, 2366], A '' '', U [2360, 2350, 2351],
      A '' '', U [2332, 2348], A '' '', U [2351, 2375], A '' '', U [2335, 2381, 2352, 2366, 2306,
      2360, 2375, 2325, 2381, 2358, 2344], A '' '', U [2346, 2381, 2352, 2366, 2346, 2381, 2340],
      A '' '', U [2361, 2369, 2312], A '' '', U [2341, 2368], A ''|'']],
     Msg [Rel 2] [A ''Type of transaction.''] False False [[U [2335, 2381, 2352, 2366, 2306, 2360,
      2375, 2325, 2381, 2358, 2344], A '' '', U [2325, 2366], A '' '', U [2346, 2381, 2352, 2325,
      2366, 2352], A ''|'']],
     Msg [Rel 2] [A ''Destination address of transaction.''] False False [[U [2335, 2381, 2352,
      2366, 2306, 2360, 2375, 2325, 2381, 2358, 2344], A '' '', U [2325, 2368], A '' '', U [2350,
      2306, 2332, 2367, 2354], A '' '', U [2325, 2366], A '' '', U [2346, 2340, 2366], A ''|'']],
     Msg [Rel 2] [A ''Amount removed from or added to balance.''] False False [[U [2309, 2350,
      2366, 2313, 2306, 2335], A '' '', U [2348, 2376, 2354, 2375, 2306, 2360], A '' '', U [2360,
      2375], A '' '', U [2344, 2367, 2325, 2354, 2366], A '' '', U [2351, 2366], A '' '', U [2332,
      2350, 2366], A '' '', U [2325, 2367, 2351, 2366], A '' '', U [2327, 2351, 2366], A '' |'']]
    ]"

lemma hi_IN_TransactionTableModel_1_ok: "list_all same_markers hi_IN_TransactionTableModel_1"
  unfolding hi_IN_TransactionTableModel_1_def by (simp add: catalogue_eval cong: eval_congs)

lemma hi_IN_TransactionTableModel_1_forms: "list_all (forms_ok 2) hi_IN_TransactionTableModel_1"
  unfolding hi_IN_TransactionTableModel_1_def by (simp add: forms_ok_def cong: form_congs)

definition hi_IN_TransactionTableModel :: context_messages where
  "hi_IN_TransactionTableModel = (''TransactionTableModel'', hi_IN_TransactionTableModel_1)"

lemma hi_IN_TransactionTableModel_ok: "context_ok 2 hi_IN_TransactionTableModel"
  unfolding hi_IN_TransactionTableModel_def by (simp add: context_ok_def
    hi_IN_TransactionTableModel_1_ok hi_IN_TransactionTableModel_1_forms)

definition hi_IN_TransactionView_1 :: "message list" where
  "hi_IN_TransactionView_1 =
    [
     Msg [At ''../transactionview.cpp'' 52, Rel 16] [A ''All''] False False [[U [2360, 2349,
      2368]]],
     Msg [Rel (- 15)] [A ''Today''] False False [[U [2310, 2332]]],
     Msg [Rel 1] [A ''This week''] False False [[U [2311, 2360], A '' '', U [2361, 2347, 2381,
      2340, 2375]]],
     Msg [Rel 1] [A ''This month''] False False [[U [2311, 2360], A '' '', U [2350, 2361, 2368,
      2344, 2375]]],
     Msg [Rel 1] [A ''Last month''] False False [[U [2346, 2367, 2331, 2354, 2375], A '' '',
      U [2350, 2361, 2368, 2344, 2375]]],
     Msg [Rel 1] [A ''This year''] False False [[U [2311, 2360], A '' '', U [2360, 2366, 2354]]],
     Msg [Rel 1] [A ''Range...''] False False [[U [2357, 2367, 2360, 2381, 2340, 2366, 2352],
      A ''...'']],
     Msg [Rel 11] [A ''Received with''] False False [[U [2360, 2381, 2357, 2368, 2325, 2366, 2352],
      A '' '', U [2325, 2352, 2344, 2366]]],
     Msg [Rel 2] [A ''Sent to''] False False [[U [2349, 2375, 2332, 2366], A '' '', U [2327, 2351,
      2366]]],
     Msg [Rel 2] [A ''To yourself''] False False [[U [2309, 2346, 2344, 2375, 2310, 2346], A '' '',
      U [2325, 2379]]],
     Msg [Rel 1] [A ''Mined''] False False [[U [2350, 2366, 2311, 2306, 2337]]],
     Msg [Rel 1] [A ''Other''] False False [[U [2309, 2344, 2381, 2351]]],
     Msg [Rel 7] [A ''Enter address or label to search''] False False [[U [2338, 2370, 2305, 2342,
      2344, 2375], A '' '', U [2325, 2375], A '' '', U [2354, 2367, 2319], A '' '', U [2325, 2371,
      2346, 2366], A '' '', U [2325, 2352, 2325, 2375], A '' '', U [2346, 2340, 2366], A '' '',
      U [2351, 2366], A '' '', U [2354, 2375, 2348, 2354], A '' '', U [2335, 2366, 2311, 2346],
      A '' '', U [2325, 2352, 2375], A '' !'']],
     Msg [Rel 7] [A ''Min amount''] False False [[U [2354, 2328, 2369, 2340, 2381, 2340, 2350],
      A '' '', U [2352, 2366, 2358, 2367]]],
     Msg [Rel 34] [A ''Copy address''] False False [[U [2346, 2340, 2366], A '' '', U [2325, 2377,
      2346, 2368], A '' '', U [2325, 2352, 2375]]],
     Msg [Rel 1] [A ''Copy label''] False False [[U [2354, 2375, 2348, 2354], A '' '', U [2325,
      2377, 2346, 2368], A '' '', U [2325, 2352, 2375], A '' '']],
     Msg [Rel 1] [A ''Copy amount''] False False [[U [2325, 2377, 2346, 2368], A '' '', U [2352,
      2366, 2358, 2367]]],
     Msg [Rel 1] [A ''Copy transaction ID''] True False [[]],
     Msg [Rel 1] [A ''Edit label''] False False [[U [2319, 2337, 2367, 2335], A '' '', U [2354,
      2375, 2348, 2354]]],
     Msg [Rel 1] [A ''Show transaction details''] True False [[]],
     Msg [Rel 139] [A ''Export Transaction Data''] False False [[U [2354, 2375, 2344], A ''-'',
      U [2342, 2375, 2344], A '' '', U [2325, 2366], A '' '', U [2337, 2375, 2335, 2366], A '' '',
      U [2344, 2367, 2352, 2381, 2351, 2366, 2340], A '' '', U [2325, 2352, 2375], A '' !'']],
     Msg [Rel 1] [A ''Comma separated file (*.csv)''] False False [[A ''Comma separated file (*.csv)'']],
     Msg [Rel 8] [A ''Confirmed''] False False [[U [2346, 2325, 2381, 2325, 2366]]],
     Msg [Rel 1] [A ''Date''] False False [[A ''taareek'']],
     Msg [Rel 1] [A ''Type''] False False [[U [2335, 2366, 2311, 2346]]],
     Msg [Rel 1] [A ''Label''] False False [[U [2354, 2375, 2348, 2354]]],
     Msg [Rel 1] [A ''Address''] False False [[U [2346, 2340, 2366]]],
     Msg [Rel 1] [A ''Amount''] False False [[U [2352, 2366, 2358, 2367]]]
    ]"

lemma hi_IN_TransactionView_1_ok: "list_all same_markers hi_IN_TransactionView_1"
  unfolding hi_IN_TransactionView_1_def by (simp add: catalogue_eval cong: eval_congs)

lemma hi_IN_TransactionView_1_forms: "list_all (forms_ok 2) hi_IN_TransactionView_1"
  unfolding hi_IN_TransactionView_1_def by (simp add: forms_ok_def cong: form_congs)

definition hi_IN_TransactionView_2 :: "message list" where
  "hi_IN_TransactionView_2 =
    [
     Msg [Rel 1] [A ''ID''] False False [[A ''ID'']],
     Msg [Rel 4] [A ''Error exporting''] False False [[U [2327, 2364, 2354, 2340, 2367, 2351, 2366,
      2305], A '' '', U [2319, 2325, 2381, 2360, 2346, 2379, 2352, 2381, 2335], A '' ('', U [2344,
      2367, 2352, 2381, 2351, 2366, 2340], A '') '', U [2325, 2352, 2375], A ''!'']],
     Msg [Rel 0] [A ''Could not write to file %1.''] False False [[U [2347, 2366, 2311, 2354],
      A '' '', U [2350, 2375, 2306], A '' '', U [2354, 2367, 2326], A '' '', U [2344, 2361, 2368],
      A '' '', U [2360, 2325, 2375], A '' %1.'']],
     Msg [Rel 100] [A ''Range:''] False False [[U [2357, 2367, 2360, 2381, 2340, 2366, 2352],
      A '':'']],
     Msg [Rel 8] [A ''to''] False False [[U [2340, 2325]]]
    ]"

lemma hi_IN_TransactionView_2_ok: "list_all same_markers hi_IN_TransactionView_2"
  unfolding hi_IN_TransactionView_2_def by (simp add: catalogue_eval cong: eval_congs)

lemma hi_IN_TransactionView_2_forms: "list_all (forms_ok 2) hi_IN_TransactionView_2"
  unfolding hi_IN_TransactionView_2_def by (simp add: forms_ok_def cong: form_congs)

definition hi_IN_TransactionView :: context_messages where
  "hi_IN_TransactionView = (''TransactionView'', hi_IN_TransactionView_1 @ hi_IN_TransactionView_2)"

lemma hi_IN_TransactionView_ok: "context_ok 2 hi_IN_TransactionView"
  unfolding hi_IN_TransactionView_def by (simp add: context_ok_def hi_IN_TransactionView_1_ok
    hi_IN_TransactionView_1_forms hi_IN_TransactionView_2_ok hi_IN_TransactionView_2_forms)

definition hi_IN_WalletModel_1 :: "message list" where
  "hi_IN_WalletModel_1 =
    [
     Msg [At ''../walletmodel.cpp'' 193] [A ''Send Coins''] True False [[]]
    ]"

lemma hi_IN_WalletModel_1_ok: "list_all same_markers hi_IN_WalletModel_1"
  unfolding hi_IN_WalletModel_1_def by (simp add: catalogue_eval cong: eval_congs)

lemma hi_IN_WalletModel_1_forms: "list_all (forms_ok 2) hi_IN_WalletModel_1"
  unfolding hi_IN_WalletModel_1_def by (simp add: forms_ok_def cong: form_congs)

definition hi_IN_WalletModel :: context_messages where
  "hi_IN_WalletModel = (''WalletModel'', hi_IN_WalletModel_1)"

lemma hi_IN_WalletModel_ok: "context_ok 2 hi_IN_WalletModel"
  unfolding hi_IN_WalletModel_def by (simp add: context_ok_def hi_IN_WalletModel_1_ok
    hi_IN_WalletModel_1_forms)

definition hi_IN_WalletView_1 :: "message list" where
  "hi_IN_WalletView_1 =
    [
     Msg [At ''../walletview.cpp'' 42] [A ''&Export''] True False [[]],
     Msg [Rel 1] [A ''Export the data in the current tab to a file''] True False [[]],
     Msg [Rel 193] [A ''Backup Wallet''] False False [[U [2348, 2376, 2325, 2346], A '' '',
      U [2357, 2377, 2354, 2375, 2335]]],
     Msg [Rel 0] [A ''Wallet Data (*.dat)''] False False [[U [2357, 2377, 2354, 2375, 2335],
      A '' '', U [2337, 2375, 2335, 2366], A '' (*.dat)'']],
     Msg [Rel 3] [A ''Backup Failed''] False False [[U [2348, 2376, 2325, 2346], A '' '', U [2309,
      2360, 2347, 2354]]],
     Msg [Rel 0] [A ''There was an error trying to save the wallet data to the new location.''] True False [[]],
     Msg [Rel 4] [A ''Backup Successful''] False False [[U [2348, 2376, 2325, 2346], A '' '',
      U [2360, 2347, 2354]]],
     Msg [Rel 0] [A ''The wallet data was successfully saved to the new location.''] True False [[]]
    ]"

lemma hi_IN_WalletView_1_ok: "list_all same_markers hi_IN_WalletView_1"
  unfolding hi_IN_WalletView_1_def by (simp add: catalogue_eval cong: eval_congs)

lemma hi_IN_WalletView_1_forms: "list_all (forms_ok 2) hi_IN_WalletView_1"
  unfolding hi_IN_WalletView_1_def by (simp add: forms_ok_def cong: form_congs)

definition hi_IN_WalletView :: context_messages where
  "hi_IN_WalletView = (''WalletView'', hi_IN_WalletView_1)"

lemma hi_IN_WalletView_ok: "context_ok 2 hi_IN_WalletView"
  unfolding hi_IN_WalletView_def by (simp add: context_ok_def hi_IN_WalletView_1_ok
    hi_IN_WalletView_1_forms)

definition hi_IN_blazecoin_core_1 :: "message list" where
  "hi_IN_blazecoin_core_1 =
    [
     Msg [At ''../blazecoinstrings.cpp'' 94] [A ''Blazecoin version''] False False [[U [2348, 2368,
      2335, 2325, 2379, 2311, 2344], A ''  '', U [2360, 2306, 2360, 2381, 2325, 2352, 2339]]],
     Msg [Rel 102] [A ''Usage:''] False False [[U [2326, 2346, 2340], A '' :'']],
     Msg [Rel (- 29)] [A ''Send command to -server or blazecoind''] False False [[A ''-server '',
      U [2351, 2366], A '' blazecoind '', U [2325, 2379], A '' '', U [2325, 2350, 2366, 2306,
      2337], A '' '', U [2349, 2375, 2332, 2375, 2306]]],
     Msg [Rel (- 23)] [A ''List commands''] False False [[A ''commands '', U [2325, 2368], A '' '',
      U [2354, 2367, 2360, 2381, 2335], A '' '', U [2348, 2344, 2366, 2319, 2306]]],
     Msg [Rel (- 12)] [A ''Get help for a command''] False False [[U [2325, 2367, 2360, 2368],
      A '' command '', U [2325, 2375], A '' '', U [2354, 2367, 2319], A '' '', U [2350, 2342,
      2342], A '' '', U [2354, 2375, 2306]]],
     Msg [Rel 24] [A ''Options:''] False False [[U [2357, 2367, 2325, 2354, 2381, 2346], A '':'']],
     Msg [Rel 24] [A ''Specify configuration file (default: blazecoin.conf)''] False False [[A ''configuraion '',
      U [2325, 2368], A '' '', U [2347, 2366, 2311, 2354], A '' '', U [2325, 2366], A '' '',
      U [2357, 2367, 2357, 2352, 2339], A '' '', U [2342, 2375, 2306],
      A '' (default: blazecoin.conf)'']],
     Msg [Rel 3] [A ''Specify pid file (default: blazecoind.pid)''] False False [[A ''pid '',
      U [2347, 2366, 2311, 2354], A '' '', U [2325, 2366], A '' '', U [2357, 2367, 2357, 2352,
      2339], A '' '', U [2342, 2375, 2306], A '' (default: blazecoin.pid)'']],
     Msg [Rel (- 1)] [A ''Specify data directory''] True False [[]],
     Msg [Rel (- 9)] [A ''Set database cache size in megabytes (default: 25)''] True False [[]],
     Msg [Rel (- 28)] [A ''Listen for connections on <port> (default: 7951 or testnet: 17951)''] True False [[]],
     Msg [Rel 5] [A ''Maintain at most <n> connections to peers (default: 125)''] True False [[]],
     Msg [Rel (- 48)] [A ''Connect to a node to retrieve peer addresses, and disconnect''] True False [[]],
     Msg [Rel 82] [A ''Specify your own public address''] True False [[]],
     Msg [Rel 3] [A ''Threshold for disconnecting misbehaving peers (default: 100)''] True False [[]],
     Msg [Rel (- 134)] [A ''Number of seconds to keep misbehaving peers from reconnecting (default: 86400)''] True False [[]],
     Msg [Rel (- 29)] [A ''An error occurred while setting up the RPC port %u for listening on IPv4: %s''] True False [[]],
     Msg [Rel 27] [A ''Listen for JSON-RPC connections on <port> (default: 7950 or testnet: 17950)''] True False [[]],
     Msg [Rel 37] [A ''Accept command line and JSON-RPC commands''] True False [[]],
     Msg [Rel 76] [A ''Run in the background as a daemon and accept commands''] True False [[]],
     Msg [Rel 37] [A ''Use the test network''] True False [[]],
     Msg [Rel (- 112)] [A ''Accept connections from outside (default: 1 if no -proxy or -connect)''] True False [[]],
     Msg [Rel (- 80)] [A ''%s, you must set a rpcpassword in the configuration file:'',
      C (CHR 0x0A), A ''%s'', C (CHR 0x0A),
      A ''It is recommended you use the following random password:'', C (CHR 0x0A),
      A ''rpcuser=blazecoinrpc'', C (CHR 0x0A), A ''rpcpassword=%s'', C (CHR 0x0A),
      A ''(you do not need to remember this password)'', C (CHR 0x0A),
      A ''The username and password MUST NOT be the same.'', C (CHR 0x0A),
      A ''If the file does not exist, create it with owner-readable-only file permissions.'',
      C (CHR 0x0A),
      A ''It is also recommended to set alertnotify so you are notified of problems;'',
      C (CHR 0x0A), A ''for example: alertnotify=echo %%s | mail -s '', C (CHR 0x22),
      A ''Blazecoin Alert'', C (CHR 0x22), A '' admin'', C (CHR 0x40), A ''foo.com'',
      C (CHR 0x0A)] True False [[]],
     Msg [Rel 17] [A ''An error occurred while setting up the RPC port %u for listening on IPv6, falling back to IPv4: %s''] True False [[]],
     Msg [Rel 3] [A ''Bind to given address and always listen on it. Use [host]:port notation for IPv6''] True False [[]],
     Msg [Rel 3] [A ''Cannot obtain a lock on data directory %s. Blazecoin is probably already running.''] True False [[]],
     Msg [Rel 3] [A ''Error: The transaction was rejected! This might happen if some of the coins in your wallet were already spent, such as if you used a copy of wallet.dat and coins were spent in the copy but not marked as spent here.''] True False [[]]
    ]"

lemma hi_IN_blazecoin_core_1_ok: "list_all same_printf hi_IN_blazecoin_core_1"
  unfolding hi_IN_blazecoin_core_1_def by (simp add: catalogue_eval cong: eval_congs)

lemma hi_IN_blazecoin_core_1_forms: "list_all (forms_ok 2) hi_IN_blazecoin_core_1"
  unfolding hi_IN_blazecoin_core_1_def by (simp add: forms_ok_def cong: form_congs)

definition hi_IN_blazecoin_core_2 :: "message list" where
  "hi_IN_blazecoin_core_2 =
    [
     Msg [Rel 4] [A ''Error: This transaction requires a transaction fee of at least %s because of its amount, complexity, or use of recently received funds!''] True False [[]],
     Msg [Rel 3] [A ''Execute command when a relevant alert is received (%s in cmd is replaced by message)''] True False [[]],
     Msg [Rel 3] [A ''Execute command when a wallet transaction changes (%s in cmd is replaced by TxID)''] True False [[]],
     Msg [Rel 11] [A ''Set maximum size of high-priority/low-fee transactions in bytes (default: 27000)''] True False [[]],
     Msg [Rel 6] [A ''This is a pre-release test build - use at your own risk - do not use for mining or merchant applications''] True False [[]],
     Msg [Rel 5] [A ''Warning: -paytxfee is set very high! This is the transaction fee you will pay if you send a transaction.''] True False [[]],
     Msg [Rel 3] [A ''Warning: Displayed transactions may not be correct! You may need to upgrade, or other nodes may need to upgrade.''] True False [[]],
     Msg [Rel 3] [A ''Warning: Please check that your computer'', C (CHR 0x27),
      A ''s date and time are correct! If your clock is wrong Blazecoin will not work properly.''] True False [[]],
     Msg [Rel 3] [A ''Warning: error reading wallet.dat! All keys read correctly, but transaction data or address book entries might be missing or incorrect.''] True False [[]],
     Msg [Rel 3] [A ''Warning: wallet.dat corrupt, data salvaged! Original wallet.dat saved as wallet.{timestamp}.bak in %s; if your balance or transactions are incorrect you should restore from a backup.''] True False [[]],
     Msg [Rel 14] [A ''Attempt to recover private keys from a corrupt wallet.dat''] True False [[]],
     Msg [Rel 2] [A ''Block creation options:''] True False [[]],
     Msg [Rel 5] [A ''Connect only to the specified node(s)''] True False [[]],
     Msg [Rel 3] [A ''Corrupted block database detected''] True False [[]],
     Msg [Rel 1] [A ''Discover own IP address (default: 1 when listening and no -externalip)''] True False [[]],
     Msg [Rel 1] [A ''Do you want to rebuild the block database now?''] True False [[]],
     Msg [Rel 2] [A ''Error initializing block database''] True False [[]],
     Msg [Rel 1] [A ''Error initializing wallet database environment %s!''] True False [[]],
     Msg [Rel 1] [A ''Error loading block database''] True False [[]],
     Msg [Rel 4] [A ''Error opening block database''] True False [[]],
     Msg [Rel 2] [A ''Error: Disk space is low!''] True False [[]],
     Msg [Rel 1] [A ''Error: Wallet locked, unable to create transaction!''] True False [[]],
     Msg [Rel 1] [A ''Error: system error: ''] True False [[]],
     Msg [Rel 1] [A ''Failed to listen on any port. Use -listen=0 if you want this.''] True False [[]],
     Msg [Rel 1] [A ''Failed to read block info''] True False [[]],
     Msg [Rel 1] [A ''Failed to read block''] True False [[]],
     Msg [Rel 1] [A ''Failed to sync block index''] True False [[]],
     Msg [Rel 1] [A ''Failed to write block index''] True False [[]],
     Msg [Rel 1] [A ''Failed to write block info''] True False [[]]
    ]"

lemma hi_IN_blazecoin_core_2_ok: "list_all same_printf hi_IN_blazecoin_core_2"
  unfolding hi_IN_blazecoin_core_2_def by (simp add: catalogue_eval cong: eval_congs)

lemma hi_IN_blazecoin_core_2_forms: "list_all (forms_ok 2) hi_IN_blazecoin_core_2"
  unfolding hi_IN_blazecoin_core_2_def by (simp add: forms_ok_def cong: form_congs)

definition hi_IN_blazecoin_core_3 :: "message list" where
  "hi_IN_blazecoin_core_3 =
    [
     Msg [Rel 1] [A ''Failed to write block''] True False [[]],
     Msg [Rel 1] [A ''Failed to write file info''] True False [[]],
     Msg [Rel 1] [A ''Failed to write to coin database''] True False [[]],
     Msg [Rel 1] [A ''Failed to write transaction index''] True False [[]],
     Msg [Rel 1] [A ''Failed to write undo data''] True False [[]],
     Msg [Rel 2] [A ''Find peers using DNS lookup (default: 1 unless -connect)''] True False [[]],
     Msg [Rel 1] [A ''Generate coins (default: 0)''] True False [[]],
     Msg [Rel 2] [A ''How many blocks to check at startup (default: 288, 0 = all)''] True False [[]],
     Msg [Rel 1] [A ''How thorough the block verification is (0-4, default: 3)''] True False [[]],
     Msg [Rel 19] [A ''Not enough file descriptors available.''] True False [[]],
     Msg [Rel 8] [A ''Rebuild block chain index from current blk000??.dat files''] True False [[]],
     Msg [Rel 16] [A ''Set the number of threads to service RPC calls (default: 4)''] True False [[]],
     Msg [Rel 26] [A ''Verifying blocks...''] False False [[U [2348, 2381, 2354, 2377, 2325, 2381,
      2360], A '' '', U [2332, 2366, 2305, 2330, 2375], A '' '', U [2332, 2366], A '' '', U [2352,
      2361, 2366], A '' '', U [2361, 2376], A ''...'']],
     Msg [Rel 1] [A ''Verifying wallet...''] False False [[U [2357, 2377, 2354, 2375, 2335],
      A '' '', U [2332, 2366, 2305, 2330, 2366], A '' '', U [2332, 2366], A '' '', U [2352, 2361,
      2366], A '' '', U [2361, 2376], A ''...'']],
     Msg [Rel (- 69)] [A ''Imports blocks from external blk000??.dat file''] True False [[]],
     Msg [Rel (- 76)] [A ''Set the number of script verification threads (up to 16, 0 = auto, <0 = leave that many cores free, default: 0)''] True False [[]],
     Msg [Rel 77] [A ''Information''] False False [[U [2332, 2366, 2344, 2325, 2366, 2352, 2368]]],
     Msg [Rel 3] [A ''Invalid -tor address: '', C (CHR 0x27), A ''%s'',
      C (CHR 0x27)] True False [[]],
     Msg [Rel 1] [A ''Invalid amount for -minrelaytxfee=<amount>: '', C (CHR 0x27), A ''%s'',
      C (CHR 0x27)] True False [[]],
     Msg [Rel 1] [A ''Invalid amount for -mintxfee=<amount>: '', C (CHR 0x27), A ''%s'',
      C (CHR 0x27)] True False [[]],
     Msg [Rel 8] [A ''Maintain a full transaction index (default: 0)''] True False [[]],
     Msg [Rel 2] [A ''Maximum per-connection receive buffer, <n>*1000 bytes (default: 5000)''] True False [[]],
     Msg [Rel 1] [A ''Maximum per-connection send buffer, <n>*1000 bytes (default: 1000)''] True False [[]],
     Msg [Rel 2] [A ''Only accept block chain matching built-in checkpoints (default: 1)''] True False [[]],
     Msg [Rel 1] [A ''Only connect to nodes in network <net> (IPv4, IPv6 or Tor)''] True False [[]],
     Msg [Rel 2] [A ''Output extra debugging information. Implies all other -debug* options''] True False [[]],
     Msg [Rel 1] [A ''Output extra network debugging information''] True False [[]],
     Msg [Rel 2] [A ''Prepend debug output with timestamp''] True False [[]],
     Msg [Rel 5] [A ''SSL options: (see the Blazecoin Wiki for SSL setup instructions)''] True False [[]]
    ]"

lemma hi_IN_blazecoin_core_3_ok: "list_all same_printf hi_IN_blazecoin_core_3"
  unfolding hi_IN_blazecoin_core_3_def by (simp add: catalogue_eval cong: eval_congs)

lemma hi_IN_blazecoin_core_3_forms: "list_all (forms_ok 2) hi_IN_blazecoin_core_3"
  unfolding hi_IN_blazecoin_core_3_def by (simp add: forms_ok_def cong: form_congs)

definition hi_IN_blazecoin_core_4 :: "message list" where
  "hi_IN_blazecoin_core_4 =
    [
     Msg [Rel 1] [A ''Select the version of socks proxy to use (4-5, default: 5)''] True False [[]],
     Msg [Rel 3] [A ''Send trace/debug info to console instead of debug.log file''] True False [[]],
     Msg [Rel 1] [A ''Send trace/debug info to debugger''] True False [[]],
     Msg [Rel 5] [A ''Set maximum block size in bytes (default: 250000)''] True False [[]],
     Msg [Rel 1] [A ''Set minimum block size in bytes (default: 0)''] True False [[]],
     Msg [Rel 2] [A ''Shrink debug.log file on client startup (default: 1 when no -debug)''] True False [[]],
     Msg [Rel 1] [A ''Signing transaction failed''] True False [[]],
     Msg [Rel 2] [A ''Specify connection timeout in milliseconds (default: 5000)''] True False [[]],
     Msg [Rel 4] [A ''System error: ''] True False [[]],
     Msg [Rel 4] [A ''Transaction amount too small''] True False [[]],
     Msg [Rel 1] [A ''Transaction amounts must be positive''] True False [[]],
     Msg [Rel 1] [A ''Transaction too large''] True False [[]],
     Msg [Rel 7] [A ''Use UPnP to map the listening port (default: 0)''] True False [[]],
     Msg [Rel 1] [A ''Use UPnP to map the listening port (default: 1 when listening)''] True False [[]],
     Msg [Rel 1] [A ''Use proxy to reach tor hidden services (default: same as -proxy)''] True False [[]],
     Msg [Rel 2] [A ''Username for JSON-RPC connections''] True False [[]],
     Msg [Rel 4] [A ''Warning''] False False [[U [2330, 2375, 2340, 2366, 2357, 2344, 2368]]],
     Msg [Rel 1] [A ''Warning: This version is obsolete, upgrade required!''] True False [[]],
     Msg [Rel 1] [A ''You need to rebuild the databases using -reindex to change -txindex''] True False [[]],
     Msg [Rel 1] [A ''wallet.dat corrupt, salvage failed''] True False [[]],
     Msg [Rel (- 50)] [A ''Password for JSON-RPC connections''] True False [[]],
     Msg [Rel (- 67)] [A ''Allow JSON-RPC connections from specified IP address''] True False [[]],
     Msg [Rel 76] [A ''Send commands to node running on <ip> (default: 127.0.0.1)''] True False [[]],
     Msg [Rel (- 120)] [A ''Execute command when the best block changes (%s in cmd is replaced by block hash)''] True False [[]],
     Msg [Rel 147] [A ''Upgrade wallet to latest format''] True False [[]],
     Msg [Rel (- 21)] [A ''Set key pool size to <n> (default: 100)''] True False [[]],
     Msg [Rel (- 12)] [A ''Rescan the block chain for missing wallet transactions''] True False [[]],
     Msg [Rel 35] [A ''Use OpenSSL (https) for JSON-RPC connections''] True False [[]],
     Msg [Rel (- 26)] [A ''Server certificate file (default: server.cert)''] True False [[]]
    ]"

lemma hi_IN_blazecoin_core_4_ok: "list_all same_printf hi_IN_blazecoin_core_4"
  unfolding hi_IN_blazecoin_core_4_def by (simp add: catalogue_eval cong: eval_congs)

lemma hi_IN_blazecoin_core_4_forms: "list_all (forms_ok 2) hi_IN_blazecoin_core_4"
  unfolding hi_IN_blazecoin_core_4_def by (simp add: forms_ok_def cong: form_congs)

definition hi_IN_blazecoin_core_5 :: "message list" where
  "hi_IN_blazecoin_core_5 =
    [
     Msg [Rel 1] [A ''Server private key (default: server.pem)''] True False [[]],
     Msg [Rel (- 151)] [A ''Acceptable ciphers (default: TLSv1+HIGH:!SSLv2:!aNULL:!eNULL:!AH:!3DES:'',
      C (CHR 0x40), A ''STRENGTH)''] True False [[]],
     Msg [Rel 165] [A ''This help message''] True False [[]],
     Msg [Rel 6] [A ''Unable to bind to %s on this computer (bind returned error %d, %s)''] True False [[]],
     Msg [Rel (- 91)] [A ''Connect through socks proxy''] True False [[]],
     Msg [Rel (- 10)] [A ''Allow DNS lookups for -addnode, -seednode and -connect''] True False [[]],
     Msg [Rel 55] [A ''Loading addresses...''] False False [[U [2346, 2340, 2366], A '' '',
      U [2346, 2369, 2360, 2381, 2340, 2325], A '' '', U [2310], A '' '', U [2352, 2361, 2368],
      A '' '', U [2361, 2376], A ''...'']],
     Msg [Rel (- 35)] [A ''Error loading wallet.dat: Wallet corrupted''] True False [[]],
     Msg [Rel 1] [A ''Error loading wallet.dat: Wallet requires newer version of Blazecoin''] True False [[]],
     Msg [Rel 93] [A ''Wallet needed to be rewritten: restart Blazecoin to complete''] True False [[]],
     Msg [Rel (- 95)] [A ''Error loading wallet.dat''] True False [[]],
     Msg [Rel 28] [A ''Invalid -proxy address: '', C (CHR 0x27), A ''%s'',
      C (CHR 0x27)] True False [[]],
     Msg [Rel 56] [A ''Unknown network specified in -onlynet: '', C (CHR 0x27), A ''%s'',
      C (CHR 0x27)] True False [[]],
     Msg [Rel (- 1)] [A ''Unknown -socks proxy version requested: %i''] True False [[]],
     Msg [Rel (- 96)] [A ''Cannot resolve -bind address: '', C (CHR 0x27), A ''%s'',
      C (CHR 0x27)] True False [[]],
     Msg [Rel 1] [A ''Cannot resolve -externalip address: '', C (CHR 0x27), A ''%s'',
      C (CHR 0x27)] True False [[]],
     Msg [Rel 44] [A ''Invalid amount for -paytxfee=<amount>: '', C (CHR 0x27), A ''%s'',
      C (CHR 0x27)] True False [[]],
     Msg [Rel 1] [A ''Invalid amount''] False False [[U [2352, 2366, 2358, 2367], A '' '', U [2327,
      2364, 2354, 2340], A '' '', U [2361, 2376]]],
     Msg [Rel (- 6)] [A ''Insufficient funds''] True False [[]],
     Msg [Rel 10] [A ''Loading block index...''] False False [[U [2348, 2381, 2354, 2377, 2325],
      A '' '', U [2311, 2306, 2337, 2375, 2325, 2381, 2360], A '' '', U [2310], A '' '', U [2352,
      2361, 2366], A '' '', U [2361, 2376], A ''...'']],
     Msg [Rel (- 57)] [A ''Add a node to connect to and attempt to keep the connection open''] True False [[]],
     Msg [Rel (- 25)] [A ''Unable to bind to %s on this computer. Blazecoin is probably already running.''] True False [[]],
     Msg [Rel 64] [A ''Fee per KB to add to transactions you send''] True False [[]],
     Msg [Rel 19] [A ''Loading wallet...''] False False [[U [2357, 2377, 2354, 2375, 2335],
      A '' '', U [2310], A '' '', U [2352, 2361, 2366], A '' '', U [2361, 2376], A ''...'']],
     Msg [Rel (- 52)] [A ''Cannot downgrade wallet''] True False [[]],
     Msg [Rel 3] [A ''Cannot write default address''] True False [[]],
     Msg [Rel 64] [A ''Rescanning...''] False False [[U [2352, 2367], A ''-'', U [2360, 2381, 2325,
      2375, 2344, 2368], A ''-'', U [2311, 2306, 2327], A ''...'']],
     Msg [Rel (- 57)] [A ''Done loading''] False False [[U [2354, 2379, 2337], A '' '', U [2361,
      2379], A '' '', U [2327, 2351, 2366], A ''|'']],
     Msg [Rel 82] [A ''To use the %s option''] True False [[]]
    ]"

lemma hi_IN_blazecoin_core_5_ok: "list_all same_printf hi_IN_blazecoin_core_5"
  unfolding hi_IN_blazecoin_core_5_def by (simp add: catalogue_eval cong: eval_congs)

lemma hi_IN_blazecoin_core_5_forms: "list_all (forms_ok 2) hi_IN_blazecoin_core_5"
  unfolding hi_IN_blazecoin_core_5_def by (simp add: forms_ok_def cong: form_congs)

definition hi_IN_blazecoin_core_6 :: "message list" where
  "hi_IN_blazecoin_core_6 =
    [
     Msg [Rel (- 74)] [A ''Error''] False False [[U [2349, 2370, 2354]]],
     Msg [Rel (- 31)] [A ''You must set rpcpassword=<password> in the configuration file:'',
      C (CHR 0x0A), A ''%s'', C (CHR 0x0A),
      A ''If the file does not exist, create it with owner-readable-only file permissions.''] True False [[]]
    ]"

lemma hi_IN_blazecoin_core_6_ok: "list_all same_printf hi_IN_blazecoin_core_6"
  unfolding hi_IN_blazecoin_core_6_def by (simp add: catalogue_eval cong: eval_congs)

lemma hi_IN_blazecoin_core_6_forms: "list_all (forms_ok 2) hi_IN_blazecoin_core_6"
  unfolding hi_IN_blazecoin_core_6_def by (simp add: forms_ok_def cong: form_congs)

definition hi_IN_blazecoin_core :: context_messages where
  "hi_IN_blazecoin_core = (''blazecoin-core'', hi_IN_blazecoin_core_1 @ hi_IN_blazecoin_core_2 @ hi_IN_blazecoin_core_3 @ hi_IN_blazecoin_core_4 @ hi_IN_blazecoin_core_5 @ hi_IN_blazecoin_core_6)"

lemma hi_IN_blazecoin_core_ok: "context_ok 2 hi_IN_blazecoin_core"
  unfolding hi_IN_blazecoin_core_def by (simp add: context_ok_def hi_IN_blazecoin_core_1_ok
    hi_IN_blazecoin_core_1_forms hi_IN_blazecoin_core_2_ok hi_IN_blazecoin_core_2_forms
    hi_IN_blazecoin_core_3_ok hi_IN_blazecoin_core_3_forms hi_IN_blazecoin_core_4_ok
    hi_IN_blazecoin_core_4_forms hi_IN_blazecoin_core_5_ok hi_IN_blazecoin_core_5_forms
    hi_IN_blazecoin_core_6_ok hi_IN_blazecoin_core_6_forms)

definition hi_IN_catalogue :: catalogue where
  "hi_IN_catalogue =
    [hi_IN_AboutDialog, hi_IN_AddressBookPage, hi_IN_AddressTableModel, hi_IN_AskPassphraseDialog,
      hi_IN_BlazecoinGUI, hi_IN_ClientModel, hi_IN_EditAddressDialog, hi_IN_GUIUtil_HelpMessageBox,
      hi_IN_OptionsDialog, hi_IN_OverviewPage, hi_IN_PaymentServer, hi_IN_QRCodeDialog,
      hi_IN_RPCConsole, hi_IN_SendCoinsDialog, hi_IN_SendCoinsEntry, hi_IN_SignVerifyMessageDialog,
      hi_IN_SplashScreen, hi_IN_TransactionDesc, hi_IN_TransactionDescDialog,
      hi_IN_TransactionTableModel, hi_IN_TransactionView, hi_IN_WalletModel, hi_IN_WalletView,
      hi_IN_blazecoin_core]"

lemma hi_IN_catalogue_ok: "list_all (context_ok 2) hi_IN_catalogue"
  unfolding hi_IN_catalogue_def by (simp add: hi_IN_AboutDialog_ok hi_IN_AddressBookPage_ok
    hi_IN_AddressTableModel_ok hi_IN_AskPassphraseDialog_ok hi_IN_BlazecoinGUI_ok
    hi_IN_ClientModel_ok hi_IN_EditAddressDialog_ok hi_IN_GUIUtil_HelpMessageBox_ok
    hi_IN_OptionsDialog_ok hi_IN_OverviewPage_ok hi_IN_PaymentServer_ok hi_IN_QRCodeDialog_ok
    hi_IN_RPCConsole_ok hi_IN_SendCoinsDialog_ok hi_IN_SendCoinsEntry_ok
    hi_IN_SignVerifyMessageDialog_ok hi_IN_SplashScreen_ok hi_IN_TransactionDesc_ok
    hi_IN_TransactionDescDialog_ok hi_IN_TransactionTableModel_ok hi_IN_TransactionView_ok
    hi_IN_WalletModel_ok hi_IN_WalletView_ok hi_IN_blazecoin_core_ok)

end
