(* ===== verification/TranslationUse.thy ===== *)
theory TranslationUse
  imports Translation Catalogue_zh_CN Catalogue_ja Catalogue_hi_IN Catalogue_gu_IN
begin

text \<open>
  How the program reads its catalogues: Translate and the function _, every call of strprintf whose
  format goes through them, and the resource table that says which files the program is built with.
  Qt's search of a compiled catalogue is the parameter qt; what is documented of it is the
  locale catalogue_reader.
\<close>

section \<open>Looking texts up\<close>

text \<open>A message provides the translation of a text when it is finished and its text is not empty.\<close>

definition provides :: "catalogue \<Rightarrow> string \<Rightarrow> utext \<Rightarrow> utext \<Rightarrow> bool" where
  "provides cat ctx t r \<longleftrightarrow>
     (\<exists>ms m. (ctx, ms) \<in> set cat \<and> m \<in> set ms \<and> source m = t \<and> \<not> unfinished m \<and> r \<in> set (forms m) \<and> r \<noteq> [])"

text \<open>qt/blazecoin.cpp, Translate; ui_interface.h, _: the slot is None when no window is there.\<close>

definition Translate :: "(string \<Rightarrow> utext \<Rightarrow> utext) \<Rightarrow> utext \<Rightarrow> utext" where
  "Translate qt psz = qt ''blazecoin-core'' psz"

definition tr_text :: "(utext \<Rightarrow> utext) option \<Rightarrow> utext \<Rightarrow> utext" where
  "tr_text slot psz = (let rv = map_option (\<lambda>f. f psz) slot in case rv of Some r \<Rightarrow> r | None \<Rightarrow> psz)"

text \<open>
  Qt returns a translation the catalogue provides, or the text itself. What follows for the texts of
  the core holds for every catalogue whose messages agree with their sources.
\<close>

lemma agree_printf_iff: "agree_printf specs fs \<longleftrightarrow> (\<forall>f \<in> set fs. f = [] \<or> printf_specs f = specs)"
  by (induction fs) auto

lemma agree_markers_iff: "agree_markers ms fs \<longleftrightarrow> (\<forall>f \<in> set fs. f \<noteq> [] \<longrightarrow> set (markers f) = set ms)"
  by (induction fs) auto

locale catalogue_reader =
  fixes cat :: catalogue and qt :: "string \<Rightarrow> utext \<Rightarrow> utext" and k :: nat
  assumes lookup: "qt ctx t = t \<or> provides cat ctx t (qt ctx t)"
    and contexts_ok: "list_all (context_ok k) cat"
begin

lemma core_specs: "printf_specs (qt ''blazecoin-core'' t) = printf_specs t"
proof (cases "qt ''blazecoin-core'' t = t")
  case False
  then obtain ms m where m: "(''blazecoin-core'', ms) \<in> set cat" "m \<in> set ms" "source m = t"
    "qt ''blazecoin-core'' t \<in> set (forms m)" "qt ''blazecoin-core'' t \<noteq> []"
    using lookup [of "''blazecoin-core''" t] by (auto simp: provides_def)
  from contexts_ok m(1) have "context_ok k (''blazecoin-core'', ms)" by (auto simp: list_all_iff)
  with m(2) have "same_printf m" by (simp add: context_ok_def list_all_iff)
  with m(3-5) show ?thesis by (auto simp: same_printf_def agree_printf_iff)
qed simp

lemma tr_text_specs: "slot = None \<or> slot = Some (Translate qt) \<Longrightarrow> printf_specs (tr_text slot t) = printf_specs t"
  by (auto simp: tr_text_def Translate_def core_specs)

end

text \<open>A reader that searches the catalogue in order.\<close>

fun find_form :: "utext \<Rightarrow> message list \<Rightarrow> utext" where
  "find_form t [] = t"
| "find_form t (m # ms) =
     (if source m = t \<and> \<not> unfinished m \<and> forms m \<noteq> [] \<and> hd (forms m) \<noteq> [] then hd (forms m)
      else find_form t ms)"

definition catalogue_lookup :: "catalogue \<Rightarrow> string \<Rightarrow> utext \<Rightarrow> utext" where
  "catalogue_lookup cat ctx t = (case map_of cat ctx of None \<Rightarrow> t | Some ms \<Rightarrow> find_form t ms)"

lemma find_form_provides:
  "find_form t ms = t \<or> (\<exists>m \<in> set ms. source m = t \<and> \<not> unfinished m \<and> find_form t ms \<in> set (forms m) \<and> find_form t ms \<noteq> [])"
  by (induction ms) auto

lemma catalogue_lookup_provides:
  "catalogue_lookup cat ctx t = t \<or> provides cat ctx t (catalogue_lookup cat ctx t)"
proof (cases "map_of cat ctx")
  case (Some ms)
  then have "(ctx, ms) \<in> set cat" by (rule map_of_SomeD)
  with Some find_form_provides [of t ms] show ?thesis by (auto simp: catalogue_lookup_def provides_def)
qed (simp add: catalogue_lookup_def)

interpretation zh_CN: catalogue_reader zh_CN_catalogue "catalogue_lookup zh_CN_catalogue" "Suc 0"
  by unfold_locales (rule catalogue_lookup_provides, rule zh_CN_catalogue_ok)
interpretation ja: catalogue_reader ja_catalogue "catalogue_lookup ja_catalogue" "Suc 0"
  by unfold_locales (rule catalogue_lookup_provides, rule ja_catalogue_ok)
interpretation hi_IN: catalogue_reader hi_IN_catalogue "catalogue_lookup hi_IN_catalogue" 2
  by unfold_locales (rule catalogue_lookup_provides, rule hi_IN_catalogue_ok)
interpretation gu_IN: catalogue_reader gu_IN_catalogue "catalogue_lookup gu_IN_catalogue" 2
  by unfold_locales (rule catalogue_lookup_provides, rule gu_IN_catalogue_ok)

section \<open>The formats of the core\<close>

text \<open>
  Every call of strprintf with a translated format: the format and the types of the arguments (a C
  string, an int, an unsigned).
\<close>

datatype printf_arg = ArgStr | ArgInt | ArgUInt

type_synonym printf_call = "utext \<times> printf_arg list"

definition call_init_mintxfee :: printf_call where
  "call_init_mintxfee = ([A ''Invalid amount for -mintxfee=<amount>: '', C (CHR 0x27), A ''%s'',
   C (CHR 0x27)], [ArgStr])"

definition call_init_minrelaytxfee :: printf_call where
  "call_init_minrelaytxfee = ([A ''Invalid amount for -minrelaytxfee=<amount>: '', C (CHR 0x27),
   A ''%s'', C (CHR 0x27)], [ArgStr])"

definition call_init_paytxfee :: printf_call where
  "call_init_paytxfee = ([A ''Invalid amount for -paytxfee=<amount>: '', C (CHR 0x27), A ''%s'',
   C (CHR 0x27)], [ArgStr])"

definition call_init_mininput :: printf_call where
  "call_init_mininput = ([A ''Invalid amount for -mininput=<amount>: '', C (CHR 0x27), A ''%s'',
   C (CHR 0x27)], [ArgStr])"

definition call_init_datadir_lock :: printf_call where
  "call_init_datadir_lock = ([A ''Cannot obtain a lock on data directory %s. Blazecoin is probably already running.''],
   [ArgStr])"

definition call_init_dbenv :: printf_call where
  "call_init_dbenv = ([A ''Error initializing wallet database environment %s!''], [ArgStr])"

definition call_init_salvaged :: printf_call where
  "call_init_salvaged = ([A ''Warning: wallet.dat corrupt, data salvaged! Original wallet.dat saved as wallet.{timestamp}.bak in %s; if your balance or transactions are incorrect you should restore from a backup.''],
   [ArgStr])"

definition call_init_socks :: printf_call where
  "call_init_socks = ([A ''Unknown -socks proxy version requested: %i''], [ArgInt])"

definition call_init_onlynet :: printf_call where
  "call_init_onlynet = ([A ''Unknown network specified in -onlynet: '', C (CHR 0x27), A ''%s'',
   C (CHR 0x27)], [ArgStr])"

definition call_init_proxy :: printf_call where
  "call_init_proxy = ([A ''Invalid -proxy address: '', C (CHR 0x27), A ''%s'', C (CHR 0x27)],
   [ArgStr])"

definition call_init_tor :: printf_call where
  "call_init_tor = ([A ''Invalid -tor address: '', C (CHR 0x27), A ''%s'', C (CHR 0x27)],
   [ArgStr])"

definition call_init_bind :: printf_call where
  "call_init_bind = ([A ''Cannot resolve -bind address: '', C (CHR 0x27), A ''%s'', C (CHR 0x27)],
   [ArgStr])"

definition call_init_externalip :: printf_call where
  "call_init_externalip = ([A ''Cannot resolve -externalip address: '', C (CHR 0x27), A ''%s'',
   C (CHR 0x27)], [ArgStr])"

definition call_wallet_rescan :: printf_call where
  "call_wallet_rescan = ([A ''Rescanning... block %d of %d (%d%%)''], [ArgInt, ArgInt, ArgInt])"

definition call_wallet_fee :: printf_call where
  "call_wallet_fee = ([A ''Error: This transaction requires a transaction fee of at least %s because of its amount, complexity, or use of recently received funds!''],
   [ArgStr])"

definition call_net_bind_running :: printf_call where
  "call_net_bind_running = ([A ''Unable to bind to %s on this computer. Blazecoin is probably already running.''],
   [ArgStr])"

definition call_net_bind_error :: printf_call where
  "call_net_bind_error = ([A ''Unable to bind to %s on this computer (bind returned error %d, %s)''],
   [ArgStr, ArgInt, ArgStr])"

definition call_rpc_what :: printf_call where
  "call_rpc_what = ([A ''To use the %s option''], [ArgStr])"

definition call_rpc_password :: printf_call where
  "call_rpc_password = ([A ''%s, you must set a rpcpassword in the configuration file:'',
   C (CHR 0x0A), A ''%s'', C (CHR 0x0A),
   A ''It is recommended you use the following random password:'', C (CHR 0x0A),
   A ''rpcuser=blazecoinrpc'', C (CHR 0x0A), A ''rpcpassword=%s'', C (CHR 0x0A),
   A ''(you do not need to remember this password)'', C (CHR 0x0A),
   A ''The username and password MUST NOT be the same.'', C (CHR 0x0A),
   A ''If the file does not exist, create it with owner-readable-only file permissions.'',
   C (CHR 0x0A), A ''It is also recommended to set alertnotify so you are notified of problems;'',
   C (CHR 0x0A), A ''for example: alertnotify=echo %%s | mail -s '', C (CHR 0x22),
   A ''Blazecoin Alert'', C (CHR 0x22), A '' admin'', C (CHR 0x40), A ''foo.com'', C (CHR 0x0A)],
   [ArgStr, ArgStr, ArgStr])"

definition call_rpc_ipv6 :: printf_call where
  "call_rpc_ipv6 = ([A ''An error occurred while setting up the RPC port %u for listening on IPv6, falling back to IPv4: %s''],
   [ArgUInt, ArgStr])"

definition call_rpc_ipv4 :: printf_call where
  "call_rpc_ipv4 = ([A ''An error occurred while setting up the RPC port %u for listening on IPv4: %s''],
   [ArgUInt, ArgStr])"

definition call_rpc_callrpc :: printf_call where
  "call_rpc_callrpc = ([A ''You must set rpcpassword=<password> in the configuration file:'',
   C (CHR 0x0A), A ''%s'', C (CHR 0x0A),
   A ''If the file does not exist, create it with owner-readable-only file permissions.''],
   [ArgStr])"

definition translated_calls :: "printf_call list" where
  "translated_calls = [call_init_mintxfee, call_init_minrelaytxfee, call_init_paytxfee,
   call_init_mininput, call_init_datadir_lock, call_init_dbenv, call_init_salvaged,
   call_init_socks, call_init_onlynet, call_init_proxy, call_init_tor, call_init_bind,
   call_init_externalip, call_wallet_rescan, call_wallet_fee, call_net_bind_running,
   call_net_bind_error, call_rpc_what, call_rpc_password, call_rpc_ipv6, call_rpc_ipv4,
   call_rpc_callrpc]"

text \<open>An argument list fits the conversions of a format; %% takes no argument.\<close>

fun accepts :: "string \<Rightarrow> printf_arg \<Rightarrow> bool" where
  "accepts s ArgStr = (s = ''s'')"
| "accepts s ArgInt = (s = ''d'' \<or> s = ''i'')"
| "accepts s ArgUInt = (s = ''u'')"

definition args_fit :: "string list \<Rightarrow> printf_arg list \<Rightarrow> bool" where
  "args_fit specs args \<longleftrightarrow> list_all2 accepts (filter (\<lambda>s. s \<noteq> ''%'') specs) args"

lemma translated_calls_fit: "list_all (\<lambda>(t, args). args_fit (printf_specs t) args) translated_calls"
  unfolding translated_calls_def
  by (simp add: args_fit_def printf_specs_def spec_chars_def cong: scan_cong
    add: call_init_mintxfee_def call_init_minrelaytxfee_def call_init_paytxfee_def call_init_mininput_def call_init_datadir_lock_def call_init_dbenv_def call_init_salvaged_def call_init_socks_def call_init_onlynet_def call_init_proxy_def call_init_tor_def call_init_bind_def call_init_externalip_def call_wallet_rescan_def call_wallet_fee_def call_net_bind_running_def call_net_bind_error_def call_rpc_what_def call_rpc_password_def call_rpc_ipv6_def call_rpc_ipv4_def call_rpc_callrpc_def)

text \<open>
  C40: A translated format never reads an argument that is not there or has another type: for each of
  the four catalogues, whatever Qt answers within its documented behaviour, and also when no window
  has connected the Translate signal, the conversions of the text that reaches strprintf at each of
  its calls are satisfied by the arguments of the call.
\<close>

theorem translated_formats_are_safe:
  assumes "cat \<in> {zh_CN_catalogue, ja_catalogue, hi_IN_catalogue, gu_IN_catalogue}"
    and "\<forall>ctx t. qt ctx t = t \<or> provides cat ctx t (qt ctx t)"
    and "(fmt, args) \<in> set translated_calls" and "slot = None \<or> slot = Some (Translate qt)"
  shows "args_fit (printf_specs (tr_text slot fmt)) args"
proof -
  have "\<exists>k. list_all (context_ok k) cat"
    using assms(1) zh_CN_catalogue_ok ja_catalogue_ok hi_IN_catalogue_ok gu_IN_catalogue_ok by auto
  then obtain k where "list_all (context_ok k) cat" ..
  with assms(2) have "catalogue_reader cat qt k" by unfold_locales auto
  from catalogue_reader.tr_text_specs [OF this assms(4)] translated_calls_fit assms(3)
  show ?thesis by (auto simp: list_all_iff)
qed

theorem translated_formats_are_safe_witness:
  "args_fit (printf_specs (tr_text (Some (Translate (catalogue_lookup zh_CN_catalogue))) (fst call_net_bind_error)))
     (snd call_net_bind_error)"
  by (rule translated_formats_are_safe [where cat = zh_CN_catalogue and qt = "catalogue_lookup zh_CN_catalogue"])
    (use catalogue_lookup_provides in \<open>auto simp: translated_calls_def\<close>)

text \<open>
  In every window context of the four catalogues a translation has exactly the place markers (%1,
  %2, %n) of its source, so that QString::arg substitutes every value and none is left over, and a
  message has the number of plural forms its language needs.
\<close>

theorem window_texts_keep_markers:
  assumes "(cat, k) \<in> {(zh_CN_catalogue, 1), (ja_catalogue, 1), (hi_IN_catalogue, 2), (gu_IN_catalogue, 2)}"
    and "(ctx, ms) \<in> set cat" and "ctx \<noteq> ''blazecoin-core''" and "m \<in> set ms"
  shows "(\<forall>f \<in> set (forms m). f \<noteq> [] \<longrightarrow> set (markers f) = set (markers (source m)))
    \<and> length (forms m) = (if numerus m then k else 1)"
proof -
  have "list_all (context_ok k) cat"
    using assms(1) zh_CN_catalogue_ok ja_catalogue_ok hi_IN_catalogue_ok gu_IN_catalogue_ok by auto
  with assms(2) have "context_ok k (ctx, ms)" by (auto simp: list_all_iff)
  with assms(3,4) have "same_markers m" "forms_ok k m" by (simp_all add: context_ok_def list_all_iff)
  then show ?thesis by (simp add: same_markers_def agree_markers_iff forms_ok_def)
qed

theorem window_texts_keep_markers_witness:
  "set (markers (hd (forms (hd zh_CN_ClientModel_1)))) = set (markers (source (hd zh_CN_ClientModel_1)))
   \<and> length (forms (hd zh_CN_ClientModel_1)) = 1"
  using window_texts_keep_markers [of zh_CN_catalogue 1 "''ClientModel''" zh_CN_ClientModel_1 "hd zh_CN_ClientModel_1"]
  by (simp add: zh_CN_catalogue_def zh_CN_ClientModel_def zh_CN_ClientModel_1_def)

section \<open>The files the program is built with\<close>

text \<open>qt/blazecoin.qrc: the language under which a file is found, and the file.\<close>

definition translation_files :: "(string \<times> string) list" where
  "translation_files = [(''af_ZA'', ''locale/blazecoin_af_ZA.qm''), (''ar'',
   ''locale/blazecoin_ar.qm''), (''bg'', ''locale/blazecoin_bg.qm''), (''bs'',
   ''locale/blazecoin_bs.ts''), (''ca'', ''locale/blazecoin_ca.ts''), (''ca_ES'',
   ''locale/blazecoin_ca_ES.qm''), (''cs'', ''locale/blazecoin_cs.qm''), (''cy'',
   ''locale/blazecoin_cy.ts''), (''da'', ''locale/blazecoin_da.qm''), (''de'',
   ''locale/blazecoin_de.qm''), (''el_GR'', ''locale/blazecoin_el_GR.qm''), (''en'',
   ''locale/blazecoin_en.qm''), (''eo'', ''locale/blazecoin_eo.ts''), (''es'',
   ''locale/blazecoin_es.qm''), (''es_CL'', ''locale/blazecoin_es_CL.qm''), (''et'',
   ''locale/blazecoin_et.qm''), (''eu_ES'', ''locale/blazecoin_eu_ES.qm''), (''fa'',
   ''locale/blazecoin_fa.qm''), (''fa_IR'', ''locale/blazecoin_fa_IR.qm''), (''fi'',
   ''locale/blazecoin_fi.qm''), (''fr'', ''locale/blazecoin_fr.qm''), (''fr_CA'',
   ''locale/blazecoin_fr_CA.qm''), (''gu_IN'', ''locale/blazecoin_gu_IN.ts''), (''he'',
   ''locale/blazecoin_he.qm''), (''hi_IN'', ''locale/blazecoin_hi_IN.ts''), (''hr'',
   ''locale/blazecoin_hr.qm''), (''hu'', ''locale/blazecoin_hu.qm''), (''it'',
   ''locale/blazecoin_it.qm''), (''ja'', ''locale/blazecoin_ja.ts''), (''la'',
   ''locale/blazecoin_la.ts''), (''lt'', ''locale/blazecoin_lt.qm''), (''lv_LV'',
   ''locale/blazecoin_lv_LV.ts''), (''nb'', ''locale/blazecoin_nb.qm''), (''nl'',
   ''locale/blazecoin_nl.qm''), (''pl'', ''locale/blazecoin_pl.qm''), (''pt_BR'',
   ''locale/blazecoin_pt_BR.qm''), (''pt_PT'', ''locale/blazecoin_pt_PT.qm''), (''ro_RO'',
   ''locale/blazecoin_ro_RO.qm''), (''ru'', ''locale/blazecoin_ru.qm''), (''sk'',
   ''locale/blazecoin_sk.qm''), (''sr'', ''locale/blazecoin_sr.qm''), (''sv'',
   ''locale/blazecoin_sv.qm''), (''th_TH'', ''locale/blazecoin_th_TH.ts''), (''tr'',
   ''locale/blazecoin_tr.qm''), (''uk'', ''locale/blazecoin_uk.qm''), (''zh_CN'',
   ''locale/blazecoin_zh_CN.qm''), (''zh_TW'', ''locale/blazecoin_zh_TW.qm'')]"

text \<open>The name of the file of a language, compiled or not.\<close>

definition locale_file :: "string \<Rightarrow> string \<Rightarrow> string" where
  "locale_file lang suffix = ''locale/blazecoin_'' @ lang @ suffix"

text \<open>
  The resource table registers 47 languages, each once and each with the file of its own name.
  Exactly ten of them, Japanese, Hindi and Gujarati among them, are registered with the source of the
  catalogue instead of a compiled one; QTranslator reads compiled catalogues only.
\<close>

theorem translation_files_table:
  "length translation_files = 47 \<and> distinct (map fst translation_files)
   \<and> list_all (\<lambda>(lang, file). file = locale_file lang (if List.member [''bs'', ''ca'', ''cy'', ''eo'',
        ''gu_IN'', ''hi_IN'', ''ja'', ''la'', ''lv_LV'', ''th_TH''] lang then ''.ts'' else ''.qm''))
      translation_files"
  unfolding translation_files_def by (simp add: locale_file_def)

end
