(* ===== verification/Spec2Isabelle.thy ===== *)
theory Spec2Isabelle
  imports Prelude Containers Bignum Phoenix Uint256 ScriptCode ScriptEval ScriptFacts Checker ScriptSpend Keys KeyFacts
    Money Serialize Transaction Coins Merkle Work Signature Blocks Solving SolveSign CoinsDisk CoinsDiskFacts
    MemPool MemPoolFacts PoolAccept Orphans Limited Bloom BloomFacts PartialTree PartialFacts MerkleProof
    Base58 Base58Facts CheckQueue Versions Checkpoints Chain ChainTree ChainFacts BestChain AcceptRules Node Translation TranslationUse
begin

text \<open>
  Blazecoin Wallet Core V1.5: the rules by which a node of the Blazecoin network accepts transactions
  and blocks, chooses its best chain and keeps its pool of transactions, what it sends to light clients, the
  key stores and addresses of its wallet, and the translated messages of its window. The program is a C++
  node (src/src) of the Bitcoin family with a Qt wallet (src/src/qt).

  How the program is put together. A block arrives from the network or from disk. CheckBlock looks at it
  alone: proof of work, Merkle root, size, and CheckTransaction for each transaction. AcceptBlock asks
  GetNextWorkRequired for the target the block must meet at its place; from height
  PHOENIX_ACTIVATION_HEIGHT on the answer is the Phoenix rule of phoenix413.h. SetBestChain looks for the
  block where the branches part, takes the blocks of the old branch back with DisconnectBlock and their undo
  data, and calls ConnectBlock for those of the new one. ConnectBlock looks up the inputs of every transaction
  in the coin database, runs their scripts (EvalScript, with CheckSig and SignatureHash), at once or in the
  queue of the script-checking threads, adds up values and fees, pays no more than the subsidy, and applies
  the transactions to the database with UpdateCoins. The coin database is read and written through caches
  (CCoinsViewCache) and flushed at the end. A transaction enters the pool by CTxMemPool::accept, or waits as
  an orphan for its inputs; a change of the best chain gives transactions back to the pool and takes others
  out. A light client loads a Bloom filter and receives blocks as a header with a partial Merkle tree.

  Theories.
  Prelude, Containers: streams of bytes, results, sorted maps and sets as the std containers order them.
  Bignum (bignum.h, over the contract of the OpenSSL library), Uint256 (uint256.h: limbs and operators).
  Phoenix (phoenix413.h, its vectors and its test), Work (main.cpp: proof of work, targets).
  Money (main.h, main.cpp, util.cpp: amounts, subsidies, compressed amounts, decimal text).
  Serialize (serialize.h), Transaction (main.h, main.cpp: transactions, blocks and their own checks).
  ScriptCode (script.h: opcodes, pushes, reading, counting), ScriptEval (script.cpp: EvalScript,
  VerifyScript), ScriptFacts and ScriptSpend (their properties), Signature (SignatureHash, the signature
  cache, CheckSig), Checker (what the interpreter relies on of CheckSig).
  Coins (main.h, main.cpp: the coin database, its caches, undo), CoinsDisk and CoinsDiskFacts (the compact
  forms of scripts, outputs and coins), Merkle (CBlock's tree and branches), Blocks (CheckInputs, CheckBlock,
  ConnectBlock), Versions (ConnectBlock decides the same over coins that differ in versions).
  Checkpoints (checkpoints.cpp: the hardened checkpoints).
  Chain (main.cpp, txdb.cpp: AcceptBlock, SetBestChain, the flush of the coins), ChainTree, ChainFacts and
  BestChain (the tree of blocks, its walks, and the two loops of SetBestChain), AcceptRules (what AcceptBlock
  demands, kept by the tree), Node (the reachable states).
  CheckQueue (checkqueue.h: the threads of the script checks as interleaved steps).
  MemPool (main.cpp: CTxMemPool), MemPoolFacts and PoolAccept (its invariant and what a change of the best
  chain leaves), Orphans (orphan transactions and the message tx), Limited (mruset.h, limitedmap.h).
  Bloom and BloomFacts (hash.cpp, bloom.cpp: MurmurHash3, the filters, their messages), PartialTree,
  PartialFacts and MerkleProof (CPartialMerkleTree, CMerkleBlock).
  Keys and KeyFacts (key.cpp, crypter.cpp, keystore.cpp), Solving and SolveSign (script.cpp: Solver, IsMine,
  SignSignature and the standard scripts), Base58 and Base58Facts (base58.h: addresses and secret keys).
  Translation, the Catalogue theories and TranslationUse (the Qt catalogues zh_CN, ja, hi_IN and gu_IN, and
  the calls that format a translated text).

  How state is modelled. A class is a record with the names of its members, a method a function that
  takes the record and returns it changed. The CBlockIndex objects are a map from addresses to nodes with
  pprev pointers; where a rule only reads ancestors it takes the list of them, chain_of. A view of coins is
  its cache and the function its base computes. Streams are the lists of bytes still to be read. An int or
  int64 that the program compares and adds is an integer with its range written out where it matters; what
  the source computes in uint32, uint64 or wider unsigned types is a word or a list of limbs, with its
  wrap-around. The machine is little-endian, as in the source. A failed assertion, a null pointer, a division
  by zero or an exception is None or a verdict of its own. What the program draws at random is an argument.

  Interfaces. The OpenSSL big numbers (bignum_library), the sorted containers, the pairs of
  Serialize and Unserialize (serializer), the compact forms on disk (codec), the coin stores (coins_store),
  what a store does to the version of coins (version_kept), the signature check the interpreter calls
  (checker_contract), the key stores (key_store) and the readers of the catalogues (catalogue_reader) are
  locales, each interpreted on the definitions of the program. Hash functions, the elliptic curve,
  AES and scrypt are arguments and nothing is assumed of them. Where a statement would need that hashes do
  not collide, a collision of two concrete data is named in its place, or, for the pool, the statement is
  about transactions of which no two different ones have one hash (tx_graph_ok).

  The coins on disk. The flush and the undo files keep what CCoins and CTxInUndo read back from the bytes they
  write (disk_coins, disk_undo): all of it but a negative version, of which VARINT keeps the low seven bits.
  No rule reads the version, and Versions shows that ConnectBlock therefore decides the same over both; what
  is said of the coin database is said up to this loss.

  The static anchor. GetNextWorkRequiredPhoenix keeps its anchor in static variables that serve every branch.
  They are part of the state of the node; AcceptRules shows that with a checkpoint at the activation height, as
  the table has one, the targets it leads to are those of the branch at hand.

  What the lemmas show. Bounds and exactness of the difficulty rule and of the retarget; money: the
  subsidies of a chain stay within MAX_MONEY and a connected block creates no more than its subsidy; undo:
  what ConnectBlock writes takes the block back; in every reachable state the coin database is the replay of
  the best chain (up to versions), every block has the target its own branch demands, and a call of
  SetBestChain that a block makes fail changes no coins; the pool spends no output twice, and accepts what the
  rules allow; in every interleaving of the threads the queue answers the conjunction of its
  checks and can always go on to an answer; caches (of coins and of signatures, and the flags of a Bloom
  filter) do not change answers; round trips of every encoding; the interpreter's limits and the standard
  spending paths, from the key store to the verified script; the key store's invariant; Merkle branches and
  partial trees prove what they claim; what a signature commits to; addresses have one spelling.

  Bounds and fuel. Loops are structural recursions or have a measure; there is no fuel. Walks over pointers
  and recursions over dependent transactions that only end on well-formed data (chain walks, IsMine,
  remove_from, work_loop, encode_loop) are partial functions with proofs that they return in every reachable
  state or under the contract of the library. The statements hold for all inputs within the ranges of the C++
  types they name; base 58 is proved for strings and data shorter than 2^30, partial trees for the number of
  transactions ExtractMatches allows, MAX_BLOCK_SIZE div 60.

  Not modelled. Sockets, peers, and most messages (net, netbase, addrman, the dispatch of main.cpp):
  input and output. LevelDB, Berkeley DB and the block files: the views and stores behind the model's are
  functions. ConnectBestBlock with the status of failed blocks, the orphan blocks of ProcessBlock, and the
  notifications of the wallet. CombineSignatures. The constructor of CBloomFilter and the rate limiter of free
  transactions, which compute with floating point numbers. The JSON calls, the wallet's accounting, the Qt
  windows: glue over other libraries. SHA-256, RIPEMD-160 and scrypt are arguments. In ConnectBlock the
  script checks run at once; that the queue answers the same is the theory CheckQueue. Sums of amounts in the
  model are not cut to 64 bits; the range checks beside them keep them far below.
\<close>

end
